(* ===== verification/Rust_Prelude.thy ===== *)
theory Rust_Prelude
  imports Main "HOL-Library.Word" "HOL-Library.AList" "HOL-Library.More_List" "HOL-Library.Multiset" "HOL-Library.Code_Target_Nat"
begin

text \<open>
  The vocabulary every component of the development shares: the machine types of the Rust
  sources, their casts and their wrapping addition; the vector operations
  (\<open>Vec::resize\<close>, \<open>copy_from_slice\<close>); and the reading of an SQL table as an association
  list whose keys are the columns of its primary key or of its \<open>UNIQUE\<close> constraint.

  The collections: \<open>cast_simps\<close> for casts that do not lose information,
  \<open>table_simps\<close> for what a row lookup returns after a statement, \<open>table_intros\<close> for
  the key constraint every statement keeps.
\<close>

named_theorems cast_simps
named_theorems table_simps
named_theorems eval_simps "evaluation of concrete lists"
named_theorems table_intros

section \<open>Machine integers\<close>

type_synonym byte = "8 word"
type_synonym u32 = "32 word"

text \<open>
  \<open>i64\<close> values are \<open>int\<close>, \<open>u64\<close> and \<open>usize\<close> values (64-bit targets) are \<open>nat\<close>;
  the casts between them and the wrap-around of \<open>u64\<close> addition are written out.
\<close>

type_synonym i64 = int
type_synonym u64 = nat

definition as_i64 :: "u64 \<Rightarrow> i64" where
  "as_i64 n = (let m = n mod 2 ^ 64 in if m < 2 ^ 63 then int m else int m - 2 ^ 64)"

definition as_u64 :: "i64 \<Rightarrow> u64" where
  "as_u64 i = nat (i mod 2 ^ 64)"

definition as_u32 :: "i64 \<Rightarrow> u32" where
  "as_u32 i = word_of_int i"

definition u64_add :: "u64 \<Rightarrow> u64 \<Rightarrow> u64" where
  "u64_add a b = (a + b) mod 2 ^ 64"

definition u64_sub :: "u64 \<Rightarrow> u64 \<Rightarrow> u64" where
  "u64_sub a b = (a + (2 ^ 64 - b)) mod 2 ^ 64"

lemma u64_sub_le [cast_simps]: "b \<le> a \<Longrightarrow> a < 2 ^ 64 \<Longrightarrow> u64_sub a b = a - b"
  by (auto simp: u64_sub_def mod_if)

lemma as_i64_small [cast_simps]: "n < 2 ^ 63 \<Longrightarrow> as_i64 n = int n"
  by (simp add: as_i64_def Let_def)

lemma as_u64_of_nat [cast_simps]: "n < 2 ^ 64 \<Longrightarrow> as_u64 (int n) = n"
  by (simp add: as_u64_def nat_mod_distrib nat_power_eq)

lemma as_u64_as_i64: "n < 2 ^ 64 \<Longrightarrow> as_u64 (as_i64 n) = n"
  by (auto simp: as_u64_def as_i64_def Let_def nat_mod_distrib nat_power_eq)

lemma u64_add_small [cast_simps]: "a + b < 2 ^ 64 \<Longrightarrow> u64_add a b = a + b"
  by (simp add: u64_add_def)

lemma as_u64_bound: "as_u64 i < 2 ^ 64"
proof -
  have "nat (i mod 2 ^ 64) < nat (2 ^ 64)"
    by (subst nat_less_eq_zless) simp_all
  then show ?thesis by (simp add: as_u64_def nat_power_eq)
qed

section \<open>Vectors\<close>

text \<open>\<open>Vec::resize(n, x)\<close> cuts the vector or fills it up with \<open>x\<close>.\<close>

definition resize :: "nat \<Rightarrow> 'a \<Rightarrow> 'a list \<Rightarrow> 'a list" where
  "resize n x xs = take n xs @ replicate (n - length xs) x"

text \<open>\<open>dst[off..off + src.len()].copy_from_slice(src)\<close>, for a range inside \<open>dst\<close>.\<close>

definition copy_from_slice :: "nat \<Rightarrow> 'a list \<Rightarrow> 'a list \<Rightarrow> 'a list" where
  "copy_from_slice off src dst = take off dst @ src @ drop (off + length src) dst"

lemma length_resize [simp]: "length (resize n x xs) = n"
  by (simp add: resize_def)

lemma nth_default_resize: "nth_default x (resize n x xs) i = (if i < n then nth_default x xs i else x)"
  by (auto simp: resize_def nth_default_append nth_default_def)

lemma length_copy_from_slice [simp]:
  "off + length src \<le> length dst \<Longrightarrow> length (copy_from_slice off src dst) = length dst"
  by (simp add: copy_from_slice_def)

lemma nth_default_copy_from_slice:
  assumes "off + length src \<le> length dst"
  shows "nth_default x (copy_from_slice off src dst) i =
    (if off \<le> i \<and> i < off + length src then src ! (i - off) else nth_default x dst i)"
  using assms by (auto simp: copy_from_slice_def nth_default_def nth_append)

lemma nth_default_take: "nth_default x (take n xs) i = (if i < n then nth_default x xs i else x)"
  by (auto simp: nth_default_def)

lemma nth_default_drop: "nth_default x (drop n xs) i = nth_default x xs (n + i)"
  by (auto simp: nth_default_def)

lemma nth_default_map_upt:
  "nth_default x (map f [a..<b]) i = (if a + i < b then f (a + i) else x)"
  by (auto simp: nth_default_def)

lemma list_eq_nth_defaultI:
  assumes "length xs = length ys" and "\<And>i. i < length xs \<Longrightarrow> nth_default x xs i = nth_default x ys i"
  shows "xs = ys"
  using assms by (intro nth_equalityI) (auto simp: nth_default_def split: if_splits)

lemma div_mod_of_split:
  assumes "x = k * c + r" and "r < (c :: nat)"
  shows "x div c = k" "x mod c = r"
  using assms by simp_all

section \<open>SQL tables as association lists\<close>

text \<open>
  A table is the list of its rows in insertion order, each row split into its key and the
  rest. \<open>keyed\<close> says that the key constraint holds; every statement below keeps it, and
  under it \<open>map_of\<close> is the row a \<open>SELECT ... WHERE key = ?\<close> returns.
\<close>

definition keyed :: "('k \<times> 'v) list \<Rightarrow> bool" where
  "keyed t \<longleftrightarrow> distinct (map fst t)"

text \<open>\<open>INSERT INTO t\<close>: \<open>None\<close> when the key constraint refuses the row.\<close>

definition insert_row :: "'k \<Rightarrow> 'v \<Rightarrow> ('k \<times> 'v) list \<Rightarrow> ('k \<times> 'v) list option" where
  "insert_row k v t = (if k \<in> fst ` set t then None else Some (t @ [(k, v)]))"

text \<open>\<open>INSERT OR REPLACE INTO t\<close>: the old row goes, the new one is appended.\<close>

definition replace_row :: "'k \<Rightarrow> 'v \<Rightarrow> ('k \<times> 'v) list \<Rightarrow> ('k \<times> 'v) list" where
  "replace_row k v t = filter (\<lambda>r. fst r \<noteq> k) t @ [(k, v)]"

text \<open>\<open>UPDATE t SET ... WHERE key = ?\<close> and \<open>DELETE FROM t WHERE ...\<close>.\<close>

definition update_row :: "'k \<Rightarrow> ('v \<Rightarrow> 'v) \<Rightarrow> ('k \<times> 'v) list \<Rightarrow> ('k \<times> 'v) list" where
  "update_row k f t = map (\<lambda>r. if fst r = k then (fst r, f (snd r)) else r) t"

definition delete_rows :: "('k \<Rightarrow> bool) \<Rightarrow> ('k \<times> 'v) list \<Rightarrow> ('k \<times> 'v) list" where
  "delete_rows P t = filter (\<lambda>r. \<not> P (fst r)) t"

lemma keyed_Nil [table_intros]: "keyed []"
  by (simp add: keyed_def)

lemma keyed_insert_row [table_intros]: "keyed t \<Longrightarrow> insert_row k v t = Some t' \<Longrightarrow> keyed t'"
  by (auto simp: keyed_def insert_row_def split: if_splits)

lemma keyed_filter [table_intros]: "keyed t \<Longrightarrow> keyed (filter P t)"
  by (auto simp: keyed_def distinct_map_filter)

lemma keyed_replace_row [table_intros]: "keyed t \<Longrightarrow> keyed (replace_row k v t)"
  by (auto simp: keyed_def replace_row_def distinct_map_filter)

lemma map_fst_update_row [simp]: "map fst (update_row k f t) = map fst t"
  by (simp add: update_row_def)

lemma keyed_update_row [table_intros]: "keyed t \<Longrightarrow> keyed (update_row k f t)"
  by (simp add: keyed_def)

lemma keyed_delete_rows [table_intros]: "keyed t \<Longrightarrow> keyed (delete_rows P t)"
  by (simp add: delete_rows_def keyed_filter)

lemma map_of_insert_row [table_simps]:
  "insert_row k v t = Some t' \<Longrightarrow> map_of t' = (map_of t)(k \<mapsto> v)"
  by (auto simp: insert_row_def map_add_def fun_eq_iff dom_map_of_conv_image_fst [symmetric]
      split: if_splits option.splits)

lemma map_of_filter_fst: "map_of (filter (\<lambda>r. P (fst r)) t) k = (if P k then map_of t k else None)"
  by (induction t) auto

lemma map_of_replace_row [table_simps]: "map_of (replace_row k v t) = (map_of t)(k \<mapsto> v)"
  by (auto simp: replace_row_def fun_eq_iff map_add_def map_of_filter_fst [of "\<lambda>x. x \<noteq> k"]
      split: option.splits)

lemma map_of_update_row [table_simps]:
  "map_of (update_row k f t) k' = (if k' = k then map_option f (map_of t k') else map_of t k')"
  unfolding update_row_def by (induction t) auto

lemma map_of_delete_rows [table_simps]:
  "map_of (delete_rows P t) k = (if P k then None else map_of t k)"
  by (simp add: delete_rows_def map_of_filter_fst [of "\<lambda>x. \<not> P x"])

lemma insert_row_None_iff [table_simps]: "insert_row k v t = None \<longleftrightarrow> map_of t k \<noteq> None"
  by (auto simp: insert_row_def map_of_eq_None_iff)

lemma insert_row_fresh: "map_of t k = None \<Longrightarrow> insert_row k v t = Some (t @ [(k, v)])"
  by (simp add: insert_row_def map_of_eq_None_iff)

lemma replicate_numeral [eval_simps]: "replicate (numeral k) x = x # replicate (pred_numeral k) x"
  by (simp add: numeral_eq_Suc)

end
