(* ===== verification/Fs_Types.thy ===== *)
theory Fs_Types
  imports Rust_Prelude
begin

unbundle bit_operations_syntax

text \<open>
  The data of \<open>appfs/sdk/rust/src/filesystem/mod.rs\<close> and of \<open>error.rs\<close>: the errors
  with their errno codes, the mode bits, the file statistics and the timestamp requests.
\<close>

section \<open>Errors\<close>

datatype fs_error =
    NotFound
  | AlreadyExists
  | NotEmpty
  | NotADirectory
  | IsADirectory
  | NotASymlink
  | InvalidPath
  | RootOperation
  | SymlinkLoop
  | InvalidRename
  | NameTooLong

text \<open>
  The crate's error type. An error of another crate is carried as its message. \<open>Panic\<close> is
  not a variant of the source: it stands for a Rust panic (a division by zero, a slice out of
  range), which no caller can match on. \<open>PathNotADirectory\<close> is \<open>Error::NotADirectory\<close>, renamed
  apart from \<open>FsError::NotADirectory\<close>.
\<close>

datatype sdk_error =
    Database string
  | Io string
  | Json string
  | Time string
  | Fs fs_error
  | InvalidAgentId string
  | AgentNotFound string string
  | InvalidUtf8Path string
  | BaseDirectoryNotFound string
  | PathNotADirectory string
  | ToolCallNotFound
  | SyncNotEnabled
  | ConnectionPoolTimeout
  | EncryptionNotSupported string
  | InvalidEncryptionKey string
  | Internal string
  | SchemaVersionMismatch string string
  | Panic string

type_synonym 'a result = "sdk_error + 'a"

text \<open>The errno constants come from the \<open>libc\<close> crate, which differs by platform.\<close>

record libc_errno =
  ENOENT :: int
  EEXIST :: int
  ENOTEMPTY :: int
  ENOTDIR :: int
  EISDIR :: int
  EINVAL :: int
  EPERM :: int
  ELOOP :: int
  ENAMETOOLONG :: int

fun to_errno :: "libc_errno \<Rightarrow> fs_error \<Rightarrow> int" where
  "to_errno libc NotFound = ENOENT libc"
| "to_errno libc AlreadyExists = EEXIST libc"
| "to_errno libc NotEmpty = ENOTEMPTY libc"
| "to_errno libc NotADirectory = ENOTDIR libc"
| "to_errno libc IsADirectory = EISDIR libc"
| "to_errno libc NotASymlink = EINVAL libc"
| "to_errno libc InvalidPath = EINVAL libc"
| "to_errno libc RootOperation = EPERM libc"
| "to_errno libc SymlinkLoop = ELOOP libc"
| "to_errno libc InvalidRename = EINVAL libc"
| "to_errno libc NameTooLong = ENAMETOOLONG libc"

section \<open>Modes\<close>

definition MAX_NAME_LEN :: nat where
  "MAX_NAME_LEN = 255"

text \<open>The octal constants of the source in decimal.\<close>

definition S_IFMT :: u32 where "S_IFMT = 61440"
definition S_IFREG :: u32 where "S_IFREG = 32768"
definition S_IFDIR :: u32 where "S_IFDIR = 16384"
definition S_IFLNK :: u32 where "S_IFLNK = 40960"
definition S_IFIFO :: u32 where "S_IFIFO = 4096"
definition S_IFCHR :: u32 where "S_IFCHR = 8192"
definition S_IFBLK :: u32 where "S_IFBLK = 24576"
definition S_IFSOCK :: u32 where "S_IFSOCK = 49152"

text \<open>\<open>0o7777\<close>, the permission bits a caller may set.\<close>

abbreviation PERM_MASK :: u32 where "PERM_MASK \<equiv> 4095"

definition DEFAULT_FILE_MODE :: u32 where "DEFAULT_FILE_MODE = S_IFREG OR 420"
definition DEFAULT_DIR_MODE :: u32 where "DEFAULT_DIR_MODE = S_IFDIR OR 493"

lemmas mode_consts = S_IFMT_def S_IFREG_def S_IFDIR_def S_IFLNK_def S_IFIFO_def S_IFCHR_def
  S_IFBLK_def S_IFSOCK_def DEFAULT_FILE_MODE_def DEFAULT_DIR_MODE_def

text \<open>A timestamp is what \<open>SystemTime::now()\<close> gave: seconds and nanoseconds.\<close>

type_synonym timestamp = "i64 \<times> u32"

datatype time_change = Omit | Now | Set i64 u32

section \<open>File statistics\<close>

record stats =
  st_ino :: i64
  st_mode :: u32
  st_nlink :: u32
  st_uid :: u32
  st_gid :: u32
  st_size :: i64
  st_atime :: i64
  st_mtime :: i64
  st_ctime :: i64
  st_atime_nsec :: u32
  st_mtime_nsec :: u32
  st_ctime_nsec :: u32
  st_rdev :: "64 word"

record filesystem_stats =
  fs_inodes :: u64
  fs_bytes_used :: u64

record dir_entry =
  de_name :: string
  de_stats :: stats

definition mode_is :: "u32 \<Rightarrow> u32 \<Rightarrow> bool" where
  "mode_is m kind \<longleftrightarrow> m AND S_IFMT = kind"

definition is_file :: "stats \<Rightarrow> bool" where
  "is_file s \<longleftrightarrow> mode_is (st_mode s) S_IFREG"

definition is_directory :: "stats \<Rightarrow> bool" where
  "is_directory s \<longleftrightarrow> mode_is (st_mode s) S_IFDIR"

definition is_symlink :: "stats \<Rightarrow> bool" where
  "is_symlink s \<longleftrightarrow> mode_is (st_mode s) S_IFLNK"

text \<open>
  The permission bits never reach the type bits: a mode built from a kind and masked
  permissions has that kind, whatever bits the caller passed.
\<close>

lemma perm_bits_no_kind: "(m AND PERM_MASK) AND S_IFMT = 0"
proof -
  have "(m AND PERM_MASK) AND S_IFMT = m AND (PERM_MASK AND S_IFMT)"
    by (simp only: and.assoc)
  also have "PERM_MASK AND S_IFMT = 0"
    by (simp add: S_IFMT_def)
  finally show ?thesis by simp
qed

lemma kind_of_masked [simp]:
  "kind AND S_IFMT = kind \<Longrightarrow> (kind OR (m AND PERM_MASK)) AND S_IFMT = kind"
  by (simp only: bit.conj_disj_distrib2 perm_bits_no_kind) simp

lemma kind_consts_masked [simp]:
  "S_IFREG AND S_IFMT = S_IFREG" "S_IFDIR AND S_IFMT = S_IFDIR" "S_IFLNK AND S_IFMT = S_IFLNK"
  by (simp_all add: mode_consts)

lemma kinds_distinct [simp]:
  "S_IFREG \<noteq> S_IFDIR" "S_IFDIR \<noteq> S_IFREG" "S_IFLNK \<noteq> S_IFDIR" "S_IFDIR \<noteq> S_IFLNK"
  "S_IFREG \<noteq> S_IFLNK" "S_IFLNK \<noteq> S_IFREG"
  by (simp_all add: mode_consts)

lemma default_modes_masked [simp]:
  "DEFAULT_FILE_MODE AND S_IFMT = S_IFREG" "DEFAULT_DIR_MODE AND S_IFMT = S_IFDIR"
  "(S_IFLNK OR 511) AND S_IFMT = S_IFLNK"
  by (simp_all add: mode_consts)

end
