(* ===== verification/Rust_Text.thy ===== *)
theory Rust_Text
  imports Rust_Prelude "HOL-Library.List_Lexorder" "HOL-Library.Char_ord"
begin

unbundle bit_operations_syntax

text \<open>
  The string methods of the Rust standard library that the sources use. A Rust string is the
  list of its UTF-8 bytes, one \<open>char\<close> each; what the code does per character goes through
  \<open>chars\<close>, which cuts the bytes into encoded characters.
\<close>

section \<open>Splitting, joining, trimming\<close>

fun str_split :: "char \<Rightarrow> string \<Rightarrow> string list" where
  "str_split c [] = [[]]"
| "str_split c (x # xs) =
     (if x = c then [] # str_split c xs
      else case str_split c xs of
             [] \<Rightarrow> [[x]]
           | y # ys \<Rightarrow> (x # y) # ys)"

fun str_join :: "string \<Rightarrow> string list \<Rightarrow> string" where
  "str_join sep [] = []"
| "str_join sep [x] = x"
| "str_join sep (x # y # ys) = x @ sep @ str_join sep (y # ys)"

definition trim_end_matches :: "char \<Rightarrow> string \<Rightarrow> string" where
  "trim_end_matches c s = rev (dropWhile (\<lambda>x. x = c) (rev s))"

definition trim_start_matches :: "char \<Rightarrow> string \<Rightarrow> string" where
  "trim_start_matches c s = dropWhile (\<lambda>x. x = c) s"

text \<open>\<open>str::strip_prefix\<close>.\<close>

definition strip_prefix :: "string \<Rightarrow> string \<Rightarrow> string option" where
  "strip_prefix pre s = (if take (length pre) s = pre then Some (drop (length pre) s) else None)"

definition starts_with :: "string \<Rightarrow> string \<Rightarrow> bool" where
  "starts_with pre s \<longleftrightarrow> take (length pre) s = pre"

definition ends_with :: "string \<Rightarrow> string \<Rightarrow> bool" where
  "ends_with suf s \<longleftrightarrow> length suf \<le> length s \<and> drop (length s - length suf) s = suf"

text \<open>\<open>s.trim_matches(c)\<close>, \<open>to_ascii_uppercase\<close> and \<open>to_ascii_lowercase\<close>.\<close>

definition trim_matches :: "char \<Rightarrow> string \<Rightarrow> string" where
  "trim_matches c s = trim_end_matches c (trim_start_matches c s)"

definition code :: "char \<Rightarrow> nat" where
  "code c = of_char c"

definition to_ascii_uppercase :: "string \<Rightarrow> string" where
  "to_ascii_uppercase s = map (\<lambda>c. if 97 \<le> code c \<and> code c \<le> 122 then char_of (code c - 32) else c) s"

definition to_ascii_lowercase :: "string \<Rightarrow> string" where
  "to_ascii_lowercase s = map (\<lambda>c. if 65 \<le> code c \<and> code c \<le> 90 then char_of (code c + 32) else c) s"

definition is_ascii_alphabetic :: "char \<Rightarrow> bool" where
  "is_ascii_alphabetic c \<longleftrightarrow> 65 \<le> code c \<and> code c \<le> 90 \<or> 97 \<le> code c \<and> code c \<le> 122"

definition is_ascii_digit :: "char \<Rightarrow> bool" where
  "is_ascii_digit c \<longleftrightarrow> 48 \<le> code c \<and> code c \<le> 57"

lemma str_split_neq_Nil [simp]: "str_split c s \<noteq> []"
  by (induction s) (auto split: list.splits)

lemma str_split_no_sep: "x \<in> set (str_split c s) \<Longrightarrow> c \<notin> set x"
  by (induction s arbitrary: x) (auto split: list.splits if_splits)

lemma str_split_append_sep: "c \<notin> set x \<Longrightarrow> str_split c (x @ c # s) = x # str_split c s"
  by (induction x) (auto split: list.splits)

lemma str_split_single: "c \<notin> set x \<Longrightarrow> str_split c x = [x]"
  by (induction x) auto

lemma str_join_eq_Nil: "\<forall>c \<in> set cs. c \<noteq> [] \<Longrightarrow> str_join sep cs = [] \<longleftrightarrow> cs = []"
  by (induction sep cs rule: str_join.induct) auto

lemma last_str_join: "cs \<noteq> [] \<Longrightarrow> last cs \<noteq> [] \<Longrightarrow> str_join sep cs \<noteq> [] \<and> last (str_join sep cs) = last (last cs)"
  by (induction sep cs rule: str_join.induct) auto

lemma trim_end_matches_id: "s \<noteq> [] \<Longrightarrow> last s \<noteq> c \<Longrightarrow> trim_end_matches c s = s"
  by (cases s rule: rev_cases) (auto simp: trim_end_matches_def)

section \<open>Decimal numbers\<close>

text \<open>The decimal digits of \<open>u64::to_string\<close> and \<open>str::parse::<usize>\<close>.\<close>

fun to_decimal :: "nat \<Rightarrow> string" where
  "to_decimal n = (if n < 10 then [char_of (48 + n)] else to_decimal (n div 10) @ [char_of (48 + n mod 10)])"

declare to_decimal.simps [simp del]

definition digit_of :: "char \<Rightarrow> nat option" where
  "digit_of c = (let v = of_char c in if 48 \<le> v \<and> v \<le> (57 :: nat) then Some (v - 48) else None)"

text \<open>Digits are read left to right; a value that does not fit in 64 bits is refused.\<close>

fun parse_digits :: "nat \<Rightarrow> string \<Rightarrow> nat option" where
  "parse_digits acc [] = Some acc"
| "parse_digits acc (c # cs) =
     (case digit_of c of
        None \<Rightarrow> None
      | Some v \<Rightarrow> if 10 * acc + v < 2 ^ 64 then parse_digits (10 * acc + v) cs else None)"

definition parse_usize :: "string \<Rightarrow> nat option" where
  "parse_usize s =
     (case s of
        [] \<Rightarrow> None
      | c # cs \<Rightarrow> if c = CHR ''+'' then (if cs = [] then None else parse_digits 0 cs)
                  else parse_digits 0 s)"

lemma digit_of_char_of [simp]: "n < 10 \<Longrightarrow> digit_of (char_of (48 + n)) = Some n"
  by (simp add: digit_of_def Let_def)

lemma parse_digits_append:
  "parse_digits acc (xs @ ys) = Option.bind (parse_digits acc xs) (\<lambda>n. parse_digits n ys)"
  by (induction xs arbitrary: acc) (auto split: option.splits)

lemma parse_digits_to_decimal: "n < 2 ^ 64 \<Longrightarrow> parse_digits 0 (to_decimal n) = Some n"
proof (induction n rule: to_decimal.induct)
  case (1 n)
  show ?case
  proof (cases "n < 10")
    case True
    then show ?thesis by (simp add: to_decimal.simps [of n])
  next
    case False
    with 1 have "parse_digits 0 (to_decimal (n div 10)) = Some (n div 10)"
      by (simp add: div_less_dividend less_imp_le order.strict_trans1 [OF div_le_dividend])
    moreover have "10 * (n div 10) + n mod 10 = n" by simp
    ultimately show ?thesis
      using False \<open>n < 2 ^ 64\<close>
      by (simp add: to_decimal.simps [of n] parse_digits_append)
  qed
qed

lemma to_decimal_head: "\<exists>(v :: nat) xs. v < 10 \<and> to_decimal n = char_of (48 + v) # xs"
proof (induction n rule: to_decimal.induct)
  case (1 n)
  show ?case
  proof (cases "n < 10")
    case True
    then show ?thesis by (auto simp: to_decimal.simps [of n])
  next
    case False
    with 1 obtain v :: nat and xs where "v < 10" "to_decimal (n div 10) = char_of (48 + v) # xs" by blast
    with False show ?thesis by (auto simp: to_decimal.simps [of n])
  qed
qed

lemma char_of_digit_not_plus: "v < 10 \<Longrightarrow> char_of (48 + v :: nat) \<noteq> CHR ''+''"
proof
  assume "v < 10" and "char_of (48 + v :: nat) = CHR ''+''"
  then have "digit_of (CHR ''+'') = Some v" by (metis digit_of_char_of)
  then show False by (simp add: digit_of_def Let_def)
qed

theorem parse_usize_to_decimal:
  assumes "n < 2 ^ 64"
  shows "parse_usize (to_decimal n) = Some n"
proof -
  obtain v :: nat and xs where v: "v < 10" "to_decimal n = char_of (48 + v) # xs"
    using to_decimal_head by blast
  with parse_digits_to_decimal [OF assms] show ?thesis
    by (simp add: parse_usize_def char_of_digit_not_plus)
qed

section \<open>UTF-8\<close>

text \<open>
  The length of the character that starts a byte sequence, 0 when no character does, as
  \<open>str::from_utf8\<close> accepts them: no overlong forms, no surrogates, nothing beyond U+10FFFF.
\<close>

definition utf8_cont :: "nat \<Rightarrow> bool" where
  "utf8_cont b \<longleftrightarrow> 128 \<le> b \<and> b \<le> 191"

definition utf8_second :: "nat \<Rightarrow> nat \<Rightarrow> bool" where
  "utf8_second b0 b1 \<longleftrightarrow>
     (if b0 = 224 then 160 \<le> b1 \<and> b1 \<le> 191
      else if b0 = 237 then 128 \<le> b1 \<and> b1 \<le> 159
      else if b0 = 240 then 144 \<le> b1 \<and> b1 \<le> 191
      else if b0 = 244 then 128 \<le> b1 \<and> b1 \<le> 143
      else utf8_cont b1)"

definition utf8_width :: "nat \<Rightarrow> nat" where
  "utf8_width b0 = (if b0 < 128 then 1 else if 194 \<le> b0 \<and> b0 \<le> 223 then 2
     else if 224 \<le> b0 \<and> b0 \<le> 239 then 3 else if 240 \<le> b0 \<and> b0 \<le> 244 then 4 else 0)"

definition utf8_head :: "nat list \<Rightarrow> nat" where
  "utf8_head bs =
     (case bs of
        [] \<Rightarrow> 0
      | b0 # r \<Rightarrow>
          let w = utf8_width b0
          in if w \<le> 1 then w
             else if length bs < w then 0
             else if utf8_second b0 (r ! 0) \<and> list_all utf8_cont (take (w - 2) (drop 1 r)) then w else 0)"

text \<open>\<open>Utf8Error::error_len\<close> at the first byte that starts no character.\<close>

definition utf8_error_len :: "nat list \<Rightarrow> nat option" where
  "utf8_error_len bs =
     (case bs of
        [] \<Rightarrow> None
      | b0 # r \<Rightarrow>
          let w = utf8_width b0
          in if w = 0 then Some 1
             else if r = [] then None
             else if \<not> utf8_second b0 (r ! 0) then Some 1
             else if length r < 2 then None
             else if \<not> utf8_cont (r ! 1) then Some 2
             else if length r < 3 then None
             else Some 3)"

lemma utf8_head_le: "utf8_head bs \<le> length bs"
proof (cases bs)
  case (Cons b r)
  then show ?thesis unfolding utf8_head_def by (simp only: list.case Let_def split: if_split) auto
qed (simp add: utf8_head_def)

function valid_up_to :: "nat list \<Rightarrow> nat" where
  "valid_up_to bs = (let n = utf8_head bs in if n = 0 then 0 else n + valid_up_to (drop n bs))"
  by pat_completeness auto
termination
proof (relation "measure length")
  show "(drop n bs, bs) \<in> measure length" if "n = utf8_head bs" "n \<noteq> 0" for bs n
    using that utf8_head_le [of bs] by simp
qed simp

declare valid_up_to.simps [simp del]

text \<open>\<open>std::str::from_utf8\<close>, with the text of its error.\<close>

definition from_utf8 :: "byte list \<Rightarrow> string + string" where
  "from_utf8 bytes =
     (let bs = map unat bytes; n = valid_up_to bs
      in if n = length bs then Inr (map char_of bs)
         else Inl (case utf8_error_len (drop n bs) of
                     Some k \<Rightarrow> ''invalid utf-8 sequence of '' @ to_decimal k @ '' bytes from index '' @ to_decimal n
                   | None \<Rightarrow> ''incomplete utf-8 byte sequence from index '' @ to_decimal n))"

text \<open>\<open>s.chars()\<close>: the encoded characters; a byte that starts none (which a \<open>str\<close> never has) stands alone.\<close>

function chars :: "string \<Rightarrow> string list" where
  "chars [] = []"
| "chars (c # cs) = (let n = max 1 (utf8_head (map code (c # cs))) in take n (c # cs) # chars (drop n (c # cs)))"
  by pat_completeness auto
termination by (relation "measure length") auto

text \<open>\<open>String::push(ch)\<close> for a code point.\<close>

definition encode_utf8 :: "nat \<Rightarrow> string" where
  "encode_utf8 p =
     map char_of
       (if p < 128 then [p]
        else if p < 2048 then [192 + p div 64, 128 + p mod 64]
        else if p < 65536 then [224 + p div 4096, 128 + p div 64 mod 64, 128 + p mod 64]
        else [240 + p div 262144, 128 + p div 4096 mod 64, 128 + p div 64 mod 64, 128 + p mod 64])"

text \<open>The characters with the Unicode property \<open>White_Space\<close>, and \<open>str::trim\<close>.\<close>

definition is_whitespace :: "string \<Rightarrow> bool" where
  "is_whitespace ch \<longleftrightarrow> ch \<in> set (map encode_utf8
     ([9, 10, 11, 12, 13, 32, 133, 160, 5760] @ [8192..<8203] @ [8232, 8233, 8239, 8287, 12288]))"

definition str_trim :: "string \<Rightarrow> string" where
  "str_trim s = concat (rev (dropWhile is_whitespace (rev (dropWhile is_whitespace (chars s)))))"

section \<open>Searching and words\<close>

text \<open>\<open>s.find(pat)\<close> and \<open>s.contains(pat)\<close>: the first byte position of a pattern.\<close>

fun str_find :: "string \<Rightarrow> string \<Rightarrow> nat option" where
  "str_find pat [] = (if pat = [] then Some 0 else None)"
| "str_find pat (x # xs) = (if starts_with pat (x # xs) then Some 0 else map_option Suc (str_find pat xs))"

definition str_contains :: "string \<Rightarrow> string \<Rightarrow> bool" where
  "str_contains s pat \<longleftrightarrow> str_find pat s \<noteq> None"

text \<open>\<open>s.replace(a, b)\<close> for a pattern that is not empty.\<close>

function str_replace :: "string \<Rightarrow> string \<Rightarrow> string \<Rightarrow> string" where
  "str_replace a b s =
     (if s = [] then []
      else if a \<noteq> [] \<and> starts_with a s then b @ str_replace a b (drop (length a) s)
      else hd s # str_replace a b (tl s))"
  by pat_completeness auto
termination by (relation "measure (\<lambda>(a, b, s). length s)") auto

declare str_replace.simps [simp del]

definition strip_suffix :: "string \<Rightarrow> string \<Rightarrow> string option" where
  "strip_suffix suf s = (if ends_with suf s then Some (take (length s - length suf) s) else None)"

definition trim_start :: "string \<Rightarrow> string" where
  "trim_start s = concat (dropWhile is_whitespace (chars s))"

fun split_ws :: "string \<Rightarrow> string list \<Rightarrow> string list" where
  "split_ws cur [] = (if cur = [] then [] else [cur])"
| "split_ws cur (ch # chs) =
     (if is_whitespace ch then (if cur = [] then split_ws [] chs else cur # split_ws [] chs)
      else split_ws (cur @ ch) chs)"

definition split_whitespace :: "string \<Rightarrow> string list" where
  "split_whitespace s = split_ws [] (chars s)"

text \<open>\<open>s.find(char::is_whitespace)\<close>.\<close>

definition find_whitespace :: "string \<Rightarrow> nat option" where
  "find_whitespace s =
     (if list_ex is_whitespace (chars s) then Some (length (concat (takeWhile (\<lambda>ch. \<not> is_whitespace ch) (chars s)))) else None)"

text \<open>\<open>&s[i..]\<close>: a position that is not the start of a character panics, here \<open>None\<close>.\<close>

definition is_char_boundary :: "string \<Rightarrow> nat \<Rightarrow> bool" where
  "is_char_boundary s i \<longleftrightarrow> i = length s \<or> i < length s \<and> \<not> utf8_cont (code (s ! i))"

definition slice_from :: "string \<Rightarrow> nat \<Rightarrow> string option" where
  "slice_from s i = (if is_char_boundary s i then Some (drop i s) else None)"

lemma str_find_le: "str_find pat s = Some i \<Longrightarrow> i + length pat \<le> length s"
proof (induction pat s arbitrary: i rule: str_find.induct)
  case (2 pat x xs)
  show ?case
  proof (cases "starts_with pat (x # xs)")
    case True
    then have "length (take (length pat) (x # xs)) = length pat" by (simp add: starts_with_def)
    with True "2.prems" show ?thesis by simp
  qed (use 2 in auto)
qed (auto split: if_splits)

lemma str_find_char: "str_find [c] s = None \<longleftrightarrow> c \<notin> set s"
  by (induction s) (auto simp: starts_with_def)

lemma str_contains_char: "str_contains s [c] \<longleftrightarrow> c \<in> set s"
  by (simp add: str_contains_def str_find_char)

lemma concat_chars: "concat (chars s) = s"
proof (induction s rule: chars.induct)
  case (2 c cs)
  then show ?case by (simp only: chars.simps Let_def concat.simps append_take_drop_id)
qed simp

lemma valid_up_to_le: "valid_up_to bs \<le> length bs"
proof (induction bs rule: valid_up_to.induct)
  case (1 bs)
  with utf8_head_le [of bs] show ?case by (cases "utf8_head bs = 0") (simp_all add: valid_up_to.simps [of bs] Let_def)
qed

end
