(* ===== verification/Fs_Tables.thy ===== *)
theory Fs_Tables
  imports Fs_Types Rust_Text
begin

unbundle bit_operations_syntax

text \<open>
  The SQLite database behind an AgentFS: the tables of \<open>AgentFS::initialize_schema\<close> in
  \<open>appfs/sdk/rust/src/filesystem/agentfs.rs\<close>, the statements its operations execute, the
  initialisation of a database and the reading of the chunk size.

  Columns have the Rust type that is written to and read from them. Inode numbers are
  allocated as \<open>AUTOINCREMENT\<close> does: one more than the largest number ever used.
\<close>

section \<open>Tables\<close>

record inode_row =
  r_mode :: u32
  r_nlink :: i64
  r_uid :: u32
  r_gid :: u32
  r_size :: i64
  r_atime :: i64
  r_mtime :: i64
  r_ctime :: i64
  r_rdev :: "64 word"
  r_atime_nsec :: u32
  r_mtime_nsec :: u32
  r_ctime_nsec :: u32

record db =
  fs_config :: "(string \<times> string) list"
  fs_inode :: "(i64 \<times> inode_row) list"
  inode_seq :: i64
  fs_dentry :: "((i64 \<times> string) \<times> i64) list"
  fs_data :: "((i64 \<times> i64) \<times> byte list) list"
  fs_symlink :: "(i64 \<times> string) list"

definition empty_db :: db where
  "empty_db = \<lparr>fs_config = [], fs_inode = [], inode_seq = 0, fs_dentry = [], fs_data = [],
     fs_symlink = []\<rparr>"

definition ROOT_INO :: i64 where "ROOT_INO = 1"
definition DEFAULT_CHUNK_SIZE :: nat where "DEFAULT_CHUNK_SIZE = 4096"

section \<open>Statements\<close>

definition select_inode :: "db \<Rightarrow> i64 \<Rightarrow> inode_row option" where
  "select_inode d ino = map_of (fs_inode d) ino"

text \<open>\<open>SELECT size FROM fs_inode WHERE ino = ?\<close>, 0 when there is no row.\<close>

definition select_size :: "db \<Rightarrow> i64 \<Rightarrow> u64" where
  "select_size d ino = (case select_inode d ino of None \<Rightarrow> 0 | Some r \<Rightarrow> as_u64 (r_size r))"

definition update_inode :: "i64 \<Rightarrow> (inode_row \<Rightarrow> inode_row) \<Rightarrow> db \<Rightarrow> db" where
  "update_inode ino f d = d\<lparr>fs_inode := update_row ino f (fs_inode d)\<rparr>"

text \<open>\<open>INSERT INTO fs_inode ... RETURNING ino\<close>.\<close>

definition insert_inode :: "inode_row \<Rightarrow> db \<Rightarrow> i64 \<times> db" where
  "insert_inode r d =
     (let ino = inode_seq d + 1
      in (ino, d\<lparr>fs_inode := fs_inode d @ [(ino, r)], inode_seq := ino\<rparr>))"

definition delete_inode :: "i64 \<Rightarrow> db \<Rightarrow> db" where
  "delete_inode ino d = d\<lparr>fs_inode := delete_rows (\<lambda>k. k = ino) (fs_inode d)\<rparr>"

text \<open>\<open>INSERT INTO fs_dentry\<close>; \<open>None\<close> when \<open>UNIQUE(parent_ino, name)\<close> refuses it.\<close>

definition insert_dentry :: "string \<Rightarrow> i64 \<Rightarrow> i64 \<Rightarrow> db \<Rightarrow> db option" where
  "insert_dentry name parent_ino ino d =
     map_option (\<lambda>t. d\<lparr>fs_dentry := t\<rparr>) (insert_row (parent_ino, name) ino (fs_dentry d))"

definition delete_dentry :: "i64 \<Rightarrow> string \<Rightarrow> db \<Rightarrow> db" where
  "delete_dentry parent_ino name d =
     d\<lparr>fs_dentry := delete_rows (\<lambda>k. k = (parent_ino, name)) (fs_dentry d)\<rparr>"

text \<open>
  \<open>UPDATE fs_dentry SET parent_ino = ?, name = ? WHERE parent_ino = ? AND name = ?\<close>: the
  constraint refuses it when the row exists and another row already has the new key.
\<close>

definition move_dentry :: "i64 \<times> string \<Rightarrow> i64 \<times> string \<Rightarrow> db \<Rightarrow> db option" where
  "move_dentry old new d =
     (if old \<in> fst ` set (fs_dentry d) \<and> new \<noteq> old \<and> new \<in> fst ` set (fs_dentry d) then None
      else Some (d\<lparr>fs_dentry := map (\<lambda>r. if fst r = old then (new, snd r) else r) (fs_dentry d)\<rparr>))"

definition delete_data :: "i64 \<Rightarrow> db \<Rightarrow> db" where
  "delete_data ino d = d\<lparr>fs_data := delete_rows (\<lambda>k. fst k = ino) (fs_data d)\<rparr>"

definition delete_symlink :: "i64 \<Rightarrow> db \<Rightarrow> db" where
  "delete_symlink ino d = d\<lparr>fs_symlink := delete_rows (\<lambda>k. k = ino) (fs_symlink d)\<rparr>"

text \<open>\<open>SELECT COUNT(*) FROM fs_dentry WHERE parent_ino = ?\<close>.\<close>

definition count_children :: "db \<Rightarrow> i64 \<Rightarrow> nat" where
  "count_children d ino = length (filter (\<lambda>r. fst (fst r) = ino) (fs_dentry d))"

section \<open>Initialisation\<close>

definition read_chunk_size :: "db \<Rightarrow> nat" where
  "read_chunk_size d =
     (case map_of (fs_config d) ''chunk_size'' of
        Some v \<Rightarrow> (case parse_usize v of Some n \<Rightarrow> n | None \<Rightarrow> DEFAULT_CHUNK_SIZE)
      | None \<Rightarrow> DEFAULT_CHUNK_SIZE)"

text \<open>
  \<open>CREATE TABLE IF NOT EXISTS\<close> leaves existing tables alone and a fresh database is
  \<open>empty_db\<close>, so what remains of \<open>initialize_schema\<close> is the rows it writes: the chunk size
  unless one is stored, the schema version (a constant of \<open>schema.rs\<close>), and the root inode
  or, for an existing database, its owner.
\<close>

definition AGENTFS_SCHEMA_VERSION :: string where
  "AGENTFS_SCHEMA_VERSION = ''0.4''"

definition root_row :: "u32 \<Rightarrow> u32 \<Rightarrow> timestamp \<Rightarrow> inode_row" where
  "root_row uid gid now =
     \<lparr>r_mode = DEFAULT_DIR_MODE, r_nlink = 2, r_uid = uid, r_gid = gid, r_size = 0,
      r_atime = fst now, r_mtime = fst now, r_ctime = fst now, r_rdev = 0,
      r_atime_nsec = snd now, r_mtime_nsec = snd now, r_ctime_nsec = snd now\<rparr>"

definition initialize_schema :: "u32 \<Rightarrow> u32 \<Rightarrow> timestamp \<Rightarrow> db \<Rightarrow> db" where
  "initialize_schema uid gid now d =
     (let d1 = (case map_of (fs_config d) ''chunk_size'' of
                  None \<Rightarrow> d\<lparr>fs_config := fs_config d @ [(''chunk_size'', to_decimal DEFAULT_CHUNK_SIZE)]\<rparr>
                | Some _ \<Rightarrow> d);
          d2 = d1\<lparr>fs_config := replace_row ''schema_version'' AGENTFS_SCHEMA_VERSION (fs_config d1)\<rparr>
      in case select_inode d2 ROOT_INO of
           None \<Rightarrow> d2\<lparr>fs_inode := fs_inode d2 @ [(ROOT_INO, root_row uid gid now)],
                      inode_seq := max (inode_seq d2) ROOT_INO\<rparr>
         | Some _ \<Rightarrow> update_inode ROOT_INO (\<lambda>r. r\<lparr>r_uid := uid, r_gid := gid\<rparr>) d2)"

end
