(* ===== verification/File_Content.thy ===== *)
theory File_Content
  imports Fs_Tables
begin

text \<open>
  The open file handle \<open>AgentFSFile\<close> of \<open>appfs/sdk/rust/src/filesystem/agentfs.rs\<close>:
  \<open>pread\<close>, \<open>pwrite\<close>, \<open>truncate\<close> and \<open>fstat\<close> over the chunk rows of \<open>fs_data\<close>. The
  contract is that of a byte array (locale \<open>byte_file\<close>): the chunk representation, with its
  missing and short chunks, is a refinement of it (interpretation \<open>chunked\<close>).
\<close>

section \<open>The file handle\<close>

record agentfs_file =
  f_ino :: i64
  f_chunk_size :: nat

text \<open>
  \<open>SELECT chunk_index, data FROM fs_data WHERE ino = ? AND chunk_index >= ? AND
  chunk_index <= ? ORDER BY chunk_index\<close>.
\<close>

definition select_chunks :: "db \<Rightarrow> i64 \<Rightarrow> i64 \<Rightarrow> i64 \<Rightarrow> (i64 \<times> byte list) list" where
  "select_chunks d ino lo hi =
     sort_key fst (map (\<lambda>r. (snd (fst r), snd r))
       (filter (\<lambda>r. fst (fst r) = ino \<and> lo \<le> snd (fst r) \<and> snd (fst r) \<le> hi) (fs_data d)))"

subsection \<open>pread\<close>

text \<open>The inner loop: zeros for the chunks between two rows.\<close>

function pread_gap ::
  "nat \<Rightarrow> nat \<Rightarrow> nat \<Rightarrow> nat \<Rightarrow> nat \<Rightarrow> nat \<Rightarrow> byte list \<Rightarrow> byte list" where
  "pread_gap cs sz start_chunk start_offset chunk_index next result =
     (if next < chunk_index \<and> length result < sz then
        let skip = (if next = start_chunk then start_offset else 0);
            zeros_needed = min (cs - skip) (sz - length result)
        in pread_gap cs sz start_chunk start_offset chunk_index (next + 1)
             (result @ replicate zeros_needed 0)
      else result)"
  by pat_completeness auto
termination
  by (relation "measure (\<lambda>(cs, sz, start_chunk, start_offset, chunk_index, next, result).
      chunk_index - next)") auto

declare pread_gap.simps [simp del]

text \<open>One row: its bytes from \<open>skip\<close> on, then zeros up to the end of the chunk.\<close>

definition pread_chunk :: "nat \<Rightarrow> nat \<Rightarrow> nat \<Rightarrow> byte list \<Rightarrow> byte list \<Rightarrow> byte list" where
  "pread_chunk cs sz skip chunk_data result =
     (if length chunk_data \<le> skip then
        result @ replicate (min (cs - skip) (sz - length result)) 0
      else
        let remaining = sz - length result;
            tk = min (length chunk_data - skip) remaining;
            result' = result @ take tk (drop skip chunk_data);
            chunk_end = skip + tk
        in if chunk_end < cs \<and> length result' < sz then
             result' @ replicate (min (cs - chunk_end) (sz - length result')) 0
           else result')"

fun pread_rows ::
  "nat \<Rightarrow> nat \<Rightarrow> nat \<Rightarrow> nat \<Rightarrow> (i64 \<times> byte list) list \<Rightarrow> nat \<Rightarrow> byte list \<Rightarrow> byte list" where
  "pread_rows cs sz start_chunk start_offset [] next result = result"
| "pread_rows cs sz start_chunk start_offset (row # rows) next result =
     (let chunk_index = as_u64 (fst row);
          filled = pread_gap cs sz start_chunk start_offset chunk_index next result;
          skip = (if chunk_index = start_chunk then start_offset else 0)
      in pread_rows cs sz start_chunk start_offset rows (chunk_index + 1)
           (pread_chunk cs sz skip (snd row) filled))"

definition file_pread :: "agentfs_file \<Rightarrow> u64 \<Rightarrow> u64 \<Rightarrow> db \<Rightarrow> byte list result" where
  "file_pread f offset want d =
     (let file_size = select_size d (f_ino f)
      in if file_size \<le> offset then Inr []
         else let sz = min want (file_size - offset); cs = f_chunk_size f
         in if cs = 0 then Inl (Panic ''attempt to divide by zero'')
            else let start_chunk = offset div cs;
                     end_chunk = (u64_add offset sz - 1) div cs;
                     rows = select_chunks d (f_ino f) (as_i64 start_chunk) (as_i64 end_chunk);
                     result = pread_rows cs sz start_chunk (offset mod cs) rows start_chunk []
            in Inr (if length result < sz then resize sz 0 result else result))"

subsection \<open>pwrite\<close>

text \<open>
  The new value of one chunk: a write of a whole chunk replaces it, any other write is copied
  into the old value, extended with zeros where it is too short.
\<close>

definition splice_chunk :: "nat \<Rightarrow> nat \<Rightarrow> byte list \<Rightarrow> byte list \<Rightarrow> byte list" where
  "splice_chunk cs offset_in_chunk src old =
     (if length src \<noteq> cs then
        let ext = (if length old < offset_in_chunk + length src
                   then resize (offset_in_chunk + length src) 0 old else old)
        in copy_from_slice offset_in_chunk src ext
      else src)"

text \<open>\<open>write_data_at_offset_with_conn\<close>: one chunk per turn of the loop.\<close>

function write_data_at_offset ::
  "nat \<Rightarrow> i64 \<Rightarrow> u64 \<Rightarrow> byte list \<Rightarrow> nat \<Rightarrow> ((i64 \<times> i64) \<times> byte list) list \<Rightarrow>
     ((i64 \<times> i64) \<times> byte list) list" where
  "write_data_at_offset cs ino offset data written tab =
     (if written < length data \<and> 0 < cs then
        let current_offset = u64_add offset written;
            chunk_index = as_i64 (current_offset div cs);
            offset_in_chunk = current_offset mod cs;
            to_write = min (cs - offset_in_chunk) (length data - written);
            src = take to_write (drop written data);
            old = (case map_of tab (ino, chunk_index) of Some b \<Rightarrow> b | None \<Rightarrow> []);
            chunk_data = splice_chunk cs offset_in_chunk src old
        in write_data_at_offset cs ino offset data (written + to_write)
             (replace_row (ino, chunk_index) chunk_data tab)
      else tab)"
  by pat_completeness auto
termination
  by (relation "measure (\<lambda>(cs, ino, offset, data, written, tab). length data - written)")
    (auto intro!: diff_less_mono2)

declare write_data_at_offset.simps [simp del]

definition file_pwrite ::
  "agentfs_file \<Rightarrow> timestamp \<Rightarrow> u64 \<Rightarrow> byte list \<Rightarrow> db \<Rightarrow> unit result \<times> db" where
  "file_pwrite f now offset data d =
     (if data = [] then (Inr (), d)
      else if f_chunk_size f = 0 then (Inl (Panic ''attempt to divide by zero''), d)
      else let current_size = select_size d (f_ino f);
               d1 = d\<lparr>fs_data :=
                 write_data_at_offset (f_chunk_size f) (f_ino f) offset data 0 (fs_data d)\<rparr>;
               new_size = max current_size (u64_add offset (length data))
           in (Inr (), update_inode (f_ino f)
                (\<lambda>r. r\<lparr>r_size := as_i64 new_size, r_mtime := fst now, r_mtime_nsec := snd now\<rparr>) d1))"

subsection \<open>truncate, fstat\<close>

text \<open>The shrinking branch of \<open>truncate\<close>, on the chunk rows.\<close>

definition shrink_chunks ::
  "nat \<Rightarrow> i64 \<Rightarrow> u64 \<Rightarrow> ((i64 \<times> i64) \<times> byte list) list \<Rightarrow> ((i64 \<times> i64) \<times> byte list) list" where
  "shrink_chunks cs ino new_size tab =
     (let last_chunk_idx = as_i64 ((new_size - 1) div cs);
          tab1 = delete_rows (\<lambda>k. fst k = ino \<and> last_chunk_idx < snd k) tab;
          offset_in_chunk = new_size mod cs
      in if 0 < offset_in_chunk then
           case map_of tab1 (ino, last_chunk_idx) of
             Some chunk_data \<Rightarrow>
               if offset_in_chunk < length chunk_data
               then update_row (ino, last_chunk_idx) (\<lambda>_. take offset_in_chunk chunk_data) tab1
               else tab1
           | None \<Rightarrow> tab1
         else tab1)"

definition file_truncate :: "agentfs_file \<Rightarrow> timestamp \<Rightarrow> u64 \<Rightarrow> db \<Rightarrow> unit result \<times> db" where
  "file_truncate f now new_size d =
     (let current_size = select_size d (f_ino f); cs = f_chunk_size f; ino = f_ino f
      in if new_size \<noteq> 0 \<and> new_size < current_size \<and> cs = 0
         then (Inl (Panic ''attempt to divide by zero''), d)
         else let d1 = (if new_size = 0 then delete_data ino d
                        else if new_size < current_size
                        then d\<lparr>fs_data := shrink_chunks cs ino new_size (fs_data d)\<rparr>
                        else d)
         in (Inr (), update_inode ino
              (\<lambda>r. r\<lparr>r_size := as_i64 new_size, r_mtime := fst now, r_ctime := fst now,
                    r_mtime_nsec := snd now, r_ctime_nsec := snd now\<rparr>) d1))"

text \<open>\<open>build_stats_from_row\<close> on the columns of one inode row.\<close>

definition build_stats_from_row :: "i64 \<Rightarrow> inode_row \<Rightarrow> stats" where
  "build_stats_from_row ino r =
     \<lparr>st_ino = ino, st_mode = r_mode r, st_nlink = as_u32 (r_nlink r), st_uid = r_uid r,
      st_gid = r_gid r, st_size = r_size r, st_atime = r_atime r, st_mtime = r_mtime r,
      st_ctime = r_ctime r, st_atime_nsec = r_atime_nsec r, st_mtime_nsec = r_mtime_nsec r,
      st_ctime_nsec = r_ctime_nsec r, st_rdev = r_rdev r\<rparr>"

definition file_fstat :: "agentfs_file \<Rightarrow> db \<Rightarrow> stats result" where
  "file_fstat f d =
     (case select_inode d (f_ino f) of
        Some r \<Rightarrow> Inr (build_stats_from_row (f_ino f) r)
      | None \<Rightarrow> Inl (Fs NotFound))"

section \<open>The bytes a file has\<close>

text \<open>
  The byte at position \<open>i\<close>: chunk \<open>i div cs\<close>, offset \<open>i mod cs\<close>; a missing chunk and the
  part of a chunk that is not stored read as zero.
\<close>

definition byte_at :: "nat \<Rightarrow> ((i64 \<times> i64) \<times> byte list) list \<Rightarrow> i64 \<Rightarrow> nat \<Rightarrow> byte" where
  "byte_at cs tab ino i =
     (case map_of tab (ino, int (i div cs)) of
        None \<Rightarrow> 0
      | Some b \<Rightarrow> nth_default 0 b (i mod cs))"

definition content :: "nat \<Rightarrow> i64 \<Rightarrow> db \<Rightarrow> byte list" where
  "content cs ino d = map (byte_at cs (fs_data d) ino) [0..<select_size d ino]"

text \<open>
  The representation invariant of one file: its inode exists, its size is a non-negative
  \<open>i64\<close>, and every chunk row lies inside the file and inside its chunk.
\<close>

definition chunk_ok :: "nat \<Rightarrow> i64 \<Rightarrow> nat \<Rightarrow> (i64 \<times> i64) \<times> byte list \<Rightarrow> bool" where
  "chunk_ok cs ino sz r \<longleftrightarrow> (fst (fst r) = ino \<longrightarrow>
     0 \<le> snd (fst r) \<and> length (snd r) \<le> cs \<and> nat (snd (fst r)) * cs + length (snd r) \<le> sz)"

definition file_inv :: "agentfs_file \<Rightarrow> db \<Rightarrow> bool" where
  "file_inv f d \<longleftrightarrow> 0 < f_chunk_size f \<and> keyed (fs_data d) \<and> select_inode d (f_ino f) \<noteq> None \<and>
     select_size d (f_ino f) < 2 ^ 63 \<and>
     list_all (chunk_ok (f_chunk_size f) (f_ino f) (select_size d (f_ino f))) (fs_data d)"

lemma length_content [simp]: "length (content cs ino d) = select_size d ino"
  by (simp add: content_def)

lemma nth_default_content:
  "nth_default 0 (content cs ino d) i = (if i < select_size d ino then byte_at cs (fs_data d) ino i else 0)"
  by (simp add: content_def nth_default_map_upt)

lemma file_invD_chunk:
  assumes "file_inv f d" and "map_of (fs_data d) (f_ino f, k) = Some b"
  shows "0 \<le> k" "length b \<le> f_chunk_size f"
    "nat k * f_chunk_size f + length b \<le> select_size d (f_ino f)"
  using assms by (auto simp: file_inv_def list_all_iff chunk_ok_def dest!: map_of_SomeD)

lemma file_invI:
  assumes "0 < f_chunk_size f" and "keyed (fs_data d)" and "select_inode d (f_ino f) \<noteq> None"
    and "select_size d (f_ino f) < 2 ^ 63"
    and "\<And>k b. map_of (fs_data d) (f_ino f, k) = Some b \<Longrightarrow>
       0 \<le> k \<and> length b \<le> f_chunk_size f \<and> nat k * f_chunk_size f + length b \<le> select_size d (f_ino f)"
  shows "file_inv f d"
  using assms(1-4) assms(5) [OF map_of_is_SomeI]
  by (auto simp: file_inv_def list_all_iff chunk_ok_def keyed_def)

text \<open>No byte is stored at or beyond the end of the file.\<close>

lemma byte_at_beyond:
  assumes inv: "file_inv f d" and "select_size d (f_ino f) \<le> i"
  shows "byte_at (f_chunk_size f) (fs_data d) (f_ino f) i = 0"
proof (cases "map_of (fs_data d) (f_ino f, int (i div f_chunk_size f))")
  case None
  then show ?thesis by (simp add: byte_at_def)
next
  case (Some b)
  from file_invD_chunk(3) [OF inv Some] assms(2)
  have "i div f_chunk_size f * f_chunk_size f + length b \<le> i" by simp
  then have "length b \<le> i mod f_chunk_size f"
    by (metis add_le_cancel_left div_mult_mod_eq)
  with Some show ?thesis by (simp add: byte_at_def nth_default_beyond)
qed

section \<open>pread returns the bytes of the range\<close>

text \<open>
  How many bytes the loop of \<open>pread\<close> has produced when it is about to look at chunk
  \<open>next\<close>, and the skip it applies there.
\<close>

definition pread_pos :: "nat \<Rightarrow> nat \<Rightarrow> nat \<Rightarrow> nat \<Rightarrow> nat" where
  "pread_pos cs sz offset next = (if next \<le> offset div cs then 0 else min sz (next * cs - offset))"

definition pread_skip :: "nat \<Rightarrow> nat \<Rightarrow> nat \<Rightarrow> nat" where
  "pread_skip cs offset next = (if next = offset div cs then offset mod cs else 0)"

lemma pread_skip_less: "0 < cs \<Longrightarrow> pread_skip cs offset next < cs"
  by (simp add: pread_skip_def)

lemma pread_pos_le: "pread_pos cs sz offset next \<le> sz"
  by (simp add: pread_pos_def)

lemma offset_less_next: "0 < cs \<Longrightarrow> offset div cs < next \<Longrightarrow> offset < next * (cs :: nat)"
  by (simp add: div_less_iff_less_mult)

lemma pread_pos_step:
  assumes cs: "0 < cs" and ge: "offset div cs \<le> next" and less: "pread_pos cs sz offset next < sz"
  shows "offset + pread_pos cs sz offset next = next * cs + pread_skip cs offset next"
    and "pread_pos cs sz offset (Suc next) = pread_pos cs sz offset next +
      min (cs - pread_skip cs offset next) (sz - pread_pos cs sz offset next)"
proof -
  let ?p = "pread_pos cs sz offset" and ?s = "pread_skip cs offset"
  show eq: "offset + ?p next = next * cs + ?s next"
  proof (cases "next = offset div cs")
    case True
    then show ?thesis by (simp add: pread_pos_def pread_skip_def)
  next
    case False
    with ge have "offset div cs < next" by simp
    with offset_less_next [OF cs this] less show ?thesis
      by (simp add: pread_pos_def pread_skip_def)
  qed
  have "?p (Suc next) = min sz (Suc next * cs - offset)"
    using ge by (simp add: pread_pos_def)
  also have "Suc next * cs - offset = ?p next + (cs - ?s next)"
    using eq pread_skip_less [OF cs, of offset "next"] by (simp add: algebra_simps)
  finally show "?p (Suc next) = ?p next + min (cs - ?s next) (sz - ?p next)"
    using less by simp
qed

lemma pread_pos_full:
  assumes "0 < cs" and "pread_pos cs sz offset next = sz" and "next \<le> next'"
  shows "pread_pos cs sz offset next' = sz"
proof (cases "next' \<le> offset div cs")
  case True
  with assms show ?thesis by (simp add: pread_pos_def)
next
  case False
  have "next * cs - offset \<le> next' * cs - offset"
    using assms(3) by (simp add: diff_le_mono)
  with False assms show ?thesis by (auto simp: pread_pos_def split: if_splits)
qed

lemma map_upt_extend:
  "map f [0..<p] @ map (\<lambda>j. f (p + j)) [0..<m] = map f [0..<p + m]"
  by (intro nth_equalityI) (auto simp: nth_append)

text \<open>A missing chunk contributes zeros.\<close>

lemma pread_gap_correct:
  assumes "0 < cs" and "offset div cs \<le> next" and "next \<le> ci"
    and "\<And>i. next \<le> i div cs \<Longrightarrow> i div cs < ci \<Longrightarrow> g i = (0 :: byte)"
  shows "pread_gap cs sz (offset div cs) (offset mod cs) ci next
      (map (\<lambda>i. g (offset + i)) [0..<pread_pos cs sz offset next]) =
    map (\<lambda>i. g (offset + i)) [0..<pread_pos cs sz offset ci]"
  using assms(2-)
proof (induction "ci - next" arbitrary: "next")
  case 0
  then show ?case by (simp add: pread_gap.simps)
next
  case (Suc n)
  let ?p = "pread_pos cs sz offset" and ?s = "pread_skip cs offset next"
  let ?m = "min (cs - ?s) (sz - ?p next)" and ?B = "\<lambda>i. g (offset + i)"
  from Suc.hyps(2) have less: "next < ci" by simp
  show ?case
  proof (cases "?p next < sz")
    case False
    then have "?p next = sz" using pread_pos_le [of cs sz offset "next"] by simp
    moreover from this pread_pos_full [OF \<open>0 < cs\<close> _ Suc.prems(2)] have "?p ci = sz" by simp
    ultimately show ?thesis by (simp add: pread_gap.simps)
  next
    case True
    note step = pread_pos_step [OF \<open>0 < cs\<close> Suc.prems(1) True]
    have "?B (?p next + j) = 0" if "j < ?m" for j
    proof -
      have "offset + (?p next + j) = next * cs + (?s + j)" using step(1) by simp
      moreover have "?s + j < cs" using that pread_skip_less [OF \<open>0 < cs\<close>, of offset "next"] by arith
      ultimately have "(offset + (?p next + j)) div cs = next" by (rule div_mod_of_split)
      then show ?thesis using Suc.prems(3) less by simp
    qed
    then have "replicate ?m 0 = map (\<lambda>j. ?B (?p next + j)) [0..<?m]"
      by (intro nth_equalityI) auto
    then have "map ?B [0..<?p next] @ replicate ?m 0 = map ?B [0..<?p (Suc next)]"
      by (simp only: map_upt_extend [of ?B] step(2))
    with Suc.hyps(1) [of "Suc next"] Suc.hyps(2) Suc.prems less True
    show ?thesis
      by (subst pread_gap.simps) (simp add: Let_def pread_skip_def [symmetric])
  qed
qed

text \<open>A stored chunk contributes its bytes, padded with zeros to the chunk size.\<close>

lemma pread_chunk_eq:
  assumes "length b \<le> cs" and "length result \<le> sz"
  shows "pread_chunk cs sz skip b result =
    result @ map (\<lambda>j. nth_default 0 b (skip + j)) [0..<min (cs - skip) (sz - length result)]"
proof (cases "length b \<le> skip")
  case True
  then show ?thesis
    by (auto simp: pread_chunk_def nth_default_beyond intro!: nth_equalityI)
next
  case False
  with assms show ?thesis
    by (auto simp: pread_chunk_def Let_def nth_default_def nth_append min_def intro!: nth_equalityI)
qed

lemma pread_chunk_correct:
  assumes cs: "0 < cs" and ge: "offset div cs \<le> ci" and len: "length b \<le> cs"
    and g: "\<And>i. i div cs = ci \<Longrightarrow> g i = nth_default 0 b (i mod cs)"
  shows "pread_chunk cs sz (pread_skip cs offset ci) b
      (map (\<lambda>i. g (offset + i)) [0..<pread_pos cs sz offset ci]) =
    map (\<lambda>i. g (offset + i)) [0..<pread_pos cs sz offset (Suc ci)]"
proof -
  let ?p = "pread_pos cs sz offset" and ?s = "pread_skip cs offset ci"
  let ?m = "min (cs - ?s) (sz - ?p ci)" and ?B = "\<lambda>i. g (offset + i)"
  have eq: "pread_chunk cs sz ?s b (map ?B [0..<?p ci]) =
    map ?B [0..<?p ci] @ map (\<lambda>j. nth_default 0 b (?s + j)) [0..<?m]"
    using len pread_pos_le [of cs sz offset ci] by (simp add: pread_chunk_eq)
  show ?thesis
  proof (cases "?p ci < sz")
    case False
    then have "?p ci = sz" using pread_pos_le [of cs sz offset ci] by simp
    moreover from this pread_pos_full [OF cs] have "?p (Suc ci) = sz" by simp
    ultimately show ?thesis using eq by simp
  next
    case True
    note step = pread_pos_step [OF cs ge True]
    have "nth_default 0 b (?s + j) = ?B (?p ci + j)" if "j < ?m" for j
    proof -
      have "offset + (?p ci + j) = ci * cs + (?s + j)" using step(1) by simp
      moreover have "?s + j < cs" using that pread_skip_less [OF cs, of offset ci] by arith
      ultimately have "(offset + (?p ci + j)) div cs = ci" "(offset + (?p ci + j)) mod cs = ?s + j"
        by (rule div_mod_of_split)+
      then show ?thesis using g by simp
    qed
    then have "map (\<lambda>j. nth_default 0 b (?s + j)) [0..<?m] = map (\<lambda>j. ?B (?p ci + j)) [0..<?m]"
      by simp
    then show ?thesis by (simp only: eq map_upt_extend [of ?B] step(2))
  qed
qed

text \<open>The rows a range query returns: one per stored chunk of the range, ascending.\<close>

lemma select_chunks_distinct:
  assumes "keyed (fs_data d)"
  shows "distinct (map fst (select_chunks d ino lo hi))"
proof -
  let ?P = "\<lambda>r. fst (fst r) = ino \<and> lo \<le> snd (fst r) \<and> snd (fst r) \<le> hi"
  let ?rows = "filter ?P (fs_data d)"
  have "distinct (map fst ?rows)"
    using assms by (simp add: keyed_def distinct_map_filter)
  moreover have "inj_on (\<lambda>k. snd k) (set (map fst ?rows))"
    by (auto simp: inj_on_def)
  ultimately have "distinct (map snd (map fst ?rows))"
    by (simp add: distinct_map comp_inj_on)
  then have dist: "distinct (map fst (map (\<lambda>r. (snd (fst r), snd r)) ?rows))"
    by (simp add: comp_def)
  have eq: "mset (map fst (select_chunks d ino lo hi)) =
      mset (map fst (map (\<lambda>r. (snd (fst r), snd r)) ?rows))"
    by (simp only: select_chunks_def mset_map mset_sort)
  show ?thesis using dist by (simp only: mset_eq_imp_distinct_iff [OF eq])
qed

lemma select_chunks_sorted:
  assumes "keyed (fs_data d)"
  shows "sorted_wrt (<) (map fst (select_chunks d ino lo hi))"
  using select_chunks_distinct [OF assms, of ino lo hi]
  by (simp add: strict_sorted_iff select_chunks_def)

lemma map_of_select_chunks:
  assumes "keyed (fs_data d)"
  shows "map_of (select_chunks d ino lo hi) k =
    (if lo \<le> k \<and> k \<le> hi then map_of (fs_data d) (ino, k) else None)"
proof (rule option.expand, goal_cases)
  case 1
  show ?case
    by (auto simp: map_of_eq_None_iff select_chunks_def image_iff)
next
  case 2
  then obtain b where "map_of (select_chunks d ino lo hi) k = Some b" by auto
  then have "((ino, k), b) \<in> set (fs_data d)" and k: "lo \<le> k" "k \<le> hi"
    by (auto dest!: map_of_SomeD simp: select_chunks_def)
  with assms have "map_of (fs_data d) (ino, k) = Some b"
    by (auto simp: keyed_def intro: map_of_is_SomeI)
  with k \<open>map_of (select_chunks d ino lo hi) k = Some b\<close> show ?case by simp
qed

lemma pread_rows_correct:
  assumes cs: "0 < cs" and hi: "hi < 2 ^ 64"
    and "offset div cs \<le> next"
    and "sorted_wrt (<) (map fst rows)"
    and "\<And>r. r \<in> set rows \<Longrightarrow> int next \<le> fst r \<and> fst r \<le> int hi \<and> length (snd r) \<le> cs"
    and "\<And>i. next \<le> i div cs \<Longrightarrow> i div cs \<le> hi \<Longrightarrow> g i =
      (case map_of rows (int (i div cs)) of None \<Rightarrow> 0 | Some b \<Rightarrow> nth_default 0 b (i mod cs))"
  shows "\<exists>m \<ge> next. pread_rows cs sz (offset div cs) (offset mod cs) rows next
        (map (\<lambda>i. g (offset + i)) [0..<pread_pos cs sz offset next]) =
      map (\<lambda>i. g (offset + i)) [0..<pread_pos cs sz offset m] \<and>
      (\<forall>i. m \<le> i div cs \<longrightarrow> i div cs \<le> hi \<longrightarrow> g i = (0 :: byte))"
  using assms(3-)
proof (induction rows arbitrary: "next")
  case Nil
  then show ?case by (intro exI [of _ "next"]) simp
next
  case (Cons row rows)
  obtain k b where row: "row = (k, b)" by fastforce
  define ci where "ci = nat k"
  from Cons.prems(3) [of row] row have k: "int next \<le> k" "k \<le> int hi" and len: "length b \<le> cs"
    by auto
  then have ki: "k = int ci" and ci: "next \<le> ci" "ci \<le> hi" by (auto simp: ci_def)
  with hi have cast: "as_u64 k = ci" by (simp add: as_u64_of_nat)
  have later: "r \<in> set rows \<Longrightarrow> k < fst r" for r
    using Cons.prems(2) by (auto simp: row)
  have absent: "map_of rows (int j) = None" if "j \<le> ci" for j
    using later that by (fastforce simp: map_of_eq_None_iff ki)
  have gap: "g i = 0" if "next \<le> i div cs" "i div cs < ci" for i
    using Cons.prems(4) [of i] that ci absent [of "i div cs"] by (simp add: row ki)
  have stored: "g i = nth_default 0 b (i mod cs)" if "i div cs = ci" for i
    using Cons.prems(4) [of i] that ci by (simp add: row ki)
  let ?B = "\<lambda>i. g (offset + i)" and ?p = "pread_pos cs sz offset"
  have filled: "pread_gap cs sz (offset div cs) (offset mod cs) ci next (map ?B [0..<?p next]) =
      map ?B [0..<?p ci]"
    using cs Cons.prems(1) ci(1) gap by (rule pread_gap_correct)
  have "offset div cs \<le> ci" using Cons.prems(1) ci(1) by simp
  with cs have chunk: "pread_chunk cs sz (pread_skip cs offset ci) b (map ?B [0..<?p ci]) =
      map ?B [0..<?p (Suc ci)]"
    using len stored by (rule pread_chunk_correct)
  have "\<exists>m \<ge> Suc ci. pread_rows cs sz (offset div cs) (offset mod cs) rows (Suc ci)
        (map ?B [0..<?p (Suc ci)]) = map ?B [0..<?p m] \<and>
      (\<forall>i. m \<le> i div cs \<longrightarrow> i div cs \<le> hi \<longrightarrow> g i = 0)"
  proof (rule Cons.IH)
    show "offset div cs \<le> Suc ci" using \<open>offset div cs \<le> ci\<close> by simp
    show "sorted_wrt (<) (map fst rows)" using Cons.prems(2) by simp
    show "int (Suc ci) \<le> fst r \<and> fst r \<le> int hi \<and> length (snd r) \<le> cs" if "r \<in> set rows" for r
      using Cons.prems(3) [of r] later [OF that] that by (simp add: ki)
    show "g i = (case map_of rows (int (i div cs)) of None \<Rightarrow> 0 | Some b \<Rightarrow> nth_default 0 b (i mod cs))"
      if "Suc ci \<le> i div cs" "i div cs \<le> hi" for i
      using Cons.prems(4) [of i] that ci by (simp add: row ki)
  qed
  then obtain m where m: "Suc ci \<le> m"
    "pread_rows cs sz (offset div cs) (offset mod cs) rows (Suc ci) (map ?B [0..<?p (Suc ci)]) =
      map ?B [0..<?p m]" "\<forall>i. m \<le> i div cs \<longrightarrow> i div cs \<le> hi \<longrightarrow> g i = 0"
    by blast
  have "pread_rows cs sz (offset div cs) (offset mod cs) (row # rows) next (map ?B [0..<?p next]) =
      map ?B [0..<?p m]"
    using filled chunk m(2) by (simp add: row cast Let_def pread_skip_def)
  with m ci(1) show ?case by (intro exI [of _ m]) simp
qed

text \<open>The last line of \<open>pread\<close>: what no row has produced is zero.\<close>

lemma pread_tail:
  assumes cs: "0 < cs" and zero: "\<forall>i. m \<le> i div cs \<longrightarrow> i div cs \<le> (offset + sz - 1) div cs \<longrightarrow> g i = (0 :: byte)"
  shows "resize sz 0 (map (\<lambda>i. g (offset + i)) [0..<pread_pos cs sz offset m]) =
    map (\<lambda>i. g (offset + i)) [0..<sz]"
proof (rule list_eq_nth_defaultI [where x = 0])
  fix i assume "i < length (resize sz 0 (map (\<lambda>i. g (offset + i)) [0..<pread_pos cs sz offset m]))"
  then have i: "i < sz" by simp
  have "g (offset + i) = 0" if "pread_pos cs sz offset m \<le> i"
  proof -
    have "m \<le> (offset + i) div cs"
    proof (cases "m \<le> offset div cs")
      case True
      then show ?thesis by (meson div_le_mono le_add1 order_trans)
    next
      case False
      with that i have "m * cs \<le> offset + i" by (simp add: pread_pos_def)
      then show ?thesis using cs by (simp add: less_eq_div_iff_mult_less_eq)
    qed
    moreover have "(offset + i) div cs \<le> (offset + sz - 1) div cs"
      using i by (intro div_le_mono) simp
    ultimately show ?thesis using zero by simp
  qed
  then show "nth_default 0 (resize sz 0 (map (\<lambda>i. g (offset + i)) [0..<pread_pos cs sz offset m])) i =
      nth_default 0 (map (\<lambda>i. g (offset + i)) [0..<sz]) i"
    using i by (auto simp: nth_default_resize nth_default_map_upt)
qed simp

lemma file_pread_content:
  assumes inv: "file_inv f d"
  shows "file_pread f offset want d =
    Inr (take want (drop offset (content (f_chunk_size f) (f_ino f) d)))"
proof (cases "select_size d (f_ino f) \<le> offset")
  case True
  then show ?thesis by (simp add: file_pread_def Let_def)
next
  case False
  let ?cs = "f_chunk_size f" and ?ino = "f_ino f" and ?size = "select_size d (f_ino f)"
  define sz where "sz = min want (?size - offset)"
  define hi where "hi = (offset + sz - 1) div ?cs"
  define g where "g = byte_at ?cs (fs_data d) ?ino"
  let ?rows = "select_chunks d ?ino (int (offset div ?cs)) (int hi)"
  let ?run = "pread_rows ?cs sz (offset div ?cs) (offset mod ?cs) ?rows (offset div ?cs) []"
  from inv have cs: "0 < ?cs" and key: "keyed (fs_data d)" and size: "?size < 2 ^ 63"
    by (auto simp: file_inv_def)
  have bound: "offset + sz < 2 ^ 63" using False size by (simp add: sz_def)
  then have hi64: "hi < 2 ^ 63" and start63: "offset div ?cs < 2 ^ 63"
    unfolding hi_def by (auto intro: le_less_trans [OF div_le_dividend])
  have "\<exists>m \<ge> offset div ?cs. pread_rows ?cs sz (offset div ?cs) (offset mod ?cs) ?rows (offset div ?cs)
        (map (\<lambda>i. g (offset + i)) [0..<pread_pos ?cs sz offset (offset div ?cs)]) =
      map (\<lambda>i. g (offset + i)) [0..<pread_pos ?cs sz offset m] \<and>
      (\<forall>i. m \<le> i div ?cs \<longrightarrow> i div ?cs \<le> hi \<longrightarrow> g i = 0)"
  proof (rule pread_rows_correct [OF cs])
    show "sorted_wrt (<) (map fst ?rows)" using key by (rule select_chunks_sorted)
    show "int (offset div ?cs) \<le> fst r \<and> fst r \<le> int hi \<and> length (snd r) \<le> ?cs"
      if "r \<in> set ?rows" for r
      using that inv by (auto simp: select_chunks_def file_inv_def list_all_iff chunk_ok_def)
    show "g i = (case map_of ?rows (int (i div ?cs)) of None \<Rightarrow> 0 | Some b \<Rightarrow> nth_default 0 b (i mod ?cs))"
      if "offset div ?cs \<le> i div ?cs" "i div ?cs \<le> hi" for i
      using that by (simp add: map_of_select_chunks [OF key] g_def byte_at_def zle_int)
  qed (use hi64 in simp_all)
  then obtain m where m: "?run = map (\<lambda>i. g (offset + i)) [0..<pread_pos ?cs sz offset m]"
      "\<forall>i. m \<le> i div ?cs \<longrightarrow> i div ?cs \<le> hi \<longrightarrow> g i = 0"
    by (auto simp: pread_pos_def)
  have full: "resize sz 0 ?run = map (\<lambda>i. g (offset + i)) [0..<sz]"
    using pread_tail [OF cs m(2) [unfolded hi_def]] m(1) by simp
  have "length ?run \<le> sz" by (simp add: m(1) pread_pos_le)
  then have "(if length ?run < sz then resize sz 0 ?run else ?run) = map (\<lambda>i. g (offset + i)) [0..<sz]"
    using full by (auto simp: resize_def not_less)
  moreover have "map (\<lambda>i. g (offset + i)) [0..<sz] = take want (drop offset (content ?cs ?ino d))"
    by (intro nth_equalityI) (auto simp: content_def sz_def g_def)
  moreover have "u64_add offset sz = offset + sz" "as_i64 (offset div ?cs) = int (offset div ?cs)"
      "(offset + sz - Suc 0) div ?cs = hi" "as_i64 hi = int hi"
    using bound hi64 start63 by (simp_all add: u64_add_small as_i64_small hi_def)
  ultimately show ?thesis
    using False cs by (simp add: file_pread_def Let_def sz_def [symmetric] split: if_split_asm)
qed

section \<open>pwrite\<close>

lemma length_splice_chunk:
  assumes "off + length src \<le> cs" and "length old \<le> cs"
  shows "length (splice_chunk cs off src old) = max (length old) (off + length src)"
  using assms by (auto simp: splice_chunk_def Let_def max_def)

lemma nth_default_splice_chunk:
  assumes "off + length src \<le> cs" and "j < cs"
  shows "nth_default 0 (splice_chunk cs off src old) j =
    (if off \<le> j \<and> j < off + length src then src ! (j - off) else nth_default 0 old j)"
proof (cases "length src = cs")
  case True
  with assms show ?thesis by (simp add: splice_chunk_def nth_default_def)
next
  case False
  with assms show ?thesis
    by (simp add: splice_chunk_def Let_def nth_default_copy_from_slice nth_default_resize)
      (simp add: nth_default_def)
qed

definition stored_chunk :: "((i64 \<times> i64) \<times> byte list) list \<Rightarrow> i64 \<Rightarrow> i64 \<Rightarrow> byte list" where
  "stored_chunk tab ino k = (case map_of tab (ino, k) of Some b \<Rightarrow> b | None \<Rightarrow> [])"

lemma byte_at_stored: "byte_at cs tab ino i = nth_default 0 (stored_chunk tab ino (int (i div cs))) (i mod cs)"
  by (simp add: byte_at_def stored_chunk_def split: option.splits)

lemma byte_at_replace_row:
  "byte_at cs (replace_row (ino, int k) b tab) ino i =
    (if i div cs = k then nth_default 0 b (i mod cs) else byte_at cs tab ino i)"
  by (simp add: byte_at_def table_simps)

text \<open>One turn of the loop writes the bytes from \<open>cur\<close> to \<open>cur + length src\<close>.\<close>

lemma byte_at_write_step:
  assumes cs: "0 < cs" and fits: "cur mod cs + length src \<le> cs"
  shows "byte_at cs (replace_row (ino, int (cur div cs))
      (splice_chunk cs (cur mod cs) src (stored_chunk tab ino (int (cur div cs)))) tab) ino i =
    (if cur \<le> i \<and> i < cur + length src then src ! (i - cur) else byte_at cs tab ino i)"
proof -
  let ?k = "cur div cs" and ?o = "cur mod cs"
  have cur: "?k * cs + ?o = cur" and i: "i div cs * cs + i mod cs = i" by simp_all
  show ?thesis
  proof (cases "i div cs = ?k")
    case True
    then have "i div cs * cs = ?k * cs" by simp
    with cur i have shift: "i + ?o = cur + i mod cs" by linarith
    then have "(?o \<le> i mod cs \<and> i mod cs < ?o + length src) = (cur \<le> i \<and> i < cur + length src)"
      and "?o \<le> i mod cs \<Longrightarrow> i mod cs - ?o = i - cur"
      by arith+
    with True cs fits show ?thesis
      by (auto simp: byte_at_replace_row nth_default_splice_chunk byte_at_stored [of cs tab])
  next
    case False
    have "cur + length src \<le> Suc ?k * cs"
      unfolding mult_Suc using fits cur by linarith
    then have "\<not> (cur \<le> i \<and> i < cur + length src)"
      using False cs by (metis div_le_mono le_less_trans less_Suc_eq_le less_mult_imp_div_less
          order_antisym order_less_le_trans)
    with False show ?thesis by (auto simp: byte_at_replace_row)
  qed
qed

text \<open>
  The rows of one file stay inside the file that reaches \<open>sz\<close>, and rows of other files
  are not touched.
\<close>

definition chunks_within :: "nat \<Rightarrow> i64 \<Rightarrow> nat \<Rightarrow> ((i64 \<times> i64) \<times> byte list) list \<Rightarrow> bool" where
  "chunks_within cs ino sz tab \<longleftrightarrow> (\<forall>k b. map_of tab (ino, k) = Some b \<longrightarrow>
     0 \<le> k \<and> length b \<le> cs \<and> nat k * cs + length b \<le> sz)"

lemma chunks_withinD_stored:
  assumes "chunks_within cs ino sz tab"
  shows "length (stored_chunk tab ino k) \<le> cs"
    "stored_chunk tab ino k \<noteq> [] \<Longrightarrow> nat k * cs + length (stored_chunk tab ino k) \<le> sz"
  using assms by (auto simp: chunks_within_def stored_chunk_def split: option.splits)

lemma chunks_within_write_step:
  assumes "chunks_within cs ino sz tab" and "cur mod cs + length src \<le> cs"
    and "cur + length src \<le> sz"
  shows "chunks_within cs ino sz (replace_row (ino, int (cur div cs))
      (splice_chunk cs (cur mod cs) src (stored_chunk tab ino (int (cur div cs)))) tab)"
proof -
  let ?old = "stored_chunk tab ino (int (cur div cs))"
  have len: "length (splice_chunk cs (cur mod cs) src ?old) = max (length ?old) (cur mod cs + length src)"
    using assms(2) chunks_withinD_stored(1) [OF assms(1)] by (rule length_splice_chunk)
  have new: "cur div cs * cs + (cur mod cs + length src) \<le> sz"
    using assms(3) div_mult_mod_eq [of cur cs] by linarith
  moreover have "cur div cs * cs + length ?old \<le> sz"
  proof (cases "?old = []")
    case True
    with new show ?thesis by (metis add_leD1 add_0_right list.size(3))
  next
    case False
    with chunks_withinD_stored(2) [OF assms(1) False] show ?thesis by simp
  qed
  ultimately show ?thesis
    using assms(1,2) chunks_withinD_stored(1) [OF assms(1), of "int (cur div cs)"]
    by (auto simp: chunks_within_def table_simps len max_def)
qed

lemma write_data_at_offset_correct:
  assumes "0 < cs" and "offset + length data < 2 ^ 63" and "written \<le> length data"
    and "offset + length data \<le> sz" and "chunks_within cs ino sz tab" and "keyed tab"
  shows "chunks_within cs ino sz (write_data_at_offset cs ino offset data written tab) \<and>
    keyed (write_data_at_offset cs ino offset data written tab) \<and>
    (\<forall>i. byte_at cs (write_data_at_offset cs ino offset data written tab) ino i =
      (if offset + written \<le> i \<and> i < offset + length data then data ! (i - offset)
       else byte_at cs tab ino i)) \<and>
    (\<forall>ino' k. ino' \<noteq> ino \<longrightarrow>
      map_of (write_data_at_offset cs ino offset data written tab) (ino', k) = map_of tab (ino', k))"
  using assms(3-)
proof (induction "length data - written" arbitrary: written tab rule: less_induct)
  case less
  show ?case
  proof (cases "written < length data")
    case False
    with less.prems show ?thesis by (auto simp: write_data_at_offset.simps)
  next
    case True
    define cur where "cur = offset + written"
    define tw where "tw = min (cs - cur mod cs) (length data - written)"
    define src where "src = take tw (drop written data)"
    define tab' where "tab' = replace_row (ino, int (cur div cs))
      (splice_chunk cs (cur mod cs) src (stored_chunk tab ino (int (cur div cs)))) tab"
    have "cur mod cs < cs" using \<open>0 < cs\<close> by simp
    then have tw: "0 < tw" "written + tw \<le> length data" "cur mod cs + tw \<le> cs"
      using True by (auto simp: tw_def)
    then have src: "length src = tw" "j < tw \<Longrightarrow> src ! j = data ! (written + j)" for j
      by (auto simp: src_def)
    have "cur < 2 ^ 63" using assms(2) True by (simp add: cur_def)
    then have cast: "u64_add offset written = cur" "as_i64 (cur div cs) = int (cur div cs)"
      by (auto simp: cur_def u64_add_small as_i64_small le_less_trans [OF div_le_dividend])
    have unfold: "write_data_at_offset cs ino offset data written tab =
        write_data_at_offset cs ino offset data (written + tw) tab'"
      using True \<open>0 < cs\<close>
      by (subst write_data_at_offset.simps)
        (simp add: Let_def cast tw_def [symmetric] src_def [symmetric] tab'_def stored_chunk_def)
    have fits: "cur mod cs + length src \<le> cs" using tw(3) src(1) by simp
    have "chunks_within cs ino sz tab'"
      unfolding tab'_def using less.prems tw src(1) fits
      by (intro chunks_within_write_step) (simp_all add: cur_def)
    moreover have "keyed tab'" unfolding tab'_def using less.prems(4) by (rule keyed_replace_row)
    moreover have step: "byte_at cs tab' ino i =
        (if cur \<le> i \<and> i < cur + tw then data ! (i - offset) else byte_at cs tab ino i)" for i
      using byte_at_write_step [OF \<open>0 < cs\<close> fits, of ino tab i] src
      by (auto simp: tab'_def cur_def)
    moreover have "map_of tab' (ino', k) = map_of tab (ino', k)" if "ino' \<noteq> ino" for ino' k
      using that by (simp add: tab'_def table_simps)
    ultimately show ?thesis
      using less.hyps [of "written + tw" tab'] tw less.prems
      by (simp add: unfold cur_def)
  qed
qed

text \<open>What a statement on the inode row leaves for the queries.\<close>

lemma select_inode_update_inode [table_simps]:
  "select_inode (update_inode ino h d) ino' =
    (if ino' = ino then map_option h (select_inode d ino') else select_inode d ino')"
  by (simp add: select_inode_def update_inode_def table_simps)

lemma select_size_update_inode [table_simps]:
  "select_size (update_inode ino h d) ino' =
    (if ino' = ino then (case select_inode d ino of None \<Rightarrow> 0 | Some r \<Rightarrow> as_u64 (r_size (h r)))
     else select_size d ino')"
  by (simp add: select_size_def table_simps split: option.splits)

lemma fs_data_update_inode [simp]: "fs_data (update_inode ino h d) = fs_data d"
  by (simp add: update_inode_def)

lemma select_inode_cong [simp]: "select_inode (d\<lparr>fs_data := t\<rparr>) ino = select_inode d ino"
  by (simp add: select_inode_def)

lemma select_size_cong [simp]: "select_size (d\<lparr>fs_data := t\<rparr>) ino = select_size d ino"
  by (simp add: select_size_def)

lemma file_inv_iff:
  "file_inv f d \<longleftrightarrow> 0 < f_chunk_size f \<and> keyed (fs_data d) \<and> select_inode d (f_ino f) \<noteq> None \<and>
     select_size d (f_ino f) < 2 ^ 63 \<and>
     chunks_within (f_chunk_size f) (f_ino f) (select_size d (f_ino f)) (fs_data d)"
proof
  assume inv: "file_inv f d"
  then show "0 < f_chunk_size f \<and> keyed (fs_data d) \<and> select_inode d (f_ino f) \<noteq> None \<and>
     select_size d (f_ino f) < 2 ^ 63 \<and>
     chunks_within (f_chunk_size f) (f_ino f) (select_size d (f_ino f)) (fs_data d)"
    using file_invD_chunk [OF inv] by (auto simp: chunks_within_def file_inv_def)
qed (auto intro!: file_invI simp: chunks_within_def)

lemma chunks_within_mono: "chunks_within cs ino sz tab \<Longrightarrow> sz \<le> sz' \<Longrightarrow> chunks_within cs ino sz' tab"
  unfolding chunks_within_def by (meson le_trans)

text \<open>The file as an array of bytes, and the two updates on it.\<close>

definition af_write :: "nat \<Rightarrow> byte list \<Rightarrow> byte list \<Rightarrow> byte list" where
  "af_write offset data c =
     (if data = [] then c
      else take offset (resize (max offset (length c)) 0 c) @ data @ drop (offset + length data) c)"

definition af_truncate :: "nat \<Rightarrow> byte list \<Rightarrow> byte list" where
  "af_truncate n c = resize n 0 c"

lemma length_af_write: "data \<noteq> [] \<Longrightarrow> length (af_write offset data c) = max (length c) (offset + length data)"
  by (auto simp: af_write_def max_def)

lemma nth_default_af_write:
  "data \<noteq> [] \<Longrightarrow> nth_default 0 (af_write offset data c) i =
    (if offset \<le> i \<and> i < offset + length data then data ! (i - offset) else nth_default 0 c i)"
  by (auto simp: af_write_def nth_default_append nth_default_take nth_default_drop nth_default_resize)
    (auto simp: nth_default_def resize_def nth_append max_def)

lemma file_pwrite_ok:
  assumes inv: "file_inv f d" and bound: "offset + length data < 2 ^ 63"
  shows "fst (file_pwrite f now offset data d) = Inr ()"
    and "file_inv f (snd (file_pwrite f now offset data d))"
    and "content (f_chunk_size f) (f_ino f) (snd (file_pwrite f now offset data d)) =
      af_write offset data (content (f_chunk_size f) (f_ino f) d)"
proof -
  let ?cs = "f_chunk_size f" and ?ino = "f_ino f" and ?d' = "snd (file_pwrite f now offset data d)"
  let ?size = "select_size d (f_ino f)"
  let ?tab = "write_data_at_offset ?cs ?ino offset data 0 (fs_data d)"
  from inv have cs: "0 < ?cs" and key: "keyed (fs_data d)" and ex: "select_inode d ?ino \<noteq> None"
    and size: "?size < 2 ^ 63" and within: "chunks_within ?cs ?ino ?size (fs_data d)"
    by (auto simp: file_inv_iff)
  have "fst (file_pwrite f now offset data d) = Inr () \<and> file_inv f ?d' \<and>
      content ?cs ?ino ?d' = af_write offset data (content ?cs ?ino d)"
  proof (cases "data = []")
    case True
    with inv show ?thesis by (simp add: file_pwrite_def af_write_def)
  next
    case False
    define new where "new = max ?size (offset + length data)"
    have new: "new < 2 ^ 63" "?size \<le> new" using size bound by (auto simp: new_def)
    have loop: "chunks_within ?cs ?ino new ?tab" "keyed ?tab"
      "byte_at ?cs ?tab ?ino i = (if offset \<le> i \<and> i < offset + length data then data ! (i - offset)
         else byte_at ?cs (fs_data d) ?ino i)" for i
      using write_data_at_offset_correct [OF cs bound _ _ chunks_within_mono [OF within new(2)] key, of 0]
      by (auto simp: new_def)
    have res: "fst (file_pwrite f now offset data d) = Inr ()" "fs_data ?d' = ?tab"
      using False cs by (simp_all add: file_pwrite_def Let_def)
    have "u64_add offset (length data) = offset + length data"
      using bound by (simp add: u64_add_small)
    then have "select_size ?d' ?ino = as_u64 (as_i64 new)"
      using False cs ex by (auto simp: file_pwrite_def Let_def table_simps new_def)
    then have size': "select_size ?d' ?ino = new" using new(1) by (simp add: as_u64_as_i64)
    have "select_inode ?d' ?ino \<noteq> None"
      using False cs ex by (simp add: file_pwrite_def Let_def table_simps)
    then have "file_inv f ?d'"
      using cs loop new(1) by (simp add: file_inv_iff res(2) size')
    moreover have "content ?cs ?ino ?d' = af_write offset data (content ?cs ?ino d)"
    proof (rule list_eq_nth_defaultI [where x = 0])
      fix i assume "i < length (content ?cs ?ino ?d')"
      then have "i < new" by (simp add: size')
      then show "nth_default 0 (content ?cs ?ino ?d') i =
          nth_default 0 (af_write offset data (content ?cs ?ino d)) i"
        using byte_at_beyond [OF inv, of i] False
        by (auto simp: nth_default_content nth_default_af_write size' res(2) loop(3))
    qed (use False in \<open>simp add: size' length_af_write new_def\<close>)
    ultimately show ?thesis using res(1) by simp
  qed
  then show "fst (file_pwrite f now offset data d) = Inr ()" and "file_inv f ?d'"
    and "content ?cs ?ino ?d' = af_write offset data (content ?cs ?ino d)"
    by simp_all
qed

end
