(* ===== verification/File_Contract.thy ===== *)
theory File_Contract
  imports File_Content
begin

text \<open>
  What a client of \<open>AgentFSFile\<close> may rely on. The locale \<open>byte_file\<close> is the contract of
  the \<open>File\<close> trait of \<open>filesystem/mod.rs\<close> for data: reads return the bytes of an array
  that writes and truncations update. Its consequences (a read sees the last write, disjoint
  writes commute, growth reads as zeros) are proved once in the locale and reach the chunk
  store through the interpretation \<open>chunked\<close>.
\<close>

section \<open>truncate\<close>

lemma last_chunk_split:
  assumes "0 < cs" and "0 < (n :: nat)"
  shows "(n - 1) div cs * cs + ((n - 1) mod cs + 1) = n"
    and "0 < n mod cs \<Longrightarrow> n mod cs = (n - 1) mod cs + 1"
    and "n mod cs = 0 \<Longrightarrow> (n - 1) mod cs + 1 = cs"
proof -
  have eq: "(n - 1) div cs * cs + (n - 1) mod cs = n - 1" by simp
  then show split: "(n - 1) div cs * cs + ((n - 1) mod cs + 1) = n" using assms(2) by linarith
  have less: "(n - 1) mod cs < cs" using assms(1) by simp
  have cases: "n mod cs = (if (n - 1) mod cs + 1 = cs then 0 else (n - 1) mod cs + 1)"
    using assms by (metis Suc_eq_plus1 Suc_pred' mod_Suc)
  show "n mod cs = (n - 1) mod cs + 1" if "0 < n mod cs"
    using cases that by (auto split: if_splits)
  show "(n - 1) mod cs + 1 = cs" if "n mod cs = 0"
    using cases that by (auto split: if_splits)
qed

lemma map_of_shrink_chunks:
  assumes "n < 2 ^ 63"
  shows "map_of (shrink_chunks cs ino n tab) (ino', k) =
    (if ino' \<noteq> ino then map_of tab (ino', k)
     else if int ((n - 1) div cs) < k then None
     else if k = int ((n - 1) div cs) \<and> 0 < n mod cs
          then map_option (take (n mod cs)) (map_of tab (ino', k))
     else map_of tab (ino', k))"
proof -
  have "(n - 1) div cs < 2 ^ 63"
    using assms by (meson div_le_dividend le_less_trans diff_le_self)
  then have "as_i64 ((n - 1) div cs) = int ((n - 1) div cs)" by (rule as_i64_small)
  then show ?thesis
    by (auto simp: shrink_chunks_def Let_def table_simps split: option.splits)
qed

lemma keyed_shrink_chunks: "keyed tab \<Longrightarrow> keyed (shrink_chunks cs ino n tab)"
  by (auto simp: shrink_chunks_def Let_def split: option.splits
      intro!: keyed_update_row keyed_delete_rows)

lemma shrink_chunks_within:
  assumes cs: "0 < cs" and n: "0 < n" "n < 2 ^ 63" and within: "chunks_within cs ino sz tab"
  shows "chunks_within cs ino n (shrink_chunks cs ino n tab)"
  unfolding chunks_within_def
proof (intro allI impI)
  fix k b assume some: "map_of (shrink_chunks cs ino n tab) (ino, k) = Some b"
  let ?last = "(n - 1) div cs"
  from some obtain b0 where b0: "map_of tab (ino, k) = Some b0" and "length b \<le> length b0"
    and k: "k \<le> int ?last" and cut: "k = int ?last \<Longrightarrow> 0 < n mod cs \<Longrightarrow> length b \<le> n mod cs"
    by (auto simp: map_of_shrink_chunks [OF n(2)] split: if_splits)
  with within have pos: "0 \<le> k" and "length b0 \<le> cs" by (auto simp: chunks_within_def)
  with \<open>length b \<le> length b0\<close> have len: "length b \<le> cs" by simp
  have "nat k * cs + length b \<le> n"
  proof (cases "nat k = ?last")
    case True
    with pos have "k = int ?last" by simp
    with cut len last_chunk_split [OF cs n(1)] have "length b \<le> (n - 1) mod cs + 1"
      by (cases "n mod cs = 0") auto
    moreover have "nat k * cs = ?last * cs" using True by simp
    ultimately show ?thesis using last_chunk_split(1) [OF cs n(1)] by linarith
  next
    case False
    with k pos have "Suc (nat k) \<le> ?last" by simp
    then have "Suc (nat k) * cs \<le> ?last * cs" by (rule mult_le_mono1)
    with len last_chunk_split(1) [OF cs n(1)] show ?thesis
      unfolding mult_Suc by linarith
  qed
  with pos len show "0 \<le> k \<and> length b \<le> cs \<and> nat k * cs + length b \<le> n" by simp
qed

lemma byte_at_shrink_chunks:
  assumes cs: "0 < cs" and n: "n < 2 ^ 63" and i: "i < n"
  shows "byte_at cs (shrink_chunks cs ino n tab) ino i = byte_at cs tab ino i"
proof -
  have "0 < n" and le: "i div cs \<le> (n - 1) div cs" using i by (auto intro: div_le_mono)
  note split = last_chunk_split [OF cs \<open>0 < n\<close>]
  have "i mod cs < n mod cs" if "i div cs = (n - 1) div cs" and "0 < n mod cs"
  proof -
    have "i = (n - 1) div cs * cs + i mod cs" using that(1) by (metis div_mult_mod_eq)
    with i split(1) split(2) [OF that(2)] show ?thesis by linarith
  qed
  with le show ?thesis
    by (auto simp: byte_at_def map_of_shrink_chunks [OF n] nth_default_take split: option.splits)
qed

lemma chunks_within_zero: "chunks_within cs ino 0 (delete_rows (\<lambda>k. fst k = ino) tab)"
  by (simp add: chunks_within_def table_simps)

lemma file_truncate_ok:
  assumes inv: "file_inv f d" and bound: "n < 2 ^ 63"
  shows "fst (file_truncate f now n d) = Inr ()"
    and "file_inv f (snd (file_truncate f now n d))"
    and "content (f_chunk_size f) (f_ino f) (snd (file_truncate f now n d)) =
      af_truncate n (content (f_chunk_size f) (f_ino f) d)"
proof -
  let ?cs = "f_chunk_size f" and ?ino = "f_ino f" and ?d' = "snd (file_truncate f now n d)"
  let ?size = "select_size d (f_ino f)"
  from inv have cs: "0 < ?cs" and key: "keyed (fs_data d)" and ex: "select_inode d ?ino \<noteq> None"
    and within: "chunks_within ?cs ?ino ?size (fs_data d)"
    by (auto simp: file_inv_iff)
  show "fst (file_truncate f now n d) = Inr ()"
    using cs by (simp add: file_truncate_def Let_def)
  have data: "fs_data ?d' = (if n = 0 then delete_rows (\<lambda>k. fst k = ?ino) (fs_data d)
      else if n < ?size then shrink_chunks ?cs ?ino n (fs_data d) else fs_data d)"
    using cs by (simp add: file_truncate_def Let_def delete_data_def)
  have ex': "select_inode ?d' ?ino \<noteq> None"
    using cs ex by (auto simp: file_truncate_def Let_def table_simps delete_data_def)
  have "select_size ?d' ?ino = as_u64 (as_i64 n)"
    using cs ex by (auto simp: file_truncate_def Let_def table_simps delete_data_def)
  then have size': "select_size ?d' ?ino = n" using bound by (simp add: as_u64_as_i64)
  have "chunks_within ?cs ?ino n (fs_data ?d')"
    using shrink_chunks_within [OF cs _ bound within] chunks_within_mono [OF within]
    by (auto simp: data chunks_within_zero)
  moreover have "keyed (fs_data ?d')"
    using key by (auto simp: data keyed_shrink_chunks keyed_delete_rows)
  ultimately show "file_inv f ?d'"
    using cs bound ex' by (simp add: file_inv_iff size')
  show "content ?cs ?ino ?d' = af_truncate n (content ?cs ?ino d)"
  proof (rule list_eq_nth_defaultI [where x = 0])
    fix i assume "i < length (content ?cs ?ino ?d')"
    then have "i < n" by (simp add: size')
    then show "nth_default 0 (content ?cs ?ino ?d') i =
        nth_default 0 (af_truncate n (content ?cs ?ino d)) i"
      using byte_at_beyond [OF inv, of i] byte_at_shrink_chunks [OF cs bound, of i ?ino "fs_data d"]
      by (auto simp: nth_default_content af_truncate_def nth_default_resize size' data)
  qed (simp add: size' af_truncate_def)
qed

section \<open>The contract\<close>

text \<open>
  \<open>inv\<close> is the provider's representation invariant, \<open>bytes\<close> its abstraction; \<open>limit\<close>
  bounds the positions a write or a truncation may reach.
\<close>

locale byte_file =
  fixes inv :: "'s \<Rightarrow> bool"
    and bytes :: "'s \<Rightarrow> byte list"
    and limit :: nat
    and rd :: "nat \<Rightarrow> nat \<Rightarrow> 's \<Rightarrow> byte list result"
    and wr :: "'t \<Rightarrow> nat \<Rightarrow> byte list \<Rightarrow> 's \<Rightarrow> unit result \<times> 's"
    and tr :: "'t \<Rightarrow> nat \<Rightarrow> 's \<Rightarrow> unit result \<times> 's"
  assumes rd_bytes: "inv s \<Longrightarrow> rd off n s = Inr (take n (drop off (bytes s)))"
    and wr_result: "inv s \<Longrightarrow> off + length data < limit \<Longrightarrow> fst (wr now off data s) = Inr ()"
    and wr_inv: "inv s \<Longrightarrow> off + length data < limit \<Longrightarrow> inv (snd (wr now off data s))"
    and wr_bytes: "inv s \<Longrightarrow> off + length data < limit \<Longrightarrow>
      bytes (snd (wr now off data s)) = af_write off data (bytes s)"
    and tr_result: "inv s \<Longrightarrow> n < limit \<Longrightarrow> fst (tr now n s) = Inr ()"
    and tr_inv: "inv s \<Longrightarrow> n < limit \<Longrightarrow> inv (snd (tr now n s))"
    and tr_bytes: "inv s \<Longrightarrow> n < limit \<Longrightarrow> bytes (snd (tr now n s)) = af_truncate n (bytes s)"
begin

lemma read_own_write:
  assumes "inv s" and "off + length data < limit"
  shows "rd off (length data) (snd (wr now off data s)) = Inr data"
proof -
  have "take (length data) (drop off (af_write off data (bytes s))) = data"
    by (cases "data = []") (simp_all add: af_write_def)
  with assms show ?thesis by (simp add: rd_bytes wr_inv wr_bytes)
qed

lemma read_other_range:
  assumes "inv s" and "off + length data < limit" and "off' + n \<le> off" and "off \<le> length (bytes s)"
  shows "rd off' n (snd (wr now off data s)) = rd off' n s"
proof -
  have "take n (drop off' (af_write off data (bytes s))) = take n (drop off' (bytes s))"
    using assms(3,4) by (auto simp: af_write_def resize_def max_def drop_take min_def)
  with assms show ?thesis by (simp add: rd_bytes wr_inv wr_bytes)
qed

lemma disjoint_writes_commute:
  assumes "inv s" and "off1 + length d1 \<le> off2" and "off2 + length d2 < limit"
  shows "bytes (snd (wr now2 off2 d2 (snd (wr now1 off1 d1 s)))) = bytes (snd (wr now1 off1 d1 (snd (wr now2 off2 d2 s))))"
proof -
  have "af_write off2 d2 (af_write off1 d1 c) = af_write off1 d1 (af_write off2 d2 c)" for c
  proof (cases "d1 = [] \<or> d2 = []")
    case True
    then show ?thesis by (auto simp: af_write_def)
  next
    case False
    with assms(2) show ?thesis
      by (intro list_eq_nth_defaultI [where x = 0])
        (auto simp: length_af_write nth_default_af_write)
  qed
  with assms show ?thesis by (simp add: wr_bytes wr_inv)
qed

lemma grow_reads_zero:
  assumes "inv s" and "n < limit" and "length (bytes s) \<le> n"
  shows "rd (length (bytes s)) (n - length (bytes s)) (snd (tr now n s)) =
    Inr (replicate (n - length (bytes s)) 0)"
  using assms by (simp add: rd_bytes tr_inv tr_bytes af_truncate_def resize_def)

lemma shrink_then_grow:
  assumes "inv s" and "m \<le> length (bytes s)" and "m \<le> n" and "n < limit"
  shows "bytes (snd (tr now2 n (snd (tr now1 m s)))) = take m (bytes s) @ replicate (n - m) 0"
  using assms by (simp add: tr_bytes tr_inv af_truncate_def resize_def)

end

interpretation chunked: byte_file "file_inv f" "content (f_chunk_size f) (f_ino f)" "2 ^ 63"
    "file_pread f" "file_pwrite f" "file_truncate f" for f
proof
  fix s off n now and data :: "byte list"
  show "file_inv f s \<Longrightarrow> file_pread f off n s = Inr (take n (drop off (content (f_chunk_size f) (f_ino f) s)))"
    by (rule file_pread_content)
qed (fact file_pwrite_ok file_truncate_ok)+

section \<open>Runs of a handle\<close>

text \<open>A client's sequence of writes and truncations, on the handle and on the array.\<close>

datatype file_op = Pwrite timestamp u64 "byte list" | Truncate timestamp u64

fun run_file_op :: "agentfs_file \<Rightarrow> file_op \<Rightarrow> db \<Rightarrow> db" where
  "run_file_op f (Pwrite now offset data) d = snd (file_pwrite f now offset data d)"
| "run_file_op f (Truncate now n) d = snd (file_truncate f now n d)"

fun apply_file_op :: "file_op \<Rightarrow> byte list \<Rightarrow> byte list" where
  "apply_file_op (Pwrite now offset data) c = af_write offset data c"
| "apply_file_op (Truncate now n) c = af_truncate n c"

fun file_op_in_range :: "file_op \<Rightarrow> bool" where
  "file_op_in_range (Pwrite now offset data) = (offset + length data < 2 ^ 63)"
| "file_op_in_range (Truncate now n) = (n < 2 ^ 63)"

lemma run_file_op_ok:
  assumes "file_inv f d" and "file_op_in_range op"
  shows "file_inv f (run_file_op f op d) \<and>
    content (f_chunk_size f) (f_ino f) (run_file_op f op d) =
      apply_file_op op (content (f_chunk_size f) (f_ino f) d)"
  using assms by (cases op) (simp_all add: chunked.wr_inv chunked.wr_bytes chunked.tr_inv chunked.tr_bytes)

lemma fold_run_file_ops:
  assumes "file_inv f d" and "list_all file_op_in_range ops"
  shows "file_inv f (fold (run_file_op f) ops d) \<and>
    content (f_chunk_size f) (f_ino f) (fold (run_file_op f) ops d) =
      fold apply_file_op ops (content (f_chunk_size f) (f_ino f) d)"
  using assms
proof (induction ops arbitrary: d)
  case (Cons op ops)
  then show ?case using run_file_op_ok [of f d op] by simp
qed simp

end
