(* ===== verification/Fs_Paths.thy ===== *)
theory Fs_Paths
  imports Rust_Text
begin

text \<open>
  Path strings in \<open>appfs/sdk/rust/src/filesystem/agentfs.rs\<close>: \<open>normalize_path\<close>,
  \<open>split_path\<close>, \<open>split_parent_path\<close> and the display helpers of the tree queries. A Rust
  string is the list of its UTF-8 bytes; the only bytes these functions look at are ASCII.
\<close>

section \<open>Components\<close>

text \<open>\<open>path.split('/').filter(|s| !s.is_empty())\<close>.\<close>

definition path_components :: "string \<Rightarrow> string list" where
  "path_components p = filter (\<lambda>s. s \<noteq> []) (str_split (CHR ''/'') p)"

section \<open>Normalisation\<close>

text \<open>One component of the loop: \<open>.\<close> is skipped, \<open>..\<close> pops unless nothing is left.\<close>

definition push_component :: "string \<Rightarrow> string list \<Rightarrow> string list" where
  "push_component c acc =
     (if c = ''.'' then acc
      else if c = ''..'' then (if acc \<noteq> [] then butlast acc else acc)
      else acc @ [c])"

definition normalize_path :: "string \<Rightarrow> string" where
  "normalize_path path =
     (let n = trim_end_matches (CHR ''/'') path
      in if n \<noteq> [] \<and> hd n \<noteq> CHR ''/'' then ''/'' @ n
         else let normalized = (if n = [] then ''/'' else n);
                  res = fold push_component (path_components normalized) []
              in if res = [] then ''/'' else ''/'' @ str_join ''/'' res)"

definition split_path :: "string \<Rightarrow> string list" where
  "split_path path =
     (let normalized = normalize_path path
      in if normalized = ''/'' then [] else path_components normalized)"

text \<open>
  The parent path of a non-empty component list, as \<open>split_parent_path\<close> and the path-based
  operations build it.
\<close>

definition parent_path :: "string list \<Rightarrow> string" where
  "parent_path components =
     (if length components = 1 then ''/'' else ''/'' @ str_join ''/'' (butlast components))"

definition split_parent_path :: "string list \<Rightarrow> string \<times> string" where
  "split_parent_path components = (parent_path components, last components)"

section \<open>Display paths\<close>

definition display_path :: "string \<Rightarrow> string" where
  "display_path path = trim_start_matches (CHR ''/'') path"

definition join_display_path :: "string \<Rightarrow> string \<Rightarrow> string" where
  "join_display_path parent name = (if parent = [] then name else parent @ ''/'' @ name)"

definition relative_to_root_display :: "string \<Rightarrow> string \<Rightarrow> string" where
  "relative_to_root_display path root =
     (if root = [] then path
      else case strip_prefix root path of
             None \<Rightarrow> path
           | Some suffix \<Rightarrow> (case strip_prefix ''/'' suffix of Some s \<Rightarrow> s | None \<Rightarrow> suffix))"

definition is_internal_component :: "string \<Rightarrow> bool" where
  "is_internal_component name \<longleftrightarrow>
     name \<in> set [''_app'', ''_appfs'', ''_meta'', ''_stream'', ''.well-known'']"

definition has_internal_component :: "string \<Rightarrow> bool" where
  "has_internal_component path \<longleftrightarrow> list_ex is_internal_component (path_components path)"

section \<open>Splitting and joining\<close>

text \<open>A component that a directory entry can have.\<close>

definition clean_component :: "string \<Rightarrow> bool" where
  "clean_component c \<longleftrightarrow> c \<noteq> [] \<and> CHR ''/'' \<notin> set c \<and> c \<noteq> ''.'' \<and> c \<noteq> ''..''"

lemma path_components_no_sep: "c \<in> set (path_components p) \<Longrightarrow> c \<noteq> [] \<and> CHR ''/'' \<notin> set c"
  by (auto simp: path_components_def dest: str_split_no_sep)

lemma path_components_slash [simp]: "path_components (CHR ''/'' # p) = path_components p"
  by (simp add: path_components_def)

lemma path_components_Nil [simp]: "path_components [] = []"
  by (simp add: path_components_def)

lemma path_components_join:
  assumes "\<forall>c \<in> set cs. c \<noteq> [] \<and> CHR ''/'' \<notin> set c"
  shows "path_components (str_join ''/'' cs) = cs"
  using assms
proof (induction cs rule: induct_list012)
  case (2 x)
  then show ?case by (simp add: path_components_def str_split_single)
next
  case (3 x y zs)
  then show ?case
    by (simp add: path_components_def str_split_append_sep)
qed simp

lemma fold_push_component_clean:
  assumes "\<forall>c \<in> set cs. c \<noteq> [] \<and> CHR ''/'' \<notin> set c" and "list_all clean_component acc"
  shows "list_all clean_component (fold push_component cs acc)"
  using assms
proof (induction cs arbitrary: acc)
  case (Cons c cs)
  have "list_all clean_component (push_component c acc)"
    using Cons.prems by (auto simp: push_component_def clean_component_def list_all_iff dest: in_set_butlastD)
  with Cons show ?case by simp
qed simp

lemma fold_push_clean_id: "list_all clean_component cs \<Longrightarrow> fold push_component cs acc = acc @ cs"
  by (induction cs arbitrary: acc) (auto simp: push_component_def clean_component_def)

text \<open>The string form of a clean component list, and what the two functions do on it.\<close>

definition path_of :: "string list \<Rightarrow> string" where
  "path_of cs = ''/'' @ str_join ''/'' cs"

lemma clean_list_last:
  assumes "list_all clean_component cs" and "cs \<noteq> []"
  shows "last cs \<noteq> []" "last (last cs) \<noteq> CHR ''/''"
proof -
  from assms(2) have "last cs \<in> set cs" by simp
  with assms(1) have clean: "clean_component (last cs)" by (simp add: list_all_iff)
  then show ne: "last cs \<noteq> []" by (simp add: clean_component_def)
  from ne have "last (last cs) \<in> set (last cs)" by simp
  with clean show "last (last cs) \<noteq> CHR ''/''"
    unfolding clean_component_def by metis
qed

lemma normalize_path_of:
  assumes "list_all clean_component cs"
  shows "normalize_path (path_of cs) = path_of cs"
proof (cases "cs = []")
  case True
  then show ?thesis by (simp add: path_of_def normalize_path_def trim_end_matches_def)
next
  case False
  note last = clean_list_last [OF assms False]
  have join: "str_join ''/'' cs \<noteq> []" "last (str_join ''/'' cs) \<noteq> CHR ''/''"
    using last_str_join [OF False last(1), of "''/''"] last(2) by auto
  then have "trim_end_matches (CHR ''/'') (path_of cs) = path_of cs"
    by (intro trim_end_matches_id) (auto simp: path_of_def)
  moreover have "path_components (path_of cs) = cs"
    using assms path_components_join [of cs]
    by (simp add: path_of_def list_all_iff clean_component_def)
  ultimately show ?thesis
    using assms False by (simp add: normalize_path_def Let_def fold_push_clean_id) (simp add: path_of_def)
qed

lemma split_path_of:
  assumes "list_all clean_component cs"
  shows "split_path (path_of cs) = cs"
proof -
  have "path_components (path_of cs) = cs"
    using assms path_components_join [of cs]
    by (simp add: path_of_def list_all_iff clean_component_def)
  moreover have "path_of cs = ''/'' \<longleftrightarrow> cs = []"
    using assms by (auto simp: path_of_def list_all_iff clean_component_def str_join_eq_Nil)
  ultimately show ?thesis
    using assms by (simp add: split_path_def normalize_path_of Let_def)
qed

text \<open>An absolute path normalises to the string of a clean component list.\<close>

lemma normalize_absolute:
  assumes "path = [] \<or> hd path = CHR ''/''"
  obtains cs where "list_all clean_component cs" and "normalize_path path = path_of cs"
proof -
  let ?n = "trim_end_matches (CHR ''/'') path"
  have hd: "?n = [] \<or> hd ?n = CHR ''/''"
  proof (cases "?n = []")
    case False
    obtain t where "path = ?n @ t"
      by (metis rev_append rev_rev_ident takeWhile_dropWhile_id trim_end_matches_def)
    with False have "hd ?n = hd path" by (metis hd_append2)
    with assms False \<open>path = ?n @ t\<close> show ?thesis by auto
  qed simp
  define res where "res = fold push_component (path_components (if ?n = [] then ''/'' else ?n)) []"
  have "list_all clean_component res"
    unfolding res_def using path_components_no_sep by (intro fold_push_component_clean) auto
  moreover have "normalize_path path = path_of res"
    using hd by (auto simp: normalize_path_def Let_def res_def path_of_def)
  ultimately show ?thesis by (rule that)
qed

text \<open>The early return for a path without a leading slash only prepends one.\<close>

lemma normalize_relative:
  assumes "path \<noteq> []" and "hd path \<noteq> CHR ''/''"
  shows "normalize_path path = CHR ''/'' # trim_end_matches (CHR ''/'') path"
proof -
  let ?n = "trim_end_matches (CHR ''/'') path"
  obtain t where t: "path = ?n @ t" "set t \<subseteq> {CHR ''/''}"
  proof -
    have "path = ?n @ rev (takeWhile (\<lambda>x. x = CHR ''/'') (rev path))"
      by (metis rev_append rev_rev_ident takeWhile_dropWhile_id trim_end_matches_def)
    moreover have "set (rev (takeWhile (\<lambda>x. x = CHR ''/'') (rev path))) \<subseteq> {CHR ''/''}"
      by (auto dest: set_takeWhileD)
    ultimately show ?thesis by (rule that)
  qed
  have "?n \<noteq> []"
  proof
    assume "?n = []"
    with t assms(1) have "hd path \<in> set t" by simp
    with t(2) assms(2) show False by auto
  qed
  moreover from this t(1) have "hd ?n = hd path" by (metis hd_append2)
  ultimately show ?thesis using assms(2) by (simp add: normalize_path_def Let_def)
qed

text \<open>What the path-based operations work with: normalise, then split.\<close>

lemma normalize_path_absolute: "normalize_path path \<noteq> [] \<and> hd (normalize_path path) = CHR ''/''"
  by (auto simp: normalize_path_def Let_def)

lemma split_normalize_clean: "list_all clean_component (split_path (normalize_path path))"
proof -
  obtain cs where "list_all clean_component cs" "normalize_path (normalize_path path) = path_of cs"
    using normalize_absolute normalize_path_absolute by metis
  moreover from this have "split_path (normalize_path path) = split_path (path_of cs)"
    by (simp add: split_path_def normalize_path_of)
  ultimately show ?thesis by (simp add: split_path_of)
qed

lemma split_parent:
  assumes "list_all clean_component cs" and "cs \<noteq> []"
  shows "split_path (parent_path cs) = butlast cs"
proof -
  have "list_all clean_component (butlast cs)"
    using assms(1) by (auto simp: list_all_iff dest: in_set_butlastD)
  moreover have "parent_path cs = path_of (butlast cs)"
    using assms(2) by (cases cs rule: rev_cases) (auto simp: parent_path_def path_of_def)
  ultimately show ?thesis by (simp add: split_path_of)
qed

end
