(* ===== verification/Dentry_Cache.thy ===== *)
theory Dentry_Cache
  imports File_Content Fs_Paths
begin

text \<open>
  The state of an \<open>AgentFS\<close> instance and its directory entry cache
  (\<open>appfs/sdk/rust/src/filesystem/agentfs.rs\<close>): the cache operations, the shared epoch that
  tells an instance to drop its cache, and path resolution through the cache.

  The cache itself is the \<open>LruCache\<close> of the \<open>lru\<close> crate. Its operations are the parameter
  \<open>L\<close>; the locale \<open>lru_cache\<close> states what its documentation promises: \<open>get\<close> returns what
  is cached and only reorders, \<open>put\<close> stores the new entry and may evict others, \<open>pop\<close>
  removes one entry, \<open>clear\<close> all.
\<close>

section \<open>State\<close>

type_synonym dentry_key = "i64 \<times> string"

record 'c lru_ops =
  lru_get :: "'c \<Rightarrow> dentry_key \<Rightarrow> i64 option \<times> 'c"
  lru_put :: "'c \<Rightarrow> dentry_key \<Rightarrow> i64 \<Rightarrow> 'c"
  lru_pop :: "'c \<Rightarrow> dentry_key \<Rightarrow> 'c"
  lru_clear :: "'c \<Rightarrow> 'c"

text \<open>
  \<open>shared_epoch\<close> is the value of the counter that the instances with the same cache key
  share, \<open>None\<close> for an instance without a key.
\<close>

record 'c agentfs =
  afs_db :: db
  afs_chunk_size :: nat
  dentry_cache :: 'c
  shared_epoch :: "u64 option"
  seen_epoch :: u64

definition dcache_get :: "'c lru_ops \<Rightarrow> i64 \<Rightarrow> string \<Rightarrow> 'c agentfs \<Rightarrow> i64 option \<times> 'c agentfs" where
  "dcache_get L parent_ino name s =
     (let r = lru_get L (dentry_cache s) (parent_ino, name)
      in (fst r, s\<lparr>dentry_cache := snd r\<rparr>))"

definition dcache_insert :: "'c lru_ops \<Rightarrow> i64 \<Rightarrow> string \<Rightarrow> i64 \<Rightarrow> 'c agentfs \<Rightarrow> 'c agentfs" where
  "dcache_insert L parent_ino name child_ino s =
     s\<lparr>dentry_cache := lru_put L (dentry_cache s) (parent_ino, name) child_ino\<rparr>"

definition dcache_remove :: "'c lru_ops \<Rightarrow> i64 \<Rightarrow> string \<Rightarrow> 'c agentfs \<Rightarrow> 'c agentfs" where
  "dcache_remove L parent_ino name s =
     s\<lparr>dentry_cache := lru_pop L (dentry_cache s) (parent_ino, name)\<rparr>"

definition dcache_clear :: "'c lru_ops \<Rightarrow> 'c agentfs \<Rightarrow> 'c agentfs" where
  "dcache_clear L s = s\<lparr>dentry_cache := lru_clear L (dentry_cache s)\<rparr>"

definition refresh_dentry_cache_if_stale :: "'c lru_ops \<Rightarrow> 'c agentfs \<Rightarrow> 'c agentfs" where
  "refresh_dentry_cache_if_stale L s =
     (case shared_epoch s of
        None \<Rightarrow> s
      | Some current \<Rightarrow>
          if current \<noteq> seen_epoch s then (dcache_clear L s)\<lparr>seen_epoch := current\<rparr> else s)"

definition invalidate_shared_dentry_caches :: "'c lru_ops \<Rightarrow> 'c agentfs \<Rightarrow> 'c agentfs" where
  "invalidate_shared_dentry_caches L s =
     (let s1 = dcache_clear L s
      in case shared_epoch s1 of
           None \<Rightarrow> s1
         | Some current \<Rightarrow>
             let nxt = u64_add current 1 in s1\<lparr>shared_epoch := Some nxt, seen_epoch := nxt\<rparr>)"

section \<open>Lookup and path resolution\<close>

text \<open>
  \<open>lookup_child\<close>: the rows of the query are counted and more than one is refused.
\<close>

definition lookup_child :: "db \<Rightarrow> i64 \<Rightarrow> string \<Rightarrow> i64 option result" where
  "lookup_child d parent_ino name =
     (case filter (\<lambda>r. fst r = (parent_ino, name)) (fs_dentry d) of
        [] \<Rightarrow> Inr None
      | [r] \<Rightarrow> Inr (Some (snd r))
      | _ \<Rightarrow> Inl (Fs InvalidPath))"

text \<open>The loop of \<open>resolve_path_with_conn\<close>: cache first, then the table, filling the cache.\<close>

fun resolve_loop ::
  "'c lru_ops \<Rightarrow> string list \<Rightarrow> i64 \<Rightarrow> 'c agentfs \<Rightarrow> i64 option result \<times> 'c agentfs" where
  "resolve_loop L [] current_ino s = (Inr (Some current_ino), s)"
| "resolve_loop L (component # components) current_ino s =
     (case dcache_get L current_ino component s of
        (Some cached_ino, s1) \<Rightarrow> resolve_loop L components cached_ino s1
      | (None, s1) \<Rightarrow>
          (case lookup_child (afs_db s1) current_ino component of
             Inl e \<Rightarrow> (Inl e, s1)
           | Inr None \<Rightarrow> (Inr None, s1)
           | Inr (Some child_ino) \<Rightarrow>
               resolve_loop L components child_ino (dcache_insert L current_ino component child_ino s1)))"

definition resolve_path :: "'c lru_ops \<Rightarrow> string \<Rightarrow> 'c agentfs \<Rightarrow> i64 option result \<times> 'c agentfs" where
  "resolve_path L path s =
     (let s1 = refresh_dentry_cache_if_stale L s; components = split_path path
      in if components = [] then (Inr (Some ROOT_INO), s1)
         else resolve_loop L components ROOT_INO s1)"

section \<open>Resolution is a walk through the directory entries\<close>

text \<open>The walk without a cache: the specification of resolution.\<close>

fun walk :: "db \<Rightarrow> i64 \<Rightarrow> string list \<Rightarrow> i64 option" where
  "walk d ino [] = Some ino"
| "walk d ino (c # cs) = (case map_of (fs_dentry d) (ino, c) of None \<Rightarrow> None | Some i \<Rightarrow> walk d i cs)"

lemma filter_key_keyed:
  "keyed t \<Longrightarrow> filter (\<lambda>r. fst r = k) t = (case map_of t k of None \<Rightarrow> [] | Some v \<Rightarrow> [(k, v)])"
proof (induction t)
  case (Cons r t)
  then have "keyed t" by (simp add: keyed_def)
  show ?case
  proof (cases "fst r = k")
    case True
    with Cons.prems have "map_of t k = None"
      by (auto simp: keyed_def map_of_eq_None_iff)
    then have "filter (\<lambda>r. fst r = k) t = []"
      using Cons.IH [OF \<open>keyed t\<close>] by simp
    with True show ?thesis by (cases r) simp
  next
    case False
    with Cons.IH [OF \<open>keyed t\<close>] show ?thesis by simp
  qed
qed simp

lemma lookup_child_keyed:
  "keyed (fs_dentry d) \<Longrightarrow> lookup_child d p n = Inr (map_of (fs_dentry d) (p, n))"
  by (simp add: lookup_child_def filter_key_keyed split: option.splits)

lemma walk_append:
  "walk d ino (cs @ cs') = (case walk d ino cs of None \<Rightarrow> None | Some i \<Rightarrow> walk d i cs')"
  by (induction cs arbitrary: ino) (auto split: option.splits)

lemma agentfs_db_simps [simp]:
  "afs_db (dcache_insert L p n i s) = afs_db s" "afs_db (dcache_remove L p n s) = afs_db s"
  "afs_db (dcache_clear L s) = afs_db s" "afs_db (refresh_dentry_cache_if_stale L s) = afs_db s"
  "afs_db (invalidate_shared_dentry_caches L s) = afs_db s"
  by (simp_all add: dcache_insert_def dcache_remove_def dcache_clear_def
      refresh_dentry_cache_if_stale_def invalidate_shared_dentry_caches_def Let_def split: option.splits)

text \<open>A cache is coherent with a database when every cached entry is a row.\<close>

definition coherent :: "('c \<Rightarrow> dentry_key \<Rightarrow> i64 option) \<Rightarrow> 'c agentfs \<Rightarrow> bool" where
  "coherent view s \<longleftrightarrow> view (dentry_cache s) \<subseteq>\<^sub>m map_of (fs_dentry (afs_db s))"

lemma coherentD:
  "coherent view s \<Longrightarrow> view (dentry_cache s) k = Some v \<Longrightarrow> map_of (fs_dentry (afs_db s)) k = Some v"
  unfolding coherent_def map_le_def by (metis domI)

text \<open>The contract of the cache, and what it gives to resolution.\<close>

locale lru_cache =
  fixes L :: "'c lru_ops"
    and view :: "'c \<Rightarrow> dentry_key \<Rightarrow> i64 option"
  assumes get_result: "fst (lru_get L c k) = view c k"
    and get_view: "view (snd (lru_get L c k)) = view c"
    and put_view: "view (lru_put L c k v) \<subseteq>\<^sub>m (view c)(k \<mapsto> v)"
    and pop_view: "view (lru_pop L c k) = (view c)(k := None)"
    and clear_view: "view (lru_clear L c) = Map.empty"
begin

lemma coherent_clear: "coherent view (dcache_clear L s)"
  by (simp add: coherent_def dcache_clear_def clear_view)

lemma coherent_refresh: "coherent view s \<Longrightarrow> coherent view (refresh_dentry_cache_if_stale L s)"
  using coherent_clear [of s]
  by (auto simp: refresh_dentry_cache_if_stale_def coherent_def split: option.splits)

lemma coherent_invalidate: "coherent view (invalidate_shared_dentry_caches L s)"
  using coherent_clear [of s]
  by (auto simp: invalidate_shared_dentry_caches_def coherent_def Let_def split: option.splits)

lemma map_le_put:
  assumes "view c \<subseteq>\<^sub>m m'" and "m' k = Some v"
  shows "view (lru_put L c k v) \<subseteq>\<^sub>m m'"
proof -
  have "(view c)(k \<mapsto> v) \<subseteq>\<^sub>m m'" using assms by (auto simp: map_le_def)
  with put_view show ?thesis by (rule map_le_trans)
qed

lemma coherent_insert:
  assumes "coherent view s" and "map_of (fs_dentry (afs_db s)) (p, n) = Some i"
  shows "coherent view (dcache_insert L p n i s)"
  using assms map_le_put by (simp add: coherent_def dcache_insert_def)

lemma coherent_get:
  assumes "coherent view s" and "dcache_get L p n s = (r, s')"
  shows "r = view (dentry_cache s) (p, n)" "afs_db s' = afs_db s" "coherent view s'"
  using assms by (auto simp: dcache_get_def Let_def get_result get_view coherent_def)

lemma resolve_loop_walk:
  assumes "keyed (fs_dentry (afs_db s))" and "coherent view s"
  shows "\<exists>s'. resolve_loop L cs ino s = (Inr (walk (afs_db s) ino cs), s') \<and>
    afs_db s' = afs_db s \<and> coherent view s'"
  using assms
proof (induction cs arbitrary: ino s)
  case Nil
  then show ?case by simp
next
  case (Cons c cs)
  obtain r s1 where get: "dcache_get L ino c s = (r, s1)" by fastforce
  note g = coherent_get [OF Cons.prems(2) get]
  show ?case
  proof (cases r)
    case (Some i)
    with g(1) have "view (dentry_cache s) (ino, c) = Some i" by simp
    with Cons.prems(2) have "map_of (fs_dentry (afs_db s)) (ino, c) = Some i"
      by (rule coherentD)
    with Cons.IH [of s1 i] Cons.prems(1) g(2,3) get Some show ?thesis by simp
  next
    case None
    show ?thesis
    proof (cases "map_of (fs_dentry (afs_db s)) (ino, c)")
      case None
      with \<open>r = None\<close> get g Cons.prems(1) show ?thesis by (simp add: lookup_child_keyed)
    next
      case (Some i)
      with g have "coherent view (dcache_insert L ino c i s1)" by (simp add: coherent_insert)
      with Cons.IH [of "dcache_insert L ino c i s1" i] Cons.prems(1) g(2) get Some \<open>r = None\<close>
      show ?thesis by (simp add: lookup_child_keyed)
    qed
  qed
qed

lemma resolve_path_walk:
  assumes "keyed (fs_dentry (afs_db s))" and "coherent view s"
  shows "\<exists>s'. resolve_path L path s = (Inr (walk (afs_db s) ROOT_INO (split_path path)), s') \<and>
    afs_db s' = afs_db s \<and> coherent view s'"
  using assms resolve_loop_walk [of "refresh_dentry_cache_if_stale L s" "split_path path" ROOT_INO]
  by (simp add: resolve_path_def Let_def coherent_refresh)

end

section \<open>A cache that satisfies the contract\<close>

text \<open>
  A list in recency order, cut at the capacity. It is the reference behaviour of an LRU cache
  and shows that the contract can be met; no statement about the file system depends on it.
\<close>

definition DENTRY_CACHE_MAX_SIZE :: nat where
  "DENTRY_CACHE_MAX_SIZE = 10000"

definition recency_lru :: "nat \<Rightarrow> (dentry_key \<times> i64) list lru_ops" where
  "recency_lru capacity =
     \<lparr>lru_get = (\<lambda>c k. (map_of c k, case map_of c k of None \<Rightarrow> c | Some v \<Rightarrow> (k, v) # delete_rows (\<lambda>x. x = k) c)),
      lru_put = (\<lambda>c k v. take capacity ((k, v) # delete_rows (\<lambda>x. x = k) c)),
      lru_pop = (\<lambda>c k. delete_rows (\<lambda>x. x = k) c),
      lru_clear = (\<lambda>c. [])\<rparr>"

lemma map_of_take_le: "map_of (take n t) \<subseteq>\<^sub>m map_of t"
proof -
  have "map_of t = map_of (drop n t) ++ map_of (take n t)"
    by (metis append_take_drop_id map_of_append)
  then show ?thesis by (metis map_le_map_add)
qed

interpretation recency: lru_cache "recency_lru capacity" map_of for capacity
proof
  fix c :: "(dentry_key \<times> i64) list" and k v
  have "map_of ((k, v) # delete_rows (\<lambda>x. x = k) c) = (map_of c)(k \<mapsto> v)"
    by (auto simp: fun_eq_iff table_simps)
  then show "map_of (lru_put (recency_lru capacity) c k v) \<subseteq>\<^sub>m (map_of c)(k \<mapsto> v)"
    using map_of_take_le [of capacity "(k, v) # delete_rows (\<lambda>x. x = k) c"]
    by (simp add: recency_lru_def)
qed (auto simp: recency_lru_def fun_eq_iff table_simps split: option.splits)

end
