(* ===== verification/Fs_Namespace.thy ===== *)
theory Fs_Namespace
  imports Dentry_Cache
begin

unbundle bit_operations_syntax

text \<open>
  \<open>impl FileSystem for AgentFS\<close> of \<open>appfs/sdk/rust/src/filesystem/agentfs.rs\<close>: the
  inode-based operations a mount drives. Each definition is the whole method: its checks in
  their order, every statement it executes, its cache update and its result. A method
  without a transaction keeps what it wrote before a failing statement; a method with one
  rolls back.

  The time a method reads from the clock is an argument; a method that reads it more than
  once takes one argument per reading.
\<close>

section \<open>Queries\<close>

definition getattr :: "db \<Rightarrow> i64 \<Rightarrow> stats option" where
  "getattr d ino = map_option (build_stats_from_row ino) (select_inode d ino)"

definition get_link_count :: "db \<Rightarrow> i64 \<Rightarrow> u32" where
  "get_link_count d ino = (case select_inode d ino of Some r \<Rightarrow> as_u32 (r_nlink r) | None \<Rightarrow> 0)"

definition fs_lookup ::
  "'c lru_ops \<Rightarrow> i64 \<Rightarrow> string \<Rightarrow> 'c agentfs \<Rightarrow> stats option result \<times> 'c agentfs" where
  "fs_lookup L parent_ino name s =
     (let d = afs_db s
      in if MAX_NAME_LEN < length name then (Inl (Fs NameTooLong), s)
         else if name = ''..'' then
           (if parent_ino = ROOT_INO then (Inr (getattr d ROOT_INO), s)
            else let parent = (case find (\<lambda>r. snd r = parent_ino) (fs_dentry d) of
                                 Some r \<Rightarrow> fst (fst r) | None \<Rightarrow> ROOT_INO)
                 in (Inr (getattr d parent), s))
         else case lookup_child d parent_ino name of
                Inl e \<Rightarrow> (Inl e, s)
              | Inr None \<Rightarrow> (Inr None, s)
              | Inr (Some child_ino) \<Rightarrow>
                  (case getattr d child_ino of
                     Some st \<Rightarrow> (Inr (Some st), dcache_insert L parent_ino name child_ino s)
                   | None \<Rightarrow> (Inr None, s)))"

definition fs_readlink :: "i64 \<Rightarrow> db \<Rightarrow> string option result" where
  "fs_readlink ino d =
     (case select_inode d ino of
        None \<Rightarrow> Inr None
      | Some r \<Rightarrow> if \<not> mode_is (r_mode r) S_IFLNK then Inl (Fs NotASymlink)
                  else Inr (map_of (fs_symlink d) ino))"

definition fs_readdir :: "i64 \<Rightarrow> db \<Rightarrow> string list option result" where
  "fs_readdir ino d =
     (case select_inode d ino of
        None \<Rightarrow> Inr None
      | Some r \<Rightarrow> if \<not> mode_is (r_mode r) S_IFDIR then Inl (Fs NotADirectory)
                  else Inr (Some (filter (\<lambda>n. n \<noteq> [])
                         (sort (map (\<lambda>e. snd (fst e)) (filter (\<lambda>e. fst (fst e) = ino) (fs_dentry d)))))))"

text \<open>The join drops an entry whose inode has no row.\<close>

definition fs_readdir_plus :: "i64 \<Rightarrow> db \<Rightarrow> dir_entry list option result" where
  "fs_readdir_plus ino d =
     (case select_inode d ino of
        None \<Rightarrow> Inr None
      | Some r \<Rightarrow> if \<not> mode_is (r_mode r) S_IFDIR then Inl (Fs NotADirectory)
                  else Inr (Some (List.map_filter
                         (\<lambda>e. if snd (fst e) = [] then None
                              else map_option (\<lambda>st. \<lparr>de_name = snd (fst e), de_stats = st\<rparr>) (getattr d (snd e)))
                         (sort_key (\<lambda>e. snd (fst e)) (filter (\<lambda>e. fst (fst e) = ino) (fs_dentry d))))))"

definition fs_open :: "i64 \<Rightarrow> 'c agentfs \<Rightarrow> agentfs_file result" where
  "fs_open ino s =
     (case select_inode (afs_db s) ino of
        None \<Rightarrow> Inl (Fs NotFound)
      | Some _ \<Rightarrow> Inr \<lparr>f_ino = ino, f_chunk_size = afs_chunk_size s\<rparr>)"

definition fs_statfs :: "db \<Rightarrow> filesystem_stats" where
  "fs_statfs d = \<lparr>fs_inodes = as_u64 (int (length (fs_inode d))),
     fs_bytes_used = as_u64 (sum_list (map (\<lambda>r. r_size (snd r)) (fs_inode d)))\<rparr>"

section \<open>Attributes\<close>

definition fs_chmod :: "timestamp \<Rightarrow> i64 \<Rightarrow> u32 \<Rightarrow> db \<Rightarrow> unit result \<times> db" where
  "fs_chmod now ino mode d =
     (case select_inode d ino of
        None \<Rightarrow> (Inl (Fs NotFound), d)
      | Some r \<Rightarrow>
          let new_mode = (r_mode r AND S_IFMT) OR (mode AND PERM_MASK)
          in (Inr (), update_inode ino
                (\<lambda>r. r\<lparr>r_mode := new_mode, r_ctime := fst now, r_ctime_nsec := snd now\<rparr>) d))"

definition fs_chown :: "timestamp \<Rightarrow> i64 \<Rightarrow> u32 option \<Rightarrow> u32 option \<Rightarrow> db \<Rightarrow> unit result \<times> db" where
  "fs_chown now ino uid gid d =
     (if uid = None \<and> gid = None then (Inr (), d)
      else case select_inode d ino of
             None \<Rightarrow> (Inl (Fs NotFound), d)
           | Some _ \<Rightarrow>
               (Inr (), update_inode ino
                  (\<lambda>r. let r1 = (case uid of Some u \<Rightarrow> r\<lparr>r_uid := u\<rparr> | None \<Rightarrow> r);
                           r2 = (case gid of Some g \<Rightarrow> r1\<lparr>r_gid := g\<rparr> | None \<Rightarrow> r1)
                       in r2\<lparr>r_ctime := fst now, r_ctime_nsec := snd now\<rparr>) d))"

text \<open>The closure \<open>resolve\<close>; \<open>Omit\<close> is \<open>unreachable!\<close> there and guarded by its callers.\<close>

fun resolve_time :: "timestamp \<Rightarrow> time_change \<Rightarrow> timestamp option" where
  "resolve_time now (Set secs nsec) = Some (secs, nsec)"
| "resolve_time now Now = Some now"
| "resolve_time now Omit = None"

definition fs_utimens ::
  "timestamp \<Rightarrow> timestamp \<Rightarrow> timestamp \<Rightarrow> i64 \<Rightarrow> time_change \<Rightarrow> time_change \<Rightarrow> db \<Rightarrow> unit result \<times> db" where
  "fs_utimens now_a now_m now_c ino atime mtime d =
     (case select_inode d ino of
        None \<Rightarrow> (Inl (Fs NotFound), d)
      | Some _ \<Rightarrow>
          if atime = Omit \<and> mtime = Omit then (Inr (), d)
          else (Inr (), update_inode ino
                  (\<lambda>r. let r1 = (case resolve_time now_a atime of
                                   Some t \<Rightarrow> r\<lparr>r_atime := fst t, r_atime_nsec := snd t\<rparr> | None \<Rightarrow> r);
                           r2 = (case resolve_time now_m mtime of
                                   Some t \<Rightarrow> r1\<lparr>r_mtime := fst t, r_mtime_nsec := snd t\<rparr> | None \<Rightarrow> r1)
                       in r2\<lparr>r_ctime := fst now_c, r_ctime_nsec := snd now_c\<rparr>) d))"

section \<open>Creation\<close>

text \<open>The row of an \<open>INSERT INTO fs_inode\<close> with all three times set to now.\<close>

definition new_row :: "u32 \<Rightarrow> i64 \<Rightarrow> u32 \<Rightarrow> u32 \<Rightarrow> i64 \<Rightarrow> 64 word \<Rightarrow> timestamp \<Rightarrow> inode_row" where
  "new_row mode nlink uid gid sz rdev now =
     \<lparr>r_mode = mode, r_nlink = nlink, r_uid = uid, r_gid = gid, r_size = sz,
      r_atime = fst now, r_mtime = fst now, r_ctime = fst now, r_rdev = rdev,
      r_atime_nsec = snd now, r_mtime_nsec = snd now, r_ctime_nsec = snd now\<rparr>"

definition new_stats :: "i64 \<Rightarrow> u32 \<Rightarrow> u32 \<Rightarrow> u32 \<Rightarrow> u32 \<Rightarrow> i64 \<Rightarrow> 64 word \<Rightarrow> timestamp \<Rightarrow> stats" where
  "new_stats ino mode nlink uid gid sz rdev now =
     \<lparr>st_ino = ino, st_mode = mode, st_nlink = nlink, st_uid = uid, st_gid = gid, st_size = sz,
      st_atime = fst now, st_mtime = fst now, st_ctime = fst now, st_atime_nsec = snd now,
      st_mtime_nsec = snd now, st_ctime_nsec = snd now, st_rdev = rdev\<rparr>"

text \<open>\<open>UPDATE fs_inode SET ctime, mtime, ctime_nsec, mtime_nsec\<close> for a directory.\<close>

definition touch_parent :: "timestamp \<Rightarrow> i64 \<Rightarrow> db \<Rightarrow> db" where
  "touch_parent now ino d = update_inode ino
     (\<lambda>r. r\<lparr>r_ctime := fst now, r_mtime := fst now, r_ctime_nsec := snd now, r_mtime_nsec := snd now\<rparr>) d"

definition add_nlink :: "int \<Rightarrow> i64 \<Rightarrow> db \<Rightarrow> db" where
  "add_nlink k ino d = update_inode ino (\<lambda>r. r\<lparr>r_nlink := r_nlink r + k\<rparr>) d"

definition unique_violation :: sdk_error where
  "unique_violation = Database ''UNIQUE constraint failed''"

definition fs_mkdir ::
  "'c lru_ops \<Rightarrow> timestamp \<Rightarrow> i64 \<Rightarrow> string \<Rightarrow> u32 \<Rightarrow> u32 \<Rightarrow> u32 \<Rightarrow> 'c agentfs \<Rightarrow> stats result \<times> 'c agentfs" where
  "fs_mkdir L now parent_ino name mode uid gid s =
     (if MAX_NAME_LEN < length name then (Inl (Fs NameTooLong), s)
      else case lookup_child (afs_db s) parent_ino name of
             Inl e \<Rightarrow> (Inl e, s)
           | Inr (Some _) \<Rightarrow> (Inl (Fs AlreadyExists), s)
           | Inr None \<Rightarrow>
               let dir_mode = S_IFDIR OR (mode AND PERM_MASK);
                   (ino, d1) = insert_inode (new_row dir_mode 0 uid gid 0 0 now) (afs_db s)
               in case insert_dentry name parent_ino ino d1 of
                    None \<Rightarrow> (Inl unique_violation, s\<lparr>afs_db := d1\<rparr>)
                  | Some d2 \<Rightarrow>
                      let d3 = update_inode ino (\<lambda>r. r\<lparr>r_nlink := 2\<rparr>) d2;
                          d4 = touch_parent now parent_ino (add_nlink 1 parent_ino d3)
                      in (Inr (new_stats ino dir_mode 2 uid gid 0 0 now),
                          dcache_insert L parent_ino name ino (s\<lparr>afs_db := d4\<rparr>)))"

definition fs_create_file ::
  "'c lru_ops \<Rightarrow> timestamp \<Rightarrow> i64 \<Rightarrow> string \<Rightarrow> u32 \<Rightarrow> u32 \<Rightarrow> u32 \<Rightarrow> 'c agentfs \<Rightarrow>
     (stats \<times> agentfs_file) result \<times> 'c agentfs" where
  "fs_create_file L now parent_ino name mode uid gid s =
     (if MAX_NAME_LEN < length name then (Inl (Fs NameTooLong), s)
      else case lookup_child (afs_db s) parent_ino name of
             Inl e \<Rightarrow> (Inl e, s)
           | Inr (Some _) \<Rightarrow> (Inl (Fs AlreadyExists), s)
           | Inr None \<Rightarrow>
               let file_mode = S_IFREG OR (mode AND PERM_MASK);
                   (ino, d1) = insert_inode (new_row file_mode 1 uid gid 0 0 now) (afs_db s)
               in case insert_dentry name parent_ino ino d1 of
                    None \<Rightarrow> (Inl unique_violation, s)
                  | Some d2 \<Rightarrow>
                      (Inr (new_stats ino file_mode 1 uid gid 0 0 now,
                            \<lparr>f_ino = ino, f_chunk_size = afs_chunk_size s\<rparr>),
                       dcache_insert L parent_ino name ino (s\<lparr>afs_db := touch_parent now parent_ino d2\<rparr>)))"

definition fs_mknod ::
  "'c lru_ops \<Rightarrow> timestamp \<Rightarrow> i64 \<Rightarrow> string \<Rightarrow> u32 \<Rightarrow> 64 word \<Rightarrow> u32 \<Rightarrow> u32 \<Rightarrow> 'c agentfs \<Rightarrow>
     stats result \<times> 'c agentfs" where
  "fs_mknod L now parent_ino name mode rdev uid gid s =
     (if MAX_NAME_LEN < length name then (Inl (Fs NameTooLong), s)
      else case lookup_child (afs_db s) parent_ino name of
             Inl e \<Rightarrow> (Inl e, s)
           | Inr (Some _) \<Rightarrow> (Inl (Fs AlreadyExists), s)
           | Inr None \<Rightarrow>
               let (ino, d1) = insert_inode (new_row mode 0 uid gid 0 rdev now) (afs_db s)
               in case insert_dentry name parent_ino ino d1 of
                    None \<Rightarrow> (Inl unique_violation, s\<lparr>afs_db := d1\<rparr>)
                  | Some d2 \<Rightarrow>
                      let d3 = touch_parent now parent_ino (add_nlink 1 ino d2)
                      in (Inr (new_stats ino mode 1 uid gid 0 rdev now),
                          dcache_insert L parent_ino name ino (s\<lparr>afs_db := d3\<rparr>)))"

definition fs_symlink_at ::
  "'c lru_ops \<Rightarrow> timestamp \<Rightarrow> i64 \<Rightarrow> string \<Rightarrow> string \<Rightarrow> u32 \<Rightarrow> u32 \<Rightarrow> 'c agentfs \<Rightarrow>
     stats result \<times> 'c agentfs" where
  "fs_symlink_at L now parent_ino name target uid gid s =
     (if MAX_NAME_LEN < length name then (Inl (Fs NameTooLong), s)
      else case lookup_child (afs_db s) parent_ino name of
             Inl e \<Rightarrow> (Inl e, s)
           | Inr (Some _) \<Rightarrow> (Inl (Fs AlreadyExists), s)
           | Inr None \<Rightarrow>
               let mode = S_IFLNK OR 511;
                   sz = as_i64 (length target);
                   (ino, d1) = insert_inode (new_row mode 0 uid gid sz 0 now) (afs_db s)
               in case insert_row ino target (fs_symlink d1) of
                    None \<Rightarrow> (Inl unique_violation, s\<lparr>afs_db := d1\<rparr>)
                  | Some t \<Rightarrow>
                      let d2 = d1\<lparr>fs_symlink := t\<rparr>
                      in case insert_dentry name parent_ino ino d2 of
                           None \<Rightarrow> (Inl unique_violation, s\<lparr>afs_db := d2\<rparr>)
                         | Some d3 \<Rightarrow>
                             let d4 = touch_parent now parent_ino (add_nlink 1 ino d3)
                             in (Inr (new_stats ino mode 1 uid gid sz 0 now),
                                 dcache_insert L parent_ino name ino (s\<lparr>afs_db := d4\<rparr>)))"

definition fs_link ::
  "'c lru_ops \<Rightarrow> timestamp \<Rightarrow> i64 \<Rightarrow> i64 \<Rightarrow> string \<Rightarrow> 'c agentfs \<Rightarrow> stats result \<times> 'c agentfs" where
  "fs_link L now ino newparent_ino newname s =
     (if MAX_NAME_LEN < length newname then (Inl (Fs NameTooLong), s)
      else case select_inode (afs_db s) ino of
             None \<Rightarrow> (Inl (Fs NotFound), s)
           | Some r \<Rightarrow>
               if mode_is (r_mode r) S_IFDIR then (Inl (Fs IsADirectory), s)
               else case lookup_child (afs_db s) newparent_ino newname of
                      Inl e \<Rightarrow> (Inl e, s)
                    | Inr (Some _) \<Rightarrow> (Inl (Fs AlreadyExists), s)
                    | Inr None \<Rightarrow>
                        (case insert_dentry newname newparent_ino ino (afs_db s) of
                           None \<Rightarrow> (Inl unique_violation, s)
                         | Some d1 \<Rightarrow>
                             let d2 = update_inode ino (\<lambda>r. r\<lparr>r_nlink := r_nlink r + 1,
                                        r_ctime := fst now, r_ctime_nsec := snd now\<rparr>) d1;
                                 d3 = touch_parent now newparent_ino d2;
                                 s' = dcache_insert L newparent_ino newname ino (s\<lparr>afs_db := d3\<rparr>)
                             in (case getattr d3 ino of
                                   Some st \<Rightarrow> (Inr st, s')
                                 | None \<Rightarrow> (Inl (Fs NotFound), s'))))"

section \<open>Removal\<close>

text \<open>The cleanup of an inode whose link count reached zero.\<close>

definition purge_inode :: "i64 \<Rightarrow> db \<Rightarrow> db" where
  "purge_inode ino d = delete_inode ino (delete_symlink ino (delete_data ino d))"

definition fs_unlink ::
  "'c lru_ops \<Rightarrow> timestamp \<Rightarrow> i64 \<Rightarrow> string \<Rightarrow> 'c agentfs \<Rightarrow> unit result \<times> 'c agentfs" where
  "fs_unlink L now parent_ino name s =
     (if MAX_NAME_LEN < length name then (Inl (Fs NameTooLong), s)
      else case lookup_child (afs_db s) parent_ino name of
             Inl e \<Rightarrow> (Inl e, s)
           | Inr None \<Rightarrow> (Inl (Fs NotFound), s)
           | Inr (Some ino) \<Rightarrow>
               if (case select_inode (afs_db s) ino of Some r \<Rightarrow> mode_is (r_mode r) S_IFDIR | None \<Rightarrow> False)
               then (Inl (Fs IsADirectory), s)
               else let d1 = delete_dentry parent_ino name (afs_db s);
                        d2 = touch_parent now parent_ino d1;
                        d3 = update_inode ino (\<lambda>r. r\<lparr>r_nlink := r_nlink r - 1,
                               r_ctime := fst now, r_ctime_nsec := snd now\<rparr>) d2;
                        d4 = (if get_link_count d3 ino = 0 then purge_inode ino d3 else d3)
                    in (Inr (), (dcache_remove L parent_ino name s)\<lparr>afs_db := d4\<rparr>))"

definition fs_rmdir ::
  "'c lru_ops \<Rightarrow> timestamp \<Rightarrow> i64 \<Rightarrow> string \<Rightarrow> 'c agentfs \<Rightarrow> unit result \<times> 'c agentfs" where
  "fs_rmdir L now parent_ino name s =
     (if MAX_NAME_LEN < length name then (Inl (Fs NameTooLong), s)
      else case lookup_child (afs_db s) parent_ino name of
             Inl e \<Rightarrow> (Inl e, s)
           | Inr None \<Rightarrow> (Inl (Fs NotFound), s)
           | Inr (Some ino) \<Rightarrow>
               if ino = ROOT_INO then (Inl (Fs RootOperation), s)
               else case select_inode (afs_db s) ino of
                      None \<Rightarrow> (Inl (Fs NotFound), s)
                    | Some r \<Rightarrow>
                        if \<not> mode_is (r_mode r) S_IFDIR then (Inl (Fs NotADirectory), s)
                        else if 0 < count_children (afs_db s) ino then (Inl (Fs NotEmpty), s)
                        else let d1 = delete_dentry parent_ino name (afs_db s);
                                 d2 = add_nlink (- 1) ino d1;
                                 d3 = touch_parent now parent_ino (add_nlink (- 1) parent_ino d2);
                                 d4 = (if get_link_count d3 ino = 0 then delete_inode ino d3 else d3)
                             in (Inr (), (dcache_remove L parent_ino name s)\<lparr>afs_db := d4\<rparr>))"

section \<open>Rename\<close>

text \<open>The part of the transaction that clears an existing destination.\<close>

definition rename_replace ::
  "timestamp \<Rightarrow> stats \<Rightarrow> i64 \<Rightarrow> string \<Rightarrow> db \<Rightarrow> db result" where
  "rename_replace now_dec src_stats newparent_ino newname d =
     (case lookup_child d newparent_ino newname of
        Inl e \<Rightarrow> Inl e
      | Inr None \<Rightarrow> Inr d
      | Inr (Some dst_ino) \<Rightarrow>
          (case getattr d dst_ino of
             None \<Rightarrow> Inl (Fs NotFound)
           | Some dst_stats \<Rightarrow>
               if is_directory dst_stats \<and> \<not> is_directory src_stats then Inl (Fs IsADirectory)
               else if \<not> is_directory dst_stats \<and> is_directory src_stats then Inl (Fs NotADirectory)
               else if is_directory dst_stats \<and> 0 < count_children d dst_ino then Inl (Fs NotEmpty)
               else let d1 = delete_dentry newparent_ino newname d;
                        d2 = update_inode dst_ino (\<lambda>r. r\<lparr>r_nlink := r_nlink r - 1,
                               r_ctime := fst now_dec, r_ctime_nsec := snd now_dec\<rparr>) d1
                    in Inr (if get_link_count d2 dst_ino = 0 then purge_inode dst_ino d2 else d2)))"

text \<open>The rest of it: move the entry, adjust the parents, set the times.\<close>

definition rename_move ::
  "timestamp \<Rightarrow> i64 \<Rightarrow> stats \<Rightarrow> i64 \<Rightarrow> string \<Rightarrow> i64 \<Rightarrow> string \<Rightarrow> db \<Rightarrow> db result" where
  "rename_move now src_ino src_stats oldparent_ino oldname newparent_ino newname d =
     (case move_dentry (oldparent_ino, oldname) (newparent_ino, newname) d of
        None \<Rightarrow> Inl unique_violation
      | Some d1 \<Rightarrow>
          let d2 = (if is_directory src_stats \<and> oldparent_ino \<noteq> newparent_ino
                    then add_nlink 1 newparent_ino (add_nlink (- 1) oldparent_ino d1) else d1);
              d3 = update_inode src_ino (\<lambda>r. r\<lparr>r_ctime := fst now, r_ctime_nsec := snd now\<rparr>) d2;
              d4 = touch_parent now oldparent_ino d3
          in Inr (if newparent_ino \<noteq> oldparent_ino then touch_parent now newparent_ino d4 else d4))"

definition fs_rename ::
  "'c lru_ops \<Rightarrow> timestamp \<Rightarrow> timestamp \<Rightarrow> i64 \<Rightarrow> string \<Rightarrow> i64 \<Rightarrow> string \<Rightarrow> 'c agentfs \<Rightarrow>
     unit result \<times> 'c agentfs" where
  "fs_rename L now_dec now oldparent_ino oldname newparent_ino newname s =
     (if MAX_NAME_LEN < length newname then (Inl (Fs NameTooLong), s)
      else case lookup_child (afs_db s) oldparent_ino oldname of
             Inl e \<Rightarrow> (Inl e, s)
           | Inr None \<Rightarrow> (Inl (Fs NotFound), s)
           | Inr (Some src_ino) \<Rightarrow>
               if src_ino = ROOT_INO then (Inl (Fs RootOperation), s)
               else case getattr (afs_db s) src_ino of
                      None \<Rightarrow> (Inl (Fs NotFound), s)
                    | Some src_stats \<Rightarrow>
                        (case rename_replace now_dec src_stats newparent_ino newname (afs_db s) of
                           Inl e \<Rightarrow> (Inl e, s)
                         | Inr d1 \<Rightarrow>
                             (case rename_move now src_ino src_stats oldparent_ino oldname
                                     newparent_ino newname d1 of
                                Inl e \<Rightarrow> (Inl e, s)
                              | Inr d2 \<Rightarrow>
                                  (Inr (), dcache_insert L newparent_ino newname src_ino
                                     (dcache_remove L newparent_ino newname
                                       (dcache_remove L oldparent_ino oldname (s\<lparr>afs_db := d2\<rparr>)))))))"

end
