(* ===== verification/Fs_Invariant.thy ===== *)
theory Fs_Invariant
  imports Fs_Namespace
begin

unbundle bit_operations_syntax

text \<open>
  The consistency of an AgentFS database, what a file system checker would verify: the key
  constraints, the root, every entry pointing from an existing directory to an existing
  inode, no orphaned data, and for everything that is not a directory a link count equal to
  the number of its entries. Each statement sequence the operations execute keeps it.
\<close>

section \<open>The invariant\<close>

definition links :: "db \<Rightarrow> i64 \<Rightarrow> nat" where
  "links d ino = count_list (map snd (fs_dentry d)) ino"

definition is_dir_ino :: "db \<Rightarrow> i64 \<Rightarrow> bool" where
  "is_dir_ino d ino = (case select_inode d ino of None \<Rightarrow> False | Some r \<Rightarrow> mode_is (r_mode r) S_IFDIR)"

definition live :: "db \<Rightarrow> i64 \<Rightarrow> bool" where
  "live d ino \<longleftrightarrow> select_inode d ino \<noteq> None"

text \<open>Only what is not a directory has data or a symlink target.\<close>

definition file_ino :: "db \<Rightarrow> i64 \<Rightarrow> bool" where
  "file_ino d ino \<longleftrightarrow> live d ino \<and> \<not> is_dir_ino d ino"

text \<open>
  Directories have at most one entry; their link count is not constrained here. The count of
  every other inode is exact, so an inode without entries has no row.
\<close>

definition inode_ok :: "db \<Rightarrow> i64 \<Rightarrow> inode_row \<Rightarrow> bool" where
  "inode_ok d ino r \<longleftrightarrow> 0 < ino \<and> ino \<le> inode_seq d \<and>
     (if mode_is (r_mode r) S_IFDIR then links d ino \<le> 1
      else r_nlink r = int (links d ino) \<and> 0 < links d ino)"

definition dentry_ok :: "db \<Rightarrow> dentry_key \<Rightarrow> i64 \<Rightarrow> bool" where
  "dentry_ok d k ino \<longleftrightarrow> ino \<noteq> ROOT_INO \<and> live d ino \<and> is_dir_ino d (fst k)"

definition wf_db :: "db \<Rightarrow> bool" where
  "wf_db d \<longleftrightarrow> keyed (fs_inode d) \<and> keyed (fs_dentry d) \<and> keyed (fs_data d) \<and> keyed (fs_symlink d) \<and>
     is_dir_ino d ROOT_INO \<and>
     list_all (\<lambda>x. inode_ok d (fst x) (snd x)) (fs_inode d) \<and>
     list_all (\<lambda>x. dentry_ok d (fst x) (snd x)) (fs_dentry d) \<and>
     list_all (\<lambda>x. file_ino d (fst (fst x))) (fs_data d) \<and>
     list_all (\<lambda>x. file_ino d (fst x)) (fs_symlink d)"

lemma list_all_keyed:
  assumes "keyed t"
  shows "list_all (\<lambda>x. P (fst x) (snd x)) t \<longleftrightarrow> (\<forall>k v. map_of t k = Some v \<longrightarrow> P k v)"
  using assms by (fastforce simp: list_all_iff keyed_def dest: map_of_SomeD)

lemma list_all_keys: "list_all (\<lambda>x. P (fst x)) t \<longleftrightarrow> (\<forall>k. map_of t k \<noteq> None \<longrightarrow> P k)"
  by (force simp: list_all_iff map_of_eq_None_iff)

lemma wf_db_iff:
  "wf_db d \<longleftrightarrow> keyed (fs_inode d) \<and> keyed (fs_dentry d) \<and> keyed (fs_data d) \<and> keyed (fs_symlink d) \<and>
     is_dir_ino d ROOT_INO \<and>
     (\<forall>ino r. select_inode d ino = Some r \<longrightarrow> inode_ok d ino r) \<and>
     (\<forall>k ino. map_of (fs_dentry d) k = Some ino \<longrightarrow> dentry_ok d k ino) \<and>
     (\<forall>k. map_of (fs_data d) k \<noteq> None \<longrightarrow> file_ino d (fst k)) \<and>
     (\<forall>ino. map_of (fs_symlink d) ino \<noteq> None \<longrightarrow> file_ino d ino)"
  using list_all_keyed [of "fs_inode d" "inode_ok d"] list_all_keyed [of "fs_dentry d" "dentry_ok d"]
    list_all_keys [of "\<lambda>k. file_ino d (fst k)" "fs_data d"]
    list_all_keys [of "file_ino d" "fs_symlink d"]
  unfolding wf_db_def select_inode_def by blast

lemma wf_dbD:
  assumes "wf_db d"
  shows "keyed (fs_inode d)" "keyed (fs_dentry d)" "keyed (fs_data d)" "keyed (fs_symlink d)"
    "is_dir_ino d ROOT_INO"
    "select_inode d ino = Some r \<Longrightarrow> inode_ok d ino r"
    "map_of (fs_dentry d) k = Some ino \<Longrightarrow> dentry_ok d k ino"
    "map_of (fs_data d) k' \<noteq> None \<Longrightarrow> file_ino d (fst k')"
    "map_of (fs_symlink d) ino \<noteq> None \<Longrightarrow> file_ino d ino"
  using assms unfolding wf_db_iff by blast+

lemma wf_dbI:
  assumes "keyed (fs_inode d)" "keyed (fs_dentry d)" "keyed (fs_data d)" "keyed (fs_symlink d)"
    and "is_dir_ino d ROOT_INO"
    and "\<And>ino r. select_inode d ino = Some r \<Longrightarrow> inode_ok d ino r"
    and "\<And>k ino. map_of (fs_dentry d) k = Some ino \<Longrightarrow> dentry_ok d k ino"
    and "\<And>k. map_of (fs_data d) k \<noteq> None \<Longrightarrow> file_ino d (fst k)"
    and "\<And>ino. map_of (fs_symlink d) ino \<noteq> None \<Longrightarrow> file_ino d ino"
  shows "wf_db d"
  using assms unfolding wf_db_iff by blast

section \<open>What the statements leave\<close>

lemma live_update_inode [simp]: "live (update_inode i f d) = live d"
  by (auto simp: live_def table_simps fun_eq_iff)

lemma fs_fields_update_inode [simp]:
  "fs_dentry (update_inode i f d) = fs_dentry d" "fs_symlink (update_inode i f d) = fs_symlink d"
  "inode_seq (update_inode i f d) = inode_seq d" "fs_config (update_inode i f d) = fs_config d"
  by (simp_all add: update_inode_def)

lemma fs_fields_delete_dentry [simp]:
  "fs_inode (delete_dentry p n d) = fs_inode d" "fs_data (delete_dentry p n d) = fs_data d"
  "fs_symlink (delete_dentry p n d) = fs_symlink d" "inode_seq (delete_dentry p n d) = inode_seq d"
  "fs_dentry (delete_dentry p n d) = delete_rows (\<lambda>k. k = (p, n)) (fs_dentry d)"
  by (simp_all add: delete_dentry_def)

lemma select_inode_delete_dentry [simp]: "select_inode (delete_dentry p n d) = select_inode d"
  by (simp add: select_inode_def fun_eq_iff)

lemma fs_fields_purge_inode [simp]:
  "fs_dentry (purge_inode i d) = fs_dentry d" "inode_seq (purge_inode i d) = inode_seq d"
  "fs_inode (purge_inode i d) = delete_rows (\<lambda>k. k = i) (fs_inode d)"
  "fs_data (purge_inode i d) = delete_rows (\<lambda>k. fst k = i) (fs_data d)"
  "fs_symlink (purge_inode i d) = delete_rows (\<lambda>k. k = i) (fs_symlink d)"
  by (simp_all add: purge_inode_def delete_inode_def delete_symlink_def delete_data_def)

lemma select_inode_purge_inode [table_simps]:
  "select_inode (purge_inode i d) i' = (if i' = i then None else select_inode d i')"
  by (simp add: select_inode_def table_simps)

lemma select_inode_fs_dentry [simp]: "select_inode (d\<lparr>fs_dentry := t\<rparr>) = select_inode d"
  by (simp add: select_inode_def fun_eq_iff)

lemma links_cong: "fs_dentry d' = fs_dentry d \<Longrightarrow> links d' = links d"
  by (simp add: links_def fun_eq_iff)

lemma links_update_inode [simp]: "links (update_inode i f d) = links d"
  by (rule links_cong) simp

lemma links_purge_inode [simp]: "links (purge_inode i d) = links d"
  by (rule links_cong) simp

lemma count_list_delete_rows:
  assumes "keyed t" and "map_of t k = Some v"
  shows "count_list (map snd (delete_rows (\<lambda>x. x = k) t)) i + (if i = v then 1 else 0) =
    count_list (map snd t) i"
  using assms
proof (induction t)
  case (Cons r t)
  then have key: "keyed t" by (simp add: keyed_def)
  show ?case
  proof (cases "fst r = k")
    case True
    with Cons.prems(1) have "\<forall>x \<in> set t. fst x \<noteq> k" by (auto simp: keyed_def image_iff)
    then have "delete_rows (\<lambda>x. x = k) t = t" by (simp add: delete_rows_def)
    moreover have "snd r = v" using Cons.prems(2) True by (cases r) simp
    ultimately show ?thesis using True by (simp add: delete_rows_def)
  next
    case False
    with Cons key show ?thesis by (simp add: delete_rows_def)
  qed
qed simp

lemma links_delete_dentry:
  assumes "keyed (fs_dentry d)" and "map_of (fs_dentry d) (p, n) = Some v"
  shows "links (delete_dentry p n d) i = links d i - (if i = v then 1 else 0)"
  using count_list_delete_rows [OF assms, of i] by (auto simp: links_def)

lemma links_pos_iff: "0 < links d i \<longleftrightarrow> (\<exists>k. (k, i) \<in> set (fs_dentry d))"
  using count_list_0_iff [of "map snd (fs_dentry d)" i]
  by (force simp: links_def image_iff)

lemma links_pos_keyed: "keyed (fs_dentry d) \<Longrightarrow> 0 < links d i \<longleftrightarrow> (\<exists>k. map_of (fs_dentry d) k = Some i)"
  by (auto simp: links_pos_iff keyed_def)

lemma count_children_0_iff: "count_children d ino = 0 \<longleftrightarrow> (\<forall>n. map_of (fs_dentry d) (ino, n) = None)"
  by (fastforce simp: count_children_def filter_empty_conv map_of_eq_None_iff image_iff)

lemma is_dir_ino_cong: "select_inode d' ino = select_inode d ino \<Longrightarrow> is_dir_ino d' ino = is_dir_ino d ino"
  by (simp add: is_dir_ino_def)

section \<open>Attribute updates\<close>

text \<open>
  An update keeps the invariant when it keeps the kind of the inode and, unless the inode is
  a directory, its link count.
\<close>

definition kind_preserving :: "(inode_row \<Rightarrow> inode_row) \<Rightarrow> inode_row \<Rightarrow> bool" where
  "kind_preserving f r \<longleftrightarrow> mode_is (r_mode (f r)) S_IFDIR = mode_is (r_mode r) S_IFDIR \<and>
     (mode_is (r_mode r) S_IFDIR \<or> r_nlink (f r) = r_nlink r)"

lemma is_dir_ino_update_inode:
  assumes "\<And>r. select_inode d i = Some r \<Longrightarrow> mode_is (r_mode (f r)) S_IFDIR = mode_is (r_mode r) S_IFDIR"
  shows "is_dir_ino (update_inode i f d) i' = is_dir_ino d i'"
  using assms by (auto simp: is_dir_ino_def table_simps split: option.splits)

lemma wf_update_inode:
  assumes wf: "wf_db d" and kind: "\<And>r. select_inode d i = Some r \<Longrightarrow> kind_preserving f r"
  shows "wf_db (update_inode i f d)"
proof -
  have dir: "is_dir_ino (update_inode i f d) i' = is_dir_ino d i'" for i'
    using kind by (intro is_dir_ino_update_inode) (simp add: kind_preserving_def)
  have "inode_ok (update_inode i f d) ino r'" if some: "select_inode (update_inode i f d) ino = Some r'" for ino r'
  proof (cases "ino = i")
    case True
    with some obtain r where r: "select_inode d i = Some r" "r' = f r" by (auto simp: table_simps)
    with wf_dbD(6) [OF wf r(1)] kind [OF r(1)] True show ?thesis
      by (auto simp: inode_ok_def kind_preserving_def)
  next
    case False
    with some wf_dbD(6) [OF wf, of ino r'] show ?thesis
      by (auto simp: inode_ok_def table_simps split: if_splits)
  qed
  moreover have "keyed (fs_inode (update_inode i f d))"
    using wf_dbD(1) [OF wf] by (simp add: update_inode_def keyed_update_row)
  ultimately show ?thesis
    using wf_dbD [OF wf] by (intro wf_dbI) (auto simp: dir dentry_ok_def file_ino_def)
qed

lemma wf_touch_parent: "wf_db d \<Longrightarrow> wf_db (touch_parent now p d)"
  unfolding touch_parent_def by (erule wf_update_inode) (simp add: kind_preserving_def)

lemma wf_add_nlink: "wf_db d \<Longrightarrow> is_dir_ino d p \<Longrightarrow> wf_db (add_nlink k p d)"
  unfolding add_nlink_def by (erule wf_update_inode) (simp add: kind_preserving_def is_dir_ino_def)

lemma is_dir_touch [simp]: "is_dir_ino (touch_parent now p d) i = is_dir_ino d i"
  unfolding touch_parent_def by (rule is_dir_ino_update_inode) simp

lemma is_dir_add_nlink [simp]: "is_dir_ino (add_nlink k p d) i = is_dir_ino d i"
  unfolding add_nlink_def by (rule is_dir_ino_update_inode) simp

section \<open>A new inode with its entry\<close>

definition new_entry :: "inode_row \<Rightarrow> i64 \<Rightarrow> string \<Rightarrow> db \<Rightarrow> db" where
  "new_entry r p n d =
     d\<lparr>fs_inode := fs_inode d @ [(inode_seq d + 1, r)], inode_seq := inode_seq d + 1,
       fs_dentry := fs_dentry d @ [((p, n), inode_seq d + 1)]\<rparr>"

lemma fresh_ino:
  assumes "wf_db d"
  shows "select_inode d (inode_seq d + 1) = None"
proof (rule ccontr)
  assume "select_inode d (inode_seq d + 1) \<noteq> None"
  then obtain r where "select_inode d (inode_seq d + 1) = Some r" by blast
  from wf_dbD(6) [OF assms this] show False by (simp add: inode_ok_def)
qed

lemma fresh_links:
  assumes "wf_db d"
  shows "links d (inode_seq d + 1) = 0"
proof (rule ccontr)
  assume "links d (inode_seq d + 1) \<noteq> 0"
  then obtain k where "map_of (fs_dentry d) k = Some (inode_seq d + 1)"
    using links_pos_keyed [OF wf_dbD(2) [OF assms], of "inode_seq d + 1"] by blast
  from wf_dbD(7) [OF assms this] fresh_ino [OF assms] show False
    by (simp add: dentry_ok_def live_def)
qed

lemma map_of_snoc: "map_of t k = None \<Longrightarrow> map_of (t @ [(k, v)]) = (map_of t)(k \<mapsto> v)"
  by (rule map_of_insert_row [OF insert_row_fresh])

lemma keyed_snoc: "keyed t \<Longrightarrow> map_of t k = None \<Longrightarrow> keyed (t @ [(k, v)])"
  by (rule keyed_insert_row [OF _ insert_row_fresh])

lemma insert_inode_simps [simp]: "fst (insert_inode r d) = inode_seq d + 1" "fs_symlink (snd (insert_inode r d)) = fs_symlink d"
  by (simp_all add: insert_inode_def Let_def)

lemma insert_inode_dentry:
  assumes "map_of (fs_dentry d) (p, n) = None"
  shows "insert_dentry n p (inode_seq d + 1) (snd (insert_inode r d)) = Some (new_entry r p n d)"
    and "insert_dentry n p (inode_seq d + 1) (snd (insert_inode r d)\<lparr>fs_symlink := t\<rparr>) =
      Some ((new_entry r p n d)\<lparr>fs_symlink := t\<rparr>)"
  using assms by (simp_all add: insert_dentry_def insert_inode_def Let_def new_entry_def insert_row_fresh)

lemma update_new_entry:
  assumes "wf_db d"
  shows "update_inode (inode_seq d + 1) f (new_entry r p n d) = new_entry (f r) p n d"
proof -
  have "\<forall>x \<in> set (fs_inode d). fst x \<noteq> inode_seq d + 1"
    using fresh_ino [OF assms] by (auto simp: select_inode_def map_of_eq_None_iff image_iff)
  then have "update_row (inode_seq d + 1) f (fs_inode d) = fs_inode d"
    by (auto simp: update_row_def intro!: map_idI)
  then show ?thesis by (simp add: update_inode_def new_entry_def update_row_def)
qed

lemma new_entry_sel:
  assumes "wf_db d"
  shows "select_inode (new_entry r p n d) = (select_inode d)(inode_seq d + 1 \<mapsto> r)"
    and "links (new_entry r p n d) i = links d i + (if i = inode_seq d + 1 then 1 else 0)"
  using map_of_snoc [of "fs_inode d" "inode_seq d + 1" r] fresh_ino [OF assms]
  by (simp_all add: select_inode_def [abs_def] new_entry_def links_def del: map_of_append)

lemma is_dir_new_entry:
  "wf_db d \<Longrightarrow> is_dir_ino d i \<Longrightarrow> is_dir_ino (new_entry r p n d) i"
  using fresh_ino [of d] by (auto simp: is_dir_ino_def new_entry_sel split: option.splits)

lemma wf_new_entry:
  assumes wf: "wf_db d" and dir: "is_dir_ino d p" and free: "map_of (fs_dentry d) (p, n) = None"
    and nlink: "\<not> mode_is (r_mode r) S_IFDIR \<Longrightarrow> r_nlink r = 1"
  shows "wf_db (new_entry r p n d)"
proof -
  let ?d = "new_entry r p n d" and ?i = "inode_seq d + 1"
  note sel = new_entry_sel [OF wf, of r p n] and fresh = fresh_ino [OF wf]
  have root: "ROOT_INO \<noteq> ?i"
    using fresh wf_dbD(5) [OF wf] by (auto simp: is_dir_ino_def)
  have live: "live d i \<Longrightarrow> live ?d i" and file_mono: "file_ino d i \<Longrightarrow> file_ino ?d i" for i
    using fresh by (auto simp: live_def file_ino_def is_dir_ino_def sel split: if_splits)
  have seq: "0 \<le> inode_seq d"
    using wf_dbD(5,6) [OF wf] by (fastforce simp: is_dir_ino_def inode_ok_def split: option.splits)
  show ?thesis
  proof (rule wf_dbI)
    show "keyed (fs_inode ?d)" "keyed (fs_dentry ?d)"
      using wf_dbD(1,2) [OF wf] fresh free
      by (simp_all add: new_entry_def keyed_snoc select_inode_def)
    show "keyed (fs_data ?d)" "keyed (fs_symlink ?d)" "is_dir_ino ?d ROOT_INO"
      using wf_dbD(3-5) [OF wf] is_dir_new_entry [OF wf] by (simp_all add: new_entry_def)
    show "inode_ok ?d ino r'" if "select_inode ?d ino = Some r'" for ino r'
      using that wf_dbD(6) [OF wf, of ino r'] nlink fresh_links [OF wf] seq
      by (auto simp: inode_ok_def sel split: if_splits) (auto simp: new_entry_def)
    show "dentry_ok ?d k ino" if "map_of (fs_dentry ?d) k = Some ino" for k ino
    proof -
      have "map_of (fs_dentry ?d) = (map_of (fs_dentry d))((p, n) \<mapsto> ?i)"
        using map_of_snoc [OF free] by (simp add: new_entry_def del: map_of_append)
      with that wf_dbD(7) [OF wf, of k ino] dir is_dir_new_entry [OF wf] live root
      show ?thesis by (auto simp: dentry_ok_def live_def sel split: if_splits)
    qed
    show "file_ino ?d (fst k)" if "map_of (fs_data ?d) k \<noteq> None" for k
      using that wf_dbD(8) [OF wf, of k] file_mono by (simp add: new_entry_def)
    show "file_ino ?d ino" if "map_of (fs_symlink ?d) ino \<noteq> None" for ino
      using that wf_dbD(9) [OF wf, of ino] file_mono by (simp add: new_entry_def)
  qed
qed

text \<open>A symlink target for an inode that has none yet.\<close>

lemma wf_add_symlink:
  assumes wf: "wf_db d" and "file_ino d i" and "map_of (fs_symlink d) i = None"
  shows "wf_db (d\<lparr>fs_symlink := fs_symlink d @ [(i, target)]\<rparr>)"
proof -
  let ?d = "d\<lparr>fs_symlink := fs_symlink d @ [(i, target)]\<rparr>"
  have eq: "select_inode ?d = select_inode d" "links ?d = links d"
    by (simp_all add: select_inode_def links_def fun_eq_iff)
  then have pred: "live ?d = live d" "is_dir_ino ?d = is_dir_ino d" "file_ino ?d = file_ino d"
    "inode_ok ?d = inode_ok d" "dentry_ok ?d = dentry_ok d"
    by (simp_all add: live_def is_dir_ino_def file_ino_def inode_ok_def dentry_ok_def fun_eq_iff)
  show ?thesis
    using wf_dbD [OF wf] assms(2,3)
    by (intro wf_dbI) (auto simp: pred eq map_of_snoc keyed_snoc simp del: map_of_append split: if_splits)
qed

section \<open>One more entry for an inode\<close>

lemma wf_link_entry:
  assumes wf: "wf_db d" and r: "select_inode d i = Some r" and "\<not> mode_is (r_mode r) S_IFDIR"
    and dir: "is_dir_ino d p" and free: "map_of (fs_dentry d) (p, n) = None"
    and f: "r_mode (f r) = r_mode r" "r_nlink (f r) = r_nlink r + 1"
  shows "wf_db (update_inode i f (d\<lparr>fs_dentry := fs_dentry d @ [((p, n), i)]\<rparr>))"
proof -
  let ?d = "update_inode i f (d\<lparr>fs_dentry := fs_dentry d @ [((p, n), i)]\<rparr>)"
  have sel: "select_inode ?d = (select_inode d)(i \<mapsto> f r)"
    using r by (auto simp: fun_eq_iff table_simps)
  have links: "links (d\<lparr>fs_dentry := fs_dentry d @ [((p, n), i)]\<rparr>) j = links d j + (if j = i then 1 else 0)" for j
    by (simp add: links_def)
  have dirs: "is_dir_ino ?d j = is_dir_ino d j" and live: "live ?d j = live d j" for j
    using r f(1) by (auto simp: is_dir_ino_def live_def sel split: option.splits)
  then have file_eq: "file_ino ?d j = file_ino d j" for j by (simp add: file_ino_def)
  have root: "i \<noteq> ROOT_INO"
    using wf_dbD(5) [OF wf] r assms(3) by (auto simp: is_dir_ino_def)
  show ?thesis
  proof (rule wf_dbI)
    show "inode_ok ?d ino r'" if "select_inode ?d ino = Some r'" for ino r'
      using that wf_dbD(6) [OF wf, of ino] r assms(3) f
      by (auto simp: inode_ok_def sel links split: if_splits)
    show "dentry_ok ?d k ino" if "map_of (fs_dentry ?d) k = Some ino" for k ino
      using that wf_dbD(7) [OF wf, of k ino] free dir root r
      by (auto simp: dentry_ok_def dirs live map_of_snoc live_def simp del: map_of_append split: if_splits)
    show "keyed (fs_inode ?d)"
      using wf_dbD(1) [OF wf] by (simp add: update_inode_def keyed_update_row)
  qed (use wf_dbD [OF wf] free in \<open>auto simp: dirs file_eq keyed_snoc\<close>)
qed

end
