(* ===== verification/Fs_Preservation.thy ===== *)
theory Fs_Preservation
  imports Fs_Invariant File_Contract
begin

unbundle bit_operations_syntax

text \<open>
  Every operation of \<open>impl FileSystem for AgentFS\<close> keeps the database consistent and the
  entry cache coherent with it. First the statement sequences of removal and renaming, then
  one lemma per operation.
\<close>

section \<open>Removing an entry\<close>

lemma delete_dentry_update_inode:
  "delete_dentry p n (update_inode i f d) = update_inode i f (delete_dentry p n d)"
  by (simp add: delete_dentry_def update_inode_def)

lemma delete_update_row: "delete_rows (\<lambda>k. k = i) (update_row i f t) = delete_rows (\<lambda>k. k = i) t"
  by (induction t) (auto simp: delete_rows_def update_row_def)

lemma purge_update_inode: "purge_inode i (update_inode i f d) = purge_inode i d"
  by (simp add: purge_inode_def update_inode_def delete_inode_def delete_symlink_def delete_data_def
      delete_update_row)

lemma live_delete_dentry [simp]: "live (delete_dentry p n d) = live d"
  by (simp add: live_def fun_eq_iff)

lemma map_of_delete_dentry:
  "map_of (fs_dentry (delete_dentry p n d)) = (map_of (fs_dentry d))((p, n) := None)"
  by (auto simp: table_simps)

lemma wf_purge_last:
  assumes wf: "wf_db d" and e: "map_of (fs_dentry d) (p, n) = Some i"
    and last: "links (delete_dentry p n d) i = 0" and leaf: "count_children d i = 0"
  shows "wf_db (purge_inode i (delete_dentry p n d))"
proof -
  let ?d = "purge_inode i (delete_dentry p n d)"
  have sel: "select_inode ?d j = (if j = i then None else select_inode d j)" for j
    by (simp add: table_simps)
  have dirs: "is_dir_ino ?d j = (j \<noteq> i \<and> is_dir_ino d j)" and live: "live ?d j = (j \<noteq> i \<and> live d j)" for j
    by (simp_all add: is_dir_ino_def live_def sel)
  then have file_eq: "file_ino ?d j = (j \<noteq> i \<and> file_ino d j)" for j by (auto simp: file_ino_def)
  have links: "links (delete_dentry p n d) j = links d j" if "j \<noteq> i" for j
    using that links_delete_dentry [OF wf_dbD(2) [OF wf] e] by simp
  have root: "i \<noteq> ROOT_INO" using wf_dbD(7) [OF wf e] by (simp add: dentry_ok_def)
  have key: "keyed (fs_dentry (delete_dentry p n d))"
    using wf_dbD(2) [OF wf] by (simp add: keyed_delete_rows)
  have gone: "map_of (fs_dentry (delete_dentry p n d)) k \<noteq> Some i" for k
    using last links_pos_keyed [OF key, of i] by (metis less_irrefl)
  show ?thesis
  proof (rule wf_dbI)
    show "keyed (fs_inode ?d)" "keyed (fs_dentry ?d)" "keyed (fs_data ?d)" "keyed (fs_symlink ?d)"
      using wf_dbD(1-4) [OF wf] by (simp_all add: keyed_delete_rows)
    show "is_dir_ino ?d ROOT_INO" using wf_dbD(5) [OF wf] root by (simp add: dirs)
    show "inode_ok ?d ino r" if "select_inode ?d ino = Some r" for ino r
      using that wf_dbD(6) [OF wf, of ino r] by (auto simp: inode_ok_def sel links split: if_splits)
    show "dentry_ok ?d k ino" if "map_of (fs_dentry ?d) k = Some ino" for k ino
    proof -
      from that gone [of k] have "ino \<noteq> i" by auto
      moreover from that have k: "map_of (fs_dentry d) k = Some ino"
        by (auto simp: table_simps split: if_splits)
      moreover have "fst k \<noteq> i" using k leaf by (cases k) (auto simp: count_children_0_iff)
      ultimately show ?thesis using wf_dbD(7) [OF wf k] by (simp add: dentry_ok_def dirs live)
    qed
    show "file_ino ?d (fst k)" if "map_of (fs_data ?d) k \<noteq> None" for k
      using that wf_dbD(8) [OF wf, of k] by (auto simp: file_eq table_simps split: if_splits)
    show "file_ino ?d ino" if "map_of (fs_symlink ?d) ino \<noteq> None" for ino
      using that wf_dbD(9) [OF wf, of ino] by (auto simp: file_eq table_simps split: if_splits)
  qed
qed

text \<open>An entry that is not the last one of its inode.\<close>

lemma wf_remove_entry:
  assumes wf: "wf_db d" and e: "map_of (fs_dentry d) (p, n) = Some i" and r: "select_inode d i = Some r"
    and kind: "mode_is (r_mode (f r)) S_IFDIR = mode_is (r_mode r) S_IFDIR"
    and plain: "\<not> mode_is (r_mode r) S_IFDIR \<Longrightarrow> r_nlink (f r) = r_nlink r - 1 \<and> 1 < links d i"
  shows "wf_db (update_inode i f (delete_dentry p n d))"
proof -
  let ?d = "update_inode i f (delete_dentry p n d)"
  have sel: "select_inode ?d j = (if j = i then Some (f r) else select_inode d j)" for j
    using r by (auto simp: table_simps)
  have dirs: "is_dir_ino ?d j = is_dir_ino d j" and live: "live ?d j = live d j" for j
    using r kind by (auto simp: is_dir_ino_def live_def sel)
  then have file_eq: "file_ino ?d j = file_ino d j" for j by (simp add: file_ino_def)
  have links: "links (delete_dentry p n d) j = links d j - (if j = i then 1 else 0)" for j
    using links_delete_dentry [OF wf_dbD(2) [OF wf] e] by simp
  show ?thesis
  proof (rule wf_dbI)
    show "keyed (fs_inode ?d)" "keyed (fs_dentry ?d)"
      using wf_dbD(1,2) [OF wf] by (simp_all add: update_inode_def keyed_update_row keyed_delete_rows)
    show "inode_ok ?d ino r'" if "select_inode ?d ino = Some r'" for ino r'
      using that wf_dbD(6) [OF wf, of ino] r kind plain
      by (auto simp: inode_ok_def sel links split: if_splits)
    show "dentry_ok ?d k ino" if "map_of (fs_dentry ?d) k = Some ino" for k ino
      using that wf_dbD(7) [OF wf, of k ino]
      by (auto simp: dentry_ok_def dirs live table_simps split: if_splits)
  qed (use wf_dbD [OF wf] in \<open>auto simp: dirs file_eq\<close>)
qed

lemma as_u32_eq_0: "0 \<le> k \<Longrightarrow> k < 2 ^ 32 \<Longrightarrow> as_u32 k = 0 \<longleftrightarrow> k = 0"
  by (simp add: as_u32_def uint_0_iff [symmetric] unsigned_of_int take_bit_int_eq_self)

lemma leaf_file:
  assumes "wf_db d" and "\<not> is_dir_ino d i"
  shows "count_children d i = 0"
  unfolding count_children_0_iff
proof
  fix n
  show "map_of (fs_dentry d) (i, n) = None"
    using wf_dbD(7) [OF assms(1), of "(i, n)"] assms(2)
    by (cases "map_of (fs_dentry d) (i, n)") (auto simp: dentry_ok_def)
qed

lemma wf_drop_file:
  assumes wf: "wf_db d" and e: "map_of (fs_dentry d) (p, n) = Some i" and r: "select_inode d i = Some r"
    and plain: "\<not> mode_is (r_mode r) S_IFDIR" and bound: "links d i \<le> 2 ^ 32"
    and f: "r_mode (f r) = r_mode r" "r_nlink (f r) = r_nlink r - 1"
  defines "d' \<equiv> update_inode i f (delete_dentry p n d)"
  shows "wf_db (if get_link_count d' i = 0 then purge_inode i d' else d')"
proof -
  have ok: "r_nlink r = int (links d i)" "0 < links d i"
    using wf_dbD(6) [OF wf r] plain by (auto simp: inode_ok_def)
  have "get_link_count d' i = as_u32 (int (links d i) - 1)"
    using r f ok(1) by (simp add: d'_def get_link_count_def table_simps)
  then have zero: "get_link_count d' i = 0 \<longleftrightarrow> links d i = 1"
    using bound ok(2) as_u32_eq_0 [of "int (links d i) - 1"] by auto
  show ?thesis
  proof (cases "links d i = 1")
    case True
    have "count_children d i = 0" using leaf_file [OF wf] r plain by (simp add: is_dir_ino_def)
    with True wf_purge_last [OF wf e] links_delete_dentry [OF wf_dbD(2) [OF wf] e, of i]
    have "wf_db (purge_inode i d')" by (simp add: d'_def purge_update_inode)
    with True zero show ?thesis by simp
  next
    case False
    with ok wf_remove_entry [OF wf e r, of f] f plain have "wf_db d'" by (simp add: d'_def)
    with False zero show ?thesis by simp
  qed
qed

text \<open>An empty directory may go or stay without its entry.\<close>

lemma wf_drop_dir:
  assumes wf: "wf_db d" and e: "map_of (fs_dentry d) (p, n) = Some i" and r: "select_inode d i = Some r"
    and dir: "mode_is (r_mode r) S_IFDIR" and leaf: "count_children d i = 0"
    and f: "r_mode (f r) = r_mode r"
  defines "d' \<equiv> update_inode i f (delete_dentry p n d)"
  shows "wf_db d'" and "wf_db (purge_inode i d')"
proof -
  have "links d i \<le> 1" using wf_dbD(6) [OF wf r] dir by (simp add: inode_ok_def)
  then have "links (delete_dentry p n d) i = 0"
    using links_delete_dentry [OF wf_dbD(2) [OF wf] e, of i] by simp
  with wf_purge_last [OF wf e] leaf show "wf_db (purge_inode i d')"
    by (simp add: d'_def purge_update_inode)
  from wf_remove_entry [OF wf e r, of f] f dir show "wf_db d'" by (simp add: d'_def)
qed

text \<open>The data and symlink statements of a purge change nothing for a directory.\<close>

lemma delete_rows_none: "(\<And>k. P k \<Longrightarrow> map_of t k = None) \<Longrightarrow> delete_rows P t = t"
  by (force simp: delete_rows_def filter_id_conv map_of_eq_None_iff)

lemma purge_dir:
  assumes "wf_db d" and "is_dir_ino d i"
  shows "purge_inode i (update_inode i f (delete_dentry p n d)) = delete_inode i (update_inode i f (delete_dentry p n d))"
proof -
  have "\<not> file_ino d i" using assms(2) by (simp add: file_ino_def)
  then have "map_of (fs_data d) k = None" if "fst k = i" for k
    using wf_dbD(8) [OF assms(1), of k] that by blast
  moreover from \<open>\<not> file_ino d i\<close> have "map_of (fs_symlink d) i = None"
    using wf_dbD(9) [OF assms(1), of i] by blast
  ultimately have "delete_rows (\<lambda>k. fst k = i) (fs_data d) = fs_data d"
    "delete_rows (\<lambda>k. k = i) (fs_symlink d) = fs_symlink d"
    by (auto intro!: delete_rows_none)
  then show ?thesis
    by (simp add: purge_inode_def delete_inode_def delete_data_def delete_symlink_def delete_dentry_def update_inode_def)
qed

section \<open>Moving an entry\<close>

definition rekey :: "dentry_key \<Rightarrow> dentry_key \<Rightarrow> (dentry_key \<times> i64) list \<Rightarrow> (dentry_key \<times> i64) list" where
  "rekey old new t = map (\<lambda>r. if fst r = old then (new, snd r) else r) t"

lemma map_of_rekey:
  assumes "map_of t new = None" and "old \<noteq> new"
  shows "map_of (rekey old new t) k = (if k = new then map_of t old else if k = old then None else map_of t k)"
  using assms by (induction t) (auto simp: rekey_def split: if_splits)

lemma keyed_rekey:
  assumes "keyed t" and "map_of t new = None"
  shows "keyed (rekey old new t)"
  using assms by (induction t) (auto simp: rekey_def keyed_def map_of_eq_None_iff image_iff split: if_splits)

lemma rekey_absent: "map_of t old = None \<Longrightarrow> rekey old new t = t"
  by (induction t) (auto simp: rekey_def split: if_splits)

lemma move_dentry_cases:
  assumes "map_of (fs_dentry d) old = None \<or> map_of (fs_dentry d) new = None"
  shows "move_dentry old new d = Some (d\<lparr>fs_dentry := rekey old new (fs_dentry d)\<rparr>)"
  using assms by (auto simp: move_dentry_def rekey_def map_of_eq_None_iff)

lemma wf_rekey:
  assumes wf: "wf_db d" and dir: "is_dir_ino d (fst new)" and free: "map_of (fs_dentry d) new = None"
    and "old \<noteq> new"
  shows "wf_db (d\<lparr>fs_dentry := rekey old new (fs_dentry d)\<rparr>)"
proof -
  let ?d = "d\<lparr>fs_dentry := rekey old new (fs_dentry d)\<rparr>"
  have "map snd (rekey old new t) = map snd t" for t by (induction t) (auto simp: rekey_def)
  then have links: "links ?d = links d" by (simp add: links_def fun_eq_iff)
  then have pred: "live ?d = live d" "is_dir_ino ?d = is_dir_ino d" "file_ino ?d = file_ino d"
    "inode_ok ?d = inode_ok d" "dentry_ok ?d = dentry_ok d"
    by (simp_all add: live_def is_dir_ino_def file_ino_def inode_ok_def dentry_ok_def fun_eq_iff)
  show ?thesis
  proof (rule wf_dbI)
    show "keyed (fs_dentry ?d)" using wf_dbD(2) [OF wf] free by (simp add: keyed_rekey)
    show "dentry_ok ?d k ino" if "map_of (fs_dentry ?d) k = Some ino" for k ino
      using that wf_dbD(7) [OF wf, of k ino] wf_dbD(7) [OF wf, of old ino] dir free assms(4)
      by (auto simp: pred map_of_rekey dentry_ok_def split: if_splits)
  qed (use wf_dbD [OF wf] in \<open>auto simp: pred\<close>)
qed

section \<open>The chunks of every file\<close>

text \<open>
  Every inode has a size that a read can use and only chunks that lie inside it: each handle
  on a live inode satisfies the representation invariant of its file.
\<close>

definition data_ok :: "nat \<Rightarrow> db \<Rightarrow> bool" where
  "data_ok cs d \<longleftrightarrow> 0 < cs \<and> (\<forall>ino. live d ino \<longrightarrow>
     select_size d ino < 2 ^ 63 \<and> chunks_within cs ino (select_size d ino) (fs_data d))"

lemma data_ok_file_inv:
  "wf_db d \<Longrightarrow> data_ok cs d \<Longrightarrow> live d (f_ino f) \<Longrightarrow> f_chunk_size f = cs \<Longrightarrow> file_inv f d"
  using wf_dbD(3) [of d] by (simp add: file_inv_iff data_ok_def live_def)

lemma chunks_within_subset:
  assumes "chunks_within cs ino sz t" and "\<And>k b. map_of t' (ino, k) = Some b \<Longrightarrow> map_of t (ino, k) = Some b"
  shows "chunks_within cs ino sz t'"
  using assms unfolding chunks_within_def by blast

text \<open>What an operation has to show per inode: unchanged, or small and without chunks.\<close>

lemma data_ok_step:
  assumes "data_ok cs d"
    and "\<And>ino. live d' ino \<Longrightarrow>
      live d ino \<and> select_size d' ino = select_size d ino \<and>
        (\<forall>k b. map_of (fs_data d') (ino, k) = Some b \<longrightarrow> map_of (fs_data d) (ino, k) = Some b) \<or>
      select_size d' ino < 2 ^ 63 \<and> (\<forall>k. map_of (fs_data d') (ino, k) = None)"
  shows "data_ok cs d'"
  unfolding data_ok_def
proof (intro conjI allI impI)
  show "0 < cs" using assms(1) by (simp add: data_ok_def)
  fix ino assume live: "live d' ino"
  show "select_size d' ino < 2 ^ 63"
    using assms(2) [OF live] assms(1) unfolding data_ok_def by metis
  show "chunks_within cs ino (select_size d' ino) (fs_data d')"
    using assms(2) [OF live]
  proof
    assume "live d ino \<and> select_size d' ino = select_size d ino \<and>
      (\<forall>k b. map_of (fs_data d') (ino, k) = Some b \<longrightarrow> map_of (fs_data d) (ino, k) = Some b)"
    with assms(1) show ?thesis
      by (auto simp: data_ok_def intro: chunks_within_subset)
  qed (simp add: chunks_within_def)
qed

lemma data_ok_update_inode:
  assumes "data_ok cs d" and "\<And>r. select_inode d i = Some r \<Longrightarrow> r_size (f r) = r_size r"
  shows "data_ok cs (update_inode i f d)"
  using assms(1)
  by (rule data_ok_step) (use assms(2) in \<open>auto simp: table_simps select_size_def split: option.splits\<close>)

lemma data_ok_touch [intro]: "data_ok cs d \<Longrightarrow> data_ok cs (touch_parent now p d)"
  unfolding touch_parent_def by (rule data_ok_update_inode) simp_all

lemma data_ok_add_nlink [intro]: "data_ok cs d \<Longrightarrow> data_ok cs (add_nlink k p d)"
  unfolding add_nlink_def by (rule data_ok_update_inode) simp_all

lemma data_ok_cong:
  assumes "select_inode d' = select_inode d" and "fs_data d' = fs_data d"
  shows "data_ok cs d' = data_ok cs d"
  using assms by (simp add: data_ok_def live_def select_size_def)

lemma data_ok_delete_dentry [simp]: "data_ok cs (delete_dentry p n d) = data_ok cs d"
  by (rule data_ok_cong) simp_all

lemma data_ok_fs_dentry [simp]: "data_ok cs (d\<lparr>fs_dentry := t\<rparr>) = data_ok cs d"
  by (rule data_ok_cong) simp_all

lemma data_ok_purge [intro]: "data_ok cs d \<Longrightarrow> data_ok cs (purge_inode i d)"
  by (erule data_ok_step) (auto simp: live_def select_size_def table_simps split: if_splits)

lemma data_ok_delete_inode [intro]: "data_ok cs d \<Longrightarrow> data_ok cs (delete_inode i d)"
  by (erule data_ok_step)
    (auto simp: live_def select_size_def select_inode_def delete_inode_def table_simps split: if_splits)

lemma no_data_fresh:
  assumes "wf_db d"
  shows "map_of (fs_data d) (inode_seq d + 1, k) = None"
  using wf_dbD(8) [OF assms, of "(inode_seq d + 1, k)"] fresh_ino [OF assms]
  by (cases "map_of (fs_data d) (inode_seq d + 1, k)") (auto simp: file_ino_def live_def)

lemma fs_fields_new_entry [simp]:
  "fs_data (new_entry r p n d) = fs_data d" "fs_symlink (new_entry r p n d) = fs_symlink d"
  "fs_dentry (new_entry r p n d) = fs_dentry d @ [((p, n), inode_seq d + 1)]"
  by (simp_all add: new_entry_def)

lemma data_ok_new_entry:
  assumes "wf_db d" and "data_ok cs d" and "as_u64 (r_size r) < 2 ^ 63"
  shows "data_ok cs (new_entry r p n d)"
  using assms(2)
  by (rule data_ok_step)
    (use assms(1,3) in \<open>auto simp: live_def select_size_def new_entry_sel no_data_fresh split: if_splits\<close>)

section \<open>Writing and truncating through a handle\<close>

lemma wf_data_update:
  assumes wf: "wf_db d" and "file_ino d i" and "keyed t"
    and rows: "\<And>k. map_of t k \<noteq> None \<Longrightarrow> fst k = i \<or> map_of (fs_data d) k \<noteq> None"
  shows "wf_db (d\<lparr>fs_data := t\<rparr>)"
proof -
  let ?d = "d\<lparr>fs_data := t\<rparr>"
  have links: "links ?d = links d" by (rule links_cong) simp
  then have pred: "live ?d = live d" "is_dir_ino ?d = is_dir_ino d" "file_ino ?d = file_ino d"
    "inode_ok ?d = inode_ok d" "dentry_ok ?d = dentry_ok d"
    by (simp_all add: live_def is_dir_ino_def file_ino_def inode_ok_def dentry_ok_def fun_eq_iff)
  show ?thesis
  proof (rule wf_dbI)
    show "file_ino ?d (fst k)" if "map_of (fs_data ?d) k \<noteq> None" for k
      using that rows [of k] wf_dbD(8) [OF wf, of k] assms(2) by (auto simp: pred)
  qed (use wf_dbD [OF wf] assms(3) in \<open>auto simp: pred\<close>)
qed

lemma file_pwrite_rows:
  assumes inv: "file_inv f d" and bound: "offset + length data < 2 ^ 63"
  defines "t \<equiv> write_data_at_offset (f_chunk_size f) (f_ino f) offset data 0 (fs_data d)"
  shows "keyed t" and "\<And>ino k. ino \<noteq> f_ino f \<Longrightarrow> map_of t (ino, k) = map_of (fs_data d) (ino, k)"
proof -
  let ?sz = "max (select_size d (f_ino f)) (offset + length data)"
  have "chunks_within (f_chunk_size f) (f_ino f) ?sz (fs_data d)" "keyed (fs_data d)" "0 < f_chunk_size f"
    using inv chunks_within_mono by (auto simp: file_inv_iff)
  with bound write_data_at_offset_correct [of "f_chunk_size f" offset data 0 ?sz "f_ino f" "fs_data d"]
  show "keyed t" and "\<And>ino k. ino \<noteq> f_ino f \<Longrightarrow> map_of t (ino, k) = map_of (fs_data d) (ino, k)"
    by (auto simp: t_def)
qed

text \<open>Both operations keep the consistency of the tables and the rows of other files.\<close>

lemma file_pwrite_frame:
  fixes now :: timestamp
  assumes wf: "wf_db d" and inv: "file_inv f d" and plain: "file_ino d (f_ino f)"
    and bound: "offset + length data < 2 ^ 63"
  defines "d' \<equiv> snd (file_pwrite f now offset data d)"
  shows "wf_db d'" "fs_dentry d' = fs_dentry d" "fs_symlink d' = fs_symlink d" "live d' = live d"
    "ino \<noteq> f_ino f \<Longrightarrow> select_inode d' ino = select_inode d ino \<and>
      map_of (fs_data d') (ino, k) = map_of (fs_data d) (ino, k)"
proof -
  let ?t = "write_data_at_offset (f_chunk_size f) (f_ino f) offset data 0 (fs_data d)"
  note rows = file_pwrite_rows [OF inv bound]
  have "map_of ?t k \<noteq> None \<Longrightarrow> fst k = f_ino f \<or> map_of (fs_data d) k \<noteq> None" for k
    using rows(2) [of "fst k" "snd k"] by (cases "fst k = f_ino f") auto
  then have "wf_db (d\<lparr>fs_data := ?t\<rparr>)" using wf plain rows(1) by (intro wf_data_update)
  then show "wf_db d'" using wf
    by (auto simp: d'_def file_pwrite_def Let_def kind_preserving_def intro!: wf_update_inode)
  show "fs_dentry d' = fs_dentry d" "fs_symlink d' = fs_symlink d" "live d' = live d"
    by (auto simp: d'_def file_pwrite_def Let_def live_def table_simps fun_eq_iff)
  show "ino \<noteq> f_ino f \<Longrightarrow> select_inode d' ino = select_inode d ino \<and>
      map_of (fs_data d') (ino, k) = map_of (fs_data d) (ino, k)"
    using rows(2) by (auto simp: d'_def file_pwrite_def Let_def table_simps)
qed

lemma file_truncate_frame:
  fixes now :: timestamp
  assumes wf: "wf_db d" and plain: "file_ino d (f_ino f)" and bound: "n < 2 ^ 63"
  defines "d' \<equiv> snd (file_truncate f now n d)"
  shows "wf_db d'" "fs_dentry d' = fs_dentry d" "fs_symlink d' = fs_symlink d" "live d' = live d"
    "ino \<noteq> f_ino f \<Longrightarrow> select_inode d' ino = select_inode d ino \<and>
      map_of (fs_data d') (ino, k) = map_of (fs_data d) (ino, k)"
proof -
  let ?s = "shrink_chunks (f_chunk_size f) (f_ino f) n (fs_data d)"
  have "wf_db (d\<lparr>fs_data := ?s\<rparr>)" "wf_db (delete_data (f_ino f) d)"
    unfolding delete_data_def using wf plain wf_dbD(3) [OF wf] map_of_shrink_chunks [OF bound]
    by (auto intro!: wf_data_update keyed_shrink_chunks keyed_delete_rows simp: table_simps split: if_splits)
  then show "wf_db d'" using wf
    by (auto simp: d'_def file_truncate_def Let_def kind_preserving_def intro!: wf_update_inode)
  show "fs_dentry d' = fs_dentry d" "fs_symlink d' = fs_symlink d" "live d' = live d"
    by (auto simp: d'_def file_truncate_def Let_def live_def delete_data_def table_simps fun_eq_iff)
  show "ino \<noteq> f_ino f \<Longrightarrow> select_inode d' ino = select_inode d ino \<and>
      map_of (fs_data d') (ino, k) = map_of (fs_data d) (ino, k)"
    using map_of_shrink_chunks [OF bound]
    by (auto simp: d'_def file_truncate_def Let_def table_simps delete_data_def)
qed

text \<open>An operation on one file that keeps its own invariant keeps every other file's.\<close>

lemma data_ok_file_op:
  assumes ok: "data_ok cs d" and own: "file_inv f d'" "f_chunk_size f = cs" and live: "live d' = live d"
    and frame: "\<And>ino k. ino \<noteq> f_ino f \<Longrightarrow> select_inode d' ino = select_inode d ino \<and>
      map_of (fs_data d') (ino, k) = map_of (fs_data d) (ino, k)"
  shows "data_ok cs d'"
  unfolding data_ok_def
proof (intro conjI allI impI)
  show "0 < cs" using ok by (simp add: data_ok_def)
  fix ino assume l: "live d' ino"
  have "select_size d' ino < 2 ^ 63 \<and> chunks_within cs ino (select_size d' ino) (fs_data d')"
  proof (cases "ino = f_ino f")
    case True
    with own show ?thesis by (simp add: file_inv_iff)
  next
    case False
    then have "select_size d' ino = select_size d ino" using frame by (simp add: select_size_def)
    with ok l live False frame show ?thesis by (auto simp: data_ok_def chunks_within_def)
  qed
  then show "select_size d' ino < 2 ^ 63" "chunks_within cs ino (select_size d' ino) (fs_data d')" by auto
qed

end
