(* ===== verification/Fs_Reachable.thy ===== *)
theory Fs_Reachable
  imports Fs_Preservation
begin

unbundle bit_operations_syntax

text \<open>
  A mounted AgentFS as a state machine: it is opened on a new database, then requests arrive
  one after the other. Every state it can reach has consistent tables, files whose chunks lie
  inside their size, and an entry cache that agrees with the directory entries.
\<close>

section \<open>Opening\<close>

text \<open>
  \<open>AgentFS::from_pool_with_cache_key\<close>; \<open>cache\<close> is the new, empty cache and \<open>epoch\<close> the value
  of the shared counter of the cache key, if there is one.
\<close>

definition from_pool :: "u32 \<Rightarrow> u32 \<Rightarrow> timestamp \<Rightarrow> 'c \<Rightarrow> u64 option \<Rightarrow> db \<Rightarrow> 'c agentfs" where
  "from_pool uid gid now cache epoch d =
     (let d1 = initialize_schema uid gid now d
      in \<lparr>afs_db = d1, afs_chunk_size = read_chunk_size d1, dentry_cache = cache,
          shared_epoch = epoch, seen_epoch = (case epoch of Some e \<Rightarrow> e | None \<Rightarrow> 0)\<rparr>)"

section \<open>The invariant of an instance\<close>

definition good :: "('c \<Rightarrow> dentry_key \<Rightarrow> i64 option) \<Rightarrow> 'c agentfs \<Rightarrow> bool" where
  "good view s \<longleftrightarrow> wf_db (afs_db s) \<and> data_ok (afs_chunk_size s) (afs_db s) \<and> coherent view s"

lemma goodD:
  assumes "good view s"
  shows "wf_db (afs_db s)" "data_ok (afs_chunk_size s) (afs_db s)" "coherent view s"
    "keyed (fs_dentry (afs_db s))"
  using assms wf_dbD(2) by (auto simp: good_def)

lemma afs_chunk_size_simps [simp]:
  "afs_chunk_size (dcache_insert L p n i s) = afs_chunk_size s"
  "afs_chunk_size (dcache_remove L p n s) = afs_chunk_size s"
  by (simp_all add: dcache_insert_def dcache_remove_def)

lemma good_same_entries:
  assumes "good view s" and "wf_db d" and "data_ok (afs_chunk_size s) d" and "fs_dentry d = fs_dentry (afs_db s)"
  shows "good view (s\<lparr>afs_db := d\<rparr>)"
  using assms by (simp add: good_def coherent_def)

lemma good_update_inode:
  assumes "good view s"
    and "\<And>r. select_inode (afs_db s) i = Some r \<Longrightarrow> kind_preserving f r \<and> r_size (f r) = r_size r"
  shows "good view (s\<lparr>afs_db := update_inode i f (afs_db s)\<rparr>)"
  using assms goodD [OF assms(1)]
  by (intro good_same_entries wf_update_inode data_ok_update_inode) auto

lemma fs_dentry_touch [simp]:
  "fs_dentry (touch_parent now p d) = fs_dentry d" "fs_dentry (add_nlink k p d) = fs_dentry d"
  by (simp_all add: touch_parent_def add_nlink_def)

lemma resolve_loop_chunk_size: "afs_chunk_size (snd (resolve_loop L cs ino s)) = afs_chunk_size s"
  by (induction L cs ino s rule: resolve_loop.induct)
    (auto simp: dcache_get_def Let_def split: prod.splits option.splits sum.splits)

lemma resolve_path_chunk_size: "afs_chunk_size (snd (resolve_path L path s)) = afs_chunk_size s"
  by (simp add: resolve_path_def Let_def resolve_loop_chunk_size refresh_dentry_cache_if_stale_def
      dcache_clear_def split: option.splits)

section \<open>What the creating operations do when they succeed\<close>

lemmas create_simps = lookup_child_keyed case_prod_beta insert_inode_dentry Let_def

lemma fs_mkdir_new:
  assumes "wf_db (afs_db s)" and "length n \<le> MAX_NAME_LEN" and "map_of (fs_dentry (afs_db s)) (p, n) = None"
  shows "fs_mkdir L now p n mode uid gid s =
    (Inr (new_stats (inode_seq (afs_db s) + 1) (S_IFDIR OR (mode AND PERM_MASK)) 2 uid gid 0 0 now),
     dcache_insert L p n (inode_seq (afs_db s) + 1) (s\<lparr>afs_db := touch_parent now p (add_nlink 1 p
       (new_entry (new_row (S_IFDIR OR (mode AND PERM_MASK)) 2 uid gid 0 0 now) p n (afs_db s)))\<rparr>))"
  using assms wf_dbD(2) [OF assms(1)]
  by (simp add: fs_mkdir_def create_simps update_new_entry) (simp add: new_row_def)

lemma fs_create_file_new:
  assumes "wf_db (afs_db s)" and "length n \<le> MAX_NAME_LEN" and "map_of (fs_dentry (afs_db s)) (p, n) = None"
  shows "fs_create_file L now p n mode uid gid s =
    (Inr (new_stats (inode_seq (afs_db s) + 1) (S_IFREG OR (mode AND PERM_MASK)) 1 uid gid 0 0 now,
          \<lparr>f_ino = inode_seq (afs_db s) + 1, f_chunk_size = afs_chunk_size s\<rparr>),
     dcache_insert L p n (inode_seq (afs_db s) + 1) (s\<lparr>afs_db := touch_parent now p
       (new_entry (new_row (S_IFREG OR (mode AND PERM_MASK)) 1 uid gid 0 0 now) p n (afs_db s))\<rparr>))"
  using assms wf_dbD(2) [OF assms(1)] by (simp add: fs_create_file_def create_simps)

lemma fs_mknod_new:
  assumes "wf_db (afs_db s)" and "length n \<le> MAX_NAME_LEN" and "map_of (fs_dentry (afs_db s)) (p, n) = None"
  shows "fs_mknod L now p n mode rdev uid gid s =
    (Inr (new_stats (inode_seq (afs_db s) + 1) mode 1 uid gid 0 rdev now),
     dcache_insert L p n (inode_seq (afs_db s) + 1) (s\<lparr>afs_db := touch_parent now p
       (new_entry (new_row mode 1 uid gid 0 rdev now) p n (afs_db s))\<rparr>))"
  using assms wf_dbD(2) [OF assms(1)]
  by (simp add: fs_mknod_def create_simps add_nlink_def update_new_entry) (simp add: new_row_def)

lemma update_inode_fs_symlink: "update_inode i f (d\<lparr>fs_symlink := t\<rparr>) = (update_inode i f d)\<lparr>fs_symlink := t\<rparr>"
  by (simp add: update_inode_def)

lemma fs_symlink_new:
  assumes "wf_db (afs_db s)" and "length n \<le> MAX_NAME_LEN" and "map_of (fs_dentry (afs_db s)) (p, n) = None"
  shows "fs_symlink_at L now p n target uid gid s =
    (Inr (new_stats (inode_seq (afs_db s) + 1) (S_IFLNK OR 511) 1 uid gid (as_i64 (length target)) 0 now),
     dcache_insert L p n (inode_seq (afs_db s) + 1) (s\<lparr>afs_db := touch_parent now p
       ((\<lambda>d. d\<lparr>fs_symlink := fs_symlink d @ [(inode_seq (afs_db s) + 1, target)]\<rparr>)
         (new_entry (new_row (S_IFLNK OR 511) 1 uid gid (as_i64 (length target)) 0 now) p n (afs_db s)))\<rparr>))"
proof -
  have "map_of (fs_symlink (afs_db s)) (inode_seq (afs_db s) + 1) = None"
    using wf_dbD(9) [OF assms(1), of "inode_seq (afs_db s) + 1"] fresh_ino [OF assms(1)]
    by (cases "map_of (fs_symlink (afs_db s)) (inode_seq (afs_db s) + 1)") (auto simp: file_ino_def live_def)
  then show ?thesis
    using assms wf_dbD(2) [OF assms(1)]
    by (simp add: fs_symlink_at_def create_simps insert_row_fresh add_nlink_def update_inode_fs_symlink update_new_entry)
      (simp add: new_row_def)
qed

lemma update_inode_id: "update_inode i (\<lambda>r. r) d = d"
  by (auto simp: update_inode_def update_row_def intro!: db.equality map_idI)

section \<open>What a removal or a rename leaves\<close>

lemma rmdir_db_ok:
  fixes now :: timestamp
  assumes wf: "wf_db d" and ok: "data_ok cs d" and e: "map_of (fs_dentry d) (p, n) = Some i"
    and dir: "is_dir_ino d i" and leaf: "count_children d i = 0"
  defines "d3 \<equiv> touch_parent now p (add_nlink (- 1) p (add_nlink (- 1) i (delete_dentry p n d)))"
  shows "wf_db d3" "wf_db (delete_inode i d3)" "data_ok cs d3" "data_ok cs (delete_inode i d3)"
    "fs_dentry d3 = delete_rows (\<lambda>k. k = (p, n)) (fs_dentry d)"
proof -
  let ?dx = "touch_parent now p (add_nlink (- 1) p (add_nlink (- 1) i d))"
  have p: "is_dir_ino d p" using wf_dbD(7) [OF wf e] by (simp add: dentry_ok_def)
  then have wfx: "wf_db ?dx" using wf dir by (intro wf_touch_parent wf_add_nlink) simp_all
  have d3: "d3 = delete_dentry p n ?dx"
    by (simp add: d3_def touch_parent_def add_nlink_def delete_dentry_update_inode)
  have "is_dir_ino ?dx i" using dir by simp
  then obtain r where r: "select_inode ?dx i = Some r" "mode_is (r_mode r) S_IFDIR"
    by (auto simp: is_dir_ino_def split: option.splits)
  have "count_children ?dx i = 0" using leaf by (simp add: count_children_def)
  note drop = wf_drop_dir [OF wfx _ r this, of p n "\<lambda>r. r", unfolded update_inode_id]
  show "wf_db d3" unfolding d3 using e by (intro drop(1)) simp_all
  show "wf_db (delete_inode i d3)"
    using drop(2) purge_dir [OF wfx, of i "\<lambda>r. r" p n] dir e by (simp add: d3 update_inode_id)
  show "data_ok cs d3" unfolding d3 using ok by auto
  then show "data_ok cs (delete_inode i d3)" by auto
  show "fs_dentry d3 = delete_rows (\<lambda>k. k = (p, n)) (fs_dentry d)" by (simp add: d3)
qed

text \<open>One entry and one link of its inode go, and the inode with its last link.\<close>

lemma drop_entry_ok:
  assumes wf: "wf_db d" and ok: "data_ok cs d" and bound: "length (fs_dentry d) \<le> 2 ^ 32"
    and e: "map_of (fs_dentry d) (p, n) = Some i" and leaf: "is_dir_ino d i \<Longrightarrow> count_children d i = 0"
    and f: "\<And>r. r_mode (f r) = r_mode r \<and> r_nlink (f r) = r_nlink r - 1 \<and> r_size (f r) = r_size r"
    and d2: "d2 = update_inode i f (delete_dentry p n d)"
    and d1: "d1 = (if get_link_count d2 i = 0 then purge_inode i d2 else d2)"
  shows "wf_db d1" "data_ok cs d1" "fs_dentry d1 = delete_rows (\<lambda>k. k = (p, n)) (fs_dentry d)"
    "is_dir_ino d j \<Longrightarrow> count_children d j \<noteq> 0 \<Longrightarrow> is_dir_ino d1 j"
proof -
  obtain r where r: "select_inode d i = Some r"
    using wf_dbD(7) [OF wf e] by (auto simp: dentry_ok_def live_def)
  have "links d i \<le> 2 ^ 32"
    using bound count_le_length [of "map snd (fs_dentry d)" i] by (simp add: links_def)
  then show "wf_db d1"
    unfolding d1 d2 using wf_drop_file [OF wf e r, of f] wf_drop_dir [OF wf e r, of f] f r leaf
    by (cases "mode_is (r_mode r) S_IFDIR") (simp_all add: is_dir_ino_def)
  show "data_ok cs d1"
    unfolding d1 d2 using ok f by (auto intro!: data_ok_update_inode data_ok_purge)
  show "fs_dentry d1 = delete_rows (\<lambda>k. k = (p, n)) (fs_dentry d)" by (simp add: d1 d2)
  show "is_dir_ino d1 j" if "is_dir_ino d j" "count_children d j \<noteq> 0"
  proof -
    have "j \<noteq> i" using that leaf by auto
    with that show ?thesis by (auto simp: d1 d2 is_dir_ino_def table_simps)
  qed
qed

text \<open>Clearing the destination of a rename keeps every directory that has entries.\<close>

lemma rename_replace_ok:
  assumes wf: "wf_db d" and ok: "data_ok cs d" and bound: "length (fs_dentry d) \<le> 2 ^ 32"
    and res: "rename_replace now st p n d = Inr d1"
  shows "wf_db d1 \<and> data_ok cs d1 \<and> fs_dentry d1 = delete_rows (\<lambda>k. k = (p, n)) (fs_dentry d) \<and>
    (\<forall>j. is_dir_ino d j \<longrightarrow> map_of (fs_dentry d) (p, n) = None \<or> count_children d j \<noteq> 0 \<longrightarrow> is_dir_ino d1 j)"
proof (cases "map_of (fs_dentry d) (p, n)")
  case None
  with res wf ok show ?thesis
    by (auto simp: rename_replace_def lookup_child_keyed wf_dbD(2) intro!: delete_rows_none [symmetric])
next
  case (Some i)
  obtain r where r: "select_inode d i = Some r"
    using wf_dbD(7) [OF wf Some] by (auto simp: dentry_ok_def live_def)
  let ?f = "\<lambda>r. r\<lparr>r_nlink := r_nlink r - 1, r_ctime := fst now, r_ctime_nsec := snd now\<rparr>"
  let ?d2 = "update_inode i ?f (delete_dentry p n d)"
  have "d1 = (if get_link_count ?d2 i = 0 then purge_inode i ?d2 else ?d2)"
    and "is_dir_ino d i \<Longrightarrow> count_children d i = 0"
    using res Some r wf_dbD(2) [OF wf]
    by (auto simp: rename_replace_def lookup_child_keyed getattr_def Let_def is_directory_def mode_is_def
        build_stats_from_row_def is_dir_ino_def split: if_splits)
  from drop_entry_ok [OF wf ok bound Some this(2) _ refl this(1)] Some show ?thesis by simp
qed

lemma rename_move_ok:
  assumes wf: "wf_db d" and ok: "data_ok cs d" and dirs: "is_dir_ino d op" "is_dir_ino d np"
    and free: "map_of (fs_dentry d) (np, nn) = None" and neq: "(op, on) \<noteq> (np, nn)"
  obtains d2 where "rename_move now src st op on np nn d = Inr d2" "wf_db d2" "data_ok cs d2"
    "fs_dentry d2 = rekey (op, on) (np, nn) (fs_dentry d)"
proof -
  define d1 where "d1 = d\<lparr>fs_dentry := rekey (op, on) (np, nn) (fs_dentry d)\<rparr>"
  define d2 where "d2 = (if is_directory st \<and> op \<noteq> np then add_nlink 1 np (add_nlink (- 1) op d1) else d1)"
  define d3 where "d3 = update_inode src (\<lambda>r. r\<lparr>r_ctime := fst now, r_ctime_nsec := snd now\<rparr>) d2"
  define d5 where "d5 = (if np \<noteq> op then touch_parent now np (touch_parent now op d3) else touch_parent now op d3)"
  have "is_dir_ino d1 j = is_dir_ino d j" for j by (simp add: d1_def is_dir_ino_def)
  moreover have "wf_db d1" unfolding d1_def using wf dirs free neq by (intro wf_rekey) simp_all
  ultimately have "wf_db d2" unfolding d2_def using dirs by (auto intro!: wf_add_nlink)
  then have "wf_db d3" unfolding d3_def by (rule wf_update_inode) (simp add: kind_preserving_def)
  moreover have "data_ok cs d2" unfolding d2_def d1_def using ok by (auto intro!: data_ok_add_nlink)
  then have "data_ok cs d3" unfolding d3_def by (rule data_ok_update_inode) simp
  ultimately have "wf_db d5" "data_ok cs d5" unfolding d5_def by (auto intro!: wf_touch_parent)
  moreover have "rename_move now src st op on np nn d = Inr d5"
    using move_dentry_cases [of d "(op, on)" "(np, nn)"] free
    by (simp add: rename_move_def Let_def d1_def d2_def d3_def d5_def)
  moreover have "fs_dentry d5 = rekey (op, on) (np, nn) (fs_dentry d)"
    by (simp add: d1_def d2_def d3_def d5_def)
  ultimately show thesis using that by blast
qed

lemma data_ok_new_row:
  "wf_db d \<Longrightarrow> data_ok cs d \<Longrightarrow> data_ok cs (new_entry (new_row mode nlink uid gid 0 rdev now) p n d)"
  by (intro data_ok_new_entry) (simp_all add: new_row_def as_u64_def)

lemma new_symlink_ok:
  fixes uid gid :: u32 and now :: timestamp
  assumes wf: "wf_db d" and ok: "data_ok cs d" and dir: "is_dir_ino d p"
    and free: "map_of (fs_dentry d) (p, n) = None" and len: "length target < 2 ^ 63"
  defines "d1 \<equiv> new_entry (new_row (S_IFLNK OR 511) 1 uid gid (as_i64 (length target)) 0 now) p n d"
  shows "wf_db (d1\<lparr>fs_symlink := fs_symlink d @ [(inode_seq d + 1, target)]\<rparr>)"
    and "data_ok cs (d1\<lparr>fs_symlink := fs_symlink d @ [(inode_seq d + 1, target)]\<rparr>)"
proof -
  let ?i = "inode_seq d + 1"
  have "wf_db d1" unfolding d1_def using wf dir free by (intro wf_new_entry) (simp_all add: new_row_def)
  moreover have "map_of (fs_symlink d) ?i = None"
    using wf_dbD(9) [OF wf, of ?i] fresh_ino [OF wf]
    by (cases "map_of (fs_symlink d) ?i") (auto simp: file_ino_def live_def)
  moreover have "file_ino d1 ?i"
    using wf by (simp add: d1_def file_ino_def live_def is_dir_ino_def new_entry_sel new_row_def mode_is_def)
  ultimately show "wf_db (d1\<lparr>fs_symlink := fs_symlink d @ [(?i, target)]\<rparr>)"
    using wf_add_symlink [of d1 ?i target] by (simp add: d1_def)
  have "data_ok cs d1"
    unfolding d1_def using wf ok len by (intro data_ok_new_entry) (simp_all add: new_row_def cast_simps)
  moreover have "data_ok cs (d1\<lparr>fs_symlink := t\<rparr>) = data_ok cs d1" for t
    by (rule data_ok_cong) (simp_all add: select_inode_def fun_eq_iff)
  ultimately show "data_ok cs (d1\<lparr>fs_symlink := fs_symlink d @ [(?i, target)]\<rparr>)" by simp
qed

context lru_cache
begin

lemma good_insert_entry:
  assumes "good view s" and "wf_db d" and "data_ok (afs_chunk_size s) d"
    and "map_of (fs_dentry (afs_db s)) (p, n) = None" and "fs_dentry d = fs_dentry (afs_db s) @ [((p, n), i)]"
  shows "good view (dcache_insert L p n i (s\<lparr>afs_db := d\<rparr>))"
proof -
  have m: "map_of (fs_dentry d) = (map_of (fs_dentry (afs_db s)))((p, n) \<mapsto> i)"
    using map_of_snoc [OF assms(4)] assms(5) by simp
  have "coherent view (s\<lparr>afs_db := d\<rparr>)"
    using goodD(3) [OF assms(1)] assms(4) by (auto simp: coherent_def m map_le_def dom_def)
  with m coherent_insert have "coherent view (dcache_insert L p n i (s\<lparr>afs_db := d\<rparr>))" by simp
  with assms show ?thesis by (simp add: good_def)
qed

lemma good_remove_entry:
  assumes "good view s" and "wf_db d" and "data_ok (afs_chunk_size s) d"
    and "fs_dentry d = delete_rows (\<lambda>k. k = (p, n)) (fs_dentry (afs_db s))"
  shows "good view ((dcache_remove L p n s)\<lparr>afs_db := d\<rparr>)"
  using assms goodD(3) [OF assms(1)]
  by (auto simp: good_def coherent_def dcache_remove_def pop_view map_le_def table_simps dom_def)

lemma good_lookup: "good view s \<Longrightarrow> good view (snd (fs_lookup L p n s))"
  using lookup_child_keyed goodD(4) [of view s] coherent_insert [of s p n]
  by (auto simp: fs_lookup_def Let_def good_def split: option.splits)

lemma good_mkdir:
  assumes "good view s" and "is_dir_ino (afs_db s) p"
  shows "good view (snd (fs_mkdir L now p n mode uid gid s))"
proof (cases "length n \<le> MAX_NAME_LEN \<and> map_of (fs_dentry (afs_db s)) (p, n) = None")
  case True
  note g = goodD [OF assms(1)]
  have "wf_db (new_entry (new_row (S_IFDIR OR (mode AND PERM_MASK)) 2 uid gid 0 0 now) p n (afs_db s))"
    using g(1) assms(2) True by (intro wf_new_entry) (simp_all add: new_row_def mode_is_def)
  with True g assms show ?thesis
    by (auto simp: fs_mkdir_new intro!: good_insert_entry wf_touch_parent wf_add_nlink is_dir_new_entry
        data_ok_new_row data_ok_touch data_ok_add_nlink)
qed (use assms lookup_child_keyed [OF goodD(4) [OF assms(1)]] in \<open>auto simp: fs_mkdir_def split: option.splits\<close>)

lemma good_create_file:
  assumes "good view s" and "is_dir_ino (afs_db s) p"
  shows "good view (snd (fs_create_file L now p n mode uid gid s))"
proof (cases "length n \<le> MAX_NAME_LEN \<and> map_of (fs_dentry (afs_db s)) (p, n) = None")
  case True
  note g = goodD [OF assms(1)]
  have "wf_db (new_entry (new_row (S_IFREG OR (mode AND PERM_MASK)) 1 uid gid 0 0 now) p n (afs_db s))"
    using g(1) assms(2) True by (intro wf_new_entry) (simp_all add: new_row_def)
  with True g assms show ?thesis
    by (auto simp: fs_create_file_new intro!: good_insert_entry wf_touch_parent data_ok_new_row data_ok_touch)
qed (use assms lookup_child_keyed [OF goodD(4) [OF assms(1)]] in \<open>auto simp: fs_create_file_def split: option.splits\<close>)

lemma good_mknod:
  assumes "good view s" and "is_dir_ino (afs_db s) p"
  shows "good view (snd (fs_mknod L now p n mode rdev uid gid s))"
proof (cases "length n \<le> MAX_NAME_LEN \<and> map_of (fs_dentry (afs_db s)) (p, n) = None")
  case True
  note g = goodD [OF assms(1)]
  have "wf_db (new_entry (new_row mode 1 uid gid 0 rdev now) p n (afs_db s))"
    using g(1) assms(2) True by (intro wf_new_entry) (simp_all add: new_row_def)
  with True g assms show ?thesis
    by (auto simp: fs_mknod_new intro!: good_insert_entry wf_touch_parent data_ok_new_row data_ok_touch)
qed (use assms lookup_child_keyed [OF goodD(4) [OF assms(1)]] in \<open>auto simp: fs_mknod_def split: option.splits\<close>)

lemma good_symlink:
  assumes "good view s" and "is_dir_ino (afs_db s) p" and "length target < 2 ^ 63"
  shows "good view (snd (fs_symlink_at L now p n target uid gid s))"
proof (cases "length n \<le> MAX_NAME_LEN \<and> map_of (fs_dentry (afs_db s)) (p, n) = None")
  case True
  then have "map_of (fs_dentry (afs_db s)) (p, n) = None" by blast
  note db = new_symlink_ok [OF goodD(1,2) [OF assms(1)] assms(2) this assms(3), of uid gid now]
  show ?thesis using True goodD [OF assms(1)] assms
    by (auto simp: fs_symlink_new db intro!: good_insert_entry wf_touch_parent data_ok_touch)
qed (use assms lookup_child_keyed [OF goodD(4) [OF assms(1)]] in \<open>auto simp: fs_symlink_at_def split: option.splits\<close>)

lemma good_link:
  assumes good: "good view s" and dir: "is_dir_ino (afs_db s) p"
  shows "good view (snd (fs_link L now ino p n s))"
proof -
  let ?d = "afs_db s"
  note g = goodD [OF good]
  show ?thesis
  proof (cases "length n \<le> MAX_NAME_LEN \<and> file_ino ?d ino \<and> map_of (fs_dentry ?d) (p, n) = None")
    case True
    then obtain r where new: "length n \<le> MAX_NAME_LEN" "select_inode ?d ino = Some r"
      "\<not> mode_is (r_mode r) S_IFDIR" "map_of (fs_dentry ?d) (p, n) = None"
      by (auto simp: file_ino_def live_def is_dir_ino_def)
    let ?f = "\<lambda>r. r\<lparr>r_nlink := r_nlink r + 1, r_ctime := fst now, r_ctime_nsec := snd now\<rparr>"
    let ?d' = "update_inode ino ?f (?d\<lparr>fs_dentry := fs_dentry ?d @ [((p, n), ino)]\<rparr>)"
    have "snd (fs_link L now ino p n s) = dcache_insert L p n ino (s\<lparr>afs_db := touch_parent now p ?d'\<rparr>)"
      using new lookup_child_keyed [OF g(4), of p n]
      by (auto simp: fs_link_def insert_dentry_def insert_row_fresh Let_def split: option.splits)
    moreover have "wf_db ?d'" using new g(1) dir by (intro wf_link_entry [of _ _ r]) simp_all
    moreover have "data_ok (afs_chunk_size s) ?d'" using g(2) by (intro data_ok_update_inode) simp_all
    ultimately show ?thesis
      using new good by (auto intro!: good_insert_entry wf_touch_parent data_ok_touch)
  qed (use good lookup_child_keyed [OF g(4)] in
      \<open>auto simp: fs_link_def file_ino_def live_def is_dir_ino_def split: option.splits\<close>)
qed

lemma good_unlink:
  assumes good: "good view s" and bound: "length (fs_dentry (afs_db s)) \<le> 2 ^ 32"
  shows "good view (snd (fs_unlink L now p n s))"
proof -
  let ?d = "afs_db s"
  note g = goodD [OF good]
  show ?thesis
  proof (cases "length n \<le> MAX_NAME_LEN \<and>
      (\<exists>i. map_of (fs_dentry ?d) (p, n) = Some i \<and> \<not> is_dir_ino ?d i)")
    case True
    then obtain i r where ok: "map_of (fs_dentry ?d) (p, n) = Some i" "select_inode ?d i = Some r"
        "\<not> mode_is (r_mode r) S_IFDIR" "length n \<le> MAX_NAME_LEN"
      using wf_dbD(7) [OF g(1), of "(p, n)"] by (auto simp: dentry_ok_def live_def is_dir_ino_def)
    let ?f = "\<lambda>r. r\<lparr>r_nlink := r_nlink r - 1, r_ctime := fst now, r_ctime_nsec := snd now\<rparr>"
    let ?t = "touch_parent now p ?d"
    let ?d' = "update_inode i ?f (delete_dentry p n ?t)"
    let ?d4 = "if get_link_count ?d' i = 0 then purge_inode i ?d' else ?d'"
    have "snd (fs_unlink L now p n s) = (dcache_remove L p n s)\<lparr>afs_db := ?d4\<rparr>"
      using ok lookup_child_keyed [OF g(4), of p n]
      by (simp add: fs_unlink_def Let_def touch_parent_def delete_dentry_update_inode)
    moreover have "wf_db ?d4"
    proof -
      obtain r' where r': "select_inode ?t i = Some r'" "r_mode r' = r_mode r"
        using ok(2) that by (cases "i = p") (auto simp: touch_parent_def table_simps)
      have "links ?t i \<le> 2 ^ 32"
        using bound count_le_length [of "map snd (fs_dentry ?d)" i] by (simp add: links_def)
      then show ?thesis
        using ok r' wf_touch_parent [OF g(1), of now p] by (intro wf_drop_file [of _ _ _ _ r']) simp_all
    qed
    moreover have "data_ok (afs_chunk_size s) ?d4"
      using g(2) by (auto intro!: data_ok_update_inode data_ok_purge data_ok_touch)
    moreover have "fs_dentry ?d4 = delete_rows (\<lambda>k. k = (p, n)) (fs_dentry ?d)" by simp
    ultimately show ?thesis using good by (simp only: good_remove_entry)
  qed (use good lookup_child_keyed [OF g(4)] in
      \<open>auto simp: fs_unlink_def is_dir_ino_def split: option.splits\<close>)
qed

lemma good_rmdir:
  assumes good: "good view s"
  shows "good view (snd (fs_rmdir L now p n s))"
proof -
  let ?d = "afs_db s"
  note g = goodD [OF good]
  show ?thesis
  proof (cases "length n \<le> MAX_NAME_LEN \<and> (\<exists>i. map_of (fs_dentry ?d) (p, n) = Some i \<and>
      is_dir_ino ?d i \<and> count_children ?d i = 0)")
    case True
    then obtain i where ok: "length n \<le> MAX_NAME_LEN" "map_of (fs_dentry ?d) (p, n) = Some i"
      "is_dir_ino ?d i" "count_children ?d i = 0" by blast
    let ?d3 = "touch_parent now p (add_nlink (- 1) p (add_nlink (- 1) i (delete_dentry p n ?d)))"
    let ?d4 = "if get_link_count ?d3 i = 0 then delete_inode i ?d3 else ?d3"
    have "i \<noteq> ROOT_INO" using wf_dbD(7) [OF g(1) ok(2)] by (simp add: dentry_ok_def)
    then have "snd (fs_rmdir L now p n s) = (dcache_remove L p n s)\<lparr>afs_db := ?d4\<rparr>"
      using ok lookup_child_keyed [OF g(4), of p n]
      by (auto simp: fs_rmdir_def Let_def is_dir_ino_def split: option.splits)
    moreover note db = rmdir_db_ok [OF g(1,2) ok(2-4), of now]
    moreover have "fs_dentry ?d4 = delete_rows (\<lambda>k. k = (p, n)) (fs_dentry ?d)"
      using db(5) by (simp add: delete_inode_def)
    ultimately show ?thesis using good by (simp add: good_remove_entry del: delete_inode_def)
  qed (use good lookup_child_keyed [OF g(4)] in
      \<open>auto simp: fs_rmdir_def is_dir_ino_def split: option.splits\<close>)
qed

text \<open>The second half of a rename, after the destination was cleared.\<close>

lemma good_move:
  assumes good: "good view s" and e: "map_of (fs_dentry (afs_db s)) (op, on) = Some src"
    and dir: "is_dir_ino (afs_db s) np" and neq: "(op, on) \<noteq> (np, nn)"
    and repl: "wf_db d1 \<and> data_ok (afs_chunk_size s) d1 \<and>
      fs_dentry d1 = delete_rows (\<lambda>k. k = (np, nn)) (fs_dentry (afs_db s)) \<and>
      (\<forall>j. is_dir_ino (afs_db s) j \<longrightarrow>
        map_of (fs_dentry (afs_db s)) (np, nn) = None \<or> count_children (afs_db s) j \<noteq> 0 \<longrightarrow> is_dir_ino d1 j)"
  obtains d2 where "rename_move now src st op on np nn d1 = Inr d2"
    and "good view (dcache_insert L np nn src (dcache_remove L np nn (dcache_remove L op on (s\<lparr>afs_db := d2\<rparr>))))"
proof -
  let ?d = "afs_db s"
  note g = goodD [OF good]
  have children: "count_children ?d op \<noteq> 0" "map_of (fs_dentry ?d) (np, nn) \<noteq> None \<Longrightarrow> count_children ?d np \<noteq> 0"
    using e unfolding count_children_0_iff by auto
  have "is_dir_ino ?d op" using wf_dbD(7) [OF g(1) e] by (simp add: dentry_ok_def)
  then have dirs: "is_dir_ino d1 op" "is_dir_ino d1 np" using repl children dir by auto
  have free: "map_of (fs_dentry d1) (np, nn) = None" using repl by (simp add: table_simps)
  obtain d2 where d2: "rename_move now src st op on np nn d1 = Inr d2" "wf_db d2"
    "data_ok (afs_chunk_size s) d2" "fs_dentry d2 = rekey (op, on) (np, nn) (fs_dentry d1)"
    using rename_move_ok [OF _ _ dirs free neq] repl by metis
  have m: "map_of (fs_dentry d2) k = (if k = (np, nn) then Some src
      else if k = (op, on) then None else map_of (fs_dentry ?d) k)" for k
    using e neq free repl by (simp add: d2(4) map_of_rekey table_simps)
  let ?s = "dcache_remove L np nn (dcache_remove L op on (s\<lparr>afs_db := d2\<rparr>))"
  have "coherent view ?s"
    using g(3) by (auto simp: coherent_def dcache_remove_def pop_view map_le_def m dom_def)
  then have "coherent view (dcache_insert L np nn src ?s)" by (rule coherent_insert) (simp add: m)
  with d2 that show thesis by (simp add: good_def)
qed

lemma good_rename:
  assumes good: "good view s" and bound: "length (fs_dentry (afs_db s)) \<le> 2 ^ 32"
    and dir: "is_dir_ino (afs_db s) np" and neq: "(op, on) \<noteq> (np, nn)"
  shows "good view (snd (fs_rename L now_dec now op on np nn s))"
proof (cases "snd (fs_rename L now_dec now op on np nn s) = s")
  case False
  note g = goodD [OF good]
  obtain src st d1 where ok: "map_of (fs_dentry (afs_db s)) (op, on) = Some src" "getattr (afs_db s) src = Some st"
    "rename_replace now_dec st np nn (afs_db s) = Inr d1" "src \<noteq> ROOT_INO" "length nn \<le> MAX_NAME_LEN"
    using False lookup_child_keyed [OF g(4), of op on]
    by (auto simp: fs_rename_def split: if_splits option.splits sum.splits)
  obtain d2 where "rename_move now src st op on np nn d1 = Inr d2"
    "good view (dcache_insert L np nn src (dcache_remove L np nn (dcache_remove L op on (s\<lparr>afs_db := d2\<rparr>))))"
    by (rule good_move [OF good ok(1) dir neq rename_replace_ok [OF g(1,2) bound ok(3)]])
  with ok lookup_child_keyed [OF g(4), of op on] show ?thesis by (simp add: fs_rename_def)
qed (use good in simp)

lemma good_resolve: "good view s \<Longrightarrow> good view (snd (resolve_path L path s))"
  using resolve_path_walk [of s path] resolve_path_chunk_size [of L path s]
  by (auto simp: good_def wf_dbD(2))

end

section \<open>Attributes and file contents\<close>

lemma good_chmod:
  assumes "good view s"
  shows "good view (s\<lparr>afs_db := snd (fs_chmod now ino mode (afs_db s))\<rparr>)"
proof (cases "select_inode (afs_db s) ino")
  case (Some r)
  have "mode_is (r_mode r AND S_IFMT OR mode AND PERM_MASK) S_IFDIR = mode_is (r_mode r) S_IFDIR"
    by (simp add: mode_is_def and.assoc)
  with Some assms show ?thesis
    by (simp add: fs_chmod_def Let_def) (rule good_update_inode, simp_all add: kind_preserving_def)
qed (use assms in \<open>simp add: fs_chmod_def\<close>)

lemma good_chown:
  assumes "good view s"
  shows "good view (s\<lparr>afs_db := snd (fs_chown now ino uid gid (afs_db s))\<rparr>)"
  using assms
  by (auto simp: fs_chown_def Let_def kind_preserving_def intro!: good_update_inode split: option.splits)

lemma good_utimens:
  assumes "good view s"
  shows "good view (s\<lparr>afs_db := snd (fs_utimens now_a now_m now_c ino at mt (afs_db s))\<rparr>)"
  using assms
  by (auto simp: fs_utimens_def Let_def kind_preserving_def intro!: good_update_inode split: option.splits)

lemma good_file_inv:
  "good view s \<Longrightarrow> live (afs_db s) ino \<Longrightarrow> file_inv \<lparr>f_ino = ino, f_chunk_size = afs_chunk_size s\<rparr> (afs_db s)"
  using goodD by (intro data_ok_file_inv) auto

lemma good_pwrite:
  assumes "good view s" and "file_ino (afs_db s) ino" and bound: "offset + length data < 2 ^ 63"
  shows "good view (s\<lparr>afs_db := snd (file_pwrite \<lparr>f_ino = ino, f_chunk_size = afs_chunk_size s\<rparr>
    now offset data (afs_db s))\<rparr>)"
proof -
  let ?f = "\<lparr>f_ino = ino, f_chunk_size = afs_chunk_size s\<rparr>"
  have inv: "file_inv ?f (afs_db s)" using assms(1,2) by (simp add: good_file_inv file_ino_def)
  note fr = file_pwrite_frame [OF goodD(1) [OF assms(1)] inv _ bound, where now = now, simplified, OF assms(2)]
  have "data_ok (afs_chunk_size s) (snd (file_pwrite ?f now offset data (afs_db s)))"
    by (rule data_ok_file_op [OF goodD(2) [OF assms(1)] file_pwrite_ok(2) [OF inv bound]])
      (use fr(4,5) in simp_all)
  then show ?thesis by (intro good_same_entries [OF assms(1) fr(1) _ fr(2)])
qed

lemma good_truncate:
  assumes "good view s" and "file_ino (afs_db s) ino" and bound: "n < 2 ^ 63"
  shows "good view (s\<lparr>afs_db := snd (file_truncate \<lparr>f_ino = ino, f_chunk_size = afs_chunk_size s\<rparr>
    now n (afs_db s))\<rparr>)"
proof -
  let ?f = "\<lparr>f_ino = ino, f_chunk_size = afs_chunk_size s\<rparr>"
  have inv: "file_inv ?f (afs_db s)" using assms(1,2) by (simp add: good_file_inv file_ino_def)
  note fr = file_truncate_frame [OF goodD(1) [OF assms(1)] _ bound, where f = ?f and now = now, simplified, OF assms(2)]
  have "data_ok (afs_chunk_size s) (snd (file_truncate ?f now n (afs_db s)))"
    by (rule data_ok_file_op [OF goodD(2) [OF assms(1)] file_truncate_ok(2) [OF inv bound]])
      (use fr(4,5) in simp_all)
  then show ?thesis by (intro good_same_entries [OF assms(1) fr(1) _ fr(2)])
qed

section \<open>The machine\<close>

datatype fs_call =
    Lookup i64 string
  | Resolve string
  | Mkdir timestamp i64 string u32 u32 u32
  | Create_File timestamp i64 string u32 u32 u32
  | Mknod timestamp i64 string u32 "64 word" u32 u32
  | Symlink timestamp i64 string string u32 u32
  | Link timestamp i64 i64 string
  | Unlink timestamp i64 string
  | Rmdir timestamp i64 string
  | Rename timestamp timestamp i64 string i64 string
  | Chmod timestamp i64 u32
  | Chown timestamp i64 "u32 option" "u32 option"
  | Utimens timestamp timestamp timestamp i64 time_change time_change
  | Write timestamp i64 u64 "byte list"
  | Set_Size timestamp i64 u64

text \<open>The handle that \<open>open\<close> returns has the chunk size of the instance.\<close>

fun run_call :: "'c lru_ops \<Rightarrow> fs_call \<Rightarrow> 'c agentfs \<Rightarrow> 'c agentfs" where
  "run_call L (Lookup p n) s = snd (fs_lookup L p n s)"
| "run_call L (Resolve path) s = snd (resolve_path L path s)"
| "run_call L (Mkdir now p n mode uid gid) s = snd (fs_mkdir L now p n mode uid gid s)"
| "run_call L (Create_File now p n mode uid gid) s = snd (fs_create_file L now p n mode uid gid s)"
| "run_call L (Mknod now p n mode rdev uid gid) s = snd (fs_mknod L now p n mode rdev uid gid s)"
| "run_call L (Symlink now p n target uid gid) s = snd (fs_symlink_at L now p n target uid gid s)"
| "run_call L (Link now ino p n) s = snd (fs_link L now ino p n s)"
| "run_call L (Unlink now p n) s = snd (fs_unlink L now p n s)"
| "run_call L (Rmdir now p n) s = snd (fs_rmdir L now p n s)"
| "run_call L (Rename t1 t2 p n p' n') s = snd (fs_rename L t1 t2 p n p' n' s)"
| "run_call L (Chmod now ino mode) s = s\<lparr>afs_db := snd (fs_chmod now ino mode (afs_db s))\<rparr>"
| "run_call L (Chown now ino uid gid) s = s\<lparr>afs_db := snd (fs_chown now ino uid gid (afs_db s))\<rparr>"
| "run_call L (Utimens t1 t2 t3 ino at mt) s = s\<lparr>afs_db := snd (fs_utimens t1 t2 t3 ino at mt (afs_db s))\<rparr>"
| "run_call L (Write now ino offset data) s = s\<lparr>afs_db := snd (file_pwrite
     \<lparr>f_ino = ino, f_chunk_size = afs_chunk_size s\<rparr> now offset data (afs_db s))\<rparr>"
| "run_call L (Set_Size now ino n) s = s\<lparr>afs_db := snd (file_truncate
     \<lparr>f_ino = ino, f_chunk_size = afs_chunk_size s\<rparr> now n (afs_db s))\<rparr>"

text \<open>
  What the kernel side of a mount ensures before it sends a request: a parent is a directory,
  a rename has two different names, data is written to files that still exist. Sizes stay
  below 2 to the 63, and there are at most 2 to the 32 entries (a link count is read as a
  \<open>u32\<close>).
\<close>

fun call_ok :: "fs_call \<Rightarrow> db \<Rightarrow> bool" where
  "call_ok (Mkdir now p n mode uid gid) d = is_dir_ino d p"
| "call_ok (Create_File now p n mode uid gid) d = is_dir_ino d p"
| "call_ok (Mknod now p n mode rdev uid gid) d = is_dir_ino d p"
| "call_ok (Symlink now p n target uid gid) d = (is_dir_ino d p \<and> length target < 2 ^ 63)"
| "call_ok (Link now ino p n) d = is_dir_ino d p"
| "call_ok (Unlink now p n) d = (length (fs_dentry d) \<le> 2 ^ 32)"
| "call_ok (Rename t1 t2 p n p' n') d =
     (is_dir_ino d p' \<and> (p, n) \<noteq> (p', n') \<and> length (fs_dentry d) \<le> 2 ^ 32)"
| "call_ok (Write now ino offset data) d = (file_ino d ino \<and> offset + length data < 2 ^ 63)"
| "call_ok (Set_Size now ino n) d = (file_ino d ino \<and> n < 2 ^ 63)"
| "call_ok _ d = True"

inductive reachable :: "'c lru_ops \<Rightarrow> 'c agentfs \<Rightarrow> 'c agentfs \<Rightarrow> bool" for L s0 where
  start: "reachable L s0 s0"
| step: "reachable L s0 s \<Longrightarrow> call_ok c (afs_db s) \<Longrightarrow> reachable L s0 (run_call L c s)"

lemma wf_initial: "wf_db (initialize_schema uid gid now empty_db)"
  by (simp add: wf_db_def initialize_schema_def empty_db_def Let_def keyed_def select_inode_def replace_row_def
      delete_rows_def is_dir_ino_def root_row_def mode_is_def inode_ok_def links_def ROOT_INO_def)

lemma wf_initialize_schema:
  assumes "wf_db d"
  shows "wf_db (initialize_schema uid gid now d)"
proof -
  define d2 where "d2 = d\<lparr>fs_config := fs_config (initialize_schema uid gid now d)\<rparr>"
  have eq: "select_inode d2 = select_inode d" "links d2 = links d"
    by (simp_all add: d2_def select_inode_def links_def fun_eq_iff)
  moreover have "inode_seq d2 = inode_seq d" by (simp add: d2_def)
  ultimately have pred: "is_dir_ino d2 = is_dir_ino d" "file_ino d2 = file_ino d"
    "inode_ok d2 = inode_ok d" "dentry_ok d2 = dentry_ok d"
    by (simp_all add: live_def is_dir_ino_def file_ino_def inode_ok_def dentry_ok_def fun_eq_iff)
  have "wf_db d2" using assms unfolding wf_db_def pred by (simp add: d2_def)
  moreover have "select_inode d ROOT_INO \<noteq> None" using wf_dbD(5) [OF assms] by (auto simp: is_dir_ino_def split: option.splits)
  then have "initialize_schema uid gid now d = update_inode ROOT_INO (\<lambda>r. r\<lparr>r_uid := uid, r_gid := gid\<rparr>) d2"
    by (auto simp: initialize_schema_def Let_def d2_def select_inode_def update_inode_def split: option.splits)
  ultimately show ?thesis by (simp add: wf_update_inode kind_preserving_def)
qed

lemma initialize_schema_chunk_size:
  "map_of (fs_config d) ''chunk_size'' = Some v \<Longrightarrow>
    map_of (fs_config (initialize_schema uid gid now d)) ''chunk_size'' = Some v"
  by (auto simp: initialize_schema_def Let_def table_simps split: option.splits)

context lru_cache
begin

lemma good_from_pool:
  assumes "view cache = Map.empty"
  shows "good view (from_pool uid gid now cache epoch empty_db)"
proof -
  let ?d = "initialize_schema uid gid now empty_db"
  have "read_chunk_size ?d = 4096"
    using parse_usize_to_decimal [of DEFAULT_CHUNK_SIZE]
    by (simp add: read_chunk_size_def initialize_schema_def empty_db_def Let_def select_inode_def replace_row_def
        delete_rows_def DEFAULT_CHUNK_SIZE_def)
  moreover have "data_ok 4096 ?d"
    by (simp add: data_ok_def initialize_schema_def empty_db_def Let_def select_inode_def select_size_def
        chunks_within_def replace_row_def delete_rows_def root_row_def as_u64_def live_def)
  ultimately show ?thesis
    using assms wf_initial by (simp add: good_def from_pool_def Let_def coherent_def)
qed

lemma good_run_call: "good view s \<Longrightarrow> call_ok c (afs_db s) \<Longrightarrow> good view (run_call L c s)"
  by (cases c) (simp_all add: good_lookup good_resolve good_mkdir good_create_file good_mknod good_symlink
      good_link good_unlink good_rmdir good_rename good_chmod good_chown good_utimens good_pwrite good_truncate)

lemma reachable_good: "reachable L s0 s \<Longrightarrow> good view s0 \<Longrightarrow> good view s"
  by (induction rule: reachable.induct) (auto intro: good_run_call)

end

text \<open>A whole sequence of requests.\<close>

fun calls_ok :: "'c lru_ops \<Rightarrow> fs_call list \<Rightarrow> 'c agentfs \<Rightarrow> bool" where
  "calls_ok L [] s = True"
| "calls_ok L (c # cs) s = (call_ok c (afs_db s) \<and> calls_ok L cs (run_call L c s))"

lemma reachable_calls: "calls_ok L cs s \<Longrightarrow> reachable L s0 s \<Longrightarrow> reachable L s0 (fold (run_call L) cs s)"
  by (induction cs arbitrary: s) (auto intro: reachable.step)

end
