(* ===== verification/Fs_Behaviour.thy ===== *)
theory Fs_Behaviour
  imports Fs_Reachable
begin

unbundle bit_operations_syntax

text \<open>
  What each operation of \<open>impl FileSystem for AgentFS\<close> does, as a caller sees it: what a lookup
  finds afterwards, when an inode and its data disappear, what a failed call leaves.
\<close>

lemma touch_parent_simps [simp]:
  "fs_data (touch_parent now p d) = fs_data d" "fs_symlink (touch_parent now p d) = fs_symlink d"
  "live (touch_parent now p d) = live d" "select_size (touch_parent now p d) = select_size d"
  by (auto simp: touch_parent_def table_simps select_size_def fun_eq_iff split: option.splits)

lemma links_length: "links d i = length (filter (\<lambda>e. snd e = i) (fs_dentry d))"
proof -
  have "count_list (map snd t) i = length (filter (\<lambda>e. snd e = i) t)" for t :: "(dentry_key \<times> i64) list"
    by (induction t) auto
  then show ?thesis by (simp add: links_def)
qed

lemma nlink_entries:
  assumes "wf_db d" and "select_inode d i = Some r" and "\<not> mode_is (r_mode r) S_IFDIR"
  shows "r_nlink r = int (length (filter (\<lambda>e. snd e = i) (fs_dentry d)))" and "0 < r_nlink r"
  using wf_dbD(6) [OF assms(1,2)] assms(3) by (simp_all add: inode_ok_def links_length)

lemma purge_others:
  assumes "j \<noteq> i"
  shows "content cs j (purge_inode i d) = content cs j d" and "live (purge_inode i d) j = live d j"
proof -
  have "byte_at cs (fs_data (purge_inode i d)) j = byte_at cs (fs_data d) j"
    using assms by (simp add: byte_at_def table_simps fun_eq_iff)
  with assms show "content cs j (purge_inode i d) = content cs j d" "live (purge_inode i d) j = live d j"
    by (simp_all add: content_def select_size_def live_def table_simps)
qed

section \<open>Failed calls\<close>

lemma fs_unlink_error: "fs_unlink L now p n s = (Inl e, s') \<Longrightarrow> s' = s"
  by (auto simp: fs_unlink_def Let_def split: if_splits option.splits sum.splits)

lemma fs_rmdir_error: "fs_rmdir L now p n s = (Inl e, s') \<Longrightarrow> s' = s"
  by (auto simp: fs_rmdir_def Let_def split: if_splits option.splits sum.splits)

lemma fs_rename_error: "fs_rename L t1 t2 p n p' n' s = (Inl e, s') \<Longrightarrow> s' = s"
  by (auto simp: fs_rename_def split: if_splits option.splits sum.splits)

text \<open>
  \<open>mkdir\<close>, \<open>mknod\<close> and \<open>symlink\<close> have no transaction. They look the name up first, so on a
  table that satisfies its own key constraint the later insertion cannot fail.
\<close>

lemma fs_create_error:
  assumes "wf_db (afs_db s)"
  shows "fs_mkdir L now p n mode uid gid s = (Inl e, s') \<Longrightarrow> s' = s"
    and "fs_mknod L now p n mode rdev uid gid s = (Inl e, s') \<Longrightarrow> s' = s"
    and "fs_symlink_at L now p n target uid gid s = (Inl e, s') \<Longrightarrow> s' = s"
    and "fs_create_file L now p n mode uid gid s = (Inl e, s') \<Longrightarrow> s' = s"
proof -
  note look = lookup_child_keyed [OF wf_dbD(2) [OF assms], of p n]
  show "fs_mkdir L now p n mode uid gid s = (Inl e, s') \<Longrightarrow> s' = s"
    using fs_mkdir_new [OF assms, of n p] look
    by (cases "length n \<le> MAX_NAME_LEN"; cases "map_of (fs_dentry (afs_db s)) (p, n)") (auto simp: fs_mkdir_def)
  show "fs_mknod L now p n mode rdev uid gid s = (Inl e, s') \<Longrightarrow> s' = s"
    using fs_mknod_new [OF assms, of n p] look
    by (cases "length n \<le> MAX_NAME_LEN"; cases "map_of (fs_dentry (afs_db s)) (p, n)") (auto simp: fs_mknod_def)
  show "fs_symlink_at L now p n target uid gid s = (Inl e, s') \<Longrightarrow> s' = s"
    using fs_symlink_new [OF assms, of n p] look
    by (cases "length n \<le> MAX_NAME_LEN"; cases "map_of (fs_dentry (afs_db s)) (p, n)") (auto simp: fs_symlink_at_def)
  show "fs_create_file L now p n mode uid gid s = (Inl e, s') \<Longrightarrow> s' = s"
    using fs_create_file_new [OF assms, of n p] look
    by (cases "length n \<le> MAX_NAME_LEN"; cases "map_of (fs_dentry (afs_db s)) (p, n)") (auto simp: fs_create_file_def)
qed

section \<open>Creation\<close>

lemma getattr_touch_new:
  assumes "wf_db d" and "is_dir_ino d p"
  shows "getattr (touch_parent now p (new_entry r p n d)) (inode_seq d + 1) = Some (build_stats_from_row (inode_seq d + 1) r)"
proof -
  have "p \<noteq> inode_seq d + 1" using fresh_ino [OF assms(1)] assms(2) by (auto simp: is_dir_ino_def)
  then show ?thesis
    by (simp add: getattr_def touch_parent_def table_simps new_entry_sel [OF assms(1)])
qed

lemma as_u32_one [simp]: "as_u32 1 = 1" "as_u32 2 = 2"
  by (simp_all add: as_u32_def)

text \<open>A file that was just created is found under its name with the attributes returned.\<close>

lemma create_then_lookup:
  assumes wf: "wf_db (afs_db s)" and dir: "is_dir_ino (afs_db s) p" and n: "n \<noteq> ''..''"
    and res: "fs_create_file L now p n mode uid gid s = (Inr (st, f), s')"
  shows "fst (fs_lookup L p n s') = Inr (Some st)" and "fs_open (st_ino st) s' = Inr f"
    and "file_pread f off len (afs_db s') = Inr []" and "select_inode (afs_db s) (st_ino st) = None"
proof -
  let ?d = "afs_db s" and ?r = "new_row (S_IFREG OR (mode AND PERM_MASK)) 1 uid gid 0 0 now"
  let ?i = "inode_seq ?d + 1"
  have len: "length n \<le> MAX_NAME_LEN" and free: "map_of (fs_dentry ?d) (p, n) = None"
    using res lookup_child_keyed [OF wf_dbD(2) [OF wf], of p n]
    by (auto simp: fs_create_file_def split: if_splits option.splits)
  have st: "st = new_stats ?i (S_IFREG OR (mode AND PERM_MASK)) 1 uid gid 0 0 now"
    and f: "f = \<lparr>f_ino = ?i, f_chunk_size = afs_chunk_size s\<rparr>"
    and s': "s' = dcache_insert L p n ?i (s\<lparr>afs_db := touch_parent now p (new_entry ?r p n ?d)\<rparr>)"
    using res fs_create_file_new [OF wf len free] by auto
  have "wf_db (new_entry ?r p n ?d)" using wf dir free by (intro wf_new_entry) (simp_all add: new_row_def)
  then have key: "keyed (fs_dentry (afs_db s'))" using wf_dbD(2) by (force simp: s')
  have "map_of (fs_dentry (afs_db s')) (p, n) = Some ?i" using map_of_snoc [OF free] by (simp add: s')
  moreover have attr: "getattr (afs_db s') ?i = Some st"
    using getattr_touch_new [OF wf dir] by (simp add: s' st build_stats_from_row_def new_row_def new_stats_def)
  ultimately show "fst (fs_lookup L p n s') = Inr (Some st)"
    using n len by (simp add: fs_lookup_def lookup_child_keyed [OF key])
  from attr obtain r where r: "select_inode (afs_db s') ?i = Some r" "r_size r = 0"
    by (auto simp: getattr_def st build_stats_from_row_def new_stats_def)
  then show "fs_open (st_ino st) s' = Inr f" by (simp add: fs_open_def st new_stats_def f s')
  from r show "file_pread f off len (afs_db s') = Inr []"
    by (simp add: file_pread_def f select_size_def as_u64_def)
  show "select_inode ?d (st_ino st) = None" using fresh_ino [OF wf] by (simp add: st new_stats_def)
qed

section \<open>Removal\<close>

lemma unlink_db:
  assumes wf: "wf_db (afs_db s)" and res: "fs_unlink L now p n s = (Inr (), s')"
    and e: "map_of (fs_dentry (afs_db s)) (p, n) = Some i" and bound: "links (afs_db s) i \<le> 2 ^ 32"
  shows "map_of (fs_dentry (afs_db s')) = (map_of (fs_dentry (afs_db s)))((p, n) := None)"
    and "links (afs_db s) i = 1 \<Longrightarrow> select_inode (afs_db s') i = None \<and>
      (\<forall>k. map_of (fs_data (afs_db s')) (i, k) = None) \<and> map_of (fs_symlink (afs_db s')) i = None"
    and "1 < links (afs_db s) i \<Longrightarrow> content cs i (afs_db s') = content cs i (afs_db s) \<and> live (afs_db s') i"
    and "j \<noteq> i \<Longrightarrow> content cs j (afs_db s') = content cs j (afs_db s) \<and> live (afs_db s') j = live (afs_db s) j"
proof -
  let ?d = "afs_db s" and ?f = "\<lambda>r. r\<lparr>r_nlink := r_nlink r - 1, r_ctime := fst now, r_ctime_nsec := snd now\<rparr>"
  let ?d2 = "touch_parent now p (delete_dentry p n ?d)"
  let ?d3 = "update_inode i ?f ?d2"
  obtain r where r: "select_inode ?d i = Some r" using wf_dbD(7) [OF wf e] by (auto simp: dentry_ok_def live_def)
  have plain: "\<not> mode_is (r_mode r) S_IFDIR"
    and db: "afs_db s' = (if get_link_count ?d3 i = 0 then purge_inode i ?d3 else ?d3)"
    using res lookup_child_keyed [OF wf_dbD(2) [OF wf], of p n] e r
    by (auto simp: fs_unlink_def Let_def split: if_splits)
  have ok: "r_nlink r = int (links ?d i)" "0 < links ?d i"
    using wf_dbD(6) [OF wf r] plain by (auto simp: inode_ok_def)
  have "get_link_count ?d3 i = as_u32 (int (links ?d i) - 1)"
    using r ok(1) by (auto simp: get_link_count_def touch_parent_def table_simps)
  then have zero: "get_link_count ?d3 i = 0 \<longleftrightarrow> links ?d i = 1"
    using bound ok(2) as_u32_eq_0 [of "int (links ?d i) - 1"] by auto
  have size: "select_size ?d3 j = select_size ?d j" for j
    by (auto simp: touch_parent_def table_simps select_size_def split: option.splits)
  show "map_of (fs_dentry (afs_db s')) = (map_of (fs_dentry ?d))((p, n) := None)"
    by (auto simp: db table_simps)
  show "select_inode (afs_db s') i = None \<and> (\<forall>k. map_of (fs_data (afs_db s')) (i, k) = None) \<and>
      map_of (fs_symlink (afs_db s')) i = None" if "links ?d i = 1"
    using that zero by (simp add: db table_simps)
  have same: "content cs j ?d3 = content cs j ?d" "live ?d3 j = live ?d j" for j
    using size [of j] by (simp_all add: content_def)
  show "content cs i (afs_db s') = content cs i ?d \<and> live (afs_db s') i" if "1 < links ?d i"
    using that zero same [of i] r by (simp add: db live_def)
  show "content cs j (afs_db s') = content cs j ?d \<and> live (afs_db s') j = live ?d j" if "j \<noteq> i"
    using same [of j] purge_others(1) [OF that, of cs ?d3] purge_others(2) [OF that, of ?d3] by (simp only: db split: if_split) blast
qed

text \<open>
  A directory is created with link count 2 and \<open>rmdir\<close> takes only one of them away, so the row
  of a removed directory stays in the table.
\<close>

lemma rmdir_keeps_row:
  assumes wf: "wf_db (afs_db s)" and e: "map_of (fs_dentry (afs_db s)) (p, n) = Some i"
    and r: "select_inode (afs_db s) i = Some r" "r_nlink r = 2"
    and res: "fs_rmdir L now p n s = (Inr (), s')"
  shows "map_of (fs_dentry (afs_db s')) (p, n) = None" and "links (afs_db s') i = 0"
    and "\<exists>r'. select_inode (afs_db s') i = Some r' \<and> r_nlink r' = 1"
proof -
  let ?d = "afs_db s"
  let ?d3 = "touch_parent now p (add_nlink (- 1) p (add_nlink (- 1) i (delete_dentry p n ?d)))"
  have dir: "is_dir_ino ?d i" and leaf: "count_children ?d i = 0"
    and db: "afs_db s' = (if get_link_count ?d3 i = 0 then delete_inode i ?d3 else ?d3)"
    using res lookup_child_keyed [OF wf_dbD(2) [OF wf], of p n] e r
    by (auto simp: fs_rmdir_def Let_def is_dir_ino_def split: if_splits)
  have "p \<noteq> i" using e leaf by (auto simp: count_children_0_iff)
  then have row: "select_inode ?d3 i = Some (r\<lparr>r_nlink := 1\<rparr>)"
    using r by (simp add: touch_parent_def add_nlink_def table_simps)
  then have "get_link_count ?d3 i \<noteq> 0" by (simp add: get_link_count_def)
  with db have eq: "afs_db s' = ?d3" by simp
  then show "map_of (fs_dentry (afs_db s')) (p, n) = None" by (simp add: table_simps)
  have "links ?d i \<le> 1" using wf_dbD(6) [OF wf r(1)] dir r(1) by (simp add: inode_ok_def is_dir_ino_def)
  then have "links (delete_dentry p n ?d) i = 0"
    using links_delete_dentry [OF wf_dbD(2) [OF wf] e, of i] by simp
  then show "links (afs_db s') i = 0" using links_cong [of ?d3 "delete_dentry p n ?d"] by (simp add: eq)
  show "\<exists>r'. select_inode (afs_db s') i = Some r' \<and> r_nlink r' = 1" using row by (simp add: eq)
qed

section \<open>Rename\<close>

lemma rename_move_content:
  assumes "rename_move now src st op on np nn d = Inr d'"
  shows "content cs j d' = content cs j d" and "live d' = live d" and "fs_symlink d' = fs_symlink d"
proof -
  obtain t where t: "move_dentry (op, on) (np, nn) d = Some (d\<lparr>fs_dentry := t\<rparr>)"
    using assms by (auto simp: rename_move_def move_dentry_def split: if_splits option.splits)
  have size: "select_size (d\<lparr>fs_dentry := t\<rparr>) = select_size d" "live (d\<lparr>fs_dentry := t\<rparr>) = live d"
    by (simp_all add: select_size_def live_def fun_eq_iff)
  have nl: "select_size (add_nlink k p x) = select_size x" "fs_data (add_nlink k p x) = fs_data x"
    "live (add_nlink k p x) = live x" "fs_symlink (add_nlink k p x) = fs_symlink x" for k p x
    by (auto simp: add_nlink_def table_simps select_size_def fun_eq_iff split: option.splits)
  have up: "select_size (update_inode src (\<lambda>r. r\<lparr>r_ctime := fst now, r_ctime_nsec := snd now\<rparr>) x) = select_size x" for x
    by (auto simp: table_simps select_size_def fun_eq_iff split: option.splits)
  show "content cs j d' = content cs j d" "live d' = live d" "fs_symlink d' = fs_symlink d"
    using assms t by (auto simp: rename_move_def Let_def content_def size nl up split: if_splits)
qed

text \<open>A successful rename to a name that was free.\<close>

lemma rename_to_free:
  assumes wf: "wf_db (afs_db s)" and ok: "data_ok cs (afs_db s)" and dir: "is_dir_ino (afs_db s) np"
    and e: "map_of (fs_dentry (afs_db s)) (op, on) = Some src" and free: "map_of (fs_dentry (afs_db s)) (np, nn) = None"
    and len: "length nn \<le> MAX_NAME_LEN"
  obtains s' where "fs_rename L now_dec now op on np nn s = (Inr (), s')"
    and "map_of (fs_dentry (afs_db s')) = (map_of (fs_dentry (afs_db s)))((op, on) := None, (np, nn) \<mapsto> src)"
    and "\<And>j. content cs j (afs_db s') = content cs j (afs_db s)" and "live (afs_db s') = live (afs_db s)"
    and "fs_symlink (afs_db s') = fs_symlink (afs_db s)"
proof -
  let ?d = "afs_db s"
  have ent: "src \<noteq> ROOT_INO" "live ?d src" "is_dir_ino ?d op"
    using wf_dbD(7) [OF wf e] by (simp_all add: dentry_ok_def)
  obtain st where st: "getattr ?d src = Some st" using ent(2) by (auto simp: live_def getattr_def)
  have neq: "(op, on) \<noteq> (np, nn)" using e free by auto
  note look = lookup_child_keyed [OF wf_dbD(2) [OF wf]]
  have repl: "rename_replace now_dec st np nn ?d = Inr ?d" by (simp add: rename_replace_def look free)
  obtain d2 where d2: "rename_move now src st op on np nn ?d = Inr d2"
    "fs_dentry d2 = rekey (op, on) (np, nn) (fs_dentry ?d)"
    using rename_move_ok [OF wf ok ent(3) dir free neq] by metis
  let ?s' = "dcache_insert L np nn src (dcache_remove L np nn (dcache_remove L op on (s\<lparr>afs_db := d2\<rparr>)))"
  have "fs_rename L now_dec now op on np nn s = (Inr (), ?s')"
    using len ent(1) by (simp add: fs_rename_def look e st repl d2(1))
  moreover have "map_of (fs_dentry d2) = (map_of (fs_dentry ?d))((op, on) := None, (np, nn) \<mapsto> src)"
    using e neq by (auto simp: fun_eq_iff d2(2) map_of_rekey [OF free neq])
  ultimately show thesis using that rename_move_content [OF d2(1)] by simp
qed

text \<open>
  A rename of a name to itself first clears the destination, which is the source: the entry is
  gone, and with the last link the inode and its data.
\<close>

lemma rename_to_itself:
  assumes wf: "wf_db (afs_db s)" and e: "map_of (fs_dentry (afs_db s)) (p, n) = Some i"
    and plain: "\<not> is_dir_ino (afs_db s) i" and last: "links (afs_db s) i = 1" and len: "length n \<le> MAX_NAME_LEN"
  obtains s' where "fs_rename L now_dec now p n p n s = (Inr (), s')"
    and "map_of (fs_dentry (afs_db s')) (p, n) = None" and "select_inode (afs_db s') i = None"
    and "\<And>k. map_of (fs_data (afs_db s')) (i, k) = None"
proof -
  let ?d = "afs_db s" and ?f = "\<lambda>r. r\<lparr>r_nlink := r_nlink r - 1, r_ctime := fst now_dec, r_ctime_nsec := snd now_dec\<rparr>"
  let ?d1 = "purge_inode i (update_inode i ?f (delete_dentry p n ?d))"
  note look = lookup_child_keyed [OF wf_dbD(2) [OF wf]]
  have ent: "i \<noteq> ROOT_INO" "live ?d i" using wf_dbD(7) [OF wf e] by (simp_all add: dentry_ok_def)
  then obtain r where r: "select_inode ?d i = Some r" by (auto simp: live_def)
  then have nd: "\<not> mode_is (r_mode r) S_IFDIR" using plain by (simp add: is_dir_ino_def)
  with wf_dbD(6) [OF wf r] last have "r_nlink r = 1" by (simp add: inode_ok_def)
  then have repl: "rename_replace now_dec (build_stats_from_row i r) p n ?d = Inr ?d1"
    using nd r by (simp add: rename_replace_def look e getattr_def build_stats_from_row_def is_directory_def mode_is_def
        get_link_count_def table_simps as_u32_def)
  have gone: "map_of (fs_dentry ?d1) (p, n) = None" by (simp add: table_simps)
  then have move: "move_dentry (p, n) (p, n) ?d1 = Some ?d1"
    using move_dentry_cases [of ?d1 "(p, n)" "(p, n)"] by (simp add: rekey_absent)
  let ?d2 = "touch_parent now p (update_inode i (\<lambda>r. r\<lparr>r_ctime := fst now, r_ctime_nsec := snd now\<rparr>) ?d1)"
  let ?s' = "dcache_insert L p n i (dcache_remove L p n (dcache_remove L p n (s\<lparr>afs_db := ?d2\<rparr>)))"
  have "fs_rename L now_dec now p n p n s = (Inr (), ?s')"
    using len ent(1) r by (simp add: fs_rename_def look e getattr_def repl rename_move_def move)
  moreover have "select_inode ?d2 i = None" by (simp add: touch_parent_def table_simps)
  moreover have "map_of (fs_data ?d2) (i, k) = None" for k by (simp add: table_simps)
  ultimately show thesis using that gone by simp
qed

section \<open>Listing\<close>

text \<open>A listing is sorted, has no repetition and names exactly the entries of the directory.\<close>

lemma readdir_names:
  assumes key: "keyed (fs_dentry d)" and dir: "is_dir_ino d i"
  obtains ns where "fs_readdir i d = Inr (Some ns)" and "sorted ns" and "distinct ns"
    and "set ns = {n. n \<noteq> [] \<and> map_of (fs_dentry d) (i, n) \<noteq> None}"
proof -
  let ?es = "filter (\<lambda>e. fst (fst e) = i) (fs_dentry d)"
  let ?ns = "filter (\<lambda>n. n \<noteq> []) (sort (map (\<lambda>e. snd (fst e)) ?es))"
  have "fs_readdir i d = Inr (Some ?ns)"
    using dir by (auto simp: fs_readdir_def is_dir_ino_def split: option.splits)
  moreover have "sorted ?ns" by (rule sorted_filter [of "\<lambda>x. x", simplified]) simp
  moreover have "distinct (map (\<lambda>e. snd (fst e)) ?es)"
  proof -
    have "distinct (map fst ?es)" using key by (simp add: keyed_def distinct_map_filter)
    then have "distinct (map snd (map fst ?es))"
      by (rule distinct_map [THEN iffD2, OF conjI]) (auto simp: inj_on_def)
    then show ?thesis by (simp add: o_def)
  qed
  then have "distinct ?ns" by simp
  moreover have "set ?ns = {n. n \<noteq> [] \<and> map_of (fs_dentry d) (i, n) \<noteq> None}"
    by (force simp: map_of_eq_None_iff image_iff)
  ultimately show thesis using that by blast
qed

section \<open>Attributes\<close>

text \<open>\<open>chmod\<close> sets the twelve permission bits and nothing else of the mode.\<close>

lemma chmod_bits:
  assumes "select_inode d ino = Some r" and "fs_chmod now ino mode d = (res, d')"
  obtains r' where "res = Inr ()" and "select_inode d' ino = Some r'"
    and "r_mode r' AND S_IFMT = r_mode r AND S_IFMT" and "r_mode r' AND PERM_MASK = mode AND PERM_MASK"
    and "r_size r' = r_size r" and "r_nlink r' = r_nlink r"
proof -
  let ?m = "r_mode r AND S_IFMT OR mode AND PERM_MASK"
  have "res = Inr ()" "select_inode d' ino = Some (r\<lparr>r_mode := ?m, r_ctime := fst now, r_ctime_nsec := snd now\<rparr>)"
    using assms by (auto simp: fs_chmod_def Let_def table_simps)
  moreover have "?m AND S_IFMT = r_mode r AND S_IFMT" by (simp add: and.assoc)
  moreover have "?m AND PERM_MASK = mode AND PERM_MASK"
  proof -
    have "(r_mode r AND S_IFMT) AND PERM_MASK = 0"
      using perm_bits_no_kind [of "r_mode r"] by (simp add: ac_simps)
    then show ?thesis by (simp only: bit.conj_disj_distrib2) (simp add: and.assoc)
  qed
  ultimately show thesis using that by simp
qed

section \<open>Handles that outlive their file\<close>

text \<open>
  A handle holds only the inode number. A write through it after the inode was purged stores
  chunks again, under a number that has no inode row.
\<close>

lemma write_keeps_rows:
  "map_of tab k \<noteq> None \<Longrightarrow> map_of (write_data_at_offset cs ino offset data written tab) k \<noteq> None"
proof (induction cs ino offset data written tab rule: write_data_at_offset.induct)
  case (1 cs ino offset data written tab)
  then show ?case
    by (subst write_data_at_offset.simps) (simp add: Let_def table_simps)
qed

lemma write_stores_row:
  assumes "0 < cs" and "data \<noteq> []"
  shows "\<exists>k. map_of (write_data_at_offset cs ino offset data 0 tab) (ino, k) \<noteq> None"
  using assms
  by (subst write_data_at_offset.simps)
    (auto simp: Let_def table_simps simp del: not_None_eq intro!: exI write_keeps_rows)

lemma write_after_purge:
  assumes gone: "select_inode d (f_ino f) = None" and cs: "0 < f_chunk_size f" and data: "data \<noteq> []"
  shows "fst (file_pwrite f now offset data d) = Inr ()"
    and "select_inode (snd (file_pwrite f now offset data d)) (f_ino f) = None"
    and "\<exists>k. map_of (fs_data (snd (file_pwrite f now offset data d))) (f_ino f, k) \<noteq> None"
    and "\<not> wf_db (snd (file_pwrite f now offset data d))"
proof -
  let ?d' = "snd (file_pwrite f now offset data d)"
  show "fst (file_pwrite f now offset data d) = Inr ()" and row: "select_inode ?d' (f_ino f) = None"
    using data cs gone by (simp_all add: file_pwrite_def Let_def table_simps)
  show "\<exists>k. map_of (fs_data ?d') (f_ino f, k) \<noteq> None"
    using write_stores_row [OF cs data] data cs by (simp add: file_pwrite_def Let_def)
  then show "\<not> wf_db ?d'"
    using wf_dbD(8) [of ?d'] row by (force simp: file_ino_def live_def)
qed

end
