(* ===== verification/Fs_Path_Ops.thy ===== *)
theory Fs_Path_Ops
  imports Fs_Behaviour
begin

unbundle bit_operations_syntax

text \<open>
  The path-based methods of \<open>AgentFS\<close> (\<open>appfs/sdk/rust/src/filesystem/agentfs.rs\<close>): the API the
  CLI and the runtime use without a mount. A method that runs in a transaction gives back the
  old tables when it fails; what it put into the entry cache stays there.
\<close>

section \<open>Queries\<close>

definition lstat :: "'c lru_ops \<Rightarrow> string \<Rightarrow> 'c agentfs \<Rightarrow> stats option result \<times> 'c agentfs" where
  "lstat L path s =
     (case resolve_path L (normalize_path path) s of
        (Inl e, s1) \<Rightarrow> (Inl e, s1)
      | (Inr None, s1) \<Rightarrow> (Inr None, s1)
      | (Inr (Some ino), s1) \<Rightarrow> (Inr (getattr (afs_db s1) ino), s1))"

definition readlink :: "'c lru_ops \<Rightarrow> string \<Rightarrow> 'c agentfs \<Rightarrow> string option result \<times> 'c agentfs" where
  "readlink L path s =
     (case resolve_path L (normalize_path path) s of
        (Inl e, s1) \<Rightarrow> (Inl e, s1)
      | (Inr None, s1) \<Rightarrow> (Inr None, s1)
      | (Inr (Some ino), s1) \<Rightarrow>
          (case select_inode (afs_db s1) ino of
             None \<Rightarrow> (Inr None, s1)
           | Some r \<Rightarrow> if \<not> mode_is (r_mode r) S_IFLNK then (Inl (Fs NotASymlink), s1)
                       else (Inr (map_of (fs_symlink (afs_db s1)) ino), s1)))"

text \<open>
  \<open>Path::new(current).parent()\<close>, and \<open>parent.join(target)\<close> for a target that is not absolute.
  The standard library skips empty and \<open>.\<close> components. The result is normalised at once, so
  only its components matter.
\<close>

definition path_parent :: "string \<Rightarrow> string" where
  "path_parent p = path_of (butlast (filter (\<lambda>c. c \<noteq> ''.'') (path_components p)))"

definition follow_target :: "string \<Rightarrow> string \<Rightarrow> string" where
  "follow_target current target =
     normalize_path (if target \<noteq> [] \<and> hd target = CHR ''/'' then target
                     else path_parent current @ ''/'' @ target)"

text \<open>
  The loop of \<open>stat\<close> and \<open>stat_with_conn\<close>; the two report a symlink without a target row
  differently.
\<close>

fun stat_loop ::
  "'c lru_ops \<Rightarrow> fs_error \<Rightarrow> nat \<Rightarrow> string \<Rightarrow> 'c agentfs \<Rightarrow> stats option result \<times> 'c agentfs" where
  "stat_loop L missing 0 current_path s = (Inl (Fs SymlinkLoop), s)"
| "stat_loop L missing (Suc depth) current_path s =
     (case resolve_path L current_path s of
        (Inl e, s1) \<Rightarrow> (Inl e, s1)
      | (Inr None, s1) \<Rightarrow> (Inr None, s1)
      | (Inr (Some ino), s1) \<Rightarrow>
          (case select_inode (afs_db s1) ino of
             None \<Rightarrow> (Inr None, s1)
           | Some r \<Rightarrow>
               if mode_is (r_mode r) S_IFLNK then
                 (case readlink L current_path s1 of
                    (Inl e, s2) \<Rightarrow> (Inl e, s2)
                  | (Inr None, s2) \<Rightarrow> (Inl (Fs missing), s2)
                  | (Inr (Some target), s2) \<Rightarrow>
                      stat_loop L missing depth (follow_target current_path target) s2)
               else (Inr (Some (build_stats_from_row ino r)), s1)))"

definition MAX_SYMLINK_DEPTH :: nat where
  "MAX_SYMLINK_DEPTH = 40"

definition stat :: "'c lru_ops \<Rightarrow> string \<Rightarrow> 'c agentfs \<Rightarrow> stats option result \<times> 'c agentfs" where
  "stat L path s = stat_loop L NotFound MAX_SYMLINK_DEPTH (normalize_path path) s"

definition stat_with_conn :: "'c lru_ops \<Rightarrow> string \<Rightarrow> 'c agentfs \<Rightarrow> stats option result \<times> 'c agentfs" where
  "stat_with_conn L path s = stat_loop L InvalidPath MAX_SYMLINK_DEPTH (normalize_path path) s"

text \<open>\<open>AgentFS::open\<close>: a handle on the inode of a path.\<close>

definition open_path :: "'c lru_ops \<Rightarrow> string \<Rightarrow> 'c agentfs \<Rightarrow> agentfs_file result \<times> 'c agentfs" where
  "open_path L path s =
     (case resolve_path L (normalize_path path) s of
        (Inl e, s1) \<Rightarrow> (Inl e, s1)
      | (Inr None, s1) \<Rightarrow> (Inl (Fs NotFound), s1)
      | (Inr (Some ino), s1) \<Rightarrow> (Inr \<lparr>f_ino = ino, f_chunk_size = afs_chunk_size s1\<rparr>, s1))"

section \<open>Creation\<close>

text \<open>
  The prefix that the creating methods share: normalise, split, refuse the root, resolve the
  parent.
\<close>

definition resolve_parent ::
  "'c lru_ops \<Rightarrow> string \<Rightarrow> 'c agentfs \<Rightarrow> (i64 \<times> string) result \<times> 'c agentfs" where
  "resolve_parent L path s =
     (let components = split_path (normalize_path path)
      in if components = [] then (Inl (Fs RootOperation), s)
         else case resolve_path L (parent_path components) s of
                (Inl e, s1) \<Rightarrow> (Inl e, s1)
              | (Inr None, s1) \<Rightarrow> (Inl (Fs NotFound), s1)
              | (Inr (Some parent_ino), s1) \<Rightarrow> (Inr (parent_ino, last components), s1))"

definition mkdir :: "'c lru_ops \<Rightarrow> timestamp \<Rightarrow> string \<Rightarrow> u32 \<Rightarrow> u32 \<Rightarrow> 'c agentfs \<Rightarrow> unit result \<times> 'c agentfs" where
  "mkdir L now path uid gid s =
     (case resolve_parent L path s of
        (Inl e, s1) \<Rightarrow> (Inl e, s1)
      | (Inr (parent_ino, name), s1) \<Rightarrow>
          (case lookup_child (afs_db s1) parent_ino name of
             Inl e \<Rightarrow> (Inl e, s1)
           | Inr (Some _) \<Rightarrow> (Inl (Fs AlreadyExists), s1)
           | Inr None \<Rightarrow>
               let (ino, d1) = insert_inode (new_row DEFAULT_DIR_MODE 0 uid gid 0 0 now) (afs_db s1)
               in case insert_dentry name parent_ino ino d1 of
                    None \<Rightarrow> (Inl unique_violation, s1\<lparr>afs_db := d1\<rparr>)
                  | Some d2 \<Rightarrow>
                      let d3 = update_inode ino (\<lambda>r. r\<lparr>r_nlink := 2\<rparr>) d2;
                          d4 = touch_parent now parent_ino (add_nlink 1 parent_ino d3)
                      in (Inr (), dcache_insert L parent_ino name ino (s1\<lparr>afs_db := d4\<rparr>))))"

definition mknod ::
  "'c lru_ops \<Rightarrow> timestamp \<Rightarrow> string \<Rightarrow> u32 \<Rightarrow> 64 word \<Rightarrow> u32 \<Rightarrow> u32 \<Rightarrow> 'c agentfs \<Rightarrow> unit result \<times> 'c agentfs" where
  "mknod L now path mode rdev uid gid s =
     (case resolve_parent L path s of
        (Inl e, s1) \<Rightarrow> (Inl e, s1)
      | (Inr (parent_ino, name), s1) \<Rightarrow>
          (case lookup_child (afs_db s1) parent_ino name of
             Inl e \<Rightarrow> (Inl e, s1)
           | Inr (Some _) \<Rightarrow> (Inl (Fs AlreadyExists), s1)
           | Inr None \<Rightarrow>
               let (ino, d1) = insert_inode (new_row mode 0 uid gid 0 rdev now) (afs_db s1)
               in case insert_dentry name parent_ino ino d1 of
                    None \<Rightarrow> (Inl unique_violation, s1\<lparr>afs_db := d1\<rparr>)
                  | Some d2 \<Rightarrow> (Inr (), dcache_insert L parent_ino name ino (s1\<lparr>afs_db := add_nlink 1 ino d2\<rparr>))))"

definition create_file ::
  "'c lru_ops \<Rightarrow> timestamp \<Rightarrow> string \<Rightarrow> u32 \<Rightarrow> u32 \<Rightarrow> u32 \<Rightarrow> 'c agentfs \<Rightarrow>
     (stats \<times> agentfs_file) result \<times> 'c agentfs" where
  "create_file L now path mode uid gid s =
     (case resolve_parent L path s of
        (Inl e, s1) \<Rightarrow> (Inl e, s1)
      | (Inr (parent_ino, name), s1) \<Rightarrow>
          (case lookup_child (afs_db s1) parent_ino name of
             Inl e \<Rightarrow> (Inl e, s1)
           | Inr (Some _) \<Rightarrow> (Inl (Fs AlreadyExists), s1)
           | Inr None \<Rightarrow>
               let file_mode = S_IFREG OR (mode AND PERM_MASK);
                   (ino, d1) = insert_inode (new_row file_mode 1 uid gid 0 0 now) (afs_db s1)
               in case insert_dentry name parent_ino ino d1 of
                    None \<Rightarrow> (Inl unique_violation, s1)
                  | Some d2 \<Rightarrow>
                      (Inr (new_stats ino file_mode 1 uid gid 0 0 now,
                            \<lparr>f_ino = ino, f_chunk_size = afs_chunk_size s1\<rparr>),
                       dcache_insert L parent_ino name ino (s1\<lparr>afs_db := d2\<rparr>))))"

definition symlink ::
  "'c lru_ops \<Rightarrow> timestamp \<Rightarrow> string \<Rightarrow> string \<Rightarrow> u32 \<Rightarrow> u32 \<Rightarrow> 'c agentfs \<Rightarrow> unit result \<times> 'c agentfs" where
  "symlink L now target linkpath uid gid s =
     (case resolve_parent L linkpath s of
        (Inl e, s1) \<Rightarrow> (Inl e, s1)
      | (Inr (parent_ino, name), s1) \<Rightarrow>
          (case lookup_child (afs_db s1) parent_ino name of
             Inl e \<Rightarrow> (Inl e, s1)
           | Inr (Some _) \<Rightarrow> (Inl (Fs AlreadyExists), s1)
           | Inr None \<Rightarrow>
               let (ino, d1) = insert_inode
                     (new_row (S_IFLNK OR 511) 0 uid gid (as_i64 (length target)) 0 now) (afs_db s1)
               in case insert_row ino target (fs_symlink d1) of
                    None \<Rightarrow> (Inl unique_violation, s1\<lparr>afs_db := d1\<rparr>)
                  | Some t \<Rightarrow>
                      let d2 = d1\<lparr>fs_symlink := t\<rparr>
                      in case insert_dentry name parent_ino ino d2 of
                           None \<Rightarrow> (Inl unique_violation, s1\<lparr>afs_db := d2\<rparr>)
                         | Some d3 \<Rightarrow>
                             (Inr (), dcache_insert L parent_ino name ino (s1\<lparr>afs_db := add_nlink 1 ino d3\<rparr>))))"

text \<open>\<open>link\<close> looks at the destination's components first, then resolves the source.\<close>

definition link :: "'c lru_ops \<Rightarrow> string \<Rightarrow> string \<Rightarrow> 'c agentfs \<Rightarrow> unit result \<times> 'c agentfs" where
  "link L oldpath newpath s =
     (if split_path (normalize_path newpath) = [] then (Inl (Fs RootOperation), s)
      else case resolve_path L (normalize_path oldpath) s of
             (Inl e, s1) \<Rightarrow> (Inl e, s1)
           | (Inr None, s1) \<Rightarrow> (Inl (Fs NotFound), s1)
           | (Inr (Some ino), s1) \<Rightarrow>
               (case select_inode (afs_db s1) ino of
                  None \<Rightarrow> (Inl (Fs NotFound), s1)
                | Some r \<Rightarrow>
                    if mode_is (r_mode r) S_IFDIR then (Inl (Fs IsADirectory), s1)
                    else case resolve_parent L newpath s1 of
                           (Inl e, s2) \<Rightarrow> (Inl e, s2)
                         | (Inr (parent_ino, name), s2) \<Rightarrow>
                             (case lookup_child (afs_db s2) parent_ino name of
                                Inl e \<Rightarrow> (Inl e, s2)
                              | Inr (Some _) \<Rightarrow> (Inl (Fs AlreadyExists), s2)
                              | Inr None \<Rightarrow>
                                  (case insert_dentry name parent_ino ino (afs_db s2) of
                                     None \<Rightarrow> (Inl unique_violation, s2)
                                   | Some d1 \<Rightarrow> (Inr (), dcache_insert L parent_ino name ino
                                       (s2\<lparr>afs_db := add_nlink 1 ino d1\<rparr>))))))"

section \<open>Contents\<close>

text \<open>\<open>SELECT data FROM fs_data WHERE ino = ? ORDER BY chunk_index\<close>.\<close>

definition all_chunks :: "db \<Rightarrow> i64 \<Rightarrow> (i64 \<times> byte list) list" where
  "all_chunks d ino =
     sort_key fst (map (\<lambda>r. (snd (fst r), snd r)) (filter (\<lambda>r. fst (fst r) = ino) (fs_data d)))"

definition read_file :: "'c lru_ops \<Rightarrow> string \<Rightarrow> 'c agentfs \<Rightarrow> byte list option result \<times> 'c agentfs" where
  "read_file L path s =
     (case resolve_path L path s of
        (Inl e, s1) \<Rightarrow> (Inl e, s1)
      | (Inr None, s1) \<Rightarrow> (Inr None, s1)
      | (Inr (Some ino), s1) \<Rightarrow> (Inr (Some (concat (map snd (all_chunks (afs_db s1) ino)))), s1))"

fun path_pread_rows :: "nat \<Rightarrow> nat \<Rightarrow> (i64 \<times> byte list) list \<Rightarrow> byte list \<Rightarrow> byte list" where
  "path_pread_rows sz start_offset [] result = result"
| "path_pread_rows sz start_offset (row # rows) result =
     (let chunk_data = snd row;
          skip = (if result = [] then start_offset else 0)
      in if length chunk_data \<le> skip then path_pread_rows sz start_offset rows result
         else path_pread_rows sz start_offset rows
                (result @ take (min (length chunk_data - skip) (sz - length result)) (drop skip chunk_data)))"

definition path_pread ::
  "'c lru_ops \<Rightarrow> string \<Rightarrow> u64 \<Rightarrow> u64 \<Rightarrow> 'c agentfs \<Rightarrow> byte list option result \<times> 'c agentfs" where
  "path_pread L path offset sz s =
     (case resolve_path L path s of
        (Inl e, s1) \<Rightarrow> (Inl e, s1)
      | (Inr None, s1) \<Rightarrow> (Inr None, s1)
      | (Inr (Some ino), s1) \<Rightarrow>
          let cs = afs_chunk_size s1
          in if cs = 0 then (Inl (Panic ''attempt to divide by zero''), s1)
             else let start_chunk = offset div cs;
                      end_chunk = (u64_add offset sz - 1) div cs;
                      rows = select_chunks (afs_db s1) ino (as_i64 start_chunk) (as_i64 end_chunk)
                  in (Inr (Some (path_pread_rows sz (offset mod cs) rows [])), s1))"

text \<open>One chunk of the path-based \<open>pwrite\<close>: its new value, and its row replaced.\<close>

definition path_chunk ::
  "nat \<Rightarrow> u64 \<Rightarrow> byte list \<Rightarrow> u64 \<Rightarrow> u64 \<Rightarrow> nat \<Rightarrow> byte list option \<Rightarrow> byte list" where
  "path_chunk cs offset data current_size write_end chunk_idx stored =
     (let chunk_start = chunk_idx * cs;
          data_start = (if chunk_start < offset then offset - chunk_start else 0);
          data_end = min cs (u64_sub write_end chunk_start);
          src_start = (if offset < chunk_start then chunk_start - offset else 0);
          src_end = min (length data) (src_start + (data_end - data_start));
          needs_read = (0 < data_start \<or> data_end < cs);
          old = (if needs_read then (case stored of Some b \<Rightarrow> resize cs 0 b | None \<Rightarrow> replicate cs 0)
                 else replicate cs 0);
          chunk_data = copy_from_slice data_start (take (src_end - src_start) (drop src_start data)) old;
          end_chunk = u64_sub write_end 1 div cs;
          actual_len = (if chunk_idx = end_chunk
                        then max (u64_sub write_end chunk_start)
                               (if chunk_start < current_size then min (current_size - chunk_start) cs else 0)
                        else cs)
      in take actual_len chunk_data)"

definition path_write_chunk ::
  "nat \<Rightarrow> i64 \<Rightarrow> u64 \<Rightarrow> byte list \<Rightarrow> u64 \<Rightarrow> u64 \<Rightarrow> nat \<Rightarrow>
     ((i64 \<times> i64) \<times> byte list) list \<Rightarrow> ((i64 \<times> i64) \<times> byte list) list" where
  "path_write_chunk cs ino offset data current_size write_end chunk_idx tab =
     delete_rows (\<lambda>k. k = (ino, as_i64 chunk_idx)) tab @
     [((ino, as_i64 chunk_idx),
       path_chunk cs offset data current_size write_end chunk_idx (map_of tab (ino, as_i64 chunk_idx)))]"

text \<open>The part after the inode is known: \<open>now_m\<close> is the time of the final update.\<close>

definition path_write_data ::
  "nat \<Rightarrow> timestamp \<Rightarrow> i64 \<Rightarrow> u64 \<Rightarrow> bool \<Rightarrow> u64 \<Rightarrow> byte list \<Rightarrow> db \<Rightarrow> db result" where
  "path_write_data cs now_m ino current_size is_new offset data d =
     (let write_end = u64_add offset (length data)
      in if data = [] then
           Inr (update_inode ino (\<lambda>r. r\<lparr>r_mtime := fst now_m, r_mtime_nsec := snd now_m\<rparr>) d)
         else if cs = 0 then Inl (Panic ''attempt to divide by zero'')
         else let start_chunk = offset div cs;
                  end_chunk = u64_sub write_end 1 div cs;
                  d1 = d\<lparr>fs_data := fold (path_write_chunk cs ino offset data current_size write_end)
                          [start_chunk..<Suc end_chunk] (fs_data d)\<rparr>
              in Inr (if is_new then d1
                      else update_inode ino (\<lambda>r. r\<lparr>r_size := as_i64 (max current_size write_end),
                             r_mtime := fst now_m, r_mtime_nsec := snd now_m\<rparr>) d1))"

definition path_pwrite ::
  "'c lru_ops \<Rightarrow> timestamp \<Rightarrow> timestamp \<Rightarrow> string \<Rightarrow> u64 \<Rightarrow> byte list \<Rightarrow> 'c agentfs \<Rightarrow> unit result \<times> 'c agentfs" where
  "path_pwrite L now now_m path offset data s =
     (case resolve_parent L path s of
        (Inl e, s1) \<Rightarrow> (Inl e, s1)
      | (Inr (parent_ino, name), s1) \<Rightarrow>
          (case resolve_path L (normalize_path path) s1 of
             (Inl e, s2) \<Rightarrow> (Inl e, s2)
           | (Inr (Some ino), s2) \<Rightarrow>
               (case path_write_data (afs_chunk_size s2) now_m ino (select_size (afs_db s2) ino) False
                       offset data (afs_db s2) of
                  Inl e \<Rightarrow> (Inl e, s2)
                | Inr d \<Rightarrow> (Inr (), s2\<lparr>afs_db := d\<rparr>))
           | (Inr None, s2) \<Rightarrow>
               let new_size = as_i64 (u64_add offset (length data));
                   (ino, d1) = insert_inode (new_row DEFAULT_FILE_MODE 1 0 0 new_size 0 now) (afs_db s2)
               in case insert_dentry name parent_ino ino d1 of
                    None \<Rightarrow> (Inl unique_violation, s2)
                  | Some d2 \<Rightarrow>
                      (case path_write_data (afs_chunk_size s2) now_m ino 0 True offset data d2 of
                         Inl e \<Rightarrow> (Inl e, s2)
                       | Inr d \<Rightarrow> (Inr (), s2\<lparr>afs_db := d\<rparr>))))"

text \<open>
  The three branches of the path-based \<open>truncate\<close> on the chunk rows. Extending pads the last
  chunk and inserts zero chunks, which fails when a row is already there.
\<close>

definition path_shrink :: "nat \<Rightarrow> i64 \<Rightarrow> u64 \<Rightarrow> ((i64 \<times> i64) \<times> byte list) list \<Rightarrow> ((i64 \<times> i64) \<times> byte list) list" where
  "path_shrink cs ino new_size tab =
     (let last_chunk_idx = as_i64 ((new_size - 1) div cs);
          tab1 = delete_rows (\<lambda>k. fst k = ino \<and> last_chunk_idx < snd k) tab;
          end_in_last_chunk = (new_size - 1) mod cs + 1
      in if end_in_last_chunk < cs then
           (case map_of tab1 (ino, last_chunk_idx) of
              Some chunk_data \<Rightarrow>
                if end_in_last_chunk < length chunk_data
                then update_row (ino, last_chunk_idx) (\<lambda>_. take end_in_last_chunk chunk_data) tab1 else tab1
            | None \<Rightarrow> tab1)
         else tab1)"

definition path_extend ::
  "nat \<Rightarrow> i64 \<Rightarrow> u64 \<Rightarrow> u64 \<Rightarrow> ((i64 \<times> i64) \<times> byte list) list \<Rightarrow> ((i64 \<times> i64) \<times> byte list) list option" where
  "path_extend cs ino current_size new_size tab =
     (let last_new_chunk = (new_size - 1) div cs;
          tab1 = (if current_size = 0 then tab
                  else let last_idx = (current_size - 1) div cs
                       in case map_of tab (ino, as_i64 last_idx) of
                            None \<Rightarrow> tab
                          | Some chunk_data \<Rightarrow>
                              let needed_len = (if last_idx = last_new_chunk then (new_size - 1) mod cs + 1 else cs)
                              in if length chunk_data < needed_len
                                 then update_row (ino, as_i64 last_idx) (\<lambda>_. resize needed_len 0 chunk_data) tab
                                 else tab);
          start_new_chunk = (if current_size = 0 then 0 else (current_size - 1) div cs + 1)
      in fold (\<lambda>chunk_idx t. Option.bind t (insert_row (ino, as_i64 chunk_idx)
                 (replicate (if chunk_idx = last_new_chunk then (new_size - 1) mod cs + 1 else cs) 0)))
           [start_new_chunk..<Suc last_new_chunk] (Some tab1))"

definition path_truncate ::
  "'c lru_ops \<Rightarrow> timestamp \<Rightarrow> string \<Rightarrow> u64 \<Rightarrow> 'c agentfs \<Rightarrow> unit result \<times> 'c agentfs" where
  "path_truncate L now path new_size s =
     (case resolve_path L (normalize_path path) s of
        (Inl e, s1) \<Rightarrow> (Inl e, s1)
      | (Inr None, s1) \<Rightarrow> (Inl (Fs NotFound), s1)
      | (Inr (Some ino), s1) \<Rightarrow>
          let d = afs_db s1; cs = afs_chunk_size s1; current_size = select_size d ino
          in if new_size \<noteq> 0 \<and> new_size \<noteq> current_size \<and> cs = 0
             then (Inl (Panic ''attempt to divide by zero''), s1)
             else case (if new_size = 0 then Some (delete_rows (\<lambda>k. fst k = ino) (fs_data d))
                        else if new_size < current_size then Some (path_shrink cs ino new_size (fs_data d))
                        else if current_size < new_size then path_extend cs ino current_size new_size (fs_data d)
                        else Some (fs_data d)) of
                    None \<Rightarrow> (Inl unique_violation, s1)
                  | Some t \<Rightarrow> (Inr (), s1\<lparr>afs_db := update_inode ino
                      (\<lambda>r. r\<lparr>r_size := as_i64 new_size, r_mtime := fst now, r_mtime_nsec := snd now\<rparr>)
                      (d\<lparr>fs_data := t\<rparr>)\<rparr>))"

section \<open>Removal and rename\<close>

definition remove :: "'c lru_ops \<Rightarrow> timestamp \<Rightarrow> string \<Rightarrow> 'c agentfs \<Rightarrow> unit result \<times> 'c agentfs" where
  "remove L now path s =
     (let p = normalize_path path; components = split_path p
      in if components = [] then (Inl (Fs RootOperation), s)
         else case resolve_path L p s of
           (Inl e, s1) \<Rightarrow> (Inl e, s1)
         | (Inr None, s1) \<Rightarrow> (Inl (Fs NotFound), s1)
         | (Inr (Some ino), s1) \<Rightarrow>
             if ino = ROOT_INO then (Inl (Fs RootOperation), s1)
             else case stat_with_conn L p s1 of
               (Inl e, s2) \<Rightarrow> (Inl e, s2)
             | (Inr None, s2) \<Rightarrow> (Inl (Fs NotFound), s2)
             | (Inr (Some st), s2) \<Rightarrow>
                 if 0 < count_children (afs_db s2) ino then (Inl (Fs NotEmpty), s2)
                 else case resolve_path L (parent_path components) s2 of
                   (Inl e, s3) \<Rightarrow> (Inl e, s3)
                 | (Inr None, s3) \<Rightarrow> (Inl (Fs NotFound), s3)
                 | (Inr (Some parent_ino), s3) \<Rightarrow>
                     let name = last components;
                         d1 = delete_dentry parent_ino name (afs_db s3);
                         s4 = invalidate_shared_dentry_caches L (dcache_remove L parent_ino name s3);
                         d2 = add_nlink (- 1) ino d1;
                         d3 = (if is_directory st then touch_parent now parent_ino (add_nlink (- 1) parent_ino d2)
                               else d2);
                         d4 = (if get_link_count d3 ino = 0 then purge_inode ino d3 else d3)
                     in (Inr (), s4\<lparr>afs_db := d4\<rparr>))"

text \<open>\<open>AgentFS::chown\<close>, which does not look for the inode and sets no time.\<close>

definition chown_inode :: "i64 \<Rightarrow> u32 option \<Rightarrow> u32 option \<Rightarrow> db \<Rightarrow> db" where
  "chown_inode ino uid gid d =
     (if uid = None \<and> gid = None then d
      else update_inode ino
        (\<lambda>r. let r1 = (case uid of Some u \<Rightarrow> r\<lparr>r_uid := u\<rparr> | None \<Rightarrow> r)
             in case gid of Some g \<Rightarrow> r1\<lparr>r_gid := g\<rparr> | None \<Rightarrow> r1) d)"

text \<open>The transaction of the path-based \<open>rename\<close>; its queries may fill the cache.\<close>

definition path_rename_replace ::
  "'c lru_ops \<Rightarrow> stats \<Rightarrow> string \<Rightarrow> i64 \<Rightarrow> string \<Rightarrow> 'c agentfs \<Rightarrow> db result \<times> 'c agentfs" where
  "path_rename_replace L src_stats to_path dst_parent_ino dst_name s =
     (case resolve_path L to_path s of
        (Inl e, s1) \<Rightarrow> (Inl e, s1)
      | (Inr None, s1) \<Rightarrow> (Inr (afs_db s1), s1)
      | (Inr (Some dst_ino), s1) \<Rightarrow>
          (case stat_with_conn L to_path s1 of
             (Inl e, s2) \<Rightarrow> (Inl e, s2)
           | (Inr None, s2) \<Rightarrow> (Inl (Fs NotFound), s2)
           | (Inr (Some dst_stats), s2) \<Rightarrow>
               if is_directory dst_stats \<and> \<not> is_directory src_stats then (Inl (Fs IsADirectory), s2)
               else if \<not> is_directory dst_stats \<and> is_directory src_stats then (Inl (Fs NotADirectory), s2)
               else if is_directory dst_stats \<and> 0 < count_children (afs_db s2) dst_ino then (Inl (Fs NotEmpty), s2)
               else let d1 = add_nlink (- 1) dst_ino (delete_dentry dst_parent_ino dst_name (afs_db s2))
                    in (Inr (if get_link_count d1 dst_ino = 0 then purge_inode dst_ino d1 else d1), s2)))"

definition rename :: "'c lru_ops \<Rightarrow> timestamp \<Rightarrow> string \<Rightarrow> string \<Rightarrow> 'c agentfs \<Rightarrow> unit result \<times> 'c agentfs" where
  "rename L now from to s =
     (let from_path = normalize_path from; to_path = normalize_path to
      in if from_path = ''/'' then (Inl (Fs RootOperation), s)
         else case resolve_path L from_path s of
           (Inl e, s1) \<Rightarrow> (Inl e, s1)
         | (Inr None, s1) \<Rightarrow> (Inl (Fs NotFound), s1)
         | (Inr (Some src_ino), s1) \<Rightarrow>
         (case stat_with_conn L from_path s1 of
           (Inl e, s2) \<Rightarrow> (Inl e, s2)
         | (Inr None, s2) \<Rightarrow> (Inl (Fs NotFound), s2)
         | (Inr (Some src_stats), s2) \<Rightarrow>
             if is_directory src_stats \<and> (starts_with (from_path @ ''/'') to_path \<or> to_path = from_path)
             then (Inl (Fs InvalidRename), s2)
             else if split_path from_path = [] then (Inl (Fs InvalidPath), s2)
             else case resolve_path L (parent_path (split_path from_path)) s2 of
               (Inl e, s3) \<Rightarrow> (Inl e, s3)
             | (Inr None, s3) \<Rightarrow> (Inl (Fs NotFound), s3)
             | (Inr (Some src_parent_ino), s3) \<Rightarrow>
             (case resolve_parent L to s3 of
               (Inl e, s4) \<Rightarrow> (Inl e, s4)
             | (Inr (dst_parent_ino, dst_name), s4) \<Rightarrow>
             (case path_rename_replace L src_stats to_path dst_parent_ino dst_name s4 of
               (Inl e, s5) \<Rightarrow> (Inl e, s5)
             | (Inr d1, s5) \<Rightarrow>
             (case rename_move now src_ino src_stats src_parent_ino (last (split_path from_path))
                     dst_parent_ino dst_name d1 of
                Inl e \<Rightarrow> (Inl e, s5)
              | Inr d2 \<Rightarrow>
                  (Inr (), dcache_insert L dst_parent_ino dst_name src_ino
                    (dcache_remove L dst_parent_ino dst_name
                      (dcache_remove L src_parent_ino (last (split_path from_path)) (s5\<lparr>afs_db := d2\<rparr>)))))))))"

end
