(* ===== verification/Fs_Path_Contract.thy ===== *)
theory Fs_Path_Contract
  imports Fs_Path_Ops
begin

unbundle bit_operations_syntax

text \<open>
  What the path-based methods do to file contents: writing and truncating by path have the
  same effect on the bytes of a file as the handle operations, although the chunk arithmetic is
  different; reading by path concatenates the stored chunks and is right exactly when the
  chunks cover the file without holes.
\<close>

section \<open>Writing by path\<close>

lemma map_of_path_write_chunk:
  "map_of (path_write_chunk cs ino offset data cur we idx tab) k =
    (if k = (ino, as_i64 idx) then Some (path_chunk cs offset data cur we idx (map_of tab (ino, as_i64 idx)))
     else map_of tab k)"
  by (auto simp: path_write_chunk_def map_add_def table_simps split: option.splits)

lemma keyed_path_write_chunk: "keyed tab \<Longrightarrow> keyed (path_write_chunk cs ino offset data cur we idx tab)"
  unfolding path_write_chunk_def by (intro keyed_snoc keyed_delete_rows) (simp_all add: table_simps)

lemma fold_path_write_chunk:
  assumes "keyed tab" and "b \<le> 2 ^ 63"
    and t_def: "t = fold (path_write_chunk cs ino offset data cur we) [a..<b] tab"
  shows "keyed t" and "map_of t (ino', k) = (if ino' = ino \<and> int a \<le> k \<and> k < int b
    then Some (path_chunk cs offset data cur we (nat k) (map_of tab (ino, k))) else map_of tab (ino', k))"
proof -
  have "keyed t \<and> (\<forall>ino' k. map_of t (ino', k) = (if ino' = ino \<and> int a \<le> k \<and> k < int b
    then Some (path_chunk cs offset data cur we (nat k) (map_of tab (ino, k))) else map_of tab (ino', k)))"
    using assms(2) unfolding t_def
  proof (induction b)
    case 0
    with assms(1) show ?case by auto
  next
    case (Suc b)
    show ?case
    proof (cases "a \<le> b")
      case True
      have "as_i64 b = int b" using Suc.prems by (simp add: as_i64_small)
      moreover have "k < int (Suc b) \<longleftrightarrow> k < int b \<or> k = int b" for k by auto
      ultimately show ?thesis
        using Suc True by (auto simp: keyed_path_write_chunk map_of_path_write_chunk)
    qed (use assms(1) in auto)
  qed
  then show "keyed t" and "map_of t (ino', k) = (if ino' = ino \<and> int a \<le> k \<and> k < int b
    then Some (path_chunk cs offset data cur we (nat k) (map_of tab (ino, k))) else map_of tab (ino', k))"
    by blast+
qed

text \<open>
  One chunk, with the bounds the code computes: the part \<open>ds\<close> to \<open>de\<close> of the chunk is taken from
  \<open>data\<close> from \<open>ss\<close> on, and the result is cut at \<open>al\<close>.
\<close>

lemma path_chunk_bounds:
  assumes cs: "0 < cs" and data: "data \<noteq> []"
    and idx: "offset div cs \<le> idx" "idx \<le> (offset + length data - 1) div cs"
  defines "st \<equiv> idx * cs" and "w \<equiv> offset + length data"
  shows "st < w" and "offset - st < min cs (w - st)" and "st - offset + (min cs (w - st) - (offset - st)) \<le> length data"
    and "idx = (w - 1) div cs \<Longrightarrow> w - st \<le> cs" and "idx \<noteq> (w - 1) div cs \<Longrightarrow> st + cs < w"
proof -
  have len: "0 < w" using data by (simp add: w_def)
  have "st \<le> (w - 1) div cs * cs" using idx(2) by (simp add: st_def w_def)
  also have "\<dots> \<le> w - 1" by simp
  finally show st: "st < w" using len by linarith
  have "offset div cs * cs \<le> st" using idx(1) by (simp add: st_def)
  moreover have "offset = offset div cs * cs + offset mod cs" "offset mod cs < cs" using cs by simp_all
  ultimately have "offset < st + cs" by linarith
  moreover have "offset < w" using data by (simp add: w_def)
  ultimately show "offset - st < min cs (w - st)" using st cs by auto
  show "st - offset + (min cs (w - st) - (offset - st)) \<le> length data"
    using st by (cases "offset \<le> st") (auto simp: w_def min_def)
  show "w - st \<le> cs" if "idx = (w - 1) div cs"
  proof -
    have "w - 1 = st + (w - 1) mod cs" "(w - 1) mod cs < cs" using that cs by (simp_all add: st_def)
    then show ?thesis by linarith
  qed
  show "st + cs < w" if "idx \<noteq> (w - 1) div cs"
  proof -
    have "Suc idx \<le> (w - 1) div cs" using that idx(2) by (simp add: w_def)
    then have "Suc idx * cs \<le> (w - 1) div cs * cs" by (rule mult_le_mono1)
    also have "\<dots> \<le> w - 1" by simp
    finally show ?thesis using len by (simp add: st_def)
  qed
qed

definition chunk_cut :: "nat \<Rightarrow> nat \<Rightarrow> nat \<Rightarrow> nat \<Rightarrow> nat" where
  "chunk_cut cs cur w idx = (if idx = (w - 1) div cs
     then max (w - idx * cs) (if idx * cs < cur then min (cur - idx * cs) cs else 0) else cs)"

lemma path_chunk_eq:
  assumes cs: "0 < cs" and data: "data \<noteq> []" and bound: "offset + length data < 2 ^ 63"
    and idx: "offset div cs \<le> idx" "idx \<le> (offset + length data - 1) div cs"
  defines "st \<equiv> idx * cs" and "w \<equiv> offset + length data"
  shows "path_chunk cs offset data cur w idx stored = take (chunk_cut cs cur w idx)
    (copy_from_slice (offset - st) (take (min cs (w - st) - (offset - st)) (drop (st - offset) data))
      (resize cs 0 (case stored of None \<Rightarrow> [] | Some b \<Rightarrow> b)))"
proof -
  note b = path_chunk_bounds [OF cs data idx, folded st_def w_def]
  define ds de ss where "ds = offset - st" and "de = min cs (w - st)" and "ss = st - offset"
  define src where "src = take (de - ds) (drop ss data)"
  have sub: "u64_sub w st = w - st" "u64_sub w 1 = w - 1"
    using b(1) bound data by (simp_all add: u64_sub_le w_def)
  have se: "min (length data) (ss + (de - ds)) - ss = de - ds" using b(3) by (simp add: ss_def de_def ds_def)
  have same: "copy_from_slice ds src x = copy_from_slice ds src y"
    if "\<not> (0 < ds \<or> de < cs)" "length x = cs" "length y = cs" for x y :: "byte list"
  proof -
    have "ds = 0" "de = cs" using that(1) by (auto simp: de_def)
    moreover have "length src = cs" using b(3) calculation by (simp add: src_def ss_def ds_def de_def)
    ultimately show ?thesis using that(2,3) by (simp add: copy_from_slice_def)
  qed
  have "copy_from_slice ds src (if 0 < ds \<or> de < cs
        then (case stored of Some b \<Rightarrow> resize cs 0 b | None \<Rightarrow> replicate cs 0) else replicate cs 0) =
      copy_from_slice ds src (resize cs 0 (case stored of None \<Rightarrow> [] | Some b \<Rightarrow> b))"
  proof (cases "0 < ds \<or> de < cs")
    case True
    then show ?thesis by (simp add: resize_def split: option.splits)
  next
    case False
    then show ?thesis by (simp only: if_False) (rule same, simp_all)
  qed
  moreover have "(if st < offset then offset - st else 0) = ds" "(if offset < st then st - offset else 0) = ss"
    by (auto simp: ds_def ss_def)
  ultimately show ?thesis
    unfolding path_chunk_def Let_def w_def [symmetric] st_def [symmetric] sub
    by (simp only: de_def [symmetric] se src_def [symmetric] chunk_cut_def st_def [symmetric] ds_def [symmetric]
        ss_def [symmetric])
qed

lemma path_chunk_length:
  assumes cs: "0 < cs" and data: "data \<noteq> []" and bound: "offset + length data < 2 ^ 63"
    and idx: "offset div cs \<le> idx" "idx \<le> (offset + length data - 1) div cs"
    and c_def: "c = path_chunk cs offset data cur (offset + length data) idx stored"
  shows "length c = chunk_cut cs cur (offset + length data) idx" and "length c \<le> cs"
    and "idx * cs + length c \<le> max cur (offset + length data)"
proof -
  let ?w = "offset + length data"
  note b = path_chunk_bounds [OF cs data idx]
  have al: "chunk_cut cs cur ?w idx \<le> cs" using b(4) by (auto simp: chunk_cut_def)
  define src where "src = take (min cs (?w - idx * cs) - (offset - idx * cs)) (drop (idx * cs - offset) data)"
  have "length src = min cs (?w - idx * cs) - (offset - idx * cs)"
    using b(3) unfolding src_def length_take length_drop by arith
  with b(2) have "offset - idx * cs + length src \<le> cs" by simp
  then show len: "length c = chunk_cut cs cur ?w idx"
    using al unfolding c_def path_chunk_eq [OF cs data bound idx] src_def [symmetric]
    by (simp add: length_copy_from_slice)
  with al show "length c \<le> cs" by simp
  show "idx * cs + length c \<le> max cur ?w"
  proof (cases "idx = (?w - 1) div cs")
    case True
    then have "chunk_cut cs cur ?w idx = max (?w - idx * cs) (if idx * cs < cur then min (cur - idx * cs) cs else 0)"
      by (simp add: chunk_cut_def)
    with b(1) show ?thesis unfolding len by (simp split: if_splits)
  next
    case False
    with b(5) show ?thesis unfolding len by (simp add: chunk_cut_def)
  qed
qed

lemma path_chunk_byte:
  assumes cs: "0 < cs" and data: "data \<noteq> []" and bound: "offset + length data < 2 ^ 63"
    and idx: "offset div cs \<le> idx" "idx \<le> (offset + length data - 1) div cs"
    and stored: "\<And>b. stored = Some b \<Longrightarrow> idx * cs + length b \<le> cur" and j: "j < cs"
  shows "nth_default 0 (path_chunk cs offset data cur (offset + length data) idx stored) j =
    (if offset \<le> idx * cs + j \<and> idx * cs + j < offset + length data then data ! (idx * cs + j - offset)
     else nth_default 0 (case stored of None \<Rightarrow> [] | Some b \<Rightarrow> b) j)"
proof -
  define w st old where "w = offset + length data" and "st = idx * cs" and "old = (case stored of None \<Rightarrow> [] | Some b \<Rightarrow> b)"
  define ds de ss where "ds = offset - st" and "de = min cs (w - st)" and "ss = st - offset"
  note b = path_chunk_bounds [OF cs data idx, folded st_def w_def, folded de_def ds_def ss_def]
  have old: "old = [] \<or> st + length old \<le> cur" using stored by (auto simp: old_def st_def split: option.splits)
  have byte: "nth_default 0 (copy_from_slice ds (take (de - ds) (drop ss data)) (resize cs 0 old)) j =
      (if ds \<le> j \<and> j < de then data ! (ss + (j - ds)) else nth_default 0 old j)"
  proof -
    have len: "length (take (de - ds) (drop ss data)) = de - ds" using b(3) by simp
    with b(2) j have "nth_default 0 (copy_from_slice ds (take (de - ds) (drop ss data)) (resize cs 0 old)) j =
        (if ds \<le> j \<and> j < de then take (de - ds) (drop ss data) ! (j - ds) else nth_default 0 (resize cs 0 old) j)"
      by (subst nth_default_copy_from_slice) (auto simp: de_def)
    with b(2,3) j show ?thesis by (auto simp: nth_default_resize)
  qed
  have rng: "ds \<le> j \<and> j < de \<longleftrightarrow> offset \<le> st + j \<and> st + j < w"
    using j b(1) by (auto simp: ds_def de_def)
  have pos: "ss + (j - ds) = st + j - offset" if "offset \<le> st + j" using that by (auto simp: ss_def ds_def)
  have cut: "nth_default 0 old j = 0 \<and> \<not> st + j < w" if "\<not> j < chunk_cut cs cur w idx"
  proof -
    have "w - st \<le> j" "st < cur \<Longrightarrow> cur - st \<le> j"
      using that j unfolding chunk_cut_def st_def [symmetric] by (cases "idx = (w - 1) div cs"; simp; arith)+
    moreover have "length old \<le> j"
    proof (cases "old = []")
      case False
      then have "0 < length old" "st + length old \<le> cur" using old by auto
      then have "st < cur" by linarith
      with calculation(2) \<open>st + length old \<le> cur\<close> show ?thesis by linarith
    qed simp
    ultimately show ?thesis by (simp add: nth_default_beyond)
  qed
  show ?thesis
    unfolding path_chunk_eq [OF cs data bound idx] nth_default_take
    unfolding w_def [symmetric] st_def [symmetric] old_def [symmetric] ds_def [symmetric] de_def [symmetric]
      ss_def [symmetric] byte
    using cut rng pos by (cases "j < chunk_cut cs cur w idx") auto
qed

text \<open>The whole loop, on the rows of a file.\<close>

lemma path_write_rows:
  assumes cs: "0 < cs" and data: "data \<noteq> []" and bound: "offset + length data < 2 ^ 63"
    and within: "chunks_within cs ino cur tab" and key: "keyed tab"
    and t_def: "t = fold (path_write_chunk cs ino offset data cur (offset + length data))
      [offset div cs..<Suc ((offset + length data - 1) div cs)] tab"
  shows "keyed t" and "chunks_within cs ino (max cur (offset + length data)) t"
    and "byte_at cs t ino i = (if offset \<le> i \<and> i < offset + length data then data ! (i - offset) else byte_at cs tab ino i)"
    and "ino' \<noteq> ino \<Longrightarrow> map_of t (ino', k) = map_of tab (ino', k)"
proof -
  let ?w = "offset + length data" and ?a = "offset div cs" and ?e = "(offset + length data - 1) div cs"
  have "?e \<le> ?w - 1" by (rule div_le_dividend)
  then have "?e < 2 ^ 63" using bound by linarith
  then have "Suc ?e \<le> 2 ^ 63" by (rule Suc_leI)
  note rows = fold_path_write_chunk [OF key this t_def]
  show "keyed t" by (rule rows(1))
  show "ino' \<noteq> ino \<Longrightarrow> map_of t (ino', k) = map_of tab (ino', k)" by (simp add: rows(2))
  have stored: "map_of tab (ino, int idx) = Some b \<Longrightarrow> idx * cs + length b \<le> cur" for idx b
    using within by (fastforce simp: chunks_within_def)
  show "chunks_within cs ino (max cur ?w) t"
    unfolding chunks_within_def
  proof (intro allI impI)
    fix k b assume b: "map_of t (ino, k) = Some b"
    show "0 \<le> k \<and> length b \<le> cs \<and> nat k * cs + length b \<le> max cur ?w"
    proof (cases "int ?a \<le> k \<and> k < int (Suc ?e)")
      case True
      then have idx: "?a \<le> nat k" "nat k \<le> ?e" "0 \<le> k" by auto
      from True b have "b = path_chunk cs offset data cur ?w (nat k) (map_of tab (ino, k))"
        by (simp add: rows(2))
      from path_chunk_length [OF cs data bound idx(1,2) this] idx(3) show ?thesis by simp
    next
      case False
      then have "map_of t (ino, k) = map_of tab (ino, k)" by (auto simp: rows(2))
      with b chunks_within_mono [OF within, of "max cur ?w"] show ?thesis by (simp add: chunks_within_def)
    qed
  qed
  show "byte_at cs t ino i = (if offset \<le> i \<and> i < ?w then data ! (i - offset) else byte_at cs tab ino i)"
  proof (cases "?a \<le> i div cs \<and> i div cs \<le> ?e")
    case True
    then have "map_of t (ino, int (i div cs)) =
        Some (path_chunk cs offset data cur ?w (i div cs) (map_of tab (ino, int (i div cs))))"
      by (simp add: rows(2))
    moreover have "i div cs * cs + i mod cs = i" by simp
    moreover have "nth_default 0 (path_chunk cs offset data cur ?w (i div cs) (map_of tab (ino, int (i div cs)))) (i mod cs) =
      (if offset \<le> i div cs * cs + i mod cs \<and> i div cs * cs + i mod cs < ?w then data ! (i div cs * cs + i mod cs - offset)
       else nth_default 0 (case map_of tab (ino, int (i div cs)) of None \<Rightarrow> [] | Some b \<Rightarrow> b) (i mod cs))"
      by (rule path_chunk_byte [OF cs data bound]) (use True stored cs in auto)
    ultimately show ?thesis by (simp add: byte_at_def split: option.splits)
  next
    case False
    then have "map_of t (ino, int (i div cs)) = map_of tab (ino, int (i div cs))" by (auto simp: rows(2))
    moreover have "\<not> (offset \<le> i \<and> i < ?w)"
      using False div_le_mono [of offset i cs] div_le_mono [of i "?w - 1" cs] by linarith
    ultimately show ?thesis by (auto simp: byte_at_def)
  qed
qed

text \<open>
  An update of the rows and the size of a file that changes the bytes of one range is a write
  to its content.
\<close>

lemma written_content:
  assumes inv: "file_inv f d" and data: "data \<noteq> []" and bound: "offset + length data < 2 ^ 63"
    and key: "keyed t" and within: "chunks_within (f_chunk_size f) (f_ino f) (max (select_size d (f_ino f)) (offset + length data)) t"
    and bytes: "\<And>i. byte_at (f_chunk_size f) t (f_ino f) i = (if offset \<le> i \<and> i < offset + length data
      then data ! (i - offset) else byte_at (f_chunk_size f) (fs_data d) (f_ino f) i)"
    and size: "select_size d' (f_ino f) = max (select_size d (f_ino f)) (offset + length data)"
    and "fs_data d' = t" and "select_inode d' (f_ino f) \<noteq> None"
  shows "file_inv f d'" and "content (f_chunk_size f) (f_ino f) d' = af_write offset data (content (f_chunk_size f) (f_ino f) d)"
proof -
  from inv have "0 < f_chunk_size f" "select_size d (f_ino f) < 2 ^ 63" by (auto simp: file_inv_iff)
  with assms show "file_inv f d'" by (simp add: file_inv_iff)
  show "content (f_chunk_size f) (f_ino f) d' = af_write offset data (content (f_chunk_size f) (f_ino f) d)"
  proof (rule list_eq_nth_defaultI [where x = 0])
    fix i assume "i < length (content (f_chunk_size f) (f_ino f) d')"
    then show "nth_default 0 (content (f_chunk_size f) (f_ino f) d') i =
        nth_default 0 (af_write offset data (content (f_chunk_size f) (f_ino f) d)) i"
      using byte_at_beyond [OF inv, of i] data
      by (auto simp: nth_default_content nth_default_af_write size assms(8) bytes)
  qed (use data in \<open>simp add: size length_af_write\<close>)
qed

lemma path_write_data_eq:
  assumes "data \<noteq> []" and "0 < cs" and "offset + length data < 2 ^ 63"
    and "t = fold (path_write_chunk cs ino offset data cur (offset + length data))
      [offset div cs..<Suc ((offset + length data - 1) div cs)] (fs_data d)"
  shows "path_write_data cs now ino cur is_new offset data d = Inr (if is_new then d\<lparr>fs_data := t\<rparr>
    else update_inode ino (\<lambda>r. r\<lparr>r_size := as_i64 (max cur (offset + length data)), r_mtime := fst now,
      r_mtime_nsec := snd now\<rparr>) (d\<lparr>fs_data := t\<rparr>))"
proof -
  have "u64_add offset (length data) = offset + length data" "u64_sub (offset + length data) 1 = offset + length data - 1"
    using assms(1,3) by (simp_all add: u64_add_small u64_sub_le Suc_leI)
  then show ?thesis using assms(1,2,4) unfolding path_write_data_def Let_def by simp
qed

lemma path_write_data_existing:
  assumes inv: "file_inv f d" and bound: "offset + length data < 2 ^ 63"
  obtains d' where "path_write_data (f_chunk_size f) now (f_ino f) (select_size d (f_ino f)) False offset data d = Inr d'"
    and "file_inv f d'" and "content (f_chunk_size f) (f_ino f) d' = af_write offset data (content (f_chunk_size f) (f_ino f) d)"
proof (cases "data = []")
  case True
  let ?d' = "update_inode (f_ino f) (\<lambda>r. r\<lparr>r_mtime := fst now, r_mtime_nsec := snd now\<rparr>) d"
  have "select_size ?d' (f_ino f) = select_size d (f_ino f)"
    by (auto simp: table_simps select_size_def split: option.splits)
  with inv that [of ?d'] True show thesis
    by (simp add: path_write_data_def file_inv_iff table_simps content_def af_write_def)
next
  case False
  let ?cs = "f_chunk_size f" and ?ino = "f_ino f" and ?size = "select_size d (f_ino f)" and ?w = "offset + length data"
  from inv have cs: "0 < ?cs" and key: "keyed (fs_data d)" and ex: "select_inode d ?ino \<noteq> None"
    and size: "?size < 2 ^ 63" and within: "chunks_within ?cs ?ino ?size (fs_data d)"
    by (auto simp: file_inv_iff)
  define t where "t = fold (path_write_chunk ?cs ?ino offset data ?size ?w) [offset div ?cs..<Suc ((?w - 1) div ?cs)] (fs_data d)"
  define d' where "d' = update_inode ?ino (\<lambda>r. r\<lparr>r_size := as_i64 (max ?size ?w), r_mtime := fst now,
    r_mtime_nsec := snd now\<rparr>) (d\<lparr>fs_data := t\<rparr>)"
  have res: "path_write_data ?cs now ?ino ?size False offset data d = Inr d'"
    unfolding d'_def using path_write_data_eq [OF False cs bound t_def] by simp
  note rows = path_write_rows [OF cs False bound within key t_def]
  have "select_size d' ?ino = max ?size ?w" "select_inode d' ?ino \<noteq> None" "fs_data d' = t"
    using ex size bound by (auto simp: d'_def table_simps as_u64_as_i64)
  then have "file_inv f d' \<and> content ?cs ?ino d' = af_write offset data (content ?cs ?ino d)"
    using written_content [OF inv False bound rows(1-3)] by blast
  with res that show thesis by blast
qed

end
