(* ===== verification/Fs_Dense.thy ===== *)
theory Fs_Dense
  imports Fs_Path_Contract
begin

text \<open>
  Reading by path. \<open>read_file\<close> and the path-based \<open>pread\<close> put the stored chunks one after the
  other. That is the file when its chunks tile it: every chunk up to the size is stored, full
  except the last. Writing at or before the end and truncating by path keep files tiled.
\<close>

section \<open>Tiled files\<close>

definition tiles :: "nat \<Rightarrow> i64 \<Rightarrow> nat \<Rightarrow> ((i64 \<times> i64) \<times> byte list) list \<Rightarrow> bool" where
  "tiles cs ino sz tab \<longleftrightarrow> (\<forall>k. map_option length (map_of tab (ino, k)) =
     (if 0 \<le> k \<and> nat k * cs < sz then Some (min cs (sz - nat k * cs)) else None))"

definition dense :: "agentfs_file \<Rightarrow> db \<Rightarrow> bool" where
  "dense f d \<longleftrightarrow> 0 < f_chunk_size f \<and> keyed (fs_data d) \<and> select_inode d (f_ino f) \<noteq> None \<and>
     select_size d (f_ino f) < 2 ^ 63 \<and> tiles (f_chunk_size f) (f_ino f) (select_size d (f_ino f)) (fs_data d)"

lemma tiles_within: "tiles cs ino sz tab \<Longrightarrow> chunks_within cs ino sz tab"
  unfolding tiles_def chunks_within_def
proof (intro allI impI)
  fix k b assume t: "\<forall>k. map_option length (map_of tab (ino, k)) =
     (if 0 \<le> k \<and> nat k * cs < sz then Some (min cs (sz - nat k * cs)) else None)" and b: "map_of tab (ino, k) = Some b"
  from t [rule_format, of k] b show "0 \<le> k \<and> length b \<le> cs \<and> nat k * cs + length b \<le> sz"
    by (auto split: if_splits)
qed

lemma dense_inv: "dense f d \<Longrightarrow> file_inv f d"
  using tiles_within by (auto simp: dense_def file_inv_iff)

lemma tilesD:
  assumes "tiles cs ino sz tab" and "k * cs < sz"
  obtains b where "map_of tab (ino, int k) = Some b" and "length b = min cs (sz - k * cs)"
  using assms unfolding tiles_def by (auto dest!: spec [of _ "int k"])

lemma tiles_none: "tiles cs ino sz tab \<Longrightarrow> sz \<le> nat k * cs \<Longrightarrow> map_of tab (ino, k) = None"
  unfolding tiles_def by (drule spec [of _ k]) simp

section \<open>The rows of a tiled file\<close>

text \<open>The number of chunks of a file.\<close>

definition chunk_count :: "nat \<Rightarrow> nat \<Rightarrow> nat" where
  "chunk_count cs sz = (sz + cs - 1) div cs"

lemma chunk_count_iff: "0 < cs \<Longrightarrow> k < chunk_count cs sz \<longleftrightarrow> k * cs < sz"
proof -
  assume cs: "0 < cs"
  have "k < chunk_count cs sz \<longleftrightarrow> Suc k * cs \<le> sz + cs - 1"
    unfolding chunk_count_def Suc_le_eq [symmetric] using cs by (simp add: less_eq_div_iff_mult_less_eq)
  also have "\<dots> \<longleftrightarrow> k * cs < sz" using cs by auto
  finally show ?thesis .
qed

lemma sorted_rows_unique:
  fixes rows :: "(i64 \<times> 'a) list"
  assumes "sorted_wrt (<) (map fst rows)" and "\<And>k. map_of rows k = (if lo \<le> k \<and> k < hi then Some (g k) else None)"
  shows "rows = map (\<lambda>k. (k, g k)) [lo..hi - 1]"
proof -
  have dist: "distinct (map fst rows)" and srt: "sorted (map fst rows)"
    using assms(1) by (simp_all add: strict_sorted_iff)
  have "fst ` set rows = dom (map_of rows)" by (simp add: dom_map_of_conv_image_fst)
  also have "\<dots> = {lo..hi - 1}" using assms(2) by (auto simp: dom_def split: if_splits)
  finally have keys: "set (map fst rows) = set [lo..hi - 1]" by simp
  have eq: "map fst rows = [lo..hi - 1]"
    by (rule sorted_distinct_set_unique [OF srt dist _ _ keys]) simp_all
  have "snd r = g (fst r)" if "r \<in> set rows" for r
    using that assms(2) [of "fst r"] map_of_is_SomeI [OF dist, of "fst r" "snd r"] by (auto split: if_splits)
  then have "rows = map (\<lambda>k. (k, g k)) (map fst rows)" by (simp add: map_idI prod_eq_iff cong: map_cong)
  then show ?thesis unfolding eq .
qed

lemma upto_int_upt: "[int a..int b - 1] = map int [a..<b]"
proof (induction b)
  case (Suc b)
  show ?case
  proof (cases "a \<le> b")
    case True
    then have "[int a..int (Suc b) - 1] = [int a..int b - 1] @ [int b]"
      using upto_rec2 [of "int a" "int b"] by simp
    with Suc True show ?thesis by simp
  qed simp
qed simp

text \<open>The rows of a range are the chunks of that range that lie inside the file.\<close>

lemma select_tiled:
  assumes d: "dense f d" and lo: "lo \<le> hi"
  defines "cs \<equiv> f_chunk_size f" and "n \<equiv> min (Suc hi) (chunk_count (f_chunk_size f) (select_size d (f_ino f)))"
  shows "map snd (select_chunks d (f_ino f) (int lo) (int hi)) =
    map (\<lambda>k. the (map_of (fs_data d) (f_ino f, int k))) [lo..<n]"
proof -
  let ?ino = "f_ino f" and ?rows = "select_chunks d (f_ino f) (int lo) (int hi)"
  from d have key: "keyed (fs_data d)" and cs: "0 < cs" and t: "tiles cs ?ino (select_size d ?ino) (fs_data d)"
    by (auto simp: dense_def cs_def)
  have "map_of ?rows k = (if int lo \<le> k \<and> k < int n then Some (the (map_of (fs_data d) (?ino, k))) else None)" for k
  proof (cases "int lo \<le> k \<and> k \<le> int hi")
    case True
    then have k: "0 \<le> k" by linarith
    show ?thesis
    proof (cases "nat k * cs < select_size d ?ino")
      case in_file: True
      from tilesD [OF t in_file] k obtain b where "map_of (fs_data d) (?ino, k) = Some b" by auto
      moreover have "nat k < n" using in_file True k cs by (simp add: n_def chunk_count_iff cs_def [symmetric] nat_less_iff)
      ultimately show ?thesis using True k by (simp add: map_of_select_chunks [OF key] nat_less_iff)
    next
      case False
      then have "\<not> nat k < n" using cs by (simp add: n_def chunk_count_iff cs_def [symmetric])
      with False k True tiles_none [OF t, of k] show ?thesis
        by (auto simp: map_of_select_chunks [OF key] nat_less_iff)
    qed
  qed (auto simp: map_of_select_chunks [OF key] n_def)
  from sorted_rows_unique [OF select_chunks_sorted [OF key] this] show ?thesis
    by (simp add: upto_int_upt)
qed

text \<open>The chunks up to \<open>m\<close> are the bytes up to where chunk \<open>m\<close> starts or the file ends.\<close>

lemma chunk_bytes:
  assumes t: "tiles cs ino sz tab" and cs: "0 < cs" and k: "k * cs < sz"
  shows "the (map_of tab (ino, int k)) = map (byte_at cs tab ino) [k * cs..<min sz (Suc k * cs)]"
proof -
  obtain b where b: "map_of tab (ino, int k) = Some b" "length b = min cs (sz - k * cs)"
    using tilesD [OF t k] .
  have "byte_at cs tab ino (k * cs + j) = b ! j" if "j < length b" for j
  proof -
    have "j < cs" using that b(2) by simp
    then have "(k * cs + j) div cs = k" "(k * cs + j) mod cs = j" by simp_all
    with b(1) that show ?thesis by (simp add: byte_at_def nth_default_def)
  qed
  moreover have "min sz (Suc k * cs) = k * cs + length b" using b(2) k by auto
  ultimately show ?thesis
    using b(1) by (auto intro!: nth_equalityI)
qed

lemma concat_chunks:
  assumes t: "tiles cs ino sz tab" and cs: "0 < cs" and "m \<le> chunk_count cs sz"
  shows "concat (map (\<lambda>k. the (map_of tab (ino, int k))) [0..<m]) = map (byte_at cs tab ino) [0..<min sz (m * cs)]"
  using assms(3)
proof (induction m)
  case (Suc m)
  then have "m * cs < sz" using cs by (simp add: chunk_count_iff [symmetric])
  then have "[0..<min sz (Suc m * cs)] = [0..<m * cs] @ [m * cs..<min sz (Suc m * cs)]"
    using upt_add_eq_append [of 0 "m * cs" "min sz (Suc m * cs) - m * cs"] by simp
  with Suc chunk_bytes [OF t cs \<open>m * cs < sz\<close>] \<open>m * cs < sz\<close> show ?case by (simp add: min_absorb2)
qed simp

section \<open>Reading by path\<close>

lemma all_chunks_select:
  assumes d: "dense f d"
  shows "all_chunks d (f_ino f) = select_chunks d (f_ino f) 0 (int (select_size d (f_ino f)))"
proof -
  let ?ino = "f_ino f" and ?sz = "select_size d (f_ino f)"
  from d have key: "keyed (fs_data d)" and cs: "0 < f_chunk_size f" and t: "tiles (f_chunk_size f) ?ino ?sz (fs_data d)"
    by (auto simp: dense_def)
  have "0 \<le> k \<and> k \<le> int ?sz" if "((?ino, k), b) \<in> set (fs_data d)" for k b
  proof -
    have "map_of (fs_data d) (?ino, k) \<noteq> None" using weak_map_of_SomeI [OF that] by auto
    with tiles_within [OF t] have "0 \<le> k" by (auto simp: chunks_within_def)
    moreover have "nat k * f_chunk_size f < ?sz"
      using \<open>map_of (fs_data d) (?ino, k) \<noteq> None\<close> tiles_none [OF t, of k] by force
    then have "nat k \<le> ?sz" using cs by (metis less_imp_le mult_le_mono2 nat_mult_1_right order_trans Suc_leI One_nat_def)
    ultimately show ?thesis by simp
  qed
  then have "filter (\<lambda>r. fst (fst r) = ?ino) (fs_data d) =
      filter (\<lambda>r. fst (fst r) = ?ino \<and> 0 \<le> snd (fst r) \<and> snd (fst r) \<le> int ?sz) (fs_data d)"
    by (intro filter_cong refl) (metis prod.collapse)
  then show ?thesis by (simp add: all_chunks_def select_chunks_def)
qed

lemma dense_read_all:
  assumes d: "dense f d"
  shows "concat (map snd (all_chunks d (f_ino f))) = content (f_chunk_size f) (f_ino f) d"
proof -
  let ?ino = "f_ino f" and ?sz = "select_size d (f_ino f)" and ?cs = "f_chunk_size f"
  from d have cs: "0 < ?cs" and t: "tiles ?cs ?ino ?sz (fs_data d)" by (auto simp: dense_def)
  have count: "chunk_count ?cs ?sz \<le> Suc ?sz"
    using chunk_count_iff [OF cs, of ?sz ?sz] cs by (simp add: not_less)
  have full: "?sz \<le> chunk_count ?cs ?sz * ?cs"
    using chunk_count_iff [OF cs, of "chunk_count ?cs ?sz" ?sz] by simp
  have "map snd (all_chunks d ?ino) = map (\<lambda>k. the (map_of (fs_data d) (?ino, int k))) [0..<chunk_count ?cs ?sz]"
    using select_tiled [OF d, of 0 ?sz] count by (simp add: all_chunks_select [OF d] min_absorb2)
  with concat_chunks [OF t cs order_refl] full show ?thesis
    by (simp add: content_def min_absorb1)
qed

text \<open>The loop of the path-based \<open>pread\<close> over the chunks from \<open>m\<close> on.\<close>

lemma path_pread_rows_tiled:
  assumes t: "tiles cs ino fsz tab" and cs: "0 < cs" and "offset div cs \<le> m" and "n \<le> chunk_count cs fsz"
  shows "path_pread_rows sz (offset mod cs) (map (\<lambda>k. (int k, the (map_of tab (ino, int k)))) [m..<n])
      (take sz (drop offset (map (byte_at cs tab ino) [0..<min fsz (m * cs)]))) =
    (if m \<le> n then take sz (drop offset (map (byte_at cs tab ino) [0..<min fsz (n * cs)]))
     else take sz (drop offset (map (byte_at cs tab ino) [0..<min fsz (m * cs)])))"
  using assms(3)
proof (induction "n - m" arbitrary: m)
  case 0
  then show ?case by (cases "m = n") auto
next
  case (Suc x)
  define P where "P k = map (byte_at cs tab ino) [0..<min fsz (k * cs)]" for k
  from Suc.hyps(2) have mn: "m < n" by simp
  then have ms: "m * cs < fsz" using assms(4) chunk_count_iff [OF cs, of m fsz] by simp
  define c where "c = the (map_of tab (ino, int m))"
  have c: "c = map (byte_at cs tab ino) [m * cs..<min fsz (Suc m * cs)]"
    unfolding c_def by (rule chunk_bytes [OF t cs ms])
  have len: "length c = min fsz (Suc m * cs) - m * cs" "0 < length c" using c ms cs by auto
  have P: "P (Suc m) = P m @ c" "length (P m) = m * cs"
    using ms upt_add_eq_append [of 0 "m * cs" "min fsz (Suc m * cs) - m * cs"]
    by (simp_all add: P_def c min_absorb2)
  define res where "res = take sz (drop offset (P m))"
  let ?skip = "if res = [] then offset mod cs else 0"
  have step: "take sz (drop offset (P (Suc m))) =
      (if length c \<le> ?skip then res else res @ take (min (length c - ?skip) (sz - length res)) (drop ?skip c))"
  proof (cases "offset div cs = m")
    case True
    then have off: "offset = m * cs + offset mod cs" using div_mult_mod_eq [of offset cs] by simp
    then have "m * cs \<le> offset" by linarith
    then have r: "res = []" "drop offset (P m) = []" by (simp_all add: res_def P(2))
    have "drop offset (P (Suc m)) = drop (offset mod cs) c"
      using r(2) off P(2) by (simp add: P(1)) (metis add_diff_cancel_left')
    then show ?thesis using r(1) by (auto simp: min_def take_all_iff)
  next
    case False
    with Suc.prems have "Suc (offset div cs) \<le> m" by simp
    then have "Suc (offset div cs) * cs \<le> m * cs" by (rule mult_le_mono1)
    moreover have "offset < Suc (offset div cs) * cs" using cs by (simp add: dividend_less_div_times)
    ultimately have off: "offset < m * cs" by linarith
    then have "drop offset (P (Suc m)) = drop offset (P m) @ c" by (simp add: P)
    moreover have "res = [] \<longleftrightarrow> sz = 0" using off by (simp add: res_def P(2))
    moreover have "length res = min sz (m * cs - offset)" using off by (simp add: res_def P(2))
    ultimately show ?thesis using len(2) by (auto simp: res_def P(2) min_def)
  qed
  have "path_pread_rows sz (offset mod cs) (map (\<lambda>k. (int k, the (map_of tab (ino, int k)))) [m..<n]) res =
      path_pread_rows sz (offset mod cs) (map (\<lambda>k. (int k, the (map_of tab (ino, int k)))) [Suc m..<n])
        (take sz (drop offset (P (Suc m))))"
    using mn by (simp add: upt_conv_Cons c_def [symmetric] step Let_def)
  also have "\<dots> = take sz (drop offset (P n))"
    using Suc.hyps(1) [of "Suc m"] Suc.hyps(2) Suc.prems mn by (simp add: P_def)
  finally show ?case using mn by (simp add: res_def P_def)
qed

lemma path_pread_rows_snd:
  "map snd rows = map snd rows' \<Longrightarrow> path_pread_rows sz so rows res = path_pread_rows sz so rows' res"
proof (induction rows arbitrary: rows' res)
  case (Cons r rows)
  then obtain r' rs where "rows' = r' # rs" "snd r' = snd r" "map snd rows = map snd rs" by (cases rows') auto
  with Cons.IH show ?case by (simp add: Let_def)
qed simp

lemma dense_path_pread:
  assumes d: "dense f d" and bound: "offset + sz < 2 ^ 63"
  defines "cs \<equiv> f_chunk_size f" and "ino \<equiv> f_ino f"
  shows "path_pread_rows sz (offset mod cs) (select_chunks d ino (int (offset div cs)) (int ((offset + sz - 1) div cs))) [] =
    take sz (drop offset (content cs ino d))"
proof -
  let ?a = "offset div cs" and ?e = "(offset + sz - 1) div cs" and ?size = "select_size d ino"
  define P where "P k = map (byte_at cs (fs_data d) ino) [0..<min ?size (k * cs)]" for k
  from d have cs: "0 < cs" and t: "tiles cs ino ?size (fs_data d)" by (auto simp: dense_def cs_def ino_def)
  have start: "take sz (drop offset (P ?a)) = []"
    using div_times_less_eq_dividend [of offset cs] by (simp add: P_def min.coboundedI2)
  have P: "P k = take (k * cs) (content cs ino d)" for k
    by (simp add: P_def content_def take_map min_def)
  show ?thesis
  proof (cases "?a \<le> ?e")
    case False
    then have "sz = 0" using div_le_mono [of offset "offset + sz - 1" cs] by (cases sz) auto
    moreover have "path_pread_rows 0 so rows [] = []" for so rows
      by (induction rows) (auto simp: Let_def)
    ultimately show ?thesis by simp
  next
    case True
    define n where "n = min (Suc ?e) (chunk_count cs ?size)"
    have "path_pread_rows sz (offset mod cs) (select_chunks d ino (int ?a) (int ?e)) [] =
        path_pread_rows sz (offset mod cs) (map (\<lambda>k. (int k, the (map_of (fs_data d) (ino, int k)))) [?a..<n]) []"
      using select_tiled [OF d True [unfolded cs_def]] by (intro path_pread_rows_snd) (simp add: n_def cs_def ino_def o_def)
    also have "\<dots> = (if ?a \<le> n then take sz (drop offset (P n)) else [])"
    proof -
      have "n \<le> chunk_count cs ?size" by (simp add: n_def)
      from path_pread_rows_tiled [OF t cs order_refl this, of sz offset, folded P_def]
      show ?thesis unfolding start .
    qed
    also have "\<dots> = take sz (drop offset (content cs ino d))"
    proof -
      have "?size \<le> chunk_count cs ?size * cs"
        using chunk_count_iff [OF cs, of "chunk_count cs ?size" ?size] by simp
      moreover have "offset + sz \<le> Suc ?e * cs"
        using dividend_less_div_times [OF cs, of "offset + sz - 1"] by (simp add: Suc_le_eq)
      ultimately have "min ?size (offset + sz) \<le> n * cs" by (auto simp: n_def min_def)
      then have "?size \<le> n * cs \<or> offset + sz \<le> n * cs" by (simp add: min_le_iff_disj)
      then have eq: "take sz (drop offset (P n)) = take sz (drop offset (content cs ino d))"
        unfolding P by (elim disjE) (auto simp: take_drop min_def)
      have "drop offset (content cs ino d) = []" if "\<not> ?a \<le> n"
      proof -
        have "chunk_count cs ?size \<le> ?a" using that True by (auto simp: n_def)
        then have "?size \<le> ?a * cs" using chunk_count_iff [OF cs, of ?a ?size] by simp
        also have "\<dots> \<le> offset" by (rule div_times_less_eq_dividend)
        finally show ?thesis by simp
      qed
      with eq show ?thesis by auto
    qed
    finally show ?thesis .
  qed
qed

section \<open>Writing and truncating keep files tiled\<close>

lemma cut_length:
  fixes w x cs cur :: nat
  assumes "w - x \<le> cs" and "x < w"
  shows "max (w - x) (if x < cur then min (cur - x) cs else 0) = min cs (max cur w - x)"
  using assms unfolding min_def max_def by (cases "x < cur") auto

lemma path_write_tiles:
  assumes cs: "0 < cs" and data: "data \<noteq> []" and bound: "offset + length data < 2 ^ 63"
    and tl: "tiles cs ino cur tab" and key: "keyed tab" and off: "offset \<le> cur"
    and t_def: "t = fold (path_write_chunk cs ino offset data cur (offset + length data))
      [offset div cs..<Suc ((offset + length data - 1) div cs)] tab"
  shows "tiles cs ino (max cur (offset + length data)) t"
  unfolding tiles_def
proof
  fix k
  let ?w = "offset + length data" and ?a = "offset div cs" and ?e = "(offset + length data - 1) div cs"
  have "?e \<le> ?w - 1" by (rule div_le_dividend)
  then have "?e < 2 ^ 63" using bound by linarith
  then have "Suc ?e \<le> 2 ^ 63" by (rule Suc_leI)
  note rows = fold_path_write_chunk(2) [OF key this t_def, of ino k]
  show "map_option length (map_of t (ino, k)) =
      (if 0 \<le> k \<and> nat k * cs < max cur ?w then Some (min cs (max cur ?w - nat k * cs)) else None)"
  proof (cases "int ?a \<le> k \<and> k < int (Suc ?e)")
    case True
    then have idx: "?a \<le> nat k" "nat k \<le> ?e" "0 \<le> k" by auto
    note b = path_chunk_bounds [OF cs data idx(1,2)]
    have "chunk_cut cs cur ?w (nat k) = min cs (max cur ?w - nat k * cs)"
    proof (cases "nat k = (?w - 1) div cs")
      case last: True
      have "chunk_cut cs cur ?w (nat k) =
          max (?w - nat k * cs) (if nat k * cs < cur then min (cur - nat k * cs) cs else 0)"
        using last by (simp add: chunk_cut_def)
      with cut_length [OF b(4) [OF last] b(1)] show ?thesis by simp
    next
      case False
      with b(5) show ?thesis by (simp add: chunk_cut_def)
    qed
    moreover have "nat k * cs < max cur ?w" using b(1) by (simp add: less_max_iff_disj)
    moreover have "map_of t (ino, k) = Some (path_chunk cs offset data cur ?w (nat k) (map_of tab (ino, k)))"
      using True rows by auto
    moreover note path_chunk_length(1) [OF cs data bound idx(1,2) refl, of cur "map_of tab (ino, k)"]
    ultimately show ?thesis using idx(3) by simp
  next
    case False
    then have old: "map_of t (ino, k) = map_of tab (ino, k)" by (auto simp: rows)
    have "(0 \<le> k \<and> nat k * cs < max cur ?w) = (0 \<le> k \<and> nat k * cs < cur) \<and>
        (0 \<le> k \<and> nat k * cs < cur \<longrightarrow> min cs (max cur ?w - nat k * cs) = min cs (cur - nat k * cs))"
    proof (cases "0 \<le> k \<and> k < int ?a")
      case True
      then have "Suc (nat k) \<le> ?a" by auto
      then have "Suc (nat k) * cs \<le> ?a * cs" by (rule mult_le_mono1)
      also have "\<dots> \<le> offset" by simp
      finally have "cs + nat k * cs \<le> cur" using off by simp
      then have "nat k * cs < cur" "cs \<le> cur - nat k * cs" using cs by linarith+
      then show ?thesis using True by (auto simp: less_max_iff_disj)
    next
      case outer: False
      show ?thesis
      proof (cases "0 \<le> k")
        case True
        then have "Suc ?e \<le> nat k" using False outer by auto
        then have "Suc ?e * cs \<le> nat k * cs" by (rule mult_le_mono1)
        moreover have "?w \<le> Suc ?e * cs"
          using dividend_less_div_times [OF cs, of "?w - 1"] by (simp add: Suc_le_eq)
        ultimately have "?w \<le> nat k * cs" by linarith
        then show ?thesis by auto
      qed simp
    qed
    with tl [unfolded tiles_def, rule_format, of k] old show ?thesis by auto
  qed
qed

lemma path_shrink_eq: "0 < cs \<Longrightarrow> 0 < n \<Longrightarrow> path_shrink cs ino n tab = shrink_chunks cs ino n tab"
  using last_chunk_split(2,3) [of cs n] mod_less_divisor [of cs n]
  by (cases "n mod cs = 0") (auto simp: path_shrink_def shrink_chunks_def Let_def split: option.splits)

lemma shrink_tiles:
  assumes cs: "0 < cs" and n: "0 < n" "n < 2 ^ 63" "n \<le> cur" and tl: "tiles cs ino cur tab"
  shows "tiles cs ino n (shrink_chunks cs ino n tab)"
  unfolding tiles_def
proof
  fix k
  let ?l = "(n - 1) div cs"
  note sp = last_chunk_split [OF cs n(1)]
  have old: "map_option length (map_of tab (ino, k)) = (if 0 \<le> k \<and> nat k * cs < cur then Some (min cs (cur - nat k * cs)) else None)"
    using tl by (simp add: tiles_def)
  consider (beyond) "int ?l < k" | (last) "k = int ?l" | (inner) "k < int ?l" by linarith
  then show "map_option length (map_of (shrink_chunks cs ino n tab) (ino, k)) =
      (if 0 \<le> k \<and> nat k * cs < n then Some (min cs (n - nat k * cs)) else None)"
  proof cases
    case beyond
    then have "Suc ?l \<le> nat k" by auto
    then have "Suc ?l * cs \<le> nat k * cs" by (rule mult_le_mono1)
    moreover have "n \<le> Suc ?l * cs" using dividend_less_div_times [OF cs, of "n - 1"] n(1) by (simp add: Suc_le_eq)
    ultimately have "\<not> nat k * cs < n" by linarith
    with beyond show ?thesis by (simp add: map_of_shrink_chunks [OF n(2)])
  next
    case last
    have lt: "?l * cs < n" using sp(1) by linarith
    then have "?l * cs < cur" using n(3) by linarith
    with old last obtain b where b: "map_of tab (ino, k) = Some b" "length b = min cs (cur - ?l * cs)" by auto
    have m: "n - ?l * cs = (n - 1) mod cs + 1" using sp(1) by linarith
    have "(n - 1) mod cs + 1 \<le> cs" using cs by (simp add: Suc_leI)
    moreover have "map_of (shrink_chunks cs ino n tab) (ino, k) = Some (take ((n - 1) mod cs + 1) b)"
    proof (cases "0 < n mod cs")
      case True
      with sp(2) b(1) last show ?thesis by (simp add: map_of_shrink_chunks [OF n(2)])
    next
      case False
      with sp(3) b last show ?thesis by (simp add: map_of_shrink_chunks [OF n(2)])
    qed
    moreover have "n - ?l * cs \<le> cur - ?l * cs" using n(3) by simp
    then have "min (length b) ((n - 1) mod cs + 1) = n - ?l * cs"
      unfolding b(2) using m calculation(1) by linarith
    ultimately show ?thesis using last lt m by simp
  next
    case inner
    show ?thesis
    proof (cases "0 \<le> k")
      case True
      then have "Suc (nat k) \<le> ?l" using inner by auto
      then have "Suc (nat k) * cs \<le> ?l * cs" by (rule mult_le_mono1)
      moreover have "?l * cs < n" using sp(1) by linarith
      ultimately have "cs + nat k * cs < n" by simp
      then have "nat k * cs < n" "nat k * cs < cur" "cs \<le> n - nat k * cs" "cs \<le> cur - nat k * cs" using n(3) by linarith+
      with inner True old show ?thesis by (simp add: map_of_shrink_chunks [OF n(2)])
    qed (use inner old in \<open>simp add: map_of_shrink_chunks [OF n(2)]\<close>)
  qed
qed

text \<open>Inserting rows that are not there yet.\<close>

lemma fold_insert_rows:
  assumes "keyed tab" and "b \<le> 2 ^ 63" and "\<And>k. a \<le> k \<Longrightarrow> k < b \<Longrightarrow> map_of tab (ino, int k) = None"
  obtains t where "fold (\<lambda>idx t. Option.bind t (insert_row (ino, as_i64 idx) (g idx))) [a..<b] (Some tab) = Some t"
    and "keyed t" and "\<And>ino' k. map_of t (ino', k) = (if ino' = ino \<and> int a \<le> k \<and> k < int b then Some (g (nat k))
      else map_of tab (ino', k))"
proof -
  have "\<exists>t. fold (\<lambda>idx t. Option.bind t (insert_row (ino, as_i64 idx) (g idx))) [a..<b] (Some tab) = Some t \<and> keyed t \<and>
    (\<forall>ino' k. map_of t (ino', k) = (if ino' = ino \<and> int a \<le> k \<and> k < int b then Some (g (nat k)) else map_of tab (ino', k)))"
    using assms(2,3)
  proof (induction b)
    case 0
    with assms(1) show ?case by auto
  next
    case (Suc b)
    show ?case
    proof (cases "a \<le> b")
      case True
      from Suc obtain t where t: "fold (\<lambda>idx t. Option.bind t (insert_row (ino, as_i64 idx) (g idx))) [a..<b] (Some tab) = Some t"
        "keyed t" "\<And>ino' k. map_of t (ino', k) = (if ino' = ino \<and> int a \<le> k \<and> k < int b then Some (g (nat k))
          else map_of tab (ino', k))"
        by (auto simp: less_SucI)
      have i: "as_i64 b = int b" using Suc.prems(1) by (simp add: as_i64_small)
      have none: "map_of t (ino, int b) = None" using t(3) Suc.prems(2) True by simp
      have "map_of (t @ [((ino, int b), g b)]) = (map_of t)((ino, int b) \<mapsto> g b)" by (rule map_of_snoc [OF none])
      with none t True show ?thesis
        by (intro exI [of _ "t @ [((ino, int b), g b)]"])
          (auto simp: i insert_row_fresh keyed_snoc simp del: map_of_append)
    qed (use assms(1) in auto)
  qed
  then show thesis using that by blast
qed

lemma chunk_len_eq:
  fixes cs n idx :: nat
  assumes "0 < cs" and "0 < n" and "idx \<le> (n - 1) div cs"
  shows "(if idx = (n - 1) div cs then (n - 1) mod cs + 1 else cs) = min cs (n - idx * cs)" and "idx * cs < n"
proof -
  have b: "n = (n - 1) div cs * cs + ((n - 1) mod cs + 1)" "(n - 1) mod cs < cs"
    using last_chunk_split(1) [OF assms(1,2)] assms(1) by simp_all
  show "idx * cs < n" using mult_le_mono1 [OF assms(3), of cs] b(1) by linarith
  show "(if idx = (n - 1) div cs then (n - 1) mod cs + 1 else cs) = min cs (n - idx * cs)"
  proof (cases "idx = (n - 1) div cs")
    case True
    then have "idx * cs = (n - 1) div cs * cs" by simp
    then have "n - idx * cs = (n - 1) mod cs + 1" using b(1) by linarith
    with True b(2) show ?thesis by simp
  next
    case False
    with assms(3) have "Suc idx \<le> (n - 1) div cs" by simp
    from mult_le_mono1 [OF this, of cs] b(1) have "cs + idx * cs \<le> n" unfolding mult_Suc by linarith
    with False show ?thesis by simp
  qed
qed

text \<open>Padding the last chunk of the file.\<close>

definition pad_last :: "nat \<Rightarrow> i64 \<Rightarrow> nat \<Rightarrow> nat \<Rightarrow> ((i64 \<times> i64) \<times> byte list) list \<Rightarrow> ((i64 \<times> i64) \<times> byte list) list" where
  "pad_last cs ino cur n tab =
     (if cur = 0 then tab
      else let last_idx = (cur - 1) div cs
           in case map_of tab (ino, as_i64 last_idx) of
                None \<Rightarrow> tab
              | Some chunk_data \<Rightarrow>
                  let needed_len = (if last_idx = (n - 1) div cs then (n - 1) mod cs + 1 else cs)
                  in if length chunk_data < needed_len
                     then update_row (ino, as_i64 last_idx) (\<lambda>_. resize needed_len 0 chunk_data) tab
                     else tab)"

lemma resize_resize_byte: "nth_default 0 (resize m 0 b) j = nth_default 0 b j" if "length b \<le> m"
  using that by (simp add: nth_default_resize nth_default_beyond)

lemma pad_last_rows:
  assumes cs: "0 < cs" and n: "cur < n" "n < 2 ^ 63" and tl: "tiles cs ino cur tab" and key: "keyed tab"
  shows "keyed (pad_last cs ino cur n tab)"
    and "map_option length (map_of (pad_last cs ino cur n tab) (ino, k)) =
      (if 0 \<le> k \<and> nat k * cs < cur then Some (min cs (n - nat k * cs)) else None)"
    and "byte_at cs (pad_last cs ino cur n tab) ino i = byte_at cs tab ino i"
    and "ino' \<noteq> ino \<Longrightarrow> map_of (pad_last cs ino cur n tab) (ino', k) = map_of tab (ino', k)"
proof -
  let ?p = "pad_last cs ino cur n tab" and ?l = "(cur - 1) div cs"
  have old: "map_option length (map_of tab (ino, k)) = (if 0 \<le> k \<and> nat k * cs < cur then Some (min cs (cur - nat k * cs)) else None)" for k
    using tl by (simp add: tiles_def)
  have main: "keyed ?p \<and> (\<forall>k. map_option length (map_of ?p (ino, k)) =
      (if 0 \<le> k \<and> nat k * cs < cur then Some (min cs (n - nat k * cs)) else None)) \<and>
    (\<forall>i. byte_at cs ?p ino i = byte_at cs tab ino i) \<and> (\<forall>ino' k. ino' \<noteq> ino \<longrightarrow> map_of ?p (ino', k) = map_of tab (ino', k))"
  proof (cases "cur = 0")
    case True
    with key old show ?thesis by (simp add: pad_last_def)
  next
    case False
    then have cur: "0 < cur" by simp
    note l = chunk_len_eq [OF cs cur order_refl]
    from tilesD [OF tl l(2)] obtain b where b: "map_of tab (ino, int ?l) = Some b" "length b = min cs (cur - ?l * cs)" .
    have "?l \<le> cur - 1" by (rule div_le_dividend)
    then have "?l < 2 ^ 63" using n by linarith
    then have cast: "as_i64 ?l = int ?l" by (rule as_i64_small)
    have "?l \<le> (n - 1) div cs" using n(1) by (intro div_le_mono) simp
    note need = chunk_len_eq [OF cs _ this]
    define m where "m = min cs (n - ?l * cs)"
    have blen: "length b \<le> m" using b(2) n(1) by (auto simp: m_def)
    have p: "?p = (if length b < m then update_row (ino, int ?l) (\<lambda>_. resize m 0 b) tab else tab)"
    proof -
      have "(if ?l = (n - 1) div cs then (n - 1) mod cs + 1 else cs) = m" using need(1) n(1) by (simp only: m_def)
      then show ?thesis
        using False unfolding pad_last_def Let_def cast b(1) option.case by (simp only: if_False)
    qed
    have "resize m 0 b = b" if "\<not> length b < m" using that blen by (simp add: resize_def)
    then have rows: "map_of ?p (ino', k) = (if ino' = ino \<and> k = int ?l then Some (resize m 0 b) else map_of tab (ino', k))" for ino' k
      using b(1) by (auto simp: p table_simps)
    have "map_option length (map_of ?p (ino, k)) =
        (if 0 \<le> k \<and> nat k * cs < cur then Some (min cs (n - nat k * cs)) else None)" for k
    proof (cases "k = int ?l")
      case True
      with l(2) show ?thesis by (simp add: rows m_def)
    next
      case outer: False
      show ?thesis
      proof (cases "0 \<le> k \<and> nat k * cs < cur")
        case True
        have "nat k \<le> ?l"
        proof (rule ccontr)
          assume "\<not> nat k \<le> ?l"
          then have "Suc ?l * cs \<le> nat k * cs" by (intro mult_le_mono1) simp
          with dividend_less_div_times [OF cs, of "cur - 1"] True show False unfolding mult_Suc by linarith
        qed
        with outer True have "Suc (nat k) \<le> ?l" by auto
        then have "Suc (nat k) * cs \<le> ?l * cs" by (rule mult_le_mono1)
        with l(2) have "cs + nat k * cs < cur" by simp
        then have "cs \<le> cur - nat k * cs" "cs \<le> n - nat k * cs" using n(1) by linarith+
        with outer True old [of k] show ?thesis by (simp add: rows)
      qed (use outer old [of k] in \<open>auto simp: rows\<close>)
    qed
    moreover have "byte_at cs ?p ino i = byte_at cs tab ino i" for i
      using b(1) resize_resize_byte [OF blen] by (auto simp: byte_at_def rows)
    moreover have "keyed ?p" using key by (auto simp: p keyed_update_row)
    ultimately show ?thesis by (simp add: rows)
  qed
  then show "keyed ?p" "map_option length (map_of ?p (ino, k)) =
      (if 0 \<le> k \<and> nat k * cs < cur then Some (min cs (n - nat k * cs)) else None)"
    "byte_at cs ?p ino i = byte_at cs tab ino i" "ino' \<noteq> ino \<Longrightarrow> map_of ?p (ino', k) = map_of tab (ino', k)"
    by blast+
qed

lemma path_extend_tiles:
  assumes cs: "0 < cs" and n: "cur < n" "n < 2 ^ 63" and tl: "tiles cs ino cur tab" and key: "keyed tab"
  obtains t where "path_extend cs ino cur n tab = Some t" and "keyed t" and "tiles cs ino n t"
    and "\<And>i. byte_at cs t ino i = byte_at cs tab ino i"
    and "\<And>ino' k. ino' \<noteq> ino \<Longrightarrow> map_of t (ino', k) = map_of tab (ino', k)"
proof -
  let ?p = "pad_last cs ino cur n tab" and ?e = "(n - 1) div cs"
  define a where "a = (if cur = 0 then 0 else (cur - 1) div cs + 1)"
  define g where "g idx = replicate (if idx = ?e then (n - 1) mod cs + 1 else cs) (0 :: byte)" for idx
  note pad = pad_last_rows [OF cs n tl key]
  have a: "k < a \<longleftrightarrow> k * cs < cur" for k
  proof (cases "cur = 0")
    case False
    then have "k < a \<longleftrightarrow> k \<le> (cur - 1) div cs" by (auto simp: a_def)
    also have "\<dots> \<longleftrightarrow> k * cs \<le> cur - 1" using cs by (simp add: less_eq_div_iff_mult_less_eq)
    finally show ?thesis using False by auto
  qed (simp add: a_def)
  have "?e \<le> n - 1" by (rule div_le_dividend)
  then have "?e < 2 ^ 63" using n by linarith
  then have "Suc ?e \<le> 2 ^ 63" by (rule Suc_leI)
  moreover have "map_of ?p (ino, int k) = None" if "a \<le> k" for k
    using pad(2) [of "int k"] a [of k] that by simp
  ultimately obtain t where t: "fold (\<lambda>idx t. Option.bind t (insert_row (ino, as_i64 idx) (g idx))) [a..<Suc ?e] (Some ?p) = Some t"
    "keyed t" "\<And>ino' k. map_of t (ino', k) = (if ino' = ino \<and> int a \<le> k \<and> k < int (Suc ?e) then Some (g (nat k)) else map_of ?p (ino', k))"
    using fold_insert_rows [OF pad(1), of "Suc ?e" a ino g] by blast
  have "path_extend cs ino cur n tab = Some t"
    using t(1) unfolding path_extend_def pad_last_def a_def g_def Let_def .
  moreover have "tiles cs ino n t"
    unfolding tiles_def
  proof
    fix k
    have in_e: "k < int (Suc ?e) \<longleftrightarrow> nat k * cs < n" if "0 \<le> k"
    proof -
      have "k < int (Suc ?e) \<longleftrightarrow> nat k \<le> ?e" using that by auto
      also have "\<dots> \<longleftrightarrow> nat k * cs \<le> n - 1" using cs by (simp add: less_eq_div_iff_mult_less_eq)
      finally show ?thesis using n(1) by auto
    qed
    have "length (g (nat k)) = min cs (n - nat k * cs)" if "0 \<le> k" "k < int (Suc ?e)"
      using chunk_len_eq(1) [OF cs, of n "nat k"] that n(1) by (simp add: g_def nat_le_iff)
    with t(3) [of ino k] pad(2) [of k] in_e a [of "nat k"] n(1)
    show "map_option length (map_of t (ino, k)) = (if 0 \<le> k \<and> nat k * cs < n then Some (min cs (n - nat k * cs)) else None)"
      by (auto simp: nat_less_iff)
  qed
  moreover have "byte_at cs t ino i = byte_at cs tab ino i" for i
  proof (cases "int a \<le> int (i div cs) \<and> int (i div cs) < int (Suc ?e)")
    case True
    then have "map_of ?p (ino, int (i div cs)) = None" using pad(2) [of "int (i div cs)"] a [of "i div cs"] by simp
    then have "byte_at cs tab ino i = 0" using pad(3) [of i] by (simp add: byte_at_def)
    with True show ?thesis by (simp add: byte_at_def t(3) g_def nth_default_def)
  next
    case False
    then have "map_of t (ino, int (i div cs)) = map_of ?p (ino, int (i div cs))" by (auto simp: t(3))
    with pad(3) [of i] show ?thesis by (simp add: byte_at_def)
  qed
  ultimately show thesis using that t(2,3) pad(4) by simp
qed

section \<open>The path-based methods\<close>

text \<open>What a path names, and the handle on it.\<close>

definition names_file :: "'c agentfs \<Rightarrow> string \<Rightarrow> agentfs_file \<Rightarrow> bool" where
  "names_file s path f \<longleftrightarrow> split_path (normalize_path path) \<noteq> [] \<and>
     walk (afs_db s) ROOT_INO (split_path (normalize_path path)) = Some (f_ino f) \<and> f_chunk_size f = afs_chunk_size s"

lemma normalize_twice: "normalize_path (normalize_path (normalize_path path)) = normalize_path (normalize_path path)"
  using normalize_absolute [of "normalize_path path"] normalize_path_absolute [of path] normalize_path_of by metis

lemma split_normalize_twice: "split_path (normalize_path (normalize_path path)) = split_path (normalize_path path)"
  unfolding split_path_def by (simp add: normalize_twice)

lemma path_write_data_dentry:
  "path_write_data cs now ino cur new offset data d = Inr d' \<Longrightarrow> fs_dentry d' = fs_dentry d"
  by (auto simp: path_write_data_def Let_def split: if_splits)

lemma walk_cong: "fs_dentry d' = fs_dentry d \<Longrightarrow> walk d' ino cs = walk d ino cs"
  by (induction cs arbitrary: ino) (auto split: option.splits)

lemma split_absolute: "path = [] \<or> hd path = CHR ''/'' \<Longrightarrow> split_path (normalize_path path) = split_path path"
  using normalize_absolute [of path] normalize_path_of unfolding split_path_def by metis

lemma path_write_data_dense:
  assumes d: "dense f d" and off: "offset \<le> select_size d (f_ino f)" and bound: "offset + length data < 2 ^ 63"
    and res: "path_write_data (f_chunk_size f) now (f_ino f) (select_size d (f_ino f)) False offset data d = Inr d'"
  shows "dense f d'"
proof (cases "data = []")
  case True
  with res have d': "d' = update_inode (f_ino f) (\<lambda>r. r\<lparr>r_mtime := fst now, r_mtime_nsec := snd now\<rparr>) d"
    by (simp add: path_write_data_def)
  have "select_size d' (f_ino f) = select_size d (f_ino f)"
    by (auto simp: d' table_simps select_size_def split: option.splits)
  with d show ?thesis by (auto simp: dense_def d' table_simps)
next
  case False
  let ?cs = "f_chunk_size f" and ?ino = "f_ino f" and ?size = "select_size d (f_ino f)" and ?w = "offset + length data"
  from d have cs: "0 < ?cs" and key: "keyed (fs_data d)" and ex: "select_inode d ?ino \<noteq> None"
    and size: "?size < 2 ^ 63" and tl: "tiles ?cs ?ino ?size (fs_data d)" by (auto simp: dense_def)
  define t where "t = fold (path_write_chunk ?cs ?ino offset data ?size ?w) [offset div ?cs..<Suc ((?w - 1) div ?cs)] (fs_data d)"
  have d': "d' = update_inode ?ino (\<lambda>r. r\<lparr>r_size := as_i64 (max ?size ?w), r_mtime := fst now,
      r_mtime_nsec := snd now\<rparr>) (d\<lparr>fs_data := t\<rparr>)"
    using path_write_data_eq [OF False cs bound t_def] res by simp
  have "keyed t" by (rule path_write_rows(1) [OF cs False bound tiles_within [OF tl] key t_def])
  moreover have "tiles ?cs ?ino (max ?size ?w) t" by (rule path_write_tiles [OF cs False bound tl key off t_def])
  moreover have "select_size d' ?ino = max ?size ?w"
    using ex size bound by (auto simp: d' table_simps as_u64_as_i64)
  ultimately show ?thesis using cs ex size bound by (auto simp: dense_def d' table_simps)
qed

text \<open>Truncating: what the branches leave of the rows.\<close>

lemma truncate_rows_dense:
  assumes d: "dense f d" and n: "n < 2 ^ 63"
  obtains t where "(if n = 0 then Some (delete_rows (\<lambda>k. fst k = f_ino f) (fs_data d))
      else if n < select_size d (f_ino f) then Some (path_shrink (f_chunk_size f) (f_ino f) n (fs_data d))
      else if select_size d (f_ino f) < n then path_extend (f_chunk_size f) (f_ino f) (select_size d (f_ino f)) n (fs_data d)
      else Some (fs_data d)) = Some t"
    and "keyed t" and "tiles (f_chunk_size f) (f_ino f) n t"
    and "\<And>i. i < n \<Longrightarrow> byte_at (f_chunk_size f) t (f_ino f) i = byte_at (f_chunk_size f) (fs_data d) (f_ino f) i"
proof -
  let ?cs = "f_chunk_size f" and ?ino = "f_ino f" and ?size = "select_size d (f_ino f)"
  from d have cs: "0 < ?cs" and key: "keyed (fs_data d)" and tl: "tiles ?cs ?ino ?size (fs_data d)" by (auto simp: dense_def)
  consider "n = 0" | "0 < n" "n < ?size" | "0 < n" "n = ?size" | "?size < n" by linarith
  then show thesis
  proof cases
    case 1
    have "tiles ?cs ?ino 0 (delete_rows (\<lambda>k. fst k = ?ino) (fs_data d))" by (simp add: tiles_def table_simps)
    with 1 key that show thesis by (simp add: keyed_delete_rows)
  next
    case 2
    with key cs n byte_at_shrink_chunks [OF cs n] shrink_tiles [OF cs 2(1) n _ tl] show thesis
      by (intro that [of "path_shrink ?cs ?ino n (fs_data d)"]) (simp_all add: path_shrink_eq keyed_shrink_chunks)
  next
    case 3
    with key tl show thesis by (intro that [of "fs_data d"]) simp_all
  next
    case 4
    then show thesis using path_extend_tiles [OF cs 4 n tl key] that by (metis less_asym' not_less_zero)
  qed
qed

lemma truncated_content:
  assumes inv: "file_inv f d" and data: "fs_data d' = t" and size: "select_size d' (f_ino f) = n"
    and same: "\<And>i. i < n \<Longrightarrow> byte_at (f_chunk_size f) t (f_ino f) i = byte_at (f_chunk_size f) (fs_data d) (f_ino f) i"
  shows "content (f_chunk_size f) (f_ino f) d' = af_truncate n (content (f_chunk_size f) (f_ino f) d)"
proof (rule list_eq_nth_defaultI [where x = 0])
  fix i assume "i < length (content (f_chunk_size f) (f_ino f) d')"
  then have "i < n" by (simp add: size)
  then show "nth_default 0 (content (f_chunk_size f) (f_ino f) d') i =
      nth_default 0 (af_truncate n (content (f_chunk_size f) (f_ino f) d)) i"
    using byte_at_beyond [OF inv, of i] same [of i]
    by (auto simp: nth_default_content af_truncate_def nth_default_resize size data)
qed (simp add: size af_truncate_def)

lemma walk_parent:
  assumes "walk d ROOT_INO cs = Some i" and "cs \<noteq> []"
  obtains p where "walk d ROOT_INO (butlast cs) = Some p" and "map_of (fs_dentry d) (p, last cs) = Some i"
  using assms walk_append [of d ROOT_INO "butlast cs" "[last cs]"] that
  by (auto split: option.splits)

context lru_cache
begin

lemma resolve_parent_walk:
  assumes "good view s" and "split_path (normalize_path path) \<noteq> []"
  shows "\<exists>s'. resolve_parent L path s = (case walk (afs_db s) ROOT_INO (butlast (split_path (normalize_path path))) of
      None \<Rightarrow> (Inl (Fs NotFound), s') | Some p \<Rightarrow> (Inr (p, last (split_path (normalize_path path))), s')) \<and>
    afs_db s' = afs_db s \<and> good view s' \<and> afs_chunk_size s' = afs_chunk_size s"
proof -
  let ?cs = "split_path (normalize_path path)"
  have sp: "split_path (parent_path ?cs) = butlast ?cs"
    by (rule split_parent [OF split_normalize_clean assms(2)])
  obtain s' where s': "resolve_path L (parent_path ?cs) s = (Inr (walk (afs_db s) ROOT_INO (butlast ?cs)), s')" "afs_db s' = afs_db s"
    using resolve_path_walk [OF goodD(4,3) [OF assms(1)], of "parent_path ?cs"] unfolding sp by blast
  moreover from good_resolve [OF assms(1), of "parent_path ?cs"] resolve_path_chunk_size [of L "parent_path ?cs" s] s'(1)
  have "good view s'" "afs_chunk_size s' = afs_chunk_size s" by simp_all
  ultimately show ?thesis
    using assms(2) by (intro exI [of _ s']) (simp add: resolve_parent_def Let_def split: option.splits)
qed

lemma resolve_good:
  assumes "good view s"
  obtains s' where "resolve_path L path s = (Inr (walk (afs_db s) ROOT_INO (split_path path)), s')"
    and "afs_db s' = afs_db s" and "good view s'" and "afs_chunk_size s' = afs_chunk_size s"
proof -
  obtain s' where s': "resolve_path L path s = (Inr (walk (afs_db s) ROOT_INO (split_path path)), s')" "afs_db s' = afs_db s"
    using resolve_path_walk [OF goodD(4,3) [OF assms], of path] by blast
  with good_resolve [OF assms, of path] resolve_path_chunk_size [of L path s] that show thesis by simp
qed

text \<open>Writing by path to an existing file.\<close>

lemma path_pwrite_existing:
  assumes good: "good view s" and f: "names_file s path f" and inv: "file_inv f (afs_db s)"
    and bound: "offset + length data < 2 ^ 63"
  obtains s' where "path_pwrite L now now_m path offset data s = (Inr (), s')"
    and "path_write_data (f_chunk_size f) now_m (f_ino f) (select_size (afs_db s) (f_ino f)) False offset data (afs_db s) = Inr (afs_db s')"
    and "content (f_chunk_size f) (f_ino f) (afs_db s') = af_write offset data (content (f_chunk_size f) (f_ino f) (afs_db s))"
    and "coherent view s'" and "fs_dentry (afs_db s') = fs_dentry (afs_db s)" and "afs_chunk_size s' = afs_chunk_size s"
proof -
  let ?cs = "split_path (normalize_path path)"
  from f have ne: "?cs \<noteq> []" and w: "walk (afs_db s) ROOT_INO ?cs = Some (f_ino f)" and sz: "f_chunk_size f = afs_chunk_size s"
    by (auto simp: names_file_def)
  obtain p where p: "walk (afs_db s) ROOT_INO (butlast ?cs) = Some p" by (rule walk_parent [OF w ne])
  obtain s1 where s1: "resolve_parent L path s = (Inr (p, last ?cs), s1)" "afs_db s1 = afs_db s" "good view s1"
    "afs_chunk_size s1 = afs_chunk_size s"
    using resolve_parent_walk [OF good ne] unfolding p by auto
  obtain s2 where s2: "resolve_path L (normalize_path path) s1 = (Inr (Some (f_ino f)), s2)" "afs_db s2 = afs_db s1"
    "afs_chunk_size s2 = afs_chunk_size s1" "good view s2"
    using resolve_good [OF s1(3), of "normalize_path path"] s1(2) w by metis
  obtain d' where d': "path_write_data (f_chunk_size f) now_m (f_ino f) (select_size (afs_db s) (f_ino f)) False offset data (afs_db s) = Inr d'"
    "content (f_chunk_size f) (f_ino f) d' = af_write offset data (content (f_chunk_size f) (f_ino f) (afs_db s))"
    by (rule path_write_data_existing [OF inv bound])
  have "path_pwrite L now now_m path offset data s = (Inr (), s2\<lparr>afs_db := d'\<rparr>)"
    using d'(1) s1 s2 sz by (simp add: path_pwrite_def)
  moreover have "fs_dentry d' = fs_dentry (afs_db s)" by (rule path_write_data_dentry [OF d'(1)])
  moreover have "coherent view (s2\<lparr>afs_db := d'\<rparr>)"
    using goodD(3) [OF s2(4)] calculation(2) s1(2) s2(2) by (simp add: coherent_def)
  ultimately show thesis using d' s1(4) s2(3) by (intro that [of "s2\<lparr>afs_db := d'\<rparr>"]) simp_all
qed

text \<open>Truncating by path.\<close>

lemma path_truncate_dense:
  assumes good: "good view s" and w: "walk (afs_db s) ROOT_INO (split_path (normalize_path path)) = Some (f_ino f)"
    and d: "dense f (afs_db s)" and fs: "f_chunk_size f = afs_chunk_size s" and n: "n < 2 ^ 63"
  obtains s' where "path_truncate L now path n s = (Inr (), s')" and "dense f (afs_db s')"
    and "content (f_chunk_size f) (f_ino f) (afs_db s') = af_truncate n (content (f_chunk_size f) (f_ino f) (afs_db s))"
    and "coherent view s'" and "fs_dentry (afs_db s') = fs_dentry (afs_db s)" and "afs_chunk_size s' = afs_chunk_size s"
proof -
  let ?d = "afs_db s"
  obtain s1 where s1: "resolve_path L (normalize_path path) s = (Inr (Some (f_ino f)), s1)" "afs_db s1 = ?d"
    "good view s1" "afs_chunk_size s1 = afs_chunk_size s"
    using resolve_good [OF good, of "normalize_path path"] w by metis
  obtain t where t: "(if n = 0 then Some (delete_rows (\<lambda>k. fst k = f_ino f) (fs_data ?d))
      else if n < select_size ?d (f_ino f) then Some (path_shrink (f_chunk_size f) (f_ino f) n (fs_data ?d))
      else if select_size ?d (f_ino f) < n then path_extend (f_chunk_size f) (f_ino f) (select_size ?d (f_ino f)) n (fs_data ?d)
      else Some (fs_data ?d)) = Some t"
    and key: "keyed t" and tl: "tiles (f_chunk_size f) (f_ino f) n t"
    and same: "\<And>i. i < n \<Longrightarrow> byte_at (f_chunk_size f) t (f_ino f) i = byte_at (f_chunk_size f) (fs_data ?d) (f_ino f) i"
    using truncate_rows_dense [OF d n] by metis
  define d' where "d' = update_inode (f_ino f)
    (\<lambda>r. r\<lparr>r_size := as_i64 n, r_mtime := fst now, r_mtime_nsec := snd now\<rparr>) (?d\<lparr>fs_data := t\<rparr>)"
  have cs: "0 < f_chunk_size f" and ex: "select_inode ?d (f_ino f) \<noteq> None" using d by (auto simp: dense_def)
  have size: "select_size d' (f_ino f) = n" using ex n by (auto simp: d'_def table_simps as_u64_as_i64)
  have "path_truncate L now path n s = (Inr (), s1\<lparr>afs_db := d'\<rparr>)"
    using t s1 fs cs by (auto simp: path_truncate_def Let_def d'_def split: if_splits)
  moreover have "dense f d'" using cs ex n key tl size by (auto simp: dense_def d'_def table_simps)
  moreover have "content (f_chunk_size f) (f_ino f) d' = af_truncate n (content (f_chunk_size f) (f_ino f) ?d)"
    by (rule truncated_content [where t = t, OF dense_inv [OF d] _ size]) (simp_all add: d'_def same)
  moreover have "fs_dentry d' = fs_dentry ?d" by (simp add: d'_def)
  moreover have "coherent view (s1\<lparr>afs_db := d'\<rparr>)"
    using goodD(3) [OF s1(3)] calculation(4) s1(2) by (simp add: coherent_def)
  ultimately show thesis using s1(4) by (intro that [of "s1\<lparr>afs_db := d'\<rparr>"]) simp_all
qed

text \<open>Reading by path.\<close>

lemma read_file_dense:
  assumes "keyed (fs_dentry (afs_db s))" and "coherent view s"
    and "walk (afs_db s) ROOT_INO (split_path path) = Some (f_ino f)" and "dense f (afs_db s)"
  shows "fst (read_file L path s) = Inr (Some (content (f_chunk_size f) (f_ino f) (afs_db s)))"
proof -
  obtain s' where "resolve_path L path s = (Inr (Some (f_ino f)), s')" "afs_db s' = afs_db s"
    using resolve_path_walk [OF assms(1,2), of path] assms(3) by auto
  with dense_read_all [OF assms(4)] show ?thesis by (simp add: read_file_def)
qed

lemma path_pread_dense:
  assumes "good view s" and "walk (afs_db s) ROOT_INO (split_path path) = Some (f_ino f)"
    and d: "dense f (afs_db s)" and "f_chunk_size f = afs_chunk_size s" and bound: "offset + sz < 2 ^ 63"
  shows "fst (path_pread L path offset sz s) = Inr (Some (take sz (drop offset (content (f_chunk_size f) (f_ino f) (afs_db s)))))"
proof -
  obtain s' where s': "resolve_path L path s = (Inr (Some (f_ino f)), s')" "afs_db s' = afs_db s" "afs_chunk_size s' = afs_chunk_size s"
    using resolve_good [OF assms(1), of path] assms(2) by metis
  let ?cs = "f_chunk_size f"
  have cs: "0 < ?cs" using d by (simp add: dense_def)
  have "offset div ?cs \<le> offset" "(offset + sz - 1) div ?cs \<le> offset + sz - 1" by (rule div_le_dividend)+
  then have "offset div ?cs < 2 ^ 63" "(offset + sz - 1) div ?cs < 2 ^ 63" using bound by linarith+
  then have "as_i64 (offset div ?cs) = int (offset div ?cs)" "as_i64 ((offset + sz - 1) div ?cs) = int ((offset + sz - 1) div ?cs)"
    by (simp_all add: as_i64_small)
  moreover have "u64_add offset sz = offset + sz" using bound by (simp add: u64_add_small)
  ultimately show ?thesis
    using s' assms(4) cs dense_path_pread [OF d bound] by (simp add: path_pread_def Let_def)
qed

end

end
