(* ===== verification/Fs_Path_Reachable.thy ===== *)
theory Fs_Path_Reachable
  imports Fs_Dense
begin

unbundle bit_operations_syntax

text \<open>
  The path-based methods keep an instance good: consistent tables, chunks inside the file
  sizes, a coherent entry cache. They check less than the mount: a parent that is a directory
  and a target that is a file are conditions here.
\<close>

section \<open>Conditions on a path\<close>

definition parent_dir :: "db \<Rightarrow> string \<Rightarrow> bool" where
  "parent_dir d path = (case walk d ROOT_INO (butlast (split_path (normalize_path path))) of
     None \<Rightarrow> True | Some p \<Rightarrow> is_dir_ino d p)"

definition target_file :: "db \<Rightarrow> string \<Rightarrow> bool" where
  "target_file d path = (case walk d ROOT_INO (split_path (normalize_path path)) of
     None \<Rightarrow> True | Some ino \<Rightarrow> file_ino d ino)"

lemma root_parent: "split_path (normalize_path path) = [] \<Longrightarrow> resolve_parent L path s = (Inl (Fs RootOperation), s)"
  by (simp add: resolve_parent_def)

lemma names_file_parent: "wf_db (afs_db s) \<Longrightarrow> names_file s path f \<Longrightarrow> parent_dir (afs_db s) path"
proof -
  assume wf: "wf_db (afs_db s)" and f: "names_file s path f"
  let ?cs = "split_path (normalize_path path)"
  from f have "walk (afs_db s) ROOT_INO ?cs = Some (f_ino f)" "?cs \<noteq> []" by (simp_all add: names_file_def)
  then obtain p where "walk (afs_db s) ROOT_INO (butlast ?cs) = Some p" "map_of (fs_dentry (afs_db s)) (p, last ?cs) = Some (f_ino f)"
    by (rule walk_parent)
  then show ?thesis using wf_dbD(7) [OF wf] by (fastforce simp: parent_dir_def dentry_ok_def)
qed

lemma default_dir_mode [simp]: "mode_is DEFAULT_DIR_MODE S_IFDIR"
  by code_simp

lemma default_file_mode [simp]: "\<not> mode_is DEFAULT_FILE_MODE S_IFDIR"
  by code_simp

section \<open>Creation\<close>

context lru_cache
begin

text \<open>What a caller sees of \<open>resolve_parent\<close>.\<close>

lemma resolve_parent_cases:
  assumes "good view s" and "parent_dir (afs_db s) path"
  obtains (failed) e s1 where "resolve_parent L path s = (Inl e, s1)" and "good view s1"
    | (found) p s1 where "resolve_parent L path s = (Inr (p, last (split_path (normalize_path path))), s1)"
        and "good view s1" and "afs_db s1 = afs_db s" and "is_dir_ino (afs_db s1) p"
        and "afs_chunk_size s1 = afs_chunk_size s" and "split_path (normalize_path path) \<noteq> []"
        and "walk (afs_db s) ROOT_INO (butlast (split_path (normalize_path path))) = Some p"
proof (cases "split_path (normalize_path path) = []")
  case True
  with assms(1) failed show thesis by (simp add: root_parent)
next
  case False
  then show thesis using resolve_parent_walk [OF assms(1) False] failed found assms(2)
    by (cases "walk (afs_db s) ROOT_INO (butlast (split_path (normalize_path path)))") (auto simp: parent_dir_def)
qed

lemma good_path_mkdir:
  assumes "good view s" and "parent_dir (afs_db s) path"
  shows "good view (snd (mkdir L now path uid gid s))"
  using assms
proof (cases rule: resolve_parent_cases)
  case (found p s1)
  let ?n = "last (split_path (normalize_path path))"
  note g = goodD [OF found(2)]
  show ?thesis
  proof (cases "map_of (fs_dentry (afs_db s1)) (p, ?n)")
    case None
    have "wf_db (new_entry (new_row DEFAULT_DIR_MODE 2 uid gid 0 0 now) p ?n (afs_db s1))"
      using g(1) found(4) None by (intro wf_new_entry) (simp_all add: new_row_def)
    moreover have "snd (mkdir L now path uid gid s) = dcache_insert L p ?n (inode_seq (afs_db s1) + 1)
        (s1\<lparr>afs_db := touch_parent now p (add_nlink 1 p
          (new_entry (new_row DEFAULT_DIR_MODE 2 uid gid 0 0 now) p ?n (afs_db s1)))\<rparr>)"
      using None g(1,4) found(1) by (simp add: mkdir_def create_simps update_new_entry) (simp add: new_row_def)
    ultimately show ?thesis using None g found(2,4)
      by (auto intro!: good_insert_entry wf_touch_parent wf_add_nlink is_dir_new_entry
          data_ok_new_row data_ok_touch data_ok_add_nlink)
  qed (use found(1,2) g(4) in \<open>simp add: mkdir_def lookup_child_keyed\<close>)
qed (simp add: mkdir_def)

lemma good_path_mknod:
  assumes "good view s" and "parent_dir (afs_db s) path"
  shows "good view (snd (mknod L now path mode rdev uid gid s))"
  using assms
proof (cases rule: resolve_parent_cases)
  case (found p s1)
  let ?n = "last (split_path (normalize_path path))"
  note g = goodD [OF found(2)]
  show ?thesis
  proof (cases "map_of (fs_dentry (afs_db s1)) (p, ?n)")
    case None
    have "wf_db (new_entry (new_row mode 1 uid gid 0 rdev now) p ?n (afs_db s1))"
      using g(1) found(4) None by (intro wf_new_entry) (simp_all add: new_row_def)
    moreover have "snd (mknod L now path mode rdev uid gid s) = dcache_insert L p ?n (inode_seq (afs_db s1) + 1)
        (s1\<lparr>afs_db := new_entry (new_row mode 1 uid gid 0 rdev now) p ?n (afs_db s1)\<rparr>)"
      using None g(1,4) found(1)
      by (simp add: mknod_def create_simps add_nlink_def update_new_entry) (simp add: new_row_def)
    ultimately show ?thesis using None g found(2) by (auto intro!: good_insert_entry data_ok_new_row)
  qed (use found(1,2) g(4) in \<open>simp add: mknod_def lookup_child_keyed\<close>)
qed (simp add: mknod_def)

lemma good_path_create_file:
  assumes "good view s" and "parent_dir (afs_db s) path"
  shows "good view (snd (create_file L now path mode uid gid s))"
  using assms
proof (cases rule: resolve_parent_cases)
  case (found p s1)
  let ?n = "last (split_path (normalize_path path))" and ?m = "S_IFREG OR (mode AND PERM_MASK)"
  note g = goodD [OF found(2)]
  show ?thesis
  proof (cases "map_of (fs_dentry (afs_db s1)) (p, ?n)")
    case None
    have "wf_db (new_entry (new_row ?m 1 uid gid 0 0 now) p ?n (afs_db s1))"
      using g(1) found(4) None by (intro wf_new_entry) (simp_all add: new_row_def)
    moreover have "snd (create_file L now path mode uid gid s) = dcache_insert L p ?n (inode_seq (afs_db s1) + 1)
        (s1\<lparr>afs_db := new_entry (new_row ?m 1 uid gid 0 0 now) p ?n (afs_db s1)\<rparr>)"
      using None g(1,4) found(1) by (simp add: create_file_def create_simps)
    ultimately show ?thesis using None g found(2) by (auto intro!: good_insert_entry data_ok_new_row)
  qed (use found(1,2) g(4) in \<open>simp add: create_file_def lookup_child_keyed\<close>)
qed (simp add: create_file_def)

lemma good_path_symlink:
  assumes "good view s" and "parent_dir (afs_db s) path" and len: "length target < 2 ^ 63"
  shows "good view (snd (symlink L now target path uid gid s))"
  using assms(1,2)
proof (cases rule: resolve_parent_cases)
  case (found p s1)
  let ?n = "last (split_path (normalize_path path))" and ?i = "inode_seq (afs_db s1) + 1"
  let ?d = "new_entry (new_row (S_IFLNK OR 511) 1 uid gid (as_i64 (length target)) 0 now) p ?n (afs_db s1)"
  note g = goodD [OF found(2)]
  show ?thesis
  proof (cases "map_of (fs_dentry (afs_db s1)) (p, ?n)")
    case None
    have "map_of (fs_symlink (afs_db s1)) ?i = None"
      using wf_dbD(9) [OF g(1), of ?i] fresh_ino [OF g(1)]
      by (cases "map_of (fs_symlink (afs_db s1)) ?i") (auto simp: file_ino_def live_def)
    then have "snd (symlink L now target path uid gid s) = dcache_insert L p ?n ?i
        (s1\<lparr>afs_db := ?d\<lparr>fs_symlink := fs_symlink (afs_db s1) @ [(?i, target)]\<rparr>\<rparr>)"
      using None g(1,4) found(1)
      by (simp add: symlink_def create_simps insert_row_fresh add_nlink_def update_inode_fs_symlink update_new_entry)
        (simp add: new_row_def)
    with new_symlink_ok [OF g(1,2) found(4) None len, of uid gid now] None found(2) show ?thesis
      by (auto intro!: good_insert_entry)
  qed (use found(1,2) g(4) in \<open>simp add: symlink_def lookup_child_keyed\<close>)
qed (simp add: symlink_def)

lemma good_path_link:
  assumes good: "good view s" and dir: "parent_dir (afs_db s) newpath"
  shows "good view (snd (link L oldpath newpath s))"
proof -
  obtain s1 where s1: "resolve_path L (normalize_path oldpath) s =
      (Inr (walk (afs_db s) ROOT_INO (split_path (normalize_path oldpath))), s1)"
    "afs_db s1 = afs_db s" "good view s1" by (rule resolve_good [OF good])
  have "parent_dir (afs_db s1) newpath" using dir s1(2) by simp
  with s1(3) show ?thesis
  proof (cases rule: resolve_parent_cases)
    case (found p s2)
    let ?n = "last (split_path (normalize_path newpath))" and ?d = "afs_db s2"
    note g = goodD [OF found(2)]
    show ?thesis
    proof (cases "\<exists>ino. walk (afs_db s) ROOT_INO (split_path (normalize_path oldpath)) = Some ino \<and>
        file_ino ?d ino \<and> map_of (fs_dentry ?d) (p, ?n) = None")
      case True
      then obtain ino r where new: "walk (afs_db s) ROOT_INO (split_path (normalize_path oldpath)) = Some ino"
        "select_inode ?d ino = Some r" "\<not> mode_is (r_mode r) S_IFDIR" "map_of (fs_dentry ?d) (p, ?n) = None"
        by (auto simp: file_ino_def live_def is_dir_ino_def)
      let ?d' = "add_nlink 1 ino (?d\<lparr>fs_dentry := fs_dentry ?d @ [((p, ?n), ino)]\<rparr>)"
      have "snd (link L oldpath newpath s) = dcache_insert L p ?n ino (s2\<lparr>afs_db := ?d'\<rparr>)"
        using new s1 found(1,3,6) lookup_child_keyed [OF g(4), of p ?n]
        by (simp add: link_def insert_dentry_def insert_row_fresh)
      moreover have "wf_db ?d'" unfolding add_nlink_def
        using new g(1) found(4) by (intro wf_link_entry [of _ _ r]) simp_all
      moreover have "data_ok (afs_chunk_size s2) ?d'" using g(2) by (intro data_ok_add_nlink) simp
      ultimately show ?thesis using new found(2) by (auto intro!: good_insert_entry)
    qed (use s1 found lookup_child_keyed [OF g(4)] in
        \<open>auto simp: link_def file_ino_def live_def is_dir_ino_def split: option.splits\<close>)
  qed (use s1 good in \<open>auto simp: link_def split: option.splits\<close>)
qed

end

section \<open>Contents\<close>

text \<open>A change of the chunks and the size of one file.\<close>

lemma file_rows_ok:
  assumes wf: "wf_db d" and ok: "data_ok cs d" and plain: "file_ino d i" and key: "keyed t"
    and frame: "\<And>ino k. ino \<noteq> i \<Longrightarrow> map_of t (ino, k) = map_of (fs_data d) (ino, k)"
    and kind: "\<And>r. kind_preserving h r" and d': "d' = update_inode i h (d\<lparr>fs_data := t\<rparr>)"
    and size: "select_size d' i < 2 ^ 63" and within: "chunks_within cs i (select_size d' i) t"
  shows "wf_db d'" and "data_ok cs d'" and "fs_dentry d' = fs_dentry d"
proof -
  have "map_of t k \<noteq> None \<Longrightarrow> fst k = i \<or> map_of (fs_data d) k \<noteq> None" for k
    using frame [of "fst k" "snd k"] by (cases "fst k = i") auto
  then have "wf_db (d\<lparr>fs_data := t\<rparr>)" using wf plain key by (intro wf_data_update)
  then show "wf_db d'" unfolding d' using kind by (intro wf_update_inode) auto
  show "fs_dentry d' = fs_dentry d" by (simp add: d')
  have live: "live d' = live d" by (auto simp: d' live_def table_simps fun_eq_iff)
  have "0 < cs" using ok by (simp add: data_ok_def)
  with plain key size within live
  have "file_inv \<lparr>f_ino = i, f_chunk_size = cs\<rparr> d'"
    by (auto simp: file_inv_iff file_ino_def live_def d' table_simps)
  then show "data_ok cs d'"
    by (rule data_ok_file_op [OF ok _ _ live]) (use frame in \<open>auto simp: d' table_simps\<close>)
qed

lemma path_write_data_ok:
  assumes wf: "wf_db d" and ok: "data_ok cs d" and plain: "file_ino d ino" and bound: "offset + length data < 2 ^ 63"
    and res: "path_write_data cs now ino cur new offset data d = Inr d'"
    and cur: "if new then (\<forall>k. map_of (fs_data d) (ino, k) = None) \<and> cur = 0 \<and> select_size d ino = offset + length data
      else cur = select_size d ino"
  shows "wf_db d'" and "data_ok cs d'" and "fs_dentry d' = fs_dentry d"
proof -
  have cs: "0 < cs" using ok by (simp add: data_ok_def)
  let ?touch = "\<lambda>r. r\<lparr>r_mtime := fst now, r_mtime_nsec := snd now\<rparr>"
  have "wf_db d' \<and> data_ok cs d' \<and> fs_dentry d' = fs_dentry d"
  proof (cases "data = []")
    case True
    with res have "d' = update_inode ino ?touch d" by (simp add: path_write_data_def)
    with wf ok show ?thesis
      using wf_update_inode [OF wf, of ino ?touch] data_ok_update_inode [OF ok, of ino ?touch]
      by (simp add: kind_preserving_def)
  next
    case False
    let ?w = "offset + length data"
    have live: "select_size d ino < 2 ^ 63" "chunks_within cs ino (select_size d ino) (fs_data d)" "select_inode d ino \<noteq> None"
      using ok plain by (auto simp: data_ok_def file_ino_def live_def)
    then have within: "chunks_within cs ino cur (fs_data d)"
      using cur by (auto simp: chunks_within_def split: if_splits)
    define t where "t = fold (path_write_chunk cs ino offset data cur ?w) [offset div cs..<Suc ((?w - 1) div cs)] (fs_data d)"
    note rows = path_write_rows [OF cs False bound within wf_dbD(3) [OF wf] t_def]
    note d' = path_write_data_eq [OF False cs bound t_def, of now new, unfolded res]
    show ?thesis
    proof (cases new)
      case True
      with d' have d1: "d' = update_inode ino (\<lambda>r. r) (d\<lparr>fs_data := t\<rparr>)" by (simp add: update_inode_id)
      then have "select_size d' ino = ?w" using cur True by (simp add: update_inode_id)
      with rows cur True bound file_rows_ok [OF wf ok plain rows(1,4) _ d1] show ?thesis
        by (simp add: kind_preserving_def)
    next
      case False
      let ?h = "\<lambda>r. r\<lparr>r_size := as_i64 (max cur ?w), r_mtime := fst now, r_mtime_nsec := snd now\<rparr>"
      from False d' have d1: "d' = update_inode ino ?h (d\<lparr>fs_data := t\<rparr>)" by simp
      then have "select_size d' ino = max cur ?w"
        using live cur False bound by (auto simp: table_simps as_u64_as_i64)
      with rows cur False bound live file_rows_ok [OF wf ok plain rows(1,4) _ d1] show ?thesis
        by (simp add: kind_preserving_def)
    qed
  qed
  then show "wf_db d'" "data_ok cs d'" "fs_dentry d' = fs_dentry d" by blast+
qed

text \<open>Extending a file that may have holes fails or keeps the chunks inside the new size.\<close>

lemma fold_insert_within:
  assumes "fold (\<lambda>idx t. Option.bind t (insert_row (ino, as_i64 idx) (g idx))) is (Some tab) = Some t"
    and "keyed tab" and "chunks_within cs ino n tab"
    and "\<And>i. i \<in> set is \<Longrightarrow> i < 2 ^ 63 \<and> length (g i) \<le> cs \<and> i * cs + length (g i) \<le> n"
  shows "keyed t \<and> chunks_within cs ino n t \<and> (\<forall>ino' k. ino' \<noteq> ino \<longrightarrow> map_of t (ino', k) = map_of tab (ino', k))"
  using assms
proof (induction "is" arbitrary: tab)
  case (Cons i "is")
  have none: "fold (\<lambda>idx t. Option.bind t (insert_row (ino, as_i64 idx) (g idx))) xs None = None" for xs
    by (induction xs) simp_all
  from Cons.prems(1) obtain t1 where t1: "insert_row (ino, as_i64 i) (g i) tab = Some t1"
    "fold (\<lambda>idx t. Option.bind t (insert_row (ino, as_i64 idx) (g idx))) is (Some t1) = Some t"
    by (cases "insert_row (ino, as_i64 i) (g i) tab") (auto simp: none)
  have i: "as_i64 i = int i" using Cons.prems(4) [of i] by (simp add: as_i64_small)
  have m: "map_of t1 = (map_of tab)((ino, int i) \<mapsto> g i)" using map_of_insert_row [OF t1(1)] i by simp
  have "chunks_within cs ino n t1"
    using Cons.prems(3) Cons.prems(4) [of i] by (auto simp: chunks_within_def m)
  with Cons.IH [OF t1(2) keyed_insert_row [OF Cons.prems(2) t1(1)]] Cons.prems(4) show ?case by (auto simp: m)
qed simp

lemma pad_last_cases:
  "pad_last cs ino cur n tab = tab \<or> (\<exists>c. pad_last cs ino cur n tab = update_row (ino, as_i64 ((cur - 1) div cs))
     (\<lambda>_. resize (if (cur - 1) div cs = (n - 1) div cs then (n - 1) mod cs + 1 else cs) 0 c) tab)"
proof (cases "map_of tab (ino, as_i64 ((cur - 1) div cs))")
  case (Some c)
  then show ?thesis unfolding pad_last_def Let_def by (simp only: option.case) metis
qed (simp add: pad_last_def)

lemma path_extend_within:
  assumes cs: "0 < cs" and n: "cur < n" "n < 2 ^ 63" and key: "keyed tab" and within: "chunks_within cs ino cur tab"
    and res: "path_extend cs ino cur n tab = Some t"
  shows "keyed t \<and> chunks_within cs ino n t \<and> (\<forall>ino' k. ino' \<noteq> ino \<longrightarrow> map_of t (ino', k) = map_of tab (ino', k))"
proof -
  let ?p = "pad_last cs ino cur n tab" and ?e = "(n - 1) div cs"
  define g where "g idx = replicate (if idx = ?e then (n - 1) mod cs + 1 else cs) (0 :: byte)" for idx
  have len: "length (g i) = min cs (n - i * cs) \<and> i * cs < n \<and> i < 2 ^ 63" if "i \<le> ?e" for i
  proof -
    have "?e \<le> n - 1" by (rule div_le_dividend)
    with that n have "i < 2 ^ 63" by linarith
    with that n(1) show ?thesis using chunk_len_eq [OF cs, of n i] by (simp add: g_def)
  qed
  have t: "fold (\<lambda>idx t. Option.bind t (insert_row (ino, as_i64 idx) (g idx)))
      [(if cur = 0 then 0 else (cur - 1) div cs + 1)..<Suc ?e] (Some ?p) = Some t"
    using res unfolding path_extend_def pad_last_def g_def Let_def .
  have key': "keyed ?p" using key by (auto simp: pad_last_def Let_def keyed_update_row split: option.splits)
  have frame: "\<forall>ino' k. ino' \<noteq> ino \<longrightarrow> map_of ?p (ino', k) = map_of tab (ino', k)"
    by (auto simp: pad_last_def Let_def table_simps split: option.splits)
  have within': "chunks_within cs ino n ?p"
    unfolding chunks_within_def
  proof (intro allI impI)
    fix k b assume b: "map_of ?p (ino, k) = Some b"
    let ?l = "(cur - 1) div cs"
    show "0 \<le> k \<and> length b \<le> cs \<and> nat k * cs + length b \<le> n"
    proof (cases "map_of tab (ino, k) = Some b")
      case True
      with within n(1) show ?thesis by (fastforce simp: chunks_within_def)
    next
      case False
      have "?l \<le> ?e" using n(1) by (intro div_le_mono) simp
      note l = len [OF this]
      then have i: "as_i64 ?l = int ?l" by (simp add: as_i64_small)
      have "?p = tab \<or> (\<exists>c. ?p = update_row (ino, int ?l) (\<lambda>_. resize (length (g ?l)) 0 c) tab)"
        using pad_last_cases [of cs ino cur n tab] unfolding i by (simp add: g_def)
      with b False obtain c where "?p = update_row (ino, int ?l) (\<lambda>_. resize (length (g ?l)) 0 c) tab" by auto
      with b False have "k = int ?l" "b = resize (length (g ?l)) 0 c"
        by (auto simp: map_of_update_row split: if_splits)
      moreover from l have "?l * cs + length (g ?l) \<le> n" by linarith
      ultimately show ?thesis using l by simp
    qed
  qed
  have "i < 2 ^ 63 \<and> length (g i) \<le> cs \<and> i * cs + length (g i) \<le> n"
    if "i \<in> set [(if cur = 0 then 0 else (cur - 1) div cs + 1)..<Suc ?e]" for i
  proof -
    from that have "i \<le> ?e" by auto
    from len [OF this] show ?thesis by linarith
  qed
  from fold_insert_within [OF t key' within' this] frame show ?thesis by simp
qed

text \<open>The rows that the path-based \<open>truncate\<close> leaves.\<close>

lemma truncate_rows_within:
  assumes cs: "0 < cs" and n: "n < 2 ^ 63" and key: "keyed tab" and within: "chunks_within cs ino cur tab"
    and res: "(if n = 0 then Some (delete_rows (\<lambda>k. fst k = ino) tab)
      else if n < cur then Some (path_shrink cs ino n tab)
      else if cur < n then path_extend cs ino cur n tab else Some tab) = Some t"
  shows "keyed t \<and> chunks_within cs ino n t \<and> (\<forall>ino' k. ino' \<noteq> ino \<longrightarrow> map_of t (ino', k) = map_of tab (ino', k))"
proof -
  consider "n = 0" | "0 < n" "n < cur" | "0 < n" "n = cur" | "cur < n" by linarith
  then show ?thesis
  proof cases
    case 2
    with res have "t = shrink_chunks cs ino n tab" by (simp add: path_shrink_eq cs)
    with key shrink_chunks_within [OF cs 2(1) n within] map_of_shrink_chunks [OF n] show ?thesis
      by (simp add: keyed_shrink_chunks)
  next
    case 4
    with res path_extend_within [OF cs 4 n key within] show ?thesis by simp
  qed (use res key within in \<open>auto simp: chunks_within_zero keyed_delete_rows table_simps\<close>)
qed

context lru_cache
begin

lemma good_path_pwrite:
  assumes good: "good view s" and dir: "parent_dir (afs_db s) path" and plain: "target_file (afs_db s) path"
    and bound: "offset + length data < 2 ^ 63"
  shows "good view (snd (path_pwrite L now now_m path offset data s))"
  using good dir
proof (cases rule: resolve_parent_cases)
  case (found p s1)
  let ?cs = "split_path (normalize_path path)" and ?n = "last (split_path (normalize_path path))"
  obtain s2 where s2: "resolve_path L (normalize_path path) s1 = (Inr (walk (afs_db s1) ROOT_INO ?cs), s2)"
    "afs_db s2 = afs_db s1" "good view s2" "afs_chunk_size s2 = afs_chunk_size s1" by (rule resolve_good [OF found(2)])
  note g = goodD [OF s2(3)]
  show ?thesis
  proof (cases "walk (afs_db s1) ROOT_INO ?cs")
    case (Some ino)
    then have plain_ino: "file_ino (afs_db s2) ino" using plain found(3) s2(2) by (simp add: target_file_def)
    show ?thesis
    proof (cases "path_write_data (afs_chunk_size s2) now_m ino (select_size (afs_db s2) ino) False offset data (afs_db s2)")
      case (Inr d)
      note db = path_write_data_ok [OF g(1,2) plain_ino bound Inr]
      then have "good view (s2\<lparr>afs_db := d\<rparr>)" by (intro good_same_entries [OF s2(3)]) simp_all
      with found(1) s2(1) Some Inr show ?thesis by (simp add: path_pwrite_def)
    qed (use found(1) s2 Some in \<open>simp add: path_pwrite_def\<close>)
  next
    case None
    let ?i = "inode_seq (afs_db s2) + 1"
    let ?r = "new_row DEFAULT_FILE_MODE 1 0 0 (as_i64 (offset + length data)) 0 now"
    let ?d = "new_entry ?r p ?n (afs_db s2)"
    have "walk (afs_db s1) ROOT_INO (butlast ?cs @ [?n]) = None" using None found(6) by simp
    then have free: "map_of (fs_dentry (afs_db s2)) (p, ?n) = None"
      using found(3,7) s2(2) unfolding walk_append by (auto split: option.splits)
    have wf: "wf_db ?d" using g(1) found(4) free s2(2) by (intro wf_new_entry) (simp_all add: new_row_def)
    have ok: "data_ok (afs_chunk_size s2) ?d"
      using g bound by (intro data_ok_new_entry) (simp_all add: new_row_def as_u64_as_i64)
    have plain_ino: "file_ino ?d ?i"
      using g(1) by (simp add: file_ino_def live_def is_dir_ino_def new_entry_sel new_row_def)
    have size: "select_size ?d ?i = offset + length data"
      using g(1) bound by (simp add: select_size_def new_entry_sel new_row_def as_u64_as_i64)
    have ins: "insert_dentry ?n p ?i (snd (insert_inode ?r (afs_db s2))) = Some ?d"
      "fst (insert_inode ?r (afs_db s2)) = ?i"
      using insert_inode_dentry free by simp_all
    show ?thesis
    proof (cases "path_write_data (afs_chunk_size s2) now_m ?i 0 True offset data ?d")
      case (Inr d)
      note db = path_write_data_ok [OF wf ok plain_ino bound Inr]
      have "coherent view (s2\<lparr>afs_db := d\<rparr>)"
        using g(3) free db(3) no_data_fresh [OF g(1)] size
        by (auto simp: coherent_def map_le_def map_of_snoc dom_def)
      with db no_data_fresh [OF g(1)] size have "good view (s2\<lparr>afs_db := d\<rparr>)" by (simp add: good_def)
      with found(1) s2(1) None Inr ins bound show ?thesis
        by (simp add: path_pwrite_def case_prod_beta Let_def u64_add_small)
    qed (use found(1) s2 None ins bound in \<open>simp add: path_pwrite_def case_prod_beta Let_def u64_add_small\<close>)
  qed
qed (simp add: path_pwrite_def)

lemma good_path_truncate:
  assumes good: "good view s" and plain: "target_file (afs_db s) path" and n: "n < 2 ^ 63"
  shows "good view (snd (path_truncate L now path n s))"
proof -
  obtain s1 where s1: "resolve_path L (normalize_path path) s =
      (Inr (walk (afs_db s) ROOT_INO (split_path (normalize_path path))), s1)"
    "afs_db s1 = afs_db s" "good view s1" by (rule resolve_good [OF good])
  note g = goodD [OF s1(3)]
  show ?thesis
  proof (cases "walk (afs_db s) ROOT_INO (split_path (normalize_path path))")
    case (Some ino)
    let ?d = "afs_db s1" and ?cs = "afs_chunk_size s1"
    let ?t = "if n = 0 then Some (delete_rows (\<lambda>k. fst k = ino) (fs_data ?d))
      else if n < select_size ?d ino then Some (path_shrink ?cs ino n (fs_data ?d))
      else if select_size ?d ino < n then path_extend ?cs ino (select_size ?d ino) n (fs_data ?d) else Some (fs_data ?d)"
    have plain_ino: "file_ino ?d ino" using plain Some s1(2) by (simp add: target_file_def)
    then have cs: "0 < ?cs" and within: "chunks_within ?cs ino (select_size ?d ino) (fs_data ?d)" and ex: "select_inode ?d ino \<noteq> None"
      using g(2) by (auto simp: data_ok_def file_ino_def live_def)
    have trunc: "path_truncate L now path n s = (case ?t of None \<Rightarrow> (Inl unique_violation, s1)
        | Some t \<Rightarrow> (Inr (), s1\<lparr>afs_db := update_inode ino
            (\<lambda>r. r\<lparr>r_size := as_i64 n, r_mtime := fst now, r_mtime_nsec := snd now\<rparr>) (?d\<lparr>fs_data := t\<rparr>)\<rparr>))"
      using s1(1) Some cs by (simp only: path_truncate_def Let_def prod.case sum.case option.case) simp
    show ?thesis
    proof (cases ?t)
      case (Some t)
      note rows = truncate_rows_within [OF cs n wf_dbD(3) [OF g(1)] within Some]
      let ?h = "\<lambda>r. r\<lparr>r_size := as_i64 n, r_mtime := fst now, r_mtime_nsec := snd now\<rparr>"
      let ?d' = "update_inode ino ?h (?d\<lparr>fs_data := t\<rparr>)"
      have "select_size ?d' ino = n" using ex n by (auto simp: table_simps as_u64_as_i64)
      with rows n file_rows_ok [OF g(1,2) plain_ino, of t ?h ?d'] have "wf_db ?d'" "data_ok ?cs ?d'"
        by (simp_all add: kind_preserving_def)
      then have "good view (s1\<lparr>afs_db := ?d'\<rparr>)" by (intro good_same_entries [OF s1(3)]) simp_all
      then show ?thesis unfolding trunc Some by simp
    qed (use s1(3) trunc in simp)
  qed (use s1 in \<open>simp add: path_truncate_def\<close>)
qed

end

section \<open>Queries\<close>

text \<open>A query may fill the cache and changes nothing else.\<close>

context lru_cache
begin

lemma good_readlink:
  assumes "good view s"
  shows "good view (snd (readlink L path s)) \<and> afs_db (snd (readlink L path s)) = afs_db s \<and>
    afs_chunk_size (snd (readlink L path s)) = afs_chunk_size s"
proof -
  obtain s1 where "resolve_path L (normalize_path path) s =
      (Inr (walk (afs_db s) ROOT_INO (split_path (normalize_path path))), s1)"
    "afs_db s1 = afs_db s" "good view s1" "afs_chunk_size s1 = afs_chunk_size s"
    by (rule resolve_good [OF assms])
  then show ?thesis by (simp add: readlink_def split: option.splits)
qed

lemma good_stat_loop:
  assumes "good view s"
  shows "good view (snd (stat_loop L missing n path s)) \<and> afs_db (snd (stat_loop L missing n path s)) = afs_db s \<and>
    afs_chunk_size (snd (stat_loop L missing n path s)) = afs_chunk_size s"
  using assms
proof (induction n arbitrary: path s)
  case (Suc n)
  obtain s1 where s1: "resolve_path L path s = (Inr (walk (afs_db s) ROOT_INO (split_path path)), s1)"
    "afs_db s1 = afs_db s" "good view s1" "afs_chunk_size s1 = afs_chunk_size s"
    by (rule resolve_good [OF Suc.prems])
  obtain res s2 where "readlink L path s1 = (res, s2)" by (cases "readlink L path s1")
  moreover from good_readlink [OF s1(3), of path] calculation
  have "good view s2" "afs_db s2 = afs_db s1" "afs_chunk_size s2 = afs_chunk_size s1" by simp_all
  ultimately show ?case using s1 Suc.IH [of s2] by (auto split: option.splits sum.splits)
qed simp

lemma stat_loop_plain:
  assumes good: "good view s" and w: "walk (afs_db s) ROOT_INO (split_path path) = Some ino"
    and r: "select_inode (afs_db s) ino = Some r" "\<not> mode_is (r_mode r) S_IFLNK" and n: "0 < n"
  shows "fst (stat_loop L missing n path s) = Inr (Some (build_stats_from_row ino r))"
proof -
  obtain s1 where "resolve_path L path s = (Inr (Some ino), s1)" "afs_db s1 = afs_db s"
    using resolve_good [OF good, of path] w by metis
  with r n show ?thesis by (cases n) simp_all
qed

lemma stat_loop_link:
  assumes good: "good view s" and w: "walk (afs_db s) ROOT_INO (split_path path) = Some ino"
    and norm: "split_path (normalize_path path) = split_path path"
    and r: "select_inode (afs_db s) ino = Some r" "mode_is (r_mode r) S_IFLNK"
    and t: "map_of (fs_symlink (afs_db s)) ino = Some target"
  obtains s' where "stat_loop L missing (Suc n) path s = stat_loop L missing n (follow_target path target) s'"
    and "good view s'" and "afs_db s' = afs_db s"
proof -
  obtain s1 where s1: "resolve_path L path s = (Inr (Some ino), s1)" "afs_db s1 = afs_db s" "good view s1"
    using resolve_good [OF good, of path] w by metis
  obtain s2 where s2: "resolve_path L (normalize_path path) s1 = (Inr (Some ino), s2)" "afs_db s2 = afs_db s1" "good view s2"
    using resolve_good [OF s1(3), of "normalize_path path"] w s1(2) norm by metis
  have "readlink L path s1 = (Inr (Some target), s2)" using s2 s1(2) r t by (simp add: readlink_def)
  with s1 s2 r that show thesis by simp
qed

lemma stat_loop_self:
  assumes "good view s" and w: "walk (afs_db s) ROOT_INO (split_path path) = Some ino"
    and norm: "split_path (normalize_path path) = split_path path"
    and r: "select_inode (afs_db s) ino = Some r" "mode_is (r_mode r) S_IFLNK"
    and t: "map_of (fs_symlink (afs_db s)) ino = Some target" and self: "follow_target path target = path"
  shows "fst (stat_loop L missing n path s) = Inl (Fs SymlinkLoop)"
  using assms(1) w r t
proof (induction n arbitrary: s)
  case (Suc n)
  obtain s' where s': "stat_loop L missing (Suc n) path s = stat_loop L missing n path s'" "good view s'" "afs_db s' = afs_db s"
    using stat_loop_link [OF Suc.prems(1,2) norm Suc.prems(3-5)] unfolding self by metis
  show ?case unfolding s'(1) by (rule Suc.IH [OF s'(2)]) (use Suc.prems s'(3) in simp_all)
qed simp

lemma stat_loop_dangling:
  assumes "good view s" and "walk (afs_db s) ROOT_INO (split_path path) = Some ino"
    and "split_path (normalize_path path) = split_path path"
    and "select_inode (afs_db s) ino = Some r" "mode_is (r_mode r) S_IFLNK"
    and "map_of (fs_symlink (afs_db s)) ino = Some target"
    and gone: "walk (afs_db s) ROOT_INO (split_path (follow_target path target)) = None"
  shows "fst (stat_loop L missing (Suc (Suc n)) path s) = Inr None"
proof -
  obtain s' where s': "stat_loop L missing (Suc (Suc n)) path s = stat_loop L missing (Suc n) (follow_target path target) s'"
    "good view s'" "afs_db s' = afs_db s"
    using stat_loop_link [OF assms(1-6), of missing "Suc n"] by metis
  obtain s1 where "resolve_path L (follow_target path target) s' = (Inr None, s1)"
    using resolve_good [OF s'(2), of "follow_target path target"] gone s'(3) by metis
  then show ?thesis unfolding s'(1) by simp
qed

lemma good_stat_with_conn:
  assumes "good view s"
  obtains res s' where "stat_with_conn L path s = (res, s')" "good view s'" "afs_db s' = afs_db s"
    "afs_chunk_size s' = afs_chunk_size s"
  using good_stat_loop [OF assms] that by (metis prod.collapse stat_with_conn_def)

end

section \<open>Removal and rename\<close>

lemma update_inode_commute:
  "i \<noteq> j \<Longrightarrow> update_inode i f (update_inode j g d) = update_inode j g (update_inode i f d)"
  by (auto simp: update_inode_def update_row_def intro!: db.equality)

lemma mode_dir_not_link: "mode_is m S_IFDIR \<Longrightarrow> \<not> mode_is m S_IFLNK"
  by (auto simp: mode_is_def S_IFDIR_def S_IFLNK_def)

lemma is_directory_row [simp]: "is_directory (build_stats_from_row ino r) = mode_is (r_mode r) S_IFDIR"
  by (simp add: is_directory_def build_stats_from_row_def mode_is_def)

lemma remove_db_ok:
  fixes now :: timestamp
  assumes wf: "wf_db d" and ok: "data_ok cs d" and bound: "length (fs_dentry d) \<le> 2 ^ 32"
    and e: "map_of (fs_dentry d) (p, n) = Some i" and leaf: "count_children d i = 0"
    and d2: "d2 = add_nlink (- 1) i (delete_dentry p n d)"
    and d3: "d3 = (if dir then touch_parent now p (add_nlink (- 1) p d2) else d2)"
    and d4: "d4 = (if get_link_count d3 i = 0 then purge_inode i d3 else d3)"
  shows "wf_db d4" "data_ok cs d4" "fs_dentry d4 = delete_rows (\<lambda>k. k = (p, n)) (fs_dentry d)"
proof -
  define dx where "dx = (if dir then touch_parent now p (add_nlink (- 1) p d) else d)"
  have p: "is_dir_ino d p" using wf_dbD(7) [OF wf e] by (simp add: dentry_ok_def)
  then have wfx: "wf_db dx" and okx: "data_ok cs dx"
    using wf ok by (auto simp: dx_def intro!: wf_touch_parent wf_add_nlink)
  have same: "fs_dentry dx = fs_dentry d" by (simp add: dx_def)
  have "count_children d p \<noteq> 0" using e unfolding count_children_0_iff by auto
  then have "i \<noteq> p" using leaf by auto
  then have d3x: "d3 = update_inode i (\<lambda>r. r\<lparr>r_nlink := r_nlink r + - 1\<rparr>) (delete_dentry p n dx)"
    by (simp add: d3 d2 dx_def touch_parent_def add_nlink_def delete_dentry_update_inode update_inode_commute [of p i])
  have "count_children dx i = 0" using leaf same by (simp add: count_children_def)
  note drop = drop_entry_ok [OF wfx okx _ _ this _ d3x d4]
  show "wf_db d4" "data_ok cs d4" "fs_dentry d4 = delete_rows (\<lambda>k. k = (p, n)) (fs_dentry d)"
    using drop(1-3) same bound e by simp_all
qed

text \<open>The entry a path names, as the parent's inode and the last component.\<close>

definition entry_of :: "db \<Rightarrow> string \<Rightarrow> i64 option \<times> string" where
  "entry_of d path = (let cs = split_path (normalize_path path) in (walk d ROOT_INO (butlast cs), last cs))"

context lru_cache
begin

lemma good_remove:
  assumes good: "good view s" and bound: "length (fs_dentry (afs_db s)) \<le> 2 ^ 32"
  shows "good view (snd (remove L now path s))"
proof -
  let ?cs = "split_path (normalize_path path)" and ?n = "last (split_path (normalize_path path))"
  obtain s1 where s1: "resolve_path L (normalize_path path) s = (Inr (walk (afs_db s) ROOT_INO ?cs), s1)"
    "afs_db s1 = afs_db s" "good view s1" by (rule resolve_good [OF good])
  obtain res s2 where s2: "stat_with_conn L (normalize_path path) s1 = (res, s2)" "good view s2" "afs_db s2 = afs_db s1"
    by (rule good_stat_with_conn [OF s1(3)])
  show ?thesis
  proof (cases "\<exists>i st. ?cs \<noteq> [] \<and> walk (afs_db s) ROOT_INO ?cs = Some i \<and> i \<noteq> ROOT_INO \<and> res = Inr (Some st) \<and>
      count_children (afs_db s2) i = 0")
    case True
    then obtain i st where ok: "?cs \<noteq> []" "walk (afs_db s) ROOT_INO ?cs = Some i" "i \<noteq> ROOT_INO" "res = Inr (Some st)"
      "count_children (afs_db s2) i = 0" by blast
    obtain p where p: "walk (afs_db s) ROOT_INO (butlast ?cs) = Some p" "map_of (fs_dentry (afs_db s)) (p, ?n) = Some i"
      by (rule walk_parent [OF ok(2,1)])
    have sp: "split_path (parent_path ?cs) = butlast ?cs" by (rule split_parent [OF split_normalize_clean ok(1)])
    obtain s3 where s3: "resolve_path L (parent_path ?cs) s2 = (Inr (Some p), s3)" "afs_db s3 = afs_db s2" "good view s3"
      using resolve_good [OF s2(2), of "parent_path ?cs"] p(1) s1(2) s2(3) unfolding sp by metis
    note g = goodD [OF s3(3)]
    define d2 where "d2 = add_nlink (- 1) i (delete_dentry p ?n (afs_db s3))"
    define d3 where "d3 = (if is_directory st then touch_parent now p (add_nlink (- 1) p d2) else d2)"
    define d4 where "d4 = (if get_link_count d3 i = 0 then purge_inode i d3 else d3)"
    have rm: "snd (remove L now path s) =
        (invalidate_shared_dentry_caches L (dcache_remove L p ?n s3))\<lparr>afs_db := d4\<rparr>"
      using ok s1(1) s2(1) s3(1) by (simp add: remove_def Let_def d2_def d3_def d4_def)
    have "wf_db d4" "data_ok (afs_chunk_size s3) d4"
      using remove_db_ok [OF g(1,2) _ _ _ d2_def d3_def d4_def] bound p(2) ok(5) s1(2) s2(3) s3(2) by simp_all
    moreover have "coherent view ((invalidate_shared_dentry_caches L (dcache_remove L p ?n s3))\<lparr>afs_db := d4\<rparr>)"
      using coherent_invalidate [of "(dcache_remove L p ?n s3)\<lparr>afs_db := d4\<rparr>"]
      by (simp add: invalidate_shared_dentry_caches_def dcache_clear_def coherent_def Let_def split: option.splits)
    moreover have "afs_chunk_size (invalidate_shared_dentry_caches L (dcache_remove L p ?n s3)) = afs_chunk_size s3"
      by (simp add: invalidate_shared_dentry_caches_def dcache_clear_def Let_def split: option.splits)
    ultimately show ?thesis unfolding rm by (simp add: good_def)
  next
    case False
    with s1 s2 good show ?thesis by (auto simp: remove_def Let_def split: option.splits sum.splits)
  qed
qed

lemma path_rename_replace_ok:
  assumes good: "good view s" and bound: "length (fs_dentry (afs_db s)) \<le> 2 ^ 32"
    and ne: "split_path to_path \<noteq> []" and norm: "split_path (normalize_path to_path) = split_path to_path"
    and p: "walk (afs_db s) ROOT_INO (butlast (split_path to_path)) = Some p"
  obtains (failed) e s' where "path_rename_replace L st to_path p (last (split_path to_path)) s = (Inl e, s')" "good view s'"
    | (cleared) d1 s' where "path_rename_replace L st to_path p (last (split_path to_path)) s = (Inr d1, s')"
        "good view s'" "afs_db s' = afs_db s"
        "wf_db d1 \<and> data_ok (afs_chunk_size s') d1 \<and>
          fs_dentry d1 = delete_rows (\<lambda>k. k = (p, last (split_path to_path))) (fs_dentry (afs_db s')) \<and>
          (\<forall>j. is_dir_ino (afs_db s') j \<longrightarrow> map_of (fs_dentry (afs_db s')) (p, last (split_path to_path)) = None \<or>
            count_children (afs_db s') j \<noteq> 0 \<longrightarrow> is_dir_ino d1 j)"
proof -
  let ?cs = "split_path to_path" and ?n = "last (split_path to_path)"
  have e: "map_of (fs_dentry (afs_db s)) (p, ?n) = walk (afs_db s) ROOT_INO ?cs"
    using walk_append [of "afs_db s" ROOT_INO "butlast ?cs" "[?n]"] ne p by (simp split: option.splits)
  obtain s1 where s1: "resolve_path L to_path s = (Inr (walk (afs_db s) ROOT_INO ?cs), s1)"
    "afs_db s1 = afs_db s" "good view s1" by (rule resolve_good [OF good])
  show thesis
  proof (cases "walk (afs_db s) ROOT_INO ?cs")
    case None
    with s1 e goodD [OF s1(3)] show thesis
      by (intro cleared [of "afs_db s1" s1])
        (auto simp: path_rename_replace_def intro!: delete_rows_none [symmetric])
  next
    case (Some i)
    obtain res s2 where s2: "stat_with_conn L to_path s1 = (res, s2)" "good view s2" "afs_db s2 = afs_db s1"
      by (rule good_stat_with_conn [OF s1(3)])
    note g = goodD [OF s2(2)]
    have i: "map_of (fs_dentry (afs_db s2)) (p, ?n) = Some i" using e Some s1(2) s2(3) by simp
    obtain r where r: "select_inode (afs_db s2) i = Some r"
      using wf_dbD(7) [OF g(1) i] by (auto simp: dentry_ok_def live_def)
    have dir: "res = Inr (Some (build_stats_from_row i r))" if "mode_is (r_mode r) S_IFDIR"
      using stat_loop_plain [OF s1(3), of "normalize_path to_path" i r MAX_SYMLINK_DEPTH InvalidPath] norm
        Some r s1(2) s2 that mode_dir_not_link
      by (simp add: stat_with_conn_def MAX_SYMLINK_DEPTH_def)
    define d1 where "d1 = add_nlink (- 1) i (delete_dentry p ?n (afs_db s2))"
    define d2 where "d2 = (if get_link_count d1 i = 0 then purge_inode i d1 else d1)"
    show thesis
    proof (cases "path_rename_replace L st to_path p ?n s = (Inr d2, s2)")
      case True
      have "is_dir_ino (afs_db s2) i \<Longrightarrow> count_children (afs_db s2) i = 0"
        using True dir r s1 s2(1) Some
        by (auto simp: path_rename_replace_def is_dir_ino_def Let_def split: if_splits)
      note drop = drop_entry_ok [OF g(1,2) _ i this _ d1_def [unfolded add_nlink_def] d2_def]
      show thesis using True drop bound s1(2) s2(2,3) i by (intro cleared [of d2 s2]) simp_all
    next
      case False
      then show thesis using s1 s2 Some failed
        by (auto simp: path_rename_replace_def Let_def d1_def d2_def split: option.splits sum.splits if_splits)
    qed
  qed
qed

lemma good_path_rename:
  assumes good: "good view s" and bound: "length (fs_dentry (afs_db s)) \<le> 2 ^ 32"
    and dir: "parent_dir (afs_db s) to" and neq: "entry_of (afs_db s) from \<noteq> entry_of (afs_db s) to"
  shows "good view (snd (rename L now from to s))"
proof -
  let ?f = "split_path (normalize_path from)" and ?t = "split_path (normalize_path to)"
  obtain s1 where s1: "resolve_path L (normalize_path from) s = (Inr (walk (afs_db s) ROOT_INO ?f), s1)"
    "afs_db s1 = afs_db s" "good view s1" by (rule resolve_good [OF good])
  obtain res s2 where s2: "stat_with_conn L (normalize_path from) s1 = (res, s2)" "good view s2" "afs_db s2 = afs_db s1"
    by (rule good_stat_with_conn [OF s1(3)])
  show ?thesis
  proof (cases "\<exists>src st. normalize_path from \<noteq> ''/'' \<and> walk (afs_db s) ROOT_INO ?f = Some src \<and> res = Inr (Some st) \<and>
      \<not> (is_directory st \<and> (starts_with (normalize_path from @ ''/'') (normalize_path to) \<or> normalize_path to = normalize_path from)) \<and>
      ?f \<noteq> []")
    case True
    then obtain src st where ok: "normalize_path from \<noteq> ''/''" "walk (afs_db s) ROOT_INO ?f = Some src" "res = Inr (Some st)"
      "\<not> (is_directory st \<and> (starts_with (normalize_path from @ ''/'') (normalize_path to) \<or> normalize_path to = normalize_path from))"
      "?f \<noteq> []" by blast
    obtain p where p: "walk (afs_db s) ROOT_INO (butlast ?f) = Some p" "map_of (fs_dentry (afs_db s)) (p, last ?f) = Some src"
      by (rule walk_parent [OF ok(2,5)])
    have sp: "split_path (parent_path ?f) = butlast ?f" by (rule split_parent [OF split_normalize_clean ok(5)])
    obtain s3 where s3: "resolve_path L (parent_path ?f) s2 = (Inr (Some p), s3)" "afs_db s3 = afs_db s2" "good view s3"
      using resolve_good [OF s2(2), of "parent_path ?f"] p(1) s1(2) s2(3) unfolding sp by metis
    have db3: "afs_db s3 = afs_db s" using s1(2) s2(3) s3(2) by simp
    have pd: "parent_dir (afs_db s3) to" using dir db3 by simp
    show ?thesis
      using s3(3) pd
    proof (cases rule: resolve_parent_cases)
      case (found q s4)
      have q: "walk (afs_db s4) ROOT_INO (butlast ?t) = Some q" using found(3,7) by simp
      have b: "length (fs_dentry (afs_db s4)) \<le> 2 ^ 32" using bound db3 found(3) by simp
      have ne: "(p, last ?f) \<noteq> (q, last ?t)"
        using neq p(1) found(7) db3 by (auto simp: entry_of_def Let_def)
      show ?thesis
        using found(2) b found(6) split_normalize_twice q
      proof (cases rule: path_rename_replace_ok [where st = st])
        case (cleared d1 s5)
        have "map_of (fs_dentry (afs_db s5)) (p, last ?f) = Some src" "is_dir_ino (afs_db s5) q"
          using p(2) db3 found(3,4) cleared(3) by simp_all
        then obtain d2 where "rename_move now src st p (last ?f) q (last ?t) d1 = Inr d2"
          "good view (dcache_insert L q (last ?t) src (dcache_remove L q (last ?t) (dcache_remove L p (last ?f) (s5\<lparr>afs_db := d2\<rparr>))))"
          by (rule good_move [OF cleared(2) _ _ ne cleared(4)])
        then show ?thesis using ok s1(1) s2(1,2) s3(1) found(1) cleared(1) by (simp add: rename_def Let_def)
      qed (use ok s1(1) s2(1,2) s3(1) found(1) in \<open>simp add: rename_def Let_def\<close>)
    qed (use ok s1(1) s2(1,2) s3(1) in \<open>simp add: rename_def Let_def\<close>)
  next
    case False
    with s1 s2 good show ?thesis by (auto simp: rename_def Let_def split: option.splits sum.splits)
  qed
qed

end

section \<open>The machine with both interfaces\<close>

datatype path_call =
    P_Lstat string
  | P_Stat string
  | P_Readlink string
  | P_Mkdir timestamp string u32 u32
  | P_Mknod timestamp string u32 "64 word" u32 u32
  | P_Create_File timestamp string u32 u32 u32
  | P_Symlink timestamp string string u32 u32
  | P_Link string string
  | P_Pwrite timestamp timestamp string u64 "byte list"
  | P_Truncate timestamp string u64
  | P_Remove timestamp string
  | P_Rename timestamp string string
  | P_Chown i64 "u32 option" "u32 option"

fun run_path_call :: "'c lru_ops \<Rightarrow> path_call \<Rightarrow> 'c agentfs \<Rightarrow> 'c agentfs" where
  "run_path_call L (P_Lstat path) s = snd (lstat L path s)"
| "run_path_call L (P_Stat path) s = snd (stat L path s)"
| "run_path_call L (P_Readlink path) s = snd (readlink L path s)"
| "run_path_call L (P_Mkdir now path uid gid) s = snd (mkdir L now path uid gid s)"
| "run_path_call L (P_Mknod now path mode rdev uid gid) s = snd (mknod L now path mode rdev uid gid s)"
| "run_path_call L (P_Create_File now path mode uid gid) s = snd (create_file L now path mode uid gid s)"
| "run_path_call L (P_Symlink now target path uid gid) s = snd (symlink L now target path uid gid s)"
| "run_path_call L (P_Link old new) s = snd (link L old new s)"
| "run_path_call L (P_Pwrite now now_m path offset data) s = snd (path_pwrite L now now_m path offset data s)"
| "run_path_call L (P_Truncate now path n) s = snd (path_truncate L now path n s)"
| "run_path_call L (P_Remove now path) s = snd (remove L now path s)"
| "run_path_call L (P_Rename now from to) s = snd (rename L now from to s)"
| "run_path_call L (P_Chown ino uid gid) s = s\<lparr>afs_db := chown_inode ino uid gid (afs_db s)\<rparr>"

text \<open>
  What the methods do not check themselves: the parent of a new name is a directory, what is
  written to or truncated is not a directory, a rename has two different names. Sizes stay
  below 2 to the 63, and there are at most 2 to the 32 entries.
\<close>

fun path_call_ok :: "path_call \<Rightarrow> db \<Rightarrow> bool" where
  "path_call_ok (P_Mkdir now path uid gid) d = parent_dir d path"
| "path_call_ok (P_Mknod now path mode rdev uid gid) d = parent_dir d path"
| "path_call_ok (P_Create_File now path mode uid gid) d = parent_dir d path"
| "path_call_ok (P_Symlink now target path uid gid) d = (parent_dir d path \<and> length target < 2 ^ 63)"
| "path_call_ok (P_Link old new) d = parent_dir d new"
| "path_call_ok (P_Pwrite now now_m path offset data) d =
     (parent_dir d path \<and> target_file d path \<and> offset + length data < 2 ^ 63)"
| "path_call_ok (P_Truncate now path n) d = (target_file d path \<and> n < 2 ^ 63)"
| "path_call_ok (P_Remove now path) d = (length (fs_dentry d) \<le> 2 ^ 32)"
| "path_call_ok (P_Rename now from to) d =
     (parent_dir d to \<and> entry_of d from \<noteq> entry_of d to \<and> length (fs_dentry d) \<le> 2 ^ 32)"
| "path_call_ok _ d = True"

inductive client_reachable :: "'c lru_ops \<Rightarrow> 'c agentfs \<Rightarrow> 'c agentfs \<Rightarrow> bool" for L s0 where
  opened: "client_reachable L s0 s0"
| request: "client_reachable L s0 s \<Longrightarrow> call_ok c (afs_db s) \<Longrightarrow> client_reachable L s0 (run_call L c s)"
| path_request: "client_reachable L s0 s \<Longrightarrow> path_call_ok c (afs_db s) \<Longrightarrow> client_reachable L s0 (run_path_call L c s)"

lemma good_chown_inode: "good view s \<Longrightarrow> good view (s\<lparr>afs_db := chown_inode ino uid gid (afs_db s)\<rparr>)"
  by (auto simp: chown_inode_def Let_def kind_preserving_def intro!: good_update_inode split: option.splits)

context lru_cache
begin

lemma good_lstat: "good view s \<Longrightarrow> good view (snd (lstat L path s))"
  using good_resolve [of s "normalize_path path"] by (auto simp: lstat_def split: prod.splits sum.splits option.splits)

lemma good_run_path_call: "good view s \<Longrightarrow> path_call_ok c (afs_db s) \<Longrightarrow> good view (run_path_call L c s)"
  by (cases c) (simp_all add: good_lstat stat_def good_stat_loop good_readlink good_path_mkdir good_path_mknod
      good_path_create_file good_path_symlink good_path_link good_path_pwrite good_path_truncate good_remove
      good_path_rename good_chown_inode)

lemma client_reachable_good: "client_reachable L s0 s \<Longrightarrow> good view s0 \<Longrightarrow> good view s"
  by (induction rule: client_reachable.induct) (auto intro: good_run_call good_run_path_call)

end

text \<open>A sequence of calls of both kinds.\<close>

fun client_calls_ok :: "'c lru_ops \<Rightarrow> (fs_call + path_call) list \<Rightarrow> 'c agentfs \<Rightarrow> bool" where
  "client_calls_ok L [] s = True"
| "client_calls_ok L (Inl c # cs) s = (call_ok c (afs_db s) \<and> client_calls_ok L cs (run_call L c s))"
| "client_calls_ok L (Inr c # cs) s = (path_call_ok c (afs_db s) \<and> client_calls_ok L cs (run_path_call L c s))"

definition run_client_call :: "'c lru_ops \<Rightarrow> fs_call + path_call \<Rightarrow> 'c agentfs \<Rightarrow> 'c agentfs" where
  "run_client_call L c s = (case c of Inl c \<Rightarrow> run_call L c s | Inr c \<Rightarrow> run_path_call L c s)"

lemma client_reachable_calls:
  "client_calls_ok L cs s \<Longrightarrow> client_reachable L s0 s \<Longrightarrow> client_reachable L s0 (fold (run_client_call L) cs s)"
  by (induction L cs s rule: client_calls_ok.induct)
    (auto simp: run_client_call_def intro: client_reachable.intros)

end
