(* ===== verification/Fs_Examples.thy ===== *)
theory Fs_Examples
  imports Fs_Path_Reachable
begin

text \<open>
  Small concrete file systems, at which the properties are applied: one of four-byte chunks, one
  reached by a sequence of mount requests, one reached by path-based calls and requests mixed.
\<close>

section \<open>A mount\<close>

definition demo_init :: "(dentry_key \<times> i64) list agentfs" where
  "demo_init = \<lparr>afs_db = initialize_schema 0 0 (7, 0) empty_db, afs_chunk_size = 4, dentry_cache = [],
     shared_epoch = Some 3, seen_epoch = 3\<rparr>"

definition demo_lru :: "(dentry_key \<times> i64) list lru_ops" where
  "demo_lru = recency_lru 2"

definition demo_fs :: "(dentry_key \<times> i64) list agentfs" where
  "demo_fs = snd (fs_create_file demo_lru (8, 0) ROOT_INO ''a'' 420 1 1 demo_init)"

definition demo_file :: agentfs_file where
  "demo_file = \<lparr>f_ino = 2, f_chunk_size = 4\<rparr>"

definition demo_db :: db where
  "demo_db = snd (file_pwrite demo_file (9, 0) 2 [1, 2, 3, 4, 5] (afs_db demo_fs))"

definition demo_start :: "(dentry_key \<times> i64) list agentfs" where
  "demo_start = from_pool 0 0 (7, 0) [] (Some 3) empty_db"

definition demo_calls :: "fs_call list" where
  "demo_calls =
     [Mkdir (1, 0) 1 ''d'' 493 0 0, Create_File (2, 0) 2 ''f'' 420 0 0, Link (3, 0) 3 1 ''g'',
      Write (4, 0) 3 1 [1, 2, 3], Unlink (5, 0) 2 ''f'', Rename (6, 0) (6, 0) 1 ''g'' 2 ''h'',
      Symlink (7, 0) 1 ''l'' ''/d/h'' 0 0]"

definition demo_run :: "(dentry_key \<times> i64) list agentfs" where
  "demo_run = fold (run_call demo_lru) demo_calls demo_start"

lemma demo_file_inv: "file_inv demo_file demo_db"
  by code_simp

lemma demo_content: "content 4 2 demo_db = [0, 0, 1, 2, 3, 4, 5]"
  by code_simp

lemma demo_lru_cache: "lru_cache demo_lru map_of"
  unfolding demo_lru_def by (rule recency.lru_cache_axioms)

lemma demo_reachable: "reachable demo_lru demo_start demo_run"
  unfolding demo_run_def
proof (rule reachable_calls)
  show "calls_ok demo_lru demo_calls demo_start" by code_simp
qed (rule reachable.start)

lemma demo_fs_inodes: "map (\<lambda>x. (fst x, r_size (snd x))) (fs_inode (afs_db demo_fs)) = [(1, 0), (2, 0)]"
  by code_simp

lemma demo_fs_data: "fs_data (afs_db demo_fs) = []"
  by code_simp

lemma demo_empty: "map_of ([] :: (dentry_key \<times> i64) list) = Map.empty"
  by simp

section \<open>A client of both interfaces\<close>

definition demo_client_calls :: "(fs_call + path_call) list" where
  "demo_client_calls =
     [Inr (P_Mkdir (1, 0) ''/d'' 0 0), Inr (P_Create_File (2, 0) ''/d/f'' 420 0 0),
      Inl (Write (3, 0) 3 0 [1, 2, 3]), Inr (P_Symlink (4, 0) ''gone'' ''/d/l'' 0 0),
      Inr (P_Symlink (5, 0) ''m'' ''/m'' 0 0), Inr (P_Rename (6, 0) ''/d/f'' ''/g''), Inr (P_Stat ''/g'')]"

definition demo_client :: "(dentry_key \<times> i64) list agentfs" where
  "demo_client = fold (run_client_call demo_lru) demo_client_calls demo_start"

definition demo_g :: agentfs_file where
  "demo_g = \<lparr>f_ino = 3, f_chunk_size = 4096\<rparr>"

lemma demo_client_reachable: "client_reachable demo_lru demo_start demo_client"
  unfolding demo_client_def
proof (rule client_reachable_calls)
  show "client_calls_ok demo_lru demo_client_calls demo_start" by code_simp
qed (rule client_reachable.opened)

lemma demo_g_names: "names_file demo_client ''/g'' demo_g"
  by code_simp

lemma demo_g_content: "content 4096 3 (afs_db demo_client) = [1, 2, 3]"
  by code_simp

lemma demo_g_dense: "dense demo_g (afs_db demo_client)"
proof -
  have data: "fs_data (afs_db demo_client) = [((3, 0), [1, 2, 3])]"
    and sz: "select_size (afs_db demo_client) 3 = 3" and ex: "select_inode (afs_db demo_client) 3 \<noteq> None" by code_simp+
  have "nat k * 4096 < 3 \<longleftrightarrow> k \<le> 0" for k by linarith
  then show ?thesis by (auto simp: dense_def demo_g_def data sz ex keyed_def tiles_def)
qed

end
