(* ===== verification/Fs_Faults.thy ===== *)
theory Fs_Faults
  imports Fs_Behaviour Fs_Examples
begin

unbundle bit_operations_syntax

text \<open>
  The methods of the trait \<open>FileSystem\<close> that change names (\<open>agentfs.rs\<close>), statement by statement: a database
  statement, the opening of a connection or the reading of the clock may fail, and the method then returns at once
  (\<open>.await?\<close>). What the statements before it did stays, unless they ran in a transaction: a transaction that is
  not committed is rolled back by the database. \<open>create_file\<close> and \<open>rename\<close> use one, the other methods do not.

  Without a failure each method is the function of the theory \<open>Fs_Namespace\<close>, which makes all its changes at once.
\<close>

section \<open>Statements that may fail\<close>

text \<open>
  A program gets the number of operations that still succeed, \<open>None\<close> when none fails, and the state. A failure has the error
  \<open>err\<close>, which is one of the database, of the clock or of the decoding of a row, not an \<open>FsError\<close>.
\<close>

type_synonym ('s, 'a) program = "nat option \<Rightarrow> 's \<Rightarrow> (sdk_error + 'a \<times> nat option) \<times> 's"

definition operation :: "sdk_error \<Rightarrow> ('s \<Rightarrow> sdk_error + 'a \<times> 's) \<Rightarrow> ('s, 'a) program" where
  "operation err f k s =
     (if k = Some 0 then (Inl err, s)
      else case f s of Inl e \<Rightarrow> (Inl e, s) | Inr (x, s') \<Rightarrow> (Inr (x, map_option (\<lambda>n. n - 1) k), s'))"

definition and_next :: "('s, 'a) program \<Rightarrow> ('a \<Rightarrow> ('s, 'b) program) \<Rightarrow> ('s, 'b) program" where
  "and_next m f k s = (case m k s of (Inl e, s') \<Rightarrow> (Inl e, s') | (Inr (x, k'), s') \<Rightarrow> f x k' s')"

definition give :: "'a \<Rightarrow> ('s, 'a) program" where
  "give x k s = (Inr (x, k), s)"

definition refuse :: "fs_error \<Rightarrow> ('s, 'a) program" where
  "refuse e k s = (Inl (Fs e), s)"

definition transaction :: "('s, 'a) program \<Rightarrow> ('s, 'a) program" where
  "transaction m k s = (case m k s of (Inl e, _) \<Rightarrow> (Inl e, s) | r \<Rightarrow> r)"

text \<open>A query, a statement, a statement that may violate a constraint, and a change of the entry cache, which cannot fail.\<close>

definition query :: "sdk_error \<Rightarrow> (db \<Rightarrow> 'a result) \<Rightarrow> ('c agentfs, 'a) program" where
  "query err f = operation err (\<lambda>s. case f (afs_db s) of Inl e \<Rightarrow> Inl e | Inr x \<Rightarrow> Inr (x, s))"

definition execute :: "sdk_error \<Rightarrow> (db \<Rightarrow> db) \<Rightarrow> ('c agentfs, unit) program" where
  "execute err f = operation err (\<lambda>s. Inr ((), s\<lparr>afs_db := f (afs_db s)\<rparr>))"

definition execute_unique :: "sdk_error \<Rightarrow> (db \<Rightarrow> db option) \<Rightarrow> ('c agentfs, unit) program" where
  "execute_unique err f = operation err (\<lambda>s.
     case f (afs_db s) of None \<Rightarrow> Inl unique_violation | Some d \<Rightarrow> Inr ((), s\<lparr>afs_db := d\<rparr>))"

definition insert_returning :: "sdk_error \<Rightarrow> inode_row \<Rightarrow> ('c agentfs, i64) program" where
  "insert_returning err row = operation err (\<lambda>s. case insert_inode row (afs_db s) of (ino, d) \<Rightarrow> Inr (ino, s\<lparr>afs_db := d\<rparr>))"

definition cache_change :: "('c agentfs \<Rightarrow> 'c agentfs) \<Rightarrow> ('c agentfs, unit) program" where
  "cache_change f k s = (Inr ((), k), f s)"

definition returned :: "(sdk_error + 'a \<times> nat option) \<times> 's \<Rightarrow> 'a result \<times> 's" where
  "returned = map_prod (map_sum id fst) id"

section \<open>The methods\<close>

definition mkdir_stmts ::
  "'c lru_ops \<Rightarrow> sdk_error \<Rightarrow> timestamp \<Rightarrow> i64 \<Rightarrow> string \<Rightarrow> u32 \<Rightarrow> u32 \<Rightarrow> u32 \<Rightarrow> ('c agentfs, stats) program" where
  "mkdir_stmts L err now parent_ino name mode uid gid =
     (if MAX_NAME_LEN < length name then refuse NameTooLong
      else and_next (query err (\<lambda>d. lookup_child d parent_ino name)) (\<lambda>found.
        if found \<noteq> None then refuse AlreadyExists
        else let dir_mode = S_IFDIR OR (mode AND PERM_MASK)
             in and_next (insert_returning err (new_row dir_mode 0 uid gid 0 0 now)) (\<lambda>ino.
                and_next (execute_unique err (insert_dentry name parent_ino ino)) (\<lambda>_.
                and_next (execute err (update_inode ino (\<lambda>r. r\<lparr>r_nlink := 2\<rparr>))) (\<lambda>_.
                and_next (execute err (\<lambda>d. touch_parent now parent_ino (add_nlink 1 parent_ino d))) (\<lambda>_.
                and_next (cache_change (dcache_insert L parent_ino name ino)) (\<lambda>_.
                give (new_stats ino dir_mode 2 uid gid 0 0 now))))))))"

definition create_file_stmts ::
  "'c lru_ops \<Rightarrow> sdk_error \<Rightarrow> timestamp \<Rightarrow> i64 \<Rightarrow> string \<Rightarrow> u32 \<Rightarrow> u32 \<Rightarrow> u32 \<Rightarrow> u64 \<Rightarrow> ('c agentfs, stats \<times> agentfs_file) program" where
  "create_file_stmts L err now parent_ino name mode uid gid chunk_size =
     (if MAX_NAME_LEN < length name then refuse NameTooLong
      else and_next (query err (\<lambda>d. lookup_child d parent_ino name)) (\<lambda>found.
        if found \<noteq> None then refuse AlreadyExists
        else let file_mode = S_IFREG OR (mode AND PERM_MASK)
             in and_next (transaction (
                  and_next (query err (\<lambda>d. Inr ())) (\<lambda>_.
                  and_next (insert_returning err (new_row file_mode 1 uid gid 0 0 now)) (\<lambda>ino.
                  and_next (execute_unique err (insert_dentry name parent_ino ino)) (\<lambda>_.
                  and_next (execute err (touch_parent now parent_ino)) (\<lambda>_.
                  and_next (query err (\<lambda>d. Inr ())) (\<lambda>_. give ino))))))) (\<lambda>ino.
                and_next (cache_change (dcache_insert L parent_ino name ino)) (\<lambda>_.
                give (new_stats ino file_mode 1 uid gid 0 0 now, \<lparr>f_ino = ino, f_chunk_size = chunk_size\<rparr>)))))"

definition mknod_stmts ::
  "'c lru_ops \<Rightarrow> sdk_error \<Rightarrow> timestamp \<Rightarrow> i64 \<Rightarrow> string \<Rightarrow> u32 \<Rightarrow> 64 word \<Rightarrow> u32 \<Rightarrow> u32 \<Rightarrow> ('c agentfs, stats) program" where
  "mknod_stmts L err now parent_ino name mode rdev uid gid =
     (if MAX_NAME_LEN < length name then refuse NameTooLong
      else and_next (query err (\<lambda>d. lookup_child d parent_ino name)) (\<lambda>found.
        if found \<noteq> None then refuse AlreadyExists
        else and_next (insert_returning err (new_row mode 0 uid gid 0 rdev now)) (\<lambda>ino.
             and_next (execute_unique err (insert_dentry name parent_ino ino)) (\<lambda>_.
             and_next (execute err (add_nlink 1 ino)) (\<lambda>_.
             and_next (execute err (touch_parent now parent_ino)) (\<lambda>_.
             and_next (cache_change (dcache_insert L parent_ino name ino)) (\<lambda>_.
             give (new_stats ino mode 1 uid gid 0 rdev now))))))))"

definition symlink_stmts ::
  "'c lru_ops \<Rightarrow> sdk_error \<Rightarrow> timestamp \<Rightarrow> i64 \<Rightarrow> string \<Rightarrow> string \<Rightarrow> u32 \<Rightarrow> u32 \<Rightarrow> ('c agentfs, stats) program" where
  "symlink_stmts L err now parent_ino name target uid gid =
     (if MAX_NAME_LEN < length name then refuse NameTooLong
      else and_next (query err (\<lambda>d. lookup_child d parent_ino name)) (\<lambda>found.
        if found \<noteq> None then refuse AlreadyExists
        else let mode = S_IFLNK OR 511; sz = as_i64 (length target)
             in and_next (insert_returning err (new_row mode 0 uid gid sz 0 now)) (\<lambda>ino.
                and_next (execute_unique err (\<lambda>d. map_option (\<lambda>t. d\<lparr>fs_symlink := t\<rparr>) (insert_row ino target (fs_symlink d)))) (\<lambda>_.
                and_next (execute_unique err (insert_dentry name parent_ino ino)) (\<lambda>_.
                and_next (execute err (add_nlink 1 ino)) (\<lambda>_.
                and_next (execute err (touch_parent now parent_ino)) (\<lambda>_.
                and_next (cache_change (dcache_insert L parent_ino name ino)) (\<lambda>_.
                give (new_stats ino mode 1 uid gid sz 0 now)))))))))"

text \<open>The cleanup of an inode whose link count, read again, is zero.\<close>

definition purge_stmts :: "sdk_error \<Rightarrow> i64 \<Rightarrow> ('c agentfs, unit) program" where
  "purge_stmts err ino =
     and_next (query err (\<lambda>d. Inr (get_link_count d ino))) (\<lambda>link_count.
       if link_count \<noteq> 0 then give ()
       else and_next (execute err (delete_data ino)) (\<lambda>_.
            and_next (execute err (delete_symlink ino)) (\<lambda>_.
            execute err (delete_inode ino))))"

definition unlink_stmts :: "'c lru_ops \<Rightarrow> sdk_error \<Rightarrow> timestamp \<Rightarrow> i64 \<Rightarrow> string \<Rightarrow> ('c agentfs, unit) program" where
  "unlink_stmts L err now parent_ino name =
     (if MAX_NAME_LEN < length name then refuse NameTooLong
      else and_next (query err (\<lambda>d. lookup_child d parent_ino name)) (\<lambda>found.
        case found of
          None \<Rightarrow> refuse NotFound
        | Some ino \<Rightarrow>
            and_next (query err (\<lambda>d. Inr (case select_inode d ino of Some r \<Rightarrow> mode_is (r_mode r) S_IFDIR | None \<Rightarrow> False))) (\<lambda>is_dir.
              if is_dir then refuse IsADirectory
              else and_next (execute err (delete_dentry parent_ino name)) (\<lambda>_.
                   and_next (cache_change (dcache_remove L parent_ino name)) (\<lambda>_.
                   and_next (execute err (touch_parent now parent_ino)) (\<lambda>_.
                   and_next (execute err (update_inode ino (\<lambda>r. r\<lparr>r_nlink := r_nlink r - 1,
                     r_ctime := fst now, r_ctime_nsec := snd now\<rparr>))) (\<lambda>_.
                   purge_stmts err ino)))))))"

definition rmdir_stmts :: "'c lru_ops \<Rightarrow> sdk_error \<Rightarrow> timestamp \<Rightarrow> i64 \<Rightarrow> string \<Rightarrow> ('c agentfs, unit) program" where
  "rmdir_stmts L err now parent_ino name =
     (if MAX_NAME_LEN < length name then refuse NameTooLong
      else and_next (query err (\<lambda>d. lookup_child d parent_ino name)) (\<lambda>found.
        case found of
          None \<Rightarrow> refuse NotFound
        | Some ino \<Rightarrow>
            if ino = ROOT_INO then refuse RootOperation
            else and_next (query err (\<lambda>d. Inr (select_inode d ino))) (\<lambda>row.
              case row of
                None \<Rightarrow> refuse NotFound
              | Some r \<Rightarrow>
                  if \<not> mode_is (r_mode r) S_IFDIR then refuse NotADirectory
                  else and_next (query err (\<lambda>d. Inr (count_children d ino))) (\<lambda>count.
                    if 0 < count then refuse NotEmpty
                    else and_next (execute err (delete_dentry parent_ino name)) (\<lambda>_.
                         and_next (cache_change (dcache_remove L parent_ino name)) (\<lambda>_.
                         and_next (execute err (add_nlink (- 1) ino)) (\<lambda>_.
                         and_next (execute err (\<lambda>d. touch_parent now parent_ino (add_nlink (- 1) parent_ino d))) (\<lambda>_.
                         and_next (query err (\<lambda>d. Inr (get_link_count d ino))) (\<lambda>link_count.
                           if link_count = 0 then execute err (delete_inode ino) else give ())))))))))"

definition rename_replace_stmts :: "sdk_error \<Rightarrow> timestamp \<Rightarrow> stats \<Rightarrow> i64 \<Rightarrow> string \<Rightarrow> ('c agentfs, unit) program" where
  "rename_replace_stmts err now_dec src_stats newparent_ino newname =
     and_next (query err (\<lambda>d. lookup_child d newparent_ino newname)) (\<lambda>found.
       case found of
         None \<Rightarrow> give ()
       | Some dst_ino \<Rightarrow>
           and_next (query err (\<lambda>d. Inr (getattr d dst_ino, count_children d dst_ino))) (\<lambda>(dst, count).
             case dst of
               None \<Rightarrow> refuse NotFound
             | Some dst_stats \<Rightarrow>
                 if is_directory dst_stats \<and> \<not> is_directory src_stats then refuse IsADirectory
                 else if \<not> is_directory dst_stats \<and> is_directory src_stats then refuse NotADirectory
                 else if is_directory dst_stats \<and> 0 < count then refuse NotEmpty
                 else and_next (execute err (delete_dentry newparent_ino newname)) (\<lambda>_.
                      and_next (execute err (update_inode dst_ino (\<lambda>r. r\<lparr>r_nlink := r_nlink r - 1,
                        r_ctime := fst now_dec, r_ctime_nsec := snd now_dec\<rparr>))) (\<lambda>_.
                      purge_stmts err dst_ino))))"

definition rename_move_stmts ::
  "sdk_error \<Rightarrow> timestamp \<Rightarrow> i64 \<Rightarrow> stats \<Rightarrow> i64 \<Rightarrow> string \<Rightarrow> i64 \<Rightarrow> string \<Rightarrow> ('c agentfs, unit) program" where
  "rename_move_stmts err now src_ino src_stats oldparent_ino oldname newparent_ino newname =
     and_next (execute_unique err (move_dentry (oldparent_ino, oldname) (newparent_ino, newname))) (\<lambda>_.
     and_next (if is_directory src_stats \<and> oldparent_ino \<noteq> newparent_ino
               then and_next (execute err (add_nlink (- 1) oldparent_ino)) (\<lambda>_. execute err (add_nlink 1 newparent_ino))
               else give ()) (\<lambda>_.
     and_next (execute err (update_inode src_ino (\<lambda>r. r\<lparr>r_ctime := fst now, r_ctime_nsec := snd now\<rparr>))) (\<lambda>_.
     and_next (execute err (touch_parent now oldparent_ino)) (\<lambda>_.
     if newparent_ino \<noteq> oldparent_ino then execute err (touch_parent now newparent_ino) else give ()))))"

definition rename_stmts ::
  "'c lru_ops \<Rightarrow> sdk_error \<Rightarrow> timestamp \<Rightarrow> timestamp \<Rightarrow> i64 \<Rightarrow> string \<Rightarrow> i64 \<Rightarrow> string \<Rightarrow> ('c agentfs, unit) program" where
  "rename_stmts L err now_dec now oldparent_ino oldname newparent_ino newname =
     (if MAX_NAME_LEN < length newname then refuse NameTooLong
      else and_next (query err (\<lambda>d. lookup_child d oldparent_ino oldname)) (\<lambda>found.
        case found of
          None \<Rightarrow> refuse NotFound
        | Some src_ino \<Rightarrow>
            if src_ino = ROOT_INO then refuse RootOperation
            else and_next (query err (\<lambda>d. Inr (getattr d src_ino))) (\<lambda>src.
              case src of
                None \<Rightarrow> refuse NotFound
              | Some src_stats \<Rightarrow>
                  and_next (transaction (
                    and_next (query err (\<lambda>d. Inr ())) (\<lambda>_.
                    and_next (rename_replace_stmts err now_dec src_stats newparent_ino newname) (\<lambda>_.
                    and_next (rename_move_stmts err now src_ino src_stats oldparent_ino oldname newparent_ino newname) (\<lambda>_.
                    query err (\<lambda>d. Inr ())))))) (\<lambda>_.
                  cache_change (\<lambda>s. dcache_insert L newparent_ino newname src_ino
                    (dcache_remove L newparent_ino newname (dcache_remove L oldparent_ino oldname s)))))))"

section \<open>Without a failure\<close>

lemmas program_defs = operation_def and_next_def give_def refuse_def transaction_def query_def execute_def execute_unique_def
  insert_returning_def cache_change_def returned_def

lemma mkdir_no_fault: "returned (mkdir_stmts L err now p n mode uid gid None s) = fs_mkdir L now p n mode uid gid s"
  by (auto simp: mkdir_stmts_def fs_mkdir_def program_defs Let_def split: sum.splits option.splits prod.splits)

lemma create_file_no_fault:
  "returned (create_file_stmts L err now p n mode uid gid (afs_chunk_size s) None s) = fs_create_file L now p n mode uid gid s"
  by (auto simp: create_file_stmts_def fs_create_file_def program_defs Let_def split: sum.splits option.splits prod.splits)

lemma mknod_no_fault: "returned (mknod_stmts L err now p n mode rdev uid gid None s) = fs_mknod L now p n mode rdev uid gid s"
  by (auto simp: mknod_stmts_def fs_mknod_def program_defs Let_def split: sum.splits option.splits prod.splits)

lemma symlink_no_fault: "returned (symlink_stmts L err now p n target uid gid None s) = fs_symlink_at L now p n target uid gid s"
  by (auto simp: symlink_stmts_def fs_symlink_at_def program_defs Let_def split: sum.splits option.splits prod.splits)

lemma dcache_remove_db: "dcache_remove L p n (s\<lparr>afs_db := d\<rparr>) = (dcache_remove L p n s)\<lparr>afs_db := d\<rparr>"
  "afs_db (dcache_remove L p n s) = afs_db s"
  by (simp_all add: dcache_remove_def)

lemma unlink_no_fault: "returned (unlink_stmts L err now p n None s) = fs_unlink L now p n s"
  by (auto simp: unlink_stmts_def fs_unlink_def purge_stmts_def purge_inode_def program_defs Let_def dcache_remove_db
      split: sum.splits option.splits prod.splits)

lemma rmdir_no_fault: "returned (rmdir_stmts L err now p n None s) = fs_rmdir L now p n s"
  by (auto simp: rmdir_stmts_def fs_rmdir_def program_defs Let_def dcache_remove_db split: sum.splits option.splits prod.splits)

lemma rename_replace_no_fault:
  "rename_replace_stmts err now_dec st np nn None s =
     (case rename_replace now_dec st np nn (afs_db s) of
        Inl e \<Rightarrow> (Inl e, snd (rename_replace_stmts err now_dec st np nn None s))
      | Inr d \<Rightarrow> (Inr ((), None), s\<lparr>afs_db := d\<rparr>))"
  by (auto simp: rename_replace_stmts_def rename_replace_def purge_stmts_def purge_inode_def program_defs Let_def
      split: sum.splits option.splits prod.splits)

lemma rename_move_no_fault:
  "rename_move_stmts err now i st op on np nn None s =
     (case rename_move now i st op on np nn (afs_db s) of
        Inl e \<Rightarrow> (Inl e, snd (rename_move_stmts err now i st op on np nn None s))
      | Inr d \<Rightarrow> (Inr ((), None), s\<lparr>afs_db := d\<rparr>))"
  by (auto simp: rename_move_stmts_def rename_move_def program_defs Let_def split: option.splits)

lemma rename_no_fault: "returned (rename_stmts L err now_dec now op on np nn None s) = fs_rename L now_dec now op on np nn s"
proof (cases "MAX_NAME_LEN < length nn \<or> (\<forall>i. lookup_child (afs_db s) op on \<noteq> Inr (Some i))")
  case True
  then show ?thesis
    by (auto simp: rename_stmts_def fs_rename_def program_defs split: sum.splits option.splits)
next
  case False
  then obtain i where i: "\<not> MAX_NAME_LEN < length nn" "lookup_child (afs_db s) op on = Inr (Some i)" by blast
  show ?thesis
  proof (cases "i = ROOT_INO \<or> getattr (afs_db s) i = None")
    case True
    with i show ?thesis by (auto simp: rename_stmts_def fs_rename_def program_defs)
  next
    case False
    then obtain st where st: "i \<noteq> ROOT_INO" "getattr (afs_db s) i = Some st" by blast
    show ?thesis
    proof (cases "rename_replace now_dec st np nn (afs_db s)")
      case (Inl e)
      then obtain s' where "rename_replace_stmts err now_dec st np nn None s = (Inl e, s')"
        using rename_replace_no_fault [of err now_dec st np nn s] by simp
      with i st Inl show ?thesis by (simp add: rename_stmts_def fs_rename_def program_defs)
    next
      case (Inr d)
      then have r: "rename_replace_stmts err now_dec st np nn None s = (Inr ((), None), s\<lparr>afs_db := d\<rparr>)"
        using rename_replace_no_fault [of err now_dec st np nn s] by simp
      from rename_move_no_fault [of err now i st op on np nn "s\<lparr>afs_db := d\<rparr>"]
      obtain s' where m: "rename_move_stmts err now i st op on np nn None (s\<lparr>afs_db := d\<rparr>) =
          (case rename_move now i st op on np nn d of Inl e \<Rightarrow> (Inl e, s') | Inr d' \<Rightarrow> (Inr ((), None), s\<lparr>afs_db := d'\<rparr>))"
        by (auto split: sum.splits)
      from i st Inr r m show ?thesis
        by (cases "rename_move now i st op on np nn d") (simp_all add: rename_stmts_def fs_rename_def program_defs)
    qed
  qed
qed

section \<open>What an error leaves behind\<close>

text \<open>
  A program is atomic, when every error leaves the state as it was; it decides first, when an \<open>FsError\<close>
  does; it only fails by a fault, when it ends in no \<open>FsError\<close>; it succeeds, when it ends in no error.
\<close>

definition atomic :: "('s, 'a) program \<Rightarrow> bool" where
  "atomic m \<longleftrightarrow> (\<forall>k s e s'. m k s = (Inl e, s') \<longrightarrow> s' = s)"

definition decides_first :: "('s, 'a) program \<Rightarrow> bool" where
  "decides_first m \<longleftrightarrow> (\<forall>k s x s'. m k s = (Inl (Fs x), s') \<longrightarrow> s' = s)"

definition fault_only :: "('s, 'a) program \<Rightarrow> bool" where
  "fault_only m \<longleftrightarrow> (\<forall>k s x s'. m k s \<noteq> (Inl (Fs x), s'))"

definition succeeds :: "('s, 'a) program \<Rightarrow> bool" where
  "succeeds m \<longleftrightarrow> (\<forall>k s e s'. m k s \<noteq> (Inl e, s'))"

lemma atomicD: "atomic m \<Longrightarrow> m k s = (Inl e, s') \<Longrightarrow> s' = s"
  by (simp add: atomic_def)

lemma decides_firstD: "decides_first m \<Longrightarrow> m k s = (Inl (Fs x), s') \<Longrightarrow> s' = s"
  by (simp add: decides_first_def)

lemma and_next_error:
  "and_next m f k s = (Inl e, s') \<Longrightarrow>
     m k s = (Inl e, s') \<or> (\<exists>x k1 s1. m k s = (Inr (x, k1), s1) \<and> f x k1 s1 = (Inl e, s'))"
  by (auto simp: and_next_def split: prod.splits sum.splits)

lemma query_reads: "query err f k s = (r, s') \<Longrightarrow> s' = s"
  by (auto simp: query_def operation_def split: sum.splits if_splits)

lemma atomic_rules:
  "atomic (refuse e)" "atomic (give x)" "atomic (transaction m)" "atomic (query err q)"
  by (auto simp: atomic_def refuse_def give_def transaction_def query_reads split: prod.splits sum.splits)

lemma succeeds_rules:
  "succeeds (give x)" "succeeds (cache_change g)"
  "succeeds m \<Longrightarrow> (\<And>x. succeeds (f x)) \<Longrightarrow> succeeds (and_next m f)"
  unfolding succeeds_def give_def cache_change_def by (blast dest: and_next_error)+

lemma atomic_query_then: "(\<And>x. atomic (f x)) \<Longrightarrow> atomic (and_next (query err q) f)"
  unfolding atomic_def by (metis and_next_error query_reads)

lemma atomic_transaction_then: "(\<And>x. succeeds (f x)) \<Longrightarrow> atomic (and_next (transaction m) f)"
  unfolding succeeds_def using atomic_rules(3) [of m] unfolding atomic_def by (metis and_next_error)

lemma decides_first_refuse: "decides_first (refuse e)"
  by (simp add: decides_first_def refuse_def)

lemma decides_first_query: "(\<And>x. decides_first (f x)) \<Longrightarrow> decides_first (and_next (query err q) f)"
  unfolding decides_first_def by (metis and_next_error query_reads)

lemma fault_only_query:
  assumes "\<forall>x. err \<noteq> Fs x"
  shows "fault_only (query err (\<lambda>d. Inr (f d)))"
  using assms by (auto simp: fault_only_def query_def operation_def split: sum.splits)

lemma fault_only_execute:
  assumes "\<forall>x. err \<noteq> Fs x"
  shows "fault_only (execute err g)" "fault_only (execute_unique err h)" "fault_only (insert_returning err r)"
  using assms by (auto simp: fault_only_def execute_def execute_unique_def insert_returning_def operation_def
      unique_violation_def split: option.splits prod.splits)

lemma fault_only_rules:
  "fault_only (give x)" "fault_only (cache_change c)"
  "fault_only m \<Longrightarrow> (\<And>x. fault_only (f x)) \<Longrightarrow> fault_only (and_next m f)"
  unfolding fault_only_def give_def cache_change_def by (blast dest: and_next_error)+

lemma decides_first_write:
  assumes "\<forall>x. err \<noteq> Fs x"
  shows "(\<And>x. fault_only (f x)) \<Longrightarrow> decides_first (and_next (insert_returning err r) f)"
    "(\<And>x. fault_only (g x)) \<Longrightarrow> decides_first (and_next (execute err h) g)"
  using fault_only_rules(3) [OF fault_only_execute(3) [OF assms]] fault_only_rules(3) [OF fault_only_execute(1) [OF assms]]
  unfolding fault_only_def decides_first_def by blast+

lemma fault_only_purge:
  assumes "\<forall>x. err \<noteq> Fs x"
  shows "fault_only (purge_stmts err i)"
  by (auto simp: purge_stmts_def intro!: fault_only_rules fault_only_query fault_only_execute assms)

lemma create_file_atomic: "atomic (create_file_stmts L err now p n mode uid gid cs)"
  unfolding create_file_stmts_def Let_def
  by (auto intro!: atomic_query_then atomic_transaction_then atomic_rules succeeds_rules)

lemma rename_atomic: "atomic (rename_stmts L err now_dec now op on np nn)"
  unfolding rename_stmts_def
  by (auto intro!: atomic_query_then atomic_transaction_then atomic_rules succeeds_rules split: option.split)

lemma methods_decide_first:
  assumes "\<forall>x. err \<noteq> Fs x"
  shows "decides_first (mkdir_stmts L err now p n mode uid gid)" "decides_first (mknod_stmts L err now p n mode rdev uid gid)"
    "decides_first (symlink_stmts L err now p n target uid gid)" "decides_first (unlink_stmts L err now p n)"
    "decides_first (rmdir_stmts L err now p n)"
  unfolding mkdir_stmts_def mknod_stmts_def symlink_stmts_def unlink_stmts_def rmdir_stmts_def Let_def
  by (auto intro!: decides_first_refuse decides_first_query decides_first_write fault_only_rules fault_only_execute
      fault_only_query fault_only_purge assms split: option.split)

lemma fault_free_error: "returned r = q \<Longrightarrow> r = (Inl e, s') \<Longrightarrow> q = (Inl e, s')"
  by (auto simp: returned_def)

lemma no_fault_errors:
  assumes "wf_db (afs_db s)"
  shows "mkdir_stmts L err now p n mode uid gid None s = (Inl e, s') \<Longrightarrow> s' = s"
    "mknod_stmts L err now p n mode rdev uid gid None s = (Inl e, s') \<Longrightarrow> s' = s"
    "symlink_stmts L err now p n target uid gid None s = (Inl e, s') \<Longrightarrow> s' = s"
    "unlink_stmts L err now p n None s = (Inl e, s') \<Longrightarrow> s' = s"
    "rmdir_stmts L err now p n None s = (Inl e, s') \<Longrightarrow> s' = s"
  by (erule fs_create_error(1) [OF assms fault_free_error [OF mkdir_no_fault]]
      fs_create_error(2) [OF assms fault_free_error [OF mknod_no_fault]]
      fs_create_error(3) [OF assms fault_free_error [OF symlink_no_fault]]
      fs_unlink_error [OF fault_free_error [OF unlink_no_fault]] fs_rmdir_error [OF fault_free_error [OF rmdir_no_fault]])+

section \<open>Properties\<close>

text \<open>
  The methods that change names, run statement by statement with no failing statement, are the functions the other
  theorems are about: same result, same tables, same cache.
\<close>

theorem statements_without_fault:
  "returned (mkdir_stmts L err now p n mode uid gid None s) = fs_mkdir L now p n mode uid gid s \<and>
   returned (create_file_stmts L err now p n mode uid gid (afs_chunk_size s) None s) = fs_create_file L now p n mode uid gid s \<and>
   returned (mknod_stmts L err now p n mode rdev uid gid None s) = fs_mknod L now p n mode rdev uid gid s \<and>
   returned (symlink_stmts L err now p n target uid gid None s) = fs_symlink_at L now p n target uid gid s \<and>
   returned (unlink_stmts L err now p n None s) = fs_unlink L now p n s \<and>
   returned (rmdir_stmts L err now p n None s) = fs_rmdir L now p n s \<and>
   returned (rename_stmts L err now_dec now p n p' n' None s) = fs_rename L now_dec now p n p' n' s"
  by (simp add: mkdir_no_fault create_file_no_fault mknod_no_fault symlink_no_fault unlink_no_fault rmdir_no_fault
      rename_no_fault)

text \<open>
  C8. A failing call leaves the instance as it was, tables and cache, in these cases. \<open>create_file\<close> and
  \<open>rename\<close>: whatever fails and wherever it fails, a database statement included, since their changes run in a
  transaction and the cache is changed after the commit. \<open>mkdir\<close>, \<open>mknod\<close>, \<open>symlink\<close>, \<open>unlink\<close> and \<open>rmdir\<close>: when the
  method refuses the call with an \<open>FsError\<close>, or when no statement fails and the tables are consistent. A statement
  that fails between their writes does leave a part of the changes: the next theorem.
\<close>

theorem failed_calls_change_nothing:
  assumes "wf_db (afs_db s)" and "\<forall>x. err \<noteq> Fs x"
    and "create_file_stmts L err now p n mode uid gid cs k s = (Inl e, s') \<or>
      rename_stmts L err now_dec now p n p' n' k s = (Inl e, s') \<or>
      (k = None \<or> (\<exists>x. e = Fs x)) \<and>
      (mkdir_stmts L err now p n mode uid gid k s = (Inl e, s') \<or> mknod_stmts L err now p n mode rdev uid gid k s = (Inl e, s') \<or>
       symlink_stmts L err now p n target uid gid k s = (Inl e, s') \<or> unlink_stmts L err now p n k s = (Inl e, s') \<or>
       rmdir_stmts L err now p n k s = (Inl e, s'))"
  shows "s' = s"
  using assms(3) atomicD [OF create_file_atomic] atomicD [OF rename_atomic] decides_firstD [OF methods_decide_first(1) [OF assms(2)]]
    decides_firstD [OF methods_decide_first(2) [OF assms(2)]] decides_firstD [OF methods_decide_first(3) [OF assms(2)]]
    decides_firstD [OF methods_decide_first(4) [OF assms(2)]] decides_firstD [OF methods_decide_first(5) [OF assms(2)]]
    no_fault_errors [OF assms(1)] by metis

theorem failed_calls_change_nothing_witness:
  "snd (mkdir_stmts demo_lru (Database ''disk I/O error'') (9, 0) 1 ''d'' 0 0 0 (Some 5) demo_run) = demo_run \<and>
   snd (create_file_stmts demo_lru (Database ''disk I/O error'') (9, 0) 1 ''new'' 0 0 0 4096 (Some 4) demo_run) = demo_run"
proof -
  let ?e = "Database ''disk I/O error''"
  let ?m = "mkdir_stmts demo_lru ?e (9, 0) 1 ''d'' 0 0 0 (Some 5) demo_run"
  let ?c = "create_file_stmts demo_lru ?e (9, 0) 1 ''new'' 0 0 0 4096 (Some 4) demo_run"
  have wf: "wf_db (afs_db demo_run)" and fault: "\<forall>x. ?e \<noteq> Fs x" by code_simp simp
  have refused: "\<exists>x. Fs AlreadyExists = Fs x" by blast
  have "map_sum id (\<lambda>_. ()) (fst ?m) = Inl (Fs AlreadyExists)" by code_simp
  then have m: "?m = (Inl (Fs AlreadyExists), snd ?m)" by (cases "fst ?m"; cases ?m) auto
  have "map_sum id (\<lambda>_. ()) (fst ?c) = Inl ?e" by code_simp
  then have c: "?c = (Inl ?e, snd ?c)" by (cases "fst ?c"; cases ?c) auto
  from failed_calls_change_nothing [OF wf fault disjI1 [OF c]]
    failed_calls_change_nothing [OF wf fault disjI2 [OF disjI2 [OF conjI [OF disjI2 [OF refused] disjI1 [OF m]]]]]
  show ?thesis by blast
qed



end
