(* ===== verification/State_Result.thy ===== *)
theory State_Result
  imports Fs_Types
begin

text \<open>
  Methods that change a state and may fail, as functions from a state to a result and the next
  state. \<open>and_then\<close> is the sequence of two calls with the \<open>?\<close> operator on the first: an
  error ends the method in the state reached so far. \<open>triple P m Q\<close> says that from a state with
  \<open>P\<close> the method ends with a result and a state related by \<open>Q\<close>, errors included; its rules,
  collected in \<open>triple_intros\<close>, follow the shape of a method.
\<close>

named_theorems triple_intros

type_synonym ('s, 'a) action = "'s \<Rightarrow> 'a result \<times> 's"

section \<open>Methods\<close>

definition ok :: "'a \<Rightarrow> ('s, 'a) action" where
  "ok x = (\<lambda>s. (Inr x, s))"

definition fail :: "sdk_error \<Rightarrow> ('s, 'a) action" where
  "fail e = (\<lambda>s. (Inl e, s))"

definition and_then :: "('s, 'a) action \<Rightarrow> ('a \<Rightarrow> ('s, 'b) action) \<Rightarrow> ('s, 'b) action" where
  "and_then m k = (\<lambda>s. case m s of (Inl e, s') \<Rightarrow> (Inl e, s') | (Inr x, s') \<Rightarrow> k x s')"

text \<open>Reading and updating the state; a call that only reads it and may fail.\<close>

definition gets :: "('s \<Rightarrow> 'a) \<Rightarrow> ('s, 'a) action" where
  "gets f = (\<lambda>s. (Inr (f s), s))"

definition modify :: "('s \<Rightarrow> 's) \<Rightarrow> ('s, unit) action" where
  "modify f = (\<lambda>s. (Inr (), f s))"

definition reads :: "('s \<Rightarrow> 'a result) \<Rightarrow> ('s, 'a) action" where
  "reads f = (\<lambda>s. (f s, s))"

text \<open>\<open>opt.ok_or(e)?\<close>.\<close>

definition ok_or :: "sdk_error \<Rightarrow> 'a option \<Rightarrow> ('s, 'a) action" where
  "ok_or e x = (case x of Some v \<Rightarrow> ok v | None \<Rightarrow> fail e)"

lemmas action_defs = ok_def fail_def gets_def modify_def reads_def

lemma and_then_Inl: "m s = (Inl e, s') \<Longrightarrow> and_then m k s = (Inl e, s')"
  by (simp add: and_then_def)

lemma and_then_Inr: "m s = (Inr x, s') \<Longrightarrow> and_then m k s = k x s'"
  by (simp add: and_then_def)

lemma and_then_cases:
  assumes "and_then m k s = (r, s')"
  obtains (first) e where "m s = (Inl e, s')" and "r = Inl e"
    | (second) x s1 where "m s = (Inr x, s1)" and "k x s1 = (r, s')"
  using assms by (auto simp: and_then_def split: prod.splits sum.splits)

lemma ok_or_simps [simp]: "ok_or e (Some v) = ok v" "ok_or e None = fail e"
  by (simp_all add: ok_or_def)

lemma and_then_pure [simp]:
  "and_then (reads (\<lambda>_. Inl e)) k = fail e" "and_then (reads (\<lambda>_. Inr v)) k = k v"
  "and_then (ok v) k = k v" "and_then (fail e) k = fail e"
  by (simp_all add: fun_eq_iff and_then_def action_defs)

section \<open>Triples\<close>

definition triple :: "('s \<Rightarrow> bool) \<Rightarrow> ('s, 'a) action \<Rightarrow> ('a result \<Rightarrow> 's \<Rightarrow> bool) \<Rightarrow> bool" where
  "triple P m Q \<longleftrightarrow> (\<forall>s. P s \<longrightarrow> (case m s of (r, s') \<Rightarrow> Q r s'))"

text \<open>A property of the state that a method keeps, whatever its result.\<close>

abbreviation keeps :: "('s \<Rightarrow> bool) \<Rightarrow> ('s, 'a) action \<Rightarrow> bool" where
  "keeps P m \<equiv> triple P m (\<lambda>_. P)"

lemma tripleI: "(\<And>s r s'. P s \<Longrightarrow> m s = (r, s') \<Longrightarrow> Q r s') \<Longrightarrow> triple P m Q"
  by (auto simp: triple_def)

lemma tripleD: "triple P m Q \<Longrightarrow> P s \<Longrightarrow> m s = (r, s') \<Longrightarrow> Q r s'"
  by (auto simp: triple_def)

lemma keepsD: "keeps P m \<Longrightarrow> P s \<Longrightarrow> P (snd (m s))"
  by (metis prod.collapse tripleD)

lemma triple_weaken:
  "triple P' m Q' \<Longrightarrow> (\<And>s. P s \<Longrightarrow> P' s) \<Longrightarrow> (\<And>r s. Q' r s \<Longrightarrow> Q r s) \<Longrightarrow> triple P m Q"
  by (fastforce simp: triple_def)

lemma triple_and_then:
  assumes "triple P m R" and "\<And>e s. R (Inl e) s \<Longrightarrow> Q (Inl e) s" and "\<And>x. triple (R (Inr x)) (k x) Q"
  shows "triple P (and_then m k) Q"
  using assms by (fastforce simp: triple_def and_then_def split: prod.splits sum.splits)

lemma triple_then_keep:
  assumes "keeps P m" and "\<And>e s. P s \<Longrightarrow> Q (Inl e) s" and "\<And>x. triple P (k x) Q"
  shows "triple P (and_then m k) Q"
  by (rule triple_and_then [OF assms(1)]) (use assms in blast)+

lemma triple_assuming: "(\<And>s. P s \<Longrightarrow> F) \<Longrightarrow> (F \<Longrightarrow> triple P m Q) \<Longrightarrow> triple P m Q"
  by (auto simp: triple_def)

lemma triple_ex: "(\<And>d. triple (P d) m Q) \<Longrightarrow> triple (\<lambda>s. \<exists>d. P d s) m Q"
  by (fastforce simp: triple_def)

lemma triple_pure: "(F \<Longrightarrow> triple P m Q) \<Longrightarrow> triple (\<lambda>s. P s \<and> F) m Q"
  by (auto simp: triple_def)

lemma triple_read_then:
  assumes "\<And>e s. P s \<Longrightarrow> Q (Inl e) s" and "\<And>v. x = Inr v \<Longrightarrow> triple P (k v) Q"
  shows "triple P (and_then (reads (\<lambda>_. x)) k) Q"
  using assms by (cases x) (auto simp: triple_def and_then_def reads_def)

lemma triple_ok_or_then:
  assumes "\<And>s. P s \<Longrightarrow> Q (Inl e) s" and "\<And>v. x = Some v \<Longrightarrow> triple P (k v) Q"
  shows "triple P (and_then (ok_or e x) k) Q"
  using assms by (cases x) (auto simp: triple_def and_then_def action_defs)

lemma keeps_and_then [triple_intros]: "keeps P m \<Longrightarrow> (\<And>x. keeps P (k x)) \<Longrightarrow> keeps P (and_then m k)"
  by (rule triple_and_then)

lemma triple_ok: "(\<And>s. P s \<Longrightarrow> Q (Inr x) s) \<Longrightarrow> triple P (ok x) Q"
  by (simp add: triple_def action_defs)

lemma triple_fail: "(\<And>s. P s \<Longrightarrow> Q (Inl e) s) \<Longrightarrow> triple P (fail e) Q"
  by (simp add: triple_def action_defs)

lemma triple_gets: "(\<And>s. P s \<Longrightarrow> Q (Inr (f s)) s) \<Longrightarrow> triple P (gets f) Q"
  by (simp add: triple_def action_defs)

lemma triple_modify [triple_intros]: "(\<And>s. P s \<Longrightarrow> Q (Inr ()) (f s)) \<Longrightarrow> triple P (modify f) Q"
  by (simp add: triple_def action_defs)

lemma triple_reads: "(\<And>s. P s \<Longrightarrow> Q (f s) s) \<Longrightarrow> triple P (reads f) Q"
  by (simp add: triple_def action_defs)

lemma triple_ok_or:
  "(\<And>s v. x = Some v \<Longrightarrow> P s \<Longrightarrow> Q (Inr v) s) \<Longrightarrow> (\<And>s. x = None \<Longrightarrow> P s \<Longrightarrow> Q (Inl e) s) \<Longrightarrow> triple P (ok_or e x) Q"
  by (cases x) (simp_all add: triple_def action_defs)

lemma keeps_ok [triple_intros]: "keeps P (ok x)"
  by (rule triple_ok)

lemma keeps_fail [triple_intros]: "keeps P (fail e)"
  by (rule triple_fail)

lemma keeps_gets [triple_intros]: "keeps P (gets f)"
  by (rule triple_gets)

lemma keeps_reads [triple_intros]: "keeps P (reads f)"
  by (rule triple_reads)

lemma keeps_ok_or [triple_intros]: "keeps P (ok_or e x)"
  by (rule triple_ok_or)

lemma triple_if [triple_intros]:
  "(b \<Longrightarrow> triple P m Q) \<Longrightarrow> (\<not> b \<Longrightarrow> triple P m' Q) \<Longrightarrow> triple P (if b then m else m') Q"
  by simp

lemma triple_option [triple_intros]:
  "(x = None \<Longrightarrow> triple P m Q) \<Longrightarrow> (\<And>v. x = Some v \<Longrightarrow> triple P (k v) Q) \<Longrightarrow>
     triple P (case x of None \<Rightarrow> m | Some v \<Rightarrow> k v) Q"
  by (cases x) simp_all

lemma triple_result [triple_intros]:
  "(\<And>e. x = Inl e \<Longrightarrow> triple P (h e) Q) \<Longrightarrow> (\<And>v. x = Inr v \<Longrightarrow> triple P (k v) Q) \<Longrightarrow>
     triple P (case x of Inl e \<Rightarrow> h e | Inr v \<Rightarrow> k v) Q"
  by (cases x) simp_all

end
