(* ===== verification/Overlay_Fs.thy ===== *)
theory Overlay_Fs
  imports Fs_Path_Reachable State_Result
begin

unbundle bit_operations_syntax

text \<open>
  \<open>OverlayFS\<close> of \<open>appfs/sdk/rust/src/filesystem/overlayfs.rs\<close>: a copy-on-write file system that
  shows a read-only base with the modifications kept in a delta, which is an \<open>AgentFS\<close>. An inode
  number of the overlay stands for an inode of one of the two layers and a path; deleted names
  of the base are whiteouts.

  The base is any \<open>dyn FileSystem\<close>. It is the parameter \<open>B\<close>, the record of what its reading
  methods answer; the overlay calls no other method of it, apart from \<open>forget\<close>. That its
  answers do not depend on earlier calls is what a base that nobody writes to gives.

  The clock is part of the state: each reading takes the next value. The three tables the
  overlay adds to the database of the delta stand beside it.
\<close>

section \<open>State\<close>

datatype layer = Delta | Base

record inode_info =
  ii_layer :: layer
  ii_ino :: i64
  ii_path :: string

record 'f base_fs =
  bs_lookup :: "i64 \<Rightarrow> string \<Rightarrow> stats option result"
  bs_getattr :: "i64 \<Rightarrow> stats option result"
  bs_readlink :: "i64 \<Rightarrow> string option result"
  bs_readdir :: "i64 \<Rightarrow> string list option result"
  bs_readdir_plus :: "i64 \<Rightarrow> dir_entry list option result"
  bs_open_rdonly :: "i64 \<Rightarrow> 'f result"
  bs_pread :: "'f \<Rightarrow> u64 \<Rightarrow> u64 \<Rightarrow> byte list result"

record 'c overlayfs =
  ov_delta :: "'c agentfs"
  ov_inode_map :: "i64 \<rightharpoonup> inode_info"
  ov_reverse_map :: "layer \<times> i64 \<rightharpoonup> i64"
  ov_path_map :: "string \<rightharpoonup> i64"
  ov_next_ino :: i64
  ov_whiteouts :: "string set"
  ov_origin_map :: "i64 \<rightharpoonup> i64"
  fs_whiteout :: "(string \<times> i64) list"
  fs_overlay_config :: "(string \<times> string) list"
  fs_origin :: "(i64 \<times> i64) list"
  ov_clock :: "nat \<Rightarrow> timestamp"

type_synonym ('c, 'a) ov_method = "('c overlayfs, 'a) action"

text \<open>\<open>OverlayFS::new\<close> on a delta whose database has the given tables.\<close>

definition ov_new ::
  "(string \<times> i64) list \<Rightarrow> (string \<times> string) list \<Rightarrow> (i64 \<times> i64) list \<Rightarrow> (nat \<Rightarrow> timestamp) \<Rightarrow>
     'c agentfs \<Rightarrow> 'c overlayfs" where
  "ov_new whiteout_tab config_tab origin_tab clock delta =
     \<lparr>ov_delta = delta,
      ov_inode_map = [ROOT_INO \<mapsto> \<lparr>ii_layer = Delta, ii_ino = 1, ii_path = ''/''\<rparr>],
      ov_reverse_map = [(Delta, 1) \<mapsto> ROOT_INO],
      ov_path_map = [''/'' \<mapsto> ROOT_INO],
      ov_next_ino = 2, ov_whiteouts = {}, ov_origin_map = Map.empty,
      fs_whiteout = whiteout_tab, fs_overlay_config = config_tab, fs_origin = origin_tab,
      ov_clock = clock\<rparr>"

definition ov_init_schema :: "string \<Rightarrow> ('c, unit) ov_method" where
  "ov_init_schema base_path =
     modify (\<lambda>s. s\<lparr>fs_overlay_config := replace_row ''base_path'' base_path (fs_overlay_config s)\<rparr>)"

definition load_whiteouts :: "('c, unit) ov_method" where
  "load_whiteouts = modify (\<lambda>s. s\<lparr>ov_whiteouts := ov_whiteouts s \<union> set (map fst (fs_whiteout s))\<rparr>)"

definition load_origins :: "('c, unit) ov_method" where
  "load_origins = modify (\<lambda>s. s\<lparr>ov_origin_map := fold (\<lambda>r m. m(fst r \<mapsto> snd r)) (fs_origin s) (ov_origin_map s)\<rparr>)"

definition ov_load :: "('c, unit) ov_method" where
  "ov_load = and_then load_whiteouts (\<lambda>_. load_origins)"

definition ov_init :: "string \<Rightarrow> ('c, unit) ov_method" where
  "ov_init base_path = and_then (ov_init_schema base_path) (\<lambda>_. ov_load)"

section \<open>Calls of the layers\<close>

definition tick :: "('c, timestamp) ov_method" where
  "tick = (\<lambda>s. (Inr (ov_clock s 0), s\<lparr>ov_clock := (\<lambda>n. ov_clock s (Suc n))\<rparr>))"

definition delta_call :: "('c agentfs \<Rightarrow> 'a result \<times> 'c agentfs) \<Rightarrow> ('c, 'a) ov_method" where
  "delta_call f = (\<lambda>s. case f (ov_delta s) of (r, d) \<Rightarrow> (r, s\<lparr>ov_delta := d\<rparr>))"

text \<open>A method of the delta that works on its database only.\<close>

definition delta_db :: "(db \<Rightarrow> 'a result \<times> db) \<Rightarrow> ('c, 'a) ov_method" where
  "delta_db f = delta_call (\<lambda>a. case f (afs_db a) of (r, d) \<Rightarrow> (r, a\<lparr>afs_db := d\<rparr>))"

text \<open>
  Where \<open>AgentFS\<close> has a method of its own beside the one of the trait, \<open>self.delta.m(...)\<close> calls
  its own: this concerns \<open>readdir\<close>, \<open>readdir_plus\<close> and \<open>chown\<close> (\<open>chown_inode\<close>). Its own listings
  do not look at the inode of the directory.
\<close>

definition agentfs_readdir :: "i64 \<Rightarrow> db \<Rightarrow> string list option result" where
  "agentfs_readdir ino d =
     Inr (Some (filter (\<lambda>n. n \<noteq> [])
       (sort (map (\<lambda>e. snd (fst e)) (filter (\<lambda>e. fst (fst e) = ino) (fs_dentry d))))))"

definition agentfs_readdir_plus :: "i64 \<Rightarrow> db \<Rightarrow> dir_entry list option result" where
  "agentfs_readdir_plus ino d =
     Inr (Some (List.map_filter
       (\<lambda>e. if snd (fst e) = [] then None
            else map_option (\<lambda>st. \<lparr>de_name = snd (fst e), de_stats = st\<rparr>) (getattr d (snd e)))
       (sort_key (\<lambda>e. snd (fst e)) (filter (\<lambda>e. fst (fst e) = ino) (fs_dentry d)))))"

section \<open>Whiteouts\<close>

fun whiteout_loop :: "string set \<Rightarrow> string \<Rightarrow> string list \<Rightarrow> bool" where
  "whiteout_loop W current [] = False"
| "whiteout_loop W current (component # components) =
     (let current = current @ ''/'' @ component
      in if current \<in> W then True else whiteout_loop W current components)"

definition is_whiteout :: "'c overlayfs \<Rightarrow> string \<Rightarrow> bool" where
  "is_whiteout s path = whiteout_loop (ov_whiteouts s) [] (path_components path)"

definition create_whiteout :: "string \<Rightarrow> ('c, unit) ov_method" where
  "create_whiteout path =
     and_then tick (\<lambda>now.
     modify (\<lambda>s. s\<lparr>fs_whiteout := replace_row path (fst now) (fs_whiteout s),
       ov_whiteouts := insert path (ov_whiteouts s)\<rparr>))"

definition remove_whiteout :: "string \<Rightarrow> ('c, unit) ov_method" where
  "remove_whiteout path =
     modify (\<lambda>s. if path \<notin> ov_whiteouts s then s
       else s\<lparr>fs_whiteout := delete_rows (\<lambda>k. k = path) (fs_whiteout s),
              ov_whiteouts := ov_whiteouts s - {path}\<rparr>)"

text \<open>The names of \<open>get_child_whiteouts\<close>: for one whiteout, the child of the directory it hides.\<close>

definition child_whiteout :: "string \<Rightarrow> string \<Rightarrow> string option" where
  "child_whiteout dir_path p =
     (if dir_path = ''/'' then
        let trimmed = trim_start_matches (CHR ''/'') p
        in if CHR ''/'' \<notin> set trimmed then Some trimmed else None
      else case strip_prefix (dir_path @ ''/'') p of
             Some rest \<Rightarrow> if CHR ''/'' \<notin> set rest then Some rest else None
           | None \<Rightarrow> None)"

definition get_child_whiteouts :: "'c overlayfs \<Rightarrow> string \<Rightarrow> string set" where
  "get_child_whiteouts s dir_path = Option.these (child_whiteout dir_path ` ov_whiteouts s)"

section \<open>Inode numbers\<close>

definition get_or_create_overlay_ino :: "layer \<Rightarrow> i64 \<Rightarrow> string \<Rightarrow> 'c overlayfs \<Rightarrow> i64 \<times> 'c overlayfs" where
  "get_or_create_overlay_ino layer underlying_ino path s =
     (case ov_reverse_map s (layer, underlying_ino) of
        Some ino \<Rightarrow> (ino, s)
      | None \<Rightarrow>
          let ino = ov_next_ino s
          in (ino, s\<lparr>ov_next_ino := ino + 1,
                ov_inode_map := (ov_inode_map s)(ino \<mapsto> \<lparr>ii_layer = layer, ii_ino = underlying_ino, ii_path = path\<rparr>),
                ov_reverse_map := (ov_reverse_map s)((layer, underlying_ino) \<mapsto> ino),
                ov_path_map := (ov_path_map s)(path \<mapsto> ino)\<rparr>))"

definition refresh_overlay_mapping :: "i64 \<Rightarrow> layer \<Rightarrow> i64 \<Rightarrow> string \<Rightarrow> 'c overlayfs \<Rightarrow> 'c overlayfs" where
  "refresh_overlay_mapping overlay_ino new_layer new_underlying_ino new_path s =
     (case ov_inode_map s overlay_ino of
        None \<Rightarrow> s
      | Some info \<Rightarrow>
          let old_path = ii_path info;
              pm = (if ov_path_map s old_path = Some overlay_ino then (ov_path_map s)(old_path := None) else ov_path_map s)
          in s\<lparr>ov_inode_map := (ov_inode_map s)(overlay_ino \<mapsto>
                 \<lparr>ii_layer = new_layer, ii_ino = new_underlying_ino, ii_path = new_path\<rparr>),
               ov_reverse_map := (ov_reverse_map s)((new_layer, new_underlying_ino) \<mapsto> overlay_ino),
               ov_path_map := pm(new_path \<mapsto> overlay_ino)\<rparr>)"

definition join_path :: "string \<Rightarrow> string \<Rightarrow> string" where
  "join_path dir name = (if dir = ''/'' then ''/'' @ name else dir @ ''/'' @ name)"

definition get_inode_info :: "i64 \<Rightarrow> ('c, inode_info) ov_method" where
  "get_inode_info ino = (\<lambda>s. ok_or (Fs NotFound) (ov_inode_map s ino) s)"

definition build_path :: "i64 \<Rightarrow> string \<Rightarrow> ('c, string) ov_method" where
  "build_path parent_ino name = and_then (get_inode_info parent_ino) (\<lambda>info. ok (join_path (ii_path info) name))"

definition add_origin_mapping :: "i64 \<Rightarrow> i64 \<Rightarrow> ('c, unit) ov_method" where
  "add_origin_mapping delta_ino base_ino =
     modify (\<lambda>s. s\<lparr>fs_origin := replace_row delta_ino base_ino (fs_origin s),
       ov_origin_map := (ov_origin_map s)(delta_ino \<mapsto> base_ino)\<rparr>)"

definition promote_to_delta :: "string \<Rightarrow> i64 \<Rightarrow> 'c overlayfs \<Rightarrow> 'c overlayfs" where
  "promote_to_delta path delta_ino s =
     (case ov_path_map s path of
        None \<Rightarrow> s
      | Some overlay_ino \<Rightarrow>
          (case ov_inode_map s overlay_ino of
             None \<Rightarrow> s
           | Some info \<Rightarrow>
               if ii_layer info = Base then
                 s\<lparr>ov_inode_map := (ov_inode_map s)(overlay_ino \<mapsto> info\<lparr>ii_layer := Delta, ii_ino := delta_ino\<rparr>),
                   ov_reverse_map := ((ov_reverse_map s)((Base, ii_ino info) := None))((Delta, delta_ino) \<mapsto> overlay_ino)\<rparr>
               else s))"

section \<open>Walking the layers\<close>

fun delta_dir_walk :: "'c lru_ops \<Rightarrow> i64 \<Rightarrow> string list \<Rightarrow> ('c, i64 option) ov_method" where
  "delta_dir_walk L ino [] = ok (Some ino)"
| "delta_dir_walk L ino (component # components) =
     and_then (delta_call (fs_lookup L ino component)) (\<lambda>r.
       case r of
         Some st \<Rightarrow> if is_directory st then delta_dir_walk L (st_ino st) components else ok None
       | None \<Rightarrow> ok None)"

definition resolve_delta_parent :: "'c lru_ops \<Rightarrow> inode_info \<Rightarrow> ('c, i64 option) ov_method" where
  "resolve_delta_parent L info =
     (if ii_layer info = Delta then ok (Some (ii_ino info))
      else delta_dir_walk L 1 (path_components (ii_path info)))"

fun base_walk :: "'f base_fs \<Rightarrow> i64 \<Rightarrow> string list \<Rightarrow> i64 option result" where
  "base_walk B ino [] = Inr (Some ino)"
| "base_walk B ino (component # components) =
     (case bs_lookup B ino component of
        Inl e \<Rightarrow> Inl e
      | Inr None \<Rightarrow> Inr None
      | Inr (Some st) \<Rightarrow> base_walk B (st_ino st) components)"

text \<open>The walk of \<open>copy_up\<close>, which does not ask whether a component is a directory.\<close>

fun delta_walk :: "'c lru_ops \<Rightarrow> i64 \<Rightarrow> string list \<Rightarrow> ('c, i64 option) ov_method" where
  "delta_walk L ino [] = ok (Some ino)"
| "delta_walk L ino (component # components) =
     and_then (delta_call (fs_lookup L ino component)) (\<lambda>r.
       case r of Some st \<Rightarrow> delta_walk L (st_ino st) components | None \<Rightarrow> ok None)"

section \<open>Copy-up\<close>

text \<open>
  One round of the loop of \<open>ensure_parent_dirs\<close>: \<open>delta_ino\<close> and \<open>base_ino\<close> follow the path in the
  two layers, the result is where they stand after the component. A directory missing in the
  delta is created there.
\<close>

definition make_missing_dir ::
  "'c lru_ops \<Rightarrow> 'f base_fs \<Rightarrow> u32 \<Rightarrow> u32 \<Rightarrow> string \<Rightarrow> i64 \<Rightarrow> i64 \<Rightarrow> string \<Rightarrow> ('c, i64 \<times> i64) ov_method" where
  "make_missing_dir L B uid gid current_path delta_ino base_ino component =
     and_then (reads (\<lambda>_. bs_lookup B base_ino component)) (\<lambda>base_stats.
     and_then tick (\<lambda>now.
     and_then (delta_call (fs_mkdir L now delta_ino component 493
         (case base_stats of Some b \<Rightarrow> st_uid b | None \<Rightarrow> uid)
         (case base_stats of Some b \<Rightarrow> st_gid b | None \<Rightarrow> gid))) (\<lambda>new_stats.
     case base_stats of
       None \<Rightarrow> ok (st_ino new_stats, base_ino)
     | Some b \<Rightarrow>
         and_then (add_origin_mapping (st_ino new_stats) (st_ino b)) (\<lambda>_.
         and_then (modify (promote_to_delta current_path (st_ino new_stats))) (\<lambda>_.
         ok (st_ino new_stats, st_ino b))))))"

definition ensure_dir ::
  "'c lru_ops \<Rightarrow> 'f base_fs \<Rightarrow> u32 \<Rightarrow> u32 \<Rightarrow> string \<Rightarrow> i64 \<Rightarrow> i64 \<Rightarrow> string \<Rightarrow> ('c, i64 \<times> i64) ov_method" where
  "ensure_dir L B uid gid current_path delta_ino base_ino component =
     and_then (remove_whiteout current_path) (\<lambda>_.
     and_then (delta_call (fs_lookup L delta_ino component)) (\<lambda>r.
     case r of
       Some st \<Rightarrow>
         if is_directory st then
           and_then (reads (\<lambda>_. bs_lookup B base_ino component)) (\<lambda>bs.
           ok (st_ino st, case bs of Some b \<Rightarrow> st_ino b | None \<Rightarrow> base_ino))
         else fail (Fs NotADirectory)
     | None \<Rightarrow> make_missing_dir L B uid gid current_path delta_ino base_ino component))"

fun ensure_dirs_loop ::
  "'c lru_ops \<Rightarrow> 'f base_fs \<Rightarrow> u32 \<Rightarrow> u32 \<Rightarrow> string \<Rightarrow> i64 \<Rightarrow> i64 \<Rightarrow> string list \<Rightarrow> ('c, unit) ov_method" where
  "ensure_dirs_loop L B uid gid current_path delta_ino base_ino [] = ok ()"
| "ensure_dirs_loop L B uid gid current_path delta_ino base_ino (component # components) =
     (let current_path = current_path @ ''/'' @ component in
      and_then (ensure_dir L B uid gid current_path delta_ino base_ino component) (\<lambda>inos.
      ensure_dirs_loop L B uid gid current_path (fst inos) (snd inos) components))"

definition ensure_parent_dirs :: "'c lru_ops \<Rightarrow> 'f base_fs \<Rightarrow> string \<Rightarrow> u32 \<Rightarrow> u32 \<Rightarrow> ('c, unit) ov_method" where
  "ensure_parent_dirs L B path uid gid = ensure_dirs_loop L B uid gid [] 1 1 (butlast (path_components path))"

text \<open>The copy itself, once the parent directory is known: a link, a directory or the content.\<close>

definition copy_up_symlink ::
  "'c lru_ops \<Rightarrow> 'f base_fs \<Rightarrow> i64 \<Rightarrow> stats \<Rightarrow> i64 \<Rightarrow> string \<Rightarrow> ('c, i64) ov_method" where
  "copy_up_symlink L B base_ino base_stats parent_ino name =
     and_then (reads (\<lambda>_. bs_readlink B base_ino)) (\<lambda>t.
     and_then (ok_or (Fs NotFound) t) (\<lambda>target.
     and_then tick (\<lambda>now.
     and_then (delta_call (fs_symlink_at L now parent_ino name target (st_uid base_stats) (st_gid base_stats)))
       (\<lambda>st. ok (st_ino st)))))"

definition copy_up_dir :: "'c lru_ops \<Rightarrow> stats \<Rightarrow> i64 \<Rightarrow> string \<Rightarrow> ('c, i64) ov_method" where
  "copy_up_dir L base_stats parent_ino name =
     and_then tick (\<lambda>now.
     and_then (delta_call (fs_mkdir L now parent_ino name (st_mode base_stats AND PERM_MASK)
         (st_uid base_stats) (st_gid base_stats)))
       (\<lambda>st. ok (st_ino st)))"

definition copy_up_file ::
  "'c lru_ops \<Rightarrow> 'f base_fs \<Rightarrow> i64 \<Rightarrow> stats \<Rightarrow> i64 \<Rightarrow> string \<Rightarrow> ('c, i64) ov_method" where
  "copy_up_file L B base_ino base_stats parent_ino name =
     and_then (reads (\<lambda>_. bs_open_rdonly B base_ino)) (\<lambda>base_file.
     and_then (reads (\<lambda>_. bs_pread B base_file 0 (as_u64 (st_size base_stats)))) (\<lambda>content.
     and_then tick (\<lambda>now.
     and_then (delta_call (fs_create_file L now parent_ino name (st_mode base_stats)
         (st_uid base_stats) (st_gid base_stats))) (\<lambda>created.
     and_then tick (\<lambda>now'.
     and_then (delta_db (file_pwrite (snd created) now' 0 content)) (\<lambda>_.
     ok (st_ino (fst created))))))))"

definition copy_up_node ::
  "'c lru_ops \<Rightarrow> 'f base_fs \<Rightarrow> i64 \<Rightarrow> stats \<Rightarrow> i64 \<Rightarrow> string \<Rightarrow> ('c, i64) ov_method" where
  "copy_up_node L B base_ino base_stats parent_ino name =
     (if is_symlink base_stats then copy_up_symlink L B base_ino base_stats parent_ino name
      else if is_directory base_stats then copy_up_dir L base_stats parent_ino name
      else copy_up_file L B base_ino base_stats parent_ino name)"

definition copy_up_missing :: "'c lru_ops \<Rightarrow> 'f base_fs \<Rightarrow> string \<Rightarrow> i64 \<Rightarrow> ('c, i64) ov_method" where
  "copy_up_missing L B path base_ino =
     (let components = path_components path in
      and_then (reads (\<lambda>_. bs_getattr B base_ino)) (\<lambda>bs.
      and_then (ok_or (Fs NotFound) bs) (\<lambda>base_stats.
      and_then (ensure_parent_dirs L B path (st_uid base_stats) (st_gid base_stats)) (\<lambda>_.
      and_then (delta_walk L 1 (butlast components)) (\<lambda>p.
      and_then (ok_or (Fs NotFound) p) (\<lambda>parent_ino.
      and_then (copy_up_node L B base_ino base_stats parent_ino (last components)) (\<lambda>delta_ino.
      and_then (add_origin_mapping delta_ino base_ino) (\<lambda>_.
      ok delta_ino))))))))"

definition copy_up :: "'c lru_ops \<Rightarrow> 'f base_fs \<Rightarrow> string \<Rightarrow> i64 \<Rightarrow> ('c, i64) ov_method" where
  "copy_up L B path base_ino =
     (let components = path_components path in
      if components = [] then fail (Fs RootOperation)
      else
        and_then (delta_walk L 1 (butlast components)) (\<lambda>found_parent.
        and_then (case found_parent of
                    Some parent_ino \<Rightarrow> delta_call (fs_lookup L parent_ino (last components))
                  | None \<Rightarrow> ok None) (\<lambda>already.
        case already of
          Some st \<Rightarrow> ok (st_ino st)
        | None \<Rightarrow> copy_up_missing L B path base_ino)))"

definition copy_up_and_update_mapping ::
  "'c lru_ops \<Rightarrow> 'f base_fs \<Rightarrow> i64 \<Rightarrow> inode_info \<Rightarrow> ('c, i64) ov_method" where
  "copy_up_and_update_mapping L B overlay_ino info =
     and_then (copy_up L B (ii_path info) (ii_ino info)) (\<lambda>delta_ino.
     and_then (modify (\<lambda>s. s\<lparr>ov_inode_map := (ov_inode_map s)(overlay_ino \<mapsto>
                  \<lparr>ii_layer = Delta, ii_ino = delta_ino, ii_path = ii_path info\<rparr>),
                ov_reverse_map := (ov_reverse_map s)((Delta, delta_ino) \<mapsto> overlay_ino)\<rparr>)) (\<lambda>_.
     ok delta_ino))"

section \<open>Queries\<close>

text \<open>A delta entry found by \<open>lookup\<close>: the number of a copied-up inode is the one its base inode had.\<close>

definition number_delta_entry :: "string \<Rightarrow> stats \<Rightarrow> 'c overlayfs \<Rightarrow> stats option result \<times> 'c overlayfs" where
  "number_delta_entry path st s =
     (case get_or_create_overlay_ino Delta (st_ino st) path s of
        (ino, s1) \<Rightarrow>
          (case ov_origin_map s1 (st_ino st) of
             None \<Rightarrow> (Inr (Some (st\<lparr>st_ino := ino\<rparr>)), s1)
           | Some base_ino \<Rightarrow>
               (case ov_reverse_map s1 (Base, base_ino) of
                  Some existing_ino \<Rightarrow>
                    (Inr (Some (st\<lparr>st_ino := existing_ino\<rparr>)),
                     refresh_overlay_mapping existing_ino Delta (st_ino st) path s1)
                | None \<Rightarrow> (Inr (Some (st\<lparr>st_ino := ino\<rparr>)), s1))))"

definition number_base_entry :: "string \<Rightarrow> stats \<Rightarrow> 'c overlayfs \<Rightarrow> stats option result \<times> 'c overlayfs" where
  "number_base_entry path st s =
     (case get_or_create_overlay_ino Base (st_ino st) path s of
        (ino, s1) \<Rightarrow> (Inr (Some (st\<lparr>st_ino := ino\<rparr>)), s1))"

text \<open>The base directory of an inode, by its number or by its path.\<close>

definition base_dir :: "'f base_fs \<Rightarrow> inode_info \<Rightarrow> i64 option result" where
  "base_dir B info =
     (if ii_layer info = Base then Inr (Some (ii_ino info))
      else base_walk B 1 (path_components (ii_path info)))"

definition ov_lookup :: "'c lru_ops \<Rightarrow> 'f base_fs \<Rightarrow> i64 \<Rightarrow> string \<Rightarrow> ('c, stats option) ov_method" where
  "ov_lookup L B parent_ino name =
     and_then (get_inode_info parent_ino) (\<lambda>parent_info.
     and_then (build_path parent_ino name) (\<lambda>path.
     and_then (gets (\<lambda>s. is_whiteout s path)) (\<lambda>hidden.
     if hidden then ok None
     else
       and_then (resolve_delta_parent L parent_info) (\<lambda>delta_parent_ino.
       and_then (case delta_parent_ino of
                   Some ino \<Rightarrow> delta_call (fs_lookup L ino name)
                 | None \<Rightarrow> ok None) (\<lambda>delta_stats.
       case delta_stats of
         Some st \<Rightarrow> number_delta_entry path st
       | None \<Rightarrow>
           and_then (reads (\<lambda>_. base_dir B parent_info)) (\<lambda>base_parent.
           case base_parent of
             None \<Rightarrow> ok None
           | Some base_parent_ino \<Rightarrow>
               and_then (reads (\<lambda>_. bs_lookup B base_parent_ino name)) (\<lambda>bs.
               case bs of Some st \<Rightarrow> number_base_entry path st | None \<Rightarrow> ok None)))))))"

definition ov_getattr :: "'f base_fs \<Rightarrow> i64 \<Rightarrow> ('c, stats option) ov_method" where
  "ov_getattr B ino = reads (\<lambda>s.
     case ov_inode_map s ino of
       None \<Rightarrow> Inr None
     | Some info \<Rightarrow>
         if is_whiteout s (ii_path info) then Inr None
         else map_sum id (map_option (\<lambda>st. st\<lparr>st_ino := ino\<rparr>))
                (case ii_layer info of
                   Delta \<Rightarrow> Inr (getattr (afs_db (ov_delta s)) (ii_ino info))
                 | Base \<Rightarrow> bs_getattr B (ii_ino info)))"

definition ov_readlink :: "'f base_fs \<Rightarrow> i64 \<Rightarrow> ('c, string option) ov_method" where
  "ov_readlink B ino =
     and_then (get_inode_info ino) (\<lambda>info. reads (\<lambda>s.
       if is_whiteout s (ii_path info) then Inr None
       else case ii_layer info of
              Delta \<Rightarrow> fs_readlink (ii_ino info) (afs_db (ov_delta s))
            | Base \<Rightarrow> bs_readlink B (ii_ino info)))"

text \<open>The test both listings apply to an entry of either layer.\<close>

definition entry_shown :: "'c overlayfs \<Rightarrow> inode_info \<Rightarrow> string \<Rightarrow> bool" where
  "entry_shown s info entry \<longleftrightarrow>
     \<not> is_whiteout s (join_path (ii_path info) entry) \<and> entry \<notin> get_child_whiteouts s (ii_path info)"

definition ov_readdir :: "'f base_fs \<Rightarrow> i64 \<Rightarrow> ('c, string list option) ov_method" where
  "ov_readdir B ino =
     and_then (get_inode_info ino) (\<lambda>info.
     and_then (reads (\<lambda>s. if ii_layer info = Delta
                          then agentfs_readdir (ii_ino info) (afs_db (ov_delta s)) else Inr None)) (\<lambda>delta_entries.
     and_then (reads (\<lambda>_. base_dir B info)) (\<lambda>base_ino.
     and_then (reads (\<lambda>_. case base_ino of Some b \<Rightarrow> bs_readdir B b | None \<Rightarrow> Inr None)) (\<lambda>base_entries.
     gets (\<lambda>s. Some (sort (remdups (filter (entry_shown s info)
       (case_option [] id delta_entries @ case_option [] id base_entries)))))))))"

text \<open>The loops of \<open>readdir_plus\<close> over the entries of the base and then of the delta; the map by name.\<close>

fun plus_base_loop ::
  "inode_info \<Rightarrow> dir_entry list \<Rightarrow> (string \<times> dir_entry) list \<times> 'c overlayfs \<Rightarrow>
     (string \<times> dir_entry) list \<times> 'c overlayfs" where
  "plus_base_loop info [] acc = acc"
| "plus_base_loop info (entry # entries) (m, s) =
     (if entry_shown s info (de_name entry) then
        case get_or_create_overlay_ino Base (st_ino (de_stats entry)) (join_path (ii_path info) (de_name entry)) s of
          (ino, s1) \<Rightarrow>
            plus_base_loop info entries
              (replace_row (de_name entry) (entry\<lparr>de_stats := (de_stats entry)\<lparr>st_ino := ino\<rparr>\<rparr>) m, s1)
      else plus_base_loop info entries (m, s))"

fun plus_delta_loop ::
  "inode_info \<Rightarrow> dir_entry list \<Rightarrow> (string \<times> dir_entry) list \<times> 'c overlayfs \<Rightarrow>
     (string \<times> dir_entry) list \<times> 'c overlayfs" where
  "plus_delta_loop info [] acc = acc"
| "plus_delta_loop info (entry # entries) (m, s) =
     (if entry_shown s info (de_name entry) then
        let path = join_path (ii_path info) (de_name entry); ino0 = st_ino (de_stats entry) in
        case (case ov_origin_map s ino0 of
                Some base_ino \<Rightarrow> get_or_create_overlay_ino Base base_ino path s
              | None \<Rightarrow> get_or_create_overlay_ino Delta ino0 path s) of
          (ino, s1) \<Rightarrow>
            plus_delta_loop info entries
              (replace_row (de_name entry) (entry\<lparr>de_stats := (de_stats entry)\<lparr>st_ino := ino\<rparr>\<rparr>) m, s1)
      else plus_delta_loop info entries (m, s))"

definition ov_readdir_plus :: "'f base_fs \<Rightarrow> i64 \<Rightarrow> ('c, dir_entry list option) ov_method" where
  "ov_readdir_plus B ino =
     and_then (get_inode_info ino) (\<lambda>info.
     and_then (reads (\<lambda>_. base_dir B info)) (\<lambda>base_ino.
     and_then (reads (\<lambda>_. case base_ino of Some b \<Rightarrow> bs_readdir_plus B b | None \<Rightarrow> Inr None)) (\<lambda>base_entries.
     and_then (\<lambda>s. case plus_base_loop info (case_option [] id base_entries) ([], s) of (m, s1) \<Rightarrow> (Inr m, s1)) (\<lambda>m.
     and_then (reads (\<lambda>s. if ii_layer info = Delta
                          then agentfs_readdir_plus (ii_ino info) (afs_db (ov_delta s)) else Inr None)) (\<lambda>delta_entries.
     and_then (\<lambda>s. case plus_delta_loop info (case_option [] id delta_entries) (m, s) of (m', s1) \<Rightarrow> (Inr m', s1)) (\<lambda>m'.
     ok (Some (sort_key de_name (map snd m')))))))))"

section \<open>Attributes and handles\<close>

text \<open>The delta inode of an inode that is about to change: its own, or a copy of the base inode.\<close>

definition delta_target :: "'c lru_ops \<Rightarrow> 'f base_fs \<Rightarrow> i64 \<Rightarrow> ('c, i64) ov_method" where
  "delta_target L B ino =
     and_then (get_inode_info ino) (\<lambda>info.
     and_then (gets (\<lambda>s. is_whiteout s (ii_path info))) (\<lambda>hidden.
     if hidden then fail (Fs NotFound)
     else case ii_layer info of
            Delta \<Rightarrow> ok (ii_ino info)
          | Base \<Rightarrow> copy_up_and_update_mapping L B ino info))"

definition ov_chmod :: "'c lru_ops \<Rightarrow> 'f base_fs \<Rightarrow> i64 \<Rightarrow> u32 \<Rightarrow> ('c, unit) ov_method" where
  "ov_chmod L B ino mode =
     and_then (delta_target L B ino) (\<lambda>delta_ino.
     and_then tick (\<lambda>now. delta_db (fs_chmod now delta_ino mode)))"

definition ov_chown ::
  "'c lru_ops \<Rightarrow> 'f base_fs \<Rightarrow> i64 \<Rightarrow> u32 option \<Rightarrow> u32 option \<Rightarrow> ('c, unit) ov_method" where
  "ov_chown L B ino uid gid =
     and_then (delta_target L B ino) (\<lambda>delta_ino. delta_db (\<lambda>d. (Inr (), chown_inode delta_ino uid gid d)))"

definition ov_utimens ::
  "'c lru_ops \<Rightarrow> 'f base_fs \<Rightarrow> i64 \<Rightarrow> time_change \<Rightarrow> time_change \<Rightarrow> ('c, unit) ov_method" where
  "ov_utimens L B ino atime mtime =
     and_then (delta_target L B ino) (\<lambda>delta_ino.
     and_then tick (\<lambda>now_a. and_then tick (\<lambda>now_m. and_then tick (\<lambda>now_c.
       delta_db (fs_utimens now_a now_m now_c delta_ino atime mtime)))))"

definition ov_open :: "'c lru_ops \<Rightarrow> 'f base_fs \<Rightarrow> i64 \<Rightarrow> ('c, agentfs_file) ov_method" where
  "ov_open L B ino =
     and_then (delta_target L B ino) (\<lambda>delta_ino. reads (\<lambda>s. fs_open delta_ino (ov_delta s)))"

section \<open>Creation\<close>

text \<open>
  The steps that \<open>create_file\<close>, \<open>mknod\<close> and \<open>symlink\<close> share: the parent directories are created
  in the delta, then the parent is resolved there. The parent's mapping is the one read first.
\<close>

definition delta_parent_for ::
  "'c lru_ops \<Rightarrow> 'f base_fs \<Rightarrow> inode_info \<Rightarrow> string \<Rightarrow> u32 \<Rightarrow> u32 \<Rightarrow> ('c, i64) ov_method" where
  "delta_parent_for L B parent_info path uid gid =
     and_then (remove_whiteout path) (\<lambda>_.
     and_then (ensure_parent_dirs L B path uid gid) (\<lambda>_.
     and_then (resolve_delta_parent L parent_info) (\<lambda>p.
     ok_or (Fs NotFound) p)))"

definition number_created :: "string \<Rightarrow> stats \<Rightarrow> ('c, stats) ov_method" where
  "number_created path st s =
     (case get_or_create_overlay_ino Delta (st_ino st) path s of (ino, s1) \<Rightarrow> (Inr (st\<lparr>st_ino := ino\<rparr>), s1))"

definition ov_mkdir ::
  "'c lru_ops \<Rightarrow> 'f base_fs \<Rightarrow> i64 \<Rightarrow> string \<Rightarrow> u32 \<Rightarrow> u32 \<Rightarrow> u32 \<Rightarrow> ('c, stats) ov_method" where
  "ov_mkdir L B parent_ino name mode uid gid =
     and_then (get_inode_info parent_ino) (\<lambda>parent_info.
     and_then (build_path parent_ino name) (\<lambda>path.
     and_then (ov_lookup L B parent_ino name) (\<lambda>existing.
     if existing \<noteq> None then fail (Fs AlreadyExists)
     else
       and_then (delta_parent_for L B parent_info path uid gid) (\<lambda>delta_parent_ino.
       and_then tick (\<lambda>now.
       and_then (delta_call (fs_mkdir L now delta_parent_ino name mode uid gid)) (\<lambda>st.
       number_created path st))))))"

definition ov_create_file ::
  "'c lru_ops \<Rightarrow> 'f base_fs \<Rightarrow> i64 \<Rightarrow> string \<Rightarrow> u32 \<Rightarrow> u32 \<Rightarrow> u32 \<Rightarrow> ('c, stats \<times> agentfs_file) ov_method" where
  "ov_create_file L B parent_ino name mode uid gid =
     and_then (get_inode_info parent_ino) (\<lambda>parent_info.
     and_then (build_path parent_ino name) (\<lambda>path.
     and_then (delta_parent_for L B parent_info path uid gid) (\<lambda>delta_parent_ino.
     and_then tick (\<lambda>now.
     and_then (delta_call (fs_create_file L now delta_parent_ino name mode uid gid)) (\<lambda>created.
     and_then (number_created path (fst created)) (\<lambda>st.
     ok (st, snd created)))))))"

definition ov_mknod ::
  "'c lru_ops \<Rightarrow> 'f base_fs \<Rightarrow> i64 \<Rightarrow> string \<Rightarrow> u32 \<Rightarrow> 64 word \<Rightarrow> u32 \<Rightarrow> u32 \<Rightarrow> ('c, stats) ov_method" where
  "ov_mknod L B parent_ino name mode rdev uid gid =
     and_then (get_inode_info parent_ino) (\<lambda>parent_info.
     and_then (build_path parent_ino name) (\<lambda>path.
     and_then (delta_parent_for L B parent_info path uid gid) (\<lambda>delta_parent_ino.
     and_then tick (\<lambda>now.
     and_then (delta_call (fs_mknod L now delta_parent_ino name mode rdev uid gid)) (\<lambda>st.
     number_created path st)))))"

definition ov_symlink ::
  "'c lru_ops \<Rightarrow> 'f base_fs \<Rightarrow> i64 \<Rightarrow> string \<Rightarrow> string \<Rightarrow> u32 \<Rightarrow> u32 \<Rightarrow> ('c, stats) ov_method" where
  "ov_symlink L B parent_ino name target uid gid =
     and_then (get_inode_info parent_ino) (\<lambda>parent_info.
     and_then (build_path parent_ino name) (\<lambda>path.
     and_then (delta_parent_for L B parent_info path uid gid) (\<lambda>delta_parent_ino.
     and_then tick (\<lambda>now.
     and_then (delta_call (fs_symlink_at L now delta_parent_ino name target uid gid)) (\<lambda>st.
     number_created path st)))))"

section \<open>Removal, links, rename\<close>

text \<open>\<open>NotFound\<close> of the delta is not an error of a removal.\<close>

definition ignore_not_found :: "('c, unit) ov_method \<Rightarrow> ('c, unit) ov_method" where
  "ignore_not_found m = (\<lambda>s. case m s of (Inl (Fs NotFound), s') \<Rightarrow> (Inr (), s') | r \<Rightarrow> r)"

text \<open>The end of a removal: what still shows through comes from the base and gets a whiteout.\<close>

definition hide_if_visible :: "'c lru_ops \<Rightarrow> 'f base_fs \<Rightarrow> i64 \<Rightarrow> string \<Rightarrow> string \<Rightarrow> ('c, unit) ov_method" where
  "hide_if_visible L B parent_ino name path =
     and_then (ov_lookup L B parent_ino name) (\<lambda>r. if r \<noteq> None then create_whiteout path else ok ())"

definition ov_unlink :: "'c lru_ops \<Rightarrow> 'f base_fs \<Rightarrow> i64 \<Rightarrow> string \<Rightarrow> ('c, unit) ov_method" where
  "ov_unlink L B parent_ino name =
     and_then (get_inode_info parent_ino) (\<lambda>parent_info.
     and_then (build_path parent_ino name) (\<lambda>path.
     and_then (ov_lookup L B parent_ino name) (\<lambda>r.
     and_then (ok_or (Fs NotFound) r) (\<lambda>st.
     if is_directory st then fail (Fs IsADirectory)
     else
       and_then (resolve_delta_parent L parent_info) (\<lambda>p.
       and_then (case p of
                   Some dpi \<Rightarrow> ignore_not_found (and_then tick (\<lambda>now. delta_call (fs_unlink L now dpi name)))
                 | None \<Rightarrow> ok ()) (\<lambda>_.
       hide_if_visible L B parent_ino name path))))))"

definition ov_rmdir :: "'c lru_ops \<Rightarrow> 'f base_fs \<Rightarrow> i64 \<Rightarrow> string \<Rightarrow> ('c, unit) ov_method" where
  "ov_rmdir L B parent_ino name =
     and_then (get_inode_info parent_ino) (\<lambda>parent_info.
     and_then (build_path parent_ino name) (\<lambda>path.
     and_then (ov_lookup L B parent_ino name) (\<lambda>r.
     and_then (ok_or (Fs NotFound) r) (\<lambda>st.
     if \<not> is_directory st then fail (Fs NotADirectory)
     else
       and_then (ov_readdir B (st_ino st)) (\<lambda>entries.
       if case_option [] id entries \<noteq> [] then fail (Fs NotEmpty)
       else
         and_then (resolve_delta_parent L parent_info) (\<lambda>p.
         and_then (case p of
                     Some dpi \<Rightarrow> ignore_not_found (and_then tick (\<lambda>now. delta_call (fs_rmdir L now dpi name)))
                   | None \<Rightarrow> ok ()) (\<lambda>_.
         hide_if_visible L B parent_ino name path)))))))"

definition ov_link :: "'c lru_ops \<Rightarrow> 'f base_fs \<Rightarrow> i64 \<Rightarrow> i64 \<Rightarrow> string \<Rightarrow> ('c, stats) ov_method" where
  "ov_link L B ino newparent_ino newname =
     and_then (get_inode_info ino) (\<lambda>info.
     and_then (get_inode_info newparent_ino) (\<lambda>parent_info.
     and_then (build_path newparent_ino newname) (\<lambda>new_path.
     and_then (if ii_layer info = Delta then ok (ii_ino info)
               else copy_up L B (ii_path info) (ii_ino info)) (\<lambda>delta_ino.
     and_then (delta_parent_for L B parent_info new_path 0 0) (\<lambda>delta_parent_ino.
     and_then tick (\<lambda>now.
     and_then (delta_call (fs_link L now delta_ino delta_parent_ino newname)) (\<lambda>st.
     ok (st\<lparr>st_ino := ino\<rparr>))))))))"

definition ov_rename :: "'c lru_ops \<Rightarrow> 'f base_fs \<Rightarrow> i64 \<Rightarrow> string \<Rightarrow> i64 \<Rightarrow> string \<Rightarrow> ('c, unit) ov_method" where
  "ov_rename L B oldparent_ino oldname newparent_ino newname =
     and_then (get_inode_info oldparent_ino) (\<lambda>old_parent_info.
     and_then (get_inode_info newparent_ino) (\<lambda>new_parent_info.
     and_then (build_path oldparent_ino oldname) (\<lambda>old_path.
     and_then (build_path newparent_ino newname) (\<lambda>new_path.
     and_then (ov_lookup L B oldparent_ino oldname) (\<lambda>r.
     and_then (ok_or (Fs NotFound) r) (\<lambda>src_stats.
     and_then (get_inode_info (st_ino src_stats)) (\<lambda>src_info.
     and_then (if ii_layer src_info = Base
               then and_then (copy_up L B old_path (ii_ino src_info)) (\<lambda>_. ok ()) else ok ()) (\<lambda>_.
     and_then (remove_whiteout new_path) (\<lambda>_.
     and_then (ensure_parent_dirs L B new_path 0 0) (\<lambda>_.
     and_then (resolve_delta_parent L old_parent_info) (\<lambda>op.
     and_then (ok_or (Fs NotFound) op) (\<lambda>delta_src_parent_ino.
     and_then (resolve_delta_parent L new_parent_info) (\<lambda>np.
     and_then (ok_or (Fs NotFound) np) (\<lambda>delta_dst_parent_ino.
     and_then tick (\<lambda>now_dec. and_then tick (\<lambda>now.
     and_then (delta_call (fs_rename L now_dec now delta_src_parent_ino oldname delta_dst_parent_ino newname)) (\<lambda>_.
     hide_if_visible L B oldparent_ino oldname old_path)))))))))))))))))"

section \<open>The rest\<close>

definition ov_statfs :: "('c, filesystem_stats) ov_method" where
  "ov_statfs = gets (\<lambda>s. fs_statfs (afs_db (ov_delta s)))"

text \<open>
  \<open>forget\<close> passes the request on to the layer of the inode and changes nothing in the overlay:
  the call it makes. In the delta the default method of the trait does nothing.
\<close>

definition ov_forget :: "i64 \<Rightarrow> u64 \<Rightarrow> 'c overlayfs \<Rightarrow> (layer \<times> i64 \<times> u64) option" where
  "ov_forget ino nlookup s = map_option (\<lambda>info. (ii_layer info, ii_ino info, nlookup)) (ov_inode_map s ino)"

end
