(* ===== verification/Overlay_Numbers.thy ===== *)
theory Overlay_Numbers
  imports Overlay_Fs
begin

text \<open>
  The inode numbers of the overlay. The four maps of \<open>OverlayFS\<close> and its tables agree in every
  state any sequence of its methods reaches: a number given out keeps its meaning, a base inode
  has at most one number, and what a remount loads from the tables is what was in memory.
\<close>

section \<open>The invariant\<close>

definition numbers_ok :: "'c overlayfs \<Rightarrow> bool" where
  "numbers_ok s \<longleftrightarrow>
     ov_inode_map s ROOT_INO = Some \<lparr>ii_layer = Delta, ii_ino = 1, ii_path = ''/''\<rparr> \<and>
     ROOT_INO < ov_next_ino s \<and>
     (\<forall>j. ov_inode_map s j \<noteq> None \<longrightarrow> ROOT_INO \<le> j \<and> j < ov_next_ino s) \<and>
     (\<forall>k j. ov_reverse_map s k = Some j \<longrightarrow> ov_inode_map s j \<noteq> None) \<and>
     (\<forall>b. ov_reverse_map s (Base, b) \<noteq> Some ROOT_INO) \<and>
     (\<forall>j info. ov_inode_map s j = Some info \<longrightarrow> ov_reverse_map s (ii_layer info, ii_ino info) \<noteq> None) \<and>
     (\<forall>j info. ov_inode_map s j = Some info \<longrightarrow> ii_layer info = Base \<longrightarrow>
        ov_reverse_map s (Base, ii_ino info) = Some j) \<and>
     (\<forall>p j. ov_path_map s p = Some j \<longrightarrow> (\<exists>info. ov_inode_map s j = Some info \<and> ii_path info = p))"

text \<open>Memory and tables agree on whiteouts and origins.\<close>

definition tables_ok :: "'c overlayfs \<Rightarrow> bool" where
  "tables_ok s \<longleftrightarrow> keyed (fs_whiteout s) \<and> keyed (fs_origin s) \<and>
     ov_whiteouts s = fst ` set (fs_whiteout s) \<and> ov_origin_map s = map_of (fs_origin s)"

lemma numbers_okD:
  assumes "numbers_ok s"
  shows "ov_inode_map s ROOT_INO = Some \<lparr>ii_layer = Delta, ii_ino = 1, ii_path = ''/''\<rparr>"
    "ROOT_INO < ov_next_ino s"
    "ov_inode_map s j = Some info \<Longrightarrow> ROOT_INO \<le> j \<and> j < ov_next_ino s"
    "ov_reverse_map s k = Some j \<Longrightarrow> \<exists>info. ov_inode_map s j = Some info"
    "ov_reverse_map s (Base, b) \<noteq> Some ROOT_INO"
    "ov_inode_map s j = Some info \<Longrightarrow> ov_reverse_map s (ii_layer info, ii_ino info) \<noteq> None"
    "ov_inode_map s j = Some info \<Longrightarrow> ii_layer info = Base \<Longrightarrow> ov_reverse_map s (Base, ii_ino info) = Some j"
    "ov_path_map s p = Some j \<Longrightarrow> \<exists>info. ov_inode_map s j = Some info \<and> ii_path info = p"
  using assms unfolding numbers_ok_def by blast+

lemma numbers_okI:
  assumes "ov_inode_map s ROOT_INO = Some \<lparr>ii_layer = Delta, ii_ino = 1, ii_path = ''/''\<rparr>"
    and "ROOT_INO < ov_next_ino s"
    and "\<And>j info. ov_inode_map s j = Some info \<Longrightarrow> ROOT_INO \<le> j \<and> j < ov_next_ino s"
    and "\<And>k j. ov_reverse_map s k = Some j \<Longrightarrow> \<exists>info. ov_inode_map s j = Some info"
    and "\<And>b. ov_reverse_map s (Base, b) \<noteq> Some ROOT_INO"
    and "\<And>j info. ov_inode_map s j = Some info \<Longrightarrow> ov_reverse_map s (ii_layer info, ii_ino info) \<noteq> None"
    and "\<And>j info. ov_inode_map s j = Some info \<Longrightarrow> ii_layer info = Base \<Longrightarrow> ov_reverse_map s (Base, ii_ino info) = Some j"
    and "\<And>p j. ov_path_map s p = Some j \<Longrightarrow> \<exists>info. ov_inode_map s j = Some info \<and> ii_path info = p"
  shows "numbers_ok s"
  using assms unfolding numbers_ok_def by blast

section \<open>The steps that change the maps\<close>

lemma numbers_ok_new: "numbers_ok (ov_new wt ct ot clock delta)"
  by (rule numbers_okI) (auto simp: ov_new_def ROOT_INO_def split: if_splits)

lemma numbers_ok_cong:
  assumes "ov_inode_map s' = ov_inode_map s" "ov_reverse_map s' = ov_reverse_map s"
    "ov_path_map s' = ov_path_map s" "ov_next_ino s' = ov_next_ino s"
  shows "numbers_ok s' = numbers_ok s"
  using assms by (simp add: numbers_ok_def)

lemma numbers_ok_get_or_create:
  assumes "numbers_ok s" and "get_or_create_overlay_ino layer u p s = (ino, s')"
  shows "numbers_ok s'" and "\<exists>info. ov_inode_map s' ino = Some info"
proof -
  note ok = numbers_okD [OF assms(1)]
  have fresh: "ov_inode_map s (ov_next_ino s) = None" "ROOT_INO \<noteq> ov_next_ino s"
    using ok(2) ok(3) [of "ov_next_ino s"] by (cases "ov_inode_map s (ov_next_ino s)", auto)
  show "numbers_ok s'"
  proof (cases "ov_reverse_map s (layer, u)")
    case None
    then have s': "s' = s\<lparr>ov_next_ino := ov_next_ino s + 1,
        ov_inode_map := (ov_inode_map s)(ov_next_ino s \<mapsto> \<lparr>ii_layer = layer, ii_ino = u, ii_path = p\<rparr>),
        ov_reverse_map := (ov_reverse_map s)((layer, u) \<mapsto> ov_next_ino s),
        ov_path_map := (ov_path_map s)(p \<mapsto> ov_next_ino s)\<rparr>"
      using assms(2) by (auto simp: get_or_create_overlay_ino_def Let_def)
    show ?thesis
      unfolding s'
    proof (rule numbers_okI, goal_cases)
      case 2
      then show ?case using ok(2) by simp
    next
      case (3 j info)
      then show ?case using ok(2) ok(3) [of j info] by (auto split: if_splits)
    next
      case (4 k j)
      then show ?case using ok(4) [of k j] by (auto split: if_splits)
    next
      case (7 j info)
      then show ?case using ok(7) [of j info] None by (auto split: if_splits)
    next
      case (8 q j)
      then show ?case using ok(8) [of q j] fresh by (auto split: if_splits)
    qed (use ok fresh None in \<open>auto split: if_splits\<close>)
  qed (use assms in \<open>auto simp: get_or_create_overlay_ino_def\<close>)
  show "\<exists>info. ov_inode_map s' ino = Some info"
    using assms(2) ok(4) [of "(layer, u)" ino]
    by (auto simp: get_or_create_overlay_ino_def Let_def split: option.splits)
qed

lemma numbers_ok_refresh:
  assumes "numbers_ok s" and "j \<noteq> ROOT_INO"
  shows "numbers_ok (refresh_overlay_mapping j Delta u p s)"
proof (cases "ov_inode_map s j")
  case (Some old)
  note ok = numbers_okD [OF assms(1)]
  let ?s' = "refresh_overlay_mapping j Delta u p s"
  have maps: "ov_inode_map ?s' = (ov_inode_map s)(j \<mapsto> \<lparr>ii_layer = Delta, ii_ino = u, ii_path = p\<rparr>)"
    "ov_reverse_map ?s' = (ov_reverse_map s)((Delta, u) \<mapsto> j)" "ov_next_ino ?s' = ov_next_ino s"
    using Some by (simp_all add: refresh_overlay_mapping_def Let_def)
  show ?thesis
  proof (rule numbers_okI, goal_cases)
    case (3 i info)
    then show ?case using ok(3) [of i info] ok(3) [OF Some] by (auto simp: maps split: if_splits)
  next
    case (8 q i)
    then show ?case
      using ok(8) [of q i] Some by (auto simp: maps refresh_overlay_mapping_def Let_def split: if_splits)
  qed (use ok assms(2) in \<open>auto simp: maps split: if_splits\<close>)
qed (use assms in \<open>simp add: refresh_overlay_mapping_def\<close>)

lemma numbers_ok_promote:
  assumes "numbers_ok s"
  shows "numbers_ok (promote_to_delta p u s)"
proof (cases "\<exists>j info. ov_path_map s p = Some j \<and> ov_inode_map s j = Some info \<and> ii_layer info = Base")
  case True
  then obtain j info where j: "ov_path_map s p = Some j" "ov_inode_map s j = Some info" "ii_layer info = Base"
    by blast
  note ok = numbers_okD [OF assms]
  have root: "j \<noteq> ROOT_INO" using ok(1) j by auto
  let ?s' = "promote_to_delta p u s"
  have s': "?s' = s\<lparr>ov_inode_map := (ov_inode_map s)(j \<mapsto> info\<lparr>ii_layer := Delta, ii_ino := u\<rparr>),
      ov_reverse_map := ((ov_reverse_map s)((Base, ii_ino info) := None))((Delta, u) \<mapsto> j)\<rparr>"
    using j by (simp add: promote_to_delta_def)
  have other: "ov_inode_map s i = Some x \<Longrightarrow> i \<noteq> j \<Longrightarrow> ii_layer x = Base \<Longrightarrow> ii_ino x \<noteq> ii_ino info" for i x
    using ok(7) [of i x] ok(7) [OF j(2,3)] by auto
  show ?thesis
    unfolding s'
  proof (rule numbers_okI, goal_cases)
    case (3 i x)
    then show ?case using ok(3) [of i x] ok(3) [OF j(2)] by (auto split: if_splits)
  next
    case (6 i x)
    then show ?case using ok(6) [of i x] other [of i x] by (cases "ii_layer x") (auto split: if_splits)
  next
    case (7 i x)
    then show ?case using ok(7) [of i x] other [of i x] by (auto split: if_splits)
  next
    case (8 q i)
    then show ?case using ok(8) [of q i] j(2) by auto
  qed (use ok root in \<open>auto split: if_splits\<close>)
qed (use assms in \<open>auto simp: promote_to_delta_def split: option.splits\<close>)

lemma numbers_ok_copied:
  assumes "numbers_ok s" and "j \<noteq> ROOT_INO" and "ov_inode_map s j = Some old" and "ii_path old = p"
  shows "numbers_ok (s\<lparr>ov_inode_map := (ov_inode_map s)(j \<mapsto> \<lparr>ii_layer = Delta, ii_ino = u, ii_path = p\<rparr>),
    ov_reverse_map := (ov_reverse_map s)((Delta, u) \<mapsto> j)\<rparr>)"
proof -
  note ok = numbers_okD [OF assms(1)]
  show ?thesis
  proof (rule numbers_okI, goal_cases)
    case (3 i info)
    then show ?case using ok(3) [of i info] ok(3) [OF assms(3)] by (auto split: if_splits)
  next
    case (8 q i)
    then show ?case using ok(8) [of q i] assms by auto
  qed (use ok assms in \<open>auto split: if_splits\<close>)
qed

section \<open>Every method keeps it\<close>

text \<open>
  A property of the state that does not depend on the delta or the clock and that survives the
  steps of a copy-up (whiteouts, origins, promotion) survives every walk and every copy-up. \<open>H\<close> says
  which whiteouts it allows.
\<close>

locale kept =
  fixes P :: "'c overlayfs \<Rightarrow> bool" and H :: "string \<Rightarrow> bool"
  assumes kept_delta: "P s \<Longrightarrow> P (s\<lparr>ov_delta := d\<rparr>)"
    and kept_clock: "P s \<Longrightarrow> P (s\<lparr>ov_clock := c\<rparr>)"
    and kept_hide: "P s \<Longrightarrow> H path \<Longrightarrow> P (s\<lparr>fs_whiteout := replace_row path t (fs_whiteout s),
      ov_whiteouts := insert path (ov_whiteouts s)\<rparr>)"
    and kept_show: "P s \<Longrightarrow> P (s\<lparr>fs_whiteout := delete_rows (\<lambda>k. k = path) (fs_whiteout s),
      ov_whiteouts := ov_whiteouts s - {path}\<rparr>)"
    and kept_origin: "P s \<Longrightarrow> P (s\<lparr>fs_origin := replace_row i b (fs_origin s),
      ov_origin_map := (ov_origin_map s)(i \<mapsto> b)\<rparr>)"
    and kept_promote: "P s \<Longrightarrow> P (promote_to_delta q u s)"
begin

lemma keeps_steps:
  "keeps P (delta_call f)" "keeps P (delta_db g)" "keeps P tick" "H path \<Longrightarrow> keeps P (create_whiteout path)"
  "keeps P (remove_whiteout path)" "keeps P (add_origin_mapping i b)" "keeps P (modify (promote_to_delta q u))"
proof -
  show "keeps P (delta_call f)" "keeps P (delta_db g)"
    by (auto simp: triple_def delta_db_def delta_call_def kept_delta split: prod.splits)
  show tick: "keeps P tick" by (simp add: triple_def tick_def kept_clock)
  show "H path \<Longrightarrow> keeps P (create_whiteout path)"
    unfolding create_whiteout_def by (intro triple_intros tick kept_hide)
  show "keeps P (remove_whiteout path)"
    unfolding remove_whiteout_def by (auto intro!: triple_modify kept_show)
  show "keeps P (add_origin_mapping i b)"
    unfolding add_origin_mapping_def by (intro triple_intros kept_origin)
  show "keeps P (modify (promote_to_delta q u))" by (intro triple_intros kept_promote)
qed

lemma keeps_walks:
  "keeps P (delta_dir_walk L i cs)" "keeps P (delta_walk L i cs)" "keeps P (resolve_delta_parent L info)"
proof -
  show dir: "keeps P (delta_dir_walk L i cs)" for i cs
    by (induction L i cs rule: delta_dir_walk.induct) (auto intro!: triple_intros keeps_steps split: option.splits)
  show "keeps P (delta_walk L i cs)"
    by (induction L i cs rule: delta_walk.induct) (auto intro!: triple_intros keeps_steps split: option.splits)
  show "keeps P (resolve_delta_parent L info)"
    unfolding resolve_delta_parent_def by (intro triple_intros dir)
qed

lemma keeps_ensure_dirs_loop: "keeps P (ensure_dirs_loop L B uid gid cur i b cs)"
proof (induction cs arbitrary: cur i b)
  case (Cons c cs)
  show ?case
    unfolding ensure_dirs_loop.simps ensure_dir_def make_missing_dir_def Let_def
    by (intro triple_intros keeps_steps Cons.IH kept_promote)
qed (auto intro: triple_intros)

lemma keeps_ensure: "keeps P (ensure_parent_dirs L B path uid gid)"
  unfolding ensure_parent_dirs_def by (rule keeps_ensure_dirs_loop)

lemma keeps_copy_up: "keeps P (copy_up L B path b)"
  unfolding copy_up_def copy_up_missing_def copy_up_node_def copy_up_symlink_def copy_up_dir_def copy_up_file_def Let_def
  by (intro triple_intros keeps_steps keeps_walks keeps_ensure)

lemma keeps_delta_parent_for: "keeps P (delta_parent_for L B info path uid gid)"
  unfolding delta_parent_for_def by (intro triple_intros keeps_steps keeps_walks keeps_ensure)

lemmas keeps_all = keeps_steps keeps_walks keeps_ensure keeps_copy_up keeps_delta_parent_for

end

text \<open>The consistency of the overlay, and that a number is known under a path.\<close>

definition ov_ok :: "'c overlayfs \<Rightarrow> bool" where
  "ov_ok s \<longleftrightarrow> numbers_ok s \<and> tables_ok s"

definition known_as :: "i64 \<Rightarrow> string \<Rightarrow> 'c overlayfs \<Rightarrow> bool" where
  "known_as j p s \<longleftrightarrow> ov_ok s \<and> (\<exists>info. ov_inode_map s j = Some info \<and> ii_path info = p)"

lemma ov_okD: "ov_ok s \<Longrightarrow> numbers_ok s" "ov_ok s \<Longrightarrow> tables_ok s"
  by (simp_all add: ov_ok_def)

lemma promote_tables: "tables_ok (promote_to_delta q u s) = tables_ok s"
  by (simp add: tables_ok_def promote_to_delta_def split: option.splits)

lemma ov_ok_steps:
  assumes "ov_ok s"
  shows "ov_ok (s\<lparr>ov_delta := d\<rparr>)" "ov_ok (s\<lparr>ov_clock := c\<rparr>)"
    "ov_ok (s\<lparr>fs_whiteout := replace_row path t (fs_whiteout s), ov_whiteouts := insert path (ov_whiteouts s)\<rparr>)"
    "ov_ok (s\<lparr>fs_whiteout := delete_rows (\<lambda>k. k = path) (fs_whiteout s), ov_whiteouts := ov_whiteouts s - {path}\<rparr>)"
    "ov_ok (s\<lparr>fs_origin := replace_row i b (fs_origin s), ov_origin_map := (ov_origin_map s)(i \<mapsto> b)\<rparr>)"
    "ov_ok (promote_to_delta q u s)"
proof -
  have num: "numbers_ok s" and tab: "tables_ok s" using assms by (simp_all add: ov_ok_def)
  show "ov_ok (s\<lparr>ov_delta := d\<rparr>)" "ov_ok (s\<lparr>ov_clock := c\<rparr>)"
    using num tab by (simp_all add: ov_ok_def tables_ok_def numbers_ok_def)
  have "insert path (fst ` set (fs_whiteout s)) = fst ` set (replace_row path t (fs_whiteout s))"
    by (auto simp: replace_row_def image_iff)
  then show "ov_ok (s\<lparr>fs_whiteout := replace_row path t (fs_whiteout s), ov_whiteouts := insert path (ov_whiteouts s)\<rparr>)"
    using num tab by (simp add: ov_ok_def tables_ok_def numbers_ok_def keyed_replace_row)
  have "fst ` set (fs_whiteout s) - {path} = fst ` set (delete_rows (\<lambda>k. k = path) (fs_whiteout s))"
    by (auto simp: delete_rows_def)
  then show "ov_ok (s\<lparr>fs_whiteout := delete_rows (\<lambda>k. k = path) (fs_whiteout s), ov_whiteouts := ov_whiteouts s - {path}\<rparr>)"
    using num tab by (simp add: ov_ok_def tables_ok_def numbers_ok_def keyed_delete_rows)
  show "ov_ok (s\<lparr>fs_origin := replace_row i b (fs_origin s), ov_origin_map := (ov_origin_map s)(i \<mapsto> b)\<rparr>)"
    using num tab by (simp add: ov_ok_def tables_ok_def numbers_ok_def keyed_replace_row table_simps)
  show "ov_ok (promote_to_delta q u s)"
    using num tab by (simp add: ov_ok_def promote_tables numbers_ok_promote)
qed

lemma promote_path: "ov_inode_map s j = Some info \<Longrightarrow>
    \<exists>info'. ov_inode_map (promote_to_delta q u s) j = Some info' \<and> ii_path info' = ii_path info"
  by (auto simp: promote_to_delta_def split: option.splits)

interpretation numbers: kept ov_ok "\<lambda>_. True"
  by unfold_locales (rule ov_ok_steps, assumption)+

interpretation known: kept "known_as j p" "\<lambda>_. True" for j p
  by unfold_locales (auto simp: known_as_def intro: ov_ok_steps dest: promote_path [of _ j])

lemma triple_get_inode_info:
  "triple P (get_inode_info ino) (\<lambda>r s. P s \<and> (\<forall>info. r = Inr info \<longrightarrow> ov_inode_map s ino = Some info))"
  by (auto simp: triple_def get_inode_info_def ok_or_def action_defs split: option.splits)

lemma keeps_get_inode_info [triple_intros]: "keeps P (get_inode_info ino)"
  by (rule triple_weaken [OF triple_get_inode_info [of P]]) auto

lemma keeps_build_path [triple_intros]: "keeps P (build_path ino name)"
  unfolding build_path_def by (intro triple_intros)

section \<open>Numbering entries\<close>

lemma tables_ok_cong:
  assumes "fs_whiteout s' = fs_whiteout s" "fs_origin s' = fs_origin s"
    "ov_whiteouts s' = ov_whiteouts s" "ov_origin_map s' = ov_origin_map s"
  shows "tables_ok s' = tables_ok s"
  using assms by (simp add: tables_ok_def)

lemma get_or_create_tables: "get_or_create_overlay_ino layer u p s = (ino, s') \<Longrightarrow> tables_ok s' = tables_ok s"
  by (rule tables_ok_cong) (auto simp: get_or_create_overlay_ino_def Let_def split: option.splits)

lemma ov_ok_get_or_create: "ov_ok s \<Longrightarrow> get_or_create_overlay_ino layer u p s = (ino, s') \<Longrightarrow> ov_ok s'"
  using get_or_create_tables numbers_ok_get_or_create(1) by (metis ov_ok_def)

lemma refresh_tables: "tables_ok (refresh_overlay_mapping j l u p s) = tables_ok s"
  by (simp add: refresh_overlay_mapping_def Let_def tables_ok_def split: option.splits)

lemma keeps_number_delta_entry: "keeps ov_ok (number_delta_entry path st)"
proof (rule tripleI)
  fix s r s'
  assume ok: "ov_ok s" and res: "number_delta_entry path st s = (r, s')"
  obtain ino s1 where s1: "get_or_create_overlay_ino Delta (st_ino st) path s = (ino, s1)" by fastforce
  then have ok1: "numbers_ok s1" "tables_ok s1" using ov_ok_get_or_create [OF ok s1] by (simp_all add: ov_ok_def)
  have "ov_reverse_map s1 (Base, b) = Some j \<Longrightarrow> j \<noteq> ROOT_INO" for b j
    using numbers_okD(5) [OF ok1(1), of b] by auto
  with res ok1 show "ov_ok s'"
    by (auto simp: number_delta_entry_def s1 ov_ok_def refresh_tables intro!: numbers_ok_refresh split: option.splits)
qed

lemma keeps_number_entry:
  "keeps ov_ok (number_base_entry path st)" "keeps ov_ok (number_created path st)"
  by (auto simp: triple_def number_base_entry_def number_created_def dest: ov_ok_get_or_create split: prod.splits)

lemma keeps_ov_lookup: "keeps ov_ok (ov_lookup L B p n)"
  unfolding ov_lookup_def by (intro triple_intros numbers.keeps_all keeps_number_delta_entry keeps_number_entry)

lemma keeps_plus_loops:
  "ov_ok s \<Longrightarrow> plus_base_loop info es (m, s) = (m', s') \<Longrightarrow> ov_ok s'"
  "ov_ok s \<Longrightarrow> plus_delta_loop info es (m, s) = (m', s') \<Longrightarrow> ov_ok s'"
proof -
  show "ov_ok s \<Longrightarrow> plus_base_loop info es (m, s) = (m', s') \<Longrightarrow> ov_ok s'"
    by (induction es arbitrary: m s) (auto dest: ov_ok_get_or_create split: if_splits prod.splits)
  show "ov_ok s \<Longrightarrow> plus_delta_loop info es (m, s) = (m', s') \<Longrightarrow> ov_ok s'"
    by (induction es arbitrary: m s)
      (auto simp: Let_def dest: ov_ok_get_or_create split: if_splits prod.splits option.splits)
qed

lemma keeps_ov_readdir_plus: "keeps ov_ok (ov_readdir_plus B ino)"
  unfolding ov_readdir_plus_def
  by (intro triple_intros; auto simp: triple_def dest: keeps_plus_loops split: prod.splits)

lemma keeps_copy_up_and_update:
  "triple (\<lambda>s. ov_ok s \<and> ov_inode_map s ino = Some info \<and> ii_layer info = Base)
     (copy_up_and_update_mapping L B ino info) (\<lambda>_. ov_ok)"
proof (rule tripleI)
  fix s r s'
  assume pre: "ov_ok s \<and> ov_inode_map s ino = Some info \<and> ii_layer info = Base"
    and res: "copy_up_and_update_mapping L B ino info s = (r, s')"
  then have "known_as ino (ii_path info) s" and root: "ino \<noteq> ROOT_INO"
    using numbers_okD(1) [of s] by (auto simp: known_as_def ov_ok_def)
  then have known: "copy_up L B (ii_path info) (ii_ino info) s = (x, s1) \<Longrightarrow> known_as ino (ii_path info) s1" for x s1
    using tripleD [OF known.keeps_copy_up] by blast
  from res show "ov_ok s'"
    unfolding copy_up_and_update_mapping_def
  proof (cases rule: and_then_cases)
    case (first e)
    with known show ?thesis by (auto simp: known_as_def)
  next
    case (second x s1)
    then have s': "s' = s1\<lparr>ov_inode_map := (ov_inode_map s1)(ino \<mapsto> \<lparr>ii_layer = Delta, ii_ino = x, ii_path = ii_path info\<rparr>),
        ov_reverse_map := (ov_reverse_map s1)((Delta, x) \<mapsto> ino)\<rparr>"
      by (simp add: and_then_def modify_def ok_def)
    have "tables_ok s' = tables_ok s1" by (rule tables_ok_cong) (simp_all add: s')
    with known [OF second(1)] root numbers_ok_copied [of s1 ino] show ?thesis
      by (auto simp: known_as_def ov_ok_def s')
  qed
qed

lemma keeps_delta_target: "keeps ov_ok (delta_target L B ino)"
  unfolding delta_target_def
proof (rule triple_and_then [OF triple_get_inode_info], simp, rule triple_and_then)
  fix info
  show "triple (\<lambda>s. ov_ok s \<and> (\<forall>x. Inr info = Inr x \<longrightarrow> ov_inode_map s ino = Some x))
    (gets (\<lambda>s. is_whiteout s (ii_path info))) (\<lambda>_ s. ov_ok s \<and> ov_inode_map s ino = Some info)"
    by (intro triple_gets) simp
  show "triple (\<lambda>s. ov_ok s \<and> ov_inode_map s ino = Some info) (if hidden then fail (Fs NotFound)
      else case ii_layer info of Delta \<Rightarrow> ok (ii_ino info) | Base \<Rightarrow> copy_up_and_update_mapping L B ino info)
    (\<lambda>_. ov_ok)" for hidden
    by (cases "ii_layer info")
      (auto intro!: triple_fail triple_ok intro: triple_weaken [OF keeps_copy_up_and_update])
qed simp

lemma keeps_hide_if_visible: "keeps ov_ok (hide_if_visible L B p n path)"
  unfolding hide_if_visible_def by (intro triple_intros numbers.keeps_all keeps_ov_lookup TrueI)

lemma keeps_ignore: "keeps P m \<Longrightarrow> keeps P (ignore_not_found m)"
  by (fastforce simp: triple_def ignore_not_found_def split: prod.splits sum.splits sdk_error.splits fs_error.splits)

lemma keeps_ov_readdir: "keeps P (ov_readdir B ino)"
  unfolding ov_readdir_def by (intro triple_intros)

lemmas numbers_methods = numbers.keeps_all keeps_number_entry keeps_ov_lookup keeps_ov_readdir keeps_ov_readdir_plus
  keeps_delta_target keeps_hide_if_visible keeps_ignore

lemma keeps_ov_methods:
  "keeps ov_ok (ov_chmod L B ino mode)" "keeps ov_ok (ov_chown L B ino u g)"
  "keeps ov_ok (ov_utimens L B ino at mt)" "keeps ov_ok (ov_open L B ino)"
  "keeps ov_ok (ov_mkdir L B p n mode uid gid)" "keeps ov_ok (ov_create_file L B p n mode uid gid)"
  "keeps ov_ok (ov_mknod L B p n mode rdev uid gid)" "keeps ov_ok (ov_symlink L B p n target uid gid)"
  "keeps ov_ok (ov_unlink L B p n)" "keeps ov_ok (ov_rmdir L B p n)"
  "keeps ov_ok (ov_link L B ino p n)" "keeps ov_ok (ov_rename L B p n p' n')"
  unfolding ov_chmod_def ov_chown_def ov_utimens_def ov_open_def ov_mkdir_def ov_create_file_def ov_mknod_def
    ov_symlink_def ov_unlink_def ov_rmdir_def ov_link_def ov_rename_def
  by (intro triple_intros numbers_methods)+

end
