(* ===== verification/Overlay_Delta.thy ===== *)
theory Overlay_Delta
  imports Overlay_Numbers
begin

unbundle bit_operations_syntax

text \<open>
  What the methods of the overlay do to the delta. Looking up only fills the entry cache;
  a copy-up adds entries and touches nothing that was there; every method keeps the
  consistency of the \<open>AgentFS\<close> database, so that the theorems about AgentFS apply to
  the delta of every overlay.
\<close>

section \<open>Triples about the delta\<close>

lemma triple_delta_call:
  assumes "\<And>a s r a'. P s \<Longrightarrow> ov_delta s = a \<Longrightarrow> f a = (r, a') \<Longrightarrow> Q r (s\<lparr>ov_delta := a'\<rparr>)"
  shows "triple P (delta_call f) Q"
  using assms by (auto simp: triple_def delta_call_def split: prod.splits)

text \<open>The delta is consistent and its chunk size and its database are the given ones.\<close>

definition delta_is :: "('c \<Rightarrow> dentry_key \<Rightarrow> i64 option) \<Rightarrow> nat \<Rightarrow> db \<Rightarrow> 'c overlayfs \<Rightarrow> bool" where
  "delta_is view k d s \<longleftrightarrow> good view (ov_delta s) \<and> afs_chunk_size (ov_delta s) = k \<and> afs_db (ov_delta s) = d"

text \<open>What a lookup answers on a given database.\<close>

definition child_stats :: "db \<Rightarrow> i64 \<Rightarrow> string \<Rightarrow> stats option result" where
  "child_stats d p n =
     (if MAX_NAME_LEN < length n then Inl (Fs NameTooLong)
      else Inr (Option.bind (map_of (fs_dentry d) (p, n)) (getattr d)))"

lemma fs_lookup_db:
  "afs_db (snd (fs_lookup L p n s)) = afs_db s" "afs_chunk_size (snd (fs_lookup L p n s)) = afs_chunk_size s"
  by (auto simp: fs_lookup_def Let_def split: option.splits sum.splits)

lemma fs_lookup_result:
  assumes "wf_db (afs_db s)" and "n \<noteq> ''..''"
  shows "fst (fs_lookup L p n s) = child_stats (afs_db s) p n"
  using assms lookup_child_keyed [OF wf_dbD(2) [OF assms(1)], of p n]
  by (auto simp: fs_lookup_def child_stats_def Let_def split: option.splits)

lemma getattr_ino: "getattr d i = Some st \<Longrightarrow> st_ino st = i"
  by (auto simp: getattr_def build_stats_from_row_def)

lemma getattr_dir: "getattr d i = Some st \<Longrightarrow> is_directory st = is_dir_ino d i"
  by (auto simp: getattr_def build_stats_from_row_def is_directory_def is_dir_ino_def)

lemma child_stats_Some:
  assumes "child_stats d p n = Inr (Some st)"
  shows "map_of (fs_dentry d) (p, n) = Some (st_ino st)" "getattr d (st_ino st) = Some st" "length n \<le> MAX_NAME_LEN"
proof -
  obtain i where i: "map_of (fs_dentry d) (p, n) = Some i" "getattr d i = Some st" and len: "\<not> MAX_NAME_LEN < length n"
    using assms by (auto simp: child_stats_def bind_eq_Some_conv split: if_splits)
  with getattr_ino [OF i(2)] show "map_of (fs_dentry d) (p, n) = Some (st_ino st)" "getattr d (st_ino st) = Some st"
    "length n \<le> MAX_NAME_LEN" by simp_all
qed

lemma child_stats_None:
  assumes "wf_db d" and "child_stats d p n = Inr None"
  shows "map_of (fs_dentry d) (p, n) = None"
proof (rule ccontr)
  assume "map_of (fs_dentry d) (p, n) \<noteq> None"
  then obtain i where i: "map_of (fs_dentry d) (p, n) = Some i" by blast
  with wf_dbD(7) [OF assms(1) i] assms(2) show False
    by (auto simp: child_stats_def dentry_ok_def live_def getattr_def split: if_splits)
qed

section \<open>Growth\<close>

text \<open>
  \<open>grows k d d'\<close>: \<open>d'\<close> has the entries and directories of \<open>d\<close> and at most \<open>k\<close> more entries, whose
  names are plain; the content of the files that were there is unchanged.
\<close>

definition grows :: "nat \<Rightarrow> db \<Rightarrow> db \<Rightarrow> bool" where
  "grows k d d' \<longleftrightarrow>
     (\<forall>e i. map_of (fs_dentry d) e = Some i \<longrightarrow> map_of (fs_dentry d') e = Some i) \<and>
     (\<forall>i. is_dir_ino d i \<longrightarrow> is_dir_ino d' i) \<and>
     (\<forall>i. live d i \<longrightarrow> live d' i \<and> select_size d' i = select_size d i \<and>
        map_of (fs_symlink d') i = map_of (fs_symlink d) i \<and>
        (\<forall>k. map_of (fs_data d') (i, k) = map_of (fs_data d) (i, k))) \<and>
     (\<forall>x \<in> set (fs_dentry d'). x \<in> set (fs_dentry d) \<or> clean_component (snd (fst x))) \<and>
     length (fs_dentry d') \<le> length (fs_dentry d) + k"

lemma grows_refl [simp]: "grows k d d"
  by (simp add: grows_def)

lemma grows_trans: "grows a d d' \<Longrightarrow> grows b d' d'' \<Longrightarrow> grows (a + b) d d''"
  unfolding grows_def by (fastforce simp: add.commute)

lemma grows_mono: "grows a d d' \<Longrightarrow> a \<le> b \<Longrightarrow> grows b d d'"
  unfolding grows_def by auto

lemma growsD:
  assumes "grows k d d'"
  shows "map_of (fs_dentry d) e = Some i \<Longrightarrow> map_of (fs_dentry d') e = Some i"
    and "is_dir_ino d i \<Longrightarrow> is_dir_ino d' i"
    and "live d i \<Longrightarrow> live d' i"
    and "length (fs_dentry d') \<le> length (fs_dentry d) + k"
    and "live d i \<Longrightarrow> content cs i d' = content cs i d"
  using assms by (cases e; simp add: grows_def content_def byte_at_def)+

lemma grows_walk: "grows k d d' \<Longrightarrow> walk d i cs = Some j \<Longrightarrow> walk d' i cs = Some j"
  by (induction cs arbitrary: i) (auto simp: growsD(1) split: option.splits)

text \<open>One new inode under a free name.\<close>

lemma grows_new_entry:
  assumes wf: "wf_db d" and free: "map_of (fs_dentry d) (p, n) = None" and n: "clean_component n"
  shows "grows 1 d (new_entry r p n d)"
proof -
  have "map_of (fs_dentry (new_entry r p n d)) = (map_of (fs_dentry d))((p, n) \<mapsto> inode_seq d + 1)"
    using map_of_snoc [OF free] by simp
  moreover have "i \<noteq> inode_seq d + 1" if "live d i" for i using that fresh_ino [OF wf] by (auto simp: live_def)
  ultimately show ?thesis
    using free n by (auto simp: grows_def live_def select_size_def new_entry_sel [OF wf] is_dir_new_entry [OF wf])
qed

lemma grows_same_tables:
  assumes "fs_dentry d' = fs_dentry d" "fs_data d' = fs_data d" "fs_symlink d' = fs_symlink d"
    and "\<And>i. is_dir_ino d' i = is_dir_ino d i" "\<And>i. live d' i = live d i" "\<And>i. select_size d' i = select_size d i"
  shows "grows k d d'"
  using assms by (simp add: grows_def)

lemma grows_touch:
  assumes "grows k d d'"
  shows "grows k d (touch_parent now p d')" "grows k d (add_nlink j p d')"
proof -
  have "grows 0 d' (touch_parent now p d')" by (rule grows_same_tables) simp_all
  then show "grows k d (touch_parent now p d')" using grows_trans [OF assms] by fastforce
  have "select_size (add_nlink j p d') i = select_size d' i" for i
    by (auto simp: add_nlink_def table_simps select_size_def split: option.splits)
  then have "grows 0 d' (add_nlink j p d')"
    by (intro grows_same_tables) (simp_all add: add_nlink_def, simp flip: add_nlink_def)
  then show "grows k d (add_nlink j p d')" using grows_trans [OF assms] by fastforce
qed

lemma grows_symlink_row:
  assumes "grows k d d'" and "\<not> live d i"
  shows "grows k d (d'\<lparr>fs_symlink := fs_symlink d' @ [(i, t)]\<rparr>)"
proof -
  let ?d = "d'\<lparr>fs_symlink := fs_symlink d' @ [(i, t)]\<rparr>"
  have "select_inode ?d = select_inode d'" by (simp add: select_inode_def fun_eq_iff)
  then have "is_dir_ino ?d = is_dir_ino d'" "live ?d = live d'" "select_size ?d = select_size d'"
    by (simp_all add: is_dir_ino_def live_def select_size_def fun_eq_iff)
  moreover have "map_of (fs_symlink d' @ [(i, t)]) j = map_of (fs_symlink d') j" if "live d j" for j
    using that assms(2) by (cases "map_of (fs_symlink d') j") (auto simp: map_add_def)
  ultimately show ?thesis using assms(1) unfolding grows_def by simp
qed

definition clean_names :: "db \<Rightarrow> bool" where
  "clean_names d \<longleftrightarrow> (\<forall>x \<in> set (fs_dentry d). clean_component (snd (fst x)))"

lemma grows_clean: "grows k d d' \<Longrightarrow> clean_names d \<Longrightarrow> clean_names d'"
  unfolding grows_def clean_names_def by blast

text \<open>The entry and the inode a creation added.\<close>

definition new_child :: "db \<Rightarrow> db \<Rightarrow> i64 \<Rightarrow> string \<Rightarrow> stats \<Rightarrow> bool" where
  "new_child d d' p n st \<longleftrightarrow> map_of (fs_dentry d') (p, n) = Some (st_ino st) \<and>
     getattr d' (st_ino st) = Some st \<and> \<not> live d (st_ino st)"

lemma getattr_other:
  assumes "p \<noteq> i"
  shows "getattr (touch_parent now p d) i = getattr d i" "getattr (add_nlink j p d) i = getattr d i"
    "getattr (d\<lparr>fs_symlink := t\<rparr>) i = getattr d i"
  using assms by (simp_all add: getattr_def touch_parent_def add_nlink_def table_simps) (simp add: select_inode_def)

lemma new_child_new_entry:
  assumes wf: "wf_db d" and free: "map_of (fs_dentry d) (p, n) = None"
    and db: "getattr d' (inode_seq d + 1) = getattr (new_entry r p n d) (inode_seq d + 1)"
      "fs_dentry d' = fs_dentry (new_entry r p n d)"
    and st: "st = build_stats_from_row (inode_seq d + 1) r"
  shows "new_child d d' p n st"
proof -
  have "st_ino st = inode_seq d + 1" by (simp add: st build_stats_from_row_def)
  then show ?thesis
    using fresh_ino [OF wf] db map_of_snoc [OF free] st
    by (simp add: new_child_def live_def getattr_def new_entry_sel [OF wf])
qed

section \<open>The calls of the delta\<close>

context lru_cache
begin

lemma delta_lookup:
  assumes "n \<noteq> ''..''"
  shows "triple (delta_is view k d) (delta_call (fs_lookup L p n)) (\<lambda>r s. delta_is view k d s \<and> r = child_stats d p n)"
proof (rule triple_delta_call)
  fix a s r a'
  assume s: "delta_is view k d s" "ov_delta s = a" and res: "fs_lookup L p n a = (r, a')"
  have "delta_is view k d (s\<lparr>ov_delta := a'\<rparr>)"
    using s good_lookup [of a p n] fs_lookup_db [of L p n a] by (simp add: delta_is_def res)
  moreover have "r = child_stats d p n"
    using s fs_lookup_result [OF goodD(1) assms, of view a L p] by (auto simp: delta_is_def res)
  ultimately show "delta_is view k d (s\<lparr>ov_delta := a'\<rparr>) \<and> r = child_stats d p n" by blast
qed

lemma keeps_delta_lookup: "keeps (delta_is view k d) (delta_call (fs_lookup L p n))"
proof (rule triple_delta_call)
  fix a s r a'
  assume "delta_is view k d s" "ov_delta s = a" "fs_lookup L p n a = (r, a')"
  then show "delta_is view k d (s\<lparr>ov_delta := a'\<rparr>)"
    using good_lookup [of a p n] fs_lookup_db [of L p n a] by (simp add: delta_is_def)
qed

text \<open>A creating call: on success one plain entry more, on failure nothing.\<close>

lemma delta_create:
  assumes "\<And>a e a'. good view a \<Longrightarrow> afs_db a = d \<Longrightarrow> f a = (Inl e, a') \<Longrightarrow> a' = a"
    and "\<And>a x a'. good view a \<Longrightarrow> afs_db a = d \<Longrightarrow> afs_chunk_size a = k \<Longrightarrow> f a = (Inr x, a') \<Longrightarrow>
      good view a' \<and> afs_chunk_size a' = k \<and> grows 1 d (afs_db a') \<and> Q x (afs_db a')"
  shows "triple (delta_is view k d) (delta_call f)
    (\<lambda>r s. case r of Inl e \<Rightarrow> delta_is view k d s | Inr x \<Rightarrow> \<exists>d'. delta_is view k d' s \<and> grows 1 d d' \<and> Q x d')"
proof (rule triple_delta_call)
  fix a s r a'
  assume s: "delta_is view k d s" "ov_delta s = a" and res: "f a = (r, a')"
  show "case r of Inl e \<Rightarrow> delta_is view k d (s\<lparr>ov_delta := a'\<rparr>)
      | Inr x \<Rightarrow> \<exists>d'. delta_is view k d' (s\<lparr>ov_delta := a'\<rparr>) \<and> grows 1 d d' \<and> Q x d'"
    using s res assms(1) [of a _ a'] assms(2) [of a _ a'] by (cases r) (auto simp: delta_is_def)
qed

lemma delta_mkdir:
  assumes p: "is_dir_ino d p" and n: "clean_component n"
  shows "triple (delta_is view k d) (delta_call (fs_mkdir L now p n mode uid gid))
    (\<lambda>r s. case r of Inl e \<Rightarrow> delta_is view k d s
      | Inr st \<Rightarrow> \<exists>d'. delta_is view k d' s \<and> grows 1 d d' \<and> new_child d d' p n st \<and> is_directory st \<and>
          (st_mode st, st_uid st, st_gid st) = (S_IFDIR OR (mode AND PERM_MASK), uid, gid))"
proof (rule delta_create)
  fix a x a'
  assume good: "good view a" and d: "afs_db a = d" and k: "afs_chunk_size a = k"
    and res: "fs_mkdir L now p n mode uid gid a = (Inr x, a')"
  note wf = goodD(1) [OF good]
  have len: "length n \<le> MAX_NAME_LEN" and free: "map_of (fs_dentry (afs_db a)) (p, n) = None"
    using res lookup_child_keyed [OF wf_dbD(2) [OF wf], of p n] by (auto simp: fs_mkdir_def split: if_splits option.splits)
  let ?r = "new_row (S_IFDIR OR (mode AND PERM_MASK)) 2 uid gid 0 0 now"
  have x: "x = build_stats_from_row (inode_seq d + 1) ?r" and cs: "afs_chunk_size a' = k"
    and a': "afs_db a' = touch_parent now p (add_nlink 1 p (new_entry ?r p n d))"
    using res fs_mkdir_new [OF wf len free] d k by (auto simp: new_stats_def build_stats_from_row_def new_row_def)
  have "p \<noteq> inode_seq d + 1" using p fresh_ino [OF wf] d by (auto simp: is_dir_ino_def)
  then have "new_child d (afs_db a') p n x"
    using wf free d x by (intro new_child_new_entry [of _ _ _ _ ?r]) (simp_all add: a' getattr_other)
  moreover have "good view a'" using good_mkdir [OF good] p d res by (metis snd_conv)
  moreover have "grows 1 d (afs_db a')"
    unfolding a' using wf free n d by (intro grows_touch grows_new_entry) simp_all
  moreover have "is_directory x" by (simp add: x build_stats_from_row_def is_directory_def new_row_def mode_is_def)
  moreover have "(st_mode x, st_uid x, st_gid x) = (S_IFDIR OR (mode AND PERM_MASK), uid, gid)"
    by (simp add: x build_stats_from_row_def new_row_def)
  ultimately show "good view a' \<and> afs_chunk_size a' = k \<and> grows 1 d (afs_db a') \<and> new_child d (afs_db a') p n x \<and> is_directory x \<and>
      (st_mode x, st_uid x, st_gid x) = (S_IFDIR OR (mode AND PERM_MASK), uid, gid)"
    using cs by blast
qed (use fs_create_error(1) goodD(1) in blast)

lemma delta_create_file:
  assumes p: "is_dir_ino d p" and n: "clean_component n"
  shows "triple (delta_is view k d) (delta_call (fs_create_file L now p n mode uid gid))
    (\<lambda>r s. case r of Inl e \<Rightarrow> delta_is view k d s
      | Inr x \<Rightarrow> \<exists>d'. delta_is view k d' s \<and> grows 1 d d' \<and> new_child d d' p n (fst x) \<and>
          snd x = \<lparr>f_ino = st_ino (fst x), f_chunk_size = k\<rparr> \<and> file_ino d' (st_ino (fst x)) \<and> content k (st_ino (fst x)) d' = [] \<and>
          (st_mode (fst x), st_uid (fst x), st_gid (fst x)) = (S_IFREG OR (mode AND PERM_MASK), uid, gid))"
proof (rule delta_create)
  fix a x a'
  assume good: "good view a" and d: "afs_db a = d" and k: "afs_chunk_size a = k"
    and res: "fs_create_file L now p n mode uid gid a = (Inr x, a')"
  note wf = goodD(1) [OF good]
  have len: "length n \<le> MAX_NAME_LEN" and free: "map_of (fs_dentry (afs_db a)) (p, n) = None"
    using res lookup_child_keyed [OF wf_dbD(2) [OF wf], of p n] by (auto simp: fs_create_file_def split: if_splits option.splits)
  let ?r = "new_row (S_IFREG OR (mode AND PERM_MASK)) 1 uid gid 0 0 now"
  have x: "fst x = build_stats_from_row (inode_seq d + 1) ?r" and cs: "afs_chunk_size a' = k"
    and f: "snd x = \<lparr>f_ino = st_ino (fst x), f_chunk_size = k\<rparr>"
    and a': "afs_db a' = touch_parent now p (new_entry ?r p n d)"
    using res fs_create_file_new [OF wf len free] d k by (auto simp: new_stats_def build_stats_from_row_def new_row_def)
  have "p \<noteq> inode_seq d + 1" using p fresh_ino [OF wf] d by (auto simp: is_dir_ino_def)
  then have child: "new_child d (afs_db a') p n (fst x)"
    using wf free d x by (intro new_child_new_entry [of _ _ _ _ ?r]) (simp_all add: a' getattr_other)
  have "good view a'" using good_create_file [OF good] p d res by (metis snd_conv)
  moreover have "grows 1 d (afs_db a')"
    unfolding a' using wf free n d by (intro grows_touch grows_new_entry) simp_all
  moreover have "\<not> is_directory (fst x)" by (simp add: x build_stats_from_row_def is_directory_def new_row_def mode_is_def)
  then have "file_ino (afs_db a') (st_ino (fst x))"
    using child getattr_dir [of "afs_db a'"] by (auto simp: new_child_def file_ino_def live_def getattr_def)
  moreover have "select_size (afs_db a') (st_ino (fst x)) = 0"
    using child by (auto simp: new_child_def getattr_def select_size_def x build_stats_from_row_def new_row_def as_u64_def)
  then have "content k (st_ino (fst x)) (afs_db a') = []" by (simp add: content_def)
  moreover have "(st_mode (fst x), st_uid (fst x), st_gid (fst x)) = (S_IFREG OR (mode AND PERM_MASK), uid, gid)"
    by (simp add: x build_stats_from_row_def new_row_def)
  ultimately show "good view a' \<and> afs_chunk_size a' = k \<and> grows 1 d (afs_db a') \<and> new_child d (afs_db a') p n (fst x) \<and>
      snd x = \<lparr>f_ino = st_ino (fst x), f_chunk_size = k\<rparr> \<and> file_ino (afs_db a') (st_ino (fst x)) \<and>
      content k (st_ino (fst x)) (afs_db a') = [] \<and>
      (st_mode (fst x), st_uid (fst x), st_gid (fst x)) = (S_IFREG OR (mode AND PERM_MASK), uid, gid)"
    using cs f child by blast
qed (use fs_create_error(4) goodD(1) in blast)

lemma delta_symlink:
  assumes p: "is_dir_ino d p" and n: "clean_component n" and len: "length target < 2 ^ 63"
  shows "triple (delta_is view k d) (delta_call (fs_symlink_at L now p n target uid gid))
    (\<lambda>r s. case r of Inl e \<Rightarrow> delta_is view k d s
      | Inr st \<Rightarrow> \<exists>d'. delta_is view k d' s \<and> grows 1 d d' \<and> new_child d d' p n st \<and>
          (st_uid st, st_gid st) = (uid, gid) \<and> map_of (fs_symlink d') (st_ino st) = Some target)"
proof (rule delta_create)
  fix a x a'
  assume good: "good view a" and d: "afs_db a = d" and k: "afs_chunk_size a = k"
    and res: "fs_symlink_at L now p n target uid gid a = (Inr x, a')"
  note wf = goodD(1) [OF good]
  have nlen: "length n \<le> MAX_NAME_LEN" and free: "map_of (fs_dentry (afs_db a)) (p, n) = None"
    using res lookup_child_keyed [OF wf_dbD(2) [OF wf], of p n] by (auto simp: fs_symlink_at_def split: if_splits option.splits)
  let ?r = "new_row (S_IFLNK OR 511) 1 uid gid (as_i64 (length target)) 0 now"
  let ?e = "new_entry ?r p n d"
  have x: "x = build_stats_from_row (inode_seq d + 1) ?r" and cs: "afs_chunk_size a' = k"
    and a': "afs_db a' = touch_parent now p (?e\<lparr>fs_symlink := fs_symlink ?e @ [(inode_seq d + 1, target)]\<rparr>)"
    using res fs_symlink_new [OF wf nlen free] d k by (auto simp: new_stats_def build_stats_from_row_def new_row_def)
  have fresh: "\<not> live d (inode_seq d + 1)" using fresh_ino [OF wf] d by (simp add: live_def)
  have "p \<noteq> inode_seq d + 1" using p fresh by (auto simp: is_dir_ino_def live_def)
  then have "new_child d (afs_db a') p n x"
    using wf free d x by (intro new_child_new_entry [of _ _ _ _ ?r]) (simp_all add: a' getattr_other getattr_other(3))
  moreover have "good view a'" using good_symlink [OF good _ len] p d res by (metis snd_conv)
  moreover have "grows 1 d (afs_db a')"
    unfolding a' using wf free n d fresh by (intro grows_touch grows_symlink_row grows_new_entry) simp_all
  moreover have "map_of (fs_symlink d) (inode_seq d + 1) = None"
    using wf_dbD(9) [OF wf, of "inode_seq d + 1"] fresh d by (cases "map_of (fs_symlink d) (inode_seq d + 1)") (auto simp: file_ino_def)
  then have "map_of (fs_symlink (afs_db a')) (st_ino x) = Some target"
    by (simp add: a' x build_stats_from_row_def map_add_def)
  moreover have "(st_uid x, st_gid x) = (uid, gid)" by (simp add: x build_stats_from_row_def new_row_def)
  ultimately show "good view a' \<and> afs_chunk_size a' = k \<and> grows 1 d (afs_db a') \<and> new_child d (afs_db a') p n x \<and>
      (st_uid x, st_gid x) = (uid, gid) \<and> map_of (fs_symlink (afs_db a')) (st_ino x) = Some target"
    using cs by blast
qed (use fs_create_error(3) goodD(1) in blast)

end

end
