(* ===== verification/Overlay_Copy_Up.thy ===== *)
theory Overlay_Copy_Up
  imports Overlay_Delta
begin

unbundle bit_operations_syntax

text \<open>
  Copy-up: creating the parent directories in the delta and copying a base inode there. Both only
  add to the delta, and the copy of a regular file has the content and the permissions that the
  base reports.
\<close>

section \<open>Steps that leave the delta alone\<close>

definition delta_untouched :: "('c, 'a) ov_method \<Rightarrow> bool" where
  "delta_untouched m \<longleftrightarrow> (\<forall>s. ov_delta (snd (m s)) = ov_delta s)"

lemma delta_untouched_keeps: "delta_untouched m \<Longrightarrow> keeps (delta_is view k d) m"
proof (rule tripleI)
  fix s r s'
  assume "delta_untouched m" and s: "delta_is view k d s" and "m s = (r, s')"
  then have "ov_delta s' = ov_delta s" unfolding delta_untouched_def by (metis snd_conv)
  with s show "delta_is view k d s'" by (simp add: delta_is_def)
qed

lemma delta_untouched_steps:
  "delta_untouched tick" "delta_untouched (remove_whiteout path)" "delta_untouched (create_whiteout path)"
  "delta_untouched (add_origin_mapping i b)" "delta_untouched (modify (promote_to_delta q u))"
  "delta_untouched (number_delta_entry path st)" "delta_untouched (number_base_entry path st)"
  "delta_untouched (number_created path st)"
  by (auto simp: delta_untouched_def tick_def remove_whiteout_def create_whiteout_def add_origin_mapping_def modify_def
      and_then_def promote_to_delta_def number_delta_entry_def number_base_entry_def number_created_def
      get_or_create_overlay_ino_def refresh_overlay_mapping_def Let_def split: option.splits prod.splits)

lemmas delta_keeps = delta_untouched_steps [THEN delta_untouched_keeps]

section \<open>Walks\<close>

lemma root_is_dir: "delta_is view k d s \<Longrightarrow> is_dir_ino d 1"
  using goodD(1) wf_dbD(5) by (auto simp: delta_is_def ROOT_INO_def)

context lru_cache
begin

lemma clean_not_dotdot: "clean_component n \<Longrightarrow> n \<noteq> ''..''"
  by (simp add: clean_component_def)

lemma delta_walk_spec:
  assumes "list_all clean_component cs"
  shows "triple (delta_is view k d) (delta_walk L i cs) (\<lambda>r s. delta_is view k d s \<and> (\<forall>x. r = Inr x \<longrightarrow> x = walk d i cs))"
  using assms
proof (induction cs arbitrary: i)
  case (Cons c cs)
  have wf: "delta_is view k d s \<Longrightarrow> wf_db d" for s using goodD(1) by (auto simp: delta_is_def)
  have c: "c \<noteq> ''..''" "list_all clean_component cs" using Cons.prems clean_not_dotdot by auto
  show ?case
    unfolding delta_walk.simps
  proof (rule triple_and_then [OF delta_lookup [OF c(1)]])
    fix x
    show "triple (\<lambda>s. delta_is view k d s \<and> Inr x = child_stats d i c)
      (case x of None \<Rightarrow> ok None | Some st \<Rightarrow> delta_walk L (st_ino st) cs)
      (\<lambda>r s. delta_is view k d s \<and> (\<forall>x. r = Inr x \<longrightarrow> x = walk d i (c # cs)))"
    proof (cases x)
      case None
      then show ?thesis using wf child_stats_None [of d i c] by (auto intro!: triple_ok)
    next
      case (Some st)
      have "triple (delta_is view k d) (delta_walk L (st_ino st) cs)
          (\<lambda>r s. delta_is view k d s \<and> (\<forall>x. r = Inr x \<longrightarrow> x = walk d i (c # cs)))" if "Inr (Some st) = child_stats d i c"
        using Cons.IH [OF c(2), of "st_ino st"] child_stats_Some [OF that [symmetric]] by simp
      then show ?thesis using Some by (auto intro: triple_pure)
    qed
  qed simp
qed (auto intro!: triple_ok)

lemma delta_dir_walk_spec:
  assumes "list_all clean_component cs" and "is_dir_ino d i"
  shows "triple (delta_is view k d) (delta_dir_walk L i cs) (\<lambda>r s. delta_is view k d s \<and>
    (\<forall>j. r = Inr (Some j) \<longrightarrow> walk d i cs = Some j \<and> is_dir_ino d j))"
  using assms
proof (induction cs arbitrary: i)
  case (Cons c cs)
  have c: "c \<noteq> ''..''" "list_all clean_component cs" using Cons.prems clean_not_dotdot by auto
  show ?case
    unfolding delta_dir_walk.simps
  proof (rule triple_and_then [OF delta_lookup [OF c(1)]])
    fix x
    have "triple (delta_is view k d) (delta_dir_walk L (st_ino st) cs) (\<lambda>r s. delta_is view k d s \<and>
        (\<forall>j. r = Inr (Some j) \<longrightarrow> walk d i (c # cs) = Some j \<and> is_dir_ino d j))"
      if "Inr (Some st) = child_stats d i c" "is_directory st" for st
      using Cons.IH [OF c(2), of "st_ino st"] child_stats_Some [OF that(1) [symmetric]] getattr_dir that(2) by simp
    then show "triple (\<lambda>s. delta_is view k d s \<and> Inr x = child_stats d i c)
      (case x of None \<Rightarrow> ok None | Some st \<Rightarrow> if is_directory st then delta_dir_walk L (st_ino st) cs else ok None)
      (\<lambda>r s. delta_is view k d s \<and> (\<forall>j. r = Inr (Some j) \<longrightarrow> walk d i (c # cs) = Some j \<and> is_dir_ino d j))"
      by (cases x) (auto intro!: triple_ok triple_pure)
  qed simp
qed (auto intro!: triple_ok)

text \<open>A parent that resolves is a directory of the delta.\<close>

lemma resolve_delta_parent_spec:
  assumes "list_all clean_component (path_components (ii_path info))"
    and "ii_layer info = Delta \<Longrightarrow> is_dir_ino d (ii_ino info)"
  shows "triple (delta_is view k d) (resolve_delta_parent L info)
    (\<lambda>r s. delta_is view k d s \<and> (\<forall>j. r = Inr (Some j) \<longrightarrow> is_dir_ino d j))"
proof (cases "ii_layer info = Delta")
  case True
  then show ?thesis using assms(2) by (auto simp: resolve_delta_parent_def intro!: triple_ok)
next
  case False
  with assms(1) show ?thesis
    by - (rule triple_assuming [OF root_is_dir], assumption, auto simp: resolve_delta_parent_def intro: triple_weaken [OF delta_dir_walk_spec])
qed

section \<open>Parent directories\<close>

text \<open>
  The loop adds at most one directory per component, and when it succeeds the whole path leads
  through directories of the delta.
\<close>

lemma make_missing_dir_spec:
  assumes "is_dir_ino d i" and "clean_component c"
  shows "triple (delta_is view k d) (make_missing_dir L B uid gid cur i b c)
    (\<lambda>r s. \<exists>d'. delta_is view k d' s \<and> grows 1 d d' \<and>
       (\<forall>x. r = Inr x \<longrightarrow> map_of (fs_dentry d') (i, c) = Some (fst x) \<and> is_dir_ino d' (fst x)))"
    (is "triple _ _ ?Q")
proof -
  have err: "delta_is view k d s \<Longrightarrow> ?Q (Inl e) s" for e s using grows_refl by blast
  have finish: "triple (delta_is view k d1) (case bs of None \<Rightarrow> ok (st_ino st, b)
      | Some b \<Rightarrow> and_then (add_origin_mapping (st_ino st) (st_ino b)) (\<lambda>_.
          and_then (modify (promote_to_delta cur (st_ino st))) (\<lambda>_. ok (st_ino st, st_ino b)))) ?Q"
    if "grows 1 d d1" "new_child d d1 i c st" "is_directory st" for d1 st bs
  proof -
    have made: "map_of (fs_dentry d1) (i, c) = Some (st_ino st)" "is_dir_ino d1 (st_ino st)"
      using that getattr_dir [of d1] by (auto simp: new_child_def)
    have last: "triple (delta_is view k d1) (ok (st_ino st, b')) ?Q" for b'
      using made that(1) by (intro triple_ok) auto
    have keep: "delta_is view k d1 s \<Longrightarrow> ?Q (Inl e) s" for e s using that(1) by blast
    show ?thesis
    proof (cases bs)
      case (Some b')
      show ?thesis
        unfolding Some option.case
        by (rule triple_then_keep [OF delta_keeps(4)], erule keep, rule triple_then_keep [OF delta_keeps(5)], erule keep, rule last)
    qed (simp only: option.case last)
  qed
  show ?thesis
    unfolding make_missing_dir_def
  proof (rule triple_then_keep [OF keeps_reads], erule err, rule triple_then_keep [OF delta_keeps(1)], erule err,
      rule triple_and_then [OF delta_mkdir [OF assms]])
    show "triple (\<lambda>s. case Inr st of Inl e \<Rightarrow> delta_is view k d s
        | Inr st \<Rightarrow> \<exists>d'. delta_is view k d' s \<and> grows 1 d d' \<and> new_child d d' i c st \<and> is_directory st \<and>
            (st_mode st, st_uid st, st_gid st) = (S_IFDIR OR (493 AND PERM_MASK),
              (case bs of None \<Rightarrow> uid | Some b \<Rightarrow> st_uid b), (case bs of None \<Rightarrow> gid | Some b \<Rightarrow> st_gid b)))
      (case bs of None \<Rightarrow> ok (st_ino st, b)
      | Some b \<Rightarrow> and_then (add_origin_mapping (st_ino st) (st_ino b)) (\<lambda>_.
          and_then (modify (promote_to_delta cur (st_ino st))) (\<lambda>_. ok (st_ino st, st_ino b)))) ?Q" for st bs
      using finish by (simp only: sum.case) (intro triple_ex triple_pure, blast)
  qed (simp_all only: sum.case err)
qed

lemma ensure_dir_spec:
  assumes "is_dir_ino d i" and "clean_component c"
  shows "triple (delta_is view k d) (ensure_dir L B uid gid cur i b c)
    (\<lambda>r s. \<exists>d'. delta_is view k d' s \<and> grows 1 d d' \<and>
       (\<forall>x. r = Inr x \<longrightarrow> map_of (fs_dentry d') (i, c) = Some (fst x) \<and> is_dir_ino d' (fst x)))"
    (is "triple _ _ ?Q")
proof -
  have err: "delta_is view k d s \<Longrightarrow> ?Q (Inl e) s" for e s using grows_refl by blast
  have found: "triple (delta_is view k d) (and_then (reads (\<lambda>_. bs_lookup B b c))
      (\<lambda>bs. ok (st_ino st, case bs of None \<Rightarrow> b | Some b \<Rightarrow> st_ino b))) ?Q"
    if "Inr (Some st) = child_stats d i c" "is_directory st" for st
    using child_stats_Some [OF that(1) [symmetric]] getattr_dir that(2) grows_refl
    by (intro triple_then_keep [OF keeps_reads] triple_ok) fastforce+
  show ?thesis
    unfolding ensure_dir_def
  proof (rule triple_then_keep [OF delta_keeps(2)], erule err,
      rule triple_and_then [OF delta_lookup [OF clean_not_dotdot [OF assms(2)]]])
    show "triple (\<lambda>s. delta_is view k d s \<and> Inr x = child_stats d i c)
      (case x of None \<Rightarrow> make_missing_dir L B uid gid cur i b c
       | Some st \<Rightarrow> if is_directory st then and_then (reads (\<lambda>_. bs_lookup B b c))
             (\<lambda>bs. ok (st_ino st, case bs of None \<Rightarrow> b | Some b \<Rightarrow> st_ino b)) else fail (Fs NotADirectory)) ?Q" for x
      using found err make_missing_dir_spec [OF assms]
      by (intro triple_pure, cases x) (auto intro!: triple_fail simp del: split_paired_All)
  qed (use err in blast)
qed

lemma ensure_dirs_loop_spec:
  assumes "list_all clean_component cs" and "is_dir_ino d i"
  shows "triple (delta_is view k d) (ensure_dirs_loop L B uid gid cur i b cs)
    (\<lambda>r s. \<exists>d'. delta_is view k d' s \<and> grows (length cs) d d' \<and>
       (\<forall>u. r = Inr u \<longrightarrow> (\<exists>j. walk d' i cs = Some j \<and> is_dir_ino d' j)))"
  using assms
proof (induction cs arbitrary: d i b cur)
  case (Cons c cs)
  have c: "clean_component c" "list_all clean_component cs" using Cons.prems by auto
  let ?Q = "\<lambda>r s. \<exists>d'. delta_is view k d' s \<and> grows (length (c # cs)) d d' \<and>
    (\<forall>u. r = Inr u \<longrightarrow> (\<exists>j. walk d' i (c # cs) = Some j \<and> is_dir_ino d' j))"
  have step: "triple (delta_is view k d1) (ensure_dirs_loop L B uid gid cur' i' b' cs) ?Q"
    if d1: "grows 1 d d1" "map_of (fs_dentry d1) (i, c) = Some i'" "is_dir_ino d1 i'" for d1 i' b' cur'
  proof (rule triple_weaken [OF Cons.IH [OF c(2) d1(3)]])
    fix r s
    assume "\<exists>d'. delta_is view k d' s \<and> grows (length cs) d1 d' \<and>
      (\<forall>u. r = Inr u \<longrightarrow> (\<exists>j. walk d' i' cs = Some j \<and> is_dir_ino d' j))"
    then obtain d' where d': "delta_is view k d' s" "grows (length cs) d1 d'"
      "\<And>u. r = Inr u \<Longrightarrow> \<exists>j. walk d' i' cs = Some j \<and> is_dir_ino d' j" by blast
    moreover have "map_of (fs_dentry d') (i, c) = Some i'" using growsD(1) [OF d'(2)] d1(2) by blast
    ultimately show "?Q r s" using grows_trans [OF d1(1) d'(2)] by auto
  qed simp
  show ?case
    unfolding ensure_dirs_loop.simps Let_def
  proof (rule triple_and_then [OF ensure_dir_spec [OF Cons.prems(2) c(1)]])
    show "?Q (Inl e) s" if "\<exists>d'. delta_is view k d' s \<and> grows 1 d d' \<and>
        (\<forall>x. Inl e = Inr x \<longrightarrow> map_of (fs_dentry d') (i, c) = Some (fst x) \<and> is_dir_ino d' (fst x))" for e s
      using that grows_mono [of 1 d _ "length (c # cs)"] by fastforce
    show "triple (\<lambda>s. \<exists>d'. delta_is view k d' s \<and> grows 1 d d' \<and>
        (\<forall>x. Inr y = Inr x \<longrightarrow> map_of (fs_dentry d') (i, c) = Some (fst x) \<and> is_dir_ino d' (fst x)))
      (ensure_dirs_loop L B uid gid (cur @ ''/'' @ c) (fst y) (snd y) cs) ?Q" for y
      using step by (intro triple_ex triple_pure) blast
  qed
qed (auto intro!: triple_ok)

lemma ensure_parent_dirs_spec:
  assumes "list_all clean_component (path_components path)"
  shows "triple (delta_is view k d) (ensure_parent_dirs L B path uid gid)
    (\<lambda>r s. \<exists>d'. delta_is view k d' s \<and> grows (length (path_components path) - 1) d d' \<and>
       (\<forall>u. r = Inr u \<longrightarrow> (\<exists>j. walk d' 1 (butlast (path_components path)) = Some j \<and> is_dir_ino d' j)))"
proof -
  have "list_all clean_component (butlast (path_components path))"
    using assms by (auto simp: list_all_iff dest: in_set_butlastD)
  from ensure_dirs_loop_spec [OF this, of d 1] show ?thesis
    unfolding ensure_parent_dirs_def length_butlast [symmetric] by - (rule triple_assuming [OF root_is_dir])
qed

end

section \<open>Copying\<close>

text \<open>
  What a copy of a base inode is: a link with the same target, a directory, or a file with the
  content that the base returned; permissions and owner are those of the base.
\<close>

definition copied :: "'f base_fs \<Rightarrow> nat \<Rightarrow> i64 \<Rightarrow> stats \<Rightarrow> db \<Rightarrow> i64 \<Rightarrow> bool" where
  "copied B k b bst d i \<longleftrightarrow> (\<exists>st. getattr d i = Some st \<and> st_uid st = st_uid bst \<and> st_gid st = st_gid bst \<and>
     (if is_symlink bst then \<exists>t. bs_readlink B b = Inr (Some t) \<and> map_of (fs_symlink d) i = Some t
      else st_mode st AND PERM_MASK = st_mode bst AND PERM_MASK \<and>
        (if is_directory bst then is_directory st
         else is_file st \<and> (\<exists>h. bs_open_rdonly B b = Inr h \<and>
           bs_pread B h 0 (as_u64 (st_size bst)) = Inr (content k i d)))))"

text \<open>Sizes that the base reports and returns fit into 63 bits.\<close>

definition base_sizes :: "'f base_fs \<Rightarrow> bool" where
  "base_sizes B \<longleftrightarrow>
     (\<forall>i h n c. bs_open_rdonly B i = Inr h \<longrightarrow> bs_pread B h 0 n = Inr c \<longrightarrow> length c < 2 ^ 63) \<and>
     (\<forall>i t. bs_readlink B i = Inr (Some t) \<longrightarrow> length t < 2 ^ 63)"

lemma getattr_row:
  assumes "getattr d i = Some st"
  obtains r where "select_inode d i = Some r" "r_mode r = st_mode st" "r_uid r = st_uid st" "r_gid r = st_gid st"
proof -
  obtain r where "select_inode d i = Some r" "st = build_stats_from_row i r" using assms by (auto simp: getattr_def)
  then show thesis by (intro that [of r]) (simp_all add: build_stats_from_row_def)
qed

lemma perm_bits_of_kind:
  "(S_IFREG OR (m AND PERM_MASK)) AND PERM_MASK = m AND PERM_MASK"
  "(S_IFDIR OR (m AND PERM_MASK)) AND PERM_MASK = m AND PERM_MASK"
  by (simp_all add: bit.conj_disj_distrib2 and.assoc mode_consts)

lemma triple_delta_db:
  assumes "\<And>a s r d. P s \<Longrightarrow> ov_delta s = a \<Longrightarrow> f (afs_db a) = (r, d) \<Longrightarrow> Q r (s\<lparr>ov_delta := a\<lparr>afs_db := d\<rparr>\<rparr>)"
  shows "triple P (delta_db f) Q"
  unfolding delta_db_def by (rule triple_delta_call) (use assms in \<open>auto split: prod.splits\<close>)

context lru_cache
begin

lemma delta_first_write:
  assumes "length data < 2 ^ 63" and "file_ino d i" and "content k i d = []" and "grows 1 d0 d" and "\<not> live d0 i"
    and "f = \<lparr>f_ino = i, f_chunk_size = k\<rparr>"
  shows "triple (delta_is view k d) (delta_db (file_pwrite f now 0 data))
    (\<lambda>r s. r = Inr () \<and> (\<exists>d'. delta_is view k d' s \<and> grows 1 d0 d' \<and> content k i d' = data \<and> file_ino d' i \<and>
       fs_dentry d' = fs_dentry d \<and>
       (\<forall>row. select_inode d i = Some row \<longrightarrow> (\<exists>row'. select_inode d' i = Some row' \<and>
          r_mode row' = r_mode row \<and> r_uid row' = r_uid row \<and> r_gid row' = r_gid row))))"
proof (rule triple_delta_db)
  fix a s r d'
  assume s: "delta_is view k d s" "ov_delta s = a" and res: "file_pwrite f now 0 data (afs_db a) = (r, d')"
  have good: "good view a" "afs_chunk_size a = k" "afs_db a = d" using s by (auto simp: delta_is_def)
  have live: "live d i" using assms(2) by (simp add: file_ino_def)
  have inv: "file_inv f d"
    using data_ok_file_inv [OF goodD(1,2) [OF good(1)], of f] good live assms(6) by simp
  have d': "d' = snd (file_pwrite f now 0 data d)" and r: "r = fst (file_pwrite f now 0 data d)"
    using res good by auto
  have plain: "file_ino d (f_ino f)" and len: "0 + length data < 2 ^ 63" using assms by simp_all
  note frame = file_pwrite_frame [OF goodD(1) [OF good(1), unfolded good(3)] inv plain len, where now = now]
  have "good view (a\<lparr>afs_db := d'\<rparr>)"
    using good_pwrite [OF good(1), where ino = i and offset = 0 and data = data] good assms by (simp add: d')
  moreover have wr: "content k i d' = data" "r = Inr ()"
    using file_pwrite_ok(1,3) [OF inv len, where now = now] assms by (auto simp: d' r af_write_def)
  moreover have row: "\<exists>row'. select_inode d' i = Some row' \<and> r_mode row' = r_mode row \<and> r_uid row' = r_uid row \<and> r_gid row' = r_gid row"
    if "select_inode d i = Some row" for row
    using that assms(6) by (auto simp: d' file_pwrite_def Let_def table_simps)
  moreover have kind: "is_dir_ino d' j = is_dir_ino d j" for j
    using frame(5) [of j] row live plain assms(6)
    by (cases "j = i") (auto simp: d' is_dir_ino_def live_def split: option.splits)
  moreover have "grows 1 d0 d'"
  proof -
    have "j \<noteq> i" if "live d0 j" for j using that assms(5) by auto
    then show ?thesis
      using assms(4,6) frame(2-5) kind unfolding grows_def by (auto simp: d' select_size_def)
  qed
  ultimately show "r = Inr () \<and> (\<exists>d''. delta_is view k d'' (s\<lparr>ov_delta := a\<lparr>afs_db := d'\<rparr>\<rparr>) \<and> grows 1 d0 d'' \<and>
      content k i d'' = data \<and> file_ino d'' i \<and> fs_dentry d'' = fs_dentry d \<and>
      (\<forall>row. select_inode d i = Some row \<longrightarrow> (\<exists>row'. select_inode d'' i = Some row' \<and>
          r_mode row' = r_mode row \<and> r_uid row' = r_uid row \<and> r_gid row' = r_gid row)))"
    using good plain frame(2,4) assms(6) by (auto simp: delta_is_def file_ino_def d')
qed

lemma copy_up_content:
  assumes x: "grows 1 d d1 \<and> new_child d d1 p n (fst x) \<and> snd x = \<lparr>f_ino = st_ino (fst x), f_chunk_size = k\<rparr> \<and>
      file_ino d1 (st_ino (fst x)) \<and> content k (st_ino (fst x)) d1 = [] \<and>
      (st_mode (fst x), st_uid (fst x), st_gid (fst x)) = (S_IFREG OR (st_mode bst AND PERM_MASK), st_uid bst, st_gid bst)"
    and base: "bs_open_rdonly B b = Inr h" "bs_pread B h 0 (as_u64 (st_size bst)) = Inr c" "length c < 2 ^ 63"
    and kind: "\<not> is_symlink bst" "\<not> is_directory bst"
  shows "triple (delta_is view k d1)
    (and_then tick (\<lambda>now'. and_then (delta_db (file_pwrite (snd x) now' 0 c)) (\<lambda>_. ok (st_ino (fst x)))))
    (\<lambda>r s. \<exists>d'. delta_is view k d' s \<and> grows 1 d d' \<and>
       (\<forall>i. r = Inr i \<longrightarrow> map_of (fs_dentry d') (p, n) = Some i \<and> \<not> live d i \<and> copied B k b bst d' i))"
    (is "triple _ _ ?Q")
proof (rule triple_then_keep [OF delta_keeps(1)])
  show "?Q (Inl e) s" if "delta_is view k d1 s" for e s using that x by blast
  let ?i = "st_ino (fst x)"
  have entry: "map_of (fs_dentry d1) (p, n) = Some ?i" "\<not> live d ?i" and st: "getattr d1 ?i = Some (fst x)"
    using x by (simp_all add: new_child_def)
  obtain row where row: "select_inode d1 ?i = Some row" "r_mode row = S_IFREG OR (st_mode bst AND PERM_MASK)"
    "r_uid row = st_uid bst" "r_gid row = st_gid bst"
    using getattr_row [OF st] x by auto
  have copy: "copied B k b bst d' ?i"
    if "content k ?i d' = c" "select_inode d' ?i = Some row'" "r_mode row' = r_mode row" "r_uid row' = r_uid row"
      "r_gid row' = r_gid row" for d' row'
    using that row base kind
    by (simp add: copied_def getattr_def build_stats_from_row_def is_file_def perm_bits_of_kind mode_is_def)
  show "triple (delta_is view k d1) (and_then (delta_db (file_pwrite (snd x) now' 0 c)) (\<lambda>_. ok ?i)) ?Q" for now'
  proof (rule triple_and_then [OF delta_first_write [of c d1 ?i k d "snd x"]])
    show "triple (\<lambda>s. Inr u = Inr () \<and> (\<exists>d'. delta_is view k d' s \<and> grows 1 d d' \<and> content k ?i d' = c \<and>
        file_ino d' ?i \<and> fs_dentry d' = fs_dentry d1 \<and>
        (\<forall>row. select_inode d1 ?i = Some row \<longrightarrow> (\<exists>row'. select_inode d' ?i = Some row' \<and>
          r_mode row' = r_mode row \<and> r_uid row' = r_uid row \<and> r_gid row' = r_gid row)))) (ok ?i) ?Q" for u
      using copy row(1) entry by (intro triple_ok) fastforce
  qed (use x base entry in auto)
qed

text \<open>Each kind of copy, and the whole of it.\<close>

lemma copy_up_node_spec:
  assumes B: "base_sizes B" and p: "is_dir_ino d p" and n: "clean_component n"
  shows "triple (delta_is view k d) (copy_up_node L B b bst p n)
    (\<lambda>r s. \<exists>d'. delta_is view k d' s \<and> grows 1 d d' \<and>
       (\<forall>i. r = Inr i \<longrightarrow> map_of (fs_dentry d') (p, n) = Some i \<and> \<not> live d i \<and> copied B k b bst d' i))"
    (is "triple _ _ ?Q")
proof -
  have err: "delta_is view k d s \<Longrightarrow> ?Q (Inl e) s" for e s using grows_refl by blast
  have finish: "triple (delta_is view k d') (ok (st_ino st)) ?Q"
    if "grows 1 d d'" "new_child d d' p n st" "copied B k b bst d' (st_ino st)" for d' st
    using that by (intro triple_ok) (auto simp: new_child_def)
  have link: "triple (delta_is view k d) (copy_up_symlink L B b bst p n) ?Q" if "is_symlink bst"
  proof -
    have made: "triple (delta_is view k d) (and_then (delta_call (fs_symlink_at L now p n t (st_uid bst) (st_gid bst)))
        (\<lambda>st. ok (st_ino st))) ?Q" if t: "bs_readlink B b = Inr (Some t)" for now t
    proof (rule triple_and_then [OF delta_symlink [OF p n]])
      show "length t < 2 ^ 63" using B t by (auto simp: base_sizes_def)
      show "triple (\<lambda>s. case Inr st of Inl e \<Rightarrow> delta_is view k d s | Inr st \<Rightarrow> \<exists>d'. delta_is view k d' s \<and> grows 1 d d' \<and>
          new_child d d' p n st \<and> (st_uid st, st_gid st) = (st_uid bst, st_gid bst) \<and> map_of (fs_symlink d') (st_ino st) = Some t)
          (ok (st_ino st)) ?Q" for st
        unfolding sum.case using \<open>is_symlink bst\<close> t by (intro triple_ex triple_pure finish) (auto simp: copied_def new_child_def)
    qed (simp only: sum.case err)
    show ?thesis
      unfolding copy_up_symlink_def
      by (rule triple_read_then, erule err, rule triple_ok_or_then, erule err, rule triple_then_keep [OF delta_keeps(1)],
          erule err, rule made) simp
  qed
  have dir: "triple (delta_is view k d) (copy_up_dir L bst p n) ?Q" if "\<not> is_symlink bst" "is_directory bst"
    unfolding copy_up_dir_def
  proof (rule triple_then_keep [OF delta_keeps(1)], erule err, rule triple_and_then [OF delta_mkdir [OF p n]])
    fix st :: stats
    show "triple (\<lambda>s. case Inr st of Inl e \<Rightarrow> delta_is view k d s | Inr st \<Rightarrow> \<exists>d'. delta_is view k d' s \<and> grows 1 d d' \<and>
        new_child d d' p n st \<and> is_directory st \<and> (st_mode st, st_uid st, st_gid st) =
          (S_IFDIR OR ((st_mode bst AND PERM_MASK) AND PERM_MASK), st_uid bst, st_gid bst)) (ok (st_ino st)) ?Q"
      unfolding sum.case using that
      by (intro triple_ex triple_pure finish) (auto simp: copied_def new_child_def perm_bits_of_kind and.assoc)
  qed (simp only: sum.case err)
  have plain: "triple (delta_is view k d) (copy_up_file L B b bst p n) ?Q" if kind: "\<not> is_symlink bst" "\<not> is_directory bst"
  proof -
    have made: "triple (delta_is view k d) (and_then (delta_call (fs_create_file L now p n (st_mode bst) (st_uid bst) (st_gid bst)))
        (\<lambda>x. and_then tick (\<lambda>now'. and_then (delta_db (file_pwrite (snd x) now' 0 c)) (\<lambda>_. ok (st_ino (fst x)))))) ?Q"
      if base: "bs_open_rdonly B b = Inr h" "bs_pread B h 0 (as_u64 (st_size bst)) = Inr c" for now h c
    proof (rule triple_and_then [OF delta_create_file [OF p n]])
      have "length c < 2 ^ 63" using B base unfolding base_sizes_def by blast
      note written = copy_up_content [OF _ base this kind]
      show "triple (\<lambda>s. case Inr x of Inl e \<Rightarrow> delta_is view k d s
        | Inr x \<Rightarrow> \<exists>d'. delta_is view k d' s \<and> grows 1 d d' \<and> new_child d d' p n (fst x) \<and>
            snd x = \<lparr>f_ino = st_ino (fst x), f_chunk_size = k\<rparr> \<and> file_ino d' (st_ino (fst x)) \<and> content k (st_ino (fst x)) d' = [] \<and>
            (st_mode (fst x), st_uid (fst x), st_gid (fst x)) = (S_IFREG OR (st_mode bst AND PERM_MASK), st_uid bst, st_gid bst))
        (and_then tick (\<lambda>now'. and_then (delta_db (file_pwrite (snd x) now' 0 c)) (\<lambda>_. ok (st_ino (fst x))))) ?Q" for x
        unfolding sum.case by (intro triple_ex triple_pure, rule written) assumption
    qed (simp only: sum.case err)
    show ?thesis
      unfolding copy_up_file_def
      by (rule triple_read_then, erule err, rule triple_read_then, erule err, rule triple_then_keep [OF delta_keeps(1)],
          erule err, rule made)
  qed
  show ?thesis unfolding copy_up_node_def using link dir plain by auto
qed

lemma walk_last:
  assumes "cs \<noteq> []"
  shows "walk d i cs = Option.bind (walk d i (butlast cs)) (\<lambda>j. map_of (fs_dentry d) (j, last cs))"
proof -
  have "walk d i cs = walk d i (butlast cs @ [last cs])" using assms by simp
  then show ?thesis by (simp only: walk_append) (auto split: option.splits simp: bind_eq_Some_conv)
qed

lemma grows_Suc: "grows (n - 1) d d1 \<Longrightarrow> grows 1 d1 d' \<Longrightarrow> 0 < n \<Longrightarrow> grows n d d'"
  using grows_trans [of "n - 1" d d1 1 d'] by simp

lemma copy_up_missing_spec:
  assumes B: "base_sizes B" and clean: "list_all clean_component (path_components path)" and ne: "path_components path \<noteq> []"
  shows "triple (delta_is view k d) (copy_up_missing L B path b)
    (\<lambda>r s. \<exists>d'. delta_is view k d' s \<and> grows (length (path_components path)) d d' \<and>
       (\<forall>i. r = Inr i \<longrightarrow> walk d' 1 (path_components path) = Some i \<and>
          (\<exists>bst. bs_getattr B b = Inr (Some bst) \<and> copied B k b bst d' i)))"
    (is "triple _ _ ?Q")
proof -
  let ?cs = "path_components path"
  have err: "grows (length ?cs - 1) d d1 \<Longrightarrow> delta_is view k d1 s \<Longrightarrow> ?Q (Inl e) s" for d1 e s
    using grows_mono [of _ d d1 "length ?cs"] by fastforce
  have pre: "list_all clean_component (butlast ?cs)" and n: "clean_component (last ?cs)"
    using clean ne by (auto simp: list_all_iff dest: in_set_butlastD)
  have node: "triple (delta_is view k d1) (and_then (copy_up_node L B b bst p (last ?cs)) (\<lambda>i.
      and_then (add_origin_mapping i b) (\<lambda>_. ok i))) ?Q"
    if d1: "grows (length ?cs - 1) d d1" "walk d1 1 (butlast ?cs) = Some p" "is_dir_ino d1 p"
      and bst: "bs_getattr B b = Inr (Some bst)" for d1 p bst
  proof (rule triple_and_then [OF copy_up_node_spec [OF B d1(3) n]], goal_cases)
    case (1 e s)
    then show ?case using grows_Suc [OF d1(1)] ne by blast
  next
    case (2 i)
    show ?case
    proof (rule triple_ex, rule triple_pure)
      fix d'
      assume asm: "grows 1 d1 d' \<and> (\<forall>i'. Inr i = Inr i' \<longrightarrow>
        map_of (fs_dentry d') (p, last ?cs) = Some i' \<and> \<not> live d1 i' \<and> copied B k b bst d' i')"
      then have i: "map_of (fs_dentry d') (p, last ?cs) = Some i" "copied B k b bst d' i" by auto
      have w: "walk d' 1 ?cs = Some i" using grows_walk [of 1 d1 d', OF _ d1(2)] asm i(1) by (simp add: walk_last [OF ne])
      have "grows (length ?cs) d d'" using grows_Suc [OF d1(1)] asm ne by blast
      with w i(2) bst have "delta_is view k d' s \<Longrightarrow> ?Q (Inr i) s" "delta_is view k d' s \<Longrightarrow> ?Q (Inl e) s" for s e by auto
      then show "triple (delta_is view k d') (and_then (add_origin_mapping i b) (\<lambda>_. ok i)) ?Q"
        by (intro triple_then_keep [OF delta_keeps(4)] triple_ok)
    qed
  qed
  have walked: "triple (delta_is view k d1) (and_then (delta_walk L 1 (butlast ?cs)) (\<lambda>p.
      and_then (ok_or (Fs NotFound) p) (\<lambda>parent_ino.
      and_then (copy_up_node L B b bst parent_ino (last ?cs)) (\<lambda>i.
      and_then (add_origin_mapping i b) (\<lambda>_. ok i))))) ?Q"
    if d1: "grows (length ?cs - 1) d d1" "walk d1 1 (butlast ?cs) = Some p" "is_dir_ino d1 p"
      and bst: "bs_getattr B b = Inr (Some bst)" for d1 p bst
  proof (rule triple_and_then [OF delta_walk_spec [OF pre]], goal_cases)
    case (2 x)
    show ?case
    proof (rule triple_pure, rule triple_ok_or_then)
      fix v assume "\<forall>y. Inr x = Inr y \<longrightarrow> y = walk d1 1 (butlast ?cs)" "x = Some v"
      then have "v = p" using d1(2) by auto
      then show "triple (delta_is view k d1) (and_then (copy_up_node L B b bst v (last ?cs)) (\<lambda>i.
        and_then (add_origin_mapping i b) (\<lambda>_. ok i))) ?Q" using node [OF d1 bst] by blast
    qed (use err [OF d1(1)] in blast)
  qed (use err [OF d1(1)] in blast)
  have "triple (delta_is view k d) (and_then (ensure_parent_dirs L B path u g) (\<lambda>_.
      and_then (delta_walk L 1 (butlast ?cs)) (\<lambda>p.
      and_then (ok_or (Fs NotFound) p) (\<lambda>parent_ino.
      and_then (copy_up_node L B b bst parent_ino (last ?cs)) (\<lambda>i.
      and_then (add_origin_mapping i b) (\<lambda>_. ok i)))))) ?Q"
    if bst: "bs_getattr B b = Inr (Some bst)" for bst u g
  proof (rule triple_and_then [OF ensure_parent_dirs_spec [OF clean]], goal_cases)
    case (2 x)
    show ?case using walked [OF _ _ _ bst] by (intro triple_ex triple_pure) blast
  qed (use err in blast)
  then show ?thesis
    unfolding copy_up_missing_def Let_def
    by (intro triple_read_then triple_ok_or_then) (use err [OF grows_refl] in blast)+
qed

text \<open>
  The whole copy-up: it adds to the delta only, its result is where the path leads there, and a
  path that led nowhere before leads to a copy of the base inode.
\<close>

lemma copy_up_spec:
  assumes B: "base_sizes B" and clean: "list_all clean_component (path_components path)"
  shows "triple (delta_is view k d) (copy_up L B path b)
    (\<lambda>r s. \<exists>d'. delta_is view k d' s \<and> grows (length (path_components path)) d d' \<and>
       (\<forall>i. r = Inr i \<longrightarrow> walk d' 1 (path_components path) = Some i \<and>
          (walk d 1 (path_components path) = None \<longrightarrow>
             (\<exists>bst. bs_getattr B b = Inr (Some bst) \<and> copied B k b bst d' i))))"
    (is "triple _ _ ?Q")
proof (cases "path_components path = []")
  case True
  then show ?thesis by (auto simp: copy_up_def intro!: triple_fail)
next
  case ne: False
  let ?cs = "path_components path"
  have err: "delta_is view k d s \<Longrightarrow> ?Q (Inl e) s" for e s using grows_refl by blast
  have pre: "list_all clean_component (butlast ?cs)" and n: "clean_component (last ?cs)"
    using clean ne by (auto simp: list_all_iff dest: in_set_butlastD)
  have missing: "triple (delta_is view k d) (copy_up_missing L B path b) ?Q"
    by (rule triple_weaken [OF copy_up_missing_spec [OF B clean ne]]) blast+
  have wf: "delta_is view k d s \<Longrightarrow> wf_db d" for s using goodD(1) by (auto simp: delta_is_def)
  have look: "triple (delta_is view k d) (and_then (delta_call (fs_lookup L p (last ?cs))) (\<lambda>already.
      case already of None \<Rightarrow> copy_up_missing L B path b | Some st \<Rightarrow> ok (st_ino st))) ?Q"
    if p: "walk d 1 (butlast ?cs) = Some p" for p
  proof (rule triple_and_then [OF delta_lookup [OF clean_not_dotdot [OF n]]], goal_cases)
    case (2 x)
    show ?case
    proof (cases x)
      case (Some st)
      show ?thesis
        unfolding Some option.case
      proof (rule triple_pure, rule triple_ok)
        fix s assume "Inr (Some st) = child_stats d p (last ?cs)" "delta_is view k d s"
        moreover from child_stats_Some(1) [OF this(1) [symmetric]] p have "walk d 1 ?cs = Some (st_ino st)"
          by (simp add: walk_last [OF ne])
        ultimately show "?Q (Inr (st_ino st)) s" using grows_refl by auto
      qed
    next
      case None
      show ?thesis unfolding None option.case by (rule triple_pure, rule missing)
    qed
  qed (use err in blast)
  show ?thesis
    unfolding copy_up_def Let_def using ne
  proof (simp, intro triple_and_then [OF delta_walk_spec [OF pre]], goal_cases)
    case (2 x)
    show ?case
    proof (rule triple_pure, cases x)
      case (Some p)
      assume "\<forall>y. Inr x = Inr y \<longrightarrow> y = walk d 1 (butlast ?cs)"
      with Some have "walk d 1 (butlast ?cs) = Some p" by simp
      from look [OF this] show "triple (delta_is view k d) (and_then (case x of None \<Rightarrow> ok None
          | Some p \<Rightarrow> delta_call (fs_lookup L p (last ?cs)))
        (case_option (copy_up_missing L B path b) (\<lambda>st. ok (st_ino st)))) ?Q" unfolding Some option.case .
    next
      case None
      show "triple (delta_is view k d) (and_then (case x of None \<Rightarrow> ok None
          | Some p \<Rightarrow> delta_call (fs_lookup L p (last ?cs)))
        (case_option (copy_up_missing L B path b) (\<lambda>st. ok (st_ino st)))) ?Q"
        using missing unfolding None by (simp add: and_then_def ok_def)
    qed
  qed (use err in blast)
qed

end

end
