(* ===== verification/Overlay_Reachable.thy ===== *)
theory Overlay_Reachable
  imports Overlay_Copy_Up
begin

text \<open>
  Every sequence of overlay calls leaves a consistent overlay: the maps and tables agree, every
  inode number stands for an absolute path of plain components, and the database of the delta is
  a consistent AgentFS.
\<close>

section \<open>Paths of inode numbers\<close>

definition canonical :: "string \<Rightarrow> bool" where
  "canonical p \<longleftrightarrow> (\<exists>cs. list_all clean_component cs \<and> p = path_of cs)"

lemma path_components_path_of: "list_all clean_component cs \<Longrightarrow> path_components (path_of cs) = cs"
  using path_components_join [of cs] by (simp add: path_of_def list_all_iff clean_component_def)

lemma path_of_root: "list_all clean_component cs \<Longrightarrow> path_of cs = ''/'' \<longleftrightarrow> cs = []"
  by (auto simp: path_of_def list_all_iff clean_component_def str_join_eq_Nil)

lemma str_join_snoc: "cs \<noteq> [] \<Longrightarrow> str_join sep (cs @ [n]) = str_join sep cs @ sep @ n"
  by (induction sep cs rule: str_join.induct) auto

lemma join_path_of:
  assumes "list_all clean_component cs"
  shows "join_path (path_of cs) n = path_of (cs @ [n])"
proof (cases "cs = []")
  case False
  then show ?thesis using path_of_root [OF assms] by (simp add: join_path_def path_of_def str_join_snoc)
qed (simp add: join_path_def path_of_def)

lemma canonicalD: "canonical p \<Longrightarrow> list_all clean_component (path_components p)" "canonical p \<Longrightarrow> path_of (path_components p) = p"
  by (auto simp: canonical_def path_components_path_of)

lemma canonical_root: "canonical ''/''"
  unfolding canonical_def by (rule exI [of _ "[]"]) (simp add: path_of_def)

lemma canonical_join:
  assumes "canonical p" and "clean_component n"
  shows "canonical (join_path p n)" and "path_components (join_path p n) = path_components p @ [n]"
proof -
  obtain cs where cs: "list_all clean_component cs" "p = path_of cs" using assms(1) by (auto simp: canonical_def)
  then have "list_all clean_component (cs @ [n])" "join_path p n = path_of (cs @ [n])"
    using assms(2) by (simp_all add: join_path_of)
  then show "canonical (join_path p n)" and "path_components (join_path p n) = path_components p @ [n]"
    using cs by (blast intro: canonical_def [THEN iffD2], simp add: path_components_path_of)
qed

definition paths_ok :: "'c overlayfs \<Rightarrow> bool" where
  "paths_ok s \<longleftrightarrow> (\<forall>j info. ov_inode_map s j = Some info \<longrightarrow> canonical (ii_path info)) \<and>
     (\<forall>p \<in> ov_whiteouts s. canonical p)"

lemma paths_okD: "paths_ok s \<Longrightarrow> ov_inode_map s j = Some info \<Longrightarrow> canonical (ii_path info)"
  by (simp add: paths_ok_def)

lemma paths_ok_promote: "paths_ok s \<Longrightarrow> paths_ok (promote_to_delta q u s)"
  by (auto simp: paths_ok_def promote_to_delta_def split: option.splits)

interpretation paths: kept paths_ok canonical
  by unfold_locales (simp_all add: paths_ok_promote, auto simp: paths_ok_def)

lemma paths_ok_get_or_create:
  "paths_ok s \<Longrightarrow> canonical p \<Longrightarrow> get_or_create_overlay_ino l u p s = (ino, s') \<Longrightarrow> paths_ok s'"
  by (auto simp: paths_ok_def get_or_create_overlay_ino_def Let_def split: option.splits if_splits)

lemma paths_ok_refresh: "paths_ok s \<Longrightarrow> canonical p \<Longrightarrow> paths_ok (refresh_overlay_mapping j l u p s)"
  by (auto simp: paths_ok_def refresh_overlay_mapping_def Let_def split: option.splits if_splits)

lemma paths_numbering:
  assumes "canonical path"
  shows "keeps paths_ok (number_delta_entry path st)" "keeps paths_ok (number_base_entry path st)"
    "keeps paths_ok (number_created path st)"
  using assms
  by (auto simp: triple_def number_delta_entry_def number_base_entry_def number_created_def
      dest: paths_ok_get_or_create intro!: paths_ok_refresh split: prod.splits option.splits)

text \<open>The path a method builds from a known parent and a plain name.\<close>

lemma triple_build_path:
  assumes "clean_component n"
  shows "triple paths_ok (build_path p n) (\<lambda>r s. paths_ok s \<and> (\<forall>path. r = Inr path \<longrightarrow> canonical path))"
proof (rule tripleI)
  fix s r s'
  assume s: "paths_ok s" and res: "build_path p n s = (r, s')"
  show "paths_ok s' \<and> (\<forall>path. r = Inr path \<longrightarrow> canonical path)"
    using s res assms canonical_join paths_okD [OF s, of p]
    by (cases "ov_inode_map s p") (auto simp: build_path_def and_then_def get_inode_info_def action_defs)
qed

lemma paths_build:
  assumes "clean_component n" and "\<And>path. canonical path \<Longrightarrow> keeps paths_ok (k path)"
  shows "keeps paths_ok (and_then (build_path p n) k)"
  by (rule triple_and_then [OF triple_build_path [OF assms(1)]]) (use assms(2) in \<open>auto intro: triple_pure\<close>)

lemma paths_ov_lookup: "clean_component n \<Longrightarrow> keeps paths_ok (ov_lookup L B p n)"
  unfolding ov_lookup_def
  by (rule keeps_and_then, rule keeps_get_inode_info, rule paths_build, assumption)
    (intro triple_intros paths.keeps_all paths_numbering)

lemma paths_delta_target: "keeps paths_ok (delta_target L B ino)"
proof -
  have update: "triple (\<lambda>s. paths_ok s \<and> canonical (ii_path info)) (copy_up_and_update_mapping L B ino info) (\<lambda>_. paths_ok)" for info
    unfolding copy_up_and_update_mapping_def
    by (intro triple_pure triple_intros paths.keeps_all) (simp add: paths_ok_def)
  have "triple (\<lambda>s. paths_ok s \<and> (\<forall>x. Inr info = Inr x \<longrightarrow> ov_inode_map s ino = Some x))
      (and_then (gets (\<lambda>s. is_whiteout s (ii_path info))) (\<lambda>hidden. if hidden then fail (Fs NotFound)
        else case ii_layer info of Delta \<Rightarrow> ok (ii_ino info) | Base \<Rightarrow> copy_up_and_update_mapping L B ino info)) (\<lambda>_. paths_ok)"
    for info :: inode_info
  proof (rule triple_weaken [where P' = "\<lambda>s. paths_ok s \<and> canonical (ii_path info)"])
    show "triple (\<lambda>s. paths_ok s \<and> canonical (ii_path info)) (and_then (gets (\<lambda>s. is_whiteout s (ii_path info)))
        (\<lambda>hidden. if hidden then fail (Fs NotFound)
          else case ii_layer info of Delta \<Rightarrow> ok (ii_ino info) | Base \<Rightarrow> copy_up_and_update_mapping L B ino info)) (\<lambda>_. paths_ok)"
      using update [of info]
      by (intro triple_then_keep [OF keeps_gets]) (auto intro!: triple_fail triple_ok split: layer.splits)
  qed (auto dest: paths_okD)
  then show ?thesis
    unfolding delta_target_def by (intro triple_and_then [OF triple_get_inode_info]) simp_all
qed

lemma paths_hide_if_visible: "clean_component n \<Longrightarrow> canonical path \<Longrightarrow> keeps paths_ok (hide_if_visible L B p n path)"
  unfolding hide_if_visible_def by (intro triple_intros paths.keeps_all paths_ov_lookup)

lemmas paths_methods = paths.keeps_all paths_numbering paths_ov_lookup paths_delta_target paths_hide_if_visible
  keeps_ignore keeps_ov_readdir

lemma paths_ov_attributes:
  "keeps paths_ok (ov_chmod L B ino mode)" "keeps paths_ok (ov_chown L B ino u g)"
  "keeps paths_ok (ov_utimens L B ino at mt)" "keeps paths_ok (ov_open L B ino)"
  unfolding ov_chmod_def ov_chown_def ov_utimens_def ov_open_def by (intro triple_intros paths_methods)+

lemma paths_ov_names:
  assumes n: "clean_component n"
  shows "keeps paths_ok (ov_mkdir L B p n mode uid gid)" "keeps paths_ok (ov_create_file L B p n mode uid gid)"
    "keeps paths_ok (ov_mknod L B p n mode rdev uid gid)" "keeps paths_ok (ov_symlink L B p n target uid gid)"
    "keeps paths_ok (ov_unlink L B p n)" "keeps paths_ok (ov_rmdir L B p n)" "keeps paths_ok (ov_link L B ino p n)"
    and "clean_component n' \<Longrightarrow> keeps paths_ok (ov_rename L B p n p' n')"
  unfolding ov_mkdir_def ov_create_file_def ov_mknod_def ov_symlink_def ov_unlink_def ov_rmdir_def ov_link_def ov_rename_def
  by (rule keeps_and_then [OF keeps_get_inode_info], (rule keeps_and_then [OF keeps_get_inode_info])?,
      rule paths_build [OF n], (rule paths_build, assumption)?, intro triple_intros paths_methods n; assumption?)+

section \<open>Consistency of the delta\<close>

definition delta_good :: "('c \<Rightarrow> dentry_key \<Rightarrow> i64 option) \<Rightarrow> 'c overlayfs \<Rightarrow> bool" where
  "delta_good view s \<longleftrightarrow> good view (ov_delta s) \<and> clean_names (afs_db (ov_delta s))"

lemma delta_good_iff: "delta_good view s \<longleftrightarrow> (\<exists>k d. delta_is view k d s \<and> clean_names d)"
  by (auto simp: delta_good_def delta_is_def)

lemma keeps_delta_good: "delta_untouched m \<Longrightarrow> keeps (delta_good view) m"
proof (rule tripleI)
  fix s r s'
  assume "delta_untouched m" and "delta_good view s" and "m s = (r, s')"
  moreover have "ov_delta (snd (m s)) = ov_delta s" using calculation(1) by (simp add: delta_untouched_def)
  ultimately show "delta_good view s'" by (simp add: delta_good_def)
qed

lemma triple_delta_good:
  assumes "\<And>k d. clean_names d \<Longrightarrow> triple (\<lambda>s. delta_is view k d s \<and> P s) m Q"
  shows "triple (\<lambda>s. delta_good view s \<and> P s) m Q"
proof (rule tripleI)
  fix s r s'
  assume "delta_good view s \<and> P s" and res: "m s = (r, s')"
  then obtain k d where "clean_names d" and s: "delta_is view k d s \<and> P s" by (auto simp: delta_good_iff)
  from tripleD [OF assms [OF this(1)] s res] show "Q r s'" .
qed

lemma dentry_subset_clean: "set (fs_dentry d') \<subseteq> set (fs_dentry d) \<Longrightarrow> clean_names d \<Longrightarrow> clean_names d'"
  by (auto simp: clean_names_def)

text \<open>Removals only take entries away; a rename gives an entry the new name.\<close>

lemma purge_if_dentry: "fs_dentry (if c then purge_inode i d else d) = fs_dentry d"
  "fs_dentry (if c then delete_inode i d else d) = fs_dentry d"
  by (simp_all add: delete_inode_def)

lemma unlink_dentries: "set (fs_dentry (afs_db (snd (fs_unlink L now p n s)))) \<subseteq> set (fs_dentry (afs_db s))"
  by (auto simp: fs_unlink_def Let_def purge_if_dentry delete_rows_def split: sum.splits option.splits)

lemma rmdir_dentries: "set (fs_dentry (afs_db (snd (fs_rmdir L now p n s)))) \<subseteq> set (fs_dentry (afs_db s))"
  by (auto simp: fs_rmdir_def Let_def purge_if_dentry delete_rows_def split: sum.splits option.splits)

lemma rename_replace_dentries: "rename_replace now st p n d = Inr d' \<Longrightarrow> set (fs_dentry d') \<subseteq> set (fs_dentry d)"
  by (auto simp: rename_replace_def Let_def purge_if_dentry delete_rows_def split: sum.splits option.splits if_splits)

lemma rename_move_dentries:
  "rename_move now i st p n p' n' d = Inr d' \<Longrightarrow> clean_names d \<Longrightarrow> clean_component n' \<Longrightarrow> clean_names d'"
  by (auto simp: rename_move_def move_dentry_def clean_names_def Let_def split: sum.splits option.splits if_splits)

lemma rename_names:
  assumes "clean_names (afs_db s)" and "clean_component n'"
  shows "clean_names (afs_db (snd (fs_rename L t1 t2 p n p' n' s)))"
proof (cases "snd (fs_rename L t1 t2 p n p' n' s) = s")
  case False
  then obtain i st d1 d2 where "rename_replace t1 st p' n' (afs_db s) = Inr d1" "rename_move t2 i st p n p' n' d1 = Inr d2"
    "afs_db (snd (fs_rename L t1 t2 p n p' n' s)) = d2"
    by (auto simp: fs_rename_def split: if_splits sum.splits option.splits)
  with assms dentry_subset_clean rename_replace_dentries rename_move_dentries show ?thesis by metis
qed (use assms in simp)

lemma link_names:
  assumes "clean_names (afs_db s)" and "clean_component n"
  shows "clean_names (afs_db (snd (fs_link L now ino p n s)))"
  using assms by (auto simp: fs_link_def Let_def insert_dentry_def insert_row_def clean_names_def
      split: sum.splits option.splits if_splits)

lemma create_names:
  assumes "clean_names (afs_db s)" and "clean_component n"
  shows "clean_names (afs_db (snd (fs_mknod L now p n mode rdev uid gid s)))"
    and "clean_names (afs_db (snd (fs_mkdir L now p n mode uid gid s)))"
    and "clean_names (afs_db (snd (fs_create_file L now p n mode uid gid s)))"
    and "clean_names (afs_db (snd (fs_symlink_at L now p n target uid gid s)))"
  using assms by (auto simp: fs_mknod_def fs_mkdir_def fs_create_file_def fs_symlink_at_def Let_def insert_dentry_def
      insert_inode_def insert_row_def clean_names_def add_nlink_def touch_parent_def update_inode_def
      split: sum.splits option.splits if_splits)

text \<open>Reading a mapping and building a path, with what is known of them afterwards.\<close>

lemma triple_info_then:
  assumes "\<And>s. P s \<Longrightarrow> Q (Inl (Fs NotFound)) s"
    and "\<And>info. triple (\<lambda>s. P s \<and> ov_inode_map s j = Some info) (k info) Q"
  shows "triple P (and_then (get_inode_info j) k) Q"
proof (rule tripleI)
  fix s r s'
  assume s: "P s" and res: "and_then (get_inode_info j) k s = (r, s')"
  show "Q r s'"
  proof (cases "ov_inode_map s j")
    case None
    with s res assms(1) show ?thesis by (auto simp: and_then_def get_inode_info_def action_defs)
  next
    case (Some info)
    with res have "k info s = (r, s')" by (simp add: and_then_def get_inode_info_def action_defs)
    with s Some tripleD [OF assms(2)] show ?thesis by blast
  qed
qed

lemma triple_path_then:
  assumes "\<And>s. P s \<Longrightarrow> Q (Inl (Fs NotFound)) s"
    and "\<And>info. triple (\<lambda>s. P s \<and> ov_inode_map s p = Some info) (k (join_path (ii_path info) n)) Q"
  shows "triple P (and_then (build_path p n) k) Q"
proof -
  have "and_then (build_path p n) k = and_then (get_inode_info p) (\<lambda>info. k (join_path (ii_path info) n))"
    by (auto simp: fun_eq_iff build_path_def and_then_def ok_def split: prod.splits sum.splits)
  then show ?thesis using assms by (auto intro: triple_info_then)
qed

text \<open>A parent a call may name: when the delta holds it, it is a directory there.\<close>

definition parent_ok :: "i64 \<Rightarrow> 'c overlayfs \<Rightarrow> bool" where
  "parent_ok p s \<longleftrightarrow> (\<forall>info. ov_inode_map s p = Some info \<longrightarrow> ii_layer info = Delta \<longrightarrow>
     is_dir_ino (afs_db (ov_delta s)) (ii_ino info))"

lemma parent_ok_code [code]:
  "parent_ok p s = (case ov_inode_map s p of None \<Rightarrow> True
     | Some info \<Rightarrow> ii_layer info = Delta \<longrightarrow> is_dir_ino (afs_db (ov_delta s)) (ii_ino info))"
  by (auto simp: parent_ok_def split: option.splits)

definition usable_parent :: "db \<Rightarrow> inode_info \<Rightarrow> bool" where
  "usable_parent d info \<longleftrightarrow> canonical (ii_path info) \<and> (ii_layer info = Delta \<longrightarrow> is_dir_ino d (ii_ino info))"

lemma usable_grows: "usable_parent d info \<Longrightarrow> grows k d d' \<Longrightarrow> usable_parent d' info"
  using growsD(2) by (auto simp: usable_parent_def)

text \<open>A rename between two different names: by the name, or by two directories of the delta.\<close>

definition names_differ :: "inode_info \<Rightarrow> string \<Rightarrow> inode_info \<Rightarrow> string \<Rightarrow> bool" where
  "names_differ info n info' n' \<longleftrightarrow>
     n \<noteq> n' \<or> ii_layer info = Delta \<and> ii_layer info' = Delta \<and> ii_ino info \<noteq> ii_ino info'"

definition rename_ok :: "i64 \<Rightarrow> string \<Rightarrow> i64 \<Rightarrow> string \<Rightarrow> 'c overlayfs \<Rightarrow> bool" where
  "rename_ok p n p' n' s \<longleftrightarrow> parent_ok p' s \<and>
     (\<forall>info info'. ov_inode_map s p = Some info \<longrightarrow> ov_inode_map s p' = Some info' \<longrightarrow>
        names_differ info n info' n' \<and>
        length (fs_dentry (afs_db (ov_delta s))) + length (path_components (ii_path info)) +
          length (path_components (ii_path info')) + 2 \<le> 2 ^ 32)"

lemma rename_ok_code [code]:
  "rename_ok p n p' n' s = (parent_ok p' s \<and> (case (ov_inode_map s p, ov_inode_map s p') of
     (Some info, Some info') \<Rightarrow> names_differ info n info' n' \<and>
        length (fs_dentry (afs_db (ov_delta s))) + length (path_components (ii_path info)) +
          length (path_components (ii_path info')) + 2 \<le> 2 ^ 32
   | _ \<Rightarrow> True))"
  by (auto simp: rename_ok_def split: option.splits)

context lru_cache
begin

lemma delta_parent_for_spec:
  assumes path: "canonical path" and info: "usable_parent d info"
  shows "triple (delta_is view k d) (delta_parent_for L B info path uid gid)
    (\<lambda>r s. \<exists>d'. delta_is view k d' s \<and> grows (length (path_components path)) d d' \<and> (\<forall>p. r = Inr p \<longrightarrow> is_dir_ino d' p))"
    (is "triple _ _ ?Q")
proof -
  have err: "grows (length (path_components path) - 1) d d1 \<Longrightarrow> delta_is view k d1 s \<Longrightarrow> ?Q (Inl e) s" for d1 e s
    using grows_mono [of _ d d1 "length (path_components path)"] by fastforce
  have parent: "triple (delta_is view k d1) (and_then (resolve_delta_parent L info) (ok_or (Fs NotFound))) ?Q"
    if g: "grows (length (path_components path) - 1) d d1" for d1
  proof (rule triple_and_then [OF resolve_delta_parent_spec], goal_cases)
    case (4 x)
    have "grows (length (path_components path)) d d1" using grows_mono [OF g] by simp
    then show ?case by (intro triple_pure triple_ok_or) auto
  qed (use info usable_grows [OF info g] err [OF g] canonicalD in \<open>auto simp: usable_parent_def\<close>)
  show ?thesis
    unfolding delta_parent_for_def
  proof (rule triple_then_keep [OF delta_keeps(2)], erule err [OF grows_refl],
      rule triple_and_then [OF ensure_parent_dirs_spec [OF canonicalD(1) [OF path]]], goal_cases)
    case (2 x y)
    show ?case using parent by (intro triple_ex triple_pure) auto
  qed (use err in blast)
qed

text \<open>The shape that all creating methods share.\<close>

lemma create_in_parent:
  assumes path: "canonical path" and info: "usable_parent d info" and names: "clean_names d"
    and F: "\<And>now p a. good view a \<Longrightarrow> clean_names (afs_db a) \<Longrightarrow> is_dir_ino (afs_db a) p \<Longrightarrow>
      good view (snd (F now p a)) \<and> clean_names (afs_db (snd (F now p a)))"
    and K: "\<And>x. keeps (delta_good view) (K x)"
  shows "triple (delta_is view k d) (and_then (delta_parent_for L B info path uid gid)
    (\<lambda>p. and_then tick (\<lambda>now. and_then (delta_call (F now p)) K))) (\<lambda>_. delta_good view)"
proof (rule triple_and_then [OF delta_parent_for_spec [OF path info]], goal_cases)
  case (1 e s)
  then show ?case unfolding delta_good_iff using grows_clean names by blast
next
  case (2 p)
  have "triple (delta_is view k d') (and_then tick (\<lambda>now. and_then (delta_call (F now p)) K)) (\<lambda>_. delta_good view)"
    if d': "grows (length (path_components path)) d d'" "is_dir_ino d' p" for d'
  proof -
    have clean: "clean_names d'" using grows_clean [OF d'(1) names] .
    have call: "triple (delta_is view k d') (delta_call (F now p)) (\<lambda>_. delta_good view)" for now
    proof (rule triple_delta_call)
      fix a s r a'
      assume "delta_is view k d' s" "ov_delta s = a" "F now p a = (r, a')"
      then show "delta_good view (s\<lparr>ov_delta := a'\<rparr>)"
        using F [of a p now] clean d'(2) by (simp add: delta_is_def delta_good_def)
    qed
    show ?thesis
    proof (rule triple_then_keep [OF delta_keeps(1)])
      show "triple (delta_is view k d') (and_then (delta_call (F now p)) K) (\<lambda>_. delta_good view)" for now
        by (rule triple_and_then [OF call]) (use K in auto)
    qed (use clean in \<open>auto simp: delta_good_iff\<close>)
  qed
  then show ?case by (intro triple_ex triple_pure) auto
qed

lemma keeps_is_ov_lookup: "keeps (delta_is view k d) (ov_lookup L B p n)"
proof -
  have dirs: "keeps (delta_is view k d) (delta_dir_walk L i cs)" for i cs
    by (induction cs arbitrary: i) (auto intro!: triple_intros keeps_delta_lookup split: option.splits)
  show ?thesis
    unfolding ov_lookup_def resolve_delta_parent_def by (intro triple_intros dirs keeps_delta_lookup delta_keeps)
qed

lemma keeps_good_ov_lookup: "keeps (delta_good view) (ov_lookup L B p n)"
  using keeps_is_ov_lookup [of _ _ B p n]
  unfolding triple_def delta_good_iff by (metis (no_types, lifting) case_prod_beta)

text \<open>A method that starts from a parent and a name.\<close>

lemma start_in_parent:
  assumes n: "clean_component n"
    and m: "\<And>info. usable_parent d info \<Longrightarrow> triple (delta_is view k d) (m info (join_path (ii_path info) n)) Q"
    and err: "\<And>e s. delta_is view k d s \<Longrightarrow> Q (Inl e) s"
  shows "triple (\<lambda>s. delta_is view k d s \<and> paths_ok s \<and> parent_ok p s)
    (and_then (get_inode_info p) (\<lambda>info. and_then (build_path p n) (m info))) Q"
proof (rule triple_info_then)
  fix info
  show "triple (\<lambda>s. (delta_is view k d s \<and> paths_ok s \<and> parent_ok p s) \<and> ov_inode_map s p = Some info)
    (and_then (build_path p n) (m info)) Q"
  proof (rule triple_path_then)
    fix info'
    let ?P = "\<lambda>s. ((delta_is view k d s \<and> paths_ok s \<and> parent_ok p s) \<and> ov_inode_map s p = Some info) \<and> ov_inode_map s p = Some info'"
    show "triple ?P (m info (join_path (ii_path info') n)) Q"
    proof (rule triple_assuming)
      show "info' = info \<and> usable_parent d info" if "?P s" for s
        using that paths_okD [of s p] by (auto simp: usable_parent_def parent_ok_def delta_is_def)
      show "triple ?P (m info (join_path (ii_path info') n)) Q" if "info' = info \<and> usable_parent d info"
        using that m [of info] by (auto intro: triple_weaken)
    qed
  qed (use err in blast)
qed (use err in blast)

lemma good_number_created: "keeps (delta_good view) (number_created path st)"
  by (intro keeps_delta_good delta_untouched_steps)

lemma is_good: "clean_names d \<Longrightarrow> delta_is view k d s \<Longrightarrow> delta_good view s"
  by (auto simp: delta_good_iff)

lemma grown_good: "clean_names d \<Longrightarrow> grows n d d' \<Longrightarrow> delta_is view k d' s \<Longrightarrow> delta_good view s"
  using grows_clean is_good by blast

lemma good_ov_mkdir:
  assumes n: "clean_component n"
  shows "triple (\<lambda>s. delta_good view s \<and> paths_ok s \<and> parent_ok p s) (ov_mkdir L B p n mode uid gid) (\<lambda>_. delta_good view)"
  unfolding ov_mkdir_def
proof (intro triple_delta_good start_in_parent [OF n])
  fix k d info
  assume names: "clean_names d" and info: "usable_parent d info"
  then have path: "canonical (join_path (ii_path info) n)" using canonical_join(1) [OF _ n] by (simp add: usable_parent_def)
  show "triple (delta_is view k d) (and_then (ov_lookup L B p n) (\<lambda>existing. if existing \<noteq> None then fail (Fs AlreadyExists)
      else and_then (delta_parent_for L B info (join_path (ii_path info) n) uid gid) (\<lambda>q. and_then tick (\<lambda>now.
        and_then (delta_call (fs_mkdir L now q n mode uid gid)) (number_created (join_path (ii_path info) n))))))
    (\<lambda>_. delta_good view)"
    by (intro triple_then_keep [OF keeps_is_ov_lookup] triple_if triple_fail
        create_in_parent [OF path info names] good_number_created)
      (use is_good [OF names] in \<open>auto intro: good_mkdir create_names n\<close>)
qed (erule is_good)

lemma good_ov_create_file:
  assumes n: "clean_component n"
  shows "triple (\<lambda>s. delta_good view s \<and> paths_ok s \<and> parent_ok p s) (ov_create_file L B p n mode uid gid) (\<lambda>_. delta_good view)"
  unfolding ov_create_file_def
proof (intro triple_delta_good start_in_parent [OF n])
  fix k d info
  assume names: "clean_names d" and info: "usable_parent d info"
  then have path: "canonical (join_path (ii_path info) n)" using canonical_join(1) [OF _ n] by (simp add: usable_parent_def)
  show "triple (delta_is view k d) (and_then (delta_parent_for L B info (join_path (ii_path info) n) uid gid) (\<lambda>q.
      and_then tick (\<lambda>now. and_then (delta_call (fs_create_file L now q n mode uid gid)) (\<lambda>created.
        and_then (number_created (join_path (ii_path info) n) (fst created)) (\<lambda>st. ok (st, snd created))))))
    (\<lambda>_. delta_good view)"
    by (intro create_in_parent [OF path info names] triple_intros good_number_created)
      (auto intro: good_create_file create_names n)
qed (erule is_good)

lemma good_ov_mknod:
  assumes n: "clean_component n"
  shows "triple (\<lambda>s. delta_good view s \<and> paths_ok s \<and> parent_ok p s) (ov_mknod L B p n mode rdev uid gid) (\<lambda>_. delta_good view)"
  unfolding ov_mknod_def
proof (intro triple_delta_good start_in_parent [OF n])
  fix k d info
  assume names: "clean_names d" and info: "usable_parent d info"
  then have path: "canonical (join_path (ii_path info) n)" using canonical_join(1) [OF _ n] by (simp add: usable_parent_def)
  show "triple (delta_is view k d) (and_then (delta_parent_for L B info (join_path (ii_path info) n) uid gid) (\<lambda>q.
      and_then tick (\<lambda>now. and_then (delta_call (fs_mknod L now q n mode rdev uid gid))
        (number_created (join_path (ii_path info) n))))) (\<lambda>_. delta_good view)"
    by (intro create_in_parent [OF path info names] good_number_created) (auto intro: good_mknod create_names n)
qed (erule is_good)

lemma good_ov_symlink:
  assumes n: "clean_component n" and "length target < 2 ^ 63"
  shows "triple (\<lambda>s. delta_good view s \<and> paths_ok s \<and> parent_ok p s) (ov_symlink L B p n target uid gid) (\<lambda>_. delta_good view)"
  unfolding ov_symlink_def
proof (intro triple_delta_good start_in_parent [OF n])
  fix k d info
  assume names: "clean_names d" and info: "usable_parent d info"
  then have path: "canonical (join_path (ii_path info) n)" using canonical_join(1) [OF _ n] by (simp add: usable_parent_def)
  show "triple (delta_is view k d) (and_then (delta_parent_for L B info (join_path (ii_path info) n) uid gid) (\<lambda>q.
      and_then tick (\<lambda>now. and_then (delta_call (fs_symlink_at L now q n target uid gid))
        (number_created (join_path (ii_path info) n))))) (\<lambda>_. delta_good view)"
    by (intro create_in_parent [OF path info names] good_number_created) (auto intro: good_symlink create_names n assms)
qed (erule is_good)

section \<open>Copy-up, removal, rename\<close>

lemma good_delta_target:
  assumes B: "base_sizes B"
  shows "triple (\<lambda>s. delta_good view s \<and> paths_ok s) (delta_target L B ino) (\<lambda>_. delta_good view)"
proof (rule triple_delta_good)
  fix k d
  assume names: "clean_names d"
  have keep: "keeps (delta_good view) (and_then (modify (\<lambda>s. s\<lparr>ov_inode_map := (ov_inode_map s)(ino \<mapsto>
      \<lparr>ii_layer = Delta, ii_ino = i, ii_path = p\<rparr>), ov_reverse_map := (ov_reverse_map s)((Delta, i) \<mapsto> ino)\<rparr>)) (\<lambda>_. ok i))" for i p
    by (intro triple_intros) (simp add: delta_good_def)
  have copy: "triple (delta_is view k d) (copy_up_and_update_mapping L B ino info) (\<lambda>_. delta_good view)"
    if "canonical (ii_path info)" for info
    unfolding copy_up_and_update_mapping_def
    by (rule triple_and_then [OF copy_up_spec [OF B canonicalD(1) [OF that]]])
      (use grown_good [OF names] in \<open>auto intro!: triple_weaken [OF keep]\<close>)
  show "triple (\<lambda>s. delta_is view k d s \<and> paths_ok s) (delta_target L B ino) (\<lambda>_. delta_good view)"
    unfolding delta_target_def
  proof (rule triple_info_then)
    fix info
    let ?P = "\<lambda>s. (delta_is view k d s \<and> paths_ok s) \<and> ov_inode_map s ino = Some info"
    show "triple ?P
      (and_then (gets (\<lambda>s. is_whiteout s (ii_path info))) (\<lambda>hidden. if hidden then fail (Fs NotFound)
        else case ii_layer info of Delta \<Rightarrow> ok (ii_ino info) | Base \<Rightarrow> copy_up_and_update_mapping L B ino info)) (\<lambda>_. delta_good view)"
    proof (rule triple_assuming)
      show "canonical (ii_path info)" if "?P s" for s using that by (auto dest: paths_okD)
      assume can: "canonical (ii_path info)"
      show "triple ?P
        (and_then (gets (\<lambda>s. is_whiteout s (ii_path info))) (\<lambda>hidden. if hidden then fail (Fs NotFound)
          else case ii_layer info of Delta \<Rightarrow> ok (ii_ino info) | Base \<Rightarrow> copy_up_and_update_mapping L B ino info)) (\<lambda>_. delta_good view)"
        by (rule triple_weaken [where P' = "delta_is view k d"], rule triple_then_keep [OF keeps_gets])
          (use copy [OF can] is_good [OF names] in \<open>auto intro!: triple_fail triple_ok split: layer.splits\<close>)
    qed
  qed (auto dest: is_good [OF names])
qed

lemma good_delta_db:
  assumes "\<And>a. good view a \<Longrightarrow> good view (a\<lparr>afs_db := snd (g (afs_db a))\<rparr>)" and "\<And>d. fs_dentry (snd (g d)) = fs_dentry d"
  shows "keeps (delta_good view) (delta_db g)"
proof (rule triple_delta_db)
  fix a s r d
  assume "delta_good view s" "ov_delta s = a" "g (afs_db a) = (r, d)"
  then show "delta_good view (s\<lparr>ov_delta := a\<lparr>afs_db := d\<rparr>\<rparr>)"
    using assms(1) [of a] assms(2) [of "afs_db a"] by (simp add: delta_good_def clean_names_def)
qed

lemma good_ov_attributes:
  assumes B: "base_sizes B"
  shows "triple (\<lambda>s. delta_good view s \<and> paths_ok s) (ov_chmod L B ino mode) (\<lambda>_. delta_good view)"
    and "triple (\<lambda>s. delta_good view s \<and> paths_ok s) (ov_chown L B ino u g) (\<lambda>_. delta_good view)"
    and "triple (\<lambda>s. delta_good view s \<and> paths_ok s) (ov_utimens L B ino at mt) (\<lambda>_. delta_good view)"
    and "triple (\<lambda>s. delta_good view s \<and> paths_ok s) (ov_open L B ino) (\<lambda>_. delta_good view)"
proof -
  note target = triple_and_then [OF good_delta_target [OF B]]
  have tick: "keeps (delta_good view) tick" by (intro keeps_delta_good delta_untouched_steps)
  have chmod: "keeps (delta_good view) (delta_db (fs_chmod now i mode))" for now i
    by (rule good_delta_db [OF good_chmod]) (auto simp: fs_chmod_def Let_def split: option.splits)
  have chown: "keeps (delta_good view) (delta_db (\<lambda>d. (Inr (), chown_inode i u g d)))" for i
    by (rule good_delta_db) (simp_all add: good_chown_inode, simp add: chown_inode_def)
  have utimens: "keeps (delta_good view) (delta_db (fs_utimens t1 t2 t3 i at mt))" for t1 t2 t3 i
    by (rule good_delta_db [OF good_utimens]) (auto simp: fs_utimens_def Let_def split: option.splits)
  show "triple (\<lambda>s. delta_good view s \<and> paths_ok s) (ov_chmod L B ino mode) (\<lambda>_. delta_good view)"
    unfolding ov_chmod_def by (intro target triple_intros tick chmod)
  show "triple (\<lambda>s. delta_good view s \<and> paths_ok s) (ov_chown L B ino u g) (\<lambda>_. delta_good view)"
    unfolding ov_chown_def by (intro target chown)
  show "triple (\<lambda>s. delta_good view s \<and> paths_ok s) (ov_utimens L B ino at mt) (\<lambda>_. delta_good view)"
    unfolding ov_utimens_def by (intro target triple_intros tick utimens)
  show "triple (\<lambda>s. delta_good view s \<and> paths_ok s) (ov_open L B ino) (\<lambda>_. delta_good view)"
    unfolding ov_open_def by (intro target triple_intros)
qed

lemma good_hide_if_visible: "keeps (delta_good view) (hide_if_visible L B p n path)"
  unfolding hide_if_visible_def
  by (intro triple_intros keeps_good_ov_lookup keeps_delta_good delta_untouched_steps)

lemma keeps_is_resolve: "keeps (delta_is view k d) (resolve_delta_parent L info)"
proof -
  have dirs: "keeps (delta_is view k d) (delta_dir_walk L i cs)" for i cs
    by (induction cs arbitrary: i) (auto intro!: triple_intros keeps_delta_lookup split: option.splits)
  show ?thesis unfolding resolve_delta_parent_def by (intro triple_intros dirs)
qed

lemma triple_ignore: "triple P m (\<lambda>_. Q) \<Longrightarrow> triple P (ignore_not_found m) (\<lambda>_. Q)"
  by (fastforce simp: triple_def ignore_not_found_def split: prod.splits sum.splits sdk_error.splits fs_error.splits)

lemma good_delta_call:
  assumes "\<And>a. good view a \<Longrightarrow> afs_db a = d \<Longrightarrow> good view (snd (f a)) \<and> clean_names (afs_db (snd (f a)))"
  shows "triple (delta_is view k d) (delta_call f) (\<lambda>_. delta_good view)"
proof (rule triple_delta_call)
  fix a s r a'
  assume "delta_is view k d s" "ov_delta s = a" "f a = (r, a')"
  then show "delta_good view (s\<lparr>ov_delta := a'\<rparr>)" using assms [of a] by (auto simp: delta_is_def delta_good_def)
qed

text \<open>The part of a removal after the checks.\<close>

lemma good_removal:
  assumes names: "clean_names d"
    and f: "\<And>now i a. good view a \<Longrightarrow> afs_db a = d \<Longrightarrow> good view (snd (f now i a)) \<and> clean_names (afs_db (snd (f now i a)))"
  shows "triple (delta_is view k d) (and_then (resolve_delta_parent L info) (\<lambda>q. and_then (case q of
      Some i \<Rightarrow> ignore_not_found (and_then tick (\<lambda>now. delta_call (f now i))) | None \<Rightarrow> ok ()) (\<lambda>_.
      hide_if_visible L B p n path))) (\<lambda>_. delta_good view)"
proof (rule triple_then_keep [OF keeps_is_resolve], erule is_good [OF names], rule triple_and_then)
  show "triple (delta_is view k d) (case q of Some i \<Rightarrow> ignore_not_found (and_then tick (\<lambda>now. delta_call (f now i)))
      | None \<Rightarrow> ok ()) (\<lambda>_. delta_good view)" for q
    by (intro triple_option triple_ignore triple_then_keep [OF delta_keeps(1)] triple_ok good_delta_call f)
      (auto dest: is_good [OF names])
qed (auto intro: good_hide_if_visible)

lemma good_ov_unlink:
  "triple (\<lambda>s. delta_good view s \<and> length (fs_dentry (afs_db (ov_delta s))) \<le> 2 ^ 32) (ov_unlink L B p n) (\<lambda>_. delta_good view)"
proof (rule triple_delta_good)
  fix k d
  assume names: "clean_names d"
  let ?P = "\<lambda>s. delta_is view k d s \<and> length (fs_dentry (afs_db (ov_delta s))) \<le> 2 ^ 32"
  show "triple ?P (ov_unlink L B p n) (\<lambda>_. delta_good view)"
  proof (rule triple_assuming)
    show "length (fs_dentry d) \<le> 2 ^ 32" if "?P s" for s using that by (auto simp: delta_is_def)
    assume bound: "length (fs_dentry d) \<le> 2 ^ 32"
    have "good view (snd (fs_unlink L now i n a)) \<and> clean_names (afs_db (snd (fs_unlink L now i n a)))"
      if "good view a" "afs_db a = d" for now i a
      using that good_unlink [of a] bound dentry_subset_clean [OF unlink_dentries, of a L now i n] names by simp
    note tail = good_removal [OF names this]
    have "triple (delta_is view k d) (ov_unlink L B p n) (\<lambda>_. delta_good view)"
      unfolding ov_unlink_def
      by (intro triple_then_keep [OF keeps_get_inode_info] triple_then_keep [OF keeps_build_path]
          triple_then_keep [OF keeps_is_ov_lookup] triple_then_keep [OF keeps_ok_or] triple_if triple_fail tail)
        (auto dest: is_good [OF names])
    then show "triple ?P (ov_unlink L B p n) (\<lambda>_. delta_good view)" by (rule triple_weaken) auto
  qed
qed

lemma good_ov_rmdir: "keeps (delta_good view) (ov_rmdir L B p n)"
proof -
  have "triple (\<lambda>s. delta_good view s \<and> True) (ov_rmdir L B p n) (\<lambda>_. delta_good view)"
  proof (rule triple_delta_good)
    fix k d
    assume names: "clean_names d"
    have "good view (snd (fs_rmdir L now i n a)) \<and> clean_names (afs_db (snd (fs_rmdir L now i n a)))"
      if "good view a" "afs_db a = d" for now i a
      using that good_rmdir [of a] dentry_subset_clean [OF rmdir_dentries, of a L now i n] names by simp
    note tail = good_removal [OF names this]
    have "triple (delta_is view k d) (ov_rmdir L B p n) (\<lambda>_. delta_good view)"
      unfolding ov_rmdir_def
      by (intro triple_then_keep [OF keeps_get_inode_info] triple_then_keep [OF keeps_build_path]
          triple_then_keep [OF keeps_is_ov_lookup] triple_then_keep [OF keeps_ok_or] triple_if triple_fail
          triple_then_keep [OF keeps_ov_readdir] tail)
        (auto dest: is_good [OF names])
    then show "triple (\<lambda>s. delta_is view k d s \<and> True) (ov_rmdir L B p n) (\<lambda>_. delta_good view)" by simp
  qed
  then show ?thesis by simp
qed

lemma good_ov_link:
  assumes B: "base_sizes B" and n: "clean_component n"
  shows "triple (\<lambda>s. delta_good view s \<and> paths_ok s \<and> parent_ok p s) (ov_link L B ino p n) (\<lambda>_. delta_good view)"
proof (rule triple_delta_good)
  fix k d
  assume names: "clean_names d"
  have tail: "triple (delta_is view k d1) (and_then (delta_parent_for L B pinfo (join_path (ii_path pinfo) n) 0 0) (\<lambda>q.
      and_then tick (\<lambda>now. and_then (delta_call (fs_link L now i q n)) (\<lambda>st. ok (st\<lparr>st_ino := ino\<rparr>))))) (\<lambda>_. delta_good view)"
    if "usable_parent d1 pinfo" "clean_names d1" for i d1 pinfo
    using that canonical_join(1) [OF _ n, of "ii_path pinfo"]
    by (intro create_in_parent triple_intros) (auto simp: usable_parent_def intro: good_link link_names n)
  have body: "triple (delta_is view k d) (and_then (if ii_layer info = Delta then ok (ii_ino info)
      else copy_up L B (ii_path info) (ii_ino info)) (\<lambda>i.
      and_then (delta_parent_for L B pinfo (join_path (ii_path pinfo) n) 0 0) (\<lambda>q.
      and_then tick (\<lambda>now. and_then (delta_call (fs_link L now i q n)) (\<lambda>st. ok (st\<lparr>st_ino := ino\<rparr>)))))) (\<lambda>_. delta_good view)"
    if info: "canonical (ii_path info)" and pinfo: "usable_parent d pinfo" for info pinfo
  proof (cases "ii_layer info = Delta")
    case True
    then show ?thesis using tail [OF pinfo names] by (simp add: and_then_def ok_def)
  next
    case False
    have "triple (delta_is view k d) (and_then (copy_up L B (ii_path info) (ii_ino info)) (\<lambda>i.
        and_then (delta_parent_for L B pinfo (join_path (ii_path pinfo) n) 0 0) (\<lambda>q.
        and_then tick (\<lambda>now. and_then (delta_call (fs_link L now i q n)) (\<lambda>st. ok (st\<lparr>st_ino := ino\<rparr>)))))) (\<lambda>_. delta_good view)"
    proof (rule triple_and_then [OF copy_up_spec [OF B canonicalD(1) [OF info]]], goal_cases)
      case (2 i)
      show ?case
        using tail usable_grows [OF pinfo] grows_clean [OF _ names] by (intro triple_ex triple_pure) blast
    qed (use grown_good [OF names] in blast)
    with False show ?thesis by simp
  qed
  show "triple (\<lambda>s. delta_is view k d s \<and> paths_ok s \<and> parent_ok p s) (ov_link L B ino p n) (\<lambda>_. delta_good view)"
    unfolding ov_link_def
  proof (rule triple_info_then, goal_cases)
    case (2 info)
    have "triple (\<lambda>s. delta_is view k d s \<and> paths_ok s \<and> parent_ok p s)
      (and_then (get_inode_info p) (\<lambda>pinfo. and_then (build_path p n) (\<lambda>path. and_then (if ii_layer info = Delta then ok (ii_ino info)
        else copy_up L B (ii_path info) (ii_ino info)) (\<lambda>i.
        and_then (delta_parent_for L B pinfo path 0 0) (\<lambda>q. and_then tick (\<lambda>now. and_then (delta_call (fs_link L now i q n))
          (\<lambda>st. ok (st\<lparr>st_ino := ino\<rparr>)))))))) (\<lambda>_. delta_good view)" if "canonical (ii_path info)"
      using body [OF that] by (intro start_in_parent [OF n]) (auto dest: is_good [OF names])
    then show ?case
      by - (rule triple_assuming [where F = "canonical (ii_path info)"], auto dest: paths_okD intro: triple_weaken)
  qed (auto dest: is_good [OF names])
qed

lemma resolve_delta_ino:
  "triple (delta_is view k d) (resolve_delta_parent L info)
     (\<lambda>r s. delta_is view k d s \<and> (\<forall>j. r = Inr (Some j) \<longrightarrow> ii_layer info = Delta \<longrightarrow> j = ii_ino info))"
proof (cases "ii_layer info = Delta")
  case True
  then show ?thesis by (auto simp: resolve_delta_parent_def intro!: triple_ok)
next
  case False
  then show ?thesis using keeps_is_resolve [of k d info] by (auto intro: triple_weaken)
qed

lemma triple_both: "triple P m Q \<Longrightarrow> triple P m Q' \<Longrightarrow> triple P m (\<lambda>r s. Q r s \<and> Q' r s)"
  by (auto simp: triple_def split: prod.splits)

lemma rename_in_delta:
  assumes names: "clean_names d" and n': "clean_component n'" and bound: "length (fs_dentry d) \<le> 2 ^ 32"
    and info': "usable_parent d info'" and differ: "names_differ info n info' n'"
  shows "triple (delta_is view k d) (and_then (resolve_delta_parent L info) (\<lambda>op.
     and_then (ok_or (Fs NotFound) op) (\<lambda>src. and_then (resolve_delta_parent L info') (\<lambda>np.
     and_then (ok_or (Fs NotFound) np) (\<lambda>dst. and_then tick (\<lambda>t1. and_then tick (\<lambda>t2.
     and_then (delta_call (fs_rename L t1 t2 src n dst n')) (\<lambda>_. hide_if_visible L B p n path)))))))) (\<lambda>_. delta_good view)"
proof -
  have move: "triple (delta_is view k d) (and_then tick (\<lambda>t1. and_then tick (\<lambda>t2.
      and_then (delta_call (fs_rename L t1 t2 src n dst n')) (\<lambda>_. hide_if_visible L B p n path)))) (\<lambda>_. delta_good view)"
    if "is_dir_ino d dst" "(src, n) \<noteq> (dst, n')" for src dst
  proof -
    have "triple (delta_is view k d) (delta_call (fs_rename L t1 t2 src n dst n')) (\<lambda>_. delta_good view)" for t1 t2
      using that bound names by (intro good_delta_call conjI good_rename rename_names n') simp_all
    then show ?thesis
      by (intro triple_then_keep [OF delta_keeps(1)] triple_and_then [where R = "\<lambda>_. delta_good view"] good_hide_if_visible)
        (auto dest: is_good [OF names])
  qed
  have clean: "list_all clean_component (path_components (ii_path info'))" "ii_layer info' = Delta \<Longrightarrow> is_dir_ino d (ii_ino info')"
    using info' canonicalD(1) by (auto simp: usable_parent_def)
  have dst: "triple (delta_is view k d) (and_then (resolve_delta_parent L info') (\<lambda>np.
     and_then (ok_or (Fs NotFound) np) (\<lambda>dst. and_then tick (\<lambda>t1. and_then tick (\<lambda>t2.
     and_then (delta_call (fs_rename L t1 t2 src n dst n')) (\<lambda>_. hide_if_visible L B p n path)))))) (\<lambda>_. delta_good view)"
    if src: "ii_layer info = Delta \<longrightarrow> src = ii_ino info" for src
  proof (rule triple_and_then [OF triple_both [OF resolve_delta_parent_spec [OF clean] resolve_delta_ino]], goal_cases)
    case (3 x)
    show ?case
    proof (rule triple_weaken [where P' = "\<lambda>s. delta_is view k d s \<and> (\<forall>j. x = Some j \<longrightarrow> is_dir_ino d j \<and> (ii_layer info' = Delta \<longrightarrow> j = ii_ino info'))"])
      show "triple (\<lambda>s. delta_is view k d s \<and> (\<forall>j. x = Some j \<longrightarrow> is_dir_ino d j \<and> (ii_layer info' = Delta \<longrightarrow> j = ii_ino info')))
        (and_then (ok_or (Fs NotFound) x) (\<lambda>dst. and_then tick (\<lambda>t1. and_then tick (\<lambda>t2.
          and_then (delta_call (fs_rename L t1 t2 src n dst n')) (\<lambda>_. hide_if_visible L B p n path))))) (\<lambda>_. delta_good view)"
        using src differ move
        by (intro triple_pure triple_ok_or_then) (auto simp: names_differ_def dest: is_good [OF names])
    qed auto
  qed (auto dest: is_good [OF names])
  show ?thesis
  proof (rule triple_and_then [OF resolve_delta_ino], goal_cases)
    case (2 x)
    show ?case using dst by (intro triple_pure triple_ok_or_then) (auto dest: is_good [OF names])
  qed (auto dest: is_good [OF names])
qed

lemma good_ov_rename:
  assumes B: "base_sizes B" and n: "clean_component n" and n': "clean_component n'"
  shows "triple (\<lambda>s. delta_good view s \<and> paths_ok s \<and> rename_ok p n p' n' s) (ov_rename L B p n p' n') (\<lambda>_. delta_good view)"
proof (rule triple_delta_good)
  fix k d
  assume names: "clean_names d"
  have ensured: "triple (delta_is view k d1) (and_then (remove_whiteout new) (\<lambda>_. and_then (ensure_parent_dirs L B new 0 0) (\<lambda>_.
      and_then (resolve_delta_parent L info) (\<lambda>op.
      and_then (ok_or (Fs NotFound) op) (\<lambda>src. and_then (resolve_delta_parent L info') (\<lambda>np.
      and_then (ok_or (Fs NotFound) np) (\<lambda>dst. and_then tick (\<lambda>t1. and_then tick (\<lambda>t2.
      and_then (delta_call (fs_rename L t1 t2 src n dst n')) (\<lambda>_. hide_if_visible L B p n old)))))))))) (\<lambda>_. delta_good view)"
    if d1: "clean_names d1" "usable_parent d1 info'" "names_differ info n info' n'" "canonical new"
      "length (fs_dentry d1) + length (path_components new) \<le> 2 ^ 32" for d1 info info' old new
  proof (rule triple_then_keep [OF delta_keeps(2)], erule is_good [OF d1(1)],
      rule triple_and_then [OF ensure_parent_dirs_spec [OF canonicalD(1) [OF d1(4)]]], goal_cases)
    case (2 _ u)
    have "clean_names d2 \<and> usable_parent d2 info' \<and> length (fs_dentry d2) \<le> 2 ^ 32"
      if "grows (length (path_components new) - 1) d1 d2" for d2
      using d1 grows_clean [OF that] usable_grows [OF _ that] growsD(4) [OF that] by auto
    with rename_in_delta [OF _ n' _ _ d1(3)] show ?case by (intro triple_ex triple_pure) blast
  qed (use grown_good [OF d1(1)] in blast)
  have body: "triple (delta_is view k d) (and_then (if ii_layer sinfo = Base
      then and_then (copy_up L B old (ii_ino sinfo)) (\<lambda>_. ok ()) else ok ()) (\<lambda>_.
      and_then (remove_whiteout new) (\<lambda>_. and_then (ensure_parent_dirs L B new 0 0) (\<lambda>_.
      and_then (resolve_delta_parent L info) (\<lambda>op.
      and_then (ok_or (Fs NotFound) op) (\<lambda>src. and_then (resolve_delta_parent L info') (\<lambda>np.
      and_then (ok_or (Fs NotFound) np) (\<lambda>dst. and_then tick (\<lambda>t1. and_then tick (\<lambda>t2.
      and_then (delta_call (fs_rename L t1 t2 src n dst n')) (\<lambda>_. hide_if_visible L B p n old))))))))))) (\<lambda>_. delta_good view)"
    if d: "usable_parent d info'" "names_differ info n info' n'" "canonical new" "canonical old"
      "length (fs_dentry d) + length (path_components old) + length (path_components new) \<le> 2 ^ 32" for info info' sinfo old new
  proof (rule triple_and_then [where R = "\<lambda>r s. \<exists>d1. delta_is view k d1 s \<and> grows (length (path_components old)) d d1"])
    show "triple (delta_is view k d) (if ii_layer sinfo = Base then and_then (copy_up L B old (ii_ino sinfo)) (\<lambda>_. ok ()) else ok ())
      (\<lambda>r s. \<exists>d1. delta_is view k d1 s \<and> grows (length (path_components old)) d d1)"
      by (intro triple_if triple_and_then [OF copy_up_spec [OF B canonicalD(1) [OF d(4)]]] triple_ok) (auto intro: grows_refl)
    show "delta_good view s" if "\<exists>d1. delta_is view k d1 s \<and> grows (length (path_components old)) d d1" for s
      using that grown_good [OF names] by blast
    have "clean_names d1 \<and> usable_parent d1 info' \<and> length (fs_dentry d1) + length (path_components new) \<le> 2 ^ 32"
      if "grows (length (path_components old)) d d1" for d1
      using d grows_clean [OF that names] usable_grows [OF _ that] growsD(4) [OF that] by auto
    with ensured [OF _ _ d(2,3)] show "triple (\<lambda>s. \<exists>d1. delta_is view k d1 s \<and> grows (length (path_components old)) d d1)
      (and_then (remove_whiteout new) (\<lambda>_. and_then (ensure_parent_dirs L B new 0 0) (\<lambda>_.
      and_then (resolve_delta_parent L info) (\<lambda>op.
      and_then (ok_or (Fs NotFound) op) (\<lambda>src. and_then (resolve_delta_parent L info') (\<lambda>np.
      and_then (ok_or (Fs NotFound) np) (\<lambda>dst. and_then tick (\<lambda>t1. and_then tick (\<lambda>t2.
      and_then (delta_call (fs_rename L t1 t2 src n dst n')) (\<lambda>_. hide_if_visible L B p n old)))))))))) (\<lambda>_. delta_good view)"
      by (intro triple_ex triple_pure) blast
  qed
  show "triple (\<lambda>s. delta_is view k d s \<and> paths_ok s \<and> rename_ok p n p' n' s) (ov_rename L B p n p' n') (\<lambda>_. delta_good view)"
    unfolding ov_rename_def
  proof (rule triple_info_then [OF _ triple_info_then [OF _ triple_path_then [OF _ triple_path_then]]], goal_cases)
    case (5 info info' i j)
    let ?P = "\<lambda>s. ((((delta_is view k d s \<and> paths_ok s \<and> rename_ok p n p' n' s) \<and> ov_inode_map s p = Some info) \<and>
      ov_inode_map s p' = Some info') \<and> ov_inode_map s p = Some i) \<and> ov_inode_map s p' = Some j"
    show ?case
    proof (rule triple_assuming)
      show "i = info \<and> j = info' \<and> usable_parent d info' \<and> names_differ info n info' n' \<and> canonical (ii_path info) \<and>
          length (fs_dentry d) + length (path_components (ii_path info)) + length (path_components (ii_path info')) + 2 \<le> 2 ^ 32"
        if "?P s" for s
        using that paths_okD [of s] by (auto simp: usable_parent_def rename_ok_def parent_ok_def delta_is_def)
      assume F: "i = info \<and> j = info' \<and> usable_parent d info' \<and> names_differ info n info' n' \<and> canonical (ii_path info) \<and>
          length (fs_dentry d) + length (path_components (ii_path info)) + length (path_components (ii_path info')) + 2 \<le> 2 ^ 32"
      then have new: "canonical (ii_path info')" by (simp add: usable_parent_def)
      note joined = canonical_join [OF new n'] canonical_join [of "ii_path info", OF _ n]
      show ?case
        by (rule triple_weaken [where P' = "delta_is view k d"],
            rule triple_then_keep [OF keeps_is_ov_lookup], erule is_good [OF names],
            rule triple_then_keep [OF keeps_ok_or], erule is_good [OF names],
            rule triple_then_keep [OF keeps_get_inode_info], erule is_good [OF names], rule body)
          (use F joined in auto)
    qed
  qed (auto dest: is_good [OF names])
qed

end

end
