(* ===== verification/Overlay_Sequences.thy ===== *)
theory Overlay_Sequences
  imports Overlay_Reachable
begin

text \<open>
  Sequences of calls of an overlay, with writes through the handles it gives out and with
  remounts, and what holds in every state they reach.
\<close>

section \<open>Listing with attributes\<close>

text \<open>The names a base directory lists are plain components.\<close>

definition base_names :: "'f base_fs \<Rightarrow> bool" where
  "base_names B \<longleftrightarrow> (\<forall>b es e. bs_readdir_plus B b = Inr (Some es) \<longrightarrow> e \<in> set es \<longrightarrow> clean_component (de_name e))"

lemma get_or_create_child:
  assumes "get_or_create_overlay_ino l u (join_path p n) s = (ino, s')" and "paths_ok s" "canonical p" "clean_component n"
  shows "paths_ok s' \<and> ov_delta s' = ov_delta s"
  using paths_ok_get_or_create [OF assms(2) canonical_join(1) [OF assms(3,4)] assms(1)] assms(1)
  by (auto simp: get_or_create_overlay_ino_def Let_def split: option.splits)

lemma plus_base_loop_paths:
  assumes "paths_ok s" and "canonical (ii_path info)" and "\<forall>e\<in>set es. clean_component (de_name e)"
    and "plus_base_loop info es (m, s) = (m', s')"
  shows "paths_ok s' \<and> ov_delta s' = ov_delta s"
  using assms
  by (induction es arbitrary: m s)
    (auto dest!: get_or_create_child split: if_splits prod.splits)

lemma plus_delta_loop_paths:
  assumes "paths_ok s" and "canonical (ii_path info)" and "\<forall>e\<in>set es. clean_component (de_name e)"
    and "plus_delta_loop info es (m, s) = (m', s')"
  shows "paths_ok s' \<and> ov_delta s' = ov_delta s"
  using assms
  by (induction es arbitrary: m s)
    (auto simp: Let_def dest!: get_or_create_child split: if_splits prod.splits option.splits)

lemma readdir_plus_names:
  "clean_names d \<Longrightarrow> agentfs_readdir_plus i d = Inr (Some es) \<Longrightarrow> e \<in> set es \<Longrightarrow> clean_component (de_name e)"
  by (fastforce simp: agentfs_readdir_plus_def clean_names_def List.map_filter_def split: if_splits)

lemma keeps_ov_readdir_plus_paths:
  assumes B: "base_names B"
  shows "keeps (\<lambda>s. paths_ok s \<and> delta_good view s) (ov_readdir_plus B ino)"
proof -
  let ?I = "\<lambda>s. paths_ok s \<and> delta_good view s"
  have base: "keeps ?I (\<lambda>s. case plus_base_loop info es (m, s) of (m', s1) \<Rightarrow> (Inr m', s1))"
    if "canonical (ii_path info)" "\<forall>e\<in>set es. clean_component (de_name e)" for info es m
    using plus_base_loop_paths [OF _ that] by (intro tripleI) (auto simp: delta_good_def split: prod.splits)
  have delta: "keeps ?I (\<lambda>s. case plus_delta_loop info es (m, s) of (m', s1) \<Rightarrow> (Inr m', s1))"
    if "canonical (ii_path info)" "\<forall>e\<in>set es. clean_component (de_name e)" for info es m
    using plus_delta_loop_paths [OF _ that] by (intro tripleI) (auto simp: delta_good_def split: prod.splits)
  have body: "keeps ?I (and_then (reads (\<lambda>_. base_dir B info)) (\<lambda>base_ino.
     and_then (reads (\<lambda>_. case base_ino of Some b \<Rightarrow> bs_readdir_plus B b | None \<Rightarrow> Inr None)) (\<lambda>base_entries.
     and_then (\<lambda>s. case plus_base_loop info (case_option [] id base_entries) ([], s) of (m, s1) \<Rightarrow> (Inr m, s1)) (\<lambda>m.
     and_then (reads (\<lambda>s. if ii_layer info = Delta
                          then agentfs_readdir_plus (ii_ino info) (afs_db (ov_delta s)) else Inr None)) (\<lambda>delta_entries.
     and_then (\<lambda>s. case plus_delta_loop info (case_option [] id delta_entries) (m, s) of (m', s1) \<Rightarrow> (Inr m', s1)) (\<lambda>m'.
     ok (Some (sort_key de_name (map snd m')))))))))"
    if can: "canonical (ii_path info)" for info
  proof (rule triple_read_then, simp, rule triple_read_then, simp, rule keeps_and_then, rule base [OF can])
    fix b es m
    assume "(case b of Some b \<Rightarrow> bs_readdir_plus B b | None \<Rightarrow> Inr None) = Inr es"
    then show "\<forall>e\<in>set (case_option [] id es). clean_component (de_name e)"
      using B by (auto simp: base_names_def split: option.splits)
    show "keeps ?I (and_then (reads (\<lambda>s. if ii_layer info = Delta
            then agentfs_readdir_plus (ii_ino info) (afs_db (ov_delta s)) else Inr None)) (\<lambda>delta_entries.
        and_then (\<lambda>s. case plus_delta_loop info (case_option [] id delta_entries) (m, s) of (m', s1) \<Rightarrow> (Inr m', s1)) (\<lambda>m'.
        ok (Some (sort_key de_name (map snd m'))))))"
    proof (rule triple_and_then [where R = "\<lambda>r s. ?I s \<and>
          (\<forall>es. r = Inr es \<longrightarrow> (\<forall>e\<in>set (case_option [] id es). clean_component (de_name e)))"])
      show "triple (\<lambda>s. ?I s \<and> (\<forall>x. Inr es = Inr x \<longrightarrow> (\<forall>e\<in>set (case_option [] id x). clean_component (de_name e))))
        (and_then (\<lambda>s. case plus_delta_loop info (case_option [] id es) (m, s) of (m', s1) \<Rightarrow> (Inr m', s1)) (\<lambda>m'.
          ok (Some (sort_key de_name (map snd m'))))) (\<lambda>_. ?I)" for es
        using delta [OF can, of "case_option [] id es" m] by (intro triple_pure keeps_and_then keeps_ok) auto
    qed (auto intro!: triple_reads dest: readdir_plus_names simp: delta_good_def split: option.splits if_splits)
  qed
  show ?thesis
    unfolding ov_readdir_plus_def
  proof (rule triple_info_then, simp)
    fix info
    let ?rest = "and_then (reads (\<lambda>_. base_dir B info)) (\<lambda>base_ino.
     and_then (reads (\<lambda>_. case base_ino of Some b \<Rightarrow> bs_readdir_plus B b | None \<Rightarrow> Inr None)) (\<lambda>base_entries.
     and_then (\<lambda>s. case plus_base_loop info (case_option [] id base_entries) ([], s) of (m, s1) \<Rightarrow> (Inr m, s1)) (\<lambda>m.
     and_then (reads (\<lambda>s. if ii_layer info = Delta
                          then agentfs_readdir_plus (ii_ino info) (afs_db (ov_delta s)) else Inr None)) (\<lambda>delta_entries.
     and_then (\<lambda>s. case plus_delta_loop info (case_option [] id delta_entries) (m, s) of (m', s1) \<Rightarrow> (Inr m', s1)) (\<lambda>m'.
     ok (Some (sort_key de_name (map snd m'))))))))"
    show "triple (\<lambda>s. ?I s \<and> ov_inode_map s ino = Some info) ?rest (\<lambda>_. ?I)"
      by (rule triple_assuming [where F = "canonical (ii_path info)"])
        (auto dest: paths_okD intro: triple_weaken [OF body])
  qed
qed

section \<open>Calls\<close>

datatype ov_call =
    Ov_Lookup i64 string
  | Ov_Readdir_Plus i64
  | Ov_Chmod i64 u32
  | Ov_Chown i64 "u32 option" "u32 option"
  | Ov_Utimens i64 time_change time_change
  | Ov_Open i64
  | Ov_Mkdir i64 string u32 u32 u32
  | Ov_Create_File i64 string u32 u32 u32
  | Ov_Mknod i64 string u32 "64 word" u32 u32
  | Ov_Symlink i64 string string u32 u32
  | Ov_Unlink i64 string
  | Ov_Rmdir i64 string
  | Ov_Link i64 i64 string
  | Ov_Rename i64 string i64 string
  | Ov_Write timestamp i64 u64 "byte list"
  | Ov_Set_Size timestamp i64 u64

text \<open>
  The handle that \<open>open\<close> and \<open>create_file\<close> return is the one of the delta, so writing and
  truncating go to the delta directly; \<open>Ov_Write\<close> and \<open>Ov_Set_Size\<close> name the inode of the handle.
\<close>

fun run_ov_call :: "'c lru_ops \<Rightarrow> 'f base_fs \<Rightarrow> ov_call \<Rightarrow> 'c overlayfs \<Rightarrow> 'c overlayfs" where
  "run_ov_call L B (Ov_Lookup p n) s = snd (ov_lookup L B p n s)"
| "run_ov_call L B (Ov_Readdir_Plus ino) s = snd (ov_readdir_plus B ino s)"
| "run_ov_call L B (Ov_Chmod ino mode) s = snd (ov_chmod L B ino mode s)"
| "run_ov_call L B (Ov_Chown ino uid gid) s = snd (ov_chown L B ino uid gid s)"
| "run_ov_call L B (Ov_Utimens ino at mt) s = snd (ov_utimens L B ino at mt s)"
| "run_ov_call L B (Ov_Open ino) s = snd (ov_open L B ino s)"
| "run_ov_call L B (Ov_Mkdir p n mode uid gid) s = snd (ov_mkdir L B p n mode uid gid s)"
| "run_ov_call L B (Ov_Create_File p n mode uid gid) s = snd (ov_create_file L B p n mode uid gid s)"
| "run_ov_call L B (Ov_Mknod p n mode rdev uid gid) s = snd (ov_mknod L B p n mode rdev uid gid s)"
| "run_ov_call L B (Ov_Symlink p n target uid gid) s = snd (ov_symlink L B p n target uid gid s)"
| "run_ov_call L B (Ov_Unlink p n) s = snd (ov_unlink L B p n s)"
| "run_ov_call L B (Ov_Rmdir p n) s = snd (ov_rmdir L B p n s)"
| "run_ov_call L B (Ov_Link ino p n) s = snd (ov_link L B ino p n s)"
| "run_ov_call L B (Ov_Rename p n p' n') s = snd (ov_rename L B p n p' n' s)"
| "run_ov_call L B (Ov_Write now ino offset data) s = s\<lparr>ov_delta := run_call L (Write now ino offset data) (ov_delta s)\<rparr>"
| "run_ov_call L B (Ov_Set_Size now ino n) s = s\<lparr>ov_delta := run_call L (Set_Size now ino n) (ov_delta s)\<rparr>"

text \<open>
  What the kernel side of a mount ensures: names are plain components, a parent that the delta
  holds is a directory, a rename has two different names (in one directory, or in two
  directories of the delta), data goes to files that exist.
\<close>

fun ov_call_ok :: "ov_call \<Rightarrow> 'c overlayfs \<Rightarrow> bool" where
  "ov_call_ok (Ov_Lookup p n) s = clean_component n"
| "ov_call_ok (Ov_Mkdir p n mode uid gid) s = (clean_component n \<and> parent_ok p s)"
| "ov_call_ok (Ov_Create_File p n mode uid gid) s = (clean_component n \<and> parent_ok p s)"
| "ov_call_ok (Ov_Mknod p n mode rdev uid gid) s = (clean_component n \<and> parent_ok p s)"
| "ov_call_ok (Ov_Symlink p n target uid gid) s = (clean_component n \<and> parent_ok p s \<and> length target < 2 ^ 63)"
| "ov_call_ok (Ov_Unlink p n) s = (clean_component n \<and> length (fs_dentry (afs_db (ov_delta s))) \<le> 2 ^ 32)"
| "ov_call_ok (Ov_Rmdir p n) s = clean_component n"
| "ov_call_ok (Ov_Link ino p n) s = (clean_component n \<and> parent_ok p s)"
| "ov_call_ok (Ov_Rename p n p' n') s = (clean_component n \<and> clean_component n' \<and> rename_ok p n p' n' s)"
| "ov_call_ok (Ov_Write now ino offset data) s = call_ok (Write now ino offset data) (afs_db (ov_delta s))"
| "ov_call_ok (Ov_Set_Size now ino n) s = call_ok (Set_Size now ino n) (afs_db (ov_delta s))"
| "ov_call_ok _ s = True"

text \<open>
  A new process opens the same database: \<open>AgentFS::from_pool\<close> for the delta, with an empty cache, then \<open>OverlayFS::new\<close> and
  \<open>load\<close> (\<open>init\<close> where a base path is given).
\<close>

definition ov_remount ::
  "u32 \<Rightarrow> u32 \<Rightarrow> timestamp \<Rightarrow> 'c \<Rightarrow> u64 option \<Rightarrow> (nat \<Rightarrow> timestamp) \<Rightarrow> 'c overlayfs \<Rightarrow> 'c overlayfs" where
  "ov_remount uid gid now cache epoch clock s =
     snd (ov_load (ov_new (fs_whiteout s) (fs_overlay_config s) (fs_origin s) clock
       (from_pool uid gid now cache epoch (afs_db (ov_delta s)))))"

text \<open>
  The base may answer differently from call to call, as \<open>HostFS\<close> does, which gives out inode numbers at lookups and others after
  a remount: every call sees one of the bases \<open>Bs\<close>. A remount finds the chunk size that was in use; the
  configuration table has it since the database was made.
\<close>

inductive ov_reachable ::
  "'c lru_ops \<Rightarrow> 'c \<Rightarrow> 'f base_fs set \<Rightarrow> 'c overlayfs \<Rightarrow> 'c overlayfs \<Rightarrow> bool" for L cache Bs s0 where
  start: "ov_reachable L cache Bs s0 s0"
| step: "ov_reachable L cache Bs s0 s \<Longrightarrow> B \<in> Bs \<Longrightarrow> ov_call_ok c s \<Longrightarrow> ov_reachable L cache Bs s0 (run_ov_call L B c s)"
| remount: "ov_reachable L cache Bs s0 s \<Longrightarrow>
    read_chunk_size (initialize_schema uid gid now (afs_db (ov_delta s))) = afs_chunk_size (ov_delta s) \<Longrightarrow>
    ov_reachable L cache Bs s0 (ov_remount uid gid now cache epoch clock s)"

section \<open>Consistency of every reachable state\<close>

definition ov_good :: "('c \<Rightarrow> dentry_key \<Rightarrow> i64 option) \<Rightarrow> 'c overlayfs \<Rightarrow> bool" where
  "ov_good view s \<longleftrightarrow> ov_ok s \<and> paths_ok s \<and> delta_good view s"

lemma fold_map_upd: "keyed xs \<Longrightarrow> fold (\<lambda>r m. m(fst r \<mapsto> snd r)) xs m = m ++ map_of xs"
proof (induction xs arbitrary: m)
  case (Cons x xs)
  then have "fst x \<notin> dom (map_of xs)" by (simp add: keyed_def dom_map_of_conv_image_fst)
  with Cons show ?case
    by (cases x) (auto simp: keyed_def fun_eq_iff map_add_def dom_def split: option.splits)
qed simp

lemma ov_load_new:
  assumes "keyed wt" and "keyed ot"
  shows "snd (ov_load (ov_new wt ct ot clock delta)) =
    (ov_new wt ct ot clock delta)\<lparr>ov_whiteouts := fst ` set wt, ov_origin_map := map_of ot\<rparr>"
  by (simp add: ov_load_def load_whiteouts_def load_origins_def and_then_def modify_def ov_new_def fold_map_upd assms)

text \<open>A mounted overlay on a consistent delta is consistent.\<close>

lemma ov_good_load:
  assumes "keyed wt" and "keyed ot" and "good view delta" and "clean_names (afs_db delta)"
    and "\<forall>p \<in> fst ` set wt. canonical p"
  shows "ov_good view (snd (ov_load (ov_new wt ct ot clock delta)))"
proof -
  let ?s = "snd (ov_load (ov_new wt ct ot clock delta))"
  have s: "?s = (ov_new wt ct ot clock delta)\<lparr>ov_whiteouts := fst ` set wt, ov_origin_map := map_of ot\<rparr>"
    using ov_load_new [OF assms(1,2)] .
  have "numbers_ok ?s"
    using numbers_ok_new [of wt ct ot clock delta] numbers_ok_cong [of ?s "ov_new wt ct ot clock delta"] by (simp add: s)
  with assms show ?thesis
    unfolding s
    by (auto simp: ov_good_def ov_ok_def tables_ok_def paths_ok_def delta_good_def ov_new_def canonical_root split: if_splits)
qed

lemma data_ok_initialize_schema:
  assumes "wf_db d" and "data_ok cs d"
  shows "data_ok cs (initialize_schema uid gid now d)"
proof -
  define d2 where "d2 = d\<lparr>fs_config := fs_config (initialize_schema uid gid now d)\<rparr>"
  have "data_ok cs d2" using assms(2) data_ok_cong [of d2 d] by (simp add: d2_def select_inode_def fun_eq_iff)
  moreover have "select_inode d ROOT_INO \<noteq> None" using wf_dbD(5) [OF assms(1)] by (auto simp: is_dir_ino_def split: option.splits)
  then have "initialize_schema uid gid now d = update_inode ROOT_INO (\<lambda>r. r\<lparr>r_uid := uid, r_gid := gid\<rparr>) d2"
    by (auto simp: initialize_schema_def Let_def d2_def select_inode_def update_inode_def split: option.splits)
  ultimately show ?thesis by (simp add: data_ok_update_inode)
qed

lemma initialize_schema_entries: "fs_dentry (initialize_schema uid gid now d) = fs_dentry d"
  by (auto simp: initialize_schema_def Let_def update_inode_def split: option.splits)

lemma good_reopen:
  assumes "good view a" and "view cache = Map.empty"
    and "read_chunk_size (initialize_schema uid gid now (afs_db a)) = afs_chunk_size a"
  shows "good view (from_pool uid gid now cache epoch (afs_db a))"
  using goodD(1,2) [OF assms(1)] assms(2,3) wf_initialize_schema [of "afs_db a" uid gid now]
    data_ok_initialize_schema [of "afs_db a" "afs_chunk_size a" uid gid now]
  by (simp add: good_def from_pool_def Let_def coherent_def)

lemma ov_good_remount:
  assumes "ov_good view s" and "view cache = Map.empty"
    and "read_chunk_size (initialize_schema uid gid now (afs_db (ov_delta s))) = afs_chunk_size (ov_delta s)"
  shows "ov_good view (ov_remount uid gid now cache epoch clock s)"
proof -
  have "clean_names (afs_db (from_pool uid gid now cache epoch (afs_db (ov_delta s))))"
    using assms(1) by (simp add: ov_good_def delta_good_def clean_names_def from_pool_def Let_def initialize_schema_entries)
  with good_reopen [where view = view, OF _ assms(2,3)] assms(1) show ?thesis
    unfolding ov_remount_def by (intro ov_good_load) (auto simp: ov_good_def ov_ok_def tables_ok_def delta_good_def paths_ok_def)
qed

context lru_cache
begin

lemma ov_good_method:
  assumes "keeps ov_ok m" and "keeps paths_ok m" and "triple (\<lambda>s. delta_good view s \<and> paths_ok s \<and> R s) m (\<lambda>_. delta_good view)"
    and "ov_good view s" and "R s"
  shows "ov_good view (snd (m s))"
  using assms keepsD [OF assms(1)] keepsD [OF assms(2)] tripleD [OF assms(3), of s "fst (m s)" "snd (m s)"]
  by (simp add: ov_good_def)

lemma ov_good_plain:
  assumes "keeps ov_ok m" and "keeps paths_ok m" and "triple (\<lambda>s. delta_good view s \<and> paths_ok s) m (\<lambda>_. delta_good view)"
    and "ov_good view s"
  shows "ov_good view (snd (m s))"
  using ov_good_method [OF assms(1,2) triple_weaken [OF assms(3)] assms(4), of "\<lambda>_. True"] by simp

lemma ov_good_write:
  assumes s: "ov_good view s" and c: "call_ok c (afs_db (ov_delta s))"
    and names: "fs_dentry (afs_db (run_call L c (ov_delta s))) = fs_dentry (afs_db (ov_delta s))"
  shows "ov_good view (s\<lparr>ov_delta := run_call L c (ov_delta s)\<rparr>)"
proof -
  let ?s = "s\<lparr>ov_delta := run_call L c (ov_delta s)\<rparr>"
  have "ov_ok ?s = ov_ok s" using numbers_ok_cong [of ?s s] tables_ok_cong [of ?s s] by (simp add: ov_ok_def)
  with s good_run_call [OF _ c] names show ?thesis
    by (auto simp: ov_good_def paths_ok_def delta_good_def clean_names_def)
qed

lemma write_entries:
  "fs_dentry (snd (file_pwrite f now offset data d)) = fs_dentry d" "fs_dentry (snd (file_truncate f now n d)) = fs_dentry d"
  by (auto simp: file_pwrite_def file_truncate_def Let_def delete_data_def table_simps)

lemma ov_good_call:
  assumes B: "base_sizes B" "base_names B" and s: "ov_good view s" and c: "ov_call_ok c s"
  shows "ov_good view (run_ov_call L B c s)"
proof (cases c)
  case (Ov_Lookup p n)
  then have n: "clean_component n" using c by simp
  show ?thesis by (simp add: Ov_Lookup ov_good_plain [OF keeps_ov_lookup paths_ov_lookup [OF n] triple_weaken [OF keeps_good_ov_lookup] s])
next
  case (Ov_Readdir_Plus ino)
  have "paths_ok (snd (ov_readdir_plus B ino s)) \<and> delta_good view (snd (ov_readdir_plus B ino s))"
    using keepsD [OF keeps_ov_readdir_plus_paths [OF B(2)], of s view] s by (simp add: ov_good_def)
  with Ov_Readdir_Plus s keepsD [OF keeps_ov_readdir_plus, of s] show ?thesis by (simp add: ov_good_def)
next
  case (Ov_Chmod ino mode)
  show ?thesis using c by (simp add: Ov_Chmod ov_good_plain [OF keeps_ov_methods(1) paths_ov_attributes(1) good_ov_attributes(1) [OF B(1)] s])
next
  case (Ov_Chown ino uid gid)
  show ?thesis using c by (simp add: Ov_Chown ov_good_plain [OF keeps_ov_methods(2) paths_ov_attributes(2) good_ov_attributes(2) [OF B(1)] s])
next
  case (Ov_Utimens ino at mt)
  show ?thesis using c by (simp add: Ov_Utimens ov_good_plain [OF keeps_ov_methods(3) paths_ov_attributes(3) good_ov_attributes(3) [OF B(1)] s])
next
  case (Ov_Open ino)
  show ?thesis using c by (simp add: Ov_Open ov_good_plain [OF keeps_ov_methods(4) paths_ov_attributes(4) good_ov_attributes(4) [OF B(1)] s])
next
  case (Ov_Mkdir p n mode uid gid)
  then have n: "clean_component n" using c by simp
  show ?thesis using c by (simp add: Ov_Mkdir ov_good_method [OF keeps_ov_methods(5) paths_ov_names(1) [OF n] good_ov_mkdir [OF n] s])
next
  case (Ov_Create_File p n mode uid gid)
  then have n: "clean_component n" using c by simp
  show ?thesis using c by (simp add: Ov_Create_File ov_good_method [OF keeps_ov_methods(6) paths_ov_names(2) [OF n] good_ov_create_file [OF n] s])
next
  case (Ov_Mknod p n mode rdev uid gid)
  then have n: "clean_component n" using c by simp
  show ?thesis using c by (simp add: Ov_Mknod ov_good_method [OF keeps_ov_methods(7) paths_ov_names(3) [OF n] good_ov_mknod [OF n] s])
next
  case (Ov_Symlink p n target uid gid)
  then have n: "clean_component n" using c by simp
  show ?thesis using c by (simp add: Ov_Symlink ov_good_method [OF keeps_ov_methods(8) paths_ov_names(4) [OF n] good_ov_symlink [OF n] s])
next
  case (Ov_Unlink p n)
  then have n: "clean_component n" using c by simp
  have "triple (\<lambda>s. delta_good view s \<and> paths_ok s \<and> length (fs_dentry (afs_db (ov_delta s))) \<le> 2 ^ 32)
      (ov_unlink L B p n) (\<lambda>_. delta_good view)"
    by (rule triple_weaken [OF good_ov_unlink]) auto
  then show ?thesis
    using c by (simp add: Ov_Unlink ov_good_method [OF keeps_ov_methods(9) paths_ov_names(5) [OF n] _ s])
next
  case (Ov_Rmdir p n)
  then have n: "clean_component n" using c by simp
  show ?thesis using c by (simp add: Ov_Rmdir ov_good_plain [OF keeps_ov_methods(10) paths_ov_names(6) [OF n] triple_weaken [OF good_ov_rmdir] s])
next
  case (Ov_Link ino p n)
  then have n: "clean_component n" using c by simp
  show ?thesis using c by (simp add: Ov_Link ov_good_method [OF keeps_ov_methods(11) paths_ov_names(7) [OF n] good_ov_link [OF B(1) n] s])
next
  case (Ov_Rename p n p' n')
  then have n: "clean_component n" using c by simp
  from Ov_Rename c have n': "clean_component n'" by simp
  show ?thesis using c by (simp add: Ov_Rename ov_good_method [OF keeps_ov_methods(12) paths_ov_names(8) [OF n n'] good_ov_rename [OF B(1) n n'] s])
next
  case (Ov_Write now ino offset data)
  then show ?thesis using ov_good_write [OF s, of "Write now ino offset data"] c by (simp add: write_entries)
next
  case (Ov_Set_Size now ino n)
  then show ?thesis using ov_good_write [OF s, of "Set_Size now ino n"] c by (simp add: write_entries)
qed

lemma ov_reachable_good:
  assumes "\<forall>B\<in>Bs. base_sizes B \<and> base_names B" and "view cache = Map.empty" and "ov_reachable L cache Bs s0 s"
    and "ov_good view s0"
  shows "ov_good view s"
  using assms(3,4) by (induction rule: ov_reachable.induct) (use assms(1) in \<open>auto intro: ov_good_call ov_good_remount assms(2)\<close>)

end

fun ov_calls_ok :: "'c lru_ops \<Rightarrow> 'f base_fs \<Rightarrow> ov_call list \<Rightarrow> 'c overlayfs \<Rightarrow> bool" where
  "ov_calls_ok L B [] s = True"
| "ov_calls_ok L B (c # cs) s = (ov_call_ok c s \<and> ov_calls_ok L B cs (run_ov_call L B c s))"

lemma ov_reachable_calls:
  "B \<in> Bs \<Longrightarrow> ov_calls_ok L B cs s \<Longrightarrow> ov_reachable L cache Bs s0 s \<Longrightarrow>
     ov_reachable L cache Bs s0 (fold (run_ov_call L B) cs s)"
  by (induction cs arbitrary: s) (auto intro: ov_reachable.step)

section \<open>A new overlay\<close>

definition ov_mount :: "string \<Rightarrow> (nat \<Rightarrow> timestamp) \<Rightarrow> 'c agentfs \<Rightarrow> 'c overlayfs" where
  "ov_mount base_path clock delta = snd (ov_init base_path (ov_new [] [] [] clock delta))"

lemma ov_good_mount:
  assumes "good view delta" and "clean_names (afs_db delta)"
  shows "ov_good view (ov_mount base_path clock delta)"
proof -
  have "ov_mount base_path clock delta = snd (ov_load (ov_new [] (replace_row ''base_path'' base_path []) [] clock delta))"
    by (simp add: ov_mount_def ov_init_def ov_init_schema_def ov_load_def and_then_def modify_def load_whiteouts_def load_origins_def ov_new_def)
  with ov_good_load [OF _ _ assms, of "[]" "[]"] show ?thesis by (simp add: keyed_def)
qed

lemma clean_names_new: "clean_names (afs_db (from_pool uid gid now cache epoch empty_db))"
  by (auto simp: clean_names_def from_pool_def initialize_schema_def empty_db_def Let_def split: option.splits)

lemma ov_good_new:
  assumes "lru_cache L view" and "view cache = Map.empty"
  shows "ov_good view (ov_mount base_path clock (from_pool uid gid now cache epoch empty_db))"
  by (intro ov_good_mount lru_cache.good_from_pool [OF assms] clean_names_new)

end
