(* ===== verification/Overlay_Behaviour.thy ===== *)
theory Overlay_Behaviour
  imports Overlay_Sequences
begin

unbundle bit_operations_syntax

text \<open>
  What the overlay shows: a specification of its merged tree, that \<open>lookup\<close> and \<open>readdir\<close> follow
  it, that a removed name is gone, and that a base file opened for the first time reads as the
  base has it.
\<close>

section \<open>The merged tree\<close>

text \<open>
  The merged tree is specified on lists of names. A path is covered when it or a directory above it has a whiteout.
\<close>

definition covered :: "string set \<Rightarrow> string list \<Rightarrow> bool" where
  "covered W cs \<longleftrightarrow> list_ex (\<lambda>k. path_of (take k cs) \<in> W) [1..<Suc (length cs)]"

text \<open>The inode at a path below the root of a layer, given the lookup of the layer.\<close>

primrec follow :: "(i64 \<Rightarrow> string \<Rightarrow> stats option result) \<Rightarrow> string list \<Rightarrow> i64 \<Rightarrow> i64 option result" where
  "follow lookup [] i = Inr (Some i)"
| "follow lookup (c # cs) i =
     (case lookup i c of Inl e \<Rightarrow> Inl e | Inr None \<Rightarrow> Inr None | Inr (Some st) \<Rightarrow> follow lookup cs (st_ino st))"

definition directories :: "stats option result \<Rightarrow> stats option result" where
  "directories r = (case r of Inr (Some st) \<Rightarrow> if is_directory st then r else Inr None | _ \<Rightarrow> r)"

text \<open>
  The child \<open>n\<close> of the directory with the path \<open>cs\<close> and the record \<open>info\<close>, with the attributes of its layer: nothing when its
  path is covered; otherwise what the delta has there; otherwise what the base has there. In
  the layer of the record the directory is the inode of the record, in the other layer it is the one at the path.
\<close>

definition merged_child ::
  "'f base_fs \<Rightarrow> db \<Rightarrow> string set \<Rightarrow> inode_info \<Rightarrow> string list \<Rightarrow> string \<Rightarrow> stats option result" where
  "merged_child B d W info cs n =
     (let in_delta = (case ii_layer info of
            Delta \<Rightarrow> Inr (Some (ii_ino info)) | Base \<Rightarrow> follow (\<lambda>i c. directories (child_stats d i c)) cs ROOT_INO);
          in_base = (case ii_layer info of Base \<Rightarrow> Inr (Some (ii_ino info)) | Delta \<Rightarrow> follow (bs_lookup B) cs ROOT_INO);
          base_has = (case in_base of Inl e \<Rightarrow> Inl e | Inr None \<Rightarrow> Inr None | Inr (Some b) \<Rightarrow> bs_lookup B b n)
      in if covered W (cs @ [n]) then Inr None
         else case in_delta of
                Inl e \<Rightarrow> Inl e
              | Inr None \<Rightarrow> base_has
              | Inr (Some i) \<Rightarrow> (case child_stats d i n of Inl e \<Rightarrow> Inl e | Inr None \<Rightarrow> base_has | Inr (Some st) \<Rightarrow> Inr (Some st)))"

text \<open>The answer of a lookup as a function of the layers, computed the way the code computes it.\<close>

fun dir_walk :: "db \<Rightarrow> i64 \<Rightarrow> string list \<Rightarrow> i64 option result" where
  "dir_walk d i [] = Inr (Some i)"
| "dir_walk d i (c # cs) =
     (case child_stats d i c of
        Inl e \<Rightarrow> Inl e
      | Inr None \<Rightarrow> Inr None
      | Inr (Some st) \<Rightarrow> if is_directory st then dir_walk d (st_ino st) cs else Inr None)"

definition delta_dir :: "db \<Rightarrow> inode_info \<Rightarrow> i64 option result" where
  "delta_dir d info =
     (if ii_layer info = Delta then Inr (Some (ii_ino info)) else dir_walk d 1 (path_components (ii_path info)))"

definition base_child :: "'f base_fs \<Rightarrow> inode_info \<Rightarrow> string \<Rightarrow> stats option result" where
  "base_child B info n =
     (case base_dir B info of Inl e \<Rightarrow> Inl e | Inr None \<Rightarrow> Inr None | Inr (Some b) \<Rightarrow> bs_lookup B b n)"

definition lookup_answer :: "'f base_fs \<Rightarrow> db \<Rightarrow> string set \<Rightarrow> inode_info \<Rightarrow> string \<Rightarrow> stats option result" where
  "lookup_answer B d W info n =
     (if whiteout_loop W [] (path_components (join_path (ii_path info) n)) then Inr None
      else case delta_dir d info of
             Inl e \<Rightarrow> Inl e
           | Inr None \<Rightarrow> base_child B info n
           | Inr (Some i) \<Rightarrow>
               (case child_stats d i n of
                  Inr None \<Rightarrow> base_child B info n
                | r \<Rightarrow> r))"

text \<open>Attributes up to the inode number.\<close>

definition unnumbered :: "stats option result \<Rightarrow> stats option result" where
  "unnumbered = map_sum id (map_option (\<lambda>st. st\<lparr>st_ino := 0\<rparr>))"

lemma unnumbered_simps [simp]:
  "unnumbered (Inl e) = Inl e" "unnumbered (Inr None) = Inr None" "unnumbered (Inr (Some st)) = Inr (Some (st\<lparr>st_ino := 0\<rparr>))"
  by (simp_all add: unnumbered_def)

lemma unnumbered_found: "(\<exists>st. r = Inr (Some st)) \<longleftrightarrow> (\<exists>st. unnumbered r = Inr (Some st))"
  by (cases r; cases "projr r"; simp add: unnumbered_def)

lemma unnumbered_None: "unnumbered r = Inr None \<longleftrightarrow> r = Inr None"
  by (cases r; cases "projr r"; simp add: unnumbered_def)

section \<open>Lookup follows it\<close>

text \<open>A state that differs from \<open>s0\<close> in the entry cache of the delta only.\<close>

definition at :: "('c \<Rightarrow> dentry_key \<Rightarrow> i64 option) \<Rightarrow> nat \<Rightarrow> db \<Rightarrow> 'c overlayfs \<Rightarrow> 'c overlayfs \<Rightarrow> bool" where
  "at view k d s0 s \<longleftrightarrow> delta_is view k d s \<and> (\<exists>a. s = s0\<lparr>ov_delta := a\<rparr>)"

lemma at_start: "delta_is view k d s \<Longrightarrow> at view k d s s"
  by (auto simp: at_def intro: exI [of _ "ov_delta s"])

lemma atD:
  assumes "at view k d s0 s"
  shows "ov_inode_map s = ov_inode_map s0" "ov_whiteouts s = ov_whiteouts s0" "delta_is view k d s"
    "is_whiteout s = is_whiteout s0"
  using assms by (auto simp: at_def is_whiteout_def fun_eq_iff)

context lru_cache
begin

lemma at_lookup:
  assumes "n \<noteq> ''..''"
  shows "triple (at view k d s0) (delta_call (fs_lookup L p n)) (\<lambda>r s. at view k d s0 s \<and> r = child_stats d p n)"
proof (rule tripleI)
  fix s r s'
  assume s: "at view k d s0 s" and res: "delta_call (fs_lookup L p n) s = (r, s')"
  have "delta_is view k d s' \<and> r = child_stats d p n" using tripleD [OF delta_lookup [OF assms] atD(3) [OF s] res] .
  moreover obtain a where "s' = s\<lparr>ov_delta := a\<rparr>" using res by (auto simp: delta_call_def split: prod.splits)
  ultimately show "at view k d s0 s' \<and> r = child_stats d p n" using s by (auto simp: at_def)
qed

lemma at_dir_walk:
  assumes "list_all clean_component cs"
  shows "triple (at view k d s0) (delta_dir_walk L i cs) (\<lambda>r s. at view k d s0 s \<and> r = dir_walk d i cs)"
  using assms
proof (induction cs arbitrary: i)
  case (Cons c cs)
  show ?case
    unfolding delta_dir_walk.simps dir_walk.simps
  proof (rule triple_and_then [OF at_lookup])
    fix x
    have IH: "triple (at view k d s0) (delta_dir_walk L j cs) (\<lambda>r s. at view k d s0 s \<and> r = dir_walk d j cs)" for j
      using Cons by simp
    show "triple (\<lambda>s. at view k d s0 s \<and> Inr x = child_stats d i c)
      (case x of None \<Rightarrow> ok None | Some st \<Rightarrow> if is_directory st then delta_dir_walk L (st_ino st) cs else ok None)
      (\<lambda>r s. at view k d s0 s \<and> r = (case child_stats d i c of Inl e \<Rightarrow> Inl e | Inr None \<Rightarrow> Inr None
         | Inr (Some st) \<Rightarrow> if is_directory st then dir_walk d (st_ino st) cs else Inr None))"
    proof (rule triple_pure)
      assume x: "Inr x = child_stats d i c"
      show "triple (at view k d s0)
        (case x of None \<Rightarrow> ok None | Some st \<Rightarrow> if is_directory st then delta_dir_walk L (st_ino st) cs else ok None)
        (\<lambda>r s. at view k d s0 s \<and> r = (case child_stats d i c of Inl e \<Rightarrow> Inl e | Inr None \<Rightarrow> Inr None
           | Inr (Some st) \<Rightarrow> if is_directory st then dir_walk d (st_ino st) cs else Inr None))"
        unfolding x [symmetric] using IH by (cases x) (auto intro!: triple_ok)
    qed
  qed (use Cons.prems in \<open>auto simp: clean_component_def split: sum.splits\<close>)
qed (auto intro!: triple_ok)

lemma at_resolve:
  assumes "canonical (ii_path info)"
  shows "triple (at view k d s0) (resolve_delta_parent L info) (\<lambda>r s. at view k d s0 s \<and> r = delta_dir d info)"
  using at_dir_walk [OF canonicalD(1) [OF assms], of k d s0 1]
  by (auto simp: resolve_delta_parent_def delta_dir_def intro!: triple_ok)

lemma number_unnumbered:
  "number_delta_entry path st s = (r, s') \<Longrightarrow> unnumbered r = Inr (Some (st\<lparr>st_ino := 0\<rparr>)) \<and> r \<noteq> Inr None"
  "number_base_entry path st s = (r, s') \<Longrightarrow> unnumbered r = Inr (Some (st\<lparr>st_ino := 0\<rparr>)) \<and> r \<noteq> Inr None"
  by (auto simp: number_delta_entry_def number_base_entry_def split: prod.splits option.splits)

lemma at_base_child:
  "triple (at view k d s0) (and_then (reads (\<lambda>_. base_dir B info)) (\<lambda>base_parent.
      case base_parent of
        None \<Rightarrow> ok None
      | Some b \<Rightarrow> and_then (reads (\<lambda>_. bs_lookup B b n)) (\<lambda>bs.
          case bs of Some st \<Rightarrow> number_base_entry path st | None \<Rightarrow> ok None)))
    (\<lambda>r s. unnumbered r = unnumbered (base_child B info n) \<and> (r = Inr None \<longrightarrow> at view k d s0 s))"
proof -
  have "triple (at view k d s0) (number_base_entry path st)
    (\<lambda>r s. unnumbered r = unnumbered (Inr (Some st)) \<and> (r = Inr None \<longrightarrow> at view k d s0 s))" for st
    by (intro tripleI) (simp add: number_unnumbered(2))
  then have found: "triple (at view k d s0) (and_then (reads (\<lambda>_. bs_lookup B b n)) (\<lambda>bs.
      case bs of Some st \<Rightarrow> number_base_entry path st | None \<Rightarrow> ok None))
    (\<lambda>r s. unnumbered r = unnumbered (bs_lookup B b n) \<and> (r = Inr None \<longrightarrow> at view k d s0 s))" for b
    by (cases "bs_lookup B b n") (auto intro!: triple_fail triple_ok split: option.splits)
  show ?thesis
  proof (cases "base_dir B info")
    case (Inr x)
    then show ?thesis using found by (cases x) (auto simp: base_child_def intro!: triple_ok)
  qed (auto simp: base_child_def intro!: triple_fail)
qed

lemma at_delta_entry:
  "triple (at view k d s0) (number_delta_entry path st)
    (\<lambda>r s. unnumbered r = unnumbered (Inr (Some st)) \<and> (r = Inr None \<longrightarrow> at view k d s0 s))"
  by (intro tripleI) (simp add: number_unnumbered(1))

text \<open>The result of a lookup, and that a lookup that finds nothing changes the entry cache only.\<close>

lemma ov_lookup_merged:
  assumes s: "delta_is view k d s" and info: "ov_inode_map s p = Some info" "canonical (ii_path info)"
    and n: "clean_component n" and res: "ov_lookup L B p n s = (r, s')"
  shows "unnumbered r = unnumbered (lookup_answer B d (ov_whiteouts s) info n) \<and> (r = Inr None \<longrightarrow> at view k d s s')"
proof -
  let ?path = "join_path (ii_path info) n"
  let ?base = "and_then (reads (\<lambda>_. base_dir B info)) (\<lambda>base_parent.
           case base_parent of
             None \<Rightarrow> ok None
           | Some b \<Rightarrow> and_then (reads (\<lambda>_. bs_lookup B b n)) (\<lambda>bs.
               case bs of Some st \<Rightarrow> number_base_entry ?path st | None \<Rightarrow> ok None))"
  let ?layers = "and_then (resolve_delta_parent L info) (\<lambda>delta_parent_ino.
       and_then (case delta_parent_ino of Some ino \<Rightarrow> delta_call (fs_lookup L ino n) | None \<Rightarrow> ok None) (\<lambda>delta_stats.
       case delta_stats of Some st \<Rightarrow> number_delta_entry ?path st | None \<Rightarrow> ?base))"
  let ?child = "case delta_dir d info of Inl e \<Rightarrow> Inl e | Inr None \<Rightarrow> base_child B info n
    | Inr (Some i) \<Rightarrow> (case child_stats d i n of Inr None \<Rightarrow> base_child B info n | r \<Rightarrow> r)"
  have start: "ov_lookup L B p n s = (if is_whiteout s ?path then ok None else ?layers) s"
    using info(1) by (simp add: ov_lookup_def build_path_def get_inode_info_def and_then_def action_defs)
  have entry: "triple (at view k d s) (and_then (delta_call (fs_lookup L i n)) (\<lambda>delta_stats.
       case delta_stats of Some st \<Rightarrow> number_delta_entry ?path st | None \<Rightarrow> ?base))
     (\<lambda>r s'. unnumbered r = unnumbered (case child_stats d i n of Inr None \<Rightarrow> base_child B info n | r \<Rightarrow> r) \<and>
       (r = Inr None \<longrightarrow> at view k d s s'))" for i
  proof (rule triple_and_then [OF at_lookup], goal_cases)
    case (3 x)
    show ?case
    proof (rule triple_assuming [where F = "child_stats d i n = Inr x"])
      assume x: "child_stats d i n = Inr x"
      show ?case
        unfolding x using at_base_child [of k d s B info n ?path] at_delta_entry [of k d s ?path] by (cases x) auto
    qed simp
  qed (use n in \<open>auto simp: clean_component_def split: option.splits sum.splits\<close>)
  have "triple (at view k d s) ?layers (\<lambda>r s'. unnumbered r = unnumbered ?child \<and> (r = Inr None \<longrightarrow> at view k d s s'))"
  proof (rule triple_and_then [OF at_resolve [OF info(2)]], goal_cases)
    case (2 x)
    show ?case
    proof (rule triple_assuming [where F = "delta_dir d info = Inr x"])
      assume x: "delta_dir d info = Inr x"
      show ?case
        unfolding x using entry at_base_child [of k d s B info n ?path] by (cases x) auto
    qed simp
  qed (auto split: sum.splits)
  note layers = tripleD [OF this at_start [OF s]]
  show ?thesis
  proof (cases "is_whiteout s ?path")
    case True
    then have "(r, s') = (Inr None, s)" using start res by (simp only: if_True ok_def)
    with True s show ?thesis by (simp add: lookup_answer_def is_whiteout_def at_start)
  next
    case False
    then have "?layers s = (r, s')" using start res by (simp only: if_False)
    from layers [OF this] False show ?thesis by (simp add: lookup_answer_def is_whiteout_def)
  qed
qed

end

section \<open>Whiteouts\<close>

lemma whiteout_loop_iff:
  "whiteout_loop W cur cs \<longleftrightarrow> (\<exists>k. 0 < k \<and> k \<le> length cs \<and> cur @ concat (map (\<lambda>c. CHR ''/'' # c) (take k cs)) \<in> W)"
proof (induction cs arbitrary: cur)
  case (Cons c cs)
  have shift: "(\<exists>k. 0 < k \<and> k \<le> length (c # cs) \<and> P (take k (c # cs))) \<longleftrightarrow>
      P [c] \<or> (\<exists>k. 0 < k \<and> k \<le> length cs \<and> P (c # take k cs))" for P
  proof
    assume "\<exists>k. 0 < k \<and> k \<le> length (c # cs) \<and> P (take k (c # cs))"
    then obtain k where k: "0 < k" "k \<le> length (c # cs)" "P (take k (c # cs))" by blast
    then obtain j where "k = Suc j" by (cases k) auto
    with k show "P [c] \<or> (\<exists>k. 0 < k \<and> k \<le> length cs \<and> P (c # take k cs))" by (cases j) auto
  next
    assume "P [c] \<or> (\<exists>k. 0 < k \<and> k \<le> length cs \<and> P (c # take k cs))"
    then show "\<exists>k. 0 < k \<and> k \<le> length (c # cs) \<and> P (take k (c # cs))"
      by (auto intro: exI [of _ 1] exI [of _ "Suc _"])
  qed
  show ?case unfolding shift [of "\<lambda>xs. cur @ concat (map (\<lambda>c. CHR ''/'' # c) xs) \<in> W"] using Cons.IH by (simp add: Let_def)
qed simp

lemma path_of_concat: "cs \<noteq> [] \<Longrightarrow> path_of cs = concat (map (\<lambda>c. CHR ''/'' # c) cs)"
proof (induction cs rule: rev_induct)
  case (snoc c cs)
  then show ?case by (cases "cs = []") (simp_all add: path_of_def str_join_snoc)
qed simp

text \<open>A path with a whiteout is hidden.\<close>

lemma whiteout_hides:
  assumes "canonical path" and "path_components path \<noteq> []" and "path \<in> W"
  shows "whiteout_loop W [] (path_components path)"
proof -
  let ?cs = "path_components path"
  have "path = concat (map (\<lambda>c. CHR ''/'' # c) ?cs)"
    using canonicalD(2) [OF assms(1)] path_of_concat [OF assms(2)] by simp
  with assms(2,3) show ?thesis
    unfolding whiteout_loop_iff by (intro exI [of _ "length ?cs"]) simp
qed

text \<open>The answer of a lookup is the child in the merged tree.\<close>

lemma whiteout_loop_covered:
  assumes "cs \<noteq> []"
  shows "whiteout_loop W [] cs \<longleftrightarrow> covered W cs"
proof -
  have path: "concat (map (\<lambda>c. CHR ''/'' # c) (take k cs)) = path_of (take k cs)" if "0 < k" for k
    using assms that path_of_concat [of "take k cs"] by simp
  have "whiteout_loop W [] cs \<longleftrightarrow> (\<exists>k. 0 < k \<and> k \<le> length cs \<and> path_of (take k cs) \<in> W)"
    unfolding whiteout_loop_iff using path by auto
  also have "\<dots> \<longleftrightarrow> covered W cs" by (auto simp: covered_def list_ex_iff Suc_le_eq less_Suc_eq_le simp del: upt_Suc)
  finally show ?thesis .
qed

lemma dir_walk_follow: "dir_walk d i cs = follow (\<lambda>i c. directories (child_stats d i c)) cs i"
  by (induction cs arbitrary: i) (auto simp: directories_def split: sum.splits option.splits)

lemma base_walk_follow: "base_walk B i cs = follow (bs_lookup B) cs i"
  by (induction cs arbitrary: i) (auto split: sum.splits option.splits)

lemma lookup_answer_merged:
  assumes "list_all clean_component cs" and "ii_path info = path_of cs" and "clean_component n"
  shows "lookup_answer B d W info n = merged_child B d W info cs n"
proof -
  have cs: "path_components (ii_path info) = cs" using assms(1,2) by (simp add: path_components_path_of)
  have "canonical (ii_path info)" using assms(1,2) by (auto simp: canonical_def)
  then have "path_components (join_path (ii_path info) n) = cs @ [n]" using canonical_join(2) [OF _ assms(3)] cs by simp
  then have "whiteout_loop W [] (path_components (join_path (ii_path info) n)) \<longleftrightarrow> covered W (cs @ [n])"
    by (simp add: whiteout_loop_covered)
  then show ?thesis
    by (cases "ii_layer info") (auto simp: lookup_answer_def merged_child_def Let_def delta_dir_def base_child_def base_dir_def cs
        dir_walk_follow base_walk_follow ROOT_INO_def split: sum.splits option.splits)
qed

section \<open>A removed name is gone\<close>

text \<open>The name \<open>n\<close> below the directory \<open>p\<close>, which is known under \<open>dir\<close>, is not found after a call that succeeds.\<close>

definition gone :: "'c lru_ops \<Rightarrow> 'f base_fs \<Rightarrow> i64 \<Rightarrow> string \<Rightarrow> string \<Rightarrow> unit result \<Rightarrow> 'c overlayfs \<Rightarrow> bool" where
  "gone L B p n dir r s \<longleftrightarrow> (\<forall>info. r = Inr () \<longrightarrow> ov_inode_map s p = Some info \<longrightarrow> ii_path info = dir \<longrightarrow>
     fst (ov_lookup L B p n s) = Inr None)"

context lru_cache
begin

lemma hide_if_visible_hides:
  assumes n: "clean_component n"
  shows "triple (\<lambda>s. delta_good view s \<and> paths_ok s) (hide_if_visible L B p n path)
    (\<lambda>r s. \<forall>info. r = Inr () \<longrightarrow> ov_inode_map s p = Some info \<longrightarrow> canonical (ii_path info) \<longrightarrow> path = join_path (ii_path info) n \<longrightarrow>
       fst (ov_lookup L B p n s) = Inr None)"
proof (rule tripleI, intro allI impI)
  fix s r s' info
  assume s: "delta_good view s \<and> paths_ok s" and res: "hide_if_visible L B p n path s = (r, s')" and r: "r = Inr ()"
    and info: "ov_inode_map s' p = Some info" "canonical (ii_path info)" "path = join_path (ii_path info) n"
  obtain k d where d: "delta_is view k d s" "clean_names d" using s by (auto simp: delta_good_iff)
  obtain x s1 where x: "ov_lookup L B p n s = (Inr x, s1)" and rest: "(if x \<noteq> None then create_whiteout path else ok ()) s1 = (r, s')"
    using res r unfolding hide_if_visible_def by (auto elim: and_then_cases)
  show "fst (ov_lookup L B p n s') = Inr None"
  proof (cases x)
    case None
    then have s': "s' = s1" using rest by (simp add: ok_def)
    obtain info0 where info0: "ov_inode_map s p = Some info0"
      using x by (cases "ov_inode_map s p") (auto simp: ov_lookup_def get_inode_info_def and_then_def action_defs)
    have can: "canonical (ii_path info0)" using s info0 by (auto dest: paths_okD)
    have first: "unnumbered (lookup_answer B d (ov_whiteouts s) info0 n) = Inr None" "at view k d s s'"
      using ov_lookup_merged [OF d(1) info0 can n x] None s' by (auto simp: unnumbered_None)
    obtain r2 s2 where again: "ov_lookup L B p n s' = (r2, s2)" by fastforce
    have "unnumbered r2 = Inr None"
      using ov_lookup_merged [OF atD(3) [OF first(2)] _ can n again] atD(1,2) [OF first(2)] info0 first(1) by simp
    with again show ?thesis by (simp add: unnumbered_None)
  next
    case (Some st)
    then have "path \<in> ov_whiteouts s'" using rest by (auto simp: create_whiteout_def and_then_def modify_def tick_def)
    then have "is_whiteout s' path"
      unfolding is_whiteout_def info(3) by (intro whiteout_hides) (simp_all add: canonical_join [OF info(2) n])
    with info show ?thesis by (simp add: ov_lookup_def build_path_def get_inode_info_def and_then_def action_defs)
  qed
qed

lemma gone_hide:
  assumes "clean_component n" and "canonical dir"
  shows "triple (\<lambda>s. delta_good view s \<and> paths_ok s) (hide_if_visible L B p n (join_path dir n)) (gone L B p n dir)"
  by (rule triple_weaken [OF hide_if_visible_hides [OF assms(1)]]) (use assms(2) in \<open>auto simp: gone_def\<close>)

lemma keeps_conj: "keeps P m \<Longrightarrow> keeps Q m \<Longrightarrow> keeps (\<lambda>s. P s \<and> Q s) m"
  by (auto simp: triple_def split: prod.splits)

lemma gone_removal:
  assumes names: "clean_names d" and n: "clean_component n" and dir: "canonical dir"
    and f: "\<And>now i a. good view a \<Longrightarrow> afs_db a = d \<Longrightarrow> good view (snd (f now i a)) \<and> clean_names (afs_db (snd (f now i a)))"
  shows "triple (\<lambda>s. delta_is view k d s \<and> paths_ok s) (and_then (resolve_delta_parent L info) (\<lambda>q. and_then (case q of
      Some i \<Rightarrow> ignore_not_found (and_then tick (\<lambda>now. delta_call (f now i))) | None \<Rightarrow> ok ()) (\<lambda>_.
      hide_if_visible L B p n (join_path dir n)))) (gone L B p n dir)"
proof (rule triple_then_keep [OF keeps_conj [OF keeps_is_resolve paths.keeps_walks(3)]], simp add: gone_def, rule triple_and_then)
  fix q
  let ?m = "case q of Some i \<Rightarrow> ignore_not_found (and_then tick (\<lambda>now. delta_call (f now i))) | None \<Rightarrow> ok ()"
  have "triple (delta_is view k d) ?m (\<lambda>_. delta_good view)"
    by (intro triple_option triple_ignore triple_then_keep [OF delta_keeps(1)] triple_ok good_delta_call f)
      (auto dest: is_good [OF names])
  moreover have "keeps paths_ok ?m" by (intro triple_intros keeps_ignore paths.keeps_all)
  ultimately show "triple (\<lambda>s. delta_is view k d s \<and> paths_ok s) ?m (\<lambda>_ s. delta_good view s \<and> paths_ok s)"
    by (intro triple_both) (auto intro: triple_weaken)
qed (use gone_hide [OF n dir] in \<open>simp_all add: gone_def\<close>)

text \<open>The checks before a removal, which keep the delta.\<close>

lemma gone_start:
  assumes dir: "canonical dir" and n: "clean_component n"
    and m: "\<And>info. triple (\<lambda>s. delta_is view k d s \<and> paths_ok s) (m info (join_path dir n)) (gone L B p n dir)"
  shows "triple (\<lambda>s. (delta_is view k d s \<and> paths_ok s) \<and> (\<exists>info. ov_inode_map s p = Some info \<and> ii_path info = dir))
    (and_then (get_inode_info p) (\<lambda>info. and_then (build_path p n) (m info))) (gone L B p n dir)"
proof (rule triple_info_then, simp add: gone_def, rule triple_path_then, simp add: gone_def)
  fix info info'
  show "triple (\<lambda>s. (((delta_is view k d s \<and> paths_ok s) \<and> (\<exists>info. ov_inode_map s p = Some info \<and> ii_path info = dir)) \<and>
      ov_inode_map s p = Some info) \<and> ov_inode_map s p = Some info') (m info (join_path (ii_path info') n)) (gone L B p n dir)"
      (is "triple ?P _ _")
  proof (rule triple_assuming)
    show "ii_path info' = dir" if "?P s" for s using that by auto
    show "triple ?P (m info (join_path (ii_path info') n)) (gone L B p n dir)" if "ii_path info' = dir"
      unfolding that by (rule triple_weaken [OF m]) auto
  qed
qed

lemma gone_unlink:
  assumes names: "clean_names d" and n: "clean_component n" and dir: "canonical dir" and bound: "length (fs_dentry d) \<le> 2 ^ 32"
  shows "triple (\<lambda>s. (delta_is view k d s \<and> paths_ok s) \<and> (\<exists>info. ov_inode_map s p = Some info \<and> ii_path info = dir))
    (ov_unlink L B p n) (gone L B p n dir)"
  unfolding ov_unlink_def
proof (rule gone_start [OF dir n])
  have "good view (snd (fs_unlink L now i n a)) \<and> clean_names (afs_db (snd (fs_unlink L now i n a)))"
    if "good view a" "afs_db a = d" for now i a
    using that good_unlink [of a] bound dentry_subset_clean [OF unlink_dentries, of a L now i n] names by simp
  note tail = gone_removal [OF names n dir this]
  show "triple (\<lambda>s. delta_is view k d s \<and> paths_ok s) (and_then (ov_lookup L B p n) (\<lambda>r. and_then (ok_or (Fs NotFound) r) (\<lambda>st.
      if is_directory st then fail (Fs IsADirectory) else
       and_then (resolve_delta_parent L info) (\<lambda>q. and_then (case q of
         Some dpi \<Rightarrow> ignore_not_found (and_then tick (\<lambda>now. delta_call (fs_unlink L now dpi n))) | None \<Rightarrow> ok ()) (\<lambda>_.
       hide_if_visible L B p n (join_path dir n)))))) (gone L B p n dir)" for info
    by (intro triple_then_keep [OF keeps_conj [OF keeps_is_ov_lookup paths_ov_lookup [OF n]]] triple_then_keep [OF keeps_ok_or]
        triple_if triple_fail tail) (auto simp: gone_def)
qed

lemma gone_rmdir:
  assumes names: "clean_names d" and n: "clean_component n" and dir: "canonical dir"
  shows "triple (\<lambda>s. (delta_is view k d s \<and> paths_ok s) \<and> (\<exists>info. ov_inode_map s p = Some info \<and> ii_path info = dir))
    (ov_rmdir L B p n) (gone L B p n dir)"
  unfolding ov_rmdir_def
proof (rule gone_start [OF dir n])
  have "good view (snd (fs_rmdir L now i n a)) \<and> clean_names (afs_db (snd (fs_rmdir L now i n a)))"
    if "good view a" "afs_db a = d" for now i a
    using that good_rmdir [of a] dentry_subset_clean [OF rmdir_dentries, of a L now i n] names by simp
  note tail = gone_removal [OF names n dir this]
  show "triple (\<lambda>s. delta_is view k d s \<and> paths_ok s) (and_then (ov_lookup L B p n) (\<lambda>r. and_then (ok_or (Fs NotFound) r) (\<lambda>st.
      if \<not> is_directory st then fail (Fs NotADirectory) else
       and_then (ov_readdir B (st_ino st)) (\<lambda>entries. if case_option [] id entries \<noteq> [] then fail (Fs NotEmpty) else
       and_then (resolve_delta_parent L info) (\<lambda>q. and_then (case q of
         Some dpi \<Rightarrow> ignore_not_found (and_then tick (\<lambda>now. delta_call (fs_rmdir L now dpi n))) | None \<Rightarrow> ok ()) (\<lambda>_.
       hide_if_visible L B p n (join_path dir n))))))) (gone L B p n dir)" for info
    by (intro triple_then_keep [OF keeps_conj [OF keeps_is_ov_lookup paths_ov_lookup [OF n]]] triple_then_keep [OF keeps_ok_or]
        triple_then_keep [OF keeps_ov_readdir] triple_if triple_fail tail) (auto simp: gone_def)
qed

text \<open>A removal that succeeds.\<close>

lemma removed_is_gone:
  assumes s: "ov_good view s" and info: "ov_inode_map s p = Some info" "ov_inode_map s' p = Some info'" "ii_path info' = ii_path info"
    and n: "clean_component n"
    and res: "ov_unlink L B p n s = (Inr (), s') \<and> length (fs_dentry (afs_db (ov_delta s))) \<le> 2 ^ 32 \<or> ov_rmdir L B p n s = (Inr (), s')"
  shows "fst (ov_lookup L B p n s') = Inr None"
proof -
  obtain k d where d: "delta_is view k d s" "clean_names d" using s by (auto simp: ov_good_def delta_good_iff)
  have dir: "canonical (ii_path info)" using s info(1) by (auto simp: ov_good_def dest: paths_okD)
  have pre: "(delta_is view k d s \<and> paths_ok s) \<and> (\<exists>i. ov_inode_map s p = Some i \<and> ii_path i = ii_path info)"
    using s d info(1) by (simp add: ov_good_def)
  have "gone L B p n (ii_path info) (Inr ()) s'"
    using res tripleD [OF gone_unlink [OF d(2) n dir] pre] tripleD [OF gone_rmdir [OF d(2) n dir] pre] d(1)
    by (auto simp: delta_is_def)
  with info(2,3) show ?thesis by (simp add: gone_def)
qed

end

end
