(* ===== verification/Overlay_Content.thy ===== *)
theory Overlay_Content
  imports Overlay_Behaviour
begin

unbundle bit_operations_syntax

text \<open>
  Listings of the overlay agree with its lookups, and a base file opened for the first time
  reads as the base has it.
\<close>

section \<open>Listings\<close>

text \<open>The base lists the names it finds, as far as plain names within the length limit are concerned.\<close>

definition base_listing :: "'f base_fs \<Rightarrow> bool" where
  "base_listing B \<longleftrightarrow> (\<forall>b r n. clean_component n \<longrightarrow> length n \<le> MAX_NAME_LEN \<longrightarrow> bs_readdir B b = Inr r \<longrightarrow>
     (n \<in> set (case_option [] id r) \<longleftrightarrow> (\<exists>st. bs_lookup B b n = Inr (Some st))))"

lemma child_whiteout_path:
  assumes w: "canonical w" and n: "clean_component n" and child: "child_whiteout dir w = Some n"
  shows "w = join_path dir n"
proof (cases "dir = ''/''")
  case True
  obtain cs where cs: "list_all clean_component cs" "w = path_of cs" using w by (auto simp: canonical_def)
  from child True have trim: "trim_start_matches (CHR ''/'') w = n" "CHR ''/'' \<notin> set n"
    by (auto simp: child_whiteout_def Let_def split: if_splits)
  show ?thesis
  proof (cases cs)
    case Nil
    with trim n cs show ?thesis by (simp add: path_of_def trim_start_matches_def clean_component_def)
  next
    case (Cons c rest)
    have c: "c \<noteq> []" "CHR ''/'' \<notin> set c" using cs(1) Cons by (auto simp: clean_component_def)
    have path: "w = CHR ''/'' # c @ concat (map (\<lambda>c. CHR ''/'' # c) rest)"
      using cs(2) path_of_concat [of cs] Cons by simp
    have "hd c \<noteq> CHR ''/''" using c by (cases c) auto
    then have "dropWhile (\<lambda>x. x = CHR ''/'') w = c @ concat (map (\<lambda>c. CHR ''/'' # c) rest)"
      using c(1) by (cases c) (simp_all add: path)
    with trim have "c @ concat (map (\<lambda>c. CHR ''/'' # c) rest) = n" by (simp add: trim_start_matches_def)
    with trim(2) have "rest = []" "c = n" by (cases rest; auto)+
    with path True show ?thesis by (simp add: join_path_def)
  qed
next
  case False
  with child have "take (length (dir @ ''/'')) w = dir @ ''/''" "drop (length (dir @ ''/'')) w = n"
    by (auto simp: child_whiteout_def strip_prefix_def split: option.splits if_splits)
  then have "w = (dir @ ''/'') @ n" by (metis append_take_drop_id)
  with False show ?thesis by (simp add: join_path_def)
qed

lemma shown_iff:
  assumes paths: "paths_ok s" and can: "canonical (ii_path info)" and n: "clean_component n"
  shows "entry_shown s info n \<longleftrightarrow> \<not> is_whiteout s (join_path (ii_path info) n)"
proof -
  have "is_whiteout s (join_path (ii_path info) n)" if child: "n \<in> get_child_whiteouts s (ii_path info)"
  proof -
    obtain w where w: "w \<in> ov_whiteouts s" "child_whiteout (ii_path info) w = Some n"
      using child by (auto simp: get_child_whiteouts_def Option.these_def)
    have "w = join_path (ii_path info) n"
      using child_whiteout_path [OF _ n w(2)] paths w(1) by (simp add: paths_ok_def)
    with w(1) show ?thesis
      unfolding is_whiteout_def by (intro whiteout_hides) (simp_all add: canonical_join [OF can n])
  qed
  then show ?thesis by (auto simp: entry_shown_def)
qed

lemma delta_listing:
  assumes "wf_db d" and "n \<noteq> []" and "length n \<le> MAX_NAME_LEN"
  shows "n \<in> set (case_option [] id (projr (agentfs_readdir i d))) \<longleftrightarrow> (\<exists>st. child_stats d i n = Inr (Some st))"
proof -
  have "(\<exists>j. ((i, n), j) \<in> set (fs_dentry d)) \<longleftrightarrow> (\<exists>j. map_of (fs_dentry d) (i, n) = Some j)"
    using wf_dbD(2) [OF assms(1)] by (metis keyed_def map_of_eq_Some_iff)
  also have "\<dots> \<longleftrightarrow> (\<exists>st. child_stats d i n = Inr (Some st))"
    using child_stats_None [OF assms(1), of i n] child_stats_Some(1) [of d i n] assms(3)
    by (auto simp: child_stats_def) (metis not_None_eq)
  finally show ?thesis using assms(2) by (force simp: agentfs_readdir_def)
qed

context lru_cache
begin

lemma readdir_lookup:
  assumes s: "ov_good view s" and B: "base_listing B" and info: "ov_inode_map s p = Some info" "ii_layer info = Delta"
    and list: "ov_readdir B p s = (Inr (Some ns), s')" and n: "clean_component n" "length n \<le> MAX_NAME_LEN"
  shows "n \<in> set ns \<longleftrightarrow> (\<exists>st. fst (ov_lookup L B p n s) = Inr (Some st))"
proof -
  obtain k d where d: "delta_is view k d s" using s by (auto simp: ov_good_def delta_good_iff)
  then have wf: "wf_db d" "afs_db (ov_delta s) = d" using goodD(1) by (auto simp: delta_is_def)
  have can: "canonical (ii_path info)" and paths: "paths_ok s" using s info(1) by (auto simp: ov_good_def dest: paths_okD)
  obtain b es where b: "base_dir B info = Inr b" "(case b of Some b \<Rightarrow> bs_readdir B b | None \<Rightarrow> Inr None) = Inr es"
    and ns: "ns = sort (remdups (filter (entry_shown s info) (case_option [] id (projr (agentfs_readdir (ii_ino info) d)) @
      case_option [] id es)))"
  proof -
    obtain es0 where delta: "agentfs_readdir (ii_ino info) d = Inr es0" by (simp add: agentfs_readdir_def)
    let ?es = "\<lambda>b. case b of Some b \<Rightarrow> bs_readdir B b | None \<Rightarrow> Inr None"
    have run: "ov_readdir B p s = and_then (reads (\<lambda>_. base_dir B info)) (\<lambda>b. and_then (reads (\<lambda>_. ?es b)) (\<lambda>es.
        gets (\<lambda>s. Some (sort (remdups (filter (entry_shown s info)
          (case_option [] id (projr (agentfs_readdir (ii_ino info) d)) @ case_option [] id es))))))) s"
      using info wf(2) delta by (simp add: ov_readdir_def and_then_def get_inode_info_def ok_def reads_def)
    obtain b where b: "base_dir B info = Inr b" using run list by (cases "base_dir B info") (simp_all add: fail_def)
    moreover obtain es where "?es b = Inr es" using run list b by (cases "?es b") (simp_all add: fail_def)
    ultimately show thesis using run list that by (simp add: gets_def)
  qed
  have base: "n \<in> set (case_option [] id es) \<longleftrightarrow> (\<exists>st. base_child B info n = Inr (Some st))"
  proof (cases b)
    case (Some bi)
    then have dirb: "base_dir B info = Inr (Some bi)" and listed: "bs_readdir B bi = Inr es" using b by simp_all
    then show ?thesis using B [unfolded base_listing_def, rule_format, OF n listed] by (simp add: base_child_def)
  qed (use b in \<open>simp add: base_child_def\<close>)
  have "n \<in> set ns \<longleftrightarrow> \<not> is_whiteout s (join_path (ii_path info) n) \<and>
      ((\<exists>st. child_stats d (ii_ino info) n = Inr (Some st)) \<or> (\<exists>st. base_child B info n = Inr (Some st)))"
    unfolding ns using delta_listing [OF wf(1) _ n(2), of "ii_ino info"] base shown_iff [OF paths can n(1)] n(1)
    by (auto simp: clean_component_def)
  also have "\<dots> \<longleftrightarrow> (\<exists>st. lookup_answer B d (ov_whiteouts s) info n = Inr (Some st))"
    using info(2) n(2) by (auto simp: lookup_answer_def is_whiteout_def delta_dir_def child_stats_def split: option.splits)
  also have "\<dots> \<longleftrightarrow> (\<exists>st. fst (ov_lookup L B p n s) = Inr (Some st))"
    using ov_lookup_merged [OF d info(1) can n(1), of B "fst (ov_lookup L B p n s)" "snd (ov_lookup L B p n s)"]
      unnumbered_found [of "fst (ov_lookup L B p n s)"] unnumbered_found [of "lookup_answer B d (ov_whiteouts s) info n"]
    by simp
  finally show ?thesis .
qed

end

section \<open>Opening a base file\<close>

context lru_cache
begin

text \<open>
  Opening a regular file of the base that the delta does not have yet gives a handle of the delta
  with the content of the base; the number stays, the files the delta had keep their content.
\<close>

lemma open_copies:
  assumes B: "base_sizes B" and s: "ov_good view s"
    and info: "ov_inode_map s ino = Some info" "ii_layer info = Base"
    and new: "walk (afs_db (ov_delta s)) 1 (path_components (ii_path info)) = None"
    and bst: "bs_getattr B (ii_ino info) = Inr (Some bst)" "is_file bst"
    and res: "ov_open L B ino s = (Inr f, s')"
  shows "\<exists>h c. bs_open_rdonly B (ii_ino info) = Inr h \<and> bs_pread B h 0 (as_u64 (st_size bst)) = Inr c \<and>
    (\<forall>offset want. file_pread f offset want (afs_db (ov_delta s')) = Inr (take want (drop offset c)))"
    and "ov_inode_map s' ino = Some \<lparr>ii_layer = Delta, ii_ino = f_ino f, ii_path = ii_path info\<rparr>"
    and "\<And>i. live (afs_db (ov_delta s)) i \<Longrightarrow> content (afs_chunk_size (ov_delta s)) i (afs_db (ov_delta s')) =
      content (afs_chunk_size (ov_delta s)) i (afs_db (ov_delta s))"
proof -
  obtain k d where d: "delta_is view k d s" using s by (auto simp: ov_good_def delta_good_iff)
  then have db: "afs_db (ov_delta s) = d" "afs_chunk_size (ov_delta s) = k" by (auto simp: delta_is_def)
  have clean: "list_all clean_component (path_components (ii_path info))"
    using s info(1) canonicalD(1) by (auto simp: ov_good_def dest: paths_okD)
  obtain i s1 where copy: "copy_up L B (ii_path info) (ii_ino info) s = (Inr i, s1)"
    and s': "s' = s1\<lparr>ov_inode_map := (ov_inode_map s1)(ino \<mapsto> \<lparr>ii_layer = Delta, ii_ino = i, ii_path = ii_path info\<rparr>),
      ov_reverse_map := (ov_reverse_map s1)((Delta, i) \<mapsto> ino)\<rparr>" and f: "fs_open i (ov_delta s1) = Inr f"
    using res info
    by (auto simp: ov_open_def delta_target_def copy_up_and_update_mapping_def get_inode_info_def and_then_def
        action_defs split: if_splits prod.splits sum.splits)
  from tripleD [OF copy_up_spec [OF B clean] d copy] new bst obtain d' where d': "delta_is view k d' s1"
    "grows (length (path_components (ii_path info))) d d'" "copied B k (ii_ino info) bst d' i"
    by (auto simp: db)
  have db': "afs_db (ov_delta s') = d'" "ov_delta s' = ov_delta s1" using d'(1) by (simp_all add: s' delta_is_def)
  have good: "good view (ov_delta s1)" "afs_chunk_size (ov_delta s1) = k" "afs_db (ov_delta s1) = d'"
    using d'(1) by (auto simp: delta_is_def)
  have handle: "f = \<lparr>f_ino = i, f_chunk_size = k\<rparr>" and live: "live d' i"
    using f good by (auto simp: fs_open_def live_def split: option.splits)
  have kind: "\<not> is_symlink bst" "\<not> is_directory bst"
    using bst(2) by (auto simp: is_file_def is_symlink_def is_directory_def mode_is_def S_IFREG_def S_IFLNK_def S_IFDIR_def)
  obtain h where h: "bs_open_rdonly B (ii_ino info) = Inr h" "bs_pread B h 0 (as_u64 (st_size bst)) = Inr (content k i d')"
    using d'(3) kind by (auto simp: copied_def)
  have "file_inv f d'" using good_file_inv [OF good(1)] live good by (simp add: handle)
  from file_pread_content [OF this] h handle db'
  show "\<exists>h c. bs_open_rdonly B (ii_ino info) = Inr h \<and> bs_pread B h 0 (as_u64 (st_size bst)) = Inr c \<and>
      (\<forall>offset want. file_pread f offset want (afs_db (ov_delta s')) = Inr (take want (drop offset c)))"
    by auto
  show "ov_inode_map s' ino = Some \<lparr>ii_layer = Delta, ii_ino = f_ino f, ii_path = ii_path info\<rparr>"
    by (simp add: s' handle)
  show "content (afs_chunk_size (ov_delta s)) i (afs_db (ov_delta s')) = content (afs_chunk_size (ov_delta s)) i (afs_db (ov_delta s))"
    if "live (afs_db (ov_delta s)) i" for i
    using growsD(5) [OF d'(2)] that by (simp add: db db'(1))
qed

end

end
