(* ===== verification/Overlay_Examples.thy ===== *)
theory Overlay_Examples
  imports Overlay_Content Fs_Examples
begin

text \<open>
  A consistent \<open>AgentFS\<close> is a base that meets what the overlay relies on; small overlays on such a
  base, at which the properties are applied.
\<close>

section \<open>AgentFS as a base\<close>

definition agentfs_base :: "'c lru_ops \<Rightarrow> 'c agentfs \<Rightarrow> agentfs_file base_fs" where
  "agentfs_base L a =
     \<lparr>bs_lookup = (\<lambda>i n. fst (fs_lookup L i n a)),
      bs_getattr = (\<lambda>i. Inr (getattr (afs_db a) i)),
      bs_readlink = (\<lambda>i. fs_readlink i (afs_db a)),
      bs_readdir = (\<lambda>i. fs_readdir i (afs_db a)),
      bs_readdir_plus = (\<lambda>i. fs_readdir_plus i (afs_db a)),
      bs_open_rdonly = (\<lambda>i. fs_open i a),
      bs_pread = (\<lambda>f offset want. file_pread f offset want (afs_db a))\<rparr>"

definition short_links :: "db \<Rightarrow> bool" where
  "short_links d \<longleftrightarrow> list_all (\<lambda>x. length (snd x) < 2 ^ 63) (fs_symlink d)"

lemma agentfs_base_sizes:
  assumes g: "good view a" and "short_links (afs_db a)"
  shows "base_sizes (agentfs_base L a)"
proof -
  have "length c < 2 ^ 63" if "fs_open i a = Inr h" "file_pread h 0 n (afs_db a) = Inr c" for i h n c
  proof -
    have h: "h = \<lparr>f_ino = i, f_chunk_size = afs_chunk_size a\<rparr>" "live (afs_db a) i"
      using that(1) by (auto simp: fs_open_def live_def split: option.splits)
    have inv: "file_inv h (afs_db a)" using good_file_inv [OF g h(2)] by (simp add: h(1))
    have "length c \<le> select_size (afs_db a) (f_ino h)" using file_pread_content [OF inv, of 0 n] that(2) by auto
    with inv show ?thesis by (simp add: file_inv_def)
  qed
  moreover have "length t < 2 ^ 63" if "fs_readlink i (afs_db a) = Inr (Some t)" for i t
    using that assms(2) by (force simp: fs_readlink_def short_links_def list_all_iff split: option.splits if_splits dest: map_of_SomeD)
  ultimately show ?thesis unfolding base_sizes_def agentfs_base_def base_fs.simps by blast
qed

lemma agentfs_base_names:
  assumes "clean_names (afs_db a)"
  shows "base_names (agentfs_base L a)"
proof -
  have "clean_component (de_name e)" if "fs_readdir_plus b (afs_db a) = Inr (Some es)" "e \<in> set es" for b es e
    using that readdir_plus_names [OF assms, of b es e]
    by (auto simp: fs_readdir_plus_def agentfs_readdir_plus_def split: option.splits if_splits)
  then show ?thesis by (auto simp: base_names_def agentfs_base_def)
qed

lemma agentfs_base_listing:
  assumes wf: "wf_db (afs_db a)"
  shows "base_listing (agentfs_base L a)"
proof -
  have "n \<in> set (case_option [] id r) \<longleftrightarrow> (\<exists>st. fst (fs_lookup L b n a) = Inr (Some st))"
    if n: "clean_component n" "length n \<le> MAX_NAME_LEN" and r: "fs_readdir b (afs_db a) = Inr r" for b r n
  proof -
    have look: "fst (fs_lookup L b n a) = child_stats (afs_db a) b n"
      using fs_lookup_result [OF wf, of n] n(1) by (simp add: clean_component_def)
    show ?thesis
    proof (cases "select_inode (afs_db a) b")
      case None
      then have "map_of (fs_dentry (afs_db a)) (b, n) = None"
        using wf_dbD(7) [OF wf, of "(b, n)"] by (cases "map_of (fs_dentry (afs_db a)) (b, n)") (auto simp: dentry_ok_def is_dir_ino_def)
      with None r look show ?thesis by (auto simp: fs_readdir_def child_stats_def)
    next
      case (Some row)
      then have "agentfs_readdir b (afs_db a) = Inr r" using r by (auto simp: fs_readdir_def agentfs_readdir_def split: if_splits)
      with delta_listing [OF wf _ n(2), of b] look n(1) show ?thesis by (auto simp: clean_component_def)
    qed
  qed
  then show ?thesis by (simp add: base_listing_def agentfs_base_def)
qed

section \<open>A base with a file and a directory\<close>

definition demo_base_calls :: "fs_call list" where
  "demo_base_calls =
     [Mkdir (1, 0) 1 ''d'' 493 0 0, Create_File (2, 0) 2 ''g'' 420 5 6, Write (3, 0) 3 0 [4, 5],
      Create_File (4, 0) 1 ''f'' 420 5 6, Write (5, 0) 4 0 [1, 2, 3]]"

definition demo_base_fs :: "(dentry_key \<times> i64) list agentfs" where
  "demo_base_fs = fold (run_call demo_lru) demo_base_calls demo_start"

definition demo_base :: "agentfs_file base_fs" where
  "demo_base = agentfs_base demo_lru demo_base_fs"

definition demo_clock :: "nat \<Rightarrow> timestamp" where
  "demo_clock n = (100 + int n, 0)"

definition demo_overlay :: "(dentry_key \<times> i64) list overlayfs" where
  "demo_overlay = ov_mount ''/b'' demo_clock demo_start"

lemma demo_base_reachable: "reachable demo_lru demo_start demo_base_fs"
  unfolding demo_base_fs_def
proof (rule reachable_calls)
  show "calls_ok demo_lru demo_base_calls demo_start" by code_simp
qed (rule reachable.start)

lemma demo_base_good: "good map_of demo_base_fs"
  by (rule lru_cache.reachable_good [OF demo_lru_cache demo_base_reachable [unfolded demo_start_def]
      lru_cache.good_from_pool [OF demo_lru_cache demo_empty]])

lemma demo_base_ok: "base_sizes demo_base" "base_names demo_base" "base_listing demo_base"
proof -
  have "short_links (afs_db demo_base_fs)" "clean_names (afs_db demo_base_fs)" by code_simp+
  then show "base_sizes demo_base" "base_names demo_base" "base_listing demo_base"
    unfolding demo_base_def
    by (simp_all add: agentfs_base_sizes [OF demo_base_good] agentfs_base_names agentfs_base_listing [OF goodD(1) [OF demo_base_good]])
qed

section \<open>Overlays\<close>

text \<open>A base file is opened for writing, another one removed, a directory made.\<close>

definition demo_ov_calls :: "ov_call list" where
  "demo_ov_calls =
     [Ov_Lookup 1 ''f'', Ov_Open 2, Ov_Lookup 1 ''d'', Ov_Lookup 3 ''g'', Ov_Unlink 3 ''g'', Ov_Mkdir 1 ''e'' 493 0 0]"

definition demo_ov_run :: "(dentry_key \<times> i64) list overlayfs" where
  "demo_ov_run = fold (run_ov_call demo_lru demo_base) demo_ov_calls demo_overlay"

lemma demo_ov_reachable: "ov_reachable demo_lru [] {demo_base} demo_overlay demo_ov_run"
  unfolding demo_ov_run_def
proof (rule ov_reachable_calls)
  show "demo_base \<in> {demo_base}" by simp
  show "ov_calls_ok demo_lru demo_base demo_ov_calls demo_overlay" by code_simp
qed (rule ov_reachable.start)

text \<open>What the states of the examples are, evaluated once.\<close>

lemma demo_ov_state:
  "let s = demo_ov_run; unlinked = ov_unlink demo_lru demo_base 1 ''f'' s in
   ov_inode_map s 1 = Some \<lparr>ii_layer = Delta, ii_ino = 1, ii_path = ''/''\<rparr> \<and>
   ov_inode_map s 3 = Some \<lparr>ii_layer = Base, ii_ino = 2, ii_path = ''/d''\<rparr> \<and>
   fs_whiteout s = [(''/d/g'', 102)] \<and> fs_origin s = [(2, 4)] \<and> ov_whiteouts s = {''/d/g''} \<and>
   map fst (fs_dentry (afs_db (ov_delta s))) = [(1, ''f''), (1, ''e'')] \<and>
   fst (ov_readdir demo_base 1 s) = Inr (Some [''d'', ''e'', ''f'']) \<and>
   fst (ov_lookup demo_lru demo_base 1 ''f'' s) \<noteq> Inr None \<and>
   fst unlinked = Inr () \<and> ov_inode_map (snd unlinked) 1 = Some \<lparr>ii_layer = Delta, ii_ino = 1, ii_path = ''/''\<rparr>"
  by code_simp

lemmas demo_ov_facts = demo_ov_state [unfolded Let_def, THEN conjunct1]
  demo_ov_state [unfolded Let_def, THEN conjunct2, THEN conjunct1]
  demo_ov_state [unfolded Let_def, THEN conjunct2, THEN conjunct2]

lemma demo_names: "clean_component ''d''" "clean_component ''e''" "clean_component ''f''" "clean_component ''g''"
  by (simp_all add: clean_component_def)

text \<open>The file and the directory of the base have been looked up and nothing has been changed.\<close>

definition demo_ov_seen :: "(dentry_key \<times> i64) list overlayfs" where
  "demo_ov_seen = fold (run_ov_call demo_lru demo_base) [Ov_Lookup 1 ''f'', Ov_Lookup 1 ''d''] demo_overlay"

lemma demo_seen_reachable: "ov_reachable demo_lru [] {demo_base} demo_overlay demo_ov_seen"
  unfolding demo_ov_seen_def
proof (rule ov_reachable_calls)
  show "demo_base \<in> {demo_base}" by simp
  show "ov_calls_ok demo_lru demo_base [Ov_Lookup 1 ''f'', Ov_Lookup 1 ''d''] demo_overlay" by code_simp
qed (rule ov_reachable.start)

lemma demo_seen_state:
  "let s = demo_ov_seen in
   ov_inode_map s 2 = Some \<lparr>ii_layer = Base, ii_ino = 4, ii_path = ''/f''\<rparr> \<and>
   walk (afs_db (ov_delta s)) 1 [''f''] = None \<and>
   fst (ov_open demo_lru demo_base 2 s) = Inr \<lparr>f_ino = 2, f_chunk_size = 4096\<rparr>"
  by code_simp

text \<open>The overlay after its calls, opened again by another process.\<close>

definition demo_ov_again :: "(dentry_key \<times> i64) list overlayfs" where
  "demo_ov_again = ov_remount 0 0 (300, 0) [] None demo_clock demo_ov_run"

lemma demo_again_reachable: "ov_reachable demo_lru [] {demo_base} demo_overlay demo_ov_again"
  unfolding demo_ov_again_def
proof (rule ov_reachable.remount [OF demo_ov_reachable])
  show "read_chunk_size (initialize_schema 0 0 (300, 0) (afs_db (ov_delta demo_ov_run))) = afs_chunk_size (ov_delta demo_ov_run)"
    by code_simp
qed

lemma demo_again_state:
  "ov_whiteouts demo_ov_again = {''/d/g''} \<and> ov_origin_map demo_ov_again 2 = Some 4 \<and>
   ov_inode_map demo_ov_again 3 = None \<and> dentry_cache (ov_delta demo_ov_again) = []"
  by code_simp

end
