(* ===== verification/Overlay_Contract.thy ===== *)
theory Overlay_Contract
  imports Overlay_Examples
begin

text \<open>
  The properties of the overlay in the states its users reach: from a new overlay on a new delta
  by sequences of calls and writes through its handles that meet their side conditions, and of remounts.
\<close>

section \<open>States that calls can reach\<close>

lemma reached_good:
  assumes "lru_cache L view" and "view cache = Map.empty" and "\<forall>B\<in>Bs. base_sizes B \<and> base_names B"
    and "ov_reachable L cache Bs (ov_mount base_path clock (from_pool uid gid now cache epoch empty_db)) s"
  shows "ov_good view s"
  by (rule lru_cache.ov_reachable_good [OF assms(1,3,2,4) ov_good_new [OF assms(1,2)]])

lemma demo_bases: "\<forall>B\<in>{demo_base}. base_sizes B \<and> base_names B" "demo_base \<in> {demo_base}"
  by (simp_all add: demo_base_ok)

lemmas demo_ov_reached = demo_lru_cache demo_empty demo_bases demo_ov_reachable [unfolded demo_overlay_def demo_start_def]

text \<open>
  C12. An overlay on a new delta serves calls in any order, whichever of them fail and whatever the base answers, each of
  which meets its side condition \<open>ov_call_ok\<close> in the state it is served in: names are plain components, a parent that the delta
  holds is a directory, a rename changes the name or moves it between two different directories that the
  delta holds (\<open>rename_ok\<close>), writes and truncations go to files of the delta that still exist, symlink
  targets, end offsets and sizes are below 2 to the power 63, and there are at most 2 to the power 32 entries at an unlink or
  rename (with the depths of the two paths, at a rename). It is remounted between them, with the delta opened again with an empty cache. The names that the bases list are plain
  components, and their files and symlink targets are shorter than 2 to the power 63.

  Then in every state the maps of its inode numbers agree with each other, the whiteouts and origins in memory are those of
  the tables, every number stands for a path of plain components, and the delta is a consistent AgentFS. The code does
  not check these conditions; a write to a file without names, or a rename of a name of the delta to itself, breaks the tables of the
  delta as it does in an AgentFS.
\<close>

theorem ov_reachable_consistent:
  assumes "lru_cache L view" and "view cache = Map.empty" and "\<forall>B\<in>Bs. base_sizes B \<and> base_names B"
    and "ov_reachable L cache Bs (ov_mount base_path clock (from_pool uid gid now cache epoch empty_db)) s"
  shows "numbers_ok s \<and> tables_ok s \<and> paths_ok s \<and> wf_db (afs_db (ov_delta s)) \<and>
    data_ok (afs_chunk_size (ov_delta s)) (afs_db (ov_delta s)) \<and> coherent view (ov_delta s)"
  using reached_good [OF assms] by (simp add: ov_good_def ov_ok_def delta_good_def good_def)

theorem ov_reachable_consistent_witness:
  "numbers_ok demo_ov_again \<and> tables_ok demo_ov_again \<and> wf_db (afs_db (ov_delta demo_ov_again)) \<and>
   ov_whiteouts demo_ov_again = {''/d/g''} \<and> ov_origin_map demo_ov_again 2 = Some 4"
  using ov_reachable_consistent [OF demo_lru_cache demo_empty demo_bases(1)
      demo_again_reachable [unfolded demo_overlay_def demo_start_def]] demo_again_state by blast

section \<open>The merged tree\<close>

text \<open>
  C13. A lookup answers what the merged tree has: nothing when the path of the name or of a directory above it has a
  whiteout; otherwise what the delta has at the place of the directory; otherwise what the base has there. The place is given by
  the record of the number: the recorded inode in the recorded layer, and in the other layer what is found by following
  the names of the path from the root, in the delta through directories only. Only the inode number of the answer is
  the overlay's own. The name is a plain component, and the state is reached as in the previous property.
\<close>

theorem ov_lookup_refines_merge:
  assumes "lru_cache L view" and "view cache = Map.empty" and "\<forall>B\<in>Bs. base_sizes B \<and> base_names B" and "B \<in> Bs"
    and "ov_reachable L cache Bs (ov_mount base_path clock (from_pool uid gid now cache epoch empty_db)) s"
    and "ov_inode_map s p = Some info" and "clean_component n"
  shows "\<exists>cs. list_all clean_component cs \<and> ii_path info = path_of cs \<and>
    unnumbered (fst (ov_lookup L B p n s)) = unnumbered (merged_child B (afs_db (ov_delta s)) (ov_whiteouts s) info cs n)"
proof -
  have g: "ov_good view s" by (rule reached_good [OF assms(1-3,5)])
  then obtain k d where d: "delta_is view k d s" by (auto simp: ov_good_def delta_good_iff)
  have can: "canonical (ii_path info)" using g assms(6) by (auto simp: ov_good_def dest: paths_okD)
  then obtain cs where cs: "list_all clean_component cs" "ii_path info = path_of cs" by (auto simp: canonical_def)
  obtain r s' where "ov_lookup L B p n s = (r, s')" by fastforce
  with lru_cache.ov_lookup_merged [OF assms(1) d assms(6) can assms(7) this] d
  have "unnumbered (fst (ov_lookup L B p n s)) = unnumbered (lookup_answer B (afs_db (ov_delta s)) (ov_whiteouts s) info n)"
    by (simp add: delta_is_def)
  then show ?thesis using lookup_answer_merged [OF cs assms(7)] cs by metis
qed

theorem ov_lookup_refines_merge_witness:
  "unnumbered (fst (ov_lookup demo_lru demo_base 3 ''g'' demo_ov_run)) = Inr None"
proof -
  let ?info = "\<lparr>ii_layer = Base, ii_ino = 2, ii_path = ''/d''\<rparr>"
  obtain cs where cs: "list_all clean_component cs" "ii_path ?info = path_of cs"
    and look: "unnumbered (fst (ov_lookup demo_lru demo_base 3 ''g'' demo_ov_run)) =
      unnumbered (merged_child demo_base (afs_db (ov_delta demo_ov_run)) (ov_whiteouts demo_ov_run) ?info cs ''g'')"
    using ov_lookup_refines_merge [OF demo_ov_reached demo_ov_facts(2) demo_names(4)] by blast
  have "path_of [''d''] = ''/d''" by code_simp
  then have "cs = [''d'']" using cs path_components_path_of [OF cs(1)] path_components_path_of [of "[''d'']"] demo_names(1) by simp
  moreover have "covered {''/d/g''} [''d'', ''g'']" by code_simp
  ultimately show ?thesis using look demo_ov_facts(3) by (simp add: merged_child_def)
qed

text \<open>
  C14. A directory that the delta holds is listed in order and without repetition, and exactly the
  names that a lookup finds are listed.
\<close>

theorem ov_readdir_agrees_with_lookup:
  assumes "lru_cache L view" and "view cache = Map.empty" and "\<forall>B\<in>Bs. base_sizes B \<and> base_names B" and "B \<in> Bs"
    and "ov_reachable L cache Bs (ov_mount base_path clock (from_pool uid gid now cache epoch empty_db)) s"
    and "base_listing B" and "ov_inode_map s p = Some info" and "ii_layer info = Delta"
    and "ov_readdir B p s = (Inr (Some ns), s')" and "clean_component n" and "length n \<le> MAX_NAME_LEN"
  shows "sorted ns \<and> distinct ns \<and> s' = s \<and> (n \<in> set ns \<longleftrightarrow> (\<exists>st. fst (ov_lookup L B p n s) = Inr (Some st)))"
proof -
  have "sorted ns \<and> distinct ns \<and> s' = s"
    using assms(7,9) by (auto simp: ov_readdir_def get_inode_info_def and_then_def action_defs split: prod.splits sum.splits option.splits)
  with lru_cache.readdir_lookup [OF assms(1) reached_good [OF assms(1-3,5)] assms(6-11)] show ?thesis by simp
qed

theorem ov_readdir_agrees_with_lookup_witness:
  "fst (ov_readdir demo_base 1 demo_ov_run) = Inr (Some [''d'', ''e'', ''f'']) \<and>
   (\<exists>st. fst (ov_lookup demo_lru demo_base 1 ''e'' demo_ov_run) = Inr (Some st))"
proof -
  have len: "length ''e'' \<le> MAX_NAME_LEN" by (simp add: MAX_NAME_LEN_def)
  obtain s' where run: "ov_readdir demo_base 1 demo_ov_run = (Inr (Some [''d'', ''e'', ''f'']), s')"
    using demo_ov_facts(3) by (metis prod.collapse)
  have layer: "ii_layer \<lparr>ii_layer = Delta, ii_ino = 1, ii_path = ''/''\<rparr> = Delta" by simp
  from ov_readdir_agrees_with_lookup [OF demo_ov_reached demo_base_ok(3) demo_ov_facts(1) layer run demo_names(2) len] run
  show ?thesis by simp
qed

section \<open>Removal\<close>

text \<open>
  C15. A name that was removed is gone, whichever layers had it: after \<open>unlink\<close> or \<open>rmdir\<close> succeeded a
  lookup finds nothing.
\<close>

theorem ov_removed_is_gone:
  assumes "lru_cache L view" and "view cache = Map.empty" and "\<forall>B\<in>Bs. base_sizes B \<and> base_names B" and "B \<in> Bs"
    and "ov_reachable L cache Bs (ov_mount base_path clock (from_pool uid gid now cache epoch empty_db)) s"
    and "ov_inode_map s p = Some info" and "clean_component n"
    and "length (fs_dentry (afs_db (ov_delta s))) \<le> 2 ^ 32"
    and "ov_unlink L B p n s = (Inr (), s') \<or> ov_rmdir L B p n s = (Inr (), s')"
    and "ov_inode_map s' p = Some info'" and "ii_path info' = ii_path info"
  shows "fst (ov_lookup L B p n s') = Inr None"
  by (rule lru_cache.removed_is_gone [OF assms(1) reached_good [OF assms(1-3,5)] assms(6,10,11,7)]) (use assms(8,9) in blast)

theorem ov_removed_is_gone_witness:
  "fst (ov_lookup demo_lru demo_base 1 ''f'' demo_ov_run) \<noteq> Inr None \<and>
   fst (ov_lookup demo_lru demo_base 1 ''f'' (snd (ov_unlink demo_lru demo_base 1 ''f'' demo_ov_run))) = Inr None"
proof -
  let ?s' = "snd (ov_unlink demo_lru demo_base 1 ''f'' demo_ov_run)"
  note facts = demo_ov_facts(3)
  have "length (map fst (fs_dentry (afs_db (ov_delta demo_ov_run)))) = 2" using facts by simp
  then have len: "length (fs_dentry (afs_db (ov_delta demo_ov_run))) \<le> 2 ^ 32" by simp
  have run: "ov_unlink demo_lru demo_base 1 ''f'' demo_ov_run = (Inr (), ?s')" using facts by (metis prod.collapse)
  have m: "ov_inode_map ?s' 1 = Some \<lparr>ii_layer = Delta, ii_ino = 1, ii_path = ''/''\<rparr>" using facts by blast
  from ov_removed_is_gone [OF demo_ov_reached demo_ov_facts(1) demo_names(3) len disjI1 [OF run] m refl] facts
  show ?thesis by blast
qed

section \<open>Copy-up\<close>

text \<open>
  C16. Opening a regular file of the base for the first time gives a handle that reads, at every
  offset, what the base returned for the file; the inode number is the same and now stands for
  the copy, and no file that the delta had changes.
\<close>

theorem ov_open_reads_base:
  assumes "lru_cache L view" and "view cache = Map.empty" and "\<forall>B\<in>Bs. base_sizes B \<and> base_names B" and "B \<in> Bs"
    and "ov_reachable L cache Bs (ov_mount base_path clock (from_pool uid gid now cache epoch empty_db)) s"
    and "ov_inode_map s ino = Some info" and "ii_layer info = Base"
    and "walk (afs_db (ov_delta s)) 1 (path_components (ii_path info)) = None"
    and "bs_getattr B (ii_ino info) = Inr (Some bst)" and "is_file bst" and "ov_open L B ino s = (Inr f, s')"
  shows "\<exists>h c. bs_open_rdonly B (ii_ino info) = Inr h \<and> bs_pread B h 0 (as_u64 (st_size bst)) = Inr c \<and>
    (\<forall>offset want. file_pread f offset want (afs_db (ov_delta s')) = Inr (take want (drop offset c))) \<and>
    ov_inode_map s' ino = Some \<lparr>ii_layer = Delta, ii_ino = f_ino f, ii_path = ii_path info\<rparr> \<and>
    (\<forall>i. live (afs_db (ov_delta s)) i \<longrightarrow> content (afs_chunk_size (ov_delta s)) i (afs_db (ov_delta s')) =
       content (afs_chunk_size (ov_delta s)) i (afs_db (ov_delta s)))"
proof -
  have base_ok: "base_sizes B" using assms(3,4) by blast
  note copied = lru_cache.open_copies [OF assms(1) base_ok reached_good [OF assms(1-3,5)] assms(6-11)]
  from copied(1) obtain h c where "bs_open_rdonly B (ii_ino info) = Inr h" "bs_pread B h 0 (as_u64 (st_size bst)) = Inr c"
    "\<forall>offset want. file_pread f offset want (afs_db (ov_delta s')) = Inr (take want (drop offset c))" by blast
  with copied(2,3) show ?thesis by blast
qed

theorem ov_open_reads_base_witness:
  "\<exists>f s'. ov_open demo_lru demo_base 2 demo_ov_seen = (Inr f, s') \<and>
     file_pread f 1 9 (afs_db (ov_delta s')) = Inr [2, 3] \<and> ov_inode_map s' 2 = Some \<lparr>ii_layer = Delta, ii_ino = f_ino f, ii_path = ''/f''\<rparr>"
proof -
  let ?i = "\<lparr>ii_layer = Base, ii_ino = 4, ii_path = ''/f''\<rparr>"
  let ?h = "\<lparr>f_ino = 4, f_chunk_size = 4096\<rparr>"
  let ?bst = "the (projr (bs_getattr demo_base 4))"
  have base: "bs_getattr demo_base (ii_ino ?i) = Inr (Some ?bst)" "is_file ?bst" "bs_open_rdonly demo_base 4 = Inr ?h"
      "bs_pread demo_base ?h 0 (as_u64 (st_size ?bst)) = Inr [1, 2, 3]"
    by code_simp+
  have "path_components ''/f'' = [''f'']" by code_simp
  then have h: "ov_inode_map demo_ov_seen 2 = Some ?i" "walk (afs_db (ov_delta demo_ov_seen)) 1 (path_components (ii_path ?i)) = None"
    and r: "fst (ov_open demo_lru demo_base 2 demo_ov_seen) = Inr \<lparr>f_ino = 2, f_chunk_size = 4096\<rparr>"
    using demo_seen_state unfolding Let_def by simp_all
  obtain s' where run: "ov_open demo_lru demo_base 2 demo_ov_seen = (Inr \<lparr>f_ino = 2, f_chunk_size = 4096\<rparr>, s')"
    using r by (metis prod.collapse)
  have layer: "ii_layer ?i = Base" by simp
  from ov_open_reads_base [OF demo_lru_cache demo_empty demo_bases
      demo_seen_reachable [unfolded demo_overlay_def demo_start_def] h(1) layer h(2) base(1,2) run]
  obtain h c where c: "bs_open_rdonly demo_base (ii_ino ?i) = Inr h" "bs_pread demo_base h 0 (as_u64 (st_size ?bst)) = Inr c"
    and reads: "\<forall>offset want. file_pread \<lparr>f_ino = 2, f_chunk_size = 4096\<rparr> offset want (afs_db (ov_delta s')) = Inr (take want (drop offset c))"
    and number: "ov_inode_map s' 2 = Some \<lparr>ii_layer = Delta, ii_ino = f_ino \<lparr>f_ino = 2, f_chunk_size = 4096\<rparr>, ii_path = ii_path ?i\<rparr>"
    by (elim exE conjE) (rule that)
  have "h = ?h" using c(1) base(3) by simp
  then have "c = [1, 2, 3]" using c(2) base(4) by simp
  with reads have "file_pread \<lparr>f_ino = 2, f_chunk_size = 4096\<rparr> 1 9 (afs_db (ov_delta s')) = Inr [2, 3]" by simp
  moreover have "ov_inode_map s' 2 = Some \<lparr>ii_layer = Delta, ii_ino = f_ino \<lparr>f_ino = 2, f_chunk_size = 4096\<rparr>, ii_path = ''/f''\<rparr>"
    using number by simp
  ultimately show ?thesis using run by blast
qed

section \<open>Where the merged tree is not what a user expects\<close>

text \<open>
  Renaming a directory of the base copies the directory and not what is in it: the renamed
  directory is empty, and the file that was in it is found neither at the new place nor at the
  old one, although the call reports success.
\<close>

theorem ov_rename_loses_base_children:
  "let s = demo_ov_seen; renamed = ov_rename demo_lru demo_base 1 ''d'' 1 ''e'' s;
       s' = snd (ov_lookup demo_lru demo_base 1 ''e'' (snd renamed))
   in fst (ov_lookup demo_lru demo_base 3 ''g'' s) \<noteq> Inr None \<and> fst renamed = Inr () \<and>
      fst (ov_readdir demo_base 1 s') = Inr (Some [''e'', ''f'']) \<and>
      map_option ii_path (ov_inode_map s' 3) = Some ''/e'' \<and> fst (ov_readdir demo_base 3 s') = Inr (Some []) \<and>
      fst (ov_lookup demo_lru demo_base 3 ''g'' s') = Inr None"
  by code_simp

text \<open>
  The whiteout that a rename leaves at the old place of a directory hides the files the base
  has there only until a directory of that name is made again: the new directory shows them.
\<close>

theorem ov_mkdir_uncovers_base_children:
  "let s = snd (ov_rename demo_lru demo_base 1 ''d'' 1 ''e'' demo_ov_seen);
       made = ov_mkdir demo_lru demo_base 1 ''d'' 493 0 0 s
   in fst (ov_lookup demo_lru demo_base 1 ''d'' s) = Inr None \<and> map_sum id st_ino (fst made) = Inr 4 \<and>
      fst (ov_readdir demo_base 4 (snd made)) = Inr (Some [''g''])"
  by code_simp

text \<open>
  After a remount \<open>readdir_plus\<close> gives a copied-up file the number of its base inode: the listing
  has the size of the modified file, but \<open>getattr\<close> of the number it gives answers with the size
  that the file has in the base.
\<close>

theorem ov_readdir_plus_number_is_stale:
  "let s = fold (run_ov_call demo_lru demo_base) [Ov_Open 2, Ov_Write (200, 0) 2 3 [7, 8]] demo_ov_seen;
       listed = ov_readdir_plus demo_base 1 (ov_remount 0 0 (300, 0) [] None demo_clock s)
   in map_sum id (map_option (map (\<lambda>e. (de_name e, st_ino (de_stats e), st_size (de_stats e))))) (fst listed) =
        Inr (Some [(''d'', 2, 0), (''f'', 3, 5)]) \<and>
      map_sum id (map_option st_size) (fst (ov_getattr demo_base 3 (snd listed))) = Inr (Some 3)"
  by code_simp

end
