(* ===== verification/Json_Values.thy ===== *)
theory Json_Values
  imports Rust_Text
begin

text \<open>
  JSON as the sources see it. It is parsed and printed by the crate \<open>serde_json\<close>, which is a
  parameter: the record \<open>json_lib\<close> has the two functions the code calls. The keys of an object
  are the keys of a map, so that a lookup finds one value.
\<close>

section \<open>JSON values\<close>

datatype json =
    JNull
  | JBool bool
  | JNumber string
  | JString string
  | JArray "json list"
  | JObject "(string \<times> json) list"

record json_lib =
  json_from_str :: "string \<Rightarrow> json option"
  json_to_string :: "json \<Rightarrow> string option"

text \<open>\<open>Value::get\<close>, \<open>as_str\<close>, \<open>as_object\<close>.\<close>

definition json_get :: "string \<Rightarrow> json \<Rightarrow> json option" where
  "json_get k j = (case j of JObject kvs \<Rightarrow> map_of kvs k | _ \<Rightarrow> None)"

definition as_str :: "json \<Rightarrow> string option" where
  "as_str j = (case j of JString s \<Rightarrow> Some s | _ \<Rightarrow> None)"

definition as_object :: "json \<Rightarrow> (string \<times> json) list option" where
  "as_object j = (case j of JObject kvs \<Rightarrow> Some kvs | _ \<Rightarrow> None)"

definition json_ok :: "json_lib \<Rightarrow> string \<Rightarrow> bool" where
  "json_ok J s \<longleftrightarrow> json_from_str J s \<noteq> None"

end
