(* ===== verification/Appfs_Shared.thy ===== *)
theory Appfs_Shared
  imports Json_Values
begin

unbundle bit_operations_syntax

text \<open>
  The helpers of the AppFS runtime, \<open>appfs/cli/src/cmd/appfs/shared.rs\<close>, and the data of
  \<open>appfs.rs\<close> they work on: decoding of the lines of an action sink, recovery of payloads that
  a shell broke into several lines, templates, safe paths, short names.

  JSON comes from \<open>Json_Values\<close>.
\<close>

section \<open>Data of the runtime\<close>

definition ACTION_CURSOR_PROBE_WINDOW :: nat where "ACTION_CURSOR_PROBE_WINDOW = 64"
definition MAX_RECOVERY_LINES :: nat where "MAX_RECOVERY_LINES = 32"
definition MAX_RECOVERY_BYTES :: nat where "MAX_RECOVERY_BYTES = 65536"
definition MAX_SEGMENT_BYTES :: nat where "MAX_SEGMENT_BYTES = 255"

definition ALLOWED_SEGMENT_CHARS :: string where
  "ALLOWED_SEGMENT_CHARS = ''abcdefghijklmnopqrstuvwxyzABCDEFGHIJKLMNOPQRSTUVWXYZ0123456789._-~''"

definition ERR_INVALID_ARGUMENT :: string where "ERR_INVALID_ARGUMENT = ''INVALID_ARGUMENT''"
definition ERR_INVALID_PAYLOAD :: string where "ERR_INVALID_PAYLOAD = ''INVALID_PAYLOAD''"

datatype process_outcome = Consumed | RetryPending
datatype execution_mode = Inline | Streaming
datatype input_mode = Json

record action_spec =
  as_template :: string
  as_input_mode :: input_mode
  as_execution_mode :: execution_mode
  as_max_payload_bytes :: "nat option"

section \<open>Hashes and short names\<close>

definition fnv_step :: "byte \<Rightarrow> 64 word \<Rightarrow> 64 word" where
  "fnv_step b h = (h XOR ucast b) * 0x100000001b3"

definition fnv1a_64 :: "byte list \<Rightarrow> 64 word" where
  "fnv1a_64 input = fold fnv_step input 0xcbf29ce484222325"

text \<open>The bytes of a string, and \<open>format!("{hash:016x}")\<close>.\<close>

definition as_bytes :: "string \<Rightarrow> byte list" where
  "as_bytes s = map (\<lambda>c. word_of_nat (code c)) s"

definition hex_digit :: "nat \<Rightarrow> char" where
  "hex_digit n = char_of (if n < 10 then 48 + n else 87 + n)"

definition hex16 :: "64 word \<Rightarrow> string" where
  "hex16 h = map (\<lambda>i. hex_digit (unat h div 16 ^ (15 - i) mod 16)) [0..<16]"

definition boundary_probe_from_bytes :: "byte list \<Rightarrow> u64 \<Rightarrow> string option" where
  "boundary_probe_from_bytes bytes offset =
     (if offset = 0 then None
      else let e = min offset (length bytes)
           in if e = 0 then None
              else Some (hex16 (fnv1a_64 (drop (e - ACTION_CURSOR_PROBE_WINDOW) (take e bytes)))))"

fun shorten_prefix :: "nat \<Rightarrow> nat \<Rightarrow> string list \<Rightarrow> string" where
  "shorten_prefix budget used [] = []"
| "shorten_prefix budget used (ch # chs) =
     (if budget < used + length ch then [] else ch @ shorten_prefix budget (used + length ch) chs)"

definition deterministic_shorten_segment :: "string \<Rightarrow> nat \<Rightarrow> string" where
  "deterministic_shorten_segment segment max_bytes =
     (if length segment \<le> max_bytes then segment
      else let hash = hex16 (fnv1a_64 (as_bytes segment));
               suffix = ''_'' @ hash;
               prefix_budget = max_bytes - length suffix;
               prefix = shorten_prefix prefix_budget 0 (chars segment)
           in if prefix = [] then hash else prefix @ suffix)"

definition normalize_runtime_handle_id :: "string \<Rightarrow> string" where
  "normalize_runtime_handle_id handle_id = deterministic_shorten_segment handle_id MAX_SEGMENT_BYTES"

definition is_handle_format_valid :: "string \<Rightarrow> bool" where
  "is_handle_format_valid handle_id \<longleftrightarrow> starts_with ''ph_'' handle_id \<and>
     list_all (\<lambda>ch. length ch = 1 \<and>
       (is_ascii_alphabetic (hd ch) \<or> is_ascii_digit (hd ch) \<or> hd ch \<in> set ''_-.'')) (chars handle_id)"

section \<open>Lines of an action sink\<close>

text \<open>\<open>char::decode_utf16\<close> on code units; \<open>None\<close> for an unpaired surrogate.\<close>

fun decode_utf16 :: "nat list \<Rightarrow> string option" where
  "decode_utf16 [] = Some []"
| "decode_utf16 (u # us) =
     (if u < 55296 \<or> 57344 \<le> u then map_option (\<lambda>s. encode_utf8 u @ s) (decode_utf16 us)
      else if 56320 \<le> u then None
      else case us of
             [] \<Rightarrow> None
           | v # vs \<Rightarrow>
               if 56320 \<le> v \<and> v < 57344
               then map_option (\<lambda>s. encode_utf8 (65536 + (u - 55296) * 1024 + (v - 56320)) @ s) (decode_utf16 vs)
               else None)"

fun utf16_units :: "bool \<Rightarrow> byte list \<Rightarrow> nat list" where
  "utf16_units le (a # b # r) = (if le then unat a + 256 * unat b else 256 * unat a + unat b) # utf16_units le r"
| "utf16_units le _ = []"

fun odd_bytes :: "byte list \<Rightarrow> byte list" where
  "odd_bytes (a # b # r) = b # odd_bytes r"
| "odd_bytes _ = []"

fun even_bytes :: "byte list \<Rightarrow> byte list" where
  "even_bytes (a # b # r) = a # even_bytes r"
| "even_bytes [a] = [a]"
| "even_bytes [] = []"

definition count_zeros :: "byte list \<Rightarrow> nat" where
  "count_zeros bs = length (filter (\<lambda>b. b = 0) bs)"

definition try_decode_utf16_line :: "byte list \<Rightarrow> bool \<Rightarrow> string option" where
  "try_decode_utf16_line sl allow_bom =
     (if 0 \<notin> set sl then None
      else let le_bom = (allow_bom \<and> take 2 sl = [0xFF, 0xFE]);
               be_bom = (allow_bom \<and> take 2 sl = [0xFE, 0xFF]);
               bytes = (if le_bom \<or> be_bom then drop 2 sl else sl)
           in if bytes = [] then Some []
              else if odd (length bytes) then None
              else let pair_count = length bytes div 2;
                       endian = (if le_bom then Some True else if be_bom then Some False
                                 else if pair_count \<le> count_zeros (odd_bytes bytes) * 2 then Some True
                                 else if pair_count \<le> count_zeros (even_bytes bytes) * 2 then Some False
                                 else None)
                   in case endian of
                        None \<Rightarrow> None
                      | Some le \<Rightarrow>
                          let units = rev (dropWhile (\<lambda>u. u = 13 \<or> u = 10) (rev (utf16_units le bytes)))
                          in if units = [] then Some [] else decode_utf16 units)"

text \<open>\<open>Inl\<close> is the message of an undecodable line, \<open>Inr None\<close> a line without content.\<close>

definition decode_jsonl_line :: "byte list \<Rightarrow> bool \<Rightarrow> string + string option" where
  "decode_jsonl_line line_bytes allow_bom =
     (if line_bytes = [] then Inr None
      else let s1 = (if allow_bom \<and> take 3 line_bytes = [0xEF, 0xBB, 0xBF] then drop 3 line_bytes else line_bytes);
               s2 = (if s1 \<noteq> [] \<and> last s1 = 10 then butlast s1 else s1);
               sl = (if s2 \<noteq> [] \<and> last s2 = 13 then butlast s2 else s2)
           in if sl = [] then Inr None
              else case try_decode_utf16_line sl allow_bom of
                     Some decoded \<Rightarrow> Inr (if decoded = [] then None else Some decoded)
                   | None \<Rightarrow>
                       (case from_utf8 sl of
                          Inl err \<Rightarrow> Inl (''utf8 decode failed for JSONL line: '' @ err)
                        | Inr decoded \<Rightarrow> Inr (Some decoded)))"

fun odd_quotes_loop :: "bool \<Rightarrow> nat \<Rightarrow> string list \<Rightarrow> nat" where
  "odd_quotes_loop escaped n [] = n"
| "odd_quotes_loop escaped n (ch # chs) =
     (if escaped then odd_quotes_loop False n chs
      else if ch = [char_of (92 :: nat)] then odd_quotes_loop True n chs
      else if ch = [char_of (34 :: nat)] then odd_quotes_loop False (n + 1) chs
      else odd_quotes_loop False n chs)"

definition has_odd_unescaped_quotes :: "string \<Rightarrow> bool" where
  "has_odd_unescaped_quotes s \<longleftrightarrow> odd_quotes_loop False 0 (chars s) mod 2 = 1"

section \<open>Payloads over several lines\<close>

text \<open>\<open>bytes[position..].iter().position(|b| *b == b)\<close>, and the loop over NUL bytes.\<close>

fun find_byte :: "byte \<Rightarrow> byte list \<Rightarrow> nat option" where
  "find_byte x [] = None"
| "find_byte x (b # bs) = (if b = x then Some 0 else map_option Suc (find_byte x bs))"

definition skip_nuls :: "byte list \<Rightarrow> nat \<Rightarrow> nat" where
  "skip_nuls bytes position = position + length (takeWhile (\<lambda>b. b = 0) (drop position bytes))"

datatype multiline_recovery_outcome =
    Recovered string nat nat
  | PendingAtEof

definition classify_end :: "bool \<Rightarrow> bool \<Rightarrow> multiline_recovery_outcome option" where
  "classify_end exhausted_eof saw_fragment = (if exhausted_eof \<and> \<not> saw_fragment then Some PendingAtEof else None)"

text \<open>The loop ends because each round consumes one more of at most 32 lines.\<close>

function classify_loop ::
  "json_lib \<Rightarrow> byte list \<Rightarrow> nat \<Rightarrow> string \<Rightarrow> nat \<Rightarrow> nat \<Rightarrow> bool \<Rightarrow> bool \<Rightarrow> multiline_recovery_outcome option" where
  "classify_loop J bytes max_bytes merged consumed next_position exhausted saw =
     (if MAX_RECOVERY_LINES \<le> consumed then classify_end exhausted saw
      else let pos = skip_nuls bytes next_position
           in if length bytes \<le> pos then classify_end True saw
              else case find_byte 10 (drop pos bytes) of
                     None \<Rightarrow> classify_end True saw
                   | Some rel \<Rightarrow>
                       let next_end = pos + rel + 1
                       in case decode_jsonl_line (take (rel + 1) (drop pos bytes)) (pos = 0) of
                            Inl _ \<Rightarrow> classify_end exhausted saw
                          | Inr line \<Rightarrow>
                              let fragment = (case line of Some v \<Rightarrow> v | None \<Rightarrow> []);
                                  saw' = (saw \<or> json_ok J fragment)
                              in if max_bytes < length merged + 2 + length fragment
                                 then classify_end exhausted saw'
                                 else let merged' = merged @ [char_of (92 :: nat), CHR ''n''] @ fragment
                                      in if json_ok J merged' then Some (Recovered merged' next_end (consumed + 1))
                                         else classify_loop J bytes max_bytes merged' (consumed + 1) next_end exhausted saw')"
  by pat_completeness auto
termination by (relation "measure (\<lambda>(J, bytes, m, merged, consumed, np, e, s). MAX_RECOVERY_LINES - consumed)") auto

declare classify_loop.simps [simp del]

definition classify_multiline_json_payload ::
  "json_lib \<Rightarrow> byte list \<Rightarrow> string \<Rightarrow> nat \<Rightarrow> action_spec \<Rightarrow> multiline_recovery_outcome option" where
  "classify_multiline_json_payload J bytes initial_payload initial_line_end spec =
     (if \<not> has_odd_unescaped_quotes initial_payload then None
      else let max_recovery_bytes = min (case as_max_payload_bytes spec of Some n \<Rightarrow> n | None \<Rightarrow> MAX_RECOVERY_BYTES)
                                      MAX_RECOVERY_BYTES
           in if max_recovery_bytes \<le> length initial_payload then None
              else classify_loop J bytes max_recovery_bytes initial_payload 1 initial_line_end
                     (length bytes \<le> initial_line_end) False)"

section \<open>Templates and safe paths\<close>

definition is_template_placeholder :: "string \<Rightarrow> bool" where
  "is_template_placeholder segment \<longleftrightarrow> 3 \<le> length segment \<and> starts_with ''{'' segment \<and> ends_with ''}'' segment"

definition action_template_matches :: "string \<Rightarrow> string \<Rightarrow> bool" where
  "action_template_matches template rel_path \<longleftrightarrow>
     (let t = trim_matches (CHR ''/'') template; r = trim_matches (CHR ''/'') rel_path
      in t \<noteq> [] \<and> r \<noteq> [] \<and>
         (let ts = str_split (CHR ''/'') t; rs = str_split (CHR ''/'') r
          in length ts = length rs \<and>
             list_all (\<lambda>x. if is_template_placeholder (fst x) then snd x \<noteq> [] else fst x = snd x) (zip ts rs)))"

definition template_specificity :: "string \<Rightarrow> nat \<times> nat \<times> nat" where
  "template_specificity template =
     (let segs = filter (\<lambda>s. s \<noteq> []) (str_split (CHR ''/'') (trim_matches (CHR ''/'') template));
          lits = filter (\<lambda>s. \<not> is_template_placeholder s) segs
      in (length lits, sum_list (map length lits), length segs))"

definition is_drive_letter_segment :: "string \<Rightarrow> bool" where
  "is_drive_letter_segment segment \<longleftrightarrow> 2 \<le> length segment \<and> is_ascii_alphabetic (segment ! 0) \<and> segment ! 1 = CHR '':''"

definition is_windows_reserved_name :: "string \<Rightarrow> bool" where
  "is_windows_reserved_name segment \<longleftrightarrow> to_ascii_uppercase segment \<in> set
     ([''CON'', ''PRN'', ''AUX'', ''NUL''] @ map (\<lambda>c. ''COM'' @ [c]) ''123456789'' @ map (\<lambda>c. ''LPT'' @ [c]) ''123456789'')"

definition is_safe_segment :: "string \<Rightarrow> bool" where
  "is_safe_segment segment \<longleftrightarrow>
     \<not> (segment = [] \<or> segment = ''.'' \<or> segment = ''..'') \<and>
     \<not> (char_of (92 :: nat) \<in> set segment \<or> char_of (0 :: nat) \<in> set segment) \<and>
     \<not> is_drive_letter_segment segment \<and> \<not> is_windows_reserved_name segment \<and>
     length segment \<le> MAX_SEGMENT_BYTES \<and>
     list_all (\<lambda>ch. length ch = 1 \<and> hd ch \<in> set ALLOWED_SEGMENT_CHARS) (chars segment)"

definition is_safe_action_rel_path :: "string \<Rightarrow> bool" where
  "is_safe_action_rel_path rel_path \<longleftrightarrow>
     (let path = trim_matches (CHR ''/'') rel_path
      in path \<noteq> [] \<and> ends_with ''.act'' path \<and> list_all is_safe_segment (str_split (CHR ''/'') path))"

definition is_safe_resource_rel_path :: "string \<Rightarrow> bool" where
  "is_safe_resource_rel_path rel_path \<longleftrightarrow>
     (let path = trim_matches (CHR ''/'') rel_path
      in path \<noteq> [] \<and> ends_with ''.res.jsonl'' path \<and> list_all is_safe_segment (str_split (CHR ''/'') path))"

definition extract_client_token :: "json_lib \<Rightarrow> string \<Rightarrow> string option" where
  "extract_client_token J payload =
     Option.bind (json_from_str J payload) (\<lambda>j. Option.bind (json_get ''client_token'' j) as_str)"

definition normalize_resource_rel_path :: "string \<Rightarrow> string option" where
  "normalize_resource_rel_path path =
     (let n = map (\<lambda>c. if c = char_of (92 :: nat) then CHR ''/'' else c) (trim_start_matches (CHR ''/'') (str_trim path))
      in if n = [] then None else Some n)"

section \<open>What the helpers guarantee\<close>

lemma find_byte_less: "find_byte x bs = Some i \<Longrightarrow> i < length bs"
  by (induction bs arbitrary: i) (auto split: if_splits)

lemma find_byte_append: "find_byte x bs = Some i \<Longrightarrow> find_byte x (bs @ cs) = Some i"
  by (induction bs arbitrary: i) (auto split: if_splits)

lemma find_byte_None: "find_byte x bs = None \<longleftrightarrow> x \<notin> set bs"
  by (induction bs) auto

lemma skip_nuls_ge: "position \<le> skip_nuls bytes position"
  by (simp add: skip_nuls_def)

lemma skip_nuls_le: "position \<le> length bytes \<Longrightarrow> skip_nuls bytes position \<le> length bytes"
  using length_takeWhile_le [of "\<lambda>b. b = 0" "drop position bytes"] by (simp add: skip_nuls_def)

lemma probe_append:
  "offset \<le> length bytes \<Longrightarrow> boundary_probe_from_bytes (bytes @ rest) offset = boundary_probe_from_bytes bytes offset"
  by (simp add: boundary_probe_from_bytes_def Let_def)

text \<open>A recovered payload is valid JSON and uses whole lines after the first one.\<close>

lemma classify_end_not_Recovered [simp]: "classify_end e s \<noteq> Some (Recovered m k n)"
  by (simp add: classify_end_def)

lemma classify_loop_Recovered:
  assumes "classify_loop J bytes max_bytes merged consumed np e s = Some (Recovered m k n)"
  shows "np < k \<and> k \<le> length bytes \<and> json_ok J m \<and> consumed < n \<and> n \<le> MAX_RECOVERY_LINES \<and> length m \<le> max_bytes"
  using assms
proof (induction J bytes max_bytes merged consumed np e s rule: classify_loop.induct)
  case (1 J bytes max_bytes merged consumed np e s)
  let ?pos = "skip_nuls bytes np"
  from "1.prems" obtain rel line where pos: "\<not> MAX_RECOVERY_LINES \<le> consumed" "\<not> length bytes \<le> ?pos"
    and rel: "find_byte 10 (drop ?pos bytes) = Some rel"
    and line: "decode_jsonl_line (take (rel + 1) (drop ?pos bytes)) (?pos = 0) = Inr line"
    by (subst (asm) classify_loop.simps) (auto simp: Let_def split: if_splits option.splits sum.splits)
  define fragment where "fragment = (case line of Some v \<Rightarrow> v | None \<Rightarrow> [])"
  define merged' where "merged' = merged @ [char_of (92 :: nat), CHR ''n''] @ fragment"
  have end_le: "?pos + rel + 1 \<le> length bytes" using find_byte_less [OF rel] pos(2) by simp
  have np: "np < ?pos + rel + 1" using skip_nuls_ge [of np bytes] by simp
  have step: "classify_loop J bytes max_bytes merged consumed np e s =
      (if max_bytes < length merged + 2 + length fragment then classify_end e (s \<or> json_ok J fragment)
       else if json_ok J merged' then Some (Recovered merged' (?pos + rel + 1) (consumed + 1))
       else classify_loop J bytes max_bytes merged' (consumed + 1) (?pos + rel + 1) e (s \<or> json_ok J fragment))"
    using pos rel line by (subst classify_loop.simps) (simp add: Let_def fragment_def merged'_def)
  with "1.prems" have small: "\<not> max_bytes < length merged + 2 + length fragment" by (auto split: if_splits)
  with "1.prems" step
  have res: "(if json_ok J merged' then Some (Recovered merged' (?pos + rel + 1) (consumed + 1))
      else classify_loop J bytes max_bytes merged' (consumed + 1) (?pos + rel + 1) e (s \<or> json_ok J fragment)) = Some (Recovered m k n)"
    by simp
  show ?case
  proof (cases "json_ok J merged'")
    case True
    with res small end_le np pos(1) show ?thesis by (auto simp: merged'_def)
  next
    case False
    with res "1.IH" [OF pos(1) refl pos(2) rel refl line fragment_def refl small merged'_def] np show ?thesis by auto
  qed
qed

lemma classify_Recovered:
  assumes "classify_multiline_json_payload J bytes p line_end spec = Some (Recovered m k n)"
  shows "line_end < k \<and> k \<le> length bytes \<and> json_ok J m \<and> n \<le> MAX_RECOVERY_LINES"
  using assms classify_loop_Recovered unfolding classify_multiline_json_payload_def Let_def
  by (fastforce split: if_splits)

end
