(* ===== verification/Action_Dispatcher.thy ===== *)
theory Action_Dispatcher
  imports Appfs_Shared
begin

text \<open>
  Routing and validation of action payloads, \<open>appfs/cli/src/cmd/appfs/action_dispatcher.rs\<close>:
  the ActionLine envelope, the reserved action paths, the requests of the control plane and
  the shape of the identifiers they accept. Errors are the code strings of \<open>errors.rs\<close>.
\<close>

section \<open>Requests\<close>

record parsed_action_line =
  pal_client_token :: string
  pal_payload_json :: string

record action_line_validation_error =
  alv_code :: string
  alv_reason :: string

record paging_request =
  pr_handle_id :: string
  pr_session_id :: "string option"

datatype dispatch_route =
    PagingFetchNext paging_request
  | PagingClose paging_request
  | SnapshotRefresh string
  | EnterScope string
  | StructureRefresh "string option"
  | EnsureCredentials "string option"
  | BusinessSubmit

datatype dispatch_route_parse_error =
    PagingFetchNextError | PagingCloseError | SnapshotRefreshError | EnterScopeError
  | StructureRefreshError | EnsureCredentialsError

record 't register_app_request =
  rar_app_id :: string
  rar_session_id :: "string option"
  rar_transport :: 't

record create_principal_request =
  cpr_principal_id :: string
  cpr_display_name :: string
  cpr_description :: "string option"
  cpr_kind :: string

datatype 'a nullable_patch = Clear | Set_To 'a

datatype principal_agent_state = Idle | Running | Stopping | Error_State | Stopped | Unknown
datatype principal_agent_outcome = Completed | Cancelled | Failed

record principal_agent_status_patch =
  pas_state :: "principal_agent_state option"
  pas_current_task_preview :: "string nullable_patch option"
  pas_current_task_source :: "string nullable_patch option"
  pas_turn_id :: "string nullable_patch option"
  pas_session_id :: "string nullable_patch option"
  pas_model :: "string nullable_patch option"
  pas_last_outcome :: "principal_agent_outcome nullable_patch option"

record update_principal_request =
  upr_principal_id :: string
  upr_display_name :: "string option"
  upr_description :: "string option"
  upr_kind :: "string option"
  upr_attach_id :: "string option"
  upr_agent_status :: "principal_agent_status_patch option"

record delete_principal_request =
  dpr_principal_id :: string
  dpr_force :: bool

record attach_principal_request =
  apr_principal_id :: string
  apr_attach_id :: string
  apr_role :: "string option"
  apr_session_id :: "string option"
  apr_takeover :: bool

record detach_principal_request =
  dtr_principal_id :: string
  dtr_attach_id :: string
  dtr_reason :: "string option"

section \<open>Fields\<close>

text \<open>The operator \<open>?\<close> on results.\<close>

definition and_then :: "'e + 'a \<Rightarrow> ('a \<Rightarrow> 'e + 'b) \<Rightarrow> 'e + 'b" where
  "and_then r f = (case r of Inl e \<Rightarrow> Inl e | Inr x \<Rightarrow> f x)"

lemma and_then_simps [simp]: "and_then (Inl e) f = Inl e" "and_then (Inr x) f = f x"
  by (simp_all add: and_then_def)

lemma and_then_Inr_iff: "and_then r f = Inr y \<longleftrightarrow> (\<exists>x. r = Inr x \<and> f x = Inr y)"
  by (cases r) auto

text \<open>\<open>as_str().map(str::trim).filter(|s| !s.is_empty())\<close>.\<close>

definition trimmed_str :: "json \<Rightarrow> string option" where
  "trimmed_str v = (case as_str v of None \<Rightarrow> None | Some s \<Rightarrow> let t = str_trim s in if t = [] then None else Some t)"

definition from_str_or :: "json_lib \<Rightarrow> string \<Rightarrow> string + json" where
  "from_str_or J payload = (case json_from_str J payload of None \<Rightarrow> Inl ERR_INVALID_ARGUMENT | Some j \<Rightarrow> Inr j)"

definition parse_json_object :: "json_lib \<Rightarrow> string \<Rightarrow> string + (string \<times> json) list" where
  "parse_json_object J payload =
     and_then (from_str_or J payload) (\<lambda>j. case as_object j of None \<Rightarrow> Inl ERR_INVALID_ARGUMENT | Some o' \<Rightarrow> Inr o')"

definition required_string :: "(string \<times> json) list \<Rightarrow> string \<Rightarrow> string + string" where
  "required_string obj field_name =
     (case Option.bind (map_of obj field_name) trimmed_str of None \<Rightarrow> Inl ERR_INVALID_ARGUMENT | Some s \<Rightarrow> Inr s)"

definition optional_string :: "(string \<times> json) list \<Rightarrow> string \<Rightarrow> string + string option" where
  "optional_string obj field_name =
     (case map_of obj field_name of
        None \<Rightarrow> Inr None
      | Some v \<Rightarrow> if v = JNull then Inr None
                  else case trimmed_str v of None \<Rightarrow> Inl ERR_INVALID_ARGUMENT | Some s \<Rightarrow> Inr (Some s))"

definition optional_nullable_string :: "(string \<times> json) list \<Rightarrow> string \<Rightarrow> string + string nullable_patch option" where
  "optional_nullable_string obj field_name =
     (case map_of obj field_name of
        None \<Rightarrow> Inr None
      | Some v \<Rightarrow> if v = JNull then Inr (Some Clear)
                  else case trimmed_str v of None \<Rightarrow> Inl ERR_INVALID_ARGUMENT | Some s \<Rightarrow> Inr (Some (Set_To s)))"

definition optional_bool :: "(string \<times> json) list \<Rightarrow> string \<Rightarrow> string + bool option" where
  "optional_bool obj field_name =
     (case map_of obj field_name of
        None \<Rightarrow> Inr None
      | Some v \<Rightarrow> (case v of JNull \<Rightarrow> Inr None | JBool b \<Rightarrow> Inr (Some b) | _ \<Rightarrow> Inl ERR_INVALID_ARGUMENT))"

definition safe_id_chars :: "string \<Rightarrow> string \<Rightarrow> bool" where
  "safe_id_chars extra value \<longleftrightarrow> list_all (\<lambda>ch. length ch = 1 \<and>
     (is_ascii_alphabetic (hd ch) \<or> is_ascii_digit (hd ch) \<or> hd ch \<in> set extra)) (chars value)"

definition has_separator :: "string \<Rightarrow> bool" where
  "has_separator value \<longleftrightarrow> list_ex (\<lambda>c. c = CHR ''/'' \<or> c = char_of (92 :: nat) \<or> c = char_of (0 :: nat) \<or> c = CHR '':'') value"

definition is_safe_principal_id :: "string \<Rightarrow> bool" where
  "is_safe_principal_id value \<longleftrightarrow> \<not> (value = ''.'' \<or> value = ''..'' \<or> 120 < length value) \<and>
     \<not> has_separator value \<and> safe_id_chars ''_-'' value"

definition is_safe_attach_id :: "string \<Rightarrow> bool" where
  "is_safe_attach_id value \<longleftrightarrow> \<not> (value = ''.'' \<or> value = ''..'' \<or> 160 < length value) \<and>
     \<not> has_separator value \<and> safe_id_chars ''_-.'' value"

definition required_principal_id :: "(string \<times> json) list \<Rightarrow> string \<Rightarrow> string + string" where
  "required_principal_id obj field_name =
     and_then (required_string obj field_name)
       (\<lambda>s. if is_safe_principal_id s then Inr s else Inl ERR_INVALID_ARGUMENT)"

definition required_attach_id :: "(string \<times> json) list \<Rightarrow> string \<Rightarrow> string + string" where
  "required_attach_id obj field_name =
     and_then (required_string obj field_name)
       (\<lambda>s. if is_safe_attach_id s then Inr s else Inl ERR_INVALID_ARGUMENT)"

definition optional_attach_id :: "(string \<times> json) list \<Rightarrow> string \<Rightarrow> string + string option" where
  "optional_attach_id obj field_name =
     (case map_of obj field_name of
        None \<Rightarrow> Inr None
      | Some v \<Rightarrow> if v = JNull then Inr None
                  else case trimmed_str v of
                         None \<Rightarrow> Inl ERR_INVALID_ARGUMENT
                       | Some s \<Rightarrow> if is_safe_attach_id s then Inr (Some s) else Inl ERR_INVALID_ARGUMENT)"

definition optional_agent_state :: "(string \<times> json) list \<Rightarrow> string \<Rightarrow> string + principal_agent_state option" where
  "optional_agent_state obj field_name =
     (case map_of obj field_name of
        None \<Rightarrow> Inr None
      | Some v \<Rightarrow>
          (case as_str v of
             None \<Rightarrow> Inl ERR_INVALID_ARGUMENT
           | Some s \<Rightarrow>
               (case map_of [(''idle'', Idle), (''running'', Running), (''stopping'', Stopping),
                             (''error'', Error_State), (''stopped'', Stopped), (''unknown'', Unknown)] s of
                  None \<Rightarrow> Inl ERR_INVALID_ARGUMENT
                | Some st \<Rightarrow> Inr (Some st))))"

definition optional_agent_outcome_patch ::
  "(string \<times> json) list \<Rightarrow> string \<Rightarrow> string + principal_agent_outcome nullable_patch option" where
  "optional_agent_outcome_patch obj field_name =
     (case map_of obj field_name of
        None \<Rightarrow> Inr None
      | Some v \<Rightarrow>
          if v = JNull then Inr (Some Clear)
          else case as_str v of
                 None \<Rightarrow> Inl ERR_INVALID_ARGUMENT
               | Some s \<Rightarrow>
                   (case map_of [(''completed'', Completed), (''cancelled'', Cancelled), (''failed'', Failed)] s of
                      None \<Rightarrow> Inl ERR_INVALID_ARGUMENT
                    | Some r \<Rightarrow> Inr (Some (Set_To r))))"

definition MAX_PRINCIPAL_TASK_PREVIEW_CHARS :: nat where "MAX_PRINCIPAL_TASK_PREVIEW_CHARS = 240"

definition optional_agent_status_patch ::
  "(string \<times> json) list \<Rightarrow> string + principal_agent_status_patch option" where
  "optional_agent_status_patch obj =
     (case map_of obj ''agent_status'' of
        None \<Rightarrow> Inr None
      | Some v \<Rightarrow>
          if v = JNull then Inl ERR_INVALID_ARGUMENT
          else case as_object v of
                 None \<Rightarrow> Inl ERR_INVALID_ARGUMENT
               | Some status \<Rightarrow>
                   and_then (optional_nullable_string status ''current_task_preview'') (\<lambda>preview.
                   if (case preview of Some (Set_To p) \<Rightarrow> MAX_PRINCIPAL_TASK_PREVIEW_CHARS < length (chars p) | _ \<Rightarrow> False)
                   then Inl ERR_INVALID_ARGUMENT
                   else and_then (optional_agent_state status ''state'') (\<lambda>st.
                        and_then (optional_nullable_string status ''current_task_source'') (\<lambda>src.
                        and_then (optional_nullable_string status ''turn_id'') (\<lambda>turn.
                        and_then (optional_nullable_string status ''session_id'') (\<lambda>sess.
                        and_then (optional_nullable_string status ''model'') (\<lambda>model.
                        and_then (optional_agent_outcome_patch status ''last_outcome'') (\<lambda>last.
                          Inr (Some \<lparr>pas_state = st, pas_current_task_preview = preview, pas_current_task_source = src,
                            pas_turn_id = turn, pas_session_id = sess, pas_model = model, pas_last_outcome = last\<rparr>)))))))))"

section \<open>Requests of the control plane\<close>

text \<open>\<open>transport_of\<close> stands for the derived deserialisation of \<open>AppfsRegistryTransportDoc\<close>.\<close>

definition parse_register_app_request ::
  "json_lib \<Rightarrow> (json \<Rightarrow> 't option) \<Rightarrow> string \<Rightarrow> string + 't register_app_request" where
  "parse_register_app_request J transport_of payload =
     and_then (parse_json_object J payload) (\<lambda>obj.
     and_then (required_string obj ''app_id'') (\<lambda>app_id.
       case Option.bind (map_of obj ''transport'') transport_of of
         None \<Rightarrow> Inl ERR_INVALID_ARGUMENT
       | Some t \<Rightarrow> Inr \<lparr>rar_app_id = app_id,
           rar_session_id = Option.bind (map_of obj ''session_id'') trimmed_str, rar_transport = t\<rparr>))"

definition parse_unregister_app_request :: "json_lib \<Rightarrow> string \<Rightarrow> string + string" where
  "parse_unregister_app_request J payload =
     and_then (from_str_or J payload) (\<lambda>j.
       case Option.bind (json_get ''app_id'' j) trimmed_str of None \<Rightarrow> Inl ERR_INVALID_ARGUMENT | Some s \<Rightarrow> Inr s)"

definition parse_list_apps_request :: "json_lib \<Rightarrow> string \<Rightarrow> string + unit" where
  "parse_list_apps_request J payload =
     and_then (from_str_or J payload) (\<lambda>j. if as_object j = None then Inl ERR_INVALID_ARGUMENT else Inr ())"

definition parse_create_principal_request :: "json_lib \<Rightarrow> string \<Rightarrow> string + create_principal_request" where
  "parse_create_principal_request J payload =
     and_then (parse_json_object J payload) (\<lambda>obj.
     and_then (required_principal_id obj ''principal_id'') (\<lambda>pid.
     and_then (required_string obj ''display_name'') (\<lambda>name.
     and_then (optional_string obj ''description'') (\<lambda>descr.
     and_then (optional_string obj ''kind'') (\<lambda>kind.
       Inr \<lparr>cpr_principal_id = pid, cpr_display_name = name, cpr_description = descr,
            cpr_kind = (case kind of Some k \<Rightarrow> k | None \<Rightarrow> ''agent'')\<rparr>)))))"

definition parse_update_principal_request :: "json_lib \<Rightarrow> string \<Rightarrow> string + update_principal_request" where
  "parse_update_principal_request J payload =
     and_then (parse_json_object J payload) (\<lambda>obj.
     and_then (required_principal_id obj ''principal_id'') (\<lambda>pid.
     and_then (optional_attach_id obj ''attach_id'') (\<lambda>attach.
     and_then (optional_agent_status_patch obj) (\<lambda>status.
     if status \<noteq> None \<and> attach = None then Inl ERR_INVALID_ARGUMENT
     else and_then (optional_string obj ''display_name'') (\<lambda>name.
          and_then (optional_string obj ''description'') (\<lambda>descr.
          and_then (optional_string obj ''kind'') (\<lambda>kind.
            Inr \<lparr>upr_principal_id = pid, upr_display_name = name, upr_description = descr, upr_kind = kind,
                 upr_attach_id = attach, upr_agent_status = status\<rparr>)))))))"

definition parse_delete_principal_request :: "json_lib \<Rightarrow> string \<Rightarrow> string + delete_principal_request" where
  "parse_delete_principal_request J payload =
     and_then (parse_json_object J payload) (\<lambda>obj.
     and_then (required_principal_id obj ''principal_id'') (\<lambda>pid.
     and_then (optional_bool obj ''force'') (\<lambda>force.
       Inr \<lparr>dpr_principal_id = pid, dpr_force = (force = Some True)\<rparr>)))"

definition parse_attach_principal_request :: "json_lib \<Rightarrow> string \<Rightarrow> string + attach_principal_request" where
  "parse_attach_principal_request J payload =
     and_then (parse_json_object J payload) (\<lambda>obj.
     and_then (required_principal_id obj ''principal_id'') (\<lambda>pid.
     and_then (required_attach_id obj ''attach_id'') (\<lambda>aid.
     and_then (optional_string obj ''role'') (\<lambda>role.
     and_then (optional_string obj ''session_id'') (\<lambda>sess.
     and_then (optional_bool obj ''takeover'') (\<lambda>take_over.
       Inr \<lparr>apr_principal_id = pid, apr_attach_id = aid, apr_role = role, apr_session_id = sess,
            apr_takeover = (take_over = Some True)\<rparr>))))))"

definition parse_detach_principal_request :: "json_lib \<Rightarrow> string \<Rightarrow> string + detach_principal_request" where
  "parse_detach_principal_request J payload =
     and_then (parse_json_object J payload) (\<lambda>obj.
     and_then (required_principal_id obj ''principal_id'') (\<lambda>pid.
     and_then (required_attach_id obj ''attach_id'') (\<lambda>aid.
     and_then (optional_string obj ''reason'') (\<lambda>reason.
       Inr \<lparr>dtr_principal_id = pid, dtr_attach_id = aid, dtr_reason = reason\<rparr>))))"

section \<open>Action lines and routes\<close>

definition line_error :: "string \<Rightarrow> string \<Rightarrow> action_line_validation_error" where
  "line_error c r = \<lparr>alv_code = c, alv_reason = r\<rparr>"

definition parse_action_line :: "json_lib \<Rightarrow> string \<Rightarrow> action_line_validation_error + parsed_action_line" where
  "parse_action_line J line =
     (case json_from_str J line of
        None \<Rightarrow> Inl (line_error ERR_INVALID_PAYLOAD ''action line must be valid json'')
      | Some j \<Rightarrow>
          (case as_object j of
             None \<Rightarrow> Inl (line_error ERR_INVALID_ARGUMENT ''action line must be a json object'')
           | Some obj \<Rightarrow>
               if map_of obj ''mode'' \<noteq> None
               then Inl (line_error ERR_INVALID_ARGUMENT ''mode field is not allowed in ActionLine'')
               else case Option.bind (map_of obj ''version'') as_str of
                 None \<Rightarrow> Inl (line_error ERR_INVALID_ARGUMENT ''version is required'')
               | Some version \<Rightarrow>
                   if version \<noteq> ''2.0'' then Inl (line_error ERR_INVALID_ARGUMENT ''version must be 2.0'')
                   else case Option.bind (map_of obj ''client_token'') trimmed_str of
                     None \<Rightarrow> Inl (line_error ERR_INVALID_ARGUMENT ''client_token is required'')
                   | Some token \<Rightarrow>
                       (case Option.bind (map_of obj ''payload'') as_object of
                          None \<Rightarrow> Inl (line_error ERR_INVALID_ARGUMENT ''payload must be a json object'')
                        | Some payload \<Rightarrow>
                            (case json_to_string J (JObject payload) of
                               None \<Rightarrow> Inl (line_error ERR_INVALID_PAYLOAD ''payload serialization failed'')
                             | Some text \<Rightarrow> Inr \<lparr>pal_client_token = token, pal_payload_json = text\<rparr>))))"

definition normalize_actionline_payload ::
  "json_lib \<Rightarrow> string \<Rightarrow> bool \<Rightarrow> action_line_validation_error + parsed_action_line option" where
  "normalize_actionline_payload J payload strict =
     (if \<not> strict then Inr None
      else case parse_action_line J payload of Inl e \<Rightarrow> Inl e | Inr p \<Rightarrow> Inr (Some p))"

definition validate_submit_payload :: "json_lib \<Rightarrow> action_spec \<Rightarrow> string \<Rightarrow> string + unit" where
  "validate_submit_payload J spec payload =
     (if (case as_max_payload_bytes spec of Some m \<Rightarrow> m < length payload | None \<Rightarrow> False) then Inl ''EMSGSIZE''
      else if str_trim payload = [] then Inl ERR_INVALID_ARGUMENT
      else case as_input_mode spec of Json \<Rightarrow> if json_ok J payload then Inr () else Inl ERR_INVALID_PAYLOAD)"

definition parse_paging_request :: "json_lib \<Rightarrow> string \<Rightarrow> string + paging_request" where
  "parse_paging_request J payload =
     and_then (from_str_or J payload) (\<lambda>j.
       case Option.bind (json_get ''handle_id'' j) as_str of
         None \<Rightarrow> Inl ERR_INVALID_ARGUMENT
       | Some h \<Rightarrow> Inr \<lparr>pr_handle_id = str_trim h, pr_session_id = Option.bind (json_get ''session_id'' j) trimmed_str\<rparr>)"

definition parse_snapshot_refresh_request :: "json_lib \<Rightarrow> string \<Rightarrow> string + string" where
  "parse_snapshot_refresh_request J payload =
     and_then (from_str_or J payload) (\<lambda>j.
       case Option.bind (json_get ''resource_path'' j) as_str of None \<Rightarrow> Inl ERR_INVALID_ARGUMENT | Some r \<Rightarrow> Inr (str_trim r))"

definition parse_enter_scope_request :: "json_lib \<Rightarrow> string \<Rightarrow> string + string" where
  "parse_enter_scope_request J payload =
     and_then (from_str_or J payload) (\<lambda>j.
       case Option.bind (json_get ''target_scope'' j) trimmed_str of None \<Rightarrow> Inl ERR_INVALID_ARGUMENT | Some r \<Rightarrow> Inr r)"

definition parse_structure_refresh_request :: "json_lib \<Rightarrow> string \<Rightarrow> string + string option" where
  "parse_structure_refresh_request J payload =
     and_then (from_str_or J payload) (\<lambda>j. Inr (Option.bind (json_get ''target_scope'' j) trimmed_str))"

definition parse_ensure_credentials_request :: "json_lib \<Rightarrow> string \<Rightarrow> string + string option" where
  "parse_ensure_credentials_request J payload =
     and_then (parse_json_object J payload) (\<lambda>obj. optional_string obj ''expected_profile_id'')"

definition with_route :: "'r \<Rightarrow> ('a \<Rightarrow> 'd) \<Rightarrow> string + 'a \<Rightarrow> 'r + 'd" where
  "with_route err route r = (case r of Inl _ \<Rightarrow> Inl err | Inr x \<Rightarrow> Inr (route x))"

definition route_action :: "json_lib \<Rightarrow> string \<Rightarrow> string \<Rightarrow> dispatch_route_parse_error + dispatch_route" where
  "route_action J normalized_path payload =
     (if normalized_path = ''/_paging/fetch_next.act''
      then with_route PagingFetchNextError PagingFetchNext (parse_paging_request J payload)
      else if normalized_path = ''/_paging/close.act''
      then with_route PagingCloseError PagingClose (parse_paging_request J payload)
      else if normalized_path = ''/_snapshot/refresh.act''
      then with_route SnapshotRefreshError SnapshotRefresh (parse_snapshot_refresh_request J payload)
      else if normalized_path = ''/_app/enter_scope.act''
      then with_route EnterScopeError EnterScope (parse_enter_scope_request J payload)
      else if normalized_path = ''/_app/refresh_structure.act''
      then with_route StructureRefreshError StructureRefresh (parse_structure_refresh_request J payload)
      else if normalized_path = ''/_app/ensure_credentials.act''
      then with_route EnsureCredentialsError EnsureCredentials (parse_ensure_credentials_request J payload)
      else Inr BusinessSubmit)"

section \<open>Identifiers\<close>

text \<open>What is accepted as an identifier can be used as one file name.\<close>

lemma str_trim_nonempty: "trimmed_str v = Some s \<Longrightarrow> s \<noteq> []"
  by (auto simp: trimmed_str_def Let_def split: option.splits if_splits)

lemma required_string_nonempty: "required_string obj f = Inr s \<Longrightarrow> s \<noteq> []"
  by (auto simp: required_string_def split: option.splits bind_splits dest: str_trim_nonempty)

lemma required_principal_id_safe: "required_principal_id obj f = Inr s \<Longrightarrow> s \<noteq> [] \<and> is_safe_principal_id s"
  by (auto simp: required_principal_id_def and_then_Inr_iff split: if_splits dest: required_string_nonempty)

lemma required_attach_id_safe: "required_attach_id obj f = Inr s \<Longrightarrow> s \<noteq> [] \<and> is_safe_attach_id s"
  by (auto simp: required_attach_id_def and_then_Inr_iff split: if_splits dest: required_string_nonempty)

lemma optional_attach_id_safe: "optional_attach_id obj f = Inr (Some s) \<Longrightarrow> s \<noteq> [] \<and> is_safe_attach_id s"
  by (auto simp: optional_attach_id_def split: option.splits if_splits dest: str_trim_nonempty)

end
