(* ===== verification/Action_Consumer.thy ===== *)
theory Action_Consumer
  imports Action_Dispatcher
begin

unbundle bit_operations_syntax

text \<open>
  The consumer of action sinks, \<open>appfs/cli/src/cmd/appfs/action_consumer.rs\<close>: a sink is a file
  that clients append JSON lines to; each drain reads on from a stored cursor, hands every
  complete line to a handler and moves the cursor behind it once the handler took it.

  The handler is a parameter with its own state. Request identifiers are random UUIDs of the
  crate \<open>uuid\<close>: a parameter that gives the identifier of the k-th call. What the file system
  answers to \<open>metadata\<close> and \<open>read\<close> is an argument, the two may differ.
\<close>

section \<open>State\<close>

record action_cursor_state =
  ac_offset :: u64
  ac_boundary_probe :: "string option"
  ac_pending_multiline_eof_len :: "u64 option"

definition default_cursor :: action_cursor_state where
  "default_cursor = \<lparr>ac_offset = 0, ac_boundary_probe = None, ac_pending_multiline_eof_len = None\<rparr>"

record action_invocation =
  ai_rel_path :: string
  ai_normalized_path :: string
  ai_request_id :: string
  ai_payload_json :: string
  ai_client_token :: "string option"

record invalid_action_payload =
  iap_rel_path :: string
  iap_normalized_path :: string
  iap_request_id :: string
  iap_code :: string
  iap_message :: string
  iap_client_token :: "string option"

record 'h action_handler =
  handle_action_invocation :: "action_invocation \<Rightarrow> action_spec \<Rightarrow> 'h \<Rightarrow> (string + process_outcome) \<times> 'h"
  handle_invalid_action_payload :: "invalid_action_payload \<Rightarrow> 'h \<Rightarrow> (string + process_outcome) \<times> 'h"

record action_consumer_config =
  acc_app_id :: string
  acc_session_id :: string
  acc_action_specs :: "action_spec list"
  acc_actionline_strict :: bool
  acc_fixed_action_order :: "string list option"

section \<open>Tokens and specifications\<close>

definition token_part :: "byte list \<Rightarrow> 64 word \<Rightarrow> 64 word" where
  "token_part part hash = fnv_step 124 (fold fnv_step part hash)"

definition stable_action_line_client_token :: "string \<Rightarrow> string \<Rightarrow> string \<Rightarrow> u64 \<Rightarrow> string \<Rightarrow> string" where
  "stable_action_line_client_token app_id session_id rel offset payload =
     ''appfs-act-'' @ hex16 (fold token_part
       [as_bytes app_id, as_bytes session_id, as_bytes rel, as_bytes (to_decimal offset), as_bytes payload]
       0xcbf29ce484222325)"

definition normalized_action_path :: "string \<Rightarrow> string" where
  "normalized_action_path rel_path = ''/'' @ rel_path"

definition rel_path_for_log :: "string \<Rightarrow> string" where
  "rel_path_for_log path = map (\<lambda>c. if c = char_of (92 :: nat) then CHR ''/'' else c) path"

text \<open>\<open>Iterator::max_by_key\<close>: the last of the elements with the largest key; keys are compared lexicographically.\<close>

definition key_le :: "nat \<times> nat \<times> nat \<Rightarrow> nat \<times> nat \<times> nat \<Rightarrow> bool" where
  "key_le a b \<longleftrightarrow> fst a < fst b \<or> fst a = fst b \<and>
     (fst (snd a) < fst (snd b) \<or> fst (snd a) = fst (snd b) \<and> snd (snd a) \<le> snd (snd b))"

fun max_by_key :: "('a \<Rightarrow> nat \<times> nat \<times> nat) \<Rightarrow> 'a list \<Rightarrow> 'a option" where
  "max_by_key f [] = None"
| "max_by_key f (x # xs) = Some (fold (\<lambda>y best. if key_le (f best) (f y) then y else best) xs x)"

definition find_action_spec :: "action_spec list \<Rightarrow> string \<Rightarrow> action_spec option" where
  "find_action_spec action_specs rel_path =
     max_by_key (\<lambda>spec. template_specificity (as_template spec))
       (filter (\<lambda>spec. action_template_matches (as_template spec) rel_path) action_specs)"

section \<open>One sink\<close>

definition advance :: "byte list \<Rightarrow> nat \<Rightarrow> action_cursor_state" where
  "advance bytes position =
     \<lparr>ac_offset = position, ac_boundary_probe = boundary_probe_from_bytes bytes position,
      ac_pending_multiline_eof_len = None\<rparr>"

text \<open>
  What the block about several lines makes of a payload: nothing more to do in this drain
  (with the new cursor), or the payload, where its last line ends, and the cursor.
\<close>

datatype multiline = Defer action_cursor_state | Proceed string nat action_cursor_state

definition multiline_payload ::
  "json_lib \<Rightarrow> byte list \<Rightarrow> action_spec \<Rightarrow> string \<Rightarrow> nat \<Rightarrow> action_cursor_state \<Rightarrow> multiline" where
  "multiline_payload J bytes spec payload line_end cursor =
     (let cleared = cursor\<lparr>ac_pending_multiline_eof_len := None\<rparr>
      in if as_input_mode spec = Json \<and> \<not> json_ok J payload \<and> has_odd_unescaped_quotes payload then
           (case classify_multiline_json_payload J bytes payload line_end spec of
              Some (Recovered merged merged_end _) \<Rightarrow> Proceed merged merged_end cleared
            | Some PendingAtEof \<Rightarrow>
                if ac_pending_multiline_eof_len cursor = Some (length bytes) then Proceed payload line_end cleared
                else Defer (cursor\<lparr>ac_pending_multiline_eof_len := Some (length bytes)\<rparr>)
            | None \<Rightarrow> Proceed payload line_end cleared)
         else Proceed payload line_end cleared)"

lemma multiline_Proceed_ge:
  assumes "multiline_payload J bytes spec payload line_end cursor = Proceed p e c" and "line_end \<le> length bytes"
  shows "line_end \<le> e \<and> e \<le> length bytes \<and> ac_offset c = ac_offset cursor"
  using assms classify_Recovered [of J bytes payload line_end spec]
  by (fastforce simp: multiline_payload_def Let_def split: if_splits option.splits multiline_recovery_outcome.splits)

text \<open>\<open>env\<close> of a loop: library, configuration, path, specification, identifiers, handler, bytes.\<close>

record 'h sink_env =
  se_json :: json_lib
  se_config :: action_consumer_config
  se_rel :: string
  se_spec :: action_spec
  se_ids :: "nat \<Rightarrow> string"
  se_handler :: "'h action_handler"
  se_bytes :: "byte list"

text \<open>What one line does: stop the loop with this cursor, an error, or go on behind a position.\<close>

datatype 'h line_step =
    Stop action_cursor_state 'h
  | Fail string 'h
  | Next nat 'h

definition reject_line :: "'h sink_env \<Rightarrow> string \<Rightarrow> string \<Rightarrow> string \<Rightarrow> nat \<Rightarrow> action_cursor_state \<Rightarrow> 'h \<Rightarrow> 'h line_step" where
  "reject_line E request_id err_code message line_end cursor h =
     (case handle_invalid_action_payload (se_handler E)
             \<lparr>iap_rel_path = se_rel E, iap_normalized_path = normalized_action_path (se_rel E),
              iap_request_id = request_id, iap_code = err_code, iap_message = message, iap_client_token = None\<rparr> h of
        (Inl e, h') \<Rightarrow> Fail e h'
      | (Inr Consumed, h') \<Rightarrow> Next line_end h'
      | (Inr RetryPending, h') \<Rightarrow> Stop cursor h')"

definition invocation_for :: "'h sink_env \<Rightarrow> string \<Rightarrow> u64 \<Rightarrow> string \<Rightarrow> string option \<Rightarrow> action_invocation" where
  "invocation_for E request_id offset payload override =
     \<lparr>ai_rel_path = se_rel E, ai_normalized_path = normalized_action_path (se_rel E), ai_request_id = request_id,
      ai_payload_json = payload,
      ai_client_token =
        (case override of
           Some t \<Rightarrow> Some t
         | None \<Rightarrow>
             (case extract_client_token (se_json E) payload of
                Some t \<Rightarrow> Some t
              | None \<Rightarrow> Some (stable_action_line_client_token (acc_app_id (se_config E)) (acc_session_id (se_config E))
                                (se_rel E) offset payload)))\<rparr>"

definition process_line :: "'h sink_env \<Rightarrow> nat \<Rightarrow> nat \<Rightarrow> nat \<Rightarrow> action_cursor_state \<Rightarrow> 'h \<Rightarrow> 'h line_step" where
  "process_line E k position line_end cursor h =
     (let bytes = se_bytes E; request_id = se_ids E k
      in case decode_jsonl_line (take (line_end - position) (drop position bytes)) (position = 0) of
           Inl reason \<Rightarrow> reject_line E request_id ERR_INVALID_PAYLOAD reason line_end cursor h
         | Inr None \<Rightarrow> Next line_end h
         | Inr (Some line) \<Rightarrow>
             (case multiline_payload (se_json E) bytes (se_spec E) line line_end cursor of
                Defer c \<Rightarrow> Stop c h
              | Proceed payload payload_end c \<Rightarrow>
                  (case normalize_actionline_payload (se_json E) payload (acc_actionline_strict (se_config E)) of
                     Inl v \<Rightarrow> reject_line E request_id (alv_code v) (alv_reason v) payload_end c h
                   | Inr parsed \<Rightarrow>
                       let final_payload = (case parsed of Some p \<Rightarrow> pal_payload_json p | None \<Rightarrow> payload);
                           inv = invocation_for E request_id (ac_offset c) final_payload
                                   (map_option pal_client_token parsed)
                       in case handle_action_invocation (se_handler E) inv (se_spec E) h of
                            (Inl e, h') \<Rightarrow> Fail e h'
                          | (Inr Consumed, h') \<Rightarrow> Next payload_end h'
                          | (Inr RetryPending, h') \<Rightarrow> Stop c h')))"

lemma process_line_Next:
  assumes "process_line E k position line_end cursor h = Next e h'" and "line_end \<le> length (se_bytes E)"
  shows "line_end \<le> e \<and> e \<le> length (se_bytes E)"
  using assms
  by (auto simp: process_line_def reject_line_def Let_def split: sum.splits option.splits multiline.splits prod.splits
      process_outcome.splits dest!: multiline_Proceed_ge)

text \<open>The loop over the lines; it returns the cursor, the handler's state and the number of identifiers used.\<close>

function sink_loop ::
  "'h sink_env \<Rightarrow> nat \<Rightarrow> nat \<Rightarrow> action_cursor_state \<Rightarrow> 'h \<Rightarrow> (string + action_cursor_state) \<times> 'h \<times> nat" where
  "sink_loop E k position cursor h =
     (let bytes = se_bytes E
      in if length bytes \<le> position then (Inr cursor, h, k)
         else let pos = skip_nuls bytes position;
                  cursor1 = (if pos = position then cursor else advance bytes pos)
              in if length bytes \<le> pos then (Inr cursor1, h, k)
                 else case find_byte 10 (drop pos bytes) of
                        None \<Rightarrow> (Inr cursor1, h, k)
                      | Some rel_idx \<Rightarrow>
                          (case process_line E k pos (pos + rel_idx + 1) cursor1 h of
                             Stop c h' \<Rightarrow> (Inr c, h', k + 1)
                           | Fail e h' \<Rightarrow> (Inl e, h', k + 1)
                           | Next e h' \<Rightarrow> sink_loop E (k + 1) e (advance bytes e) h'))"
  by pat_completeness auto
termination
proof (relation "measure (\<lambda>(E, k, position, c, h). length (se_bytes E) - position)", simp, goal_cases)
  case (1 E k position cursor h bytes pos cursor1 rel_idx e h')
  have "pos + rel_idx + 1 \<le> length (se_bytes E)"
    using 1 find_byte_less [of 10 "drop pos (se_bytes E)" rel_idx] by simp
  with process_line_Next [of E k pos "pos + rel_idx + 1" cursor1 h e h'] 1 skip_nuls_ge [of position "se_bytes E"]
  show ?case by auto
qed

declare sink_loop.simps [simp del]

text \<open>The file of a sink: its length as \<open>metadata\<close> gives it, its bytes as \<open>read\<close> does; \<open>None\<close> is an I/O error.\<close>

record sink_file =
  sf_metadata_len :: "u64 option"
  sf_read :: "byte list option"

definition rewound :: "u64 \<Rightarrow> action_cursor_state" where
  "rewound file_len = \<lparr>ac_offset = file_len, ac_boundary_probe = None, ac_pending_multiline_eof_len = None\<rparr>"

text \<open>The two checks of a cursor against the bytes that were read: a shorter file, other bytes before the cursor.\<close>

definition validate_cursor :: "byte list \<Rightarrow> action_cursor_state \<Rightarrow> action_cursor_state" where
  "validate_cursor bytes cursor =
     (if length bytes < ac_offset cursor then rewound (length bytes)
      else if 0 < ac_offset cursor \<and> ac_boundary_probe cursor \<noteq> None \<and>
              boundary_probe_from_bytes bytes (ac_offset cursor) \<noteq> ac_boundary_probe cursor
      then advance bytes (length bytes)
      else cursor)"

type_synonym cursor_map = "string \<rightharpoonup> action_cursor_state"

definition process_action_sink ::
  "json_lib \<Rightarrow> action_consumer_config \<Rightarrow> (nat \<Rightarrow> string) \<Rightarrow> 'h action_handler \<Rightarrow> sink_file \<Rightarrow> string \<Rightarrow>
     nat \<Rightarrow> cursor_map \<Rightarrow> 'h \<Rightarrow> (string + bool) \<times> cursor_map \<times> 'h \<times> nat" where
  "process_action_sink J config ids H sink action_path k cursors h =
     (let rel = rel_path_for_log action_path
      in if \<not> is_safe_action_rel_path rel then (Inr False, cursors, h, k)
         else case find_action_spec (acc_action_specs config) rel of
           None \<Rightarrow> (Inr False, cursors, h, k)
         | Some spec \<Rightarrow>
             let original = (case cursors rel of Some c \<Rightarrow> c | None \<Rightarrow> default_cursor)
             in case sf_metadata_len sink of
                  None \<Rightarrow> (Inr False, cursors, h, k)
                | Some file_len \<Rightarrow>
                    if ac_offset original = file_len then (Inr False, cursors, h, k)
                    else let cursor = (if file_len < ac_offset original then rewound file_len else original)
                         in case sf_read sink of
                              None \<Rightarrow> (Inr False, cursors, h, k)
                            | Some bytes \<Rightarrow>
                                let cursor1 = validate_cursor bytes cursor;
                                    E = \<lparr>se_json = J, se_config = config, se_rel = rel, se_spec = spec, se_ids = ids,
                                         se_handler = H, se_bytes = bytes\<rparr>
                                in case sink_loop E k (ac_offset cursor1) cursor1 h of
                                     (Inl e, h', k') \<Rightarrow> (Inl e, cursors, h', k')
                                   | (Inr c, h', k') \<Rightarrow>
                                       if c \<noteq> original then (Inr True, cursors(rel \<mapsto> c), h', k')
                                       else (Inr False, cursors, h', k'))"

section \<open>A drain\<close>

text \<open>
  The action files as \<open>collect_action_files_for_config\<close> orders them: the configured order, or
  what the directory walk found, sorted as paths are compared, component by component.
\<close>

definition collect_action_files_for_config :: "action_consumer_config \<Rightarrow> string list \<Rightarrow> (string \<rightharpoonup> sink_file) \<Rightarrow> string list" where
  "collect_action_files_for_config config found files =
     (case acc_fixed_action_order config of
        Some order \<Rightarrow> filter (\<lambda>rel. files rel \<noteq> None) order
      | None \<Rightarrow> sort_key (str_split (CHR ''/'')) found)"

fun drain_loop ::
  "json_lib \<Rightarrow> action_consumer_config \<Rightarrow> (nat \<Rightarrow> string) \<Rightarrow> 'h action_handler \<Rightarrow> (string \<rightharpoonup> sink_file) \<Rightarrow>
     string list \<Rightarrow> nat \<Rightarrow> bool \<Rightarrow> cursor_map \<Rightarrow> 'h \<Rightarrow> (string + cursor_map \<times> bool) \<times> 'h \<times> nat" where
  "drain_loop J config ids H files [] k dirty cursors h = (Inr (cursors, dirty), h, k)"
| "drain_loop J config ids H files (a # as) k dirty cursors h =
     (case process_action_sink J config ids H
             (case files a of Some f \<Rightarrow> f | None \<Rightarrow> \<lparr>sf_metadata_len = None, sf_read = None\<rparr>) a k cursors h of
        (Inl e, _, h', k') \<Rightarrow> (Inl e, h', k')
      | (Inr changed, cursors', h', k') \<Rightarrow> drain_loop J config ids H files as k' (dirty \<or> changed) cursors' h')"

definition drain_action_sinks_uncommitted ::
  "json_lib \<Rightarrow> action_consumer_config \<Rightarrow> (nat \<Rightarrow> string) \<Rightarrow> 'h action_handler \<Rightarrow> string list \<Rightarrow> (string \<rightharpoonup> sink_file) \<Rightarrow>
     nat \<Rightarrow> cursor_map \<Rightarrow> 'h \<Rightarrow> (string + cursor_map \<times> bool) \<times> 'h \<times> nat" where
  "drain_action_sinks_uncommitted J config ids H found files k cursors h =
     drain_loop J config ids H files (collect_action_files_for_config config found files) k False cursors h"

text \<open>
  The commit writes the cursor document and replaces the cursors in memory only when that
  succeeded; \<open>written\<close> is the result of the write.
\<close>

definition commit_action_cursors :: "string + unit \<Rightarrow> cursor_map \<Rightarrow> cursor_map \<Rightarrow> (string + unit) \<times> cursor_map" where
  "commit_action_cursors written cursors next_cursors =
     (case written of Inl e \<Rightarrow> (Inl e, cursors) | Inr _ \<Rightarrow> (Inr (), next_cursors))"

definition drain_action_sinks ::
  "json_lib \<Rightarrow> action_consumer_config \<Rightarrow> (nat \<Rightarrow> string) \<Rightarrow> 'h action_handler \<Rightarrow> string list \<Rightarrow> (string \<rightharpoonup> sink_file) \<Rightarrow>
     string + unit \<Rightarrow> nat \<Rightarrow> cursor_map \<Rightarrow> 'h \<Rightarrow> (string + unit) \<times> cursor_map \<times> 'h \<times> nat" where
  "drain_action_sinks J config ids H found files written k cursors h =
     (case drain_action_sinks_uncommitted J config ids H found files k cursors h of
        (Inl e, h', k') \<Rightarrow> (Inl e, cursors, h', k')
      | (Inr (next_cursors, dirty), h', k') \<Rightarrow>
          if dirty then (case commit_action_cursors written cursors next_cursors of (r, c) \<Rightarrow> (r, c, h', k'))
          else (Inr (), cursors, h', k'))"

end
