(* ===== verification/Action_Delivery.thy ===== *)
theory Action_Delivery
  imports Action_Consumer
begin

text \<open>
  What a drain delivers. The reference is the list of the complete lines of a sink. For sinks
  whose lines are one payload each, the handler takes exactly the lines between the old and
  the new cursor, in order, and it makes no difference in how many drains the file is read.
\<close>

section \<open>The lines of a sink\<close>

function sink_lines :: "byte list \<Rightarrow> nat \<Rightarrow> (nat \<times> nat) list" where
  "sink_lines bytes position =
     (let pos = skip_nuls bytes position
      in if length bytes \<le> pos then []
         else case find_byte 10 (drop pos bytes) of
                None \<Rightarrow> []
              | Some rel \<Rightarrow> (pos, pos + rel + 1) # sink_lines bytes (pos + rel + 1))"
  by pat_completeness auto
termination
proof (relation "measure (\<lambda>(bytes, position). length bytes - position)", simp, goal_cases)
  case (1 bytes position pos rel)
  with skip_nuls_ge [of position bytes] find_byte_less [of 10 "drop pos bytes" rel] show ?case by auto
qed

declare sink_lines.simps [simp del]

definition line_bytes :: "byte list \<Rightarrow> nat \<times> nat \<Rightarrow> byte list" where
  "line_bytes bytes l = take (snd l - fst l) (drop (fst l) bytes)"

text \<open>A line that is one payload: it decodes to JSON or at least has no open quote.\<close>

definition plain_line :: "json_lib \<Rightarrow> byte list \<Rightarrow> nat \<times> nat \<Rightarrow> bool" where
  "plain_line J bytes l =
     (case decode_jsonl_line (line_bytes bytes l) (fst l = 0) of
        Inr (Some p) \<Rightarrow> json_ok J p \<or> \<not> has_odd_unescaped_quotes p
      | _ \<Rightarrow> True)"

text \<open>What is handed to the handler for a line: a message about it, or a payload.\<close>

definition line_entry :: "json_lib \<Rightarrow> bool \<Rightarrow> byte list \<Rightarrow> nat \<times> nat \<Rightarrow> (string + string) list" where
  "line_entry J strict bytes l =
     (case decode_jsonl_line (line_bytes bytes l) (fst l = 0) of
        Inl reason \<Rightarrow> [Inl reason]
      | Inr None \<Rightarrow> []
      | Inr (Some p) \<Rightarrow>
          (case normalize_actionline_payload J p strict of
             Inl v \<Rightarrow> [Inl (alv_reason v)]
           | Inr None \<Rightarrow> [Inr p]
           | Inr (Some q) \<Rightarrow> [Inr (pal_payload_json q)]))"

definition entries_between :: "json_lib \<Rightarrow> bool \<Rightarrow> byte list \<Rightarrow> nat \<Rightarrow> nat \<Rightarrow> (string + string) list" where
  "entries_between J strict bytes a b =
     concat (map (line_entry J strict bytes) (filter (\<lambda>l. snd l \<le> b) (sink_lines bytes a)))"

text \<open>A handler that also notes what it was given, and whether it took it.\<close>

type_synonym call_log = "((string + string) \<times> bool) list"

definition noting :: "string + string \<Rightarrow> call_log \<Rightarrow> (string + process_outcome) \<times> 'h \<Rightarrow> (string + process_outcome) \<times> call_log \<times> 'h" where
  "noting entry log answer = (fst answer, log @ [(entry, fst answer = Inr Consumed)], snd answer)"

definition logged :: "'h action_handler \<Rightarrow> (call_log \<times> 'h) action_handler" where
  "logged H =
     \<lparr>handle_action_invocation = (\<lambda>inv spec s. noting (Inr (ai_payload_json inv)) (fst s) (handle_action_invocation H inv spec (snd s))),
      handle_invalid_action_payload = (\<lambda>inv s. noting (Inl (iap_message inv)) (fst s) (handle_invalid_action_payload H inv (snd s)))\<rparr>"

definition taken :: "(string + string) list \<Rightarrow> call_log" where
  "taken entries = map (\<lambda>e. (e, True)) entries"

lemma taken_append [simp]: "taken (a @ b) = taken a @ taken b" "taken [] = []" "taken [e] = [(e, True)]"
  by (simp_all add: taken_def)

text \<open>A call that was refused: the line that starts at this position, handed over and not taken.\<close>

definition refused_at :: "json_lib \<Rightarrow> bool \<Rightarrow> byte list \<Rightarrow> nat \<Rightarrow> call_log \<Rightarrow> bool" where
  "refused_at J strict bytes a calls \<longleftrightarrow>
     (case sink_lines bytes a of [] \<Rightarrow> False | l # _ \<Rightarrow> \<exists>e. line_entry J strict bytes l = [e] \<and> calls = [(e, False)])"

lemma sink_lines_Cons:
  assumes "find_byte 10 (drop (skip_nuls bytes position) bytes) = Some rel" and "skip_nuls bytes position < length bytes"
  shows "sink_lines bytes position =
    (skip_nuls bytes position, skip_nuls bytes position + rel + 1) # sink_lines bytes (skip_nuls bytes position + rel + 1)"
  using assms by (subst sink_lines.simps) (simp add: Let_def)

lemma sink_lines_end:
  "length bytes \<le> skip_nuls bytes position \<or> find_byte 10 (drop (skip_nuls bytes position) bytes) = None \<Longrightarrow>
   sink_lines bytes position = []"
  by (subst sink_lines.simps) (auto simp: Let_def)

lemma sink_lines_bounds: "l \<in> set (sink_lines bytes position) \<Longrightarrow> position \<le> fst l \<and> fst l < snd l \<and> skip_nuls bytes position < snd l"
proof (induction bytes position rule: sink_lines.induct)
  case (1 bytes position)
  show ?case
  proof (cases "length bytes \<le> skip_nuls bytes position \<or> find_byte 10 (drop (skip_nuls bytes position) bytes) = None")
    case True
    with 1 sink_lines_end show ?thesis by fastforce
  next
    case False
    then obtain rel where rel: "find_byte 10 (drop (skip_nuls bytes position) bytes) = Some rel"
      "skip_nuls bytes position < length bytes" by auto
    from 1(2) sink_lines_Cons [OF rel] skip_nuls_ge [of position bytes]
      1(1) [OF refl _ rel(1)] rel(2) skip_nuls_ge [of "skip_nuls bytes position + rel + 1" bytes]
    show ?thesis by auto
  qed
qed

section \<open>One line\<close>

lemma multiline_plain:
  assumes "json_ok J p \<or> \<not> has_odd_unescaped_quotes p"
  shows "multiline_payload J bytes spec p line_end c = Proceed p line_end (c\<lparr>ac_pending_multiline_eof_len := None\<rparr>)"
  using assms by (auto simp: multiline_payload_def Let_def)

text \<open>The possible steps of a plain line, with a handler that notes what it took.\<close>

lemma process_plain_line:
  assumes plain: "plain_line (se_json E) (se_bytes E) (pos, line_end)"
    and H: "se_handler E = logged H"
    and step: "process_line E k pos line_end cursor (log, h) = step"
  shows "(\<exists>h'. step = Next line_end
        (log @ taken (line_entry (se_json E) (acc_actionline_strict (se_config E)) (se_bytes E) (pos, line_end)), h')) \<or>
     (\<exists>c h' e. step = Stop c (log @ [(e, False)], h') \<and> ac_offset c = ac_offset cursor \<and>
        line_entry (se_json E) (acc_actionline_strict (se_config E)) (se_bytes E) (pos, line_end) = [e]) \<or>
     (\<exists>e s. step = Fail e s)"
proof (cases "decode_jsonl_line (take (line_end - pos) (drop pos (se_bytes E))) (pos = 0)")
  case (Inl reason)
  with step H show ?thesis
    by (auto simp: process_line_def Let_def reject_line_def logged_def noting_def line_entry_def line_bytes_def
        split: prod.splits sum.splits process_outcome.splits)
next
  case (Inr d)
  show ?thesis
  proof (cases d)
    case None
    with Inr step show ?thesis by (auto simp: process_line_def Let_def line_entry_def line_bytes_def)
  next
    case (Some p)
    with plain Inr have "json_ok (se_json E) p \<or> \<not> has_odd_unescaped_quotes p" by (simp add: plain_line_def line_bytes_def)
    with Inr Some step H show ?thesis
      by (auto simp: process_line_def Let_def multiline_plain reject_line_def logged_def noting_def invocation_for_def line_entry_def
          line_bytes_def split: prod.splits sum.splits process_outcome.splits option.splits)
  qed
qed

section \<open>Exactly once, in order\<close>

lemma sink_loop_step:
  "sink_loop E k position cursor h =
     (if length (se_bytes E) \<le> position then (Inr cursor, h, k)
      else let pos = skip_nuls (se_bytes E) position;
               cursor1 = (if pos = position then cursor else advance (se_bytes E) pos)
           in if length (se_bytes E) \<le> pos then (Inr cursor1, h, k)
              else case find_byte 10 (drop pos (se_bytes E)) of
                     None \<Rightarrow> (Inr cursor1, h, k)
                   | Some rel \<Rightarrow>
                       (case process_line E k pos (pos + rel + 1) cursor1 h of
                          Stop c h' \<Rightarrow> (Inr c, h', k + 1)
                        | Fail e h' \<Rightarrow> (Inl e, h', k + 1)
                        | Next e h' \<Rightarrow> sink_loop E (k + 1) e (advance (se_bytes E) e) h'))"
  by (subst sink_loop.simps) (simp add: Let_def)

lemma sink_loop_line:
  assumes "b = se_bytes E" and "\<not> length b \<le> position" and "pos = skip_nuls b position" and "pos < length b"
    and "find_byte 10 (drop pos b) = Some rel" and "cursor1 = (if pos = position then cursor else advance b pos)"
  shows "sink_loop E k position cursor h = (case process_line E k pos (pos + rel + 1) cursor1 h of
      Stop c h' \<Rightarrow> (Inr c, h', k + 1) | Fail e h' \<Rightarrow> (Inl e, h', k + 1)
    | Next e h' \<Rightarrow> sink_loop E (k + 1) e (advance b e) h')"
  unfolding sink_loop_step [of E k position cursor h] Let_def assms(1) [symmetric] assms(3) [symmetric] assms(6) [symmetric]
  using assms(2,4,5) by simp

lemma ac_offset_advance [simp]: "ac_offset (advance bytes p) = p"
  by (simp add: advance_def)

lemma entries_between_empty: "b \<le> skip_nuls bytes a \<Longrightarrow> entries_between J strict bytes a b = []"
  using sink_lines_bounds [of _ bytes a] by (fastforce simp: entries_between_def filter_empty_conv)

text \<open>NUL bytes before a line may be skipped in a drain of their own.\<close>

lemma skip_nuls_again:
  assumes "position \<le> p" and "p \<le> skip_nuls bytes position"
  shows "skip_nuls bytes p = skip_nuls bytes position"
proof -
  let ?t = "takeWhile (\<lambda>b. b = 0) (drop position bytes)"
  have "p - position \<le> length ?t" using assms by (simp add: skip_nuls_def)
  moreover have "takeWhile P (drop n xs) = drop n (takeWhile P xs)" if "n \<le> length (takeWhile P xs)" for P n and xs :: "byte list"
    using that by (induction xs arbitrary: n) (auto simp: drop_Cons' split: nat.splits)
  ultimately have "takeWhile (\<lambda>b. b = 0) (drop p bytes) = drop (p - position) ?t"
    using assms(1) by (metis add.commute drop_drop le_add_diff_inverse2)
  then show ?thesis using assms by (simp add: skip_nuls_def)
qed

lemma sink_loop_exactly_once:
  assumes "sink_loop E k position cursor s = (Inr c, (log', h'), k')" and "se_handler E = logged H"
    and "list_all (plain_line (se_json E) (se_bytes E)) (sink_lines (se_bytes E) position)"
    and "ac_offset cursor = position"
  shows "position \<le> ac_offset c \<and> (\<exists>calls.
    log' = fst s @ taken (entries_between (se_json E) (acc_actionline_strict (se_config E)) (se_bytes E) position (ac_offset c)) @ calls \<and>
    (calls = [] \<or> refused_at (se_json E) (acc_actionline_strict (se_config E)) (se_bytes E) (ac_offset c) calls))"
  using assms
proof (induction E k position cursor s rule: sink_loop.induct)
  case (1 E k position cursor s)
  let ?b = "se_bytes E" and ?J = "se_json E" and ?st = "acc_actionline_strict (se_config E)"
  let ?pos = "skip_nuls ?b position"
  define cursor1 where "cursor1 = (if ?pos = position then cursor else advance ?b ?pos)"
  have off1: "ac_offset cursor1 = ?pos" using 1(5) by (simp add: cursor1_def)
  have ge: "position \<le> ?pos" by (rule skip_nuls_ge)
  show ?case
  proof (cases "\<not> length ?b \<le> position \<and> \<not> length ?b \<le> ?pos \<and> find_byte 10 (drop ?pos ?b) \<noteq> None")
    case False
    then consider "length ?b \<le> position" | "\<not> length ?b \<le> position" "length ?b \<le> ?pos \<or> find_byte 10 (drop ?pos ?b) = None"
      by auto
    then have "(c = cursor \<or> c = cursor1) \<and> (log', h') = s"
      using 1(2) unfolding sink_loop_step [of E k position cursor s] Let_def cursor1_def [symmetric]
      by cases (auto split: option.splits if_splits)
    moreover from this have "ac_offset c \<le> ?pos" "position \<le> ac_offset c" using off1 1(5) ge by auto
    ultimately show ?thesis by (auto simp: entries_between_empty)
  next
    case True
    then obtain rel where rel: "find_byte 10 (drop ?pos ?b) = Some rel" "?pos < length ?b" and nend: "\<not> length ?b \<le> position" by auto
    let ?e = "?pos + rel + 1"
    have lines: "sink_lines ?b position = (?pos, ?e) # sink_lines ?b ?e" by (rule sink_lines_Cons [OF rel])
    have plain: "plain_line ?J ?b (?pos, ?e)" using 1(4) lines by simp
    note loop = sink_loop_line [OF refl nend refl rel(2,1) cursor1_def, of k s]
    have s: "s = (fst s, snd s)" by simp
    from process_plain_line [OF plain 1(3), of k cursor1 "fst s" "snd s", OF refl]
    consider (nxt) h1 where "process_line E k ?pos ?e cursor1 s = Next ?e (fst s @ taken (line_entry ?J ?st ?b (?pos, ?e)), h1)"
      | (stp) c1 h1 e where "process_line E k ?pos ?e cursor1 s = Stop c1 (fst s @ [(e, False)], h1)" "ac_offset c1 = ac_offset cursor1"
          "line_entry ?J ?st ?b (?pos, ?e) = [e]"
      | (failed) e1 s1 where "process_line E k ?pos ?e cursor1 s = Fail e1 s1"
      unfolding s [symmetric] by blast
    then show ?thesis
    proof cases
      case nxt
      have IH: "?e \<le> ac_offset c \<and> (\<exists>calls. log' = (fst s @ taken (line_entry ?J ?st ?b (?pos, ?e))) @
          taken (entries_between ?J ?st ?b ?e (ac_offset c)) @ calls \<and> (calls = [] \<or> refused_at ?J ?st ?b (ac_offset c) calls))"
        using 1(1) [OF refl nend refl cursor1_def _ rel(1), of ?e] nxt rel(2) loop 1(2,3,4) lines by simp
      then have "entries_between ?J ?st ?b position (ac_offset c) =
          line_entry ?J ?st ?b (?pos, ?e) @ entries_between ?J ?st ?b ?e (ac_offset c)"
        by (simp add: entries_between_def lines)
      with IH ge show ?thesis by simp
    next
      case stp
      with loop 1(2) off1 have c: "ac_offset c = ?pos" "log' = fst s @ [(e, False)]" by auto
      have "skip_nuls ?b ?pos = ?pos" using skip_nuls_again [OF ge] by simp
      then have "sink_lines ?b ?pos = (?pos, ?e) # sink_lines ?b ?e" using sink_lines_Cons [of ?b ?pos rel] rel by simp
      with c stp(3) have "refused_at ?J ?st ?b (ac_offset c) [(e, False)]" by (simp add: refused_at_def)
      with ge c show ?thesis by (auto simp: entries_between_empty)
    next
      case failed
      with loop 1(2) show ?thesis by simp
    qed
  qed
qed

section \<open>Reading in several drains\<close>

definition takes_all :: "'h action_handler \<Rightarrow> bool" where
  "takes_all H \<longleftrightarrow> (\<forall>inv spec h. fst (handle_action_invocation H inv spec h) = Inr Consumed) \<and>
     (\<forall>inv h. fst (handle_invalid_action_payload H inv h) = Inr Consumed)"

lemma takes_allD:
  assumes "takes_all H"
  obtains h1 h2 where "handle_action_invocation H invo spec h = (Inr Consumed, h1)"
    and "handle_invalid_action_payload H inva h = (Inr Consumed, h2)"
  using assms by (metis takes_all_def prod.collapse)

lemma env_bytes [simp]:
  "reject_line (E\<lparr>se_bytes := b\<rparr>) = reject_line E" "invocation_for (E\<lparr>se_bytes := b\<rparr>) = invocation_for E"
  by (simp_all add: reject_line_def invocation_for_def fun_eq_iff split: option.split)

lemma reject_takes_all: "takes_all (se_handler E) \<Longrightarrow> \<exists>h'. reject_line E r cd m line_end c h = Next line_end h'"
proof -
  let ?i = "\<lparr>iap_rel_path = se_rel E, iap_normalized_path = normalized_action_path (se_rel E),
    iap_request_id = r, iap_code = cd, iap_message = m, iap_client_token = None\<rparr>"
  assume "takes_all (se_handler E)"
  then obtain h2 where "handle_invalid_action_payload (se_handler E) ?i h = (Inr Consumed, h2)" by (rule takes_allD)
  then show ?thesis by (simp add: reject_line_def)
qed

lemma process_takes_all:
  assumes plain: "plain_line (se_json E) (se_bytes E) (pos, line_end)" and takes: "takes_all (se_handler E)"
  shows "\<exists>h'. process_line E k pos line_end c h = Next line_end h'"
proof (cases "decode_jsonl_line (take (line_end - pos) (drop pos (se_bytes E))) (pos = 0)")
  case (Inl reason)
  with reject_takes_all [OF takes] show ?thesis by (simp add: process_line_def)
next
  case (Inr d)
  show ?thesis
  proof (cases d)
    case (Some p)
    with plain Inr have "json_ok (se_json E) p \<or> \<not> has_odd_unescaped_quotes p" by (simp add: plain_line_def line_bytes_def)
    note eq = Inr Some multiline_plain [OF this]
    show ?thesis
    proof (cases "normalize_actionline_payload (se_json E) p (acc_actionline_strict (se_config E))")
      case (Inl v)
      with eq reject_takes_all [OF takes] show ?thesis by (simp add: process_line_def Let_def)
    next
      case (Inr parsed)
      let ?i = "invocation_for E (se_ids E k) (ac_offset c) (case parsed of Some q \<Rightarrow> pal_payload_json q | None \<Rightarrow> p)
        (map_option pal_client_token parsed)"
      obtain h1 where "handle_action_invocation (se_handler E) ?i (se_spec E) h = (Inr Consumed, h1)"
        by (rule takes_allD [OF takes])
      with eq Inr show ?thesis by (simp add: process_line_def Let_def)
    qed
  qed (use Inr in \<open>simp add: process_line_def\<close>)
qed

text \<open>The bytes that were appended later play no part in the handling of a plain line.\<close>

lemma process_line_append:
  assumes plain: "plain_line (se_json E) b1 (pos, line_end)" and len: "line_end \<le> length b1"
  shows "process_line (E\<lparr>se_bytes := b1 @ b2\<rparr>) k pos line_end c h = process_line (E\<lparr>se_bytes := b1\<rparr>) k pos line_end c h"
proof -
  have slc: "take (line_end - pos) (drop pos (b1 @ b2)) = take (line_end - pos) (drop pos b1)"
    using len by (cases "pos \<le> length b1") simp_all
  show ?thesis
  proof (cases "\<exists>p. decode_jsonl_line (take (line_end - pos) (drop pos b1)) (pos = 0) = Inr (Some p)")
    case True
    then obtain p where p: "decode_jsonl_line (take (line_end - pos) (drop pos b1)) (pos = 0) = Inr (Some p)" by blast
    with plain have "json_ok (se_json E) p \<or> \<not> has_odd_unescaped_quotes p" by (simp add: plain_line_def line_bytes_def)
    with p show ?thesis
      by (simp add: process_line_def slc multiline_plain del: drop_append take_append cong: sum.case_cong)
  next
    case False
    then show ?thesis by (simp add: process_line_def Let_def slc del: drop_append take_append split: sum.splits option.splits)
  qed
qed

lemma sink_loop_skip:
  assumes "position \<le> p" and "p \<le> skip_nuls (se_bytes E) position" and "p \<le> length (se_bytes E)"
    and c: "c1 = (if p = position then c else advance (se_bytes E) p)"
  shows "sink_loop E k position c h = sink_loop E k p c1 h"
proof (cases "p = position")
  case False
  let ?b = "se_bytes E"
  have pos: "skip_nuls ?b p = skip_nuls ?b position" by (rule skip_nuls_again [OF assms(1,2)])
  have ne: "skip_nuls ?b position \<noteq> position" using False assms(1,2) by simp
  show ?thesis
  proof (cases "p = length ?b")
    case True
    then have "skip_nuls ?b position = p" using skip_nuls_le [of position ?b] assms by simp
    with True False assms(1) c show ?thesis
      by (subst (1 2) sink_loop_step) (simp add: Let_def)
  next
    case neq: False
    then have "\<not> length ?b \<le> p" "\<not> length ?b \<le> position" using assms by simp_all
    moreover have "(if skip_nuls ?b position = p then c1 else advance ?b (skip_nuls ?b position)) = advance ?b (skip_nuls ?b position)"
      using c False by simp
    ultimately show ?thesis
      unfolding sink_loop_step [of E k position] sink_loop_step [of E k p] Let_def pos by (simp only: ne if_False)
  qed
qed (simp add: c)

lemma length_takeWhile_all: "length (takeWhile P xs) = length xs \<longleftrightarrow> (\<forall>x \<in> set xs. P x)"
  by (induction xs) auto

lemma skip_nuls_all: "position \<le> length bytes \<Longrightarrow> skip_nuls bytes position = length bytes \<longleftrightarrow> (\<forall>x \<in> set (drop position bytes). x = 0)"
  using length_takeWhile_all [of "\<lambda>b. b = 0" "drop position bytes"] by (auto simp: skip_nuls_def)

lemma skip_nuls_append:
  assumes "skip_nuls bytes position < length bytes"
  shows "skip_nuls (bytes @ rest) position = skip_nuls bytes position"
proof -
  have p: "position \<le> length bytes" using assms skip_nuls_ge [of position bytes] by simp
  with assms obtain x where "x \<in> set (drop position bytes)" "x \<noteq> 0" using skip_nuls_all [OF p] by auto
  with p show ?thesis by (simp add: skip_nuls_def takeWhile_append1)
qed

lemma skip_nuls_mono:
  assumes "position \<le> length bytes"
  shows "skip_nuls bytes position \<le> skip_nuls (bytes @ rest) position"
proof (cases "skip_nuls bytes position < length bytes")
  case False
  then have "skip_nuls bytes position = length bytes" using skip_nuls_le [OF assms] by simp
  then have "takeWhile (\<lambda>b. b = 0) (drop position bytes @ rest) = drop position bytes @ takeWhile (\<lambda>b. b = 0) rest"
    unfolding skip_nuls_all [OF assms] by (simp add: takeWhile_append2)
  then show ?thesis using assms False skip_nuls_le [OF assms] by (simp add: skip_nuls_def)
qed (simp add: skip_nuls_append)

text \<open>Reading a prefix first, then on from the cursor, is reading all at once.\<close>

lemma sink_loop_resume:
  assumes "sink_loop (E\<lparr>se_bytes := b1\<rparr>) k position cursor h = (Inr c1, h1, k1)" and "takes_all (se_handler E)"
    and "list_all (plain_line (se_json E) b1) (sink_lines b1 position)"
    and "ac_offset cursor = position" and "position \<le> length b1"
  shows "sink_loop (E\<lparr>se_bytes := b1 @ b2\<rparr>) k position cursor h =
      sink_loop (E\<lparr>se_bytes := b1 @ b2\<rparr>) k1 (ac_offset c1) c1 h1 \<and>
    position \<le> ac_offset c1 \<and> ac_offset c1 \<le> length b1 \<and>
    (c1 = cursor \<or> position < ac_offset c1 \<and> c1 = advance b1 (ac_offset c1))"
  using assms
proof (induction "length b1 - position" arbitrary: k position cursor h rule: less_induct)
  case less
  let ?E1 = "E\<lparr>se_bytes := b1\<rparr>" and ?E2 = "E\<lparr>se_bytes := b1 @ b2\<rparr>" and ?pos = "skip_nuls b1 position"
  define cursor1 where "cursor1 = (if ?pos = position then cursor else advance b1 ?pos)"
  have ge: "position \<le> ?pos" and le: "?pos \<le> length b1" using skip_nuls_ge skip_nuls_le [OF less.prems(5)] .
  have off1: "ac_offset cursor1 = ?pos" using less.prems(4) by (simp add: cursor1_def)
  have adv: "advance (b1 @ b2) p = advance b1 p" if "p \<le> length b1" for p using that by (simp add: advance_def probe_append)
  have skip: "sink_loop ?E2 k position cursor h = sink_loop ?E2 k ?pos cursor1 h"
    by (rule sink_loop_skip) (use ge le skip_nuls_mono [OF less.prems(5)] adv [OF le] in \<open>simp_all add: cursor1_def\<close>)
  show ?case
  proof (cases "\<not> length b1 \<le> position \<and> \<not> length b1 \<le> ?pos \<and> find_byte 10 (drop ?pos b1) \<noteq> None")
    case False
    then have "(c1 = cursor1 \<or> c1 = cursor \<and> length b1 \<le> position) \<and> h1 = h \<and> k1 = k"
      using less.prems(1) unfolding sink_loop_step [of ?E1 k position cursor h] Let_def
      by (auto simp: cursor1_def split: option.splits if_splits)
    then consider "c1 = cursor1" "h1 = h" "k1 = k" | "c1 = cursor" "h1 = h" "k1 = k" by blast
    then show ?thesis
    proof cases
      case 1
      with skip off1 ge le show ?thesis by (simp add: cursor1_def)
    next
      case 2
      with less.prems(4,5) show ?thesis by simp
    qed
  next
    case True
    then obtain rel where rel: "find_byte 10 (drop ?pos b1) = Some rel" "?pos < length b1" and nend: "\<not> length b1 \<le> position" by auto
    let ?e = "?pos + rel + 1"
    have e: "?e \<le> length b1" using find_byte_less [OF rel(1)] by simp
    have lines: "sink_lines b1 position = (?pos, ?e) # sink_lines b1 ?e" by (rule sink_lines_Cons [OF rel])
    then have plain: "plain_line (se_json E) b1 (?pos, ?e)" using less.prems(3) by simp
    obtain h2 where h2: "process_line ?E1 k ?pos ?e cursor1 h = Next ?e h2"
      using process_takes_all [of ?E1 ?pos ?e k cursor1 h] plain less.prems(2) by auto
    then have h2': "process_line ?E2 k ?pos ?e cursor1 h = Next ?e h2" using process_line_append [OF plain e] by simp
    have l1: "sink_loop ?E1 (k + 1) ?e (advance b1 ?e) h2 = (Inr c1, h1, k1)"
      using less.prems(1) h2 sink_loop_line [of b1 ?E1 position ?pos rel cursor1 cursor k h] rel nend
      by (simp add: cursor1_def)
    have "find_byte 10 (drop ?pos (b1 @ b2)) = Some rel" using find_byte_append [OF rel(1), of b2] rel(2) by simp
    then have l2: "sink_loop ?E2 k ?pos cursor1 h = sink_loop ?E2 (k + 1) ?e (advance b1 ?e) h2"
      using h2' rel(2) skip_nuls_append [of b1 ?pos b2] skip_nuls_again [OF ge, of b1] adv [OF e]
        sink_loop_line [of "b1 @ b2" ?E2 ?pos ?pos rel cursor1 cursor1 k h] by simp
    have "sink_loop ?E2 (k + 1) ?e (advance b1 ?e) h2 = sink_loop ?E2 k1 (ac_offset c1) c1 h1 \<and> ?e \<le> ac_offset c1 \<and>
        ac_offset c1 \<le> length b1 \<and> (c1 = advance b1 ?e \<or> ?e < ac_offset c1 \<and> c1 = advance b1 (ac_offset c1))"
      by (rule less.hyps [OF _ l1 less.prems(2)]) (use ge rel lines less.prems(3) e in simp_all)
    with skip l2 ge show ?thesis by auto
  qed
qed

section \<open>Sinks and cursors\<close>

lemma process_line_takes:
  assumes "takes_all (se_handler E)"
  shows "process_line E k pos line_end c h \<noteq> Fail e h'"
proof -
  have r: "reject_line E i cd m l c' h \<noteq> Fail e h'" for i cd m l c'
    using reject_takes_all [OF assms, of i cd m l c' h] by auto
  have a: "fst (handle_action_invocation (se_handler E) i sp h) = Inr Consumed" for i sp
    using assms by (simp add: takes_all_def)
  show ?thesis
    unfolding process_line_def Let_def
    by (auto simp: r split: sum.splits option.splits multiline.splits prod.splits process_outcome.splits)
      (metis a fst_conv sum.distinct(1))+
qed

lemma process_line_Stop_offset:
  assumes "process_line E k pos line_end c h = Stop c' h'"
  shows "ac_offset c' = ac_offset c"
proof -
  have "multiline_payload J b sp p l c = Defer d \<Longrightarrow> ac_offset d = ac_offset c"
    and "multiline_payload J b sp p l c = Proceed q m d \<Longrightarrow> ac_offset d = ac_offset c" for J b sp p l d q m
    by (auto simp: multiline_payload_def Let_def split: if_splits option.splits multiline_recovery_outcome.splits)
  with assms show ?thesis
    unfolding process_line_def Let_def reject_line_def
    by (auto split: sum.splits option.splits multiline.splits prod.splits process_outcome.splits)
qed

lemma sink_loop_takes:
  assumes "takes_all (se_handler E)" and "ac_offset cursor = position"
  shows "\<exists>c h' k'. sink_loop E k position cursor h = (Inr c, h', k') \<and> position \<le> ac_offset c"
  using assms
proof (induction E k position cursor h rule: sink_loop.induct)
  case (1 E k position cursor h)
  let ?b = "se_bytes E" and ?pos = "skip_nuls (se_bytes E) position"
  define cursor1 where "cursor1 = (if ?pos = position then cursor else advance ?b ?pos)"
  have ge: "position \<le> ?pos" by (rule skip_nuls_ge)
  have off1: "ac_offset cursor1 = ?pos" using 1(3) by (simp add: cursor1_def)
  show ?case
  proof (cases "\<not> length ?b \<le> position \<and> \<not> length ?b \<le> ?pos \<and> find_byte 10 (drop ?pos ?b) \<noteq> None")
    case False
    with 1(3) ge show ?thesis
      unfolding sink_loop_step [of E k position cursor h] Let_def by (auto split: option.splits)
  next
    case True
    then obtain rel where rel: "find_byte 10 (drop ?pos ?b) = Some rel" "?pos < length ?b" and nend: "\<not> length ?b \<le> position" by auto
    let ?e = "?pos + rel + 1"
    note loop = sink_loop_line [OF refl nend refl rel(2,1) cursor1_def, of k h]
    show ?thesis
    proof (cases "process_line E k ?pos ?e cursor1 h")
      case (Stop c h')
      with loop process_line_Stop_offset [OF Stop] off1 ge show ?thesis by simp
    next
      case (Fail e h')
      with process_line_takes [OF 1(2)] show ?thesis by blast
    next
      case (Next e h')
      have "?e \<le> e" using process_line_Next [OF Next] find_byte_less [OF rel(1)] by simp
      moreover obtain c h2 k2 where "sink_loop E (k + 1) e (advance ?b e) h' = (Inr c, h2, k2)" "e \<le> ac_offset c"
        using 1(1) [OF refl nend refl cursor1_def _ rel(1) Next 1(2)] rel(2) by auto
      ultimately show ?thesis using loop Next ge by simp
    qed
  qed
qed

text \<open>A cursor that fits a file: inside it, with the bytes before it as the probe has them.\<close>

definition cursor_fits :: "byte list \<Rightarrow> action_cursor_state \<Rightarrow> bool" where
  "cursor_fits bytes c \<longleftrightarrow> ac_offset c \<le> length bytes \<and>
     (ac_offset c = 0 \<or> ac_boundary_probe c = None \<or> ac_boundary_probe c = boundary_probe_from_bytes bytes (ac_offset c))"

definition cursor_of :: "cursor_map \<Rightarrow> string \<Rightarrow> action_cursor_state" where
  "cursor_of cursors rel = (case cursors rel of Some c \<Rightarrow> c | None \<Rightarrow> default_cursor)"

definition file_with :: "byte list \<Rightarrow> sink_file" where
  "file_with bytes = \<lparr>sf_metadata_len = Some (length bytes), sf_read = Some bytes\<rparr>"

lemma validate_fits [simp]: "cursor_fits bytes c \<Longrightarrow> validate_cursor bytes c = c"
  by (auto simp: cursor_fits_def validate_cursor_def)

lemma cursor_fits_append: "cursor_fits b1 c \<Longrightarrow> cursor_fits (b1 @ b2) c"
  by (auto simp: cursor_fits_def probe_append)

lemma process_action_sink_eq:
  assumes safe: "is_safe_action_rel_path (rel_path_for_log path)"
    and spec: "find_action_spec (acc_action_specs config) (rel_path_for_log path) = Some spec"
    and fits: "cursor_fits bytes (cursor_of cursors (rel_path_for_log path))"
  shows "process_action_sink J config ids H (file_with bytes) path k cursors h =
    (case sink_loop \<lparr>se_json = J, se_config = config, se_rel = rel_path_for_log path, se_spec = spec, se_ids = ids,
              se_handler = H, se_bytes = bytes\<rparr> k (ac_offset (cursor_of cursors (rel_path_for_log path)))
              (cursor_of cursors (rel_path_for_log path)) h of
       (Inl e, h', k') \<Rightarrow> (Inl e, cursors, h', k')
     | (Inr c, h', k') \<Rightarrow> if c \<noteq> cursor_of cursors (rel_path_for_log path) then (Inr True, cursors(rel_path_for_log path \<mapsto> c), h', k')
                           else (Inr False, cursors, h', k'))"
proof (cases "ac_offset (cursor_of cursors (rel_path_for_log path)) = length bytes")
  case True
  with safe spec show ?thesis
    unfolding process_action_sink_def file_with_def cursor_of_def [symmetric] Let_def
    by (simp add: sink_loop_step)
next
  case False
  with fits have "\<not> length bytes < ac_offset (cursor_of cursors (rel_path_for_log path))" by (simp add: cursor_fits_def)
  with False safe spec fits show ?thesis
    unfolding process_action_sink_def file_with_def cursor_of_def [symmetric] Let_def by simp
qed

lemma drains_compose_aux:
  assumes takes: "takes_all H" and fits: "cursor_fits b1 (cursor_of cursors (rel_path_for_log path))"
    and plain: "list_all (plain_line J b1) (sink_lines b1 (ac_offset (cursor_of cursors (rel_path_for_log path))))"
    and first: "process_action_sink J config ids H (file_with b1) path k cursors h = (r1, cursors1, h1, k1)"
  shows "snd (process_action_sink J config ids H (file_with (b1 @ b2)) path k1 cursors1 h1) =
    snd (process_action_sink J config ids H (file_with (b1 @ b2)) path k cursors h)"
proof (cases "is_safe_action_rel_path (rel_path_for_log path) \<and> find_action_spec (acc_action_specs config) (rel_path_for_log path) \<noteq> None")
  case False
  with first show ?thesis by (auto simp: process_action_sink_def Let_def split: if_splits option.splits)
next
  case True
  let ?rel = "rel_path_for_log path" and ?c0 = "cursor_of cursors (rel_path_for_log path)"
  from True obtain spec where ok: "is_safe_action_rel_path ?rel" "find_action_spec (acc_action_specs config) ?rel = Some spec" by auto
  define E where "E = \<lparr>se_json = J, se_config = config, se_rel = ?rel, se_spec = spec, se_ids = ids,
    se_handler = H, se_bytes = b1\<rparr>"
  note eq = process_action_sink_eq [OF ok, where J = J and ids = ids and H = H]
  have takesE: "takes_all (se_handler (E\<lparr>se_bytes := b\<rparr>))" for b using takes by (simp add: E_def)
  obtain c1 h' k' where l1: "sink_loop (E\<lparr>se_bytes := b1\<rparr>) k (ac_offset ?c0) ?c0 h = (Inr c1, h', k')"
    using sink_loop_takes [OF takesE refl, of b1 k ?c0 h] by blast
  have "process_action_sink J config ids H (file_with b1) path k cursors h =
      (if c1 \<noteq> ?c0 then (Inr True, cursors(?rel \<mapsto> c1), h', k') else (Inr False, cursors, h', k'))"
    using eq [OF fits, of k h] l1 by (simp add: E_def)
  with first have hk: "h1 = h'" "k1 = k'" and cs1: "cursors1 = (if c1 \<noteq> ?c0 then cursors(?rel \<mapsto> c1) else cursors)"
    by (auto split: if_splits)
  then have c1: "cursor_of cursors1 ?rel = c1" by (simp add: cursor_of_def)
  have res: "sink_loop (E\<lparr>se_bytes := b1 @ b2\<rparr>) k (ac_offset ?c0) ?c0 h =
      sink_loop (E\<lparr>se_bytes := b1 @ b2\<rparr>) k1 (ac_offset c1) c1 h1"
    and at: "ac_offset c1 \<le> length b1" "c1 = ?c0 \<or> ac_offset ?c0 < ac_offset c1 \<and> c1 = advance b1 (ac_offset c1)"
    using sink_loop_resume [OF l1 _ _ refl, of b2] takes plain fits hk by (simp_all add: E_def cursor_fits_def)
  have "cursor_fits b1 (advance b1 (ac_offset c1))" using at(1) by (simp add: cursor_fits_def advance_def)
  then have "cursor_fits b1 c1" using at(2) fits by metis
  then have fits2: "cursor_fits (b1 @ b2) c1" by (rule cursor_fits_append)
  obtain c2 h2 k2 where l2: "sink_loop (E\<lparr>se_bytes := b1 @ b2\<rparr>) k1 (ac_offset c1) c1 h1 = (Inr c2, h2, k2)" "ac_offset c1 \<le> ac_offset c2"
    using sink_loop_takes [OF takesE refl, of "b1 @ b2" k1 c1 h1] by blast
  have whole: "process_action_sink J config ids H (file_with (b1 @ b2)) path k cursors h =
      (if c2 \<noteq> ?c0 then (Inr True, cursors(?rel \<mapsto> c2), h2, k2) else (Inr False, cursors, h2, k2))"
    using eq [OF cursor_fits_append [OF fits], of b2 k h] res l2(1) by (simp add: E_def)
  have rest: "process_action_sink J config ids H (file_with (b1 @ b2)) path k1 cursors1 h1 =
      (if c2 \<noteq> c1 then (Inr True, cursors1(?rel \<mapsto> c2), h2, k2) else (Inr False, cursors1, h2, k2))"
    using eq [of "b1 @ b2" cursors1 k1 h1] fits2 l2(1) by (simp add: E_def c1)
  show ?thesis
  proof (cases "c1 = ?c0")
    case True
    with whole rest cs1 show ?thesis by simp
  next
    case False
    with at l2(2) have "c2 \<noteq> ?c0" by auto
    with False whole rest cs1 show ?thesis by simp
  qed
qed

text \<open>
  The probe of the bytes before a cursor. A step of FNV-1a can be undone, its factor is odd; so the hash
  of a window with one other byte is another one.
\<close>

lemma fnv_prime_inverse: "(0x100000001b3 :: 64 word) * 0xce965057aff6957b = 1"
  by simp

lemma fnv_mult_inj: "(a :: 64 word) * 0x100000001b3 = c * 0x100000001b3 \<longleftrightarrow> a = c"
proof
  assume "a * 0x100000001b3 = c * 0x100000001b3"
  then have "a * 0x100000001b3 * 0xce965057aff6957b = c * 0x100000001b3 * 0xce965057aff6957b" by (rule arg_cong)
  then show "a = c" unfolding mult.assoc fnv_prime_inverse by simp
qed simp

lemma xor_inj: "(a :: 64 word) XOR w = c XOR w \<longleftrightarrow> a = c"
proof
  assume eq: "a XOR w = c XOR w"
  have "a = (a XOR w) XOR w" by (simp add: xor.assoc)
  also have "\<dots> = c" unfolding eq by (simp add: xor.assoc)
  finally show "a = c" .
qed simp

lemma fnv_step_inj: "fnv_step w a = fnv_step w c \<longleftrightarrow> a = c"
  by (simp only: fnv_step_def fnv_mult_inj xor_inj)

lemma ucast_ucast_byte: "(ucast (ucast (x :: byte) :: 64 word) :: byte) = x"
  by (rule bit_word_eqI) (simp add: bit_simps)

lemma fnv_step_byte: "fnv_step x a = fnv_step y a \<longleftrightarrow> x = y"
proof -
  have "fnv_step x a = fnv_step y a \<longleftrightarrow> (ucast x :: 64 word) = ucast y"
    unfolding fnv_step_def fnv_mult_inj xor.commute [of a] xor_inj ..
  also have "\<dots> \<longleftrightarrow> x = y" by (metis (no_types) ucast_ucast_byte)
  finally show ?thesis .
qed

lemma fold_fnv_inj: "fold fnv_step ws a = fold fnv_step ws c \<longleftrightarrow> a = c"
  by (induction ws arbitrary: a c) (simp_all add: fnv_step_inj)

lemma fnv1a_one_byte: "x \<noteq> y \<Longrightarrow> fnv1a_64 (u @ x # v) \<noteq> fnv1a_64 (u @ y # v)"
  by (simp add: fnv1a_64_def fold_fnv_inj fnv_step_byte)

lemma hex_digit_inj:
  assumes "hex_digit m = hex_digit n" "m < 16" "n < 16"
  shows "m = n"
proof -
  have "(of_char (hex_digit k) :: nat) = (if k < 10 then 48 + k else 87 + k)" if "k < 16" for k
    using that by (simp add: hex_digit_def)
  with assms have "(if m < 10 then 48 + m else 87 + m) = (if n < 10 then 48 + n else 87 + n)" by metis
  then show ?thesis by (simp split: if_splits)
qed

lemma hex_digits_inj:
  "\<forall>j<k. m div 16 ^ j mod 16 = n div 16 ^ j mod 16 \<Longrightarrow> m < 16 ^ k \<Longrightarrow> n < 16 ^ k \<Longrightarrow> m = (n :: nat)"
proof (induction k arbitrary: m n)
  case (Suc k)
  have "m div 16 div 16 ^ j mod 16 = n div 16 div 16 ^ j mod 16" if "j < k" for j
    using Suc.prems(1) [rule_format, of "Suc j"] that by (simp add: div_mult2_eq)
  moreover have "m div 16 < 16 ^ k" "n div 16 < 16 ^ k" using Suc.prems(2,3) by (simp_all add: less_mult_imp_div_less mult.commute)
  ultimately have "m div 16 = n div 16" using Suc.IH by blast
  moreover have "m mod 16 = n mod 16" using Suc.prems(1) [rule_format, of 0] by simp
  ultimately show ?case by (metis mult_div_mod_eq)
qed simp

lemma hex16_inj:
  assumes "hex16 a = hex16 c"
  shows "a = c"
proof -
  have "hex_digit (unat a div 16 ^ (15 - i) mod 16) = hex_digit (unat c div 16 ^ (15 - i) mod 16)" if "i < 16" for i
    using assms that by (simp add: hex16_def)
  then have digits: "unat a div 16 ^ (15 - i) mod 16 = unat c div 16 ^ (15 - i) mod 16" if "i < 16" for i
    using that hex_digit_inj [of "unat a div 16 ^ (15 - i) mod 16" "unat c div 16 ^ (15 - i) mod 16"] by simp
  have "unat a div 16 ^ j mod 16 = unat c div 16 ^ j mod 16" if "j < 16" for j
    using digits [of "15 - j"] that by simp
  moreover have "unat a < 16 ^ 16" "unat c < 16 ^ 16" using unsigned_less [of a, where ?'a = nat] unsigned_less [of c, where ?'a = nat] by simp_all
  ultimately show ?thesis using hex_digits_inj by (metis unsigned_word_eqI)
qed

lemma probe_one_byte:
  assumes "length b < 64" "x \<noteq> y"
  shows "boundary_probe_from_bytes (a @ y # b @ rest') (length a + 1 + length b) \<noteq>
    boundary_probe_from_bytes (a @ x # b @ rest) (length a + 1 + length b)"
proof -
  let ?n = "length a + 1 + length b - ACTION_CURSOR_PROBE_WINDOW"
  have n: "?n \<le> length a" using assms(1) by (simp add: ACTION_CURSOR_PROBE_WINDOW_def)
  then have "drop ?n (a @ z # b) = drop ?n a @ z # b" for z :: byte by simp
  then show ?thesis using fnv1a_one_byte [OF assms(2), of "drop ?n a" b] hex16_inj
    by (auto simp: boundary_probe_from_bytes_def Let_def)
qed

text \<open>A sink that was cut or rewritten below the cursor is not executed again: the cursor goes to its end.\<close>

lemma sink_loop_at_end: "length (se_bytes E) \<le> position \<Longrightarrow> sink_loop E k position c h = (Inr c, h, k)"
  by (simp add: sink_loop_step)

lemma process_rewritten_sink:
  assumes safe: "is_safe_action_rel_path (rel_path_for_log path)"
    and spec: "find_action_spec (acc_action_specs config) (rel_path_for_log path) = Some spec"
    and moved: "\<not> cursor_fits bytes (cursor_of cursors (rel_path_for_log path))"
  shows "\<exists>r cursors'. process_action_sink J config ids H (file_with bytes) path k cursors h = (Inr r, cursors', h, k) \<and>
    ac_offset (cursor_of cursors' (rel_path_for_log path)) = length bytes"
proof -
  let ?rel = "rel_path_for_log path"
  define c where "c = cursor_of cursors ?rel"
  consider "ac_offset c = length bytes" | "length bytes < ac_offset c"
    | "ac_offset c < length bytes" "0 < ac_offset c" "ac_boundary_probe c \<noteq> None" "boundary_probe_from_bytes bytes (ac_offset c) \<noteq> ac_boundary_probe c"
    using moved by (fastforce simp: cursor_fits_def c_def)
  then show ?thesis
  proof cases
    case 1
    with safe spec have "process_action_sink J config ids H (file_with bytes) path k cursors h = (Inr False, cursors, h, k)"
      unfolding process_action_sink_def file_with_def cursor_of_def [symmetric] Let_def c_def [symmetric] by simp
    with 1 show ?thesis unfolding c_def by blast
  next
    case 2
    then have "rewound (length bytes) \<noteq> c" "validate_cursor bytes (rewound (length bytes)) = rewound (length bytes)"
        "ac_offset (rewound (length bytes)) = length bytes"
      by (auto simp: rewound_def validate_cursor_def)
    with 2 safe spec have "process_action_sink J config ids H (file_with bytes) path k cursors h =
        (Inr True, cursors(?rel \<mapsto> rewound (length bytes)), h, k)"
      unfolding process_action_sink_def file_with_def cursor_of_def [symmetric] Let_def c_def [symmetric]
      by (simp add: sink_loop_at_end)
    then show ?thesis by (auto simp: rewound_def cursor_of_def intro: exI [of _ True])
  next
    case 3
    then have "advance bytes (length bytes) \<noteq> c" "validate_cursor bytes c = advance bytes (length bytes)"
      by (auto simp: advance_def validate_cursor_def)
    with 3 safe spec have "process_action_sink J config ids H (file_with bytes) path k cursors h =
        (Inr True, cursors(?rel \<mapsto> advance bytes (length bytes)), h, k)"
      unfolding process_action_sink_def file_with_def cursor_of_def [symmetric] Let_def c_def [symmetric]
      by (simp add: sink_loop_at_end)
    then show ?thesis by (auto simp: cursor_of_def intro: exI [of _ True])
  qed
qed

text \<open>What a handler that takes everything gets: all complete lines.\<close>

lemma sink_loop_reaches_end:
  assumes "sink_loop E k position cursor h = (Inr c, h', k')" and "takes_all (se_handler E)"
    and "list_all (plain_line (se_json E) (se_bytes E)) (sink_lines (se_bytes E) position)"
    and "ac_offset cursor = position"
  shows "\<forall>l \<in> set (sink_lines (se_bytes E) position). snd l \<le> ac_offset c"
  using assms
proof (induction E k position cursor h rule: sink_loop.induct)
  case (1 E k position cursor h)
  let ?b = "se_bytes E" and ?pos = "skip_nuls (se_bytes E) position"
  define cursor1 where "cursor1 = (if ?pos = position then cursor else advance ?b ?pos)"
  show ?case
  proof (cases "\<not> length ?b \<le> position \<and> \<not> length ?b \<le> ?pos \<and> find_byte 10 (drop ?pos ?b) \<noteq> None")
    case False
    then have "length ?b \<le> ?pos \<or> find_byte 10 (drop ?pos ?b) = None" using skip_nuls_ge [of position ?b] by auto
    then show ?thesis by (simp add: sink_lines_end)
  next
    case True
    then obtain rel where rel: "find_byte 10 (drop ?pos ?b) = Some rel" "?pos < length ?b" and nend: "\<not> length ?b \<le> position" by auto
    let ?e = "?pos + rel + 1"
    have lines: "sink_lines ?b position = (?pos, ?e) # sink_lines ?b ?e" by (rule sink_lines_Cons [OF rel])
    then have plain: "plain_line (se_json E) ?b (?pos, ?e)" using 1(4) by simp
    obtain h2 where h2: "process_line E k ?pos ?e cursor1 h = Next ?e h2"
      using process_takes_all [OF plain 1(3), of k cursor1 h] by blast
    have loop: "sink_loop E (k + 1) ?e (advance ?b ?e) h2 = (Inr c, h', k')"
      using 1(2) h2 sink_loop_line [OF refl nend refl rel(2,1) cursor1_def, of k h] by simp
    obtain c' h3 k3 where "sink_loop E (k + 1) ?e (advance ?b ?e) h2 = (Inr c', h3, k3)" "?e \<le> ac_offset c'"
      using sink_loop_takes [OF 1(3), of "advance ?b ?e" ?e "k + 1" h2] by auto
    moreover have "\<forall>l \<in> set (sink_lines ?b ?e). snd l \<le> ac_offset c"
      using 1(1) [OF refl nend refl cursor1_def _ rel(1) h2 loop 1(3)] rel(2) lines 1(4) by simp
    ultimately show ?thesis using lines loop by simp
  qed
qed

lemma takes_all_logged: "takes_all H \<Longrightarrow> takes_all (logged H)"
  by (simp add: takes_all_def logged_def noting_def)

lemma entries_all:
  "\<forall>l \<in> set (sink_lines bytes a). snd l \<le> b \<Longrightarrow>
   entries_between J strict bytes a b = concat (map (line_entry J strict bytes) (sink_lines bytes a))"
  by (simp add: entries_between_def)

section \<open>Which specification a path gets\<close>

lemma key_le_linear: "key_le a b \<or> key_le b a" and key_le_trans: "key_le a b \<Longrightarrow> key_le b c \<Longrightarrow> key_le a c"
  by (auto simp: key_le_def)

lemma fold_max_by_key:
  assumes "m = fold (\<lambda>y best. if key_le (f best) (f y) then y else best) xs x"
  shows "m \<in> set (x # xs) \<and> (\<forall>y \<in> set (x # xs). key_le (f y) (f m))"
  using assms
proof (induction xs arbitrary: x)
  case Nil
  with key_le_linear [of "f x" "f x"] show ?case by simp
next
  case (Cons y ys)
  define x' where "x' = (if key_le (f x) (f y) then y else x)"
  have refl: "key_le (f z) (f z)" for z using key_le_linear [of "f z" "f z"] by simp
  have "key_le (f x) (f x')" "key_le (f y) (f x')" "x' \<in> {x, y}"
    using key_le_linear [of "f x" "f y"] refl by (auto simp: x'_def)
  moreover from Cons.IH [of x'] Cons.prems have "m \<in> set (x' # ys)" "\<forall>z \<in> set (x' # ys). key_le (f z) (f m)"
    by (simp_all add: x'_def)
  moreover from this calculation have "key_le (f x) (f m)" "key_le (f y) (f m)"
    using key_le_trans [of "f x" "f x'" "f m"] key_le_trans [of "f y" "f x'" "f m"] by simp_all
  ultimately show ?case by auto
qed

lemma max_by_key_Some:
  assumes "max_by_key f xs = Some m"
  shows "m \<in> set xs \<and> (\<forall>y \<in> set xs. key_le (f y) (f m))"
  using assms fold_max_by_key [OF refl, of f "tl xs" "hd xs"] by (cases xs) auto

lemma max_by_key_None: "max_by_key f xs = None \<longleftrightarrow> xs = []"
  by (cases xs) auto

section \<open>Properties\<close>

text \<open>What a successful pass over a sink means for its loop.\<close>

lemma process_action_sink_run:
  assumes "is_safe_action_rel_path (rel_path_for_log path)"
    and "find_action_spec (acc_action_specs config) (rel_path_for_log path) = Some spec"
    and "cursor_fits bytes (cursor_of cursors (rel_path_for_log path))"
    and "process_action_sink J config ids H (file_with bytes) path k cursors h = (Inr changed, cursors', h', k')"
  shows "\<exists>c. sink_loop \<lparr>se_json = J, se_config = config, se_rel = rel_path_for_log path, se_spec = spec, se_ids = ids,
        se_handler = H, se_bytes = bytes\<rparr> k (ac_offset (cursor_of cursors (rel_path_for_log path)))
        (cursor_of cursors (rel_path_for_log path)) h = (Inr c, h', k') \<and> cursor_of cursors' (rel_path_for_log path) = c"
  using assms(4) unfolding process_action_sink_eq [OF assms(1,2,3)]
  by (auto simp: cursor_of_def split: prod.splits sum.splits if_splits)

text \<open>Behind the last complete line there is nothing to refuse.\<close>

lemma sink_lines_Nil: "sink_lines bytes a = [] \<longleftrightarrow> 10 \<notin> set (drop a bytes)"
proof -
  let ?pos = "skip_nuls bytes a"
  have split: "drop a bytes = takeWhile (\<lambda>b. b = 0) (drop a bytes) @ drop ?pos bytes"
  proof -
    have "drop (length (takeWhile P xs)) xs = dropWhile P xs" for P and xs :: "byte list" by (induction xs) auto
    then have "drop ?pos bytes = dropWhile (\<lambda>b. b = 0) (drop a bytes)" unfolding skip_nuls_def by (metis add.commute drop_drop)
    then show ?thesis by simp
  qed
  have "10 \<notin> set (takeWhile (\<lambda>b. b = 0) (drop a bytes))" by (auto dest: set_takeWhileD)
  moreover have "set (drop a bytes) = set (takeWhile (\<lambda>b. b = 0) (drop a bytes)) \<union> set (drop ?pos bytes)"
    by (subst split) simp
  ultimately have lf: "10 \<in> set (drop a bytes) \<longleftrightarrow> 10 \<in> set (drop ?pos bytes)" by blast
  show ?thesis
  proof (cases "length bytes \<le> ?pos \<or> find_byte 10 (drop ?pos bytes) = None")
    case True
    with lf show ?thesis by (auto simp: sink_lines_end find_byte_None)
  next
    case False
    then obtain rel where rel: "find_byte 10 (drop ?pos bytes) = Some rel" "?pos < length bytes" by auto
    then have "10 \<in> set (drop ?pos bytes)" using find_byte_None [of 10 "drop ?pos bytes"] by simp
    with lf sink_lines_Cons [OF rel] show ?thesis by simp
  qed
qed

lemma sink_lines_suffix:
  assumes "\<forall>l \<in> set (sink_lines bytes a). snd l \<le> b" "a \<le> b"
  shows "sink_lines bytes b = []"
  using assms
proof (induction bytes a rule: sink_lines.induct)
  case (1 bytes a)
  let ?pos = "skip_nuls bytes a"
  show ?case
  proof (cases "sink_lines bytes a = []")
    case True
    with 1(3) set_drop_subset_set_drop [of a b bytes] show ?thesis by (auto simp: sink_lines_Nil)
  next
    case False
    then have "\<not> (length bytes \<le> ?pos \<or> find_byte 10 (drop ?pos bytes) = None)" using sink_lines_end by blast
    then obtain rel where rel: "find_byte 10 (drop ?pos bytes) = Some rel" "?pos < length bytes" by auto
    from 1(1) [OF refl _ rel(1)] rel(2) 1(2) sink_lines_Cons [OF rel] show ?thesis by simp
  qed
qed

lemma refused_at_end:
  assumes "\<forall>l \<in> set (sink_lines bytes a). snd l \<le> b" "a \<le> b"
  shows "\<not> refused_at J strict bytes b calls"
  using sink_lines_suffix [OF assms] by (simp add: refused_at_def)

lemma takes_all_delivered:
  assumes "is_safe_action_rel_path (rel_path_for_log path)"
    and "find_action_spec (acc_action_specs config) (rel_path_for_log path) = Some spec"
    and "cursor_fits bytes (cursor_of cursors (rel_path_for_log path))"
    and "list_all (plain_line J bytes) (sink_lines bytes (ac_offset (cursor_of cursors (rel_path_for_log path))))"
    and "takes_all H"
  shows "\<exists>changed cursors' h' k'. process_action_sink J config ids (logged H) (file_with bytes) path k cursors (log, h) =
    (Inr changed, cursors', (log @ taken (concat (map (line_entry J (acc_actionline_strict config) bytes)
       (sink_lines bytes (ac_offset (cursor_of cursors (rel_path_for_log path)))))), h'), k')"
proof -
  let ?c = "cursor_of cursors (rel_path_for_log path)"
  let ?E = "\<lparr>se_json = J, se_config = config, se_rel = rel_path_for_log path, se_spec = spec, se_ids = ids,
    se_handler = logged H, se_bytes = bytes\<rparr>"
  have takes: "takes_all (se_handler ?E)" using takes_all_logged [OF assms(5)] by simp
  obtain c log' h' k' where loop: "sink_loop ?E k (ac_offset ?c) ?c (log, h) = (Inr c, (log', h'), k')"
    using sink_loop_takes [OF takes refl, of k ?c "(log, h)"] by auto
  moreover have "log' = log @ taken (concat (map (line_entry J (acc_actionline_strict config) bytes) (sink_lines bytes (ac_offset ?c))))"
  proof -
    have ends: "\<forall>l\<in>set (sink_lines bytes (ac_offset ?c)). snd l \<le> ac_offset c"
      using sink_loop_reaches_end [OF loop takes] assms(4) by simp
    obtain calls where "ac_offset ?c \<le> ac_offset c" "log' = log @ taken (entries_between J (acc_actionline_strict config) bytes (ac_offset ?c) (ac_offset c)) @ calls"
      "calls = [] \<or> refused_at J (acc_actionline_strict config) bytes (ac_offset c) calls"
      using sink_loop_exactly_once [OF loop, of H] assms(4) by auto
    with refused_at_end [OF ends] entries_all [OF ends] show ?thesis by simp
  qed
  ultimately show ?thesis unfolding process_action_sink_eq [OF assms(1,2,3)] by (simp split: if_splits) blast
qed

text \<open>A small setting: one action file, a library that knows two texts, a handler that takes all.\<close>

definition demo_json :: json_lib where
  "demo_json = \<lparr>json_from_str = (\<lambda>s. if s = ''{}'' then Some (JObject []) else if s = ''1'' then Some (JNumber ''1'') else None),
     json_to_string = (\<lambda>j. None)\<rparr>"

definition demo_spec :: action_spec where
  "demo_spec = \<lparr>as_template = ''inbox/{id}/send.act'', as_input_mode = Json, as_execution_mode = Inline, as_max_payload_bytes = None\<rparr>"

definition demo_config :: action_consumer_config where
  "demo_config = \<lparr>acc_app_id = ''mail'', acc_session_id = ''s1'', acc_action_specs = [demo_spec], acc_actionline_strict = False,
     acc_fixed_action_order = None\<rparr>"

definition demo_handler :: "nat action_handler" where
  "demo_handler = \<lparr>handle_action_invocation = (\<lambda>inv spec n. (Inr Consumed, n + 1)),
     handle_invalid_action_payload = (\<lambda>inv n. (Inr Consumed, n + 1))\<rparr>"

definition demo_sink :: "byte list" where
  "demo_sink = as_bytes (''{}'' @ [char_of (10 :: nat)] @ ''1'' @ [char_of (10 :: nat)] @ ''{'')"

lemma demo_sink_ok:
  "takes_all demo_handler" "rel_path_for_log ''inbox/7/send.act'' = ''inbox/7/send.act''"
  "is_safe_action_rel_path ''inbox/7/send.act''"
  "find_action_spec (acc_action_specs demo_config) ''inbox/7/send.act'' = Some demo_spec"
  "cursor_of Map.empty rel = default_cursor" "cursor_fits bytes default_cursor" "ac_offset default_cursor = 0"
proof -
  show "rel_path_for_log ''inbox/7/send.act'' = ''inbox/7/send.act''" "is_safe_action_rel_path ''inbox/7/send.act''"
    "find_action_spec (acc_action_specs demo_config) ''inbox/7/send.act'' = Some demo_spec" by code_simp+
qed (simp_all add: takes_all_def demo_handler_def cursor_of_def cursor_fits_def default_cursor_def)

lemma demo_sink_plain:
  "sink_lines demo_sink 0 = [(0, 3), (3, 5)]" "list_all (plain_line demo_json demo_sink) (sink_lines demo_sink 0)"
  "concat (map (line_entry demo_json False demo_sink) (sink_lines demo_sink 0)) = [Inr ''{}'', Inr ''1'']"
  by code_simp+

lemma demo_sink_taken: "taken (line_entry demo_json False demo_sink (0, 3)) @ taken (line_entry demo_json False demo_sink (3, 5)) =
    [(Inr ''{}'', True), (Inr ''1'', True)]"
  using demo_sink_plain(1,3) by (simp flip: taken_append(1)) (simp add: taken_def)

text \<open>
  C18. A successful pass over a sink whose lines are one payload each (a line that decodes is JSON or has
  no open quote, so that no lines are merged) and whose cursor fits it. The calls of the handler are, in order: the payloads
  and complaints of all complete lines between the old and the new cursor, each given once and taken;
  and then at most one call that was not taken, for the line at the new cursor. No line is skipped, none
  that was taken is given again, and a line answered with a request to retry stays at the cursor, where the next pass starts.
\<close>

theorem sink_exactly_once:
  assumes "is_safe_action_rel_path (rel_path_for_log path)"
    and "find_action_spec (acc_action_specs config) (rel_path_for_log path) = Some spec"
    and "cursor_fits bytes (cursor_of cursors (rel_path_for_log path))"
    and "list_all (plain_line J bytes) (sink_lines bytes (ac_offset (cursor_of cursors (rel_path_for_log path))))"
    and "process_action_sink J config ids (logged H) (file_with bytes) path k cursors (log, h) = (Inr changed, cursors', (log', h'), k')"
  shows "ac_offset (cursor_of cursors (rel_path_for_log path)) \<le> ac_offset (cursor_of cursors' (rel_path_for_log path)) \<and>
    (\<exists>calls. log' = log @ taken (entries_between J (acc_actionline_strict config) bytes
         (ac_offset (cursor_of cursors (rel_path_for_log path))) (ac_offset (cursor_of cursors' (rel_path_for_log path)))) @ calls \<and>
       (calls = [] \<or> refused_at J (acc_actionline_strict config) bytes (ac_offset (cursor_of cursors' (rel_path_for_log path))) calls))"
  using process_action_sink_run [OF assms(1,2,3,5)] assms(4) by (auto dest!: sink_loop_exactly_once)

theorem sink_exactly_once_witness:
  "\<exists>changed cursors' log' h' k' calls. process_action_sink demo_json demo_config (\<lambda>k. ''r'') (logged demo_handler) (file_with demo_sink)
     ''inbox/7/send.act'' 0 Map.empty ([], 0) = (Inr changed, cursors', (log', h'), k') \<and>
     log' = taken (entries_between demo_json False demo_sink 0 (ac_offset (cursor_of cursors' ''inbox/7/send.act''))) @ calls \<and>
     (calls = [] \<or> refused_at demo_json False demo_sink (ac_offset (cursor_of cursors' ''inbox/7/send.act'')) calls)"
proof -
  obtain changed cursors' log' h' k' where run: "process_action_sink demo_json demo_config (\<lambda>k. ''r'') (logged demo_handler)
      (file_with demo_sink) ''inbox/7/send.act'' 0 Map.empty ([], 0) = (Inr changed, cursors', (log', h'), k')"
    using takes_all_delivered [of "''inbox/7/send.act''" demo_config demo_spec demo_sink Map.empty demo_json demo_handler
        "\<lambda>k. ''r''" 0 "[]" 0] demo_sink_ok demo_sink_plain by auto
  from sink_exactly_once [OF _ _ _ _ run, of demo_spec] demo_sink_ok demo_sink_plain run show ?thesis
    by (auto simp: demo_config_def)
qed

text \<open>
  C19. A handler that takes what it is given gets all complete lines of a sink in one pass, each once and in order,
  when the lines are one payload each: a line that decodes is JSON or has no open quote (a line with an open
  quote may be the first of several, and the code waits for the others). The pass succeeds, and no complete line is left for later.
\<close>

theorem all_lines_delivered:
  assumes "is_safe_action_rel_path (rel_path_for_log path)"
    and "find_action_spec (acc_action_specs config) (rel_path_for_log path) = Some spec"
    and "cursor_fits bytes (cursor_of cursors (rel_path_for_log path))"
    and "list_all (plain_line J bytes) (sink_lines bytes (ac_offset (cursor_of cursors (rel_path_for_log path))))"
    and "takes_all H"
  shows "\<exists>changed cursors' h' k'. process_action_sink J config ids (logged H) (file_with bytes) path k cursors (log, h) =
    (Inr changed, cursors', (log @ taken (concat (map (line_entry J (acc_actionline_strict config) bytes)
       (sink_lines bytes (ac_offset (cursor_of cursors (rel_path_for_log path)))))), h'), k')"
  using assms by (rule takes_all_delivered)

theorem all_lines_delivered_witness:
  "\<exists>changed cursors' h' k'. process_action_sink demo_json demo_config (\<lambda>k. ''r'') (logged demo_handler) (file_with demo_sink)
     ''inbox/7/send.act'' 0 Map.empty ([], 0) = (Inr changed, cursors', ([(Inr ''{}'', True), (Inr ''1'', True)], h'), k')"
  using all_lines_delivered [of "''inbox/7/send.act''" demo_config demo_spec demo_sink Map.empty demo_json demo_handler
      "\<lambda>k. ''r''" 0 "[]" 0]
    demo_sink_ok demo_sink_plain by (simp add: demo_config_def demo_sink_taken)

text \<open>
  It makes no difference in how many passes a growing sink is read: a pass over its first
  bytes followed by one over the whole file ends with the cursors, the handler's state and the
  request numbers of a single pass over the whole file.
\<close>

theorem drains_compose:
  assumes "takes_all H" and "cursor_fits b1 (cursor_of cursors (rel_path_for_log path))"
    and "list_all (plain_line J b1) (sink_lines b1 (ac_offset (cursor_of cursors (rel_path_for_log path))))"
    and "process_action_sink J config ids H (file_with b1) path k cursors h = (r1, cursors1, h1, k1)"
  shows "snd (process_action_sink J config ids H (file_with (b1 @ b2)) path k1 cursors1 h1) =
    snd (process_action_sink J config ids H (file_with (b1 @ b2)) path k cursors h)"
  using assms by (rule drains_compose_aux)

theorem drains_compose_witness:
  "\<exists>r1 cursors1 h1 k1.
     process_action_sink demo_json demo_config (\<lambda>k. ''r'') demo_handler (file_with demo_sink) ''inbox/7/send.act'' 0 Map.empty 0 = (r1, cursors1, h1, k1) \<and>
     snd (process_action_sink demo_json demo_config (\<lambda>k. ''r'') demo_handler (file_with (demo_sink @ [125, 10])) ''inbox/7/send.act'' k1 cursors1 h1) =
     snd (process_action_sink demo_json demo_config (\<lambda>k. ''r'') demo_handler (file_with (demo_sink @ [125, 10])) ''inbox/7/send.act'' 0 Map.empty 0)"
proof -
  obtain r1 cursors1 h1 k1 where run: "process_action_sink demo_json demo_config (\<lambda>k. ''r'') demo_handler
      (file_with demo_sink) ''inbox/7/send.act'' 0 Map.empty 0 = (r1, cursors1, h1, k1)" by (metis prod.collapse)
  from drains_compose [OF demo_sink_ok(1) _ _ run, of "[125, 10]"] run demo_sink_ok demo_sink_plain show ?thesis by auto
qed

text \<open>
  C20. A sink that was read up to a cursor and then shortened below it, or in which exactly one of the last 64 bytes before the cursor
  was overwritten, is not executed: the handler is not called, and the cursor
  stands at the end of the new file. Changes further back are not noticed, nor is any after a
  cursor was set back without a probe, and several overwritten bytes could cancel out in the 64-bit hash of the window.
\<close>

theorem rewritten_sink_not_executed:
  assumes "is_safe_action_rel_path (rel_path_for_log path)"
    and "find_action_spec (acc_action_specs config) (rel_path_for_log path) = Some spec"
    and "cursor_of cursors (rel_path_for_log path) = advance (a @ x # b @ rest) (length a + 1 + length b)" and "length b < 64"
    and "bytes = a @ y # b @ rest' \<and> x \<noteq> y \<or> length bytes < length a + 1 + length b"
  shows "\<exists>r cursors'. process_action_sink J config ids H (file_with bytes) path k cursors h = (Inr r, cursors', h, k) \<and>
    ac_offset (cursor_of cursors' (rel_path_for_log path)) = length bytes"
proof (rule process_rewritten_sink [OF assms(1,2)])
  show "\<not> cursor_fits bytes (cursor_of cursors (rel_path_for_log path))"
    using assms(3-5) probe_one_byte [of b x y a rest' rest] by (auto simp: cursor_fits_def advance_def boundary_probe_from_bytes_def Let_def)
qed

theorem rewritten_sink_not_executed_witness:
  "\<exists>r cursors'. process_action_sink demo_json demo_config (\<lambda>k. ''r'') demo_handler (file_with (as_bytes (''{a'' @ [char_of (10 :: nat)] @ ''1''))) ''inbox/7/send.act'' 3
      [''inbox/7/send.act'' \<mapsto> advance demo_sink 3] 5 = (Inr r, cursors', 5, 3) \<and>
      ac_offset (cursor_of cursors' ''inbox/7/send.act'') = 4"
proof -
  let ?x = "word_of_int 125 :: byte" and ?new = "as_bytes (''{a'' @ [char_of (10 :: nat)] @ ''1'')"
  have sinks: "demo_sink = as_bytes ''{'' @ 125 # [10] @ as_bytes (''1'' @ [char_of (10 :: nat)] @ ''{'')"
    "?new = as_bytes ''{'' @ 97 # [10] @ as_bytes ''1''" by (simp_all add: demo_sink_def as_bytes_def code_def)
  have "cursor_of [''inbox/7/send.act'' \<mapsto> advance demo_sink 3] ''inbox/7/send.act'' =
      advance (as_bytes ''{'' @ 125 # [10] @ as_bytes (''1'' @ [char_of (10 :: nat)] @ ''{'')) (length (as_bytes ''{'') + 1 + length [10 :: byte])"
    by (simp add: cursor_of_def sinks(1)) (simp add: as_bytes_def numeral_eq_Suc)
  moreover have "length ?new = 4" by (simp add: as_bytes_def)
  ultimately show ?thesis
    using rewritten_sink_not_executed [of "''inbox/7/send.act''" demo_config demo_spec "[''inbox/7/send.act'' \<mapsto> advance demo_sink 3]"
        "as_bytes ''{''" 125 "[10]" "as_bytes (''1'' @ [char_of (10 :: nat)] @ ''{'')" ?new 97 "as_bytes ''1''"
        demo_json "\<lambda>k. ''r''" demo_handler 3 5] demo_sink_ok(2-4) sinks(2) by simp
qed

text \<open>
  An action path gets the specification of a declared template that matches it and that
  is at least as specific as every other matching one; a path that no template matches gets
  none, so that its sink is never read.
\<close>

theorem find_action_spec_most_specific:
  "case find_action_spec specs rel of
     Some spec \<Rightarrow> spec \<in> set specs \<and> action_template_matches (as_template spec) rel \<and>
       list_all (\<lambda>other. key_le (template_specificity (as_template other)) (template_specificity (as_template spec)))
         (filter (\<lambda>other. action_template_matches (as_template other) rel) specs)
   | None \<Rightarrow> filter (\<lambda>spec. action_template_matches (as_template spec) rel) specs = []"
proof (cases "find_action_spec specs rel")
  case None
  then show ?thesis by (simp add: find_action_spec_def max_by_key_None)
next
  case (Some spec)
  then show ?thesis
    using max_by_key_Some [OF Some [unfolded find_action_spec_def]] by (simp add: list_all_iff)
qed

end
