(* ===== verification/Bridge_Resilience.thy ===== *)
theory Bridge_Resilience
  imports Rust_Text
begin

text \<open>
  Requests to a connector over a bridge: the options, metrics and circuit breaker of
  \<open>appfs/cli/src/cmd/appfs/bridge_resilience.rs\<close> and the request loops of
  \<open>http_bridge_adapter.rs\<close> and \<open>grpc_bridge_adapter.rs\<close> that use them.

  Durations and instants are nanoseconds. What the transport does is a parameter: the outcome
  of the n-th attempt of a request, and the clock, the instant at which the n-th attempt has
  ended. The pauses a request makes between attempts are part of its result.
\<close>

section \<open>Options\<close>

definition sat_add :: "nat \<Rightarrow> nat \<Rightarrow> nat \<Rightarrow> nat" where
  "sat_add bits a b = min (2 ^ bits - 1) (a + b)"

definition from_millis :: "nat \<Rightarrow> nat" where "from_millis ms = ms * 1000000"
definition as_millis :: "nat \<Rightarrow> nat" where "as_millis d = d div 1000000"

record bridge_runtime_options =
  max_retries :: nat
  initial_backoff :: nat
  max_backoff :: nat
  circuit_breaker_failures :: nat
  circuit_breaker_cooldown :: nat

definition normalize_options :: "bridge_runtime_options \<Rightarrow> bridge_runtime_options" where
  "normalize_options options =
     (let o1 = (if initial_backoff options = 0 then options\<lparr>initial_backoff := from_millis 1\<rparr> else options);
          o2 = (if max_backoff o1 < initial_backoff o1 then o1\<lparr>max_backoff := initial_backoff o1\<rparr> else o1)
      in if circuit_breaker_cooldown o2 = 0 then o2\<lparr>circuit_breaker_cooldown := from_millis 1\<rparr> else o2)"

definition from_cli :: "nat \<Rightarrow> nat \<Rightarrow> nat \<Rightarrow> nat \<Rightarrow> nat \<Rightarrow> bridge_runtime_options" where
  "from_cli retries initial_ms max_ms failures cooldown_ms = normalize_options
     \<lparr>max_retries = retries, initial_backoff = from_millis initial_ms, max_backoff = from_millis max_ms,
      circuit_breaker_failures = failures, circuit_breaker_cooldown = from_millis cooldown_ms\<rparr>"

definition retry_backoff_for_attempt :: "bridge_runtime_options \<Rightarrow> nat \<Rightarrow> nat" where
  "retry_backoff_for_attempt options attempt =
     (let retry_index = min (attempt - 1) 16;
          factor = 2 ^ retry_index;
          raw = min (2 ^ 128 - 1) (as_millis (initial_backoff options) * factor);
          capped = min raw (as_millis (max_backoff options))
      in from_millis (capped mod 2 ^ 64))"

section \<open>Metrics and breaker\<close>

record bridge_metrics =
  requests_total :: nat
  attempts_total :: nat
  retries_total :: nat
  succeeded_total :: nat
  failed_total :: nat
  short_circuited_total :: nat

definition default_metrics :: bridge_metrics where
  "default_metrics = \<lparr>requests_total = 0, attempts_total = 0, retries_total = 0, succeeded_total = 0, failed_total = 0,
     short_circuited_total = 0\<rparr>"

definition record_request :: "nat \<Rightarrow> bool \<Rightarrow> bridge_metrics \<Rightarrow> bridge_metrics" where
  "record_request attempts success m =
     (let m1 = m\<lparr>requests_total := sat_add 64 (requests_total m) 1,
                 attempts_total := sat_add 64 (attempts_total m) attempts,
                 retries_total := sat_add 64 (retries_total m) (attempts - 1)\<rparr>
      in if success then m1\<lparr>succeeded_total := sat_add 64 (succeeded_total m) 1\<rparr>
         else m1\<lparr>failed_total := sat_add 64 (failed_total m) 1\<rparr>)"

definition record_short_circuit :: "bridge_metrics \<Rightarrow> bridge_metrics" where
  "record_short_circuit m = m\<lparr>short_circuited_total := sat_add 64 (short_circuited_total m) 1\<rparr>"

definition snapshot :: "bridge_metrics \<Rightarrow> string" where
  "snapshot m =
     ''requests='' @ to_decimal (requests_total m) @ '' attempts='' @ to_decimal (attempts_total m) @
     '' retries='' @ to_decimal (retries_total m) @ '' ok='' @ to_decimal (succeeded_total m) @
     '' failed='' @ to_decimal (failed_total m) @ '' short_circuit='' @ to_decimal (short_circuited_total m)"

record bridge_circuit_breaker =
  consecutive_failures :: nat
  open_until :: "nat option"
  opened_total :: nat

definition default_breaker :: bridge_circuit_breaker where
  "default_breaker = \<lparr>consecutive_failures = 0, open_until = None, opened_total = 0\<rparr>"

definition check_open :: "nat \<Rightarrow> bridge_circuit_breaker \<Rightarrow> nat option \<times> bridge_circuit_breaker" where
  "check_open now b =
     (case open_until b of
        Some until \<Rightarrow> if now < until then (Some (until - now), b) else (None, b\<lparr>open_until := None\<rparr>)
      | None \<Rightarrow> (None, b))"

definition record_success :: "bridge_circuit_breaker \<Rightarrow> bridge_circuit_breaker" where
  "record_success b = b\<lparr>consecutive_failures := 0, open_until := None\<rparr>"

definition record_failure :: "nat \<Rightarrow> bridge_runtime_options \<Rightarrow> bridge_circuit_breaker \<Rightarrow> bool \<times> bridge_circuit_breaker" where
  "record_failure now options b =
     (if circuit_breaker_failures options = 0 then (False, b)
      else case check_open now b of
             (Some _, b1) \<Rightarrow> (True, b1)
           | (None, b1) \<Rightarrow>
               let failures = sat_add 32 (consecutive_failures b1) 1
               in if failures < circuit_breaker_failures options then (False, b1\<lparr>consecutive_failures := failures\<rparr>)
                  else (True, b1\<lparr>consecutive_failures := 0, open_until := Some (now + circuit_breaker_cooldown options),
                              opened_total := sat_add 64 (opened_total b1) 1\<rparr>))"

definition is_retryable_http_status :: "nat \<Rightarrow> bool" where
  "is_retryable_http_status status \<longleftrightarrow> status \<in> set [408, 429, 500, 502, 503, 504]"

datatype grpc_code =
    Code_Ok | Code_Cancelled | Code_Unknown | Code_InvalidArgument | Code_DeadlineExceeded | Code_NotFound
  | Code_AlreadyExists | Code_PermissionDenied | Code_ResourceExhausted | Code_FailedPrecondition | Code_Aborted
  | Code_OutOfRange | Code_Unimplemented | Code_Internal | Code_Unavailable | Code_DataLoss | Code_Unauthenticated

definition is_retryable_grpc_code :: "grpc_code \<Rightarrow> bool" where
  "is_retryable_grpc_code c \<longleftrightarrow> c \<in> set [Code_DeadlineExceeded, Code_Unavailable, Code_ResourceExhausted, Code_Aborted,
     Code_Internal, Code_Unknown]"

section \<open>The request loop\<close>

text \<open>
  The loops of the bridges have one shape. An attempt gives an answer, an error after which it
  may be tried again, one that is final but shows that the other side is alive, or one that is
  final and counts as a failure.
\<close>

datatype ('r, 'e) attempt = Answer 'r | Retryable 'e | Final 'e | Broken 'e

record bridge_state =
  bs_metrics :: bridge_metrics
  bs_breaker :: bridge_circuit_breaker

definition max_attempts :: "bridge_runtime_options \<Rightarrow> nat" where
  "max_attempts options = max (sat_add 32 (max_retries options) 1) 1"

definition finish_failure ::
  "bridge_runtime_options \<Rightarrow> nat \<Rightarrow> nat \<Rightarrow> ('e \<Rightarrow> nat \<Rightarrow> bool \<Rightarrow> bridge_metrics \<Rightarrow> 'x) \<Rightarrow> 'e \<Rightarrow> bridge_state \<Rightarrow>
     ('x + 'r) \<times> bridge_state" where
  "finish_failure options now attempt mk_error e st =
     (let (opened, b) = record_failure now options (bs_breaker st);
          m = record_request attempt False (bs_metrics st)
      in (Inl (mk_error e attempt opened m), st\<lparr>bs_metrics := m, bs_breaker := b\<rparr>))"

definition finish_alive ::
  "nat \<Rightarrow> ('e \<Rightarrow> nat \<Rightarrow> bool \<Rightarrow> bridge_metrics \<Rightarrow> 'x) \<Rightarrow> 'e \<Rightarrow> bridge_state \<Rightarrow> ('x + 'r) \<times> bridge_state" where
  "finish_alive attempt mk_error e st =
     (let m = record_request attempt False (bs_metrics st)
      in (Inl (mk_error e attempt False m), st\<lparr>bs_metrics := m, bs_breaker := record_success (bs_breaker st)\<rparr>))"

function request_loop ::
  "bridge_runtime_options \<Rightarrow> (nat \<Rightarrow> ('r, 'e) attempt) \<Rightarrow> (nat \<Rightarrow> nat) \<Rightarrow> ('e \<Rightarrow> nat \<Rightarrow> bool \<Rightarrow> bridge_metrics \<Rightarrow> 'x) \<Rightarrow>
     nat \<Rightarrow> bridge_state \<Rightarrow> ('x + 'r) \<times> bridge_state \<times> nat list" where
  "request_loop options send clock mk_error previous st =
     (let attempt = sat_add 32 previous 1
      in case send attempt of
           Answer r \<Rightarrow>
             (Inr r, st\<lparr>bs_metrics := record_request attempt True (bs_metrics st),
                       bs_breaker := record_success (bs_breaker st)\<rparr>, [])
         | Broken e \<Rightarrow> (case finish_failure options (clock attempt) attempt mk_error e st of (r, st') \<Rightarrow> (r, st', []))
         | Final e \<Rightarrow> (case finish_alive attempt mk_error e st of (r, st') \<Rightarrow> (r, st', []))
         | Retryable e \<Rightarrow>
             if attempt < max_attempts options
             then (case request_loop options send clock mk_error attempt st of
                     (r, st', pauses) \<Rightarrow> (r, st', retry_backoff_for_attempt options attempt # pauses))
             else (case finish_failure options (clock attempt) attempt mk_error e st of (r, st') \<Rightarrow> (r, st', [])))"
  by pat_completeness auto
termination
  by (relation "measure (\<lambda>(options, send, clock, mk, previous, st). max_attempts options - previous)")
    (auto simp: max_attempts_def sat_add_def)

declare request_loop.simps [simp del]

definition bridge_request ::
  "bridge_runtime_options \<Rightarrow> nat \<Rightarrow> (nat \<Rightarrow> ('r, 'e) attempt) \<Rightarrow> (nat \<Rightarrow> nat) \<Rightarrow>
     (nat \<Rightarrow> bridge_metrics \<Rightarrow> 'x) \<Rightarrow> ('e \<Rightarrow> nat \<Rightarrow> bool \<Rightarrow> bridge_metrics \<Rightarrow> 'x) \<Rightarrow>
     bridge_state \<Rightarrow> ('x + 'r) \<times> bridge_state \<times> nat list" where
  "bridge_request options now send clock circuit_error mk_error st =
     (case check_open now (bs_breaker st) of
        (Some remaining, b) \<Rightarrow>
          let m = record_short_circuit (bs_metrics st)
          in (Inl (circuit_error remaining m), st\<lparr>bs_metrics := m, bs_breaker := b\<rparr>, [])
      | (None, b) \<Rightarrow> request_loop options send clock mk_error 0 (st\<lparr>bs_breaker := b\<rparr>))"

section \<open>The bridges\<close>

record connector_error =
  ce_code :: string
  ce_message :: string
  ce_retryable :: bool
  ce_details :: "string option"

datatype adapter_error_v1 = Rejected string string bool | Internal string

record bridge_error_payload =
  bep_code :: string
  bep_message :: string
  bep_retryable :: bool
  bep_details :: "string option"

text \<open>The derived deserialisers of the three shapes of an error body are parameters.\<close>

record error_shapes =
  connector_error_of :: "string \<Rightarrow> connector_error option"
  payload_of :: "string \<Rightarrow> bridge_error_payload option"
  adapter_error_of :: "string \<Rightarrow> adapter_error_v1 option"

definition status_message :: "nat \<Rightarrow> string \<Rightarrow> string" where
  "status_message status body =
     (if str_trim body = [] then ''bridge http status '' @ to_decimal status
      else ''bridge http status '' @ to_decimal status @ '': '' @ body)"

definition map_status_error_v1 :: "error_shapes \<Rightarrow> nat \<Rightarrow> string \<Rightarrow> adapter_error_v1" where
  "map_status_error_v1 D status body =
     (case adapter_error_of D body of
        Some e \<Rightarrow> e
      | None \<Rightarrow>
          (case payload_of D body of
             Some p \<Rightarrow> Rejected (bep_code p) (bep_message p) (bep_retryable p)
           | None \<Rightarrow> Internal (status_message status body)))"

definition map_status_error_connector :: "error_shapes \<Rightarrow> nat \<Rightarrow> string \<Rightarrow> connector_error" where
  "map_status_error_connector D status body =
     (case connector_error_of D body of
        Some e \<Rightarrow> e
      | None \<Rightarrow>
          (case payload_of D body of
             Some p \<Rightarrow> \<lparr>ce_code = bep_code p, ce_message = bep_message p, ce_retryable = bep_retryable p,
                        ce_details = bep_details p\<rparr>
           | None \<Rightarrow>
               (case adapter_error_of D body of
                  Some (Rejected c m r) \<Rightarrow> \<lparr>ce_code = c, ce_message = m, ce_retryable = r, ce_details = None\<rparr>
                | Some (Internal m) \<Rightarrow> \<lparr>ce_code = ''INTERNAL'', ce_message = m, ce_retryable = True, ce_details = None\<rparr>
                | None \<Rightarrow> \<lparr>ce_code = (if is_retryable_http_status status then ''UPSTREAM_UNAVAILABLE'' else ''INTERNAL''),
                           ce_message = status_message status body, ce_retryable = is_retryable_http_status status,
                           ce_details = None\<rparr>)))"

text \<open>What \<open>send_json\<close> gives: a response whose body decodes or not, a status, a transport error.\<close>

datatype 'r http_outcome = Response "string + 'r" | Status nat string | Transport string

datatype http_failure = Decode_Failure string | Status_Failure nat string | Transport_Failure string

definition http_attempt :: "'r http_outcome \<Rightarrow> ('r, http_failure) attempt" where
  "http_attempt x =
     (case x of
        Response (Inr r) \<Rightarrow> Answer r
      | Response (Inl e) \<Rightarrow> Broken (Decode_Failure e)
      | Status status body \<Rightarrow>
          if is_retryable_http_status status then Retryable (Status_Failure status body) else Final (Status_Failure status body)
      | Transport e \<Rightarrow> Retryable (Transport_Failure e))"

definition bool_text :: "bool \<Rightarrow> string" where "bool_text b = (if b then ''true'' else ''false'')"

definition circuit_message :: "string \<Rightarrow> nat \<Rightarrow> bridge_metrics \<Rightarrow> string" where
  "circuit_message head remaining m = head @ ''; retry_in_ms='' @ to_decimal (as_millis remaining) @ '' metrics='' @ snapshot m"

definition failure_message :: "string \<Rightarrow> string \<Rightarrow> string \<Rightarrow> nat \<Rightarrow> bool \<Rightarrow> bridge_metrics \<Rightarrow> string" where
  "failure_message kind url e attempt opened m =
     ''bridge '' @ kind @ '' error for '' @ url @ '': '' @ e @ '' (attempts='' @ to_decimal attempt @ '' circuit_opened='' @
     bool_text opened @ '' metrics='' @ snapshot m @ '')''"

definition url_of :: "string \<Rightarrow> string \<Rightarrow> string" where
  "url_of endpoint route = endpoint @ ''/'' @ trim_start_matches (CHR ''/'') route"

definition post_json_v1 ::
  "error_shapes \<Rightarrow> string \<Rightarrow> bridge_runtime_options \<Rightarrow> string \<Rightarrow> nat \<Rightarrow> (nat \<Rightarrow> 'r http_outcome) \<Rightarrow> (nat \<Rightarrow> nat) \<Rightarrow>
     bridge_state \<Rightarrow> (adapter_error_v1 + 'r) \<times> bridge_state \<times> nat list" where
  "post_json_v1 D endpoint options route now send clock =
     bridge_request options now (\<lambda>n. http_attempt (send n)) clock
       (\<lambda>remaining m. Internal (circuit_message (''bridge circuit open for route='' @ route) remaining m))
       (\<lambda>e attempt opened m.
          case e of
            Decode_Failure t \<Rightarrow> Internal (failure_message ''decode'' (url_of endpoint route) t attempt opened m)
          | Status_Failure status body \<Rightarrow> map_status_error_v1 D status body
          | Transport_Failure t \<Rightarrow> Internal (failure_message ''transport'' (url_of endpoint route) t attempt opened m))"

definition internal_error :: "string \<Rightarrow> connector_error" where
  "internal_error message = \<lparr>ce_code = ''INTERNAL'', ce_message = message, ce_retryable = True, ce_details = None\<rparr>"

definition post_json_connector ::
  "error_shapes \<Rightarrow> string \<Rightarrow> bridge_runtime_options \<Rightarrow> string \<Rightarrow> nat \<Rightarrow> (nat \<Rightarrow> 'r http_outcome) \<Rightarrow> (nat \<Rightarrow> nat) \<Rightarrow>
     bridge_state \<Rightarrow> (connector_error + 'r) \<times> bridge_state \<times> nat list" where
  "post_json_connector D endpoint options route now send clock =
     bridge_request options now (\<lambda>n. http_attempt (send n)) clock
       (\<lambda>remaining m. internal_error (circuit_message (''bridge circuit open for route='' @ route) remaining m))
       (\<lambda>e attempt opened m.
          case e of
            Decode_Failure t \<Rightarrow> internal_error (failure_message ''decode'' (url_of endpoint route) t attempt opened m)
          | Status_Failure status body \<Rightarrow> map_status_error_connector D status body
          | Transport_Failure t \<Rightarrow> internal_error (failure_message ''transport'' (url_of endpoint route) t attempt opened m))"

text \<open>A gRPC status is its code and its message; how a code is printed is a parameter.\<close>

definition map_connector_grpc_status ::
  "(grpc_code \<Rightarrow> string) \<Rightarrow> string \<Rightarrow> grpc_code \<times> string \<Rightarrow> nat \<Rightarrow> bridge_metrics \<Rightarrow> connector_error" where
  "map_connector_grpc_status code_text grpc_method status attempts m =
     \<lparr>ce_code = (if is_retryable_grpc_code (fst status) then ''UPSTREAM_UNAVAILABLE'' else ''INTERNAL''),
      ce_message = ''bridge grpc '' @ grpc_method @ '' error: code='' @ code_text (fst status) @ '' message='' @ snd status @
        '' attempts='' @ to_decimal attempts @ '' metrics='' @ snapshot m,
      ce_retryable = is_retryable_grpc_code (fst status), ce_details = None\<rparr>"

definition grpc_attempt :: "(grpc_code \<times> string) + 'r \<Rightarrow> ('r, grpc_code \<times> string) attempt" where
  "grpc_attempt x =
     (case x of Inr r \<Rightarrow> Answer r | Inl status \<Rightarrow> if is_retryable_grpc_code (fst status) then Retryable status else Final status)"

definition run_connector_rpc ::
  "(grpc_code \<Rightarrow> string) \<Rightarrow> bridge_runtime_options \<Rightarrow> string \<Rightarrow> nat \<Rightarrow> (nat \<Rightarrow> (grpc_code \<times> string) + 'r) \<Rightarrow> (nat \<Rightarrow> nat) \<Rightarrow>
     bridge_state \<Rightarrow> (connector_error + 'r) \<times> bridge_state \<times> nat list" where
  "run_connector_rpc code_text options grpc_method now send clock =
     bridge_request options now (\<lambda>n. grpc_attempt (send n)) clock
       (\<lambda>remaining m. internal_error (circuit_message (''bridge grpc circuit open for '' @ grpc_method) remaining m))
       (\<lambda>status attempt opened m. map_connector_grpc_status code_text grpc_method status attempt m)"

section \<open>Backoff\<close>

text \<open>Options as \<open>from_cli\<close> makes them from 64-bit arguments.\<close>

definition options_ok :: "bridge_runtime_options \<Rightarrow> bool" where
  "options_ok o' \<longleftrightarrow> 0 < initial_backoff o' \<and> initial_backoff o' \<le> max_backoff o' \<and> as_millis (max_backoff o') < 2 ^ 64 \<and>
     0 < circuit_breaker_cooldown o'"

lemma from_cli_ok: "initial_ms < 2 ^ 64 \<Longrightarrow> max_ms < 2 ^ 64 \<Longrightarrow> options_ok (from_cli retries initial_ms max_ms failures cooldown_ms)"
  by (auto simp: options_ok_def from_cli_def normalize_options_def Let_def from_millis_def as_millis_def)

lemma backoff_bounds:
  assumes "options_ok o'"
  shows "retry_backoff_for_attempt o' a \<le> max_backoff o'"
proof -
  have "min r (as_millis (max_backoff o')) mod 2 ^ 64 \<le> as_millis (max_backoff o')" for r
    by (rule order_trans [OF mod_less_eq_dividend]) simp
  then have "retry_backoff_for_attempt o' a \<le> from_millis (as_millis (max_backoff o'))"
    by (simp add: retry_backoff_for_attempt_def Let_def from_millis_def)
  also have "\<dots> \<le> max_backoff o'" by (simp add: from_millis_def as_millis_def)
  finally show ?thesis .
qed

lemma backoff_mono:
  assumes "options_ok o'" and "a \<le> b"
  shows "retry_backoff_for_attempt o' a \<le> retry_backoff_for_attempt o' b"
proof -
  let ?i = "as_millis (initial_backoff o')" and ?m = "as_millis (max_backoff o')"
  have small: "min r ?m mod 2 ^ 64 = min r ?m" for r using assms(1) by (simp add: options_ok_def min_def)
  have "(2 :: nat) ^ min (a - 1) 16 \<le> 2 ^ min (b - 1) 16" using assms(2) by (intro power_increasing) auto
  then have "?i * 2 ^ min (a - 1) 16 \<le> ?i * 2 ^ min (b - 1) 16" by simp
  then show ?thesis
    unfolding retry_backoff_for_attempt_def Let_def from_millis_def small by (intro mult_le_mono1 min.mono order_refl)
qed

section \<open>Attempts\<close>

text \<open>How a request ends with its n-th attempt.\<close>

definition conclude ::
  "bridge_runtime_options \<Rightarrow> (nat \<Rightarrow> nat) \<Rightarrow> ('e \<Rightarrow> nat \<Rightarrow> bool \<Rightarrow> bridge_metrics \<Rightarrow> 'x) \<Rightarrow> nat \<Rightarrow> ('r, 'e) attempt \<Rightarrow>
     bridge_state \<Rightarrow> ('x + 'r) \<times> bridge_state" where
  "conclude options clock mk_error n outcome st =
     (case outcome of
        Answer r \<Rightarrow> (Inr r, st\<lparr>bs_metrics := record_request n True (bs_metrics st), bs_breaker := record_success (bs_breaker st)\<rparr>)
      | Final e \<Rightarrow> finish_alive n mk_error e st
      | Broken e \<Rightarrow> finish_failure options (clock n) n mk_error e st
      | Retryable e \<Rightarrow> finish_failure options (clock n) n mk_error e st)"

definition is_retryable :: "('r, 'e) attempt \<Rightarrow> bool" where
  "is_retryable x = (case x of Retryable _ \<Rightarrow> True | _ \<Rightarrow> False)"

lemma max_attempts_bounds: "1 \<le> max_attempts o'" "max_attempts o' \<le> max_retries o' + 1" "max_attempts o' < 2 ^ 32"
  by (auto simp: max_attempts_def sat_add_def)

lemma request_loop_attempts:
  assumes "previous < max_attempts o'"
  shows "\<exists>n. previous < n \<and> n \<le> max_attempts o' \<and> list_all (\<lambda>i. is_retryable (send i)) [previous + 1..<n] \<and>
    (n < max_attempts o' \<longrightarrow> \<not> is_retryable (send n)) \<and>
    request_loop o' send clock mk previous st =
      (fst (conclude o' clock mk n (send n) st), snd (conclude o' clock mk n (send n) st),
       map (retry_backoff_for_attempt o') [previous + 1..<n])"
  using assms
proof (induction "max_attempts o' - previous" arbitrary: previous rule: less_induct)
  case less
  have next_attempt: "sat_add 32 previous 1 = previous + 1" using less.prems max_attempts_bounds(3) [of o'] by (simp add: sat_add_def)
  note step = request_loop.simps [of o' send clock mk previous st, unfolded Let_def next_attempt]
  show ?case
  proof (cases "is_retryable (send (previous + 1)) \<and> previous + 1 < max_attempts o'")
    case True
    then have smaller: "max_attempts o' - (previous + 1) < max_attempts o' - previous" "previous + 1 < max_attempts o'" by auto
    from less.hyps [OF this] obtain n where n: "previous + 1 < n" "n \<le> max_attempts o'"
        "list_all (\<lambda>i. is_retryable (send i)) [previous + 2..<n]" "n < max_attempts o' \<longrightarrow> \<not> is_retryable (send n)"
      and loop: "request_loop o' send clock mk (previous + 1) st =
        (fst (conclude o' clock mk n (send n) st), snd (conclude o' clock mk n (send n) st),
         map (retry_backoff_for_attempt o') [previous + 2..<n])" by (auto simp: numeral_2_eq_2)
    have range: "[Suc previous..<n] = Suc previous # [Suc (Suc previous)..<n]" using n(1) by (simp add: upt_rec)
    from True obtain e where "send (previous + 1) = Retryable e" by (cases "send (previous + 1)") (auto simp: is_retryable_def)
    with True step loop have "request_loop o' send clock mk previous st =
        (fst (conclude o' clock mk n (send n) st), snd (conclude o' clock mk n (send n) st),
         map (retry_backoff_for_attempt o') [previous + 1..<n])" by (simp add: range)
    with True n range show ?thesis by (intro exI [of _ n]) simp
  next
    case False
    then have "request_loop o' send clock mk previous st =
        (fst (conclude o' clock mk (previous + 1) (send (previous + 1)) st),
         snd (conclude o' clock mk (previous + 1) (send (previous + 1)) st), [])"
      using step by (auto simp: conclude_def is_retryable_def split: attempt.splits prod.splits)
    with less.prems False show ?thesis by (intro exI [of _ "previous + 1"]) auto
  qed
qed

section \<open>Runs of requests\<close>

text \<open>Requests made one after the other; each with the time it starts, its outcomes and its clock.\<close>

fun run_requests ::
  "bridge_runtime_options \<Rightarrow> (nat \<times> (nat \<Rightarrow> ('r, 'e) attempt) \<times> (nat \<Rightarrow> nat)) list \<Rightarrow> bridge_state \<Rightarrow> bridge_state" where
  "run_requests options [] st = st"
| "run_requests options ((now, send, clock) # rs) st =
     run_requests options rs (fst (snd (bridge_request options now send clock (\<lambda>remaining m. ()) (\<lambda>e n opened m. ()) st)))"

definition initial_state :: bridge_state where
  "initial_state = \<lparr>bs_metrics = default_metrics, bs_breaker = default_breaker\<rparr>"

text \<open>
  What the counters have in common after some requests; \<open>k\<close> is the number of requests. The
  bound keeps every counter below its saturation.
\<close>

definition accounts :: "bridge_runtime_options \<Rightarrow> nat \<Rightarrow> bridge_state \<Rightarrow> bool" where
  "accounts options k st \<longleftrightarrow>
     (let m = bs_metrics st; b = bs_breaker st
      in requests_total m + short_circuited_total m = k \<and>
         succeeded_total m + failed_total m = requests_total m \<and>
         attempts_total m = requests_total m + retries_total m \<and>
         attempts_total m \<le> requests_total m * max_attempts options \<and>
         opened_total b \<le> failed_total m \<and>
         (0 < circuit_breaker_failures options \<longrightarrow> consecutive_failures b < circuit_breaker_failures options))"

lemma record_failure_accounts:
  assumes "record_failure now options b = (opened, b')"
    and "0 < circuit_breaker_failures options \<longrightarrow> consecutive_failures b < circuit_breaker_failures options"
  shows "opened_total b' \<le> opened_total b + 1 \<and>
    (0 < circuit_breaker_failures options \<longrightarrow> consecutive_failures b' < circuit_breaker_failures options)"
  using assms by (auto simp: record_failure_def check_open_def sat_add_def Let_def split: if_splits option.splits)

lemma record_request_exact:
  assumes "attempts_total m + n < 2 ^ 64" "requests_total m + 1 < 2 ^ 64" "retries_total m + n < 2 ^ 64"
    "succeeded_total m + 1 < 2 ^ 64" "failed_total m + 1 < 2 ^ 64"
  shows "record_request n success m = m\<lparr>requests_total := requests_total m + 1, attempts_total := attempts_total m + n,
    retries_total := retries_total m + (n - 1), succeeded_total := succeeded_total m + (if success then 1 else 0),
    failed_total := failed_total m + (if success then 0 else 1)\<rparr>"
  using assms by (simp add: record_request_def sat_add_def Let_def)

lemma conclude_accounts:
  assumes "accounts options k st" and "1 \<le> n" "n \<le> max_attempts options" and "k < 2 ^ 32 - 1"
  shows "accounts options (k + 1) (snd (conclude options clock mk n outcome st))"
proof -
  let ?m = "bs_metrics st" and ?b = "bs_breaker st"
  have req: "requests_total ?m \<le> k" "succeeded_total ?m \<le> requests_total ?m" "failed_total ?m \<le> requests_total ?m"
      "retries_total ?m \<le> attempts_total ?m"
    and att: "attempts_total ?m \<le> requests_total ?m * max_attempts options"
    using assms(1) by (auto simp: accounts_def Let_def)
  have "requests_total ?m * max_attempts options + max_attempts options = (requests_total ?m + 1) * max_attempts options" by simp
  also have "\<dots> \<le> (2 ^ 32 - 1) * 2 ^ 32" using req(1) assms(4) max_attempts_bounds(3) [of options] by (intro mult_le_mono) auto
  finally have "attempts_total ?m + n < 2 ^ 64" using att assms(3) by simp
  then have exact: "record_request n success ?m = ?m\<lparr>requests_total := requests_total ?m + 1, attempts_total := attempts_total ?m + n,
      retries_total := retries_total ?m + (n - 1), succeeded_total := succeeded_total ?m + (if success then 1 else 0),
      failed_total := failed_total ?m + (if success then 0 else 1)\<rparr>" for success
    using req assms(4) by (intro record_request_exact) auto
  obtain opened b' where rf: "record_failure (clock n) options ?b = (opened, b')" by fastforce
  from assms(1) have b: "0 < circuit_breaker_failures options \<longrightarrow> consecutive_failures ?b < circuit_breaker_failures options"
    by (simp add: accounts_def Let_def)
  from record_failure_accounts [OF rf this] exact rf assms(1,2,3) show ?thesis
    by (auto simp: conclude_def finish_failure_def finish_alive_def accounts_def Let_def record_success_def algebra_simps
        split: attempt.splits)
qed

lemma check_open_accounts:
  "check_open now b = (r, b') \<Longrightarrow> opened_total b' = opened_total b \<and> consecutive_failures b' = consecutive_failures b"
  by (auto simp: check_open_def split: option.splits if_splits)

lemma bridge_request_accounts:
  assumes "accounts options k st" and "k < 2 ^ 32 - 1"
  shows "accounts options (k + 1) (fst (snd (bridge_request options now send clock ce mk st)))"
proof -
  obtain r b where co: "check_open now (bs_breaker st) = (r, b)" by fastforce
  have inv: "accounts options k (st\<lparr>bs_breaker := b\<rparr>)" using assms(1) check_open_accounts [OF co] by (simp add: accounts_def Let_def)
  show ?thesis
  proof (cases r)
    case (Some remaining)
    with co assms check_open_accounts [OF co] show ?thesis
      by (auto simp: bridge_request_def accounts_def Let_def record_short_circuit_def sat_add_def)
  next
    case None
    obtain n where n: "0 < n" "n \<le> max_attempts options"
      and loop: "fst (snd (request_loop options send clock mk 0 (st\<lparr>bs_breaker := b\<rparr>))) =
        snd (conclude options clock mk n (send n) (st\<lparr>bs_breaker := b\<rparr>))"
      using request_loop_attempts [of 0 options send clock mk "st\<lparr>bs_breaker := b\<rparr>"] max_attempts_bounds(1) [of options] by auto
    from conclude_accounts [OF inv _ n(2) assms(2)] n(1) loop None co show ?thesis by (simp add: bridge_request_def)
  qed
qed

lemma run_requests_accounts:
  "accounts options k st \<Longrightarrow> k + length rs < 2 ^ 32 \<Longrightarrow> accounts options (k + length rs) (run_requests options rs st)"
proof (induction rs arbitrary: k st)
  case (Cons r rs)
  then show ?case using bridge_request_accounts [of options k st] by (cases r) fastforce
qed simp

section \<open>Tripping\<close>

definition failures_at :: "bridge_runtime_options \<Rightarrow> nat list \<Rightarrow> bridge_circuit_breaker \<Rightarrow> bridge_circuit_breaker" where
  "failures_at options ts b = fold (\<lambda>t b. snd (record_failure t options b)) ts b"

lemma failures_below:
  assumes "open_until b = None" and "consecutive_failures b + length ts < circuit_breaker_failures options"
    and "circuit_breaker_failures options < 2 ^ 32"
  shows "failures_at options ts b = b\<lparr>consecutive_failures := consecutive_failures b + length ts\<rparr>"
  using assms
proof (induction ts arbitrary: b)
  case (Cons t ts)
  have "record_failure t options b = (False, b\<lparr>consecutive_failures := consecutive_failures b + 1\<rparr>)"
    using Cons.prems by (simp add: record_failure_def check_open_def sat_add_def)
  with Cons.IH [of "b\<lparr>consecutive_failures := consecutive_failures b + 1\<rparr>"] Cons.prems show ?case
    by (simp add: failures_at_def)
qed (simp add: failures_at_def)

section \<open>Properties\<close>

text \<open>
  C23. A request over a bridge ends after at most one attempt more than the retries that were
  configured. It is repeated only after outcomes that may be repeated, each pause lasts at
  most the configured maximum and no shorter than the one before, and what it returns is
  decided by its last attempt alone.
\<close>

theorem request_attempts_bounded:
  assumes "options_ok options" and "fst (check_open now (bs_breaker st)) = None"
  shows "\<exists>n pauses. 1 \<le> n \<and> n \<le> max_retries options + 1 \<and> length pauses = n - 1 \<and>
    list_all (\<lambda>i. is_retryable (send i)) [1..<n] \<and> sorted pauses \<and> list_all (\<lambda>p. p \<le> max_backoff options) pauses \<and>
    bridge_request options now send clock circuit_error mk_error st =
      (fst (conclude options clock mk_error n (send n) (st\<lparr>bs_breaker := snd (check_open now (bs_breaker st))\<rparr>)),
       snd (conclude options clock mk_error n (send n) (st\<lparr>bs_breaker := snd (check_open now (bs_breaker st))\<rparr>)), pauses)"
proof -
  let ?st = "st\<lparr>bs_breaker := snd (check_open now (bs_breaker st))\<rparr>"
  have req: "bridge_request options now send clock circuit_error mk_error st = request_loop options send clock mk_error 0 ?st"
    using assms(2) by (cases "check_open now (bs_breaker st)") (simp add: bridge_request_def)
  obtain n where n: "0 < n" "n \<le> max_attempts options" "list_all (\<lambda>i. is_retryable (send i)) [0 + 1..<n]"
    and loop: "request_loop options send clock mk_error 0 ?st = (fst (conclude options clock mk_error n (send n) ?st),
      snd (conclude options clock mk_error n (send n) ?st), map (retry_backoff_for_attempt options) [0 + 1..<n])"
    using request_loop_attempts [of 0 options send clock mk_error ?st] max_attempts_bounds(1) [of options] by auto
  have "sorted (map (retry_backoff_for_attempt options) [1..<n])"
    using backoff_mono [OF assms(1)] by (auto simp: sorted_iff_nth_mono)
  moreover have "list_all (\<lambda>p. p \<le> max_backoff options) (map (retry_backoff_for_attempt options) [1..<n])"
    using backoff_bounds [OF assms(1)] by (simp add: list_all_iff)
  ultimately show ?thesis using n max_attempts_bounds(2) [of options] req loop
    by (intro exI [of _ n] exI [of _ "map (retry_backoff_for_attempt options) [1..<n]"]) simp
qed

definition demo_options :: bridge_runtime_options where
  "demo_options = from_cli 2 100 150 2 1000"

definition demo_send :: "nat \<Rightarrow> (bool, string) attempt" where
  "demo_send n = (if n = 3 then Answer True else Retryable ''busy'')"

theorem request_attempts_bounded_witness:
  "\<exists>n pauses. 1 \<le> n \<and> n \<le> 3 \<and> length pauses = n - 1 \<and> list_all (\<lambda>p. p \<le> 150000000) pauses \<and>
    bridge_request demo_options 5 demo_send (\<lambda>n. 10 * n) (\<lambda>r m. ()) (\<lambda>e n opened m. ()) initial_state =
      (fst (conclude demo_options (\<lambda>n. 10 * n) (\<lambda>e n opened m. ()) n (demo_send n) initial_state),
       snd (conclude demo_options (\<lambda>n. 10 * n) (\<lambda>e n opened m. ()) n (demo_send n) initial_state), pauses)"
proof -
  have ok: "options_ok demo_options" unfolding demo_options_def by (rule from_cli_ok) simp_all
  have demo: "max_retries demo_options = 2" "max_backoff demo_options = 150000000"
    by (simp_all add: demo_options_def from_cli_def normalize_options_def Let_def from_millis_def)
  have closed: "check_open 5 (bs_breaker initial_state) = (None, bs_breaker initial_state)"
    by (simp add: initial_state_def default_breaker_def check_open_def)
  then have "fst (check_open 5 (bs_breaker initial_state)) = None" by simp
  from request_attempts_bounded [OF ok this, of demo_send "\<lambda>n. 10 * n" "\<lambda>r m. ()" "\<lambda>e n opened m. ()"]
  show ?thesis unfolding closed demo by (simp add: initial_state_def) blast
qed

text \<open>
  The counters of a bridge add up after any run of requests, whatever their outcomes: every
  request was either let through or cut short, every one let through succeeded or failed, the
  attempts are the requests and their repetitions and stay within the configured number per
  request, the breaker opened at most once per failed request, and the failures it has
  counted stay below its threshold.
\<close>

theorem bridge_accounting:
  assumes "length rs < 2 ^ 32"
  shows "accounts options (length rs) (run_requests options rs initial_state)"
proof -
  have "accounts options 0 initial_state"
    by (simp add: accounts_def initial_state_def default_metrics_def default_breaker_def Let_def)
  from run_requests_accounts [OF this, of rs] assms show ?thesis by simp
qed

theorem bridge_accounting_witness:
  "accounts demo_options 2 (run_requests demo_options [(5, demo_send, \<lambda>n. 10 * n), (60, \<lambda>n. Broken ''x'', \<lambda>n. 70)] initial_state)"
proof -
  let ?rs = "[(5, demo_send, \<lambda>n. 10 * n), (60, \<lambda>n. Broken ''x'', \<lambda>n. 70)]"
  have len: "length ?rs = 2" by simp
  then have "length ?rs < 2 ^ 32" unfolding len by simp
  from bridge_accounting [OF this, of demo_options] show ?thesis unfolding len .
qed

text \<open>
  The breaker trips with exactly the configured number of failures in a row and not
  before: until then it lets requests through; from then on, as long as the cool-down that
  starts with the last failure lasts, a request is refused without any attempt being made, and
  when it is over requests are let through again.
\<close>

theorem breaker_trips:
  assumes "open_until b = None" and "consecutive_failures b = 0" and "circuit_breaker_failures options < 2 ^ 32"
    and "length (ts @ [t]) = circuit_breaker_failures options"
  shows "open_until (failures_at options ts b) = None \<and>
    (\<forall>now send clock ce mk m. now < t + circuit_breaker_cooldown options \<longrightarrow>
       bridge_request options now send clock ce mk \<lparr>bs_metrics = m, bs_breaker = failures_at options (ts @ [t]) b\<rparr> =
         (Inl (ce (t + circuit_breaker_cooldown options - now) (record_short_circuit m)),
          \<lparr>bs_metrics = record_short_circuit m, bs_breaker = failures_at options (ts @ [t]) b\<rparr>, [])) \<and>
    (\<forall>now. t + circuit_breaker_cooldown options \<le> now \<longrightarrow> fst (check_open now (failures_at options (ts @ [t]) b)) = None)"
proof -
  have below: "failures_at options ts b = b\<lparr>consecutive_failures := length ts\<rparr>"
    using failures_below [of b ts options] assms by simp
  have "failures_at options (ts @ [t]) b = snd (record_failure t options (failures_at options ts b))"
    by (simp add: failures_at_def)
  also have "\<dots> = b\<lparr>consecutive_failures := 0, open_until := Some (t + circuit_breaker_cooldown options),
      opened_total := sat_add 64 (opened_total b) 1\<rparr>"
    using assms unfolding below by (auto simp: record_failure_def check_open_def sat_add_def Let_def)
  finally have tripped: "failures_at options (ts @ [t]) b = b\<lparr>consecutive_failures := 0,
      open_until := Some (t + circuit_breaker_cooldown options), opened_total := sat_add 64 (opened_total b) 1\<rparr>" .
  show ?thesis
    unfolding tripped below using assms(1) by (simp add: bridge_request_def check_open_def Let_def)
qed

theorem breaker_trips_witness:
  "open_until (failures_at demo_options [7] default_breaker) = None \<and>
   bridge_request demo_options 11 demo_send (\<lambda>n. n) (\<lambda>left m. left) (\<lambda>e n opened m. 0)
       \<lparr>bs_metrics = default_metrics, bs_breaker = failures_at demo_options [7, 10] default_breaker\<rparr> =
     (Inl 999999999, \<lparr>bs_metrics = record_short_circuit default_metrics,
        bs_breaker = failures_at demo_options [7, 10] default_breaker\<rparr>, [])"
proof -
  have demo: "circuit_breaker_failures demo_options = 2" "circuit_breaker_cooldown demo_options = 1000000000"
    by (simp_all add: demo_options_def from_cli_def normalize_options_def Let_def from_millis_def)
  have "open_until default_breaker = None" "consecutive_failures default_breaker = 0"
    "circuit_breaker_failures demo_options < 2 ^ 32" "length ([7] @ [10 :: nat]) = circuit_breaker_failures demo_options"
    by (simp_all add: default_breaker_def demo)
  note trips = breaker_trips [OF this]
  from trips [THEN conjunct1]
    trips [THEN conjunct2, THEN conjunct1, rule_format, of 11 demo_send "\<lambda>n. n" "\<lambda>left m. left" "\<lambda>e n opened m. 0" default_metrics]
  show ?thesis by (simp add: demo)
qed

end
