(* ===== verification/Appfs_Adapter.thy ===== *)
theory Appfs_Adapter
  imports Action_Delivery Bridge_Resilience "HOL-Library.Sublist"
begin

text \<open>
  The adapter behind the action consumer: \<open>process_action\<close> of \<open>appfs/cli/src/cmd/appfs/core.rs\<close>,
  the event stream and streaming jobs of \<open>events.rs\<close>, the paging handles of \<open>paging.rs\<close>.

  Parameters, in the record \<open>adapter_env\<close>: the JSON library; the outcome of the file
  operations; the clock; the reader of RFC 3339 times of the crate \<open>chrono\<close>; and the connector.
  The four routes that synchronise the tree, the snapshots and the credentials of the app are not
  modelled: \<open>process_action\<close> hands them to an arbitrary function on the whole adapter, and no property
  speaks about them. A constant stands for the text of an error of the file system.
\<close>

section \<open>State\<close>

definition DEFAULT_RETENTION_HINT_SEC :: i64 where "DEFAULT_RETENTION_HINT_SEC = 86400"
definition ERR_PAGER_HANDLE_NOT_FOUND :: string where "ERR_PAGER_HANDLE_NOT_FOUND = ''PAGER_HANDLE_NOT_FOUND''"
definition ERR_PAGER_HANDLE_EXPIRED :: string where "ERR_PAGER_HANDLE_EXPIRED = ''PAGER_HANDLE_EXPIRED''"
definition ERR_PAGER_HANDLE_CLOSED :: string where "ERR_PAGER_HANDLE_CLOSED = ''PAGER_HANDLE_CLOSED''"
definition ERR_PERMISSION_DENIED :: string where "ERR_PERMISSION_DENIED = ''PERMISSION_DENIED''"

record paging_handle =
  ph_page_no :: nat
  ph_closed :: bool
  ph_owner_session :: string
  ph_expires_at_ts :: "i64 option"
  ph_upstream_cursor :: "string option"
  ph_resource_path :: string

record streaming_job =
  sj_request_id :: string
  sj_path :: string
  sj_client_token :: "string option"
  sj_accepted :: "json option"
  sj_progress :: "json option"
  sj_terminal :: json
  sj_stage :: nat

record cursor_state =
  cu_min_seq :: i64
  cu_max_seq :: i64
  cu_retention_hint_sec :: i64

text \<open>The fields of an event that depend on the call; application, session and time stamp are constant or the clock's.\<close>

record app_event =
  ev_seq :: i64
  ev_request_id :: string
  ev_path :: string
  ev_type :: string
  ev_content :: "json option"
  ev_error :: "json option"
  ev_client_token :: "string option"

text \<open>
  The files it writes are part of the state: the stream, the replay files, the saved cursor and jobs. Of the
  stream there are the lines that are one event, and whether the file ends with a part of a line, which the
  line written next continues, so that neither of the two is an event.
\<close>

record 'c adapter =
  ad_app_id :: string
  ad_session_id :: string
  ad_principal_id :: "string option"
  ad_profile_id :: "string option"
  ad_next_seq :: i64
  ad_events :: "app_event list"
  ad_torn :: bool
  ad_replay :: "i64 \<rightharpoonup> app_event"
  ad_cursor :: cursor_state
  ad_saved_cursor :: cursor_state
  ad_jobs :: "streaming_job list"
  ad_saved_jobs :: "streaming_job list"
  ad_handles :: "string \<rightharpoonup> paging_handle"
  ad_aliases :: "string \<rightharpoonup> string"
  ad_connector :: 'c

section \<open>The connector\<close>

record connector_context =
  cc_app_id :: string
  cc_session_id :: string
  cc_request_id :: string
  cc_client_token :: "string option"
  cc_trace_id :: "string option"
  cc_principal_id :: "string option"
  cc_profile_id :: "string option"

record submit_action_request =
  sar_path :: string
  sar_payload :: json
  sar_execution_mode :: execution_mode

record action_streaming_plan =
  asp_accepted_content :: "json option"
  asp_progress_content :: "json option"
  asp_terminal_content :: json

datatype submit_action_outcome = Submit_Completed json | Submit_Streaming action_streaming_plan

record fetch_live_page_request =
  flr_resource_path :: string
  flr_handle_id :: "string option"
  flr_cursor :: "string option"
  flr_page_size :: nat

record live_page_info =
  lp_handle_id :: string
  lp_page_no :: nat
  lp_has_more :: bool
  lp_expires_at :: "string option"
  lp_next_cursor :: "string option"

record 'c connector =
  submit_action :: "submit_action_request \<Rightarrow> connector_context \<Rightarrow> 'c \<Rightarrow> (connector_error + submit_action_outcome) \<times> 'c"
  fetch_live_page :: "fetch_live_page_request \<Rightarrow> connector_context \<Rightarrow> 'c \<Rightarrow> (connector_error + json list \<times> live_page_info) \<times> 'c"

text \<open>What may go wrong when an event is published, and an event before it has a number.\<close>

datatype publish_io = Published | Stream_Failed | Stream_Torn | Replay_Failed | Cursor_Failed

record pending_event =
  pe_path :: string
  pe_type :: string
  pe_content :: "json option"
  pe_error :: "json option"

record 'c adapter_env =
  ae_json :: json_lib
  ae_io :: "i64 \<Rightarrow> publish_io"
  ae_save_jobs :: "streaming_job list \<Rightarrow> bool"
  ae_now :: "string \<Rightarrow> i64"
  ae_later :: "string \<Rightarrow> i64"
  ae_rfc3339 :: "string \<Rightarrow> i64 option"
  ae_connector :: "'c connector"
  ae_other :: "dispatch_route \<Rightarrow> string \<Rightarrow> string \<Rightarrow> string \<Rightarrow> string option \<Rightarrow> 'c adapter \<Rightarrow> (string + process_outcome) \<times> 'c adapter"
  ae_background :: "'c \<Rightarrow> 'c"

definition is_transient_connector_failure :: "string \<Rightarrow> bool \<Rightarrow> bool" where
  "is_transient_connector_failure err_code retryable \<longleftrightarrow> retryable \<and>
     to_ascii_lowercase err_code \<in> set [''internal'', ''upstream_unavailable'', ''timeout'']"

section \<open>Events\<close>

definition publish_event :: "'c adapter_env \<Rightarrow> i64 \<Rightarrow> app_event \<Rightarrow> 'c adapter \<Rightarrow> (string + unit) \<times> 'c adapter" where
  "publish_event E seq ev a =
     (let a1 = (if ad_torn a then a\<lparr>ad_torn := False\<rparr> else a\<lparr>ad_events := ad_events a @ [ev]\<rparr>);
          a2 = a1\<lparr>ad_replay := (ad_replay a)(seq \<mapsto> ev)\<rparr>;
          cur = ad_cursor a;
          cur1 = \<lparr>cu_min_seq = (if cu_min_seq cur \<le> 0 then seq else cu_min_seq cur), cu_max_seq = seq,
                  cu_retention_hint_sec = (if cu_retention_hint_sec cur \<le> 0 then DEFAULT_RETENTION_HINT_SEC
                                           else cu_retention_hint_sec cur)\<rparr>
      in case ae_io E seq of
           Stream_Failed \<Rightarrow> (Inl ''Failed to open stream file'', a)
         | Stream_Torn \<Rightarrow> (Inl ''Failed to write stream file'', a\<lparr>ad_torn := True\<rparr>)
         | Replay_Failed \<Rightarrow> (Inl ''Failed to write replay file'', a1)
         | Cursor_Failed \<Rightarrow> (Inl ''Failed to write cursor'', a2\<lparr>ad_cursor := cur1\<rparr>)
         | Published \<Rightarrow> (Inr (), a2\<lparr>ad_cursor := cur1, ad_saved_cursor := cur1\<rparr>))"

text \<open>\<open>self.next_seq += 1\<close> on an \<open>i64\<close>, which wraps around in a release build.\<close>

definition i64_succ :: "i64 \<Rightarrow> i64" where
  "i64_succ i = (if i = 2 ^ 63 - 1 then - (2 ^ 63) else i + 1)"

definition emit_event ::
  "'c adapter_env \<Rightarrow> string \<Rightarrow> string \<Rightarrow> string \<Rightarrow> json option \<Rightarrow> json option \<Rightarrow> string option \<Rightarrow> 'c adapter \<Rightarrow>
     (string + unit) \<times> 'c adapter" where
  "emit_event E action_path request_id event_type content_json error_json client_token a =
     (let seq = ad_next_seq a
      in publish_event E seq
           \<lparr>ev_seq = seq, ev_request_id = request_id, ev_path = action_path, ev_type = event_type, ev_content = content_json,
            ev_error = error_json, ev_client_token = client_token\<rparr>
           (a\<lparr>ad_next_seq := i64_succ seq\<rparr>))"

definition error_object :: "string \<Rightarrow> string \<Rightarrow> bool \<Rightarrow> json" where
  "error_object err_code message retryable =
     JObject [(''code'', JString err_code), (''message'', JString message), (''retryable'', JBool retryable)]"

definition emit_failed_with_retryable ::
  "'c adapter_env \<Rightarrow> string \<Rightarrow> string \<Rightarrow> string \<Rightarrow> string \<Rightarrow> bool \<Rightarrow> string option \<Rightarrow> 'c adapter \<Rightarrow> (string + unit) \<times> 'c adapter" where
  "emit_failed_with_retryable E action_path request_id err_code message retryable client_token a =
     emit_event E action_path request_id ''action.failed'' None (Some (error_object err_code message retryable)) client_token a"

definition emit_failed ::
  "'c adapter_env \<Rightarrow> string \<Rightarrow> string \<Rightarrow> string \<Rightarrow> string \<Rightarrow> string option \<Rightarrow> 'c adapter \<Rightarrow> (string + unit) \<times> 'c adapter" where
  "emit_failed E action_path request_id err_code message client_token a =
     emit_failed_with_retryable E action_path request_id err_code message (err_code = ERR_PAGER_HANDLE_EXPIRED) client_token a"

text \<open>The operator \<open>?\<close> on calls that change the adapter, and \<open>Ok(ProcessOutcome::Consumed)\<close> behind one.\<close>

definition and_do :: "('e + 'a) \<times> 's \<Rightarrow> ('a \<Rightarrow> 's \<Rightarrow> ('e + 'b) \<times> 's) \<Rightarrow> ('e + 'b) \<times> 's" where
  "and_do r f = (case r of (Inl e, s) \<Rightarrow> (Inl e, s) | (Inr x, s) \<Rightarrow> f x s)"

definition then_consumed :: "('e + unit) \<times> 's \<Rightarrow> ('e + process_outcome) \<times> 's" where
  "then_consumed r = and_do r (\<lambda>_ s. (Inr Consumed, s))"

definition save_streaming_jobs :: "'c adapter_env \<Rightarrow> 'c adapter \<Rightarrow> (string + unit) \<times> 'c adapter" where
  "save_streaming_jobs E a =
     (if ae_save_jobs E (ad_jobs a) then (Inr (), a\<lparr>ad_saved_jobs := ad_jobs a\<rparr>) else (Inl ''Failed to save jobs'', a))"

definition enqueue_streaming_job ::
  "'c adapter_env \<Rightarrow> string \<Rightarrow> string \<Rightarrow> string option \<Rightarrow> action_streaming_plan \<Rightarrow> 'c adapter \<Rightarrow> (string + unit) \<times> 'c adapter" where
  "enqueue_streaming_job E action_path request_id client_token plan a =
     save_streaming_jobs E (a\<lparr>ad_jobs := ad_jobs a @
       [\<lparr>sj_request_id = request_id, sj_path = action_path, sj_client_token = client_token, sj_accepted = asp_accepted_content plan,
         sj_progress = asp_progress_content plan, sj_terminal = asp_terminal_content plan, sj_stage = 0\<rparr>]\<rparr>)"

text \<open>One job: the event of its stage; the job with its next stage, when there is one.\<close>

definition job_event :: "streaming_job \<Rightarrow> string \<times> json" where
  "job_event job =
     (if sj_stage job = 0 then (''action.accepted'', case sj_accepted job of Some c \<Rightarrow> c | None \<Rightarrow> JString ''accepted'')
      else if sj_stage job = 1
      then (''action.progress'', case sj_progress job of Some c \<Rightarrow> c | None \<Rightarrow> JObject [(''percent'', JNumber ''50'')])
      else (''action.completed'', sj_terminal job))"

definition next_stage :: "streaming_job \<Rightarrow> streaming_job list" where
  "next_stage job = (if sj_stage job \<le> 1 then [job\<lparr>sj_stage := sj_stage job + 1\<rparr>] else [])"

fun drain_jobs_loop ::
  "'c adapter_env \<Rightarrow> streaming_job list \<Rightarrow> streaming_job list \<Rightarrow> 'c adapter \<Rightarrow> (string + streaming_job list) \<times> 'c adapter" where
  "drain_jobs_loop E [] next_jobs a = (Inr next_jobs, a)"
| "drain_jobs_loop E (job # jobs) next_jobs a =
     and_do (emit_event E (sj_path job) (sj_request_id job) (fst (job_event job)) (Some (snd (job_event job))) None
               (sj_client_token job) a)
       (\<lambda>_ a1. drain_jobs_loop E jobs (next_jobs @ next_stage job) a1)"

definition drain_streaming_jobs :: "'c adapter_env \<Rightarrow> 'c adapter \<Rightarrow> (string + unit) \<times> 'c adapter" where
  "drain_streaming_jobs E a =
     (if ad_jobs a = [] then (Inr (), a)
      else and_do (drain_jobs_loop E (ad_jobs a) [] (a\<lparr>ad_jobs := []\<rparr>))
             (\<lambda>next_jobs a1. save_streaming_jobs E (a1\<lparr>ad_jobs := next_jobs\<rparr>)))"

section \<open>Paging\<close>

definition resolve_handle_key :: "'c adapter \<Rightarrow> string \<Rightarrow> string" where
  "resolve_handle_key a requested =
     (case ad_aliases a requested of
        Some alias \<Rightarrow> alias
      | None \<Rightarrow>
          let normalized = normalize_runtime_handle_id requested
          in if ad_handles a normalized \<noteq> None then normalized else requested)"

definition context_for :: "string \<Rightarrow> string option \<Rightarrow> 'c adapter \<Rightarrow> connector_context" where
  "context_for request_id client_token a =
     \<lparr>cc_app_id = ad_app_id a, cc_session_id = ad_session_id a, cc_request_id = request_id, cc_client_token = client_token,
      cc_trace_id = None, cc_principal_id = ad_principal_id a, cc_profile_id = ad_profile_id a\<rparr>"

definition set_handle :: "string \<Rightarrow> (paging_handle \<Rightarrow> paging_handle) \<Rightarrow> 'c adapter \<Rightarrow> 'c adapter" where
  "set_handle key f a =
     (case ad_handles a key of None \<Rightarrow> a | Some p \<Rightarrow> a\<lparr>ad_handles := (ad_handles a)(key \<mapsto> f p)\<rparr>)"

text \<open>
  The checks \<open>handle_fetch_next\<close> and \<open>handle_close_handle\<close> share, in their order: the error and
  its message, or the handle.
\<close>

datatype handle_check = Check_Failed string string | Check_Expired paging_handle | Check_Ok paging_handle

definition check_handle :: "i64 \<Rightarrow> string \<Rightarrow> string option \<Rightarrow> 'c adapter \<Rightarrow> handle_check" where
  "check_handle now handle_id requester_session_id a =
     (if \<not> is_handle_format_valid handle_id then Check_Failed ERR_INVALID_ARGUMENT ''invalid handle_id format''
      else case ad_handles a (resolve_handle_key a handle_id) of
             None \<Rightarrow> Check_Failed ERR_PAGER_HANDLE_NOT_FOUND ''handle not found''
           | Some p \<Rightarrow>
               if (case requester_session_id of Some s \<Rightarrow> s | None \<Rightarrow> ad_session_id a) \<noteq> ph_owner_session p
               then Check_Failed ERR_PERMISSION_DENIED ''cross-session handle access denied''
               else if ph_closed p then Check_Failed ERR_PAGER_HANDLE_CLOSED ''handle already closed''
               else if (case ph_expires_at_ts p of Some expiry \<Rightarrow> expiry \<le> now | None \<Rightarrow> False) then Check_Expired p
               else Check_Ok p)"

definition page_content :: "json list \<Rightarrow> live_page_info \<Rightarrow> json" where
  "page_content items page = JObject
     [(''items'', JArray items),
      (''page'', JObject [(''handle_id'', JString (lp_handle_id page)), (''page_no'', JNumber (to_decimal (lp_page_no page))),
         (''has_more'', JBool (lp_has_more page)), (''mode'', JString ''live''),
         (''expires_at'', case lp_expires_at page of Some t \<Rightarrow> JString t | None \<Rightarrow> JNull)])]"

definition handle_fetch_next ::
  "'c adapter_env \<Rightarrow> string \<Rightarrow> string \<Rightarrow> string \<Rightarrow> string option \<Rightarrow> string option \<Rightarrow> 'c adapter \<Rightarrow>
     (string + process_outcome) \<times> 'c adapter" where
  "handle_fetch_next E action_path request_id handle_id requester_session_id client_token a =
     (case check_handle (ae_now E request_id) handle_id requester_session_id a of
        Check_Failed c m \<Rightarrow> then_consumed (emit_failed E action_path request_id c m client_token a)
      | Check_Expired _ \<Rightarrow>
          then_consumed (emit_failed E action_path request_id ERR_PAGER_HANDLE_EXPIRED ''handle expired'' client_token a)
      | Check_Ok p \<Rightarrow>
          let key = resolve_handle_key a handle_id
          in case fetch_live_page (ae_connector E)
                    \<lparr>flr_resource_path = ph_resource_path p, flr_handle_id = Some key, flr_cursor = ph_upstream_cursor p,
                     flr_page_size = 50\<rparr>
                    (context_for request_id client_token a) (ad_connector a) of
               (Inr (items, page), c') \<Rightarrow>
                 then_consumed (emit_event E action_path request_id ''action.completed'' (Some (page_content items page)) None client_token
                   (set_handle key (\<lambda>h. h\<lparr>ph_page_no := lp_page_no page, ph_upstream_cursor := lp_next_cursor page,
                      ph_expires_at_ts :=
                        (case Option.bind (lp_expires_at page) (ae_rfc3339 E) of
                           Some expiry \<Rightarrow> if ae_later E request_id < expiry then Some expiry else None
                         | None \<Rightarrow> None)\<rparr>)
                      (a\<lparr>ad_connector := c'\<rparr>)))
             | (Inl err, c') \<Rightarrow>
                 let (err_code, message, retryable) =
                       (if ce_code err = ''CURSOR_INVALID'' then (ERR_PAGER_HANDLE_NOT_FOUND, ''handle cursor invalid'', False)
                        else if ce_code err = ''CURSOR_EXPIRED'' then (ERR_PAGER_HANDLE_EXPIRED, ''handle cursor expired'', False)
                        else (ce_code err, ce_message err, ce_retryable err));
                     a1 = a\<lparr>ad_connector := c'\<rparr>
                 in if is_transient_connector_failure err_code retryable then (Inr RetryPending, a1)
                    else then_consumed (emit_failed_with_retryable E action_path request_id err_code message retryable client_token a1))"

definition handle_close_handle ::
  "'c adapter_env \<Rightarrow> string \<Rightarrow> string \<Rightarrow> string \<Rightarrow> string option \<Rightarrow> string option \<Rightarrow> 'c adapter \<Rightarrow>
     (string + process_outcome) \<times> 'c adapter" where
  "handle_close_handle E action_path request_id handle_id requester_session_id client_token a =
     (let key = resolve_handle_key a handle_id; close = set_handle key (\<lambda>h. h\<lparr>ph_closed := True\<rparr>)
      in case check_handle (ae_now E request_id) handle_id requester_session_id a of
           Check_Failed c m \<Rightarrow> then_consumed (emit_failed E action_path request_id c m client_token a)
         | Check_Expired _ \<Rightarrow>
             then_consumed (emit_failed E action_path request_id ERR_PAGER_HANDLE_EXPIRED ''handle expired'' client_token (close a))
         | Check_Ok _ \<Rightarrow>
             then_consumed (emit_event E action_path request_id ''action.completed''
               (Some (JObject [(''closed'', JBool True), (''handle_id'', JString key)])) None client_token (close a)))"

section \<open>Actions\<close>

fun side_event :: "json \<Rightarrow> pending_event option" where
  "side_event raw =
     map_option (\<lambda>t. \<lparr>pe_path = (case Option.bind (json_get ''path'' raw) trimmed_str of Some p \<Rightarrow> p | None \<Rightarrow> []),
         pe_type = t, pe_content = json_get ''content'' raw, pe_error = json_get ''error'' raw\<rparr>)
       (Option.bind (json_get ''type'' raw) trimmed_str)"

text \<open>An empty path stands for no path: the path is trimmed and dropped when nothing is left.\<close>

definition split_connector_side_events :: "json \<Rightarrow> json \<times> pending_event list" where
  "split_connector_side_events c =
     (case c of
        JObject kvs \<Rightarrow>
          (case map_of kvs ''_appfs_events'' of
             None \<Rightarrow> (c, [])
           | Some raw \<Rightarrow>
               (JObject (filter (\<lambda>kv. fst kv \<noteq> ''_appfs_events'') kvs),
                case raw of JArray raws \<Rightarrow> List.map_filter side_event raws | _ \<Rightarrow> []))
      | _ \<Rightarrow> (c, []))"

definition connector_content_structure_changed :: "json \<Rightarrow> bool" where
  "connector_content_structure_changed c = (case json_get ''structure_changed'' c of Some (JBool b) \<Rightarrow> b | _ \<Rightarrow> False)"

fun emit_all :: "'c adapter_env \<Rightarrow> string \<Rightarrow> string \<Rightarrow> string option \<Rightarrow> pending_event list \<Rightarrow> 'c adapter \<Rightarrow> (string + unit) \<times> 'c adapter" where
  "emit_all E action_path request_id client_token [] a = (Inr (), a)"
| "emit_all E action_path request_id client_token (e # es) a =
     and_do (emit_event E (if pe_path e = [] then action_path else pe_path e) request_id (pe_type e) (pe_content e) (pe_error e)
               client_token a)
       (\<lambda>_ a1. emit_all E action_path request_id client_token es a1)"

definition business_submit ::
  "'c adapter_env \<Rightarrow> string \<Rightarrow> action_spec \<Rightarrow> string \<Rightarrow> string \<Rightarrow> string option \<Rightarrow> 'c adapter \<Rightarrow> (string + process_outcome) \<times> 'c adapter" where
  "business_submit E normalized_path spec payload request_id client_token a =
     (case json_from_str (ae_json E) payload of
        None \<Rightarrow> (Inl ''validated JSON payload must parse'', a)
      | Some payload_json \<Rightarrow>
          (case submit_action (ae_connector E)
                  \<lparr>sar_path = normalized_path, sar_payload = payload_json, sar_execution_mode = as_execution_mode spec\<rparr>
                  (context_for request_id client_token a) (ad_connector a) of
             (Inr (Submit_Completed c), c') \<Rightarrow>
               let (c1, side_events) = split_connector_side_events c
               in and_do (emit_all E normalized_path request_id client_token side_events (a\<lparr>ad_connector := c'\<rparr>)) (\<lambda>_ a1.
                  and_do (emit_event E normalized_path request_id ''action.completed'' (Some c1) None client_token a1) (\<lambda>_ a2.
                    (Inr Consumed,
                     if connector_content_structure_changed c1 then a2\<lparr>ad_connector := ae_background E (ad_connector a2)\<rparr> else a2)))
           | (Inr (Submit_Streaming plan), c') \<Rightarrow>
               then_consumed (enqueue_streaming_job E normalized_path request_id client_token plan (a\<lparr>ad_connector := c'\<rparr>))
           | (Inl err, c') \<Rightarrow>
               if is_transient_connector_failure (ce_code err) (ce_retryable err) then (Inr RetryPending, a\<lparr>ad_connector := c'\<rparr>)
               else then_consumed (emit_failed_with_retryable E normalized_path request_id (ce_code err) (ce_message err) (ce_retryable err)
                      client_token (a\<lparr>ad_connector := c'\<rparr>))))"

definition process_action ::
  "'c adapter_env \<Rightarrow> string \<Rightarrow> action_spec \<Rightarrow> string \<Rightarrow> string \<Rightarrow> string option \<Rightarrow> 'c adapter \<Rightarrow> (string + process_outcome) \<times> 'c adapter" where
  "process_action E rel spec payload request_id client_token_override a =
     (case validate_submit_payload (ae_json E) spec payload of
        Inl _ \<Rightarrow> (Inr Consumed, a)
      | Inr _ \<Rightarrow>
          let normalized_path = ''/'' @ rel;
              client_token = (case client_token_override of Some t \<Rightarrow> Some t | None \<Rightarrow> extract_client_token (ae_json E) payload)
          in case route_action (ae_json E) normalized_path payload of
               Inl _ \<Rightarrow> (Inr Consumed, a)
             | Inr (PagingFetchNext r) \<Rightarrow>
                 if \<not> is_handle_format_valid (pr_handle_id r) then (Inr Consumed, a)
                 else handle_fetch_next E normalized_path request_id (pr_handle_id r) (pr_session_id r) client_token a
             | Inr (PagingClose r) \<Rightarrow>
                 if \<not> is_handle_format_valid (pr_handle_id r) then (Inr Consumed, a)
                 else handle_close_handle E normalized_path request_id (pr_handle_id r) (pr_session_id r) client_token a
             | Inr BusinessSubmit \<Rightarrow> business_submit E normalized_path spec payload request_id client_token a
             | Inr route \<Rightarrow> ae_other E route normalized_path request_id payload client_token a)"

definition adapter_handler :: "'c adapter_env \<Rightarrow> 'c adapter action_handler" where
  "adapter_handler E =
     \<lparr>handle_action_invocation = (\<lambda>invocation spec a.
        process_action E (ai_rel_path invocation) spec (ai_payload_json invocation) (ai_request_id invocation)
          (ai_client_token invocation) a),
      handle_invalid_action_payload = (\<lambda>invalid a. (Inr Consumed, a))\<rparr>"

section \<open>Jobs and handles\<close>

definition io_works :: "'c adapter_env \<Rightarrow> bool" where
  "io_works E \<longleftrightarrow> (\<forall>seq. ae_io E seq = Published) \<and> (\<forall>jobs. ae_save_jobs E jobs)"

definition job_message :: "streaming_job \<Rightarrow> string \<times> string \<times> string \<times> json option" where
  "job_message job = (sj_path job, sj_request_id job, fst (job_event job), Some (snd (job_event job)))"

definition event_message :: "app_event \<Rightarrow> string \<times> string \<times> string \<times> json option" where
  "event_message e = (ev_path e, ev_request_id e, ev_type e, ev_content e)"

lemma emit_event_works:
  assumes "io_works E" "\<not> ad_torn a"
  shows "\<exists>e a'. emit_event E path rid t c er tok a = (Inr (), a') \<and> ad_events a' = ad_events a @ [e] \<and>
    event_message e = (path, rid, t, c) \<and> ad_jobs a' = ad_jobs a \<and> \<not> ad_torn a'"
  using assms by (auto simp: io_works_def emit_event_def publish_event_def event_message_def Let_def)

lemma drain_jobs_loop_works:
  assumes "io_works E" "\<not> ad_torn a"
  shows "\<exists>es a'. drain_jobs_loop E jobs next_jobs a = (Inr (next_jobs @ concat (map next_stage jobs)), a') \<and>
    ad_events a' = ad_events a @ es \<and> map event_message es = map job_message jobs"
  using assms(2)
proof (induction jobs arbitrary: next_jobs a)
  case (Cons job jobs)
  obtain e a1 where e: "emit_event E (sj_path job) (sj_request_id job) (fst (job_event job)) (Some (snd (job_event job))) None
      (sj_client_token job) a = (Inr (), a1)" "ad_events a1 = ad_events a @ [e]" "event_message e = job_message job" "\<not> ad_torn a1"
    using emit_event_works [OF assms(1) Cons.prems] unfolding job_message_def by metis
  obtain es a' where "drain_jobs_loop E jobs (next_jobs @ next_stage job) a1 =
      (Inr ((next_jobs @ next_stage job) @ concat (map next_stage jobs)), a')"
    "ad_events a' = ad_events a1 @ es" "map event_message es = map job_message jobs" using Cons.IH [OF e(4)] by blast
  with e show ?case by (intro exI [of _ "e # es"] exI [of _ a']) (simp add: and_do_def)
qed simp

lemma drain_streaming_jobs_works:
  assumes "io_works E" "\<not> ad_torn a"
  shows "\<exists>es a'. drain_streaming_jobs E a = (Inr (), a') \<and> ad_events a' = ad_events a @ es \<and>
    map event_message es = map job_message (ad_jobs a) \<and> ad_jobs a' = concat (map next_stage (ad_jobs a))"
proof (cases "ad_jobs a = []")
  case False
  obtain es a' where "drain_jobs_loop E (ad_jobs a) [] (a\<lparr>ad_jobs := []\<rparr>) = (Inr ([] @ concat (map next_stage (ad_jobs a))), a')"
    "ad_events a' = ad_events (a\<lparr>ad_jobs := []\<rparr>) @ es" "map event_message es = map job_message (ad_jobs a)"
    using drain_jobs_loop_works [OF assms(1), of "a\<lparr>ad_jobs := []\<rparr>" "ad_jobs a" "[]"] assms(2) by auto
  with False assms show ?thesis by (auto simp: drain_streaming_jobs_def and_do_def save_streaming_jobs_def io_works_def)
qed (simp add: drain_streaming_jobs_def)

section \<open>Paging\<close>


definition handle_step :: "string \<Rightarrow> (string \<rightharpoonup> paging_handle) \<Rightarrow> (string \<rightharpoonup> paging_handle) \<Rightarrow> bool" where
  "handle_step key hs hs' \<longleftrightarrow> (\<forall>k. k \<noteq> key \<longrightarrow> hs' k = hs k) \<and>
     (case hs key of
        None \<Rightarrow> hs' key = None
      | Some p \<Rightarrow> \<exists>q. hs' key = Some q \<and> ph_owner_session q = ph_owner_session p \<and> ph_resource_path q = ph_resource_path p \<and>
          (ph_closed p \<longrightarrow> ph_closed q))"

lemma handle_step_refl [simp]: "handle_step key hs hs"
  by (simp add: handle_step_def split: option.split)


lemma set_handle_stream [simp]:
  "ad_next_seq (set_handle key f a) = ad_next_seq a" "ad_events (set_handle key f a) = ad_events a"
  by (simp_all add: set_handle_def split: option.split)








text \<open>Whether a handle may be read: it is known, its owner asks, and it is neither closed nor expired.\<close>

definition may_fetch :: "i64 \<Rightarrow> string \<Rightarrow> string option \<Rightarrow> 'c adapter \<Rightarrow> bool" where
  "may_fetch now handle_id session a \<longleftrightarrow>
     (case ad_handles a (resolve_handle_key a handle_id) of
        None \<Rightarrow> False
      | Some p \<Rightarrow> ph_owner_session p = (case session of Some s \<Rightarrow> s | None \<Rightarrow> ad_session_id a) \<and> \<not> ph_closed p \<and>
          (case ph_expires_at_ts p of Some expiry \<Rightarrow> now < expiry | None \<Rightarrow> True))"

lemma check_handle_Ok: "check_handle now handle_id session a = Check_Ok p \<Longrightarrow> may_fetch now handle_id session a"
  by (auto simp: check_handle_def may_fetch_def split: if_splits option.splits)

lemma emit_event_connector: "ad_connector (snd (emit_event E path rid t c e tok a)) = ad_connector a"
  "ad_handles (snd (emit_event E path rid t c e tok a)) = ad_handles a"
  by (auto simp: emit_event_def publish_event_def Let_def split: publish_io.split)

lemma then_consumed_snd: "snd (then_consumed r) = snd r"
  by (auto simp: then_consumed_def and_do_def split: prod.split sum.split)

section \<open>Properties\<close>

definition demo_env :: "nat adapter_env" where
  "demo_env = \<lparr>ae_json = demo_json, ae_io = (\<lambda>seq. Published), ae_save_jobs = (\<lambda>jobs. True), ae_now = (\<lambda>r. 100), ae_later = (\<lambda>r. 101),
     ae_rfc3339 = (\<lambda>t. None),
     ae_connector = \<lparr>submit_action = (\<lambda>r c n. (Inr (Submit_Completed JNull), Suc n)),
       fetch_live_page = (\<lambda>r c n. (Inr ([], \<lparr>lp_handle_id = ''ph_1'', lp_page_no = 1, lp_has_more = False, lp_expires_at = None,
         lp_next_cursor = None\<rparr>), Suc n))\<rparr>,
     ae_other = (\<lambda>route path r p t a. (Inr Consumed, a)), ae_background = (\<lambda>n. n)\<rparr>"

definition demo_adapter :: "nat adapter" where
  "demo_adapter = \<lparr>ad_app_id = ''mail'', ad_session_id = ''s1'', ad_principal_id = None, ad_profile_id = None, ad_next_seq = 1,
     ad_events = [], ad_torn = False, ad_replay = Map.empty, ad_cursor = \<lparr>cu_min_seq = 0, cu_max_seq = 0, cu_retention_hint_sec = 0\<rparr>,
     ad_saved_cursor = \<lparr>cu_min_seq = 0, cu_max_seq = 0, cu_retention_hint_sec = 0\<rparr>,
     ad_jobs = [\<lparr>sj_request_id = ''r1'', sj_path = ''/a.act'', sj_client_token = None, sj_accepted = None, sj_progress = None,
       sj_terminal = JNull, sj_stage = 0\<rparr>], ad_saved_jobs = [],
     ad_handles = [''ph_1'' \<mapsto> \<lparr>ph_page_no = 0, ph_closed = True, ph_owner_session = ''s1'', ph_expires_at_ts = None,
       ph_upstream_cursor = None, ph_resource_path = ''/x''\<rparr>], ad_aliases = Map.empty, ad_connector = 0\<rparr>"



text \<open>
  C22. A page is fetched from the connector only through a handle that is known, by the session
  that owns it, while it is open and not expired. Otherwise the connector is not called, no
  handle changes, and one failure is reported.
\<close>

theorem fetch_only_by_owner:
  assumes "\<not> may_fetch (ae_now E request_id) handle_id session a"
  shows "\<exists>err_code message. handle_fetch_next E path request_id handle_id session token a =
      then_consumed (emit_failed E path request_id err_code message token a) \<and>
    ad_connector (snd (handle_fetch_next E path request_id handle_id session token a)) = ad_connector a \<and>
    ad_handles (snd (handle_fetch_next E path request_id handle_id session token a)) = ad_handles a"
proof -
  obtain cd m where eq: "handle_fetch_next E path request_id handle_id session token a =
      then_consumed (emit_failed E path request_id cd m token a)"
    using assms check_handle_Ok [of "ae_now E request_id" handle_id session a]
    by (cases "check_handle (ae_now E request_id) handle_id session a") (auto simp: handle_fetch_next_def)
  then show ?thesis
    by (auto simp: then_consumed_snd emit_failed_def emit_failed_with_retryable_def emit_event_connector)
qed

theorem fetch_only_by_owner_witness:
  "ad_connector (snd (handle_fetch_next demo_env ''/_paging/fetch_next.act'' ''r'' ''ph_1'' None None demo_adapter)) = 0"
proof -
  have "resolve_handle_key demo_adapter ''ph_1'' = ''ph_1''"
    by (simp add: resolve_handle_key_def demo_adapter_def normalize_runtime_handle_id_def deterministic_shorten_segment_def
        MAX_SEGMENT_BYTES_def)
  then have "\<not> may_fetch (ae_now demo_env ''r'') ''ph_1'' None demo_adapter"
    by (simp add: may_fetch_def) (simp add: demo_adapter_def)
  from fetch_only_by_owner [OF this, of "''/_paging/fetch_next.act''" None] show ?thesis by (auto simp: demo_adapter_def)
qed

text \<open>
  A streaming job is worked off in three rounds. As long as the files can be written and the stream does not
  end in a torn line, every round reports for every job the event of its stage, in the order of the jobs, moves it on and
  drops it after its last stage. When the first event of a round cannot be published, the round
  stops and the adapter is left without jobs: the failed one and all others are gone.
\<close>

theorem streaming_rounds:
  "(io_works E \<and> \<not> ad_torn a \<longrightarrow>
     (\<exists>es a'. drain_streaming_jobs E a = (Inr (), a') \<and> ad_events a' = ad_events a @ es \<and>
        map event_message es = map job_message (ad_jobs a) \<and> ad_jobs a' = concat (map next_stage (ad_jobs a)))) \<and>
   (ad_jobs a \<noteq> [] \<and> ae_io E (ad_next_seq a) \<noteq> Published \<longrightarrow>
     (\<exists>err a'. drain_streaming_jobs E a = (Inl err, a') \<and> ad_jobs a' = []))"
proof -
  have "\<exists>err a'. drain_streaming_jobs E a = (Inl err, a') \<and> ad_jobs a' = []"
    if "ad_jobs a \<noteq> []" "ae_io E (ad_next_seq a) \<noteq> Published"
    using that by (cases "ad_jobs a"; cases "ae_io E (ad_next_seq a)")
      (auto simp: drain_streaming_jobs_def and_do_def emit_event_def publish_event_def Let_def)
  with drain_streaming_jobs_works [of E a] show ?thesis by blast
qed

theorem streaming_rounds_witness:
  "\<exists>es a'. drain_streaming_jobs demo_env demo_adapter = (Inr (), a') \<and> map ev_type es = [''action.accepted''] \<and>
     ad_events a' = es \<and> map sj_stage (ad_jobs a') = [1]"
proof -
  have "io_works demo_env" "\<not> ad_torn demo_adapter" by (simp_all add: io_works_def demo_env_def demo_adapter_def)
  with streaming_rounds [of demo_env demo_adapter] obtain es a' where
    "drain_streaming_jobs demo_env demo_adapter = (Inr (), a')" "ad_events a' = ad_events demo_adapter @ es"
    "map event_message es = map job_message (ad_jobs demo_adapter)" "ad_jobs a' = concat (map next_stage (ad_jobs demo_adapter))"
    by blast
  then show ?thesis
    by (auto simp: demo_adapter_def job_message_def event_message_def job_event_def next_stage_def)
qed

end
