(* ===== verification/Agent_Permissions.thy ===== *)
theory Agent_Permissions
  imports Json_Values
begin

text \<open>
  The permission policy of the agent, \<open>appfs-agent/rust/crates/runtime/src/permissions.rs\<close>,
  and the enforcer in front of its tools, \<open>permission_enforcer.rs\<close>. A prompter is a parameter
  with a state of its own, so that it shows whether it was asked.
\<close>

section \<open>Modes, rules, requests\<close>

datatype permission_mode = ReadOnly | WorkspaceWrite | DangerFullAccess | Prompt | Allow_Mode

text \<open>The derived order is the order of the declaration.\<close>

fun mode_rank :: "permission_mode \<Rightarrow> nat" where
  "mode_rank ReadOnly = 0"
| "mode_rank WorkspaceWrite = 1"
| "mode_rank DangerFullAccess = 2"
| "mode_rank Prompt = 3"
| "mode_rank Allow_Mode = 4"

instantiation permission_mode :: linorder
begin

definition less_eq_permission_mode :: "permission_mode \<Rightarrow> permission_mode \<Rightarrow> bool" where
  "less_eq_permission_mode a b \<longleftrightarrow> mode_rank a \<le> mode_rank b"

definition less_permission_mode :: "permission_mode \<Rightarrow> permission_mode \<Rightarrow> bool" where
  "less_permission_mode a b \<longleftrightarrow> mode_rank a < mode_rank b"

instance
proof
  fix a b :: permission_mode
  show "a \<le> b \<Longrightarrow> b \<le> a \<Longrightarrow> a = b"
    by (cases a; cases b) (simp_all add: less_eq_permission_mode_def)
qed (auto simp: less_eq_permission_mode_def less_permission_mode_def)

end

fun mode_as_str :: "permission_mode \<Rightarrow> string" where
  "mode_as_str ReadOnly = ''read-only''"
| "mode_as_str WorkspaceWrite = ''workspace-write''"
| "mode_as_str DangerFullAccess = ''danger-full-access''"
| "mode_as_str Prompt = ''prompt''"
| "mode_as_str Allow_Mode = ''allow''"

datatype permission_override = Override_Allow | Override_Deny | Override_Ask

record permission_context =
  override_decision :: "permission_override option"
  override_reason :: "string option"
  additional_allow_rules :: "string list"

definition default_context :: permission_context where
  "default_context = \<lparr>override_decision = None, override_reason = None, additional_allow_rules = []\<rparr>"

record permission_request =
  pq_tool_name :: string
  pq_input :: string
  pq_current_mode :: permission_mode
  pq_required_mode :: permission_mode
  pq_reason :: "string option"

datatype permission_outcome = Allowed | Denied string

datatype permission_rule_matcher = Match_Any | Match_Exact string | Match_Prefix string

record permission_rule =
  rule_raw :: string
  rule_tool_name :: string
  rule_matcher :: permission_rule_matcher

record permission_policy =
  active_mode :: permission_mode
  tool_requirements :: "string \<rightharpoonup> permission_mode"
  allow_rules :: "permission_rule list"
  deny_rules :: "permission_rule list"
  ask_rules :: "permission_rule list"

text \<open>What a prompter answers is an outcome; \<open>decide\<close> may change its state.\<close>

type_synonym 'p prompter = "permission_request \<Rightarrow> 'p \<Rightarrow> permission_outcome \<times> 'p"

section \<open>Rules\<close>

definition backslash :: string where "backslash = [char_of (92 :: nat)]"

fun first_unescaped_loop :: "string \<Rightarrow> bool \<Rightarrow> nat \<Rightarrow> string list \<Rightarrow> nat option" where
  "first_unescaped_loop needle escaped idx [] = None"
| "first_unescaped_loop needle escaped idx (ch # chs) =
     (if ch = backslash then first_unescaped_loop needle (\<not> escaped) (idx + length ch) chs
      else if ch = needle \<and> \<not> escaped then Some idx
      else first_unescaped_loop needle False (idx + length ch) chs)"

definition find_first_unescaped :: "string \<Rightarrow> char \<Rightarrow> nat option" where
  "find_first_unescaped value needle = first_unescaped_loop [needle] False 0 (chars value)"

fun last_unescaped_loop :: "string \<Rightarrow> string list \<Rightarrow> nat option" where
  "last_unescaped_loop needle [] = None"
| "last_unescaped_loop needle (ch # before) =
     (if ch = needle \<and> even (length (takeWhile (\<lambda>c. c = backslash) before)) then Some (length (concat before))
      else last_unescaped_loop needle before)"

text \<open>The characters are visited from the last one; \<open>before\<close> are those in front, reversed.\<close>

definition find_last_unescaped :: "string \<Rightarrow> char \<Rightarrow> nat option" where
  "find_last_unescaped value needle = last_unescaped_loop [needle] (rev (chars value))"

definition unescape_rule_content :: "string \<Rightarrow> string" where
  "unescape_rule_content content =
     str_replace (backslash @ backslash) backslash
       (str_replace (backslash @ '')'') '')'' (str_replace (backslash @ ''('') ''('' content))"

definition parse_rule_matcher :: "string \<Rightarrow> permission_rule_matcher" where
  "parse_rule_matcher content =
     (let unescaped = unescape_rule_content (str_trim content)
      in if unescaped = [] \<or> unescaped = ''*'' then Match_Any
         else case strip_suffix '':*'' unescaped of
                Some pre \<Rightarrow> Match_Prefix pre
              | None \<Rightarrow> Match_Exact unescaped)"

definition whole_rule :: "string \<Rightarrow> permission_rule" where
  "whole_rule trimmed = \<lparr>rule_raw = trimmed, rule_tool_name = trimmed, rule_matcher = Match_Any\<rparr>"

definition parse_rule :: "string \<Rightarrow> permission_rule" where
  "parse_rule raw =
     (let trimmed = str_trim raw
      in case (find_first_unescaped trimmed (CHR ''(''), find_last_unescaped trimmed (CHR '')'')) of
           (Some op, Some cl) \<Rightarrow>
             if cl = length trimmed - 1 \<and> op < cl then
               let tool_name = str_trim (take op trimmed); content = take (cl - (op + 1)) (drop (op + 1) trimmed)
               in if tool_name \<noteq> []
                  then \<lparr>rule_raw = trimmed, rule_tool_name = tool_name, rule_matcher = parse_rule_matcher content\<rparr>
                  else whole_rule trimmed
             else whole_rule trimmed
         | _ \<Rightarrow> whole_rule trimmed)"

definition subject_keys :: "string list" where
  "subject_keys = [''command'', ''path'', ''file_path'', ''filePath'', ''notebook_path'', ''notebookPath'', ''url'', ''pattern'',
     ''code'', ''message'']"

fun first_subject :: "(string \<times> json) list \<Rightarrow> string list \<Rightarrow> string option" where
  "first_subject obj [] = None"
| "first_subject obj (k # ks) =
     (case Option.bind (map_of obj k) as_str of Some v \<Rightarrow> Some v | None \<Rightarrow> first_subject obj ks)"

definition extract_permission_subject :: "json_lib \<Rightarrow> string \<Rightarrow> string option" where
  "extract_permission_subject J input =
     (case (case json_from_str J input of Some (JObject obj) \<Rightarrow> first_subject obj subject_keys | _ \<Rightarrow> None) of
        Some v \<Rightarrow> Some v
      | None \<Rightarrow> if str_trim input = [] then None else Some input)"

definition rule_matches :: "json_lib \<Rightarrow> string \<Rightarrow> string \<Rightarrow> permission_rule \<Rightarrow> bool" where
  "rule_matches J tool_name input rule \<longleftrightarrow> rule_tool_name rule = tool_name \<and>
     (case rule_matcher rule of
        Match_Any \<Rightarrow> True
      | Match_Exact expected \<Rightarrow> extract_permission_subject J input = Some expected
      | Match_Prefix pre \<Rightarrow>
          (case extract_permission_subject J input of Some c \<Rightarrow> starts_with pre c | None \<Rightarrow> False))"

section \<open>The policy\<close>

definition quoted :: "string \<Rightarrow> string" where
  "quoted s = [CHR 0x27] @ s @ [CHR 0x27]"

definition new_policy :: "permission_mode \<Rightarrow> permission_policy" where
  "new_policy mode = \<lparr>active_mode = mode, tool_requirements = Map.empty, allow_rules = [], deny_rules = [], ask_rules = []\<rparr>"

definition with_tool_requirement :: "string \<Rightarrow> permission_mode \<Rightarrow> permission_policy \<Rightarrow> permission_policy" where
  "with_tool_requirement tool_name required_mode policy =
     policy\<lparr>tool_requirements := (tool_requirements policy)(tool_name \<mapsto> required_mode)\<rparr>"

definition with_permission_rules :: "string list \<Rightarrow> string list \<Rightarrow> string list \<Rightarrow> permission_policy \<Rightarrow> permission_policy" where
  "with_permission_rules allow deny ask policy =
     policy\<lparr>allow_rules := map parse_rule allow, deny_rules := map parse_rule deny, ask_rules := map parse_rule ask\<rparr>"

definition required_mode_for :: "permission_policy \<Rightarrow> string \<Rightarrow> permission_mode" where
  "required_mode_for policy tool_name =
     (case tool_requirements policy tool_name of Some m \<Rightarrow> m | None \<Rightarrow> DangerFullAccess)"

definition find_matching_rule :: "json_lib \<Rightarrow> permission_rule list \<Rightarrow> string \<Rightarrow> string \<Rightarrow> permission_rule option" where
  "find_matching_rule J rules tool_name input = find (rule_matches J tool_name input) rules"

definition find_matching_raw_rule :: "json_lib \<Rightarrow> string list \<Rightarrow> string \<Rightarrow> string \<Rightarrow> string option" where
  "find_matching_raw_rule J rules tool_name input = find (\<lambda>rule. rule_matches J tool_name input (parse_rule rule)) rules"

definition prompt_or_deny ::
  "string \<Rightarrow> string \<Rightarrow> permission_mode \<Rightarrow> permission_mode \<Rightarrow> string option \<Rightarrow> 'p prompter option \<Rightarrow> 'p \<Rightarrow>
     permission_outcome \<times> 'p" where
  "prompt_or_deny tool_name input current required reason prompter p =
     (case prompter of
        Some decide \<Rightarrow>
          decide \<lparr>pq_tool_name = tool_name, pq_input = input, pq_current_mode = current, pq_required_mode = required,
                  pq_reason = reason\<rparr> p
      | None \<Rightarrow>
          (Denied (case reason of
             Some r \<Rightarrow> r
           | None \<Rightarrow> ''tool '' @ quoted tool_name @ '' requires approval to run while mode is '' @ mode_as_str current),
           p))"

definition authorize_with_context ::
  "json_lib \<Rightarrow> permission_policy \<Rightarrow> string \<Rightarrow> string \<Rightarrow> permission_context \<Rightarrow> 'p prompter option \<Rightarrow> 'p \<Rightarrow>
     permission_outcome \<times> 'p" where
  "authorize_with_context J policy tool_name input context prompter p =
     (case find_matching_rule J (deny_rules policy) tool_name input of
        Some rule \<Rightarrow> (Denied (''Permission to use '' @ tool_name @ '' has been denied by rule '' @ quoted (rule_raw rule)), p)
      | None \<Rightarrow>
          let current = active_mode policy;
              required = required_mode_for policy tool_name;
              ask_rule = find_matching_rule J (ask_rules policy) tool_name input;
              allow_rule = find_matching_rule J (allow_rules policy) tool_name input;
              contextual = find_matching_raw_rule J (additional_allow_rules context) tool_name input;
              granted = (allow_rule \<noteq> None \<or> contextual \<noteq> None \<or> current = Allow_Mode \<or> required \<le> current);
              ask = (\<lambda>rule. prompt_or_deny tool_name input current required
                       (Some (''tool '' @ quoted tool_name @ '' requires approval due to ask rule '' @ quoted (rule_raw rule)))
                       prompter p);
              rest = (\<lambda>_ :: unit.
                case ask_rule of
                  Some rule \<Rightarrow> ask rule
                | None \<Rightarrow>
                    if granted then (Allowed, p)
                    else if current = Prompt \<or> current = WorkspaceWrite \<and> required = DangerFullAccess
                    then prompt_or_deny tool_name input current required
                           (Some (''tool '' @ quoted tool_name @ '' requires approval to escalate from '' @ mode_as_str current @
                              '' to '' @ mode_as_str required)) prompter p
                    else (Denied (''tool '' @ quoted tool_name @ '' requires '' @ mode_as_str required @
                            '' permission; current mode is '' @ mode_as_str current), p))
          in case override_decision context of
               Some Override_Deny \<Rightarrow>
                 (Denied (case override_reason context of Some r \<Rightarrow> r | None \<Rightarrow> ''tool '' @ quoted tool_name @ '' denied by hook''), p)
             | Some Override_Ask \<Rightarrow>
                 prompt_or_deny tool_name input current required
                   (Some (case override_reason context of
                            Some r \<Rightarrow> r
                          | None \<Rightarrow> ''tool '' @ quoted tool_name @ '' requires approval due to hook guidance'')) prompter p
             | Some Override_Allow \<Rightarrow>
                 (case ask_rule of Some rule \<Rightarrow> ask rule | None \<Rightarrow> if granted then (Allowed, p) else rest ())
             | None \<Rightarrow> rest ())"

definition authorize ::
  "json_lib \<Rightarrow> permission_policy \<Rightarrow> string \<Rightarrow> string \<Rightarrow> 'p prompter option \<Rightarrow> 'p \<Rightarrow> permission_outcome \<times> 'p" where
  "authorize J policy tool_name input prompter p = authorize_with_context J policy tool_name input default_context prompter p"

section \<open>The enforcer\<close>

datatype enforcement_result =
    Permitted
  | Refused (refused_tool: string) (refused_active_mode: string) (refused_required_mode: string) (refused_reason: string)

definition check :: "json_lib \<Rightarrow> permission_policy \<Rightarrow> string \<Rightarrow> string \<Rightarrow> enforcement_result" where
  "check J policy tool_name input =
     (if active_mode policy = Prompt then Permitted
      else case fst (authorize J policy tool_name input None ()) of
             Allowed \<Rightarrow> Permitted
           | Denied reason \<Rightarrow>
               Refused tool_name (mode_as_str (active_mode policy)) (mode_as_str (required_mode_for policy tool_name)) reason)"

definition is_allowed :: "json_lib \<Rightarrow> permission_policy \<Rightarrow> string \<Rightarrow> string \<Rightarrow> bool" where
  "is_allowed J policy tool_name input \<longleftrightarrow> check J policy tool_name input = Permitted"

definition is_within_workspace :: "string \<Rightarrow> string \<Rightarrow> bool" where
  "is_within_workspace path workspace_root \<longleftrightarrow>
     (let normalized = (if starts_with ''/'' path then path else workspace_root @ ''/'' @ path);
          root = (if ends_with ''/'' workspace_root then workspace_root else workspace_root @ ''/'')
      in starts_with root normalized \<or> normalized = trim_end_matches (CHR ''/'') workspace_root)"

definition check_file_write :: "permission_policy \<Rightarrow> string \<Rightarrow> string \<Rightarrow> enforcement_result" where
  "check_file_write policy path workspace_root =
     (let mode = active_mode policy
      in case mode of
           ReadOnly \<Rightarrow> Refused ''write_file'' (mode_as_str mode) (mode_as_str WorkspaceWrite)
             (''file writes are not allowed in '' @ quoted (mode_as_str mode) @ '' mode'')
         | WorkspaceWrite \<Rightarrow>
             if is_within_workspace path workspace_root then Permitted
             else Refused ''write_file'' (mode_as_str mode) (mode_as_str DangerFullAccess)
               (''path '' @ quoted path @ '' is outside workspace root '' @ quoted workspace_root)
         | Allow_Mode \<Rightarrow> Permitted
         | DangerFullAccess \<Rightarrow> Permitted
         | Prompt \<Rightarrow> Refused ''write_file'' (mode_as_str mode) (mode_as_str WorkspaceWrite)
             ''file write requires confirmation in prompt mode'')"

definition read_only_programs :: "string list" where
  "read_only_programs =
     [''cat'', ''head'', ''tail'', ''less'', ''more'', ''wc'', ''ls'', ''find'', ''grep'', ''rg'', ''awk'', ''sed'', ''echo'',
      ''printf'', ''which'', ''where'', ''whoami'', ''pwd'', ''env'', ''printenv'', ''date'', ''cal'', ''df'', ''du'', ''free'',
      ''uptime'', ''uname'', ''file'', ''stat'', ''diff'', ''sort'', ''uniq'', ''tr'', ''cut'', ''paste'', ''tee'', ''xargs'',
      ''test'', ''true'', ''false'', ''type'', ''readlink'', ''realpath'', ''basename'', ''dirname'', ''sha256sum'', ''md5sum'',
      ''b3sum'', ''xxd'', ''hexdump'', ''od'', ''strings'', ''tree'', ''jq'', ''yq'', ''python3'', ''python'', ''node'', ''ruby'',
      ''cargo'', ''rustc'', ''git'', ''gh'']"

definition first_token :: "string \<Rightarrow> string" where
  "first_token command =
     (case split_whitespace command of [] \<Rightarrow> [] | w # _ \<Rightarrow> last (str_split (CHR ''/'') w))"

definition is_read_only_command :: "string \<Rightarrow> bool" where
  "is_read_only_command command \<longleftrightarrow> first_token command \<in> set read_only_programs \<and>
     \<not> str_contains command ''-i '' \<and> \<not> str_contains command ''--in-place'' \<and>
     \<not> str_contains command '' > '' \<and> \<not> str_contains command '' >> ''"

definition check_bash :: "permission_policy \<Rightarrow> string \<Rightarrow> enforcement_result" where
  "check_bash policy command =
     (let mode = active_mode policy
      in case mode of
           ReadOnly \<Rightarrow>
             if is_read_only_command command then Permitted
             else Refused ''bash'' (mode_as_str mode) (mode_as_str WorkspaceWrite)
               (''command may modify state; not allowed in '' @ quoted (mode_as_str mode) @ '' mode'')
         | Prompt \<Rightarrow> Refused ''bash'' (mode_as_str mode) (mode_as_str DangerFullAccess)
             ''bash requires confirmation in prompt mode''
         | _ \<Rightarrow> Permitted)"

section \<open>Authorisation\<close>

text \<open>The conditions the policy decides by.\<close>

definition some_rule :: "json_lib \<Rightarrow> permission_rule list \<Rightarrow> string \<Rightarrow> string \<Rightarrow> bool" where
  "some_rule J rules tool_name input \<longleftrightarrow> list_ex (rule_matches J tool_name input) rules"

definition granted :: "json_lib \<Rightarrow> permission_policy \<Rightarrow> string \<Rightarrow> string \<Rightarrow> permission_context \<Rightarrow> bool" where
  "granted J policy tool_name input context \<longleftrightarrow>
     some_rule J (allow_rules policy) tool_name input \<or>
     some_rule J (map parse_rule (additional_allow_rules context)) tool_name input \<or>
     required_mode_for policy tool_name \<le> active_mode policy"

lemma find_None: "find P xs = None \<longleftrightarrow> \<not> list_ex P xs"
  by (induction xs) auto

lemma find_Some_in: "find P xs = Some x \<Longrightarrow> x \<in> set xs \<and> P x"
  by (induction xs) (auto split: if_splits)

lemma find_matching_rule_None: "find_matching_rule J rules t i = None \<longleftrightarrow> \<not> some_rule J rules t i"
  by (simp add: find_matching_rule_def find_None some_rule_def)

lemma find_matching_raw_rule_None: "find_matching_raw_rule J rules t i = None \<longleftrightarrow> \<not> some_rule J (map parse_rule rules) t i"
  by (simp add: find_matching_raw_rule_def find_None some_rule_def list_ex_iff)

lemma Allow_Mode_top: "m \<le> Allow_Mode"
  by (cases m) (simp_all add: less_eq_permission_mode_def)

lemma granted_alt:
  "find_matching_rule J (allow_rules policy) t i \<noteq> None \<or> find_matching_raw_rule J (additional_allow_rules context) t i \<noteq> None \<or>
     active_mode policy = Allow_Mode \<or> required_mode_for policy t \<le> active_mode policy \<longleftrightarrow> granted J policy t i context"
  using Allow_Mode_top [of "required_mode_for policy t"]
  by (auto simp: granted_def find_matching_rule_None find_matching_raw_rule_None)

text \<open>The decision in terms of these conditions.\<close>

lemma authorize_cases:
  fixes prompter :: "'p prompter option"
  assumes "\<not> some_rule J (deny_rules policy) t i"
  defines "ask \<equiv> \<lambda>r. prompt_or_deny t i (active_mode policy) (required_mode_for policy t) (Some r) prompter"
  shows "\<exists>hook_reason asked_reason escalate_reason refused.
    authorize_with_context J policy t i context prompter p =
      (if override_decision context = Some Override_Deny then (Denied hook_reason, p)
       else if override_decision context = Some Override_Ask then ask hook_reason p
       else if some_rule J (ask_rules policy) t i then ask asked_reason p
       else if granted J policy t i context then (Allowed, p)
       else if active_mode policy = Prompt \<or> active_mode policy = WorkspaceWrite \<and> required_mode_for policy t = DangerFullAccess
       then ask escalate_reason p
       else (Denied refused, p))"
proof -
  let ?ask = "find_matching_rule J (ask_rules policy) t i"
  have deny: "find_matching_rule J (deny_rules policy) t i = None" using assms(1) by (simp add: find_matching_rule_None)
  show ?thesis
  proof (cases ?ask)
    case None
    then have "\<not> some_rule J (ask_rules policy) t i" by (simp add: find_matching_rule_None)
    with deny None show ?thesis
      unfolding authorize_with_context_def Let_def granted_alt ask_def
      by (auto split: option.splits permission_override.splits)
  next
    case (Some rule)
    then have "some_rule J (ask_rules policy) t i" using find_matching_rule_None [of J "ask_rules policy" t i] by auto
    with deny Some show ?thesis
      unfolding authorize_with_context_def Let_def granted_alt ask_def
      by (auto split: option.splits permission_override.splits)
  qed
qed

text \<open>The prompter allowed this very call.\<close>

definition approved :: "permission_policy \<Rightarrow> string \<Rightarrow> string \<Rightarrow> 'p prompter option \<Rightarrow> 'p \<Rightarrow> bool" where
  "approved policy t i prompter p \<longleftrightarrow>
     (\<exists>decide reason. prompter = Some decide \<and>
        fst (decide \<lparr>pq_tool_name = t, pq_input = i, pq_current_mode = active_mode policy,
                     pq_required_mode = required_mode_for policy t, pq_reason = reason\<rparr> p) = Allowed)"

lemma prompt_or_deny_approved:
  "fst (prompt_or_deny t i (active_mode policy) (required_mode_for policy t) reason prompter p) = Allowed \<Longrightarrow>
     approved policy t i prompter p"
  by (cases prompter) (auto simp: prompt_or_deny_def approved_def)

lemma not_approved_None [simp]: "\<not> approved policy t i None p"
  by (simp add: approved_def)

lemma authorize_Allowed:
  assumes "fst (authorize_with_context J policy tool_name input context prompter p) = Allowed"
  shows "\<not> some_rule J (deny_rules policy) tool_name input \<and> override_decision context \<noteq> Some Override_Deny \<and>
    (approved policy tool_name input prompter p \<or>
     override_decision context \<noteq> Some Override_Ask \<and> \<not> some_rule J (ask_rules policy) tool_name input \<and>
     granted J policy tool_name input context)"
proof -
  have deny: "\<not> some_rule J (deny_rules policy) tool_name input"
  proof
    assume "some_rule J (deny_rules policy) tool_name input"
    then obtain r where "find_matching_rule J (deny_rules policy) tool_name input = Some r"
      using find_matching_rule_None [of J "deny_rules policy" tool_name input] by auto
    with assms show False by (simp add: authorize_with_context_def)
  qed
  from authorize_cases [OF this, of "context" prompter p] obtain r1 r2 r3 r4 where
    "authorize_with_context J policy tool_name input context prompter p =
      (if override_decision context = Some Override_Deny then (Denied r1, p)
       else if override_decision context = Some Override_Ask
       then prompt_or_deny tool_name input (active_mode policy) (required_mode_for policy tool_name) (Some r1) prompter p
       else if some_rule J (ask_rules policy) tool_name input
       then prompt_or_deny tool_name input (active_mode policy) (required_mode_for policy tool_name) (Some r2) prompter p
       else if granted J policy tool_name input context then (Allowed, p)
       else if active_mode policy = Prompt \<or> active_mode policy = WorkspaceWrite \<and> required_mode_for policy tool_name = DangerFullAccess
       then prompt_or_deny tool_name input (active_mode policy) (required_mode_for policy tool_name) (Some r3) prompter p
       else (Denied r4, p))" by blast
  with assms deny prompt_or_deny_approved [of tool_name input policy _ prompter p] show ?thesis by (simp split: if_splits)
qed

section \<open>Properties\<close>

definition no_json :: json_lib where
  "no_json = \<lparr>json_from_str = (\<lambda>s. None), json_to_string = (\<lambda>j. None)\<rparr>"

definition demo_policy :: permission_policy where
  "demo_policy = with_permission_rules [''bash(git status)''] [''bash(rm:*)''] [''web(*)'']
     (with_tool_requirement ''read'' ReadOnly (new_policy WorkspaceWrite))"

text \<open>
  C24. A deny rule is final: whatever the mode, the other rules, the hook's override and the
  prompter, a tool call that matches one is denied, and nobody is asked.
\<close>

theorem deny_rule_wins:
  assumes "rule \<in> set (deny_rules policy)" and "rule_matches J tool_name input rule"
  shows "\<exists>reason. authorize_with_context J policy tool_name input context prompter p = (Denied reason, p)"
proof -
  have "some_rule J (deny_rules policy) tool_name input" using assms by (auto simp: some_rule_def list_ex_iff)
  then obtain r where "find_matching_rule J (deny_rules policy) tool_name input = Some r"
    using find_matching_rule_None [of J "deny_rules policy" tool_name input] by auto
  then show ?thesis by (simp add: authorize_with_context_def)
qed

theorem deny_rule_wins_witness:
  "\<exists>reason. authorize_with_context no_json demo_policy ''bash'' ''rm -rf x''
     \<lparr>override_decision = Some Override_Allow, override_reason = None, additional_allow_rules = [''bash'']\<rparr>
     (Some (\<lambda>q n. (Allowed, Suc n))) 0 = (Denied reason, 0)"
proof -
  have "parse_rule ''bash(rm:*)'' \<in> set (deny_rules demo_policy)"
    by (simp add: demo_policy_def with_permission_rules_def with_tool_requirement_def new_policy_def)
  moreover have "rule_matches no_json ''bash'' ''rm -rf x'' (parse_rule ''bash(rm:*)'')" by code_simp
  ultimately show ?thesis by (rule deny_rule_wins)
qed

text \<open>
  C25. What is allowed was allowed by somebody: no deny rule matches, no hook forbids it, and
  either the prompter allowed exactly this call, or neither a hook nor an ask rule wanted it to
  be asked and an allow rule matches or the mode reaches what the tool requires.
\<close>

theorem allowed_only_if:
  assumes "fst (authorize_with_context J policy tool_name input context prompter p) = Allowed"
  shows "\<not> some_rule J (deny_rules policy) tool_name input \<and> override_decision context \<noteq> Some Override_Deny \<and>
    (approved policy tool_name input prompter p \<or>
     override_decision context \<noteq> Some Override_Ask \<and> \<not> some_rule J (ask_rules policy) tool_name input \<and>
     granted J policy tool_name input context)"
  using assms by (rule authorize_Allowed)

theorem allowed_only_if_witness:
  "fst (authorize_with_context no_json demo_policy ''bash'' ''git status'' default_context None ()) = Allowed \<and>
   granted no_json demo_policy ''bash'' ''git status'' default_context"
proof -
  have ok: "fst (authorize_with_context no_json demo_policy ''bash'' ''git status'' default_context None ()) = Allowed" by code_simp
  from allowed_only_if [OF this] ok show ?thesis by simp
qed

text \<open>
  Without a prompter a stronger mode never takes away what a weaker one grants.
\<close>

theorem authorize_mono:
  assumes "fst (authorize_with_context J (policy\<lparr>active_mode := m\<rparr>) tool_name input context None p) = Allowed" and "m \<le> m'"
  shows "fst (authorize_with_context J (policy\<lparr>active_mode := m'\<rparr>) tool_name input context None p) = Allowed"
proof -
  let ?P = "policy\<lparr>active_mode := m\<rparr>" and ?P' = "policy\<lparr>active_mode := m'\<rparr>"
  have ok: "\<not> some_rule J (deny_rules ?P') tool_name input" "override_decision context \<notin> {Some Override_Deny, Some Override_Ask}"
    "\<not> some_rule J (ask_rules ?P') tool_name input" "granted J ?P tool_name input context"
    using authorize_Allowed [OF assms(1)] by auto
  from ok(4) assms(2) have "granted J ?P' tool_name input context" by (auto simp: granted_def required_mode_for_def)
  with authorize_cases [OF ok(1), of "context" None p] ok show ?thesis by auto
qed

theorem authorize_mono_witness:
  "fst (authorize_with_context no_json (demo_policy\<lparr>active_mode := DangerFullAccess\<rparr>) ''read'' ''a'' default_context None ()) = Allowed"
proof -
  have "fst (authorize_with_context no_json (demo_policy\<lparr>active_mode := ReadOnly\<rparr>) ''read'' ''a'' default_context None ()) = Allowed"
    by code_simp
  then show ?thesis by (rule authorize_mono) (simp add: less_eq_permission_mode_def)
qed



text \<open>
  The workspace boundary is a comparison of text: with the mode for writes inside the
  workspace, an absolute path that starts with the root is permitted, also when it leaves the
  workspace again through \<open>..\<close>; every other absolute path is refused.
\<close>

theorem workspace_check_is_lexical:
  assumes "active_mode policy = WorkspaceWrite" and "root \<noteq> []" and "hd root = CHR ''/''" and "last root \<noteq> CHR ''/''"
  shows "check_file_write policy (root @ ''/../'' @ rest) root = Permitted \<and>
    (check_file_write policy (CHR ''/'' # path) root = Permitted \<longleftrightarrow>
       starts_with (root @ ''/'') (CHR ''/'' # path) \<or> CHR ''/'' # path = root)"
proof -
  have "ends_with ''/'' root = False" using assms(2,4) by (cases root rule: rev_cases) (auto simp: ends_with_def)
  moreover have "trim_end_matches (CHR ''/'') root = root" using assms(2,4) by (rule trim_end_matches_id)
  ultimately show ?thesis using assms(1,2,3)
    by (cases root) (auto simp: check_file_write_def is_within_workspace_def starts_with_def Let_def)
qed

theorem workspace_check_is_lexical_witness:
  "check_file_write (new_policy WorkspaceWrite) ''/w/../etc/passwd'' ''/w'' = Permitted \<and>
   check_file_write (new_policy WorkspaceWrite) ''/etc/passwd'' ''/w'' \<noteq> Permitted"
  using workspace_check_is_lexical [of "new_policy WorkspaceWrite" "''/w''" "''etc/passwd''" "''etc/passwd''"]
  by (simp add: new_policy_def starts_with_def)

end
