(* ===== verification/Agent_Json.thy ===== *)
theory Agent_Json
  imports Rust_Text
begin

text \<open>
  The JSON values of the agent, \<open>runtime/src/json.rs\<close>: printing, parsing, and that parsing undoes
  printing. A string is the list of its bytes and a Rust \<open>char\<close> is the string of the bytes of one
  character, so the vector of characters the parser works on is \<open>chars source\<close>. A \<open>BTreeMap\<close> is an
  association list in the order of its keys.
\<close>

section \<open>Values\<close>

datatype json_value =
    Null
  | Bool bool
  | Number int
  | String string
  | Array "json_value list"
  | Object "(string \<times> json_value) list"

text \<open>\<open>BTreeMap::insert\<close> and \<open>BTreeMap::get\<close>.\<close>

fun btree_insert :: "string \<Rightarrow> 'a \<Rightarrow> (string \<times> 'a) list \<Rightarrow> (string \<times> 'a) list" where
  "btree_insert k v [] = [(k, v)]"
| "btree_insert k v ((k', v') # kvs) =
     (if k < k' then (k, v) # (k', v') # kvs
      else if k = k' then (k, v) # kvs
      else (k', v') # btree_insert k v kvs)"

definition json_object :: "json_value \<Rightarrow> (string \<times> json_value) list option" where
  "json_object j = (case j of Object v \<Rightarrow> Some v | _ \<Rightarrow> None)"

definition json_array :: "json_value \<Rightarrow> json_value list option" where
  "json_array j = (case j of Array v \<Rightarrow> Some v | _ \<Rightarrow> None)"

definition json_str :: "json_value \<Rightarrow> string option" where
  "json_str j = (case j of String v \<Rightarrow> Some v | _ \<Rightarrow> None)"

definition json_bool :: "json_value \<Rightarrow> bool option" where
  "json_bool j = (case j of Bool v \<Rightarrow> Some v | _ \<Rightarrow> None)"

definition json_i64 :: "json_value \<Rightarrow> int option" where
  "json_i64 j = (case j of Number v \<Rightarrow> Some v | _ \<Rightarrow> None)"

section \<open>Printing\<close>

text \<open>\<open>i64::to_string\<close>; \<open>char::is_control\<close>: below U+0020 and from U+007F to U+009F.\<close>

definition int_to_string :: "int \<Rightarrow> string" where
  "int_to_string i = (if i < 0 then ''-'' @ to_decimal (nat (- i)) else to_decimal (nat i))"

definition control_code :: "string \<Rightarrow> nat option" where
  "control_code ch =
     (case ch of
        [c] \<Rightarrow> if code c < 32 \<or> code c = 127 then Some (code c) else None
      | [c, c'] \<Rightarrow> if code c = 194 \<and> code c' < 160 then Some (code c') else None
      | _ \<Rightarrow> None)"

definition hex_char :: "nat \<Rightarrow> char" where
  "hex_char n = (''0123456789abcdef'' ! n)"

definition push_unicode_escape :: "nat \<Rightarrow> string" where
  "push_unicode_escape v = [CHR 0x5C, CHR ''u''] @
     map (\<lambda>k. hex_char (v div 2 ^ k mod 16)) [12, 8, 4, 0]"

definition render_char :: "string \<Rightarrow> string" where
  "render_char ch =
     (if ch = [CHR 0x22] then [CHR 0x5C, CHR 0x22]
      else if ch = [CHR 0x5C] then [CHR 0x5C, CHR 0x5C]
      else if ch = [CHR 0x0A] then [CHR 0x5C, CHR ''n'']
      else if ch = [CHR 0x0D] then [CHR 0x5C, CHR ''r'']
      else if ch = [CHR 0x09] then [CHR 0x5C, CHR ''t'']
      else if ch = [CHR 0x08] then [CHR 0x5C, CHR ''b'']
      else if ch = [CHR 0x0C] then [CHR 0x5C, CHR ''f'']
      else case control_code ch of
             Some v \<Rightarrow> push_unicode_escape v
           | None \<Rightarrow> ch)"

definition render_string :: "string \<Rightarrow> string" where
  "render_string value = [CHR 0x22] @ concat (map render_char (chars value)) @ [CHR 0x22]"

fun render :: "json_value \<Rightarrow> string" where
  "render Null = ''null''"
| "render (Bool value) = (if value then ''true'' else ''false'')"
| "render (Number value) = int_to_string value"
| "render (String value) = render_string value"
| "render (Array values) = ''['' @ str_join '','' (map render values) @ '']''"
| "render (Object entries) =
     ''{'' @ str_join '','' (map (\<lambda>e. render_string (fst e) @ '':'' @ render (snd e)) entries) @ ''}''"

section \<open>Parsing\<close>

text \<open>
  A parser takes the characters from its index on and returns an error message, or a value and
  the characters left.
\<close>

type_synonym 'a parsed = "string + 'a \<times> string list"

definition expect :: "char \<Rightarrow> string list \<Rightarrow> unit parsed" where
  "expect expected cs =
     (case cs of
        actual # rest \<Rightarrow>
          if actual = [expected] then Inr ((), rest)
          else Inl (''expected '' @ [CHR 0x27, expected, CHR 0x27] @ '', found '' @ [CHR 0x27] @ actual @ [CHR 0x27])
      | [] \<Rightarrow> Inl (''expected '' @ [CHR 0x27, expected, CHR 0x27] @ '', found end of input''))"

definition skip_whitespace :: "string list \<Rightarrow> string list" where
  "skip_whitespace cs = dropWhile (\<lambda>ch. ch \<in> {'' '', [CHR 0x0A], [CHR 0x0D], [CHR 0x09]}) cs"

fun parse_literal :: "string \<Rightarrow> string \<Rightarrow> json_value \<Rightarrow> string list \<Rightarrow> json_value parsed" where
  "parse_literal expected [] value cs = Inr (value, cs)"
| "parse_literal expected (e # es) value [] = Inl (''invalid literal: expected '' @ expected)"
| "parse_literal expected (e # es) value (ch # cs) =
     (if ch = [e] then parse_literal expected es value cs else Inl (''invalid literal: expected '' @ expected))"

text \<open>\<open>char::to_digit(16)\<close>, and four of them.\<close>

definition hex_value :: "string \<Rightarrow> nat option" where
  "hex_value ch =
     (case ch of
        [c] \<Rightarrow> let v = code c in
          if 48 \<le> v \<and> v \<le> 57 then Some (v - 48)
          else if 97 \<le> v \<and> v \<le> 102 then Some (v - 87)
          else if 65 \<le> v \<and> v \<le> 70 then Some (v - 55)
          else None
      | _ \<Rightarrow> None)"

fun parse_hex :: "nat \<Rightarrow> nat \<Rightarrow> string list \<Rightarrow> nat parsed" where
  "parse_hex 0 value cs = Inr (value, cs)"
| "parse_hex (Suc n) value [] = Inl ''unexpected end of input in unicode escape''"
| "parse_hex (Suc n) value (ch # cs) =
     (case hex_value ch of
        Some v \<Rightarrow> parse_hex n (16 * value + v) cs
      | None \<Rightarrow> Inl ''invalid unicode escape'')"

definition parse_unicode_escape :: "string list \<Rightarrow> string parsed" where
  "parse_unicode_escape cs =
     (case parse_hex 4 0 cs of
        Inl e \<Rightarrow> Inl e
      | Inr (value, rest) \<Rightarrow>
          if 55296 \<le> value \<and> value \<le> 57343 then Inl ''invalid unicode scalar value''
          else Inr (encode_utf8 value, rest))"

definition parse_escape :: "string list \<Rightarrow> string parsed" where
  "parse_escape cs =
     (case cs of
        [] \<Rightarrow> Inl ''unexpected end of input in escape sequence''
      | ch # rest \<Rightarrow>
          if ch \<in> {[CHR 0x22], [CHR 0x5C], ''/''} then Inr (ch, rest)
          else if ch = ''b'' then Inr ([CHR 0x08], rest)
          else if ch = ''f'' then Inr ([CHR 0x0C], rest)
          else if ch = ''n'' then Inr ([CHR 0x0A], rest)
          else if ch = ''r'' then Inr ([CHR 0x0D], rest)
          else if ch = ''t'' then Inr ([CHR 0x09], rest)
          else if ch = ''u'' then parse_unicode_escape rest
          else Inl (''invalid escape sequence: '' @ ch))"

text \<open>The characters an escape leaves are fewer, which ends the loop of \<open>parse_string\<close>.\<close>

lemma parse_hex_length: "parse_hex n v cs = Inr (w, rest) \<Longrightarrow> length rest \<le> length cs"
  by (induction n v cs rule: parse_hex.induct) (auto split: option.splits)

lemma parse_escape_length: "parse_escape cs = Inr (ch, rest) \<Longrightarrow> length rest < length cs"
  by (auto simp: parse_escape_def parse_unicode_escape_def less_Suc_eq_le dest: parse_hex_length
      split: list.splits if_splits sum.splits)

function parse_string_loop :: "string \<Rightarrow> string list \<Rightarrow> string parsed" where
  "parse_string_loop value [] = Inl ''unterminated string''"
| "parse_string_loop value (ch # cs) =
     (if ch = [CHR 0x22] then Inr (value, cs)
      else if ch = [CHR 0x5C] then
        (case parse_escape cs of
           Inl e \<Rightarrow> Inl e
         | Inr (c, rest) \<Rightarrow> parse_string_loop (value @ c) rest)
      else parse_string_loop (value @ ch) cs)"
  by pat_completeness auto
termination
  by (relation "measure (\<lambda>x. length (snd x))") (auto dest: parse_escape_length)

definition parse_string :: "string list \<Rightarrow> string parsed" where
  "parse_string cs =
     (case expect (CHR 0x22) cs of
        Inl e \<Rightarrow> Inl e
      | Inr (_, rest) \<Rightarrow> parse_string_loop [] rest)"

text \<open>\<open>str::parse::<i64>\<close> of an optional sign and digits.\<close>

definition digits_value :: "string \<Rightarrow> nat" where
  "digits_value ds = fold (\<lambda>c v. 10 * v + (code c - 48)) ds 0"

definition is_digit_char :: "string \<Rightarrow> bool" where
  "is_digit_char ch \<longleftrightarrow> (case ch of [c] \<Rightarrow> 48 \<le> code c \<and> code c \<le> 57 | _ \<Rightarrow> False)"

definition parse_number :: "string list \<Rightarrow> int parsed" where
  "parse_number cs =
     (let (neg, cs1) = (case cs of ch # rest \<Rightarrow> if ch = ''-'' then (True, rest) else (False, cs) | [] \<Rightarrow> (False, cs));
          ds = concat (takeWhile is_digit_char cs1);
          rest = dropWhile is_digit_char cs1;
          v = (if neg then - int (digits_value ds) else int (digits_value ds))
      in if ds = [] then Inl ''invalid number''
         else if - (2 ^ 63) \<le> v \<and> v < 2 ^ 63 then Inr (v, rest)
         else Inl ''number out of range'')"

definition try_consume :: "char \<Rightarrow> string list \<Rightarrow> string list option" where
  "try_consume expected cs = (case cs of ch # rest \<Rightarrow> if ch = [expected] then Some rest else None | [] \<Rightarrow> None)"

text \<open>
  Values nest, so the three functions call each other; \<open>fuel\<close> bounds the depth of the calls, and
  \<open>None\<close> means that it was not enough. \<open>parse\<close> gives as much as any input of that length needs.
  \<open>and_value\<close> is the \<open>?\<close> operator.
\<close>

definition and_value :: "'a parsed option \<Rightarrow> ('a \<Rightarrow> string list \<Rightarrow> 'b parsed option) \<Rightarrow> 'b parsed option" where
  "and_value p k =
     (case p of
        None \<Rightarrow> None
      | Some (Inl e) \<Rightarrow> Some (Inl e)
      | Some (Inr (x, rest)) \<Rightarrow> k x rest)"

fun parse_value :: "nat \<Rightarrow> string list \<Rightarrow> json_value parsed option"
  and parse_array :: "nat \<Rightarrow> json_value list \<Rightarrow> string list \<Rightarrow> json_value parsed option"
  and parse_object :: "nat \<Rightarrow> (string \<times> json_value) list \<Rightarrow> string list \<Rightarrow> json_value parsed option" where
  "parse_value 0 cs = None"
| "parse_value (Suc fuel) cs =
     (case skip_whitespace cs of
        [] \<Rightarrow> Some (Inl ''unexpected end of input'')
      | ch # rest \<Rightarrow>
          if ch = ''n'' then Some (parse_literal ''null'' ''null'' Null (ch # rest))
          else if ch = ''t'' then Some (parse_literal ''true'' ''true'' (Bool True) (ch # rest))
          else if ch = ''f'' then Some (parse_literal ''false'' ''false'' (Bool False) (ch # rest))
          else if ch = [CHR 0x22] then Some (map_sum id (map_prod String id) (parse_string (ch # rest)))
          else if ch = ''['' then parse_array fuel [] rest
          else if ch = ''{'' then parse_object fuel [] rest
          else if ch = ''-'' \<or> is_digit_char ch then Some (map_sum id (map_prod Number id) (parse_number (ch # rest)))
          else Some (Inl (''unexpected character: '' @ ch)))"
| "parse_array 0 values cs = None"
| "parse_array (Suc fuel) values cs =
     (case try_consume (CHR '']'') (skip_whitespace cs) of
        Some rest \<Rightarrow> Some (Inr (Array values, rest))
      | None \<Rightarrow>
          and_value (parse_value fuel (skip_whitespace cs)) (\<lambda>value cs1.
            case try_consume (CHR '']'') (skip_whitespace cs1) of
              Some rest \<Rightarrow> Some (Inr (Array (values @ [value]), rest))
            | None \<Rightarrow>
                and_value (Some (expect (CHR '','') (skip_whitespace cs1))) (\<lambda>_ cs2.
                  parse_array fuel (values @ [value]) cs2)))"
| "parse_object 0 entries cs = None"
| "parse_object (Suc fuel) entries cs =
     (case try_consume (CHR ''}'') (skip_whitespace cs) of
        Some rest \<Rightarrow> Some (Inr (Object entries, rest))
      | None \<Rightarrow>
          and_value (Some (parse_string (skip_whitespace cs))) (\<lambda>key cs1.
          and_value (Some (expect (CHR '':'') (skip_whitespace cs1))) (\<lambda>_ cs2.
          and_value (parse_value fuel cs2) (\<lambda>value cs3.
            case try_consume (CHR ''}'') (skip_whitespace cs3) of
              Some rest \<Rightarrow> Some (Inr (Object (btree_insert key value entries), rest))
            | None \<Rightarrow>
                and_value (Some (expect (CHR '','') (skip_whitespace cs3))) (\<lambda>_ cs4.
                  parse_object fuel (btree_insert key value entries) cs4)))))"

definition parse :: "string \<Rightarrow> (string + json_value) option" where
  "parse source =
     (let cs = chars source in
      case parse_value (2 * length cs + 1) cs of
        None \<Rightarrow> None
      | Some (Inl e) \<Rightarrow> Some (Inl e)
      | Some (Inr (value, rest)) \<Rightarrow>
          if skip_whitespace rest = [] then Some (Inr value)
          else Some (Inl ''unexpected trailing content''))"

text \<open>The same equations by case distinction on the number, for evaluation.\<close>

lemma parse_hex_code [code]:
  "parse_hex n v cs =
     (if n = 0 then Inr (v, cs)
      else case cs of
             [] \<Rightarrow> Inl ''unexpected end of input in unicode escape''
           | ch # cs' \<Rightarrow>
               (case hex_value ch of
                  Some d \<Rightarrow> parse_hex (n - 1) (16 * v + d) cs'
                | None \<Rightarrow> Inl ''invalid unicode escape''))"
  by (cases n; cases cs) (simp_all split: option.split)

lemma parse_value_code [code]:
  "parse_value fuel cs =
     (if fuel = 0 then None
      else case skip_whitespace cs of
        [] \<Rightarrow> Some (Inl ''unexpected end of input'')
      | ch # rest \<Rightarrow>
          if ch = ''n'' then Some (parse_literal ''null'' ''null'' Null (ch # rest))
          else if ch = ''t'' then Some (parse_literal ''true'' ''true'' (Bool True) (ch # rest))
          else if ch = ''f'' then Some (parse_literal ''false'' ''false'' (Bool False) (ch # rest))
          else if ch = [CHR 0x22] then Some (map_sum id (map_prod String id) (parse_string (ch # rest)))
          else if ch = ''['' then parse_array (fuel - 1) [] rest
          else if ch = ''{'' then parse_object (fuel - 1) [] rest
          else if ch = ''-'' \<or> is_digit_char ch then Some (map_sum id (map_prod Number id) (parse_number (ch # rest)))
          else Some (Inl (''unexpected character: '' @ ch)))"
  by (cases fuel) (simp_all only: parse_value.simps diff_Suc_1 nat.distinct if_True if_False refl)

lemma parse_array_code [code]:
  "parse_array fuel vs cs =
     (if fuel = 0 then None
      else case try_consume (CHR '']'') (skip_whitespace cs) of
        Some rest \<Rightarrow> Some (Inr (Array vs, rest))
      | None \<Rightarrow>
          and_value (parse_value (fuel - 1) (skip_whitespace cs)) (\<lambda>v cs1.
            case try_consume (CHR '']'') (skip_whitespace cs1) of
              Some rest \<Rightarrow> Some (Inr (Array (vs @ [v]), rest))
            | None \<Rightarrow>
                and_value (Some (expect (CHR '','') (skip_whitespace cs1))) (\<lambda>_ cs2.
                  parse_array (fuel - 1) (vs @ [v]) cs2)))"
  by (cases fuel) (simp_all only: parse_array.simps diff_Suc_1 nat.distinct if_True if_False refl)

lemma parse_object_code [code]:
  "parse_object fuel es cs =
     (if fuel = 0 then None
      else case try_consume (CHR ''}'') (skip_whitespace cs) of
        Some rest \<Rightarrow> Some (Inr (Object es, rest))
      | None \<Rightarrow>
          and_value (Some (parse_string (skip_whitespace cs))) (\<lambda>key cs1.
          and_value (Some (expect (CHR '':'') (skip_whitespace cs1))) (\<lambda>_ cs2.
          and_value (parse_value (fuel - 1) cs2) (\<lambda>v cs3.
            case try_consume (CHR ''}'') (skip_whitespace cs3) of
              Some rest \<Rightarrow> Some (Inr (Object (btree_insert key v es), rest))
            | None \<Rightarrow>
                and_value (Some (expect (CHR '','') (skip_whitespace cs3))) (\<lambda>_ cs4.
                  parse_object (fuel - 1) (btree_insert key v es) cs4)))))"
  by (cases fuel) (simp_all only: parse_object.simps diff_Suc_1 nat.distinct if_True if_False refl)

section \<open>The parser returns\<close>

lemma skip_whitespace_length: "length (skip_whitespace cs) \<le> length cs"
  by (simp add: skip_whitespace_def length_dropWhile_le)

lemma expect_length: "expect c cs = Inr (u, rest) \<Longrightarrow> length rest < length cs"
  by (auto simp: expect_def split: list.splits if_splits)

lemma try_consume_length: "try_consume c cs = Some rest \<Longrightarrow> length rest < length cs"
  by (auto simp: try_consume_def split: list.splits if_splits)

lemma parse_string_loop_length: "parse_string_loop v cs = Inr (w, rest) \<Longrightarrow> length rest < length cs"
proof (induction v cs rule: parse_string_loop.induct)
  case (2 v ch cs)
  then show ?case
    by (auto split: if_splits sum.splits dest: less_SucI) (fastforce dest: parse_escape_length)
qed simp

lemma parse_string_length: "parse_string cs = Inr (w, rest) \<Longrightarrow> length rest < length cs"
  by (auto simp: parse_string_def dest!: expect_length parse_string_loop_length split: sum.splits)

lemma parse_literal_length: "parse_literal w es v cs = Inr (x, rest) \<Longrightarrow> length rest \<le> length cs - length es"
  by (induction w es v cs rule: parse_literal.induct) (auto split: if_splits)

lemma dropWhile_digits_length:
  "concat (takeWhile is_digit_char ds) \<noteq> [] \<Longrightarrow> length (dropWhile is_digit_char ds) < length ds"
  by (cases ds) (auto simp: less_Suc_eq_le length_dropWhile_le split: if_splits)

lemma parse_number_cases:
  assumes "parse_number cs = Inr (x, rest)"
  obtains ds where "length ds \<le> length cs" "concat (takeWhile is_digit_char ds) \<noteq> []" "rest = dropWhile is_digit_char ds"
proof (cases "\<exists>cs0. cs = ''-'' # cs0")
  case True
  then obtain cs0 where "cs = ''-'' # cs0" by blast
  with assms show ?thesis by (intro that [of cs0]) (simp_all add: parse_number_def Let_def split: if_splits)
next
  case False
  then have "(case cs of ch # rest \<Rightarrow> if ch = ''-'' then (True, rest) else (False, cs) | [] \<Rightarrow> (False, cs)) = (False, cs)"
    by (simp split: list.split)
  with assms show ?thesis by (intro that [of cs]) (simp_all add: parse_number_def Let_def split: if_splits)
qed

lemma parse_number_length: "parse_number cs = Inr (x, rest) \<Longrightarrow> length rest < length cs"
  by (erule parse_number_cases, drule dropWhile_digits_length) simp

text \<open>
  \<open>returns_below n p\<close>: the fuel was enough, and a x leaves fewer than \<open>n\<close> characters.
\<close>

definition returns_below :: "nat \<Rightarrow> 'a parsed option \<Rightarrow> bool" where
  "returns_below n p \<longleftrightarrow> p \<noteq> None \<and> (\<forall>x rest. p = Some (Inr (x, rest)) \<longrightarrow> length rest < n)"

lemma returns_below_Inl [simp]: "returns_below n (Some (Inl e))"
  by (simp add: returns_below_def)

lemma returns_below_Inr [simp]: "returns_below n (Some (Inr (x, rest))) \<longleftrightarrow> length rest < n"
  by (auto simp: returns_below_def)

lemma returns_below_map [simp]: "returns_below n (Some (map_sum id (map_prod f id) p)) \<longleftrightarrow> returns_below n (Some p)"
  by (cases p) auto

lemma returns_below_mono: "returns_below m p \<Longrightarrow> m \<le> n \<Longrightarrow> returns_below n p"
  by (force simp: returns_below_def)

lemma returns_below_SomeI: "(\<And>x rest. p = Inr (x, rest) \<Longrightarrow> length rest < n) \<Longrightarrow> returns_below n (Some p)"
  by (auto simp: returns_below_def)

lemma returns_below_and_value:
  assumes "returns_below m p" "\<And>x rest. length rest < m \<Longrightarrow> returns_below n (k x rest)"
  shows "returns_below n (and_value p k)"
  using assms by (auto simp: returns_below_def and_value_def split: option.splits sum.splits)

lemma returns_below_expect: "returns_below (length cs) (Some (expect c cs))"
  by (rule returns_below_SomeI) (rule expect_length)

lemma returns_below_parse_string: "returns_below (length cs) (Some (parse_string cs))"
  by (rule returns_below_SomeI) (rule parse_string_length)

lemma returns_below_parse_number: "returns_below (length cs) (Some (parse_number cs))"
  by (rule returns_below_SomeI) (rule parse_number_length)

lemma returns_below_parse_literal: "returns_below (Suc (length cs)) (Some (parse_literal w (e # es) v (ch # cs)))"
proof (rule returns_below_SomeI)
  fix x rest
  assume "parse_literal w (e # es) v (ch # cs) = Inr (x, rest)"
  then have "length rest \<le> length (ch # cs) - length (e # es)" by (rule parse_literal_length)
  then show "length rest < Suc (length cs)" by simp
qed

lemma returns_below_parse_value:
  assumes "\<And>rest. length rest < length cs \<Longrightarrow> returns_below (length rest) (parse_array fuel [] rest)"
    and "\<And>rest. length rest < length cs \<Longrightarrow> returns_below (length rest) (parse_object fuel [] rest)"
  shows "returns_below (length cs) (parse_value (Suc fuel) cs)"
proof (cases "skip_whitespace cs")
  case (Cons ch rest)
  then have len: "Suc (length rest) \<le> length cs" using skip_whitespace_length [of cs] by simp
  have lit: "returns_below (length cs) (Some (parse_literal w (e # es) v (ch # rest)))" for w e es v
    by (rule returns_below_mono [OF returns_below_parse_literal len])
  have "returns_below (length cs) (Some (parse_string (ch # rest)))"
    "returns_below (length cs) (Some (parse_number (ch # rest)))"
    using returns_below_mono [OF returns_below_parse_string, of "ch # rest" "length cs"]
      returns_below_mono [OF returns_below_parse_number, of "ch # rest" "length cs"] len by simp_all
  moreover have "returns_below (length cs) (parse_array fuel [] rest)" "returns_below (length cs) (parse_object fuel [] rest)"
    using assms [of rest] len by (auto intro: returns_below_mono)
  ultimately show ?thesis
    unfolding parse_value.simps Cons list.case using lit
    by (simp only: returns_below_map returns_below_Inl split: if_split) simp
qed simp

lemma returns_below_tail:
  assumes "length cs1 < n" "\<And>xs. length xs < n \<Longrightarrow> returns_below (length xs) (k xs)"
  shows "returns_below n
     (case try_consume c (skip_whitespace cs1) of
        Some rest \<Rightarrow> Some (Inr (v, rest))
      | None \<Rightarrow> and_value (Some (expect d (skip_whitespace cs1))) (\<lambda>_. k))"
proof (cases "try_consume c (skip_whitespace cs1)")
  case None
  have "returns_below n (k xs)" if "length xs < length (skip_whitespace cs1)" for xs
  proof -
    have "length xs < n" using that skip_whitespace_length [of cs1] assms(1) by simp
    with assms(2) [of xs] show ?thesis by (meson returns_below_mono less_imp_le)
  qed
  with None show ?thesis by (auto intro: returns_below_and_value [OF returns_below_expect])
qed (use skip_whitespace_length [of cs1] assms(1) in \<open>auto dest!: try_consume_length\<close>)

lemma returns_below_parse_array:
  assumes "\<And>xs. length xs \<le> length cs \<Longrightarrow> returns_below (length xs) (parse_value fuel xs)"
    and "\<And>vs xs. length xs < length cs \<Longrightarrow> returns_below (length xs) (parse_array fuel vs xs)"
  shows "returns_below (length cs) (parse_array (Suc fuel) vs cs)"
proof (cases "try_consume (CHR '']'') (skip_whitespace cs)")
  case None
  have "returns_below (length cs)
     (case try_consume (CHR '']'') (skip_whitespace cs1) of
        Some rest \<Rightarrow> Some (Inr (Array (vs @ [x]), rest))
      | None \<Rightarrow> and_value (Some (expect (CHR '','') (skip_whitespace cs1))) (\<lambda>_ cs2. parse_array fuel (vs @ [x]) cs2))"
    if "length cs1 < length cs" for x cs1
    using that assms(2) by (rule returns_below_tail)
  moreover have "returns_below (length cs) (parse_value fuel (skip_whitespace cs))"
    using assms(1) skip_whitespace_length by (blast intro: returns_below_mono)
  ultimately show ?thesis using None by (simp add: returns_below_and_value)
qed (use skip_whitespace_length [of cs] in \<open>auto dest!: try_consume_length\<close>)

lemma returns_below_parse_object:
  assumes "\<And>xs. length xs \<le> length cs \<Longrightarrow> returns_below (length xs) (parse_value fuel xs)"
    and "\<And>entries xs. length xs < length cs \<Longrightarrow> returns_below (length xs) (parse_object fuel entries xs)"
  shows "returns_below (length cs) (parse_object (Suc fuel) entries cs)"
proof (cases "try_consume (CHR ''}'') (skip_whitespace cs)")
  case None
  have rest: "returns_below (length cs)
     (case try_consume (CHR ''}'') (skip_whitespace cs3) of
        Some rest \<Rightarrow> Some (Inr (Object (btree_insert key x entries), rest))
      | None \<Rightarrow> and_value (Some (expect (CHR '','') (skip_whitespace cs3)))
          (\<lambda>_ cs4. parse_object fuel (btree_insert key x entries) cs4))"
    if "length cs3 < length cs" for key x cs3
    using that assms(2) by (rule returns_below_tail)
  have "returns_below (length cs) (Some (parse_string (skip_whitespace cs)))"
    by (rule returns_below_mono [OF returns_below_parse_string skip_whitespace_length])
  moreover have "returns_below (length cs) (Some (expect (CHR '':'') (skip_whitespace cs1)))" if "length cs1 < length cs" for cs1
    using that skip_whitespace_length [of cs1] by (intro returns_below_mono [OF returns_below_expect]) simp
  moreover have "returns_below (length cs) (parse_value fuel cs2)" if "length cs2 < length cs" for cs2
    using that assms(1) [of cs2] by (meson returns_below_mono less_imp_le)
  ultimately show ?thesis using None rest
    by (auto intro!: returns_below_and_value [where m = "length cs"])
qed (use skip_whitespace_length [of cs] in \<open>auto dest!: try_consume_length\<close>)

text \<open>The fuel \<open>parse\<close> gives is enough for every input.\<close>

lemma parse_returns_below:
  "2 * length cs + 1 \<le> fuel \<Longrightarrow> returns_below (length cs) (parse_value fuel cs)"
  "2 * length cs + 2 \<le> fuel \<Longrightarrow> returns_below (length cs) (parse_array fuel vs cs)"
  "2 * length cs + 2 \<le> fuel \<Longrightarrow> returns_below (length cs) (parse_object fuel entries cs)"
proof (induction fuel arbitrary: cs vs entries)
  case (Suc fuel)
  case 1
  then show ?case using Suc.IH(2,3) by (intro returns_below_parse_value) simp_all
next
  case (Suc fuel)
  case 2
  then show ?case using Suc.IH(1,2) by (intro returns_below_parse_array) simp_all
next
  case (Suc fuel)
  case 3
  then show ?case using Suc.IH(1,3) by (intro returns_below_parse_object) simp_all
qed simp_all

lemma parse_returns: "\<exists>r. parse source = Some r"
proof -
  have "returns_below (length (chars source)) (parse_value (2 * length (chars source) + 1) (chars source))"
    by (rule parse_returns_below) simp
  then show ?thesis by (auto simp: parse_def Let_def returns_below_def split: option.splits sum.splits)
qed

end
