(* ===== verification/Agent_Json_Roundtrip.thy ===== *)
theory Agent_Json_Roundtrip
  imports Agent_Json
begin

text \<open>
  Parsing undoes printing: the text \<open>render\<close> makes of a value is parsed back to it. The text is
  followed character by character, so the first part is about cutting a string into characters.
\<close>

section \<open>Cutting a string into characters\<close>

text \<open>The bytes of one character, and of a Rust \<open>str\<close>, whose bytes are always UTF-8.\<close>

definition is_char :: "string \<Rightarrow> bool" where
  "is_char ch \<longleftrightarrow> ch \<noteq> [] \<and> utf8_head (map code ch) = length ch"

definition is_str :: "string \<Rightarrow> bool" where
  "is_str s \<longleftrightarrow> list_all is_char (chars s)"

lemma utf8_head_append:
  assumes "bs \<noteq> []" "utf8_head bs = length bs"
  shows "utf8_head (bs @ r) = length bs"
proof (cases bs)
  case (Cons b bs')
  let ?w = "utf8_width b"
  show ?thesis
  proof (cases "?w \<le> 1")
    case True
    with Cons assms show ?thesis by (simp add: utf8_head_def Let_def)
  next
    case False
    with Cons assms have w: "?w = Suc (length bs')" "utf8_second b (bs' ! 0)" "list_all utf8_cont (take (?w - 2) (drop 1 bs'))"
      by (auto simp: utf8_head_def Let_def split: if_splits)
    with False have "bs' \<noteq> []" by auto
    then obtain b' bs'' where "bs' = b' # bs''" by (auto simp: neq_Nil_conv)
    with Cons w show ?thesis by (simp add: utf8_head_def Let_def)
  qed
qed (use assms in simp)

lemma chars_char: "is_char ch \<Longrightarrow> chars (ch @ t) = ch # chars t"
proof -
  assume ch: "is_char ch"
  then obtain c cs where c: "ch = c # cs" by (auto simp: is_char_def neq_Nil_conv)
  have "utf8_head (map code (c # cs @ t)) = length ch"
    using utf8_head_append [of "map code ch" "map code t"] ch c by (simp add: is_char_def)
  with c show ?thesis by (simp add: Let_def)
qed

declare chars.simps(2) [simp del]

lemma chars_concat: "list_all is_char chs \<Longrightarrow> chars (concat chs @ t) = chs @ chars t"
  by (induction chs) (simp_all add: chars_char)

lemma chars_append: "is_str s \<Longrightarrow> chars (s @ t) = chars s @ chars t"
  using chars_concat [of "chars s" t] by (simp add: is_str_def concat_chars)

lemma is_char_ascii: "code c < 128 \<Longrightarrow> is_char [c]"
  by (simp add: is_char_def utf8_head_def utf8_width_def Let_def)

lemma chars_ascii: "code c < 128 \<Longrightarrow> chars (c # t) = [c] # chars t"
  using chars_char [OF is_char_ascii, of c t] by simp

lemma is_str_Nil [simp]: "is_str []"
  by (simp add: is_str_def)

lemma is_str_append: "is_str s \<Longrightarrow> is_str t \<Longrightarrow> is_str (s @ t)"
  by (simp add: is_str_def chars_append)

lemma is_str_ascii: "code c < 128 \<Longrightarrow> is_str t \<Longrightarrow> is_str (c # t)"
  by (simp add: is_str_def chars_ascii is_char_ascii)

lemma is_str_char: "is_char ch \<Longrightarrow> is_str ch"
  using chars_char [of ch "[]"] by (simp add: is_str_def)

lemma is_str_concat: "(\<And>s. s \<in> set ss \<Longrightarrow> is_str s) \<Longrightarrow> is_str (concat ss)"
  by (induction ss) (simp_all add: is_str_append)

lemma all_ascii_chars: "\<forall>c\<in>set s. code c < 128 \<Longrightarrow> is_str s \<and> chars s = map (\<lambda>c. [c]) s"
  by (induction s) (simp_all add: is_str_ascii chars_ascii)

section \<open>Numbers\<close>

lemma to_decimal_digits: "c \<in> set (to_decimal n) \<Longrightarrow> 48 \<le> code c \<and> code c \<le> 57"
proof (induction n rule: to_decimal.induct)
  case (1 n)
  then show ?case by (auto simp: to_decimal.simps [of n] code_def split: if_splits)
qed

lemma to_decimal_not_Nil [simp]: "to_decimal n \<noteq> []"
  by (subst to_decimal.simps) simp

lemma digits_value_to_decimal: "digits_value (to_decimal n) = n"
proof (induction n rule: to_decimal.induct)
  case (1 n)
  show ?case
  proof (cases "n < 10")
    case False
    with 1 have "digits_value (to_decimal (n div 10)) = n div 10" by blast
    with False show ?thesis by (subst to_decimal.simps) (simp add: digits_value_def code_def)
  qed (simp add: to_decimal.simps [of n] digits_value_def code_def)
qed

lemma takeWhile_digits:
  assumes "\<And>c. c \<in> set ds \<Longrightarrow> 48 \<le> code c \<and> code c \<le> 57" "rest = [] \<or> \<not> is_digit_char (hd rest)"
  shows "takeWhile is_digit_char (map (\<lambda>c. [c]) ds @ rest) = map (\<lambda>c. [c]) ds"
    and "dropWhile is_digit_char (map (\<lambda>c. [c]) ds @ rest) = rest"
proof -
  have "takeWhile is_digit_char rest = []" "dropWhile is_digit_char rest = rest"
    using assms(2) by (cases rest; auto)+
  moreover have "list_all (\<lambda>c. is_digit_char [c]) ds" using assms(1) by (simp add: is_digit_char_def list_all_iff)
  ultimately show "takeWhile is_digit_char (map (\<lambda>c. [c]) ds @ rest) = map (\<lambda>c. [c]) ds"
    and "dropWhile is_digit_char (map (\<lambda>c. [c]) ds @ rest) = rest"
    by (induction ds) simp_all
qed

lemma concat_map_single: "concat (map (\<lambda>c. [c]) s) = s"
  by (induction s) simp_all

lemma int_to_string_ascii: "\<forall>c\<in>set (int_to_string i). code c < 128"
  by (auto simp: int_to_string_def code_def dest!: to_decimal_digits)

definition i64 :: "int \<Rightarrow> bool" where
  "i64 i \<longleftrightarrow> - (2 ^ 63) \<le> i \<and> i < 2 ^ 63"

lemma parse_number_to_string:
  assumes "i64 i" "rest = [] \<or> \<not> is_digit_char (hd rest)"
  shows "parse_number (chars (int_to_string i) @ rest) = Inr (i, rest)"
proof (cases "i < 0")
  case True
  with assms show ?thesis
    using takeWhile_digits [of "to_decimal (nat (- i))" rest, OF to_decimal_digits assms(2)] int_to_string_ascii [of i]
    by (simp add: parse_number_def all_ascii_chars int_to_string_def concat_map_single digits_value_to_decimal i64_def)
next
  case False
  obtain c ds where c: "to_decimal (nat i) = c # ds" using to_decimal_not_Nil [of "nat i"] by (auto simp: neq_Nil_conv simp del: to_decimal_not_Nil)
  then have "48 \<le> code c" using to_decimal_digits [of c "nat i"] by simp
  then have "c \<noteq> CHR ''-''" by (auto simp: code_def)
  with c have "(case map (\<lambda>c. [c]) (to_decimal (nat i)) @ rest of
      ch # rest' \<Rightarrow> if ch = ''-'' then (True, rest') else (False, map (\<lambda>c. [c]) (to_decimal (nat i)) @ rest)
    | [] \<Rightarrow> (False, map (\<lambda>c. [c]) (to_decimal (nat i)) @ rest)) = (False, map (\<lambda>c. [c]) (to_decimal (nat i)) @ rest)"
    by simp
  with False assms show ?thesis
    using takeWhile_digits [of "to_decimal (nat i)" rest, OF to_decimal_digits assms(2)] int_to_string_ascii [of i]
    by (simp add: parse_number_def all_ascii_chars int_to_string_def concat_map_single digits_value_to_decimal i64_def)
qed

section \<open>Strings\<close>

lemma hex_char_value: "n < 16 \<Longrightarrow> hex_value [hex_char n] = Some n \<and> code (hex_char n) < 128"
proof -
  have "\<forall>n\<in>set [0..<16]. hex_value [hex_char n] = Some n \<and> code (hex_char n) < 128" by code_simp
  then show "n < 16 \<Longrightarrow> ?thesis" by simp
qed

lemma parse_hex_escape:
  assumes "v < 256"
  shows "parse_hex 4 0 (map (\<lambda>k. [hex_char (v div 2 ^ k mod 16)]) [12, 8, 4, 0] @ cs) = Inr (v, cs)"
proof -
  have v: "v div 4096 mod 16 = 0" "v div 256 mod 16 = 0" "16 * (v div 16 mod 16) + v mod 16 = v"
    using assms by (simp_all add: less_mult_imp_div_less)
  have h: "hex_value [hex_char (n mod 16)] = Some (n mod 16)" for n using hex_char_value [of "n mod 16"] by simp
  have four: "(4::nat) = Suc (Suc (Suc (Suc 0)))" by simp
  have "parse_hex 4 0 (map (\<lambda>k. [hex_char (v div 2 ^ k mod 16)]) [12, 8, 4, 0] @ cs) =
      Inr (16 * (16 * (16 * (v div 4096 mod 16) + v div 256 mod 16) + v div 16 mod 16) + v mod 16, cs)"
    unfolding four by (simp add: h)
  with v show ?thesis by simp
qed

text \<open>A character that is a control is one byte, or two of which the first is \<open>0xC2\<close>; the escape spells its code point.\<close>

lemma is_char_second: "is_char [c, c'] \<Longrightarrow> 128 \<le> code c'"
  by (cases "utf8_width (code c) \<le> 1")
    (auto simp: is_char_def utf8_head_def utf8_second_def utf8_cont_def Let_def split: if_split_asm)

lemma encode_utf8_two:
  assumes "128 \<le> v" "v < 160"
  shows "encode_utf8 v = [char_of (194::nat), char_of v]"
proof -
  have "v div 64 = 2" using assms by (intro div_nat_eqI) simp_all
  moreover have "v mod 64 = v - 64 * 2" using minus_mult_div_eq_mod [of v 64] \<open>v div 64 = 2\<close> by simp
  ultimately show ?thesis using assms by (simp add: encode_utf8_def)
qed

lemma control_code_decode:
  assumes "is_char ch" "control_code ch = Some v"
  shows "v < 256 \<and> encode_utf8 v = ch"
proof -
  consider c where "ch = [c]" "v = code c" "v < 128" | c c' where "ch = [c, c']" "code c = 194" "v = code c'" "v < 160"
    using assms(2) unfolding control_code_def by (simp split: list.split_asm if_split_asm) force
  then show ?thesis
  proof cases
    case 1
    then show ?thesis by (simp add: encode_utf8_def code_def)
  next
    case 2
    with assms(1) have "128 \<le> v" using is_char_second [of c c'] by simp
    moreover have "c = char_of (194::nat)" using 2(2) by (metis code_def char_of_char)
    ultimately show ?thesis using 2 by (simp add: encode_utf8_two) (simp add: code_def)
  qed
qed

lemma push_unicode_escape_chars:
  "is_str (push_unicode_escape v)"
  "chars (push_unicode_escape v) = [CHR 0x5C] # ''u'' # map (\<lambda>k. [hex_char (v div 2 ^ k mod 16)]) [12, 8, 4, 0]"
proof -
  have "\<forall>c\<in>set (push_unicode_escape v). code c < 128"
    using hex_char_value by (auto simp: push_unicode_escape_def code_def)
  from all_ascii_chars [OF this] show "is_str (push_unicode_escape v)"
    "chars (push_unicode_escape v) = [CHR 0x5C] # ''u'' # map (\<lambda>k. [hex_char (v div 2 ^ k mod 16)]) [12, 8, 4, 0]"
    by (simp_all add: push_unicode_escape_def)
qed

text \<open>What \<open>render_char\<close> writes for a character, \<open>parse_string\<close> reads as that character.\<close>

definition escapes :: "(string \<times> string) list" where
  "escapes = [([CHR 0x22], [CHR 0x22]), ([CHR 0x5C], [CHR 0x5C]), ([CHR 0x0A], ''n''), ([CHR 0x0D], ''r''),
     ([CHR 0x09], ''t''), ([CHR 0x08], ''b''), ([CHR 0x0C], ''f'')]"

lemma render_char_cases:
  assumes "is_char ch"
  obtains (escape) e where "(ch, e) \<in> set escapes" "render_char ch = CHR 0x5C # e"
    | (control) v where "control_code ch = Some v" "render_char ch = push_unicode_escape v"
    | (plain) "control_code ch = None" "ch \<noteq> [CHR 0x22]" "ch \<noteq> [CHR 0x5C]" "render_char ch = ch"
proof (cases "\<exists>e. (ch, e) \<in> set escapes")
  case True
  then obtain e where e: "(ch, e) \<in> set escapes" by blast
  then have "render_char ch = CHR 0x5C # e" unfolding escapes_def by (auto simp: render_char_def)
  with e show ?thesis by (rule escape)
next
  case False
  then have no: "ch \<noteq> [CHR 0x22]" "ch \<noteq> [CHR 0x5C]" "ch \<noteq> [CHR 0x0A]" "ch \<noteq> [CHR 0x0D]" "ch \<noteq> [CHR 0x09]"
      "ch \<noteq> [CHR 0x08]" "ch \<noteq> [CHR 0x0C]"
    unfolding escapes_def by auto
  show ?thesis
  proof (cases "control_code ch")
    case None
    with no show ?thesis by (intro plain) (simp_all add: render_char_def)
  next
    case (Some v)
    with no show ?thesis by (intro control) (simp_all add: render_char_def)
  qed
qed

lemma render_char_str:
  assumes "is_char ch"
  shows "is_str (render_char ch)"
  using assms
proof (cases rule: render_char_cases)
  case (escape e)
  then have "\<forall>c\<in>set (render_char ch). code c < 128" by (auto simp: escapes_def code_def)
  then show ?thesis using all_ascii_chars by blast
qed (simp_all add: push_unicode_escape_chars is_str_char assms)

lemma parse_render_char:
  assumes "is_char ch"
  shows "parse_string_loop acc (chars (render_char ch) @ cs) = parse_string_loop (acc @ ch) cs"
  using assms
proof (cases rule: render_char_cases)
  case (escape e)
  then have "\<forall>c\<in>set (render_char ch). code c < 128" by (auto simp: escapes_def code_def)
  with escape show ?thesis using all_ascii_chars [of "render_char ch"] by (auto simp: escapes_def parse_escape_def)
next
  case (control v)
  from control_code_decode [OF assms control(1)] have v: "v < 256" "encode_utf8 v = ch" by auto
  have "parse_escape (''u'' # map (\<lambda>k. [hex_char (v div 2 ^ k mod 16)]) [12, 8, 4, 0] @ cs) = Inr (ch, cs)"
    using v parse_hex_escape [OF v(1), of cs] by (simp add: parse_escape_def parse_unicode_escape_def)
  with control show ?thesis by (simp add: push_unicode_escape_chars)
next
  case plain
  with assms show ?thesis using chars_char [of ch "[]"] by simp
qed

lemma is_str_render_chars: "list_all is_char chs \<Longrightarrow> is_str (concat (map render_char chs))"
  by (induction chs) (simp_all add: is_str_append render_char_str)

lemma parse_render_chars:
  "list_all is_char chs \<Longrightarrow>
    parse_string_loop acc (chars (concat (map render_char chs)) @ cs) = parse_string_loop (acc @ concat chs) cs"
proof (induction chs arbitrary: acc)
  case (Cons ch chs)
  then show ?case by (simp add: chars_append render_char_str parse_render_char)
qed simp

lemma is_str_render_string: "is_str s \<Longrightarrow> is_str (render_string s)"
  by (auto simp: render_string_def code_def is_str_def [of s] intro!: is_str_ascii is_str_append is_str_render_chars)

lemma chars_render_string:
  "is_str s \<Longrightarrow> chars (render_string s) = [CHR 0x22] # chars (concat (map render_char (chars s))) @ [[CHR 0x22]]"
  using is_str_render_chars [of "chars s"]
  by (simp add: render_string_def chars_ascii chars_append code_def is_str_def [of s])

lemma parse_render_string:
  "is_str s \<Longrightarrow> parse_string (chars (render_string s) @ cs) = Inr (s, cs)"
  using parse_render_chars [of "chars s" "[]" "[CHR 0x22] # cs"]
  by (simp add: chars_render_string parse_string_def expect_def concat_chars is_str_def)

section \<open>Values\<close>

text \<open>
  What every \<open>JsonValue\<close> is: its strings are UTF-8, its numbers are \<open>i64\<close>, and the keys of a
  \<open>BTreeMap\<close> are in order and distinct.
\<close>

fun json_wf :: "json_value \<Rightarrow> bool" where
  "json_wf Null \<longleftrightarrow> True"
| "json_wf (Bool b) \<longleftrightarrow> True"
| "json_wf (Number i) \<longleftrightarrow> i64 i"
| "json_wf (String s) \<longleftrightarrow> is_str s"
| "json_wf (Array vs) \<longleftrightarrow> (\<forall>v\<in>set vs. json_wf v)"
| "json_wf (Object es) \<longleftrightarrow> sorted_wrt (<) (map fst es) \<and> (\<forall>e\<in>set es. is_str (fst e) \<and> json_wf (snd e))"

definition render_entry :: "string \<times> json_value \<Rightarrow> string" where
  "render_entry e = render_string (fst e) @ '':'' @ render (snd e)"

lemma render_Object: "render (Object es) = ''{'' @ str_join '','' (map render_entry es) @ ''}''"
  by (simp add: render_entry_def [abs_def])

lemma is_str_join: "is_str sep \<Longrightarrow> (\<And>s. s \<in> set ss \<Longrightarrow> is_str s) \<Longrightarrow> is_str (str_join sep ss)"
  by (induction sep ss rule: str_join.induct) (simp_all add: is_str_append)

lemma is_str_render: "json_wf v \<Longrightarrow> is_str (render v)"
proof (induction v)
  case (Array vs)
  then show ?case by (auto simp: code_def intro!: is_str_ascii is_str_append is_str_join)
next
  case (Object es)
  have "is_str (render_entry e)" if "e \<in> set es" for e
  proof -
    obtain k x where e: "e = (k, x)" by fastforce
    with that Object.prems have "is_str k" "json_wf x" by auto
    moreover have "is_str (render x)" using Object.IH [OF that, of x] e \<open>json_wf x\<close> by simp
    ultimately show ?thesis using e by (simp add: render_entry_def code_def is_str_append is_str_ascii is_str_render_string)
  qed
  then show ?case unfolding render_Object by (auto simp: code_def intro!: is_str_ascii is_str_append is_str_join)
qed (use int_to_string_ascii all_ascii_chars in \<open>auto simp: is_str_render_string code_def intro!: is_str_ascii\<close>)

text \<open>The first character of a value tells \<open>parse_value\<close> what follows; it is not a blank and closes nothing.\<close>

definition opens :: "string list \<Rightarrow> bool" where
  "opens cs \<longleftrightarrow> cs \<noteq> [] \<and> hd cs \<notin> {'' '', [CHR 0x0A], [CHR 0x0D], [CHR 0x09], '']'', ''}''}"

lemma opens_skip: "opens cs \<Longrightarrow> skip_whitespace (cs @ xs) = cs @ xs"
  by (cases cs) (auto simp: opens_def skip_whitespace_def)

lemma opens_try_consume: "opens cs \<Longrightarrow> c \<in> {CHR '']'', CHR ''}''} \<Longrightarrow> try_consume c (cs @ xs) = None"
  by (cases cs) (auto simp: opens_def try_consume_def)

lemma opens_render_string: "is_str s \<Longrightarrow> opens (chars (render_string s))"
  by (simp add: chars_render_string opens_def)

lemma opens_int_to_string: "opens (chars (int_to_string i))"
proof -
  obtain c cs where c: "int_to_string i = c # cs" "c = CHR ''-'' \<or> 48 \<le> code c \<and> code c \<le> 57"
  proof (cases "i < 0")
    case False
    obtain c ds where c: "to_decimal (nat i) = c # ds"
      using to_decimal_not_Nil [of "nat i"] by (auto simp: neq_Nil_conv simp del: to_decimal_not_Nil)
    then have "48 \<le> code c \<and> code c \<le> 57" using to_decimal_digits [of c "nat i"] by simp
    with c False show ?thesis by (intro that [of c ds]) (simp_all add: int_to_string_def)
  qed (simp add: int_to_string_def that)
  then show ?thesis
    using int_to_string_ascii [of i] all_ascii_chars [of "int_to_string i"] by (auto simp: opens_def code_def)
qed

lemma chars_literal: "\<forall>c\<in>set s. code c < 128 \<Longrightarrow> chars s = map (\<lambda>c. [c]) s"
  using all_ascii_chars by blast

lemma chars_bracket:
  "code a < 128 \<Longrightarrow> code b < 128 \<Longrightarrow> is_str s \<Longrightarrow> chars ([a] @ s @ [b]) = [a] # chars s @ [[b]]"
  by (simp add: chars_ascii chars_append)

lemma opens_render: "json_wf v \<Longrightarrow> opens (chars (render v))"
proof (cases v)
  case (Array vs)
  then show ?thesis by (simp add: opens_def chars_ascii code_def)
next
  case (Object es)
  then show ?thesis by (simp add: opens_def chars_ascii code_def)
next
  case (Bool b)
  then show ?thesis by (simp add: opens_def chars_literal code_def)
qed (simp_all add: opens_render_string opens_int_to_string, simp add: opens_def chars_literal code_def)

text \<open>A number ends where its digits end, so what follows it matters.\<close>

definition stops :: "string list \<Rightarrow> bool" where
  "stops cs \<longleftrightarrow> cs = [] \<or> \<not> is_digit_char (hd cs)"

lemma stops_Cons [simp]: "stops (ch # cs) \<longleftrightarrow> \<not> is_digit_char ch"
  by (simp add: stops_def)

text \<open>\<open>parses_back v\<close>: with enough fuel, \<open>parse_value\<close> reads \<open>v\<close> from its text and stops after it.\<close>

definition parses_back :: "json_value \<Rightarrow> bool" where
  "parses_back v \<longleftrightarrow> (\<forall>fuel cs. stops cs \<longrightarrow> 2 * (length (chars (render v)) + length cs) + 1 \<le> fuel \<longrightarrow>
     parse_value fuel (chars (render v) @ cs) = Some (Inr (v, cs)))"

lemma parses_backD:
  "parses_back v \<Longrightarrow> stops cs \<Longrightarrow> 2 * (length (chars (render v)) + length cs) + 1 \<le> fuel \<Longrightarrow>
    parse_value fuel (chars (render v) @ cs) = Some (Inr (v, cs))"
  unfolding parses_back_def by blast

lemma parses_backI:
  assumes "\<And>fuel cs. parse_value (Suc fuel) (chars (render v) @ cs) = Some (Inr (v, cs))"
  shows "parses_back v"
  unfolding parses_back_def
proof (intro allI impI)
  fix fuel and cs :: "string list"
  assume "2 * (length (chars (render v)) + length cs) + 1 \<le> fuel"
  then obtain f where "fuel = Suc f" by (cases fuel) auto
  with assms show "parse_value fuel (chars (render v) @ cs) = Some (Inr (v, cs))" by blast
qed

lemma is_str_comma [simp]: "is_str '',''"
  by (simp add: is_str_ascii code_def)

lemma chars_join_Cons:
  assumes "is_str s" "is_str (str_join '','' ss)" "ss \<noteq> []"
  shows "chars (str_join '','' (s # ss)) = chars s @ '','' # chars (str_join '','' ss)"
  using assms by (cases ss) (simp_all add: chars_append chars_ascii code_def)

lemma skip_bracket [simp]:
  "skip_whitespace ('']'' # cs) = '']'' # cs" "skip_whitespace (''}'' # cs) = ''}'' # cs"
  "skip_whitespace ('','' # cs) = '','' # cs" "skip_whitespace ('':'' # cs) = '':'' # cs"
  by (simp_all add: skip_whitespace_def)

lemma consume_bracket [simp]:
  "try_consume (CHR '']'') ('']'' # cs) = Some cs" "try_consume (CHR ''}'') (''}'' # cs) = Some cs"
  "try_consume (CHR '']'') ('','' # cs) = None" "try_consume (CHR ''}'') ('','' # cs) = None"
  by (simp_all add: try_consume_def)

lemma expect_same [simp]: "expect c ([c] # cs) = Inr ((), cs)"
  by (simp add: expect_def)

lemma and_value_Inr [simp]: "and_value (Some (Inr (x, cs))) k = k x cs"
  by (simp add: and_value_def)

lemma digit_punctuation [simp]:
  "\<not> is_digit_char '']''" "\<not> is_digit_char ''}''" "\<not> is_digit_char '',''"
  by (simp_all add: is_digit_char_def code_def)

lemma parse_array_back:
  assumes "\<forall>v\<in>set vs. json_wf v \<and> parses_back v"
    and "2 * (length (chars (str_join '','' (map render vs))) + length cs) + 4 \<le> fuel"
  shows "parse_array fuel acc (chars (str_join '','' (map render vs)) @ '']'' # cs) = Some (Inr (Array (acc @ vs), cs))"
  using assms
proof (induction vs arbitrary: acc fuel)
  case Nil
  then obtain f where "fuel = Suc f" by (cases fuel) auto
  then show ?case by simp
next
  case (Cons v vs)
  from Cons.prems obtain f where f: "fuel = Suc f" by (cases fuel) auto
  have v: "json_wf v" "parses_back v" and vs: "\<forall>v\<in>set vs. json_wf v \<and> parses_back v" using Cons.prems(1) by auto
  note open_v = opens_skip [OF opens_render [OF v(1)]] opens_try_consume [OF opens_render [OF v(1)]]
  show ?case
  proof (cases vs)
    case Nil
    with v(2) Cons.prems f have "parse_value f (chars (render v) @ '']'' # cs) = Some (Inr (v, '']'' # cs))"
      by (auto simp: parses_back_def)
    with Nil f show ?thesis by (simp add: open_v)
  next
    case (Cons v' vs')
    have "is_str (str_join '','' (map render vs))" using vs is_str_render by (auto intro!: is_str_join)
    then have split: "chars (str_join '','' (map render (v # vs))) = chars (render v) @ '','' # chars (str_join '','' (map render vs))"
      using chars_join_Cons [OF is_str_render [OF v(1)], of "map render vs"] Cons by simp
    have "parse_value f (chars (render v) @ '','' # chars (str_join '','' (map render vs)) @ '']'' # cs) =
        Some (Inr (v, '','' # chars (str_join '','' (map render vs)) @ '']'' # cs))"
      using v(2) Cons.prems(2) f split by (auto simp: parses_back_def)
    moreover have "parse_array f (acc @ [v]) (chars (str_join '','' (map render vs)) @ '']'' # cs) =
        Some (Inr (Array ((acc @ [v]) @ vs), cs))"
      using Cons.prems(2) f split by (intro Cons.IH vs) simp
    ultimately show ?thesis using f split by (simp add: open_v)
  qed
qed

text \<open>A key greater than all is inserted at the end.\<close>

lemma btree_insert_last: "(\<And>e. e \<in> set es \<Longrightarrow> fst e < k) \<Longrightarrow> btree_insert k v es = es @ [(k, v)]"
proof (induction es)
  case (Cons e es)
  obtain k' v' where e: "e = (k', v')" by fastforce
  with Cons.prems [of e] have "k' < k" by simp
  then have "\<not> k < k'" "k \<noteq> k'" by auto
  with Cons e show ?case by simp
qed simp

lemma render_entry_opens: "is_str (fst e) \<Longrightarrow> opens (chars (render_entry e))"
  by (simp add: render_entry_def chars_append is_str_render_string)
    (metis opens_render_string opens_def hd_append2 append_is_Nil_conv)

lemma is_str_render_entry: "is_str (fst e) \<Longrightarrow> json_wf (snd e) \<Longrightarrow> is_str (render_entry e)"
  by (simp add: render_entry_def is_str_append is_str_render_string is_str_render is_str_ascii code_def)

lemma is_str_join_entries:
  "\<forall>e\<in>set es. is_str (fst e) \<and> json_wf (snd e) \<and> P e \<Longrightarrow> is_str (str_join '','' (map render_entry es))"
  by (rule is_str_join) (auto intro: is_str_render_entry)

lemma parse_entry:
  assumes "is_str k" "json_wf v" "parses_back v" "stops cs" "2 * (length (chars (render_entry (k, v))) + length cs) + 1 \<le> fuel"
  shows "\<exists>cs1. parse_string (chars (render_entry (k, v)) @ cs) = Inr (k, cs1) \<and>
    (\<exists>cs2. expect (CHR '':'') (skip_whitespace cs1) = Inr ((), cs2) \<and> parse_value fuel cs2 = Some (Inr (v, cs)))"
proof -
  have cs: "chars (render_entry (k, v)) = chars (render_string k) @ '':'' # chars (render v)"
    using assms by (simp add: render_entry_def chars_append is_str_render_string chars_ascii code_def)
  have "parse_value fuel (chars (render v) @ cs) = Some (Inr (v, cs))"
    using assms(3-5) cs by (simp add: parses_back_def)
  with assms(1) cs show ?thesis by (simp add: parse_render_string)
qed

lemma parse_object_back:
  assumes "\<forall>e\<in>set es. is_str (fst e) \<and> json_wf (snd e) \<and> parses_back (snd e)"
    and "sorted_wrt (<) (map fst (acc @ es))"
    and "2 * (length (chars (str_join '','' (map render_entry es))) + length cs) + 4 \<le> fuel"
  shows "parse_object fuel acc (chars (str_join '','' (map render_entry es)) @ ''}'' # cs) = Some (Inr (Object (acc @ es), cs))"
  using assms
proof (induction es arbitrary: acc fuel)
  case Nil
  then obtain f where "fuel = Suc f" by (cases fuel) auto
  then show ?case by simp
next
  case (Cons e es)
  from Cons.prems obtain f where f: "fuel = Suc f" by (cases fuel) auto
  obtain k v where e: "e = (k, v)" by fastforce
  have v: "is_str k" "json_wf v" "parses_back v" using Cons.prems(1) e by auto
  have es: "\<forall>e\<in>set es. is_str (fst e) \<and> json_wf (snd e) \<and> parses_back (snd e)" using Cons.prems(1) by auto
  have ins: "btree_insert k v acc = acc @ [(k, v)]"
    using Cons.prems(2) e by (intro btree_insert_last) (auto simp: sorted_wrt_append)
  have str: "is_str (render_entry (k, v))" using v by (simp add: is_str_render_entry)
  note open_e = opens_skip [OF render_entry_opens [of "(k, v)"]] opens_try_consume [OF render_entry_opens [of "(k, v)"]]
  show ?case
  proof (cases es)
    case Nil
    obtain cs1 cs2 where "parse_string (chars (render_entry (k, v)) @ ''}'' # cs) = Inr (k, cs1)"
        "expect (CHR '':'') (skip_whitespace cs1) = Inr ((), cs2)" "parse_value f cs2 = Some (Inr (v, ''}'' # cs))"
      using parse_entry [OF v, of "''}'' # cs" f] Nil Cons.prems(3) e f by auto
    with Nil f e v ins show ?thesis by (simp add: open_e)
  next
    case (Cons e' es')
    have "is_str (str_join '','' (map render_entry es))" using es by (rule is_str_join_entries)
    then have split: "chars (str_join '','' (map render_entry (e # es))) =
        chars (render_entry (k, v)) @ '','' # chars (str_join '','' (map render_entry es))"
      using chars_join_Cons [OF str, of "map render_entry es"] Cons e by simp
    let ?more = "chars (str_join '','' (map render_entry es)) @ ''}'' # cs"
    obtain cs1 cs2 where "parse_string (chars (render_entry (k, v)) @ '','' # ?more) = Inr (k, cs1)"
        "expect (CHR '':'') (skip_whitespace cs1) = Inr ((), cs2)" "parse_value f cs2 = Some (Inr (v, '','' # ?more))"
      using parse_entry [OF v, of "'','' # ?more" f] split Cons.prems(3) f by auto
    moreover have "parse_object f (acc @ [(k, v)]) ?more = Some (Inr (Object ((acc @ [(k, v)]) @ es), cs))"
      using Cons.prems(2,3) f split e by (intro Cons.IH es) simp_all
    ultimately show ?thesis using f split v ins e by (simp add: open_e)
  qed
qed

lemma parse_value_bracket:
  "parse_value (Suc fuel) (''['' # cs) = parse_array fuel [] cs"
  "parse_value (Suc fuel) (''{'' # cs) = parse_object fuel [] cs"
  "parse_value (Suc fuel) ([CHR 0x22] # cs) = Some (map_sum id (map_prod String id) (parse_string ([CHR 0x22] # cs)))"
  by (simp_all add: skip_whitespace_def)

lemma parse_value_number:
  assumes "ch = ''-'' \<or> is_digit_char ch"
  shows "parse_value (Suc fuel) (ch # cs) = Some (map_sum id (map_prod Number id) (parse_number (ch # cs)))"
proof -
  have "ch \<notin> {'' '', [CHR 0x0A], [CHR 0x0D], [CHR 0x09], ''n'', ''t'', ''f'', [CHR 0x22], ''['', ''{''}"
    using assms by (auto simp: is_digit_char_def code_def)
  with assms show ?thesis by (simp add: skip_whitespace_def)
qed

lemma int_to_string_head: "\<exists>ch cs. chars (int_to_string i) = ch # cs \<and> (ch = ''-'' \<or> is_digit_char ch)"
proof -
  have "chars (int_to_string i) = map (\<lambda>c. [c]) (int_to_string i)" using int_to_string_ascii by (rule chars_literal)
  moreover have "\<exists>c cs. int_to_string i = c # cs \<and> ([c] = ''-'' \<or> is_digit_char [c])"
    using to_decimal_not_Nil [of "nat i"] to_decimal_digits [of _ "nat i"]
    by (cases "to_decimal (nat i)") (auto simp: int_to_string_def is_digit_char_def simp del: to_decimal_not_Nil)
  ultimately show ?thesis by auto
qed

lemma render_parses_back: "json_wf v \<Longrightarrow> parses_back v"
proof (induction v)
  case (Number i)
  obtain ch cs where i: "chars (int_to_string i) = ch # cs" "ch = ''-'' \<or> is_digit_char ch" using int_to_string_head by blast
  show ?case unfolding parses_back_def
  proof (intro allI impI)
    fix fuel and cs' :: "string list" assume "stops cs'" "2 * (length (chars (render (Number i))) + length cs') + 1 \<le> fuel"
    moreover from this obtain f where "fuel = Suc f" by (cases fuel) auto
    ultimately show "parse_value fuel (chars (render (Number i)) @ cs') = Some (Inr (Number i, cs'))"
      using parse_number_to_string [of i cs'] parse_value_number [OF i(2), of f "cs @ cs'"] i(1) Number
      by (simp add: stops_def del: parse_value.simps)
  qed
next
  case (String s)
  then show ?case
    using parse_render_string [of s]
    by (intro parses_backI) (simp add: chars_render_string parse_value_bracket del: parse_value.simps)
next
  case (Array vs)
  then have vs: "\<forall>v\<in>set vs. json_wf v \<and> parses_back v" by simp
  then have "is_str (str_join '','' (map render vs))" using is_str_render by (auto intro!: is_str_join)
  then have cs: "chars (render (Array vs)) = ''['' # chars (str_join '','' (map render vs)) @ ['']'']"
    using chars_bracket [of "CHR ''[''" "CHR '']''" "str_join '','' (map render vs)"] by (simp add: code_def)
  show ?case unfolding parses_back_def
  proof (intro allI impI)
    fix fuel and cs' :: "string list" assume fuel: "2 * (length (chars (render (Array vs))) + length cs') + 1 \<le> fuel"
    then obtain f where f: "fuel = Suc f" by (cases fuel) auto
    with fuel cs have "parse_array f [] (chars (str_join '','' (map render vs)) @ '']'' # cs') = Some (Inr (Array ([] @ vs), cs'))"
      by (intro parse_array_back vs) simp
    with f cs show "parse_value fuel (chars (render (Array vs)) @ cs') = Some (Inr (Array vs, cs'))"
      by (simp add: parse_value_bracket del: parse_value.simps render.simps)
  qed
next
  case (Object es)
  have es: "\<forall>e\<in>set es. is_str (fst e) \<and> json_wf (snd e) \<and> parses_back (snd e)"
    using Object by (auto simp: prod_set_defs)
  then have cs: "chars (render (Object es)) = ''{'' # chars (str_join '','' (map render_entry es)) @ [''}'']"
    using chars_bracket [of "CHR ''{''" "CHR ''}''" "str_join '','' (map render_entry es)"] is_str_join_entries [OF es]
    unfolding render_Object by (simp add: code_def)
  show ?case unfolding parses_back_def
  proof (intro allI impI)
    fix fuel and cs' :: "string list" assume fuel: "2 * (length (chars (render (Object es))) + length cs') + 1 \<le> fuel"
    then obtain f where f: "fuel = Suc f" by (cases fuel) auto
    with fuel cs have "parse_object f [] (chars (str_join '','' (map render_entry es)) @ ''}'' # cs') = Some (Inr (Object ([] @ es), cs'))"
      using Object.prems by (intro parse_object_back es) simp_all
    with f cs show "parse_value fuel (chars (render (Object es)) @ cs') = Some (Inr (Object es, cs'))"
      by (simp add: parse_value_bracket del: parse_value.simps render.simps)
  qed
next
  case Null
  show ?case by (rule parses_backI) (simp add: chars_literal code_def skip_whitespace_def)
next
  case (Bool b)
  show ?case by (rule parses_backI) (simp add: chars_literal code_def skip_whitespace_def)
qed

lemma parse_render:
  assumes "json_wf v"
  shows "parse (render v) = Some (Inr v)"
proof -
  have "parse_value (2 * length (chars (render v)) + 1) (chars (render v) @ []) = Some (Inr (v, []))"
    by (rule parses_backD [OF render_parses_back [OF assms]]) (simp_all add: stops_def)
  then show ?thesis by (simp add: parse_def skip_whitespace_def Let_def del: parse_value.simps)
qed

section \<open>The text is one line\<close>

text \<open>No control character reaches the text, so a line of a JSONL file holds exactly one value.\<close>

lemma utf8_head_high:
  assumes "utf8_head bs = n" "n \<noteq> 1" "b \<in> set (take n bs)"
  shows "128 \<le> b"
proof (cases bs)
  case (Cons b0 r)
  define w where "w = utf8_width b0"
  from assms(2,3) have "2 \<le> n" by (cases n; cases "n - 1") auto
  then have n: "n = w" "2 \<le> w" "w \<le> length bs" and sec: "utf8_second b0 (r ! 0)" and rest: "list_all utf8_cont (take (w - 2) (drop 1 r))"
    using assms Cons by (auto simp: utf8_head_def w_def [symmetric] Let_def split: if_splits)
  obtain b1 r' where r: "r = b1 # r'" using n Cons by (cases r) auto
  have "take n bs = b0 # b1 # take (w - 2) r'" using n Cons r by (simp add: numeral_2_eq_2 take_Cons' )
  moreover have "128 \<le> b0" using n(2) unfolding w_def utf8_width_def by (auto split: if_splits)
  moreover have "128 \<le> b1" using sec r by (auto simp: utf8_second_def utf8_cont_def split: if_splits)
  ultimately show ?thesis using assms(3) rest r by (auto simp: list_all_iff utf8_cont_def)
qed (use assms in simp)

lemma chars_high: "ch \<in> set (chars s) \<Longrightarrow> length ch \<noteq> 1 \<Longrightarrow> c \<in> set ch \<Longrightarrow> 128 \<le> code c"
proof (induction s rule: chars.induct)
  case (2 b bs)
  let ?n = "utf8_head (map code (b # bs))"
  show ?case
  proof (cases "ch = take (max 1 ?n) (b # bs)")
    case True
    with 2(3) have n: "\<not> ?n \<le> 1" by auto
    then have "max 1 ?n = ?n" "?n \<noteq> 1" by simp_all
    with True 2 have "code c \<in> set (take ?n (map code (b # bs)))" by (auto simp: take_map simp del: list.map)
    with \<open>?n \<noteq> 1\<close> show ?thesis by (rule utf8_head_high [OF refl])
  next
    case False
    with 2 show ?thesis by (auto simp: chars.simps(2) Let_def)
  qed
qed simp

lemma push_unicode_escape_printable: "c \<in> set (push_unicode_escape v) \<Longrightarrow> 32 \<le> code c"
proof -
  have "\<forall>n\<in>set [0..<16]. 32 \<le> code (hex_char n)" by code_simp
  then have hex: "32 \<le> code (hex_char (n mod 16))" for n by simp
  have "32 \<le> code (CHR 0x5C)" "32 \<le> code (CHR ''u'')" by (simp_all add: code_def)
  then show "c \<in> set (push_unicode_escape v) \<Longrightarrow> 32 \<le> code c"
    using hex [of "v div 2 ^ 12"] hex [of "v div 2 ^ 8"] hex [of "v div 2 ^ 4"] hex [of "v div 2 ^ 0"]
    by (auto simp only: push_unicode_escape_def list.map set_append list.set)
qed

lemma render_char_printable:
  assumes "ch \<in> set (chars s)" "c \<in> set (render_char ch)"
  shows "32 \<le> code c"
proof (cases "control_code ch")
  case None
  have "32 \<le> code c" if "c \<in> set ch"
  proof (cases "length ch = 1")
    case True
    with that have "ch = [c]" by (cases ch) auto
    with None show ?thesis by (simp add: control_code_def split: if_splits)
  next
    case False
    then show ?thesis using chars_high [OF assms(1) False that] by simp
  qed
  with None assms(2) show ?thesis by (auto simp: render_char_def code_def split: if_splits)
next
  case (Some v)
  with assms(2) show ?thesis
    by (auto simp: render_char_def push_unicode_escape_printable code_def [of "char.Char _ _ _ _ _ _ _ _"] split: if_splits)
qed

lemma str_join_set: "set (str_join sep ss) \<subseteq> set sep \<union> \<Union> (set (map set ss))"
  by (induction sep ss rule: str_join.induct) auto

lemma render_string_printable: "c \<in> set (render_string s) \<Longrightarrow> 32 \<le> code c"
  by (auto simp: render_string_def code_def [of "CHR 0x22"] dest: render_char_printable)

lemma render_printable: "c \<in> set (render v) \<Longrightarrow> 32 \<le> code c"
proof (induction v)
  case (Number i)
  then show ?case by (auto simp: int_to_string_def code_def [of "CHR ''-''"] dest!: to_decimal_digits split: if_splits)
next
  case (Array vs)
  then show ?case using str_join_set [of "'',''" "map render vs"] by (auto simp: code_def)
next
  case (Object es)
  have "32 \<le> code c" if "e \<in> set es" "c \<in> set (render_entry e)" for e
    using that Object.IH [OF that(1), of "snd e"]
    by (auto simp: render_entry_def code_def [of "CHR '':''"] render_string_printable prod_set_defs)
  then show ?case using Object.prems str_join_set [of "'',''" "map render_entry es"] unfolding render_Object
    by (auto simp: code_def)
next
  case (String s)
  then show ?case by (simp add: render_string_printable)
qed (auto simp: code_def split: if_splits)

lemma render_one_line: "CHR 0x0A \<notin> set (render v)"
  using render_printable [of "CHR 0x0A" v] by (auto simp: code_def)

end
