(* ===== verification/Rust_Words.thy ===== *)
theory Rust_Words
  imports Agent_Json_Roundtrip
begin

text \<open>
  Lemmas on the words of a command line: where \<open>split_whitespace\<close> finds a word, what is left of
  a string after the first occurrence of one, and that trimming changes no word. They let the
  properties of the command validation speak about words and not about the helper functions of
  the code.
\<close>

lemma starts_with_append: "starts_with p (p @ t)"
  by (simp add: starts_with_def)

lemma starts_withE:
  assumes "starts_with p s"
  obtains t where "s = p @ t"
  using that [of "drop (length p) s"] assms append_take_drop_id [of "length p" s] by (simp add: starts_with_def)

lemma str_find_occurs:
  assumes "str_find p s = Some i"
  shows "\<exists>t. drop i s = p @ t"
  using assms
proof (induction p s arbitrary: i rule: str_find.induct)
  case (2 p x xs)
  show ?case
  proof (cases "starts_with p (x # xs)")
    case True
    then obtain t where "x # xs = p @ t" by (rule starts_withE)
    moreover have "i = 0" using True "2.prems" by simp
    ultimately show ?thesis by auto
  next
    case False
    with "2.prems" obtain j where "str_find p xs = Some j" "i = Suc j" by auto
    with "2.IH" [OF False] show ?thesis by auto
  qed
qed (auto split: if_splits)

lemma str_find_here: "str_find p (p @ b) = Some 0"
proof (cases "p @ b")
  case (Cons x xs)
  then show ?thesis using starts_with_append [of p b] by simp
qed simp

lemma str_find_at: "\<exists>i. str_find p (a @ p @ b) = Some i"
  by (induction a) (auto simp: str_find_here)

text \<open>A pattern does not reach over bytes it does not contain.\<close>

lemma str_find_skip_byte:
  assumes "p \<noteq> []" "x \<notin> set p"
  shows "str_find p (x # v) = map_option Suc (str_find p v)"
proof -
  from assms obtain y ys where "p = y # ys" "y \<noteq> x" by (cases p) auto
  then show ?thesis by (simp add: starts_with_def)
qed

lemma str_find_skip:
  assumes "p \<noteq> []" "set u \<inter> set p = {}"
  shows "str_find p (u @ v) = map_option ((+) (length u)) (str_find p v)"
  using assms(2)
proof (induction u)
  case Nil
  then show ?case by (cases "str_find p v") simp_all
next
  case (Cons x u)
  then show ?case using str_find_skip_byte [OF assms(1), of x "u @ v"] by (simp add: option.map_comp comp_def)
qed

lemma starts_with_separated:
  assumes "starts_with p (u @ x # v)" "x \<notin> set p"
  shows "starts_with p u"
proof -
  from assms(1) obtain t where t: "u @ x # v = p @ t" by (rule starts_withE)
  have "length p \<le> length u"
  proof (rule ccontr)
    assume "\<not> length p \<le> length u"
    then have "(p @ t) ! length u \<in> set p" by (simp add: nth_append)
    with t have "x \<in> set p" by (metis nth_append_length)
    with assms(2) show False by simp
  qed
  with t have "take (length p) u = p" by (metis append_eq_append_conv_if append_take_drop_id)
  then show ?thesis by (simp add: starts_with_def)
qed

lemma str_find_separated:
  assumes "p \<noteq> []" "x \<notin> set p" "str_find p u = None"
  shows "str_find p (u @ x # v) = map_option ((+) (length u)) (str_find p (x # v))"
  using assms(3)
proof (induction u)
  case Nil
  then show ?case by (cases "str_find p (x # v)") simp_all
next
  case (Cons y u)
  then have "\<not> starts_with p (y # u)" "str_find p u = None" by (auto split: if_splits)
  moreover from this(1) have "\<not> starts_with p (y # u @ x # v)"
    using starts_with_separated [of p "y # u" x v] assms(2) by auto
  ultimately show ?case using Cons.IH by (cases "str_find p (x # v)") simp_all
qed

section \<open>Whitespace\<close>

lemma whitespace_bytes:
  assumes "is_whitespace ch" "c \<in> set ch"
  shows "code c \<le> 32 \<or> 128 \<le> code c"
proof -
  have "list_all (\<lambda>p. list_all (\<lambda>c. code c \<le> 32 \<or> 128 \<le> code c) (encode_utf8 p))
    ([9, 10, 11, 12, 13, 32, 133, 160, 5760] @ [8192..<8203] @ [8232, 8233, 8239, 8287, 12288])" by code_simp
  with assms show ?thesis by (auto simp: is_whitespace_def list_all_iff simp del: upt.simps)
qed

lemma whitespace_not_empty: "\<not> is_whitespace []"
proof -
  have "list_all (\<lambda>p. encode_utf8 p \<noteq> [])
    ([9, 10, 11, 12, 13, 32, 133, 160, 5760] @ [8192..<8203] @ [8232, 8233, 8239, 8287, 12288])" by code_simp
  then show ?thesis by (auto simp: is_whitespace_def list_all_iff simp del: upt.simps)
qed

abbreviation visible :: "string \<Rightarrow> bool" where
  "visible ch \<equiv> \<not> is_whitespace ch"

text \<open>A word of plain letters: neither whitespace nor part of a longer character.\<close>

definition ascii_word :: "string \<Rightarrow> bool" where
  "ascii_word w \<longleftrightarrow> w \<noteq> [] \<and> list_all (\<lambda>c. 32 < code c \<and> code c < 128) w"

lemma whitespace_not_in_word:
  assumes "ascii_word w" "list_all is_whitespace sp"
  shows "set (concat sp) \<inter> set w = {}"
proof -
  have False if "c \<in> set (concat sp)" "c \<in> set w" for c
  proof -
    from that(1) obtain ch where "ch \<in> set sp" "c \<in> set ch" by auto
    with assms that(2) whitespace_bytes [of ch c] show False by (auto simp: ascii_word_def list_all_iff)
  qed
  then show ?thesis by blast
qed

section \<open>Words\<close>

lemma split_ws_cur:
  "cur \<noteq> [] \<Longrightarrow> split_ws cur chs = (cur @ concat (takeWhile visible chs)) # split_ws [] (dropWhile visible chs)"
  by (induction chs arbitrary: cur) auto

lemma split_ws_word:
  assumes "list_all visible cs" "concat cs \<noteq> []" "list_all (\<lambda>ch. ch \<noteq> []) cs"
  shows "split_ws [] (cs @ r) = (concat cs @ concat (takeWhile visible r)) # split_ws [] (dropWhile visible r)"
proof (cases cs)
  case (Cons c cs')
  with assms have "split_ws [] (cs @ r) = split_ws c (cs' @ r)" "c \<noteq> []" "list_all visible cs'" by simp_all
  with split_ws_cur [of c "cs' @ r"] Cons show ?thesis
    by (simp add: takeWhile_append2 dropWhile_append2 list_all_iff)
qed (use assms in simp)

lemma split_ws_skip: "list_all is_whitespace sp \<Longrightarrow> split_ws [] (sp @ r) = split_ws [] r"
  by (induction sp) auto

lemma split_ws_trailing: "list_all is_whitespace e \<Longrightarrow> split_ws cur (r @ e) = split_ws cur r"
proof (induction r arbitrary: cur)
  case Nil
  then show ?case by (cases e) (use split_ws_skip [of "tl e" "[]"] in auto)
qed auto

text \<open>The first word, the whitespace in front of it and the rest.\<close>

lemma split_ws_ConsD:
  assumes "split_ws [] chs = w # ws" "list_all (\<lambda>ch. ch \<noteq> []) chs"
  obtains sp cs r where "chs = sp @ cs @ r" "list_all is_whitespace sp" "cs \<noteq> []" "list_all visible cs" "w = concat cs"
    "split_ws [] r = ws" "r = [] \<or> is_whitespace (hd r)"
proof -
  let ?sp = "takeWhile is_whitespace chs" and ?rest = "dropWhile is_whitespace chs"
  have sp: "list_all is_whitespace ?sp" by (auto simp: list_all_iff dest: set_takeWhileD)
  have rest: "split_ws [] ?rest = w # ws" using assms(1) split_ws_skip [OF sp, of ?rest] by simp
  then obtain c cs where c: "?rest = c # cs" by (cases ?rest) auto
  have "c \<in> set chs" using c set_dropWhileD [of c is_whitespace chs] by simp
  with assms(2) have cne: "c \<noteq> []" by (auto simp: list_all_iff)
  have vis: "visible c" using hd_dropWhile [of is_whitespace chs] c by simp
  have w: "w = concat (c # takeWhile visible cs)" "split_ws [] (dropWhile visible cs) = ws"
    using rest c vis split_ws_cur [OF cne, of cs] by simp_all
  have r: "dropWhile visible cs = [] \<or> is_whitespace (hd (dropWhile visible cs))" using hd_dropWhile [of visible cs] by auto
  have chs: "chs = ?sp @ (c # takeWhile visible cs) @ dropWhile visible cs"
    using takeWhile_dropWhile_id [of is_whitespace chs] c by simp
  have "list_all visible (c # takeWhile visible cs)" using vis by (auto simp: list_all_iff dest: set_takeWhileD)
  from that [OF chs sp _ this w r] show ?thesis by simp
qed

lemma is_char_not_empty: "list_all is_char chs \<Longrightarrow> list_all (\<lambda>ch. ch \<noteq> []) chs"
  by (auto simp: list_all_iff is_char_def)

lemma chars_concat_id: "list_all is_char chs \<Longrightarrow> chars (concat chs) = chs"
  using chars_concat [of chs "[]"] by simp

lemma concat_is_str: "list_all is_char chs \<Longrightarrow> is_str (concat chs)"
  by (simp add: is_str_def chars_concat_id)

text \<open>Every word is a piece of the string, made of visible characters.\<close>

lemma split_ws_words:
  assumes "split_ws [] chs = pre @ w # more" "list_all is_char chs"
  shows "\<exists>a cs r. chs = a @ cs @ r \<and> cs \<noteq> [] \<and> list_all visible cs \<and> w = concat cs"
  using assms
proof (induction pre arbitrary: chs)
  case Nil
  then show ?case using split_ws_ConsD [of chs w more] is_char_not_empty by (metis append_Nil)
next
  case (Cons v pre)
  then have "split_ws [] chs = v # (pre @ w # more)" by simp
  then obtain sp cs r where r: "chs = sp @ cs @ r" "split_ws [] r = pre @ w # more"
    using split_ws_ConsD is_char_not_empty [OF Cons.prems(2)] by metis
  with Cons.prems(2) Cons.IH [of r] obtain a cs' r' where "r = a @ cs' @ r'" "cs' \<noteq> []" "list_all visible cs'" "w = concat cs'"
    by auto
  with r(1) show ?case by (intro exI [of _ "sp @ cs @ a"] exI [of _ cs'] exI [of _ r']) simp
qed

lemma words_of:
  assumes "split_whitespace s = pre @ w # more" "is_str s"
  shows "is_str w \<and> w \<noteq> [] \<and> list_all visible (chars w) \<and> (\<exists>a b. s = a @ w @ b)"
proof -
  from split_ws_words [of "chars s" pre w more] assms obtain a cs r where
    s: "chars s = a @ cs @ r" "cs \<noteq> []" "list_all visible cs" "w = concat cs"
    by (auto simp: split_whitespace_def is_str_def)
  with assms(2) have cs: "list_all is_char cs" by (simp add: is_str_def)
  have "w \<noteq> []" using s(2,4) cs by (cases cs) (auto simp: is_char_def)
  moreover have "s = concat a @ w @ concat r" using s(1,4) concat_chars [of s] by (metis concat_append)
  ultimately show ?thesis using s cs chars_concat_id [OF cs] concat_is_str [OF cs] by auto
qed

text \<open>What starts with a visible text has a first word that starts with it.\<close>

lemma first_word_prefix:
  assumes "is_str p" "p \<noteq> []" "list_all visible (chars p)"
  shows "\<exists>q ws. split_whitespace (p @ t) = (p @ q) # ws"
proof -
  have "list_all (\<lambda>ch. ch \<noteq> []) (chars p)" using assms(1) is_char_not_empty by (simp add: is_str_def)
  moreover have "concat (chars p) = p" by (rule concat_chars)
  ultimately have "split_ws [] (chars p @ chars t) =
      (p @ concat (takeWhile visible (chars t))) # split_ws [] (dropWhile visible (chars t))"
    using split_ws_word [of "chars p" "chars t"] assms by metis
  then show ?thesis by (auto simp: split_whitespace_def chars_append [OF assms(1)])
qed

section \<open>The first occurrence of a word\<close>

lemma split_ws_occurrence:
  assumes "split_ws [] chs = pre @ p # more" "list_all is_char chs" "ascii_word p" "\<forall>w\<in>set pre. str_find p w = None"
  shows "\<exists>i r. str_find p (concat chs) = Some i \<and> drop i (concat chs) = p @ concat r \<and> list_all is_char r \<and>
    (r = [] \<or> is_whitespace (hd r))"
  using assms(1,2,4)
proof (induction pre arbitrary: chs)
  case Nil
  then have "split_ws [] chs = p # more" by simp
  then obtain sp cs r where r: "chs = sp @ cs @ r" "list_all is_whitespace sp" "p = concat cs" "r = [] \<or> is_whitespace (hd r)"
    using split_ws_ConsD is_char_not_empty [OF Nil.prems(2)] by metis
  then have "str_find p (concat chs) = Some (length (concat sp))"
    using str_find_skip [of p "concat sp" "p @ concat r"] whitespace_not_in_word [OF assms(3)] assms(3)
    by (simp add: str_find_here ascii_word_def)
  moreover have "list_all is_char r" using r(1) Nil.prems(2) by simp
  moreover have "drop (length (concat sp)) (concat chs) = p @ concat r" using r(1,3) by simp
  ultimately show ?case using r(4) by blast
next
  case (Cons v pre)
  have pne: "p \<noteq> []" using assms(3) by (simp add: ascii_word_def)
  from Cons.prems(1) have "split_ws [] chs = v # (pre @ p # more)" by simp
  then obtain sp cs r where r: "chs = sp @ cs @ r" "list_all is_whitespace sp" "v = concat cs" "split_ws [] r = pre @ p # more"
    "r = [] \<or> is_whitespace (hd r)"
    using split_ws_ConsD is_char_not_empty [OF Cons.prems(2)] by metis
  from Cons.IH [OF r(4)] r(1) Cons.prems(2,3) obtain i r' where i: "str_find p (concat r) = Some i"
    "drop i (concat r) = p @ concat r'" "list_all is_char r'" "r' = [] \<or> is_whitespace (hd r')" by auto
  from r(4) have "r \<noteq> []" by (cases r) auto
  with r(5) obtain ch r2 where ch: "r = ch # r2" "is_whitespace ch" by (cases r) auto
  from ch(2) whitespace_not_empty obtain x xs where x: "ch = x # xs" by (cases ch) auto
  have "x \<notin> set p" using whitespace_bytes [OF ch(2), of x] x assms(3) by (auto simp: ascii_word_def list_all_iff)
  then have "str_find p (v @ concat r) = Some (length v + i)"
    using str_find_separated [OF pne, of x v "xs @ concat r2"] Cons.prems(3) i(1) ch(1) x by simp
  then have "str_find p (concat chs) = Some (length (concat sp) + (length v + i))"
    using str_find_skip [OF pne, of "concat sp" "v @ concat r"] whitespace_not_in_word [OF assms(3) r(2)] r(1,3) by simp
  moreover have "drop (length (concat sp) + (length v + i)) (concat chs) = p @ concat r'" using r(1,3) i(2) by simp
  ultimately show ?case using i(3,4) by blast
qed

lemma ascii_word_visible: "ascii_word w \<Longrightarrow> is_str w \<and> list_all visible (chars w)"
proof -
  assume w: "ascii_word w"
  then have "\<forall>c\<in>set w. code c < 128" by (auto simp: ascii_word_def list_all_iff)
  from all_ascii_chars [OF this] have chs: "is_str w" "chars w = map (\<lambda>c. [c]) w" by auto
  have "visible [c]" if "c \<in> set w" for c
    using whitespace_bytes [of "[c]" c] that w by (auto simp: ascii_word_def list_all_iff)
  with chs show ?thesis by (auto simp: list_all_iff)
qed

lemma occurrence_first_word:
  assumes "split_whitespace s = pre @ p # more" "is_str s" "ascii_word p" "\<forall>w\<in>set pre. str_find p w = None"
  shows "\<exists>i ws. str_find p s = Some i \<and> split_whitespace (drop i s) = p # ws \<and> is_str (drop i s)"
proof -
  from split_ws_occurrence [of "chars s" pre p more] assms obtain i r where
    i: "str_find p s = Some i" "drop i s = p @ concat r" "list_all is_char r" "r = [] \<or> is_whitespace (hd r)"
    by (auto simp: split_whitespace_def is_str_def concat_chars)
  have tw: "takeWhile visible r = []" using i(4) by (cases r) auto
  have p: "is_str p" "p \<noteq> []" "list_all visible (chars p)" "list_all (\<lambda>ch. ch \<noteq> []) (chars p)"
    using ascii_word_visible [OF assms(3)] assms(3) is_char_not_empty by (auto simp: is_str_def ascii_word_def)
  have "split_ws [] (chars p @ r) = p # split_ws [] (dropWhile visible r)"
    using split_ws_word [of "chars p" r] p tw by (simp add: concat_chars)
  then have "split_whitespace (drop i s) = p # split_ws [] (dropWhile visible r)"
    by (simp add: i(2) split_whitespace_def chars_append [OF p(1)] chars_concat_id [OF i(3)])
  moreover have "is_str (drop i s)" using is_str_append [OF p(1) concat_is_str [OF i(3)]] i(2) by simp
  ultimately show ?thesis using i(1) by blast
qed

section \<open>Trimming\<close>

lemma split_whitespace_trim:
  assumes "is_str s"
  shows "split_whitespace (str_trim s) = split_whitespace s"
proof -
  let ?f = "dropWhile is_whitespace (chars s)"
  let ?g = "rev (dropWhile is_whitespace (rev ?f))" and ?e = "rev (takeWhile is_whitespace (rev ?f))"
  have f: "?f = ?g @ ?e" by (metis rev_append rev_rev_ident takeWhile_dropWhile_id)
  have chs: "list_all is_char ?g" using assms by (auto simp: is_str_def list_all_iff dest!: set_dropWhileD)
  have e: "list_all is_whitespace ?e" by (auto simp: list_all_iff dest: set_takeWhileD)
  have "split_whitespace (str_trim s) = split_ws [] ?g" by (simp add: split_whitespace_def str_trim_def chars_concat_id [OF chs])
  also have "\<dots> = split_ws [] ?f" using split_ws_trailing [OF e, of "[]" ?g] f by simp
  also have "\<dots> = split_whitespace s"
  proof -
    have "list_all is_whitespace (takeWhile is_whitespace (chars s))" by (auto simp: list_all_iff dest: set_takeWhileD)
    from split_ws_skip [OF this, of ?f] show ?thesis by (simp add: split_whitespace_def)
  qed
  finally show ?thesis .
qed

lemma str_trim_visible:
  assumes "is_str p" "p \<noteq> []" "list_all visible (chars p)"
  shows "\<exists>u. str_trim (p @ t) = p @ u"
proof -
  from assms have ne: "chars p \<noteq> []" using concat_chars [of p] by auto
  have hd: "dropWhile is_whitespace (chars p @ chars t) = chars p @ chars t"
    using ne assms(3) by (cases "chars p") auto
  have rp: "dropWhile is_whitespace (rev (chars p)) = rev (chars p)"
    using ne assms(3) by (cases "rev (chars p)") (auto simp: list_all_iff dest: arg_cong [of _ _ set])
  have "\<exists>v. dropWhile is_whitespace (rev (chars t) @ rev (chars p)) = v @ rev (chars p)"
  proof (cases "\<forall>ch\<in>set (rev (chars t)). is_whitespace ch")
    case True
    then have "dropWhile is_whitespace (rev (chars t) @ rev (chars p)) = dropWhile is_whitespace (rev (chars p))"
      by (intro dropWhile_append2) blast
    with rp show ?thesis by (intro exI [of _ "[]"]) simp
  next
    case False
    then show ?thesis by (auto simp: dropWhile_append1)
  qed
  then obtain v where "dropWhile is_whitespace (rev (chars p @ chars t)) = v @ rev (chars p)" by auto
  then have "str_trim (p @ t) = p @ concat (rev v)" by (simp add: str_trim_def chars_append [OF assms(1)] hd concat_chars)
  then show ?thesis ..
qed

lemma set_str_trim: "set (str_trim s) \<subseteq> set s"
proof -
  have "set (str_trim s) \<subseteq> set (concat (chars s))" by (auto simp: str_trim_def dest!: set_dropWhileD)
  then show ?thesis by (simp add: concat_chars)
qed

end
