(* ===== verification/Bash_Validation.thy ===== *)
theory Bash_Validation
  imports Agent_Permissions Rust_Words
begin

text \<open>
  Validation of shell commands before execution,
  \<open>appfs-agent/rust/crates/runtime/src/bash_validation.rs\<close>. A function that slices a string
  inside a character panics: \<open>None\<close>, respectively \<open>Panic\<close>. The read-only check calls itself
  on the command behind \<open>sudo\<close>; it may not return, which is the value \<open>None\<close> of a
  \<open>partial_function\<close>.
\<close>

section \<open>Tables\<close>

datatype validation_result = Pass | Block string | Warn string

datatype command_intent =
    Intent_ReadOnly | Intent_Write | Intent_Destructive | Intent_Network | Intent_ProcessManagement
  | Intent_PackageManagement | Intent_SystemAdmin | Intent_Unknown

definition WRITE_COMMANDS :: "string list" where
  "WRITE_COMMANDS =
    [''cp'', ''mv'', ''rm'', ''mkdir'', ''rmdir'', ''touch'', ''chmod'', ''chown'', ''chgrp'', ''ln'', ''install'',
     ''tee'', ''truncate'', ''shred'', ''mkfifo'', ''mknod'', ''dd'']"

definition STATE_MODIFYING_COMMANDS :: "string list" where
  "STATE_MODIFYING_COMMANDS =
    [''apt'', ''apt-get'', ''yum'', ''dnf'', ''pacman'', ''brew'', ''pip'', ''pip3'', ''npm'', ''yarn'', ''pnpm'',
     ''bun'', ''cargo'', ''gem'', ''go'', ''rustup'', ''docker'', ''systemctl'', ''service'', ''mount'', ''umount'',
     ''kill'', ''pkill'', ''killall'', ''reboot'', ''shutdown'', ''halt'', ''poweroff'', ''useradd'', ''userdel'',
     ''usermod'', ''groupadd'', ''groupdel'', ''crontab'', ''at'']"

definition GIT_READ_ONLY_SUBCOMMANDS :: "string list" where
  "GIT_READ_ONLY_SUBCOMMANDS =
    [''status'', ''log'', ''diff'', ''show'', ''branch'', ''tag'', ''stash'', ''remote'', ''fetch'', ''ls-files'',
     ''ls-tree'', ''cat-file'', ''rev-parse'', ''describe'', ''shortlog'', ''blame'', ''bisect'', ''reflog'',
     ''config'']"

definition ALWAYS_DESTRUCTIVE_COMMANDS :: "string list" where
  "ALWAYS_DESTRUCTIVE_COMMANDS =
    [''shred'', ''wipefs'']"

definition SEMANTIC_READ_ONLY_COMMANDS :: "string list" where
  "SEMANTIC_READ_ONLY_COMMANDS =
    [''ls'', ''cat'', ''head'', ''tail'', ''less'', ''more'', ''wc'', ''sort'', ''uniq'', ''grep'', ''egrep'',
     ''fgrep'', ''find'', ''which'', ''whereis'', ''whatis'', ''man'', ''info'', ''file'', ''stat'', ''du'', ''df'',
     ''free'', ''uptime'', ''uname'', ''hostname'', ''whoami'', ''id'', ''groups'', ''env'', ''printenv'', ''echo'',
     ''printf'', ''date'', ''cal'', ''bc'', ''expr'', ''test'', ''true'', ''false'', ''pwd'', ''tree'', ''diff'',
     ''cmp'', ''md5sum'', ''sha256sum'', ''sha1sum'', ''xxd'', ''od'', ''hexdump'', ''strings'', ''readlink'',
     ''realpath'', ''basename'', ''dirname'', ''seq'', ''yes'', ''tput'', ''column'', ''jq'', ''yq'', ''xargs'',
     ''tr'', ''cut'', ''paste'', ''awk'', ''sed'']"

definition NETWORK_COMMANDS :: "string list" where
  "NETWORK_COMMANDS =
    [''curl'', ''wget'', ''ssh'', ''scp'', ''rsync'', ''ftp'', ''sftp'', ''nc'', ''ncat'', ''telnet'', ''ping'',
     ''traceroute'', ''dig'', ''nslookup'', ''host'', ''whois'', ''ifconfig'', ''ip'', ''netstat'', ''ss'', ''nmap'']"

definition PROCESS_COMMANDS :: "string list" where
  "PROCESS_COMMANDS =
    [''kill'', ''pkill'', ''killall'', ''ps'', ''top'', ''htop'', ''bg'', ''fg'', ''jobs'', ''nohup'', ''disown'',
     ''wait'', ''nice'', ''renice'']"

definition PACKAGE_COMMANDS :: "string list" where
  "PACKAGE_COMMANDS =
    [''apt'', ''apt-get'', ''yum'', ''dnf'', ''pacman'', ''brew'', ''pip'', ''pip3'', ''npm'', ''yarn'', ''pnpm'',
     ''bun'', ''cargo'', ''gem'', ''go'', ''rustup'', ''snap'', ''flatpak'']"

definition SYSTEM_ADMIN_COMMANDS :: "string list" where
  "SYSTEM_ADMIN_COMMANDS =
    [''sudo'', ''su'', ''chroot'', ''mount'', ''umount'', ''fdisk'', ''parted'', ''lsblk'', ''blkid'', ''systemctl'',
     ''service'', ''journalctl'', ''dmesg'', ''modprobe'', ''insmod'', ''rmmod'', ''iptables'', ''ufw'',
     ''firewall-cmd'', ''sysctl'', ''crontab'', ''at'', ''useradd'', ''userdel'', ''usermod'', ''groupadd'',
     ''groupdel'', ''passwd'', ''visudo'']"



definition WRITE_REDIRECTIONS :: "string list" where
  "WRITE_REDIRECTIONS = [''>'', ''>>'', ''>&'']"

section \<open>The first command\<close>

definition is_ascii_whitespace :: "char \<Rightarrow> bool" where
  "is_ascii_whitespace c \<longleftrightarrow> code c \<in> {9, 10, 12, 13, 32}"

definition find_end_of_value :: "string \<Rightarrow> nat option" where
  "find_end_of_value s0 =
     (let s = trim_start s0
      in case s of
           [] \<Rightarrow> None
         | first # _ \<Rightarrow>
             if code first = 34 \<or> code first = 39 then
               (case find (\<lambda>i. s ! i = first \<and> code (s ! (i - 1)) \<noteq> 92) [1..<length s] of
                  None \<Rightarrow> None
                | Some i \<Rightarrow>
                    let j = i + 1 + length (takeWhile (\<lambda>c. \<not> is_ascii_whitespace c) (drop (i + 1) s))
                    in if j < length s then Some j else None)
             else find_whitespace s)"

definition is_env_name :: "string \<Rightarrow> bool" where
  "is_env_name name \<longleftrightarrow> name \<noteq> [] \<and> list_all (\<lambda>ch. length ch = 1 \<and>
     (is_ascii_alphabetic (hd ch) \<or> is_ascii_digit (hd ch) \<or> hd ch = CHR ''_'')) (chars name)"

definition first_word :: "string \<Rightarrow> string" where
  "first_word s = (case split_whitespace s of [] \<Rightarrow> [] | w # _ \<Rightarrow> w)"

lemma length_concat_dropWhile: "length (concat (dropWhile P xs)) \<le> length (concat xs)"
  by (induction xs) auto

lemma length_trim_start: "length (trim_start s) \<le> length s"
  using length_concat_dropWhile [of is_whitespace "chars s"] by (simp add: trim_start_def concat_chars)

text \<open>The loop over leading assignments; what is left of the string gets shorter.\<close>

function skip_env :: "string \<Rightarrow> string option" where
  "skip_env remaining =
     (let next = trim_start remaining
      in case str_find ''='' next of
           None \<Rightarrow> Some (first_word remaining)
         | Some eq_pos \<Rightarrow>
             if is_env_name (take eq_pos next) then
               let after_eq = drop (eq_pos + 1) next
               in case find_end_of_value after_eq of
                    None \<Rightarrow> Some []
                  | Some space \<Rightarrow>
                      (case slice_from after_eq space of None \<Rightarrow> None | Some rest \<Rightarrow> skip_env rest)
             else Some (first_word remaining))"
  by pat_completeness auto
termination
proof (relation "measure length", simp, goal_cases)
  case (1 remaining nxt eq_pos after_eq space rest)
  then have "length rest \<le> length nxt - (eq_pos + 1)" by (auto simp: slice_from_def split: if_splits)
  moreover have "eq_pos + 1 \<le> length nxt" using str_find_le [of "''=''" nxt eq_pos] 1 by simp
  ultimately show ?case using length_trim_start [of remaining] 1(1) by simp
qed

declare skip_env.simps [simp del]

definition extract_first_command :: "string \<Rightarrow> string option" where
  "extract_first_command command = skip_env (str_trim command)"

fun drop_until_sudo :: "string list \<Rightarrow> string list option" where
  "drop_until_sudo [] = None"
| "drop_until_sudo (p # ps) = (if p = ''sudo'' then Some ps else drop_until_sudo ps)"

definition extract_sudo_inner :: "string \<Rightarrow> string" where
  "extract_sudo_inner command =
     (case drop_until_sudo (split_whitespace command) of
        None \<Rightarrow> []
      | Some rest \<Rightarrow>
          (case find (\<lambda>p. \<not> starts_with ''-'' p) rest of
             None \<Rightarrow> []
           | Some part \<Rightarrow> drop (case str_find part command of Some i \<Rightarrow> i | None \<Rightarrow> 0) command))"

section \<open>Read-only validation\<close>

definition git_subcommand :: "string \<Rightarrow> string option" where
  "git_subcommand command = find (\<lambda>p. \<not> starts_with ''-'' p) (drop 1 (split_whitespace command))"

definition validate_git_read_only :: "string \<Rightarrow> validation_result" where
  "validate_git_read_only command =
     (case git_subcommand command of
        Some sub \<Rightarrow>
          if sub \<in> set GIT_READ_ONLY_SUBCOMMANDS then Pass
          else Block (''Git subcommand '' @ quoted sub @ '' modifies repository state and is not allowed in read-only mode'')
      | None \<Rightarrow> Pass)"

datatype 'a run = Panic | Returns 'a

definition read_only_tail :: "string \<Rightarrow> string \<Rightarrow> validation_result" where
  "read_only_tail first command =
     (case find (str_contains command) WRITE_REDIRECTIONS of
        Some redir \<Rightarrow> Block (''Command contains write redirection '' @ quoted redir @ '' which is not allowed in read-only mode'')
      | None \<Rightarrow> if first = ''git'' then validate_git_read_only command else Pass)"

partial_function (option) validate_read_only :: "string \<Rightarrow> permission_mode \<Rightarrow> validation_result run option" where
  "validate_read_only command mode =
     (if mode \<noteq> ReadOnly then Some (Returns Pass)
      else case extract_first_command command of
             None \<Rightarrow> Some Panic
           | Some first \<Rightarrow>
               if first \<in> set WRITE_COMMANDS then
                 Some (Returns (Block (''Command '' @ quoted first @ '' modifies the filesystem and is not allowed in read-only mode'')))
               else if first \<in> set STATE_MODIFYING_COMMANDS then
                 Some (Returns (Block (''Command '' @ quoted first @ '' modifies system state and is not allowed in read-only mode'')))
               else if first = ''sudo'' \<and> extract_sudo_inner command \<noteq> [] then
                 Option.bind (validate_read_only (extract_sudo_inner command) mode)
                   (\<lambda>r. if r \<noteq> Returns Pass then Some r else Some (Returns (read_only_tail first command)))
               else Some (Returns (read_only_tail first command)))"

declare validate_read_only.simps [code]

section \<open>The other validations\<close>








section \<open>Intent\<close>

definition classify_git_command :: "string \<Rightarrow> command_intent" where
  "classify_git_command command =
     (case git_subcommand command of
        Some sub \<Rightarrow> if sub \<in> set GIT_READ_ONLY_SUBCOMMANDS then Intent_ReadOnly else Intent_Write
      | None \<Rightarrow> Intent_Write)"

definition classify_by_first_command :: "string \<Rightarrow> string \<Rightarrow> command_intent" where
  "classify_by_first_command first command =
     (if first \<in> set SEMANTIC_READ_ONLY_COMMANDS
      then (if first = ''sed'' \<and> str_contains command '' -i'' then Intent_Write else Intent_ReadOnly)
      else if first \<in> set ALWAYS_DESTRUCTIVE_COMMANDS \<or> first = ''rm'' then Intent_Destructive
      else if first \<in> set WRITE_COMMANDS then Intent_Write
      else if first \<in> set NETWORK_COMMANDS then Intent_Network
      else if first \<in> set PROCESS_COMMANDS then Intent_ProcessManagement
      else if first \<in> set PACKAGE_COMMANDS then Intent_PackageManagement
      else if first \<in> set SYSTEM_ADMIN_COMMANDS then Intent_SystemAdmin
      else if first = ''git'' then classify_git_command command
      else Intent_Unknown)"

definition classify_command :: "string \<Rightarrow> command_intent run" where
  "classify_command command =
     (case extract_first_command command of None \<Rightarrow> Panic | Some first \<Rightarrow> Returns (classify_by_first_command first command))"

section \<open>Commands without assignments\<close>

text \<open>Where a command has no \<open>=\<close>, its first command is its first word.\<close>

lemma set_trim_start: "set (trim_start s) \<subseteq> set s"
proof -
  have "set (trim_start s) \<subseteq> set (concat (chars s))" by (auto simp: trim_start_def dest!: set_dropWhileD)
  then show ?thesis by (simp add: concat_chars)
qed

lemma skip_env_plain: "CHR ''='' \<notin> set s \<Longrightarrow> skip_env s = Some (first_word s)"
  using set_trim_start [of s] str_find_char [of "CHR ''=''" "trim_start s"] by (subst skip_env.simps) auto

lemma extract_first_command_plain:
  assumes "is_str command" "CHR ''='' \<notin> set command" "split_whitespace command = w # ws"
  shows "extract_first_command command = Some w"
  using skip_env_plain [of "str_trim command"] set_str_trim [of command] split_whitespace_trim [OF assms(1)] assms(2,3)
  by (auto simp: extract_first_command_def first_word_def)

lemma extract_first_command_empty:
  assumes "is_str command" "CHR ''='' \<notin> set command" "split_whitespace command = []"
  shows "extract_first_command command = Some []"
  using skip_env_plain [of "str_trim command"] set_str_trim [of command] split_whitespace_trim [OF assms(1)] assms(2,3)
  by (auto simp: extract_first_command_def first_word_def)

lemma extract_first_command_visible:
  assumes "is_str p" "p \<noteq> []" "list_all visible (chars p)" "CHR ''='' \<notin> set (p @ t)"
  shows "\<exists>q. extract_first_command (p @ t) = Some (p @ q)"
proof -
  from str_trim_visible [OF assms(1-3)] obtain u where u: "str_trim (p @ t) = p @ u" by blast
  from first_word_prefix [OF assms(1-3)] obtain q ws where "split_whitespace (p @ u) = (p @ q) # ws" by blast
  then show ?thesis
    using skip_env_plain [of "p @ u"] set_str_trim [of "p @ t"] assms(4) u by (auto simp: extract_first_command_def first_word_def)
qed

lemma find_behind: "list_all (\<lambda>x. \<not> P x) xs \<Longrightarrow> P y \<Longrightarrow> find P (xs @ y # ys) = Some y"
  by (induction xs) auto

lemma inner_of_sudo:
  assumes "split_whitespace command = ''sudo'' # opts @ p # more_words" "list_all (starts_with ''-'') opts" "\<not> starts_with ''-'' p"
    "str_find p command = Some i"
  shows "extract_sudo_inner command = drop i command"
  using assms find_behind [of "\<lambda>p. \<not> starts_with ''-'' p" opts p more_words] by (simp add: extract_sudo_inner_def)

section \<open>Termination\<close>

lemma sudo_not_listed: "''sudo'' \<notin> set WRITE_COMMANDS" "''sudo'' \<notin> set STATE_MODIFYING_COMMANDS"
  by (simp_all add: WRITE_COMMANDS_def STATE_MODIFYING_COMMANDS_def)

text \<open>A \<open>sudo\<close> call whose inner command, searched as text, is the call itself never returns.\<close>

lemma validate_own_inner:
  assumes "extract_first_command command = Some ''sudo''" "command \<noteq> []" "extract_sudo_inner command = command"
  shows "validate_read_only command ReadOnly = None"
proof -
  let ?own = "\<lambda>c. extract_first_command c = Some ''sudo'' \<and> c \<noteq> [] \<and> extract_sudo_inner c = c"
  have "m = ReadOnly \<longrightarrow> \<not> ?own c" if "validate_read_only c m = Some r" for c m r
  proof (rule validate_read_only.raw_induct [OF _ that])
    fix f :: "string \<Rightarrow> permission_mode \<Rightarrow> validation_result run option" and c m y
    assume IH: "\<And>c m y. f c m = Some y \<Longrightarrow> m = ReadOnly \<longrightarrow> \<not> ?own c"
      and step: "(if m \<noteq> ReadOnly then Some (Returns Pass)
        else case extract_first_command c of
           None \<Rightarrow> Some Panic
         | Some first \<Rightarrow>
             if first \<in> set WRITE_COMMANDS then
               Some (Returns (Block (''Command '' @ quoted first @ '' modifies the filesystem and is not allowed in read-only mode'')))
             else if first \<in> set STATE_MODIFYING_COMMANDS then
               Some (Returns (Block (''Command '' @ quoted first @ '' modifies system state and is not allowed in read-only mode'')))
             else if first = ''sudo'' \<and> extract_sudo_inner c \<noteq> [] then
               Option.bind (f (extract_sudo_inner c) m)
                 (\<lambda>r. if r \<noteq> Returns Pass then Some r else Some (Returns (read_only_tail first c)))
             else Some (Returns (read_only_tail first c))) = Some y"
    show "m = ReadOnly \<longrightarrow> \<not> ?own c"
    proof (intro impI notI)
      assume "m = ReadOnly" and own: "?own c"
      with step sudo_not_listed have "f c ReadOnly \<noteq> None" by (cases "f c ReadOnly") auto
      with IH own show False by blast
    qed
  qed
  with assms show ?thesis by (cases "validate_read_only command ReadOnly") auto
qed

lemma validate_not_sudo:
  assumes "extract_first_command command = Some first" "first \<noteq> ''sudo'' \<or> extract_sudo_inner command = []"
  shows "\<exists>r. validate_read_only command mode = Some (Returns r)"
  using assms by (subst validate_read_only.simps) auto

lemma validate_sudo:
  assumes "extract_first_command command = Some ''sudo''" "extract_sudo_inner command \<noteq> []"
  shows "validate_read_only command ReadOnly =
    Option.bind (validate_read_only (extract_sudo_inner command) ReadOnly)
      (\<lambda>r. if r \<noteq> Returns Pass then Some r else Some (Returns (read_only_tail ''sudo'' command)))"
  using assms sudo_not_listed by (subst validate_read_only.simps) simp

text \<open>The words of a command for which the search goes wrong: the program behind \<open>sudo\<close> is the beginning of the word \<open>sudo\<close>.\<close>

definition sudo_finds_itself :: "string list \<Rightarrow> bool" where
  "sudo_finds_itself ws \<longleftrightarrow> (\<exists>opts p more_words. ws = ''sudo'' # opts @ p # more_words \<and> list_all (starts_with ''-'') opts \<and>
     p \<in> {''s'', ''su'', ''sud'', ''sudo''})"

lemma starts_with_sudo: "p \<noteq> [] \<Longrightarrow> starts_with p ''sudo'' \<longleftrightarrow> p \<in> {''s'', ''su'', ''sud'', ''sudo''}"
  by (cases p; cases "tl p"; cases "tl (tl p)"; cases "tl (tl (tl p))") (auto simp: starts_with_def)

lemma validate_stuck:
  assumes "is_str command" "CHR ''='' \<notin> set command" "sudo_finds_itself (split_whitespace command)"
  shows "validate_read_only command ReadOnly = None"
proof -
  from assms(3) obtain opts p more_words where ws: "split_whitespace command = ''sudo'' # opts @ p # more_words"
    "list_all (starts_with ''-'') opts" and p: "p \<in> {''s'', ''su'', ''sud'', ''sudo''}"
    unfolding sudo_finds_itself_def by blast
  have "list_all ascii_word [''s'', ''su'', ''sud'', ''sudo'']" by code_simp
  with p have ascii: "ascii_word p" by auto
  from p have nodash: "\<not> starts_with ''-'' p" by (auto simp: starts_with_def)
  have at0: "str_find p (''sudo'' @ v) = Some 0" for v using p by (auto simp: starts_with_def)
  have ne: "list_all (\<lambda>ch. ch \<noteq> []) (chars command)" using assms(1) is_char_not_empty by (simp add: is_str_def)
  from ws(1) have split: "split_ws [] (chars command) = ''sudo'' # opts @ p # more_words" by (simp add: split_whitespace_def)
  obtain sp cs r where r: "chars command = sp @ cs @ r" "list_all is_whitespace sp" "''sudo'' = concat cs"
    by (rule split_ws_ConsD [OF split ne]) blast
  let ?c = "''sudo'' @ concat r"
  have c: "command = concat sp @ ?c" using r concat_chars [of command] by (metis concat_append)
  have chs: "list_all is_char (cs @ r)" using r(1) assms(1) by (simp add: is_str_def)
  have c_str: "is_str ?c" using concat_is_str [OF chs] r(3) by simp
  have "chars ?c = cs @ r" using chars_concat_id [OF chs] r(3) by simp
  then have c_words: "split_whitespace ?c = ''sudo'' # opts @ p # more_words"
    using split split_ws_skip [OF r(2), of "cs @ r"] r(1) by (simp add: split_whitespace_def)
  have c_eq: "CHR ''='' \<notin> set ?c" using assms(2) c by (metis Un_iff set_append)
  have "extract_sudo_inner ?c = ?c" using inner_of_sudo [OF c_words ws(2) nodash at0] by simp
  then have stuck: "validate_read_only ?c ReadOnly = None"
    using validate_own_inner [OF extract_first_command_plain [OF c_str c_eq c_words]] by simp
  have "str_find p command = Some (length (concat sp))"
    using str_find_skip [of p "concat sp" ?c] whitespace_not_in_word [OF ascii r(2)] ascii at0 c by (simp add: ascii_word_def)
  then have "extract_sudo_inner command = ?c" using inner_of_sudo [OF ws nodash] c by (metis append_eq_conv_conj)
  then show ?thesis
    using validate_sudo [OF extract_first_command_plain [OF assms(1,2) ws(1)]] stuck by simp
qed

lemma find_split: "find P xs = Some y \<Longrightarrow> \<exists>a b. xs = a @ y # b \<and> list_all (\<lambda>x. \<not> P x) a \<and> P y"
proof (induction xs)
  case (Cons x xs)
  show ?case
  proof (cases "P x")
    case False
    with Cons obtain a b where "xs = a @ y # b" "list_all (\<lambda>x. \<not> P x) a" "P y" by auto
    with False show ?thesis by (intro exI [of _ "x # a"] exI [of _ b]) simp
  next
    case True
    with Cons.prems have "y = x" by simp
    with True show ?thesis by (intro exI [of _ "[]"] exI [of _ xs]) simp
  qed
qed simp

lemma validate_returns:
  assumes "is_str command" "CHR ''='' \<notin> set command" "\<not> sudo_finds_itself (split_whitespace command)"
  shows "\<exists>r. validate_read_only command ReadOnly = Some (Returns r)"
proof (cases "\<exists>rest. split_whitespace command = ''sudo'' # rest")
  case False
  then have "\<exists>first. extract_first_command command = Some first \<and> first \<noteq> ''sudo''"
    using extract_first_command_plain [OF assms(1,2)] extract_first_command_empty [OF assms(1,2)]
    by (cases "split_whitespace command") auto
  then show ?thesis using validate_not_sudo by blast
next
  case True
  then obtain rest where words: "split_whitespace command = ''sudo'' # rest" by blast
  note first = extract_first_command_plain [OF assms(1,2) words]
  show ?thesis
  proof (cases "find (\<lambda>p. \<not> starts_with ''-'' p) rest")
    case None
    then have "extract_sudo_inner command = []" using words by (simp add: extract_sudo_inner_def)
    then show ?thesis using validate_not_sudo [OF first] by blast
  next
    case (Some p)
    then obtain opts more_words where p: "rest = opts @ p # more_words" "list_all (starts_with ''-'') opts" "\<not> starts_with ''-'' p"
      using find_split [of "\<lambda>p. \<not> starts_with ''-'' p" rest p] by auto
    with words have ws: "split_whitespace command = (''sudo'' # opts) @ p # more_words" by simp
    from words_of [OF ws assms(1)] obtain a b where w: "is_str p" "p \<noteq> []" "list_all visible (chars p)" "command = a @ p @ b" by blast
    from str_find_at [of p a b] w(4) obtain i where i: "str_find p command = Some i" by auto
    from str_find_occurs [OF this] obtain t where t: "drop i command = p @ t" by blast
    have "CHR ''='' \<notin> set (p @ t)" using assms(2) t by (metis in_set_dropD)
    from extract_first_command_visible [OF w(1-3) this] obtain q where q: "extract_first_command (p @ t) = Some (p @ q)" by blast
    have "\<not> starts_with p ''sudo''"
      using assms(3) words p starts_with_sudo [OF w(2)] unfolding sudo_finds_itself_def by blast
    then have "p @ q \<noteq> ''sudo''" using starts_with_append [of p q] by metis
    then obtain r where r: "validate_read_only (p @ t) ReadOnly = Some (Returns r)" using validate_not_sudo [OF q] by blast
    have "extract_sudo_inner command = p @ t" using inner_of_sudo [OF _ p(2,3) i] ws t by simp
    then have "validate_read_only command ReadOnly = Option.bind (Some (Returns r))
        (\<lambda>r. if r \<noteq> Returns Pass then Some r else Some (Returns (read_only_tail ''sudo'' command)))"
      using validate_sudo [OF first] r w(2) by simp
    then show ?thesis by (simp split: if_splits)
  qed
qed

section \<open>What passes\<close>






section \<open>Properties\<close>

text \<open>
  C27. For a command without \<open>=\<close>, so that no assignment stands in front, the read-only validation
  returns without a panic, except for one form of command, for which it never returns: \<open>sudo\<close>,
  then options, then a word that is itself the beginning of the word \<open>sudo\<close>, such as
  \<open>sudo su\<close> or \<open>sudo -n sudo ls\<close>. The inner command is searched as text
  from the beginning of the command, so there the search finds the word \<open>sudo\<close> and the
  validation calls itself with the same command.
\<close>

theorem read_only_validation_returns:
  assumes "is_str command" and "CHR ''='' \<notin> set command"
  shows "if sudo_finds_itself (split_whitespace command) then validate_read_only command ReadOnly = None
    else \<exists>r. validate_read_only command ReadOnly = Some (Returns r)"
  using validate_stuck [OF assms] validate_returns [OF assms] by simp

theorem read_only_validation_returns_witness:
  "validate_read_only ''sudo -n su'' ReadOnly = None \<and> (\<exists>r. validate_read_only ''echo sudo su'' ReadOnly = Some (Returns r))"
proof -
  have "is_str ''sudo -n su''" "CHR ''='' \<notin> set ''sudo -n su''" "split_whitespace ''sudo -n su'' = [''sudo'', ''-n'', ''su'']"
    "is_str ''echo sudo su''" "CHR ''='' \<notin> set ''echo sudo su''" "split_whitespace ''echo sudo su'' = [''echo'', ''sudo'', ''su'']"
    by code_simp+
  moreover have "sudo_finds_itself [''sudo'', ''-n'', ''su'']"
    unfolding sudo_finds_itself_def by (intro exI [of _ "[''-n'']"] exI [of _ "''su''"] exI [of _ "[]"]) (simp add: starts_with_def)
  moreover have "\<not> sudo_finds_itself [''echo'', ''sudo'', ''su'']" by (simp add: sudo_finds_itself_def)
  ultimately show ?thesis
    using read_only_validation_returns [of "''sudo -n su''"] read_only_validation_returns [of "''echo sudo su''"] by simp
qed



end
