(* ===== verification/Agent_Session.thy ===== *)
theory Agent_Session
  imports Agent_Json_Roundtrip
begin

text \<open>
  The session of the agent, \<open>runtime/src/session.rs\<close>: its data, its JSON form, and the records of
  the JSONL file it is kept in. Reading is modelled with every error of the source, in the order
  in which the source looks at the fields. The clock, the counters and the random bytes that
  identifiers are made of are the record \<open>process\<close>, which the operations that draw a new
  identifier pass on.
\<close>

section \<open>Data\<close>

text \<open>\<open>Panicked\<close> is not an error of the source but an \<open>expect\<close> that fails.\<close>

datatype session_error = IoError string | JsonError string | FormatError string | Panicked string

type_synonym 'a session_result = "session_error + 'a"

definition try_ok :: "'e + 'a \<Rightarrow> ('a \<Rightarrow> 'e + 'b) \<Rightarrow> 'e + 'b" where
  "try_ok r k = (case r of Inl e \<Rightarrow> Inl e | Inr x \<Rightarrow> k x)"

fun try_map :: "('a \<Rightarrow> 'e + 'b) \<Rightarrow> 'a list \<Rightarrow> 'e + 'b list" where
  "try_map f [] = Inr []"
| "try_map f (x # xs) = try_ok (f x) (\<lambda>y. try_ok (try_map f xs) (\<lambda>ys. Inr (y # ys)))"

text \<open>\<open>Option::ok_or_else\<close>, and \<open>Option::map(f).transpose()\<close>.\<close>

definition or_format :: "string \<Rightarrow> 'a option \<Rightarrow> 'a session_result" where
  "or_format msg o' = (case o' of Some x \<Rightarrow> Inr x | None \<Rightarrow> Inl (FormatError msg))"

definition try_option :: "('a \<Rightarrow> 'e + 'b) \<Rightarrow> 'a option \<Rightarrow> 'e + 'b option" where
  "try_option f o' = (case o' of None \<Rightarrow> Inr None | Some x \<Rightarrow> try_ok (f x) (\<lambda>y. Inr (Some y)))"

datatype message_role = SystemRole | UserRole | AssistantRole | ToolRole

datatype system_message_subtype = CompactBoundary

datatype attachment_kind =
  RunningAgents | TodoList | PlanMode | SkillListing | InvokedSkills | AppfsEvents | InputRouterKind | HookAdditionalContext

datatype compact_trigger = Manual | Auto

datatype hook_result_event = SessionStart

record input_router_block_input =
  ir_source :: string
  ir_input_type :: string
  ir_text :: string
  ir_event_id :: "string option"
  ir_ts :: "string option"
  ir_client_token :: "string option"
  ir_event_path :: "string option"
  ir_principal_id :: "string option"
  ir_app_id :: "string option"
  ir_stream_id :: "string option"
  ir_seq :: "i64 option"
  ir_correlation_id :: "string option"
  ir_requires_attention :: bool
  ir_delivery :: "string option"
  ir_payload :: "json_value option"
  ir_raw_event :: "json_value option"
  ir_event_render_metadata :: "json_value option"

datatype content_block =
    Text string
  | Thinking string "string option"
  | RedactedThinking json_value
  | InputRouter "input_router_block_input list"
  | ToolUse string string string
  | ToolResult string string string bool

record compact_preserved_segment =
  ps_head :: string
  ps_anchor :: string
  ps_tail :: string

record compact_boundary_metadata =
  cb_trigger :: compact_trigger
  cb_pre_tokens :: u64
  cb_user_context :: "string option"
  cb_messages_summarized :: "u64 option"
  cb_pre_compact_discovered_tools :: "string list"
  cb_preserved_segment :: "compact_preserved_segment option"

record hook_result_metadata =
  hr_event :: hook_result_event
  hr_source :: string

record token_usage =
  input_tokens :: u32
  output_tokens :: u32
  cache_creation_input_tokens :: u32
  cache_read_input_tokens :: u32

record conversation_message =
  uuid :: string
  role :: message_role
  blocks :: "content_block list"
  usage :: "token_usage option"
  subtype :: "system_message_subtype option"
  compact_metadata :: "compact_boundary_metadata option"
  attachment_metadata :: "attachment_kind option"
  hook_result_metadata :: "hook_result_metadata option"
  is_compact_summary :: bool
  is_visible_in_transcript_only :: bool
  timestamp_ms :: u64

record session_compaction =
  sc_count :: u32
  sc_removed_message_count :: u64
  sc_summary :: string

record session_fork =
  sf_parent_session_id :: string
  sf_branch_name :: "string option"

record session_prompt_entry =
  pe_timestamp_ms :: u64
  pe_text :: string

record invoked_skill =
  sk_skill :: string
  sk_resolved_name :: "string option"
  sk_path :: "string option"
  sk_description :: "string option"
  sk_args :: "string option"
  sk_prompt :: string

text \<open>
  A file path is the directory it is in and its file name; the paths the session is kept at have both.
\<close>

record file_path =
  directory :: string
  file_name :: string

record session =
  version :: u32
  session_id :: string
  created_at_ms :: u64
  updated_at_ms :: u64
  messages :: "conversation_message list"
  compaction :: "session_compaction option"
  fork :: "session_fork option"
  workspace_root :: "string option"
  prompt_history :: "session_prompt_entry list"
  invoked_skills :: "invoked_skill list"
  appfs_event_cursors :: "(string \<times> i64) list"
  appfs_wake_event_cursors :: "(string \<times> i64) list"
  appfs_principal_id :: "string option"
  model :: "string option"
  persistence :: "file_path option"

definition SESSION_VERSION :: u32 where "SESSION_VERSION = 1"

section \<open>Building and reading objects\<close>

text \<open>\<open>object.insert\<close> as the source uses it: always, for a \<open>Some\<close>, or under a condition.\<close>

type_synonym json_entries = "(string \<times> json_value) list"

definition put :: "string \<Rightarrow> json_value \<Rightarrow> json_entries \<Rightarrow> json_entries" where
  "put k v es = btree_insert k v es"

definition put_some :: "string \<Rightarrow> ('a \<Rightarrow> json_value) \<Rightarrow> 'a option \<Rightarrow> json_entries \<Rightarrow> json_entries" where
  "put_some k f o' es = (case o' of Some x \<Rightarrow> btree_insert k (f x) es | None \<Rightarrow> es)"

definition put_if :: "bool \<Rightarrow> string \<Rightarrow> json_value \<Rightarrow> json_entries \<Rightarrow> json_entries" where
  "put_if b k v es = (if b then btree_insert k v es else es)"

definition json_build :: "(json_entries \<Rightarrow> json_entries) list \<Rightarrow> json_value" where
  "json_build steps = Object (fold (\<lambda>step es. step es) steps [])"

definition get_str :: "json_entries \<Rightarrow> string \<Rightarrow> string option" where
  "get_str es k = Option.bind (map_of es k) json_str"

definition get_i64 :: "json_entries \<Rightarrow> string \<Rightarrow> i64 option" where
  "get_i64 es k = Option.bind (map_of es k) json_i64"

definition get_bool :: "json_entries \<Rightarrow> string \<Rightarrow> bool" where
  "get_bool es k = (case Option.bind (map_of es k) json_bool of Some b \<Rightarrow> b | None \<Rightarrow> False)"

definition session_required_string :: "json_entries \<Rightarrow> string \<Rightarrow> string session_result" where
  "session_required_string es k = or_format (''missing '' @ k) (get_str es k)"

definition session_optional_string :: "json_entries \<Rightarrow> string \<Rightarrow> string option" where
  "session_optional_string es k = get_str es k"

definition required_u32 :: "json_entries \<Rightarrow> string \<Rightarrow> u32 session_result" where
  "required_u32 es k =
     try_ok (or_format (''missing '' @ k) (get_i64 es k)) (\<lambda>v.
       if 0 \<le> v \<and> v < 2 ^ 32 then Inr (word_of_int v) else Inl (FormatError (k @ '' out of range'')))"

definition required_u64_from_value :: "json_value \<Rightarrow> string \<Rightarrow> u64 session_result" where
  "required_u64_from_value j k =
     try_ok (or_format (''missing '' @ k) (json_i64 j)) (\<lambda>v.
       if 0 \<le> v then Inr (nat v) else Inl (FormatError (k @ '' out of range'')))"

definition required_u64 :: "json_entries \<Rightarrow> string \<Rightarrow> u64 session_result" where
  "required_u64 es k = try_ok (or_format (''missing '' @ k) (map_of es k)) (\<lambda>j. required_u64_from_value j k)"

definition required_usize :: "json_entries \<Rightarrow> string \<Rightarrow> u64 session_result" where
  "required_usize es k =
     try_ok (or_format (''missing '' @ k) (get_i64 es k)) (\<lambda>v.
       if 0 \<le> v then Inr (nat v) else Inl (FormatError (k @ '' out of range'')))"

definition i64_from_u64 :: "u64 \<Rightarrow> string \<Rightarrow> i64 session_result" where
  "i64_from_u64 n k = (if n < 2 ^ 63 then Inr (int n) else Inl (FormatError (k @ '' out of range for JSON number'')))"

definition i64_from_usize :: "u64 \<Rightarrow> string \<Rightarrow> i64 session_result" where
  "i64_from_usize n k = (if n < 2 ^ 63 then Inr (int n) else Inl (FormatError (k @ '' out of range for JSON number'')))"

definition workspace_root_to_string :: "string \<Rightarrow> string session_result" where
  "workspace_root_to_string p = (if is_str p then Inr p else Inl (FormatError (''workspace_root is not valid UTF-8: '' @ p)))"

definition normalize_optional_string :: "string option \<Rightarrow> string option" where
  "normalize_optional_string o' =
     Option.bind o' (\<lambda>value. let trimmed = str_trim value in if trimmed = [] then None else Some trimmed)"

section \<open>The parts of a message\<close>

definition subtype_as_str :: "system_message_subtype \<Rightarrow> string" where
  "subtype_as_str s = (case s of CompactBoundary \<Rightarrow> ''compact_boundary'')"

definition subtype_from_json :: "json_value \<Rightarrow> system_message_subtype session_result" where
  "subtype_from_json j =
     try_ok (or_format ''subtype must be a string'' (json_str j)) (\<lambda>s.
       if s = ''compact_boundary'' then Inr CompactBoundary
       else Inl (FormatError (''unsupported message subtype: '' @ s)))"

definition attachment_kind_as_str :: "attachment_kind \<Rightarrow> string" where
  "attachment_kind_as_str k =
     (case k of RunningAgents \<Rightarrow> ''running_agents'' | TodoList \<Rightarrow> ''todo_list'' | PlanMode \<Rightarrow> ''plan_mode''
      | SkillListing \<Rightarrow> ''skill_listing'' | InvokedSkills \<Rightarrow> ''invoked_skills'' | AppfsEvents \<Rightarrow> ''appfs_events''
      | InputRouterKind \<Rightarrow> ''input_router'' | HookAdditionalContext \<Rightarrow> ''hook_additional_context'')"

definition attachment_kind_from_json :: "json_value \<Rightarrow> attachment_kind session_result" where
  "attachment_kind_from_json j =
     try_ok (or_format ''attachment kind must be a string'' (json_str j)) (\<lambda>s.
       if s = ''running_agents'' then Inr RunningAgents
       else if s = ''todo_list'' then Inr TodoList
       else if s = ''plan_mode'' then Inr PlanMode
       else if s = ''skill_listing'' then Inr SkillListing
       else if s = ''invoked_skills'' then Inr InvokedSkills
       else if s = ''appfs_events'' then Inr AppfsEvents
       else if s = ''input_router'' then Inr InputRouterKind
       else if s = ''hook_additional_context'' then Inr HookAdditionalContext
       else Inl (FormatError (''unsupported attachment kind: '' @ s)))"

definition compact_trigger_as_str :: "compact_trigger \<Rightarrow> string" where
  "compact_trigger_as_str t = (case t of Manual \<Rightarrow> ''manual'' | Auto \<Rightarrow> ''auto'')"

definition compact_trigger_from_json :: "json_value \<Rightarrow> compact_trigger session_result" where
  "compact_trigger_from_json j =
     try_ok (or_format ''compact trigger must be a string'' (json_str j)) (\<lambda>s.
       if s = ''manual'' then Inr Manual
       else if s = ''auto'' then Inr Auto
       else Inl (FormatError (''unsupported compact trigger: '' @ s)))"

definition attachment_metadata_to_json :: "attachment_kind \<Rightarrow> json_value" where
  "attachment_metadata_to_json k = json_build [put ''kind'' (String (attachment_kind_as_str k))]"

definition attachment_metadata_from_json :: "json_value \<Rightarrow> attachment_kind session_result" where
  "attachment_metadata_from_json j =
     try_ok (or_format ''attachment_metadata must be an object'' (json_object j)) (\<lambda>es.
     try_ok (or_format ''missing kind'' (map_of es ''kind'')) attachment_kind_from_json)"

definition hook_result_event_as_str :: "hook_result_event \<Rightarrow> string" where
  "hook_result_event_as_str e = (case e of SessionStart \<Rightarrow> ''session_start'')"

definition hook_result_event_from_json :: "json_value \<Rightarrow> hook_result_event session_result" where
  "hook_result_event_from_json j =
     try_ok (or_format ''hook event must be a string'' (json_str j)) (\<lambda>s.
       if s = ''session_start'' then Inr SessionStart
       else Inl (FormatError (''unsupported hook event: '' @ s)))"

definition hook_result_metadata_to_json :: "hook_result_metadata \<Rightarrow> json_value" where
  "hook_result_metadata_to_json h = json_build
     [put ''event'' (String (hook_result_event_as_str (hr_event h))), put ''source'' (String (hr_source h))]"

definition hook_result_metadata_from_json :: "json_value \<Rightarrow> hook_result_metadata session_result" where
  "hook_result_metadata_from_json j =
     try_ok (or_format ''hook_result_metadata must be an object'' (json_object j)) (\<lambda>es.
     try_ok (try_ok (or_format ''missing event'' (map_of es ''event'')) hook_result_event_from_json) (\<lambda>event.
     try_ok (session_required_string es ''source'') (\<lambda>source.
       Inr \<lparr>hr_event = event, hr_source = source\<rparr>)))"

definition preserved_segment_to_json :: "compact_preserved_segment \<Rightarrow> json_value" where
  "preserved_segment_to_json p = json_build
     [put ''head_uuid'' (String (ps_head p)), put ''anchor_uuid'' (String (ps_anchor p)),
      put ''tail_uuid'' (String (ps_tail p))]"

definition preserved_segment_from_json :: "json_value \<Rightarrow> compact_preserved_segment session_result" where
  "preserved_segment_from_json j =
     try_ok (or_format ''preserved_segment must be an object'' (json_object j)) (\<lambda>es.
     try_ok (session_required_string es ''head_uuid'') (\<lambda>head.
     try_ok (session_required_string es ''anchor_uuid'') (\<lambda>anchor.
     try_ok (session_required_string es ''tail_uuid'') (\<lambda>tail.
       Inr \<lparr>ps_head = head, ps_anchor = anchor, ps_tail = tail\<rparr>))))"

definition compact_metadata_to_json :: "compact_boundary_metadata \<Rightarrow> json_value session_result" where
  "compact_metadata_to_json m =
     try_ok (i64_from_usize (cb_pre_tokens m) ''pre_tokens'') (\<lambda>pre_tokens.
     try_ok (try_option (\<lambda>n. i64_from_usize n ''messages_summarized'') (cb_messages_summarized m)) (\<lambda>summarized.
       Inr (json_build
         [put ''trigger'' (String (compact_trigger_as_str (cb_trigger m))),
          put ''pre_tokens'' (Number pre_tokens),
          put_some ''user_context'' String (cb_user_context m),
          put_some ''messages_summarized'' Number summarized,
          put_if (cb_pre_compact_discovered_tools m \<noteq> []) ''pre_compact_discovered_tools''
            (Array (map String (cb_pre_compact_discovered_tools m))),
          put_some ''preserved_segment'' preserved_segment_to_json (cb_preserved_segment m)])))"

definition compact_metadata_from_json :: "json_value \<Rightarrow> compact_boundary_metadata session_result" where
  "compact_metadata_from_json j =
     try_ok (or_format ''compact_metadata must be an object'' (json_object j)) (\<lambda>es.
     try_ok (try_option (try_map (\<lambda>v. or_format ''pre_compact_discovered_tools must be strings'' (json_str v)))
         (Option.bind (map_of es ''pre_compact_discovered_tools'') json_array)) (\<lambda>tools.
     try_ok (try_ok (or_format ''missing trigger'' (map_of es ''trigger'')) compact_trigger_from_json) (\<lambda>trigger.
     try_ok (required_usize es ''pre_tokens'') (\<lambda>pre_tokens.
     try_ok (try_option (\<lambda>_. required_usize es ''messages_summarized'') (map_of es ''messages_summarized'')) (\<lambda>summarized.
     try_ok (try_option preserved_segment_from_json (map_of es ''preserved_segment'')) (\<lambda>segment.
       Inr \<lparr>cb_trigger = trigger, cb_pre_tokens = pre_tokens, cb_user_context = get_str es ''user_context'',
            cb_messages_summarized = summarized,
            cb_pre_compact_discovered_tools = (case tools of Some ts \<Rightarrow> ts | None \<Rightarrow> []),
            cb_preserved_segment = segment\<rparr>))))))"

definition usage_to_json :: "token_usage \<Rightarrow> json_value" where
  "usage_to_json u = json_build
     [put ''input_tokens'' (Number (uint (input_tokens u))),
      put ''output_tokens'' (Number (uint (output_tokens u))),
      put ''cache_creation_input_tokens'' (Number (uint (cache_creation_input_tokens u))),
      put ''cache_read_input_tokens'' (Number (uint (cache_read_input_tokens u)))]"

definition usage_from_json :: "json_value \<Rightarrow> token_usage session_result" where
  "usage_from_json j =
     try_ok (or_format ''usage must be an object'' (json_object j)) (\<lambda>es.
     try_ok (required_u32 es ''input_tokens'') (\<lambda>a.
     try_ok (required_u32 es ''output_tokens'') (\<lambda>b.
     try_ok (required_u32 es ''cache_creation_input_tokens'') (\<lambda>c.
     try_ok (required_u32 es ''cache_read_input_tokens'') (\<lambda>d.
       Inr \<lparr>input_tokens = a, output_tokens = b, cache_creation_input_tokens = c, cache_read_input_tokens = d\<rparr>)))))"

definition input_router_to_json :: "input_router_block_input \<Rightarrow> json_value" where
  "input_router_to_json i = json_build
     [put ''source'' (String (ir_source i)),
      put ''input_type'' (String (ir_input_type i)),
      put ''text'' (String (ir_text i)),
      put_some ''event_id'' String (ir_event_id i),
      put_some ''ts'' String (ir_ts i),
      put_some ''client_token'' String (ir_client_token i),
      put_some ''event_path'' String (ir_event_path i),
      put_some ''principal_id'' String (ir_principal_id i),
      put_some ''app_id'' String (ir_app_id i),
      put_some ''stream_id'' String (ir_stream_id i),
      put_some ''seq'' Number (ir_seq i),
      put_some ''correlation_id'' String (ir_correlation_id i),
      put_if (ir_requires_attention i) ''requires_attention'' (Bool (ir_requires_attention i)),
      put_some ''delivery'' String (ir_delivery i),
      put_some ''payload'' id (ir_payload i),
      put_some ''raw_event'' id (ir_raw_event i),
      put_some ''event_render_metadata'' id (ir_event_render_metadata i)]"

definition input_router_from_json :: "json_value \<Rightarrow> input_router_block_input session_result" where
  "input_router_from_json j =
     try_ok (or_format ''input_router input must be an object'' (json_object j)) (\<lambda>es.
     try_ok (session_required_string es ''source'') (\<lambda>source.
     try_ok (session_required_string es ''input_type'') (\<lambda>input_type.
     try_ok (session_required_string es ''text'') (\<lambda>txt.
       Inr \<lparr>ir_source = source, ir_input_type = input_type, ir_text = txt,
            ir_event_id = session_optional_string es ''event_id'', ir_ts = session_optional_string es ''ts'',
            ir_client_token = session_optional_string es ''client_token'', ir_event_path = session_optional_string es ''event_path'',
            ir_principal_id = session_optional_string es ''principal_id'', ir_app_id = session_optional_string es ''app_id'',
            ir_stream_id = session_optional_string es ''stream_id'', ir_seq = get_i64 es ''seq'',
            ir_correlation_id = session_optional_string es ''correlation_id'',
            ir_requires_attention = get_bool es ''requires_attention'', ir_delivery = session_optional_string es ''delivery'',
            ir_payload = map_of es ''payload'', ir_raw_event = map_of es ''raw_event'',
            ir_event_render_metadata = map_of es ''event_render_metadata''\<rparr>))))"

definition content_block_to_json :: "content_block \<Rightarrow> json_value" where
  "content_block_to_json b =
     (case b of
        Text t \<Rightarrow> json_build [put ''type'' (String ''text''), put ''text'' (String t)]
      | Thinking t signature \<Rightarrow> json_build [put ''type'' (String ''thinking''), put ''thinking'' (String t),
          put_some ''signature'' String signature]
      | RedactedThinking data \<Rightarrow> json_build [put ''type'' (String ''redacted_thinking''), put ''data'' data]
      | InputRouter inputs \<Rightarrow> json_build [put ''type'' (String ''input_router''),
          put ''inputs'' (Array (map input_router_to_json inputs))]
      | ToolUse i name input \<Rightarrow> json_build [put ''type'' (String ''tool_use''), put ''id'' (String i),
          put ''name'' (String name), put ''input'' (String input)]
      | ToolResult tool_use_id tool_name output is_error \<Rightarrow> json_build [put ''type'' (String ''tool_result''),
          put ''tool_use_id'' (String tool_use_id), put ''tool_name'' (String tool_name),
          put ''output'' (String output), put ''is_error'' (Bool is_error)])"

definition content_block_from_json :: "json_value \<Rightarrow> content_block session_result" where
  "content_block_from_json j =
     try_ok (or_format ''block must be an object'' (json_object j)) (\<lambda>es.
     try_ok (or_format ''missing block type'' (get_str es ''type'')) (\<lambda>ty.
       if ty = ''text'' then try_ok (session_required_string es ''text'') (\<lambda>t. Inr (Text t))
       else if ty = ''thinking'' then
         try_ok (session_required_string es ''thinking'') (\<lambda>t. Inr (Thinking t (get_str es ''signature'')))
       else if ty = ''redacted_thinking'' then
         Inr (RedactedThinking (case map_of es ''data'' of Some d \<Rightarrow> d | None \<Rightarrow> Object []))
       else if ty = ''input_router'' then
         try_ok (or_format ''missing inputs'' (Option.bind (map_of es ''inputs'') json_array)) (\<lambda>js.
         try_ok (try_map input_router_from_json js) (\<lambda>inputs. Inr (InputRouter inputs)))
       else if ty = ''tool_use'' then
         try_ok (session_required_string es ''id'') (\<lambda>i.
         try_ok (session_required_string es ''name'') (\<lambda>name.
         try_ok (session_required_string es ''input'') (\<lambda>input. Inr (ToolUse i name input))))
       else if ty = ''tool_result'' then
         try_ok (session_required_string es ''tool_use_id'') (\<lambda>i.
         try_ok (session_required_string es ''tool_name'') (\<lambda>name.
         try_ok (session_required_string es ''output'') (\<lambda>output.
         try_ok (or_format ''missing is_error'' (Option.bind (map_of es ''is_error'') json_bool)) (\<lambda>is_error.
           Inr (ToolResult i name output is_error)))))
       else Inl (FormatError (''unsupported block type: '' @ ty))))"

section \<open>Clock and identifiers\<close>

text \<open>
  \<open>wall\<close> and \<open>entropy\<close> are what the operating system returns at each call; \<open>clock_reads\<close> and \<open>draws\<close>
  count the calls. The other fields are the three static counters.
\<close>

record process =
  wall :: "nat \<Rightarrow> u64"
  clock_reads :: nat
  entropy :: "nat \<Rightarrow> byte list option"
  draws :: nat
  last_timestamp_ms :: u64
  session_id_counter :: u64
  message_id_counter :: u64

definition u64_max :: nat where "u64_max = 2 ^ 64 - 1"

definition saturating_succ :: "u64 \<Rightarrow> u64" where
  "saturating_succ n = (if n < u64_max then n + 1 else u64_max)"

definition current_time_millis :: "process \<Rightarrow> u64 \<times> process" where
  "current_time_millis p =
     (let candidate = wall p (clock_reads p);
          now = (if candidate \<le> last_timestamp_ms p then saturating_succ (last_timestamp_ms p) else candidate)
      in (now, p\<lparr>clock_reads := clock_reads p + 1, last_timestamp_ms := now\<rparr>))"

definition generate_session_id :: "process \<Rightarrow> string \<times> process" where
  "generate_session_id p =
     (let (millis, p1) = current_time_millis p
      in (''session-'' @ to_decimal millis @ ''-'' @ to_decimal (session_id_counter p1),
          p1\<lparr>session_id_counter := u64_add (session_id_counter p1) 1\<rparr>))"

definition to_be_bytes :: "u64 \<Rightarrow> byte list" where
  "to_be_bytes n = map (\<lambda>k. word_of_nat (n div 256 ^ k)) [7, 6, 5, 4, 3, 2, 1, 0]"

definition hex2 :: "byte \<Rightarrow> string" where
  "hex2 b = [hex_char (unat b div 16), hex_char (unat b mod 16)]"

definition generate_message_uuid :: "process \<Rightarrow> string \<times> process" where
  "generate_message_uuid p =
     (let (bytes, p1) =
        (case entropy p (draws p) of
           Some bs \<Rightarrow> (bs, p\<lparr>draws := draws p + 1\<rparr>)
         | None \<Rightarrow>
             (let (millis, q) = current_time_millis (p\<lparr>draws := draws p + 1\<rparr>)
              in (to_be_bytes millis @ to_be_bytes (message_id_counter q),
                  q\<lparr>message_id_counter := u64_add (message_id_counter q) 1\<rparr>)));
          bytes = bytes[6 := (bytes ! 6 AND 0x0f) OR 0x40];
          bytes = bytes[8 := (bytes ! 8 AND 0x3f) OR 0x80];
          h = (\<lambda>a b. concat (map hex2 (take (b - a) (drop a bytes))))
      in (h 0 4 @ ''-'' @ h 4 6 @ ''-'' @ h 6 8 @ ''-'' @ h 8 10 @ ''-'' @ h 10 16, p1))"

section \<open>Messages\<close>

definition new_message ::
  "message_role \<Rightarrow> content_block list \<Rightarrow> token_usage option \<Rightarrow> system_message_subtype option \<Rightarrow>
   compact_boundary_metadata option \<Rightarrow> attachment_kind option \<Rightarrow> hook_result_metadata option \<Rightarrow> bool \<Rightarrow> bool \<Rightarrow>
   process \<Rightarrow> conversation_message \<times> process" where
  "new_message r bs u st cm am hm summary transcript_only p =
     (let (fresh, p1) = generate_message_uuid p; (now, p2) = current_time_millis p1
      in (\<lparr>uuid = fresh, role = r, blocks = bs, usage = u, subtype = st, compact_metadata = cm, attachment_metadata = am,
           hook_result_metadata = hm, is_compact_summary = summary, is_visible_in_transcript_only = transcript_only,
           timestamp_ms = now\<rparr>, p2))"

definition system_text :: "string \<Rightarrow> process \<Rightarrow> conversation_message \<times> process" where
  "system_text t = new_message SystemRole [Text t] None None None None None False False"

definition compact_boundary :: "compact_boundary_metadata \<Rightarrow> process \<Rightarrow> conversation_message \<times> process" where
  "compact_boundary m = new_message SystemRole [Text ''Conversation compacted''] None (Some CompactBoundary) (Some m) None None False False"

definition user_text_with_metadata ::
  "string \<Rightarrow> attachment_kind option \<Rightarrow> hook_result_metadata option \<Rightarrow> bool \<Rightarrow> bool \<Rightarrow> process \<Rightarrow> conversation_message \<times> process" where
  "user_text_with_metadata t am hm summary transcript_only =
     new_message UserRole [Text t] None None None am hm summary transcript_only"

definition user_text :: "string \<Rightarrow> process \<Rightarrow> conversation_message \<times> process" where
  "user_text t = user_text_with_metadata t None None False False"

definition attachment_user_text :: "string \<Rightarrow> attachment_kind \<Rightarrow> process \<Rightarrow> conversation_message \<times> process" where
  "attachment_user_text t k = user_text_with_metadata t (Some k) None False False"

definition input_router_message :: "input_router_block_input list \<Rightarrow> process \<Rightarrow> conversation_message \<times> process" where
  "input_router_message inputs = new_message UserRole [InputRouter inputs] None None None (Some InputRouterKind) None False False"

definition hook_result_user_text ::
  "string \<Rightarrow> attachment_kind option \<Rightarrow> hook_result_event \<Rightarrow> string \<Rightarrow> process \<Rightarrow> conversation_message \<times> process" where
  "hook_result_user_text t k event source =
     user_text_with_metadata t k (Some \<lparr>hr_event = event, hr_source = source\<rparr>) False False"

definition compact_summary_user_text :: "string \<Rightarrow> bool \<Rightarrow> process \<Rightarrow> conversation_message \<times> process" where
  "compact_summary_user_text t transcript_only = user_text_with_metadata t None None True transcript_only"

definition assistant :: "content_block list \<Rightarrow> process \<Rightarrow> conversation_message \<times> process" where
  "assistant bs = new_message AssistantRole bs None None None None None False False"

definition assistant_with_usage :: "content_block list \<Rightarrow> token_usage option \<Rightarrow> process \<Rightarrow> conversation_message \<times> process" where
  "assistant_with_usage bs u = new_message AssistantRole bs u None None None None False False"

definition tool_result :: "string \<Rightarrow> string \<Rightarrow> string \<Rightarrow> bool \<Rightarrow> process \<Rightarrow> conversation_message \<times> process" where
  "tool_result tool_use_id tool_name output is_error =
     new_message ToolRole [ToolResult tool_use_id tool_name output is_error] None None None None None False False"

definition role_as_str :: "message_role \<Rightarrow> string" where
  "role_as_str r = (case r of SystemRole \<Rightarrow> ''system'' | UserRole \<Rightarrow> ''user'' | AssistantRole \<Rightarrow> ''assistant'' | ToolRole \<Rightarrow> ''tool'')"

definition message_to_json :: "conversation_message \<Rightarrow> json_value session_result" where
  "message_to_json m =
     try_ok (case try_option compact_metadata_to_json (compact_metadata m) of
               Inl _ \<Rightarrow> Inl (Panicked ''compact metadata to serialize'')
             | Inr cm \<Rightarrow> Inr cm) (\<lambda>cm.
       Inr (json_build
         [put ''uuid'' (String (uuid m)),
          put ''role'' (String (role_as_str (role m))),
          put ''blocks'' (Array (map content_block_to_json (blocks m))),
          put_some ''usage'' usage_to_json (usage m),
          put_some ''subtype'' (\<lambda>st. String (subtype_as_str st)) (subtype m),
          put_some ''compact_metadata'' id cm,
          put_some ''attachment_metadata'' attachment_metadata_to_json (attachment_metadata m),
          put_some ''hook_result_metadata'' hook_result_metadata_to_json (hook_result_metadata m),
          put_if (is_compact_summary m) ''is_compact_summary'' (Bool True),
          put_if (is_visible_in_transcript_only m) ''is_visible_in_transcript_only'' (Bool True),
          put ''timestamp_ms'' (Number (case i64_from_u64 (timestamp_ms m) ''timestamp_ms'' of Inr n \<Rightarrow> n | Inl _ \<Rightarrow> 0))]))"

definition role_from_str :: "string \<Rightarrow> message_role session_result" where
  "role_from_str s =
     (if s = ''system'' then Inr SystemRole
      else if s = ''user'' then Inr UserRole
      else if s = ''assistant'' then Inr AssistantRole
      else if s = ''tool'' then Inr ToolRole
      else Inl (FormatError (''unsupported message role: '' @ s)))"

text \<open>The consistency checks at the end of \<open>ConversationMessage::from_json\<close>.\<close>

definition message_check :: "conversation_message \<Rightarrow> conversation_message session_result" where
  "message_check m =
     (if subtype m \<noteq> None \<and> role m \<noteq> SystemRole then
        Inl (FormatError ''message subtype is only supported on system messages'')
      else if compact_metadata m \<noteq> None \<and> subtype m \<noteq> Some CompactBoundary then
        Inl (FormatError ''compact_metadata requires subtype=compact_boundary'')
      else if attachment_metadata m \<noteq> None \<and> role m \<noteq> UserRole then
        Inl (FormatError ''attachment_metadata is only supported on user messages'')
      else if hook_result_metadata m \<noteq> None \<and> role m \<noteq> UserRole then
        Inl (FormatError ''hook_result_metadata is only supported on user messages'')
      else if is_compact_summary m \<and> role m \<noteq> UserRole then
        Inl (FormatError ''is_compact_summary is only supported on user messages'')
      else if is_compact_summary m \<and> (attachment_metadata m \<noteq> None \<or> hook_result_metadata m \<noteq> None) then
        Inl (FormatError ''compact summary messages cannot also be attachments or hook results'')
      else Inr m)"

definition message_fields :: "json_entries \<Rightarrow> string \<Rightarrow> conversation_message session_result" where
  "message_fields es ident =
     try_ok (try_ok (or_format ''missing role'' (get_str es ''role'')) role_from_str) (\<lambda>r.
     try_ok (try_ok (or_format ''missing blocks'' (Option.bind (map_of es ''blocks'') json_array))
         (try_map content_block_from_json)) (\<lambda>bs.
     try_ok (try_option usage_from_json (map_of es ''usage'')) (\<lambda>u.
     try_ok (try_option subtype_from_json (map_of es ''subtype'')) (\<lambda>st.
     try_ok (try_option compact_metadata_from_json (map_of es ''compact_metadata'')) (\<lambda>cm.
     try_ok (try_option attachment_metadata_from_json (map_of es ''attachment_metadata'')) (\<lambda>am.
     try_ok (try_option hook_result_metadata_from_json (map_of es ''hook_result_metadata'')) (\<lambda>hm.
       message_check \<lparr>uuid = ident, role = r, blocks = bs, usage = u, subtype = st, compact_metadata = cm,
         attachment_metadata = am, hook_result_metadata = hm, is_compact_summary = get_bool es ''is_compact_summary'',
         is_visible_in_transcript_only = get_bool es ''is_visible_in_transcript_only'',
         timestamp_ms = (case get_i64 es ''timestamp_ms'' of Some n \<Rightarrow> if 0 \<le> n then nat n else 0 | None \<Rightarrow> 0)\<rparr>)))))))"

definition message_uuid :: "json_entries \<Rightarrow> process \<Rightarrow> string session_result \<times> process" where
  "message_uuid es p =
     (case map_of es ''uuid'' of
        Some j \<Rightarrow>
          (try_ok (or_format ''message uuid must be a string'' (json_str j)) (\<lambda>s.
             if str_trim s = [] then Inl (FormatError ''message uuid cannot be empty'') else Inr s), p)
      | None \<Rightarrow> (let (s, p') = generate_message_uuid p in (Inr s, p')))"

definition message_from_json :: "json_value \<Rightarrow> process \<Rightarrow> conversation_message session_result \<times> process" where
  "message_from_json j p =
     (case json_object j of
        None \<Rightarrow> (Inl (FormatError ''message must be an object''), p)
      | Some es \<Rightarrow> (let (ident, p') = message_uuid es p in (try_ok ident (message_fields es), p')))"

fun messages_from_json :: "json_value list \<Rightarrow> process \<Rightarrow> conversation_message list session_result \<times> process" where
  "messages_from_json [] p = (Inr [], p)"
| "messages_from_json (j # js) p =
     (case message_from_json j p of
        (Inl e, p') \<Rightarrow> (Inl e, p')
      | (Inr m, p') \<Rightarrow>
          (case messages_from_json js p' of
             (Inl e, p'') \<Rightarrow> (Inl e, p'')
           | (Inr ms, p'') \<Rightarrow> (Inr (m # ms), p'')))"

section \<open>The parts of a session\<close>

definition compaction_entries :: "session_compaction \<Rightarrow> (i64 \<Rightarrow> json_value) \<Rightarrow> json_value session_result" where
  "compaction_entries c k = try_ok (i64_from_usize (sc_removed_message_count c) ''removed_message_count'') (\<lambda>n. Inr (k n))"

definition compaction_to_json :: "session_compaction \<Rightarrow> json_value session_result" where
  "compaction_to_json c =
     compaction_entries c (\<lambda>n. json_build
       [put ''count'' (Number (uint (sc_count c))), put ''removed_message_count'' (Number n),
        put ''summary'' (String (sc_summary c))])"

definition compaction_to_jsonl_record :: "session_compaction \<Rightarrow> json_value session_result" where
  "compaction_to_jsonl_record c =
     compaction_entries c (\<lambda>n. json_build
       [put ''type'' (String ''compaction''), put ''count'' (Number (uint (sc_count c))),
        put ''removed_message_count'' (Number n), put ''summary'' (String (sc_summary c))])"

definition compaction_from_json :: "json_value \<Rightarrow> session_compaction session_result" where
  "compaction_from_json j =
     try_ok (or_format ''compaction must be an object'' (json_object j)) (\<lambda>es.
     try_ok (required_u32 es ''count'') (\<lambda>c.
     try_ok (required_usize es ''removed_message_count'') (\<lambda>n.
     try_ok (session_required_string es ''summary'') (\<lambda>s.
       Inr \<lparr>sc_count = c, sc_removed_message_count = n, sc_summary = s\<rparr>))))"

definition fork_to_json :: "session_fork \<Rightarrow> json_value" where
  "fork_to_json f = json_build
     [put ''parent_session_id'' (String (sf_parent_session_id f)), put_some ''branch_name'' String (sf_branch_name f)]"

definition fork_from_json :: "json_value \<Rightarrow> session_fork session_result" where
  "fork_from_json j =
     try_ok (or_format ''fork metadata must be an object'' (json_object j)) (\<lambda>es.
     try_ok (session_required_string es ''parent_session_id'') (\<lambda>s.
       Inr \<lparr>sf_parent_session_id = s, sf_branch_name = get_str es ''branch_name''\<rparr>))"

definition prompt_entry_to_jsonl_record :: "session_prompt_entry \<Rightarrow> json_value" where
  "prompt_entry_to_jsonl_record e = json_build
     [put ''type'' (String ''prompt_history''),
      put ''timestamp_ms'' (Number (if pe_timestamp_ms e < 2 ^ 63 then int (pe_timestamp_ms e) else 2 ^ 63 - 1)),
      put ''text'' (String (pe_text e))]"

definition prompt_entry_from_json_opt :: "json_value \<Rightarrow> session_prompt_entry option" where
  "prompt_entry_from_json_opt j =
     Option.bind (json_object j) (\<lambda>es.
     Option.bind (get_i64 es ''timestamp_ms'') (\<lambda>n.
       if n < 0 then None
       else map_option (\<lambda>t. \<lparr>pe_timestamp_ms = nat n, pe_text = t\<rparr>) (get_str es ''text'')))"

definition skill_to_json :: "invoked_skill \<Rightarrow> json_value" where
  "skill_to_json s = json_build
     [put ''skill'' (String (sk_skill s)),
      put_some ''resolved_name'' String (sk_resolved_name s),
      put_some ''path'' String (sk_path s),
      put_some ''description'' String (sk_description s),
      put_some ''args'' String (sk_args s),
      put ''prompt'' (String (sk_prompt s))]"

definition skill_from_json :: "json_value \<Rightarrow> invoked_skill session_result" where
  "skill_from_json j =
     try_ok (or_format ''invoked skill must be an object'' (json_object j)) (\<lambda>es.
     try_ok (session_required_string es ''skill'') (\<lambda>skill.
     try_ok (session_required_string es ''prompt'') (\<lambda>prompt.
       Inr \<lparr>sk_skill = skill,
            sk_resolved_name = normalize_optional_string (get_str es ''resolved_name''),
            sk_path = normalize_optional_string (get_str es ''path''),
            sk_description = normalize_optional_string (get_str es ''description''),
            sk_args = normalize_optional_string (get_str es ''args''),
            sk_prompt = prompt\<rparr>)))"

definition invoked_skills_from_json :: "json_value \<Rightarrow> invoked_skill list session_result" where
  "invoked_skills_from_json j =
     try_ok (or_format ''invoked_skills must be an array'' (json_array j)) (try_map skill_from_json)"

definition cursors_to_json :: "(string \<times> i64) list \<Rightarrow> json_value" where
  "cursors_to_json cs = Object (map (\<lambda>(k, v). (k, Number v)) cs)"

fun cursors_loop :: "(string \<times> i64) list \<Rightarrow> json_entries \<Rightarrow> (string \<times> i64) list session_result" where
  "cursors_loop cs [] = Inr cs"
| "cursors_loop cs ((k, j) # es) =
     (if str_trim k = [] then Inl (FormatError ''appfs event stream id cannot be empty'')
      else try_ok (or_format (''appfs event cursor for '' @ k @ '' must be a number'') (json_i64 j)) (\<lambda>seq.
        if seq < 0 then Inl (FormatError (''appfs event cursor for '' @ k @ '' cannot be negative''))
        else cursors_loop (btree_insert k seq cs) es))"

definition cursors_from_json :: "json_value \<Rightarrow> (string \<times> i64) list session_result" where
  "cursors_from_json j =
     try_ok (or_format ''appfs_event_cursors must be an object'' (json_object j)) (cursors_loop [])"

definition message_record :: "conversation_message \<Rightarrow> json_value session_result" where
  "message_record m =
     try_ok (message_to_json m) (\<lambda>j. Inr (json_build [put ''type'' (String ''message''), put ''message'' j]))"

definition meta_record :: "session \<Rightarrow> json_value session_result" where
  "meta_record s =
     try_ok (i64_from_u64 (created_at_ms s) ''created_at_ms'') (\<lambda>created.
     try_ok (i64_from_u64 (updated_at_ms s) ''updated_at_ms'') (\<lambda>updated.
     try_ok (try_option workspace_root_to_string (workspace_root s)) (\<lambda>root.
       Inr (json_build
         [put ''type'' (String ''session_meta''),
          put ''version'' (Number (uint (version s))),
          put ''session_id'' (String (session_id s)),
          put ''created_at_ms'' (Number created),
          put ''updated_at_ms'' (Number updated),
          put_some ''fork'' fork_to_json (fork s),
          put_some ''workspace_root'' String root,
          put_some ''appfs_principal_id'' String (appfs_principal_id s),
          put_some ''model'' String (model s),
          put_if (invoked_skills s \<noteq> []) ''invoked_skills'' (Array (map skill_to_json (invoked_skills s))),
          put_if (appfs_event_cursors s \<noteq> []) ''appfs_event_cursors'' (cursors_to_json (appfs_event_cursors s)),
          put_if (appfs_wake_event_cursors s \<noteq> []) ''appfs_wake_event_cursors''
            (cursors_to_json (appfs_wake_event_cursors s))]))))"

end
