(* ===== verification/Agent_Session_Codec.thy ===== *)
theory Agent_Session_Codec
  imports Agent_Session
begin

text \<open>
  The JSON forms of \<open>Agent_Session\<close> are read back: what \<open>to_json\<close> builds is a well-formed value, and
  \<open>from_json\<close> returns the value it was built from.
\<close>

named_theorems codec "lookups in an object that was built, and the readers of fields"

section \<open>Objects\<close>

lemma map_of_btree_insert [codec]: "map_of (btree_insert k v es) = (map_of es)(k \<mapsto> v)"
  by (induction k v es rule: btree_insert.induct) (auto simp: fun_upd_twist)

lemma map_of_put [codec]: "map_of (put k v es) = (map_of es)(k \<mapsto> v)"
  by (simp add: put_def map_of_btree_insert)

definition or_else :: "'a option \<Rightarrow> 'a option \<Rightarrow> 'a option" where
  "or_else x y = (case x of Some z \<Rightarrow> Some z | None \<Rightarrow> y)"

lemma or_else_None [codec]: "or_else x None = x"
  by (simp add: or_else_def split: option.split)

lemma map_of_put_some [codec]:
  "map_of (put_some k f x es) k' = (if k' = k then or_else (map_option f x) (map_of es k) else map_of es k')"
  by (simp add: put_some_def map_of_btree_insert or_else_def split: option.split)

lemma map_of_put_if [codec]:
  "map_of (put_if b k v es) k' = (if k' = k then or_else (if b then Some v else None) (map_of es k) else map_of es k')"
  by (simp add: put_if_def map_of_btree_insert or_else_def)

lemma json_object_build [codec]: "json_object (json_build steps) = Some (fold (\<lambda>step es. step es) steps [])"
  by (simp add: json_build_def json_object_def)

lemma try_ok_Inr [codec]: "try_ok (Inr x) k = k x"
  by (simp add: try_ok_def)

lemma or_format_Some [codec]: "or_format msg (Some x) = Inr x"
  by (simp add: or_format_def)

lemma json_accessors [codec]:
  "json_str (String s) = Some s" "json_i64 (Number n) = Some n" "json_bool (Bool b) = Some b"
  "json_array (Array vs) = Some vs" "json_object (Object es) = Some es"
  by (simp_all add: json_str_def json_i64_def json_bool_def json_array_def json_object_def)

lemma try_map_map: "(\<And>x. x \<in> set xs \<Longrightarrow> f (g x) = Inr x) \<Longrightarrow> try_map f (map g xs) = Inr xs"
  by (induction xs) (simp_all add: try_ok_def)

lemma try_option_map: "(\<And>x. y = Some x \<Longrightarrow> f (g x) = Inr x) \<Longrightarrow> try_option f (map_option g y) = Inr y"
  by (cases y) (simp_all add: try_option_def try_ok_def)

lemma bind_map_option [codec]: "Option.bind (map_option f x) g = Option.bind x (\<lambda>y. g (f y))"
  by (cases x) simp_all

lemma bind_Some_id [codec]: "Option.bind x Some = x"
  by (cases x) simp_all

lemma get_flag [codec]: "(case Option.bind (if b then Some (Bool v) else None) json_bool of Some c \<Rightarrow> c | None \<Rightarrow> False) = (b \<and> v)"
  by (simp add: json_bool_def)

lemmas field_defs [codec] = option.map_id get_str_def get_i64_def get_bool_def session_required_string_def session_optional_string_def

section \<open>Well-formedness of what is built\<close>

definition step_wf :: "(json_entries \<Rightarrow> json_entries) \<Rightarrow> bool" where
  "step_wf f \<longleftrightarrow> (\<forall>es. json_wf (Object es) \<longrightarrow> json_wf (Object (f es)))"

lemma set_btree_insert: "set (btree_insert k v es) \<subseteq> insert (k, v) (set es)"
  by (induction k v es rule: btree_insert.induct) auto

lemma sorted_btree_insert: "sorted_wrt (<) (map fst es) \<Longrightarrow> sorted_wrt (<) (map fst (btree_insert k v es))"
proof (induction k v es rule: btree_insert.induct)
  case (2 k v k' v' kvs)
  have "\<forall>x\<in>fst ` set (btree_insert k v kvs). k' < x" if "\<not> k < k'" "k \<noteq> k'"
    using set_btree_insert [of k v kvs] that "2.prems" by fastforce
  with 2 show ?case by fastforce
qed simp

lemma json_wf_insert:
  "json_wf (Object es) \<Longrightarrow> is_str k \<Longrightarrow> json_wf v \<Longrightarrow> json_wf (Object (btree_insert k v es))"
  using set_btree_insert [of k v es] by (auto simp: sorted_btree_insert)

lemma step_wf_put: "is_str k \<Longrightarrow> json_wf v \<Longrightarrow> step_wf (put k v)"
  unfolding step_wf_def put_def by (intro allI impI json_wf_insert)

lemma step_wf_put_some: "is_str k \<Longrightarrow> (\<And>y. x = Some y \<Longrightarrow> json_wf (f y)) \<Longrightarrow> step_wf (put_some k f x)"
  unfolding step_wf_def put_some_def by (cases x) (auto intro: json_wf_insert simp del: json_wf.simps(6))

lemma step_wf_put_if: "is_str k \<Longrightarrow> (b \<Longrightarrow> json_wf v) \<Longrightarrow> step_wf (put_if b k v)"
  unfolding step_wf_def put_if_def by (cases b) (auto intro: json_wf_insert simp del: json_wf.simps(6))

lemma json_wf_build:
  assumes "list_all step_wf steps"
  shows "json_wf (json_build steps)"
proof -
  have "json_wf (Object es) \<Longrightarrow> json_wf (Object (fold (\<lambda>step es. step es) steps es))" for es
    using assms by (induction steps arbitrary: es) (simp_all add: step_wf_def del: json_wf.simps(6))
  from this [of "[]"] show ?thesis by (simp add: json_build_def)
qed

text \<open>The keys and tags of the source are ASCII.\<close>

lemma is_str_literal: "list_all (\<lambda>c. code c < 128) s \<Longrightarrow> is_str s"
  using all_ascii_chars [of s] by (simp add: list_all_iff)

lemma is_str_Cons_literal [simp]: "code c < 128 \<Longrightarrow> list_all (\<lambda>c. code c < 128) s \<Longrightarrow> is_str (c # s)"
  by (rule is_str_literal) simp

lemma code_Char [simp]:
  "code (Char b0 b1 b2 b3 b4 b5 b6 b7) =
     of_bool b0 + 2 * (of_bool b1 + 2 * (of_bool b2 + 2 * (of_bool b3 + 2 * (of_bool b4 + 2 * (of_bool b5 +
     2 * (of_bool b6 + 2 * of_bool b7))))))"
  by (simp add: code_def of_char_def)

lemmas step_wfs = step_wf_put step_wf_put_some step_wf_put_if

section \<open>Blocks\<close>

definition opt_str :: "string option \<Rightarrow> bool" where
  "opt_str x \<longleftrightarrow> (\<forall>s. x = Some s \<longrightarrow> is_str s)"

definition opt_json :: "json_value option \<Rightarrow> bool" where
  "opt_json x \<longleftrightarrow> (\<forall>j. x = Some j \<longrightarrow> json_wf j)"

definition input_router_wf :: "input_router_block_input \<Rightarrow> bool" where
  "input_router_wf i \<longleftrightarrow>
     is_str (ir_source i) \<and> is_str (ir_input_type i) \<and> is_str (ir_text i) \<and>
     list_all opt_str [ir_event_id i, ir_ts i, ir_client_token i, ir_event_path i, ir_principal_id i, ir_app_id i,
       ir_stream_id i, ir_correlation_id i, ir_delivery i] \<and>
     (\<forall>n. ir_seq i = Some n \<longrightarrow> i64 n) \<and>
     list_all opt_json [ir_payload i, ir_raw_event i, ir_event_render_metadata i]"

fun content_block_wf :: "content_block \<Rightarrow> bool" where
  "content_block_wf (Text t) \<longleftrightarrow> is_str t"
| "content_block_wf (Thinking t signature) \<longleftrightarrow> is_str t \<and> opt_str signature"
| "content_block_wf (RedactedThinking data) \<longleftrightarrow> json_wf data"
| "content_block_wf (InputRouter inputs) \<longleftrightarrow> list_all input_router_wf inputs"
| "content_block_wf (ToolUse i name input) \<longleftrightarrow> is_str i \<and> is_str name \<and> is_str input"
| "content_block_wf (ToolResult i name output is_error) \<longleftrightarrow> is_str i \<and> is_str name \<and> is_str output"

lemma input_router_json_wf: "input_router_wf i \<Longrightarrow> json_wf (input_router_to_json i)"
  unfolding input_router_to_json_def
  by (intro json_wf_build) (auto intro!: step_wfs simp: input_router_wf_def opt_str_def opt_json_def)

lemma input_router_roundtrip: "input_router_from_json (input_router_to_json i) = Inr i"
  by (simp add: input_router_from_json_def input_router_to_json_def codec)

lemma content_block_json_wf: "content_block_wf b \<Longrightarrow> json_wf (content_block_to_json b)"
  unfolding content_block_to_json_def
  by (cases b) (auto intro!: json_wf_build step_wfs simp: list_all_iff opt_str_def input_router_json_wf)

lemma content_block_roundtrip: "content_block_from_json (content_block_to_json b) = Inr b"
proof (cases b)
  case (InputRouter inputs)
  then show ?thesis
    using try_map_map [of inputs input_router_from_json input_router_to_json] input_router_roundtrip
    by (simp add: content_block_from_json_def content_block_to_json_def codec)
qed (simp_all add: content_block_from_json_def content_block_to_json_def codec)

section \<open>Messages\<close>

definition segment_wf :: "compact_preserved_segment \<Rightarrow> bool" where
  "segment_wf p \<longleftrightarrow> is_str (ps_head p) \<and> is_str (ps_anchor p) \<and> is_str (ps_tail p)"

definition compact_metadata_wf :: "compact_boundary_metadata \<Rightarrow> bool" where
  "compact_metadata_wf m \<longleftrightarrow>
     cb_pre_tokens m < 2 ^ 63 \<and> opt_str (cb_user_context m) \<and> (\<forall>n. cb_messages_summarized m = Some n \<longrightarrow> n < 2 ^ 63) \<and>
     list_all is_str (cb_pre_compact_discovered_tools m) \<and> (\<forall>p. cb_preserved_segment m = Some p \<longrightarrow> segment_wf p)"

text \<open>
  A message as the constructors of the source make it: UTF-8 text, a time that fits \<open>i64\<close>, an
  identifier that is not blank, and metadata only where \<open>from_json\<close> allows it.
\<close>

definition message_wf :: "conversation_message \<Rightarrow> bool" where
  "message_wf m \<longleftrightarrow>
     is_str (uuid m) \<and> str_trim (uuid m) \<noteq> [] \<and> list_all content_block_wf (blocks m) \<and>
     (\<forall>c. compact_metadata m = Some c \<longrightarrow> compact_metadata_wf c) \<and>
     (\<forall>h. hook_result_metadata m = Some h \<longrightarrow> is_str (hr_source h)) \<and>
     timestamp_ms m < 2 ^ 63 \<and> message_check m = Inr m"

lemma i64_uint: "i64 (uint (w :: u32))"
proof -
  have "0 \<le> uint w" "uint w < 2 ^ 32" using uint_lt2p [of w] by simp_all
  then show ?thesis unfolding i64_def by (auto intro: order_trans [of _ 0])
qed

lemma i64_int: "n < 2 ^ 63 \<Longrightarrow> i64 (int n)"
  by (simp add: i64_def)

lemma usage_json_wf: "json_wf (usage_to_json u)"
  unfolding usage_to_json_def by (intro json_wf_build) (auto intro!: step_wfs i64_uint)

lemma required_u32_uint: "map_of es k = Some (Number (uint w)) \<Longrightarrow> required_u32 es k = Inr w"
  using uint_lt2p [of w] by (simp add: required_u32_def codec)

lemma usage_roundtrip: "usage_from_json (usage_to_json u) = Inr u"
  by (simp add: usage_from_json_def usage_to_json_def codec required_u32_uint)

lemma segment_json_wf: "segment_wf p \<Longrightarrow> json_wf (preserved_segment_to_json p)"
  unfolding preserved_segment_to_json_def by (intro json_wf_build) (auto intro!: step_wfs simp: segment_wf_def)

lemma segment_roundtrip: "preserved_segment_from_json (preserved_segment_to_json p) = Inr p"
  by (simp add: preserved_segment_from_json_def preserved_segment_to_json_def codec)

lemma hook_result_json_wf: "is_str (hr_source h) \<Longrightarrow> json_wf (hook_result_metadata_to_json h)"
  unfolding hook_result_metadata_to_json_def
  by (intro json_wf_build) (auto intro!: step_wfs simp: hook_result_event_as_str_def split: hook_result_event.split)

lemma hook_result_roundtrip: "hook_result_metadata_from_json (hook_result_metadata_to_json h) = Inr h"
  by (cases "hr_event h") (simp add: hook_result_metadata_from_json_def hook_result_metadata_to_json_def
      hook_result_event_from_json_def hook_result_event_as_str_def codec)

lemma attachment_json_wf: "json_wf (attachment_metadata_to_json k)"
  unfolding attachment_metadata_to_json_def
  by (intro json_wf_build) (auto intro!: step_wfs simp: attachment_kind_as_str_def split: attachment_kind.split)

lemma attachment_roundtrip: "attachment_metadata_from_json (attachment_metadata_to_json k) = Inr k"
  by (cases k) (simp_all add: attachment_metadata_from_json_def attachment_metadata_to_json_def
      attachment_kind_from_json_def attachment_kind_as_str_def codec)

lemma subtype_roundtrip: "subtype_from_json (String (subtype_as_str st)) = Inr st"
  by (cases st) (simp add: subtype_from_json_def subtype_as_str_def codec)

lemma compact_trigger_roundtrip: "compact_trigger_from_json (String (compact_trigger_as_str t)) = Inr t"
  by (cases t) (simp_all add: compact_trigger_from_json_def compact_trigger_as_str_def codec)

lemma required_usize_int: "map_of es k = Some (Number (int n)) \<Longrightarrow> required_usize es k = Inr n"
  by (simp add: required_usize_def codec)

lemma summarized_to_json:
  assumes "\<And>n. x = Some n \<Longrightarrow> n < 2 ^ 63"
  shows "try_option (\<lambda>n. i64_from_usize n k) x = Inr (map_option int x)"
  using assms by (cases x) (simp_all add: try_option_def i64_from_usize_def codec)

lemma compact_metadata_json:
  assumes "compact_metadata_wf m"
  obtains j where "compact_metadata_to_json m = Inr j" "json_wf j" "compact_metadata_from_json j = Inr m"
proof -
  let ?steps = "[put ''trigger'' (String (compact_trigger_as_str (cb_trigger m))),
      put ''pre_tokens'' (Number (int (cb_pre_tokens m))),
      put_some ''user_context'' String (cb_user_context m),
      put_some ''messages_summarized'' Number (map_option int (cb_messages_summarized m)),
      put_if (cb_pre_compact_discovered_tools m \<noteq> []) ''pre_compact_discovered_tools''
        (Array (map String (cb_pre_compact_discovered_tools m))),
      put_some ''preserved_segment'' preserved_segment_to_json (cb_preserved_segment m)]"
  have "compact_metadata_to_json m = Inr (json_build ?steps)"
    using assms by (simp add: compact_metadata_to_json_def compact_metadata_wf_def i64_from_usize_def [of "cb_pre_tokens m"]
        summarized_to_json codec)
  moreover have "json_wf (json_build ?steps)"
    using assms
    by (intro json_wf_build)
      (auto intro!: step_wfs segment_json_wf simp: compact_metadata_wf_def opt_str_def list_all_iff i64_def
        compact_trigger_as_str_def split: compact_trigger.split)
  moreover have "compact_metadata_from_json (json_build ?steps) = Inr m"
  proof -
    have tools: "try_option (try_map (\<lambda>v. or_format msg (json_str v)))
        (Option.bind (if ts \<noteq> [] then Some (Array (map String ts)) else None) json_array) =
        Inr (if ts \<noteq> [] then Some ts else None)" for ts msg
      using try_map_map [of ts "\<lambda>v. or_format msg (json_str v)" String] by (simp add: try_option_def codec)
    have n: "try_option (\<lambda>_. required_usize es k) (map_of es k) = Inr x"
      if "map_of es k = map_option Number (map_option int x)" for es k x
      using that by (cases x) (simp_all add: try_option_def required_usize_int codec)
    show ?thesis
      using segment_roundtrip
      by (simp add: compact_metadata_from_json_def codec tools n required_usize_int compact_trigger_roundtrip try_option_map
          option.map_comp)
  qed
  ultimately show thesis by (rule that)
qed

lemma role_roundtrip: "role_from_str (role_as_str r) = Inr r"
  by (cases r) (simp_all add: role_from_str_def role_as_str_def)

lemma message_json:
  assumes "message_wf m"
  obtains es where "message_to_json m = Inr (Object es)" "json_wf (Object es)"
    "\<And>p. message_from_json (Object es) p = (Inr m, p)"
proof -
  obtain cm where cm: "try_option compact_metadata_to_json (compact_metadata m) = Inr cm"
      "\<And>j. cm = Some j \<Longrightarrow> json_wf j" "try_option compact_metadata_from_json cm = Inr (compact_metadata m)"
  proof (cases "compact_metadata m")
    case None
    then show ?thesis by (intro that [of None]) (simp_all add: try_option_def)
  next
    case (Some c)
    with assms have "compact_metadata_wf c" by (simp add: message_wf_def)
    then obtain j where "compact_metadata_to_json c = Inr j" "json_wf j" "compact_metadata_from_json j = Inr c"
      by (rule compact_metadata_json)
    with Some show ?thesis by (intro that [of "Some j"]) (simp_all add: try_option_def codec)
  qed
  let ?steps = "[put ''uuid'' (String (uuid m)), put ''role'' (String (role_as_str (role m))),
      put ''blocks'' (Array (map content_block_to_json (blocks m))),
      put_some ''usage'' usage_to_json (usage m),
      put_some ''subtype'' (\<lambda>st. String (subtype_as_str st)) (subtype m),
      put_some ''compact_metadata'' id cm,
      put_some ''attachment_metadata'' attachment_metadata_to_json (attachment_metadata m),
      put_some ''hook_result_metadata'' hook_result_metadata_to_json (hook_result_metadata m),
      put_if (is_compact_summary m) ''is_compact_summary'' (Bool True),
      put_if (is_visible_in_transcript_only m) ''is_visible_in_transcript_only'' (Bool True),
      put ''timestamp_ms'' (Number (int (timestamp_ms m)))]"
  let ?es = "fold (\<lambda>step es. step es) ?steps []"
  have "message_to_json m = Inr (Object ?es)"
    using assms cm(1) by (simp add: message_to_json_def message_wf_def i64_from_u64_def json_build_def codec)
  moreover have "json_wf (json_build ?steps)"
    using assms cm(2)
    by (intro json_wf_build)
      (auto intro!: step_wfs simp: message_wf_def list_all_iff i64_def content_block_json_wf usage_json_wf
        attachment_json_wf hook_result_json_wf role_as_str_def subtype_as_str_def
        split: message_role.split system_message_subtype.split)
  then have "json_wf (Object ?es)" by (simp only: json_build_def)
  moreover have "message_from_json (Object ?es) p = (Inr m, p)" for p
  proof -
    have uuid: "message_uuid ?es p = (Inr (uuid m), p)"
      using assms by (simp add: message_uuid_def message_wf_def codec)
    have blocks: "try_map content_block_from_json (map content_block_to_json (blocks m)) = Inr (blocks m)"
      by (rule try_map_map) (rule content_block_roundtrip)
    have m: "\<lparr>uuid = uuid m, role = role m, blocks = blocks m, usage = usage m, subtype = subtype m,
        compact_metadata = compact_metadata m, attachment_metadata = attachment_metadata m,
        hook_result_metadata = hook_result_metadata m, is_compact_summary = is_compact_summary m,
        is_visible_in_transcript_only = is_visible_in_transcript_only m, timestamp_ms = timestamp_ms m\<rparr> = m"
      by simp
    have "message_fields ?es (uuid m) = message_check m"
      using cm(3) by (simp add: m message_fields_def codec role_roundtrip blocks usage_roundtrip attachment_roundtrip
          hook_result_roundtrip try_option_map try_option_map [where g = "\<lambda>st. String (subtype_as_str st)"] subtype_roundtrip)
    with uuid assms show ?thesis
      by (simp add: message_from_json_def message_wf_def json_object_def codec del: fold_simps)
  qed
  ultimately show thesis by (rule that)
qed

section \<open>The parts of a session\<close>

definition compaction_wf :: "session_compaction \<Rightarrow> bool" where
  "compaction_wf c \<longleftrightarrow> sc_removed_message_count c < 2 ^ 63 \<and> is_str (sc_summary c)"

definition fork_wf :: "session_fork \<Rightarrow> bool" where
  "fork_wf f \<longleftrightarrow> is_str (sf_parent_session_id f) \<and> opt_str (sf_branch_name f)"

definition prompt_entry_wf :: "session_prompt_entry \<Rightarrow> bool" where
  "prompt_entry_wf e \<longleftrightarrow> pe_timestamp_ms e < 2 ^ 63 \<and> is_str (pe_text e)"

definition skill_wf :: "invoked_skill \<Rightarrow> bool" where
  "skill_wf k \<longleftrightarrow> is_str (sk_skill k) \<and> opt_str (sk_resolved_name k) \<and> opt_str (sk_path k) \<and>
     opt_str (sk_description k) \<and> opt_str (sk_args k) \<and> is_str (sk_prompt k)"

text \<open>
  What a load makes of a skill: \<open>InvokedSkill::from_json\<close> trims the optional texts and drops those that are blank,
  although they are stored as they were given.
\<close>

definition loaded_skill :: "invoked_skill \<Rightarrow> invoked_skill" where
  "loaded_skill k = k\<lparr>sk_resolved_name := normalize_optional_string (sk_resolved_name k), sk_path := normalize_optional_string (sk_path k),
     sk_description := normalize_optional_string (sk_description k), sk_args := normalize_optional_string (sk_args k)\<rparr>"

definition cursor_wf :: "string \<times> i64 \<Rightarrow> bool" where
  "cursor_wf c \<longleftrightarrow> is_str (fst c) \<and> str_trim (fst c) \<noteq> [] \<and> 0 \<le> snd c \<and> i64 (snd c)"

definition cursors_wf :: "(string \<times> i64) list \<Rightarrow> bool" where
  "cursors_wf cs \<longleftrightarrow> sorted_wrt (<) (map fst cs) \<and> list_all cursor_wf cs"

lemma compaction_json:
  assumes "compaction_wf c"
  obtains es where "compaction_to_jsonl_record c = Inr (Object es)" "json_wf (Object es)"
    "map_of es ''type'' = Some (String ''compaction'')" "compaction_from_json (Object es) = Inr c"
proof -
  let ?steps = "[put ''type'' (String ''compaction''), put ''count'' (Number (uint (sc_count c))),
      put ''removed_message_count'' (Number (int (sc_removed_message_count c))), put ''summary'' (String (sc_summary c))]"
  have "json_wf (json_build ?steps)"
    using assms by (intro json_wf_build) (auto intro!: step_wfs simp: compaction_wf_def i64_uint i64_int)
  with assms show ?thesis
    by (intro that [of "fold (\<lambda>step es. step es) ?steps []"])
      (simp_all only: json_build_def [symmetric],
       simp_all add: compaction_to_jsonl_record_def compaction_entries_def compaction_from_json_def compaction_wf_def
        i64_from_usize_def required_u32_uint required_usize_int codec)
qed

lemma fork_json_wf: "fork_wf f \<Longrightarrow> json_wf (fork_to_json f)"
  unfolding fork_to_json_def by (intro json_wf_build) (auto intro!: step_wfs simp: fork_wf_def opt_str_def)

lemma fork_roundtrip: "fork_from_json (fork_to_json f) = Inr f"
  by (simp add: fork_from_json_def fork_to_json_def codec)

lemma prompt_entry_json_wf: "prompt_entry_wf e \<Longrightarrow> json_wf (prompt_entry_to_jsonl_record e)"
  unfolding prompt_entry_to_jsonl_record_def
  by (intro json_wf_build) (auto intro!: step_wfs simp: prompt_entry_wf_def i64_int)

lemma prompt_entry_roundtrip: "prompt_entry_wf e \<Longrightarrow> prompt_entry_from_json_opt (prompt_entry_to_jsonl_record e) = Some e"
  by (simp add: prompt_entry_from_json_opt_def prompt_entry_to_jsonl_record_def prompt_entry_wf_def codec)

lemma skill_json_wf: "skill_wf k \<Longrightarrow> json_wf (skill_to_json k)"
  unfolding skill_to_json_def
  by (intro json_wf_build) (auto intro!: step_wfs simp: skill_wf_def opt_str_def)

lemma skill_roundtrip: "skill_from_json (skill_to_json k) = Inr (loaded_skill k)"
  by (simp add: skill_from_json_def skill_to_json_def loaded_skill_def codec)

lemma try_map_each: "(\<And>x. f (g x) = Inr (h x)) \<Longrightarrow> try_map f (map g xs) = Inr (map h xs)"
  by (induction xs) (simp_all add: try_ok_def)

lemma skills_roundtrip: "invoked_skills_from_json (Array (map skill_to_json ks)) = Inr (map loaded_skill ks)"
  by (simp add: invoked_skills_from_json_def codec try_map_each skill_roundtrip)

lemma cursors_json_wf: "cursors_wf cs \<Longrightarrow> json_wf (cursors_to_json cs)"
  by (auto simp: cursors_to_json_def cursors_wf_def cursor_wf_def list_all_iff case_prod_beta comp_def)

lemma cursors_loop_back:
  "sorted_wrt (<) (map fst (acc @ cs)) \<Longrightarrow> list_all cursor_wf cs \<Longrightarrow>
    cursors_loop acc (map (\<lambda>(k, v). (k, Number v)) cs) = Inr (acc @ cs)"
proof (induction cs arbitrary: acc)
  case (Cons c cs)
  obtain k v where c: "c = (k, v)" by fastforce
  have "btree_insert k v acc = acc @ [(k, v)]"
    using Cons.prems(1) c by (intro btree_insert_last) (auto simp: sorted_wrt_append)
  with Cons c show ?case by (simp add: cursor_wf_def codec)
qed simp

lemma cursors_roundtrip: "cursors_wf cs \<Longrightarrow> cursors_from_json (cursors_to_json cs) = Inr cs"
  using cursors_loop_back [of "[]" cs]
  by (simp add: cursors_from_json_def cursors_to_json_def cursors_wf_def codec)

text \<open>What the record of the metadata needs; the messages have records of their own.\<close>

definition meta_wf :: "session \<Rightarrow> bool" where
  "meta_wf s \<longleftrightarrow>
     is_str (session_id s) \<and> (\<forall>f. fork s = Some f \<longrightarrow> fork_wf f) \<and> opt_str (workspace_root s) \<and>
     list_all skill_wf (invoked_skills s) \<and> cursors_wf (appfs_event_cursors s) \<and> cursors_wf (appfs_wake_event_cursors s) \<and>
     opt_str (appfs_principal_id s) \<and> opt_str (model s)"

definition session_wf :: "session \<Rightarrow> bool" where
  "session_wf s \<longleftrightarrow> meta_wf s \<and> list_all message_wf (messages s) \<and> list_all prompt_entry_wf (prompt_history s) \<and>
     (\<forall>c. compaction s = Some c \<longrightarrow> compaction_wf c)"

end
