(* ===== verification/Agent_Session_Store.thy ===== *)
theory Agent_Session_Store
  imports Agent_Session_Codec
begin

text \<open>
  The session file: reading and writing the JSONL form, the file operations of \<open>session.rs\<close>
  (atomic write, rotation, clean-up, appending), and the operations of \<open>Session\<close> that keep the
  file up to date. The \<open>world\<close> holds the files and decides which file operation fails, and after
  how many bytes.
\<close>

section \<open>The JSONL form\<close>

text \<open>\<open>str::lines\<close>.\<close>

definition strip_cr :: "string \<Rightarrow> string" where
  "strip_cr l = (if l \<noteq> [] \<and> last l = CHR 0x0D then butlast l else l)"

definition str_lines :: "string \<Rightarrow> string list" where
  "str_lines s = (let parts = str_split (CHR 0x0A) s
     in map strip_cr (butlast parts) @ (if last parts = [] then [] else [last parts]))"

text \<open>\<open>JsonValue::parse\<close>; \<open>parse_returns\<close> shows that the last case does not arise.\<close>

definition json_parse :: "string \<Rightarrow> string + json_value" where
  "json_parse s = (case parse s of Some r \<Rightarrow> r | None \<Rightarrow> Inl ''no result'')"

text \<open>The local variables of \<open>from_jsonl\<close>.\<close>

record jsonl_state =
  jl_version :: u32
  jl_session_id :: "string option"
  jl_created_at_ms :: "u64 option"
  jl_updated_at_ms :: "u64 option"
  jl_messages :: "conversation_message list"
  jl_compaction :: "session_compaction option"
  jl_fork :: "session_fork option"
  jl_workspace_root :: "string option"
  jl_prompt_history :: "session_prompt_entry list"
  jl_invoked_skills :: "invoked_skill list"
  jl_event_cursors :: "(string \<times> i64) list"
  jl_wake_event_cursors :: "(string \<times> i64) list"
  jl_principal_id :: "string option"
  jl_model :: "string option"

definition jsonl_init :: jsonl_state where
  "jsonl_init = \<lparr>jl_version = SESSION_VERSION, jl_session_id = None, jl_created_at_ms = None, jl_updated_at_ms = None,
     jl_messages = [], jl_compaction = None, jl_fork = None, jl_workspace_root = None, jl_prompt_history = [],
     jl_invoked_skills = [], jl_event_cursors = [], jl_wake_event_cursors = [], jl_principal_id = None, jl_model = None\<rparr>"

text \<open>\<open>if let Some(value) = object.get(key) { x = f(value)? }\<close>\<close>

definition try_replace :: "('a \<Rightarrow> 'e + 'b) \<Rightarrow> 'a option \<Rightarrow> 'b \<Rightarrow> 'e + 'b" where
  "try_replace f j old = (case j of Some x \<Rightarrow> f x | None \<Rightarrow> Inr old)"

definition jsonl_meta :: "json_entries \<Rightarrow> jsonl_state \<Rightarrow> jsonl_state session_result" where
  "jsonl_meta es st =
     try_ok (required_u32 es ''version'') (\<lambda>v.
     try_ok (session_required_string es ''session_id'') (\<lambda>sid.
     try_ok (required_u64 es ''created_at_ms'') (\<lambda>created.
     try_ok (required_u64 es ''updated_at_ms'') (\<lambda>updated.
     try_ok (try_option fork_from_json (map_of es ''fork'')) (\<lambda>f.
     try_ok (try_replace invoked_skills_from_json (map_of es ''invoked_skills'') (jl_invoked_skills st)) (\<lambda>skills.
     try_ok (try_replace cursors_from_json (map_of es ''appfs_event_cursors'') (jl_event_cursors st)) (\<lambda>cursors.
     try_ok (try_replace cursors_from_json (map_of es ''appfs_wake_event_cursors'') (jl_wake_event_cursors st)) (\<lambda>wake.
       Inr (st\<lparr>jl_version := v, jl_session_id := Some sid, jl_created_at_ms := Some created, jl_updated_at_ms := Some updated,
         jl_fork := f, jl_workspace_root := get_str es ''workspace_root'', jl_invoked_skills := skills,
         jl_event_cursors := cursors, jl_wake_event_cursors := wake,
         jl_principal_id := get_str es ''appfs_principal_id'', jl_model := get_str es ''model''\<rparr>)))))))))"

definition jsonl_object :: "nat \<Rightarrow> json_entries \<Rightarrow> jsonl_state \<Rightarrow> process \<Rightarrow> jsonl_state session_result \<times> process" where
  "jsonl_object line_number es st p =
     (let at = ''JSONL record at line '' @ to_decimal (line_number + 1)
      in case get_str es ''type'' of
           None \<Rightarrow> (Inl (FormatError (at @ '' missing type'')), p)
         | Some ty \<Rightarrow>
             if ty = ''session_meta'' then (jsonl_meta es st, p)
             else if ty = ''message'' then
               (case map_of es ''message'' of
                  None \<Rightarrow> (Inl (FormatError (at @ '' missing message'')), p)
                | Some j \<Rightarrow>
                    (case message_from_json j p of
                       (Inl e, p') \<Rightarrow> (Inl e, p')
                     | (Inr m, p') \<Rightarrow> (Inr (st\<lparr>jl_messages := jl_messages st @ [m]\<rparr>), p')))
             else if ty = ''compaction'' then
               (try_ok (compaction_from_json (Object es)) (\<lambda>c. Inr (st\<lparr>jl_compaction := Some c\<rparr>)), p)
             else if ty = ''prompt_history'' then
               (Inr (case prompt_entry_from_json_opt (Object es) of
                       Some e \<Rightarrow> st\<lparr>jl_prompt_history := jl_prompt_history st @ [e]\<rparr>
                     | None \<Rightarrow> st), p)
             else (Inl (FormatError (''unsupported JSONL record type at line '' @ to_decimal (line_number + 1) @ '': '' @ ty)), p))"

definition jsonl_line :: "nat \<Rightarrow> string \<Rightarrow> jsonl_state \<Rightarrow> process \<Rightarrow> jsonl_state session_result \<times> process" where
  "jsonl_line line_number raw_line st p =
     (let line = str_trim raw_line
      in if line = [] then (Inr st, p)
         else case json_parse line of
                Inl e \<Rightarrow> (Inl (FormatError (''invalid JSONL record at line '' @ to_decimal (line_number + 1) @ '': '' @ e)), p)
              | Inr value \<Rightarrow>
                  (case json_object value of
                     None \<Rightarrow> (Inl (FormatError (''JSONL record at line '' @ to_decimal (line_number + 1) @ '' must be an object'')), p)
                   | Some es \<Rightarrow> jsonl_object line_number es st p))"

fun jsonl_loop :: "nat \<Rightarrow> string list \<Rightarrow> jsonl_state \<Rightarrow> process \<Rightarrow> jsonl_state session_result \<times> process" where
  "jsonl_loop n [] st p = (Inr st, p)"
| "jsonl_loop n (l # ls) st p =
     (case jsonl_line n l st p of
        (Inl e, p') \<Rightarrow> (Inl e, p')
      | (Inr st', p') \<Rightarrow> jsonl_loop (n + 1) ls st' p')"

definition jsonl_finish :: "jsonl_state \<Rightarrow> process \<Rightarrow> session \<times> process" where
  "jsonl_finish st p =
     (let (now, p1) = current_time_millis p;
          (sid, p2) = (case jl_session_id st of Some i \<Rightarrow> (i, p1) | None \<Rightarrow> generate_session_id p1);
          created = (case jl_created_at_ms st of Some t \<Rightarrow> t | None \<Rightarrow> now)
      in (\<lparr>version = jl_version st, session_id = sid, created_at_ms = created,
           updated_at_ms = (case jl_updated_at_ms st of Some t \<Rightarrow> t | None \<Rightarrow> created),
           messages = jl_messages st, compaction = jl_compaction st, fork = jl_fork st,
           workspace_root = jl_workspace_root st, prompt_history = jl_prompt_history st,
           invoked_skills = jl_invoked_skills st, appfs_event_cursors = jl_event_cursors st,
           appfs_wake_event_cursors = jl_wake_event_cursors st, appfs_principal_id = jl_principal_id st,
           model = jl_model st, persistence = None\<rparr>, p2))"

definition from_jsonl :: "string \<Rightarrow> process \<Rightarrow> session session_result \<times> process" where
  "from_jsonl contents p =
     (case jsonl_loop 0 (str_lines contents) jsonl_init p of
        (Inl e, p') \<Rightarrow> (Inl e, p')
      | (Inr st, p') \<Rightarrow> (let (s, p'') = jsonl_finish st p' in (Inr s, p'')))"

definition snapshot_records :: "session \<Rightarrow> json_value list session_result" where
  "snapshot_records s =
     try_ok (meta_record s) (\<lambda>meta.
     try_ok (case compaction s of
               None \<Rightarrow> Inr []
             | Some c \<Rightarrow> try_ok (compaction_to_jsonl_record c) (\<lambda>j. Inr [j])) (\<lambda>comp.
     try_ok (try_map message_record (messages s)) (\<lambda>msgs.
       Inr ([meta] @ comp @ map prompt_entry_to_jsonl_record (prompt_history s) @ msgs))))"

definition render_jsonl_snapshot :: "session \<Rightarrow> string session_result" where
  "render_jsonl_snapshot s =
     try_ok (snapshot_records s) (\<lambda>rs. Inr (str_join [CHR 0x0A] (map render rs) @ [CHR 0x0A]))"

section \<open>The JSON form\<close>

definition session_to_json :: "session \<Rightarrow> json_value session_result" where
  "session_to_json s =
     try_ok (i64_from_u64 (created_at_ms s) ''created_at_ms'') (\<lambda>created.
     try_ok (i64_from_u64 (updated_at_ms s) ''updated_at_ms'') (\<lambda>updated.
     try_ok (try_map message_to_json (messages s)) (\<lambda>msgs.
     try_ok (try_option compaction_to_json (compaction s)) (\<lambda>comp.
     try_ok (try_option workspace_root_to_string (workspace_root s)) (\<lambda>root.
       Inr (json_build
         [put ''version'' (Number (uint (version s))),
          put ''session_id'' (String (session_id s)),
          put ''created_at_ms'' (Number created),
          put ''updated_at_ms'' (Number updated),
          put ''messages'' (Array msgs),
          put_some ''compaction'' id comp,
          put_some ''fork'' fork_to_json (fork s),
          put_some ''workspace_root'' String root,
          put_if (prompt_history s \<noteq> []) ''prompt_history'' (Array (map prompt_entry_to_jsonl_record (prompt_history s))),
          put_if (invoked_skills s \<noteq> []) ''invoked_skills'' (Array (map skill_to_json (invoked_skills s))),
          put_if (appfs_event_cursors s \<noteq> []) ''appfs_event_cursors'' (cursors_to_json (appfs_event_cursors s)),
          put_if (appfs_wake_event_cursors s \<noteq> []) ''appfs_wake_event_cursors'' (cursors_to_json (appfs_wake_event_cursors s)),
          put_some ''appfs_principal_id'' String (appfs_principal_id s),
          put_some ''model'' String (model s)]))))))"

text \<open>The fields after the messages, with the time \<open>now\<close> and the identifier \<open>sid\<close> for those that are missing.\<close>

definition session_fields ::
  "json_entries \<Rightarrow> u32 \<Rightarrow> conversation_message list \<Rightarrow> u64 \<Rightarrow> string \<Rightarrow> session session_result" where
  "session_fields es v msgs now sid =
     try_ok (try_option (\<lambda>j. required_u64_from_value j ''created_at_ms'') (map_of es ''created_at_ms'')) (\<lambda>created.
     let created = (case created of Some t \<Rightarrow> t | None \<Rightarrow> now) in
     try_ok (try_option (\<lambda>j. required_u64_from_value j ''updated_at_ms'') (map_of es ''updated_at_ms'')) (\<lambda>updated.
     try_ok (try_option compaction_from_json (map_of es ''compaction'')) (\<lambda>comp.
     try_ok (try_option fork_from_json (map_of es ''fork'')) (\<lambda>f.
     try_ok (try_replace invoked_skills_from_json (map_of es ''invoked_skills'') []) (\<lambda>skills.
     try_ok (try_replace cursors_from_json (map_of es ''appfs_event_cursors'') []) (\<lambda>cursors.
     try_ok (try_replace cursors_from_json (map_of es ''appfs_wake_event_cursors'') []) (\<lambda>wake.
       Inr \<lparr>version = v, session_id = sid, created_at_ms = created,
         updated_at_ms = (case updated of Some t \<Rightarrow> t | None \<Rightarrow> created),
         messages = msgs, compaction = comp, fork = f, workspace_root = get_str es ''workspace_root'',
         prompt_history = (case Option.bind (map_of es ''prompt_history'') json_array of
             Some js \<Rightarrow> List.map_filter prompt_entry_from_json_opt js | None \<Rightarrow> []),
         invoked_skills = skills, appfs_event_cursors = cursors, appfs_wake_event_cursors = wake,
         appfs_principal_id = get_str es ''appfs_principal_id'', model = get_str es ''model'', persistence = None\<rparr>)))))))"

definition session_from_json :: "json_value \<Rightarrow> process \<Rightarrow> session session_result \<times> process" where
  "session_from_json j p =
     (case try_ok (or_format ''session must be an object'' (json_object j)) (\<lambda>es.
           try_ok (or_format ''missing version'' (get_i64 es ''version'')) (\<lambda>v.
             if \<not> (0 \<le> v \<and> v < 2 ^ 32) then Inl (FormatError ''version out of range'')
             else try_ok (or_format ''missing messages'' (Option.bind (map_of es ''messages'') json_array)) (\<lambda>js.
               Inr (es, word_of_int v, js)))) of
        Inl e \<Rightarrow> (Inl e, p)
      | Inr (es, v, js) \<Rightarrow>
          (case messages_from_json js p of
             (Inl e, p1) \<Rightarrow> (Inl e, p1)
           | (Inr msgs, p1) \<Rightarrow>
               (let (now, p2) = current_time_millis p1;
                    (sid, p3) = (case get_str es ''session_id'' of Some i \<Rightarrow> (i, p2) | None \<Rightarrow> generate_session_id p2)
                in (session_fields es v msgs now sid, p3))))"

section \<open>Files\<close>

text \<open>
  \<open>fault w n = Some (msg, k)\<close>: the \<open>n\<close>-th file operation fails with \<open>msg\<close>; a write that fails has
  written \<open>j\<close> bytes when \<open>k = Some j\<close>, and has not touched the file when \<open>k = None\<close>. \<open>stamp w n\<close> is
  the modification time it sets, and \<open>unreadable\<close> says of which files the clean-up cannot read it.
\<close>

record disk_file =
  file_text :: string
  modified :: nat

record world =
  proc :: process
  disk :: "(file_path \<times> disk_file) list"
  fault :: "nat \<Rightarrow> (string \<times> nat option) option"
  stamp :: "nat \<Rightarrow> nat"
  unreadable :: "file_path \<Rightarrow> bool"
  ios :: nat

definition ROTATE_AFTER_BYTES :: nat where "ROTATE_AFTER_BYTES = 256 * 1024"
definition MAX_ROTATED_FILES :: nat where "MAX_ROTATED_FILES = 3"

definition on_process :: "(process \<Rightarrow> 'a \<times> process) \<Rightarrow> world \<Rightarrow> 'a \<times> world" where
  "on_process f w = (let (x, p) = f (proc w) in (x, w\<lparr>proc := p\<rparr>))"

definition not_found :: session_error where
  "not_found = IoError ''No such file or directory (os error 2)''"

definition file_at :: "world \<Rightarrow> file_path \<Rightarrow> string option" where
  "file_at w path = map_option file_text (map_of (disk w) path)"

text \<open>A file operation that either fails or does its work; \<open>done_io\<close> counts it.\<close>

definition done_io :: "world \<Rightarrow> world" where
  "done_io w = w\<lparr>ios := ios w + 1\<rparr>"

definition put_file :: "file_path \<Rightarrow> string \<Rightarrow> world \<Rightarrow> world" where
  "put_file path s w = w\<lparr>disk := AList.update path \<lparr>file_text = s, modified = stamp w (ios w)\<rparr> (disk w)\<rparr>"

definition fs_len :: "file_path \<Rightarrow> world \<Rightarrow> nat session_result \<times> world" where
  "fs_len path w =
     (case fault w (ios w) of
        Some (msg, _) \<Rightarrow> (Inl (IoError msg), done_io w)
      | None \<Rightarrow> (case file_at w path of None \<Rightarrow> Inl not_found | Some s \<Rightarrow> Inr (length s), done_io w))"

definition fs_read_to_string :: "file_path \<Rightarrow> world \<Rightarrow> string session_result \<times> world" where
  "fs_read_to_string path w =
     (case fault w (ios w) of
        Some (msg, _) \<Rightarrow> (Inl (IoError msg), done_io w)
      | None \<Rightarrow>
          (case file_at w path of
             None \<Rightarrow> Inl not_found
           | Some s \<Rightarrow> if is_str s then Inr s else Inl (IoError ''stream did not contain valid UTF-8''), done_io w))"

definition fs_write :: "file_path \<Rightarrow> string \<Rightarrow> world \<Rightarrow> unit session_result \<times> world" where
  "fs_write path s w =
     (case fault w (ios w) of
        Some (msg, None) \<Rightarrow> (Inl (IoError msg), done_io w)
      | Some (msg, Some k) \<Rightarrow> (Inl (IoError msg), done_io (put_file path (take k s) w))
      | None \<Rightarrow> (Inr (), done_io (put_file path s w)))"

definition fs_append :: "file_path \<Rightarrow> string \<Rightarrow> world \<Rightarrow> unit session_result \<times> world" where
  "fs_append path s w =
     (case file_at w path of
        None \<Rightarrow> (Inl (case fault w (ios w) of Some (msg, _) \<Rightarrow> IoError msg | None \<Rightarrow> not_found), done_io w)
      | Some old \<Rightarrow>
          (case fault w (ios w) of
             Some (msg, None) \<Rightarrow> (Inl (IoError msg), done_io w)
           | Some (msg, Some k) \<Rightarrow> (Inl (IoError msg), done_io (put_file path (old @ take k s) w))
           | None \<Rightarrow> (Inr (), done_io (put_file path (old @ s) w))))"

definition fs_rename_file :: "file_path \<Rightarrow> file_path \<Rightarrow> world \<Rightarrow> unit session_result \<times> world" where
  "fs_rename_file src dst w =
     (case fault w (ios w) of
        Some (msg, _) \<Rightarrow> (Inl (IoError msg), done_io w)
      | None \<Rightarrow>
          (case map_of (disk w) src of
             None \<Rightarrow> (Inl not_found, done_io w)
           | Some f \<Rightarrow> (Inr (), done_io (w\<lparr>disk := AList.update dst f (AList.delete src (disk w))\<rparr>))))"

definition fs_remove_file :: "file_path \<Rightarrow> world \<Rightarrow> unit session_result \<times> world" where
  "fs_remove_file path w =
     (case fault w (ios w) of
        Some (msg, _) \<Rightarrow> (Inl (IoError msg), done_io w)
      | None \<Rightarrow>
          (case map_of (disk w) path of
             None \<Rightarrow> (Inl not_found, done_io w)
           | Some f \<Rightarrow> (Inr (), done_io (w\<lparr>disk := AList.delete path (disk w)\<rparr>))))"

definition fs_read_dir :: "string \<Rightarrow> world \<Rightarrow> file_path list session_result \<times> world" where
  "fs_read_dir dir w =
     (case fault w (ios w) of
        Some (msg, _) \<Rightarrow> (Inl (IoError msg), done_io w)
      | None \<Rightarrow> (Inr (filter (\<lambda>q. directory q = dir) (map fst (disk w))), done_io w))"

definition fs_create_dir_all :: "string \<Rightarrow> world \<Rightarrow> unit session_result \<times> world" where
  "fs_create_dir_all dir w =
     (case fault w (ios w) of
        Some (msg, _) \<Rightarrow> (Inl (IoError msg), done_io w)
      | None \<Rightarrow> (Inr (), done_io w))"

text \<open>The \<open>?\<close> operator on operations of the world.\<close>

definition then_io :: "(world \<Rightarrow> 'a session_result \<times> world) \<Rightarrow> ('a \<Rightarrow> world \<Rightarrow> 'b session_result \<times> world) \<Rightarrow>
    world \<Rightarrow> 'b session_result \<times> world" where
  "then_io f k w = (case f w of (Inl e, w') \<Rightarrow> (Inl e, w') | (Inr x, w') \<Rightarrow> k x w')"

text \<open>\<open>Path::file_stem\<close> and \<open>Path::extension\<close>: the name is cut at its last dot, unless that is its first character.\<close>

definition split_at_dot :: "string \<Rightarrow> string \<times> string option" where
  "split_at_dot name =
     (let ext = rev (takeWhile (\<lambda>c. c \<noteq> CHR ''.'') (rev name));
          stem = take (length name - length ext - 1) name
      in if name = ''..'' \<or> CHR ''.'' \<notin> set name \<or> stem = [] then (name, None) else (stem, Some ext))"

definition utf8_or_session :: "string \<Rightarrow> string" where
  "utf8_or_session name = (if is_str name then name else ''session'')"

definition temporary_path_for :: "file_path \<Rightarrow> process \<Rightarrow> file_path \<times> process" where
  "temporary_path_for path p =
     (let (now, p1) = current_time_millis p
      in (path\<lparr>file_name := utf8_or_session (file_name path) @ ''.tmp-'' @ to_decimal now @ ''-'' @
            to_decimal (session_id_counter p1)\<rparr>,
          p1\<lparr>session_id_counter := u64_add (session_id_counter p1) 1\<rparr>))"

definition write_atomic :: "file_path \<Rightarrow> string \<Rightarrow> world \<Rightarrow> unit session_result \<times> world" where
  "write_atomic path contents =
     then_io (fs_create_dir_all (directory path)) (\<lambda>_ w.
       let (temp_path, w1) = on_process (temporary_path_for path) w
       in then_io (fs_write temp_path contents) (\<lambda>_. fs_rename_file temp_path path) w1)"

definition rotated_log_path :: "file_path \<Rightarrow> process \<Rightarrow> file_path \<times> process" where
  "rotated_log_path path p =
     (let (now, p1) = current_time_millis p
      in (path\<lparr>file_name := utf8_or_session (fst (split_at_dot (file_name path))) @ ''.rot-'' @ to_decimal now @ ''.jsonl''\<rparr>, p1))"

definition rotate_session_file_if_needed :: "file_path \<Rightarrow> world \<Rightarrow> unit session_result \<times> world" where
  "rotate_session_file_if_needed path w =
     (case fs_len path w of
        (Inl _, w1) \<Rightarrow> (Inr (), w1)
      | (Inr len, w1) \<Rightarrow>
          if len < ROTATE_AFTER_BYTES then (Inr (), w1)
          else let (rotated_path, w2) = on_process (rotated_log_path path) w1 in fs_rename_file path rotated_path w2)"

definition is_rotated :: "file_path \<Rightarrow> file_path \<Rightarrow> bool" where
  "is_rotated path q \<longleftrightarrow>
     is_str (file_name q) \<and>
     starts_with (utf8_or_session (fst (split_at_dot (file_name path))) @ ''.rot-'') (file_name q) \<and>
     (case snd (split_at_dot (file_name q)) of Some ext \<Rightarrow> to_ascii_lowercase ext = ''jsonl'' | None \<Rightarrow> False)"

definition modified_or_epoch :: "world \<Rightarrow> file_path \<Rightarrow> nat" where
  "modified_or_epoch w q = (if unreadable w q then 0 else case map_of (disk w) q of Some f \<Rightarrow> modified f | None \<Rightarrow> 0)"

fun remove_files :: "file_path list \<Rightarrow> world \<Rightarrow> unit session_result \<times> world" where
  "remove_files [] w = (Inr (), w)"
| "remove_files (q # qs) w = then_io (fs_remove_file q) (\<lambda>_. remove_files qs) w"

definition cleanup_rotated_logs :: "file_path \<Rightarrow> world \<Rightarrow> unit session_result \<times> world" where
  "cleanup_rotated_logs path =
     then_io (fs_read_dir (directory path)) (\<lambda>entries w.
       let rotated_paths = sort_key (modified_or_epoch w) (filter (is_rotated path) entries);
           remove_count = length rotated_paths - MAX_ROTATED_FILES
       in remove_files (take remove_count rotated_paths) w)"

definition save_to_path :: "session \<Rightarrow> file_path \<Rightarrow> world \<Rightarrow> unit session_result \<times> world" where
  "save_to_path s path =
     then_io (\<lambda>w. (render_jsonl_snapshot s, w)) (\<lambda>snapshot.
     then_io (rotate_session_file_if_needed path) (\<lambda>_.
     then_io (write_atomic path snapshot) (\<lambda>_.
       cleanup_rotated_logs path)))"

definition load_from_path :: "file_path \<Rightarrow> world \<Rightarrow> session session_result \<times> world" where
  "load_from_path path =
     then_io (fs_read_to_string path) (\<lambda>contents.
     then_io (on_process
       (case json_parse contents of
          Inr value \<Rightarrow>
            (case json_object value of
               Some es \<Rightarrow> if map_of es ''messages'' \<noteq> None then session_from_json value else from_jsonl contents
             | None \<Rightarrow> from_jsonl contents)
        | Inl _ \<Rightarrow> from_jsonl contents)) (\<lambda>s w. (Inr (s\<lparr>persistence := Some path\<rparr>), w)))"

section \<open>Operations of a session\<close>

definition new_session :: "process \<Rightarrow> session \<times> process" where
  "new_session p =
     (let (now, p1) = current_time_millis p; (sid, p2) = generate_session_id p1
      in (\<lparr>version = SESSION_VERSION, session_id = sid, created_at_ms = now, updated_at_ms = now, messages = [],
           compaction = None, fork = None, workspace_root = None, prompt_history = [], invoked_skills = [],
           appfs_event_cursors = [], appfs_wake_event_cursors = [], appfs_principal_id = None, model = None,
           persistence = None\<rparr>, p2))"

definition with_persistence_path :: "file_path \<Rightarrow> session \<Rightarrow> session" where
  "with_persistence_path path s = s\<lparr>persistence := Some path\<rparr>"

definition with_workspace_root :: "string \<Rightarrow> session \<Rightarrow> session" where
  "with_workspace_root root s = s\<lparr>workspace_root := Some root\<rparr>"

definition with_appfs_principal_id :: "string \<Rightarrow> session \<Rightarrow> session" where
  "with_appfs_principal_id principal_id s = s\<lparr>appfs_principal_id := Some principal_id\<rparr>"

definition with_model :: "string \<Rightarrow> session \<Rightarrow> session" where
  "with_model m s = s\<lparr>model := Some m\<rparr>"

definition appfs_event_cursor :: "session \<Rightarrow> string \<Rightarrow> i64 option" where
  "appfs_event_cursor s stream_id = map_of (appfs_event_cursors s) stream_id"

definition appfs_wake_event_cursor :: "session \<Rightarrow> string \<Rightarrow> i64 option" where
  "appfs_wake_event_cursor s stream_id = map_of (appfs_wake_event_cursors s) stream_id"

definition touch :: "session \<Rightarrow> world \<Rightarrow> session \<times> world" where
  "touch s w = (let (now, w1) = on_process current_time_millis w in (s\<lparr>updated_at_ms := now\<rparr>, w1))"

text \<open>The three \<open>append_persisted_\<close> functions: an empty or missing file is written whole.\<close>

definition append_or_bootstrap ::
  "session \<Rightarrow> file_path \<Rightarrow> json_value session_result \<Rightarrow> world \<Rightarrow> unit session_result \<times> world" where
  "append_or_bootstrap s path record w =
     (case fs_len path w of
        (Inl _, w1) \<Rightarrow> save_to_path s path w1
      | (Inr _, w1) \<Rightarrow>
          then_io (fs_len path) (\<lambda>len.
            if len = 0 then save_to_path s path
            else then_io (\<lambda>w. (record, w)) (\<lambda>j. fs_append path (render j @ [CHR 0x0A]))) w1)"

definition append_persisted_message :: "session \<Rightarrow> conversation_message \<Rightarrow> world \<Rightarrow> unit session_result \<times> world" where
  "append_persisted_message s m w =
     (case persistence s of None \<Rightarrow> (Inr (), w) | Some path \<Rightarrow> append_or_bootstrap s path (message_record m) w)"

definition append_persisted_prompt_entry :: "session \<Rightarrow> session_prompt_entry \<Rightarrow> world \<Rightarrow> unit session_result \<times> world" where
  "append_persisted_prompt_entry s e w =
     (case persistence s of
        None \<Rightarrow> (Inr (), w)
      | Some path \<Rightarrow> append_or_bootstrap s path (Inr (prompt_entry_to_jsonl_record e)) w)"

definition append_persisted_meta_to_path :: "session \<Rightarrow> file_path \<Rightarrow> world \<Rightarrow> unit session_result \<times> world" where
  "append_persisted_meta_to_path s path w = append_or_bootstrap s path (meta_record s) w"

type_synonym 'a on_session = "session \<Rightarrow> world \<Rightarrow> 'a session_result \<times> session \<times> world"

definition push_message :: "conversation_message \<Rightarrow> unit on_session" where
  "push_message m s w =
     (let (s1, w1) = touch s w;
          s2 = s1\<lparr>messages := messages s1 @ [m]\<rparr>
      in case append_persisted_message s2 m w1 of
           (Inl e, w2) \<Rightarrow> (Inl e, s2\<lparr>messages := butlast (messages s2)\<rparr>, w2)
         | (Inr _, w2) \<Rightarrow> (Inr (), s2, w2))"

definition push_user_text :: "string \<Rightarrow> unit on_session" where
  "push_user_text t s w = (let (m, w1) = on_process (user_text t) w in push_message m s w1)"

definition record_compaction :: "string \<Rightarrow> u64 \<Rightarrow> session \<Rightarrow> world \<Rightarrow> session \<times> world" where
  "record_compaction summary removed s w =
     (let (s1, w1) = touch s w;
          n = (case compaction s1 of None \<Rightarrow> 1 | Some c \<Rightarrow> sc_count c + 1)
      in (s1\<lparr>compaction := Some \<lparr>sc_count = n, sc_removed_message_count = removed, sc_summary = summary\<rparr>\<rparr>, w1))"

definition identity_key :: "invoked_skill \<Rightarrow> string" where
  "identity_key k = (case sk_resolved_name k of Some n \<Rightarrow> n | None \<Rightarrow> sk_skill k)"

fun upsert_invoked_skill_entry :: "invoked_skill list \<Rightarrow> invoked_skill \<Rightarrow> invoked_skill list" where
  "upsert_invoked_skill_entry [] k = [k]"
| "upsert_invoked_skill_entry (x # xs) k =
     (if to_ascii_lowercase (identity_key x) = to_ascii_lowercase (identity_key k) then k # xs
      else x # upsert_invoked_skill_entry xs k)"

definition upsert_invoked_skill :: "invoked_skill \<Rightarrow> unit on_session" where
  "upsert_invoked_skill k s w =
     (let (s1, w1) = touch s w;
          s2 = s1\<lparr>invoked_skills := upsert_invoked_skill_entry (invoked_skills s1) k\<rparr>
      in case persistence s2 of
           None \<Rightarrow> (Inr (), s2, w1)
         | Some path \<Rightarrow>
             (case save_to_path s2 path w1 of
                (Inl e, w2) \<Rightarrow> (Inl e, s2\<lparr>updated_at_ms := updated_at_ms s, invoked_skills := invoked_skills s\<rparr>, w2)
              | (Inr _, w2) \<Rightarrow> (Inr (), s2, w2)))"

text \<open>The checks of the two cursor updates, whose messages differ in one word.\<close>

fun check_cursors :: "string \<Rightarrow> string \<Rightarrow> (string \<times> i64) list \<Rightarrow> unit session_result" where
  "check_cursors id_word word [] = Inr ()"
| "check_cursors id_word word ((stream_id, seq) # updates) =
     (if str_trim stream_id = [] then Inl (FormatError (''appfs '' @ id_word @ '' stream id cannot be empty''))
      else if seq < 0 then Inl (FormatError (''appfs '' @ word @ '' cursor for '' @ stream_id @ '' cannot be negative''))
      else check_cursors id_word word updates)"

definition insert_cursors :: "(string \<times> i64) list \<Rightarrow> (string \<times> i64) list \<Rightarrow> (string \<times> i64) list" where
  "insert_cursors updates cursors = fold (\<lambda>(k, v) cs. btree_insert k v cs) updates cursors"

definition update_appfs_event_cursors :: "(string \<times> i64) list \<Rightarrow> unit on_session" where
  "update_appfs_event_cursors updates s w =
     (case check_cursors ''event'' ''event'' updates of
        Inl e \<Rightarrow> (Inl e, s, w)
      | Inr _ \<Rightarrow>
          if list_all (\<lambda>(k, v). map_of (appfs_event_cursors s) k = Some v) updates then (Inr (), s, w)
          else
            (let (s1, w1) = touch s w;
                 s2 = s1\<lparr>appfs_event_cursors := insert_cursors updates (appfs_event_cursors s1)\<rparr>
             in case persistence s2 of
                  None \<Rightarrow> (Inr (), s2, w1)
                | Some path \<Rightarrow>
                    (case append_persisted_meta_to_path s2 path w1 of
                       (Inl e, w2) \<Rightarrow> (Inl e, s2\<lparr>updated_at_ms := updated_at_ms s, appfs_event_cursors := appfs_event_cursors s\<rparr>, w2)
                     | (Inr _, w2) \<Rightarrow> (Inr (), s2, w2))))"

definition update_appfs_wake_event_cursors :: "(string \<times> i64) list \<Rightarrow> unit on_session" where
  "update_appfs_wake_event_cursors updates s w =
     (if updates = [] then (Inr (), s, w)
      else case check_cursors ''wake event cursor'' ''wake event'' updates of
        Inl e \<Rightarrow> (Inl e, s, w)
      | Inr _ \<Rightarrow>
          if list_all (\<lambda>(k, v). map_of (appfs_wake_event_cursors s) k = Some v) updates then (Inr (), s, w)
          else
            (let (s1, w1) = touch s w;
                 s2 = s1\<lparr>appfs_wake_event_cursors := insert_cursors updates (appfs_wake_event_cursors s1)\<rparr>
             in case persistence s2 of
                  None \<Rightarrow> (Inr (), s2, w1)
                | Some path \<Rightarrow>
                    (case append_persisted_meta_to_path s2 path w1 of
                       (Inl e, w2) \<Rightarrow>
                         (Inl e, s2\<lparr>updated_at_ms := updated_at_ms s, appfs_wake_event_cursors := appfs_wake_event_cursors s\<rparr>, w2)
                     | (Inr _, w2) \<Rightarrow> (Inr (), s2, w2))))"

definition fork_session :: "string option \<Rightarrow> session \<Rightarrow> process \<Rightarrow> session \<times> process" where
  "fork_session branch_name s p =
     (let (now, p1) = current_time_millis p; (sid, p2) = generate_session_id p1
      in (s\<lparr>session_id := sid, created_at_ms := now, updated_at_ms := now,
           fork := Some \<lparr>sf_parent_session_id = session_id s, sf_branch_name = normalize_optional_string branch_name\<rparr>,
           persistence := None\<rparr>, p2))"

definition push_prompt_entry :: "string \<Rightarrow> unit on_session" where
  "push_prompt_entry t s w =
     (let (now, w1) = on_process current_time_millis w;
          e = \<lparr>pe_timestamp_ms = now, pe_text = t\<rparr>;
          s1 = s\<lparr>prompt_history := prompt_history s @ [e]\<rparr>;
          (r, w2) = append_persisted_prompt_entry s1 e w1
      in (r, s1, w2))"

end
