(* ===== verification/Agent_Session_Persistence.thy ===== *)
theory Agent_Session_Persistence
  imports Agent_Session_Store
begin

text \<open>
  What the session file holds. A file is the text of a list of records, one per line; reading it
  replays the records. The file a session writes is read back as the session, and every
  operation that succeeds keeps it so.
\<close>

section \<open>Lines\<close>

text \<open>
  A text format of one line per value: what the session file relies on. The lines are split where
  they were joined, and each is read as the value it was made of.
\<close>

lemma str_split_line: "c \<notin> set l \<Longrightarrow> str_split c (l @ c # s) = l # str_split c s"
  by (induction l) (auto split: list.split)

lemma str_split_rest: "c \<notin> set l \<Longrightarrow> str_split c l = [l]"
  by (induction l) auto

locale line_format =
  fixes enc :: "'v \<Rightarrow> string" and dec :: "string \<Rightarrow> 'e + 'v" and ok :: "'v \<Rightarrow> bool"
  assumes dec_enc: "ok v \<Longrightarrow> dec (enc v) = Inr v"
    and one_line: "CHR 0x0A \<notin> set (enc v)"
begin

lemma split_lines: "CHR 0x0A \<notin> set t \<Longrightarrow> str_split (CHR 0x0A) (concat (map (\<lambda>v. enc v @ [CHR 0x0A]) vs) @ t) = map enc vs @ [t]"
  by (induction vs) (simp_all add: str_split_line str_split_rest one_line)

lemma join_lines: "vs \<noteq> [] \<Longrightarrow> str_join [CHR 0x0A] (map enc vs) @ [CHR 0x0A] = concat (map (\<lambda>v. enc v @ [CHR 0x0A]) vs)"
proof (induction vs)
  case (Cons v vs)
  then show ?case by (cases vs) simp_all
qed simp

lemma read_lines: "list_all ok vs \<Longrightarrow> map dec (map enc vs) = map Inr vs"
  by (simp add: list_all_iff dec_enc)

end

definition file_records :: "json_value list \<Rightarrow> string" where
  "file_records rs = concat (map (\<lambda>r. render r @ [CHR 0x0A]) rs)"

lemma file_records_append: "file_records (rs @ rs') = file_records rs @ file_records rs'"
  by (simp add: file_records_def)

interpretation json_lines: line_format render json_parse json_wf
  by unfold_locales (simp_all add: json_parse_def parse_render render_one_line del: render.simps)

lemma strip_cr_render [simp]: "strip_cr (render (Object es)) = render (Object es)"
  by (simp add: strip_cr_def)

text \<open>A text after the last line feed, without one itself, is a line too.\<close>

lemma str_lines_records:
  assumes "\<And>r. r \<in> set rs \<Longrightarrow> \<exists>es. r = Object es" "CHR 0x0A \<notin> set t"
  shows "str_lines (file_records rs @ t) = map render rs @ (if t = [] then [] else [t])"
proof -
  have "str_split (CHR 0x0A) (file_records rs @ t) = map render rs @ [t]"
    unfolding file_records_def by (rule json_lines.split_lines [OF assms(2)])
  moreover have "map strip_cr (map render rs) = map render rs"
    using assms(1) strip_cr_render by (intro map_idI) (metis (no_types, lifting) imageE set_map)
  ultimately show ?thesis by (simp add: str_lines_def Let_def)
qed

lemma is_str_file_records: "(\<And>r. r \<in> set rs \<Longrightarrow> json_wf r) \<Longrightarrow> is_str (file_records rs)"
  unfolding file_records_def by (rule is_str_concat) (auto intro!: is_str_append is_str_render)

lemma not_whitespace_ascii: "code c > 32 \<Longrightarrow> code c < 128 \<Longrightarrow> \<not> is_whitespace [c]"
  by (auto simp: is_whitespace_def encode_utf8_def code_def upt_rec)

lemma str_trim_render:
  assumes "json_wf (Object es)"
  shows "str_trim (render (Object es)) = render (Object es)"
proof -
  have s: "is_str (str_join '','' (map render_entry es))"
    using assms is_str_join_entries [of es "\<lambda>_. True"] by auto
  have cs: "chars (render (Object es)) = ''{'' # chars (str_join '','' (map render_entry es)) @ [''}'']"
    using chars_bracket [of "CHR ''{''" "CHR ''}''" "str_join '','' (map render_entry es)"] s
    unfolding render_Object by (simp add: code_def)
  have "\<not> is_whitespace ''{''" "\<not> is_whitespace ''}''" by (rule not_whitespace_ascii; simp add: code_def)+
  then have "str_trim (render (Object es)) = concat (chars (render (Object es)))"
    unfolding str_trim_def cs by simp
  then show ?thesis by (simp only: concat_chars)
qed

lemma jsonl_line_render:
  assumes "json_wf (Object es)"
  shows "jsonl_line n (render (Object es)) st p = jsonl_object n es st p"
proof -
  have "render (Object es) \<noteq> []" by simp
  then show ?thesis
    using assms json_lines.dec_enc [OF assms]
    by (simp add: jsonl_line_def str_trim_render json_object_def Let_def del: render.simps json_wf.simps)
qed

section \<open>Replaying records\<close>

lemma jsonl_loop_append:
  "jsonl_loop n (ls @ ls') st p =
     (case jsonl_loop n ls st p of (Inl e, p') \<Rightarrow> (Inl e, p') | (Inr st', p') \<Rightarrow> jsonl_loop (n + length ls) ls' st' p')"
  by (induction ls arbitrary: n st p) (auto split: prod.split sum.split)

text \<open>\<open>replays rs st\<close>: the records are well-formed objects, and reading them one by one gives \<open>st\<close>.\<close>

definition replays :: "json_value list \<Rightarrow> jsonl_state \<Rightarrow> bool" where
  "replays rs st \<longleftrightarrow> (\<forall>r\<in>set rs. json_wf r \<and> (\<exists>es. r = Object es)) \<and> (\<forall>n p. jsonl_loop n (map render rs) jsonl_init p = (Inr st, p))"

lemma replays_Nil: "replays [] jsonl_init"
  by (simp add: replays_def)

lemma replays_snoc:
  assumes "replays rs st" "json_wf (Object es)" "\<And>n p. jsonl_object n es st p = (Inr st', p)"
  shows "replays (rs @ [Object es]) st'"
  using assms jsonl_line_render [OF assms(2)]
  by (auto simp: replays_def jsonl_loop_append simp del: render.simps json_wf.simps)

lemma replays_message:
  assumes "replays rs st" "message_wf m"
  obtains r where "message_record m = Inr r" "replays (rs @ [r]) (st\<lparr>jl_messages := jl_messages st @ [m]\<rparr>)"
proof -
  obtain es where es: "message_to_json m = Inr (Object es)" "json_wf (Object es)"
      "\<And>p. message_from_json (Object es) p = (Inr m, p)"
    using assms(2) by - (erule message_json, rule that)
  let ?steps = "[put ''type'' (String ''message''), put ''message'' (Object es)]"
  let ?es = "fold (\<lambda>step es. step es) ?steps []"
  have "json_wf (json_build ?steps)" using es(2) by (intro json_wf_build) (auto intro!: step_wfs simp del: json_wf.simps(6))
  then have wf: "json_wf (Object ?es)" by (simp only: json_build_def)
  have "message_record m = Inr (Object ?es)" using es(1) by (simp add: message_record_def json_build_def codec)
  moreover have "jsonl_object n ?es st p = (Inr (st\<lparr>jl_messages := jl_messages st @ [m]\<rparr>), p)" for n p
    using es(3) by (simp add: jsonl_object_def Let_def codec)
  ultimately show ?thesis using replays_snoc [OF assms(1) wf] by (intro that) auto
qed

lemma replays_prompt_entry:
  assumes "replays rs st" "prompt_entry_wf e"
  shows "replays (rs @ [prompt_entry_to_jsonl_record e]) (st\<lparr>jl_prompt_history := jl_prompt_history st @ [e]\<rparr>)"
proof -
  obtain es where es: "prompt_entry_to_jsonl_record e = Object es" by (simp add: prompt_entry_to_jsonl_record_def json_build_def)
  then have ty: "map_of es ''type'' = Some (String ''prompt_history'')"
    by (auto simp: prompt_entry_to_jsonl_record_def json_build_def codec)
  have "jsonl_object n es st p = (Inr (st\<lparr>jl_prompt_history := jl_prompt_history st @ [e]\<rparr>), p)" for n p
    using prompt_entry_roundtrip [OF assms(2)] ty es by (simp add: jsonl_object_def Let_def codec)
  then show ?thesis using replays_snoc [OF assms(1)] prompt_entry_json_wf [OF assms(2)] es by metis
qed

lemma replays_compaction:
  assumes "replays rs st" "compaction_wf c"
  obtains r where "compaction_to_jsonl_record c = Inr r" "replays (rs @ [r]) (st\<lparr>jl_compaction := Some c\<rparr>)"
proof -
  obtain es where es: "compaction_to_jsonl_record c = Inr (Object es)" "json_wf (Object es)"
      "map_of es ''type'' = Some (String ''compaction'')" "compaction_from_json (Object es) = Inr c"
    using assms(2) by (rule compaction_json)
  then have "jsonl_object n es st p = (Inr (st\<lparr>jl_compaction := Some c\<rparr>), p)" for n p
    by (simp add: jsonl_object_def Let_def codec)
  then show ?thesis using replays_snoc [OF assms(1) es(2)] es(1) by (intro that) auto
qed

text \<open>Lists that are empty are not written, so reading keeps what was there.\<close>

definition replay_meta :: "session \<Rightarrow> jsonl_state \<Rightarrow> jsonl_state" where
  "replay_meta s st = st\<lparr>jl_version := version s, jl_session_id := Some (session_id s),
     jl_created_at_ms := Some (created_at_ms s), jl_updated_at_ms := Some (updated_at_ms s), jl_fork := fork s,
     jl_workspace_root := workspace_root s,
     jl_invoked_skills := (if invoked_skills s = [] then jl_invoked_skills st else map loaded_skill (invoked_skills s)),
     jl_event_cursors := (if appfs_event_cursors s = [] then jl_event_cursors st else appfs_event_cursors s),
     jl_wake_event_cursors := (if appfs_wake_event_cursors s = [] then jl_wake_event_cursors st else appfs_wake_event_cursors s),
     jl_principal_id := appfs_principal_id s, jl_model := model s\<rparr>"

lemma workspace_root_json: "opt_str x \<Longrightarrow> try_option workspace_root_to_string x = Inr x"
  by (cases x) (simp_all add: opt_str_def try_option_def workspace_root_to_string_def codec)

lemma required_u64_int: "map_of es k = Some (Number (int n)) \<Longrightarrow> required_u64 es k = Inr n"
  by (simp add: required_u64_def required_u64_from_value_def codec)

lemma try_replace_if: "try_replace f (if b then Some j else None) old = (if b then f j else Inr old)"
  by (simp add: try_replace_def)

lemma meta_record_replays:
  assumes "meta_record s = Inr r" "meta_wf s"
  shows "\<exists>es. r = Object es \<and> json_wf (Object es) \<and> map_of es ''messages'' = None \<and>
    (\<forall>n p st. jsonl_object n es st p = (Inr (replay_meta s st), p))"
proof -
  have bounds: "created_at_ms s < 2 ^ 63" "updated_at_ms s < 2 ^ 63"
    using assms(1) by (auto simp: meta_record_def i64_from_u64_def try_ok_def split: if_splits)
  let ?steps = "[put ''type'' (String ''session_meta''), put ''version'' (Number (uint (version s))),
      put ''session_id'' (String (session_id s)), put ''created_at_ms'' (Number (int (created_at_ms s))),
      put ''updated_at_ms'' (Number (int (updated_at_ms s))), put_some ''fork'' fork_to_json (fork s),
      put_some ''workspace_root'' String (workspace_root s),
      put_some ''appfs_principal_id'' String (appfs_principal_id s), put_some ''model'' String (model s),
      put_if (invoked_skills s \<noteq> []) ''invoked_skills'' (Array (map skill_to_json (invoked_skills s))),
      put_if (appfs_event_cursors s \<noteq> []) ''appfs_event_cursors'' (cursors_to_json (appfs_event_cursors s)),
      put_if (appfs_wake_event_cursors s \<noteq> []) ''appfs_wake_event_cursors'' (cursors_to_json (appfs_wake_event_cursors s))]"
  let ?es = "fold (\<lambda>step es. step es) ?steps []"
  have "r = Object ?es"
    using assms bounds by (simp add: meta_record_def i64_from_u64_def meta_wf_def workspace_root_json json_build_def codec)
  moreover have "json_wf (json_build ?steps)"
    using assms(2) bounds
    by (intro json_wf_build)
      (auto intro!: step_wfs simp: meta_wf_def opt_str_def list_all_iff i64_uint i64_int fork_json_wf skill_json_wf cursors_json_wf)
  then have "json_wf (Object ?es)" by (simp only: json_build_def)
  moreover have "map_of ?es ''messages'' = None" by (simp add: codec)
  moreover have "jsonl_object n ?es st p = (Inr (replay_meta s st), p)" for n p st
    using assms(2)
    by (simp add: jsonl_object_def jsonl_meta_def replay_meta_def meta_wf_def Let_def codec required_u32_uint required_u64_int
        try_option_map fork_roundtrip try_replace_if skills_roundtrip cursors_roundtrip)
  ultimately show ?thesis by blast
qed

section \<open>Snapshots\<close>

text \<open>A session as a load gives it back.\<close>

definition as_loaded :: "session \<Rightarrow> session" where
  "as_loaded s = s\<lparr>invoked_skills := map loaded_skill (invoked_skills s)\<rparr>"

text \<open>What reading the file of \<open>s\<close> ends with when the last metadata record was written at time \<open>t\<close>.\<close>

definition state_of :: "session \<Rightarrow> u64 \<Rightarrow> jsonl_state" where
  "state_of s t = \<lparr>jl_version = version s, jl_session_id = Some (session_id s), jl_created_at_ms = Some (created_at_ms s),
     jl_updated_at_ms = Some t, jl_messages = messages s, jl_compaction = compaction s, jl_fork = fork s,
     jl_workspace_root = workspace_root s, jl_prompt_history = prompt_history s, jl_invoked_skills = map loaded_skill (invoked_skills s),
     jl_event_cursors = appfs_event_cursors s, jl_wake_event_cursors = appfs_wake_event_cursors s,
     jl_principal_id = appfs_principal_id s, jl_model = model s\<rparr>"

lemma replays_prompt_entries:
  "replays rs st \<Longrightarrow> list_all prompt_entry_wf es \<Longrightarrow>
    replays (rs @ map prompt_entry_to_jsonl_record es) (st\<lparr>jl_prompt_history := jl_prompt_history st @ es\<rparr>)"
proof (induction es arbitrary: rs st)
  case (Cons e es)
  then have "replays (rs @ [prompt_entry_to_jsonl_record e]) (st\<lparr>jl_prompt_history := jl_prompt_history st @ [e]\<rparr>)"
    by (simp add: replays_prompt_entry)
  from Cons.IH [OF this] Cons.prems show ?case by simp
qed simp

lemma replays_messages:
  "replays rs st \<Longrightarrow> list_all message_wf ms \<Longrightarrow> try_map message_record ms = Inr js \<Longrightarrow>
    replays (rs @ js) (st\<lparr>jl_messages := jl_messages st @ ms\<rparr>)"
proof (induction ms arbitrary: rs st js)
  case (Cons m ms)
  then have "message_wf m" by simp
  with Cons.prems(1) obtain r where r: "message_record m = Inr r" "replays (rs @ [r]) (st\<lparr>jl_messages := jl_messages st @ [m]\<rparr>)"
    by (rule replays_message)
  with Cons.prems obtain js' where "js = r # js'" "try_map message_record ms = Inr js'"
    by (auto simp: try_ok_def split: sum.splits)
  with Cons.IH [OF r(2)] Cons.prems show ?case by simp
qed simp

text \<open>The first record has no \<open>messages\<close>, so the file is not taken for the older form that is one JSON object.\<close>

definition headed :: "json_value list \<Rightarrow> bool" where
  "headed rs \<longleftrightarrow> (\<exists>es rest. rs = Object es # rest \<and> map_of es ''messages'' = None)"

lemma snapshot_replays:
  assumes "session_wf s" "render_jsonl_snapshot s = Inr txt"
  shows "\<exists>rs. txt = file_records rs \<and> headed rs \<and> replays rs (state_of s (updated_at_ms s))"
proof -
  obtain meta crec msgs where
      meta: "meta_record s = Inr meta" and
      crec: "(case compaction s of None \<Rightarrow> Inr [] | Some c \<Rightarrow> try_ok (compaction_to_jsonl_record c) (\<lambda>j. Inr [j])) = Inr crec" and
      msgs: "try_map message_record (messages s) = Inr msgs" and
      eq: "txt = str_join [CHR 0x0A] (map render ([meta] @ crec @ map prompt_entry_to_jsonl_record (prompt_history s) @ msgs)) @ [CHR 0x0A]"
    using assms(2) by (auto simp: render_jsonl_snapshot_def snapshot_records_def try_ok_def split: sum.splits)
  let ?rs = "[meta] @ crec @ map prompt_entry_to_jsonl_record (prompt_history s) @ msgs"
  have "txt = file_records ?rs"
    unfolding eq file_records_def by (rule json_lines.join_lines) simp
  moreover obtain es where es: "meta = Object es" "json_wf (Object es)" "map_of es ''messages'' = None"
      "\<And>n p st. jsonl_object n es st p = (Inr (replay_meta s st), p)"
    using meta_record_replays [OF meta] assms(1) by (auto simp: session_wf_def)
  moreover have "replays ?rs (state_of s (updated_at_ms s))"
  proof -
    have "replays ([] @ [Object es]) (replay_meta s jsonl_init)"
      by (rule replays_snoc [OF replays_Nil es(2) es(4)])
    then have "replays [meta] (replay_meta s jsonl_init)" using es(1) by simp
    then have "replays ([meta] @ crec) ((replay_meta s jsonl_init)\<lparr>jl_compaction := compaction s\<rparr>)"
    proof (cases "compaction s")
      case None
      with \<open>replays [meta] _\<close> crec show ?thesis by (simp add: replay_meta_def jsonl_init_def)
    next
      case (Some c)
      with assms(1) have "compaction_wf c" by (simp add: session_wf_def)
      with \<open>replays [meta] _\<close> obtain r where "compaction_to_jsonl_record c = Inr r"
          "replays ([meta] @ [r]) ((replay_meta s jsonl_init)\<lparr>jl_compaction := Some c\<rparr>)"
        by (rule replays_compaction)
      with Some crec show ?thesis by (auto simp: try_ok_def)
    qed
    then have "replays (([meta] @ crec) @ map prompt_entry_to_jsonl_record (prompt_history s))
        ((replay_meta s jsonl_init)\<lparr>jl_compaction := compaction s, jl_prompt_history := prompt_history s\<rparr>)"
      using replays_prompt_entries [of "[meta] @ crec" _ "prompt_history s"] assms(1)
      by (force simp: session_wf_def replay_meta_def jsonl_init_def)
    from replays_messages [OF this _ msgs] assms(1) show ?thesis
      by (cases "invoked_skills s = []") (simp_all add: session_wf_def replay_meta_def jsonl_init_def state_of_def cong: if_cong)
  qed
  ultimately show ?thesis by (auto simp: headed_def)
qed

section \<open>Loading\<close>

definition stored :: "file_path \<Rightarrow> session \<Rightarrow> u64 \<Rightarrow> world \<Rightarrow> bool" where
  "stored path s t w \<longleftrightarrow> (\<exists>rs. file_at w path = Some (file_records rs) \<and> headed rs \<and> replays rs (state_of s t))"

lemma json_parse_first_record:
  assumes "json_wf (Object es)" "json_parse (render (Object es) @ CHR 0x0A # t) = Inr v"
  shows "v = Object es"
proof -
  let ?r = "render (Object es)"
  let ?cs = "chars (?r @ CHR 0x0A # t)"
  have cs: "?cs = chars ?r @ [CHR 0x0A] # chars t"
    using is_str_render [OF assms(1)] by (simp only: chars_append) (simp add: chars_ascii)
  have "parse_value (2 * length ?cs + 1) ?cs = Some (Inr (Object es, [CHR 0x0A] # chars t))"
    unfolding cs by (rule parses_backD [OF render_parses_back [OF assms(1)]]) (simp_all add: is_digit_char_def)
  with assms(2) show ?thesis
    by (simp add: json_parse_def parse_def Let_def del: render.simps parse_value.simps json_wf.simps split: if_splits)
qed

lemma jsonl_finish_state_of:
  "\<exists>p'. jsonl_finish (state_of s t) p = ((as_loaded s)\<lparr>updated_at_ms := t, persistence := None\<rparr>, p')"
  by (cases "current_time_millis p") (simp add: jsonl_finish_def state_of_def as_loaded_def)

lemma from_jsonl_replays:
  assumes "replays rs (state_of s t)"
  shows "\<exists>p'. from_jsonl (file_records rs) p = (Inr ((as_loaded s)\<lparr>updated_at_ms := t, persistence := None\<rparr>), p')"
proof -
  have "str_lines (file_records rs @ []) = map render rs"
    using assms by (subst str_lines_records) (auto simp: replays_def)
  with assms jsonl_finish_state_of [of s t p] show ?thesis by (auto simp: from_jsonl_def replays_def)
qed

lemma stored_load:
  assumes "stored path s t w" "fault w (ios w) = None"
  shows "\<exists>w'. load_from_path path w = (Inr ((as_loaded s)\<lparr>updated_at_ms := t, persistence := Some path\<rparr>), w')"
proof -
  obtain rs where rs: "file_at w path = Some (file_records rs)" "headed rs" "replays rs (state_of s t)"
    using assms(1) by (auto simp: stored_def)
  then obtain es rest where es: "rs = Object es # rest" "map_of es ''messages'' = None" by (auto simp: headed_def)
  with rs(3) have wf: "json_wf (Object es)" by (simp add: replays_def)
  have "is_str (file_records rs)" using rs(3) by (intro is_str_file_records) (simp add: replays_def)
  then have read: "fs_read_to_string path w = (Inr (file_records rs), done_io w)"
    using assms(2) rs(1) by (simp add: fs_read_to_string_def)
  have "json_parse (file_records rs) = Inr v \<Longrightarrow> v = Object es" for v
    using json_parse_first_record [OF wf, of "file_records rest" v] es(1) by (simp add: file_records_def del: render.simps)
  then have "(case json_parse (file_records rs) of
      Inr value \<Rightarrow> (case json_object value of
          Some es \<Rightarrow> if map_of es ''messages'' \<noteq> None then session_from_json value else from_jsonl (file_records rs)
        | None \<Rightarrow> from_jsonl (file_records rs))
    | Inl _ \<Rightarrow> from_jsonl (file_records rs)) = from_jsonl (file_records rs)"
    using es(2) by (cases "json_parse (file_records rs)") (simp_all add: json_object_def)
  moreover obtain p' where "from_jsonl (file_records rs) (proc (done_io w)) = (Inr ((as_loaded s)\<lparr>updated_at_ms := t, persistence := None\<rparr>), p')"
    using from_jsonl_replays [OF rs(3)] by blast
  ultimately show ?thesis
    by (simp add: load_from_path_def then_io_def read on_process_def)
qed

end
