(* ===== verification/Agent_Session_Files.thy ===== *)
theory Agent_Session_Files
  imports Agent_Session_Persistence
begin

text \<open>
  What the file operations of a session do to the files, whichever of them fail: the effect of a
  save, and that the session file is neither cut short by a failed save nor removed by the clean-up.
\<close>

section \<open>Paths\<close>

text \<open>An ASCII character ends a character, so what stands before it is UTF-8 by itself.\<close>

lemma is_str_before_ascii:
  assumes "is_str (a @ c # b)" "code c < 128"
  shows "is_str a"
  using assms(1)
proof (induction a rule: length_induct)
  case (1 a)
  show ?case
  proof (cases a)
    case (Cons x xs)
    let ?s = "a @ c # b"
    obtain ch chs where chs: "chars ?s = ch # chs" using Cons by (cases "chars ?s") (auto simp: chars.simps(2) Let_def)
    with "1.prems" have ch: "is_char ch" "list_all is_char chs" by (auto simp: is_str_def)
    have s: "?s = ch @ concat chs" using concat_chars [of ?s] chs by simp
    have "length ch \<le> length a"
    proof (rule ccontr)
      assume long: "\<not> length ch \<le> length a"
      have "ch = take (length ch) ?s" using s by simp
      also have "\<dots> = a @ take (length ch - length a) (c # b)" using long by simp
      finally have "c \<in> set ch" using long by (cases "length ch - length a") auto
      moreover have "length ch \<noteq> 1" using long Cons by auto
      moreover have "ch \<in> set (chars ?s)" using chs by simp
      ultimately show False using chars_high assms(2) by fastforce
    qed
    with s obtain a' where a': "a = ch @ a'" "a' @ c # b = concat chs" by (auto simp: append_eq_append_conv2)
    have "chars (a' @ c # b) = chs" using chars_concat [OF ch(2), of "[]"] a'(2) by simp
    then have "is_str (a' @ c # b)" using ch(2) by (simp add: is_str_def)
    moreover have "length a' < length a" using a'(1) ch(1) by (simp add: is_char_def)
    ultimately have "is_str a'" using "1.IH" by blast
    with a'(1) ch(1) show ?thesis by (simp add: is_str_append is_str_char)
  qed simp
qed

lemma last_dot:
  assumes "CHR ''.'' \<in> set name"
  shows "\<exists>d. name = d @ CHR ''.'' # rev (takeWhile (\<lambda>c. c \<noteq> CHR ''.'') (rev name))"
proof -
  obtain ys zs where "name = ys @ CHR ''.'' # zs" "CHR ''.'' \<notin> set zs" using split_list_last [OF assms] by blast
  then show ?thesis by (auto simp: takeWhile_tail takeWhile_append)
qed

lemma split_at_dot_Some:
  assumes "split_at_dot name = (stem, Some ext)"
  shows "name = stem @ CHR ''.'' # ext"
proof -
  define e where "e = rev (takeWhile (\<lambda>c. c \<noteq> CHR ''.'') (rev name))"
  have dot: "CHR ''.'' \<in> set name" and ext: "ext = e" and stem: "stem = take (length name - length e - 1) name"
    using assms by (auto simp: split_at_dot_def e_def Let_def split: if_splits)
  obtain d where "name = d @ CHR ''.'' # e" using last_dot [OF dot] e_def by blast
  with stem ext show ?thesis by simp
qed

lemma not_rotated_self: "\<not> is_rotated path path"
proof
  assume rot: "is_rotated path path"
  obtain stem ext where split: "split_at_dot (file_name path) = (stem, Some ext)" and ext: "to_ascii_lowercase ext = ''jsonl''"
    using rot by (cases "split_at_dot (file_name path)") (auto simp: is_rotated_def split: option.splits)
  have name: "file_name path = stem @ CHR ''.'' # ext" by (rule split_at_dot_Some [OF split])
  have "is_str stem" using rot is_str_before_ascii [of stem "CHR ''.''" ext] name by (simp add: is_rotated_def)
  then have "starts_with (stem @ ''.rot-'') (stem @ CHR ''.'' # ext)"
    using rot split name by (simp add: is_rotated_def utf8_or_session_def)
  then have "take 4 ext = ''rot-''" by (simp add: starts_with_def)
  then have "ext \<noteq> []" "hd ext = CHR ''r''" by (cases ext; simp)+
  with ext show False by (cases ext) (simp_all add: to_ascii_lowercase_def)
qed

lemma to_decimal_last: "to_decimal n \<noteq> [] \<and> last (to_decimal n) \<noteq> CHR ''l''"
proof -
  have "last (to_decimal n) \<in> set (to_decimal n)" by simp
  then show ?thesis using to_decimal_digits [of "last (to_decimal n)" n] by auto
qed

lemma temporary_path_other:
  assumes "temporary_path_for path p = (temp, p')"
  shows "temp \<noteq> path"
proof -
  obtain n k where name: "file_name temp = utf8_or_session (file_name path) @ ''.tmp-'' @ to_decimal n @ ''-'' @ to_decimal k"
    using assms by (auto simp: temporary_path_for_def Let_def split: prod.splits)
  have "is_str (''.tmp-'' @ to_decimal n @ ''-'' @ to_decimal k)"
    by (rule is_str_literal) (auto simp: list_all_iff dest!: to_decimal_digits)
  moreover have "is_str (utf8_or_session (file_name path))" by (simp add: utf8_or_session_def)
  ultimately have "is_str (file_name temp)" unfolding name by (rule is_str_append [rotated])
  with name show ?thesis by (cases "is_str (file_name path)") (auto simp: utf8_or_session_def)
qed

lemma temporary_path_not_rotated:
  assumes "temporary_path_for path p = (temp, p')" "rotated_log_path path' q = (rot, q')"
  shows "temp \<noteq> rot"
proof -
  obtain a n k where "file_name temp = a @ ''.tmp-'' @ to_decimal n @ ''-'' @ to_decimal k"
    using assms(1) by (auto simp: temporary_path_for_def Let_def split: prod.splits)
  moreover obtain b m where "file_name rot = b @ ''.rot-'' @ to_decimal m @ ''.jsonl''"
    using assms(2) by (auto simp: rotated_log_path_def Let_def split: prod.splits)
  ultimately have "last (file_name temp) \<noteq> last (file_name rot)" using to_decimal_last [of k] by simp
  then show ?thesis by auto
qed

section \<open>Single operations\<close>

lemma file_at_simps [simp]:
  "file_at (done_io w) = file_at w"
  "file_at (w\<lparr>proc := p\<rparr>) = file_at w"
  "file_at (put_file path s w) = (file_at w)(path := Some s)"
  "file_at (w\<lparr>disk := AList.delete path d\<rparr>) q = (if q = path then None else map_option file_text (map_of d q))"
  "file_at (w\<lparr>disk := AList.update path f d\<rparr>) q = (if q = path then Some (file_text f) else map_option file_text (map_of d q))"
  by (auto simp: file_at_def done_io_def put_file_def AList.update_conv' AList.delete_conv' fun_eq_iff)

lemma file_at_on_process: "on_process f w = (x, w') \<Longrightarrow> file_at w' = file_at w"
  by (auto simp: on_process_def split: prod.splits)

lemma fs_len_file: "fs_len path w = (r, w') \<Longrightarrow> file_at w' = file_at w"
  by (auto simp: fs_len_def split: option.splits prod.splits)

lemma fs_read_dir_file: "fs_read_dir dir w = (r, w') \<Longrightarrow> file_at w' = file_at w"
  by (auto simp: fs_read_dir_def split: option.splits prod.splits)

lemma fs_create_dir_all_file: "fs_create_dir_all dir w = (r, w') \<Longrightarrow> file_at w' = file_at w"
  by (auto simp: fs_create_dir_all_def split: option.splits prod.splits)

lemma fs_write_file:
  "fs_write path s w = (r, w') \<Longrightarrow> q \<noteq> path \<Longrightarrow> file_at w' q = file_at w q"
  "fs_write path s w = (Inr u, w') \<Longrightarrow> file_at w' path = Some s"
  by (auto simp: fs_write_def split: option.splits prod.splits)

lemma fs_rename_file:
  assumes "fs_rename_file src dst w = (r, w')"
  shows "file_at w' = file_at w \<or> file_at w' = (file_at w)(src := None, dst := file_at w src) \<and> r = Inr ()"
    and "r = Inr () \<Longrightarrow> file_at w src \<noteq> None \<and> file_at w' = (file_at w)(src := None, dst := file_at w src)"
  using assms
  by (auto simp: fs_rename_file_def file_at_def done_io_def AList.update_conv' AList.delete_conv' fun_eq_iff
      split: option.splits prod.splits)

lemma fs_remove_file_file: "fs_remove_file path w = (r, w') \<Longrightarrow> q \<noteq> path \<Longrightarrow> file_at w' q = file_at w q"
  by (auto simp: fs_remove_file_def file_at_def done_io_def AList.delete_conv' split: option.splits prod.splits)

lemma remove_files_file: "remove_files qs w = (r, w') \<Longrightarrow> q \<notin> set qs \<Longrightarrow> file_at w' q = file_at w q"
proof (induction qs arbitrary: w)
  case (Cons a qs)
  then show ?case
    by (auto simp: then_io_def split: prod.splits sum.splits) (metis fs_remove_file_file)+
qed simp

lemma cleanup_file:
  assumes "cleanup_rotated_logs path w = (r, w')" "\<not> is_rotated path q"
  shows "file_at w' q = file_at w q"
proof -
  obtain d w1 where d: "fs_read_dir (directory path) w = (d, w1)" by fastforce
  show ?thesis
  proof (cases d)
    case (Inl e)
    with d assms(1) fs_read_dir_file [OF d] show ?thesis by (simp add: cleanup_rotated_logs_def then_io_def)
  next
    case (Inr entries)
    let ?rot = "sort_key (modified_or_epoch w1) (filter (is_rotated path) entries)"
    have "remove_files (take (length ?rot - MAX_ROTATED_FILES) ?rot) w1 = (r, w')"
      using assms(1) d Inr by (simp add: cleanup_rotated_logs_def then_io_def Let_def)
    moreover have "q \<notin> set (take (length ?rot - MAX_ROTATED_FILES) ?rot)"
      using assms(2) by (auto dest!: in_set_takeD)
    ultimately show ?thesis using remove_files_file fs_read_dir_file [OF d] by metis
  qed
qed

section \<open>A save\<close>

lemma rotate_file:
  assumes "rotate_session_file_if_needed path w = (r, w')"
  shows "file_at w' = file_at w \<or>
    (\<exists>rot p p'. rotated_log_path path p = (rot, p') \<and> file_at w' = (file_at w)(path := None, rot := file_at w path))"
proof -
  obtain l w1 where l: "fs_len path w = (l, w1)" by fastforce
  obtain rot w2 where rot: "on_process (rotated_log_path path) w1 = (rot, w2)" by fastforce
  then obtain p' where p': "rotated_log_path path (proc w1) = (rot, p')" by (auto simp: on_process_def split: prod.splits)
  from assms l rot have "w' = w1 \<or> fs_rename_file path rot w2 = (r, w')"
    by (auto simp: rotate_session_file_if_needed_def Let_def split: sum.splits if_splits)
  then show ?thesis
  proof
    assume "w' = w1"
    with fs_len_file [OF l] show ?thesis by simp
  next
    assume "fs_rename_file path rot w2 = (r, w')"
    from fs_rename_file(1) [OF this] show ?thesis
      using file_at_on_process [OF rot] fs_len_file [OF l] p' by auto
  qed
qed

lemma write_atomic_file:
  assumes "write_atomic path s w = (r, w')"
  shows "\<exists>temp p p'. temporary_path_for path p = (temp, p') \<and>
    (\<forall>q. q \<noteq> temp \<longrightarrow> q \<noteq> path \<longrightarrow> file_at w' q = file_at w q) \<and>
    (file_at w' path = Some s \<or> file_at w' path = file_at w path \<and> r \<noteq> Inr ())"
proof -
  obtain d w1 where d: "fs_create_dir_all (directory path) w = (d, w1)" by fastforce
  obtain temp w2 where temp: "on_process (temporary_path_for path) w1 = (temp, w2)" by fastforce
  then obtain p' where p': "temporary_path_for path (proc w1) = (temp, p')" by (auto simp: on_process_def split: prod.splits)
  obtain x w3 where x: "fs_write temp s w2 = (x, w3)" by fastforce
  have other: "temp \<noteq> path" by (rule temporary_path_other [OF p'])
  have same: "file_at w2 = file_at w" using file_at_on_process [OF temp] fs_create_dir_all_file [OF d] by simp
  have w3: "\<And>q. q \<noteq> temp \<Longrightarrow> file_at w3 q = file_at w q" using fs_write_file(1) [OF x] same by simp
  consider e where "r = Inl e" "w' = w1" | e where "r = Inl e" "w' = w3" | "x = Inr ()" "fs_rename_file temp path w3 = (r, w')"
    using assms d temp x by (cases d; cases x) (auto simp: write_atomic_def then_io_def Let_def)
  then have "(\<forall>q. q \<noteq> temp \<longrightarrow> q \<noteq> path \<longrightarrow> file_at w' q = file_at w q) \<and>
      (file_at w' path = Some s \<or> file_at w' path = file_at w path \<and> r \<noteq> Inr ())"
  proof cases
    case 1
    with fs_create_dir_all_file [OF d] show ?thesis by simp
  next
    case 2
    with w3 other show ?thesis by simp
  next
    case 3
    have s: "file_at w3 temp = Some s" using fs_write_file(2) x 3(1) by blast
    show ?thesis
    proof (cases "r = Inr ()")
      case True
      with fs_rename_file(2) [OF 3(2)] w3 s show ?thesis by simp
    next
      case False
      with fs_rename_file(1) [OF 3(2)] have "file_at w' = file_at w3" by simp
      with False w3 other show ?thesis by simp
    qed
  qed
  with p' show ?thesis by blast
qed

text \<open>
  Whatever fails, a save leaves the session file as it was, or moved to the name of a rotated log,
  or holding the new snapshot; only the last is reported as success.
\<close>

lemma save_outcomes:
  assumes "save_to_path s path w = (r, w')"
  shows "(\<exists>snap. render_jsonl_snapshot s = Inr snap \<and> file_at w' path = Some snap) \<or>
    r \<noteq> Inr () \<and> (file_at w' path = file_at w path \<or>
      (\<exists>rot p p'. rotated_log_path path p = (rot, p') \<and> file_at w' rot = file_at w path))"
proof (cases "render_jsonl_snapshot s")
  case (Inl e)
  with assms show ?thesis by (auto simp: save_to_path_def then_io_def)
next
  case (Inr snap)
  obtain a w1 where a: "rotate_session_file_if_needed path w = (a, w1)" by fastforce
  obtain b w2 where b: "write_atomic path snap w1 = (b, w2)" by fastforce
  obtain temp p p' where temp: "temporary_path_for path p = (temp, p')"
      "\<And>q. q \<noteq> temp \<Longrightarrow> q \<noteq> path \<Longrightarrow> file_at w2 q = file_at w1 q"
      "file_at w2 path = Some snap \<or> file_at w2 path = file_at w1 path \<and> b \<noteq> Inr ()"
    using write_atomic_file [OF b] by blast
  consider e where "r = Inl e" "w' = w1" | e where "r = Inl e" "w' = w2" | "b = Inr ()" "cleanup_rotated_logs path w2 = (r, w')"
    using assms Inr a b by (cases a; cases b) (auto simp: save_to_path_def then_io_def)
  then show ?thesis
  proof cases
    case 1
    have "file_at w1 path = file_at w path \<or>
      (\<exists>rot p p'. rotated_log_path path p = (rot, p') \<and> file_at w1 rot = file_at w path)"
      using rotate_file [OF a] by (metis fun_upd_same)
    with 1 show ?thesis by simp
  next
    case 2
    have "file_at w2 path = Some snap \<or> file_at w2 path = file_at w path \<or>
      (\<exists>rot p p'. rotated_log_path path p = (rot, p') \<and> file_at w2 rot = file_at w path)"
      using rotate_file [OF a]
    proof
      assume "file_at w1 = file_at w"
      with temp(3) show ?thesis by auto
    next
      assume "\<exists>rot p p'. rotated_log_path path p = (rot, p') \<and> file_at w1 = (file_at w)(path := None, rot := file_at w path)"
      then obtain rot q q' where rot: "rotated_log_path path q = (rot, q')" "file_at w1 rot = file_at w path" by auto
      have "temp \<noteq> rot" by (rule temporary_path_not_rotated [OF temp(1) rot(1)])
      with temp(2) [of rot] temp(3) rot show ?thesis by (cases "rot = path") auto
    qed
    with 2 Inr show ?thesis by auto
  next
    case 3
    with temp(3) cleanup_file [OF 3(2) not_rotated_self] Inr show ?thesis by auto
  qed
qed

lemma save_ok: "save_to_path s path w = (Inr u, w') \<Longrightarrow> \<exists>snap. render_jsonl_snapshot s = Inr snap \<and> file_at w' path = Some snap"
  using save_outcomes by fastforce

lemma save_stored:
  assumes "session_wf s" "save_to_path s path w = (Inr u, w')"
  shows "stored path s (updated_at_ms s) w'"
  using save_ok [OF assms(2)] snapshot_replays [OF assms(1)] by (auto simp: stored_def)

end
