(* ===== verification/Agent_Session_Contract.thy ===== *)
theory Agent_Session_Contract
  imports Agent_Session_Files
begin

text \<open>
  The properties of JSON and of the session file: printing and parsing, saving and loading, and
  the incremental updates of the file between saves.
\<close>

section \<open>Operations that succeed keep the file up to date\<close>

datatype session_call =
    PushMessage conversation_message
  | PushPromptEntry string
  | UpsertInvokedSkill invoked_skill
  | UpdateEventCursors "(string \<times> i64) list"
  | UpdateWakeEventCursors "(string \<times> i64) list"

fun run_session_call :: "session_call \<Rightarrow> unit on_session" where
  "run_session_call (PushMessage m) = push_message m"
| "run_session_call (PushPromptEntry t) = push_prompt_entry t"
| "run_session_call (UpsertInvokedSkill k) = upsert_invoked_skill k"
| "run_session_call (UpdateEventCursors us) = update_appfs_event_cursors us"
| "run_session_call (UpdateWakeEventCursors us) = update_appfs_wake_event_cursors us"

text \<open>What the types of the source guarantee of the arguments, and that the clock fits \<open>i64\<close>.\<close>

fun session_call_wf :: "session_call \<Rightarrow> world \<Rightarrow> bool" where
  "session_call_wf (PushMessage m) w \<longleftrightarrow> message_wf m"
| "session_call_wf (PushPromptEntry t) w \<longleftrightarrow> is_str t \<and> fst (current_time_millis (proc w)) < 2 ^ 63"
| "session_call_wf (UpsertInvokedSkill k) w \<longleftrightarrow> skill_wf k"
| "session_call_wf (UpdateEventCursors us) w \<longleftrightarrow> list_all (\<lambda>u. is_str (fst u) \<and> i64 (snd u)) us"
| "session_call_wf (UpdateWakeEventCursors us) w \<longleftrightarrow> list_all (\<lambda>u. is_str (fst u) \<and> i64 (snd u)) us"

text \<open>A session that has been saved, and operated on by calls that returned \<open>Ok\<close>.\<close>

inductive session_run :: "file_path \<Rightarrow> session \<Rightarrow> world \<Rightarrow> bool" where
  saved: "session_wf s \<Longrightarrow> persistence s = Some path \<Longrightarrow> save_to_path s path w = (Inr (), w') \<Longrightarrow> session_run path s w'"
| called: "session_run path s w \<Longrightarrow> session_call_wf c w \<Longrightarrow> run_session_call c s w = (Inr (), s', w') \<Longrightarrow> session_run path s' w'"

inductive_cases session_runE: "session_run path s w"

definition in_step :: "file_path \<Rightarrow> session \<Rightarrow> world \<Rightarrow> bool" where
  "in_step path s w \<longleftrightarrow> session_wf s \<and> persistence s = Some path \<and> (\<exists>t. stored path s t w)"

lemma stored_file_at: "file_at w' = file_at w \<Longrightarrow> stored path s t w' = stored path s t w"
  by (simp add: stored_def)

lemma touch_cases:
  assumes "touch s w = (s1, w1)"
  obtains now where "s1 = s\<lparr>updated_at_ms := now\<rparr>" "file_at w1 = file_at w"
proof -
  obtain x w2 where x: "on_process current_time_millis w = (x, w2)" by fastforce
  from file_at_on_process [OF x] assms x show ?thesis by (intro that [of x]) (simp_all add: touch_def)
qed

lemma state_of_touch [simp]: "state_of (s\<lparr>updated_at_ms := now\<rparr>) t = state_of s t"
  by (simp add: state_of_def)

lemma state_of_updates:
  "jl_messages (state_of s t) = messages s" "jl_prompt_history (state_of s t) = prompt_history s"
  "(state_of s t)\<lparr>jl_messages := ms\<rparr> = state_of (s\<lparr>messages := ms\<rparr>) t"
  "(state_of s t)\<lparr>jl_prompt_history := es\<rparr> = state_of (s\<lparr>prompt_history := es\<rparr>) t"
  by (simp_all add: state_of_def)

lemma append_or_bootstrap_stored:
  assumes "stored path s t w" "session_wf s'" "append_or_bootstrap s' path record w = (Inr u, w')"
    and law: "\<And>rs r. replays rs (state_of s t) \<Longrightarrow> record = Inr r \<Longrightarrow> \<exists>t'. replays (rs @ [r]) (state_of s' t')"
  shows "\<exists>t'. stored path s' t' w'"
proof -
  obtain a w1 where a: "fs_len path w = (a, w1)" by fastforce
  obtain b w2 where b: "fs_len path w1 = (b, w2)" by fastforce
  have same: "file_at w2 = file_at w" using fs_len_file [OF a] fs_len_file [OF b] by simp
  obtain rs where rs: "file_at w path = Some (file_records rs)" "headed rs" "replays rs (state_of s t)"
    using assms(1) by (auto simp: stored_def)
  consider w0 where "save_to_path s' path w0 = (Inr u, w')"
    | r where "record = Inr r" "fs_append path (render r @ [CHR 0x0A]) w2 = (Inr u, w')"
    using assms(3) a b
    by (auto simp: append_or_bootstrap_def then_io_def split: sum.splits if_splits)
  then show ?thesis
  proof cases
    case 1
    from save_stored [OF assms(2) 1] show ?thesis by blast
  next
    case 2
    obtain t' where t': "replays (rs @ [r]) (state_of s' t')" using law [OF rs(3) 2(1)] by blast
    have "file_at w' path = Some (file_records rs @ render r @ [CHR 0x0A])"
      using 2(2) rs(1) same by (auto simp: fs_append_def split: option.splits)
    then have "file_at w' path = Some (file_records (rs @ [r]))" by (simp add: file_records_append file_records_def)
    moreover have "headed (rs @ [r])" using rs(2) by (auto simp: headed_def)
    ultimately show ?thesis using t' by (auto simp: stored_def)
  qed
qed

lemma insert_cursors_wf:
  assumes "check_cursors a b us = Inr ()" "list_all (\<lambda>u. is_str (fst u) \<and> i64 (snd u)) us" "cursors_wf cs"
  shows "cursors_wf (insert_cursors us cs)"
  using assms
proof (induction us arbitrary: cs)
  case (Cons u us)
  obtain k v where u: "u = (k, v)" by fastforce
  with Cons.prems have "cursor_wf (k, v)" "check_cursors a b us = Inr ()"
    by (auto simp: cursor_wf_def split: if_splits)
  moreover have "cursors_wf (btree_insert k v cs)"
    using Cons.prems(3) \<open>cursor_wf (k, v)\<close> set_btree_insert [of k v cs]
    by (auto simp: cursors_wf_def list_all_iff sorted_btree_insert)
  ultimately show ?case using Cons.IH Cons.prems(2) u by (simp add: insert_cursors_def)
qed (simp add: insert_cursors_def)

lemma btree_insert_not_Nil: "btree_insert k v es \<noteq> []"
  by (cases es) (auto split: if_splits)

lemma insert_cursors_not_Nil: "us \<noteq> [] \<or> cs \<noteq> [] \<Longrightarrow> insert_cursors us cs \<noteq> []"
proof (induction us arbitrary: cs)
  case (Cons u us)
  obtain k v where "u = (k, v)" by fastforce
  with Cons.IH [of "btree_insert k v cs"] show ?case by (simp add: insert_cursors_def btree_insert_not_Nil)
qed (simp add: insert_cursors_def)

text \<open>An operation that rolls the session back when the file could not be written.\<close>

lemma written_cases:
  "(case r of (Inl e, w2) \<Rightarrow> (Inl e, f w2) | (Inr u, w2) \<Rightarrow> (Inr (), s2, w2)) = (Inr (), s', w') \<Longrightarrow>
    r = (Inr (), w') \<and> s' = s2" for r :: "unit session_result \<times> world"
  by (auto split: prod.splits sum.splits)

lemma upsert_skills_wf:
  "list_all skill_wf ks \<Longrightarrow> skill_wf k \<Longrightarrow> list_all skill_wf (upsert_invoked_skill_entry ks k)"
  by (induction ks k rule: upsert_invoked_skill_entry.induct) auto

lemma session_wf_touch [simp]: "session_wf (s\<lparr>updated_at_ms := t\<rparr>) = session_wf s"
  by (simp add: session_wf_def meta_wf_def)

lemma session_wf_push:
  "session_wf s \<Longrightarrow> message_wf m \<Longrightarrow> session_wf (s\<lparr>messages := messages s @ [m]\<rparr>)"
  by (simp add: session_wf_def meta_wf_def)

lemma session_wf_prompt:
  "session_wf s \<Longrightarrow> prompt_entry_wf e \<Longrightarrow> session_wf (s\<lparr>prompt_history := prompt_history s @ [e]\<rparr>)"
  by (simp add: session_wf_def meta_wf_def)

lemma session_wf_skills:
  "session_wf s \<Longrightarrow> skill_wf k \<Longrightarrow>
    session_wf (s\<lparr>invoked_skills := upsert_invoked_skill_entry (invoked_skills s) k\<rparr>)"
  by (simp add: session_wf_def meta_wf_def upsert_skills_wf)

lemma session_wf_cursors:
  "session_wf s \<Longrightarrow> check_cursors a b us = Inr () \<Longrightarrow> list_all (\<lambda>u. is_str (fst u) \<and> i64 (snd u)) us \<Longrightarrow>
    session_wf (s\<lparr>appfs_event_cursors := insert_cursors us (appfs_event_cursors s)\<rparr>)"
  "session_wf s \<Longrightarrow> check_cursors a b us = Inr () \<Longrightarrow> list_all (\<lambda>u. is_str (fst u) \<and> i64 (snd u)) us \<Longrightarrow>
    session_wf (s\<lparr>appfs_wake_event_cursors := insert_cursors us (appfs_wake_event_cursors s)\<rparr>)"
  by (simp_all add: session_wf_def meta_wf_def insert_cursors_wf)

lemma push_message_in_step:
  assumes "in_step path s w" "message_wf m" "push_message m s w = (Inr (), s', w')"
  shows "in_step path s' w'"
proof -
  obtain t where s: "session_wf s" "persistence s = Some path" "stored path s t w" using assms(1) by (auto simp: in_step_def)
  obtain s1 w1 where touch: "touch s w = (s1, w1)" by fastforce
  then obtain now where now: "s1 = s\<lparr>updated_at_ms := now\<rparr>" "file_at w1 = file_at w" by (rule touch_cases)
  have s1: "session_wf s1" "persistence s1 = Some path" "state_of s1 t = state_of s t" using s(1,2) now(1) by simp_all
  let ?s2 = "s1\<lparr>messages := messages s1 @ [m]\<rparr>"
  have "append_persisted_message ?s2 m w1 = (Inr (), w') \<and> s' = ?s2"
    using assms(3) touch by (intro written_cases) (simp add: push_message_def Let_def)
  then have app: "append_or_bootstrap ?s2 path (message_record m) w1 = (Inr (), w')" and s': "s' = ?s2"
    using s1(2) by (simp_all add: append_persisted_message_def)
  have wf: "session_wf ?s2" using s1(1) assms(2) by (rule session_wf_push)
  have "\<exists>t'. stored path ?s2 t' w'"
  proof (rule append_or_bootstrap_stored [OF _ wf app])
    show "stored path s t w1" using s(3) stored_file_at [OF now(2)] by simp
    show "\<exists>t'. replays (rs @ [r]) (state_of ?s2 t')" if rs: "replays rs (state_of s t)" and r: "message_record m = Inr r" for rs r
    proof -
      obtain r' where r': "message_record m = Inr r'" "replays (rs @ [r']) ((state_of s t)\<lparr>jl_messages := jl_messages (state_of s t) @ [m]\<rparr>)"
        using rs assms(2) by (rule replays_message)
      have "replays (rs @ [r]) (state_of (s\<lparr>messages := messages s @ [m]\<rparr>) t)"
        using r r' by (simp only: state_of_updates sum.inject)
      moreover have "state_of ?s2 t = state_of (s\<lparr>messages := messages s @ [m]\<rparr>) t" using now(1) by (simp add: state_of_def)
      ultimately have "replays (rs @ [r]) (state_of ?s2 t)" by (simp only:)
      then show ?thesis by (rule exI)
    qed
  qed
  moreover have "persistence ?s2 = Some path" using s1(2) by simp
  ultimately show ?thesis unfolding in_step_def s' by (intro conjI wf)
qed

lemma push_prompt_entry_in_step:
  assumes "in_step path s w" "is_str x" "fst (current_time_millis (proc w)) < 2 ^ 63" "push_prompt_entry x s w = (Inr (), s', w')"
  shows "in_step path s' w'"
proof -
  obtain t where s: "session_wf s" "persistence s = Some path" "stored path s t w" using assms(1) by (auto simp: in_step_def)
  obtain now w1 where now: "on_process current_time_millis w = (now, w1)" by fastforce
  let ?e = "\<lparr>pe_timestamp_ms = now, pe_text = x\<rparr>"
  let ?s1 = "s\<lparr>prompt_history := prompt_history s @ [?e]\<rparr>"
  have e: "prompt_entry_wf ?e" using assms(2,3) now by (auto simp: prompt_entry_wf_def on_process_def split: prod.splits)
  have app: "append_or_bootstrap ?s1 path (Inr (prompt_entry_to_jsonl_record ?e)) w1 = (Inr (), w')"
    and s': "s' = ?s1"
  proof -
    obtain r w2 where rw: "append_or_bootstrap ?s1 path (Inr (prompt_entry_to_jsonl_record ?e)) w1 = (r, w2)" by fastforce
    then have "push_prompt_entry x s w = (r, ?s1, w2)"
      using now s(2) by (simp add: push_prompt_entry_def append_persisted_prompt_entry_def Let_def)
    with assms(4) rw show "append_or_bootstrap ?s1 path (Inr (prompt_entry_to_jsonl_record ?e)) w1 = (Inr (), w')" "s' = ?s1"
      by (simp_all only: prod.inject)
  qed
  have wf: "session_wf ?s1" using s(1) e by (rule session_wf_prompt)
  have "\<exists>t'. stored path ?s1 t' w'"
  proof (rule append_or_bootstrap_stored [OF _ wf app])
    show "stored path s t w1" using s(3) stored_file_at [OF file_at_on_process [OF now]] by simp
    show "\<exists>t'. replays (rs @ [r]) (state_of ?s1 t')"
      if rs: "replays rs (state_of s t)" and r: "Inr (prompt_entry_to_jsonl_record ?e) = (Inr r :: json_value session_result)" for rs r
    proof -
      have "replays (rs @ [r]) (state_of ?s1 t)"
        using replays_prompt_entry [OF rs e] r by (simp only: state_of_updates sum.inject)
      then show ?thesis by (rule exI)
    qed
  qed
  moreover have "persistence ?s1 = Some path" using s(2) by simp
  ultimately show ?thesis unfolding in_step_def s' by (intro conjI wf)
qed

lemma upsert_in_step:
  assumes "in_step path s w" "skill_wf k" "upsert_invoked_skill k s w = (Inr (), s', w')"
  shows "in_step path s' w'"
proof -
  have s: "session_wf s" "persistence s = Some path" using assms(1) by (auto simp: in_step_def)
  obtain s1 w1 where touch: "touch s w = (s1, w1)" by fastforce
  let ?s2 = "s1\<lparr>invoked_skills := upsert_invoked_skill_entry (invoked_skills s1) k\<rparr>"
  from touch obtain now where "s1 = s\<lparr>updated_at_ms := now\<rparr>" by (rule touch_cases)
  with s have s1: "session_wf s1" "persistence s1 = Some path" by simp_all
  have wf: "session_wf ?s2" using s1(1) assms(2) by (rule session_wf_skills)
  have "save_to_path ?s2 path w1 = (Inr (), w') \<and> s' = ?s2"
    using assms(3) touch s1(2) by (intro written_cases) (simp add: upsert_invoked_skill_def Let_def)
  with save_stored [OF wf, of path w1 "()" w'] wf s1(2) show ?thesis by (auto simp: in_step_def)
qed

text \<open>A metadata record replaces what an earlier one said.\<close>

lemma append_meta_in_step:
  assumes "stored path s t w" "session_wf s'" "persistence s' = Some path"
    and "append_persisted_meta_to_path s' path w = (Inr (), w')"
    and "replay_meta s' (state_of s t) = state_of s' (updated_at_ms s')"
  shows "in_step path s' w'"
proof -
  have "\<exists>t'. stored path s' t' w'"
  proof (rule append_or_bootstrap_stored [OF assms(1,2)])
    show "append_or_bootstrap s' path (meta_record s') w = (Inr (), w')"
      using assms(4) by (simp add: append_persisted_meta_to_path_def)
    show "\<exists>t'. replays (rs @ [r]) (state_of s' t')" if rs: "replays rs (state_of s t)" and r: "meta_record s' = Inr r" for rs r
    proof -
      obtain es where es: "r = Object es" "json_wf (Object es)" "\<And>n p st. jsonl_object n es st p = (Inr (replay_meta s' st), p)"
        using meta_record_replays [OF r] assms(2) by (auto simp: session_wf_def)
      have "replays (rs @ [Object es]) (replay_meta s' (state_of s t))" by (rule replays_snoc [OF rs es(2,3)])
      with es(1) assms(5) show ?thesis by auto
    qed
  qed
  with assms(2,3) show ?thesis by (simp add: in_step_def)
qed

lemma update_cursors_in_step:
  assumes "in_step path s w" "list_all (\<lambda>u. is_str (fst u) \<and> i64 (snd u)) us" "update_appfs_event_cursors us s w = (Inr (), s', w')"
  shows "in_step path s' w'"
proof (cases "s' = s \<and> w' = w")
  case False
  obtain t where s: "session_wf s" "persistence s = Some path" "stored path s t w" using assms(1) by (auto simp: in_step_def)
  obtain s1 w1 where touch: "touch s w = (s1, w1)" by fastforce
  then obtain now where now: "s1 = s\<lparr>updated_at_ms := now\<rparr>" "file_at w1 = file_at w" by (rule touch_cases)
  have s1: "session_wf s1" "persistence s1 = Some path" "state_of s1 t = state_of s t" using s(1,2) now(1) by simp_all
  let ?s2 = "s1\<lparr>appfs_event_cursors := insert_cursors us (appfs_event_cursors s1)\<rparr>"
  have check: "check_cursors ''event'' ''event'' us = Inr ()"
    using assms(3) by (cases "check_cursors ''event'' ''event'' us") (simp_all add: update_appfs_event_cursors_def split: if_splits)
  have new: "\<not> list_all (\<lambda>(k, v). map_of (appfs_event_cursors s) k = Some v) us"
    using assms(3) check False by (intro notI) (simp add: update_appfs_event_cursors_def)
  then have "us \<noteq> []" by auto
  have "append_persisted_meta_to_path ?s2 path w1 = (Inr (), w') \<and> s' = ?s2"
    using assms(3) check new touch s1(2) \<open>us \<noteq> []\<close> by (intro written_cases) (simp add: update_appfs_event_cursors_def Let_def)
  then have app: "append_persisted_meta_to_path ?s2 path w1 = (Inr (), w')" and s': "s' = ?s2" by simp_all
  have wf: "session_wf ?s2"
    using s1(1) check assms(2) by (rule session_wf_cursors(1))
  have "in_step path ?s2 w'"
  proof (rule append_meta_in_step [OF _ wf _ app])
    show "stored path s t w1" using s(3) stored_file_at [OF now(2)] by simp
    show "replay_meta ?s2 (state_of s t) = state_of ?s2 (updated_at_ms ?s2)"
      using insert_cursors_not_Nil [OF disjI1 [OF \<open>us \<noteq> []\<close>]] s1(3) [symmetric] by (simp add: replay_meta_def state_of_def)
  qed (use s1(2) in simp)
  with s' show ?thesis by simp
qed (use assms(1) in simp)

lemma update_wake_cursors_in_step:
  assumes "in_step path s w" "list_all (\<lambda>u. is_str (fst u) \<and> i64 (snd u)) us" "update_appfs_wake_event_cursors us s w = (Inr (), s', w')"
  shows "in_step path s' w'"
proof (cases "s' = s \<and> w' = w")
  case False
  obtain t where s: "session_wf s" "persistence s = Some path" "stored path s t w" using assms(1) by (auto simp: in_step_def)
  obtain s1 w1 where touch: "touch s w = (s1, w1)" by fastforce
  then obtain now where now: "s1 = s\<lparr>updated_at_ms := now\<rparr>" "file_at w1 = file_at w" by (rule touch_cases)
  have s1: "session_wf s1" "persistence s1 = Some path" "state_of s1 t = state_of s t" using s(1,2) now(1) by simp_all
  let ?s2 = "s1\<lparr>appfs_wake_event_cursors := insert_cursors us (appfs_wake_event_cursors s1)\<rparr>"
  have check: "check_cursors ''wake event cursor'' ''wake event'' us = Inr ()"
    using assms(3) by (cases "check_cursors ''wake event cursor'' ''wake event'' us") (simp_all add: update_appfs_wake_event_cursors_def split: if_splits)
  have new: "\<not> list_all (\<lambda>(k, v). map_of (appfs_wake_event_cursors s) k = Some v) us"
    using assms(3) check False by (intro notI) (simp add: update_appfs_wake_event_cursors_def split: if_splits)
  then have "us \<noteq> []" by auto
  have "append_persisted_meta_to_path ?s2 path w1 = (Inr (), w') \<and> s' = ?s2"
    using assms(3) check new touch s1(2) \<open>us \<noteq> []\<close> by (intro written_cases) (simp add: update_appfs_wake_event_cursors_def Let_def)
  then have app: "append_persisted_meta_to_path ?s2 path w1 = (Inr (), w')" and s': "s' = ?s2" by simp_all
  have wf: "session_wf ?s2"
    using s1(1) check assms(2) by (rule session_wf_cursors(2))
  have "in_step path ?s2 w'"
  proof (rule append_meta_in_step [OF _ wf _ app])
    show "stored path s t w1" using s(3) stored_file_at [OF now(2)] by simp
    show "replay_meta ?s2 (state_of s t) = state_of ?s2 (updated_at_ms ?s2)"
      using insert_cursors_not_Nil [OF disjI1 [OF \<open>us \<noteq> []\<close>]] s1(3) [symmetric] by (simp add: replay_meta_def state_of_def)
  qed (use s1(2) in simp)
  with s' show ?thesis by simp
qed (use assms(1) in simp)

lemma session_run_in_step: "session_run path s w \<Longrightarrow> in_step path s w"
proof (induction rule: session_run.induct)
  case (saved s path w w')
  with save_stored [OF saved(1,3)] show ?case by (auto simp: in_step_def)
next
  case (called path s w c s' w')
  then show ?case
    by (cases c) (auto intro: push_message_in_step push_prompt_entry_in_step upsert_in_step update_cursors_in_step
        update_wake_cursors_in_step)
qed

section \<open>A torn append\<close>

text \<open>A write that stops after its first byte leaves a line that no reader accepts.\<close>

lemma json_parse_brace: "json_parse ''{'' = Inl (''expected '' @ [CHR 0x27, CHR 0x22, CHR 0x27] @ '', found end of input'')"
  by code_simp

lemma str_trim_brace: "str_trim ''{'' = ''{''"
  by code_simp

lemma from_jsonl_torn:
  assumes "replays rs st"
  shows "\<exists>e. from_jsonl (file_records rs @ ''{'') p = (Inl (FormatError e), p)"
proof -
  have "str_lines (file_records rs @ ''{'') = map render rs @ [''{'']"
    using assms by (subst str_lines_records) (auto simp: replays_def)
  with assms show ?thesis
    by (simp add: from_jsonl_def jsonl_loop_append replays_def jsonl_line_def str_trim_brace json_parse_brace Let_def)
qed

lemma load_torn:
  assumes "file_at w path = Some (file_records rs @ ''{'')" "headed rs" "replays rs st" "fault w (ios w) = None"
  shows "\<exists>e w'. load_from_path path w = (Inl (FormatError e), w')"
proof -
  let ?c = "file_records rs @ ''{''"
  obtain es rest where es: "rs = Object es # rest" "map_of es ''messages'' = None" using assms(2) by (auto simp: headed_def)
  with assms(3) have wf: "json_wf (Object es)" by (simp add: replays_def)
  have "is_str ?c" using assms(3) by (intro is_str_append is_str_file_records) (simp_all add: replays_def)
  then have read: "fs_read_to_string path w = (Inr ?c, done_io w)" using assms(1,4) by (simp add: fs_read_to_string_def)
  have "json_parse ?c = Inr v \<Longrightarrow> v = Object es" for v
    using json_parse_first_record [OF wf, of "file_records rest @ ''{''" v] es(1) by (simp add: file_records_def del: render.simps)
  then have "(case json_parse ?c of
      Inr value \<Rightarrow> (case json_object value of
          Some es \<Rightarrow> if map_of es ''messages'' \<noteq> None then session_from_json value else from_jsonl ?c
        | None \<Rightarrow> from_jsonl ?c)
    | Inl _ \<Rightarrow> from_jsonl ?c) = from_jsonl ?c"
    using es(2) by (cases "json_parse ?c") (simp_all add: json_object_def)
  moreover obtain e where "from_jsonl ?c (proc (done_io w)) = (Inl (FormatError e), proc (done_io w))"
    using from_jsonl_torn [OF assms(3)] by blast
  ultimately show ?thesis by (simp add: load_from_path_def then_io_def read on_process_def)
qed

lemma torn_append_or_bootstrap:
  assumes "stored path s t w" "fault w (ios w) = None" "fault w (ios w + 1) = None" "fault w (ios w + 2) = Some (msg, Some 1)"
  shows "\<exists>rs. headed rs \<and> replays rs (state_of s t) \<and>
    append_or_bootstrap s' path (Inr (Object es)) w =
      (Inl (IoError msg), done_io (put_file path (file_records rs @ ''{'') (done_io (done_io w))))"
proof -
  obtain rs where rs: "file_at w path = Some (file_records rs)" "headed rs" "replays rs (state_of s t)"
    using assms(1) by (auto simp: stored_def)
  then have "file_records rs \<noteq> []" by (auto simp: headed_def file_records_def)
  have io: "fault (done_io w) = fault w" "ios (done_io w) = ios w + 1" for w by (simp_all add: done_io_def)
  have "append_or_bootstrap s' path (Inr (Object es)) w =
      (Inl (IoError msg), done_io (put_file path (file_records rs @ ''{'') (done_io (done_io w))))"
    using assms(2-4) rs(1) \<open>file_records rs \<noteq> []\<close>
    by (simp add: append_or_bootstrap_def fs_len_def then_io_def fs_append_def io)
  with rs show ?thesis by blast
qed

section \<open>Rotated logs\<close>

lemma filter_not_taken: "length (filter (\<lambda>x. x \<notin> set (take k xs)) xs) \<le> length xs - k"
proof -
  have "filter (\<lambda>x. x \<notin> set (take k xs)) (take k xs) = []" by (auto simp: filter_empty_conv)
  then have "filter (\<lambda>x. x \<notin> set (take k xs)) xs = filter (\<lambda>x. x \<notin> set (take k xs)) (drop k xs)"
    by (metis append_Nil append_take_drop_id filter_append)
  moreover have "length (filter (\<lambda>x. x \<notin> set (take k xs)) (drop k xs)) \<le> length (drop k xs)" by (rule length_filter_le)
  ultimately show ?thesis by simp
qed

lemma fs_remove_file_keys:
  "fs_remove_file q w = (Inr u, w') \<Longrightarrow> map fst (disk w') = filter (\<lambda>x. x \<noteq> q) (map fst (disk w))"
proof -
  have "(\<lambda>(k', _). q \<noteq> k') = (\<lambda>x :: file_path \<times> disk_file. fst x \<noteq> q)" by auto
  then show "fs_remove_file q w = (Inr u, w') \<Longrightarrow> ?thesis"
    by (auto simp: fs_remove_file_def done_io_def AList.delete_eq filter_map comp_def split: option.splits)
qed

lemma remove_files_keys:
  "remove_files qs w = (Inr u, w') \<Longrightarrow> map fst (disk w') = filter (\<lambda>x. x \<notin> set qs) (map fst (disk w))"
proof (induction qs arbitrary: w)
  case (Cons q qs)
  obtain w1 where w1: "fs_remove_file q w = (Inr (), w1)" "remove_files qs w1 = (Inr u, w')"
    using Cons.prems by (auto simp: then_io_def split: prod.splits sum.splits)
  from Cons.IH [OF w1(2)] fs_remove_file_keys [OF w1(1)] show ?case by (simp add: conj_commute)
qed simp

lemma cleanup_bound:
  assumes "cleanup_rotated_logs path w = (Inr u, w')"
  shows "length (filter (\<lambda>q. directory q = directory path \<and> is_rotated path q) (map fst (disk w'))) \<le> MAX_ROTATED_FILES"
proof -
  let ?rot = "filter (is_rotated path) (filter (\<lambda>q. directory q = directory path) (map fst (disk w)))"
  let ?sorted = "sort_key (modified_or_epoch (done_io w)) ?rot"
  let ?k = "length ?sorted - MAX_ROTATED_FILES"
  have "remove_files (take ?k ?sorted) (done_io w) = (Inr u, w')"
    using assms by (auto simp: cleanup_rotated_logs_def then_io_def fs_read_dir_def Let_def split: option.splits)
  from remove_files_keys [OF this] have "map fst (disk w') = filter (\<lambda>x. x \<notin> set (take ?k ?sorted)) (map fst (disk w))"
    by (simp add: done_io_def)
  then have "filter (\<lambda>q. directory q = directory path \<and> is_rotated path q) (map fst (disk w')) =
      filter (\<lambda>x. x \<notin> set (take ?k ?sorted)) ?rot"
    by (simp add: conj_ac)
  moreover have "length (filter P ?rot) = length (filter P ?sorted)" for P
    by (metis mset_filter mset_sort size_mset)
  moreover have "length (filter (\<lambda>x. x \<notin> set (take ?k ?sorted)) ?sorted) \<le> length ?sorted - ?k" by (rule filter_not_taken)
  ultimately show ?thesis by simp
qed

section \<open>Properties\<close>

definition demo_json_value :: json_value where
  "demo_json_value = Object [(''a'', Array [Number (- 7), Null, Bool True]), (''b'', String [CHR 0x22, CHR 0x0A, CHR 0x01, CHR 0xC3, CHR 0xA9])]"

text \<open>
  C39. JSON text is read back: whatever value the agent prints, with its characters escaped as
  \<open>render_string\<close> does, \<open>JsonValue::parse\<close> returns that value. The printed text is one line.\<close>

theorem json_roundtrip:
  assumes "json_wf v"
  shows "parse (render v) = Some (Inr v) \<and> CHR 0x0A \<notin> set (render v)"
  using parse_render [OF assms] render_one_line [of v] by simp

theorem json_roundtrip_witness:
  "json_wf demo_json_value \<and> parse (render demo_json_value) = Some (Inr demo_json_value) \<and> CHR 0x0A \<notin> set (render demo_json_value)"
proof -
  have "json_wf demo_json_value" by code_simp
  with json_roundtrip [of demo_json_value] show ?thesis by simp
qed

text \<open>
  C40. Parsing always returns, with a value or an error: the fuel of the model, twice the number of
  characters and one, is enough for every input, so the recursion of the source ends.\<close>

theorem json_parse_returns: "\<exists>r. parse source = Some r"
  by (rule parse_returns)

definition demo_process :: process where
  "demo_process = \<lparr>wall = (\<lambda>n. 1700000000000 + n), clock_reads = 0, entropy = (\<lambda>_. Some (replicate 16 7)), draws = 0,
     last_timestamp_ms = 0, session_id_counter = 0, message_id_counter = 0\<rparr>"

definition demo_path :: file_path where
  "demo_path = \<lparr>directory = ''/s'', file_name = ''a.jsonl''\<rparr>"

definition demo_message :: conversation_message where
  "demo_message = \<lparr>uuid = ''m1'', role = UserRole, blocks = [Text ''hi''], usage = None, subtype = None,
     compact_metadata = None, attachment_metadata = None, hook_result_metadata = None, is_compact_summary = False,
     is_visible_in_transcript_only = False, timestamp_ms = 5\<rparr>"

definition demo_session :: session where
  "demo_session = \<lparr>version = 1, session_id = ''s1'', created_at_ms = 3, updated_at_ms = 4, messages = [demo_message],
     compaction = None, fork = None, workspace_root = None, prompt_history = [], invoked_skills = [],
     appfs_event_cursors = [(''app'', 9)], appfs_wake_event_cursors = [], appfs_principal_id = None,
     model = Some ''m'', persistence = Some demo_path\<rparr>"

text \<open>The disk is full at the file operation number \<open>k\<close>, after one byte.\<close>

definition demo_world :: "nat \<Rightarrow> world" where
  "demo_world k = \<lparr>proc = demo_process, disk = [], fault = (\<lambda>n. if n = k then Some (''disk full'', Some 1) else None),
     stamp = (\<lambda>n. n), unreadable = (\<lambda>_. False), ios = 0\<rparr>"

definition demo_saved :: "nat \<Rightarrow> world" where
  "demo_saved k = snd (save_to_path demo_session demo_path (demo_world k))"

lemma demo_message_wf: "message_wf demo_message"
  by (simp add: message_wf_def demo_message_def message_check_def) code_simp

lemma demo_session_wf: "session_wf demo_session"
proof -
  have "is_str ''s1'' \<and> is_str ''m'' \<and> cursors_wf [(''app'', 9)]" by code_simp
  then show ?thesis by (simp add: session_wf_def meta_wf_def demo_session_def demo_message_wf opt_str_def cursors_wf_def)
qed

lemma demo_save: "save_to_path demo_session demo_path (demo_world 7) = (Inr (), demo_saved 7)"
proof -
  have "fst (save_to_path demo_session demo_path (demo_world 7)) = Inr ()" by code_simp
  then show ?thesis by (simp add: demo_saved_def prod_eq_iff)
qed

lemma demo_faults:
  "ios (demo_saved 7) = 5" "fault (demo_saved 7) 5 = None" "fault (demo_saved 7) 6 = None"
  "fault (demo_saved 7) 7 = Some (''disk full'', Some 1)" "fault (demo_saved 7) 8 = None"
proof -
  have "let w = demo_saved 7 in ios w = 5 \<and> fault w 5 = None \<and> fault w 6 = None \<and>
      fault w 7 = Some (''disk full'', Some 1) \<and> fault w 8 = None"
    by code_simp
  then show "ios (demo_saved 7) = 5" "fault (demo_saved 7) 5 = None" "fault (demo_saved 7) 6 = None"
      "fault (demo_saved 7) 7 = Some (''disk full'', Some 1)" "fault (demo_saved 7) 8 = None"
    by (simp_all only: Let_def)
qed

lemma message_record_object: "message_wf m \<Longrightarrow> \<exists>es. message_record m = Inr (Object es)"
  by (erule message_json) (simp add: message_record_def json_build_def codec)

lemma demo_session_run: "session_run demo_path demo_session (demo_saved 7)"
  by (rule saved [OF demo_session_wf _ demo_save]) (simp add: demo_session_def)

text \<open>
  C36. Saving and loading: when \<open>save_to_path\<close> reports success, whatever happened on the way, then
  \<open>load_from_path\<close> returns the very session, messages, compaction, prompts, cursors and
  all, bound to that path, except that in the invoked skills the optional texts (resolved name, path,
  description, arguments) come back trimmed, and a blank one as missing: they are written as they are and
  normalised by the reader. The session is one whose strings are UTF-8, whose numbers fit \<open>i64\<close> and whose cursor maps are as their updates leave
  them, sorted by streams that are not blank, with offsets that are not negative.\<close>

theorem session_save_load:
  assumes "session_wf s" "save_to_path s path w = (Inr (), w')" "fault w' (ios w') = None"
  shows "\<exists>w''. load_from_path path w' =
    (Inr (s\<lparr>persistence := Some path, invoked_skills := map loaded_skill (invoked_skills s)\<rparr>), w'')"
proof -
  have "(as_loaded s)\<lparr>updated_at_ms := updated_at_ms s, persistence := Some path\<rparr> =
      s\<lparr>persistence := Some path, invoked_skills := map loaded_skill (invoked_skills s)\<rparr>" by (simp add: as_loaded_def)
  with stored_load [OF save_stored [OF assms(1,2)] assms(3)] show ?thesis by (simp only:)
qed

theorem session_save_load_witness:
  "\<exists>w''. load_from_path demo_path (demo_saved 7) = (Inr (demo_session\<lparr>persistence := Some demo_path\<rparr>), w'')"
proof -
  have "demo_session\<lparr>persistence := Some demo_path, invoked_skills := map loaded_skill (invoked_skills demo_session)\<rparr> =
      demo_session\<lparr>persistence := Some demo_path\<rparr>" by (simp add: demo_session_def)
  with session_save_load [OF demo_session_wf demo_save] demo_faults show ?thesis by (simp only:)
qed

text \<open>
  C35. The file follows the session while all calls succeed: after a save, any sequence of pushed messages, prompts, skills and
  cursor updates in which every call returned \<open>Ok\<close> leaves a file from which \<open>load_from_path\<close> returns the
  session as it is in memory, up to the time of the last update and to blanks around the optional texts of skills, which
  the reader trims. Calls that fail are not part of such a history (a failed append can leave a torn line, a failed
  prompt stays in memory), nor is automatic compaction, which changes the session without saving it.\<close>

theorem session_file_follows:
  assumes "session_run path s w" "fault w (ios w) = None"
  shows "\<exists>t w'. load_from_path path w =
    (Inr (s\<lparr>updated_at_ms := t, invoked_skills := map loaded_skill (invoked_skills s)\<rparr>), w')"
proof -
  obtain t where t: "persistence s = Some path" "stored path s t w"
    using session_run_in_step [OF assms(1)] by (auto simp: in_step_def)
  have "(as_loaded s)\<lparr>updated_at_ms := t, persistence := Some path\<rparr> =
      s\<lparr>updated_at_ms := t, invoked_skills := map loaded_skill (invoked_skills s)\<rparr>" using t(1) by (simp add: as_loaded_def)
  with stored_load [OF t(2) assms(2)] show ?thesis by auto
qed

definition demo_pushed :: "session \<times> world" where
  "demo_pushed = snd (push_message demo_message demo_session (demo_saved 20))"

theorem session_file_follows_witness:
  "\<exists>t w'. load_from_path demo_path (snd demo_pushed) = (Inr ((fst demo_pushed)\<lparr>updated_at_ms := t,
     invoked_skills := map loaded_skill (invoked_skills (fst demo_pushed))\<rparr>), w')"
proof -
  have "fst (save_to_path demo_session demo_path (demo_world 20)) = Inr ()" by code_simp
  then have "save_to_path demo_session demo_path (demo_world 20) = (Inr (), demo_saved 20)"
    by (simp add: demo_saved_def prod_eq_iff)
  then have run: "session_run demo_path demo_session (demo_saved 20)"
    by (intro saved [OF demo_session_wf]) (simp_all add: demo_session_def)
  have "fst (push_message demo_message demo_session (demo_saved 20)) = Inr ()" by code_simp
  then have "run_session_call (PushMessage demo_message) demo_session (demo_saved 20) = (Inr (), fst demo_pushed, snd demo_pushed)"
    by (simp add: demo_pushed_def prod_eq_iff)
  from called [OF run _ this] have "session_run demo_path (fst demo_pushed) (snd demo_pushed)" by (simp add: demo_message_wf)
  moreover have "fault (snd demo_pushed) (ios (snd demo_pushed)) = None" by code_simp
  ultimately show ?thesis by (rule session_file_follows)
qed

text \<open>
  C37. A save never loses the session: whichever file operations fail, and after however many bytes,
  the file either holds the new snapshot, or the call reports an error and the old text is still
  there, under the name of the session file or of a rotated log.\<close>

theorem session_save_keeps_text:
  assumes "save_to_path s path w = (r, w')" "file_at w path = Some old"
  shows "(\<exists>snapshot. render_jsonl_snapshot s = Inr snapshot \<and> file_at w' path = Some snapshot) \<or>
    r \<noteq> Inr () \<and> (file_at w' path = Some old \<or>
      (\<exists>rot p p'. rotated_log_path path p = (rot, p') \<and> file_at w' rot = Some old))"
  using save_outcomes [OF assms(1)] assms(2) by auto

theorem session_save_keeps_text_witness:
  "\<exists>r w' old. save_to_path demo_session demo_path (demo_saved 7) = (r, w') \<and> r = Inl (IoError ''disk full'') \<and>
    file_at (demo_saved 7) demo_path = Some old \<and>
    ((\<exists>snapshot. render_jsonl_snapshot demo_session = Inr snapshot \<and> file_at w' demo_path = Some snapshot) \<or>
     r \<noteq> Inr () \<and> (file_at w' demo_path = Some old \<or>
       (\<exists>rot p p'. rotated_log_path demo_path p = (rot, p') \<and> file_at w' rot = Some old)))"
proof -
  obtain r w' where rw: "save_to_path demo_session demo_path (demo_saved 7) = (r, w')" by fastforce
  have "fst (save_to_path demo_session demo_path (demo_saved 7)) = Inl (IoError ''disk full'')" by code_simp
  with rw have "r = Inl (IoError ''disk full'')" by simp
  moreover obtain old where old: "file_at (demo_saved 7) demo_path = Some old"
    using save_ok [OF demo_save] by blast
  ultimately show ?thesis using rw session_save_keeps_text [OF rw old] by blast
qed

text \<open>
  The number of rotated logs is bounded: after a save that succeeds, at most
  \<open>MAX_ROTATED_FILES\<close> files of the directory are rotated logs of the session, and the session file is none of them.\<close>

theorem session_rotated_bound:
  assumes "save_to_path s path w = (Inr (), w')"
  shows "length (filter (\<lambda>q. directory q = directory path \<and> is_rotated path q) (map fst (disk w'))) \<le> MAX_ROTATED_FILES \<and>
    \<not> is_rotated path path"
proof -
  obtain w2 where "cleanup_rotated_logs path w2 = (Inr (), w')"
    using assms by (auto simp: save_to_path_def then_io_def split: prod.splits sum.splits)
  from cleanup_bound [OF this] not_rotated_self show ?thesis by simp
qed

theorem session_rotated_bound_witness:
  "length (filter (\<lambda>q. directory q = directory demo_path \<and> is_rotated demo_path q) (map fst (disk (demo_saved 7)))) \<le> 3"
  using session_rotated_bound [OF demo_save] by (simp add: MAX_ROTATED_FILES_def)

text \<open>
  C38. A torn append makes the file unreadable: when the write of a pushed message stops after its
  first byte, \<open>push_message\<close> reports the error and takes the message back, but the byte stays in the
  file, and from then on \<open>load_from_path\<close> fails for the whole session.\<close>

theorem session_torn_append:
  assumes "session_run path s w" "message_wf m" "fault w (ios w) = None" "fault w (ios w + 1) = None"
    "fault w (ios w + 2) = Some (msg, Some 1)" "fault w (ios w + 3) = None"
  shows "\<exists>s' w'. push_message m s w = (Inl (IoError msg), s', w') \<and> messages s' = messages s \<and>
    (\<exists>e w''. load_from_path path w' = (Inl (FormatError e), w''))"
proof -
  obtain t where s: "persistence s = Some path" "stored path s t w"
    using session_run_in_step [OF assms(1)] by (auto simp: in_step_def)
  obtain s1 w1 where touch: "touch s w = (s1, w1)" by fastforce
  then obtain now where now: "s1 = s\<lparr>updated_at_ms := now\<rparr>" "file_at w1 = file_at w" by (rule touch_cases)
  have io: "fault w1 = fault w" "ios w1 = ios w" using touch by (auto simp: touch_def on_process_def split: prod.splits)
  obtain es where es: "message_record m = Inr (Object es)"
    using message_record_object [OF assms(2)] by blast
  let ?s2 = "s1\<lparr>messages := messages s1 @ [m]\<rparr>"
  have "stored path s t w1" using s(2) stored_file_at [OF now(2)] by simp
  from torn_append_or_bootstrap [OF this, of msg ?s2 es] assms(3-5) io
  obtain rs where rs: "headed rs" "replays rs (state_of s t)"
      "append_or_bootstrap ?s2 path (Inr (Object es)) w1 =
        (Inl (IoError msg), done_io (put_file path (file_records rs @ ''{'') (done_io (done_io w1))))"
    by (simp only: refl simp_thms) blast
  let ?w' = "done_io (put_file path (file_records rs @ ''{'') (done_io (done_io w1)))"
  have push: "push_message m s w = (Inl (IoError msg), ?s2\<lparr>messages := butlast (messages ?s2)\<rparr>, ?w')"
    using touch s(1) now(1) rs(3) es by (simp add: push_message_def append_persisted_message_def Let_def)
  have torn: "\<exists>e w''. load_from_path path ?w' = (Inl (FormatError e), w'')"
    using rs(1,2) assms(6) io by (intro load_torn) (simp_all add: done_io_def put_file_def file_at_def AList.update_conv' numeral_3_eq_3)
  have msgs: "messages (?s2\<lparr>messages := butlast (messages ?s2)\<rparr>) = messages s" using now(1) by simp
  show ?thesis by (rule exI, rule exI, intro conjI, rule push, rule msgs, rule torn)
qed

theorem session_torn_append_witness:
  "\<exists>s' w'. push_message demo_message demo_session (demo_saved 7) = (Inl (IoError ''disk full''), s', w') \<and>
    messages s' = messages demo_session \<and> (\<exists>e w''. load_from_path demo_path w' = (Inl (FormatError e), w''))"
  using session_torn_append [OF demo_session_run demo_message_wf] demo_faults by simp

end
