(* ===== verification/Agent_Input_Queue.thy ===== *)
theory Agent_Input_Queue
  imports Agent_Session_Store Json_Values
begin

text \<open>
  Inputs that arrive while the agent works (\<open>input_router.rs\<close>): envelopes, the queue of pending
  inputs, and their form in a message of the session. JSON payloads are values of \<open>serde_json\<close>
  outside the session and values of \<open>json.rs\<close> inside it.
\<close>

section \<open>Inputs\<close>

datatype input_source = UserTerminal | AppfsEvent | AgentMessage | SystemSource

definition source_as_str :: "input_source \<Rightarrow> string" where
  "source_as_str s = (case s of UserTerminal \<Rightarrow> ''user_terminal'' | AppfsEvent \<Rightarrow> ''appfs_event''
     | AgentMessage \<Rightarrow> ''agent_message'' | SystemSource \<Rightarrow> ''system'')"

definition input_source_from_str :: "string \<Rightarrow> input_source option" where
  "input_source_from_str s =
     (if s = ''user_terminal'' then Some UserTerminal
      else if s = ''appfs_event'' then Some AppfsEvent
      else if s = ''agent_message'' then Some AgentMessage
      else if s = ''system'' then Some SystemSource
      else None)"

datatype pending_input_delivery = InjectAtNextBoundary | QueueAfterTurn

definition delivery_as_str :: "pending_input_delivery \<Rightarrow> string" where
  "delivery_as_str d = (case d of InjectAtNextBoundary \<Rightarrow> ''inject_at_next_boundary'' | QueueAfterTurn \<Rightarrow> ''queue_after_turn'')"

definition pending_input_delivery_from_str :: "string \<Rightarrow> pending_input_delivery option" where
  "pending_input_delivery_from_str s =
     (if s = ''inject_at_next_boundary'' then Some InjectAtNextBoundary
      else if s = ''queue_after_turn'' then Some QueueAfterTurn
      else None)"

record input_envelope =
  en_source :: input_source
  en_input_type :: string
  en_text :: string
  en_event_id :: "string option"
  en_ts :: "string option"
  en_client_token :: "string option"
  en_event_path :: "string option"
  en_principal_id :: "string option"
  en_app_id :: "string option"
  en_stream_id :: "string option"
  en_seq :: "i64 option"
  en_correlation_id :: "string option"
  en_requires_attention :: bool
  en_payload :: "json option"
  en_raw_event :: "json option"
  en_event_render_metadata :: "json option"

definition new_envelope :: "input_source \<Rightarrow> string \<Rightarrow> string \<Rightarrow> input_envelope" where
  "new_envelope source input_type t =
     \<lparr>en_source = source, en_input_type = input_type, en_text = t, en_event_id = None, en_ts = None, en_client_token = None,
      en_event_path = None, en_principal_id = None, en_app_id = None, en_stream_id = None, en_seq = None,
      en_correlation_id = None, en_requires_attention = False, en_payload = None, en_raw_event = None,
      en_event_render_metadata = None\<rparr>"

record pending_input =
  pi_envelope :: input_envelope
  pi_delivery :: pending_input_delivery

section \<open>Payloads\<close>

text \<open>\<open>Number::as_i64\<close> of a number given by its text; \<open>collect\<close> into an \<open>Option\<close>.\<close>

definition number_as_i64 :: "string \<Rightarrow> i64 option" where
  "number_as_i64 s = (case parse_number (chars s) of Inr (i, []) \<Rightarrow> Some i | _ \<Rightarrow> None)"

fun all_some :: "'a option list \<Rightarrow> 'a list option" where
  "all_some [] = Some []"
| "all_some (x # xs) = (case x of None \<Rightarrow> None | Some y \<Rightarrow> map_option ((#) y) (all_some xs))"

definition collect_entries :: "(string \<times> 'a) list \<Rightarrow> (string \<times> 'a) list" where
  "collect_entries es = fold (\<lambda>(k, v). btree_insert k v) es []"

fun serde_value_to_session_json :: "json \<Rightarrow> json_value option" where
  "serde_value_to_session_json JNull = Some Null"
| "serde_value_to_session_json (JBool b) = Some (Bool b)"
| "serde_value_to_session_json (JNumber s) = map_option Number (number_as_i64 s)"
| "serde_value_to_session_json (JString s) = Some (String s)"
| "serde_value_to_session_json (JArray vs) = map_option Array (all_some (map serde_value_to_session_json vs))"
| "serde_value_to_session_json (JObject es) =
     map_option (\<lambda>kvs. Object (collect_entries kvs))
       (all_some (map (\<lambda>(k, v). map_option (Pair k) (serde_value_to_session_json v)) es))"

fun session_json_to_serde_value :: "json_value \<Rightarrow> json" where
  "session_json_to_serde_value Null = JNull"
| "session_json_to_serde_value (Bool b) = JBool b"
| "session_json_to_serde_value (Number i) = JNumber (int_to_string i)"
| "session_json_to_serde_value (String s) = JString s"
| "session_json_to_serde_value (Array vs) = JArray (map session_json_to_serde_value vs)"
| "session_json_to_serde_value (Object es) = JObject (map (\<lambda>(k, v). (k, session_json_to_serde_value v)) es)"

section \<open>Inputs in the session\<close>

definition input_router_block :: "pending_input \<Rightarrow> input_router_block_input" where
  "input_router_block p =
     (let e = pi_envelope p
      in \<lparr>ir_source = source_as_str (en_source e), ir_input_type = en_input_type e, ir_text = en_text e,
          ir_event_id = en_event_id e, ir_ts = en_ts e, ir_client_token = en_client_token e, ir_event_path = en_event_path e,
          ir_principal_id = en_principal_id e, ir_app_id = en_app_id e, ir_stream_id = en_stream_id e, ir_seq = en_seq e,
          ir_correlation_id = en_correlation_id e, ir_requires_attention = en_requires_attention e,
          ir_delivery = Some (delivery_as_str (pi_delivery p)),
          ir_payload = Option.bind (en_payload e) serde_value_to_session_json,
          ir_raw_event = Option.bind (en_raw_event e) serde_value_to_session_json,
          ir_event_render_metadata = Option.bind (en_event_render_metadata e) serde_value_to_session_json\<rparr>)"

definition input_router_block_from_pending_inputs :: "pending_input list \<Rightarrow> input_router_block_input list" where
  "input_router_block_from_pending_inputs inputs = map input_router_block inputs"

definition pending_input_from_input_router_block :: "input_router_block_input \<Rightarrow> pending_input option" where
  "pending_input_from_input_router_block b =
     map_option (\<lambda>source.
       \<lparr>pi_envelope = (new_envelope source (ir_input_type b) (ir_text b))
          \<lparr>en_event_id := ir_event_id b, en_ts := ir_ts b, en_client_token := ir_client_token b, en_event_path := ir_event_path b,
           en_principal_id := ir_principal_id b, en_app_id := ir_app_id b, en_stream_id := ir_stream_id b, en_seq := ir_seq b,
           en_correlation_id := ir_correlation_id b, en_requires_attention := ir_requires_attention b,
           en_payload := map_option session_json_to_serde_value (ir_payload b),
           en_raw_event := map_option session_json_to_serde_value (ir_raw_event b),
           en_event_render_metadata := map_option session_json_to_serde_value (ir_event_render_metadata b)\<rparr>,
        pi_delivery = (case Option.bind (ir_delivery b) pending_input_delivery_from_str of
            Some d \<Rightarrow> d | None \<Rightarrow> InjectAtNextBoundary)\<rparr>)
       (input_source_from_str (ir_source b))"

section \<open>The queue\<close>

type_synonym pending_input_queue = "pending_input list"

definition queue_push :: "pending_input \<Rightarrow> pending_input_queue \<Rightarrow> pending_input_queue" where
  "queue_push input q = q @ [input]"

fun drain_loop_by :: "pending_input_delivery \<Rightarrow> pending_input list \<Rightarrow> pending_input list \<Rightarrow> pending_input_queue \<Rightarrow>
    pending_input list \<times> pending_input_queue" where
  "drain_loop_by delivery drained remaining [] = (drained, remaining)"
| "drain_loop_by delivery drained remaining (input # items) =
     (if pi_delivery input = delivery then drain_loop_by delivery (drained @ [input]) remaining items
      else drain_loop_by delivery drained (remaining @ [input]) items)"

definition drain_pending_inputs_by_delivery ::
  "pending_input_delivery \<Rightarrow> pending_input_queue \<Rightarrow> pending_input list \<times> pending_input_queue" where
  "drain_pending_inputs_by_delivery delivery q = drain_loop_by delivery [] [] q"

definition drain_boundary_pending_inputs :: "pending_input_queue \<Rightarrow> pending_input list \<times> pending_input_queue" where
  "drain_boundary_pending_inputs = drain_pending_inputs_by_delivery InjectAtNextBoundary"

definition drain_after_turn_pending_inputs :: "pending_input_queue \<Rightarrow> pending_input list \<times> pending_input_queue" where
  "drain_after_turn_pending_inputs = drain_pending_inputs_by_delivery QueueAfterTurn"

definition restore_front :: "pending_input list \<Rightarrow> pending_input_queue \<Rightarrow> pending_input_queue" where
  "restore_front inputs q = (if inputs = [] then q else inputs @ q)"

fun promote_client_token_to_boundary :: "string \<Rightarrow> pending_input_queue \<Rightarrow> bool \<times> pending_input_queue" where
  "promote_client_token_to_boundary token [] = (False, [])"
| "promote_client_token_to_boundary token (input # items) =
     (if en_client_token (pi_envelope input) = Some token
      then (True, input\<lparr>pi_delivery := InjectAtNextBoundary,
             pi_envelope := (pi_envelope input)\<lparr>en_input_type := ''user.guidance'', en_requires_attention := True\<rparr>\<rparr> # items)
      else let (found, items') = promote_client_token_to_boundary token items in (found, input # items'))"

section \<open>Facts\<close>

lemma drain_loop_by: "drain_loop_by d xs ys q =
  (xs @ filter (\<lambda>p. pi_delivery p = d) q, ys @ filter (\<lambda>p. pi_delivery p \<noteq> d) q)"
  by (induction q arbitrary: xs ys) simp_all

lemma drain_boundary: "drain_boundary_pending_inputs q =
  (filter (\<lambda>p. pi_delivery p = InjectAtNextBoundary) q, filter (\<lambda>p. pi_delivery p \<noteq> InjectAtNextBoundary) q)"
  by (simp add: drain_boundary_pending_inputs_def drain_pending_inputs_by_delivery_def drain_loop_by)

lemma drain_after_turn: "drain_after_turn_pending_inputs q =
  (filter (\<lambda>p. pi_delivery p = QueueAfterTurn) q, filter (\<lambda>p. pi_delivery p \<noteq> QueueAfterTurn) q)"
  by (simp add: drain_after_turn_pending_inputs_def drain_pending_inputs_by_delivery_def drain_loop_by)

lemma restore_front [simp]: "restore_front inputs q = inputs @ q"
  by (simp add: restore_front_def)

text \<open>Putting drained inputs back loses none and preserves the order of the inputs of each kind of delivery.\<close>

lemma filter_restore_drained:
  assumes "drain_boundary_pending_inputs q = (drained, rest)"
  shows "filter (\<lambda>p. pi_delivery p = d) (restore_front drained rest) = filter (\<lambda>p. pi_delivery p = d) q"
  using assms by (cases d) (auto simp: drain_boundary o_def intro!: filter_cong)

lemma all_some_Some: "(\<And>x. x \<in> set xs \<Longrightarrow> f x = Some (g x)) \<Longrightarrow> all_some (map f xs) = Some (map g xs)"
  by (induction xs) simp_all

lemma collect_entries_sorted: "sorted_wrt (<) (map fst es) \<Longrightarrow> collect_entries es = es"
proof (induction es rule: rev_induct)
  case (snoc e es)
  then have "x \<in> set es \<Longrightarrow> fst x < fst e" for x by (auto simp: sorted_wrt_append)
  with snoc show ?case by (cases e) (simp add: collect_entries_def btree_insert_last sorted_wrt_append)
qed (simp add: collect_entries_def)

lemma number_as_i64_int: "i64 i \<Longrightarrow> number_as_i64 (int_to_string i) = Some i"
  using parse_number_to_string [of i "[]"] by (simp add: number_as_i64_def)

text \<open>What the session holds of a payload is the payload.\<close>

lemma session_json_round: "json_wf v \<Longrightarrow> serde_value_to_session_json (session_json_to_serde_value v) = Some v"
proof (induction v)
  case (Array vs)
  then have "all_some (map (\<lambda>v. serde_value_to_session_json (session_json_to_serde_value v)) vs) = Some (map id vs)"
    by (intro all_some_Some) simp
  then show ?case by (simp add: o_def)
next
  case (Object es)
  have "all_some (map (\<lambda>(k, v). map_option (Pair k) (serde_value_to_session_json (session_json_to_serde_value v))) es) = Some (map id es)"
    using Object by (intro all_some_Some) (auto split: prod.splits)
  moreover have "collect_entries es = es" using Object.prems by (intro collect_entries_sorted) simp
  ultimately show ?case by (simp add: o_def case_prod_unfold)
qed (simp_all add: number_as_i64_int)

end
