(* ===== verification/Agent_Compact.thy ===== *)
theory Agent_Compact
  imports Agent_Input_Queue
begin

text \<open>
  Compaction of a session (\<open>compact.rs\<close>): the estimate of its size, the layouts of a compacted
  session, the context messages put behind the summary, and the local summary used when no model
  writes one. Reading tool outputs and files with \<open>serde_json\<close>, the environment and the
  rendering of routed inputs are the fields of \<open>compact_env\<close>.
\<close>

section \<open>Texts\<close>

definition NO_TOOLS_PREAMBLE :: string where
  "NO_TOOLS_PREAMBLE =
     str_join [CHR 0x0A]
     [''CRITICAL: Respond with TEXT ONLY. Do NOT call any tools.'',
      [],
      ''- Do NOT use Read, Bash, Grep, Glob, Edit, Write, or any other tool.'',
      ''- You already have all the context you need in the conversation above.'',
      ''- Tool calls will be rejected and will waste your only turn.'',
      ''- Your entire response must be plain text: an <analysis> block followed by a <summary> block.'',
      [],
      []]"

definition NO_TOOLS_TRAILER :: string where
  "NO_TOOLS_TRAILER =
     str_join [CHR 0x0A]
     [[],
      [],
      ''REMINDER: Do NOT call any tools. Respond with plain text only - an <analysis> block followed by a <summary> block. Tool calls will be rejected and you will fail the task.'']"

definition DETAILED_ANALYSIS_INSTRUCTION_BASE :: string where
  "DETAILED_ANALYSIS_INSTRUCTION_BASE =
     str_join [CHR 0x0A]
     [''Before providing your final summary, wrap your analysis in <analysis> tags to organize your thoughts and ensure you've covered all necessary points. In your analysis process:'',
      [],
      ''1. Chronologically analyze each message and section of the conversation. For each section thoroughly identify:'',
      ''   - The user's explicit requests and intents'',
      ''   - Your approach to addressing the user's requests'',
      ''   - Key decisions, technical concepts, and code patterns'',
      ''   - Specific details like:'',
      ''     - file names'',
      ''     - full code snippets'',
      ''     - function signatures'',
      ''     - file edits'',
      ''   - Errors that you ran into and how you fixed them'',
      ''   - Pay special attention to specific user feedback that you received, especially if the user told you to do something differently.'',
      ''2. Double-check for technical accuracy and completeness, addressing each required element thoroughly.'']"

definition BASE_COMPACT_PROMPT :: string where
  "BASE_COMPACT_PROMPT =
     str_join [CHR 0x0A]
     [''Your task is to create a detailed summary of the conversation so far, paying close attention to the user's explicit requests and your previous actions.'',
      ''This summary should be thorough in capturing technical details, code patterns, and architectural decisions that would be essential for continuing development work without losing context.'',
      [],
      ''{analysis_instruction}'',
      [],
      ''Your summary should include the following sections:'',
      [],
      ''1. Primary Request and Intent: Capture all of the user's explicit requests and intents in detail'',
      ''2. Key Technical Concepts: List all important technical concepts, technologies, and frameworks discussed.'',
      ''3. Files and Code Sections: Enumerate specific files and code sections examined, modified, or created. Pay special attention to the most recent messages and include full code snippets where applicable and a summary of why each file read or edit is important.'',
      ''4. Errors and fixes: List all errors that you ran into, and how you fixed them. Pay special attention to specific user feedback that you received, especially if the user told you to do something differently.'',
      ''5. Problem Solving: Document problems solved and any ongoing troubleshooting efforts.'',
      ''6. All user messages: List all user messages that are not tool results. These are critical for understanding the user's feedback and changing intent.'',
      ''7. Pending Tasks: Outline any pending tasks that you have explicitly been asked to work on.'',
      ''8. Current Work: Describe in detail precisely what was being worked on immediately before this summary request, paying special attention to the most recent messages from both user and assistant. Include file names and code snippets where applicable.'',
      ''9. Optional Next Step: List the next step that you will take that is related to the most recent work you were doing. Ensure that this step is directly in line with the user's most recent explicit requests and the task you were working on immediately before this summary request. If there is a next step, include direct quotes from the most recent conversation showing exactly what task you were working on and where you left off.'',
      [],
      ''Use this exact output structure:'',
      [],
      ''<analysis>'',
      ''[your drafting analysis]'',
      ''</analysis>'',
      [],
      ''<summary>'',
      ''1. Primary Request and Intent:'',
      ''   [Detailed description]'',
      [],
      ''2. Key Technical Concepts:'',
      ''   - [Concept 1]'',
      ''   - [Concept 2]'',
      [],
      ''3. Files and Code Sections:'',
      ''   - [File Name 1]'',
      ''     - [Why it matters]'',
      ''     - [Changes made]'',
      ''     - [Important snippet]'',
      [],
      ''4. Errors and fixes:'',
      ''   - [Error description]'',
      ''     - [How you fixed it]'',
      ''     - [Relevant user feedback]'',
      [],
      ''5. Problem Solving:'',
      ''   [Description]'',
      [],
      ''6. All user messages:'',
      ''   - [Detailed non-tool user message]'',
      [],
      ''7. Pending Tasks:'',
      ''   - [Task 1]'',
      [],
      ''8. Current Work:'',
      ''   [Precise description of current work]'',
      [],
      ''9. Optional Next Step:'',
      ''   [Optional next step]'',
      ''</summary>'',
      [],
      ''Please provide your summary based on the conversation so far, following this structure and ensuring precision and thoroughness in your response.'',
      [],
      ''There may be additional summarization instructions provided in the included context. If so, remember to follow them when creating the summary.'']"

definition COMPACT_CONTINUATION_PREAMBLE :: string where
  "COMPACT_CONTINUATION_PREAMBLE =
     str_join [CHR 0x0A]
     [''This session is being continued from a previous conversation that ran out of context. The summary below covers the earlier portion of the conversation.'',
      [],
      []]"

definition COMPACT_RECENT_MESSAGES_NOTE :: string where
  "COMPACT_RECENT_MESSAGES_NOTE =
     ''Recent messages are preserved verbatim.''"

definition COMPACT_BOUNDARY_TEXT :: string where
  "COMPACT_BOUNDARY_TEXT =
     ''Conversation compacted''"

definition COMPACT_DIRECT_RESUME_INSTRUCTION :: string where
  "COMPACT_DIRECT_RESUME_INSTRUCTION =
     ''Continue the conversation from where it left off without asking the user any further questions. Resume directly '' @ encode_utf8 8212 @ '' do not acknowledge the summary, do not recap what was happening, and do not preface with continuation text.''"

section \<open>Data\<close>

record compaction_config =
  preserve_recent_messages :: nat
  max_estimated_tokens :: nat

definition default_compaction_config :: compaction_config where
  "default_compaction_config = \<lparr>preserve_recent_messages = 4, max_estimated_tokens = 10000\<rparr>"

record compaction_result =
  cr_summary :: string
  cr_formatted_summary :: string
  cr_compacted_session :: session
  cr_removed_message_count :: nat
  cr_removed_messages :: "conversation_message list"
  cr_user_display_message :: "string option"

datatype compaction_layout = LegacyResumableSummary | TsBoundaryAndSummary

datatype preserved_segment_anchor = LastSummaryMessage

record build_compaction_result_options =
  bo_preserved_messages :: "conversation_message list"
  bo_hook_result_messages :: "conversation_message list"
  bo_preserved_segment_anchor :: "preserved_segment_anchor option"
  bo_removed_message_count :: nat
  bo_suppress_follow_up_questions :: bool
  bo_layout :: compaction_layout
  bo_boundary_trigger :: "compact_trigger option"
  bo_user_display_message :: "string option"

record full_compact_selection =
  messages_to_summarize :: "conversation_message list"
  preserved_messages :: "conversation_message list"

datatype compact_todo_status = TodoPending | TodoInProgress | TodoCompleted

definition todo_label :: "compact_todo_status \<Rightarrow> string" where
  "todo_label st = (case st of TodoPending \<Rightarrow> ''pending'' | TodoInProgress \<Rightarrow> ''in_progress'' | TodoCompleted \<Rightarrow> ''completed'')"

record compact_todo_item =
  td_content :: string
  td_active_form :: string
  td_status :: compact_todo_status

record compact_skill_output =
  so_skill :: string
  so_path :: string
  so_args :: "string option"
  so_description :: "string option"
  so_prompt :: string

record compact_plan_mode_output =
  pm_active :: bool
  pm_managed :: bool
  pm_message :: string
  pm_settings_path :: string
  pm_state_path :: string

record compact_agent_output =
  ag_agent_id :: string
  ag_name :: string
  ag_description :: string
  ag_status :: string
  ag_output_file :: string
  ag_manifest_file :: string
  ag_derived_state :: string

text \<open>
  \<open>parse_tool_result_json_prefix\<close> at its three types; the todo list and an agent's manifest read
  from a file; \<open>render_input_router_block\<close>; the variable \<open>CLAWD_TODO_STORE\<close> and the working
  directory.
\<close>

record compact_env =
  ce_agent_output :: "string \<Rightarrow> compact_agent_output option"
  ce_skill_output :: "string \<Rightarrow> compact_skill_output option"
  ce_plan_mode_output :: "string \<Rightarrow> compact_plan_mode_output option"
  ce_agent_manifest :: "string \<Rightarrow> compact_agent_output option"
  ce_todos :: "string \<Rightarrow> compact_todo_item list option"
  ce_render_inputs :: "input_router_block_input list \<Rightarrow> string"
  ce_todo_store :: "string option"
  ce_current_dir :: "string option"

section \<open>Helpers of the language\<close>

text \<open>\<open>str::split_once\<close>, of which only the part in front is used; \<open>trim_end\<close>; \<open>trim_matches\<close> with a set of characters.\<close>

definition before_first :: "string \<Rightarrow> string \<Rightarrow> string" where
  "before_first pat s = (case str_find pat s of Some i \<Rightarrow> take i s | None \<Rightarrow> s)"

definition trim_end :: "string \<Rightarrow> string" where
  "trim_end s = concat (rev (dropWhile is_whitespace (rev (chars s))))"

definition trim_set :: "char set \<Rightarrow> string \<Rightarrow> string" where
  "trim_set cs s = rev (dropWhile (\<lambda>c. c \<in> cs) (rev (dropWhile (\<lambda>c. c \<in> cs) s)))"

definition path_join :: "string \<Rightarrow> string \<Rightarrow> string" where
  "path_join base name = (if base = [] then name else if last base = CHR ''/'' then base @ name else base @ ''/'' @ name)"

text \<open>\<open>Path::file_name\<close>: the last component that is neither empty nor a dot, unless it is two dots.\<close>

definition path_file_name :: "string \<Rightarrow> string option" where
  "path_file_name p =
     (let parts = filter (\<lambda>c. c \<noteq> [] \<and> c \<noteq> ''.'') (str_split (CHR ''/'') p)
      in if parts = [] \<or> last parts = ''..'' then None else Some (last parts))"

definition nl :: string where "nl = [CHR 0x0A]"

section \<open>Estimates\<close>

fun estimate_block_tokens :: "compact_env \<Rightarrow> content_block \<Rightarrow> nat" where
  "estimate_block_tokens env (Text t) = length t div 4 + 1"
| "estimate_block_tokens env (Thinking t _) = length t div 4 + 1"
| "estimate_block_tokens env (RedactedThinking data) = length (render data) div 4 + 1"
| "estimate_block_tokens env (InputRouter inputs) = length (ce_render_inputs env inputs) div 4 + 1"
| "estimate_block_tokens env (ToolUse _ name input) = (length name + length input) div 4 + 1"
| "estimate_block_tokens env (ToolResult _ tool_name output _) = (length tool_name + length output) div 4 + 1"

definition estimate_message_tokens :: "compact_env \<Rightarrow> conversation_message \<Rightarrow> nat" where
  "estimate_message_tokens env m = sum_list (map (estimate_block_tokens env) (blocks m))"

definition estimate_session_tokens :: "compact_env \<Rightarrow> session \<Rightarrow> nat" where
  "estimate_session_tokens env s = sum_list (map (estimate_message_tokens env) (messages s))"

section \<open>Summaries\<close>

definition extract_tag_block :: "string \<Rightarrow> string \<Rightarrow> string option" where
  "extract_tag_block content tag =
     (let start = ''<'' @ tag @ ''>''; end_tag = ''</'' @ tag @ ''>''
      in case str_find start content of
           None \<Rightarrow> None
         | Some i \<Rightarrow>
             (let body = drop (i + length start) content
              in case str_find end_tag body of None \<Rightarrow> None | Some j \<Rightarrow> Some (take j body)))"

definition strip_tag_block :: "string \<Rightarrow> string \<Rightarrow> string" where
  "strip_tag_block content tag =
     (let start = ''<'' @ tag @ ''>''; end_tag = ''</'' @ tag @ ''>''
      in case (str_find start content, str_find end_tag content) of
           (Some i, Some j) \<Rightarrow> take i content @ drop (j + length end_tag) content
         | _ \<Rightarrow> content)"

fun collapse_loop :: "bool \<Rightarrow> string list \<Rightarrow> string" where
  "collapse_loop last_blank [] = []"
| "collapse_loop last_blank (line # lines) =
     (let is_blank = (str_trim line = [])
      in if is_blank \<and> last_blank then collapse_loop last_blank lines
         else line @ nl @ collapse_loop is_blank lines)"

definition collapse_blank_lines :: "string \<Rightarrow> string" where
  "collapse_blank_lines content = collapse_loop False (str_lines content)"

definition format_compact_summary :: "string \<Rightarrow> string" where
  "format_compact_summary summary =
     (let without_analysis = strip_tag_block summary ''analysis'';
          formatted = (case extract_tag_block without_analysis ''summary'' of
              Some content \<Rightarrow> str_replace (''<summary>'' @ content @ ''</summary>'') (''Summary:'' @ nl @ str_trim content) without_analysis
            | None \<Rightarrow> without_analysis)
      in str_trim (collapse_blank_lines formatted))"

definition get_compact_prompt :: "string option \<Rightarrow> string" where
  "get_compact_prompt custom_instructions =
     NO_TOOLS_PREAMBLE @
     str_replace ''{analysis_instruction}'' DETAILED_ANALYSIS_INSTRUCTION_BASE BASE_COMPACT_PROMPT @
     (case custom_instructions of
        Some raw \<Rightarrow> if str_trim raw = [] then [] else nl @ nl @ ''Additional Instructions:'' @ nl @ str_trim raw
      | None \<Rightarrow> []) @
     NO_TOOLS_TRAILER"

definition get_compact_continuation_message :: "string \<Rightarrow> bool \<Rightarrow> bool \<Rightarrow> string" where
  "get_compact_continuation_message summary suppress_follow_up_questions recent_messages_preserved =
     COMPACT_CONTINUATION_PREAMBLE @ format_compact_summary summary @
     (if recent_messages_preserved then nl @ nl @ COMPACT_RECENT_MESSAGES_NOTE else []) @
     (if suppress_follow_up_questions then nl @ COMPACT_DIRECT_RESUME_INSTRUCTION else [])"

definition get_compact_user_summary_message :: "string \<Rightarrow> bool \<Rightarrow> bool \<Rightarrow> string" where
  "get_compact_user_summary_message summary suppress_follow_up_questions recent_messages_preserved =
     COMPACT_CONTINUATION_PREAMBLE @ format_compact_summary summary @
     (if recent_messages_preserved then nl @ nl @ COMPACT_RECENT_MESSAGES_NOTE else []) @
     (if suppress_follow_up_questions then nl @ COMPACT_DIRECT_RESUME_INSTRUCTION else [])"

fun first_text :: "content_block list \<Rightarrow> string option" where
  "first_text [] = None"
| "first_text (Text t # bs) = (if str_trim t \<noteq> [] then Some t else first_text bs)"
| "first_text (_ # bs) = first_text bs"

definition first_text_block :: "conversation_message \<Rightarrow> string option" where
  "first_text_block m = first_text (blocks m)"

definition summary_of_text :: "string \<Rightarrow> string option" where
  "summary_of_text t =
     map_option (\<lambda>summary.
       str_trim (before_first (nl @ COMPACT_DIRECT_RESUME_INSTRUCTION)
         (before_first (nl @ nl @ COMPACT_RECENT_MESSAGES_NOTE) summary)))
       (strip_prefix COMPACT_CONTINUATION_PREAMBLE t)"

definition extract_legacy_compacted_summary :: "conversation_message \<Rightarrow> string option" where
  "extract_legacy_compacted_summary m =
     (if role m \<noteq> SystemRole then None else Option.bind (first_text_block m) summary_of_text)"

definition extract_full_compact_summary :: "conversation_message \<Rightarrow> string option" where
  "extract_full_compact_summary m =
     (if role m \<noteq> UserRole then None
      else Option.bind (first_text_block m) (\<lambda>t.
        if \<not> is_compact_summary m \<and> \<not> starts_with COMPACT_CONTINUATION_PREAMBLE t then None else summary_of_text t))"

definition is_compact_boundary_message :: "conversation_message \<Rightarrow> bool" where
  "is_compact_boundary_message m \<longleftrightarrow> role m = SystemRole \<and>
     (compact_metadata m \<noteq> None \<or>
      (case first_text_block m of Some t \<Rightarrow> str_trim t = COMPACT_BOUNDARY_TEXT | None \<Rightarrow> False))"

definition extract_existing_compacted_summary :: "conversation_message list \<Rightarrow> (nat \<times> string) option" where
  "extract_existing_compacted_summary msgs =
     (case (case msgs of m # _ \<Rightarrow> extract_legacy_compacted_summary m | [] \<Rightarrow> None) of
        Some summary \<Rightarrow> Some (1, summary)
      | None \<Rightarrow>
          (case msgs of
             boundary # summary_message # _ \<Rightarrow>
               if is_compact_boundary_message boundary then map_option (Pair 2) (extract_full_compact_summary summary_message)
               else None
           | _ \<Rightarrow> None))"

definition compacted_summary_prefix_len :: "session \<Rightarrow> nat" where
  "compacted_summary_prefix_len s = (case extract_existing_compacted_summary (messages s) of Some (n, _) \<Rightarrow> n | None \<Rightarrow> 0)"

definition should_compact :: "compact_env \<Rightarrow> session \<Rightarrow> compaction_config \<Rightarrow> bool" where
  "should_compact env s config \<longleftrightarrow>
     (let compactable = drop (compacted_summary_prefix_len s) (messages s)
      in preserve_recent_messages config < length compactable \<and>
         max_estimated_tokens config \<le> sum_list (map (estimate_message_tokens env) compactable))"

fun highlights_loop :: "bool \<Rightarrow> string list \<Rightarrow> string list" where
  "highlights_loop in_timeline [] = []"
| "highlights_loop in_timeline (line # lines) =
     (let trimmed = trim_end line
      in if trimmed = [] \<or> trimmed = ''Summary:'' \<or> trimmed = ''Conversation summary:'' then highlights_loop in_timeline lines
         else if trimmed = ''- Key timeline:'' then highlights_loop True lines
         else if in_timeline then highlights_loop in_timeline lines
         else trimmed # highlights_loop in_timeline lines)"

definition extract_summary_highlights :: "string \<Rightarrow> string list" where
  "extract_summary_highlights summary = highlights_loop False (str_lines (format_compact_summary summary))"

fun timeline_loop :: "bool \<Rightarrow> string list \<Rightarrow> string list" where
  "timeline_loop in_timeline [] = []"
| "timeline_loop in_timeline (line # lines) =
     (let trimmed = trim_end line
      in if trimmed = ''- Key timeline:'' then timeline_loop True lines
         else if \<not> in_timeline then timeline_loop in_timeline lines
         else if trimmed = [] then []
         else trimmed # timeline_loop in_timeline lines)"

definition extract_summary_timeline :: "string \<Rightarrow> string list" where
  "extract_summary_timeline summary = timeline_loop False (str_lines (format_compact_summary summary))"

section \<open>The local summary\<close>

definition truncate_summary :: "string \<Rightarrow> nat \<Rightarrow> string" where
  "truncate_summary content max_chars =
     (if length (chars content) \<le> max_chars then content
      else concat (take max_chars (chars content)) @ encode_utf8 8230)"

fun summarize_block :: "compact_env \<Rightarrow> content_block \<Rightarrow> string" where
  "summarize_block env (Text t) = truncate_summary t 160"
| "summarize_block env (Thinking t _) =
     truncate_summary (''thinking block ('' @ to_decimal (length (chars t)) @ '' chars hidden)'') 160"
| "summarize_block env (RedactedThinking _) = truncate_summary ''redacted thinking block'' 160"
| "summarize_block env (InputRouter inputs) = truncate_summary (ce_render_inputs env inputs) 160"
| "summarize_block env (ToolUse _ name input) = truncate_summary (''tool_use '' @ name @ ''('' @ input @ '')'') 160"
| "summarize_block env (ToolResult _ tool_name output is_error) =
     truncate_summary (''tool_result '' @ tool_name @ '': '' @ (if is_error then ''error '' else []) @ output) 160"

fun block_tool_name :: "content_block \<Rightarrow> string option" where
  "block_tool_name (ToolUse _ name _) = Some name"
| "block_tool_name (ToolResult _ name _ _) = Some name"
| "block_tool_name _ = None"

definition all_blocks :: "conversation_message list \<Rightarrow> content_block list" where
  "all_blocks msgs = concat (map blocks msgs)"

definition collect_discovered_tools :: "conversation_message list \<Rightarrow> string list" where
  "collect_discovered_tools msgs = remdups_adj (sort (List.map_filter block_tool_name (all_blocks msgs)))"

definition collect_recent_role_summaries :: "conversation_message list \<Rightarrow> message_role \<Rightarrow> nat \<Rightarrow> string list" where
  "collect_recent_role_summaries msgs r limit =
     rev (map (\<lambda>t. truncate_summary t 160)
       (take limit (List.map_filter first_text_block (rev (filter (\<lambda>m. role m = r) msgs)))))"

definition infer_pending_work :: "conversation_message list \<Rightarrow> string list" where
  "infer_pending_work msgs =
     rev (map (\<lambda>t. truncate_summary t 160)
       (take 3 (filter (\<lambda>t. let lowered = to_ascii_lowercase t in
            str_contains lowered ''todo'' \<or> str_contains lowered ''next'' \<or> str_contains lowered ''pending'' \<or>
            str_contains lowered ''follow up'' \<or> str_contains lowered ''remaining'')
          (List.map_filter first_text_block (rev msgs)))))"

definition has_interesting_extension :: "string \<Rightarrow> bool" where
  "has_interesting_extension candidate =
     (case Option.bind (path_file_name candidate) (\<lambda>name. snd (split_at_dot name)) of
        Some ext \<Rightarrow> to_ascii_lowercase ext \<in> set [''rs'', ''ts'', ''tsx'', ''js'', ''json'', ''md'']
      | None \<Rightarrow> False)"

definition extract_file_candidates :: "string \<Rightarrow> string list" where
  "extract_file_candidates content =
     List.map_filter (\<lambda>token.
       let candidate = trim_set {CHR '','', CHR ''.'', CHR '':'', CHR '';'', CHR '')'', CHR ''('', CHR 0x22, CHR 0x27, CHR 0x60} token
       in if str_contains candidate ''/'' \<and> has_interesting_extension candidate then Some candidate else None)
       (split_whitespace content)"

fun block_file_text :: "content_block \<Rightarrow> string" where
  "block_file_text (Text t) = t"
| "block_file_text (InputRouter _) = []"
| "block_file_text (Thinking t _) = t"
| "block_file_text (RedactedThinking _) = []"
| "block_file_text (ToolUse _ _ input) = input"
| "block_file_text (ToolResult _ _ output _) = output"

definition collect_key_files :: "conversation_message list \<Rightarrow> string list" where
  "collect_key_files msgs =
     take 8 (remdups_adj (sort (concat (map (\<lambda>b. extract_file_candidates (block_file_text b)) (all_blocks msgs)))))"

definition infer_current_work :: "conversation_message list \<Rightarrow> string option" where
  "infer_current_work msgs =
     map_option (\<lambda>t. truncate_summary t 200)
       (List.find (\<lambda>t. str_trim t \<noteq> []) (List.map_filter first_text_block (rev msgs)))"

definition bullets :: "string \<Rightarrow> string list \<Rightarrow> string list" where
  "bullets heading items = (if items = [] then [] else heading # map ((@) ''  - '') items)"

definition role_count :: "message_role \<Rightarrow> conversation_message list \<Rightarrow> nat" where
  "role_count r msgs = length (filter (\<lambda>m. role m = r) msgs)"

definition summarize_messages :: "compact_env \<Rightarrow> conversation_message list \<Rightarrow> string" where
  "summarize_messages env msgs =
     (let tool_names = collect_discovered_tools msgs; key_files = collect_key_files msgs
      in str_join nl
       ([''<summary>'', ''Conversation summary:'',
         ''- Scope: '' @ to_decimal (length msgs) @ '' earlier messages compacted (user='' @ to_decimal (role_count UserRole msgs) @
         '', assistant='' @ to_decimal (role_count AssistantRole msgs) @ '', tool='' @ to_decimal (role_count ToolRole msgs) @ '').''] @
        (if tool_names = [] then [] else [''- Tools mentioned: '' @ str_join '', '' tool_names @ ''.'']) @
        bullets ''- Recent user requests:'' (collect_recent_role_summaries msgs UserRole 3) @
        bullets ''- Pending work:'' (infer_pending_work msgs) @
        (if key_files = [] then [] else [''- Key files referenced: '' @ str_join '', '' key_files @ ''.'']) @
        (case infer_current_work msgs of Some w \<Rightarrow> [''- Current work: '' @ w] | None \<Rightarrow> []) @
        [''- Key timeline:''] @
        map (\<lambda>m. ''  - '' @ role_as_str (role m) @ '': '' @ str_join '' | '' (map (summarize_block env) (blocks m))) msgs @
        [''</summary>'']))"

definition indented :: "string \<Rightarrow> string list \<Rightarrow> string list" where
  "indented heading items = (if items = [] then [] else heading # map ((@) ''  '') items)"

definition merge_compact_summaries :: "string option \<Rightarrow> string \<Rightarrow> string" where
  "merge_compact_summaries existing_summary new_summary =
     (case existing_summary of
        None \<Rightarrow> new_summary
      | Some existing \<Rightarrow>
          (let new_formatted_summary = format_compact_summary new_summary
           in str_join nl
            ([''<summary>'', ''Conversation summary:''] @
             indented ''- Previously compacted context:'' (extract_summary_highlights existing) @
             indented ''- Newly compacted context:'' (extract_summary_highlights new_formatted_summary) @
             indented ''- Key timeline:'' (extract_summary_timeline new_formatted_summary) @
             [''</summary>''])))"

section \<open>Context behind the summary\<close>

fun tool_output :: "string \<Rightarrow> content_block \<Rightarrow> string option" where
  "tool_output name (ToolResult _ tool_name output is_error) = (if \<not> is_error \<and> tool_name = name then Some output else None)"
| "tool_output name _ = None"

definition successful_tool_outputs :: "conversation_message list \<Rightarrow> string \<Rightarrow> string list" where
  "successful_tool_outputs msgs name = List.map_filter (tool_output name) (all_blocks msgs)"

definition refresh_agent_manifest :: "compact_env \<Rightarrow> compact_agent_output \<Rightarrow> compact_agent_output option" where
  "refresh_agent_manifest env agent = ce_agent_manifest env (ag_manifest_file agent)"

definition latest_agents :: "compact_env \<Rightarrow> string list \<Rightarrow> (string \<times> compact_agent_output) list" where
  "latest_agents env outputs =
     fold (\<lambda>output agents.
       case ce_agent_output env output of
         None \<Rightarrow> agents
       | Some parsed \<Rightarrow>
           (let refreshed = (case refresh_agent_manifest env parsed of Some a \<Rightarrow> a | None \<Rightarrow> parsed)
            in btree_insert (ag_agent_id refreshed) refreshed agents)) outputs []"

definition with_text :: "string option \<Rightarrow> attachment_kind \<Rightarrow> process \<Rightarrow> conversation_message option \<times> process" where
  "with_text t kind p = (case t of None \<Rightarrow> (None, p) | Some s \<Rightarrow> (let (m, p') = attachment_user_text s kind p in (Some m, p')))"

definition quote :: "string \<Rightarrow> string" where
  "quote s = [CHR 0x60] @ s @ [CHR 0x60]"

definition create_running_agents_context_message ::
  "compact_env \<Rightarrow> conversation_message list \<Rightarrow> process \<Rightarrow> conversation_message option \<times> process" where
  "create_running_agents_context_message env msgs =
     (let running = filter (\<lambda>a. to_ascii_lowercase (ag_status a) = ''running'')
        (map snd (latest_agents env (successful_tool_outputs msgs ''Agent'')))
      in with_text (if running = [] then None else Some
        (''Background agents are still active after compaction. Avoid spawning duplicate agents unless the user explicitly asks.'' @
         concat (map (\<lambda>a.
           nl @ ''- '' @ quote (ag_name a) @ '' ('' @ quote (ag_agent_id a) @ ''): '' @ str_trim (ag_description a) @
           nl @ ''  Status: '' @ ag_status a @
           (if str_trim (ag_derived_state a) = [] then [] else nl @ ''  Derived state: '' @ str_trim (ag_derived_state a)) @
           nl @ ''  Output file: '' @ ag_output_file a) running))) RunningAgents)"

definition todo_store_path_for_session :: "compact_env \<Rightarrow> session \<Rightarrow> string option" where
  "todo_store_path_for_session env s =
     (case ce_todo_store env of
        Some path \<Rightarrow> Some path
      | None \<Rightarrow>
          (case workspace_root s of
             Some root \<Rightarrow> Some (path_join root ''.clawd-todos.json'')
           | None \<Rightarrow>
               if persistence s = None then None
               else map_option (\<lambda>cwd. path_join cwd ''.clawd-todos.json'') (ce_current_dir env)))"

definition create_todo_context_message ::
  "compact_env \<Rightarrow> session \<Rightarrow> process \<Rightarrow> conversation_message option \<times> process" where
  "create_todo_context_message env s =
     with_text (Option.bind (todo_store_path_for_session env s) (\<lambda>path.
       Option.bind (ce_todos env path) (\<lambda>todos.
         if todos = [] then None
         else Some (''Current TodoWrite task list remains active after compaction.'' @ nl @ ''Source: '' @ path @
           concat (map (\<lambda>t. nl @ ''- ['' @ todo_label (td_status t) @ ''] '' @ str_trim (td_content t) @
             '' (active form: '' @ str_trim (td_active_form t) @ '')'') todos))))) TodoList"

fun plan_mode_output :: "compact_env \<Rightarrow> content_block \<Rightarrow> compact_plan_mode_output option" where
  "plan_mode_output env (ToolResult _ tool_name output is_error) =
     (if \<not> is_error \<and> (tool_name = ''EnterPlanMode'' \<or> tool_name = ''ExitPlanMode'') then ce_plan_mode_output env output else None)"
| "plan_mode_output env _ = None"

definition create_plan_mode_context_message ::
  "compact_env \<Rightarrow> conversation_message list \<Rightarrow> process \<Rightarrow> conversation_message option \<times> process" where
  "create_plan_mode_context_message env msgs =
     with_text (case List.map_filter (plan_mode_output env) (rev (all_blocks msgs)) of
         [] \<Rightarrow> None
       | latest # _ \<Rightarrow>
           if \<not> pm_active latest then None
           else Some (''Plan mode is still active for this worktree after compaction.'' @ nl @
             (if pm_managed latest then ''The override is still managed by EnterPlanMode.''
              else ''The worktree is still in local plan mode.'') @ nl @
             ''Last plan-mode message: '' @ str_trim (pm_message latest) @ nl @
             ''Settings path: '' @ pm_settings_path latest @ nl @
             ''State path: '' @ pm_state_path latest @ nl @
             ''Continue exploring and planning until the user explicitly approves implementation.'')) PlanMode"

definition legacy_invoked_skills_from_messages :: "compact_env \<Rightarrow> conversation_message list \<Rightarrow> invoked_skill list" where
  "legacy_invoked_skills_from_messages env msgs =
     map (\<lambda>parsed. \<lparr>sk_skill = so_skill parsed, sk_resolved_name = None, sk_path = Some (so_path parsed),
         sk_description = so_description parsed, sk_args = so_args parsed, sk_prompt = so_prompt parsed\<rparr>)
       (List.map_filter (ce_skill_output env) (successful_tool_outputs msgs ''Skill''))"

definition labelled :: "string \<Rightarrow> string option \<Rightarrow> string" where
  "labelled label v = (case v of Some x \<Rightarrow> if str_trim x = [] then [] else nl @ label @ str_trim x | None \<Rightarrow> [])"

definition create_invoked_skills_context_message ::
  "compact_env \<Rightarrow> session \<Rightarrow> process \<Rightarrow> conversation_message option \<times> process" where
  "create_invoked_skills_context_message env s =
     (let listed = (if invoked_skills s = [] then legacy_invoked_skills_from_messages env (messages s) else invoked_skills s);
          skills = fold (\<lambda>k. btree_insert (sk_skill k) k) listed []
      in with_text (if skills = [] then None else Some
        (''Previously invoked skills remain available after compaction.'' @
         concat (map (\<lambda>(_, k).
           nl @ nl @ ''Skill '' @ quote (sk_skill k) @
           labelled ''Path: '' (sk_path k) @ labelled ''Description: '' (sk_description k) @ labelled ''Args: '' (sk_args k) @
           nl @ ''Instructions:'' @ nl @ str_trim (sk_prompt k)) skills))) InvokedSkills)"

text \<open>The messages that were made, in order.\<close>

fun sequence_messages :: "(process \<Rightarrow> conversation_message option \<times> process) list \<Rightarrow> process \<Rightarrow> conversation_message list \<times> process" where
  "sequence_messages [] p = ([], p)"
| "sequence_messages (f # fs) p =
     (let (m, p1) = f p; (ms, p2) = sequence_messages fs p1 in ((case m of Some x \<Rightarrow> x # ms | None \<Rightarrow> ms), p2))"

definition collect_post_compact_context_messages ::
  "compact_env \<Rightarrow> session \<Rightarrow> process \<Rightarrow> conversation_message list \<times> process" where
  "collect_post_compact_context_messages env s =
     sequence_messages
       [create_running_agents_context_message env (messages s), create_todo_context_message env s,
        create_plan_mode_context_message env (messages s), create_invoked_skills_context_message env s]"

section \<open>The compacted session\<close>

definition build_preserved_segment_metadata ::
  "conversation_message list \<Rightarrow> preserved_segment_anchor option \<Rightarrow> string option \<Rightarrow> compact_preserved_segment option" where
  "build_preserved_segment_metadata preserved anchor summary_message_uuid =
     (if preserved = [] then None
      else Option.bind
        (case (case anchor of Some a \<Rightarrow> a | None \<Rightarrow> LastSummaryMessage) of LastSummaryMessage \<Rightarrow> summary_message_uuid)
        (\<lambda>anchor_uuid. Some \<lparr>ps_head = uuid (hd preserved), ps_anchor = anchor_uuid, ps_tail = uuid (last preserved)\<rparr>))"

definition build_ts_compact_boundary_message ::
  "compact_trigger \<Rightarrow> nat \<Rightarrow> nat \<Rightarrow> conversation_message list \<Rightarrow> conversation_message list \<Rightarrow>
   preserved_segment_anchor option \<Rightarrow> string option \<Rightarrow> process \<Rightarrow> conversation_message \<times> process" where
  "build_ts_compact_boundary_message trigger pre_tokens removed_message_count source_messages preserved anchor summary_message_uuid =
     compact_boundary \<lparr>cb_trigger = trigger, cb_pre_tokens = pre_tokens, cb_user_context = None,
       cb_messages_summarized = Some removed_message_count,
       cb_pre_compact_discovered_tools = collect_discovered_tools source_messages,
       cb_preserved_segment = build_preserved_segment_metadata preserved anchor summary_message_uuid\<rparr>"

definition build_compacted_messages ::
  "string \<Rightarrow> conversation_message list \<Rightarrow> build_compaction_result_options \<Rightarrow> nat \<Rightarrow> conversation_message list \<Rightarrow>
   process \<Rightarrow> conversation_message list \<times> process" where
  "build_compacted_messages summary context_messages opts pre_tokens source_messages p =
     (let preserved = bo_preserved_messages opts;
          recent_messages_preserved = (preserved \<noteq> []);
          (head, p') =
            (case bo_layout opts of
               LegacyResumableSummary \<Rightarrow>
                 (let (m, p1) = system_text (get_compact_continuation_message summary
                    (bo_suppress_follow_up_questions opts) recent_messages_preserved) p in ([m], p1))
             | TsBoundaryAndSummary \<Rightarrow>
                 (let (summary_message, p1) = compact_summary_user_text (get_compact_user_summary_message summary
                        (bo_suppress_follow_up_questions opts) recent_messages_preserved) (\<not> recent_messages_preserved) p;
                      (boundary_message, p2) = build_ts_compact_boundary_message
                        (case bo_boundary_trigger opts of Some t \<Rightarrow> t | None \<Rightarrow> Manual) pre_tokens (bo_removed_message_count opts)
                        source_messages preserved (bo_preserved_segment_anchor opts) (Some (uuid summary_message)) p1
                  in ([boundary_message, summary_message], p2)))
      in (head @ preserved @ context_messages @ bo_hook_result_messages opts, p'))"

definition build_compaction_result ::
  "compact_env \<Rightarrow> session \<Rightarrow> string \<Rightarrow> build_compaction_result_options \<Rightarrow> world \<Rightarrow> compaction_result \<times> world" where
  "build_compaction_result env s summary opts w =
     (let (context_messages, w1) = (case bo_layout opts of
            LegacyResumableSummary \<Rightarrow> ([], w)
          | TsBoundaryAndSummary \<Rightarrow> on_process (collect_post_compact_context_messages env s) w);
          (compacted_messages, w2) = on_process
            (build_compacted_messages summary context_messages opts (estimate_session_tokens env s) (messages s)) w1;
          (compacted_session, w3) = record_compaction summary (bo_removed_message_count opts) (s\<lparr>messages := compacted_messages\<rparr>) w2
      in (\<lparr>cr_summary = summary, cr_formatted_summary = format_compact_summary summary, cr_compacted_session = compacted_session,
           cr_removed_message_count = bo_removed_message_count opts,
           cr_removed_messages = filter (\<lambda>m. uuid m \<notin> set (map uuid (messages compacted_session))) (messages s),
           cr_user_display_message = bo_user_display_message opts\<rparr>, w3))"

definition select_full_compact_messages :: "session \<Rightarrow> nat \<Rightarrow> full_compact_selection" where
  "select_full_compact_messages s preserve_recent =
     (if preserve_recent = 0 then \<lparr>messages_to_summarize = messages s, preserved_messages = []\<rparr>
      else let keep_from = max (length (messages s) - preserve_recent) (compacted_summary_prefix_len s)
           in \<lparr>messages_to_summarize = take keep_from (messages s), preserved_messages = drop keep_from (messages s)\<rparr>)"

text \<open>\<open>None\<close> is the panic of the slice \<open>messages[compacted_prefix_len..keep_from]\<close>.\<close>

definition compact_session :: "compact_env \<Rightarrow> session \<Rightarrow> compaction_config \<Rightarrow> world \<Rightarrow> compaction_result option \<times> world" where
  "compact_session env s config w =
     (if \<not> should_compact env s config then
        (Some \<lparr>cr_summary = [], cr_formatted_summary = [], cr_compacted_session = s, cr_removed_message_count = 0,
           cr_removed_messages = [], cr_user_display_message = None\<rparr>, w)
      else
        let existing_summary = extract_existing_compacted_summary (messages s);
            compacted_prefix_len = (case existing_summary of Some (n, _) \<Rightarrow> n | None \<Rightarrow> 0);
            keep_from = length (messages s) - preserve_recent_messages config
        in if keep_from < compacted_prefix_len then (None, w)
           else
             let removed = take (keep_from - compacted_prefix_len) (drop compacted_prefix_len (messages s));
                 preserved = drop keep_from (messages s);
                 summary = merge_compact_summaries (map_option snd existing_summary) (summarize_messages env removed);
                 (r, w') = build_compaction_result env s summary
                   \<lparr>bo_preserved_messages = preserved, bo_hook_result_messages = [], bo_preserved_segment_anchor = None,
                    bo_removed_message_count = length removed, bo_suppress_follow_up_questions = True,
                    bo_layout = LegacyResumableSummary, bo_boundary_trigger = None, bo_user_display_message = None\<rparr> w
             in (Some r, w'))"

section \<open>Facts\<close>

lemma str_trim_neq_Nil:
  assumes "code c < 128" "\<not> is_whitespace [c]"
  shows "str_trim (c # s) \<noteq> []"
proof -
  have chars: "chars (c # s) = [c] # chars s" by (rule chars_ascii) (rule assms)
  have "[c] \<in> set (dropWhile is_whitespace (rev ([c] # chars s)))"
    using assms(2) by (induction "rev (chars s)") (simp_all add: dropWhile_append)
  then have "c \<in> set (concat (rev (dropWhile is_whitespace (rev ([c] # chars s)))))" by force
  then have "concat (rev (dropWhile is_whitespace (rev (dropWhile is_whitespace ([c] # chars s))))) \<noteq> []"
    using assms(2) by (metis dropWhile.simps(2) empty_iff list.set(1))
  then show ?thesis unfolding str_trim_def chars .
qed

lemma preamble_head: "\<exists>rest. COMPACT_CONTINUATION_PREAMBLE = CHR ''T'' # rest"
  by (simp add: COMPACT_CONTINUATION_PREAMBLE_def)

lemma preamble_not_blank: "str_trim (COMPACT_CONTINUATION_PREAMBLE @ t) \<noteq> []"
proof -
  obtain rest where rest: "COMPACT_CONTINUATION_PREAMBLE = CHR ''T'' # rest" using preamble_head by blast
  have "code (CHR ''T'') < 128" "\<not> is_whitespace ''T''" by (simp add: code_def, code_simp)
  from str_trim_neq_Nil [OF this, of "rest @ t"] show ?thesis unfolding rest append_Cons .
qed

lemma summary_of_preamble: "\<exists>x. summary_of_text (COMPACT_CONTINUATION_PREAMBLE @ t) = Some x"
  by (simp add: summary_of_text_def strip_prefix_def)

text \<open>Both layouts of a compacted session are recognised as such.\<close>

lemma legacy_prefix:
  assumes "role m = SystemRole" "blocks m = [Text (COMPACT_CONTINUATION_PREAMBLE @ t)]"
  shows "\<exists>x. extract_existing_compacted_summary (m # ms) = Some (1, x)"
  using assms summary_of_preamble [of t] preamble_not_blank [of t]
  by (auto simp: extract_existing_compacted_summary_def extract_legacy_compacted_summary_def first_text_block_def)

lemma prefix_len_le: "extract_existing_compacted_summary ms = Some (n, x) \<Longrightarrow> n \<le> length ms"
  by (auto simp: extract_existing_compacted_summary_def split: list.splits option.splits if_splits)

lemma compacted_summary_prefix_len_le: "compacted_summary_prefix_len s \<le> length (messages s)"
  using prefix_len_le [of "messages s"] by (auto simp: compacted_summary_prefix_len_def split: option.splits)

lemma new_message_fields:
  assumes "new_message r bs u st cm am hm summary transcript_only p = (m, p')"
  shows "role m = r" "blocks m = bs" "usage m = u"
  using assms by (auto simp: new_message_def Let_def split: prod.splits)

lemma record_compaction_messages: "record_compaction t n s w = (s', w') \<Longrightarrow> messages s' = messages s"
  by (auto simp: record_compaction_def touch_def Let_def split: prod.splits)

text \<open>The messages of a compacted session in the layout without a boundary.\<close>

lemma build_legacy:
  assumes "build_compaction_result env s summary opts w = (r, w')" "bo_layout opts = LegacyResumableSummary"
  shows "\<exists>m t. messages (cr_compacted_session r) = m # bo_preserved_messages opts @ bo_hook_result_messages opts \<and>
    role m = SystemRole \<and> blocks m = [Text (COMPACT_CONTINUATION_PREAMBLE @ t)] \<and>
    cr_removed_message_count r = bo_removed_message_count opts"
proof -
  obtain msgs w2 where msgs: "on_process (build_compacted_messages summary [] opts (estimate_session_tokens env s) (messages s)) w = (msgs, w2)"
    by fastforce
  obtain s3 w3 where s3: "record_compaction summary (bo_removed_message_count opts) (s\<lparr>messages := msgs\<rparr>) w2 = (s3, w3)" by fastforce
  obtain m p1 where m: "system_text (get_compact_continuation_message summary (bo_suppress_follow_up_questions opts)
      (bo_preserved_messages opts \<noteq> [])) (proc w) = (m, p1)" by fastforce
  from msgs m assms(2) have "msgs = m # bo_preserved_messages opts @ bo_hook_result_messages opts"
    by (simp add: on_process_def build_compacted_messages_def Let_def split: prod.splits)
  moreover from m have "role m = SystemRole" "\<exists>t. blocks m = [Text (COMPACT_CONTINUATION_PREAMBLE @ t)]"
    by (auto simp: system_text_def get_compact_continuation_message_def dest: new_message_fields)
  moreover have "cr_compacted_session r = s3" "cr_removed_message_count r = bo_removed_message_count opts"
    using assms msgs s3 by (auto simp: build_compaction_result_def Let_def)
  ultimately show ?thesis using record_compaction_messages [OF s3] by auto
qed

end
