(* ===== verification/Agent_Usage.thy ===== *)
theory Agent_Usage
  imports Agent_Compact
begin

text \<open>
  Token accounting (\<open>usage.rs\<close>) and the thresholds of automatic compaction that
  \<open>conversation.rs\<close> derives from it. Token counts are 32-bit words; their sums wrap around as in a
  release build, except where the source saturates. Costs in floating point are not modelled.
\<close>

section \<open>Usage\<close>

definition total_tokens :: "token_usage \<Rightarrow> u32" where
  "total_tokens u = input_tokens u + output_tokens u + cache_creation_input_tokens u + cache_read_input_tokens u"

definition context_window_tokens :: "token_usage \<Rightarrow> u32" where
  "context_window_tokens u = total_tokens u"

definition no_usage :: token_usage where
  "no_usage = \<lparr>input_tokens = 0, output_tokens = 0, cache_creation_input_tokens = 0, cache_read_input_tokens = 0\<rparr>"

record usage_tracker =
  latest_turn :: token_usage
  cumulative :: token_usage
  turns :: u32

definition new_tracker :: usage_tracker where
  "new_tracker = \<lparr>latest_turn = no_usage, cumulative = no_usage, turns = 0\<rparr>"

definition record_usage :: "token_usage \<Rightarrow> usage_tracker \<Rightarrow> usage_tracker" where
  "record_usage u t =
     (let c = cumulative t
      in \<lparr>latest_turn = u,
          cumulative = \<lparr>input_tokens = input_tokens c + input_tokens u, output_tokens = output_tokens c + output_tokens u,
            cache_creation_input_tokens = cache_creation_input_tokens c + cache_creation_input_tokens u,
            cache_read_input_tokens = cache_read_input_tokens c + cache_read_input_tokens u\<rparr>,
          turns = turns t + 1\<rparr>)"

definition tracker_from_session :: "session \<Rightarrow> usage_tracker" where
  "tracker_from_session s =
     fold (\<lambda>m t. case usage m of Some u \<Rightarrow> record_usage u t | None \<Rightarrow> t) (messages s) new_tracker"

text \<open>\<open>u32::try_from(n).unwrap_or(u32::MAX)\<close>, \<open>saturating_add\<close>, \<open>saturating_sub\<close> and \<open>saturating_mul\<close>.\<close>

definition u32_or_max :: "nat \<Rightarrow> u32" where
  "u32_or_max n = (if n < 2 ^ 32 then of_nat n else - 1)"

definition u32_sat_add :: "u32 \<Rightarrow> u32 \<Rightarrow> u32" where
  "u32_sat_add a b = u32_or_max (unat a + unat b)"

definition u32_sat_sub :: "u32 \<Rightarrow> u32 \<Rightarrow> u32" where
  "u32_sat_sub a b = (if b \<le> a then a - b else 0)"

definition u32_sat_mul :: "u32 \<Rightarrow> u32 \<Rightarrow> u32" where
  "u32_sat_mul a b = u32_or_max (unat a * unat b)"

text \<open>The messages are visited from the last one; \<open>tail\<close> is the estimate of those behind.\<close>

fun context_tokens_loop :: "compact_env \<Rightarrow> nat \<Rightarrow> conversation_message list \<Rightarrow> u32" where
  "context_tokens_loop env tail [] = u32_or_max tail"
| "context_tokens_loop env tail (m # before) =
     (case usage m of
        Some u \<Rightarrow> u32_sat_add (context_window_tokens u) (u32_or_max tail)
      | None \<Rightarrow> context_tokens_loop env (tail + estimate_message_tokens env m) before)"

definition estimated_context_window_tokens :: "compact_env \<Rightarrow> session \<Rightarrow> u32" where
  "estimated_context_window_tokens env s = context_tokens_loop env 0 (rev (messages s))"

section \<open>Thresholds\<close>

definition DEFAULT_AUTO_COMPACTION_CONTEXT_WINDOW_TOKENS :: u32 where
  "DEFAULT_AUTO_COMPACTION_CONTEXT_WINDOW_TOKENS = 200000"
definition MAX_OUTPUT_TOKENS_FOR_SUMMARY :: u32 where "MAX_OUTPUT_TOKENS_FOR_SUMMARY = 20000"
definition AUTOCOMPACT_BUFFER_TOKENS :: u32 where "AUTOCOMPACT_BUFFER_TOKENS = 13000"
definition COMPACT_REQUEST_SAFETY_BUFFER_TOKENS :: u32 where "COMPACT_REQUEST_SAFETY_BUFFER_TOKENS = 1024"
definition AUTO_COMPACTION_THRESHOLD_ENV_VAR :: string where
  "AUTO_COMPACTION_THRESHOLD_ENV_VAR = ''CLAUDE_CODE_AUTO_COMPACT_INPUT_TOKENS''"
definition AUTO_COMPACTION_WINDOW_ENV_VAR :: string where "AUTO_COMPACTION_WINDOW_ENV_VAR = ''CLAUDE_CODE_AUTO_COMPACT_WINDOW''"
definition AUTO_COMPACTION_PCT_ENV_VAR :: string where "AUTO_COMPACTION_PCT_ENV_VAR = ''CLAUDE_AUTOCOMPACT_PCT_OVERRIDE''"

record auto_compaction_config =
  ac_context_window_tokens :: "u32 option"
  ac_max_output_tokens :: u32
  ac_fixed_threshold_tokens :: "u32 option"

definition default_auto_compaction_config :: auto_compaction_config where
  "default_auto_compaction_config = \<lparr>ac_context_window_tokens = Some DEFAULT_AUTO_COMPACTION_CONTEXT_WINDOW_TOKENS,
     ac_max_output_tokens = MAX_OUTPUT_TOKENS_FOR_SUMMARY, ac_fixed_threshold_tokens = None\<rparr>"

definition positive :: "u32 \<Rightarrow> u32 option" where
  "positive v = (if 0 < v then Some v else None)"

definition parse_positive_u32 :: "string \<Rightarrow> u32 option" where
  "parse_positive_u32 t =
     Option.bind (parse_usize (str_trim t)) (\<lambda>n. if n < 2 ^ 32 then positive (of_nat n) else None)"

definition effective_auto_compaction_context_window :: "auto_compaction_config \<Rightarrow> u32 option \<Rightarrow> u32" where
  "effective_auto_compaction_context_window config window_override =
     (let configured = (case Option.bind (ac_context_window_tokens config) positive of
          Some v \<Rightarrow> v | None \<Rightarrow> DEFAULT_AUTO_COMPACTION_CONTEXT_WINDOW_TOKENS)
      in case window_override of None \<Rightarrow> configured | Some v \<Rightarrow> min configured v)"

text \<open>
  A percentage is given by the function from the window to the threshold that the source computes
  for it in floating point.
\<close>

definition auto_compaction_threshold_with_overrides ::
  "auto_compaction_config \<Rightarrow> u32 option \<Rightarrow> u32 option \<Rightarrow> (u32 \<Rightarrow> u32) option \<Rightarrow> u32" where
  "auto_compaction_threshold_with_overrides config fixed_threshold_override window_override percent_override =
     (case fixed_threshold_override of
        Some threshold \<Rightarrow> threshold
      | None \<Rightarrow>
          (let window = effective_auto_compaction_context_window config window_override;
               reserved = min (min (ac_max_output_tokens config) MAX_OUTPUT_TOKENS_FOR_SUMMARY) window;
               base = u32_sat_sub (u32_sat_sub window reserved) AUTOCOMPACT_BUFFER_TOKENS;
               base = max (if 0 < base then base else u32_sat_mul window 4 div 5) 1
           in case percent_override of
                Some percent \<Rightarrow> min (max (percent window) 1) base
              | None \<Rightarrow> base))"

section \<open>Facts\<close>

lemma u32_sat_sub_le: "u32_sat_sub a b \<le> a"
  by (auto simp: u32_sat_sub_def word_sub_le)

lemma unat_u32_or_max: "unat (u32_or_max n) = min n (2 ^ 32 - 1)"
proof -
  have "(- 1 :: u32) = of_nat (2 ^ 32 - 1)" by simp
  then have "unat (- 1 :: u32) = 2 ^ 32 - 1" by (simp only: unat_of_nat) simp
  then show ?thesis by (auto simp: u32_or_max_def unat_of_nat take_bit_nat_eq_self)
qed

lemma u32_sat_mul_div_le: "u32_sat_mul w 4 div 5 \<le> w"
proof -
  have "unat (u32_sat_mul w 4 div 5) \<le> unat w"
    by (simp add: u32_sat_mul_def unat_div unat_u32_or_max)
  then show ?thesis by (simp add: word_le_nat_alt)
qed

end
