(* ===== verification/Agent_Conversation.thy ===== *)
theory Agent_Conversation
  imports Agent_Usage Agent_Permissions
begin

text \<open>
  The conversation loop (\<open>conversation.rs\<close>): a turn sends the messages of the session to the model,
  runs the tools it asks for under the permission policy and the hooks, and goes on until the model
  asks for none. The model, the tools, the hooks, the prompter, the abort signal, the
  AppFS events and the environment are the fields of \<open>services\<close>, functions on a state of their own.
  The session tracer only reports and is left out.
\<close>

section \<open>Data\<close>

record runtime_error =
  re_message :: string
  re_cancelled :: bool

definition new_runtime_error :: "string \<Rightarrow> runtime_error" where
  "new_runtime_error msg = \<lparr>re_message = msg, re_cancelled = False\<rparr>"

record api_request =
  rq_system_prompt :: "string list"
  rq_messages :: "conversation_message list"
  rq_allow_tools :: bool
  rq_model_override :: "string option"
  rq_reasoning_effort :: "string option"
  rq_max_tokens_override :: "u32 option"

definition conversation_request :: "string list \<Rightarrow> conversation_message list \<Rightarrow> api_request" where
  "conversation_request prompt msgs = \<lparr>rq_system_prompt = prompt, rq_messages = msgs, rq_allow_tools = True,
     rq_model_override = None, rq_reasoning_effort = None, rq_max_tokens_override = None\<rparr>"

definition text_only_request :: "string list \<Rightarrow> conversation_message list \<Rightarrow> api_request" where
  "text_only_request prompt msgs = \<lparr>rq_system_prompt = prompt, rq_messages = msgs, rq_allow_tools = False,
     rq_model_override = None, rq_reasoning_effort = None, rq_max_tokens_override = Some MAX_OUTPUT_TOKENS_FOR_SUMMARY\<rparr>"

record prompt_cache_event =
  pc_unexpected :: bool
  pc_reason :: string
  pc_previous_cache_read_input_tokens :: u32
  pc_current_cache_read_input_tokens :: u32
  pc_token_drop :: u32

datatype assistant_event =
    TextDelta string
  | ThinkingDelta string
  | ThinkingSignature string
  | RedactedThinkingEvent json
  | ToolUseEvent string string string
  | UsageEvent token_usage
  | PromptCache prompt_cache_event
  | MessageStop

record tool_context_update =
  tu_model_override :: "string option"
  tu_reasoning_effort :: "string option"
  tu_additional_allow_rules :: "string list"

record tool_execution_result =
  tx_output :: string
  tx_additional_messages :: "conversation_message list"
  tx_context_update :: "tool_context_update option"
  tx_invoked_skills :: "invoked_skill list"

definition text_result :: "string \<Rightarrow> tool_execution_result" where
  "text_result output = \<lparr>tx_output = output, tx_additional_messages = [], tx_context_update = None, tx_invoked_skills = []\<rparr>"

record conversation_tool_context =
  tc_model_override :: "string option"
  tc_reasoning_effort :: "string option"
  tc_additional_allow_rules :: "string list"

definition default_tool_context :: conversation_tool_context where
  "default_tool_context = \<lparr>tc_model_override = None, tc_reasoning_effort = None, tc_additional_allow_rules = []\<rparr>"

definition apply_context_update :: "tool_context_update \<Rightarrow> conversation_tool_context \<Rightarrow> conversation_tool_context" where
  "apply_context_update update c =
     \<lparr>tc_model_override = (case tu_model_override update of Some m \<Rightarrow> Some m | None \<Rightarrow> tc_model_override c),
      tc_reasoning_effort = (case tu_reasoning_effort update of Some r \<Rightarrow> Some r | None \<Rightarrow> tc_reasoning_effort c),
      tc_additional_allow_rules =
        fold (\<lambda>rule rules. if rule \<in> set rules then rules else rules @ [rule])
          (tu_additional_allow_rules update) (tc_additional_allow_rules c)\<rparr>"

definition apply_to_api_request :: "conversation_tool_context \<Rightarrow> api_request \<Rightarrow> api_request" where
  "apply_to_api_request c rq = rq\<lparr>rq_model_override := tc_model_override c, rq_reasoning_effort := tc_reasoning_effort c\<rparr>"

record hook_run_result =
  hk_denied :: bool
  hk_failed :: bool
  hk_cancelled :: bool
  hk_messages :: "string list"
  hk_permission_override :: "permission_override option"
  hk_permission_reason :: "string option"
  hk_updated_input :: "string option"

definition tool_permission_context :: "conversation_tool_context \<Rightarrow> hook_run_result \<Rightarrow> permission_context" where
  "tool_permission_context c pre =
     \<lparr>override_decision = hk_permission_override pre, override_reason = hk_permission_reason pre,
      additional_allow_rules = tc_additional_allow_rules c\<rparr>"

record auto_compaction_event =
  ae_removed_message_count :: nat
  ae_removed_messages :: "conversation_message list"
  ae_estimated_context_tokens :: u32
  ae_threshold_tokens :: u32

record turn_summary =
  ts_assistant_messages :: "conversation_message list"
  ts_tool_results :: "conversation_message list"
  ts_prompt_cache_events :: "prompt_cache_event list"
  ts_iterations :: nat
  ts_usage :: token_usage
  ts_auto_compaction :: "auto_compaction_event option"
  ts_cancelled :: bool

record pre_compact_hook_result =
  pre_new_custom_instructions :: "string option"
  pre_user_display_message :: "string option"

record appfs_pending_input_sync =
  as_pending_inputs :: "pending_input list"
  as_cursor_updates :: "(string \<times> i64) list"
  as_wake_cursor_updates :: "(string \<times> i64) list"

text \<open>What \<open>with_tool_session_context\<close> and \<open>with_tool_session_snapshot\<close> let a tool see of the session.\<close>

record tool_session =
  vs_session_id :: string
  vs_path :: "file_path option"
  vs_snapshot :: "(conversation_message list \<times> string option) option"

text \<open>
  \<open>sv_external\<close> reads and writes the queue shared with other threads; \<open>sv_percent\<close> is the threshold a
  percentage gives for a window. The AppFS functions \<open>collect_appfs_pending_inputs\<close> and
  \<open>build_peer_awareness_snapshot\<close> of \<open>appfs.rs\<close> read event files of the mount.
\<close>

record 'e services =
  sv_stream :: "tool_session \<Rightarrow> api_request \<Rightarrow> 'e \<Rightarrow> (runtime_error + assistant_event list) \<times> 'e"
  sv_execute :: "tool_session \<Rightarrow> string \<Rightarrow> string \<Rightarrow> 'e \<Rightarrow> (string + tool_execution_result) \<times> 'e"
  sv_pre_tool_use :: "string \<Rightarrow> string \<Rightarrow> 'e \<Rightarrow> hook_run_result \<times> 'e"
  sv_post_tool_use :: "string \<Rightarrow> string \<Rightarrow> string \<Rightarrow> bool \<Rightarrow> 'e \<Rightarrow> hook_run_result \<times> 'e"
  sv_post_tool_use_failure :: "string \<Rightarrow> string \<Rightarrow> string \<Rightarrow> 'e \<Rightarrow> hook_run_result \<times> 'e"
  sv_session_start :: "string \<Rightarrow> string option \<Rightarrow> 'e \<Rightarrow> hook_run_result \<times> 'e"
  sv_pre_compact :: "compact_trigger \<Rightarrow> 'e \<Rightarrow> pre_compact_hook_result \<times> 'e"
  sv_post_compact :: "compact_trigger \<Rightarrow> string \<Rightarrow> 'e \<Rightarrow> string option \<times> 'e"
  sv_is_aborted :: "'e \<Rightarrow> bool \<times> 'e"
  sv_prompter :: "'e prompter option"
  sv_collect_appfs :: "session \<Rightarrow> string \<Rightarrow> 'e \<Rightarrow> (session_error + appfs_pending_input_sync) \<times> 'e"
  sv_peer_snapshot :: "string \<Rightarrow> 'e \<Rightarrow> pending_input list \<times> 'e"
  sv_external :: "(('e \<Rightarrow> pending_input_queue) \<times> (pending_input_queue \<Rightarrow> 'e \<Rightarrow> 'e)) option"
  sv_current_dir :: "string option"
  sv_var :: "string \<Rightarrow> string option"
  sv_percent :: "string \<Rightarrow> (u32 \<Rightarrow> u32) option"
  sv_compact :: compact_env
  sv_json :: json_lib

record 'e runtime =
  rt_session :: session
  rt_permission_policy :: permission_policy
  rt_system_prompt :: "string list"
  rt_max_iterations :: nat
  rt_usage_tracker :: usage_tracker
  rt_auto_compaction_config :: auto_compaction_config
  rt_pending_inputs :: pending_input_queue
  rt_pending_event_cursors :: "(string \<times> i64) list"
  rt_pending_wake_cursors :: "(string \<times> i64) list"
  rt_peer_snapshot_injected :: bool
  rt_world :: world
  rt_env :: 'e

definition usize_max :: nat where "usize_max = 2 ^ 64 - 1"

definition new_runtime :: "session \<Rightarrow> permission_policy \<Rightarrow> string list \<Rightarrow> world \<Rightarrow> 'e \<Rightarrow> 'e runtime" where
  "new_runtime s policy prompt w e =
     \<lparr>rt_session = s, rt_permission_policy = policy, rt_system_prompt = prompt, rt_max_iterations = usize_max,
      rt_usage_tracker = tracker_from_session s, rt_auto_compaction_config = default_auto_compaction_config,
      rt_pending_inputs = [], rt_pending_event_cursors = [], rt_pending_wake_cursors = [], rt_peer_snapshot_injected = False,
      rt_world = w, rt_env = e\<rparr>"

definition with_max_iterations :: "nat \<Rightarrow> 'e runtime \<Rightarrow> 'e runtime" where
  "with_max_iterations n rt = rt\<lparr>rt_max_iterations := n\<rparr>"

definition with_auto_compaction_input_tokens_threshold :: "u32 \<Rightarrow> 'e runtime \<Rightarrow> 'e runtime" where
  "with_auto_compaction_input_tokens_threshold threshold rt = rt\<lparr>rt_auto_compaction_config :=
     \<lparr>ac_context_window_tokens = None, ac_max_output_tokens = 0, ac_fixed_threshold_tokens = Some threshold\<rparr>\<rparr>"

definition enqueue_pending_input :: "pending_input \<Rightarrow> 'e runtime \<Rightarrow> 'e runtime" where
  "enqueue_pending_input input rt = rt\<lparr>rt_pending_inputs := queue_push input (rt_pending_inputs rt)\<rparr>"

section \<open>Methods of the runtime\<close>

text \<open>
  A method ends with an early result (\<open>Inl\<close>: an error, or for the loop also the summary it returns)
  or goes on with a value. \<open>tried\<close> is the \<open>?\<close> operator.
\<close>

type_synonym ('e, 'r, 'a) rt_method = "'e runtime \<Rightarrow> ('r + 'a) \<times> 'e runtime"

definition go :: "'a \<Rightarrow> ('e, 'r, 'a) rt_method" where
  "go x = (\<lambda>rt. (Inr x, rt))"

definition leave :: "'r \<Rightarrow> ('e, 'r, 'a) rt_method" where
  "leave r = (\<lambda>rt. (Inl r, rt))"

definition and_go :: "('e, 'r, 'a) rt_method \<Rightarrow> ('a \<Rightarrow> ('e, 'r, 'b) rt_method) \<Rightarrow> ('e, 'r, 'b) rt_method" where
  "and_go m k = (\<lambda>rt. case m rt of (Inl r, rt') \<Rightarrow> (Inl r, rt') | (Inr x, rt') \<Rightarrow> k x rt')"

definition tried :: "('e, runtime_error, 'a) rt_method \<Rightarrow> ('e, runtime_error + 't, 'a) rt_method" where
  "tried m = (\<lambda>rt. case m rt of (Inl r, rt') \<Rightarrow> (Inl (Inl r), rt') | (Inr x, rt') \<Rightarrow> (Inr x, rt'))"

text \<open>\<open>.ok()\<close> of a result, and a handler that runs before an error is passed on.\<close>

definition ok_of :: "('e, 's, 'a) rt_method \<Rightarrow> ('e, 'r, 'a option) rt_method" where
  "ok_of m = (\<lambda>rt. case m rt of (Inl _, rt') \<Rightarrow> (Inr None, rt') | (Inr x, rt') \<Rightarrow> (Inr (Some x), rt'))"

definition on_error :: "('e, 'r, 'a) rt_method \<Rightarrow> ('e runtime \<Rightarrow> 'e runtime) \<Rightarrow> ('e, 'r, 'a) rt_method" where
  "on_error m f = (\<lambda>rt. case m rt of (Inl r, rt') \<Rightarrow> (Inl r, f rt') | (Inr x, rt') \<Rightarrow> (Inr x, rt'))"

definition get_rt :: "('e runtime \<Rightarrow> 'a) \<Rightarrow> ('e, 'r, 'a) rt_method" where
  "get_rt f = (\<lambda>rt. (Inr (f rt), rt))"

definition set_rt :: "('e runtime \<Rightarrow> 'e runtime) \<Rightarrow> ('e, 'r, unit) rt_method" where
  "set_rt f = (\<lambda>rt. (Inr (), f rt))"

text \<open>A call of a service, the making of a message, and a call of the session whose error is reported with a prefix.\<close>

definition serve :: "('e \<Rightarrow> 'a \<times> 'e) \<Rightarrow> ('e, 'r, 'a) rt_method" where
  "serve f = (\<lambda>rt. let (x, e) = f (rt_env rt) in (Inr x, rt\<lparr>rt_env := e\<rparr>))"

definition fresh :: "(process \<Rightarrow> 'a \<times> process) \<Rightarrow> ('e, 'r, 'a) rt_method" where
  "fresh f = (\<lambda>rt. let (x, w) = on_process f (rt_world rt) in (Inr x, rt\<lparr>rt_world := w\<rparr>))"

definition session_error_text :: "session_error \<Rightarrow> string" where
  "session_error_text e = (case e of IoError m \<Rightarrow> m | JsonError m \<Rightarrow> m | FormatError m \<Rightarrow> m | Panicked m \<Rightarrow> m)"

definition session_call_or :: "string \<Rightarrow> 'a on_session \<Rightarrow> ('e, runtime_error, 'a) rt_method" where
  "session_call_or prefix f = (\<lambda>rt.
     case f (rt_session rt) (rt_world rt) of
       (r, s, w) \<Rightarrow>
         ((case r of Inl e \<Rightarrow> Inl (new_runtime_error (prefix @ session_error_text e)) | Inr x \<Rightarrow> Inr x),
          rt\<lparr>rt_session := s, rt_world := w\<rparr>))"

definition push :: "conversation_message \<Rightarrow> ('e, runtime_error, unit) rt_method" where
  "push m = session_call_or [] (push_message m)"

section \<open>Assistant messages\<close>

fun serde_json_value_to_session_json :: "json \<Rightarrow> json_value" where
  "serde_json_value_to_session_json JNull = Null"
| "serde_json_value_to_session_json (JBool b) = Bool b"
| "serde_json_value_to_session_json (JNumber s) = Number (case number_as_i64 s of Some i \<Rightarrow> i | None \<Rightarrow> 0)"
| "serde_json_value_to_session_json (JString s) = String s"
| "serde_json_value_to_session_json (JArray vs) = Array (map serde_json_value_to_session_json vs)"
| "serde_json_value_to_session_json (JObject es) =
     Object (collect_entries (map (\<lambda>(k, v). (k, serde_json_value_to_session_json v)) es))"

record assistant_builder =
  ab_text :: string
  ab_thinking :: string
  ab_thinking_signature :: "string option"
  ab_blocks :: "content_block list"
  ab_prompt_cache_events :: "prompt_cache_event list"
  ab_finished :: bool
  ab_usage :: "token_usage option"

definition new_builder :: assistant_builder where
  "new_builder = \<lparr>ab_text = [], ab_thinking = [], ab_thinking_signature = None, ab_blocks = [], ab_prompt_cache_events = [],
     ab_finished = False, ab_usage = None\<rparr>"

definition flush_text_block :: "assistant_builder \<Rightarrow> assistant_builder" where
  "flush_text_block b = (if ab_text b = [] then b else b\<lparr>ab_blocks := ab_blocks b @ [Text (ab_text b)], ab_text := []\<rparr>)"

definition flush_thinking_block :: "assistant_builder \<Rightarrow> assistant_builder" where
  "flush_thinking_block b =
     (if ab_thinking b \<noteq> [] \<or> ab_thinking_signature b \<noteq> None
      then b\<lparr>ab_blocks := ab_blocks b @ [Thinking (ab_thinking b) (ab_thinking_signature b)],
             ab_thinking := [], ab_thinking_signature := None\<rparr>
      else b)"

definition push_block :: "content_block \<Rightarrow> assistant_builder \<Rightarrow> assistant_builder" where
  "push_block x b = (let b' = flush_thinking_block (flush_text_block b) in b'\<lparr>ab_blocks := ab_blocks b' @ [x]\<rparr>)"

fun assistant_step :: "assistant_event \<Rightarrow> assistant_builder \<Rightarrow> assistant_builder" where
  "assistant_step (TextDelta delta) b = (let b' = flush_thinking_block b in b'\<lparr>ab_text := ab_text b' @ delta\<rparr>)"
| "assistant_step (ThinkingDelta delta) b = (let b' = flush_text_block b in b'\<lparr>ab_thinking := ab_thinking b' @ delta\<rparr>)"
| "assistant_step (ThinkingSignature signature) b = b\<lparr>ab_thinking_signature := Some signature\<rparr>"
| "assistant_step (RedactedThinkingEvent data) b = push_block (RedactedThinking (serde_json_value_to_session_json data)) b"
| "assistant_step (ToolUseEvent i name input) b = push_block (ToolUse i name input) b"
| "assistant_step (UsageEvent u) b = b\<lparr>ab_usage := Some u\<rparr>"
| "assistant_step (PromptCache event) b = b\<lparr>ab_prompt_cache_events := ab_prompt_cache_events b @ [event]\<rparr>"
| "assistant_step MessageStop b = b\<lparr>ab_finished := True\<rparr>"

definition assistant_blocks :: "assistant_event list \<Rightarrow> assistant_builder" where
  "assistant_blocks events = flush_thinking_block (flush_text_block (fold assistant_step events new_builder))"

definition build_assistant_message ::
  "assistant_event list \<Rightarrow> ('e, runtime_error, conversation_message \<times> token_usage option \<times> prompt_cache_event list) rt_method" where
  "build_assistant_message events =
     (let b = assistant_blocks events
      in if \<not> ab_finished b then leave (new_runtime_error ''assistant stream ended without a message stop event'')
         else if ab_blocks b = [] then leave (new_runtime_error ''assistant stream produced no content'')
         else and_go (fresh (assistant_with_usage (ab_blocks b) (ab_usage b))) (\<lambda>m.
           go (m, ab_usage b, ab_prompt_cache_events b)))"

definition CANCELLED_ASSISTANT_NOTE :: string where
  "CANCELLED_ASSISTANT_NOTE = nl @ nl @ ''[Response stopped by user before completion.]''"

text \<open>The last text block gets the note; \<open>None\<close> when there is no text block.\<close>

fun note_last_text :: "content_block list \<Rightarrow> content_block list option" where
  "note_last_text [] = None"
| "note_last_text (b # bs) =
     (case note_last_text bs of
        Some bs' \<Rightarrow> Some (b # bs')
      | None \<Rightarrow> (case b of Text t \<Rightarrow> Some (Text (t @ CANCELLED_ASSISTANT_NOTE) # bs) | _ \<Rightarrow> None))"

definition append_cancelled_assistant_note :: "conversation_message \<Rightarrow> conversation_message" where
  "append_cancelled_assistant_note m = m\<lparr>blocks :=
     (case note_last_text (blocks m) of
        Some bs \<Rightarrow> bs
      | None \<Rightarrow> blocks m @ [Text (str_trim CANCELLED_ASSISTANT_NOTE)])\<rparr>"

definition assistant_text :: "conversation_message \<Rightarrow> string option" where
  "assistant_text m =
     (let t = str_trim (concat (map (\<lambda>b. case b of Text x \<Rightarrow> x | _ \<Rightarrow> []) (blocks m))) in if t = [] then None else Some t)"

section \<open>Hook feedback\<close>

definition format_hook_message :: "hook_run_result \<Rightarrow> string \<Rightarrow> string" where
  "format_hook_message result fallback = (if hk_messages result = [] then fallback else str_join nl (hk_messages result))"

definition merge_hook_feedback :: "string list \<Rightarrow> string \<Rightarrow> bool \<Rightarrow> string" where
  "merge_hook_feedback msgs output is_error =
     (if msgs = [] then output
      else str_join (nl @ nl)
        ((if str_trim output = [] then [] else [output]) @
         [(if is_error then ''Hook feedback (error)'' else ''Hook feedback'') @ '':'' @ nl @ str_join nl msgs]))"

definition combine_optional_display_messages :: "string option list \<Rightarrow> string option" where
  "combine_optional_display_messages msgs =
     (let combined = str_join nl (filter (\<lambda>m. m \<noteq> []) (map str_trim (List.map_filter id msgs)))
      in if combined = [] then None else Some combined)"

fun session_start_messages :: "string \<Rightarrow> string list \<Rightarrow> process \<Rightarrow> conversation_message list \<times> process" where
  "session_start_messages source [] p = ([], p)"
| "session_start_messages source (msg # msgs) p =
     (let (m, p1) = hook_result_user_text (''SessionStart hook ('' @ source @ '') output:'' @ nl @ str_trim msg)
            (Some HookAdditionalContext) SessionStart source p;
          (ms, p2) = session_start_messages source msgs p1
      in (m # ms, p2))"

definition session_start_hook_messages :: "string \<Rightarrow> hook_run_result \<Rightarrow> process \<Rightarrow> conversation_message list \<times> process" where
  "session_start_hook_messages source result = session_start_messages source (hk_messages result)"

definition run_session_start_hook_messages ::
  "'e services \<Rightarrow> string \<Rightarrow> string option \<Rightarrow> ('e, 'r, conversation_message list) rt_method" where
  "run_session_start_hook_messages sv source mdl =
     and_go (serve (sv_session_start sv source mdl)) (\<lambda>result. fresh (session_start_hook_messages source result))"

section \<open>Compaction\<close>

definition parse_positive_u32_env :: "'e services \<Rightarrow> string \<Rightarrow> u32 option" where
  "parse_positive_u32_env sv name = Option.bind (sv_var sv name) parse_positive_u32"

definition auto_compaction_threshold :: "'e services \<Rightarrow> auto_compaction_config \<Rightarrow> u32" where
  "auto_compaction_threshold sv config =
     auto_compaction_threshold_with_overrides config
       (case parse_positive_u32_env sv AUTO_COMPACTION_THRESHOLD_ENV_VAR of
          Some v \<Rightarrow> Some v
        | None \<Rightarrow> Option.bind (ac_fixed_threshold_tokens config) positive)
       (parse_positive_u32_env sv AUTO_COMPACTION_WINDOW_ENV_VAR)
       (Option.bind (sv_var sv AUTO_COMPACTION_PCT_ENV_VAR) (sv_percent sv))"

definition estimate_compact_request_input_tokens :: "compact_env \<Rightarrow> session \<Rightarrow> api_request \<Rightarrow> u32" where
  "estimate_compact_request_input_tokens env s rq =
     (let local_estimate = sum_list (map (estimate_message_tokens env) (rq_messages rq)) +
            sum_list (map (\<lambda>section. length section div 4 + 1) (rq_system_prompt rq));
          current_session_estimate =
            (if length (rq_messages rq) = length (messages s) + 1
             then unat (estimated_context_window_tokens env s) +
               sum_list (map (estimate_message_tokens env) (drop (length (messages s)) (rq_messages rq)))
             else 0)
      in u32_or_max (max local_estimate current_session_estimate))"

definition compact_summary_max_output_tokens :: "'e services \<Rightarrow> auto_compaction_config \<Rightarrow> session \<Rightarrow> api_request \<Rightarrow> u32" where
  "compact_summary_max_output_tokens sv config s rq =
     (let window = effective_auto_compaction_context_window config (parse_positive_u32_env sv AUTO_COMPACTION_WINDOW_ENV_VAR);
          available = u32_sat_sub (u32_sat_sub window (estimate_compact_request_input_tokens (sv_compact sv) s rq))
            COMPACT_REQUEST_SAFETY_BUFFER_TOKENS
      in if available < 1 then 1 else if MAX_OUTPUT_TOKENS_FOR_SUMMARY < available then MAX_OUTPUT_TOKENS_FOR_SUMMARY else available)"

definition session_view :: "session \<Rightarrow> tool_session" where
  "session_view s = \<lparr>vs_session_id = session_id s, vs_path = persistence s, vs_snapshot = None\<rparr>"

definition stream_events :: "'e services \<Rightarrow> api_request \<Rightarrow> ('e, 'r, runtime_error + assistant_event list) rt_method" where
  "stream_events sv rq = and_go (get_rt rt_session) (\<lambda>s. serve (sv_stream sv (session_view s) rq))"

definition or_leave :: "'r + 'a \<Rightarrow> ('e, 'r, 'a) rt_method" where
  "or_leave x = (case x of Inl r \<Rightarrow> leave r | Inr v \<Rightarrow> go v)"

definition record_optional_usage :: "token_usage option \<Rightarrow> ('e, 'r, unit) rt_method" where
  "record_optional_usage u = set_rt (\<lambda>rt. case u of
     Some x \<Rightarrow> rt\<lparr>rt_usage_tracker := record_usage x (rt_usage_tracker rt)\<rparr> | None \<Rightarrow> rt)"

definition execute_full_compact_summary_request ::
  "'e services \<Rightarrow> conversation_message list \<Rightarrow> string option \<Rightarrow> ('e, runtime_error, string) rt_method" where
  "execute_full_compact_summary_request sv source_messages custom_instructions =
     and_go (fresh (user_text (get_compact_prompt custom_instructions))) (\<lambda>prompt.
     and_go (get_rt (\<lambda>rt.
       let rq = text_only_request (rt_system_prompt rt) (source_messages @ [prompt])
       in rq\<lparr>rq_max_tokens_override :=
            Some (compact_summary_max_output_tokens sv (rt_auto_compaction_config rt) (rt_session rt) rq)\<rparr>)) (\<lambda>rq.
     and_go (stream_events sv rq) (\<lambda>streamed.
     and_go (or_leave streamed) (\<lambda>events.
     and_go (build_assistant_message events) (\<lambda>(m, u, _).
     and_go (record_optional_usage u) (\<lambda>_.
       case assistant_text m of
         Some t \<Rightarrow> go t
       | None \<Rightarrow> leave (new_runtime_error ''full compaction failed to produce a text summary response'')))))))"

definition run_full_compact :: "'e services \<Rightarrow> bool \<Rightarrow> compact_trigger \<Rightarrow> nat \<Rightarrow> ('e, runtime_error, compaction_result) rt_method" where
  "run_full_compact sv suppress_follow_up_questions trigger preserve_recent =
     and_go (get_rt (\<lambda>rt. select_full_compact_messages (rt_session rt) preserve_recent)) (\<lambda>selection.
     and_go (serve (sv_pre_compact sv trigger)) (\<lambda>pre.
     and_go (execute_full_compact_summary_request sv (messages_to_summarize selection) (pre_new_custom_instructions pre)) (\<lambda>summary.
     and_go (run_session_start_hook_messages sv ''compact'' None) (\<lambda>hook_messages.
     and_go (serve (sv_post_compact sv trigger summary)) (\<lambda>post.
       (\<lambda>rt. let (r, w) = build_compaction_result (sv_compact sv) (rt_session rt) summary
            \<lparr>bo_preserved_messages = preserved_messages selection, bo_hook_result_messages = hook_messages,
             bo_preserved_segment_anchor = (if preserve_recent = 0 then None else Some LastSummaryMessage),
             bo_removed_message_count = length (messages_to_summarize selection),
             bo_suppress_follow_up_questions = suppress_follow_up_questions, bo_layout = TsBoundaryAndSummary,
             bo_boundary_trigger = Some trigger,
             bo_user_display_message = combine_optional_display_messages [pre_user_display_message pre, post]\<rparr> (rt_world rt)
          in (Inr r, rt\<lparr>rt_world := w\<rparr>)))))))"

text \<open>The public \<open>compact\<close>; \<open>None\<close> is the panic of \<open>compact_session\<close>.\<close>

definition compact :: "'e services \<Rightarrow> compaction_config \<Rightarrow> ('e, runtime_error, compaction_result option) rt_method" where
  "compact sv config = (\<lambda>rt.
     if \<not> should_compact (sv_compact sv) (rt_session rt) config
     then let (r, w) = compact_session (sv_compact sv) (rt_session rt) config (rt_world rt) in (Inr r, rt\<lparr>rt_world := w\<rparr>)
     else and_go (run_full_compact sv True Manual (preserve_recent_messages config)) (\<lambda>r. go (Some r)) rt)"

definition maybe_auto_compact :: "'e services \<Rightarrow> ('e, 'r, auto_compaction_event option) rt_method" where
  "maybe_auto_compact sv =
     and_go (get_rt (\<lambda>rt. (estimated_context_window_tokens (sv_compact sv) (rt_session rt),
       auto_compaction_threshold sv (rt_auto_compaction_config rt)))) (\<lambda>(estimated, threshold).
     if estimated < threshold then go None
     else
       and_go (ok_of (run_full_compact sv True Auto 0)) (\<lambda>result.
         case result of
           None \<Rightarrow> go None
         | Some r \<Rightarrow>
             if cr_removed_message_count r = 0 then go None
             else
               and_go (set_rt (\<lambda>rt. rt\<lparr>rt_session := cr_compacted_session r,
                 rt_usage_tracker := tracker_from_session (cr_compacted_session r)\<rparr>)) (\<lambda>_.
               go (Some \<lparr>ae_removed_message_count = cr_removed_message_count r, ae_removed_messages = cr_removed_messages r,
                 ae_estimated_context_tokens = estimated, ae_threshold_tokens = threshold\<rparr>))))"

definition merge_auto_compaction_event :: "auto_compaction_event option \<Rightarrow> auto_compaction_event \<Rightarrow> auto_compaction_event option" where
  "merge_auto_compaction_event current next_event =
     (case current of
        None \<Rightarrow> Some next_event
      | Some c \<Rightarrow> Some
          \<lparr>ae_removed_message_count = min (ae_removed_message_count c + ae_removed_message_count next_event) usize_max,
           ae_removed_messages = ae_removed_messages c @ ae_removed_messages next_event,
           ae_estimated_context_tokens = ae_estimated_context_tokens next_event,
           ae_threshold_tokens = ae_threshold_tokens next_event\<rparr>)"

end
