(* ===== verification/Agent_Turn.thy ===== *)
theory Agent_Turn
  imports Agent_Conversation
begin

text \<open>
  One turn of the conversation (\<open>run_turn\<close>, \<open>run_event_turn\<close> and \<open>run_model_tool_loop\<close> of
  \<open>conversation.rs\<close>): pending inputs are written to the session before the model is called,
  tools are run one after the other, and a turn that is cancelled answers the tool uses that are left.
\<close>

section \<open>Pending inputs\<close>

definition root_path :: "'e services \<Rightarrow> session \<Rightarrow> string option" where
  "root_path sv s = (case workspace_root s of Some root \<Rightarrow> Some root | None \<Rightarrow> sv_current_dir sv)"

definition extend_cursors :: "(string \<times> i64) list \<Rightarrow> (string \<times> i64) list \<Rightarrow> (string \<times> i64) list" where
  "extend_cursors updates cursors = fold (\<lambda>(k, v). btree_insert k v) updates cursors"

definition enqueue_appfs_events_before_model_call :: "'e services \<Rightarrow> ('e, runtime_error, unit) rt_method" where
  "enqueue_appfs_events_before_model_call sv =
     and_go (get_rt rt_session) (\<lambda>s.
       case root_path sv s of
         None \<Rightarrow> go ()
       | Some cwd \<Rightarrow>
           and_go (serve (sv_collect_appfs sv s cwd)) (\<lambda>collected.
             case collected of
               Inl e \<Rightarrow> leave (new_runtime_error (''failed to collect AppFS events: '' @ session_error_text e))
             | Inr sync \<Rightarrow>
                 if as_pending_inputs sync = [] then
                   (if as_cursor_updates sync = [] then go ()
                    else session_call_or ''failed to update AppFS event cursors: ''
                      (update_appfs_event_cursors (as_cursor_updates sync)))
                 else set_rt (\<lambda>rt. rt\<lparr>rt_pending_inputs := fold queue_push (as_pending_inputs sync) (rt_pending_inputs rt),
                        rt_pending_event_cursors := extend_cursors (as_cursor_updates sync) (rt_pending_event_cursors rt),
                        rt_pending_wake_cursors := extend_cursors (as_wake_cursor_updates sync) (rt_pending_wake_cursors rt)\<rparr>)))"

definition flush_pending_appfs_event_cursor_updates :: "('e, runtime_error, unit) rt_method" where
  "flush_pending_appfs_event_cursor_updates =
     and_go (get_rt rt_pending_event_cursors) (\<lambda>events.
     and_go (get_rt rt_pending_wake_cursors) (\<lambda>wakes.
     if events = [] \<and> wakes = [] then go ()
     else
       and_go (if events = [] then go ()
         else and_go (session_call_or ''failed to update AppFS event cursors: '' (update_appfs_event_cursors events)) (\<lambda>_.
           set_rt (\<lambda>rt. rt\<lparr>rt_pending_event_cursors := []\<rparr>))) (\<lambda>_.
       and_go (session_call_or ''failed to update AppFS wake event cursors: '' (update_appfs_wake_event_cursors wakes)) (\<lambda>_.
         set_rt (\<lambda>rt. rt\<lparr>rt_pending_wake_cursors := []\<rparr>)))))"

definition pending_input_source_priority :: "input_source \<Rightarrow> nat" where
  "pending_input_source_priority source =
     (case source of UserTerminal \<Rightarrow> 0 | AppfsEvent \<Rightarrow> 1 | AgentMessage \<Rightarrow> 2 | SystemSource \<Rightarrow> 3)"

definition inject_peer_snapshot :: "'e services \<Rightarrow> ('e, 'r, unit) rt_method" where
  "inject_peer_snapshot sv =
     and_go (get_rt (\<lambda>rt. rt)) (\<lambda>rt.
       if rt_peer_snapshot_injected rt then go ()
       else and_go (case root_path sv (rt_session rt) of Some cwd \<Rightarrow> serve (sv_peer_snapshot sv cwd) | None \<Rightarrow> go []) (\<lambda>inputs.
         set_rt (\<lambda>rt. rt\<lparr>rt_pending_inputs := fold queue_push inputs (rt_pending_inputs rt), rt_peer_snapshot_injected := True\<rparr>)))"

definition drain_external :: "'e services \<Rightarrow> 'e \<Rightarrow> pending_input list \<times> 'e" where
  "drain_external sv e =
     (case sv_external sv of
        None \<Rightarrow> ([], e)
      | Some (queue, set_queue) \<Rightarrow> (let (drained, rest) = drain_boundary_pending_inputs (queue e) in (drained, set_queue rest e)))"

definition restore_external :: "'e services \<Rightarrow> pending_input list \<Rightarrow> 'e \<Rightarrow> 'e" where
  "restore_external sv inputs e =
     (case sv_external sv of
        None \<Rightarrow> e
      | Some (queue, set_queue) \<Rightarrow> set_queue (restore_front inputs (queue e)) e)"

definition drain_local :: "('e, 'r, pending_input list) rt_method" where
  "drain_local = (\<lambda>rt. let (drained, rest) = drain_boundary_pending_inputs (rt_pending_inputs rt)
     in (Inr drained, rt\<lparr>rt_pending_inputs := rest\<rparr>))"

definition sync_pending_inputs_before_model_call :: "'e services \<Rightarrow> ('e, runtime_error, unit) rt_method" where
  "sync_pending_inputs_before_model_call sv =
     and_go (inject_peer_snapshot sv) (\<lambda>_.
     and_go drain_local (\<lambda>local_inputs.
     and_go (serve (drain_external sv)) (\<lambda>external_inputs.
       let inputs = sort_key (\<lambda>p. pending_input_source_priority (en_source (pi_envelope p))) (local_inputs @ external_inputs)
       in if inputs = [] then flush_pending_appfs_event_cursor_updates
          else
            and_go (fresh (input_router_message (input_router_block_from_pending_inputs inputs))) (\<lambda>m.
            and_go (on_error (session_call_or ''failed to sync pending routed inputs: '' (push_message m))
              (\<lambda>rt. rt\<lparr>rt_pending_inputs := restore_front local_inputs (rt_pending_inputs rt),
                       rt_env := restore_external sv external_inputs (rt_env rt)\<rparr>)) (\<lambda>_.
            flush_pending_appfs_event_cursor_updates)))))"

section \<open>Tools\<close>

text \<open>The variables of \<open>run_model_tool_loop\<close>.\<close>

record turn_progress =
  tp_assistant_messages :: "conversation_message list"
  tp_tool_results :: "conversation_message list"
  tp_prompt_cache_events :: "prompt_cache_event list"
  tp_auto_compaction :: "auto_compaction_event option"
  tp_tool_context :: conversation_tool_context

type_synonym ('e, 'a) turn = "('e, runtime_error + turn_summary, 'a) rt_method"

definition new_progress :: turn_progress where
  "new_progress = \<lparr>tp_assistant_messages = [], tp_tool_results = [], tp_prompt_cache_events = [], tp_auto_compaction = None,
     tp_tool_context = default_tool_context\<rparr>"

definition cancelled_turn_summary :: "turn_progress \<Rightarrow> nat \<Rightarrow> ('e, 'a) turn" where
  "cancelled_turn_summary tp iterations = (\<lambda>rt.
     (Inl (Inr \<lparr>ts_assistant_messages = tp_assistant_messages tp, ts_tool_results = tp_tool_results tp,
        ts_prompt_cache_events = tp_prompt_cache_events tp, ts_iterations = iterations,
        ts_usage = cumulative (rt_usage_tracker rt), ts_auto_compaction = None, ts_cancelled = True\<rparr>), rt))"

type_synonym tool_use = "string \<times> string \<times> string"

definition push_tool_result :: "string \<Rightarrow> string \<Rightarrow> string \<Rightarrow> bool \<Rightarrow> turn_progress \<Rightarrow> ('e, runtime_error, turn_progress) rt_method" where
  "push_tool_result tool_use_id tool_name output is_error tp =
     and_go (fresh (tool_result tool_use_id tool_name output is_error)) (\<lambda>m.
     and_go (push m) (\<lambda>_. go (tp\<lparr>tp_tool_results := tp_tool_results tp @ [m]\<rparr>)))"

fun cancel_pending_tool_uses :: "tool_use list \<Rightarrow> turn_progress \<Rightarrow> ('e, runtime_error, turn_progress) rt_method" where
  "cancel_pending_tool_uses [] tp = go tp"
| "cancel_pending_tool_uses ((tool_use_id, tool_name, _) # uses) tp =
     and_go (push_tool_result tool_use_id tool_name ''Tool execution cancelled before start.'' True tp) (cancel_pending_tool_uses uses)"

fun push_deferred_tool_additional_messages :: "conversation_message list \<Rightarrow> ('e, runtime_error, unit) rt_method" where
  "push_deferred_tool_additional_messages [] = go ()"
| "push_deferred_tool_additional_messages (m # ms) = and_go (push m) (\<lambda>_. push_deferred_tool_additional_messages ms)"

definition stop_if_aborted ::
  "'e services \<Rightarrow> nat \<Rightarrow> tool_use list \<Rightarrow> turn_progress \<Rightarrow> conversation_message list \<Rightarrow> ('e, 'a) turn \<Rightarrow> ('e, 'a) turn" where
  "stop_if_aborted sv iterations remaining tp deferred k =
     and_go (serve (sv_is_aborted sv)) (\<lambda>aborted.
       if aborted then
         and_go (tried (cancel_pending_tool_uses remaining tp)) (\<lambda>tp'.
         and_go (tried (push_deferred_tool_additional_messages deferred)) (\<lambda>_.
           cancelled_turn_summary tp' iterations))
       else k)"

definition quoted_tool :: "string \<Rightarrow> string" where
  "quoted_tool name = [CHR 0x60] @ name @ [CHR 0x60]"

definition tool_permission ::
  "'e services \<Rightarrow> string \<Rightarrow> string \<Rightarrow> hook_run_result \<Rightarrow> conversation_tool_context \<Rightarrow> ('e, 'r, permission_outcome) rt_method" where
  "tool_permission sv tool_name effective_input pre c =
     (if hk_cancelled pre then
        go (Denied (format_hook_message pre (''PreToolUse hook cancelled tool '' @ quoted_tool tool_name)))
      else if hk_failed pre then
        go (Denied (format_hook_message pre (''PreToolUse hook failed for tool '' @ quoted_tool tool_name)))
      else if hk_denied pre then
        go (Denied (format_hook_message pre (''PreToolUse hook denied tool '' @ quoted_tool tool_name)))
      else
        and_go (get_rt rt_permission_policy) (\<lambda>policy.
          serve (authorize_with_context (sv_json sv) policy tool_name effective_input (tool_permission_context c pre) (sv_prompter sv))))"

definition execute_tool ::
  "'e services \<Rightarrow> string \<Rightarrow> string \<Rightarrow> ('e, 'r, tool_execution_result \<times> bool) rt_method" where
  "execute_tool sv tool_name effective_input =
     and_go (get_rt rt_session) (\<lambda>s.
     and_go (serve (sv_execute sv ((session_view s)\<lparr>vs_snapshot := Some (messages s, map_option sc_summary (compaction s))\<rparr>)
               tool_name effective_input)) (\<lambda>r.
       go (case r of Inr execution \<Rightarrow> (execution, False) | Inl e \<Rightarrow> (text_result e, True))))"

fun upsert_skills :: "invoked_skill list \<Rightarrow> ('e, runtime_error, unit) rt_method" where
  "upsert_skills [] = go ()"
| "upsert_skills (k # ks) = and_go (session_call_or [] (upsert_invoked_skill k)) (\<lambda>_. upsert_skills ks)"

definition run_allowed_tool ::
  "'e services \<Rightarrow> string \<Rightarrow> string \<Rightarrow> string \<Rightarrow> hook_run_result \<Rightarrow> turn_progress \<Rightarrow> conversation_message list \<Rightarrow>
   ('e, runtime_error, turn_progress \<times> conversation_message list) rt_method" where
  "run_allowed_tool sv tool_use_id tool_name effective_input pre tp deferred =
     and_go (execute_tool sv tool_name effective_input) (\<lambda>(execution, failed).
     let output = merge_hook_feedback (hk_messages pre) (tx_output execution) False in
     and_go (serve (if failed then sv_post_tool_use_failure sv tool_name effective_input output
                    else sv_post_tool_use sv tool_name effective_input output False)) (\<lambda>post.
     let bad = (hk_denied post \<or> hk_failed post \<or> hk_cancelled post);
         is_error = (failed \<or> bad);
         output = merge_hook_feedback (hk_messages post) output bad in
     and_go (push_tool_result tool_use_id tool_name output is_error tp) (\<lambda>tp1.
     and_go (if is_error then go () else upsert_skills (tx_invoked_skills execution)) (\<lambda>_.
       go ((case tx_context_update execution of
              Some update \<Rightarrow> tp1\<lparr>tp_tool_context := apply_context_update update (tp_tool_context tp1)\<rparr>
            | None \<Rightarrow> tp1),
           deferred @ tx_additional_messages execution)))))"

definition deny_tool ::
  "string \<Rightarrow> string \<Rightarrow> string \<Rightarrow> hook_run_result \<Rightarrow> turn_progress \<Rightarrow> conversation_message list \<Rightarrow>
   ('e, runtime_error, turn_progress \<times> conversation_message list) rt_method" where
  "deny_tool tool_use_id tool_name reason pre tp deferred =
     and_go (push_tool_result tool_use_id tool_name (merge_hook_feedback (hk_messages pre) reason True) True tp) (\<lambda>tp1.
       go (tp1, deferred))"

definition settle_tool ::
  "'e services \<Rightarrow> tool_use \<Rightarrow> hook_run_result \<Rightarrow> turn_progress \<Rightarrow> conversation_message list \<Rightarrow>
   ('e, runtime_error, turn_progress \<times> conversation_message list) rt_method" where
  "settle_tool sv use pre tp deferred =
     (case use of (tool_use_id, tool_name, input) \<Rightarrow>
       let effective_input = (case hk_updated_input pre of Some i \<Rightarrow> i | None \<Rightarrow> input) in
       and_go (tool_permission sv tool_name effective_input pre (tp_tool_context tp)) (\<lambda>outcome.
         case outcome of
           Allowed \<Rightarrow> run_allowed_tool sv tool_use_id tool_name effective_input pre tp deferred
         | Denied reason \<Rightarrow> deny_tool tool_use_id tool_name reason pre tp deferred))"

fun tool_loop :: "'e services \<Rightarrow> nat \<Rightarrow> tool_use list \<Rightarrow> turn_progress \<Rightarrow> conversation_message list \<Rightarrow> ('e, turn_progress) turn" where
  "tool_loop sv iterations [] tp deferred =
     and_go (tried (push_deferred_tool_additional_messages deferred)) (\<lambda>_. go tp)"
| "tool_loop sv iterations (use # uses) tp deferred =
     stop_if_aborted sv iterations (use # uses) tp deferred (
     and_go (serve (sv_pre_tool_use sv (fst (snd use)) (snd (snd use)))) (\<lambda>pre.
     stop_if_aborted sv iterations (use # uses) tp deferred (
     and_go (tried (settle_tool sv use pre tp deferred)) (\<lambda>(tp1, deferred1).
     stop_if_aborted sv iterations uses tp1 deferred1 (tool_loop sv iterations uses tp1 deferred1)))))"

section \<open>The loop\<close>

fun block_tool_use :: "content_block \<Rightarrow> tool_use option" where
  "block_tool_use (ToolUse i name input) = Some (i, name, input)"
| "block_tool_use _ = None"

definition pending_tool_uses :: "conversation_message \<Rightarrow> tool_use list" where
  "pending_tool_uses m = List.map_filter block_tool_use (blocks m)"

definition compact_in_loop :: "'e services \<Rightarrow> nat \<Rightarrow> turn_progress \<Rightarrow> ('e, turn_progress) turn" where
  "compact_in_loop sv iterations tp =
     and_go (maybe_auto_compact sv) (\<lambda>event.
       case event of
         None \<Rightarrow> go tp
       | Some e \<Rightarrow>
           let tp' = tp\<lparr>tp_auto_compaction := merge_auto_compaction_event (tp_auto_compaction tp) e\<rparr> in
           and_go (serve (sv_is_aborted sv)) (\<lambda>aborted. if aborted then cancelled_turn_summary tp' iterations else go tp'))"

definition before_model_call :: "'e services \<Rightarrow> nat \<Rightarrow> turn_progress \<Rightarrow> ('e, turn_progress) turn" where
  "before_model_call sv iterations tp =
     and_go (tried (enqueue_appfs_events_before_model_call sv)) (\<lambda>_.
     and_go (tried (sync_pending_inputs_before_model_call sv)) (\<lambda>_.
     and_go (serve (sv_is_aborted sv)) (\<lambda>aborted.
       if aborted then cancelled_turn_summary tp iterations else compact_in_loop sv iterations tp)))"

definition call_model :: "'e services \<Rightarrow> nat \<Rightarrow> turn_progress \<Rightarrow> ('e, assistant_event list) turn" where
  "call_model sv iterations tp =
     and_go (get_rt (\<lambda>rt. apply_to_api_request (tp_tool_context tp)
       (conversation_request (rt_system_prompt rt) (messages (rt_session rt))))) (\<lambda>rq.
     and_go (stream_events sv rq) (\<lambda>streamed.
       case streamed of
         Inr events \<Rightarrow> go events
       | Inl e \<Rightarrow> if re_cancelled e then cancelled_turn_summary tp iterations else leave (Inl e)))"

text \<open>One round; it ends with \<open>False\<close> when the model asked for no tool.\<close>

definition model_round :: "'e services \<Rightarrow> nat \<Rightarrow> turn_progress \<Rightarrow> ('e, turn_progress \<times> bool) turn" where
  "model_round sv iterations tp0 =
     and_go (before_model_call sv iterations tp0) (\<lambda>tp1.
     and_go (call_model sv iterations tp1) (\<lambda>events.
     and_go (tried (build_assistant_message events)) (\<lambda>(m0, u, cache_events).
     and_go (serve (sv_is_aborted sv)) (\<lambda>cancelled.
     and_go (record_optional_usage u) (\<lambda>_.
     let uses = pending_tool_uses m0;
         m = (if cancelled then append_cancelled_assistant_note m0 else m0) in
     and_go (tried (push m)) (\<lambda>_.
     let tp2 = tp1\<lparr>tp_prompt_cache_events := tp_prompt_cache_events tp1 @ cache_events,
           tp_assistant_messages := tp_assistant_messages tp1 @ [m]\<rparr> in
     if cancelled then and_go (tried (cancel_pending_tool_uses uses tp2)) (\<lambda>tp3. cancelled_turn_summary tp3 iterations)
     else if uses = [] then go (tp2, False)
     else and_go (tool_loop sv iterations uses tp2 []) (\<lambda>tp3. go (tp3, True))))))))"

text \<open>\<open>left\<close> is \<open>max_iterations\<close> minus the number of rounds so far.\<close>

fun model_loop :: "'e services \<Rightarrow> nat \<Rightarrow> nat \<Rightarrow> turn_progress \<Rightarrow> ('e, turn_progress \<times> nat) turn" where
  "model_loop sv 0 rounds tp =
     and_go (serve (sv_is_aborted sv)) (\<lambda>aborted.
       if aborted then cancelled_turn_summary tp (rounds + 1)
       else leave (Inl (new_runtime_error ''conversation loop exceeded the maximum number of iterations'')))"
| "model_loop sv (Suc left) rounds tp =
     and_go (serve (sv_is_aborted sv)) (\<lambda>aborted.
       if aborted then cancelled_turn_summary tp (rounds + 1)
       else and_go (model_round sv (rounds + 1) tp) (\<lambda>(tp', more).
         if more then model_loop sv left (rounds + 1) tp' else go (tp', rounds + 1)))"

definition end_of_turn :: "'e services \<Rightarrow> turn_progress \<Rightarrow> nat \<Rightarrow> ('e, 'r, turn_summary) rt_method" where
  "end_of_turn sv tp iterations =
     and_go (maybe_auto_compact sv) (\<lambda>event.
     and_go (get_rt (\<lambda>rt. cumulative (rt_usage_tracker rt))) (\<lambda>u.
       go \<lparr>ts_assistant_messages = tp_assistant_messages tp, ts_tool_results = tp_tool_results tp,
           ts_prompt_cache_events = tp_prompt_cache_events tp, ts_iterations = iterations, ts_usage = u,
           ts_auto_compaction = (case event of Some e \<Rightarrow> merge_auto_compaction_event (tp_auto_compaction tp) e
             | None \<Rightarrow> tp_auto_compaction tp),
           ts_cancelled = False\<rparr>))"

definition run_model_tool_loop :: "'e services \<Rightarrow> 'e runtime \<Rightarrow> (runtime_error + turn_summary) \<times> 'e runtime" where
  "run_model_tool_loop sv rt =
     (case and_go (model_loop sv (rt_max_iterations rt) 0 new_progress) (\<lambda>(tp, iterations). end_of_turn sv tp iterations) rt of
        (Inl r, rt') \<Rightarrow> (r, rt')
      | (Inr summary, rt') \<Rightarrow> (Inr summary, rt'))"

definition run_turn :: "'e services \<Rightarrow> string \<Rightarrow> 'e runtime \<Rightarrow> (runtime_error + turn_summary) \<times> 'e runtime" where
  "run_turn sv user_input rt =
     (case session_call_or [] (push_user_text user_input) rt of
        (Inl e, rt') \<Rightarrow> (Inl e, rt')
      | (Inr _, rt') \<Rightarrow> run_model_tool_loop sv rt')"

definition run_event_turn :: "'e services \<Rightarrow> 'e runtime \<Rightarrow> (runtime_error + turn_summary) \<times> 'e runtime" where
  "run_event_turn sv rt = run_model_tool_loop sv rt"

end
