(* ===== verification/Agent_Turn_Rules.thy ===== *)
theory Agent_Turn_Rules
  imports Agent_Turn
begin

text \<open>
  Reasoning about the methods of the runtime: \<open>spec P m Q E\<close> says that from a state with \<open>P\<close> the
  method goes on with \<open>Q\<close> or leaves with \<open>E\<close>; its rules follow the shape of a method. \<open>same P m m'\<close>
  says that two methods do the same in states with \<open>P\<close>.
\<close>

named_theorems spec_intros

section \<open>Triples\<close>

definition spec :: "('e runtime \<Rightarrow> bool) \<Rightarrow> ('e, 'r, 'a) rt_method \<Rightarrow> ('a \<Rightarrow> 'e runtime \<Rightarrow> bool) \<Rightarrow> ('r \<Rightarrow> 'e runtime \<Rightarrow> bool) \<Rightarrow> bool" where
  "spec P m Q E \<longleftrightarrow> (\<forall>rt. P rt \<longrightarrow> (case m rt of (Inl r, rt') \<Rightarrow> E r rt' | (Inr x, rt') \<Rightarrow> Q x rt'))"

abbreviation preserves :: "('e runtime \<Rightarrow> bool) \<Rightarrow> ('e, 'r, 'a) rt_method \<Rightarrow> bool" where
  "preserves P m \<equiv> spec P m (\<lambda>_. P) (\<lambda>_. P)"

lemma specI:
  assumes "\<And>rt x rt'. P rt \<Longrightarrow> m rt = (Inr x, rt') \<Longrightarrow> Q x rt'" "\<And>rt r rt'. P rt \<Longrightarrow> m rt = (Inl r, rt') \<Longrightarrow> E r rt'"
  shows "spec P m Q E"
  unfolding spec_def
proof (intro allI impI)
  fix rt assume "P rt"
  then show "case m rt of (Inl r, rt') \<Rightarrow> E r rt' | (Inr x, rt') \<Rightarrow> Q x rt'"
    using assms by (cases "m rt") (auto split: sum.split)
qed

lemma specD:
  assumes "spec P m Q E" "P rt"
  shows "m rt = (Inr x, rt') \<Longrightarrow> Q x rt'" "m rt = (Inl r, rt') \<Longrightarrow> E r rt'"
  using assms by (auto simp: spec_def split: prod.splits sum.splits)

lemma spec_weaken:
  assumes "spec P' m Q' E'" "\<And>rt. P rt \<Longrightarrow> P' rt" "\<And>x rt. Q' x rt \<Longrightarrow> Q x rt" "\<And>r rt. E' r rt \<Longrightarrow> E r rt"
  shows "spec P m Q E"
  using specD [OF assms(1)] assms(2-4) by (intro specI) blast+

lemma spec_and_go:
  assumes "spec P m R E" "\<And>x. spec (R x) (k x) Q E"
  shows "spec P (and_go m k) Q E"
proof (rule specI)
  fix rt x rt' assume "P rt" "and_go m k rt = (Inr x, rt')"
  then show "Q x rt'" using specD [OF assms(1)] specD [OF assms(2)]
    by (fastforce simp: and_go_def split: prod.splits sum.splits)
next
  fix rt r rt' assume "P rt" "and_go m k rt = (Inl r, rt')"
  then show "E r rt'" using specD [OF assms(1)] specD [OF assms(2)]
    by (fastforce simp: and_go_def split: prod.splits sum.splits)
qed

lemma spec_tried: "spec P m Q (\<lambda>r. E (Inl r)) \<Longrightarrow> spec P (tried m) Q E"
  by (fastforce simp: spec_def tried_def split: prod.splits sum.splits)

lemma spec_ok_of: "spec P m (\<lambda>x. Q (Some x)) (\<lambda>_. Q None) \<Longrightarrow> spec P (ok_of m) Q E"
  by (fastforce simp: spec_def ok_of_def split: prod.splits sum.splits)

lemma spec_on_error: "spec P m Q (\<lambda>r rt. E r (f rt)) \<Longrightarrow> spec P (on_error m f) Q E"
  by (fastforce simp: spec_def on_error_def split: prod.splits sum.splits)

lemma spec_go: "(\<And>rt. P rt \<Longrightarrow> Q x rt) \<Longrightarrow> spec P (go x) Q E"
  by (simp add: spec_def go_def)

lemma spec_leave: "(\<And>rt. P rt \<Longrightarrow> E r rt) \<Longrightarrow> spec P (leave r) Q E"
  by (simp add: spec_def leave_def)

lemma spec_get: "(\<And>rt. P rt \<Longrightarrow> Q (f rt) rt) \<Longrightarrow> spec P (get_rt f) Q E"
  by (simp add: spec_def get_rt_def)

lemma spec_set: "(\<And>rt. P rt \<Longrightarrow> Q () (f rt)) \<Longrightarrow> spec P (set_rt f) Q E"
  by (simp add: spec_def set_rt_def)

lemma spec_serve: "(\<And>rt x e. P rt \<Longrightarrow> f (rt_env rt) = (x, e) \<Longrightarrow> Q x (rt\<lparr>rt_env := e\<rparr>)) \<Longrightarrow> spec P (serve f) Q E"
  by (simp add: spec_def serve_def split: prod.splits)

lemma spec_fresh: "(\<And>rt x p w. P rt \<Longrightarrow> f p = (x, w) \<Longrightarrow> Q x (rt\<lparr>rt_world := (rt_world rt)\<lparr>proc := w\<rparr>\<rparr>)) \<Longrightarrow> spec P (fresh f) Q E"
  by (simp add: spec_def fresh_def on_process_def split: prod.splits)

lemma spec_if [spec_intros]: "(b \<Longrightarrow> spec P m Q E) \<Longrightarrow> (\<not> b \<Longrightarrow> spec P m' Q E) \<Longrightarrow> spec P (if b then m else m') Q E"
  by simp

lemma spec_option [spec_intros]:
  "(x = None \<Longrightarrow> spec P m Q E) \<Longrightarrow> (\<And>v. x = Some v \<Longrightarrow> spec P (k v) Q E) \<Longrightarrow> spec P (case x of None \<Rightarrow> m | Some v \<Rightarrow> k v) Q E"
  by (cases x) simp_all

lemma spec_sum [spec_intros]:
  "(\<And>e. x = Inl e \<Longrightarrow> spec P (h e) Q E) \<Longrightarrow> (\<And>v. x = Inr v \<Longrightarrow> spec P (k v) Q E) \<Longrightarrow> spec P (case x of Inl e \<Rightarrow> h e | Inr v \<Rightarrow> k v) Q E"
  by (cases x) simp_all

lemma spec_prod [spec_intros]: "(\<And>a b. x = (a, b) \<Longrightarrow> spec P (k a b) Q E) \<Longrightarrow> spec P (case x of (a, b) \<Rightarrow> k a b) Q E"
  by (cases x) simp

lemma spec_outcome [spec_intros]:
  "(x = Allowed \<Longrightarrow> spec P m Q E) \<Longrightarrow> (\<And>v. x = Denied v \<Longrightarrow> spec P (k v) Q E) \<Longrightarrow>
     spec P (case x of Allowed \<Rightarrow> m | Denied v \<Rightarrow> k v) Q E"
  by (cases x) simp_all

lemma spec_pure: "(F \<Longrightarrow> spec P m Q E) \<Longrightarrow> spec (\<lambda>rt. F \<and> P rt) m Q E"
  by (auto simp: spec_def)

lemma spec_conj:
  "spec P m Q E \<Longrightarrow> spec P' m Q' E' \<Longrightarrow> spec (\<lambda>rt. P rt \<and> P' rt) m (\<lambda>x rt. Q x rt \<and> Q' x rt) (\<lambda>r rt. E r rt \<and> E' r rt)"
  by (fastforce simp: spec_def split: prod.splits sum.splits)

section \<open>Sameness\<close>

definition same :: "('e runtime \<Rightarrow> bool) \<Rightarrow> ('e, 'r, 'a) rt_method \<Rightarrow> ('e, 'r, 'a) rt_method \<Rightarrow> bool" where
  "same P m m' \<longleftrightarrow> (\<forall>rt. P rt \<longrightarrow> m rt = m' rt)"

lemma sameD: "same P m m' \<Longrightarrow> P rt \<Longrightarrow> m rt = m' rt"
  by (simp add: same_def)

lemma same_refl [spec_intros]: "same P m m"
  by (simp add: same_def)

lemma same_and_go:
  assumes "preserves P m" "same P m m'" "\<And>x. same P (k x) (k' x)"
  shows "same P (and_go m k) (and_go m' k')"
  unfolding same_def
proof (intro allI impI)
  fix rt assume P: "P rt"
  show "and_go m k rt = and_go m' k' rt"
  proof (cases "m rt")
    case (Pair r rt')
    then show ?thesis using sameD [OF assms(2) P] specD(1) [OF assms(1) P] sameD [OF assms(3)]
      by (cases r) (auto simp: and_go_def)
  qed
qed

lemma same_tried: "same P m m' \<Longrightarrow> same P (tried m) (tried m')"
  by (simp add: same_def tried_def)

lemma same_if: "(b \<Longrightarrow> same P m m') \<Longrightarrow> (\<not> b \<Longrightarrow> same P n n') \<Longrightarrow> same P (if b then m else n) (if b then m' else n')"
  by simp

lemma same_prod: "(\<And>a b. x = (a, b) \<Longrightarrow> same P (k a b) (k' a b)) \<Longrightarrow> same P (case x of (a, b) \<Rightarrow> k a b) (case x of (a, b) \<Rightarrow> k' a b)"
  by (cases x) simp

section \<open>What the session calls do to the messages\<close>

lemma touch_messages: "touch s w = (s', w') \<Longrightarrow> messages s' = messages s"
  by (auto simp: touch_def Let_def split: prod.splits)

lemma push_message_messages:
  assumes "push_message m s w = (r, s', w')"
  shows "messages s' = (if isl r then messages s else messages s @ [m])"
  using assms touch_messages by (fastforce simp: push_message_def Let_def split: prod.splits sum.splits)

lemma upsert_invoked_skill_messages: "upsert_invoked_skill k s w = (r, s', w') \<Longrightarrow> messages s' = messages s"
  using touch_messages by (fastforce simp: upsert_invoked_skill_def Let_def split: prod.splits sum.splits option.splits)

lemma update_event_cursors_messages: "update_appfs_event_cursors us s w = (r, s', w') \<Longrightarrow> messages s' = messages s"
  using touch_messages
  by (fastforce simp: update_appfs_event_cursors_def Let_def split: prod.splits sum.splits option.splits if_splits)

lemma update_wake_event_cursors_messages: "update_appfs_wake_event_cursors us s w = (r, s', w') \<Longrightarrow> messages s' = messages s"
  using touch_messages
  by (fastforce simp: update_appfs_wake_event_cursors_def Let_def split: prod.splits sum.splits option.splits if_splits)

end
