(* ===== verification/Agent_Turn_Pairing.thy ===== *)
theory Agent_Turn_Pairing
  imports Agent_Turn_Rules
begin

text \<open>
  Tool uses and their results. A model accepts a conversation only when every tool use of an
  assistant message is answered by one result, in order and before anything else. \<open>open_uses\<close>
  runs over the messages and preserves the uses that are still to be answered.
\<close>

section \<open>Uses and results\<close>

fun block_result_id :: "content_block \<Rightarrow> string option" where
  "block_result_id (ToolResult i _ _ _) = Some i"
| "block_result_id _ = None"

definition use_ids :: "conversation_message \<Rightarrow> string list" where
  "use_ids m = map fst (pending_tool_uses m)"

definition result_ids :: "conversation_message \<Rightarrow> string list" where
  "result_ids m = List.map_filter block_result_id (blocks m)"

definition plain :: "conversation_message \<Rightarrow> bool" where
  "plain m \<longleftrightarrow> use_ids m = [] \<and> result_ids m = []"

fun pair_step :: "string list option \<Rightarrow> conversation_message \<Rightarrow> string list option" where
  "pair_step None m = None"
| "pair_step (Some []) m = (if result_ids m = [] then Some (use_ids m) else None)"
| "pair_step (Some (i # is)) m = (if use_ids m = [] \<and> result_ids m = [i] then Some is else None)"

definition open_uses :: "conversation_message list \<Rightarrow> string list option" where
  "open_uses ms = foldl pair_step (Some []) ms"

abbreviation log :: "'e runtime \<Rightarrow> conversation_message list" where
  "log rt \<equiv> messages (rt_session rt)"

lemma open_uses_Nil [simp]: "open_uses [] = Some []"
  by (simp add: open_uses_def)

lemma open_uses_snoc [simp]: "open_uses (ms @ [m]) = pair_step (open_uses ms) m"
  by (simp add: open_uses_def)

lemma pair_step_plain [simp]: "plain m \<Longrightarrow> pair_step (Some []) m = Some []"
  by (simp add: plain_def)

lemma open_uses_plain: "list_all plain ms \<Longrightarrow> open_uses ms = Some []"
  by (induction ms rule: rev_induct) (simp_all add: plain_def)

lemma plain_text: "blocks m = [Text t] \<Longrightarrow> plain m"
  by (simp add: plain_def use_ids_def result_ids_def pending_tool_uses_def map_filter_simps)

lemma plain_inputs: "blocks m = [InputRouter is] \<Longrightarrow> plain m"
  by (simp add: plain_def use_ids_def result_ids_def pending_tool_uses_def map_filter_simps)

text \<open>The messages that the program makes itself.\<close>

lemma made_plain:
  "user_text t p = (m, p') \<Longrightarrow> plain m"
  "attachment_user_text t k p = (m, p') \<Longrightarrow> plain m"
  "hook_result_user_text t k' event source p = (m, p') \<Longrightarrow> plain m"
  "compact_summary_user_text t b p = (m, p') \<Longrightarrow> plain m"
  "compact_boundary cm p = (m, p') \<Longrightarrow> plain m"
  "input_router_message ins p = (m, p') \<Longrightarrow> plain m"
  by (auto simp: user_text_def attachment_user_text_def hook_result_user_text_def compact_summary_user_text_def
      compact_boundary_def input_router_message_def user_text_with_metadata_def
      intro: plain_text plain_inputs dest!: new_message_fields(2))

lemma made_tool_result:
  assumes "tool_result i name output e p = (m, p')"
  shows "use_ids m = []" "result_ids m = [i]"
  using assms by (auto simp: tool_result_def use_ids_def result_ids_def pending_tool_uses_def map_filter_simps
      dest!: new_message_fields(2))

section \<open>Compaction leaves no open uses\<close>

lemma with_text_plain: "with_text t k p = (m, p') \<Longrightarrow> pred_option plain m"
  by (auto simp: with_text_def made_plain(2) split: option.splits prod.splits)

lemma sequence_messages_plain:
  assumes "\<And>f p m p'. f \<in> set fs \<Longrightarrow> f p = (m, p') \<Longrightarrow> pred_option plain m" "sequence_messages fs p = (ms, p')"
  shows "list_all plain ms"
  using assms
proof (induction fs arbitrary: p ms p')
  case (Cons f fs)
  obtain m p1 where f: "f p = (m, p1)" by fastforce
  obtain ms2 p2 where fs: "sequence_messages fs p1 = (ms2, p2)" by fastforce
  have "pred_option plain m" "list_all plain ms2" using Cons.prems(1) f Cons.IH [OF _ fs] by auto
  with Cons.prems(2) f fs show ?case by (cases m) auto
qed simp

lemma context_messages_plain:
  assumes "collect_post_compact_context_messages env s p = (ms, p')"
  shows "list_all plain ms"
proof (rule sequence_messages_plain)
  show "sequence_messages [create_running_agents_context_message env (messages s), create_todo_context_message env s,
        create_plan_mode_context_message env (messages s), create_invoked_skills_context_message env s] p = (ms, p')"
    using assms by (simp only: collect_post_compact_context_messages_def)
qed (auto simp: create_running_agents_context_message_def create_todo_context_message_def create_plan_mode_context_message_def
    create_invoked_skills_context_message_def Let_def dest: with_text_plain)

lemma session_start_messages_plain: "session_start_messages source msgs p = (ms, p') \<Longrightarrow> list_all plain ms"
  by (induction msgs arbitrary: p ms p') (auto simp: Let_def dest: made_plain(3) split: prod.splits)

lemma build_boundary_plain:
  assumes "build_compaction_result env s summary opts w = (r, w')" "bo_layout opts = TsBoundaryAndSummary"
    "bo_preserved_messages opts = []" "list_all plain (bo_hook_result_messages opts)"
  shows "list_all plain (messages (cr_compacted_session r))"
proof -
  obtain ctx w1 where ctx: "on_process (collect_post_compact_context_messages env s) w = (ctx, w1)" by fastforce
  obtain ms w2 where ms: "on_process (build_compacted_messages summary ctx opts (estimate_session_tokens env s) (messages s)) w1 = (ms, w2)"
    by fastforce
  obtain s3 w3 where s3: "record_compaction summary (bo_removed_message_count opts) (s\<lparr>messages := ms\<rparr>) w2 = (s3, w3)" by fastforce
  have "list_all plain ctx" using ctx context_messages_plain by (fastforce simp: on_process_def split: prod.splits)
  with ms assms(2-4) have "list_all plain ms"
    by (auto simp: on_process_def build_compacted_messages_def build_ts_compact_boundary_message_def Let_def
        dest: made_plain(4,5) split: prod.splits)
  moreover have "cr_compacted_session r = s3" using assms(1,2) ctx ms s3 by (auto simp: build_compaction_result_def Let_def)
  ultimately show ?thesis using record_compaction_messages [OF s3] by simp
qed

section \<open>Between the rounds\<close>

text \<open>A method that leaves the messages of the session alone.\<close>

lemma spec_session_call_log:
  assumes "\<And>s w r s' w'. f s w = (r, s', w') \<Longrightarrow> messages s' = messages s"
  shows "preserves (\<lambda>rt. J (log rt)) (session_call_or prefix f)"
  using assms by (auto simp: spec_def session_call_or_def split: prod.splits sum.splits)

lemma spec_push:
  "spec (\<lambda>rt. J (log rt)) (session_call_or prefix (push_message m)) (\<lambda>_ rt. \<exists>ms. log rt = ms @ [m] \<and> J ms) (\<lambda>_ rt. J (log rt))"
  by (auto simp: spec_def session_call_or_def dest: push_message_messages split: prod.splits sum.splits)

lemma keeps_log [spec_intros]:
  "preserves (\<lambda>rt. J (log rt)) (serve f)" "preserves (\<lambda>rt. J (log rt)) (fresh g)" "preserves (\<lambda>rt. J (log rt)) (get_rt h)"
  "preserves (\<lambda>rt. J (log rt)) (go x)" "preserves (\<lambda>rt. J (log rt)) (leave r)" "preserves (\<lambda>rt. J (log rt)) (record_optional_usage u)"
  "preserves (\<lambda>rt. J (log rt)) drain_local"
  by (auto simp: record_optional_usage_def drain_local_def spec_def set_rt_def serve_def fresh_def get_rt_def go_def leave_def
      Let_def split: option.splits prod.splits)

lemma keeps_and_go [spec_intros]: "preserves P m \<Longrightarrow> (\<And>x. preserves P (k x)) \<Longrightarrow> preserves P (and_go m k)"
  by (rule spec_and_go)

lemma keeps_or_leave [spec_intros]: "preserves (\<lambda>rt. J (log rt)) (or_leave x)"
  unfolding or_leave_def by (intro spec_intros)

lemma keeps_summary_request [spec_intros]:
  "preserves (\<lambda>rt. J (log rt)) (execute_full_compact_summary_request sv ms c)"
  unfolding execute_full_compact_summary_request_def stream_events_def build_assistant_message_def Let_def
  by (intro spec_intros)

lemma keeps_flush [spec_intros]: "preserves (\<lambda>rt. J (log rt)) flush_pending_appfs_event_cursor_updates"
  unfolding flush_pending_appfs_event_cursor_updates_def
  by (intro spec_intros spec_session_call_log update_event_cursors_messages update_wake_event_cursors_messages spec_set) simp_all

lemma keeps_enqueue [spec_intros]: "preserves (\<lambda>rt. J (log rt)) (enqueue_appfs_events_before_model_call sv)"
  unfolding enqueue_appfs_events_before_model_call_def
  by (intro spec_intros spec_session_call_log update_event_cursors_messages spec_set) simp_all

lemma keeps_inject [spec_intros]: "preserves (\<lambda>rt. J (log rt)) (inject_peer_snapshot sv)"
  unfolding inject_peer_snapshot_def by (intro spec_intros spec_set) simp_all

text \<open>The summary of an automatic compaction has no tool uses and no results.\<close>

lemma spec_full_compact:
  "spec (\<lambda>rt. J (log rt)) (run_full_compact sv b trigger 0)
     (\<lambda>r rt. J (log rt) \<and> list_all plain (messages (cr_compacted_session r))) (\<lambda>_ rt. J (log rt))"
proof -
  have hooks: "spec (\<lambda>rt. J (log rt)) (run_session_start_hook_messages sv source mdl)
      (\<lambda>ms rt. list_all plain ms \<and> J (log rt)) (\<lambda>_ rt. J (log rt))" for source mdl
    unfolding run_session_start_hook_messages_def
    by (rule spec_and_go, rule keeps_log, rule spec_fresh)
      (auto simp: session_start_hook_messages_def dest: session_start_messages_plain)
  have "spec (\<lambda>rt. J (log rt)) (get_rt (\<lambda>rt. select_full_compact_messages (rt_session rt) 0))
      (\<lambda>selection rt. preserved_messages selection = [] \<and> J (log rt)) (\<lambda>_ rt. J (log rt))"
    by (rule spec_get) (simp add: select_full_compact_messages_def)
  then show ?thesis
    unfolding run_full_compact_def
    apply (rule spec_and_go)
    apply (rule spec_pure)
    apply (rule spec_and_go, rule keeps_log)
    apply (rule spec_and_go, rule keeps_summary_request)
    apply (rule spec_and_go, rule hooks)
    apply (rule spec_pure)
    apply (rule spec_and_go, rule keeps_log)
    apply (auto simp: spec_def Let_def dest: build_boundary_plain split: prod.splits)
    done
qed

locale log_inv =
  fixes I :: "conversation_message list \<Rightarrow> bool"
  assumes I_snoc: "I ms \<Longrightarrow> plain m \<Longrightarrow> I (ms @ [m])"
    and I_plain: "list_all plain ms \<Longrightarrow> I ms"
begin

lemma push_plain: "plain m \<Longrightarrow> preserves (\<lambda>rt. I (log rt)) (session_call_or prefix (push_message m))"
  by (rule spec_weaken [OF spec_push]) (auto intro: I_snoc)

lemma sync: "preserves (\<lambda>rt. I (log rt)) (sync_pending_inputs_before_model_call sv)"
proof -
  have fresh: "spec (\<lambda>rt. I (log rt)) (fresh (input_router_message inputs)) (\<lambda>m rt. plain m \<and> I (log rt)) (\<lambda>_ rt. I (log rt))"
    for inputs and rt :: "'a runtime"
    by (rule spec_fresh) (auto dest: made_plain(6))
  show ?thesis
    unfolding sync_pending_inputs_before_model_call_def Let_def
    apply (rule keeps_and_go, rule keeps_inject)
    apply (rule keeps_and_go, rule keeps_log)
    apply (rule keeps_and_go, rule keeps_log)
    apply (rule spec_if, rule keeps_flush)
    apply (rule spec_and_go, rule fresh)
    apply (rule spec_pure)
    apply (rule keeps_and_go)
     apply (rule spec_on_error, simp, erule push_plain)
    apply (rule keeps_flush)
    done
qed

lemma auto_compact: "preserves (\<lambda>rt. I (log rt)) (maybe_auto_compact sv)"
proof -
  have compacted: "spec (\<lambda>rt. I (log rt)) (ok_of (run_full_compact sv True Auto 0))
      (\<lambda>r rt. pred_option (\<lambda>x. list_all plain (messages (cr_compacted_session x))) r \<and> I (log rt)) (\<lambda>_ rt. I (log rt))"
    by (rule spec_ok_of, rule spec_weaken [OF spec_full_compact]) auto
  show ?thesis
    unfolding maybe_auto_compact_def
    apply (rule keeps_and_go, rule keeps_log)
    apply (rule spec_prod, rule spec_if, rule keeps_log)
    apply (rule spec_and_go, rule compacted)
    apply (rule spec_pure)
    apply (rule spec_option, rule keeps_log)
    apply (rule spec_if, rule keeps_log)
    apply (rule keeps_and_go)
     apply (rule spec_set, simp add: I_plain)
    apply (rule keeps_log)
    done
qed

end

interpretation paired: log_inv "\<lambda>ms. open_uses ms = Some []"
  by unfold_locales (simp_all add: open_uses_plain pair_step_plain del: pair_step.simps)

end
