(* ===== verification/Agent_Turn_Frame.thy ===== *)
theory Agent_Turn_Frame
  imports Agent_Turn_Pairing
begin

text \<open>
  No method of the runtime changes the permission policy; and a turn does not depend on what the
  executor would do for calls that a deny rule matches.
\<close>

section \<open>The policy is kept\<close>

named_theorems frame_intros

lemma frame_rules [frame_intros]:
  "preserves P m \<Longrightarrow> preserves P (tried m)" "preserves P m' \<Longrightarrow> preserves P (ok_of m')"
  "preserves P n \<Longrightarrow> (\<And>x. preserves P (k x)) \<Longrightarrow> preserves P (and_go n k)"
  by (rule spec_tried, assumption, rule spec_ok_of, assumption, rule spec_and_go)

lemma frame_base [frame_intros]:
  fixes pol defines "P \<equiv> \<lambda>rt. rt_permission_policy rt = pol"
  shows "preserves P (serve f)" "preserves P (fresh g)" "preserves P (get_rt h)" "preserves P (go x)" "preserves P (leave r)"
    "preserves P (or_leave y)" "preserves P (record_optional_usage u)" "preserves P drain_local" "preserves P (session_call_or prefix c)"
    "preserves P (cancelled_turn_summary tp n)"
  by (auto simp: P_def spec_def serve_def fresh_def get_rt_def go_def leave_def or_leave_def record_optional_usage_def set_rt_def
      drain_local_def session_call_or_def cancelled_turn_summary_def Let_def split: prod.splits sum.splits option.splits)

lemma frame_set: "(\<And>rt. rt_permission_policy (f rt) = rt_permission_policy rt) \<Longrightarrow> preserves (\<lambda>rt. rt_permission_policy rt = pol) (set_rt f)"
  by (rule spec_set) simp

lemma frame_on_error:
  "preserves (\<lambda>rt. rt_permission_policy rt = pol) m \<Longrightarrow> (\<And>rt. rt_permission_policy (f rt) = rt_permission_policy rt) \<Longrightarrow>
     preserves (\<lambda>rt. rt_permission_policy rt = pol) (on_error m f)"
  by (rule spec_on_error) simp

lemmas frame_splits = spec_if spec_option spec_sum spec_prod spec_outcome

lemma frame_compaction [frame_intros]:
  fixes pol defines "P \<equiv> \<lambda>rt. rt_permission_policy rt = pol"
  shows "preserves P (build_assistant_message events)" "preserves P (execute_full_compact_summary_request sv ms c)"
    "preserves P (run_full_compact sv b trigger k)" "preserves P (maybe_auto_compact sv)"
proof -
  show built: "preserves P (build_assistant_message events)" for events
    unfolding build_assistant_message_def Let_def P_def by (intro frame_intros frame_splits)
  show summary: "preserves P (execute_full_compact_summary_request sv ms c)" for ms c
    unfolding execute_full_compact_summary_request_def stream_events_def
    by (intro frame_intros frame_splits built | simp only: P_def)+
  show full: "preserves P (run_full_compact sv b trigger k)" for b trigger k
    unfolding run_full_compact_def run_session_start_hook_messages_def
    apply (intro frame_intros(3) summary)
    apply (simp_all only: P_def)
    apply (intro frame_intros)+
    apply (simp add: spec_def Let_def split: prod.splits)
    done
  show "preserves P (maybe_auto_compact sv)" unfolding maybe_auto_compact_def
    by (intro frame_intros(2,3) full frame_splits) (auto simp: P_def intro!: frame_intros frame_set)
qed

lemma frame_inputs [frame_intros]:
  fixes pol defines "P \<equiv> \<lambda>rt. rt_permission_policy rt = pol"
  shows "preserves P (enqueue_appfs_events_before_model_call sv)" "preserves P (sync_pending_inputs_before_model_call sv)"
proof -
  have flush: "preserves P flush_pending_appfs_event_cursor_updates"
    unfolding flush_pending_appfs_event_cursor_updates_def P_def by (intro frame_intros frame_splits frame_set) simp_all
  have inject: "preserves P (inject_peer_snapshot sv)"
    unfolding inject_peer_snapshot_def P_def by (intro frame_intros frame_splits frame_set) simp_all
  show "preserves P (enqueue_appfs_events_before_model_call sv)"
    unfolding enqueue_appfs_events_before_model_call_def P_def by (intro frame_intros frame_splits frame_set) simp_all
  show "preserves P (sync_pending_inputs_before_model_call sv)"
    using flush inject unfolding sync_pending_inputs_before_model_call_def P_def Let_def
    by (intro frame_intros frame_splits frame_on_error) simp_all
qed

lemma frame_tools [frame_intros]:
  fixes pol defines "P \<equiv> \<lambda>rt. rt_permission_policy rt = pol"
  shows "preserves P (push_tool_result i name out e tp)" "preserves P (cancel_pending_tool_uses uses tp)"
    "preserves P (push_deferred_tool_additional_messages ms)" "preserves P (upsert_skills ks)"
    "preserves P (tool_permission sv name input pre c)" "preserves P (settle_tool sv use pre tp deferred)"
proof -
  show result: "preserves P (push_tool_result i name out e tp)" for i name out e tp
    unfolding push_tool_result_def push_def P_def by (intro frame_intros)
  note result = result [unfolded P_def]
  show "preserves P (cancel_pending_tool_uses uses tp)" unfolding P_def
    by (induction uses tp rule: cancel_pending_tool_uses.induct) (auto intro!: result frame_intros)
  show "preserves P (push_deferred_tool_additional_messages ms)" unfolding P_def
    by (induction ms) (auto simp: push_def intro!: frame_intros)
  show skills: "preserves P (upsert_skills ks)" for ks unfolding P_def
    by (induction ks) (auto intro!: frame_intros)
  show permission: "preserves P (tool_permission sv name input pre c)" for name input pre c
    unfolding tool_permission_def P_def by (intro frame_intros frame_splits)
  show "preserves P (settle_tool sv use pre tp deferred)"
    using permission skills unfolding settle_tool_def run_allowed_tool_def deny_tool_def execute_tool_def Let_def P_def
    by (intro frame_splits frame_intros result) simp_all
qed

lemma frame_stop:
  fixes pol defines "P \<equiv> \<lambda>rt. rt_permission_policy rt = pol"
  assumes "preserves P k"
  shows "preserves P (stop_if_aborted sv n uses tp deferred k)"
  using assms unfolding stop_if_aborted_def P_def by (intro frame_intros frame_splits)

lemma frame_loops [frame_intros]:
  fixes pol defines "P \<equiv> \<lambda>rt. rt_permission_policy rt = pol"
  shows "preserves P (tool_loop sv n uses tp deferred)" "preserves P (before_model_call sv n tp)" "preserves P (call_model sv n tp)"
    "preserves P (model_round sv n tp)"
proof -
  show tools: "preserves P (tool_loop sv n uses tp deferred)" for uses tp deferred
    unfolding P_def
    by (induction uses arbitrary: tp deferred) (simp_all only: tool_loop.simps, (intro frame_intros frame_splits frame_stop | assumption)+)
  show before: "preserves P (before_model_call sv n tp)" for tp
    unfolding before_model_call_def compact_in_loop_def P_def Let_def by (intro frame_intros frame_splits)
  show call: "preserves P (call_model sv n tp)" for tp
    unfolding call_model_def stream_events_def P_def by (intro frame_intros frame_splits)
  show "preserves P (model_round sv n tp)"
    using tools before call unfolding model_round_def push_def P_def Let_def by (intro frame_intros frame_splits) simp_all
qed

section \<open>Denied calls are not executed\<close>

lemma denied_by_rule:
  assumes "find_matching_rule J (deny_rules policy) name input \<noteq> None"
  shows "\<exists>reason. authorize_with_context J policy name input c prompter p = (Denied reason, p)"
  using assms by (auto simp: authorize_with_context_def)

locale denied_calls =
  fixes sv :: "'e services" and execute and pol :: permission_policy
  assumes agree: "\<And>view name input. execute view name input = sv_execute sv view name input \<or>
    find_matching_rule (sv_json sv) (deny_rules pol) name input \<noteq> None"
begin

abbreviation other :: "'e services" where
  "other \<equiv> sv\<lparr>sv_execute := execute\<rparr>"

abbreviation governed :: "'e runtime \<Rightarrow> bool" where
  "governed rt \<equiv> rt_permission_policy rt = pol"

lemma fields:
  "sv_stream other = sv_stream sv" "sv_pre_tool_use other = sv_pre_tool_use sv" "sv_post_tool_use other = sv_post_tool_use sv"
  "sv_post_tool_use_failure other = sv_post_tool_use_failure sv" "sv_session_start other = sv_session_start sv"
  "sv_pre_compact other = sv_pre_compact sv" "sv_post_compact other = sv_post_compact sv" "sv_is_aborted other = sv_is_aborted sv"
  "sv_prompter other = sv_prompter sv" "sv_collect_appfs other = sv_collect_appfs sv" "sv_peer_snapshot other = sv_peer_snapshot sv"
  "sv_external other = sv_external sv" "sv_current_dir other = sv_current_dir sv" "sv_var other = sv_var sv"
  "sv_percent other = sv_percent sv" "sv_compact other = sv_compact sv" "sv_json other = sv_json sv"
  by simp_all

lemma unaffected:
  "stop_if_aborted other n uses tp deferred k = stop_if_aborted sv n uses tp deferred k"
  "tool_permission other name input pre c = tool_permission sv name input pre c"
  "maybe_auto_compact other = maybe_auto_compact sv"
proof -
  show "stop_if_aborted other n uses tp deferred k = stop_if_aborted sv n uses tp deferred k"
    "tool_permission other name input pre c = tool_permission sv name input pre c"
    unfolding stop_if_aborted_def tool_permission_def fields by (rule refl)+
  have summary: "execute_full_compact_summary_request other ms c = execute_full_compact_summary_request sv ms c" for ms c
    unfolding execute_full_compact_summary_request_def stream_events_def compact_summary_max_output_tokens_def
      parse_positive_u32_env_def fields ..
  have full: "run_full_compact other b t k = run_full_compact sv b t k" for b t k
    unfolding run_full_compact_def run_session_start_hook_messages_def fields summary ..
  show "maybe_auto_compact other = maybe_auto_compact sv"
    unfolding maybe_auto_compact_def auto_compaction_threshold_def parse_positive_u32_env_def fields full ..
qed

lemma unaffected_rounds:
  "before_model_call other n tp = before_model_call sv n tp" "call_model other n tp = call_model sv n tp"
  "end_of_turn other tp n = end_of_turn sv tp n"
proof -
  have enqueue: "enqueue_appfs_events_before_model_call other = enqueue_appfs_events_before_model_call sv"
    unfolding enqueue_appfs_events_before_model_call_def root_path_def fields ..
  have sync: "sync_pending_inputs_before_model_call other = sync_pending_inputs_before_model_call sv"
    unfolding sync_pending_inputs_before_model_call_def inject_peer_snapshot_def root_path_def drain_external_def [abs_def]
      restore_external_def [abs_def] fields ..
  show "before_model_call other n tp = before_model_call sv n tp"
    unfolding before_model_call_def compact_in_loop_def unaffected enqueue sync fields ..
  show "call_model other n tp = call_model sv n tp" unfolding call_model_def stream_events_def fields ..
  show "end_of_turn other tp n = end_of_turn sv tp n" unfolding end_of_turn_def unaffected ..
qed

lemma same_settle: "same governed (settle_tool other use pre tp deferred) (settle_tool sv use pre tp deferred)"
proof -
  obtain i name input where use: "use = (i, name, input)" by (cases use)
  let ?input = "case hk_updated_input pre of Some j \<Rightarrow> j | None \<Rightarrow> input"
  let ?c = "tp_tool_context tp"
  have "settle_tool other use pre tp deferred rt = settle_tool sv use pre tp deferred rt" if "governed rt" for rt
  proof (cases "find_matching_rule (sv_json sv) (deny_rules pol) name ?input = None")
    case True
    with agree have "execute view name ?input = sv_execute sv view name ?input" for view by blast
    then have run: "sv_execute other view name ?input = sv_execute sv view name ?input" for view by simp
    show ?thesis unfolding use settle_tool_def unaffected run_allowed_tool_def execute_tool_def Let_def prod.case fields run ..
  next
    case False
    obtain reason where "authorize_with_context (sv_json sv) pol name ?input (tool_permission_context ?c pre) (sv_prompter sv)
        (rt_env rt) = (Denied reason, rt_env rt)"
      using denied_by_rule [OF False, of "tool_permission_context ?c pre" "sv_prompter sv" "rt_env rt"] by blast
    then have "\<exists>reason' rt'. tool_permission sv name ?input pre ?c rt = (Inr (Denied reason') :: runtime_error + permission_outcome, rt')"
      using that by (auto simp: tool_permission_def go_def and_go_def get_rt_def serve_def split: prod.splits)
    then obtain reason' rt' where denied: "tool_permission sv name ?input pre ?c rt = (Inr (Denied reason') :: runtime_error + permission_outcome, rt')" by blast
    show ?thesis unfolding use settle_tool_def unaffected and_go_def Let_def prod.case denied by simp
  qed
  then show ?thesis by (simp add: same_def)
qed

lemma same_stop:
  assumes "same governed k k'"
  shows "same governed (stop_if_aborted sv n uses tp deferred k) (stop_if_aborted sv n uses tp deferred k')"
  unfolding stop_if_aborted_def by (intro same_and_go same_if same_refl assms frame_intros)

lemma same_tool_loop: "same governed (tool_loop other n uses tp deferred) (tool_loop sv n uses tp deferred)"
proof (induction uses arbitrary: tp deferred)
  case (Cons use uses)
  show ?case unfolding tool_loop.simps unaffected
    by (intro same_stop same_and_go same_prod same_tried same_settle Cons.IH frame_intros) (simp add: same_refl)
qed (simp add: same_refl)

lemma same_round: "same governed (model_round other n tp) (model_round sv n tp)"
  unfolding model_round_def unaffected_rounds Let_def
  by (intro same_and_go same_prod same_if same_refl same_tool_loop frame_intros | simp add: push_def same_refl frame_intros)+

lemma same_loop: "same governed (model_loop other left n tp) (model_loop sv left n tp)"
proof (induction left arbitrary: n tp)
  case (Suc left)
  show ?case unfolding model_loop.simps
    by (intro same_and_go same_prod same_if same_round Suc.IH frame_intros) (simp_all add: same_refl)
qed (simp add: same_refl)

lemma same_turn:
  assumes "governed rt"
  shows "run_turn other input rt = run_turn sv input rt"
proof -
  have "run_model_tool_loop other rt1 = run_model_tool_loop sv rt1" if "governed rt1" for rt1
    using sameD [OF same_loop that] by (simp add: run_model_tool_loop_def and_go_def unaffected_rounds)
  moreover have "governed rt1" if "session_call_or prefix c rt = (x, rt1)" for prefix c x rt1
    using assms that by (auto simp: session_call_or_def split: prod.splits)
  ultimately show ?thesis unfolding run_turn_def by (auto split: prod.splits sum.splits) blast
qed

end

text \<open>An executor that refuses what the policy denies instead of running it.\<close>

definition guarded_execute ::
  "'e services \<Rightarrow> permission_policy \<Rightarrow> tool_session \<Rightarrow> string \<Rightarrow> string \<Rightarrow> 'e \<Rightarrow> (string + tool_execution_result) \<times> 'e" where
  "guarded_execute sv pol view name input =
     (if find_matching_rule (sv_json sv) (deny_rules pol) name input = None then sv_execute sv view name input
      else (\<lambda>e. (Inl ''denied by rule'', e)))"

interpretation guarded: denied_calls sv "guarded_execute sv pol" pol for sv :: "'e services" and pol
  by unfold_locales (simp add: guarded_execute_def)

end
