(* ===== verification/Agent_Turn_Contract.thy ===== *)
theory Agent_Turn_Contract
  imports Agent_Turn_Frame
begin

text \<open>
  What a turn of the conversation guarantees: tool uses are answered, denied tools are not run,
  inputs are not lost; and what compaction preserves.
\<close>

section \<open>Tool uses are answered\<close>

definition answered :: "turn_progress \<Rightarrow> string list \<Rightarrow> bool" where
  "answered tp rest \<longleftrightarrow>
     concat (map result_ids (tp_tool_results tp)) @ rest = concat (map use_ids (tp_assistant_messages tp))"

definition summary_answered :: "turn_summary \<Rightarrow> bool" where
  "summary_answered s \<longleftrightarrow> concat (map result_ids (ts_tool_results s)) = concat (map use_ids (ts_assistant_messages s))"

definition unbroken :: "conversation_message list \<Rightarrow> bool" where
  "unbroken ms \<longleftrightarrow> open_uses ms \<noteq> None"

definition exits :: "runtime_error + turn_summary \<Rightarrow> 'e runtime \<Rightarrow> bool" where
  "exits r rt \<longleftrightarrow> (case r of Inl _ \<Rightarrow> unbroken (log rt) | Inr s \<Rightarrow> open_uses (log rt) = Some [] \<and> summary_answered s)"

abbreviation waits :: "string list \<Rightarrow> 'e runtime \<Rightarrow> bool" where
  "waits is rt \<equiv> open_uses (log rt) = Some is"

abbreviation survives :: "'r \<Rightarrow> 'e runtime \<Rightarrow> bool" where
  "survives r rt \<equiv> unbroken (log rt)"

text \<open>What is relied on of the tools: the messages they add neither use tools nor answer uses.\<close>

definition adds_plain_messages :: "'e services \<Rightarrow> bool" where
  "adds_plain_messages sv \<longleftrightarrow>
     (\<forall>view name input e r e'. sv_execute sv view name input e = (Inr r, e') \<longrightarrow> list_all plain (tx_additional_messages r))"

lemma exits_simps [simp]:
  "exits (Inl e) rt \<longleftrightarrow> unbroken (log rt)"
  "exits (Inr s) rt \<longleftrightarrow> open_uses (log rt) = Some [] \<and> summary_answered s"
  by (simp_all add: exits_def)

lemma waits_unbroken [simp]: "open_uses ms = Some is \<Longrightarrow> unbroken ms"
  by (simp add: unbroken_def)

lemma keeps_waits: "preserves (waits is) m \<Longrightarrow> spec (waits is) m (\<lambda>_. waits is) survives"
  "preserves (waits is) m' \<Longrightarrow> (\<And>r rt. waits is rt \<Longrightarrow> E r rt) \<Longrightarrow> spec (waits is) m' (\<lambda>_. waits is) E"
  by (auto elim: spec_weaken)

lemma spec_push_tool_result:
  assumes "answered tp (i # is)"
  shows "spec (waits (i # is)) (push_tool_result i name output e tp) (\<lambda>tp' rt. answered tp' is \<and> waits is rt) survives"
proof -
  have made: "spec (waits (i # is)) (fresh (tool_result i name output e))
      (\<lambda>m rt. (use_ids m = [] \<and> result_ids m = [i]) \<and> waits (i # is) rt) survives"
    by (rule spec_fresh) (auto dest: made_tool_result)
  have pushed: "spec (waits (i # is)) (push m) (\<lambda>_. waits is) survives" if "use_ids m = [] \<and> result_ids m = [i]" for m
    unfolding push_def by (rule spec_weaken [OF spec_push [of "\<lambda>ms. open_uses ms = Some (i # is)"]]) (use that in auto)
  have "answered (tp\<lparr>tp_tool_results := tp_tool_results tp @ [m]\<rparr>) is" if "result_ids m = [i]" for m
    using assms that by (simp add: answered_def)
  then show ?thesis unfolding push_tool_result_def
    by (intro spec_and_go [OF made] spec_pure spec_and_go [OF pushed] spec_go) simp_all
qed

lemma spec_cancel:
  "answered tp (map fst uses) \<Longrightarrow>
     spec (waits (map fst uses)) (cancel_pending_tool_uses uses tp) (\<lambda>tp' rt. answered tp' [] \<and> waits [] rt) survives"
proof (induction uses arbitrary: tp)
  case (Cons use uses)
  obtain i name input where use: "use = (i, name, input)" by (cases use)
  have "answered tp (i # map fst uses)" using Cons.prems use by simp
  then show ?case unfolding use cancel_pending_tool_uses.simps list.map fst_conv
    by (intro spec_and_go [OF spec_push_tool_result] spec_pure Cons.IH)
qed (auto intro: spec_go)

lemma spec_deferred: "list_all plain ms \<Longrightarrow> preserves (waits []) (push_deferred_tool_additional_messages ms)"
proof (induction ms)
  case (Cons m ms)
  then have "plain m" "list_all plain ms" by simp_all
  then show ?case unfolding push_deferred_tool_additional_messages.simps push_def
    by (intro keeps_and_go paired.push_plain Cons.IH)
qed (auto intro: spec_go)

lemma spec_cancelled: "answered tp [] \<Longrightarrow> spec (waits []) (cancelled_turn_summary tp n) Q exits"
  by (simp add: spec_def cancelled_turn_summary_def answered_def summary_answered_def)

lemma serve_waits: "spec (waits is) (serve f) (\<lambda>_. waits is) exits"
  by (rule spec_serve) simp

lemma tried_survives: "spec P m Q survives \<Longrightarrow> spec P (tried m) Q exits"
  by (rule spec_tried, erule spec_weaken) simp_all

lemma spec_stop_if_aborted:
  assumes "answered tp (map fst uses)" "list_all plain deferred" "spec (waits (map fst uses)) k Q exits"
  shows "spec (waits (map fst uses)) (stop_if_aborted sv n uses tp deferred k) Q exits"
  unfolding stop_if_aborted_def
  by (intro spec_and_go [OF serve_waits] spec_if assms(3) spec_and_go [OF tried_survives [OF spec_cancel [OF assms(1)]]] spec_pure
      spec_and_go [OF tried_survives [OF keeps_waits(1) [OF spec_deferred [OF assms(2)]]]] spec_cancelled)

lemma serve_survives: "spec (waits is) (serve f) (\<lambda>_. waits is) survives"
  by (rule spec_serve) simp

text \<open>One tool use is settled by one result, whether it is run or denied.\<close>

lemma spec_execute:
  assumes "adds_plain_messages sv"
  shows "spec (waits is) (execute_tool sv name input)
    (\<lambda>x rt. list_all plain (tx_additional_messages (fst x)) \<and> waits is rt) survives"
proof -
  have "spec (waits is) (serve (sv_execute sv view name input))
      (\<lambda>r rt. (\<forall>x. r = Inr x \<longrightarrow> list_all plain (tx_additional_messages x)) \<and> waits is rt) survives" for view
    by (rule spec_serve) (use assms in \<open>unfold adds_plain_messages_def, simp, blast\<close>)
  note run = this
  show ?thesis unfolding execute_tool_def
    by (intro spec_and_go [OF keeps_waits(1) [OF keeps_log(3)]] spec_and_go [OF run] spec_pure spec_go)
      (auto simp: text_result_def split: sum.splits)
qed

lemma spec_upsert_skills: "preserves (waits is) (upsert_skills ks)"
  by (induction ks) (auto intro!: spec_go keeps_and_go spec_session_call_log upsert_invoked_skill_messages)

lemma spec_run_allowed:
  assumes "adds_plain_messages sv" "answered tp (i # is)" "list_all plain deferred"
  shows "spec (waits (i # is)) (run_allowed_tool sv i name input pre tp deferred)
    (\<lambda>x rt. (answered (fst x) is \<and> list_all plain (snd x)) \<and> waits is rt) survives"
proof -
  have skills: "spec (waits is) (if b then go () else upsert_skills ks) (\<lambda>_. waits is) survives" for b ks
    by (rule keeps_waits(1)) (intro spec_if spec_upsert_skills keeps_log)
  have ctx: "answered (tp'\<lparr>tp_tool_context := c\<rparr>) is = answered tp' is" for tp' c by (simp add: answered_def)
  show ?thesis unfolding run_allowed_tool_def Let_def
    apply (rule spec_and_go [OF spec_execute [OF assms(1)]], rule spec_pure, rule spec_prod)
    apply (rule spec_and_go [OF serve_survives])
    apply (rule spec_and_go [OF spec_push_tool_result [OF assms(2)]], rule spec_pure)
    apply (rule spec_and_go [OF skills], rule spec_go)
    using assms(3) apply (auto simp: ctx split: option.splits)
    done
qed

lemma spec_deny:
  assumes "answered tp (i # is)" "list_all plain deferred"
  shows "spec (waits (i # is)) (deny_tool i name reason pre tp deferred)
    (\<lambda>x rt. (answered (fst x) is \<and> list_all plain (snd x)) \<and> waits is rt) survives"
  unfolding deny_tool_def
  by (intro spec_and_go [OF spec_push_tool_result [OF assms(1)]] spec_pure spec_go) (use assms(2) in auto)

lemma spec_permission: "spec (waits is) (tool_permission sv name input pre c) (\<lambda>_. waits is) survives"
  unfolding tool_permission_def by (rule keeps_waits(1)) (intro spec_if keeps_and_go keeps_log)

lemma spec_settle:
  assumes "adds_plain_messages sv" "answered tp (fst use # is)" "list_all plain deferred"
  shows "spec (waits (fst use # is)) (settle_tool sv use pre tp deferred)
    (\<lambda>x rt. (answered (fst x) is \<and> list_all plain (snd x)) \<and> waits is rt) survives"
proof -
  obtain i name input where use: "use = (i, name, input)" by (cases use)
  show ?thesis using assms unfolding use settle_tool_def Let_def prod.case fst_conv
    by (intro spec_and_go [OF spec_permission] spec_outcome spec_run_allowed spec_deny)
qed

lemma spec_tool_loop:
  assumes "adds_plain_messages sv" "answered tp (map fst uses)" "list_all plain deferred"
  shows "spec (waits (map fst uses)) (tool_loop sv n uses tp deferred) (\<lambda>tp' rt. answered tp' [] \<and> waits [] rt) exits"
  using assms(2,3)
proof (induction uses arbitrary: tp deferred)
  case Nil
  then show ?case unfolding tool_loop.simps list.map
    by (intro spec_and_go [OF tried_survives [OF keeps_waits(1) [OF spec_deferred]]] spec_go) simp_all
next
  case (Cons use uses)
  have settled: "spec (waits (map fst (use # uses))) (tried (settle_tool sv use pre tp deferred))
      (\<lambda>x rt. (answered (fst x) (map fst uses) \<and> list_all plain (snd x)) \<and> waits (map fst uses) rt) exits" for pre
    using tried_survives [OF spec_settle [OF assms(1)], of tp use "map fst uses" deferred] Cons.prems by simp
  show ?case unfolding tool_loop.simps
    by (intro spec_stop_if_aborted Cons.prems spec_and_go [OF serve_waits] spec_and_go [OF settled] spec_pure spec_prod Cons.IH)
      simp_all
qed

text \<open>A round of the model: what it asks for is open after its message, and settled at the end.\<close>

lemma no_results:
  "result_ids (m\<lparr>blocks := bs\<rparr>) = List.map_filter block_result_id bs"
  by (simp add: result_ids_def)

lemma map_filter_snoc: "List.map_filter f (xs @ [x]) = List.map_filter f xs @ (case f x of Some y \<Rightarrow> [y] | None \<Rightarrow> [])"
  by (simp add: List.map_filter_def split: option.splits)

lemma flush_no_results:
  "List.map_filter block_result_id (ab_blocks b) = [] \<Longrightarrow> List.map_filter block_result_id (ab_blocks (flush_text_block b)) = []"
  "List.map_filter block_result_id (ab_blocks b) = [] \<Longrightarrow> List.map_filter block_result_id (ab_blocks (flush_thinking_block b)) = []"
  by (simp_all add: flush_text_block_def flush_thinking_block_def map_filter_snoc)

lemma step_no_results:
  "List.map_filter block_result_id (ab_blocks b) = [] \<Longrightarrow> List.map_filter block_result_id (ab_blocks (assistant_step e b)) = []"
  by (cases e) (simp_all add: Let_def push_block_def flush_no_results map_filter_snoc)

lemma assistant_no_results: "List.map_filter block_result_id (ab_blocks (assistant_blocks events)) = []"
proof -
  have "List.map_filter block_result_id (ab_blocks (fold assistant_step events b)) = []"
    if "List.map_filter block_result_id (ab_blocks b) = []" for b
    using that by (induction events arbitrary: b) (simp_all add: step_no_results)
  from this [of new_builder] show ?thesis
    by (simp add: assistant_blocks_def flush_no_results new_builder_def map_filter_simps)
qed

lemma note_last_text_ids:
  "note_last_text bs = Some bs' \<Longrightarrow> List.map_filter block_tool_use bs' = List.map_filter block_tool_use bs \<and>
     List.map_filter block_result_id bs' = List.map_filter block_result_id bs"
proof (induction bs arbitrary: bs')
  case (Cons b bs)
  then show ?case by (cases b) (auto simp: map_filter_simps split: option.splits content_block.splits)
qed simp

lemma cancelled_note_ids:
  "pending_tool_uses (append_cancelled_assistant_note m) = pending_tool_uses m"
  "result_ids (append_cancelled_assistant_note m) = result_ids m"
  by (auto simp: append_cancelled_assistant_note_def pending_tool_uses_def result_ids_def map_filter_snoc
      dest: note_last_text_ids split: option.splits)

lemma spec_build:
  "spec (waits []) (build_assistant_message events) (\<lambda>x rt. result_ids (fst x) = [] \<and> waits [] rt) survives"
proof -
  have made: "spec (waits []) (fresh (assistant_with_usage (ab_blocks (assistant_blocks events)) u))
      (\<lambda>m rt. result_ids m = [] \<and> waits [] rt) survives" for u
    by (rule spec_fresh)
      (auto simp: assistant_with_usage_def result_ids_def assistant_no_results dest!: new_message_fields(2))
  show ?thesis unfolding build_assistant_message_def Let_def
    by (intro spec_if spec_leave spec_and_go [OF made] spec_pure spec_go) simp_all
qed

lemma auto_compact_waits: "spec (waits []) (maybe_auto_compact sv) (\<lambda>_. waits []) exits"
proof (rule specI)
  fix rt x rt' assume "waits [] rt" "maybe_auto_compact sv rt = (Inr x, rt')"
  then show "waits [] rt'" using specD(1) [OF paired.auto_compact] by blast
next
  fix rt rt' and r :: "runtime_error + turn_summary"
  assume "waits [] rt" and left: "maybe_auto_compact sv rt = (Inl r, rt')"
  from left show "exits r rt'"
    by (auto simp: maybe_auto_compact_def and_go_def get_rt_def go_def ok_of_def set_rt_def Let_def
        split: prod.splits sum.splits option.splits if_splits)
qed

lemma spec_before_model_call:
  assumes "answered tp []"
  shows "spec (waits []) (before_model_call sv n tp) (\<lambda>tp' rt. answered tp' [] \<and> waits [] rt) exits"
proof -
  have event: "answered (tp\<lparr>tp_auto_compaction := e\<rparr>) []" for e using assms by (simp add: answered_def)
  have "spec (waits []) (compact_in_loop sv n tp) (\<lambda>tp' rt. answered tp' [] \<and> waits [] rt) exits"
    unfolding compact_in_loop_def Let_def
    by (intro spec_and_go [OF auto_compact_waits] spec_option spec_go spec_and_go [OF serve_waits] spec_if spec_cancelled event)
      (simp_all add: assms event)
  then show ?thesis unfolding before_model_call_def
    by (intro spec_and_go [OF tried_survives [OF keeps_waits(1) [OF keeps_enqueue]]]
        spec_and_go [OF tried_survives [OF keeps_waits(1) [OF paired.sync]]] spec_and_go [OF serve_waits] spec_if
        spec_cancelled assms)
qed

lemma spec_call_model:
  assumes "answered tp []"
  shows "spec (waits []) (call_model sv n tp) (\<lambda>_. waits []) exits"
proof -
  have streamed: "spec (waits []) (stream_events sv rq) (\<lambda>_. waits []) exits" for rq
    unfolding stream_events_def by (rule spec_and_go [of _ _ "\<lambda>_. waits []"]) (rule spec_get, simp, rule serve_waits)
  have request: "spec (waits []) (get_rt f) (\<lambda>_. waits []) exits" for f
    by (rule spec_get) simp
  show ?thesis unfolding call_model_def
    apply (rule spec_and_go [OF request], rule spec_and_go [OF streamed], rule spec_sum)
     apply (rule spec_if, rule spec_cancelled, rule assms, rule spec_leave, simp)
    apply (rule spec_go, simp)
    done
qed

lemma spec_model_round:
  assumes "adds_plain_messages sv" "answered tp []"
  shows "spec (waits []) (model_round sv n tp) (\<lambda>x rt. answered (fst x) [] \<and> waits [] rt) exits"
proof -
  have recorded: "spec (waits []) (record_optional_usage u) (\<lambda>_. waits []) exits" for u
    unfolding record_optional_usage_def by (rule spec_set) (simp split: option.splits)
  have pushed: "spec (waits []) (push m) (\<lambda>_. waits (use_ids m)) survives" if "result_ids m = []" for m
    unfolding push_def by (rule spec_weaken [OF spec_push [of "\<lambda>ms. open_uses ms = Some []"]]) (use that in auto)
  have said: "answered (tp'\<lparr>tp_prompt_cache_events := c, tp_assistant_messages := tp_assistant_messages tp' @ [m]\<rparr>) (use_ids m)"
    if "answered tp' []" for tp' c m
    using that by (simp add: answered_def)
  have after: "spec (waits (use_ids m))
      (if cancelled then and_go (tried (cancel_pending_tool_uses uses tp2)) (\<lambda>tp3. cancelled_turn_summary tp3 n)
       else if uses = [] then go (tp2, False)
       else and_go (tool_loop sv n uses tp2 []) (\<lambda>tp3. go (tp3, True))) (\<lambda>x rt. answered (fst x) [] \<and> waits [] rt) exits"
    if "answered tp2 (use_ids m)" "use_ids m = map fst uses" for m cancelled uses tp2
    using that(1) unfolding that(2)
    apply -
    apply (rule spec_if)
     apply (rule spec_and_go [OF tried_survives [OF spec_cancel]], assumption, rule spec_pure, erule spec_cancelled)
    apply (rule spec_if, rule spec_go, simp)
    apply (rule spec_and_go [OF spec_tool_loop [OF assms(1)]], assumption, simp, rule spec_go, simp)
    done
  show ?thesis unfolding model_round_def Let_def
    apply (rule spec_and_go [OF spec_before_model_call [OF assms(2)]], rule spec_pure)
    apply (rule spec_and_go [OF spec_call_model], assumption)
    apply (rule spec_and_go [OF tried_survives [OF spec_build]], rule spec_pure, rule spec_prod, rule spec_prod)
    apply (rule spec_and_go [OF serve_waits], rule spec_and_go [OF recorded])
    apply (rule spec_and_go [OF tried_survives [OF pushed]], simp add: cancelled_note_ids)
    apply (rule after, erule said, simp add: use_ids_def cancelled_note_ids)
    done
qed

lemma spec_model_loop:
  assumes "adds_plain_messages sv"
  shows "answered tp [] \<Longrightarrow> spec (waits []) (model_loop sv left n tp) (\<lambda>x rt. answered (fst x) [] \<and> waits [] rt) exits"
proof (induction left arbitrary: n tp)
  case 0
  then show ?case unfolding model_loop.simps
    by (intro spec_and_go [OF serve_waits] spec_if spec_cancelled spec_leave) simp_all
next
  case (Suc left)
  show ?case unfolding model_loop.simps
    apply (rule spec_and_go [OF serve_waits], rule spec_if, rule spec_cancelled, rule Suc.prems)
    apply (rule spec_and_go [OF spec_model_round [OF assms Suc.prems]], rule spec_pure, rule spec_prod)
    apply (rule spec_if, rule Suc.IH, simp)
    apply (rule spec_go, simp)
    done
qed

lemma loop_answers:
  assumes "adds_plain_messages sv" "waits [] rt" "run_model_tool_loop sv rt = (r, rt')"
  shows "exits r rt'"
proof -
  have ended: "spec (waits []) (end_of_turn sv tp n) (\<lambda>s rt. summary_answered s \<and> waits [] rt) exits" if "answered tp []" for tp n
    unfolding end_of_turn_def
    apply (rule spec_and_go [OF auto_compact_waits])
    apply (rule spec_and_go [of _ _ "\<lambda>_. waits []"], rule spec_get, simp)
    apply (rule spec_go)
    using that apply (simp add: summary_answered_def answered_def)
    done
  have "spec (waits []) (and_go (model_loop sv (rt_max_iterations rt) 0 new_progress) (\<lambda>(tp, n). end_of_turn sv tp n))
      (\<lambda>s rt. summary_answered s \<and> waits [] rt) exits"
    by (rule spec_and_go [OF spec_model_loop [OF assms(1)]]) (auto simp: answered_def new_progress_def intro!: spec_pure spec_prod ended)
  from specD [OF this assms(2)] assms(3) show ?thesis
    by (auto simp: run_model_tool_loop_def split: prod.splits sum.splits)
qed

section \<open>Assistant messages\<close>

definition text_of :: "content_block list \<Rightarrow> string" where
  "text_of bs = concat (map (\<lambda>b. case b of Text t \<Rightarrow> t | _ \<Rightarrow> []) bs)"

definition thinking_of :: "content_block list \<Rightarrow> string" where
  "thinking_of bs = concat (map (\<lambda>b. case b of Thinking t _ \<Rightarrow> t | _ \<Rightarrow> []) bs)"

definition text_deltas :: "assistant_event list \<Rightarrow> string" where
  "text_deltas events = concat (map (\<lambda>e. case e of TextDelta t \<Rightarrow> t | _ \<Rightarrow> []) events)"

definition thinking_deltas :: "assistant_event list \<Rightarrow> string" where
  "thinking_deltas events = concat (map (\<lambda>e. case e of ThinkingDelta t \<Rightarrow> t | _ \<Rightarrow> []) events)"

definition event_tool_uses :: "assistant_event list \<Rightarrow> tool_use list" where
  "event_tool_uses events = List.map_filter (\<lambda>e. case e of ToolUseEvent i name input \<Rightarrow> Some (i, name, input) | _ \<Rightarrow> None) events"

lemmas stream_defs = text_of_def thinking_of_def text_deltas_def thinking_deltas_def event_tool_uses_def

text \<open>What a builder has collected: the text, the thinking and the tool uses, flushed or not.\<close>

definition collected :: "assistant_builder \<Rightarrow> string \<times> string \<times> tool_use list" where
  "collected b = (text_of (ab_blocks b) @ ab_text b, thinking_of (ab_blocks b) @ ab_thinking b,
     List.map_filter block_tool_use (ab_blocks b))"

lemma collected_flush [simp]:
  "collected (flush_text_block b) = collected b" "collected (flush_thinking_block b) = collected b"
  "ab_text (flush_text_block b) = []" "ab_thinking (flush_thinking_block b) = []"
  "ab_finished (flush_text_block b) = ab_finished b" "ab_finished (flush_thinking_block b) = ab_finished b"
  by (simp_all add: collected_def flush_text_block_def flush_thinking_block_def stream_defs map_filter_snoc)

lemma flush_thinking_text: "ab_text (flush_thinking_block b) = ab_text b"
  by (simp add: flush_thinking_block_def)

lemma collected_block:
  "ab_text b = [] \<Longrightarrow> ab_thinking b = [] \<Longrightarrow> collected b = (t, th, us) \<Longrightarrow>
     collected (b\<lparr>ab_blocks := ab_blocks b @ [x]\<rparr>) =
       (t @ text_of [x], th @ thinking_of [x], us @ List.map_filter block_tool_use [x])"
  by (auto simp: collected_def text_of_def thinking_of_def map_filter_snoc map_filter_simps split: option.splits)

lemma collected_fields [simp]:
  "collected (b\<lparr>ab_text := ab_text b @ d\<rparr>) = (fst (collected b) @ d, snd (collected b))"
  "collected (b\<lparr>ab_thinking := ab_thinking b @ d\<rparr>) = (fst (collected b), fst (snd (collected b)) @ d, snd (snd (collected b)))"
  "collected (b\<lparr>ab_thinking_signature := g\<rparr>) = collected b" "collected (b\<lparr>ab_usage := u\<rparr>) = collected b"
  "collected (b\<lparr>ab_prompt_cache_events := ps\<rparr>) = collected b" "collected (b\<lparr>ab_finished := True\<rparr>) = collected b"
  by (simp_all add: collected_def)

lemma collected_step:
  "collected (assistant_step e b) =
     (case collected b of (t, th, us) \<Rightarrow> (t @ text_deltas [e], th @ thinking_deltas [e], us @ event_tool_uses [e]))"
proof -
  obtain t th us where c: "collected b = (t, th, us)" by (cases "collected b")
  have "collected (push_block x b) = (t @ text_of [x], th @ thinking_of [x], us @ List.map_filter block_tool_use [x])" for x
    unfolding push_block_def Let_def
    by (rule collected_block) (simp_all add: flush_thinking_text c)
  with c show ?thesis
    by (cases e) (simp_all add: Let_def stream_defs map_filter_simps)
qed

lemma collected_fold:
  "collected (fold assistant_step events b) =
     (case collected b of (t, th, us) \<Rightarrow> (t @ text_deltas events, th @ thinking_deltas events, us @ event_tool_uses events))"
proof (induction events arbitrary: b)
  case (Cons e events)
  then show ?case by (cases "collected b") (simp add: collected_step stream_defs map_filter_simps split: option.splits)
qed (simp add: stream_defs map_filter_simps split: prod.splits)

lemma assistant_blocks_content:
  "text_of (ab_blocks (assistant_blocks events)) = text_deltas events"
  "thinking_of (ab_blocks (assistant_blocks events)) = thinking_deltas events"
  "List.map_filter block_tool_use (ab_blocks (assistant_blocks events)) = event_tool_uses events"
proof -
  have "collected (assistant_blocks events) = (text_deltas events, thinking_deltas events, event_tool_uses events)"
    by (simp add: assistant_blocks_def collected_fold) (simp add: collected_def new_builder_def stream_defs map_filter_simps)
  moreover have "ab_text (assistant_blocks events) = []" "ab_thinking (assistant_blocks events) = []"
    by (simp_all add: assistant_blocks_def flush_thinking_text)
  ultimately show "text_of (ab_blocks (assistant_blocks events)) = text_deltas events"
    "thinking_of (ab_blocks (assistant_blocks events)) = thinking_deltas events"
    "List.map_filter block_tool_use (ab_blocks (assistant_blocks events)) = event_tool_uses events"
    by (simp_all add: collected_def)
qed

lemma finished_iff: "ab_finished (assistant_blocks events) \<longleftrightarrow> MessageStop \<in> set events"
proof -
  have "ab_finished (assistant_step e b) \<longleftrightarrow> e = MessageStop \<or> ab_finished b" for e b
    by (cases e) (simp_all add: Let_def push_block_def)
  then have "ab_finished (fold assistant_step events b) \<longleftrightarrow> MessageStop \<in> set events \<or> ab_finished b" for b
    by (induction events arbitrary: b) auto
  then show ?thesis by (simp add: assistant_blocks_def new_builder_def)
qed


section \<open>Inputs\<close>

lemma fold_queue_push: "fold queue_push xs q = q @ xs"
  by (induction xs arbitrary: q) (simp_all add: queue_push_def)

text \<open>The inputs of a kind of delivery that wait in the queue of the runtime and in the one shared with other threads.\<close>

definition external_queue :: "'e services \<Rightarrow> 'e \<Rightarrow> pending_input_queue" where
  "external_queue sv e = (case sv_external sv of None \<Rightarrow> [] | Some (queue, _) \<Rightarrow> queue e)"

definition waiting :: "pending_input_delivery \<Rightarrow> 'e services \<Rightarrow> 'e runtime \<Rightarrow> pending_input list" where
  "waiting d sv rt = filter (\<lambda>p. pi_delivery p = d) (rt_pending_inputs rt) @
     filter (\<lambda>p. pi_delivery p = d) (external_queue sv (rt_env rt))"

text \<open>
  What the first synchronisation of a session gets from the peer snapshot, and all inputs of a kind it finds then: those of
  the runtime, those of the snapshot and those of the shared queue, which may have grown while the snapshot was made.
\<close>

definition peer_inputs :: "'e services \<Rightarrow> 'e runtime \<Rightarrow> pending_input list \<times> 'e" where
  "peer_inputs sv rt =
     (if rt_peer_snapshot_injected rt then ([], rt_env rt)
      else case root_path sv (rt_session rt) of None \<Rightarrow> ([], rt_env rt) | Some cwd \<Rightarrow> sv_peer_snapshot sv cwd (rt_env rt))"

definition due :: "pending_input_delivery \<Rightarrow> 'e services \<Rightarrow> 'e runtime \<Rightarrow> pending_input list" where
  "due d sv rt = filter (\<lambda>p. pi_delivery p = d)
     (rt_pending_inputs rt @ fst (peer_inputs sv rt) @ external_queue sv (snd (peer_inputs sv rt)))"

text \<open>What is relied on of the shared queue: what is written to it is what is read.\<close>

definition shared_queue :: "'e services \<Rightarrow> bool" where
  "shared_queue sv \<longleftrightarrow> (case sv_external sv of None \<Rightarrow> True | Some (queue, set_queue) \<Rightarrow> \<forall>q e. queue (set_queue q e) = q)"

lemma other_delivery [simp]: "d \<noteq> InjectAtNextBoundary \<longleftrightarrow> d = QueueAfterTurn"
  by (cases d) simp_all

lemma drain_external:
  assumes "shared_queue sv" "drain_external sv e = (drained, e')"
  shows "drained = filter (\<lambda>p. pi_delivery p = InjectAtNextBoundary) (external_queue sv e)"
    "external_queue sv e' = filter (\<lambda>p. pi_delivery p \<noteq> InjectAtNextBoundary) (external_queue sv e)"
    "external_queue sv (restore_external sv drained e') = drained @ external_queue sv e'"
  using assms by (auto simp: drain_external_def external_queue_def shared_queue_def restore_external_def drain_boundary split: option.splits)

lemma keeps_flush_frame:
  "preserves (\<lambda>rt. log rt = ms \<and> rt_pending_inputs rt = q \<and> rt_env rt = e) flush_pending_appfs_event_cursor_updates"
proof -
  let ?I = "\<lambda>rt. log rt = ms \<and> rt_pending_inputs rt = q \<and> rt_env rt = e"
  have call: "preserves ?I (session_call_or prefix f)" if "\<And>s w r s' w'. f s w = (r, s', w') \<Longrightarrow> messages s' = messages s" for prefix and f :: "unit on_session"
    using that by (auto simp: spec_def session_call_or_def split: prod.splits sum.splits)
  show ?thesis
    unfolding flush_pending_appfs_event_cursor_updates_def
    by (intro spec_if keeps_and_go call update_event_cursors_messages update_wake_event_cursors_messages spec_go spec_get spec_set) simp_all
qed

lemma flush_frame:
  assumes "flush_pending_appfs_event_cursor_updates rt = (r, rt')"
  shows "log rt' = log rt" "rt_pending_inputs rt' = rt_pending_inputs rt" "rt_env rt' = rt_env rt"
proof -
  have "case flush_pending_appfs_event_cursor_updates rt of
      (Inl (_ :: runtime_error), rt') \<Rightarrow> log rt' = log rt \<and> rt_pending_inputs rt' = rt_pending_inputs rt \<and> rt_env rt' = rt_env rt
    | (Inr _, rt') \<Rightarrow> log rt' = log rt \<and> rt_pending_inputs rt' = rt_pending_inputs rt \<and> rt_env rt' = rt_env rt"
    by (rule keeps_flush_frame [unfolded spec_def, rule_format]) simp
  then show "log rt' = log rt" "rt_pending_inputs rt' = rt_pending_inputs rt" "rt_env rt' = rt_env rt"
    unfolding assms by (cases r; simp)+
qed

lemma inject_goes:
  obtains rt1 where "inject_peer_snapshot sv rt = (Inr (), rt1)" "log rt1 = log rt" "\<And>d. waiting d sv rt1 = due d sv rt"
    "appfs_event_cursors (rt_session rt1) = appfs_event_cursors (rt_session rt)"
    "appfs_wake_event_cursors (rt_session rt1) = appfs_wake_event_cursors (rt_session rt)"
    "rt_pending_event_cursors rt1 = rt_pending_event_cursors rt" "rt_pending_wake_cursors rt1 = rt_pending_wake_cursors rt"
proof -
  obtain new e where peer: "peer_inputs sv rt = (new, e)" by fastforce
  define rt1 where "rt1 = (if rt_peer_snapshot_injected rt then rt
    else rt\<lparr>rt_env := e, rt_pending_inputs := rt_pending_inputs rt @ new, rt_peer_snapshot_injected := True\<rparr>)"
  have go: "inject_peer_snapshot sv rt = (Inr (), rt1)"
    using peer by (auto simp: rt1_def peer_inputs_def inject_peer_snapshot_def and_go_def get_rt_def go_def set_rt_def serve_def
        fold_queue_push split: option.splits prod.splits)
  have "waiting d sv rt1 = due d sv rt" for d
    using peer by (auto simp: rt1_def waiting_def due_def peer_inputs_def)
  then show thesis by (intro that [OF go]) (simp_all add: rt1_def)
qed

text \<open>The queues after the drain, after the inputs are put back, and what one message then delivers.\<close>

abbreviation by_priority :: "pending_input list \<Rightarrow> pending_input list" where
  "by_priority \<equiv> sort_key (\<lambda>p. pending_input_source_priority (en_source (pi_envelope p)))"

definition drained_rt :: "'e services \<Rightarrow> 'e runtime \<Rightarrow> 'e runtime" where
  "drained_rt sv rt = rt\<lparr>rt_pending_inputs := snd (drain_boundary_pending_inputs (rt_pending_inputs rt)),
     rt_env := snd (drain_external sv (rt_env rt))\<rparr>"

definition put_back :: "'e services \<Rightarrow> 'e runtime \<Rightarrow> 'e runtime \<Rightarrow> 'e runtime" where
  "put_back sv rt rt2 = rt2\<lparr>rt_pending_inputs := fst (drain_boundary_pending_inputs (rt_pending_inputs rt)) @ rt_pending_inputs rt2,
     rt_env := restore_external sv (fst (drain_external sv (rt_env rt))) (rt_env rt2)\<rparr>"

lemma waiting_drained:
  assumes "shared_queue sv"
  shows "waiting InjectAtNextBoundary sv rt = fst (drain_boundary_pending_inputs (rt_pending_inputs rt)) @ fst (drain_external sv (rt_env rt))"
    "waiting InjectAtNextBoundary sv (drained_rt sv rt) = []"
    "waiting QueueAfterTurn sv (drained_rt sv rt) = waiting QueueAfterTurn sv rt"
    "waiting d sv (put_back sv rt (drained_rt sv rt)) = waiting d sv rt"
proof -
  obtain X e where X: "drain_external sv (rt_env rt) = (X, e)" by fastforce
  note ext = drain_external [OF assms X]
  show "waiting InjectAtNextBoundary sv rt = fst (drain_boundary_pending_inputs (rt_pending_inputs rt)) @ fst (drain_external sv (rt_env rt))"
    "waiting InjectAtNextBoundary sv (drained_rt sv rt) = []"
    "waiting QueueAfterTurn sv (drained_rt sv rt) = waiting QueueAfterTurn sv rt"
    using ext by (auto simp: waiting_def drain_boundary drained_rt_def X filter_empty_conv intro!: filter_cong)
  show "waiting d sv (put_back sv rt (drained_rt sv rt)) = waiting d sv rt"
    using ext by (cases d) (auto simp: waiting_def drain_boundary drained_rt_def put_back_def X filter_empty_conv intro!: filter_cong)
qed

lemma waiting_frame:
  "rt_pending_inputs rt' = rt_pending_inputs rt \<Longrightarrow> rt_env rt' = rt_env rt \<Longrightarrow> waiting d sv rt' = waiting d sv rt"
  by (simp add: waiting_def)

lemma sync_unfolded:
  assumes "inject_peer_snapshot sv rt = (Inr () :: runtime_error + unit, rt1)"
  shows "sync_pending_inputs_before_model_call sv rt =
     (let inputs = by_priority (fst (drain_boundary_pending_inputs (rt_pending_inputs rt1)) @ fst (drain_external sv (rt_env rt1)))
      in if inputs = [] then flush_pending_appfs_event_cursor_updates (drained_rt sv rt1)
         else and_go (fresh (input_router_message (input_router_block_from_pending_inputs inputs))) (\<lambda>m.
           and_go (on_error (session_call_or ''failed to sync pending routed inputs: '' (push_message m)) (put_back sv rt1)) (\<lambda>_.
             flush_pending_appfs_event_cursor_updates)) (drained_rt sv rt1))"
proof -
  obtain L R where L: "drain_boundary_pending_inputs (rt_pending_inputs rt1) = (L, R)" by fastforce
  obtain X e where X: "drain_external sv (rt_env rt1) = (X, e)" by fastforce
  have restored: "put_back sv rt1 = (\<lambda>rt. rt\<lparr>rt_pending_inputs := restore_front L (rt_pending_inputs rt),
      rt_env := restore_external sv X (rt_env rt)\<rparr>)"
    by (simp add: put_back_def L X fun_eq_iff)
  show ?thesis
    by (simp add: sync_pending_inputs_before_model_call_def assms and_go_def drain_local_def serve_def L X Let_def drained_rt_def
        restored [symmetric] del: restore_front)
qed

lemma by_priority_Nil [simp]: "by_priority ps = [] \<longleftrightarrow> ps = []"
  by (metis length_0_conv length_sort)

lemma fresh_goes:
  obtains m w where "fresh f rt = (Inr m, rt\<lparr>rt_world := w\<rparr>)" "\<exists>p p'. f p = (m, p')"
  by (cases "f (proc (rt_world rt))") (simp add: fresh_def on_process_def, blast)

text \<open>The message with the inputs is stored, or the inputs are put back.\<close>

lemma push_message_cursors:
  assumes "push_message m s w = (r, s', w')"
  shows "appfs_event_cursors s' = appfs_event_cursors s" "appfs_wake_event_cursors s' = appfs_wake_event_cursors s"
  using assms by (auto simp: push_message_def touch_def Let_def split: prod.splits sum.splits)

lemma push_inputs:
  fixes sv :: "'e services" and rt1 :: "'e runtime"
  defines "inputs \<equiv> map input_router_block (by_priority (waiting InjectAtNextBoundary sv rt1))"
  assumes "shared_queue sv" "waiting InjectAtNextBoundary sv rt1 \<noteq> []"
  obtains e rt4 where
      "and_go (fresh (input_router_message inputs)) (\<lambda>m. and_go (on_error (session_call_or prefix (push_message m)) (put_back sv rt1)) k)
        (drained_rt sv rt1) = (Inl e, put_back sv rt1 rt4)"
      "messages (rt_session rt4) = messages (rt_session rt1)"
      "rt_pending_inputs rt4 = rt_pending_inputs (drained_rt sv rt1)" "rt_env rt4 = rt_env (drained_rt sv rt1)"
      "rt_pending_event_cursors rt4 = rt_pending_event_cursors rt1" "rt_pending_wake_cursors rt4 = rt_pending_wake_cursors rt1"
      "appfs_event_cursors (rt_session rt4) = appfs_event_cursors (rt_session rt1)"
      "appfs_wake_event_cursors (rt_session rt4) = appfs_wake_event_cursors (rt_session rt1)"
  | m rt4 where
      "and_go (fresh (input_router_message inputs)) (\<lambda>m. and_go (on_error (session_call_or prefix (push_message m)) (put_back sv rt1)) k)
        (drained_rt sv rt1) = k () rt4"
      "blocks m = [InputRouter inputs]" "messages (rt_session rt4) = messages (rt_session rt1) @ [m]"
      "rt_pending_inputs rt4 = rt_pending_inputs (drained_rt sv rt1)" "rt_env rt4 = rt_env (drained_rt sv rt1)"
proof -
  obtain m w where m: "fresh (input_router_message inputs) (drained_rt sv rt1) = (Inr m :: runtime_error + _, (drained_rt sv rt1)\<lparr>rt_world := w\<rparr>)"
      and made: "\<exists>p p'. input_router_message inputs p = (m, p')"
    by (rule fresh_goes)
  have blocks: "blocks m = [InputRouter inputs]" using made by (auto simp: input_router_message_def dest: new_message_fields)
  obtain y s w' where y: "push_message m (rt_session rt1) w = (y, s, w')" by (metis prod_cases3)
  have fields: "rt_session (drained_rt sv rt1) = rt_session rt1" "rt_pending_event_cursors (drained_rt sv rt1) = rt_pending_event_cursors rt1"
    "rt_pending_wake_cursors (drained_rt sv rt1) = rt_pending_wake_cursors rt1"
    by (simp_all add: drained_rt_def)
  show thesis
  proof (cases y)
    case (Inl e)
    with y push_message_messages [OF y] push_message_cursors [OF y] show thesis
      by (intro that(1) [of "new_runtime_error (prefix @ session_error_text e)" "(drained_rt sv rt1)\<lparr>rt_session := s, rt_world := w'\<rparr>"])
        (simp_all add: and_go_def m on_error_def session_call_or_def fields)
  next
    case (Inr u)
    with y push_message_messages [OF y] blocks show thesis
      by (intro that(2) [of "(drained_rt sv rt1)\<lparr>rt_session := s, rt_world := w'\<rparr>" m])
        (simp_all add: and_go_def m on_error_def session_call_or_def fields)
  qed
qed

section \<open>Compaction\<close>

lemma open_uses_broken: "pair_step (Some []) m = None \<Longrightarrow> open_uses (m # ms) = None"
proof -
  have "foldl pair_step None ms = None" by (induction ms) simp_all
  then show "pair_step (Some []) m = None \<Longrightarrow> ?thesis" by (simp add: open_uses_def)
qed

lemma open_uses_Cons_plain: "plain m \<Longrightarrow> open_uses (m # ms) = open_uses ms"
  by (simp add: open_uses_def del: pair_step.simps)

lemma compact_session_messages:
  assumes "should_compact env s config"
  obtains r w' m where "compact_session env s config w = (Some r, w')"
    "messages (cr_compacted_session r) = m # drop (length (messages s) - preserve_recent_messages config) (messages s)"
    "plain m" "compacted_summary_prefix_len (cr_compacted_session r) = 1"
    "cr_removed_message_count r = length (messages s) - preserve_recent_messages config - compacted_summary_prefix_len s"
proof -
  define n where "n = compacted_summary_prefix_len s"
  define kept where "kept = length (messages s) - preserve_recent_messages config"
  have prefix: "(case extract_existing_compacted_summary (messages s) of Some (n, _) \<Rightarrow> n | None \<Rightarrow> 0) = n"
    by (simp add: n_def compacted_summary_prefix_len_def)
  have less: "\<not> kept < n" "n \<le> length (messages s)" "kept \<le> length (messages s)"
    using assms compacted_summary_prefix_len_le [of s] by (auto simp: should_compact_def Let_def n_def kept_def)
  obtain t opts where opts: "bo_layout opts = LegacyResumableSummary" "bo_preserved_messages opts = drop kept (messages s)"
      "bo_hook_result_messages opts = []" "bo_removed_message_count opts = kept - n"
      and run: "compact_session env s config w = (case build_compaction_result env s t opts w of (r, w') \<Rightarrow> (Some r, w'))"
  proof
    show "compact_session env s config w = (case build_compaction_result env s
       (merge_compact_summaries (map_option snd (extract_existing_compacted_summary (messages s)))
          (summarize_messages env (take (kept - n) (drop n (messages s)))))
       \<lparr>bo_preserved_messages = drop kept (messages s), bo_hook_result_messages = [], bo_preserved_segment_anchor = None,
        bo_removed_message_count = length (take (kept - n) (drop n (messages s))), bo_suppress_follow_up_questions = True,
        bo_layout = LegacyResumableSummary, bo_boundary_trigger = None, bo_user_display_message = None\<rparr> w of (r, w') \<Rightarrow> (Some r, w'))"
      using assms less by (simp only: compact_session_def prefix Let_def kept_def [symmetric] if_False not_True_eq_False simp_thms)
  qed (use less in simp_all)
  obtain r w' where r: "build_compaction_result env s t opts w = (r, w')" by fastforce
  from build_legacy [OF r opts(1)] obtain m u where m: "messages (cr_compacted_session r) = m # drop kept (messages s)"
      "role m = SystemRole" "blocks m = [Text (COMPACT_CONTINUATION_PREAMBLE @ u)]" "cr_removed_message_count r = kept - n"
    using opts by auto
  have "compacted_summary_prefix_len (cr_compacted_session r) = 1"
    using legacy_prefix [OF m(2,3), of "drop kept (messages s)"] m(1) by (auto simp: compacted_summary_prefix_len_def)
  then show thesis using that [of r w' m] run r m plain_text [OF m(3)] by (simp add: kept_def n_def)
qed

section \<open>A scripted model\<close>

text \<open>The environment is what the model will say, one list of events for each call, and the shared queue.\<close>

type_synonym script = "assistant_event list list \<times> pending_input_queue"

lemma model_loop_code [code]:
  "model_loop sv left rounds tp =
     and_go (serve (sv_is_aborted sv)) (\<lambda>aborted.
       if aborted then cancelled_turn_summary tp (rounds + 1)
       else if left = 0 then leave (Inl (new_runtime_error ''conversation loop exceeded the maximum number of iterations''))
       else and_go (model_round sv (rounds + 1) tp) (\<lambda>(tp', more).
         if more then model_loop sv (left - 1) (rounds + 1) tp' else go (tp', rounds + 1)))"
proof (cases left)
  case (Suc n)
  have "Suc n - 1 = n" "Suc n \<noteq> 0" by simp_all
  then show ?thesis unfolding Suc model_loop.simps by (simp only: if_False)
qed simp

definition quiet_hook :: hook_run_result where
  "quiet_hook = \<lparr>hk_denied = False, hk_failed = False, hk_cancelled = False, hk_messages = [], hk_permission_override = None,
     hk_permission_reason = None, hk_updated_input = None\<rparr>"

definition bare_compact_env :: compact_env where
  "bare_compact_env = \<lparr>ce_agent_output = (\<lambda>_. None), ce_skill_output = (\<lambda>_. None), ce_plan_mode_output = (\<lambda>_. None),
     ce_agent_manifest = (\<lambda>_. None), ce_todos = (\<lambda>_. None), ce_render_inputs = (\<lambda>_. []), ce_todo_store = None, ce_current_dir = None\<rparr>"

definition scripted_services :: "script services" where
  "scripted_services =
     \<lparr>sv_stream = (\<lambda>_ _ (says, q). case says of [] \<Rightarrow> (Inl (new_runtime_error ''no answer''), says, q) | x # xs \<Rightarrow> (Inr x, xs, q)),
      sv_execute = (\<lambda>_ _ _ e. (Inr (text_result ''ok''), e)),
      sv_pre_tool_use = (\<lambda>_ _ e. (quiet_hook, e)), sv_post_tool_use = (\<lambda>_ _ _ _ e. (quiet_hook, e)),
      sv_post_tool_use_failure = (\<lambda>_ _ _ e. (quiet_hook, e)), sv_session_start = (\<lambda>_ _ e. (quiet_hook, e)),
      sv_pre_compact = (\<lambda>_ e. (\<lparr>pre_new_custom_instructions = None, pre_user_display_message = None\<rparr>, e)),
      sv_post_compact = (\<lambda>_ _ e. (None, e)), sv_is_aborted = (\<lambda>e. (False, e)), sv_prompter = None,
      sv_collect_appfs = (\<lambda>_ _ e. (Inr \<lparr>as_pending_inputs = [], as_cursor_updates = [], as_wake_cursor_updates = []\<rparr>, e)),
      sv_peer_snapshot = (\<lambda>_ e. ([], e)), sv_external = Some (snd, \<lambda>q e. (fst e, q)), sv_current_dir = None,
      sv_var = (\<lambda>_. None), sv_percent = (\<lambda>_. None), sv_compact = bare_compact_env, sv_json = no_json\<rparr>"

definition memory_session :: "conversation_message list \<Rightarrow> session" where
  "memory_session ms = \<lparr>version = 1, session_id = ''s'', created_at_ms = 3, updated_at_ms = 4, messages = ms, compaction = None,
     fork = None, workspace_root = None, prompt_history = [], invoked_skills = [], appfs_event_cursors = [],
     appfs_wake_event_cursors = [], appfs_principal_id = None, model = None, persistence = None\<rparr>"

definition calm_world :: world where
  "calm_world = \<lparr>proc = \<lparr>wall = (\<lambda>n. 1700000000000 + n), clock_reads = 0, entropy = (\<lambda>_. Some (replicate 16 7)), draws = 0,
       last_timestamp_ms = 0, session_id_counter = 0, message_id_counter = 0\<rparr>,
     disk = [], fault = (\<lambda>_. None), stamp = (\<lambda>n. n), unreadable = (\<lambda>_. False), ios = 0\<rparr>"

definition scripted_runtime :: "pending_input list \<Rightarrow> script \<Rightarrow> script runtime" where
  "scripted_runtime q e = with_max_iterations 3
     ((new_runtime (memory_session []) demo_policy [] calm_world e)\<lparr>rt_pending_inputs := q\<rparr>)"

definition two_calls :: script where
  "two_calls = ([[TextDelta ''look'', ToolUseEvent ''t1'' ''bash'' ''git status'', ToolUseEvent ''t2'' ''bash'' ''rm -rf x'', MessageStop],
     [TextDelta ''ok'', MessageStop]], [])"

definition routed :: "input_source \<Rightarrow> string \<Rightarrow> pending_input_delivery \<Rightarrow> pending_input" where
  "routed source t d = \<lparr>pi_envelope = new_envelope source ''note'' t, pi_delivery = d\<rparr>"

definition bare_message :: "message_role \<Rightarrow> content_block \<Rightarrow> conversation_message" where
  "bare_message r b = \<lparr>uuid = ''m'', role = r, blocks = [b], usage = None, subtype = None,
     compact_metadata = None, attachment_metadata = None, hook_result_metadata = None, is_compact_summary = False,
     is_visible_in_transcript_only = False, timestamp_ms = 5\<rparr>"

definition tool_talk :: session where
  "tool_talk = memory_session [bare_message AssistantRole (ToolUse ''t1'' ''bash'' ''ls''), bare_message ToolRole (ToolResult ''t1'' ''bash'' ''a'' False)]"

lemma scripted_plain: "adds_plain_messages scripted_services"
  by (auto simp: adds_plain_messages_def scripted_services_def text_result_def)

section \<open>Properties\<close>

text \<open>
  C29. A turn answers every tool use. When the log of the session has no tool use without a result and the tools add
  only messages without uses and results, then after \<open>run_turn\<close> returns a summary, cancelled or not, the log has
  again no open tool use: each assistant message that uses tools is followed by one result for each of its
  uses, in their order, before any other message. The results of the summary are those of the uses
  in its assistant messages, in order. When the turn ends with an error, no result stands in the log
  without its use and no message stands between a use and its result.
\<close>

theorem turn_answers_tool_uses:
  assumes "adds_plain_messages sv" "open_uses (messages (rt_session rt)) = Some []" "run_turn sv input rt = (r, rt')"
  shows "case r of
      Inl e \<Rightarrow> open_uses (messages (rt_session rt')) \<noteq> None
    | Inr summary \<Rightarrow> open_uses (messages (rt_session rt')) = Some [] \<and>
        concat (map result_ids (ts_tool_results summary)) = concat (map use_ids (ts_assistant_messages summary))"
proof -
  obtain x rt1 where x: "session_call_or [] (push_user_text input) rt = (x, rt1)" by fastforce
  obtain m w1 where m: "on_process (user_text input) (rt_world rt) = (m, w1)" by fastforce
  have "plain m" using m made_plain(1) by (auto simp: on_process_def split: prod.splits)
  moreover have "session_call_or [] (push_message m) (rt\<lparr>rt_world := w1\<rparr>) = (x, rt1)"
    using x m by (simp add: session_call_or_def push_user_text_def split: prod.splits)
  ultimately have "waits [] rt1"
    using specD [OF paired.push_plain [of m "[]"], of "rt\<lparr>rt_world := w1\<rparr>"] assms(2) by (cases x) auto
  then have "exits r rt'" using assms(3) x loop_answers [OF assms(1), of rt1]
    by (cases x) (auto simp: run_turn_def)
  then show ?thesis by (cases r) (simp_all add: unbroken_def summary_answered_def)
qed

theorem turn_answers_tool_uses_witness:
  "case run_turn scripted_services ''go'' (scripted_runtime [] two_calls) of
     (Inl _, _) \<Rightarrow> False
   | (Inr summary, rt') \<Rightarrow> open_uses (messages (rt_session rt')) = Some [] \<and>
       concat (map result_ids (ts_tool_results summary)) = [''t1'', ''t2'']"
proof -
  obtain r rt' where run: "run_turn scripted_services ''go'' (scripted_runtime [] two_calls) = (r, rt')" by fastforce
  have "case run_turn scripted_services ''go'' (scripted_runtime [] two_calls) of (Inl _, _) \<Rightarrow> False
      | (Inr summary, _) \<Rightarrow> concat (map use_ids (ts_assistant_messages summary)) = [''t1'', ''t2'']" by code_simp
  moreover have "open_uses (messages (rt_session (scripted_runtime [] two_calls))) = Some []" by code_simp
  ultimately show ?thesis
    using turn_answers_tool_uses [OF scripted_plain _ run] by (simp add: run split: sum.splits)
qed

text \<open>
  C30. A tool call that a deny rule of the policy matches is never run. Whatever the executor would do for such
  a call, the turn is the same as with an executor that refuses it, for every model, prompter, hook and input.
\<close>

theorem denied_calls_not_executed:
  "run_turn (sv\<lparr>sv_execute := guarded_execute sv (rt_permission_policy rt)\<rparr>) input rt = run_turn sv input rt"
  by (rule guarded.same_turn) simp

text \<open>
  C32. The message that is made of a stream of events holds all of it: the texts of its text blocks joined are the
  text deltas joined, so for the thinking, and its tool uses are those of the stream in order. It is
  made exactly when the stream has a stop event and some content.
\<close>

theorem assistant_message_content:
  "case build_assistant_message events rt of
     (Inl e, rt') \<Rightarrow> rt' = rt \<and> (MessageStop \<notin> set events \<or> ab_blocks (assistant_blocks events) = [] \<and>
        text_deltas events = [] \<and> thinking_deltas events = [] \<and> event_tool_uses events = [])
   | (Inr (m, u, cache_events), rt') \<Rightarrow> MessageStop \<in> set events \<and> blocks m \<noteq> [] \<and> role m = AssistantRole \<and> usage m = u \<and>
        text_of (blocks m) = text_deltas events \<and> thinking_of (blocks m) = thinking_deltas events \<and>
        pending_tool_uses m = event_tool_uses events \<and> rt_session rt' = rt_session rt"
proof -
  let ?b = "assistant_blocks events"
  obtain m w where m: "on_process (assistant_with_usage (ab_blocks ?b) (ab_usage ?b)) (rt_world rt) = (m, w)" by fastforce
  then have fields: "role m = AssistantRole" "blocks m = ab_blocks ?b" "usage m = ab_usage ?b"
    by (auto simp: on_process_def assistant_with_usage_def dest: new_message_fields split: prod.splits)
  have empty: "text_deltas events = []" "thinking_deltas events = []" "event_tool_uses events = []" if "ab_blocks ?b = []"
    using assistant_blocks_content [of events] that by (simp_all add: text_of_def thinking_of_def map_filter_simps)
  consider "\<not> ab_finished ?b" | "ab_finished ?b" "ab_blocks ?b = []" | "ab_finished ?b" "ab_blocks ?b \<noteq> []" by blast
  then show ?thesis
  proof cases
    case 1
    then show ?thesis by (simp add: build_assistant_message_def Let_def leave_def finished_iff)
  next
    case 2
    then show ?thesis by (simp add: build_assistant_message_def Let_def leave_def empty)
  next
    case 3
    then show ?thesis
      by (simp add: build_assistant_message_def Let_def and_go_def go_def fresh_def m fields assistant_blocks_content
          pending_tool_uses_def finished_iff)
  qed
qed

theorem assistant_message_content_witness:
  "case build_assistant_message [TextDelta ''a'', ThinkingDelta ''b'', TextDelta ''c'', ToolUseEvent ''t1'' ''bash'' ''ls'', MessageStop]
       (scripted_runtime [] two_calls) of
     (Inl _, _) \<Rightarrow> False
   | (Inr (m, _), _) \<Rightarrow> text_of (blocks m) = ''ac'' \<and> thinking_of (blocks m) = ''b'' \<and> pending_tool_uses m = [(''t1'', ''bash'', ''ls'')]"
  using assistant_message_content [of "scripted_runtime [] two_calls"
      "[TextDelta ''a'', ThinkingDelta ''b'', TextDelta ''c'', ToolUseEvent ''t1'' ''bash'' ''ls'', MessageStop]"]
  by (auto simp: stream_defs map_filter_simps split: prod.splits sum.splits)

text \<open>
  C31. No pending input is lost or skipped on the way to the model. Before a model call the inputs for the next boundary,
  those that wait in the runtime, those the peer snapshot gives at the first call and those of the queue shared with other threads, are all written to the
  session in one message, ordered by their source and otherwise as they arrived, and none is left waiting;
  or, when there is none or the message cannot be stored, the log is unchanged and every input still waits
  in its order, and in the second case the cursors of the event streams have not moved, neither those of the session nor
  those still to be written. Inputs for the end of the turn wait on in either case.
\<close>

theorem inputs_delivered_or_kept:
  assumes "shared_queue sv" "sync_pending_inputs_before_model_call sv rt = (r, rt')"
  shows "waiting QueueAfterTurn sv rt' = due QueueAfterTurn sv rt \<and>
    (waiting InjectAtNextBoundary sv rt' = [] \<and> due InjectAtNextBoundary sv rt \<noteq> [] \<and>
       (\<exists>m. messages (rt_session rt') = messages (rt_session rt) @ [m] \<and>
         blocks m = [InputRouter (map input_router_block
           (sort_key (\<lambda>p. pending_input_source_priority (en_source (pi_envelope p))) (due InjectAtNextBoundary sv rt)))])
     \<or> waiting InjectAtNextBoundary sv rt' = due InjectAtNextBoundary sv rt \<and>
       messages (rt_session rt') = messages (rt_session rt) \<and>
       (due InjectAtNextBoundary sv rt = [] \<or>
         isl r \<and> appfs_event_cursors (rt_session rt') = appfs_event_cursors (rt_session rt) \<and>
         appfs_wake_event_cursors (rt_session rt') = appfs_wake_event_cursors (rt_session rt) \<and>
         rt_pending_event_cursors rt' = rt_pending_event_cursors rt \<and> rt_pending_wake_cursors rt' = rt_pending_wake_cursors rt))"
proof -
  obtain rt1 where inject: "inject_peer_snapshot sv rt = (Inr () :: runtime_error + unit, rt1)" "log rt1 = log rt"
      "\<And>d. waiting d sv rt1 = due d sv rt"
    and cursors: "appfs_event_cursors (rt_session rt1) = appfs_event_cursors (rt_session rt)"
      "appfs_wake_event_cursors (rt_session rt1) = appfs_wake_event_cursors (rt_session rt)"
      "rt_pending_event_cursors rt1 = rt_pending_event_cursors rt" "rt_pending_wake_cursors rt1 = rt_pending_wake_cursors rt"
    by (rule inject_goes [of sv rt, where ?'b = runtime_error]) blast
  note w = waiting_drained [OF assms(1), where rt = rt1]
  let ?inputs = "by_priority (waiting InjectAtNextBoundary sv rt1)"
  let ?rt2 = "drained_rt sv rt1"
  have log2: "log ?rt2 = log rt" using inject(2) by (simp add: drained_rt_def)
  show ?thesis
  proof (cases "waiting InjectAtNextBoundary sv rt1 = []")
    case True
    then have "flush_pending_appfs_event_cursor_updates ?rt2 = (r, rt')"
      using assms(2) by (simp add: sync_unfolded [OF inject(1)] w(1))
    note f = flush_frame [OF this]
    then show ?thesis using True w(2,3) log2 waiting_frame [OF f(2,3)] inject(3) by metis
  next
    case False
    have run: "sync_pending_inputs_before_model_call sv rt =
        and_go (fresh (input_router_message (map input_router_block ?inputs))) (\<lambda>m. and_go
          (on_error (session_call_or ''failed to sync pending routed inputs: '' (push_message m)) (put_back sv rt1)) (\<lambda>_.
             flush_pending_appfs_event_cursor_updates)) ?rt2"
      using False by (simp add: sync_unfolded [OF inject(1)] w(1) [symmetric] Let_def input_router_block_from_pending_inputs_def)
    show ?thesis
    proof (rule push_inputs [OF assms(1) False, where k = "\<lambda>_. flush_pending_appfs_event_cursor_updates"
          and prefix = "''failed to sync pending routed inputs: ''"], goal_cases)
      case (1 e rt4)
      then have "waiting d sv (put_back sv rt1 rt4) = waiting d sv (put_back sv rt1 ?rt2)" for d
        by (simp add: put_back_def waiting_def)
      with 1 show ?case using assms(2) run w(4) inject(2,3) cursors by (auto simp: put_back_def)
    next
      case (2 m rt4)
      then have "flush_pending_appfs_event_cursor_updates rt4 = (r, rt')" using assms(2) run by simp
      note f = flush_frame [OF this]
      have "waiting d sv rt' = waiting d sv ?rt2" for d
        using f 2 by (simp add: waiting_def)
      with 2 show ?case using False w(2,3) f(1) inject(2,3) by simp
    qed
  qed
qed

theorem inputs_delivered_or_kept_witness:
  "\<exists>r rt' m. sync_pending_inputs_before_model_call scripted_services
      (scripted_runtime [routed AgentMessage ''a'' InjectAtNextBoundary, routed UserTerminal ''b'' QueueAfterTurn]
        ([], [routed UserTerminal ''c'' InjectAtNextBoundary])) = (r, rt') \<and>
     waiting QueueAfterTurn scripted_services rt' = [routed UserTerminal ''b'' QueueAfterTurn] \<and>
     messages (rt_session rt') = [m] \<and>
     blocks m = [InputRouter (map input_router_block
       [routed UserTerminal ''c'' InjectAtNextBoundary, routed AgentMessage ''a'' InjectAtNextBoundary])]"
proof -
  let ?rt = "scripted_runtime [routed AgentMessage ''a'' InjectAtNextBoundary, routed UserTerminal ''b'' QueueAfterTurn]
    ([], [routed UserTerminal ''c'' InjectAtNextBoundary])"
  obtain r rt' where r: "sync_pending_inputs_before_model_call scripted_services ?rt = (r, rt')" by fastforce
  have shared: "shared_queue scripted_services" by (simp add: shared_queue_def scripted_services_def)
  have "due QueueAfterTurn scripted_services ?rt = [routed UserTerminal ''b'' QueueAfterTurn]"
    "due InjectAtNextBoundary scripted_services ?rt \<noteq> []" by code_simp+
  moreover have "sort_key (\<lambda>p. pending_input_source_priority (en_source (pi_envelope p))) (due InjectAtNextBoundary scripted_services ?rt) =
      [routed UserTerminal ''c'' InjectAtNextBoundary, routed AgentMessage ''a'' InjectAtNextBoundary]" by code_simp
  moreover have "\<not> isl (fst (sync_pending_inputs_before_model_call scripted_services ?rt))" "messages (rt_session ?rt) = []" by code_simp+
  ultimately show ?thesis
    using inputs_delivered_or_kept [OF shared r] r by auto
qed

text \<open>
  C33. Compaction of a session that is due for it returns, preserves the most recent messages as many as configured, word for
  word and in order, puts one summary in front that later calls recognise as such, reports how
  many messages went into it, at least one, and leaves a session that is not due again.
\<close>

theorem compact_session_keeps_recent:
  assumes "should_compact env s config"
  shows "\<exists>r w' summary recent. compact_session env s config w = (Some r, w') \<and>
    messages (cr_compacted_session r) = summary # recent \<and> length recent = preserve_recent_messages config \<and>
    (\<exists>old. messages s = old @ recent \<and> 0 < cr_removed_message_count r \<and>
       length old = compacted_summary_prefix_len s + cr_removed_message_count r) \<and>
    compacted_summary_prefix_len (cr_compacted_session r) = 1 \<and> \<not> should_compact env (cr_compacted_session r) config"
proof -
  let ?from = "length (messages s) - preserve_recent_messages config"
  from compact_session_messages [OF assms] obtain r w' m where r: "compact_session env s config w = (Some r, w')"
    "messages (cr_compacted_session r) = m # drop ?from (messages s)"
    "compacted_summary_prefix_len (cr_compacted_session r) = 1"
    "cr_removed_message_count r = ?from - compacted_summary_prefix_len s" by metis
  have due: "preserve_recent_messages config < length (messages s) - compacted_summary_prefix_len s"
    using assms by (simp add: should_compact_def Let_def)
  have "\<not> should_compact env (cr_compacted_session r) config"
    using r(2,3) due by (simp add: should_compact_def Let_def)
  moreover have "messages s = take ?from (messages s) @ drop ?from (messages s)" by simp
  ultimately show ?thesis using r due
    by (intro exI [of _ r] exI [of _ w'] exI [of _ m] exI [of _ "drop ?from (messages s)"] conjI exI [of _ "take ?from (messages s)"]) auto
qed

theorem compact_session_keeps_recent_witness:
  "\<exists>r w' summary. compact_session bare_compact_env tool_talk \<lparr>preserve_recent_messages = 1, max_estimated_tokens = 1\<rparr> calm_world = (Some r, w') \<and>
     messages (cr_compacted_session r) = [summary, bare_message ToolRole (ToolResult ''t1'' ''bash'' ''a'' False)]"
proof -
  have "should_compact bare_compact_env tool_talk \<lparr>preserve_recent_messages = 1, max_estimated_tokens = 1\<rparr>" by code_simp
  from compact_session_keeps_recent [OF this, of calm_world] show ?thesis
    by (auto simp: tool_talk_def memory_session_def length_Suc_conv append_eq_Cons_conv)
qed

text \<open>
  C34. Compaction counts messages and does not look at their content: when the oldest message that is kept is a
  tool result, its tool use goes into the summary and the compacted session has a result without a
  use, although the session had none.
\<close>

theorem compaction_cuts_tool_pair:
  assumes "should_compact env s config" "messages s = old @ m # later"
    "Suc (length later) = preserve_recent_messages config" "result_ids m \<noteq> []"
    "compact_session env s config w = (Some r, w')"
  shows "open_uses (messages (cr_compacted_session r)) = None"
proof -
  from compact_session_messages [OF assms(1)] assms(5) obtain h where
    "messages (cr_compacted_session r) = h # drop (length (messages s) - preserve_recent_messages config) (messages s)" "plain h"
    by (metis option.inject prod.inject)
  then have "messages (cr_compacted_session r) = h # m # later" "plain h" using assms(2,3) by simp_all
  then show ?thesis using assms(4) open_uses_broken [of m later] by (simp add: open_uses_Cons_plain)
qed

theorem compaction_cuts_tool_pair_witness:
  "open_uses (messages tool_talk) = Some [] \<and>
   (\<exists>r w'. compact_session bare_compact_env tool_talk \<lparr>preserve_recent_messages = 1, max_estimated_tokens = 1\<rparr> calm_world = (Some r, w') \<and>
     open_uses (messages (cr_compacted_session r)) = None)"
proof -
  have due: "should_compact bare_compact_env tool_talk \<lparr>preserve_recent_messages = 1, max_estimated_tokens = 1\<rparr>" by code_simp
  obtain r w' where r: "compact_session bare_compact_env tool_talk \<lparr>preserve_recent_messages = 1, max_estimated_tokens = 1\<rparr> calm_world = (Some r, w')"
    by (rule compact_session_messages [OF due])
  have "open_uses (messages tool_talk) = Some []" by code_simp
  moreover have "result_ids (bare_message ToolRole (ToolResult ''t1'' ''bash'' ''a'' False)) \<noteq> []" by code_simp
  ultimately show ?thesis
    using compaction_cuts_tool_pair [OF due _ _ _ r, of "[bare_message AssistantRole (ToolUse ''t1'' ''bash'' ''ls'')]"
        "bare_message ToolRole (ToolResult ''t1'' ''bash'' ''a'' False)" "[]"] r
    by (simp add: tool_talk_def memory_session_def)
qed

text \<open>
  The threshold of automatic compaction is never zero and, when it is not fixed by the user, never above the
  context window, whatever the window, the percentage and the output limit; and the model is never asked for a summary of
  no token or of more than the limit.
\<close>

theorem compaction_thresholds:
  "1 \<le> auto_compaction_threshold_with_overrides config None window_override percent_override \<and>
    auto_compaction_threshold_with_overrides config None window_override percent_override \<le>
      max (effective_auto_compaction_context_window config window_override) 1 \<and>
    1 \<le> compact_summary_max_output_tokens sv config s rq \<and>
    compact_summary_max_output_tokens sv config s rq \<le> MAX_OUTPUT_TOKENS_FOR_SUMMARY"
proof -
  define window where "window = effective_auto_compaction_context_window config window_override"
  let ?r = "min (min (ac_max_output_tokens config) MAX_OUTPUT_TOKENS_FOR_SUMMARY) window"
  let ?b = "u32_sat_sub (u32_sat_sub window ?r) AUTOCOMPACT_BUFFER_TOKENS"
  define base where "base = max (if 0 < ?b then ?b else u32_sat_mul window 4 div 5) 1"
  have "?b \<le> window" using u32_sat_sub_le order_trans by blast
  then have base: "1 \<le> base" "base \<le> max window 1"
    using u32_sat_mul_div_le [of window] by (auto simp: base_def le_max_iff_disj)
  have "auto_compaction_threshold_with_overrides config None window_override percent_override =
      (case percent_override of Some percent \<Rightarrow> min (max (percent window) 1) base | None \<Rightarrow> base)"
    unfolding auto_compaction_threshold_with_overrides_def Let_def window_def [symmetric] base_def option.case ..
  then have "1 \<le> auto_compaction_threshold_with_overrides config None window_override percent_override"
    "auto_compaction_threshold_with_overrides config None window_override percent_override \<le> max window 1"
    using base by (auto simp: min_le_iff_disj split: option.splits)
  moreover have "1 \<le> compact_summary_max_output_tokens sv config s rq"
    "compact_summary_max_output_tokens sv config s rq \<le> MAX_OUTPUT_TOKENS_FOR_SUMMARY"
    by (simp_all add: compact_summary_max_output_tokens_def Let_def not_less MAX_OUTPUT_TOKENS_FOR_SUMMARY_def del: word_less_1)
  ultimately show ?thesis unfolding window_def by blast
qed

end
