(* ===== verification/Spec2Isabelle.thy ===== *)
theory Spec2Isabelle
  imports File_Contract Fs_Faults Overlay_Contract Appfs_Adapter Bash_Validation Agent_Session_Contract Agent_Turn_Contract
begin

text \<open>
  A verification of the AppFS platform: the AgentFS file system of its SDK
  (\<open>src/appfs/sdk/rust/src/filesystem\<close>), parts of the AppFS runtime on top of it
  (\<open>src/appfs/cli/src/cmd/appfs\<close>), and the permission checks, the JSON library, the sessions and the
  conversation loop of the agent that works in it
  (\<open>src/appfs-agent/rust/crates/runtime/src\<close>).

  \<^bold>\<open>The program.\<close> AgentFS keeps a file system in a SQL database: inodes, directory entries,
  file data cut into chunks of a fixed size, symbolic link targets and a configuration table.
  It has two interfaces over the same tables, one by inode number for mounts
  (the trait \<open>FileSystem\<close>) and one by path for the SDK, and a least-recently-used cache of
  directory entries shared between them. The AppFS runtime exposes applications as trees of
  files; clients act by appending JSON lines to action files, the runtime reads on from a stored
  cursor and hands every line to a handler, which talks to the application over a bridge.

  \<^bold>\<open>Shared theories.\<close> \<open>Rust_Prelude\<close>: machine integers, vectors, SQL tables as association
  lists. \<open>Rust_Text\<close>: the functions of \<open>str\<close> and \<open>char\<close> the sources call, UTF-8 included;
  a Rust string is the list of its bytes. \<open>Rust_Words\<close>: texts as lists of words, what splitting and searching them gives.

  \<^bold>\<open>AgentFS\<close> (\<open>filesystem/mod.rs\<close>, \<open>filesystem/agentfs.rs\<close>, \<open>error.rs\<close>).
  \<open>Fs_Types\<close>: errors, mode bits, attributes. \<open>Fs_Tables\<close>: the record \<open>db\<close> of the five tables,
  the statements, schema initialisation. \<open>File_Content\<close>: \<open>AgentFSFile\<close> (\<open>pread\<close>, \<open>pwrite\<close>,
  \<open>truncate\<close>) over chunks, and the invariant \<open>file_inv\<close>; \<open>File_Contract\<close>: the locale of a file
  as a sequence of bytes, its consequences, and its interpretation \<open>chunked\<close> on the handle
  operations. \<open>Fs_Paths\<close>, \<open>Dentry_Cache\<close>: paths, the cache (a locale of cache laws; the crate
  \<open>lru\<close> is the parameter \<open>lru_ops\<close>) and path resolution. \<open>Fs_Namespace\<close>: the methods of the
  trait. \<open>Fs_Invariant\<close>, \<open>Fs_Preservation\<close>, \<open>Fs_Reachable\<close>: consistency of the tables
  (\<open>wf_db\<close>, \<open>good\<close>), one preservation lemma per method, the reachable states.
  \<open>Fs_Behaviour\<close>: effects of single methods. \<open>Fs_Faults\<close>: the methods that change names statement by statement, where any
  statement may fail; without a failure they are the functions of \<open>Fs_Namespace\<close>. \<open>Fs_Path_Ops\<close>: the path-based methods;
  \<open>Fs_Path_Contract\<close>, \<open>Fs_Dense\<close>: what they do to contents; \<open>Fs_Path_Reachable\<close>: they keep
  the same consistency, in any mixture with the trait's methods. The reachable states are those of calls that meet side
  conditions (\<open>call_ok\<close>, \<open>path_call_ok\<close>), which the code leaves to its callers. \<open>Fs_Examples\<close>: the concrete
  instance the witnesses use. Time stamps are arguments; transactions are the statements in
  order with roll-back on error. Outside \<open>Fs_Faults\<close> a statement fails only for a violated constraint.

  \<^bold>\<open>OverlayFS\<close> (\<open>filesystem/overlayfs.rs\<close>). \<open>State_Result\<close>: methods that change a state and may
  fail, with triples whose rules follow the shape of a method. \<open>Overlay_Fs\<close>: the record
  \<open>overlayfs\<close> and every method; the delta is the AgentFS above, the base (any \<open>dyn FileSystem\<close>) is the
  parameter \<open>base_fs\<close>, the clock is a stream in the state. \<open>Overlay_Numbers\<close>: the maps of inode
  numbers and the tables agree (\<open>ov_ok\<close>); the locale \<open>kept\<close> carries a property of the state over walks
  and copy-ups, and is interpreted three times. \<open>Overlay_Delta\<close>, \<open>Overlay_Copy_Up\<close>: what the
  delta's methods and a copy-up add (\<open>grows\<close>, \<open>copied\<close>). \<open>Overlay_Reachable\<close>, \<open>Overlay_Sequences\<close>: paths,
  the consistency of the delta, sequences of calls, each with a base of a given set, since the numbers of \<open>HostFS\<close> change
  with its lookups, and of remounts, which open the delta's database again. \<open>Overlay_Behaviour\<close>,
  \<open>Overlay_Content\<close>: the merged tree as a specification on lists of names (\<open>merged_child\<close>), lookups against it, listings,
  removals and first openings. \<open>Overlay_Examples\<close>: an AgentFS meets what is assumed of a
  base. \<open>Overlay_Contract\<close>: the properties.

  \<^bold>\<open>AppFS runtime.\<close> \<open>Appfs_Shared\<close> (\<open>shared.rs\<close>), \<open>Action_Dispatcher\<close>
  (\<open>action_dispatcher.rs\<close>), \<open>Action_Consumer\<close> (\<open>action_consumer.rs\<close>): lines, payloads,
  requests, cursors, one pass over the sinks; \<open>Action_Delivery\<close>: delivery of a sink's lines
  against the list of its complete lines, with a log of every call of the handler and its answer. \<open>serde_json\<close> (the record \<open>json_lib\<close>), the handler and
  request identifiers are parameters. \<open>Appfs_Adapter\<close> (\<open>core.rs\<close>, \<open>events.rs\<close>, \<open>paging.rs\<close>): the
  handler that is there in the program, with the event stream, whose writes may fail and leave a torn line, the sequence
  numbers at 64 bits and the paging handles; the routes to snapshots, scopes, structure and credentials are one function on the whole
  adapter. \<open>Bridge_Resilience\<close> (\<open>bridge_resilience.rs\<close> and the request
  loops of the HTTP and gRPC bridges): retries, pauses, metrics, circuit breaker; the transport
  and the clock are parameters.

  \<^bold>\<open>Agent policy.\<close> \<open>Json_Values\<close>: JSON values. \<open>Agent_Permissions\<close> (\<open>permissions.rs\<close>,
  \<open>permission_enforcer.rs\<close> of \<open>src/appfs-agent/rust/crates/runtime\<close>): rules, modes, hook overrides
  and the decision about a tool call; the prompter is a parameter with a state. \<open>Bash_Validation\<close>
  (\<open>bash_validation.rs\<close>): the validation of shell commands; panics and calls that do not return
  are values.

  \<^bold>\<open>Agent sessions.\<close> \<open>Agent_Json\<close> (\<open>json.rs\<close>): the JSON values of the agent, rendering and the
  recursive-descent parser; \<open>Agent_Json_Roundtrip\<close>: what rendering writes is what parsing reads.
  \<open>Agent_Session\<close> (\<open>session.rs\<close>): messages, the parts of a session, and their JSON form;
  \<open>Agent_Session_Codec\<close>: which values survive it. \<open>Agent_Session_Store\<close>: the JSONL file, saving with
  rotation and clean-up, appending, and the operations that change a session and its file. The
  record \<open>process\<close> holds the clock, the random source and the counters of the process, the record
  \<open>world\<close> the files and the faults: every file operation may fail, a write after any number of
  bytes. A path is its directory and its file name. \<open>Agent_Session_Persistence\<close>: files as lists of
  records (the locale \<open>line_format\<close>, interpreted on the JSON lines) and what replaying them gives;
  \<open>Agent_Session_Files\<close>: the outcomes of a save; \<open>Agent_Session_Contract\<close>: runs of a session, and the
  properties.

  \<^bold>\<open>Agent conversation.\<close> \<open>Agent_Input_Queue\<close> (\<open>input_router.rs\<close>): inputs that arrive during a turn, and their
  queue. \<open>Agent_Compact\<close> (\<open>compact.rs\<close>): summaries and the layouts of a compacted session. \<open>Agent_Usage\<close>
  (\<open>usage.rs\<close>): token counts at 32 bits and the thresholds of compaction. \<open>Agent_Conversation\<close>, \<open>Agent_Turn\<close>
  (\<open>conversation.rs\<close>): the record \<open>runtime\<close>, methods that may leave early, and the loop of a turn; the model, the
  tools, the hooks, the prompter, the abort signal and the AppFS events are functions of the record
  \<open>services\<close> on a state of their own. \<open>Agent_Turn_Rules\<close>: triples for methods and the sameness of two methods;
  \<open>Agent_Turn_Pairing\<close>: tool uses and results, with the locale \<open>log_inv\<close> for what plain messages keep,
  interpreted on the log without open uses; \<open>Agent_Turn_Frame\<close>: the policy is kept, and the locale
  \<open>denied_calls\<close>, interpreted on an executor that refuses denied calls; \<open>Agent_Turn_Contract\<close>: the properties.

  \<^bold>\<open>What is shown.\<close> Contents: reads, writes and truncations through handles refine operations
  on a sequence of bytes. Name space: all reachable states are consistent, path
  resolution through the cache is the walk through the entries, link counts are exact, effects
  of single methods and of failed ones, what a failing statement leaves behind, path normalisation.
  Path interface: mixed use keeps consistency and equals the handle interface where it promises
  to. Overlay: all reachable states are consistent, lookups and listings show the
  merged tree, removed names are gone, a copied-up file has the content of the base,
  and three places where the code does not do what it means to.
  Actions: every line is handed over in order and taken exactly once, completeness, independence of the number of passes,
  rewritten sinks. Adapter: the event stream and the handles under paging requests, access to pages,
  streaming jobs. Bridges: bounds on attempts and pauses, accounting, tripping.
  Permissions: deny rules are final, what is allowed was granted, monotonicity,
  and two places where the code is weaker than it means to be. Shell commands: when
  the validation returns, and what passes it. Sessions: JSON values are read back as written, a
  saved session is loaded back, the file follows the session in memory, a failing save
  loses no text, rotated files are bounded, and what a torn append does. Conversation: every tool use is
  answered, denied calls are never run, pending inputs are delivered or kept, assistant messages
  hold their stream, what compaction keeps and what it breaks, and the bounds of its thresholds.

  \<^bold>\<open>Loops and bounds.\<close> All loops are total: over chunk rows, path components, lines of a sink
  (each consumes at least one byte), at most 32 recovered lines, at most
  \<open>max_retries + 1\<close> attempts, at most 40 symbolic links. The JSON parser is the only function with fuel:
  \<open>parse\<close> gives twice the number of characters plus one, and \<open>json_parse_returns\<close> shows that this is enough for
  every text. The one function that may not return,
  \<open>validate_read_only\<close>, is a \<open>partial_function\<close>, and \<open>read_only_validation_returns\<close> says when it does. Offsets and sizes are
  below 2 to the power 63 where the source casts them to signed integers.

  \<^bold>\<open>Not modelled.\<close> Concurrency inside the database library and its connection pool, the host
  file system, FUSE and NFS servers, bulk import and tree queries, the key-value
  store and tool-call log, snapshots, registry and tree synchronisation of the runtime, the tinode
  connector, the rest of the agent (\<open>src/appfs-agent\<close>: its command line, tools, plugins and API
  clients; of the conversation the session tracer, the text shown to the model for routed inputs, costs and percentages
  in floating point), and the TypeScript parts. Mounts and connectors are mostly calls to other systems.
\<close>

unbundle bit_operations_syntax

section \<open>File contents\<close>

text \<open>
  C1. Reading through a handle returns exactly the bytes of the file in the requested range,
  cut at the end of the file: holes and short chunks read as zeros.
\<close>

theorem pread_refines:
  assumes "file_inv f d"
  shows "file_pread f offset want d = Inr (take want (drop offset (content (f_chunk_size f) (f_ino f) d)))"
  using assms by (rule chunked.rd_bytes)

theorem pread_refines_witness:
  "file_inv demo_file demo_db \<and>
   file_pread demo_file 1 4 demo_db = Inr (take 4 (drop 1 (content 4 2 demo_db)))"
  using pread_refines [OF demo_file_inv, of 1 4] demo_file_inv by (simp add: demo_file_def)

text \<open>
  C2. Writing through a handle succeeds, keeps the representation invariant and replaces
  exactly the bytes of the written range; a gap between the old end and the offset becomes
  zeros.
\<close>

theorem pwrite_refines:
  assumes "file_inv f d" and "offset + length data < 2 ^ 63"
  shows "fst (file_pwrite f now offset data d) = Inr () \<and>
    file_inv f (snd (file_pwrite f now offset data d)) \<and>
    content (f_chunk_size f) (f_ino f) (snd (file_pwrite f now offset data d)) =
      af_write offset data (content (f_chunk_size f) (f_ino f) d)"
  using chunked.wr_result [OF assms] chunked.wr_inv [OF assms] chunked.wr_bytes [OF assms] by blast

theorem pwrite_refines_witness:
  "content 4 2 (snd (file_pwrite demo_file (3, 0) 9 [8, 9] demo_db)) = [0, 0, 1, 2, 3, 4, 5, 0, 0, 8, 9]"
proof -
  have "(9 :: nat) + length [8, 9 :: byte] < 2 ^ 63" by simp
  from pwrite_refines [OF demo_file_inv this, of "(3, 0)"] show ?thesis
    by (simp add: demo_file_def demo_content af_write_def resize_def eval_simps)
qed

text \<open>
  C3. Truncation through a handle succeeds, keeps the invariant, and leaves the first bytes
  of the file, extended by zeros when it grows.
\<close>

theorem truncate_refines:
  assumes "file_inv f d" and "n < 2 ^ 63"
  shows "fst (file_truncate f now n d) = Inr () \<and>
    file_inv f (snd (file_truncate f now n d)) \<and>
    content (f_chunk_size f) (f_ino f) (snd (file_truncate f now n d)) =
      af_truncate n (content (f_chunk_size f) (f_ino f) d)"
  using chunked.tr_result [OF assms] chunked.tr_inv [OF assms] chunked.tr_bytes [OF assms] by blast

theorem truncate_refines_witness:
  "content 4 2 (snd (file_truncate demo_file (3, 0) 5 demo_db)) = [0, 0, 1, 2, 3]"
proof -
  have "(5 :: nat) < 2 ^ 63" by simp
  from truncate_refines [OF demo_file_inv this, of "(3, 0)"] show ?thesis
    by (simp add: demo_file_def demo_content af_truncate_def resize_def)
qed

text \<open>
  Any sequence of writes and truncations through a handle has the effect of the same
  sequence on a plain byte list, and never leaves the representation invariant.
\<close>

theorem file_ops_refine:
  assumes "file_inv f d" and "list_all file_op_in_range ops"
  shows "file_inv f (fold (run_file_op f) ops d) \<and>
    content (f_chunk_size f) (f_ino f) (fold (run_file_op f) ops d) =
      fold apply_file_op ops (content (f_chunk_size f) (f_ino f) d)"
  using assms by (rule fold_run_file_ops)

theorem file_ops_refine_witness:
  "content 4 2 (fold (run_file_op demo_file) [Truncate (1, 0) 3, Pwrite (2, 0) 5 [7], Truncate (3, 0) 8] demo_db) =
    [0, 0, 1, 0, 0, 7, 0, 0]"
proof -
  have "list_all file_op_in_range [Truncate (1, 0) 3, Pwrite (2, 0) 5 [7], Truncate (3, 0) 8]" by simp
  from file_ops_refine [OF demo_file_inv this] show ?thesis
    by (simp add: demo_file_def demo_content af_truncate_def af_write_def resize_def eval_simps)
qed

text \<open>
  What was written is what is read back, whatever the offset, the chunk size and the
  previous content; reads that end before the write are unaffected.
\<close>

theorem read_back:
  assumes "file_inv f d" and "offset + length data < 2 ^ 63"
    and "offset' + n \<le> offset" and "offset \<le> select_size d (f_ino f)"
  shows "file_pread f offset (length data) (snd (file_pwrite f now offset data d)) = Inr data \<and>
    file_pread f offset' n (snd (file_pwrite f now offset data d)) = file_pread f offset' n d"
  using chunked.read_own_write [OF assms(1,2)] chunked.read_other_range [OF assms(1-3)] assms(4)
  by simp

theorem read_back_witness:
  "file_pread demo_file 5 2 (snd (file_pwrite demo_file (1, 0) 5 [8, 9] demo_db)) = Inr [8, 9] \<and>
   file_pread demo_file 2 3 (snd (file_pwrite demo_file (1, 0) 5 [8, 9] demo_db)) = file_pread demo_file 2 3 demo_db"
proof -
  have "(5 :: nat) + length [8, 9 :: byte] < 2 ^ 63" "(2 :: nat) + 3 \<le> 5" "5 \<le> select_size demo_db (f_ino demo_file)"
    by (simp, simp, code_simp)
  from read_back [OF demo_file_inv this, of "(1, 0)"] show ?thesis by (simp add: numeral_2_eq_2)
qed

text \<open>
  Writes to disjoint ranges of a file can be exchanged: the content after both does not
  depend on their order.
\<close>

theorem disjoint_pwrites_commute:
  assumes "file_inv f d" and "off1 + length data1 \<le> off2" and "off2 + length data2 < 2 ^ 63"
  shows "content (f_chunk_size f) (f_ino f) (snd (file_pwrite f now2 off2 data2 (snd (file_pwrite f now1 off1 data1 d)))) =
    content (f_chunk_size f) (f_ino f) (snd (file_pwrite f now1 off1 data1 (snd (file_pwrite f now2 off2 data2 d))))"
  using assms by (rule chunked.disjoint_writes_commute)

theorem disjoint_pwrites_commute_witness:
  "content 4 2 (snd (file_pwrite demo_file (2, 0) 6 [9] (snd (file_pwrite demo_file (1, 0) 3 [7, 8] demo_db)))) =
    content 4 2 (snd (file_pwrite demo_file (1, 0) 3 [7, 8] (snd (file_pwrite demo_file (2, 0) 6 [9] demo_db))))"
proof -
  have "(3 :: nat) + length [7, 8 :: byte] \<le> 6" "(6 :: nat) + length [9 :: byte] < 2 ^ 63" by simp_all
  from disjoint_pwrites_commute [OF demo_file_inv this, of "(2, 0)" "(1, 0)"] show ?thesis
    by (simp add: demo_file_def)
qed

text \<open>
  Bytes cut off by a truncation never come back: shrinking and then growing a file leaves
  zeros where they were.
\<close>

theorem shrink_grow_zeros:
  assumes "file_inv f d" and "m \<le> select_size d (f_ino f)" and "m \<le> n" and "n < 2 ^ 63"
  shows "content (f_chunk_size f) (f_ino f) (snd (file_truncate f now2 n (snd (file_truncate f now1 m d)))) =
    take m (content (f_chunk_size f) (f_ino f) d) @ replicate (n - m) 0"
  using chunked.shrink_then_grow [of f d m n] assms by simp

theorem shrink_grow_zeros_witness:
  "content 4 2 (snd (file_truncate demo_file (2, 0) 6 (snd (file_truncate demo_file (1, 0) 3 demo_db)))) =
    [0, 0, 1, 0, 0, 0]"
proof -
  have "(3 :: nat) \<le> select_size demo_db (f_ino demo_file)" "(3 :: nat) \<le> 6" "(6 :: nat) < 2 ^ 63"
    by (code_simp, simp, simp)
  from shrink_grow_zeros [OF demo_file_inv this, of "(2, 0)" "(1, 0)"] show ?thesis
    by (simp add: demo_file_def demo_content eval_simps)
qed

section \<open>States that requests can reach\<close>

text \<open>
  C4. An instance opened on a new database serves requests of a mount in any order, each of
  which meets its side condition \<open>call_ok\<close> in the state it is served in: the parent directory
  of a new or renamed entry exists and is a directory, a rename is not of a name to itself,
  writes and truncations go to a file that still exists, symlink targets, end offsets and sizes are below
  2 to the power 63, and there are at most 2 to the power 32 entries at an unlink or rename. Then its tables stay
  consistent, the chunks of every file lie inside its size, and its entry cache never
  disagrees with the directory entries, for every cache that meets its contract. The code does not
  check these conditions itself, and without them the tables need not stay consistent: see
  \<open>mkdir_below_file\<close> and \<open>rename_same_name_destroys\<close>.
\<close>

theorem reachable_consistent:
  assumes "lru_cache L view" and "view cache = Map.empty"
    and "reachable L (from_pool uid gid now cache epoch empty_db) s"
  shows "wf_db (afs_db s) \<and> data_ok (afs_chunk_size s) (afs_db s) \<and> coherent view s"
  using lru_cache.reachable_good [OF assms(1,3) lru_cache.good_from_pool [OF assms(1,2)]]
  by (simp add: good_def)

theorem reachable_consistent_witness:
  "wf_db (afs_db demo_run) \<and> data_ok (afs_chunk_size demo_run) (afs_db demo_run) \<and> coherent map_of demo_run \<and>
   map fst (fs_dentry (afs_db demo_run)) = [(1, ''d''), (2, ''h''), (1, ''l'')]"
proof -
  have "map fst (fs_dentry (afs_db demo_run)) = [(1, ''d''), (2, ''h''), (1, ''l'')]" by code_simp
  with reachable_consistent [OF demo_lru_cache demo_empty demo_reachable [unfolded demo_start_def]]
  show ?thesis by blast
qed

text \<open>
  C5. In every state reached by requests that meet their side conditions (\<open>call_ok\<close>: parents are
  directories, no rename of a name to itself, writes and truncations only of files that still exist, and the
  bounds on offsets, sizes and the number of entries) path resolution through the cache gives what a walk through the
  directory entries gives, and changes nothing but the cache. After a rename of a name to itself, which the
  condition leaves out, the cache keeps an entry that is gone and the two differ.
\<close>

theorem reachable_resolve_walk:
  assumes "lru_cache L view" and "view cache = Map.empty"
    and "reachable L (from_pool uid gid now cache epoch empty_db) s"
  shows "fst (resolve_path L path s) = Inr (walk (afs_db s) ROOT_INO (split_path path)) \<and>
    afs_db (snd (resolve_path L path s)) = afs_db s \<and> coherent view (snd (resolve_path L path s))"
proof -
  have g: "good view s"
    using lru_cache.reachable_good [OF assms(1,3) lru_cache.good_from_pool [OF assms(1,2)]] .
  from lru_cache.resolve_path_walk [OF assms(1) goodD(4,3) [OF g], of path] show ?thesis by auto
qed

theorem reachable_resolve_walk_witness:
  "fst (resolve_path demo_lru ''/d/./h'' demo_run) = Inr (Some 3)"
proof -
  have "walk (afs_db demo_run) ROOT_INO (split_path ''/d/./h'') = Some 3" by code_simp
  with reachable_resolve_walk [OF demo_lru_cache demo_empty demo_reachable [unfolded demo_start_def], of "''/d/./h''"]
  show ?thesis by simp
qed

text \<open>
  In every reachable state a handle opened on an inode reads exactly the bytes of its file.
\<close>

theorem reachable_open_read:
  assumes "lru_cache L view" and "view cache = Map.empty"
    and "reachable L (from_pool uid gid now cache epoch empty_db) s" and "fs_open ino s = Inr f"
  shows "file_pread f offset want (afs_db s) =
    Inr (take want (drop offset (content (afs_chunk_size s) ino (afs_db s))))"
proof -
  have g: "good view s"
    using lru_cache.reachable_good [OF assms(1,3) lru_cache.good_from_pool [OF assms(1,2)]] .
  have "live (afs_db s) ino" and f: "f = \<lparr>f_ino = ino, f_chunk_size = afs_chunk_size s\<rparr>"
    using assms(4) by (auto simp: fs_open_def live_def split: option.splits)
  with chunked.rd_bytes [OF good_file_inv [OF g]] show ?thesis by simp
qed

theorem reachable_open_read_witness:
  "file_pread \<lparr>f_ino = 3, f_chunk_size = 4096\<rparr> 1 9 (afs_db demo_run) =
    Inr (take 9 (drop 1 (content (afs_chunk_size demo_run) 3 (afs_db demo_run))))"
proof -
  have "fs_open 3 demo_run = Inr \<lparr>f_ino = 3, f_chunk_size = 4096\<rparr>" by code_simp
  from reachable_open_read [OF demo_lru_cache demo_empty demo_reachable [unfolded demo_start_def] this]
  show ?thesis .
qed

text \<open>
  C6. In every state reached by requests that meet their side conditions (\<open>call_ok\<close>: parents are
  directories, no rename of a name to itself, writes and truncations only of files that still exist, and the
  bounds on offsets, sizes and the number of entries) the link count of an inode that is not a directory is the
  number of its directory entries and is not zero, and file data and symlink targets belong to
  existing inodes that are not directories. A write through a handle after the last name of its file was removed,
  which the condition leaves out, makes rows of data that belong to no inode.
\<close>

theorem reachable_link_counts:
  assumes "lru_cache L view" and "view cache = Map.empty"
    and "reachable L (from_pool uid gid now cache epoch empty_db) s"
  shows "(\<forall>ino r. select_inode (afs_db s) ino = Some r \<and> \<not> mode_is (r_mode r) S_IFDIR \<longrightarrow>
      r_nlink r = int (length (filter (\<lambda>e. snd e = ino) (fs_dentry (afs_db s)))) \<and> 0 < r_nlink r) \<and>
    (\<forall>k. map_of (fs_data (afs_db s)) k \<noteq> None \<longrightarrow> file_ino (afs_db s) (fst k)) \<and>
    (\<forall>ino. map_of (fs_symlink (afs_db s)) ino \<noteq> None \<longrightarrow> file_ino (afs_db s) ino)"
proof -
  have wf: "wf_db (afs_db s)"
    using lru_cache.reachable_good [OF assms(1,3) lru_cache.good_from_pool [OF assms(1,2)]] goodD(1) by blast
  show ?thesis using nlink_entries [OF wf] wf_dbD(8,9) [OF wf] by blast
qed

theorem reachable_link_counts_witness:
  "file_ino (afs_db demo_run) 3 \<and> map_option r_nlink (select_inode (afs_db demo_run) 3) = Some 1"
proof -
  have "map_of (fs_data (afs_db demo_run)) (3, 0) \<noteq> None" by code_simp
  then have "file_ino (afs_db demo_run) 3"
    using reachable_link_counts [OF demo_lru_cache demo_empty demo_reachable [unfolded demo_start_def]] by force
  moreover have "map_option r_nlink (select_inode (afs_db demo_run) 3) = Some 1" by code_simp
  ultimately show ?thesis by blast
qed

section \<open>Operations of a mount\<close>

text \<open>
  A file that was just created is found under its name with the attributes that were
  returned, can be opened, is empty, and has an inode number that no other inode had.
\<close>

theorem create_file_found:
  assumes "wf_db (afs_db s)" and "is_dir_ino (afs_db s) p" and "n \<noteq> ''..''"
    and "fs_create_file L now p n mode uid gid s = (Inr (st, f), s')"
  shows "fst (fs_lookup L p n s') = Inr (Some st) \<and> fs_open (st_ino st) s' = Inr f \<and>
    file_pread f offset want (afs_db s') = Inr [] \<and> select_inode (afs_db s) (st_ino st) = None"
  using create_then_lookup [OF assms] by blast

theorem create_file_found_witness:
  "\<exists>st f s'. fs_create_file demo_lru (9, 0) 2 ''n'' 420 5 6 demo_run = (Inr (st, f), s') \<and>
    fst (fs_lookup demo_lru 2 ''n'' s') = Inr (Some st) \<and> st_uid st = 5"
proof -
  let ?r = "fs_create_file demo_lru (9, 0) 2 ''n'' 420 5 6 demo_run"
  have "is_dir_ino (afs_db demo_run) 2" "map_sum (\<lambda>_. ()) (\<lambda>x. st_uid (fst x)) (fst ?r) = Inr 5" by code_simp+
  then obtain st f s' where r: "?r = (Inr (st, f), s')" and "st_uid st = 5"
    by (cases "fst ?r"; cases ?r) auto
  moreover have "wf_db (afs_db demo_run)" by code_simp
  ultimately show ?thesis
    using create_file_found [OF _ \<open>is_dir_ino (afs_db demo_run) 2\<close> _ r] by blast
qed

text \<open>
  C7. Unlinking removes exactly the entry. With the last entry the inode, its data and its
  symlink target are gone; before that its content stays, and so does every other file.
\<close>

theorem unlink_effect:
  assumes "wf_db (afs_db s)" and "fs_unlink L now p n s = (Inr (), s')"
    and "map_of (fs_dentry (afs_db s)) (p, n) = Some i" and "links (afs_db s) i \<le> 2 ^ 32"
  shows "map_of (fs_dentry (afs_db s')) = (map_of (fs_dentry (afs_db s)))((p, n) := None) \<and>
    (links (afs_db s) i = 1 \<longrightarrow> select_inode (afs_db s') i = None \<and>
       (\<forall>k. map_of (fs_data (afs_db s')) (i, k) = None) \<and> map_of (fs_symlink (afs_db s')) i = None) \<and>
    (1 < links (afs_db s) i \<longrightarrow> content cs i (afs_db s') = content cs i (afs_db s) \<and> live (afs_db s') i) \<and>
    (\<forall>j. j \<noteq> i \<longrightarrow> content cs j (afs_db s') = content cs j (afs_db s) \<and> live (afs_db s') j = live (afs_db s) j)"
  using unlink_db [OF assms] by blast

theorem unlink_effect_witness:
  "select_inode (afs_db (snd (fs_unlink demo_lru (9, 0) 2 ''h'' demo_run))) 3 = None"
proof -
  let ?r = "fs_unlink demo_lru (9, 0) 2 ''h'' demo_run"
  have h: "wf_db (afs_db demo_run)" "fst ?r = Inr ()" "map_of (fs_dentry (afs_db demo_run)) (2, ''h'') = Some 3"
    "links (afs_db demo_run) 3 = 1" by code_simp+
  from h(2) have r: "?r = (Inr (), snd ?r)" by (cases ?r) simp
  from h(4) have "links (afs_db demo_run) 3 \<le> 2 ^ 32" by simp
  with unlink_effect [OF h(1) r h(3)] h(4) show ?thesis by blast
qed

text \<open>
  A rename to a free name succeeds, moves exactly that entry and changes no file content,
  no symlink target and no inode's existence.
\<close>

theorem rename_effect:
  assumes "wf_db (afs_db s)" and "data_ok cs (afs_db s)" and "is_dir_ino (afs_db s) np"
    and "map_of (fs_dentry (afs_db s)) (op, on) = Some src" and "map_of (fs_dentry (afs_db s)) (np, nn) = None"
    and "length nn \<le> MAX_NAME_LEN"
  shows "\<exists>s'. fs_rename L now_dec now op on np nn s = (Inr (), s') \<and>
    map_of (fs_dentry (afs_db s')) = (map_of (fs_dentry (afs_db s)))((op, on) := None, (np, nn) \<mapsto> src) \<and>
    (\<forall>j. content cs j (afs_db s') = content cs j (afs_db s)) \<and> live (afs_db s') = live (afs_db s) \<and>
    fs_symlink (afs_db s') = fs_symlink (afs_db s)"
  using rename_to_free [OF assms, of L now_dec now] by metis

theorem rename_effect_witness:
  "\<exists>s'. fs_rename demo_lru (9, 0) (9, 1) 1 ''a'' 1 ''b'' demo_fs = (Inr (), s') \<and>
    map_of (fs_dentry (afs_db s')) (1, ''b'') = Some 2"
proof -
  have h: "wf_db (afs_db demo_fs)" "is_dir_ino (afs_db demo_fs) 1"
    "map_of (fs_dentry (afs_db demo_fs)) (1, ''a'') = Some 2" "map_of (fs_dentry (afs_db demo_fs)) (1, ''b'') = None"
    "length ''b'' \<le> MAX_NAME_LEN" by code_simp+
  have "data_ok 4 (afs_db demo_fs)"
    unfolding data_ok_def using demo_fs_inodes
    by (auto simp: chunks_within_def live_def select_size_def select_inode_def demo_fs_data as_u64_def split: if_splits)
  from rename_effect [OF h(1) this h(2-5), of demo_lru "(9, 0)" "(9, 1)"] show ?thesis by fastforce
qed

text \<open>
  A rename of a file with one link to its own name reports success and destroys it: the
  entry, the inode and the data are gone.
\<close>

theorem rename_same_name_destroys:
  assumes "wf_db (afs_db s)" and "map_of (fs_dentry (afs_db s)) (p, n) = Some i"
    and "\<not> is_dir_ino (afs_db s) i" and "links (afs_db s) i = 1" and "length n \<le> MAX_NAME_LEN"
  shows "\<exists>s'. fs_rename L now_dec now p n p n s = (Inr (), s') \<and>
    map_of (fs_dentry (afs_db s')) (p, n) = None \<and> select_inode (afs_db s') i = None \<and>
    (\<forall>k. map_of (fs_data (afs_db s')) (i, k) = None)"
  using rename_to_itself [OF assms, of L now_dec now] by metis

theorem rename_same_name_destroys_witness:
  "\<exists>s'. fs_rename demo_lru (9, 0) (9, 1) 2 ''h'' 2 ''h'' demo_run = (Inr (), s') \<and>
    select_inode (afs_db s') 3 = None"
proof -
  have "wf_db (afs_db demo_run)" "map_of (fs_dentry (afs_db demo_run)) (2, ''h'') = Some 3"
    "\<not> is_dir_ino (afs_db demo_run) 3" "links (afs_db demo_run) 3 = 1" "length ''h'' \<le> MAX_NAME_LEN"
    by code_simp+
  from rename_same_name_destroys [OF this, of demo_lru "(9, 0)" "(9, 1)"] show ?thesis by blast
qed

text \<open>
  Removing an empty directory that has the link count it was created with deletes its
  entry but not its inode row, which stays with a link count of 1 and no entry.
\<close>

theorem rmdir_leaves_inode:
  assumes "wf_db (afs_db s)" and "map_of (fs_dentry (afs_db s)) (p, n) = Some i"
    and "select_inode (afs_db s) i = Some r" and "r_nlink r = 2" and "fs_rmdir L now p n s = (Inr (), s')"
  shows "map_of (fs_dentry (afs_db s')) (p, n) = None \<and> links (afs_db s') i = 0 \<and>
    (\<exists>r'. select_inode (afs_db s') i = Some r' \<and> r_nlink r' = 1)"
  using rmdir_keeps_row [OF assms] by blast

theorem rmdir_leaves_inode_witness:
  "\<exists>r'. select_inode (afs_db (snd (fs_rmdir demo_lru (9, 0) 1 ''e''
      (run_call demo_lru (Mkdir (8, 0) 1 ''e'' 493 0 0) demo_run)))) 5 = Some r' \<and> r_nlink r' = 1"
proof -
  let ?s = "run_call demo_lru (Mkdir (8, 0) 1 ''e'' 493 0 0) demo_run"
  let ?r = "fs_rmdir demo_lru (9, 0) 1 ''e'' ?s"
  have h: "wf_db (afs_db ?s)" "map_of (fs_dentry (afs_db ?s)) (1, ''e'') = Some 5"
    "map_option r_nlink (select_inode (afs_db ?s) 5) = Some 2" "fst ?r = Inr ()" by code_simp+
  from h(3) obtain r where r: "select_inode (afs_db ?s) 5 = Some r" "r_nlink r = 2" by auto
  from h(4) have res: "?r = (Inr (), snd ?r)" by (cases ?r) simp
  from rmdir_leaves_inode [OF h(1,2) r res] show ?thesis by blast
qed

text \<open>
  Listing a directory gives its entry names in order, each once.
\<close>

theorem readdir_exact:
  assumes "wf_db d" and "is_dir_ino d i"
  shows "\<exists>ns. fs_readdir i d = Inr (Some ns) \<and> sorted ns \<and> distinct ns \<and>
    set ns = {n. n \<noteq> [] \<and> map_of (fs_dentry d) (i, n) \<noteq> None}"
  by (rule readdir_names [OF wf_dbD(2) [OF assms(1)] assms(2)]) (intro exI conjI)

theorem readdir_exact_witness:
  "\<exists>ns. fs_readdir 1 (afs_db demo_run) = Inr (Some ns) \<and> sorted ns \<and> ''d'' \<in> set ns \<and> ''x'' \<notin> set ns"
proof -
  have h: "wf_db (afs_db demo_run)" "is_dir_ino (afs_db demo_run) 1"
    "map_of (fs_dentry (afs_db demo_run)) (1, ''d'') = Some 2" "map_of (fs_dentry (afs_db demo_run)) (1, ''x'') = None"
    by code_simp+
  from readdir_exact [OF h(1,2)] obtain ns where ns: "fs_readdir 1 (afs_db demo_run) = Inr (Some ns)" "sorted ns"
    "set ns = {n. n \<noteq> [] \<and> map_of (fs_dentry (afs_db demo_run)) (1, n) \<noteq> None}"
    by (elim exE conjE) (rule that)
  then have "''d'' \<in> set ns" "''x'' \<notin> set ns" using h(3,4) by simp_all
  with ns(1,2) show ?thesis by blast
qed

text \<open>
  \<open>chmod\<close> sets the permission bits to the ones asked for and leaves the file type, the
  size and the link count alone.
\<close>

theorem chmod_effect:
  assumes "select_inode d ino = Some r" and "fs_chmod now ino mode d = (res, d')"
  shows "res = Inr () \<and> (\<exists>r'. select_inode d' ino = Some r' \<and>
    r_mode r' AND S_IFMT = r_mode r AND S_IFMT \<and> r_mode r' AND PERM_MASK = mode AND PERM_MASK \<and>
    r_size r' = r_size r \<and> r_nlink r' = r_nlink r)"
  using chmod_bits [OF assms] by metis

theorem chmod_effect_witness:
  "\<exists>r'. select_inode (snd (fs_chmod (9, 0) 3 65535 (afs_db demo_run))) 3 = Some r' \<and>
    r_mode r' AND S_IFMT = S_IFREG"
proof -
  let ?r = "fs_chmod (9, 0) 3 65535 (afs_db demo_run)"
  have "map_option (\<lambda>r. r_mode r AND S_IFMT) (select_inode (afs_db demo_run) 3) = Some S_IFREG" by code_simp
  then obtain r where r: "select_inode (afs_db demo_run) 3 = Some r" "r_mode r AND S_IFMT = S_IFREG" by auto
  from chmod_effect [OF r(1), of "(9, 0)" 65535 "fst ?r" "snd ?r"] r(2) show ?thesis by auto
qed

text \<open>
  A write through a handle whose file was removed meanwhile reports success and stores
  data for an inode that does not exist, so the tables are no longer consistent.
\<close>

theorem write_after_unlink_orphans:
  assumes "select_inode d (f_ino f) = None" and "0 < f_chunk_size f" and "data \<noteq> []"
  shows "fst (file_pwrite f now offset data d) = Inr () \<and>
    select_inode (snd (file_pwrite f now offset data d)) (f_ino f) = None \<and>
    (\<exists>k. map_of (fs_data (snd (file_pwrite f now offset data d))) (f_ino f, k) \<noteq> None) \<and>
    \<not> wf_db (snd (file_pwrite f now offset data d))"
  using write_after_purge [OF assms] by blast

theorem write_after_unlink_orphans_witness:
  "\<not> wf_db (snd (file_pwrite demo_file (9, 0) 0 [1] (afs_db (snd (fs_unlink demo_lru (8, 0) 1 ''a'' demo_fs)))))"
proof -
  have "select_inode (afs_db (snd (fs_unlink demo_lru (8, 0) 1 ''a'' demo_fs))) (f_ino demo_file) = None"
    "0 < f_chunk_size demo_file" by code_simp+
  from write_after_unlink_orphans [OF this, of "[1]" "(9, 0)" 0] show ?thesis by simp
qed

section \<open>Paths and configuration\<close>

text \<open>
  C9. The components of a normalised path are names: none is empty, \<open>.\<close> or \<open>..\<close>, none
  contains a slash; normalising is idempotent on absolute paths, and the parent path that is
  built from the components splits into all of them but the last.
\<close>

theorem normalized_paths:
  "list_all clean_component (split_path (normalize_path path)) \<and>
   (path = [] \<or> hd path = CHR ''/'' \<longrightarrow> normalize_path (normalize_path path) = normalize_path path) \<and>
   (split_path (normalize_path path) \<noteq> [] \<longrightarrow>
      split_path (parent_path (split_path (normalize_path path))) = butlast (split_path (normalize_path path)))"
  using split_normalize_clean [of path] split_parent [of "split_path (normalize_path path)"]
    normalize_absolute [of path] normalize_path_of by metis

theorem normalized_paths_witness:
  "normalize_path (normalize_path ''/a/./b/../c'') = normalize_path ''/a/./b/../c'' \<and>
   split_path (parent_path (split_path (normalize_path ''/a/./b/../c''))) = [''a'']"
proof -
  have "split_path (normalize_path ''/a/./b/../c'') = [''a'', ''c'']" by code_simp
  with normalized_paths [of "''/a/./b/../c''"] show ?thesis by simp
qed

text \<open>
  Opening a database keeps its consistency and the chunk size it was created with: the
  decimal text stored in the configuration is read back as the same number.
\<close>

theorem reopen_keeps_chunk_size:
  assumes "wf_db d" and "n < 2 ^ 64" and "map_of (fs_config d) ''chunk_size'' = Some (to_decimal n)"
  shows "afs_chunk_size (from_pool uid gid now cache epoch d) = n \<and>
    wf_db (afs_db (from_pool uid gid now cache epoch d))"
  using assms wf_initialize_schema [OF assms(1), of uid gid now] parse_usize_to_decimal [OF assms(2)]
  by (auto simp: from_pool_def Let_def read_chunk_size_def initialize_schema_chunk_size)

theorem reopen_keeps_chunk_size_witness:
  "afs_chunk_size (from_pool 1 1 (9, 0) ([] :: (dentry_key \<times> i64) list) None (afs_db demo_run)) = 4096"
proof -
  have "wf_db (afs_db demo_run)" "(4096 :: nat) < 2 ^ 64"
    "map_of (fs_config (afs_db demo_run)) ''chunk_size'' = Some (to_decimal 4096)" by code_simp+
  from reopen_keeps_chunk_size [OF this, of 1 1 "(9, 0)" "[] :: (dentry_key \<times> i64) list" None] show ?thesis by simp
qed

section \<open>The path-based interface\<close>

lemma client_good:
  assumes "lru_cache L view" and "view cache = Map.empty"
    and "client_reachable L (from_pool uid gid now cache epoch empty_db) s"
  shows "good view s"
  using lru_cache.client_reachable_good [OF assms(1,3) lru_cache.good_from_pool [OF assms(1,2)]] .

text \<open>
  C10. Requests of a mount and path-based calls of the SDK may be mixed in any order, as long as each
  meets its side condition in the state it is served in. For a request this is \<open>call_ok\<close>; for a
  path-based call it is \<open>path_call_ok\<close>: the parent path of a new entry, if it exists, is a directory, a write
  or a truncation is of a path that names no directory, a rename is not of an entry to itself, and the same bounds on targets,
  offsets, sizes and the number of entries. Then the tables stay consistent, the chunks of every file lie inside its size, and the entry cache
  never disagrees with the directory entries. The code checks none of these conditions: \<open>mkdir_below_file\<close>
  shows a path-based call outside them after which the tables are not consistent.
\<close>

theorem client_reachable_consistent:
  assumes "lru_cache L view" and "view cache = Map.empty"
    and "client_reachable L (from_pool uid gid now cache epoch empty_db) s"
  shows "wf_db (afs_db s) \<and> data_ok (afs_chunk_size s) (afs_db s) \<and> coherent view s"
  using client_good [OF assms] by (simp add: good_def)

theorem client_reachable_consistent_witness:
  "wf_db (afs_db demo_client) \<and> coherent map_of demo_client \<and>
   map fst (fs_dentry (afs_db demo_client)) = [(1, ''d''), (1, ''g''), (2, ''l''), (1, ''m'')]"
proof -
  have "map fst (fs_dentry (afs_db demo_client)) = [(1, ''d''), (1, ''g''), (2, ''l''), (1, ''m'')]" by code_simp
  with client_reachable_consistent [OF demo_lru_cache demo_empty demo_client_reachable [unfolded demo_start_def]]
  show ?thesis by blast
qed

text \<open>
  Writing by path to an existing file succeeds and leaves the same content as writing
  through a handle, although the two loops cut the data into chunks differently; no directory
  entry changes.
\<close>

theorem path_write_equals_handle_write:
  assumes "lru_cache L view" and "view cache = Map.empty"
    and "client_reachable L (from_pool uid gid now cache epoch empty_db) s"
    and "names_file s path f" and "file_ino (afs_db s) (f_ino f)" and "offset + length data < 2 ^ 63"
  shows "\<exists>s'. path_pwrite L t1 t2 path offset data s = (Inr (), s') \<and>
    content (f_chunk_size f) (f_ino f) (afs_db s') =
      content (f_chunk_size f) (f_ino f) (snd (file_pwrite f t3 offset data (afs_db s))) \<and>
    fs_dentry (afs_db s') = fs_dentry (afs_db s)"
proof -
  have g: "good view s" by (rule client_good [OF assms(1-3)])
  have inv: "file_inv f (afs_db s)"
    using goodD [OF g] assms(4,5) by (intro data_ok_file_inv) (auto simp: names_file_def file_ino_def)
  obtain s' where "path_pwrite L t1 t2 path offset data s = (Inr (), s')"
    "content (f_chunk_size f) (f_ino f) (afs_db s') = af_write offset data (content (f_chunk_size f) (f_ino f) (afs_db s))"
    "fs_dentry (afs_db s') = fs_dentry (afs_db s)"
    using lru_cache.path_pwrite_existing [OF assms(1) g assms(4) inv assms(6)] by metis
  with chunked.wr_bytes [OF inv assms(6)] show ?thesis by auto
qed

theorem path_write_equals_handle_write_witness:
  "\<exists>s'. path_pwrite demo_lru (7, 0) (7, 0) ''/g'' 2 [8, 9] demo_client = (Inr (), s') \<and>
    content 4096 3 (afs_db s') = content 4096 3 (snd (file_pwrite demo_g (7, 0) 2 [8, 9] (afs_db demo_client)))"
proof -
  have "file_ino (afs_db demo_client) (f_ino demo_g)" "(2 :: nat) + length [8, 9 :: byte] < 2 ^ 63"
    by (code_simp, simp)
  from path_write_equals_handle_write [OF demo_lru_cache demo_empty demo_client_reachable [unfolded demo_start_def]
      demo_g_names this, of "(7, 0)" "(7, 0)" "(7, 0)"]
  show ?thesis by (auto simp: demo_g_def)
qed

text \<open>
  C11. A file whose chunks tile it stays so under a path-based write that starts at or before
  its end, and reading it back by path, whole or in part, gives exactly the written content.
\<close>

theorem path_write_read_back:
  assumes "lru_cache L view" and "view cache = Map.empty"
    and "client_reachable L (from_pool uid gid now cache epoch empty_db) s"
    and "names_file s path f" and "dense f (afs_db s)" and "file_ino (afs_db s) (f_ino f)"
    and "offset \<le> select_size (afs_db s) (f_ino f)" and "offset + length data < 2 ^ 63" and "off' + n < 2 ^ 63"
    and "hd path = CHR ''/''"
  shows "\<exists>s'. path_pwrite L t1 t2 path offset data s = (Inr (), s') \<and> dense f (afs_db s') \<and>
    fst (read_file L path s') = Inr (Some (af_write offset data (content (f_chunk_size f) (f_ino f) (afs_db s)))) \<and>
    fst (path_pread L path off' n s') =
      Inr (Some (take n (drop off' (af_write offset data (content (f_chunk_size f) (f_ino f) (afs_db s))))))"
proof -
  have g: "good view s" by (rule client_good [OF assms(1-3)])
  obtain s' where s': "path_pwrite L t1 t2 path offset data s = (Inr (), s')"
    "path_write_data (f_chunk_size f) t2 (f_ino f) (select_size (afs_db s) (f_ino f)) False offset data (afs_db s) = Inr (afs_db s')"
    "content (f_chunk_size f) (f_ino f) (afs_db s') = af_write offset data (content (f_chunk_size f) (f_ino f) (afs_db s))"
    "fs_dentry (afs_db s') = fs_dentry (afs_db s)" "afs_chunk_size s' = afs_chunk_size s"
    using lru_cache.path_pwrite_existing [OF assms(1) g assms(4) dense_inv [OF assms(5)] assms(8)] by metis
  have d: "dense f (afs_db s')" by (rule path_write_data_dense [OF assms(5,7,8) s'(2)])
  have "good view (run_path_call L (P_Pwrite t1 t2 path offset data) s)"
  proof (rule lru_cache.good_run_path_call [OF assms(1) g])
    show "path_call_ok (P_Pwrite t1 t2 path offset data) (afs_db s)"
      using assms(4,6,8) names_file_parent [OF goodD(1) [OF g] assms(4)] by (simp add: target_file_def names_file_def)
  qed
  then have g': "good view s'" using s'(1) by simp
  have w: "walk (afs_db s') ROOT_INO (split_path path) = Some (f_ino f)"
    using assms(4,10) split_absolute [of path] walk_cong [OF s'(4)] by (simp add: names_file_def)
  have "f_chunk_size f = afs_chunk_size s'" using assms(4) s'(5) by (simp add: names_file_def)
  with s' d lru_cache.read_file_dense [OF assms(1) goodD(4,3) [OF g'] w d] lru_cache.path_pread_dense [OF assms(1) g' w d _ assms(9)]
  show ?thesis by simp
qed
theorem path_write_read_back_witness:
  "\<exists>s'. path_pwrite demo_lru (7, 0) (7, 0) ''/g'' 2 [8, 9] demo_client = (Inr (), s') \<and>
    fst (read_file demo_lru ''/g'' s') = Inr (Some [1, 2, 8, 9]) \<and>
    fst (path_pread demo_lru ''/g'' 1 2 s') = Inr (Some [2, 8])"
proof -
  have "file_ino (afs_db demo_client) (f_ino demo_g)" "2 \<le> select_size (afs_db demo_client) (f_ino demo_g)"
    by code_simp+
  moreover have "(2 :: nat) + length [8, 9 :: byte] < 2 ^ 63" "(1 :: nat) + 2 < 2 ^ 63" "hd ''/g'' = CHR ''/''" by simp_all
  ultimately obtain s' where "path_pwrite demo_lru (7, 0) (7, 0) ''/g'' 2 [8, 9] demo_client = (Inr (), s')"
    "fst (read_file demo_lru ''/g'' s') = Inr (Some (af_write 2 [8, 9] (content 4096 3 (afs_db demo_client))))"
    "fst (path_pread demo_lru ''/g'' 1 2 s') = Inr (Some (take 2 (drop 1 (af_write 2 [8, 9] (content 4096 3 (afs_db demo_client))))))"
    using path_write_read_back [OF demo_lru_cache demo_empty demo_client_reachable [unfolded demo_start_def]
      demo_g_names demo_g_dense, of 2 "[8, 9]" 1 2 "(7, 0)" "(7, 0)"] by (auto simp: demo_g_def)
  then show ?thesis by (simp add: demo_g_content af_write_def resize_def eval_simps numeral_2_eq_2)
qed

text \<open>
  Truncating a tiled file by path, shorter or longer, succeeds and leaves exactly its
  first bytes, filled up with zeros; the file stays tiled and reads back by path.
\<close>

theorem path_truncate_read_back:
  assumes "lru_cache L view" and "view cache = Map.empty"
    and "client_reachable L (from_pool uid gid now cache epoch empty_db) s"
    and "names_file s path f" and "dense f (afs_db s)" and "n < 2 ^ 63" and "hd path = CHR ''/''"
  shows "\<exists>s'. path_truncate L t path n s = (Inr (), s') \<and> dense f (afs_db s') \<and>
    fst (read_file L path s') = Inr (Some (af_truncate n (content (f_chunk_size f) (f_ino f) (afs_db s))))"
proof -
  have g: "good view s" by (rule client_good [OF assms(1-3)])
  have w: "walk (afs_db s) ROOT_INO (split_path (normalize_path path)) = Some (f_ino f)"
    and cs: "f_chunk_size f = afs_chunk_size s" using assms(4) by (simp_all add: names_file_def)
  obtain s' where s': "path_truncate L t path n s = (Inr (), s')" "dense f (afs_db s')"
    "content (f_chunk_size f) (f_ino f) (afs_db s') = af_truncate n (content (f_chunk_size f) (f_ino f) (afs_db s))"
    "coherent view s'" "fs_dentry (afs_db s') = fs_dentry (afs_db s)"
    using lru_cache.path_truncate_dense [OF assms(1) g w assms(5) cs assms(6)] by metis
  have "walk (afs_db s') ROOT_INO (split_path path) = Some (f_ino f)" "keyed (fs_dentry (afs_db s'))"
    using w assms(7) split_absolute [of path] walk_cong [OF s'(5)] s'(5) goodD(4) [OF g] by simp_all
  with lru_cache.read_file_dense [OF assms(1) _ s'(4) _ s'(2), of path] s' show ?thesis by simp
qed

theorem path_truncate_read_back_witness:
  "\<exists>s'. path_truncate demo_lru (7, 0) ''/g'' 5 demo_client = (Inr (), s') \<and>
    fst (read_file demo_lru ''/g'' s') = Inr (Some [1, 2, 3, 0, 0])"
proof -
  have "(5 :: nat) < 2 ^ 63" "hd ''/g'' = CHR ''/''" by simp_all
  from path_truncate_read_back [OF demo_lru_cache demo_empty demo_client_reachable [unfolded demo_start_def]
      demo_g_names demo_g_dense this, of "(7, 0)"]
  show ?thesis by (auto simp: demo_g_def demo_g_content af_truncate_def resize_def eval_simps)
qed

text \<open>
  Symbolic links are followed at most forty times: the lookup of a link that leads back to
  itself ends, with the error for a loop, and changes no table.
\<close>

theorem stat_symlink_loop:
  assumes "lru_cache L view" and "view cache = Map.empty"
    and "client_reachable L (from_pool uid gid now cache epoch empty_db) s"
    and "walk (afs_db s) ROOT_INO (split_path (normalize_path path)) = Some ino"
    and "select_inode (afs_db s) ino = Some r" and "mode_is (r_mode r) S_IFLNK"
    and "map_of (fs_symlink (afs_db s)) ino = Some target"
    and "follow_target (normalize_path path) target = normalize_path path"
  shows "fst (stat L path s) = Inl (Fs SymlinkLoop) \<and> afs_db (snd (stat L path s)) = afs_db s"
proof -
  have g: "good view s" by (rule client_good [OF assms(1-3)])
  from lru_cache.stat_loop_self [OF assms(1) g assms(4) split_normalize_twice assms(5-8)]
    lru_cache.good_stat_loop [OF assms(1) g]
  show ?thesis by (simp add: stat_def)
qed

theorem stat_symlink_loop_witness: "fst (stat demo_lru ''/m'' demo_client) = Inl (Fs SymlinkLoop)"
proof -
  have "walk (afs_db demo_client) ROOT_INO (split_path (normalize_path ''/m'')) = Some 5"
    "map_of (fs_symlink (afs_db demo_client)) 5 = Some ''m''"
    "follow_target (normalize_path ''/m'') ''m'' = normalize_path ''/m''"
    "map_option (\<lambda>r. mode_is (r_mode r) S_IFLNK) (select_inode (afs_db demo_client) 5) = Some True" by code_simp+
  then obtain r where "select_inode (afs_db demo_client) 5 = Some r" "mode_is (r_mode r) S_IFLNK" by auto
  with stat_symlink_loop [OF demo_lru_cache demo_empty demo_client_reachable [unfolded demo_start_def], of "''/m''" 5 r "''m''"]
    \<open>walk _ _ _ = _\<close> \<open>map_of _ _ = _\<close> \<open>follow_target _ _ = _\<close> show ?thesis by blast
qed

text \<open>
  The path-based \<open>remove\<close> looks at what a symbolic link leads to: a link whose target does
  not exist cannot be removed, the call reports that nothing is there and no table changes.
\<close>

theorem dangling_symlink_stays:
  assumes "lru_cache L view" and "view cache = Map.empty"
    and "client_reachable L (from_pool uid gid now cache epoch empty_db) s"
    and "split_path (normalize_path path) \<noteq> []"
    and "walk (afs_db s) ROOT_INO (split_path (normalize_path path)) = Some ino"
    and "select_inode (afs_db s) ino = Some r" and "mode_is (r_mode r) S_IFLNK"
    and "map_of (fs_symlink (afs_db s)) ino = Some target"
    and "walk (afs_db s) ROOT_INO (split_path (follow_target (normalize_path (normalize_path path)) target)) = None"
  shows "fst (remove L t path s) = Inl (Fs NotFound) \<and> afs_db (snd (remove L t path s)) = afs_db s"
proof -
  let ?p = "normalize_path path"
  have g: "good view s" by (rule client_good [OF assms(1-3)])
  have "ino \<noteq> ROOT_INO"
    using wf_dbD(5) [OF goodD(1) [OF g]] assms(6,7) mode_dir_not_link by (auto simp: is_dir_ino_def)
  moreover obtain s1 where s1: "resolve_path L ?p s = (Inr (Some ino), s1)" "afs_db s1 = afs_db s" "good view s1"
    using lru_cache.resolve_good [OF assms(1) g, of ?p] assms(5) by metis
  moreover have "fst (stat_loop L InvalidPath (Suc (Suc 38)) (normalize_path ?p) s1) = Inr None"
    by (rule lru_cache.stat_loop_dangling [OF assms(1) s1(3)])
      (use assms(5-9) s1(2) split_normalize_twice [of path] split_normalize_twice [of "normalize_path path"] in simp_all)
  then obtain s2 where "stat_with_conn L ?p s1 = (Inr None, s2)"
    by (cases "stat_with_conn L ?p s1") (simp add: stat_with_conn_def MAX_SYMLINK_DEPTH_def)
  moreover from lru_cache.good_stat_with_conn [OF assms(1) s1(3), of ?p] calculation
  have "afs_db s2 = afs_db s1" by (metis prod.inject)
  ultimately show ?thesis using assms(4) by (simp add: remove_def Let_def)
qed

theorem dangling_symlink_stays_witness: "fst (remove demo_lru (9, 0) ''/d/l'' demo_client) = Inl (Fs NotFound)"
proof -
  have h: "split_path (normalize_path ''/d/l'') \<noteq> []"
    "walk (afs_db demo_client) ROOT_INO (split_path (normalize_path ''/d/l'')) = Some 4"
    "map_of (fs_symlink (afs_db demo_client)) 4 = Some ''gone''"
    "walk (afs_db demo_client) ROOT_INO (split_path (follow_target (normalize_path (normalize_path ''/d/l'')) ''gone'')) = None"
    "map_option (\<lambda>r. mode_is (r_mode r) S_IFLNK) (select_inode (afs_db demo_client) 4) = Some True" by code_simp+
  then obtain r where r: "select_inode (afs_db demo_client) 4 = Some r" "mode_is (r_mode r) S_IFLNK" by auto
  from dangling_symlink_stays [OF demo_lru_cache demo_empty demo_client_reachable [unfolded demo_start_def] h(1,2) r h(3,4)]
  show ?thesis by blast
qed
text \<open>
  The path-based \<open>mkdir\<close> does not look at the type of the parent: below a file it succeeds,
  and the new entry belongs to no directory.
\<close>

theorem mkdir_below_file:
  assumes "lru_cache L view" and "view cache = Map.empty"
    and "client_reachable L (from_pool uid gid now cache epoch empty_db) s"
    and "split_path (normalize_path path) \<noteq> []"
    and "walk (afs_db s) ROOT_INO (butlast (split_path (normalize_path path))) = Some p" and "file_ino (afs_db s) p"
  shows "\<exists>s'. mkdir L t path u g s = (Inr (), s') \<and> \<not> wf_db (afs_db s') \<and>
    map_of (fs_dentry (afs_db s')) (p, last (split_path (normalize_path path))) \<noteq> None \<and> file_ino (afs_db s') p"
proof -
  let ?n = "last (split_path (normalize_path path))"
  have gd: "good view s" by (rule client_good [OF assms(1-3)])
  obtain s1 where s1: "resolve_parent L path s = (Inr (p, ?n), s1)" "afs_db s1 = afs_db s" "good view s1"
    using lru_cache.resolve_parent_walk [OF assms(1) gd assms(4)] assms(5) by auto
  note wf = goodD(1,4) [OF s1(3)]
  have nd: "\<not> is_dir_ino (afs_db s1) p" using assms(6) s1(2) by (simp add: file_ino_def)
  then have free: "map_of (fs_dentry (afs_db s1)) (p, ?n) = None"
    using wf_dbD(7) [OF wf(1), of "(p, ?n)"] by (cases "map_of (fs_dentry (afs_db s1)) (p, ?n)") (auto simp: dentry_ok_def)
  define d where "d = touch_parent t p (add_nlink 1 p (new_entry (new_row DEFAULT_DIR_MODE 2 u g 0 0 t) p ?n (afs_db s1)))"
  have mk: "mkdir L t path u g s = (Inr (), dcache_insert L p ?n (inode_seq (afs_db s1) + 1) (s1\<lparr>afs_db := d\<rparr>))"
    using free wf s1(1) by (simp add: mkdir_def create_simps update_new_entry d_def) (simp add: new_row_def)
  have e: "map_of (fs_dentry d) (p, ?n) = Some (inode_seq (afs_db s1) + 1)"
    using map_of_snoc [OF free] by (simp add: d_def)
  have "p \<noteq> inode_seq (afs_db s1) + 1" using assms(6) s1(2) fresh_ino [OF wf(1)] by (auto simp: file_ino_def live_def)
  then have f: "file_ino d p" using nd assms(6) s1(2) wf(1)
    by (auto simp: d_def file_ino_def live_def is_dir_ino_def new_entry_sel touch_parent_def add_nlink_def table_simps split: option.splits)
  then have "\<not> wf_db d" using wf_dbD(7) [of d "(p, ?n)"] e by (auto simp: dentry_ok_def file_ino_def)
  with mk e f show ?thesis by simp
qed

theorem mkdir_below_file_witness:
  "\<exists>s'. mkdir demo_lru (9, 0) ''/g/sub'' 0 0 demo_client = (Inr (), s') \<and> \<not> wf_db (afs_db s')"
proof -
  have "split_path (normalize_path ''/g/sub'') \<noteq> []"
    "walk (afs_db demo_client) ROOT_INO (butlast (split_path (normalize_path ''/g/sub''))) = Some 3"
    "file_ino (afs_db demo_client) 3" by code_simp+
  from mkdir_below_file [OF demo_lru_cache demo_empty demo_client_reachable [unfolded demo_start_def] this, of "(9, 0)" 0 0]
  show ?thesis by blast
qed

text \<open>
  A path-based write beyond the end of a file stores no chunk for the gap, and the
  path-based reads skip what is not stored: the file reads by path without its gap, although
  its size and a read through a handle have it as zeros.
\<close>

theorem path_write_gap_lost:
  "let s = snd (path_pwrite demo_lru (9, 0) (9, 0) ''/h'' 8 [5, 6] demo_init)
   in select_size (afs_db s) 2 = 10 \<and>
      file_pread \<lparr>f_ino = 2, f_chunk_size = 4\<rparr> 0 10 (afs_db s) = Inr [0, 0, 0, 0, 0, 0, 0, 0, 5, 6] \<and>
      fst (read_file demo_lru ''/h'' s) = Inr (Some [5, 6]) \<and>
      fst (path_pread demo_lru ''/h'' 0 10 s) = Inr (Some [5, 6])"
  by code_simp

end
